(* ===== verification/Prelude.thy ===== *)
theory Prelude
  imports Complex_Main "HOL-Library.Word"
begin

text \<open>
  The part of the Go language and of its standard library that the components share:
  error values, the fixed-width conversions, instants of time, slice indexing, and the
  retry loop that the crawlers and the fetchers have in common.

  A function of the source that returns \<open>(T, error)\<close> and whose callers drop the value when the
  error is set is a function into \<open>go_err + T\<close>. A run-time panic (an index out of range, a
  method called on a nil pointer) is the error value \<open>Panic\<close>.
\<close>

named_theorems go_defs \<open>definitions of the Go primitives, to be unfolded\<close>

section \<open>Errors\<close>

datatype go_err = Err string | Panic string

type_synonym 'a go = "go_err + 'a"

fun go_bind :: "'e + 'a \<Rightarrow> ('a \<Rightarrow> 'e + 'b) \<Rightarrow> 'e + 'b" where
  "go_bind (Inl e) f = Inl e"
| "go_bind (Inr a) f = f a"

lemma go_bind_Inr_iff: "go_bind m f = Inr b \<longleftrightarrow> (\<exists>a. m = Inr a \<and> f a = Inr b)"
  by (cases m) auto

lemma go_bind_Inl_iff: "go_bind m f = Inl e \<longleftrightarrow> m = Inl e \<or> (\<exists>a. m = Inr a \<and> f a = Inl e)"
  by (cases m) auto

text \<open>\<open>errors.Wrap\<close> puts a message before the one of the error; a panic goes through.\<close>

fun errors_Wrap :: "string \<Rightarrow> go_err \<Rightarrow> go_err" where
  "errors_Wrap m (Err e) = Err (m @ '': '' @ e)"
| "errors_Wrap m (Panic e) = Panic e"

text \<open>\<open>if err != nil { return f(err) }\<close>.\<close>

fun on_err :: "('e \<Rightarrow> 'f) \<Rightarrow> 'e + 'a \<Rightarrow> 'f + 'a" where
  "on_err f (Inl e) = Inl (f e)"
| "on_err f (Inr a) = Inr a"

lemma on_err_Inr_iff [simp]: "on_err f m = Inr a \<longleftrightarrow> m = Inr a"
  by (cases m) auto

lemma on_err_Inl_iff: "on_err f m = Inl x \<longleftrightarrow> (\<exists>e. m = Inl e \<and> x = f e)"
  by (cases m) auto

text \<open>\<open>xs[i]\<close> on a slice panics out of range.\<close>

definition go_nth :: "'a list \<Rightarrow> nat \<Rightarrow> 'a go" where
  "go_nth xs i = (if i < length xs then Inr (xs ! i) else Inl (Panic ''index out of range''))"

lemma go_nth_Inr: "i < length xs \<Longrightarrow> go_nth xs i = Inr (xs ! i)"
  by (simp add: go_nth_def)

lemma go_nth_Inr_iff: "go_nth xs i = Inr x \<longleftrightarrow> i < length xs \<and> xs ! i = x"
  by (simp add: go_nth_def)

text \<open>The loop that applies a function to each element and returns at the first error.\<close>

fun go_map :: "('a \<Rightarrow> 'b go) \<Rightarrow> 'a list \<Rightarrow> 'b list go" where
  "go_map f [] = Inr []"
| "go_map f (x # xs) = go_bind (f x) (\<lambda>y. go_bind (go_map f xs) (\<lambda>ys. Inr (y # ys)))"

lemma go_map_Inr: "go_map f xs = Inr ys \<Longrightarrow> length ys = length xs \<and> (\<forall>i<length xs. f (xs ! i) = Inr (ys ! i))"
proof (induction xs arbitrary: ys)
  case (Cons x xs)
  then show ?case by (auto simp: go_bind_Inr_iff nth_Cons split: nat.splits)
qed simp

lemma go_map_all_Inr: "\<forall>x\<in>set xs. f x = Inr (g x) \<Longrightarrow> go_map f xs = Inr (map g xs)"
  by (induction xs) auto

section \<open>Related lists\<close>

lemma list_all2_map_eq: "list_all2 P xs ys \<Longrightarrow> (\<And>x y. P x y \<Longrightarrow> f y = g x) \<Longrightarrow> map f ys = map g xs"
  by (induction rule: list_all2_induct) auto

lemma list_all2_source: "list_all2 P xs ys \<Longrightarrow> y \<in> set ys \<Longrightarrow> \<exists>x\<in>set xs. P x y"
  by (induction rule: list_all2_induct) auto

section \<open>Fixed-width integers\<close>

text \<open>
  \<open>int64(x)\<close> and \<open>uint64(x)\<close>: conversion to 64 bits wraps around. Values of Go's \<open>uint64\<close> are
  \<open>nat\<close> below \<open>2 ^ 64\<close>; the arithmetic that can wrap is written with the operations below.
\<close>

definition i64 :: "int \<Rightarrow> int" where
  "i64 x = (x + 2 ^ 63) mod 2 ^ 64 - 2 ^ 63"

definition u64 :: "int \<Rightarrow> nat" where
  "u64 x = nat (x mod 2 ^ 64)"

definition u64_add :: "nat \<Rightarrow> nat \<Rightarrow> nat" where
  "u64_add a b = (a + b) mod 2 ^ 64"

definition u64_sub :: "nat \<Rightarrow> nat \<Rightarrow> nat" where
  "u64_sub a b = nat ((int a - int b) mod 2 ^ 64)"

lemma i64_id: "- (2 ^ 63) \<le> x \<Longrightarrow> x < 2 ^ 63 \<Longrightarrow> i64 x = x"
  by (simp add: i64_def)

lemma i64_range: "- (2 ^ 63) \<le> i64 x \<and> i64 x < 2 ^ 63"
proof -
  have "0 \<le> (x + 2 ^ 63) mod 2 ^ 64 \<and> (x + 2 ^ 63) mod 2 ^ 64 < (2 ^ 64 :: int)" by simp
  then show ?thesis by (simp add: i64_def)
qed

lemma u64_id: "0 \<le> x \<Longrightarrow> x < 2 ^ 64 \<Longrightarrow> u64 x = nat x"
  by (simp add: u64_def)

lemma u64_lt: "u64 x < 2 ^ 64"
  by (simp add: u64_def nat_less_iff)

lemma u64_add_id: "a + b < 2 ^ 64 \<Longrightarrow> u64_add a b = a + b"
  by (simp add: u64_add_def)

lemma u64_add_lt: "u64_add a b < 2 ^ 64"
  by (simp add: u64_add_def)

lemma u64_sub_id: "b \<le> a \<Longrightarrow> a < 2 ^ 64 \<Longrightarrow> u64_sub a b = a - b"
  by (simp add: u64_sub_def nat_diff_distrib)

lemma u64_sub_wraps: "a < b \<Longrightarrow> b < 2 ^ 64 \<Longrightarrow> u64_sub a b = 2 ^ 64 - (b - a)"
proof -
  assume ab: "a < b" and b: "b < 2 ^ 64"
  have "(int a - int b) mod 2 ^ 64 = (int a - int b + 2 ^ 64) mod 2 ^ 64" by simp
  also have "\<dots> = int a - int b + 2 ^ 64" using ab b by (intro mod_pos_pos_trivial) auto
  finally show ?thesis using ab b by (simp add: u64_sub_def)
qed

text \<open>Go's integer division truncates towards zero.\<close>

definition go_div :: "int \<Rightarrow> int \<Rightarrow> int" where
  "go_div a b = sgn a * sgn b * (\<bar>a\<bar> div \<bar>b\<bar>)"

lemma go_div_nonneg: "0 \<le> a \<Longrightarrow> 0 < b \<Longrightarrow> go_div a b = a div b"
  by (cases "a = 0") (auto simp: go_div_def)

text \<open>\<open>lib/mathutil\<close>.\<close>

definition MinInt64 :: "int \<Rightarrow> int \<Rightarrow> int" where
  "MinInt64 a b = (if a < b then a else b)"

definition MinUint64 :: "nat \<Rightarrow> nat \<Rightarrow> nat" where
  "MinUint64 a b = (if a < b then a else b)"

section \<open>Time\<close>

text \<open>
  A \<open>time.Time\<close> is its instant, in nanoseconds since the Unix epoch; a \<open>time.Duration\<close> is a
  number of nanoseconds. \<open>time.Time{}\<close> is the first instant of the year 1.
\<close>

type_synonym gotime = int
type_synonym duration = int

definition Nanosecond_per_ms :: int where "Nanosecond_per_ms = 1000000"
definition Second :: int where "Second = 1000000000"
definition Minute :: int where "Minute = 60 * Second"
definition Hour :: int where "Hour = 60 * Minute"
definition Day :: int where "Day = 24 * Hour"

definition zero_time :: gotime where "zero_time = - 62135596800 * Second"

declare Nanosecond_per_ms_def [go_defs] Second_def [go_defs] Minute_def [go_defs]
  Hour_def [go_defs] Day_def [go_defs] zero_time_def [go_defs]

text \<open>\<open>lib/timeutil/timeutil.go\<close>.\<close>

definition TimestampMsToTime :: "nat \<Rightarrow> gotime" where
  "TimestampMsToTime ms = i64 (i64 (int ms) * Nanosecond_per_ms)"

definition TimeToTimestampMs :: "gotime \<Rightarrow> nat" where
  "TimeToTimestampMs t = u64 (go_div (i64 t) Nanosecond_per_ms)"

lemma TimeToTimestampMs_nonneg: "0 \<le> t \<Longrightarrow> t < 2 ^ 63 \<Longrightarrow> TimeToTimestampMs t = nat (t div 1000000)"
  by (simp add: TimeToTimestampMs_def i64_id go_div_nonneg Nanosecond_per_ms_def u64_def)

lemma TimeToTimestampMs_mono:
  "0 \<le> t \<Longrightarrow> t \<le> u \<Longrightarrow> u < 2 ^ 63 \<Longrightarrow> TimeToTimestampMs t \<le> TimeToTimestampMs u"
  by (simp add: TimeToTimestampMs_nonneg nat_mono zdiv_mono1)

lemma timestamp_ms_roundtrip:
  assumes "ms \<le> 9223372036854"
  shows "TimeToTimestampMs (TimestampMsToTime ms) = ms"
proof -
  have "i64 (int ms) = int ms" using assms by (intro i64_id) auto
  moreover have "i64 (int ms * 1000000) = int ms * 1000000" using assms by (intro i64_id) auto
  ultimately show ?thesis using assms
    by (simp add: TimeToTimestampMs_def TimestampMsToTime_def go_defs go_div_nonneg u64_id)
qed

text \<open>\<open>Time.Sub\<close> saturates at the ends of the type \<open>Duration\<close>.\<close>

definition time_Sub :: "gotime \<Rightarrow> gotime \<Rightarrow> duration" where
  "time_Sub a b = max (- (2 ^ 63)) (min (2 ^ 63 - 1) (a - b))"

text \<open>\<open>Midnight\<close>, at an instant whose location is UTC (every caller converts first).\<close>

definition Midnight :: "gotime \<Rightarrow> gotime" where
  "Midnight t = t - t mod Day"

lemma Midnight_le: "Midnight t \<le> t"
  by (simp add: Midnight_def go_defs)

lemma Midnight_gt: "t < Midnight t + Day"
  by (simp add: Midnight_def go_defs)

lemma Midnight_idem: "Midnight (Midnight t) = Midnight t"
  by (simp add: Midnight_def go_defs)

lemma Midnight_eq_day: "Midnight t = Day * (t div Day)"
  by (simp add: Midnight_def minus_mod_eq_mult_div)

lemma Midnight_mono: "s \<le> t \<Longrightarrow> Midnight s \<le> Midnight t"
  by (simp add: Midnight_eq_day zdiv_mono1 go_defs)

section \<open>Retry\<close>

text \<open>
  The loop \<open>for i := 0; i < attempts; i++ { result, err = fn(); if err == nil { return } }\<close> of the
  crawlers: \<open>fn i\<close> is what the call made in attempt \<open>i\<close> returns, so that a call may fail once and
  succeed later. The variables keep what the last call left in them.
\<close>

fun retry_from :: "(nat \<Rightarrow> 'r \<times> go_err option) \<Rightarrow> nat \<Rightarrow> nat \<Rightarrow> 'r \<times> go_err option
    \<Rightarrow> 'r \<times> go_err option" where
  "retry_from fn i 0 acc = acc"
| "retry_from fn i (Suc k) acc =
     (case fn i of (r, None) \<Rightarrow> (r, None) | (r, Some e) \<Rightarrow> retry_from fn (Suc i) k (r, Some e))"

lemma retry_from_first_success:
  "(\<forall>j<n. snd (fn (i + j)) \<noteq> None) \<Longrightarrow> n < k \<Longrightarrow> fn (i + n) = (r, None)
   \<Longrightarrow> retry_from fn i k acc = (r, None)"
proof (induction k arbitrary: i n acc)
  case 0
  then show ?case by simp
next
  case (Suc k)
  show ?case
  proof (cases n)
    case 0
    with Suc.prems show ?thesis by simp
  next
    case (Suc m)
    from Suc.prems(1) Suc obtain r' e where f: "fn i = (r', Some e)"
      by (cases "fn i") (force dest: spec [of _ 0])
    have "\<forall>j<m. snd (fn (Suc i + j)) \<noteq> None"
      using Suc.prems(1) Suc by (metis Suc_less_eq add_Suc_shift)
    with Suc.IH [of m "Suc i"] Suc.prems(2,3) Suc f show ?thesis by simp
  qed
qed

lemma retry_from_all_fail:
  "(\<forall>j<k. snd (fn (i + j)) \<noteq> None) \<Longrightarrow> 0 < k \<Longrightarrow> retry_from fn i k acc = fn (i + k - 1)"
proof (induction k arbitrary: i acc)
  case 0
  then show ?case by simp
next
  case (Suc k)
  from Suc.prems(1) obtain r e where f: "fn i = (r, Some e)"
    by (cases "fn i") (force dest: spec [of _ 0])
  show ?case
  proof (cases k)
    case 0
    with f show ?thesis by simp
  next
    case (Suc m)
    have "\<forall>j<k. snd (fn (Suc i + j)) \<noteq> None"
      using Suc.prems(1) by (metis Suc_less_eq add_Suc_shift)
    with Suc.IH [of "Suc i" "(r, Some e)"] Suc f show ?thesis by simp
  qed
qed

lemma retry_from_outcome: "retry_from fn i k acc = (r, None) \<Longrightarrow> acc = (r, None) \<or> (r, None) \<in> range fn"
proof (induction k arbitrary: i acc)
  case (Suc k)
  obtain a b where f: "fn i = (a, b)" by (cases "fn i")
  show ?case
  proof (cases b)
    case None
    with Suc.prems f have "fn i = (r, None)" by simp
    then show ?thesis by (metis rangeI)
  next
    case (Some e)
    with Suc.prems f Suc.IH [of "Suc i" "(a, Some e)"] show ?thesis by simp
  qed
qed simp

end
