(* ===== verification/Blockchain.thy ===== *)
theory Blockchain
  imports Prelude
begin

text \<open>
  Addresses, hashes, event logs and the well-known tokens (\<open>lib/blockchain/token_addresses.go\<close>,
  \<open>lib/blockchain/utils.go\<close>).

  An \<open>ethereum.Address\<close> is an array of 20 bytes and an \<open>ethereum.Hash\<close> one of 32: both are words,
  compared as the arrays are. The conversions of go-ethereum's \<open>common\<close> package are not part of the
  repository: they are the fields of a record \<open>eth_lib\<close>, an argument of every definition that
  calls them.
\<close>

type_synonym byte = "8 word"
type_synonym addr = "160 word"
type_synonym hash = "256 word"

record eth_lib =
  BytesToAddress :: "byte list \<Rightarrow> addr"
  BytesToHash :: "byte list \<Rightarrow> hash"
  HashBytes :: "hash \<Rightarrow> byte list"
  HashBig :: "hash \<Rightarrow> int"
  HexToHash :: "string \<Rightarrow> hash"
  HexToAddress :: "string \<Rightarrow> addr"

text \<open>The integer that a sequence of bytes denotes, most significant byte first.\<close>

fun be_nat :: "byte list \<Rightarrow> nat" where
  "be_nat [] = 0"
| "be_nat (b # bs) = unat b * 256 ^ length bs + be_nat bs"

text \<open>
  What go-ethereum documents: \<open>BytesToHash\<close> of 32 bytes and \<open>Hash.Big\<close> read the bytes as a
  big-endian number, and \<open>BytesToAddress\<close> crops from the left to the last 20 bytes.
\<close>

definition eth_lib_ok :: "eth_lib \<Rightarrow> bool" where
  "eth_lib_ok L \<longleftrightarrow>
     (\<forall>bs. length bs = 32 \<longrightarrow> HashBig L (BytesToHash L bs) = int (be_nat bs)) \<and>
     (\<forall>bs. length bs = 32 \<longrightarrow> BytesToAddress L bs = word_of_nat (be_nat bs))"

text \<open>One library with this behaviour, for the examples.\<close>

definition hex_digit :: "char \<Rightarrow> nat" where
  "hex_digit c = (let n = of_char c :: nat in
     if 48 \<le> n \<and> n \<le> 57 then n - 48 else if 97 \<le> n \<and> n \<le> 102 then n - 87
     else if 65 \<le> n \<and> n \<le> 70 then n - 55 else 0)"

definition hex_nat :: "string \<Rightarrow> nat" where
  "hex_nat s = foldl (\<lambda>n c. 16 * n + hex_digit c) 0 (drop 2 s)"

definition sample_lib :: eth_lib where
  "sample_lib =
     \<lparr> BytesToAddress = (\<lambda>bs. word_of_nat (be_nat bs)),
       BytesToHash = (\<lambda>bs. word_of_nat (be_nat bs)),
       HashBytes = (\<lambda>h. map (\<lambda>i. ucast (drop_bit (8 * (31 - i)) h)) [0..<32]),
       HashBig = uint,
       HexToHash = (\<lambda>s. word_of_nat (hex_nat s)),
       HexToAddress = (\<lambda>s. word_of_nat (hex_nat s)) \<rparr>"

lemma be_nat_lt: "be_nat bs < 256 ^ length bs"
proof (induction bs)
  case Nil
  then show ?case by simp
next
  case (Cons b bs)
  have "unat b < 256" using unsigned_less [of b, where 'a = nat] by simp
  then have "unat b + 1 \<le> 256" by simp
  then have "(unat b + 1) * 256 ^ length bs \<le> 256 * 256 ^ length bs"
    by (rule mult_le_mono1)
  have "be_nat (b # bs) < (unat b + 1) * 256 ^ length bs"
    using Cons.IH by simp
  also note \<open>(unat b + 1) * 256 ^ length bs \<le> 256 * 256 ^ length bs\<close>
  finally show ?case by simp
qed

lemma sample_lib_ok: "eth_lib_ok sample_lib"
proof -
  have "uint (word_of_nat (be_nat bs) :: hash) = int (be_nat bs)" if "length bs = 32" for bs
  proof -
    have "be_nat bs < 2 ^ 256" using be_nat_lt [of bs] that by simp
    then show ?thesis by (simp add: unsigned_of_nat take_bit_eq_mod)
  qed
  then show ?thesis by (simp add: eth_lib_ok_def sample_lib_def)
qed

section \<open>Logs, receipts and transactions\<close>

text \<open>\<open>types.Log\<close>, \<open>types.Receipt\<close> and the fields of \<open>types.Transaction\<close> that the crawlers read.\<close>

record log =
  lg_Address :: addr
  lg_Topics :: "hash list"
  lg_Data :: "byte list"
  lg_BlockNumber :: nat
  lg_TxHash :: hash
  lg_TxIndex :: nat
  lg_BlockHash :: hash
  lg_Index :: nat
  lg_Removed :: bool

record receipt =
  rc_Logs :: "log list"
  rc_GasUsed :: nat

record transaction =
  tx_To :: "addr option"
  tx_Data :: "byte list"
  tx_GasPrice :: int

section \<open>Well-known tokens\<close>

definition ETHAddr :: addr where "ETHAddr = 0xeeeeeeeeeeeeeeeeeeeeeeeeeeeeeeeeeeeeeeee"
definition KNCAddr :: addr where "KNCAddr = 0xdd974D5C2e2928deA5F71b9825b8b646686BD200"
definition WETHAddr :: addr where "WETHAddr = 0xC02aaA39b223FE8D0A0e5C4F27eAD9083C756Cc2"
definition KCCAddr :: addr where "KCCAddr = 0x09677D0175DEC51E2215426Cddd055a71bf4228d"
definition OSTAddr :: addr where "OSTAddr = 0x2c4e8f2d746113d0696ce89b35f0d8bf88e0aeca"
definition BQXAddr :: addr where "BQXAddr = 0x5af2be193a6abca9c8817001f45744777db30756"
definition PTAddr :: addr where "PTAddr = 0x094c875704c14783049ddf8136e298b3a099c446"
definition SAIAddr :: addr where "SAIAddr = 0x89d24A6b4CcB1B6fAA2625fE562bDD9a23260359"

lemmas token_addrs =
  ETHAddr_def KNCAddr_def WETHAddr_def KCCAddr_def OSTAddr_def BQXAddr_def PTAddr_def SAIAddr_def

definition notBurnTokens :: "addr set" where
  "notBurnTokens = {ETHAddr, WETHAddr, KCCAddr, PTAddr}"

definition IsBurnable :: "addr \<Rightarrow> bool" where
  "IsBurnable token = (token \<notin> notBurnTokens)"

definition IsZeroAddress :: "addr \<Rightarrow> bool" where
  "IsZeroAddress a = (a = 0)"

definition IsValidTxHash :: "string \<Rightarrow> bool" where
  "IsValidTxHash tx = (if length tx \<noteq> 66 then False else if take 2 tx \<noteq> ''0x'' then False else True)"

lemma ETHAddr_nonzero [simp]: "\<not> IsZeroAddress ETHAddr"
  by (simp add: IsZeroAddress_def ETHAddr_def)

end
