(* ===== verification/GoFloat.thy ===== *)
theory GoFloat
  imports Prelude "HOL-Library.Log_Nat"
begin

text \<open>
  The floating-point numbers of Go: \<open>float64\<close> and \<open>math/big.Float\<close>. A finite value is the rational
  number it denotes, and every operation rounds its exact result to the nearest number with a mantissa
  of the precision of the result, ties to even (\<open>ToNearestEven\<close>, the mode of every value of the
  program). Of \<open>float64\<close> the range of the exponent is left out: no value of the program comes near
  \<open>2 ^ 1024\<close> or \<open>2 ^ -1022\<close>.
\<close>

type_synonym f64 = rat

section \<open>Rounding\<close>

text \<open>The exponent of the leading bit of a positive number.\<close>

definition binade :: "rat \<Rightarrow> int" where
  "binade x = (let (p, q) = quotient_of x; e = bitlen p - bitlen q
               in if 2 powi e \<le> x then e else e - 1)"

definition half_even :: "rat \<Rightarrow> int" where
  "half_even x = (let n = \<lfloor>x\<rfloor>; d = x - of_int n in
     if d < 1 / 2 then n else if 1 / 2 < d then n + 1 else if even n then n else n + 1)"

definition round_prec :: "nat \<Rightarrow> rat \<Rightarrow> rat" where
  "round_prec prec x = (if x = 0 then 0
     else let u = 2 powi (binade \<bar>x\<bar> + 1 - int prec) in of_int (half_even (x / u)) * u)"

lemma bitlen_powi:
  assumes "0 < p"
  shows "2 powi (bitlen p - 1) \<le> (of_int p :: rat)" "(of_int p :: rat) < 2 powi bitlen p"
proof -
  have pos: "0 < bitlen p" using assms bitlen_eq_zero_iff [of p] bitlen_nonneg [of p] by linarith
  note b = bitlen_bounds [OF assms]
  have "2 powi (bitlen p - 1) = (of_int (2 ^ nat (bitlen p - 1)) :: rat)"
    using pos by (simp add: power_int_nonneg_exp)
  also have "\<dots> \<le> of_int p" using b by (subst of_int_le_iff) blast
  finally show "2 powi (bitlen p - 1) \<le> (of_int p :: rat)" .
  have "(of_int p :: rat) < of_int (2 ^ nat (bitlen p))" using b by (subst of_int_less_iff) blast
  also have "\<dots> = 2 powi bitlen p" using pos by (simp add: power_int_nonneg_exp)
  finally show "(of_int p :: rat) < 2 powi bitlen p" .
qed

lemma binade_bounds:
  assumes "0 < x"
  shows "2 powi binade x \<le> x" "x < 2 powi (binade x + 1)"
proof -
  obtain p q where pq: "quotient_of x = (p, q)" by (cases "quotient_of x")
  then have x: "x = of_int p / of_int q" and q: "0 < q"
    by (auto simp: quotient_of_div quotient_of_denom_pos)
  with assms have p: "0 < p" by (simp add: zero_less_divide_iff)
  let ?e = "bitlen p - bitlen q"
  note bp = bitlen_powi [OF p] and bq = bitlen_powi [OF q]
  have q': "0 < (of_int q :: rat)" using q by simp
  have "x < 2 powi bitlen p / 2 powi (bitlen q - 1)"
    unfolding x using bp bq q' p by (intro frac_less) auto
  also have "\<dots> = 2 powi (?e + 1)" by (subst power_int_diff [symmetric]) (auto simp: algebra_simps)
  finally have up: "x < 2 powi (?e + 1)" .
  have "2 powi (?e - 1) = (2 powi (bitlen p - 1) / 2 powi bitlen q :: rat)"
    by (subst power_int_diff [symmetric]) (auto simp: algebra_simps)
  also have "\<dots> \<le> x" unfolding x using bp bq q' p by (intro frac_le) auto
  finally have low: "2 powi (?e - 1) \<le> x" .
  show "2 powi binade x \<le> x" "x < 2 powi (binade x + 1)"
    using up low by (auto simp: binade_def pq Let_def)
qed

lemma half_even_floor: "half_even x = \<lfloor>x\<rfloor> \<or> (half_even x = \<lfloor>x\<rfloor> + 1 \<and> of_int \<lfloor>x\<rfloor> + 1 / 2 \<le> x)"
  by (auto simp: half_even_def Let_def)

lemma half_even_error: "\<bar>of_int (half_even x) - x\<bar> \<le> 1 / 2"
proof -
  have "of_int \<lfloor>x\<rfloor> \<le> x" "x < of_int \<lfloor>x\<rfloor> + 1" by linarith+
  then show ?thesis unfolding half_even_def Let_def by (simp add: abs_le_iff)
qed

lemma half_even_ge: "of_int n \<le> x \<Longrightarrow> n \<le> half_even x"
  using half_even_floor [of x] le_floor_iff [of n x] by linarith

lemma half_even_of_int [simp]: "half_even (of_int n) = n"
  by (simp add: half_even_def)

lemma round_prec_0 [simp]: "round_prec prec 0 = 0"
  by (simp add: round_prec_def)

text \<open>The relative error of rounding is at most half a unit of the last place.\<close>

lemma round_prec_error: "\<bar>round_prec prec x - x\<bar> \<le> \<bar>x\<bar> * 2 powi (- int prec)"
proof (cases "x = 0")
  case False
  define u :: rat where "u = 2 powi (binade \<bar>x\<bar> + 1 - int prec)"
  have u: "0 < u" unfolding u_def by simp
  have "round_prec prec x - x = (of_int (half_even (x / u)) - x / u) * u"
    using False u by (simp add: round_prec_def u_def Let_def left_diff_distrib)
  then have "\<bar>round_prec prec x - x\<bar> = \<bar>of_int (half_even (x / u)) - x / u\<bar> * u"
    using u by (simp add: abs_mult)
  also have "\<dots> \<le> 1 / 2 * u" using half_even_error u by (intro mult_right_mono) auto
  also have "\<dots> = 2 powi binade \<bar>x\<bar> * 2 powi (- int prec)"
    unfolding u_def by (simp add: power_int_diff power_int_add power_int_minus divide_simps)
  also have "\<dots> \<le> \<bar>x\<bar> * 2 powi (- int prec)"
    using binade_bounds(1) [of "\<bar>x\<bar>"] False by (intro mult_right_mono) auto
  finally show ?thesis .
qed simp

lemma round_prec_ge_int:
  assumes "of_int n \<le> x" "0 < x" "x < 2 ^ prec"
  shows "of_int n \<le> round_prec prec x"
proof -
  let ?k = "binade \<bar>x\<bar> + 1 - int prec"
  define u :: rat where "u = 2 powi ?k"
  have u: "0 < u" unfolding u_def by simp
  have "2 powi binade x < (2 :: rat) powi int prec"
    using binade_bounds(1) [OF assms(2)] assms(3) by (simp add: power_int_nonneg_exp)
  then have "binade x < int prec" by (rule power_int_le_imp_less_exp [rotated]) simp_all
  then have k: "?k \<le> 0" using assms(2) by (simp add: abs_of_pos)
  then obtain j where j: "?k = - int j" by (metis int_nat_eq minus_equation_iff neg_0_le_iff_le nat_0_le)
  have n: "of_int n / u = of_int (n * 2 ^ j)"
    unfolding u_def j by (simp add: power_int_minus divide_inverse)
  have "n * 2 ^ j \<le> half_even (x / u)"
  proof (rule half_even_ge)
    show "of_int (n * 2 ^ j) \<le> x / u"
      using assms(1) u unfolding n [symmetric] by (simp add: divide_right_mono)
  qed
  then have "of_int n / u \<le> of_int (half_even (x / u))"
    unfolding n of_int_le_iff .
  then have "of_int n \<le> of_int (half_even (x / u)) * u" using u by (simp add: pos_divide_le_eq)
  then show ?thesis using assms(2) by (simp add: round_prec_def u_def Let_def abs_of_pos)
qed

section \<open>Operations\<close>

definition float64 :: "rat \<Rightarrow> rat" where "float64 x = round_prec 53 x"

text \<open>\<open>Int(nil)\<close> truncates towards zero.\<close>

definition go_trunc :: "rat \<Rightarrow> int" where
  "go_trunc x = (if 0 \<le> x then \<lfloor>x\<rfloor> else - \<lfloor>- x\<rfloor>)"

text \<open>
  \<open>new(big.Float).SetInt(a)\<close> is exact, with a precision of at least 64 bits; \<open>new(big.Float).Quo\<close> has
  the larger precision of its operands.
\<close>

definition set_int_prec :: "int \<Rightarrow> nat" where
  "set_int_prec a = max 64 (nat (bitlen \<bar>a\<bar>))"

definition big_quo :: "int \<Rightarrow> int \<Rightarrow> rat" where
  "big_quo a b = round_prec (max (set_int_prec a) (set_int_prec b)) (of_int a / of_int b)"

lemma set_int_prec: "0 \<le> a \<Longrightarrow> of_int a < (2 :: rat) ^ set_int_prec a"
proof (cases "a = 0")
  case False
  assume "0 \<le> a"
  with False have "0 < a" by simp
  from bitlen_bounds [OF this] have "a < 2 ^ nat (bitlen a)" by blast
  also have "\<dots> \<le> 2 ^ set_int_prec a"
    using \<open>0 \<le> a\<close> by (intro power_increasing) (auto simp: set_int_prec_def)
  finally show ?thesis by (metis of_int_less_iff of_int_numeral of_int_power)
qed simp

text \<open>
  The quotient of two integers in \<open>big.Float\<close>, truncated, is their integer quotient: the precision is
  enough that rounding never reaches the next integer.
\<close>

lemma trunc_big_quo:
  assumes "0 \<le> a" "0 < b"
  shows "go_trunc (big_quo a b) = a div b"
proof (cases "a = 0")
  case True
  then show ?thesis by (simp add: big_quo_def go_trunc_def)
next
  case False
  define P where "P = max (set_int_prec a) (set_int_prec b)"
  define x :: rat where "x = of_int a / of_int b"
  let ?r = "round_prec P x"
  have b: "0 < (of_int b :: rat)" "1 \<le> (of_int b :: rat)" using assms(2) by simp_all
  have x: "0 < x" using assms False unfolding x_def by (simp add: divide_pos_pos)
  have "of_int a < (2 :: rat) ^ P"
    using set_int_prec [OF assms(1)] by (rule less_le_trans) (auto simp: P_def intro!: power_increasing)
  then have a: "x * 2 powi (- int P) < 1 / of_int b"
    unfolding x_def using b by (simp add: power_int_minus divide_simps)
  have "x \<le> of_int a" unfolding x_def using b assms(1) by (simp add: divide_le_eq mult_le_cancel_left1)
  also note \<open>of_int a < 2 ^ P\<close>
  finally have "x < 2 ^ P" .
  have q: "of_int (a div b) \<le> x" "x + 1 / of_int b \<le> of_int (a div b) + 1"
  proof -
    have "a = b * (a div b) + a mod b" by simp
    then have eq: "of_int a = of_int b * of_int (a div b) + (of_int (a mod b) :: rat)"
      by (metis of_int_add of_int_mult)
    have "0 \<le> a mod b" "a mod b + 1 \<le> b" using assms(2) by (simp_all add: zless_imp_add1_zle)
    then have m: "0 \<le> (of_int (a mod b) :: rat)" "(of_int (a mod b) :: rat) + 1 \<le> of_int b"
      by (simp, metis of_int_1 of_int_add of_int_le_iff)
    show "of_int (a div b) \<le> x" unfolding x_def using b m eq by (simp add: le_divide_eq algebra_simps)
    show "x + 1 / of_int b \<le> of_int (a div b) + 1"
      unfolding x_def add_divide_distrib [symmetric] using b m eq by (simp add: divide_le_eq algebra_simps)
  qed
  have "of_int (a div b) \<le> ?r" using q(1) x \<open>x < 2 ^ P\<close> by (rule round_prec_ge_int)
  moreover have "?r < of_int (a div b) + 1"
    using round_prec_error [of P x] x a q(2) by (simp add: abs_if split: if_splits)
  moreover have "0 \<le> ?r"
    using round_prec_ge_int [of 0 x P] x \<open>x < 2 ^ P\<close> by simp
  ultimately have "go_trunc ?r = a div b" by (simp add: go_trunc_def floor_eq_iff)
  then show ?thesis by (simp add: big_quo_def P_def x_def)
qed

end
