(* ===== verification/TradeTypes.thy ===== *)
theory TradeTypes
  imports Blockchain GoFloat
begin

text \<open>
  The data of the trade log crawler, \<open>tradelogs/common/types.go\<close>: the records, the fee counters,
  the test for trades made through KyberSwap, and the JSON form of a trade log, in which the
  timestamp is a number of milliseconds and the fields tagged \<open>json:"-"\<close> are absent.

  A \<open>*big.Int\<close> that can be nil is an \<open>int option\<close>. A \<open>float64\<close> of these records is only copied,
  and is the rational number it denotes.
\<close>

record TradelogFee =
  fee_ReserveAddr :: addr
  fee_WalletName :: string
  fee_WalletFee :: "int option"
  fee_PlatformFee :: "int option"
  fee_PlatformWallet :: addr
  fee_Reward :: "int option"
  fee_Rebate :: "int option"
  fee_RebateWallets :: "addr list"
  fee_RebatePercentBpsPerWallet :: "int list"
  fee_Burn :: "int option"
  fee_Index :: nat

record TradeTokenInfo =
  ti_SrcAddress :: addr
  ti_SrcSymbol :: string
  ti_DestAddress :: addr
  ti_DestSymbol :: string

record TxDetail =
  td_GasUsed :: nat
  td_GasPrice :: "int option"
  td_TransactionFee :: "int option"
  td_TxSender :: addr

record KyberUserInfo =
  ui_UserAddress :: addr
  ui_UserName :: string
  ui_ProfileID :: int
  ui_Index :: nat
  ui_IP :: string
  ui_Country :: string
  ui_UID :: string

record TradeSplit =
  sp_ReserveAddress :: addr
  sp_SrcToken :: addr
  sp_DstToken :: addr
  sp_SrcAmount :: "int option"
  sp_DstAmount :: "int option"
  sp_Rate :: "int option"
  sp_Index :: nat

record Reserve =
  rs_Address :: addr
  rs_ReserveID :: hash
  rs_ReserveType :: nat
  rs_RebateWallet :: addr
  rs_BlockNumber :: nat

record TradelogV4 =
  Timestamp :: gotime
  BlockNumber :: nat
  TransactionHash :: hash
  TokenInfo :: TradeTokenInfo
  SrcReserveAddress :: addr
  DstReserveAddress :: addr
  T2EReserves :: "hash list"
  E2TReserves :: "hash list"
  T2ESrcAmount :: "int list"
  E2TSrcAmount :: "int list"
  T2ERates :: "int list"
  E2TRates :: "int list"
  Fees :: "TradelogFee list"
  EthAmount :: "int option"
  OriginalEthAmount :: "int option"
  SrcAmount :: "int option"
  DestAmount :: "int option"
  FiatAmount :: f64
  ETHUSDRate :: f64
  ETHUSDProvider :: string
  WalletAddress :: addr
  WalletName :: string
  IntegrationApp :: string
  User :: KyberUserInfo
  ReceiverAddress :: addr
  TxInfo :: TxDetail
  Split :: "TradeSplit list"
  Index :: nat
  Version :: nat

record CrawlResult =
  cr_Reserves :: "Reserve list"
  cr_UpdateWallets :: "Reserve list"
  cr_Trades :: "TradelogV4 list"

text \<open>The zero values of the structs, which \<open>var x T\<close> and \<open>T{}\<close> give.\<close>

definition TradelogFee0 :: TradelogFee where
  "TradelogFee0 = \<lparr> fee_ReserveAddr = 0, fee_WalletName = '''', fee_WalletFee = None,
     fee_PlatformFee = None, fee_PlatformWallet = 0, fee_Reward = None, fee_Rebate = None,
     fee_RebateWallets = [], fee_RebatePercentBpsPerWallet = [], fee_Burn = None, fee_Index = 0 \<rparr>"

definition TradeTokenInfo0 :: TradeTokenInfo where
  "TradeTokenInfo0 = \<lparr> ti_SrcAddress = 0, ti_SrcSymbol = '''', ti_DestAddress = 0,
     ti_DestSymbol = '''' \<rparr>"

definition TxDetail0 :: TxDetail where
  "TxDetail0 = \<lparr> td_GasUsed = 0, td_GasPrice = None, td_TransactionFee = None, td_TxSender = 0 \<rparr>"

definition KyberUserInfo0 :: KyberUserInfo where
  "KyberUserInfo0 = \<lparr> ui_UserAddress = 0, ui_UserName = '''', ui_ProfileID = 0, ui_Index = 0,
     ui_IP = '''', ui_Country = '''', ui_UID = '''' \<rparr>"

definition TradelogV40 :: TradelogV4 where
  "TradelogV40 = \<lparr> Timestamp = zero_time, BlockNumber = 0, TransactionHash = 0,
     TokenInfo = TradeTokenInfo0, SrcReserveAddress = 0, DstReserveAddress = 0,
     T2EReserves = [], E2TReserves = [], T2ESrcAmount = [], E2TSrcAmount = [],
     T2ERates = [], E2TRates = [], Fees = [], EthAmount = None, OriginalEthAmount = None,
     SrcAmount = None, DestAmount = None, FiatAmount = 0, ETHUSDRate = 0, ETHUSDProvider = '''',
     WalletAddress = 0, WalletName = '''', IntegrationApp = '''', User = KyberUserInfo0,
     ReceiverAddress = 0, TxInfo = TxDetail0, Split = [], Index = 0, Version = 0 \<rparr>"

definition CrawlResult0 :: CrawlResult where
  "CrawlResult0 = \<lparr> cr_Reserves = [], cr_UpdateWallets = [], cr_Trades = [] \<rparr>"

lemmas zero_values = TradelogFee0_def TradeTokenInfo0_def TxDetail0_def KyberUserInfo0_def
  TradelogV40_def CrawlResult0_def

section \<open>Fee counters\<close>

definition IsETHAddress :: "addr \<Rightarrow> bool" where
  "IsETHAddress a = (a = 0xeeeeeeeeeeeeeeeeeeeeeeeeeeeeeeeeeeeeeeee)"

text \<open>The loop of both counters: a fee counts when its amount is set and is not zero.\<close>

fun count_nonzero :: "(TradelogFee \<Rightarrow> int option) \<Rightarrow> nat \<Rightarrow> TradelogFee list \<Rightarrow> nat" where
  "count_nonzero sel count [] = count"
| "count_nonzero sel count (fee # fees) =
     count_nonzero sel
       (case sel fee of None \<Rightarrow> count | Some x \<Rightarrow> if x \<noteq> 0 then count + 1 else count) fees"

definition LengthWalletFees :: "TradelogV4 \<Rightarrow> nat" where
  "LengthWalletFees trd = count_nonzero fee_WalletFee 0 (Fees trd)"

definition LengthBurnFees :: "TradelogV4 \<Rightarrow> nat" where
  "LengthBurnFees trd = count_nonzero fee_Burn 0 (Fees trd)"

lemma count_nonzero_eq:
  "count_nonzero sel n fees = n + length (filter (\<lambda>f. sel f \<noteq> None \<and> sel f \<noteq> Some 0) fees)"
  by (induction fees arbitrary: n) (auto split: option.splits)

lemma count_nonzero_append:
  "count_nonzero sel n (fees @ fs) = count_nonzero sel (count_nonzero sel n fees) fs"
  by (simp add: count_nonzero_eq)

lemma count_nonzero_0_iff:
  "count_nonzero sel 0 fees = 0 \<longleftrightarrow> (\<forall>f\<in>set fees. sel f = None \<or> sel f = Some 0)"
  by (auto simp: count_nonzero_eq filter_empty_conv)

section \<open>KyberSwap trades\<close>

definition kyberWallets :: "addr set" where
  "kyberWallets = {0x440bBd6a888a36DE6e2F6A25f65bc4e16874faa9,
     0xEA1a7dE54a427342c8820185867cF49fc2f95d43}"

definition isKyberWallet :: "addr \<Rightarrow> bool" where
  "isKyberWallet a = (a \<in> kyberWallets)"

definition IsKyberSwap :: "TradelogV4 \<Rightarrow> bool" where
  "IsKyberSwap trd =
     (if BlockNumber trd \<ge> 6715130 then isKyberWallet (WalletAddress trd)
      else if LengthWalletFees trd = 0 then True
      else if uint (WalletAddress trd) < 2 ^ 128 then True
      else isKyberWallet (WalletAddress trd))"

lemma IsKyberSwap_late:
  "6715130 \<le> BlockNumber trd \<Longrightarrow> IsKyberSwap trd = isKyberWallet (WalletAddress trd)"
  by (simp add: IsKyberSwap_def)

lemma isKyberWallet_IsKyberSwap: "isKyberWallet (WalletAddress trd) \<Longrightarrow> IsKyberSwap trd"
  by (simp add: IsKyberSwap_def)

text \<open>\<open>app-names/app_names.go\<close>, as \<open>GetTradeLogs\<close> uses it.\<close>

definition integrationApp :: "TradelogV4 \<Rightarrow> string" where
  "integrationApp trd = (if IsKyberSwap trd then ''KyberSwap'' else ''ThirdParty'')"

section \<open>JSON form\<close>

text \<open>
  \<open>MarshalJSON\<close> encodes a struct with a field \<open>timestamp\<close> in milliseconds that hides the one of the
  embedded trade log. Of the trade log, the fields without the tag \<open>json:"-"\<close> are in the text.
\<close>

record TradelogJSON =
  js_timestamp :: nat
  js_body :: TradelogV4

text \<open>The fields that are not in the text, set to a given trade log's.\<close>

definition hidden_from :: "TradelogV4 \<Rightarrow> TradelogV4 \<Rightarrow> TradelogV4" where
  "hidden_from r trd = trd\<lparr> Timestamp := Timestamp r,
     SrcReserveAddress := SrcReserveAddress r, DstReserveAddress := DstReserveAddress r,
     T2EReserves := T2EReserves r, E2TReserves := E2TReserves r,
     T2ESrcAmount := T2ESrcAmount r, E2TSrcAmount := E2TSrcAmount r,
     T2ERates := T2ERates r, E2TRates := E2TRates r, ETHUSDProvider := ETHUSDProvider r \<rparr>"

definition MarshalJSON :: "TradelogV4 \<Rightarrow> TradelogJSON" where
  "MarshalJSON trd = \<lparr> js_timestamp = TimeToTimestampMs (Timestamp trd),
     js_body = hidden_from TradelogV40 trd \<rparr>"

text \<open>\<open>UnmarshalJSON\<close> writes the decoded fields into its receiver and then its timestamp.\<close>

definition UnmarshalJSON :: "TradelogV4 \<Rightarrow> TradelogJSON \<Rightarrow> TradelogV4" where
  "UnmarshalJSON trd j =
     (hidden_from trd (js_body j))\<lparr> Timestamp := TimestampMsToTime (js_timestamp j) \<rparr>"

lemma time_roundtrip_truncates:
  assumes "0 \<le> t" "t < 2 ^ 63"
  shows "TimestampMsToTime (TimeToTimestampMs t) = t - t mod 1000000"
proof -
  have d: "0 \<le> t div 1000000" "t div 1000000 * 1000000 \<le> t" using assms
    by (auto simp: pos_imp_zdiv_nonneg_iff)
  then have "t div 1000000 < 2 ^ 63" using assms by linarith
  moreover have "i64 (t div 1000000) = t div 1000000" using d assms by (intro i64_id) linarith+
  moreover have "i64 (t div 1000000 * 1000000) = t div 1000000 * 1000000"
    using d assms by (intro i64_id) linarith+
  ultimately show ?thesis using assms d
    by (simp add: TimeToTimestampMs_def TimestampMsToTime_def go_defs go_div_nonneg u64_id i64_id
        minus_mod_eq_div_mult)
qed

end
