(* ===== verification/TradeEvents.thy ===== *)
theory TradeEvents
  imports TradeTypes
begin

text \<open>
  How one event log fills a trade log: the decoders \<open>logDataTo...Params\<close> and the functions \<open>fill...\<close>
  of \<open>tradelogs/crawler.go\<close>, and \<open>WalletAddrToName\<close> of \<open>tradelogs/wallet_name.go\<close>. Slices of the
  event data are taken with the source's bounds; the bound checks before them are the source's.
  The ABI decoding of the Katalyst contracts is generated code and go-ethereum's: its result is an
  argument (\<open>parsed\<close>).
\<close>

section \<open>Topics\<close>

definition feeToWalletEvent :: hash where
  "feeToWalletEvent = 0x366bc34352215bf0bd3b527cfd6718605e1f5938777e42bcd8ed92f578368f52"
definition burnFeeEvent :: hash where
  "burnFeeEvent = 0xf838f6ddc89706878e3c3e698e9b5cbfbf2c0e3d3dcd0bd2e00f1ccf313e0185"
definition executeTradeEvent :: hash where
  "executeTradeEvent = 0x1849bd6a030a1bca28b83437fd3de96f3d27a5d172fa7e9c78e7b61468928a39"
definition etherReceivalEvent :: hash where
  "etherReceivalEvent = 0x75f33ed68675112c77094e7c5b073890598be1d23e27cd7f6907b4a7d98ac619"
definition kyberTradeEvent :: hash where
  "kyberTradeEvent = 0xd30ca399cb43507ecec6a629a35cf45eb98cda550c27696dcb0d8c4a3873ce6c"
definition tradeExecuteEvent :: hash where
  "tradeExecuteEvent = 0xea9415385bae08fe9f6dc457b02577166790cde83bb18cc340aac6cb81b824de"
definition transferEvent :: hash where
  "transferEvent = 0xddf252ad1be2c89b69c2b068fc378daa952ba7f163c4a11628f55a4df523b3ef"
definition kyberTradeEventV2 :: hash where
  "kyberTradeEventV2 = 0x1c8399ecc5c956b9cb18c820248b10b634cca4af308755e07cd467655e8ec3c7"
definition addReserveToStorageEvent :: hash where
  "addReserveToStorageEvent = 0x50b2ce9e8f1a63ceaed262cc854dbf741b216e6429f7ba38403afbcdddc7f1ea"
definition reserveRebateWalletSetEvent :: hash where
  "reserveRebateWalletSetEvent = 0x42cac9e63e37f62d5689493d04887a67fe3c68e1d3763c3f0890e1620a0465b3"
definition feeDistributedEvent :: hash where
  "feeDistributedEvent = 0x53e2e1b5ab64e0a76fcc6a932558eba265d4e58c512401a7d776ae0f8fc08994"
definition kyberTradeEventV4 :: hash where
  "kyberTradeEventV4 = 0x30bbea603a7b36858fe5e3ec6ba5ff59dde039d02120d758eacfaed01520577d"

lemmas topic_defs = feeToWalletEvent_def burnFeeEvent_def executeTradeEvent_def
  etherReceivalEvent_def kyberTradeEvent_def tradeExecuteEvent_def transferEvent_def
  kyberTradeEventV2_def addReserveToStorageEvent_def reserveRebateWalletSetEvent_def
  feeDistributedEvent_def kyberTradeEventV4_def

section \<open>Wallet names\<close>

definition walletNamingMap :: "(addr \<times> string) list" where
  "walletNamingMap =
    [(0xf89220007d9280f97FA44C8bB82EfBdEcC39063A, ''Fulcrum''),
     (0xdE63aef60307655405835DA74BA02CE4dB1a42Fb, ''Enjin''),
     (0xb9E29984Fe50602E7A619662EBED4F90D93824C7, ''ImToken''),
     (0xb21090C8f6bAC1ba614A3F529aAe728eA92B6487, ''Multis''),
     (0xa7615CD307F323172331865181DC8b80a2834324, ''Easwap''),
     (0xa6bC6dF9Eba23abfF0d1eCD6C9847893D2B1643D, ''CoinManager''),
     (0xa5c603e1C27a96171487aea0649b01c56248d2e8, ''Argent''),
     (0xF7075e232b34E57Ca3bB91980b97C4f8a20d7ee4, ''CoinGecko''),
     (0xF257246627f7CB036AE40Aa6cFe8D8CE5F0EbA63, ''Fulcrum''),
     (0xF1AA99C69715F423086008eB9D06Dc1E35Cc504d, ''Trust''),
     (0xF12c4E73868a4A028382AC51b57482b627A323d2, ''Nuo''),
     (0xEC1e3dc16eE138991E105DfA3230F1c9D607A6d0, ''Fulcrum''),
     (0xEA1a7dE54a427342c8820185867cF49fc2f95d43, ''KyberSwap Non-EU''),
     (0xE2D8481eeF31CDA994833974FFfEccd576f8D71E, ''Ledger Live''),
     (0xDECAF9CD2367cdbb726E904cD6397eDFcAe6068D, ''Myetherwallet''),
     (0xDD61803d4a56C597E0fc864F7a20eC7158c6cBA5, ''Cipher''),
     (0xC9D81352fBdb0294b091e51d774A0652ef776D99, ''Unknown Arbitrage Bot''),
     (0xB4700Da07508553877A81a9A2F40a872DE788cfE, ''Fulcrum''),
     (0x9a68f7330A3Fe9869FfAEe4c3cF3E6BBef1189Da, ''KyberSwap iOS''),
     (0x9E1c71c25111F4CA7B40C956c8a21B6AC2f02274, ''Fulcrum''),
     (0x92afB508a46494AC00A242627703d1f21CA2dF1B, ''Fulcrum''),
     (0x7A342739F58A55a3a01Efea152EFd95E8e96ef70, ''Fulcrum''),
     (0x7284a8451d9a0e7Dc62B3a71C0593eA2eC5c5638, ''Instadapp''),
     (0x71C7656EC7ab88b098defB751B7401B5f6d8976F, ''Etherscan''),
     (0x673d26360Af6688fDD9d788677fD06f58aad5b4D, ''Midas''),
     (0x52D35e8f0Ffa18337B093Aec3DfFF40445d8f4f4, ''prod-limit-order''),
     (0x468fbBCB28E4D2699139c64551D6F0178760209F, ''prod-binance-deposit''),
     (0x440bBd6a888a36DE6e2F6A25f65bc4e16874faa9, ''KyberSwap EU''),
     (0x4247951c2eb6d0bA38d233fe7d542c8c80c9d46A, ''MEW''),
     (0x398d297BAB517770feC4d8Bb7a4127b486c244bB, ''Dex wallet''),
     (0x332D87209f7c8296389C307eAe170c2440830A47, ''Betoken''),
     (0x322d58b9E75a6918f7e7849AEe0fF09369977e08, ''CDP saver''),
     (0x25E3d9B98A4DeA9809B65045D1F007335032EDd4, ''Infinito (IBL)''),
     (0x21357B3dcb7AE07Da23A708DBbd9a2340001a3F4, ''LinkTime''),
     (0x1bF3e7EDE31dBB93826C2aF8686f80Ac53f9ed93, ''ipfswap.com''),
     (0x1a719375E9b8b056C5492Fdf7BAd9bf5A2F79cC2, ''Altitude games''),
     (0x13ddAC8d492E463073934E2a101e419481970299, ''Fulcrum''),
     (0x09227deaeE08a5Ba9D6Eb057F922aDfAd191c36c, ''OlympusLab''),
     (0x087aC7736469716D73498e479E09119A02D7A59D, ''Opyn''),
     (0x03E0635A77Ca3DbC23748aF10a568663964f4BAD, ''Fulcrum''),
     (0x3fFFF2F4f6C0831FAC59534694ACd14AC2Ea501b, ''KyberSwap Android''),
     (0x4D37f28D2db99e8d35A6C725a5f1749A085850a3, ''1inch.exchange'')]"

text \<open>A lookup of a missing key in a Go map gives the zero value.\<close>

definition WalletAddrToName :: "addr \<Rightarrow> string" where
  "WalletAddrToName a = (case map_of walletNamingMap a of None \<Rightarrow> '''' | Some n \<Rightarrow> n)"

section \<open>Decoders\<close>

text \<open>\<open>data[from:to]\<close>, within the bounds that the decoders check first.\<close>

definition slice :: "nat \<Rightarrow> nat \<Rightarrow> 'a list \<Rightarrow> 'a list" where
  "slice from to xs = take (to - from) (drop from xs)"

lemma length_slice [simp]: "to \<le> length xs \<Longrightarrow> from \<le> to \<Longrightarrow> length (slice from to xs) = to - from"
  by (simp add: slice_def)

lemma slice_append_left: "to \<le> length xs \<Longrightarrow> slice from to (xs @ ys) = slice from to xs"
  by (cases "from \<le> length xs") (simp_all add: slice_def)

lemma slice_append_right:
  "length xs \<le> from \<Longrightarrow> slice from to (xs @ ys) = slice (from - length xs) (to - length xs) ys"
  by (simp add: slice_def)

lemma slice_all: "slice 0 (length xs) xs = xs"
  by (simp add: slice_def)

lemmas slice_simps = slice_append_left slice_append_right

definition logDataToExecuteTradeParams :: "eth_lib \<Rightarrow> byte list \<Rightarrow> (addr \<times> addr \<times> hash \<times> hash) go" where
  "logDataToExecuteTradeParams L data =
     (if length data \<noteq> 128 then Inl (Err ''invalid trade data'')
      else Inr (BytesToAddress L (slice 0 32 data), BytesToAddress L (slice 32 64 data),
                BytesToHash L (slice 64 96 data), BytesToHash L (slice 96 128 data)))"

definition logDataToEtherReceivalParams :: "eth_lib \<Rightarrow> byte list \<Rightarrow> hash go" where
  "logDataToEtherReceivalParams L data =
     (if length data \<noteq> 32 then Inl (Err ''invalid eth receival data'')
      else Inr (BytesToHash L (slice 0 32 data)))"

definition logDataToFeeWalletParams :: "eth_lib \<Rightarrow> byte list \<Rightarrow> (addr \<times> addr \<times> hash) go" where
  "logDataToFeeWalletParams L data =
     (if length data \<noteq> 96 then Inl (Err ''invalid fee wallet data'')
      else Inr (BytesToAddress L (slice 0 32 data), BytesToAddress L (slice 32 64 data),
                BytesToHash L (slice 64 96 data)))"

definition logDataToBurnFeeParams :: "eth_lib \<Rightarrow> byte list \<Rightarrow> (addr \<times> hash) go" where
  "logDataToBurnFeeParams L data =
     (if length data \<noteq> 64 then Inl (Err ''invalid burn fee data'')
      else Inr (BytesToAddress L (slice 0 32 data), BytesToHash L (slice 32 64 data)))"

record KyberTradeV3Params =
  k3_srcAddress :: addr
  k3_destAddress :: addr
  k3_srcReserve :: addr
  k3_dstReserve :: addr
  k3_receiverAddress :: addr
  k3_srcAmount :: hash
  k3_destAmount :: hash
  k3_etherReceivalAmount :: hash

definition logDataToKyberTradeV3Params :: "eth_lib \<Rightarrow> byte list \<Rightarrow> KyberTradeV3Params go" where
  "logDataToKyberTradeV3Params L data =
     (if length data < 256 then Inl (Err ''invalid kyber trade v3 data'')
      else Inr \<lparr> k3_srcAddress = BytesToAddress L (slice 0 32 data),
                 k3_destAddress = BytesToAddress L (slice 32 64 data),
                 k3_srcReserve = BytesToAddress L (slice 192 224 data),
                 k3_dstReserve = BytesToAddress L (slice 224 256 data),
                 k3_receiverAddress = BytesToAddress L (slice 128 160 data),
                 k3_srcAmount = BytesToHash L (slice 64 96 data),
                 k3_destAmount = BytesToHash L (slice 96 128 data),
                 k3_etherReceivalAmount = BytesToHash L (slice 160 192 data) \<rparr>)"

record KyberTradeV2Params =
  k2_srcAddr :: addr
  k2_desAddr :: addr
  k2_userAddr :: addr
  k2_receiverAddr :: addr
  k2_srcAmount :: hash
  k2_desAmount :: hash

definition logDataToKyberTradeV2Params :: "eth_lib \<Rightarrow> byte list \<Rightarrow> KyberTradeV2Params go" where
  "logDataToKyberTradeV2Params L data =
     (if length data \<noteq> 192 then Inl (Err ''invalid kyber trade v2 data'')
      else Inr \<lparr> k2_srcAddr = BytesToAddress L (slice 32 64 data),
                 k2_desAddr = BytesToAddress L (slice 128 160 data),
                 k2_userAddr = BytesToAddress L (slice 0 32 data),
                 k2_receiverAddr = BytesToAddress L (slice 96 128 data),
                 k2_srcAmount = BytesToHash L (slice 64 96 data),
                 k2_desAmount = BytesToHash L (slice 160 192 data) \<rparr>)"

lemmas decoder_defs = logDataToExecuteTradeParams_def logDataToEtherReceivalParams_def
  logDataToFeeWalletParams_def logDataToBurnFeeParams_def logDataToKyberTradeV3Params_def
  logDataToKyberTradeV2Params_def

section \<open>Filling a trade log\<close>

text \<open>\<open>ethereum.BytesToAddress(logItem.Topics[1].Bytes())\<close> panics when there is one topic.\<close>

definition topic_address :: "eth_lib \<Rightarrow> log \<Rightarrow> nat \<Rightarrow> addr go" where
  "topic_address L lg i =
     go_bind (go_nth (lg_Topics lg) i) (\<lambda>t. Inr (BytesToAddress L (HashBytes L t)))"

definition set_user :: "addr \<Rightarrow> TradelogV4 \<Rightarrow> TradelogV4" where
  "set_user a trd = trd\<lparr> User := (User trd)\<lparr> ui_UserAddress := a \<rparr> \<rparr>"

definition set_tokens :: "addr \<Rightarrow> addr \<Rightarrow> TradelogV4 \<Rightarrow> TradelogV4" where
  "set_tokens s d trd =
     trd\<lparr> TokenInfo := (TokenInfo trd)\<lparr> ti_SrcAddress := s, ti_DestAddress := d \<rparr> \<rparr>"

definition fillExecuteTrade :: "eth_lib \<Rightarrow> TradelogV4 \<Rightarrow> log \<Rightarrow> TradelogV4 go" where
  "fillExecuteTrade L trd lg =
     go_bind (logDataToExecuteTradeParams L (lg_Data lg)) (\<lambda>(srcAddr, destAddr, srcAmount, destAmount).
     go_bind (topic_address L lg 1) (\<lambda>user.
       Inr (set_user user ((set_tokens srcAddr destAddr trd)\<lparr>
              SrcAmount := Some (HashBig L srcAmount), DestAmount := Some (HashBig L destAmount),
              TransactionHash := lg_TxHash lg, Index := lg_Index lg,
              BlockNumber := lg_BlockNumber lg \<rparr>))))"

definition fillEtherReceival :: "eth_lib \<Rightarrow> TradelogV4 \<Rightarrow> log \<Rightarrow> TradelogV4 go" where
  "fillEtherReceival L trd lg =
     go_bind (logDataToEtherReceivalParams L (lg_Data lg)) (\<lambda>amount.
     go_bind (topic_address L lg 1) (\<lambda>reserve.
       Inr (trd\<lparr> SrcReserveAddress := reserve, EthAmount := Some (HashBig L amount),
                 OriginalEthAmount := Some (HashBig L amount) \<rparr>)))"

definition fillWalletFees :: "eth_lib \<Rightarrow> TradelogV4 \<Rightarrow> log \<Rightarrow> TradelogV4 go" where
  "fillWalletFees L trd lg =
     go_bind (logDataToFeeWalletParams L (lg_Data lg)) (\<lambda>(reserveAddr, walletAddr, fee).
       Inr (trd\<lparr> Fees := Fees trd @ [TradelogFee0\<lparr> fee_WalletFee := Some (HashBig L fee),
                   fee_PlatformWallet := walletAddr, fee_WalletName := WalletAddrToName walletAddr,
                   fee_ReserveAddr := reserveAddr, fee_Index := lg_Index lg \<rparr>],
                 WalletAddress := walletAddr, WalletName := WalletAddrToName walletAddr \<rparr>))"

definition fillBurnFees :: "eth_lib \<Rightarrow> TradelogV4 \<Rightarrow> log \<Rightarrow> TradelogV4 go" where
  "fillBurnFees L trd lg =
     go_bind (logDataToBurnFeeParams L (lg_Data lg)) (\<lambda>(reserveAddr, fee).
       let trd' = trd\<lparr> Fees := Fees trd @ [TradelogFee0\<lparr> fee_ReserveAddr := reserveAddr,
                         fee_Burn := Some (HashBig L fee), fee_Index := lg_Index lg \<rparr>] \<rparr>
       in Inr (if LengthBurnFees trd' = 1 then trd'\<lparr> SrcReserveAddress := reserveAddr \<rparr>
               else trd'\<lparr> DstReserveAddress := reserveAddr \<rparr>))"

fun isVolumeExcludedReserves :: "addr \<Rightarrow> addr list \<Rightarrow> bool" where
  "isVolumeExcludedReserves address [] = False"
| "isVolumeExcludedReserves address (a # as) =
     (if address = a then True else isVolumeExcludedReserves address as)"

text \<open>\<open>defaultRatio\<close> starts at 2 and loses 1 for each of two conditions.\<close>

definition defaultRatio :: "bool \<Rightarrow> bool \<Rightarrow> int" where
  "defaultRatio b1 b2 = (let r = (2 :: int); r = (if b1 then r - 1 else r) in if b2 then r - 1 else r)"

definition fillKyberTradeV3 :: "eth_lib \<Rightarrow> TradelogV4 \<Rightarrow> log \<Rightarrow> addr list \<Rightarrow> TradelogV4 go" where
  "fillKyberTradeV3 L trd lg volumeExcludedReserves =
     go_bind (logDataToKyberTradeV3Params L (lg_Data lg)) (\<lambda>p.
     go_bind (topic_address L lg 1) (\<lambda>user.
       Inr (set_user user (trd\<lparr>
              TokenInfo := TradeTokenInfo0\<lparr> ti_SrcAddress := k3_srcAddress p,
                             ti_DestAddress := k3_destAddress p \<rparr>,
              SrcAmount := Some (HashBig L (k3_srcAmount p)),
              DestAmount := Some (HashBig L (k3_destAmount p)),
              OriginalEthAmount := Some (HashBig L (k3_etherReceivalAmount p)),
              SrcReserveAddress := k3_srcReserve p, DstReserveAddress := k3_dstReserve p,
              EthAmount := Some (HashBig L (k3_etherReceivalAmount p) *
                defaultRatio (isVolumeExcludedReserves (k3_srcReserve p) volumeExcludedReserves)
                             (isVolumeExcludedReserves (k3_dstReserve p) volumeExcludedReserves)),
              TransactionHash := lg_TxHash lg, Index := lg_Index lg,
              BlockNumber := lg_BlockNumber lg, ReceiverAddress := k3_receiverAddress p \<rparr>))))"

definition fillKyberTradeV2 :: "eth_lib \<Rightarrow> TradelogV4 \<Rightarrow> log \<Rightarrow> TradelogV4 go" where
  "fillKyberTradeV2 L trd lg =
     go_bind (logDataToKyberTradeV2Params L (lg_Data lg)) (\<lambda>p.
       Inr (set_user (k2_userAddr p) ((set_tokens (k2_srcAddr p) (k2_desAddr p) trd)\<lparr>
              SrcAmount := Some (HashBig L (k2_srcAmount p)),
              DestAmount := Some (HashBig L (k2_desAmount p)),
              TransactionHash := lg_TxHash lg, Index := lg_Index lg,
              ReceiverAddress := k2_receiverAddr p, BlockNumber := lg_BlockNumber lg \<rparr>)))"

section \<open>Katalyst events\<close>

text \<open>The structs that the generated bindings decode an event into.\<close>

record KyberTradeV4 =
  k4_Src :: addr
  k4_Dest :: addr
  k4_EthWeiValue :: int
  k4_T2eIds :: "hash list"
  k4_E2tIds :: "hash list"
  k4_T2eSrcAmounts :: "int list"
  k4_E2tSrcAmounts :: "int list"
  k4_T2eRates :: "int list"
  k4_E2tRates :: "int list"

record FeeDistributed =
  fd_PlatformWallet :: addr
  fd_PlatformFeeWei :: int
  fd_RewardWei :: int
  fd_RebateWei :: int
  fd_RebateWallets :: "addr list"
  fd_RebatePercentBpsPerWallet :: "int list"
  fd_BurnAmtWei :: int

record AddReserveToStorage =
  ar_Reserve :: addr
  ar_ReserveId :: hash
  ar_ReserveType :: nat
  ar_RebateWallet :: addr

record ReserveRebateWalletSet =
  rw_ReserveId :: hash
  rw_RebateWallet :: addr

fun add_amounts :: "int \<Rightarrow> int list \<Rightarrow> int" where
  "add_amounts acc [] = acc"
| "add_amounts acc (a # as) = add_amounts (acc + a) as"

text \<open>\<open>for i, amount := range amounts { acc += amount * rates[i] }\<close>.\<close>

fun add_products :: "int \<Rightarrow> nat \<Rightarrow> int list \<Rightarrow> int list \<Rightarrow> int go" where
  "add_products acc i [] rates = Inr acc"
| "add_products acc i (a # as) rates =
     go_bind (go_nth rates i) (\<lambda>r. add_products (acc + a * r) (Suc i) as rates)"

definition calculateTradeAmount :: "int list \<Rightarrow> int list \<Rightarrow> int list \<Rightarrow> int list \<Rightarrow> (int \<times> int) go" where
  "calculateTradeAmount t2ESrcAmounts e2TSrcAmounts t2ERates e2TRates =
     (let srcAmount = (if t2ESrcAmounts \<noteq> [] then add_amounts 0 t2ESrcAmounts
                       else add_amounts 0 e2TSrcAmounts)
      in go_bind (if e2TSrcAmounts \<noteq> [] then add_products 0 0 e2TSrcAmounts e2TRates
                  else add_products 0 0 t2ESrcAmounts t2ERates)
           (\<lambda>dstAmount. Inr (srcAmount, dstAmount)))"

definition isEtherLike :: "addr \<Rightarrow> bool" where
  "isEtherLike a = (a = WETHAddr \<or> a = ETHAddr \<or> a = PTAddr)"

definition fillKyberTradeV4 :: "KyberTradeV4 go \<Rightarrow> TradelogV4 \<Rightarrow> log \<Rightarrow> TradelogV4 go" where
  "fillKyberTradeV4 parsed trd lg =
     go_bind parsed (\<lambda>trade.
     go_bind (calculateTradeAmount (k4_T2eSrcAmounts trade) (k4_E2tSrcAmounts trade)
                (k4_T2eRates trade) (k4_E2tRates trade)) (\<lambda>(srcAmount, dstAmount).
       Inr (trd\<lparr> TransactionHash := lg_TxHash lg, BlockNumber := lg_BlockNumber lg,
              TokenInfo := TradeTokenInfo0\<lparr> ti_SrcAddress := k4_Src trade,
                             ti_DestAddress := k4_Dest trade \<rparr>,
              T2EReserves := k4_T2eIds trade, E2TReserves := k4_E2tIds trade,
              T2ERates := k4_T2eRates trade, E2TRates := k4_E2tRates trade,
              T2ESrcAmount := k4_T2eSrcAmounts trade, E2TSrcAmount := k4_E2tSrcAmounts trade,
              SrcAmount := Some srcAmount, DestAmount := Some dstAmount,
              OriginalEthAmount := Some (k4_EthWeiValue trade),
              EthAmount := Some (k4_EthWeiValue trade *
                defaultRatio (isEtherLike (k4_Src trade)) (isEtherLike (k4_Dest trade))),
              Index := lg_Index lg \<rparr>)))"

definition fillFeeDistributed :: "FeeDistributed go \<Rightarrow> TradelogV4 \<Rightarrow> log \<Rightarrow> TradelogV4 go" where
  "fillFeeDistributed parsed trd lg =
     go_bind parsed (\<lambda>fee.
       Inr (trd\<lparr> Fees := Fees trd @ [TradelogFee0\<lparr>
                   fee_PlatformFee := Some (fd_PlatformFeeWei fee),
                   fee_PlatformWallet := fd_PlatformWallet fee,
                   fee_Burn := Some (fd_BurnAmtWei fee), fee_Rebate := Some (fd_RebateWei fee),
                   fee_Reward := Some (fd_RewardWei fee), fee_RebateWallets := fd_RebateWallets fee,
                   fee_RebatePercentBpsPerWallet := fd_RebatePercentBpsPerWallet fee,
                   fee_Index := lg_Index lg \<rparr>],
                 WalletAddress := fd_PlatformWallet fee,
                 WalletName := WalletAddrToName (fd_PlatformWallet fee) \<rparr>))"

definition fillAddReserveToStorage :: "AddReserveToStorage go \<Rightarrow> CrawlResult \<Rightarrow> log \<Rightarrow> CrawlResult go" where
  "fillAddReserveToStorage parsed cr lg =
     go_bind parsed (\<lambda>reserve.
       Inr (cr\<lparr> cr_Reserves := cr_Reserves cr @ [\<lparr> rs_Address = ar_Reserve reserve,
                  rs_ReserveID = ar_ReserveId reserve, rs_ReserveType = ar_ReserveType reserve,
                  rs_RebateWallet = ar_RebateWallet reserve,
                  rs_BlockNumber = lg_BlockNumber lg \<rparr>] \<rparr>))"

definition fillRebateWalletSet :: "ReserveRebateWalletSet go \<Rightarrow> CrawlResult \<Rightarrow> log \<Rightarrow> CrawlResult go" where
  "fillRebateWalletSet parsed cr lg =
     go_bind parsed (\<lambda>reserve.
       Inr (cr\<lparr> cr_UpdateWallets := cr_UpdateWallets cr @ [\<lparr> rs_Address = 0,
                  rs_ReserveID = rw_ReserveId reserve, rs_ReserveType = 0,
                  rs_RebateWallet = rw_RebateWallet reserve,
                  rs_BlockNumber = lg_BlockNumber lg \<rparr>] \<rparr>))"

section \<open>What the fills do\<close>

lemma add_amounts_sum: "add_amounts acc as = acc + sum_list as"
  by (induction as arbitrary: acc) simp_all

text \<open>The products are those of the amounts with the rates of the same index.\<close>

lemma add_products_ok:
  "i + length as \<le> length rates \<Longrightarrow>
     add_products acc i as rates = Inr (acc + sum_list (map2 (*) as (drop i rates)))"
proof (induction as arbitrary: acc i)
  case Nil
  then show ?case by simp
next
  case (Cons a as)
  then have i: "i < length rates" by simp
  then have "drop i rates = rates ! i # drop (Suc i) rates" by (simp add: Cons_nth_drop_Suc)
  with i Cons show ?case by (simp add: go_nth_Inr)
qed

lemma add_products_panic:
  "as \<noteq> [] \<Longrightarrow> length rates < i + length as \<Longrightarrow>
     add_products acc i as rates = Inl (Panic ''index out of range'')"
proof (induction as arbitrary: acc i)
  case Nil
  then show ?case by simp
next
  case (Cons a as)
  show ?case
  proof (cases "i < length rates \<and> as \<noteq> []")
    case True
    with Cons show ?thesis by (simp add: go_nth_Inr)
  next
    case False
    with Cons.prems show ?thesis by (auto simp: go_nth_def)
  qed
qed

lemma defaultRatio_cases:
  "defaultRatio b1 b2 = 2 - (if b1 then 1 else 0) - (if b2 then 1 else 0)"
  by (simp add: defaultRatio_def)

lemma defaultRatio_range: "defaultRatio b1 b2 \<in> {0, 1, 2}"
  by (simp add: defaultRatio_cases)

lemma isVolumeExcludedReserves_iff: "isVolumeExcludedReserves a as \<longleftrightarrow> a \<in> set as"
  by (induction as) auto

lemma LengthBurnFees_snoc:
  "LengthBurnFees (trd\<lparr>Fees := Fees trd @ [f]\<rparr>) =
     LengthBurnFees trd + (case fee_Burn f of None \<Rightarrow> 0 | Some x \<Rightarrow> if x \<noteq> 0 then 1 else 0)"
  by (simp add: LengthBurnFees_def count_nonzero_append split: option.split)

text \<open>
  A burn fee event of a non-zero amount adds one burn fee; the first one names the source
  reserve and every later one the destination reserve.
\<close>

lemma fillBurnFees_cases:
  assumes "fillBurnFees L trd lg = Inr trd'"
  shows "length (lg_Data lg) = 64"
    and "Fees trd' = Fees trd @ [TradelogFee0\<lparr> fee_ReserveAddr := BytesToAddress L (slice 0 32 (lg_Data lg)),
           fee_Burn := Some (HashBig L (BytesToHash L (slice 32 64 (lg_Data lg)))), fee_Index := lg_Index lg \<rparr>]"
    and "LengthBurnFees trd' = LengthBurnFees trd +
           (if HashBig L (BytesToHash L (slice 32 64 (lg_Data lg))) \<noteq> 0 then 1 else 0)"
    and "LengthBurnFees trd' = 1 \<Longrightarrow>
           SrcReserveAddress trd' = BytesToAddress L (slice 0 32 (lg_Data lg)) \<and>
           DstReserveAddress trd' = DstReserveAddress trd"
    and "LengthBurnFees trd' \<noteq> 1 \<Longrightarrow>
           DstReserveAddress trd' = BytesToAddress L (slice 0 32 (lg_Data lg)) \<and>
           SrcReserveAddress trd' = SrcReserveAddress trd"
  using assms
  by (auto simp: fillBurnFees_def logDataToBurnFeeParams_def Let_def LengthBurnFees_def
      count_nonzero_append TradelogFee0_def split: if_splits)

text \<open>No fill touches the crawl's other trades; a wallet fee never counts as a burn fee.\<close>

lemma fillWalletFees_LengthBurnFees:
  "fillWalletFees L trd lg = Inr trd' \<Longrightarrow> LengthBurnFees trd' = LengthBurnFees trd"
  by (auto simp: fillWalletFees_def go_bind_Inr_iff LengthBurnFees_def count_nonzero_append
      TradelogFee0_def)

lemma fillFeeDistributed_LengthWalletFees:
  "fillFeeDistributed p trd lg = Inr trd' \<Longrightarrow> LengthWalletFees trd' = LengthWalletFees trd"
  by (auto simp: fillFeeDistributed_def go_bind_Inr_iff LengthWalletFees_def count_nonzero_append
      TradelogFee0_def)

end
