(* ===== verification/TradeCrawler.thy ===== *)
theory TradeCrawler
  imports TradeEvents
begin

text \<open>
  The trade log crawler: \<open>tradelogs/crawler.go\<close> (\<open>updateBasicInfo\<close>, \<open>updateBasicInfoV4\<close>,
  \<open>GetTradeLogs\<close>) and \<open>tradelogs/crawler_v1.go\<close> to \<open>crawler_v4.go\<close> (the input decoders, the
  receipts, \<open>fetchTradeLogV1\<close> to \<open>V4\<close> and the loops \<open>assembleTradeLogsV1\<close> to \<open>V4\<close>).

  The Ethereum client, Etherscan, the ABI decoders, the block time resolver, the broadcast service
  and the rate provider are fields of the record \<open>crawler\<close>: each is the answer that the call gives
  during the crawl. Logging is left out.
\<close>

section \<open>The crawler and what it calls\<close>

record InternalTx =
  it_Hash :: string
  it_From :: string
  it_To :: string

record tradeWithHintParam =
  p3_Src :: addr
  p3_SrcAmount :: int
  p3_Dest :: addr
  p3_DestAddress :: addr
  p3_MaxDestAmount :: int
  p3_MinConversionRate :: int
  p3_WalletID :: addr
  p3_Hint :: "byte list"

record tradeWithHintParamV4 =
  p4_Src :: addr
  p4_SrcAmount :: "int option"
  p4_Dest :: addr
  p4_DestAddress :: addr
  p4_MaxDestAmount :: "int option"
  p4_MinConversionRate :: "int option"
  p4_PlatformWallet :: addr
  p4_PlatformFeeBps :: "int option"
  p4_Hint :: "byte list"

record crawler =
  cw_lib :: eth_lib
  cw_addresses :: "addr list"
  cw_startV2 :: nat
  cw_startV3 :: nat
  cw_startV4 :: nat
  cw_volumeExcludedReserves :: "addr list"
  cw_networkProxy :: addr
  FilterLogs :: "int \<Rightarrow> int \<Rightarrow> addr list \<Rightarrow> hash list \<Rightarrow> log list go"
  TransactionReceipt :: "hash \<Rightarrow> receipt go"
  TransactionByHash :: "hash \<Rightarrow> transaction go"
  TransactionSender :: "transaction \<Rightarrow> hash \<Rightarrow> nat \<Rightarrow> addr \<times> go_err option"
  ResolveTime :: "nat \<Rightarrow> gotime go"
  InternalTxByAddress :: "nat \<Rightarrow> InternalTx list go"
  MethodByIdV3 :: "byte list \<Rightarrow> string go"
  MethodByIdV4 :: "byte list \<Rightarrow> string go"
  UnpackV3 :: "string \<Rightarrow> byte list \<Rightarrow> tradeWithHintParam go"
  UnpackV4 :: "string \<Rightarrow> byte list \<Rightarrow> tradeWithHintParamV4 go"
  UnpackHintV4 :: "string \<Rightarrow> byte list \<Rightarrow> tradeWithHintParam go"
  ParseKyberTrade :: "log \<Rightarrow> KyberTradeV4 go"
  ParseFeeDistributed :: "log \<Rightarrow> FeeDistributed go"
  ParseAddReserveToStorage :: "log \<Rightarrow> AddReserveToStorage go"
  ParseReserveRebateWalletSet :: "log \<Rightarrow> ReserveRebateWalletSet go"
  GetTxInfo :: "hash \<Rightarrow> (string \<times> string \<times> string) go"
  USDRate :: "gotime \<Rightarrow> f64 go"
  RateProviderName :: string

section \<open>Input of the transaction\<close>

definition tradeWithHintParam0 :: tradeWithHintParam where
  "tradeWithHintParam0 = \<lparr> p3_Src = 0, p3_SrcAmount = 0, p3_Dest = 0, p3_DestAddress = 0,
     p3_MaxDestAmount = 0, p3_MinConversionRate = 0, p3_WalletID = 0, p3_Hint = [] \<rparr>"

definition tradeWithHintParamV40 :: tradeWithHintParamV4 where
  "tradeWithHintParamV40 = \<lparr> p4_Src = 0, p4_SrcAmount = None, p4_Dest = 0, p4_DestAddress = 0,
     p4_MaxDestAmount = None, p4_MinConversionRate = None, p4_PlatformWallet = 0,
     p4_PlatformFeeBps = None, p4_Hint = [] \<rparr>"

definition decodeTradeInputParamV3 :: "crawler \<Rightarrow> byte list \<Rightarrow> tradeWithHintParam go" where
  "decodeTradeInputParamV3 C data =
     (if length data < 4 then Inl (Err ''input data not valid'')
      else go_bind (on_err (errors_Wrap ''cannot find method for correspond data'')
                      (MethodByIdV3 C (slice 0 4 data))) (\<lambda>name.
        if name = ''trade'' \<or> name = ''tradeWithHint'' then
          on_err (errors_Wrap ''unpack param failed'') (UnpackV3 C name (drop 4 data))
        else if name = ''swapTokenToToken'' \<or> name = ''swapTokenToEther'' \<or> name = ''swapEtherToToken''
          then Inr tradeWithHintParam0
        else Inl (Err (''unexpected method '' @ name))))"

definition decodeTradeInputParamV4 :: "crawler \<Rightarrow> byte list \<Rightarrow> tradeWithHintParamV4 go" where
  "decodeTradeInputParamV4 C data =
     (if length data < 4 then Inl (Err ''input data not valid'')
      else go_bind (on_err (errors_Wrap ''cannot find method for correspond data'')
                      (MethodByIdV4 C (slice 0 4 data))) (\<lambda>name.
        if name = ''trade'' \<or> name = ''tradeWithHintAndFee'' then
          on_err (errors_Wrap ''unpack param failed'') (UnpackV4 C name (drop 4 data))
        else if name = ''tradeWithHint'' then
          go_bind (on_err (errors_Wrap ''unpack param failed'') (UnpackHintV4 C name (drop 4 data)))
            (\<lambda>out. Inr \<lparr> p4_Src = p3_Src out, p4_SrcAmount = Some (p3_SrcAmount out),
               p4_Dest = p3_Dest out, p4_DestAddress = p3_DestAddress out,
               p4_MaxDestAmount = Some (p3_MaxDestAmount out),
               p4_MinConversionRate = Some (p3_MinConversionRate out),
               p4_PlatformWallet = p3_WalletID out, p4_PlatformFeeBps = None,
               p4_Hint = p3_Hint out \<rparr>)
        else if name = ''swapTokenToToken'' \<or> name = ''swapTokenToEther'' \<or> name = ''swapEtherToToken''
          then Inr tradeWithHintParamV40
        else Inl (Err (''unexpected method '' @ name))))"

section \<open>Basic information\<close>

definition set_wallet :: "addr \<Rightarrow> TradelogV4 \<Rightarrow> TradelogV4" where
  "set_wallet w trd = trd\<lparr> WalletAddress := w, WalletName := WalletAddrToName w \<rparr>"

definition set_sender :: "addr \<Rightarrow> int \<Rightarrow> TradelogV4 \<Rightarrow> TradelogV4" where
  "set_sender s p trd =
     trd\<lparr> TxInfo := (TxInfo trd)\<lparr> td_TxSender := s, td_GasPrice := Some p \<rparr> \<rparr>"

text \<open>The first fee with a platform fee that is set and not zero names the wallet.\<close>

fun platform_wallet :: "TradelogFee list \<Rightarrow> addr option" where
  "platform_wallet [] = None"
| "platform_wallet (fee # fees) =
     (case fee_PlatformFee fee of
        None \<Rightarrow> platform_wallet fees
      | Some x \<Rightarrow> if x \<noteq> 0 then Some (fee_PlatformWallet fee) else platform_wallet fees)"

text \<open>
  The part after the transaction is known. \<open>decode\<close> gives the wallet in the transaction's input.
  The error of \<open>TransactionSender\<close> is kept and returned at the end.
\<close>

definition wallet_of_tx :: "crawler \<Rightarrow> (byte list \<Rightarrow> addr go) \<Rightarrow> transaction \<Rightarrow> TradelogV4 \<Rightarrow> TradelogV4 go" where
  "wallet_of_tx C decode tx trd =
     (if LengthBurnFees trd = 0 then
        (if tx_To tx = Some (cw_networkProxy C) then
           go_bind (on_err (errors_Wrap ''failed to decode input param'') (decode (tx_Data tx)))
             (\<lambda>w. Inr (set_wallet w trd))
         else Inr trd)
      else (case platform_wallet (Fees trd) of None \<Rightarrow> Inr trd | Some w \<Rightarrow> Inr (set_wallet w trd)))"

definition updateBasicInfo :: "crawler \<Rightarrow> log \<Rightarrow> TradelogV4 \<Rightarrow> TradelogV4 go" where
  "updateBasicInfo C lg trd =
     go_bind (TransactionByHash C (lg_TxHash lg)) (\<lambda>tx.
       let (txSender, err) = TransactionSender C tx (lg_BlockHash lg) (lg_TxIndex lg);
           trd = set_sender txSender (tx_GasPrice tx) trd
       in go_bind (wallet_of_tx C (\<lambda>d. go_bind (decodeTradeInputParamV3 C d)
                                          (\<lambda>p. Inr (p3_WalletID p))) tx trd)
            (\<lambda>trd. case err of None \<Rightarrow> Inr trd | Some e \<Rightarrow> Inl e))"

definition updateBasicInfoV4 :: "crawler \<Rightarrow> log \<Rightarrow> TradelogV4 \<Rightarrow> TradelogV4 go" where
  "updateBasicInfoV4 C lg trd =
     go_bind (TransactionByHash C (lg_TxHash lg)) (\<lambda>tx.
       let (txSender, err) = TransactionSender C tx (lg_BlockHash lg) (lg_TxIndex lg);
           trd = set_user txSender (set_sender txSender (tx_GasPrice tx) trd)
       in go_bind (wallet_of_tx C (\<lambda>d. go_bind (decodeTradeInputParamV4 C d)
                                          (\<lambda>p. Inr (p4_PlatformWallet p))) tx trd)
            (\<lambda>trd. case err of None \<Rightarrow> Inr trd | Some e \<Rightarrow> Inl e))"

definition set_gas_used :: "nat \<Rightarrow> TradelogV4 \<Rightarrow> TradelogV4" where
  "set_gas_used g trd = trd\<lparr> TxInfo := (TxInfo trd)\<lparr> td_GasUsed := g \<rparr> \<rparr>"

text \<open>\<open>Mul\<close> of a nil gas price would panic.\<close>

definition set_transaction_fee :: "TradelogV4 \<Rightarrow> TradelogV4 go" where
  "set_transaction_fee trd =
     (case td_GasPrice (TxInfo trd) of
        None \<Rightarrow> Inl (Panic ''nil pointer dereference'')
      | Some p \<Rightarrow> Inr (trd\<lparr> TxInfo := (TxInfo trd)\<lparr>
          td_TransactionFee := Some (p * i64 (int (td_GasUsed (TxInfo trd)))) \<rparr> \<rparr>))"

section \<open>Receipts\<close>

text \<open>
  The loop of \<open>getTransactionReceiptV1\<close>: \<open>n\<close> is the index plus one. The \<open>break\<close> statements of the
  source leave the \<open>switch\<close>, not the loop, so the loop always runs down to index 0.
\<close>

fun receiptV1_from :: "eth_lib \<Rightarrow> log list \<Rightarrow> nat \<Rightarrow> bool \<Rightarrow> TradelogV4 \<Rightarrow> TradelogV4 go" where
  "receiptV1_from L logs 0 shouldGetReserveAddr trd = Inr trd"
| "receiptV1_from L logs (Suc index) shouldGetReserveAddr trd =
     (let lg = logs ! index in
      case lg_Topics lg of
        [] \<Rightarrow> receiptV1_from L logs index shouldGetReserveAddr trd
      | topic # _ \<Rightarrow>
          if topic = transferEvent \<and> IsZeroAddress (ReceiverAddress trd) then
            (if length (lg_Topics lg) \<noteq> 3 then Inl (Err ''invalid transfer event topics data'')
             else receiptV1_from L logs index shouldGetReserveAddr
                    (trd\<lparr> ReceiverAddress := BytesToAddress L (HashBytes L (lg_Topics lg ! 2)) \<rparr>))
          else if shouldGetReserveAddr \<and> topic = tradeExecuteEvent then
            receiptV1_from L logs index shouldGetReserveAddr
              (trd\<lparr> SrcReserveAddress := lg_Address lg \<rparr>)
          else receiptV1_from L logs index shouldGetReserveAddr trd)"

definition getTransactionReceiptV1 :: "eth_lib \<Rightarrow> TradelogV4 \<Rightarrow> receipt \<Rightarrow> nat \<Rightarrow> bool \<Rightarrow> TradelogV4 go" where
  "getTransactionReceiptV1 L trd receipt logIndex shouldGetReserveAddr =
     receiptV1_from L (rc_Logs receipt)
       (nat (MinInt64 (int (length (rc_Logs receipt)) - 1) (i64 (int logIndex)) + 1))
       shouldGetReserveAddr trd"

text \<open>
  \<open>getReserveFromReceipt\<close> counts down on a \<open>uint64\<close> with no lower bound: below index 0 it wraps to
  \<open>2 ^ 64 - 1\<close>, which is past the end of every slice.
\<close>

definition has_trade_execute :: "log \<Rightarrow> bool" where
  "has_trade_execute lg = (tradeExecuteEvent \<in> set (lg_Topics lg))"

fun reserveFrom :: "log list \<Rightarrow> nat \<Rightarrow> addr go" where
  "reserveFrom logs 0 =
     go_bind (go_nth logs 0) (\<lambda>lg.
       if has_trade_execute lg \<and> \<not> IsZeroAddress (lg_Address lg) then Inr (lg_Address lg)
       else Inl (Panic ''index out of range''))"
| "reserveFrom logs (Suc i) =
     go_bind (go_nth logs (Suc i)) (\<lambda>lg.
       if has_trade_execute lg \<and> \<not> IsZeroAddress (lg_Address lg) then Inr (lg_Address lg)
       else reserveFrom logs i)"

definition getReserveFromReceipt :: "receipt \<Rightarrow> nat \<Rightarrow> addr go" where
  "getReserveFromReceipt receipt logIndex =
     (let index = MinUint64 (u64 (int (length (rc_Logs receipt)) - 1)) logIndex
      in if index < length (rc_Logs receipt) then reserveFrom (rc_Logs receipt) index
         else Inl (Panic ''index out of range''))"

section \<open>Internal transactions\<close>

definition internalNetworkAddrV1 :: string where
  "internalNetworkAddrV1 = ''0x964F35fAe36d75B1e72770e244F6595B68508CF5''"

definition IsEtherscanNotransactionFound :: "go_err \<Rightarrow> bool" where
  "IsEtherscanNotransactionFound e = (e = Err ''etherscan server: No transactions found'')"

fun receiver_of_internal :: "eth_lib \<Rightarrow> hash \<Rightarrow> InternalTx list \<Rightarrow> addr option" where
  "receiver_of_internal L h [] = None"
| "receiver_of_internal L h (tx # txs) =
     (if HexToHash L (it_Hash tx) = h \<and>
         HexToAddress L (it_From tx) = HexToAddress L internalNetworkAddrV1
      then Some (HexToAddress L (it_To tx)) else receiver_of_internal L h txs)"

definition getInternalTransaction :: "crawler \<Rightarrow> TradelogV4 \<Rightarrow> TradelogV4 go" where
  "getInternalTransaction C trd =
     (case InternalTxByAddress C (BlockNumber trd) of
        Inl e \<Rightarrow> if IsEtherscanNotransactionFound e then Inr trd else Inl e
      | Inr txs \<Rightarrow>
          (case receiver_of_internal (cw_lib C) (TransactionHash trd) txs of
             None \<Rightarrow> Inr trd | Some a \<Rightarrow> Inr (trd\<lparr> ReceiverAddress := a \<rparr>)))"

section \<open>The loops over the event logs\<close>

text \<open>
  An error leaves the loop either with no result (\<open>return nil, err\<close>) or with the trades gathered so
  far (\<open>return &result, err\<close>). The state of a loop is the result and the trade log being filled.
\<close>

datatype abort = NoResult go_err | WithResult go_err

type_synonym crawl_state = "CrawlResult \<times> TradelogV4"
type_synonym crawl_out = "CrawlResult option \<times> go_err option"
type_synonym crawl_body = "log \<Rightarrow> hash \<Rightarrow> crawl_state \<Rightarrow> abort + crawl_state"

fun crawl_loop :: "crawl_body \<Rightarrow> crawl_state \<Rightarrow> log list \<Rightarrow> crawl_out" where
  "crawl_loop body st [] = (Some (fst st), None)"
| "crawl_loop body st (lg # logs) =
     (if lg_Removed lg then crawl_loop body st logs
      else case lg_Topics lg of
          [] \<Rightarrow> (Some (fst st), Some (Err ''log item has no topic''))
        | topic # _ \<Rightarrow>
            (case body lg topic st of
               Inl (NoResult e) \<Rightarrow> (None, Some e)
             | Inl (WithResult e) \<Rightarrow> (Some (fst st), Some e)
             | Inr st' \<Rightarrow> crawl_loop body st' logs))"

definition errUnknownLogTopic :: go_err where
  "errUnknownLogTopic = Err ''unknown log topic''"

text \<open>\<open>if tradeLog, err = f(tradeLog, log); err != nil { return nil, err }\<close>.\<close>

definition fill_step :: "CrawlResult \<Rightarrow> TradelogV4 go \<Rightarrow> abort + crawl_state" where
  "fill_step cr m = go_bind (on_err NoResult m) (\<lambda>trd. Inr (cr, trd))"

text \<open>\<open>if err = f(&result, log); err != nil { return &result, err }\<close>.\<close>

definition result_step :: "TradelogV4 \<Rightarrow> CrawlResult go \<Rightarrow> abort + crawl_state" where
  "result_step trd m = go_bind (on_err WithResult m) (\<lambda>cr. Inr (cr, trd))"

text \<open>
  The end of a trade: \<open>result.Trades = append(result.Trades, tradeLog); tradeLog = TradelogV4{}\<close>.
\<close>

definition trade_step :: "CrawlResult \<Rightarrow> abort + TradelogV4 \<Rightarrow> abort + crawl_state" where
  "trade_step cr m =
     go_bind m (\<lambda>trd. Inr (cr\<lparr> cr_Trades := cr_Trades cr @ [trd] \<rparr>, TradelogV40))"

definition get_receipt :: "crawler \<Rightarrow> TradelogV4 \<Rightarrow> abort + receipt" where
  "get_receipt C trd = on_err (\<lambda>e. NoResult (errors_Wrap ''failed to get transaction receipt tx'' e))
     (TransactionReceipt C (TransactionHash trd))"

definition get_timestamp :: "crawler \<Rightarrow> log \<Rightarrow> TradelogV4 \<Rightarrow> abort + TradelogV4" where
  "get_timestamp C lg trd =
     go_bind (on_err (\<lambda>e. NoResult (errors_Wrap ''failed to resolve timestamp by block_number'' e))
       (ResolveTime C (lg_BlockNumber lg))) (\<lambda>t. Inr (trd\<lparr> Timestamp := t \<rparr>))"

definition basic_info :: "TradelogV4 go \<Rightarrow> abort + TradelogV4" where
  "basic_info m = go_bind (on_err (\<lambda>e. WithResult (errors_Wrap ''could not update trade log basic info'' e)) m)
     (\<lambda>trd. on_err NoResult (set_transaction_fee trd))"

subsection \<open>Version 1\<close>

definition ethAmountV1 :: "TradelogV4 \<Rightarrow> TradelogV4" where
  "ethAmountV1 trd =
     (let trd = (if ti_SrcAddress (TokenInfo trd) = ETHAddr then trd\<lparr> EthAmount := SrcAmount trd \<rparr>
                 else if ti_DestAddress (TokenInfo trd) = ETHAddr then trd\<lparr> EthAmount := DestAmount trd \<rparr>
                 else trd)
      in trd\<lparr> OriginalEthAmount := EthAmount trd \<rparr>)"

definition executeTradeV1 :: "crawler \<Rightarrow> TradelogV4 \<Rightarrow> log \<Rightarrow> abort + TradelogV4" where
  "executeTradeV1 C trd lg =
     go_bind (on_err NoResult (fillExecuteTrade (cw_lib C) (trd\<lparr> Version := 1 \<rparr>) lg)) (\<lambda>trd.
     go_bind (get_timestamp C lg trd) (\<lambda>trd.
     go_bind (get_receipt C trd) (\<lambda>receipt.
       let trd = set_gas_used (rc_GasUsed receipt) trd;
           shouldGetReserveAddr = (LengthBurnFees trd = 0 \<and>
             length (T2EReserves trd) + length (E2TReserves trd) = 0)
       in
     go_bind (if shouldGetReserveAddr \<or> ti_DestAddress (TokenInfo trd) \<noteq> ETHAddr then
                on_err (\<lambda>e. NoResult (errors_Wrap ''failed to get info from transaction receipt'' e))
                  (getTransactionReceiptV1 (cw_lib C) trd receipt (lg_Index lg) shouldGetReserveAddr)
              else Inr trd) (\<lambda>trd.
     go_bind (if ti_DestAddress (TokenInfo trd) = ETHAddr then
                on_err (\<lambda>e. NoResult (errors_Wrap ''failed to get internal transaction'' e))
                  (getInternalTransaction C trd)
              else Inr trd) (\<lambda>trd.
     basic_info (updateBasicInfo C lg (ethAmountV1 trd)))))))"

definition bodyV1 :: "crawler \<Rightarrow> crawl_body" where
  "bodyV1 C lg topic st =
     (let (cr, trd) = st; L = cw_lib C in
      if topic = feeToWalletEvent then fill_step cr (fillWalletFees L trd lg)
      else if topic = burnFeeEvent then fill_step cr (fillBurnFees L trd lg)
      else if topic = etherReceivalEvent then fill_step cr (fillEtherReceival L trd lg)
      else if topic = executeTradeEvent then trade_step cr (executeTradeV1 C trd lg)
      else Inl (NoResult errUnknownLogTopic))"

definition assembleTradeLogsV1 :: "crawler \<Rightarrow> log list \<Rightarrow> crawl_out" where
  "assembleTradeLogsV1 C eventLogs = crawl_loop (bodyV1 C) (CrawlResult0, TradelogV40) eventLogs"

subsection \<open>Version 2\<close>

text \<open>
  \<open>tradeLog.EthAmount = tradeLog.SrcAmount\<close> copies a pointer, and
  \<open>tradeLog.EthAmount.Mul(tradeLog.EthAmount, n)\<close> writes into the integer that it points to. The
  integers are therefore cells of a store: 0 holds the source amount, 1 the destination amount and
  2 what an \<open>EtherReceival\<close> event left in \<open>EthAmount\<close>; \<open>big.NewInt(0).Set\<close> allocates a new one, and
  panics on a nil pointer.
\<close>

definition ethAmountV2 :: "TradelogV4 \<Rightarrow> TradelogV4 go" where
  "ethAmountV2 trd =
     (let store = (\<lambda>_. None)(0 := SrcAmount trd, 1 := DestAmount trd, 2 := EthAmount trd);
          p = (if ti_SrcAddress (TokenInfo trd) = ETHAddr then 0
               else if ti_DestAddress (TokenInfo trd) = ETHAddr then 1 else (2 :: nat))
      in case store p of
           None \<Rightarrow> Inl (Panic ''nil pointer dereference'')
         | Some original \<Rightarrow>
             (let store = store(p := Some (original * int (LengthBurnFees trd)))
              in Inr (trd\<lparr> OriginalEthAmount := Some original, EthAmount := store p,
                          SrcAmount := store 0, DestAmount := store 1 \<rparr>)))"

definition kyberTradeV2 :: "crawler \<Rightarrow> TradelogV4 \<Rightarrow> log \<Rightarrow> abort + TradelogV4" where
  "kyberTradeV2 C trd lg =
     go_bind (on_err NoResult (fillKyberTradeV2 (cw_lib C) (trd\<lparr> Version := 2 \<rparr>) lg)) (\<lambda>trd.
     go_bind (get_timestamp C lg trd) (\<lambda>trd.
     go_bind (get_receipt C trd) (\<lambda>receipt.
       let trd = set_gas_used (rc_GasUsed receipt) trd in
     go_bind (if LengthBurnFees trd = 0 \<and> length (T2EReserves trd) + length (E2TReserves trd) = 0 then
                on_err NoResult (go_bind (getReserveFromReceipt receipt (lg_Index lg))
                  (\<lambda>a. Inr (trd\<lparr> SrcReserveAddress := a \<rparr>)))
              else Inr trd) (\<lambda>trd.
     go_bind (on_err NoResult (ethAmountV2 trd)) (\<lambda>trd.
     basic_info (updateBasicInfo C lg trd))))))"

definition bodyV2 :: "crawler \<Rightarrow> crawl_body" where
  "bodyV2 C lg topic st =
     (let (cr, trd) = st; L = cw_lib C in
      if topic = feeToWalletEvent then fill_step cr (fillWalletFees L trd lg)
      else if topic = burnFeeEvent then fill_step cr (fillBurnFees L trd lg)
      else if topic = etherReceivalEvent then fill_step cr (fillEtherReceival L trd lg)
      else if topic = kyberTradeEventV2 then trade_step cr (kyberTradeV2 C trd lg)
      else Inl (NoResult errUnknownLogTopic))"

definition assembleTradeLogsV2 :: "crawler \<Rightarrow> log list \<Rightarrow> crawl_out" where
  "assembleTradeLogsV2 C eventLogs = crawl_loop (bodyV2 C) (CrawlResult0, TradelogV40) eventLogs"

subsection \<open>Versions 3 and 4\<close>

definition kyberTradeV3 :: "crawler \<Rightarrow> TradelogV4 \<Rightarrow> log \<Rightarrow> abort + TradelogV4" where
  "kyberTradeV3 C trd lg =
     go_bind (on_err NoResult (fillKyberTradeV3 (cw_lib C) (trd\<lparr> Version := 3 \<rparr>) lg
                (cw_volumeExcludedReserves C))) (\<lambda>trd.
     go_bind (get_receipt C trd) (\<lambda>receipt.
       let trd = set_gas_used (rc_GasUsed receipt) trd in
     go_bind (get_timestamp C lg trd) (\<lambda>trd. basic_info (updateBasicInfo C lg trd))))"

definition kyberTradeV4 :: "crawler \<Rightarrow> TradelogV4 \<Rightarrow> log \<Rightarrow> abort + TradelogV4" where
  "kyberTradeV4 C trd lg =
     go_bind (on_err NoResult (fillKyberTradeV4 (ParseKyberTrade C lg) (trd\<lparr> Version := 4 \<rparr>) lg)) (\<lambda>trd.
     go_bind (get_receipt C trd) (\<lambda>receipt.
       let trd = set_gas_used (rc_GasUsed receipt) trd in
     go_bind (get_timestamp C lg trd) (\<lambda>trd. basic_info (updateBasicInfoV4 C lg trd))))"

definition bodyV3 :: "crawler \<Rightarrow> crawl_body" where
  "bodyV3 C lg topic st =
     (let (cr, trd) = st; L = cw_lib C in
      if topic = addReserveToStorageEvent then
        result_step trd (fillAddReserveToStorage (ParseAddReserveToStorage C lg) cr lg)
      else if topic = reserveRebateWalletSetEvent then
        result_step trd (fillRebateWalletSet (ParseReserveRebateWalletSet C lg) cr lg)
      else if topic = feeToWalletEvent then fill_step cr (fillWalletFees L trd lg)
      else if topic = burnFeeEvent then fill_step cr (fillBurnFees L trd lg)
      else if topic = kyberTradeEvent then trade_step cr (kyberTradeV3 C trd lg)
      else Inl (NoResult errUnknownLogTopic))"

definition assembleTradeLogsV3 :: "crawler \<Rightarrow> log list \<Rightarrow> crawl_out" where
  "assembleTradeLogsV3 C eventLogs = crawl_loop (bodyV3 C) (CrawlResult0, TradelogV40) eventLogs"

definition bodyV4 :: "crawler \<Rightarrow> crawl_body" where
  "bodyV4 C lg topic st =
     (let (cr, trd) = st; L = cw_lib C in
      if topic = addReserveToStorageEvent then
        result_step trd (fillAddReserveToStorage (ParseAddReserveToStorage C lg) cr lg)
      else if topic = reserveRebateWalletSetEvent then
        result_step trd (fillRebateWalletSet (ParseReserveRebateWalletSet C lg) cr lg)
      else if topic = feeToWalletEvent then fill_step cr (fillWalletFees L trd lg)
      else if topic = burnFeeEvent then fill_step cr (fillBurnFees L trd lg)
      else if topic = kyberTradeEvent then trade_step cr (kyberTradeV3 C trd lg)
      else if topic = feeDistributedEvent then
        fill_step cr (fillFeeDistributed (ParseFeeDistributed C lg) trd lg)
      else if topic = kyberTradeEventV4 then trade_step cr (kyberTradeV4 C trd lg)
      else Inl (NoResult errUnknownLogTopic))"

definition assembleTradeLogsV4 :: "crawler \<Rightarrow> log list \<Rightarrow> crawl_out" where
  "assembleTradeLogsV4 C eventLogs = crawl_loop (bodyV4 C) (CrawlResult0, TradelogV40) eventLogs"

section \<open>Fetching\<close>

definition topicsV1 :: "hash list" where
  "topicsV1 = [executeTradeEvent, burnFeeEvent, feeToWalletEvent, etherReceivalEvent]"
definition topicsV2 :: "hash list" where
  "topicsV2 = [kyberTradeEventV2, burnFeeEvent, feeToWalletEvent, etherReceivalEvent]"
definition topicsV3 :: "hash list" where
  "topicsV3 = [burnFeeEvent, feeToWalletEvent, kyberTradeEvent, addReserveToStorageEvent,
     reserveRebateWalletSetEvent]"
definition topicsV4 :: "hash list" where
  "topicsV4 = [burnFeeEvent, feeToWalletEvent, kyberTradeEvent, feeDistributedEvent,
     kyberTradeEventV4, addReserveToStorageEvent, reserveRebateWalletSetEvent]"

definition fetchLogsWithTopics :: "crawler \<Rightarrow> int \<Rightarrow> int \<Rightarrow> hash list \<Rightarrow> log list go" where
  "fetchLogsWithTopics C fromBlock toBlock topics =
     FilterLogs C fromBlock toBlock (cw_addresses C) topics"

definition fetch_and_assemble :: "crawler \<Rightarrow> int \<Rightarrow> int \<Rightarrow> hash list \<Rightarrow> (log list \<Rightarrow> crawl_out) \<Rightarrow> crawl_out" where
  "fetch_and_assemble C fromBlock toBlock topics assemble =
     (case fetchLogsWithTopics C fromBlock toBlock topics of
        Inl e \<Rightarrow> (None, Some (errors_Wrap ''failed to fetch log by topic'' e))
      | Inr logs \<Rightarrow> assemble logs)"

definition fetchTradeLogV1 :: "crawler \<Rightarrow> int \<Rightarrow> int \<Rightarrow> crawl_out" where
  "fetchTradeLogV1 C from to = fetch_and_assemble C from to topicsV1 (assembleTradeLogsV1 C)"
definition fetchTradeLogV2 :: "crawler \<Rightarrow> int \<Rightarrow> int \<Rightarrow> crawl_out" where
  "fetchTradeLogV2 C from to = fetch_and_assemble C from to topicsV2 (assembleTradeLogsV2 C)"
definition fetchTradeLogV3 :: "crawler \<Rightarrow> int \<Rightarrow> int \<Rightarrow> crawl_out" where
  "fetchTradeLogV3 C from to = fetch_and_assemble C from to topicsV3 (assembleTradeLogsV3 C)"
definition fetchTradeLogV4 :: "crawler \<Rightarrow> int \<Rightarrow> int \<Rightarrow> crawl_out" where
  "fetchTradeLogV4 C from to = fetch_and_assemble C from to topicsV4 (assembleTradeLogsV4 C)"

text \<open>\<open>big.Int.Uint64\<close> keeps the low 64 bits.\<close>

definition fetchFn :: "crawler \<Rightarrow> int \<Rightarrow> int \<Rightarrow> int \<Rightarrow> int \<Rightarrow> crawl_out" where
  "fetchFn C fromBlock toBlock =
     (if u64 fromBlock \<ge> cw_startV4 C \<and> u64 toBlock \<ge> cw_startV4 C then fetchTradeLogV4 C
      else if u64 fromBlock \<ge> cw_startV3 C \<and> u64 toBlock \<ge> cw_startV3 C then fetchTradeLogV3 C
      else if u64 fromBlock \<ge> cw_startV2 C \<and> u64 toBlock \<ge> cw_startV2 C then fetchTradeLogV2 C
      else fetchTradeLogV1 C)"

section \<open>GetTradeLogs\<close>

definition set_tx_info :: "string \<Rightarrow> string \<Rightarrow> string \<Rightarrow> TradelogV4 \<Rightarrow> TradelogV4" where
  "set_tx_info uid ip country trd =
     trd\<lparr> User := (User trd)\<lparr> ui_IP := ip, ui_Country := country, ui_UID := uid \<rparr> \<rparr>"

text \<open>
  The loop over \<open>result.Trades\<close>: \<open>acc\<close> are the trades already updated in place. \<open>tradeLog\<close> is the
  copy that \<open>range\<close> made before the update.
\<close>

fun enrich_from :: "crawler \<Rightarrow> CrawlResult \<Rightarrow> TradelogV4 list \<Rightarrow> TradelogV4 list \<Rightarrow> crawl_out" where
  "enrich_from C cr acc [] = (Some (cr\<lparr> cr_Trades := acc \<rparr>), None)"
| "enrich_from C cr acc (tradeLog # rest) =
     (case GetTxInfo C (TransactionHash tradeLog) of
        Inl e \<Rightarrow> (Some (cr\<lparr> cr_Trades := acc @ tradeLog # rest \<rparr>), Some e)
      | Inr (uid, ip, country) \<Rightarrow>
          (let trd = (set_tx_info uid ip country tradeLog)\<lparr> IntegrationApp := integrationApp tradeLog \<rparr>
           in case USDRate C (Timestamp tradeLog) of
                Inl e \<Rightarrow> (None, Some e)
              | Inr rate \<Rightarrow>
                  enrich_from C cr
                    (acc @ [trd\<lparr> ETHUSDProvider := RateProviderName C, ETHUSDRate := rate \<rparr>]) rest))"

definition GetTradeLogs :: "crawler \<Rightarrow> int \<Rightarrow> int \<Rightarrow> crawl_out" where
  "GetTradeLogs C fromBlock toBlock =
     (case fetchFn C fromBlock toBlock fromBlock toBlock of
        (result, Some e) \<Rightarrow> (result, Some (errors_Wrap ''failed to fetch trade logs fromBlock'' e))
      | (None, None) \<Rightarrow> (None, None)
      | (Some cr, None) \<Rightarrow> enrich_from C cr [] (cr_Trades cr))"

end
