(* ===== verification/TradeCrawlerFacts.thy ===== *)
theory TradeCrawlerFacts
  imports TradeCrawler
begin

text \<open>
  What the crawl loops compute. The interface \<open>crawl_events\<close> states what one iteration of a loop
  promises about the trades and the fees; its lemmas are about whole crawls, and its four
  interpretations are the loops of the crawler versions.
\<close>

section \<open>Specification of a crawl\<close>

definition log_key :: "log \<Rightarrow> hash \<times> nat \<times> nat" where
  "log_key lg = (lg_TxHash lg, lg_BlockNumber lg, lg_Index lg)"

definition trade_key :: "TradelogV4 \<Rightarrow> hash \<times> nat \<times> nat" where
  "trade_key trd = (TransactionHash trd, BlockNumber trd, Index trd)"

text \<open>The logs of the trade events that no chain reorganisation removed.\<close>

definition trade_logs :: "(hash \<Rightarrow> bool) \<Rightarrow> log list \<Rightarrow> log list" where
  "trade_logs is_trade logs = filter (\<lambda>lg. \<not> lg_Removed lg \<and> is_trade (hd (lg_Topics lg))) logs"

text \<open>
  The fees of each trade: those of the fee events since the trade event before it. \<open>acc\<close> holds the
  fees seen since then.
\<close>

fun fee_groups :: "(hash \<Rightarrow> bool) \<Rightarrow> (log \<Rightarrow> hash \<Rightarrow> TradelogFee list) \<Rightarrow> TradelogFee list
    \<Rightarrow> log list \<Rightarrow> TradelogFee list list" where
  "fee_groups is_trade fees_of acc [] = []"
| "fee_groups is_trade fees_of acc (lg # logs) =
     (if lg_Removed lg then fee_groups is_trade fees_of acc logs
      else if is_trade (hd (lg_Topics lg)) then acc # fee_groups is_trade fees_of [] logs
      else fee_groups is_trade fees_of (acc @ fees_of lg (hd (lg_Topics lg))) logs)"

lemma length_fee_groups:
  "length (fee_groups is_trade fees_of acc logs) = length (trade_logs is_trade logs)"
  by (induction logs arbitrary: acc) (auto simp: trade_logs_def)

section \<open>The interface of a loop body\<close>

locale crawl_events =
  fixes body :: crawl_body
    and is_trade :: "hash \<Rightarrow> bool"
    and fees_of :: "log \<Rightarrow> hash \<Rightarrow> TradelogFee list"
    and good :: "TradelogV4 \<Rightarrow> bool"
  assumes body_trade:
    "body lg t (cr, trd) = Inr (cr', trd') \<Longrightarrow> is_trade t \<Longrightarrow>
       \<exists>x. cr_Trades cr' = cr_Trades cr @ [x] \<and> trd' = TradelogV40 \<and>
           trade_key x = log_key lg \<and> Fees x = Fees trd \<and> good x"
    and body_other:
    "body lg t (cr, trd) = Inr (cr', trd') \<Longrightarrow> \<not> is_trade t \<Longrightarrow>
       cr_Trades cr' = cr_Trades cr \<and> Fees trd' = Fees trd @ fees_of lg t"
begin

lemma loop_ConsE:
  assumes "crawl_loop body (cr, trd) (lg # logs) = (Some r, None)" "\<not> lg_Removed lg"
  obtains cr' trd' where "lg_Topics lg \<noteq> []" "body lg (hd (lg_Topics lg)) (cr, trd) = Inr (cr', trd')"
    "crawl_loop body (cr', trd') logs = (Some r, None)"
  using assms by (auto split: list.splits sum.splits abort.splits)

lemma loop_trades:
  "crawl_loop body (cr, trd) logs = (Some r, None) \<Longrightarrow>
     map trade_key (cr_Trades r) =
       map trade_key (cr_Trades cr) @ map log_key (trade_logs is_trade logs) \<and>
     map Fees (cr_Trades r) =
       map Fees (cr_Trades cr) @ fee_groups is_trade fees_of (Fees trd) logs"
proof (induction logs arbitrary: cr trd)
  case Nil
  then show ?case by (simp add: trade_logs_def)
next
  case (Cons lg logs)
  show ?case
  proof (cases "lg_Removed lg")
    case True
    with Cons show ?thesis by (simp add: trade_logs_def)
  next
    case False
    from Cons.prems False obtain cr' trd' where step:
      "body lg (hd (lg_Topics lg)) (cr, trd) = Inr (cr', trd')"
      "crawl_loop body (cr', trd') logs = (Some r, None)"
      by (rule loop_ConsE)
    note IH = Cons.IH [OF step(2)]
    show ?thesis
    proof (cases "is_trade (hd (lg_Topics lg))")
      case True
      with body_trade [OF step(1)] IH False show ?thesis
        by (auto simp: trade_logs_def TradelogV40_def)
    next
      case other: False
      with body_other [OF step(1)] IH False show ?thesis by (simp add: trade_logs_def)
    qed
  qed
qed

lemma loop_good:
  "crawl_loop body (cr, trd) logs = (Some r, None) \<Longrightarrow> \<forall>x\<in>set (cr_Trades cr). good x \<Longrightarrow>
     \<forall>x\<in>set (cr_Trades r). good x"
proof (induction logs arbitrary: cr trd)
  case Nil
  then show ?case by simp
next
  case (Cons lg logs)
  show ?case
  proof (cases "lg_Removed lg")
    case True
    with Cons show ?thesis by simp
  next
    case False
    from Cons.prems(1) False obtain cr' trd' where step:
      "body lg (hd (lg_Topics lg)) (cr, trd) = Inr (cr', trd')"
      "crawl_loop body (cr', trd') logs = (Some r, None)"
      by (rule loop_ConsE)
    have "\<forall>x\<in>set (cr_Trades cr'). good x"
      using body_trade [OF step(1)] body_other [OF step(1)] Cons.prems(2)
      by (cases "is_trade (hd (lg_Topics lg))") auto
    with Cons.IH step(2) show ?thesis by blast
  qed
qed

end

text \<open>Removed logs do not matter.\<close>

lemma crawl_loop_filter_removed:
  "crawl_loop body st logs = crawl_loop body st (filter (\<lambda>lg. \<not> lg_Removed lg) logs)"
  by (induction logs arbitrary: st) (auto split: list.splits sum.splits abort.splits)

text \<open>A loop over two batches of logs runs the second from the state the first leaves.\<close>

fun crawl_state_after :: "crawl_body \<Rightarrow> crawl_state \<Rightarrow> log list \<Rightarrow> crawl_state option" where
  "crawl_state_after body st [] = Some st"
| "crawl_state_after body st (lg # logs) =
     (if lg_Removed lg then crawl_state_after body st logs
      else case lg_Topics lg of [] \<Rightarrow> None
        | topic # _ \<Rightarrow> (case body lg topic st of
               Inl a \<Rightarrow> None | Inr st' \<Rightarrow> crawl_state_after body st' logs))"

lemma crawl_loop_append:
  "crawl_state_after body st logs = Some st' \<Longrightarrow>
     crawl_loop body st (logs @ logs') = crawl_loop body st' logs'"
  by (induction logs arbitrary: st) (auto split: list.splits sum.splits abort.splits if_splits)

section \<open>What the completion of a trade keeps\<close>

text \<open>The fields that the steps after the fill do not write.\<close>

definition core :: "TradelogV4 \<Rightarrow> (hash \<times> nat \<times> nat) \<times> TradelogFee list \<times> nat \<times> TradeTokenInfo \<times>
    int option \<times> int option \<times> int option \<times> int option" where
  "core trd = (trade_key trd, Fees trd, Version trd, TokenInfo trd,
     EthAmount trd, OriginalEthAmount trd, SrcAmount trd, DestAmount trd)"

lemma core_set_simps [simp]:
  "core (set_wallet w trd) = core trd"
  "core (set_sender s p trd) = core trd"
  "core (set_user a trd) = core trd"
  "core (set_gas_used g trd) = core trd"
  "core (trd\<lparr> Timestamp := t \<rparr>) = core trd"
  "core (trd\<lparr> TxInfo := i \<rparr>) = core trd"
  "core (trd\<lparr> ReceiverAddress := a \<rparr>) = core trd"
  "core (trd\<lparr> SrcReserveAddress := a \<rparr>) = core trd"
  by (simp_all add: core_def trade_key_def set_wallet_def set_sender_def set_user_def set_gas_used_def)

lemma core_eqD:
  assumes "core x = core y"
  shows "trade_key x = trade_key y" "Fees x = Fees y" "Version x = Version y"
    "TokenInfo x = TokenInfo y" "EthAmount x = EthAmount y"
    "OriginalEthAmount x = OriginalEthAmount y" "SrcAmount x = SrcAmount y"
    "DestAmount x = DestAmount y"
  using assms by (simp_all add: core_def)

text \<open>The reserves of a trade, which no step writes after the fill of version 3.\<close>

definition route :: "TradelogV4 \<Rightarrow> addr \<times> addr" where
  "route trd = (SrcReserveAddress trd, DstReserveAddress trd)"

lemma route_set_simps [simp]:
  "route (set_wallet w trd) = route trd"
  "route (set_sender s p trd) = route trd"
  "route (set_user a trd) = route trd"
  "route (set_gas_used g trd) = route trd"
  "route (trd\<lparr> Timestamp := t \<rparr>) = route trd"
  "route (trd\<lparr> TxInfo := i \<rparr>) = route trd"
  by (simp_all add: route_def set_wallet_def set_sender_def set_user_def set_gas_used_def)

lemma wallet_of_tx_core: "wallet_of_tx C decode tx trd = Inr x \<Longrightarrow> core x = core trd \<and> route x = route trd"
  by (auto simp: wallet_of_tx_def go_bind_Inr_iff split: if_splits option.splits)

lemma updateBasicInfo_core: "updateBasicInfo C lg trd = Inr x \<Longrightarrow> core x = core trd \<and> route x = route trd"
  by (auto simp: updateBasicInfo_def go_bind_Inr_iff Let_def case_prod_beta
      split: option.split_asm dest!: wallet_of_tx_core)

lemma updateBasicInfoV4_core: "updateBasicInfoV4 C lg trd = Inr x \<Longrightarrow> core x = core trd"
  by (auto simp: updateBasicInfoV4_def go_bind_Inr_iff Let_def case_prod_beta
      split: option.split_asm dest!: wallet_of_tx_core)

lemma get_timestamp_core: "get_timestamp C lg trd = Inr x \<Longrightarrow> core x = core trd \<and> route x = route trd"
  by (auto simp: get_timestamp_def go_bind_Inr_iff)

definition fee_is_gas_cost :: "TradelogV4 \<Rightarrow> bool" where
  "fee_is_gas_cost trd \<longleftrightarrow>
     (\<exists>p. td_GasPrice (TxInfo trd) = Some p \<and>
          td_TransactionFee (TxInfo trd) = Some (p * i64 (int (td_GasUsed (TxInfo trd)))))"

lemma basic_info_InrE:
  assumes "basic_info m = Inr x"
  obtains y where "m = Inr y" "core x = core y" "fee_is_gas_cost x" "route x = route y"
  using assms
  by (auto simp: basic_info_def go_bind_Inr_iff set_transaction_fee_def fee_is_gas_cost_def
      split: option.splits)

lemma receiptV1_core: "receiptV1_from L logs n sh trd = Inr x \<Longrightarrow> core x = core trd"
proof (induction n arbitrary: trd sh)
  case 0
  then show ?case by simp
next
  case (Suc n)
  from Suc.prems show ?case
    by (auto simp: Let_def split: list.splits if_splits dest!: Suc.IH)
qed

lemma getTransactionReceiptV1_core: "getTransactionReceiptV1 L trd r i sh = Inr x \<Longrightarrow> core x = core trd"
  by (simp add: getTransactionReceiptV1_def receiptV1_core)

lemma getInternalTransaction_core: "getInternalTransaction C trd = Inr x \<Longrightarrow> core x = core trd"
  by (auto simp: getInternalTransaction_def split: sum.splits option.splits if_splits)

section \<open>Results of the trade events\<close>

lemma fillExecuteTrade_core:
  "fillExecuteTrade L trd lg = Inr x \<Longrightarrow>
     trade_key x = log_key lg \<and> Fees x = Fees trd \<and> Version x = Version trd"
  by (auto simp: fillExecuteTrade_def go_bind_Inr_iff trade_key_def log_key_def set_user_def
      set_tokens_def split: prod.split_asm)

lemma ethAmountV1_facts:
  "trade_key (ethAmountV1 trd) = trade_key trd" "Fees (ethAmountV1 trd) = Fees trd"
  "Version (ethAmountV1 trd) = Version trd" "TokenInfo (ethAmountV1 trd) = TokenInfo trd"
  "SrcAmount (ethAmountV1 trd) = SrcAmount trd" "DestAmount (ethAmountV1 trd) = DestAmount trd"
  "OriginalEthAmount (ethAmountV1 trd) = EthAmount (ethAmountV1 trd)"
  "ti_SrcAddress (TokenInfo trd) = ETHAddr \<Longrightarrow> EthAmount (ethAmountV1 trd) = SrcAmount trd"
  "ti_SrcAddress (TokenInfo trd) \<noteq> ETHAddr \<Longrightarrow> ti_DestAddress (TokenInfo trd) = ETHAddr \<Longrightarrow>
     EthAmount (ethAmountV1 trd) = DestAmount trd"
  by (simp_all add: ethAmountV1_def trade_key_def Let_def)

lemma executeTradeV1_result:
  assumes "executeTradeV1 C trd lg = Inr x"
  shows "trade_key x = log_key lg \<and> Fees x = Fees trd \<and> Version x = 1 \<and> fee_is_gas_cost x \<and>
    OriginalEthAmount x = EthAmount x \<and>
    EthAmount x = (if ti_SrcAddress (TokenInfo x) = ETHAddr then SrcAmount x
      else if ti_DestAddress (TokenInfo x) = ETHAddr then DestAmount x else EthAmount x)"
proof -
  from assms obtain a b d where
    a: "fillExecuteTrade (cw_lib C) (trd\<lparr>Version := 1\<rparr>) lg = Inr a" and
    b: "get_timestamp C lg a = Inr b" and
    d: "core d = core b" and
    x: "basic_info (updateBasicInfo C lg (ethAmountV1 d)) = Inr x"
    by (auto simp: executeTradeV1_def go_bind_Inr_iff Let_def split: if_splits)
      (metis core_set_simps(4) getTransactionReceiptV1_core getInternalTransaction_core)+
  from x obtain y where y: "updateBasicInfo C lg (ethAmountV1 d) = Inr y" "core x = core y"
    "fee_is_gas_cost x" by (rule basic_info_InrE)
  have x_d: "core x = core (ethAmountV1 d)" using y updateBasicInfo_core by simp
  have d_a: "core d = core a" using d get_timestamp_core [OF b] by simp
  show ?thesis
    using fillExecuteTrade_core [OF a] y(3) core_eqD [OF x_d] core_eqD [OF d_a]
    by (simp add: ethAmountV1_facts)
qed

text \<open>
  Version 2: the stored ether amount is the original one times the number of burn fees, and the
  amount it was copied from is overwritten with the product.
\<close>

lemma ethAmountV2_result:
  assumes "ethAmountV2 trd = Inr x"
  shows "\<exists>e. OriginalEthAmount x = Some e \<and> EthAmount x = Some (e * int (LengthBurnFees trd)) \<and>
      trade_key x = trade_key trd \<and> Fees x = Fees trd \<and> Version x = Version trd \<and>
      TokenInfo x = TokenInfo trd \<and>
      (if ti_SrcAddress (TokenInfo trd) = ETHAddr
       then SrcAmount trd = Some e \<and> SrcAmount x = EthAmount x \<and> DestAmount x = DestAmount trd
       else if ti_DestAddress (TokenInfo trd) = ETHAddr
       then DestAmount trd = Some e \<and> DestAmount x = EthAmount x \<and> SrcAmount x = SrcAmount trd
       else EthAmount trd = Some e \<and> SrcAmount x = SrcAmount trd \<and> DestAmount x = DestAmount trd)"
  using assms
  by (auto simp: ethAmountV2_def Let_def trade_key_def split: if_splits option.splits)

lemma fillKyberTradeV2_result:
  "fillKyberTradeV2 L trd lg = Inr x \<Longrightarrow>
     trade_key x = log_key lg \<and> Fees x = Fees trd \<and> Version x = Version trd \<and>
     EthAmount x = EthAmount trd \<and>
     SrcAmount x = Some (HashBig L (BytesToHash L (slice 64 96 (lg_Data lg)))) \<and>
     DestAmount x = Some (HashBig L (BytesToHash L (slice 160 192 (lg_Data lg)))) \<and>
     ti_SrcAddress (TokenInfo x) = BytesToAddress L (slice 32 64 (lg_Data lg)) \<and>
     ti_DestAddress (TokenInfo x) = BytesToAddress L (slice 128 160 (lg_Data lg))"
  by (auto simp: fillKyberTradeV2_def go_bind_Inr_iff trade_key_def log_key_def set_user_def
      set_tokens_def logDataToKyberTradeV2Params_def split: if_splits)

lemma kyberTradeV2_result:
  assumes "kyberTradeV2 C trd lg = Inr x"
  obtains a b y where "fillKyberTradeV2 (cw_lib C) (trd\<lparr>Version := 2\<rparr>) lg = Inr a"
    "ethAmountV2 b = Inr y" "core b = core a" "core x = core y" "fee_is_gas_cost x"
proof -
  from assms obtain a b g c d where
    a: "fillKyberTradeV2 (cw_lib C) (trd\<lparr>Version := 2\<rparr>) lg = Inr a" and
    b: "get_timestamp C lg a = Inr b" and
    c: "core c = core (set_gas_used g b)" and
    d: "ethAmountV2 c = Inr d" and
    x: "basic_info (updateBasicInfo C lg d) = Inr x"
    by (auto simp: kyberTradeV2_def go_bind_Inr_iff Let_def split: if_splits) (metis core_set_simps)+
  from x obtain y where y: "updateBasicInfo C lg d = Inr y" "core x = core y" "fee_is_gas_cost x"
    by (rule basic_info_InrE)
  show thesis
  proof (rule that [OF a d])
    show "core c = core a" using c get_timestamp_core [OF b] by simp
    show "core x = core d" using y updateBasicInfo_core by simp
  qed (rule y)
qed

lemma fillKyberTradeV3_result:
  "fillKyberTradeV3 L trd lg ex = Inr x \<Longrightarrow>
     trade_key x = log_key lg \<and> Fees x = Fees trd \<and> Version x = Version trd \<and>
     (\<exists>e. OriginalEthAmount x = Some e \<and> EthAmount x = Some (e *
        defaultRatio (SrcReserveAddress x \<in> set ex) (DstReserveAddress x \<in> set ex)))"
  by (auto simp: fillKyberTradeV3_def go_bind_Inr_iff trade_key_def log_key_def set_user_def
      isVolumeExcludedReserves_iff)

lemma fillKyberTradeV4_result:
  "fillKyberTradeV4 p trd lg = Inr x \<Longrightarrow>
     trade_key x = log_key lg \<and> Fees x = Fees trd \<and> Version x = Version trd \<and>
     (\<exists>e. OriginalEthAmount x = Some e \<and> EthAmount x = Some (e *
        defaultRatio (isEtherLike (ti_SrcAddress (TokenInfo x)))
                     (isEtherLike (ti_DestAddress (TokenInfo x)))))"
  by (auto simp: fillKyberTradeV4_def go_bind_Inr_iff trade_key_def log_key_def
      split: prod.split_asm)

lemma kyberTradeV3_result:
  assumes "kyberTradeV3 C trd lg = Inr x"
  obtains a where "fillKyberTradeV3 (cw_lib C) (trd\<lparr>Version := 3\<rparr>) lg (cw_volumeExcludedReserves C) = Inr a"
    "core x = core a" "route x = route a" "fee_is_gas_cost x"
proof -
  from assms obtain a g b where
    a: "fillKyberTradeV3 (cw_lib C) (trd\<lparr>Version := 3\<rparr>) lg (cw_volumeExcludedReserves C) = Inr a" and
    b: "get_timestamp C lg (set_gas_used g a) = Inr b" and
    x: "basic_info (updateBasicInfo C lg b) = Inr x"
    by (auto simp: kyberTradeV3_def go_bind_Inr_iff Let_def)
  from x obtain y where y: "updateBasicInfo C lg b = Inr y" "core x = core y" "fee_is_gas_cost x" "route x = route y"
    by (rule basic_info_InrE)
  with that [OF a] show thesis using updateBasicInfo_core [OF y(1)] get_timestamp_core [OF b] by simp
qed

lemma kyberTradeV4_result:
  assumes "kyberTradeV4 C trd lg = Inr x"
  obtains a where "fillKyberTradeV4 (ParseKyberTrade C lg) (trd\<lparr>Version := 4\<rparr>) lg = Inr a"
    "core x = core a" "fee_is_gas_cost x"
proof -
  from assms obtain a g b where
    a: "fillKyberTradeV4 (ParseKyberTrade C lg) (trd\<lparr>Version := 4\<rparr>) lg = Inr a" and
    b: "get_timestamp C lg (set_gas_used g a) = Inr b" and
    x: "basic_info (updateBasicInfoV4 C lg b) = Inr x"
    by (auto simp: kyberTradeV4_def go_bind_Inr_iff Let_def)
  from x obtain y where y: "updateBasicInfoV4 C lg b = Inr y" "core x = core y" "fee_is_gas_cost x"
    by (rule basic_info_InrE)
  with that [OF a] show thesis using updateBasicInfoV4_core [OF y(1)] get_timestamp_core [OF b] by simp
qed

section \<open>The four loops as interpretations\<close>

text \<open>The fee that a fee event appends.\<close>

definition wallet_fee_of :: "eth_lib \<Rightarrow> log \<Rightarrow> TradelogFee list" where
  "wallet_fee_of L lg = (case logDataToFeeWalletParams L (lg_Data lg) of
     Inl e \<Rightarrow> []
   | Inr (reserveAddr, walletAddr, fee) \<Rightarrow>
       [TradelogFee0\<lparr> fee_WalletFee := Some (HashBig L fee), fee_PlatformWallet := walletAddr,
          fee_WalletName := WalletAddrToName walletAddr, fee_ReserveAddr := reserveAddr,
          fee_Index := lg_Index lg \<rparr>])"

definition burn_fee_of :: "eth_lib \<Rightarrow> log \<Rightarrow> TradelogFee list" where
  "burn_fee_of L lg = (case logDataToBurnFeeParams L (lg_Data lg) of
     Inl e \<Rightarrow> []
   | Inr (reserveAddr, fee) \<Rightarrow>
       [TradelogFee0\<lparr> fee_ReserveAddr := reserveAddr, fee_Burn := Some (HashBig L fee),
          fee_Index := lg_Index lg \<rparr>])"

definition distributed_fee_of :: "FeeDistributed go \<Rightarrow> log \<Rightarrow> TradelogFee list" where
  "distributed_fee_of p lg = (case p of
     Inl e \<Rightarrow> []
   | Inr fee \<Rightarrow> [TradelogFee0\<lparr> fee_PlatformFee := Some (fd_PlatformFeeWei fee),
       fee_PlatformWallet := fd_PlatformWallet fee, fee_Burn := Some (fd_BurnAmtWei fee),
       fee_Rebate := Some (fd_RebateWei fee), fee_Reward := Some (fd_RewardWei fee),
       fee_RebateWallets := fd_RebateWallets fee,
       fee_RebatePercentBpsPerWallet := fd_RebatePercentBpsPerWallet fee,
       fee_Index := lg_Index lg \<rparr>])"

definition fees_of_event :: "crawler \<Rightarrow> log \<Rightarrow> hash \<Rightarrow> TradelogFee list" where
  "fees_of_event C lg t =
     (if t = feeToWalletEvent then wallet_fee_of (cw_lib C) lg
      else if t = burnFeeEvent then burn_fee_of (cw_lib C) lg
      else if t = feeDistributedEvent then distributed_fee_of (ParseFeeDistributed C lg) lg
      else [])"

lemma fillWalletFees_fees:
  "fillWalletFees L trd lg = Inr x \<Longrightarrow> Fees x = Fees trd @ wallet_fee_of L lg"
  by (auto simp: fillWalletFees_def wallet_fee_of_def go_bind_Inr_iff)

lemma fillBurnFees_fees:
  "fillBurnFees L trd lg = Inr x \<Longrightarrow> Fees x = Fees trd @ burn_fee_of L lg"
  by (auto simp: fillBurnFees_def burn_fee_of_def go_bind_Inr_iff Let_def)

lemma fillFeeDistributed_fees:
  "fillFeeDistributed p trd lg = Inr x \<Longrightarrow> Fees x = Fees trd @ distributed_fee_of p lg"
  by (auto simp: fillFeeDistributed_def distributed_fee_of_def go_bind_Inr_iff)

lemma fillEtherReceival_fees:
  "fillEtherReceival L trd lg = Inr x \<Longrightarrow> Fees x = Fees trd"
  by (auto simp: fillEtherReceival_def go_bind_Inr_iff)

lemma fill_step_Inr: "fill_step cr m = Inr (cr', trd') \<longleftrightarrow> m = Inr trd' \<and> cr' = cr"
  by (auto simp: fill_step_def go_bind_Inr_iff)

lemma result_step_Inr: "result_step trd m = Inr (cr', trd') \<longleftrightarrow> m = Inr cr' \<and> trd' = trd"
  by (auto simp: result_step_def go_bind_Inr_iff)

lemma trade_step_Inr: "trade_step cr m = Inr (cr', trd') \<longleftrightarrow>
    (\<exists>x. m = Inr x \<and> cr' = cr\<lparr> cr_Trades := cr_Trades cr @ [x] \<rparr> \<and> trd' = TradelogV40)"
  by (auto simp: trade_step_def go_bind_Inr_iff)

lemma reserve_fills_trades:
  "fillAddReserveToStorage p cr lg = Inr cr' \<Longrightarrow> cr_Trades cr' = cr_Trades cr"
  "fillRebateWalletSet q cr lg = Inr cr' \<Longrightarrow> cr_Trades cr' = cr_Trades cr"
  by (auto simp: fillAddReserveToStorage_def fillRebateWalletSet_def go_bind_Inr_iff)

lemmas step_Inr = fill_step_Inr result_step_Inr trade_step_Inr

lemmas fill_fees = fillWalletFees_fees fillBurnFees_fees fillFeeDistributed_fees
  fillEtherReceival_fees reserve_fills_trades

text \<open>
  What every trade of a version satisfies. In versions 1 and 2 the ether amount is that side of the trade
  that is ether. In version 3 it loses one share for each of its reserves that is among the excluded
  ones, in version 4 for each of its tokens that is ether, wrapped ether or \<open>PTAddr\<close>.
\<close>

definition ether_side :: "TradelogV4 \<Rightarrow> bool" where
  "ether_side x \<longleftrightarrow>
     (ti_SrcAddress (TokenInfo x) = ETHAddr \<longrightarrow> EthAmount x = SrcAmount x) \<and>
     (ti_SrcAddress (TokenInfo x) \<noteq> ETHAddr \<and> ti_DestAddress (TokenInfo x) = ETHAddr \<longrightarrow>
        EthAmount x = DestAmount x)"

definition reserve_shares :: "addr set \<Rightarrow> TradelogV4 \<Rightarrow> int" where
  "reserve_shares excluded x =
     2 - of_bool (SrcReserveAddress x \<in> excluded) - of_bool (DstReserveAddress x \<in> excluded)"

definition token_shares :: "TradelogV4 \<Rightarrow> int" where
  "token_shares x = 2 - of_bool (ti_SrcAddress (TokenInfo x) \<in> {WETHAddr, ETHAddr, PTAddr})
     - of_bool (ti_DestAddress (TokenInfo x) \<in> {WETHAddr, ETHAddr, PTAddr})"

definition goodV1 :: "TradelogV4 \<Rightarrow> bool" where
  "goodV1 x \<longleftrightarrow> Version x = 1 \<and> fee_is_gas_cost x \<and> OriginalEthAmount x = EthAmount x \<and> ether_side x"

definition goodV2 :: "TradelogV4 \<Rightarrow> bool" where
  "goodV2 x \<longleftrightarrow> Version x = 2 \<and> fee_is_gas_cost x \<and> ether_side x \<and>
     (\<exists>e. OriginalEthAmount x = Some e \<and> EthAmount x = Some (e * int (LengthBurnFees x)))"

definition goodV3 :: "addr set \<Rightarrow> TradelogV4 \<Rightarrow> bool" where
  "goodV3 excluded x \<longleftrightarrow> Version x = 3 \<and> fee_is_gas_cost x \<and>
     (\<exists>e. OriginalEthAmount x = Some e \<and> EthAmount x = Some (e * reserve_shares excluded x))"

definition goodV4 :: "TradelogV4 \<Rightarrow> bool" where
  "goodV4 x \<longleftrightarrow> Version x = 4 \<and> fee_is_gas_cost x \<and>
     (\<exists>e. OriginalEthAmount x = Some e \<and> EthAmount x = Some (e * token_shares x))"

lemma kyberTradeV2_good:
  assumes "kyberTradeV2 C trd lg = Inr x"
  shows "trade_key x = log_key lg \<and> Fees x = Fees trd \<and> goodV2 x"
proof -
  from assms obtain a b y where a: "fillKyberTradeV2 (cw_lib C) (trd\<lparr>Version := 2\<rparr>) lg = Inr a"
    and y: "ethAmountV2 b = Inr y" and b: "core b = core a" and x: "core x = core y"
    and gas: "fee_is_gas_cost x"
    by (rule kyberTradeV2_result)
  show ?thesis
    using fillKyberTradeV2_result [OF a] ethAmountV2_result [OF y] core_eqD [OF b] core_eqD [OF x] gas
    by (auto simp: goodV2_def LengthBurnFees_def ether_side_def split: if_splits)
qed

lemma kyberTradeV3_good:
  assumes "kyberTradeV3 C trd lg = Inr x"
  shows "trade_key x = log_key lg \<and> Fees x = Fees trd \<and> goodV3 (set (cw_volumeExcludedReserves C)) x"
proof -
  from assms obtain a where
    a: "fillKyberTradeV3 (cw_lib C) (trd\<lparr>Version := 3\<rparr>) lg (cw_volumeExcludedReserves C) = Inr a"
    and x: "core x = core a" "route x = route a" and gas: "fee_is_gas_cost x"
    by (rule kyberTradeV3_result)
  show ?thesis
    using fillKyberTradeV3_result [OF a] core_eqD [OF x(1)] x(2) gas
    by (auto simp: goodV3_def reserve_shares_def route_def defaultRatio_cases of_bool_def)
qed

lemma kyberTradeV4_good:
  assumes "kyberTradeV4 C trd lg = Inr x"
  shows "trade_key x = log_key lg \<and> Fees x = Fees trd \<and> goodV4 x"
proof -
  from assms obtain a where
    a: "fillKyberTradeV4 (ParseKyberTrade C lg) (trd\<lparr>Version := 4\<rparr>) lg = Inr a"
    and x: "core x = core a" and gas: "fee_is_gas_cost x"
    by (rule kyberTradeV4_result)
  show ?thesis
    using fillKyberTradeV4_result [OF a] core_eqD [OF x] gas
    by (auto simp: goodV4_def token_shares_def isEtherLike_def defaultRatio_cases of_bool_def)
qed

definition is_trade_V4 :: "hash \<Rightarrow> bool" where
  "is_trade_V4 t = (t = kyberTradeEvent \<or> t = kyberTradeEventV4)"

lemma topics_distinct:
  "executeTradeEvent \<noteq> feeToWalletEvent" "executeTradeEvent \<noteq> burnFeeEvent"
  "executeTradeEvent \<noteq> etherReceivalEvent" "kyberTradeEventV2 \<noteq> feeToWalletEvent"
  "kyberTradeEventV2 \<noteq> burnFeeEvent" "kyberTradeEventV2 \<noteq> etherReceivalEvent"
  "kyberTradeEvent \<noteq> feeToWalletEvent" "kyberTradeEvent \<noteq> burnFeeEvent"
  "kyberTradeEvent \<noteq> addReserveToStorageEvent" "kyberTradeEvent \<noteq> reserveRebateWalletSetEvent"
  "kyberTradeEvent \<noteq> feeDistributedEvent"
  "kyberTradeEventV4 \<noteq> feeToWalletEvent" "kyberTradeEventV4 \<noteq> burnFeeEvent"
  "kyberTradeEventV4 \<noteq> addReserveToStorageEvent" "kyberTradeEventV4 \<noteq> reserveRebateWalletSetEvent"
  "kyberTradeEventV4 \<noteq> feeDistributedEvent" "kyberTradeEventV4 \<noteq> kyberTradeEvent"
  "etherReceivalEvent \<noteq> feeToWalletEvent" "etherReceivalEvent \<noteq> burnFeeEvent"
  "etherReceivalEvent \<noteq> feeDistributedEvent"
  "addReserveToStorageEvent \<noteq> feeToWalletEvent" "addReserveToStorageEvent \<noteq> burnFeeEvent"
  "addReserveToStorageEvent \<noteq> feeDistributedEvent"
  "reserveRebateWalletSetEvent \<noteq> feeToWalletEvent" "reserveRebateWalletSetEvent \<noteq> burnFeeEvent"
  "reserveRebateWalletSetEvent \<noteq> feeDistributedEvent"
  "feeDistributedEvent \<noteq> feeToWalletEvent" "feeDistributedEvent \<noteq> burnFeeEvent"
  by (simp_all add: topic_defs)

lemmas topics_neq = topics_distinct topics_distinct [symmetric]

interpretation v1: crawl_events "bodyV1 C" "\<lambda>t. t = executeTradeEvent" "fees_of_event C" goodV1
  for C
proof
  show "\<exists>x. cr_Trades cr' = cr_Trades cr @ [x] \<and> trd' = TradelogV40 \<and>
      trade_key x = log_key lg \<and> Fees x = Fees trd \<and> goodV1 x"
    if "bodyV1 C lg t (cr, trd) = Inr (cr', trd')" "t = executeTradeEvent" for lg t cr trd cr' trd'
    using that
    by (auto simp: bodyV1_def Let_def step_Inr topics_neq goodV1_def ether_side_def dest!: executeTradeV1_result)
  show "cr_Trades cr' = cr_Trades cr \<and> Fees trd' = Fees trd @ fees_of_event C lg t"
    if "bodyV1 C lg t (cr, trd) = Inr (cr', trd')" "t \<noteq> executeTradeEvent" for lg t cr trd cr' trd'
    using that
    by (auto simp: bodyV1_def Let_def step_Inr fees_of_event_def topics_neq split: if_splits dest: fill_fees)
qed

interpretation v2: crawl_events "bodyV2 C" "\<lambda>t. t = kyberTradeEventV2" "fees_of_event C" goodV2
  for C
proof
  show "\<exists>x. cr_Trades cr' = cr_Trades cr @ [x] \<and> trd' = TradelogV40 \<and>
      trade_key x = log_key lg \<and> Fees x = Fees trd \<and> goodV2 x"
    if "bodyV2 C lg t (cr, trd) = Inr (cr', trd')" "t = kyberTradeEventV2" for lg t cr trd cr' trd'
    using that
    by (auto simp: bodyV2_def Let_def step_Inr topics_neq dest!: kyberTradeV2_good)
  show "cr_Trades cr' = cr_Trades cr \<and> Fees trd' = Fees trd @ fees_of_event C lg t"
    if "bodyV2 C lg t (cr, trd) = Inr (cr', trd')" "t \<noteq> kyberTradeEventV2" for lg t cr trd cr' trd'
    using that
    by (auto simp: bodyV2_def Let_def step_Inr fees_of_event_def topics_neq split: if_splits dest: fill_fees)
qed

interpretation v3: crawl_events "bodyV3 C" "\<lambda>t. t = kyberTradeEvent" "fees_of_event C"
  "goodV3 (set (cw_volumeExcludedReserves C))"
  for C
proof
  show "\<exists>x. cr_Trades cr' = cr_Trades cr @ [x] \<and> trd' = TradelogV40 \<and>
      trade_key x = log_key lg \<and> Fees x = Fees trd \<and> goodV3 (set (cw_volumeExcludedReserves C)) x"
    if "bodyV3 C lg t (cr, trd) = Inr (cr', trd')" "t = kyberTradeEvent" for lg t cr trd cr' trd'
    using that
    by (auto simp: bodyV3_def Let_def step_Inr topics_neq dest!: kyberTradeV3_good)
  show "cr_Trades cr' = cr_Trades cr \<and> Fees trd' = Fees trd @ fees_of_event C lg t"
    if "bodyV3 C lg t (cr, trd) = Inr (cr', trd')" "t \<noteq> kyberTradeEvent" for lg t cr trd cr' trd'
    using that
    by (auto simp: bodyV3_def Let_def step_Inr fees_of_event_def topics_neq split: if_splits dest: fill_fees)
qed

interpretation v4: crawl_events "bodyV4 C" is_trade_V4 "fees_of_event C"
  "\<lambda>x. goodV3 (set (cw_volumeExcludedReserves C)) x \<or> goodV4 x"
  for C
proof
  show "\<exists>x. cr_Trades cr' = cr_Trades cr @ [x] \<and> trd' = TradelogV40 \<and>
      trade_key x = log_key lg \<and> Fees x = Fees trd \<and>
        (goodV3 (set (cw_volumeExcludedReserves C)) x \<or> goodV4 x)"
    if "bodyV4 C lg t (cr, trd) = Inr (cr', trd')" "is_trade_V4 t" for lg t cr trd cr' trd'
    using that
    by (auto simp: bodyV4_def Let_def step_Inr topics_neq is_trade_V4_def
        dest!: kyberTradeV3_good kyberTradeV4_good)
  show "cr_Trades cr' = cr_Trades cr \<and> Fees trd' = Fees trd @ fees_of_event C lg t"
    if "bodyV4 C lg t (cr, trd) = Inr (cr', trd')" "\<not> is_trade_V4 t" for lg t cr trd cr' trd'
    using that
    by (auto simp: bodyV4_def Let_def step_Inr fees_of_event_def is_trade_V4_def topics_neq
        split: if_splits dest: fill_fees)
qed

end
