(* ===== verification/TradeProps.thy ===== *)
theory TradeProps
  imports TradeCrawlerFacts
begin

text \<open>
  The properties of the trade log crawler as a whole: which trades and fees \<open>GetTradeLogs\<close> returns
  for the logs of the node, how the amounts of a trade relate, what the enrichment adds, and how the
  reserve of a trade without burn fees is found in a receipt.
\<close>

section \<open>Versions\<close>

text \<open>The version whose fetch function a block range is given to.\<close>

definition crawl_version :: "crawler \<Rightarrow> int \<Rightarrow> int \<Rightarrow> nat" where
  "crawl_version C fromBlock toBlock =
     (let first = min (u64 fromBlock) (u64 toBlock)
      in if cw_startV4 C \<le> first then 4 else if cw_startV3 C \<le> first then 3
         else if cw_startV2 C \<le> first then 2 else 1)"

definition topics_of_version :: "nat \<Rightarrow> hash list" where
  "topics_of_version v =
     (if v = 4 then topicsV4 else if v = 3 then topicsV3 else if v = 2 then topicsV2 else topicsV1)"

definition trade_topic_of_version :: "nat \<Rightarrow> hash \<Rightarrow> bool" where
  "trade_topic_of_version v =
     (if v = 4 then is_trade_V4 else if v = 3 then (\<lambda>t. t = kyberTradeEvent)
      else if v = 2 then (\<lambda>t. t = kyberTradeEventV2) else (\<lambda>t. t = executeTradeEvent))"

text \<open>The crawl of version 4 also fetches the trade events of version 3.\<close>

definition good_of_version :: "crawler \<Rightarrow> nat \<Rightarrow> TradelogV4 \<Rightarrow> bool" where
  "good_of_version C v x =
     (let V3 = goodV3 (set (cw_volumeExcludedReserves C))
      in if v = 4 then V3 x \<or> goodV4 x else if v = 3 then V3 x else if v = 2 then goodV2 x else goodV1 x)"

definition assemble_of_version :: "nat \<Rightarrow> crawler \<Rightarrow> log list \<Rightarrow> crawl_out" where
  "assemble_of_version v =
     (if v = 4 then assembleTradeLogsV4 else if v = 3 then assembleTradeLogsV3
      else if v = 2 then assembleTradeLogsV2 else assembleTradeLogsV1)"

lemma fetchFn_version:
  "fetchFn C fromBlock toBlock f t =
     (let v = crawl_version C fromBlock toBlock
      in fetch_and_assemble C f t (topics_of_version v) (assemble_of_version v C))"
  by (auto simp: fetchFn_def crawl_version_def Let_def fetchTradeLogV1_def fetchTradeLogV2_def
      fetchTradeLogV3_def fetchTradeLogV4_def topics_of_version_def assemble_of_version_def)

lemma assemble_trades:
  assumes "assemble_of_version v C logs = (Some r, None)" "v \<in> {1, 2, 3, 4}"
  shows "map trade_key (cr_Trades r) = map log_key (trade_logs (trade_topic_of_version v) logs)"
    and "map Fees (cr_Trades r) = fee_groups (trade_topic_of_version v) (fees_of_event C) [] logs"
    and "\<forall>x\<in>set (cr_Trades r). good_of_version C v x"
proof -
  have init: "cr_Trades CrawlResult0 = []" "Fees TradelogV40 = []" by (simp_all add: zero_values)
  consider (v1) "v = 1" | (v2) "v = 2" | (v3) "v = 3" | (v4) "v = 4" using assms(2) by auto
  then have "map trade_key (cr_Trades r) = map log_key (trade_logs (trade_topic_of_version v) logs)
      \<and> map Fees (cr_Trades r) = fee_groups (trade_topic_of_version v) (fees_of_event C) [] logs
      \<and> (\<forall>x\<in>set (cr_Trades r). good_of_version C v x)"
  proof cases
    case v1
    with assms(1) have "crawl_loop (bodyV1 C) (CrawlResult0, TradelogV40) logs = (Some r, None)"
      by (simp add: assemble_of_version_def assembleTradeLogsV1_def)
    with v1.loop_trades [OF this] v1.loop_good [OF this] v1 init show ?thesis
      by (simp add: trade_topic_of_version_def good_of_version_def Let_def)
  next
    case v2
    with assms(1) have "crawl_loop (bodyV2 C) (CrawlResult0, TradelogV40) logs = (Some r, None)"
      by (simp add: assemble_of_version_def assembleTradeLogsV2_def)
    with v2.loop_trades [OF this] v2.loop_good [OF this] v2 init show ?thesis
      by (simp add: trade_topic_of_version_def good_of_version_def Let_def)
  next
    case v3
    with assms(1) have "crawl_loop (bodyV3 C) (CrawlResult0, TradelogV40) logs = (Some r, None)"
      by (simp add: assemble_of_version_def assembleTradeLogsV3_def)
    with v3.loop_trades [OF this] v3.loop_good [OF this] v3 init show ?thesis
      by (simp add: trade_topic_of_version_def good_of_version_def Let_def)
  next
    case v4
    with assms(1) have "crawl_loop (bodyV4 C) (CrawlResult0, TradelogV40) logs = (Some r, None)"
      by (simp add: assemble_of_version_def assembleTradeLogsV4_def)
    with v4.loop_trades [OF this] v4.loop_good [OF this] v4 init show ?thesis
      by (simp add: trade_topic_of_version_def good_of_version_def Let_def)
  qed
  then show "map trade_key (cr_Trades r) = map log_key (trade_logs (trade_topic_of_version v) logs)"
    and "map Fees (cr_Trades r) = fee_groups (trade_topic_of_version v) (fees_of_event C) [] logs"
    and "\<forall>x\<in>set (cr_Trades r). good_of_version C v x" by auto
qed

section \<open>Enrichment\<close>

text \<open>What the last loop of \<open>GetTradeLogs\<close> does to one trade.\<close>

definition enriched :: "crawler \<Rightarrow> TradelogV4 \<Rightarrow> TradelogV4 \<Rightarrow> bool" where
  "enriched C trd x \<longleftrightarrow> (\<exists>uid ip country rate.
     GetTxInfo C (TransactionHash trd) = Inr (uid, ip, country) \<and>
     USDRate C (Timestamp trd) = Inr rate \<and>
     x = (set_tx_info uid ip country trd)\<lparr> IntegrationApp := integrationApp trd,
           ETHUSDProvider := RateProviderName C, ETHUSDRate := rate \<rparr>)"

lemma enrich_from_trades:
  "enrich_from C cr acc rest = (Some r, None) \<Longrightarrow>
     \<exists>xs. r = cr\<lparr> cr_Trades := acc @ xs \<rparr> \<and> list_all2 (enriched C) rest xs"
proof (induction rest arbitrary: acc)
  case Nil
  then show ?case by auto
next
  case (Cons trd rest)
  from Cons.prems obtain uid ip country rate where
    info: "GetTxInfo C (TransactionHash trd) = Inr (uid, ip, country)" and
    rate: "USDRate C (Timestamp trd) = Inr rate"
    by (auto simp: Let_def split: sum.splits)
  define x where "x = (set_tx_info uid ip country trd)\<lparr> IntegrationApp := integrationApp trd,
           ETHUSDProvider := RateProviderName C, ETHUSDRate := rate \<rparr>"
  have "enriched C trd x" using info rate by (auto simp: enriched_def x_def)
  moreover from Cons.prems info rate have "enrich_from C cr (acc @ [x]) rest = (Some r, None)"
    by (simp add: Let_def x_def)
  ultimately show ?case using Cons.IH by fastforce
qed

lemma enriched_keeps:
  assumes "enriched C trd x"
  shows "trade_key x = trade_key trd" "Fees x = Fees trd" "Version x = Version trd"
    "EthAmount x = EthAmount trd" "OriginalEthAmount x = OriginalEthAmount trd"
    "TxInfo x = TxInfo trd" "WalletAddress x = WalletAddress trd" "Timestamp x = Timestamp trd"
    "BlockNumber x = BlockNumber trd" "TransactionHash x = TransactionHash trd"
    "TokenInfo x = TokenInfo trd" "SrcAmount x = SrcAmount trd" "DestAmount x = DestAmount trd"
    "SrcReserveAddress x = SrcReserveAddress trd" "DstReserveAddress x = DstReserveAddress trd"
  using assms by (auto simp: enriched_def trade_key_def set_tx_info_def)

lemma enriched_good:
  assumes "enriched C trd x" "good_of_version C v trd"
  shows "good_of_version C v x"
proof -
  note keeps = enriched_keeps [OF assms(1)]
  have "fee_is_gas_cost x = fee_is_gas_cost trd" "ether_side x = ether_side trd"
    "reserve_shares E x = reserve_shares E trd" "token_shares x = token_shares trd"
    "LengthBurnFees x = LengthBurnFees trd" for E
    by (simp_all only: fee_is_gas_cost_def ether_side_def reserve_shares_def token_shares_def LengthBurnFees_def keeps)
  then have "goodV1 x = goodV1 trd" "goodV2 x = goodV2 trd" "goodV3 E x = goodV3 E trd" "goodV4 x = goodV4 trd" for E
    by (simp_all only: goodV1_def goodV2_def goodV3_def goodV4_def keeps)
  with assms(2) show ?thesis by (simp add: good_of_version_def Let_def)
qed

lemma GetTradeLogs_ok:
  assumes "GetTradeLogs C fromBlock toBlock = (Some r, None)"
  obtains logs cr where
    "FilterLogs C fromBlock toBlock (cw_addresses C)
       (topics_of_version (crawl_version C fromBlock toBlock)) = Inr logs"
    "assemble_of_version (crawl_version C fromBlock toBlock) C logs = (Some cr, None)"
    "r = cr\<lparr> cr_Trades := cr_Trades r \<rparr>" "list_all2 (enriched C) (cr_Trades cr) (cr_Trades r)"
  using assms
  by (auto simp: GetTradeLogs_def fetchFn_version Let_def fetch_and_assemble_def
      fetchLogsWithTopics_def split: prod.splits option.splits sum.splits
      dest!: enrich_from_trades)

lemma crawl_version_cases: "crawl_version C f t \<in> {1, 2, 3, 4}"
  by (simp add: crawl_version_def Let_def)

text \<open>The trades of a crawl that succeeds, by the keys of their events and by their fees.\<close>

lemma GetTradeLogs_keys:
  assumes "GetTradeLogs C fromBlock toBlock = (Some r, None)"
  obtains logs where "FilterLogs C fromBlock toBlock (cw_addresses C)
       (topics_of_version (crawl_version C fromBlock toBlock)) = Inr logs"
    "map trade_key (cr_Trades r) =
       map log_key (trade_logs (trade_topic_of_version (crawl_version C fromBlock toBlock)) logs)"
    "map Fees (cr_Trades r) =
       fee_groups (trade_topic_of_version (crawl_version C fromBlock toBlock)) (fees_of_event C) [] logs"
proof -
  from assms obtain logs cr where logs: "FilterLogs C fromBlock toBlock (cw_addresses C)
       (topics_of_version (crawl_version C fromBlock toBlock)) = Inr logs"
    and cr: "assemble_of_version (crawl_version C fromBlock toBlock) C logs = (Some cr, None)"
    and en: "list_all2 (enriched C) (cr_Trades cr) (cr_Trades r)" by (rule GetTradeLogs_ok)
  have "map trade_key (cr_Trades r) = map trade_key (cr_Trades cr)"
    "map Fees (cr_Trades r) = map Fees (cr_Trades cr)"
    by (rule list_all2_map_eq [OF en], simp add: enriched_keeps)+
  with logs assemble_trades [OF cr crawl_version_cases] that show thesis by simp
qed

section \<open>A crawler to evaluate\<close>

definition sample_fee :: FeeDistributed where
  "sample_fee = \<lparr> fd_PlatformWallet = 7, fd_PlatformFeeWei = 5, fd_RewardWei = 3, fd_RebateWei = 2,
     fd_RebateWallets = [8], fd_RebatePercentBpsPerWallet = [10000], fd_BurnAmtWei = 1 \<rparr>"

definition sample_trade :: KyberTradeV4 where
  "sample_trade = \<lparr> k4_Src = 100, k4_Dest = 200, k4_EthWeiValue = 50, k4_T2eIds = [1],
     k4_E2tIds = [2], k4_T2eSrcAmounts = [30], k4_E2tSrcAmounts = [50], k4_T2eRates = [4],
     k4_E2tRates = [6] \<rparr>"

definition sample_log :: "hash \<Rightarrow> nat \<Rightarrow> log" where
  "sample_log t i = \<lparr> lg_Address = 1, lg_Topics = [t], lg_Data = [], lg_BlockNumber = 20,
     lg_TxHash = 900, lg_TxIndex = 0, lg_BlockHash = 5, lg_Index = i, lg_Removed = False \<rparr>"

definition sample_crawler :: "log list \<Rightarrow> crawler" where
  "sample_crawler logs = \<lparr> cw_lib = sample_lib, cw_addresses = [1], cw_startV2 = 5, cw_startV3 = 10,
     cw_startV4 = 15, cw_volumeExcludedReserves = [], cw_networkProxy = 9,
     FilterLogs = (\<lambda>f t a ts. Inr logs),
     TransactionReceipt = (\<lambda>h. Inr \<lparr> rc_Logs = [], rc_GasUsed = 21000 \<rparr>),
     TransactionByHash = (\<lambda>h. Inr \<lparr> tx_To = Some 9, tx_Data = [], tx_GasPrice = 2 \<rparr>),
     TransactionSender = (\<lambda>t b i. (77, None)),
     ResolveTime = (\<lambda>b. Inr 1000000),
     InternalTxByAddress = (\<lambda>b. Inr []),
     MethodByIdV3 = (\<lambda>d. Inr ''trade''), MethodByIdV4 = (\<lambda>d. Inr ''trade''),
     UnpackV3 = (\<lambda>m d. Inr tradeWithHintParam0), UnpackV4 = (\<lambda>m d. Inr tradeWithHintParamV40),
     UnpackHintV4 = (\<lambda>m d. Inr tradeWithHintParam0),
     ParseKyberTrade = (\<lambda>l. Inr sample_trade), ParseFeeDistributed = (\<lambda>l. Inr sample_fee),
     ParseAddReserveToStorage = (\<lambda>l. Inl (Err ''parse'')),
     ParseReserveRebateWalletSet = (\<lambda>l. Inl (Err ''parse'')),
     GetTxInfo = (\<lambda>h. Inr (''u'', ''1.2.3.4'', ''VN'')),
     USDRate = (\<lambda>t. Inr 250), RateProviderName = ''coingecko'' \<rparr>"

definition sample_logs :: "log list" where
  "sample_logs = [sample_log feeDistributedEvent 3, sample_log kyberTradeEventV4 4,
     (sample_log kyberTradeEventV4 5)\<lparr> lg_Removed := True \<rparr>,
     sample_log feeDistributedEvent 6, sample_log feeDistributedEvent 7,
     sample_log kyberTradeEventV4 8]"

definition crawl_trades :: "crawl_out \<Rightarrow> TradelogV4 list option" where
  "crawl_trades out = (case out of (Some r, None) \<Rightarrow> Some (cr_Trades r) | _ \<Rightarrow> None)"

lemma crawl_trades_Some: "crawl_trades out = Some xs \<Longrightarrow> \<exists>r. out = (Some r, None) \<and> cr_Trades r = xs"
  by (auto simp: crawl_trades_def split: prod.splits option.splits)

lemmas crawl_eval = GetTradeLogs_def fetchFn_version Let_def fetch_and_assemble_def
  fetchLogsWithTopics_def crawl_version_def u64_def assemble_of_version_def assembleTradeLogsV4_def
  bodyV4_def topics_neq fill_step_def trade_step_def fillFeeDistributed_def kyberTradeV4_def
  fillKyberTradeV4_def calculateTradeAmount_def go_nth_def get_receipt_def get_timestamp_def
  basic_info_def updateBasicInfoV4_def wallet_of_tx_def set_transaction_fee_def zero_values
  set_sender_def set_user_def set_gas_used_def set_wallet_def LengthBurnFees_def

lemma sample_crawl_ok:
  "map_option (map trade_key) (crawl_trades (GetTradeLogs (sample_crawler sample_logs) 16 18))
     = Some [(900, 20, 4), (900, 20, 8)]"
  by (simp add: sample_crawler_def sample_logs_def sample_log_def sample_fee_def sample_trade_def
      crawl_eval set_tx_info_def trade_key_def crawl_trades_def)

section \<open>Properties\<close>

text \<open>
  C2: A crawl that succeeds returns exactly one trade per trade event that the node returned and
  that no reorganisation removed, in the order of the events, with the transaction hash, the block
  number and the log index of its event; and each trade carries exactly the fees of the fee events
  between the trade event before it and its own. The logs are those of the query for the version
  that covers the block range.
\<close>

theorem GetTradeLogs_one_trade_per_event:
  assumes "GetTradeLogs C fromBlock toBlock = (Some r, None)"
  shows "\<exists>logs. FilterLogs C fromBlock toBlock (cw_addresses C)
            (topics_of_version (crawl_version C fromBlock toBlock)) = Inr logs \<and>
          map trade_key (cr_Trades r) =
            map log_key (trade_logs (trade_topic_of_version (crawl_version C fromBlock toBlock)) logs) \<and>
          map Fees (cr_Trades r) =
            fee_groups (trade_topic_of_version (crawl_version C fromBlock toBlock)) (fees_of_event C) [] logs"
  using GetTradeLogs_keys [OF assms] by blast

theorem GetTradeLogs_one_trade_per_event_witness:
  "\<exists>r. GetTradeLogs (sample_crawler sample_logs) 16 18 = (Some r, None) \<and>
     map trade_key (cr_Trades r) =
       map log_key (trade_logs is_trade_V4 sample_logs) \<and>
     length (cr_Trades r) = 2"
proof -
  from sample_crawl_ok obtain r where
    r: "GetTradeLogs (sample_crawler sample_logs) 16 18 = (Some r, None)"
    and two: "map trade_key (cr_Trades r) = [(900, 20, 4), (900, 20, 8)]"
    by (auto dest!: crawl_trades_Some)
  have v: "crawl_version (sample_crawler sample_logs) 16 18 = 4"
    by (simp add: crawl_version_def sample_crawler_def u64_def)
  have "length (cr_Trades r) = 2" using two by (metis length_map length_Cons list.size(3) numeral_2_eq_2)
  moreover have "map trade_key (cr_Trades r) = map log_key (trade_logs is_trade_V4 sample_logs)"
    using GetTradeLogs_one_trade_per_event [OF r]
    by (simp add: v trade_topic_of_version_def) (simp add: sample_crawler_def)
  ultimately show ?thesis using r by blast
qed

text \<open>
  What the crawl has pinned for the amounts, as one rule: the ether amount is the original one times the
  shares of the trade's version.
\<close>

definition eth_shares :: "crawler \<Rightarrow> TradelogV4 \<Rightarrow> int" where
  "eth_shares C x =
     (if Version x = 1 then 1 else if Version x = 2 then int (LengthBurnFees x)
      else if Version x = 3 then reserve_shares (set (cw_volumeExcludedReserves C)) x else token_shares x)"

lemma good_of_version_rule:
  assumes "good_of_version C v x" "v \<in> {1, 2, 3, 4}"
  shows "Version x \<in> (if v = 4 then {3, 4} else {v}) \<and> fee_is_gas_cost x \<and>
    EthAmount x = map_option (\<lambda>e. e * eth_shares C x) (OriginalEthAmount x) \<and>
    (Version x \<le> 2 \<longrightarrow> ether_side x)"
  using assms
  by (auto simp: good_of_version_def Let_def eth_shares_def goodV1_def goodV2_def goodV3_def goodV4_def
      option.map_ident split: if_splits)

text \<open>
  C3: The ether amounts of every returned trade follow the rule of its version, exactly. \<open>EthAmount\<close> is
  \<open>OriginalEthAmount\<close> times a number: 1 for a version 1 trade; the number of burn fees for version 2; for
  version 3, 2 less 1 for each of the source and the destination reserve that is among the reserves
  excluded from the volume; for version 4, 2 less 1 for each of the source and the destination token that
  is WETH, ETH or \<open>PTAddr\<close>. A trade of version 1 or 2 that sells or buys ether has that amount of ether.
  The version of the trade is the one that covers the blocks, where version 4 still takes the events
  of version 3; and the transaction fee is the gas price times the gas used.
\<close>

theorem GetTradeLogs_amounts:
  assumes "GetTradeLogs C fromBlock toBlock = (Some r, None)" "x \<in> set (cr_Trades r)"
  shows "EthAmount x = map_option (\<lambda>e. e *
      (if Version x = 1 then 1
       else if Version x = 2 then int (LengthBurnFees x)
       else if Version x = 3 then
         2 - of_bool (SrcReserveAddress x \<in> set (cw_volumeExcludedReserves C))
           - of_bool (DstReserveAddress x \<in> set (cw_volumeExcludedReserves C))
       else 2 - of_bool (ti_SrcAddress (TokenInfo x) \<in> {WETHAddr, ETHAddr, PTAddr})
              - of_bool (ti_DestAddress (TokenInfo x) \<in> {WETHAddr, ETHAddr, PTAddr}))) (OriginalEthAmount x) \<and>
    (Version x \<le> 2 \<longrightarrow>
       (ti_SrcAddress (TokenInfo x) = ETHAddr \<longrightarrow> EthAmount x = SrcAmount x) \<and>
       (ti_SrcAddress (TokenInfo x) \<noteq> ETHAddr \<and> ti_DestAddress (TokenInfo x) = ETHAddr \<longrightarrow>
          EthAmount x = DestAmount x)) \<and>
    Version x \<in> (let v = crawl_version C fromBlock toBlock in if v = 4 then {3, 4} else {v}) \<and>
    fee_is_gas_cost x"
proof -
  from assms(1) obtain logs cr where
    cr: "assemble_of_version (crawl_version C fromBlock toBlock) C logs = (Some cr, None)"
    and en: "list_all2 (enriched C) (cr_Trades cr) (cr_Trades r)" by (rule GetTradeLogs_ok)
  from list_all2_source [OF en assms(2)] obtain y where "y \<in> set (cr_Trades cr)" "enriched C y x"
    by blast
  with assemble_trades(3) [OF cr crawl_version_cases]
  have "good_of_version C (crawl_version C fromBlock toBlock) x" by (blast intro: enriched_good)
  from good_of_version_rule [OF this crawl_version_cases] show ?thesis
    unfolding eth_shares_def reserve_shares_def token_shares_def ether_side_def Let_def by blast
qed

lemma sample_crawl_trade:
  obtains r x where "GetTradeLogs (sample_crawler sample_logs) 16 18 = (Some r, None)" "x \<in> set (cr_Trades r)"
proof -
  from sample_crawl_ok obtain r where
    r: "GetTradeLogs (sample_crawler sample_logs) 16 18 = (Some r, None)"
    and two: "map trade_key (cr_Trades r) = [(900, 20, 4), (900, 20, 8)]"
    by (auto dest!: crawl_trades_Some)
  from two obtain x where "x \<in> set (cr_Trades r)" by (cases "cr_Trades r") auto
  with r that show thesis by blast
qed

theorem GetTradeLogs_amounts_witness:
  "\<exists>r x. GetTradeLogs (sample_crawler sample_logs) 16 18 = (Some r, None) \<and> x \<in> set (cr_Trades r) \<and>
     Version x \<in> {3, 4} \<and> fee_is_gas_cost x"
proof -
  obtain r x where rx: "GetTradeLogs (sample_crawler sample_logs) 16 18 = (Some r, None)" "x \<in> set (cr_Trades r)"
    by (rule sample_crawl_trade)
  have "crawl_version (sample_crawler sample_logs) 16 18 = 4"
    by (simp add: crawl_version_def sample_crawler_def u64_def)
  with GetTradeLogs_amounts [OF rx] rx show ?thesis by (auto simp: Let_def)
qed

text \<open>
  C4: The enrichment changes five things of a trade and nothing else. \<open>GetTradeLogs\<close> returns the trades of
  the fetch function of the block range, each in its place, where a trade has in addition the answer of
  the broadcast service for its transaction (the user's id, IP address and country), the rate of the
  rate provider at its timestamp, the provider's name, and the application that its own block
  number, fees and wallet determine; all other fields, and the reserves and rebate wallets of the
  result, are as crawled.
\<close>

theorem GetTradeLogs_enriched:
  assumes "GetTradeLogs C fromBlock toBlock = (Some r, None)"
  shows "\<exists>cr. fetchFn C fromBlock toBlock fromBlock toBlock = (Some cr, None) \<and>
    cr_Reserves r = cr_Reserves cr \<and> cr_UpdateWallets r = cr_UpdateWallets cr \<and>
    list_all2 (\<lambda>trd x. \<exists>uid ip country rate.
        GetTxInfo C (TransactionHash trd) = Inr (uid, ip, country) \<and> USDRate C (Timestamp trd) = Inr rate \<and>
        x = trd\<lparr> User := (User trd)\<lparr> ui_UID := uid, ui_IP := ip, ui_Country := country \<rparr>,
                 ETHUSDRate := rate, ETHUSDProvider := RateProviderName C,
                 IntegrationApp := if IsKyberSwap trd then ''KyberSwap'' else ''ThirdParty'' \<rparr>)
      (cr_Trades cr) (cr_Trades r)"
proof -
  from assms obtain logs cr where logs: "FilterLogs C fromBlock toBlock (cw_addresses C)
       (topics_of_version (crawl_version C fromBlock toBlock)) = Inr logs"
    and cr: "assemble_of_version (crawl_version C fromBlock toBlock) C logs = (Some cr, None)"
    and r: "r = cr\<lparr> cr_Trades := cr_Trades r \<rparr>"
    and en: "list_all2 (enriched C) (cr_Trades cr) (cr_Trades r)" by (rule GetTradeLogs_ok)
  have "fetchFn C fromBlock toBlock fromBlock toBlock = (Some cr, None)"
    using logs cr by (simp add: fetchFn_version Let_def fetch_and_assemble_def fetchLogsWithTopics_def)
  moreover have "cr_Reserves r = cr_Reserves cr" "cr_UpdateWallets r = cr_UpdateWallets cr"
    by (subst r, simp)+
  ultimately show ?thesis using en
    by (intro exI [of _ cr] conjI) (auto simp: enriched_def set_tx_info_def integrationApp_def elim!: list_all2_mono)
qed

theorem GetTradeLogs_enriched_witness:
  "\<exists>r x. GetTradeLogs (sample_crawler sample_logs) 16 18 = (Some r, None) \<and> x \<in> set (cr_Trades r) \<and>
     ETHUSDRate x = 250 \<and> ui_Country (User x) = ''VN''"
proof -
  obtain r x where r: "GetTradeLogs (sample_crawler sample_logs) 16 18 = (Some r, None)" and x: "x \<in> set (cr_Trades r)"
    by (rule sample_crawl_trade)
  from GetTradeLogs_enriched [OF r] x r show ?thesis
    by (auto simp: sample_crawler_def dest!: list_all2_source)
qed

end
