(* ===== verification/TradeReceipts.thy ===== *)
theory TradeReceipts
  imports TradeProps
begin

text \<open>
  How the trades of versions 1 and 2 get their reserve from a transaction receipt, and what version 2
  does to the amounts of a trade with ether: properties of \<open>getReserveFromReceipt\<close>,
  \<open>getTransactionReceiptV1\<close> and \<open>kyberTradeV2\<close>.
\<close>

section \<open>getReserveFromReceipt\<close>

definition names_reserve :: "log \<Rightarrow> bool" where
  "names_reserve lg \<longleftrightarrow> has_trade_execute lg \<and> \<not> IsZeroAddress (lg_Address lg)"

lemma reserveFrom_found:
  "i < length logs \<Longrightarrow> j \<le> i \<Longrightarrow> names_reserve (logs ! j) \<Longrightarrow>
     (\<forall>k. j < k \<and> k \<le> i \<longrightarrow> \<not> names_reserve (logs ! k)) \<Longrightarrow>
     reserveFrom logs i = Inr (lg_Address (logs ! j))"
proof (induction i)
  case 0
  then show ?case by (simp add: go_nth_Inr names_reserve_def)
next
  case (Suc i)
  then show ?case
    by (cases "j = Suc i") (auto simp: go_nth_Inr names_reserve_def)
qed

lemma reserveFrom_none:
  "i < length logs \<Longrightarrow> (\<forall>k\<le>i. \<not> names_reserve (logs ! k)) \<Longrightarrow>
     reserveFrom logs i = Inl (Panic ''index out of range'')"
proof (induction i)
  case 0
  then show ?case by (simp add: go_nth_Inr names_reserve_def)
next
  case (Suc i)
  then show ?case by (auto simp: go_nth_Inr names_reserve_def)
qed

lemma getReserve_start:
  assumes "rc_Logs receipt \<noteq> []" "length (rc_Logs receipt) < 2 ^ 63"
  shows "getReserveFromReceipt receipt logIndex =
    reserveFrom (rc_Logs receipt) (min (length (rc_Logs receipt) - 1) logIndex)"
proof -
  have "u64 (int (length (rc_Logs receipt)) - 1) = length (rc_Logs receipt) - 1"
    using assms by (subst u64_id) (auto simp: nat_diff_distrib')
  with assms show ?thesis
    by (auto simp: getReserveFromReceipt_def MinUint64_def min_def Let_def Suc_le_eq)
qed

text \<open>
  C27: For a receipt with logs, \<open>getReserveFromReceipt\<close> returns the address of the last log at or
  before the given index that has the TradeExecute topic and a non-zero address; when there is no
  such log it does not return the zero address but panics, because its index wraps below zero.
\<close>

theorem getReserveFromReceipt_spec:
  assumes "rc_Logs receipt \<noteq> []" "length (rc_Logs receipt) < 2 ^ 63"
  shows "getReserveFromReceipt receipt logIndex =
    (case filter names_reserve (rev (take (Suc logIndex) (rc_Logs receipt))) of
       [] \<Rightarrow> Inl (Panic ''index out of range'')
     | lg # _ \<Rightarrow> Inr (lg_Address lg))"
proof -
  let ?logs = "rc_Logs receipt" and ?i = "min (length (rc_Logs receipt) - 1) logIndex"
  have i: "?i < length ?logs" using assms(1) by (auto simp: min_def)
  have main: "reserveFrom ?logs n = (case filter names_reserve (rev (take (Suc n) ?logs)) of
       [] \<Rightarrow> Inl (Panic ''index out of range'') | lg # _ \<Rightarrow> Inr (lg_Address lg))"
    if "n < length ?logs" for n
    using that
  proof (induction n)
    case 0
    then show ?case
      by (cases ?logs) (simp_all add: go_nth_Inr names_reserve_def)
  next
    case (Suc n)
    then have "take (Suc (Suc n)) ?logs = take (Suc n) ?logs @ [?logs ! Suc n]"
      by (simp add: take_Suc_conv_app_nth)
    with Suc show ?case by (simp add: go_nth_Inr names_reserve_def)
  qed
  have "take (Suc ?i) ?logs = take (Suc logIndex) ?logs"
    using assms(1) by (cases "logIndex \<le> length ?logs - 1") (auto simp: min_def)
  with main [OF i] getReserve_start [OF assms] show ?thesis by simp
qed

definition sample_receipt_log :: "hash \<Rightarrow> addr \<Rightarrow> log" where
  "sample_receipt_log t a = \<lparr> lg_Address = a, lg_Topics = [t], lg_Data = [], lg_BlockNumber = 20,
     lg_TxHash = 900, lg_TxIndex = 0, lg_BlockHash = 5, lg_Index = 0, lg_Removed = False \<rparr>"

definition sample_receipt :: receipt where
  "sample_receipt = \<lparr> rc_Logs = [sample_receipt_log tradeExecuteEvent 31,
     sample_receipt_log tradeExecuteEvent 32, sample_receipt_log transferEvent 33], rc_GasUsed = 1 \<rparr>"

lemma execute_not_transfer: "tradeExecuteEvent \<noteq> transferEvent"
  by (simp add: topic_defs)

theorem getReserveFromReceipt_spec_witness:
  "getReserveFromReceipt sample_receipt 2 = Inr 32 \<and>
   getReserveFromReceipt (sample_receipt\<lparr> rc_Logs := [sample_receipt_log transferEvent 33] \<rparr>) 0
     = Inl (Panic ''index out of range'')"
  by (subst (1 2) getReserveFromReceipt_spec)
    (simp_all add: sample_receipt_def sample_receipt_log_def names_reserve_def has_trade_execute_def
      execute_not_transfer IsZeroAddress_def)

section \<open>getTransactionReceiptV1\<close>

definition is_execute_log :: "log \<Rightarrow> bool" where
  "is_execute_log lg \<longleftrightarrow> (case lg_Topics lg of [] \<Rightarrow> False | t # _ \<Rightarrow> t = tradeExecuteEvent)"

lemma receiptV1_from_reserve:
  "receiptV1_from L logs n True trd = Inr x \<Longrightarrow> n \<le> length logs \<Longrightarrow>
     SrcReserveAddress x = (case filter is_execute_log (take n logs) of
       [] \<Rightarrow> SrcReserveAddress trd | lg # _ \<Rightarrow> lg_Address lg)"
proof (induction n arbitrary: trd)
  case 0
  then show ?case by simp
next
  case (Suc n)
  have take: "take (Suc n) logs = take n logs @ [logs ! n]"
    using Suc.prems(2) by (simp add: take_Suc_conv_app_nth)
  obtain trd' where step: "receiptV1_from L logs n True trd' = Inr x"
    and src: "SrcReserveAddress trd' =
      (if is_execute_log (logs ! n) then lg_Address (logs ! n) else SrcReserveAddress trd)"
    using Suc.prems(1) execute_not_transfer
    by (auto simp: Let_def is_execute_log_def split: list.splits if_splits)
  show ?case using Suc.IH [OF step] Suc.prems(2) src take
    by (cases "filter is_execute_log (take n logs)") auto
qed

text \<open>
  When a version 1 trade has no burn fee, the reserve that \<open>getTransactionReceiptV1\<close> records is
  the address of the first TradeExecute log of the whole receipt, not of the nearest one before the
  trade's own log: the \<open>break\<close> statements leave the switch, and the loop goes on to index 0.
\<close>

theorem getTransactionReceiptV1_first_reserve:
  assumes "getTransactionReceiptV1 L trd receipt logIndex True = Inr x"
    and "logIndex < 2 ^ 63" "length (rc_Logs receipt) < 2 ^ 63"
  shows "SrcReserveAddress x =
    (case filter is_execute_log (take (Suc logIndex) (rc_Logs receipt)) of
       [] \<Rightarrow> SrcReserveAddress trd | lg # _ \<Rightarrow> lg_Address lg)"
proof -
  let ?logs = "rc_Logs receipt"
  have "i64 (int logIndex) = int logIndex" using assms(2) by (intro i64_id) auto
  then have n: "nat (MinInt64 (int (length ?logs) - 1) (i64 (int logIndex)) + 1)
      = min (length ?logs) (Suc logIndex)"
    by (auto simp: MinInt64_def min_def)
  have "take (min (length ?logs) (Suc logIndex)) ?logs = take (Suc logIndex) ?logs"
    by (simp add: min_def)
  then show ?thesis
    using receiptV1_from_reserve [OF assms(1) [unfolded getTransactionReceiptV1_def n]] by simp
qed

theorem getTransactionReceiptV1_first_reserve_witness:
  "\<exists>x. getTransactionReceiptV1 sample_lib (TradelogV40\<lparr> ReceiverAddress := 5 \<rparr>) sample_receipt 2 True
         = Inr x \<and> SrcReserveAddress x = 31"
proof -
  have start: "nat (MinInt64 2 (i64 2) + 1) = Suc (Suc (Suc 0))"
    by (simp add: MinInt64_def i64_def)
  obtain x where x: "getTransactionReceiptV1 sample_lib (TradelogV40\<lparr> ReceiverAddress := 5 \<rparr>)
      sample_receipt 2 True = Inr x"
    by (simp add: getTransactionReceiptV1_def start sample_receipt_def sample_receipt_log_def
        execute_not_transfer execute_not_transfer [symmetric] IsZeroAddress_def Let_def)
  have "SrcReserveAddress x = 31"
    using getTransactionReceiptV1_first_reserve [OF x]
    by (simp add: sample_receipt_def sample_receipt_log_def is_execute_log_def)
  with x show ?thesis by blast
qed

section \<open>Version 2 amounts\<close>

text \<open>
  When version 2 completes a trade that sells ether, \<open>EthAmount\<close> and \<open>SrcAmount\<close> are one integer:
  the source amount that the trade stores is the amount of the event times the number of burn fees
  (zero for a trade without burn fees), not the amount of the event. \<open>OriginalEthAmount\<close> keeps the
  amount of the event.
\<close>

theorem kyberTradeV2_source_amount_overwritten:
  assumes "kyberTradeV2 C trd lg = Inr x"
    and "BytesToAddress (cw_lib C) (slice 32 64 (lg_Data lg)) = ETHAddr"
  shows "OriginalEthAmount x = Some (HashBig (cw_lib C) (BytesToHash (cw_lib C) (slice 64 96 (lg_Data lg)))) \<and>
    SrcAmount x = Some (HashBig (cw_lib C) (BytesToHash (cw_lib C) (slice 64 96 (lg_Data lg)))
                        * int (LengthBurnFees x)) \<and>
    EthAmount x = SrcAmount x \<and>
    DestAmount x = Some (HashBig (cw_lib C) (BytesToHash (cw_lib C) (slice 160 192 (lg_Data lg))))"
proof -
  from assms(1) obtain a b y where a: "fillKyberTradeV2 (cw_lib C) (trd\<lparr>Version := 2\<rparr>) lg = Inr a"
    and y: "ethAmountV2 b = Inr y" and b: "core b = core a" and x: "core x = core y"
    by (rule kyberTradeV2_result)
  have src: "ti_SrcAddress (TokenInfo b) = ETHAddr"
    using fillKyberTradeV2_result [OF a] core_eqD(4) [OF b] assms(2) by simp
  have "LengthBurnFees x = LengthBurnFees b"
    using ethAmountV2_result [OF y] core_eqD(2) [OF x] by (auto simp: LengthBurnFees_def)
  with fillKyberTradeV2_result [OF a] ethAmountV2_result [OF y] core_eqD [OF b] core_eqD [OF x] src
  show ?thesis by auto
qed

definition sample_crawlerV2 :: crawler where
  "sample_crawlerV2 = (sample_crawler [])\<lparr>
     cw_lib := sample_lib\<lparr> BytesToAddress := \<lambda>bs. ETHAddr, BytesToHash := \<lambda>bs. 1000 \<rparr>,
     TransactionReceipt := (\<lambda>h. Inr sample_receipt),
     TransactionByHash := (\<lambda>h. Inr \<lparr> tx_To = None, tx_Data = [], tx_GasPrice = 2 \<rparr>) \<rparr>"

definition sample_logV2 :: log where
  "sample_logV2 = (sample_log kyberTradeEventV2 2)\<lparr> lg_Data := replicate 192 0 \<rparr>"

theorem kyberTradeV2_source_amount_overwritten_witness:
  "\<exists>x. kyberTradeV2 sample_crawlerV2 TradelogV40 sample_logV2 = Inr x \<and>
     OriginalEthAmount x = Some 1000 \<and> SrcAmount x = Some 0"
proof -
  have from1: "reserveFrom (rc_Logs sample_receipt) (Suc 0) = Inr 32"
    by (simp add: sample_receipt_def sample_receipt_log_def has_trade_execute_def IsZeroAddress_def
        go_nth_def)
  have from2: "reserveFrom (rc_Logs sample_receipt) (Suc (Suc 0)) = Inr 32"
    by (subst reserveFrom.simps(2), subst from1)
      (simp add: sample_receipt_def sample_receipt_log_def has_trade_execute_def execute_not_transfer
        go_nth_def)
  have index: "min (length (rc_Logs sample_receipt) - 1) 2 = Suc (Suc 0)"
    by (simp add: sample_receipt_def)
  have logs: "rc_Logs sample_receipt \<noteq> []" "length (rc_Logs sample_receipt) < 2 ^ 63"
    by (simp_all add: sample_receipt_def)
  have reserve: "getReserveFromReceipt sample_receipt 2 = Inr 32"
    unfolding getReserve_start [OF logs] index by (rule from2)
  have "map_sum (\<lambda>_. ()) LengthBurnFees (kyberTradeV2 sample_crawlerV2 TradelogV40 sample_logV2)
      = Inr 0"
    by (simp add: kyberTradeV2_def fillKyberTradeV2_def logDataToKyberTradeV2Params_def reserve
        sample_logV2_def sample_log_def sample_crawlerV2_def sample_crawler_def get_timestamp_def
        get_receipt_def set_tokens_def set_user_def set_gas_used_def zero_values LengthBurnFees_def
        ethAmountV2_def Let_def basic_info_def updateBasicInfo_def wallet_of_tx_def set_sender_def
        set_transaction_fee_def)
  then obtain x where x: "kyberTradeV2 sample_crawlerV2 TradelogV40 sample_logV2 = Inr x"
    and burn: "LengthBurnFees x = 0"
    by (cases "kyberTradeV2 sample_crawlerV2 TradelogV40 sample_logV2") auto
  have lib: "BytesToAddress (cw_lib sample_crawlerV2) (slice 32 64 (lg_Data sample_logV2)) = ETHAddr"
    "HashBig (cw_lib sample_crawlerV2) (BytesToHash (cw_lib sample_crawlerV2)
       (slice 64 96 (lg_Data sample_logV2))) = 1000"
    by (simp_all add: sample_crawlerV2_def sample_lib_def)
  from kyberTradeV2_source_amount_overwritten [OF x lib(1)] x burn lib(2) show ?thesis by auto
qed

end
