(* ===== verification/WorkerPool.thy ===== *)
theory WorkerPool
  imports TradeTypes
begin

text \<open>
  The worker pools of \<open>tradelogs/workers/workers.go\<close> and \<open>reserverates/workers/workers.go\<close>. Both are
  the same program over a different kind of job and of storage, so the pool is parameterised by the
  order of a job and by the call that persists its result, and instantiated twice.

  The goroutines interleave: an event is one atomic action of one of them (a channel operation, the
  return of \<open>execute\<close>, or one pass of a polling loop, which the mutex makes atomic), and a run is a
  sequence of events. \<open>pool_event\<close> returns \<open>None\<close> when the event cannot happen in the state. It also
  returns the calls of the storage that the event made, in order.
\<close>

section \<open>Jobs\<close>

text \<open>\<open>FetcherJob.execute\<close> of the trade logs: the value of the last attempt is returned with its error.\<close>

definition retry_trades ::
  "(nat \<Rightarrow> 'r option \<times> go_err option) \<Rightarrow> nat \<Rightarrow> 'r option \<times> go_err option" where
  "retry_trades fn attempts = retry_from fn 0 attempts (None, None)"

text \<open>\<open>FetcherJob.execute\<close> of the reserve rates: no value is returned with an error.\<close>

definition retry_rates ::
  "(nat \<Rightarrow> 'r option \<times> go_err option) \<Rightarrow> nat \<Rightarrow> 'r option \<times> go_err option" where
  "retry_rates fn attempts =
     (case retry_from fn 0 attempts (None, None) of
        (r, None) \<Rightarrow> (r, None)
      | (r, Some e) \<Rightarrow> (None, Some e))"

section \<open>The pool\<close>

text \<open>Where the goroutine of a worker is in its loop.\<close>

datatype ('j, 'r) worker =
    Waiting                                \<comment> \<open>\<open>for j := range p.jobCh\<close>\<close>
  | Executing 'j
  | Reporting 'j go_err                    \<comment> \<open>\<open>p.errCh <- err; p.markAsFailed(order)\<close>\<close>
  | Saving 'j "'r option"                  \<comment> \<open>the loop of \<open>serialSaveTradeLogs\<close>\<close>
  | Marking 'j "go_err option"             \<comment> \<open>the loop of \<open>markAsFailed\<close>, and the error to report after it\<close>
  | Leaving go_err                         \<comment> \<open>\<open>p.errCh <- err; break\<close>\<close>
  | Stopped

record ('j, 'r, 's) pool =
  pl_workers :: "('j, 'r) worker list"
  pl_errCh :: "go_err list"
  pl_errCap :: nat
  pl_jobsClosed :: bool
  pl_errClosed :: bool
  lastCompletedJobOrder :: nat
  pl_failed :: bool
  pl_storage :: 's

definition NewPool :: "nat \<Rightarrow> 's \<Rightarrow> ('j, 'r, 's) pool" where
  "NewPool maxWorkers st = \<lparr> pl_workers = replicate maxWorkers Waiting, pl_errCh = [],
     pl_errCap = maxWorkers, pl_jobsClosed = False, pl_errClosed = False,
     lastCompletedJobOrder = 0, pl_failed = False, pl_storage = st \<rparr>"

datatype ('j, 'r) pool_event =
    Run nat 'j                                                \<comment> \<open>\<open>Run\<close>: worker \<open>w\<close> receives the job\<close>
  | Executed nat "nat \<Rightarrow> 'r option \<times> go_err option"            \<comment> \<open>the outcomes of its attempts\<close>
  | SendErr nat
  | MarkTurn nat
  | SaveTurn nat
  | EndOfJobs nat
  | CloseJobs                                                 \<comment> \<open>\<open>Shutdown\<close>, first statement\<close>
  | CloseErrs                                                 \<comment> \<open>\<open>Shutdown\<close>, after \<open>wg.Wait\<close>\<close>
  | RecvErr

definition set_worker :: "nat \<Rightarrow> ('j, 'r) worker \<Rightarrow> ('j, 'r, 's) pool \<Rightarrow> ('j, 'r, 's) pool" where
  "set_worker w l p = p\<lparr> pl_workers := (pl_workers p)[w := l] \<rparr>"

text \<open>One pass of the loop of \<open>markAsFailed\<close>: after it, the worker goes to \<open>next\<close> or tries again.\<close>

definition markAsFailed_turn :: "('j \<Rightarrow> nat) \<Rightarrow> nat \<Rightarrow> 'j \<Rightarrow> ('j, 'r) worker \<Rightarrow> ('j, 'r, 's) pool
    \<Rightarrow> ('j, 'r, 's) pool" where
  "markAsFailed_turn ord w j next p =
     (if ord j = lastCompletedJobOrder p + 1
      then set_worker w next (p\<lparr> pl_failed := True \<rparr>) else p)"

type_synonym ('j, 'r) call = "'j \<times> 'r option \<times> go_err option"

type_synonym ('j, 'r, 's) saver = "'j \<Rightarrow> 'r option \<Rightarrow> 's \<Rightarrow> 's \<times> go_err option"

text \<open>One pass of the loop of \<open>serialSaveTradeLogs\<close>.\<close>

definition serialSave_turn :: "('j \<Rightarrow> nat) \<Rightarrow> ('j, 'r, 's) saver \<Rightarrow> nat \<Rightarrow> 'j \<Rightarrow> 'r option
    \<Rightarrow> ('j, 'r, 's) pool \<Rightarrow> ('j, 'r, 's) pool \<times> ('j, 'r) call list" where
  "serialSave_turn ord save w j r p =
     (if pl_failed p then
        (set_worker w (Leaving (Err ''pool has been marked as failed'')) p, [])
      else if ord j = lastCompletedJobOrder p + 1 then
        (case save j r (pl_storage p) of
           (st, Some e) \<Rightarrow> (set_worker w (Marking j (Some e)) (p\<lparr> pl_storage := st \<rparr>), [(j, r, Some e)])
         | (st, None) \<Rightarrow>
             (set_worker w Waiting (p\<lparr> pl_storage := st,
                lastCompletedJobOrder := lastCompletedJobOrder p + 1 \<rparr>), [(j, r, None)]))
      else (p, []))"

text \<open>
  \<open>p.errCh <- err\<close> blocks while the buffer is full. A send on a closed channel would panic; that case
  is the value \<open>None\<close> too, and \<open>pool_errCh_never_blocks\<close> shows that neither happens.
\<close>

definition send_err :: "nat \<Rightarrow> go_err \<Rightarrow> ('j, 'r) worker \<Rightarrow> ('j, 'r, 's) pool
    \<Rightarrow> ('j, 'r, 's) pool option" where
  "send_err w e next p =
     (if length (pl_errCh p) < pl_errCap p \<and> \<not> pl_errClosed p
      then Some (set_worker w next (p\<lparr> pl_errCh := pl_errCh p @ [e] \<rparr>)) else None)"

fun worker_event :: "('j \<Rightarrow> nat) \<Rightarrow> ('j, 'r, 's) saver
    \<Rightarrow> ((nat \<Rightarrow> 'r option \<times> go_err option) \<Rightarrow> 'r option \<times> go_err option)
    \<Rightarrow> nat \<Rightarrow> ('j, 'r) pool_event \<Rightarrow> ('j, 'r) worker \<Rightarrow> ('j, 'r, 's) pool
    \<Rightarrow> (('j, 'r, 's) pool \<times> ('j, 'r) call list) option" where
  "worker_event ord save execute w (Run _ j) Waiting p =
     (if pl_jobsClosed p then None else Some (set_worker w (Executing j) p, []))"
| "worker_event ord save execute w (EndOfJobs _) Waiting p =
     (if pl_jobsClosed p then Some (set_worker w Stopped p, []) else None)"
| "worker_event ord save execute w (Executed _ fn) (Executing j) p =
     (case execute fn of
        (r, Some e) \<Rightarrow> Some (set_worker w (Reporting j e) p, [])
      | (r, None) \<Rightarrow> Some (set_worker w (Saving j r) p, []))"
| "worker_event ord save execute w (SendErr _) (Reporting j e) p =
     map_option (\<lambda>q. (q, [])) (send_err w e (Marking j None) p)"
| "worker_event ord save execute w (SendErr _) (Leaving e) p =
     map_option (\<lambda>q. (q, [])) (send_err w e Stopped p)"
| "worker_event ord save execute w (MarkTurn _) (Marking j None) p =
     Some (markAsFailed_turn ord w j Stopped p, [])"
| "worker_event ord save execute w (MarkTurn _) (Marking j (Some e)) p =
     Some (markAsFailed_turn ord w j (Leaving e) p, [])"
| "worker_event ord save execute w (SaveTurn _) (Saving j r) p =
     Some (serialSave_turn ord save w j r p)"
| "worker_event ord save execute w _ _ p = None"

fun event_worker :: "('j, 'r) pool_event \<Rightarrow> nat option" where
  "event_worker (Run w j) = Some w"
| "event_worker (Executed w fn) = Some w"
| "event_worker (SendErr w) = Some w"
| "event_worker (MarkTurn w) = Some w"
| "event_worker (SaveTurn w) = Some w"
| "event_worker (EndOfJobs w) = Some w"
| "event_worker _ = None"

definition pool_event :: "('j \<Rightarrow> nat) \<Rightarrow> ('j, 'r, 's) saver
    \<Rightarrow> ((nat \<Rightarrow> 'r option \<times> go_err option) \<Rightarrow> 'r option \<times> go_err option)
    \<Rightarrow> ('j, 'r) pool_event \<Rightarrow> ('j, 'r, 's) pool
    \<Rightarrow> (('j, 'r, 's) pool \<times> ('j, 'r) call list) option" where
  "pool_event ord save execute ev p =
     (case event_worker ev of
        Some w \<Rightarrow>
          if w < length (pl_workers p)
          then worker_event ord save execute w ev (pl_workers p ! w) p else None
      | None \<Rightarrow>
          (case ev of
             CloseJobs \<Rightarrow> if pl_jobsClosed p then None else Some (p\<lparr> pl_jobsClosed := True \<rparr>, [])
           | CloseErrs \<Rightarrow>
               if pl_jobsClosed p \<and> \<not> pl_errClosed p \<and> list_all (\<lambda>l. l = Stopped) (pl_workers p)
               then Some (p\<lparr> pl_errClosed := True \<rparr>, []) else None
           | RecvErr \<Rightarrow>
               (case pl_errCh p of [] \<Rightarrow> None | e # es \<Rightarrow> Some (p\<lparr> pl_errCh := es \<rparr>, []))
           | _ \<Rightarrow> None))"

fun pool_run :: "('j \<Rightarrow> nat) \<Rightarrow> ('j, 'r, 's) saver
    \<Rightarrow> ((nat \<Rightarrow> 'r option \<times> go_err option) \<Rightarrow> 'r option \<times> go_err option)
    \<Rightarrow> ('j, 'r) pool_event list \<Rightarrow> ('j, 'r, 's) pool
    \<Rightarrow> (('j, 'r, 's) pool \<times> ('j, 'r) call list) option" where
  "pool_run ord save execute [] p = Some (p, [])"
| "pool_run ord save execute (ev # evs) p =
     (case pool_event ord save execute ev p of
        None \<Rightarrow> None
      | Some (q, cs) \<Rightarrow>
          (case pool_run ord save execute evs q of
             None \<Rightarrow> None
           | Some (q', cs') \<Rightarrow> Some (q', cs @ cs')))"

section \<open>The two pools\<close>

record trade_job =
  tj_order :: nat
  tj_from :: int
  tj_to :: int

record rate_job =
  rj_order :: nat
  rj_block :: nat

text \<open>\<open>storage.Interface\<close>, what the trade pool calls of it: a parameter here.\<close>

record 's trade_storage =
  st_SaveTradeLogs :: "CrawlResult option \<Rightarrow> 's \<Rightarrow> 's \<times> go_err option"
  st_SaveBigTrades :: "rat \<Rightarrow> nat \<Rightarrow> 's \<Rightarrow> 's \<times> go_err option"

definition save_trades :: "'s trade_storage \<Rightarrow> rat \<Rightarrow> (trade_job, CrawlResult, 's) saver" where
  "save_trades S bigVolume j r st =
     (case st_SaveTradeLogs S r st of
        (st', Some e) \<Rightarrow> (st', Some e)
      | (st', None) \<Rightarrow> st_SaveBigTrades S bigVolume (u64 (tj_from j)) st')"

definition trade_pool_run :: "'s trade_storage \<Rightarrow> rat \<Rightarrow> nat \<Rightarrow> (trade_job, CrawlResult) pool_event list
    \<Rightarrow> (trade_job, CrawlResult, 's) pool
    \<Rightarrow> ((trade_job, CrawlResult, 's) pool \<times> (trade_job, CrawlResult) call list) option" where
  "trade_pool_run S bigVolume attempts =
     pool_run tj_order (save_trades S bigVolume) (\<lambda>fn. retry_trades fn attempts)"

text \<open>\<open>update\<close> is \<open>UpdateRatesRecords\<close> of the rate storage.\<close>

definition rate_pool_run :: "(nat \<Rightarrow> 'r option \<Rightarrow> 's \<Rightarrow> 's \<times> go_err option) \<Rightarrow> nat
    \<Rightarrow> (rate_job, 'r) pool_event list \<Rightarrow> (rate_job, 'r, 's) pool
    \<Rightarrow> ((rate_job, 'r, 's) pool \<times> (rate_job, 'r) call list) option" where
  "rate_pool_run update attempts =
     pool_run rj_order (\<lambda>j. update (rj_block j)) (\<lambda>fn. retry_rates fn attempts)"

end
