(* ===== verification/WorkerPoolProps.thy ===== *)
theory WorkerPoolProps
  imports WorkerPool
begin

text \<open>
  What the worker pools guarantee: results are persisted in the order of the jobs whatever the
  interleaving, nothing is persisted after a failure, reporting an error never blocks, the job that is
  next to be persisted can always move, and two failed jobs leave a worker behind for ever.
\<close>

section \<open>Case analysis of an event\<close>

lemma pool_event_worker:
  "event_worker ev = Some w \<Longrightarrow> pool_event ord save ex ev p =
     (if w < length (pl_workers p) then worker_event ord save ex w ev (pl_workers p ! w) p else None)"
  by (simp add: pool_event_def)

lemma pool_event_main:
  "pool_event ord save ex CloseJobs p =
     (if pl_jobsClosed p then None else Some (p\<lparr> pl_jobsClosed := True \<rparr>, []))"
  "pool_event ord save ex CloseErrs p =
     (if pl_jobsClosed p \<and> \<not> pl_errClosed p \<and> list_all (\<lambda>l. l = Stopped) (pl_workers p)
      then Some (p\<lparr> pl_errClosed := True \<rparr>, []) else None)"
  "pool_event ord save ex RecvErr p =
     (case pl_errCh p of [] \<Rightarrow> None | e # es \<Rightarrow> Some (p\<lparr> pl_errCh := es \<rparr>, []))"
  by (simp_all add: pool_event_def)

lemmas pool_event_simps = pool_event_worker pool_event_main

text \<open>What an event can do, as far as the proofs below care.\<close>

lemma pool_event_elim:
  assumes "pool_event ord save ex ev p = Some (q, cs)"
  obtains
    (receive) w j where "ev = Run w j" "w < length (pl_workers p)" "pl_workers p ! w = Waiting"
      "q = set_worker w (Executing j) p" "cs = []"
  | (finish) w where "ev = EndOfJobs w" "w < length (pl_workers p)" "pl_workers p ! w = Waiting"
      "pl_jobsClosed p" "q = set_worker w Stopped p" "cs = []"
  | (failed) w fn j e where "ev = Executed w fn" "w < length (pl_workers p)"
      "pl_workers p ! w = Executing j" "q = set_worker w (Reporting j e) p" "cs = []"
  | (executed) w fn j r where "ev = Executed w fn" "w < length (pl_workers p)"
      "pl_workers p ! w = Executing j" "ex fn = (r, None)" "q = set_worker w (Saving j r) p" "cs = []"
  | (report) w j e where "ev = SendErr w" "w < length (pl_workers p)"
      "pl_workers p ! w = Reporting j e" "\<not> pl_errClosed p"
      "q = set_worker w (Marking j None) (p\<lparr> pl_errCh := pl_errCh p @ [e] \<rparr>)" "cs = []"
  | (leave) w e where "ev = SendErr w" "w < length (pl_workers p)"
      "pl_workers p ! w = Leaving e" "\<not> pl_errClosed p"
      "q = set_worker w Stopped (p\<lparr> pl_errCh := pl_errCh p @ [e] \<rparr>)" "cs = []"
  | (mark) w j x where "ev = MarkTurn w" "w < length (pl_workers p)"
      "pl_workers p ! w = Marking j x" "ord j = lastCompletedJobOrder p + 1"
      "q = set_worker w (case x of None \<Rightarrow> Stopped | Some e \<Rightarrow> Leaving e) (p\<lparr> pl_failed := True \<rparr>)"
      "cs = []"
  | (reject) w j r where "ev = SaveTurn w" "w < length (pl_workers p)"
      "pl_workers p ! w = Saving j r" "pl_failed p"
      "q = set_worker w (Leaving (Err ''pool has been marked as failed'')) p" "cs = []"
  | (save) w j r st where "ev = SaveTurn w" "w < length (pl_workers p)"
      "pl_workers p ! w = Saving j r" "\<not> pl_failed p" "ord j = lastCompletedJobOrder p + 1"
      "save j r (pl_storage p) = (st, None)"
      "q = set_worker w Waiting (p\<lparr> pl_storage := st,
             lastCompletedJobOrder := lastCompletedJobOrder p + 1 \<rparr>)" "cs = [(j, r, None)]"
  | (save_error) w j r st e where "ev = SaveTurn w" "w < length (pl_workers p)"
      "pl_workers p ! w = Saving j r" "\<not> pl_failed p" "ord j = lastCompletedJobOrder p + 1"
      "save j r (pl_storage p) = (st, Some e)"
      "q = set_worker w (Marking j (Some e)) (p\<lparr> pl_storage := st \<rparr>)" "cs = [(j, r, Some e)]"
  | (spin) w where "ev = MarkTurn w \<or> ev = SaveTurn w" "q = p" "cs = []"
  | (close_jobs) "ev = CloseJobs" "q = p\<lparr> pl_jobsClosed := True \<rparr>" "cs = []"
  | (close_errs) "ev = CloseErrs" "list_all (\<lambda>l. l = Stopped) (pl_workers p)"
      "q = p\<lparr> pl_errClosed := True \<rparr>" "cs = []"
  | (recv) e es where "ev = RecvErr" "pl_errCh p = e # es" "q = p\<lparr> pl_errCh := es \<rparr>" "cs = []"
proof (cases "event_worker ev")
  case None
  then show ?thesis
    using assms that(12-14) by (cases ev) (auto simp: pool_event_main split: if_splits list.splits)
next
  case (Some w)
  with assms have w: "w < length (pl_workers p)"
    and step: "worker_event ord save ex w ev (pl_workers p ! w) p = Some (q, cs)"
    by (auto simp: pool_event_worker split: if_splits)
  show ?thesis
  proof (cases ev)
    case (Run v j)
    with Some step w that(1) show ?thesis by (cases "pl_workers p ! w") (auto split: if_splits)
  next
    case (Executed v fn)
    then have v: "v = w" using Some by simp
    from step Executed obtain j where l: "pl_workers p ! w = Executing j"
      by (cases "pl_workers p ! w") auto
    obtain r x where ex: "ex fn = (r, x)" by (cases "ex fn")
    show ?thesis
    proof (cases x)
      case None
      with step Executed l ex have "q = set_worker w (Saving j r) p" "cs = []" by simp_all
      with that(4) Executed v w l ex None show ?thesis by blast
    next
      case (Some e)
      with step Executed l ex have "q = set_worker w (Reporting j e) p" "cs = []" by simp_all
      with that(3) Executed v w l show ?thesis by blast
    qed
  next
    case (SendErr v)
    then have v: "v = w" using Some by simp
    from step SendErr consider j e where "pl_workers p ! w = Reporting j e"
      | e where "pl_workers p ! w = Leaving e"
      by (cases "pl_workers p ! w") auto
    then show ?thesis
      using step SendErr v w that(5,6) by cases (simp_all add: send_err_def split: if_splits)
  next
    case (MarkTurn v)
    then have v: "v = w" using Some by simp
    from step MarkTurn obtain j x where l: "pl_workers p ! w = Marking j x"
      by (cases "pl_workers p ! w") auto
    show ?thesis
    proof (cases "ord j = lastCompletedJobOrder p + 1")
      case True
      with step MarkTurn l have "q = set_worker w (case x of None \<Rightarrow> Stopped | Some e \<Rightarrow> Leaving e)
          (p\<lparr> pl_failed := True \<rparr>)" "cs = []"
        by (cases x; simp add: markAsFailed_turn_def)+
      with that(7) MarkTurn v w l True show ?thesis by blast
    next
      case False
      with step MarkTurn l have "q = p" "cs = []" by (cases x; simp add: markAsFailed_turn_def)+
      with that(11) MarkTurn show ?thesis by blast
    qed
  next
    case (SaveTurn v)
    then have v: "v = w" using Some by simp
    from step SaveTurn obtain j r where l: "pl_workers p ! w = Saving j r"
      by (cases "pl_workers p ! w") auto
    with step SaveTurn have "serialSave_turn ord save w j r p = (q, cs)" by simp
    then consider "pl_failed p" "q = set_worker w (Leaving (Err ''pool has been marked as failed'')) p"
        "cs = []"
      | st where "\<not> pl_failed p" "ord j = lastCompletedJobOrder p + 1"
        "save j r (pl_storage p) = (st, None)" "cs = [(j, r, None)]"
        "q = set_worker w Waiting (p\<lparr> pl_storage := st,
           lastCompletedJobOrder := lastCompletedJobOrder p + 1 \<rparr>)"
      | st e where "\<not> pl_failed p" "ord j = lastCompletedJobOrder p + 1"
        "save j r (pl_storage p) = (st, Some e)" "cs = [(j, r, Some e)]"
        "q = set_worker w (Marking j (Some e)) (p\<lparr> pl_storage := st \<rparr>)"
      | "q = p" "cs = []"
      unfolding serialSave_turn_def
      by (simp split: if_splits prod.splits option.splits)
    then show ?thesis
      using that(8-11) SaveTurn v w l by cases blast+
  next
    case (EndOfJobs v)
    with Some step w that(2) show ?thesis by (cases "pl_workers p ! w") (auto split: if_splits)
  qed (use Some in simp_all)
qed

lemma set_worker_sel [simp]:
  "pl_workers (set_worker w l p) = (pl_workers p)[w := l]"
  "pl_errCh (set_worker w l p) = pl_errCh p" "pl_errCap (set_worker w l p) = pl_errCap p"
  "pl_jobsClosed (set_worker w l p) = pl_jobsClosed p"
  "pl_errClosed (set_worker w l p) = pl_errClosed p"
  "lastCompletedJobOrder (set_worker w l p) = lastCompletedJobOrder p"
  "pl_failed (set_worker w l p) = pl_failed p" "pl_storage (set_worker w l p) = pl_storage p"
  by (simp_all add: set_worker_def)

lemma pool_event_length:
  "pool_event ord save ex ev p = Some (q, cs) \<Longrightarrow> length (pl_workers q) = length (pl_workers p)"
  by (erule pool_event_elim) auto

lemma pool_run_Cons:
  assumes "pool_run ord save ex (ev # evs) p = Some (q, cs)"
  obtains p1 cs1 cs2 where "pool_event ord save ex ev p = Some (p1, cs1)"
    "pool_run ord save ex evs p1 = Some (q, cs2)" "cs = cs1 @ cs2"
  using assms by (auto split: option.splits)

lemma pool_run_induct:
  assumes "pool_run ord save ex evs p = Some (q, cs)" and "I p"
    and "\<And>p ev q cs. I p \<Longrightarrow> pool_event ord save ex ev p = Some (q, cs) \<Longrightarrow> I q"
  shows "I q"
  using assms(1,2)
proof (induction evs arbitrary: p cs)
  case Nil
  then show ?case by simp
next
  case (Cons ev evs)
  from Cons.prems(1) obtain p1 cs1 cs2 where "pool_event ord save ex ev p = Some (p1, cs1)"
    "pool_run ord save ex evs p1 = Some (q, cs2)" by (rule pool_run_Cons)
  with Cons.IH Cons.prems(2) assms(3) show ?case by blast
qed

section \<open>Who holds which order\<close>

fun worker_order :: "('j \<Rightarrow> nat) \<Rightarrow> ('j, 'r) worker \<Rightarrow> nat option" where
  "worker_order ord (Executing j) = Some (ord j)"
| "worker_order ord (Reporting j e) = Some (ord j)"
| "worker_order ord (Saving j r) = Some (ord j)"
| "worker_order ord (Marking j x) = Some (ord j)"
| "worker_order ord _ = None"

fun submitted :: "('j \<Rightarrow> nat) \<Rightarrow> ('j, 'r) pool_event list \<Rightarrow> nat list" where
  "submitted ord [] = []"
| "submitted ord (Run w j # evs) = ord j # submitted ord evs"
| "submitted ord (ev # evs) = submitted ord evs"

definition holds :: "('j \<Rightarrow> nat) \<Rightarrow> ('j, 'r, 's) pool \<Rightarrow> nat \<Rightarrow> nat \<Rightarrow> bool" where
  "holds ord p w k \<longleftrightarrow> w < length (pl_workers p) \<and> worker_order ord (pl_workers p ! w) = Some k"

definition one_holder :: "('j \<Rightarrow> nat) \<Rightarrow> nat list \<Rightarrow> ('j, 'r, 's) pool \<Rightarrow> bool" where
  "one_holder ord ks p \<longleftrightarrow> distinct ks \<and>
     (\<forall>w k. holds ord p w k \<longrightarrow> k \<notin> set ks \<and> (\<forall>v. holds ord p v k \<longrightarrow> v = w))"

lemma holds_update:
  "holds ord (set_worker w l p) v k \<longleftrightarrow>
     v < length (pl_workers p) \<and> worker_order ord (if v = w then l else pl_workers p ! v) = Some k"
  by (auto simp: holds_def nth_list_update)

lemma pool_event_holds:
  assumes "pool_event ord save ex ev p = Some (q, cs)" "holds ord q w k"
  shows "holds ord p w k \<or> k \<in> set (submitted ord [ev])"
  using assms
  by (cases rule: pool_event_elim)
    (auto simp: holds_def nth_list_update split: if_splits option.splits)

lemma submitted_Cons: "submitted ord (ev # evs) = submitted ord [ev] @ submitted ord evs"
  by (cases ev) auto

lemma one_holder_event:
  assumes ev: "pool_event ord save ex ev p = Some (q, cs)"
    and one: "one_holder ord (submitted ord (ev # evs)) p"
  shows "one_holder ord (submitted ord evs) q"
proof -
  have "\<exists>w j. ev = Run w j \<and> w < length (pl_workers p) \<and> pl_workers p ! w = Waiting \<and>
      q = set_worker w (Executing j) p" if "ev = Run w j" for w j
    using ev that by (cases rule: pool_event_elim) auto
  then consider (r) w j where "ev = Run w j" "w < length (pl_workers p)"
      "pl_workers p ! w = Waiting" "q = set_worker w (Executing j) p"
    | (other) "submitted ord [ev] = []" by (cases ev) auto
  then show ?thesis
  proof cases
    case r
    then have q: "holds ord q v k \<longleftrightarrow> (if v = w then k = ord j else holds ord p v k)" for v k
      by (auto simp: holds_def)
    from r one show ?thesis
      unfolding one_holder_def q by (simp split: if_split) metis
  next
    case other
    then have "submitted ord (ev # evs) = submitted ord evs"
      by (subst submitted_Cons) simp
    with one pool_event_holds [OF ev] other show ?thesis
      unfolding one_holder_def by (metis empty_iff list.set(1))
  qed
qed

section \<open>Persisting in order\<close>

text \<open>The order next to be persisted has failed, or the pool has been marked as failed.\<close>

definition given_up :: "('j \<Rightarrow> nat) \<Rightarrow> ('j, 'r, 's) pool \<Rightarrow> bool" where
  "given_up ord p \<longleftrightarrow> pl_failed p \<or>
     (\<exists>w j x. w < length (pl_workers p) \<and> pl_workers p ! w = Marking j x \<and>
        ord j = lastCompletedJobOrder p + 1)"

lemma given_up_set:
  assumes "given_up ord p" "\<forall>j x. pl_workers p ! w \<noteq> Marking j x"
  shows "given_up ord (set_worker w l p)"
proof (cases "pl_failed p")
  case True
  then show ?thesis by (simp add: given_up_def)
next
  case False
  then obtain v j x where v: "v < length (pl_workers p)" "pl_workers p ! v = Marking j x"
      "ord j = lastCompletedJobOrder p + 1"
    using assms(1) by (auto simp: given_up_def)
  with assms(2) have "v \<noteq> w" by auto
  with v show ?thesis by (auto simp: given_up_def intro!: exI [of _ v])
qed

lemma given_up_cong [simp]:
  "given_up ord (p\<lparr> pl_errCh := es \<rparr>) = given_up ord p"
  "given_up ord (p\<lparr> pl_jobsClosed := b \<rparr>) = given_up ord p"
  "given_up ord (p\<lparr> pl_errClosed := b \<rparr>) = given_up ord p"
  by (simp_all add: given_up_def)

lemma given_up_event:
  assumes ev: "pool_event ord save ex ev p = Some (q, cs)"
    and one: "one_holder ord ks p" and up: "given_up ord p"
  shows "given_up ord q \<and> cs = [] \<and> lastCompletedJobOrder q = lastCompletedJobOrder p \<and>
    pl_storage q = pl_storage p"
proof -
  have clash: "v = w" if "w < length (pl_workers p)" "pl_workers p ! w = Marking j x"
      "v < length (pl_workers p)" "pl_workers p ! v = Saving j' r" "ord j = ord j'" for v w j x j' r
    using one that unfolding one_holder_def holds_def
    by (metis worker_order.simps(3,4))
  have no_save: False if h: "w < length (pl_workers p)" "pl_workers p ! w = Saving j r"
      "\<not> pl_failed p" "ord j = lastCompletedJobOrder p + 1" for w j r
  proof -
    obtain v j' x where v: "v < length (pl_workers p)" "pl_workers p ! v = Marking j' x"
        "ord j' = lastCompletedJobOrder p + 1"
      using up h(3) by (auto simp: given_up_def)
    with clash [of v j' x w j r] h have "v = w" by simp
    with v(2) h(2) show False by simp
  qed
  from ev show ?thesis
  proof (cases rule: pool_event_elim)
    case (mark w j x)
    then show ?thesis by (simp add: given_up_def)
  next
    case (save w j r st)
    with no_save show ?thesis by blast
  next
    case (save_error w j r st e)
    with no_save show ?thesis by blast
  qed (use up in \<open>simp_all add: given_up_set\<close>)
qed

lemma given_up_run:
  assumes "pool_run ord save ex evs p = Some (q, cs)"
    and "one_holder ord (submitted ord evs) p" "given_up ord p"
  shows "cs = [] \<and> lastCompletedJobOrder q = lastCompletedJobOrder p \<and>
    pl_storage q = pl_storage p"
  using assms
proof (induction evs arbitrary: p cs)
  case Nil
  then show ?case by simp
next
  case (Cons ev evs)
  from Cons.prems(1) obtain p1 cs1 cs2 where ev: "pool_event ord save ex ev p = Some (p1, cs1)"
    and run: "pool_run ord save ex evs p1 = Some (q, cs2)" and cs: "cs = cs1 @ cs2"
    by (rule pool_run_Cons)
  from given_up_event [OF ev Cons.prems(2,3)] Cons.IH [OF run one_holder_event [OF ev Cons.prems(2)]]
  show ?case by (simp add: cs)
qed

text \<open>The storage after a list of calls.\<close>

fun apply_calls :: "('j, 'r, 's) saver \<Rightarrow> ('j, 'r) call list \<Rightarrow> 's \<Rightarrow> 's" where
  "apply_calls save [] st = st"
| "apply_calls save ((j, r, x) # cs) st = apply_calls save cs (fst (save j r st))"

definition ordered_calls :: "('j \<Rightarrow> nat) \<Rightarrow> nat \<Rightarrow> nat \<Rightarrow> ('j, 'r) call list \<Rightarrow> bool" where
  "ordered_calls ord m n cs \<longleftrightarrow>
     (\<exists>good bad. cs = good @ bad \<and> map (\<lambda>c. ord (fst c)) good = [Suc m..<Suc n] \<and>
        (\<forall>c\<in>set good. snd (snd c) = None) \<and>
        (bad = [] \<or> (\<exists>j r e. bad = [(j, r, Some e)] \<and> ord j = Suc n)))"

lemma ordered_calls_Nil: "ordered_calls ord m m []"
  by (auto simp: ordered_calls_def)

lemma ordered_calls_bad: "ord j = Suc m \<Longrightarrow> ordered_calls ord m m [(j, r, Some e)]"
  unfolding ordered_calls_def by (rule exI [of _ "[]"], rule exI [of _ "[(j, r, Some e)]"]) simp

lemma ordered_calls_good:
  assumes "ord j = Suc m" "ordered_calls ord (Suc m) n cs" "Suc m \<le> n"
  shows "ordered_calls ord m n ((j, r, None) # cs)"
proof -
  from assms(2) obtain good bad where "cs = good @ bad"
    "map (\<lambda>c. ord (fst c)) good = [Suc (Suc m)..<Suc n]" "\<forall>c\<in>set good. snd (snd c) = None"
    "bad = [] \<or> (\<exists>j r e. bad = [(j, r, Some e)] \<and> ord j = Suc n)"
    by (auto simp: ordered_calls_def)
  with assms(1,3) show ?thesis
    unfolding ordered_calls_def
    by (intro exI [of _ "(j, r, None) # good"] exI [of _ bad]) (simp add: upt_conv_Cons)
qed

lemma pool_run_ordered:
  assumes "pool_run ord save ex evs p = Some (q, cs)"
    and "one_holder ord (submitted ord evs) p"
  shows "ordered_calls ord (lastCompletedJobOrder p) (lastCompletedJobOrder q) cs \<and>
    lastCompletedJobOrder p \<le> lastCompletedJobOrder q \<and>
    pl_storage q = apply_calls save cs (pl_storage p)"
  using assms
proof (induction evs arbitrary: p cs)
  case Nil
  then show ?case by (simp add: ordered_calls_Nil)
next
  case (Cons ev evs)
  from Cons.prems(1) obtain p1 cs1 cs2 where ev: "pool_event ord save ex ev p = Some (p1, cs1)"
    and run: "pool_run ord save ex evs p1 = Some (q, cs2)" and cs: "cs = cs1 @ cs2"
    by (rule pool_run_Cons)
  note one = one_holder_event [OF ev Cons.prems(2)]
  note IH = Cons.IH [OF run one]
  from ev show ?case
  proof (cases rule: pool_event_elim)
    case (save w j r st)
    then show ?thesis using IH by (auto simp: cs intro: ordered_calls_good)
  next
    case (save_error w j r st e)
    then have "given_up ord p1" by (auto simp: given_up_def intro: exI [of _ w])
    from given_up_run [OF run one this] save_error show ?thesis
      by (simp add: cs ordered_calls_bad)
  qed (use IH in \<open>simp_all add: cs\<close>)
qed

lemma one_holder_NewPool: "distinct ks \<Longrightarrow> one_holder ord ks (NewPool n st)"
  by (auto simp: one_holder_def holds_def NewPool_def)

lemma NewPool_sel [simp]:
  "lastCompletedJobOrder (NewPool n st) = 0" "pl_storage (NewPool n st) = st"
  "pl_errCh (NewPool n st) = []" "pl_errCap (NewPool n st) = n" "\<not> pl_failed (NewPool n st)"
  "pl_workers (NewPool n st) = replicate n Waiting" "\<not> pl_errClosed (NewPool n st)"
  "\<not> pl_jobsClosed (NewPool n st)"
  by (simp_all add: NewPool_def)

section \<open>The error channel\<close>

fun can_report :: "('j, 'r) worker \<Rightarrow> bool" where
  "can_report Stopped = False"
| "can_report (Marking j None) = False"
| "can_report _ = True"

definition errCh_room :: "('j, 'r, 's) pool \<Rightarrow> bool" where
  "errCh_room p \<longleftrightarrow> length (pl_errCh p) + length (filter can_report (pl_workers p)) \<le> pl_errCap p \<and>
     (pl_errClosed p \<longrightarrow> list_all (\<lambda>l. l = Stopped) (pl_workers p))"

lemma length_filter_update:
  "w < length xs \<Longrightarrow>
     length (filter P (xs[w := l])) + of_bool (P (xs ! w)) = length (filter P xs) + of_bool (P l)"
proof (induction xs arbitrary: w)
  case Nil
  then show ?case by simp
next
  case (Cons x xs)
  then show ?case by (cases w) auto
qed

lemma list_all_nth: "list_all P xs \<Longrightarrow> w < length xs \<Longrightarrow> P (xs ! w)"
  by (simp add: list_all_length)

lemma errCh_room_event:
  assumes "errCh_room p" "pool_event ord save ex ev p = Some (q, cs)"
  shows "errCh_room q"
proof -
  note upd = length_filter_update [of _ "pl_workers p" can_report]
  have open_: "pl_workers p ! w = Stopped" if "pl_errClosed p" "w < length (pl_workers p)" for w
    using assms(1) that by (auto simp: errCh_room_def dest: list_all_nth)
  from assms(2) show ?thesis
  proof (cases rule: pool_event_elim)
    case (mark w j x)
    with assms(1) upd [of w "case x of None \<Rightarrow> Stopped | Some e \<Rightarrow> Leaving e"] open_ [of w]
    show ?thesis by (cases x) (auto simp: errCh_room_def)
  next
    case (recv e es)
    with assms(1) show ?thesis by (auto simp: errCh_room_def)
  next
    case (receive w j)
    with assms(1) upd [of w "Executing j"] open_ [of w] show ?thesis by (auto simp: errCh_room_def)
  next
    case (finish w)
    with assms(1) upd [of w Stopped] open_ [of w] show ?thesis by (auto simp: errCh_room_def)
  next
    case (failed w fn j e)
    with assms(1) upd [of w "Reporting j e"] open_ [of w] show ?thesis by (auto simp: errCh_room_def)
  next
    case (executed w fn j r)
    with assms(1) upd [of w "Saving j r"] open_ [of w] show ?thesis by (auto simp: errCh_room_def)
  next
    case (report w j e)
    with assms(1) upd [of w "Marking j None"] show ?thesis by (auto simp: errCh_room_def)
  next
    case (leave w e)
    with assms(1) upd [of w Stopped] show ?thesis by (auto simp: errCh_room_def)
  next
    case (reject w j r)
    with assms(1) upd [of w "Leaving (Err ''pool has been marked as failed'')"] open_ [of w]
    show ?thesis by (auto simp: errCh_room_def)
  next
    case (save w j r st)
    with assms(1) upd [of w Waiting] open_ [of w] show ?thesis by (auto simp: errCh_room_def)
  next
    case (save_error w j r st e)
    with assms(1) upd [of w "Marking j (Some e)"] open_ [of w] show ?thesis
      by (auto simp: errCh_room_def)
  qed (use assms(1) in \<open>simp_all add: errCh_room_def\<close>)
qed

lemma errCh_room_NewPool: "errCh_room (NewPool n st)"
  by (simp add: errCh_room_def)

lemma errCh_room_run:
  "pool_run ord save ex evs (NewPool n st) = Some (p, cs) \<Longrightarrow> errCh_room p"
  by (rule pool_run_induct) (auto simp: errCh_room_NewPool intro: errCh_room_event)

lemma can_report_room:
  assumes "errCh_room p" "w < length (pl_workers p)" "can_report (pl_workers p ! w)"
  shows "length (pl_errCh p) < pl_errCap p \<and> \<not> pl_errClosed p"
proof -
  have "pl_workers p ! w \<in> set (filter can_report (pl_workers p))" using assms by simp
  then have "0 < length (filter can_report (pl_workers p))" by (rule length_pos_if_in_set)
  then have "length (pl_errCh p) < pl_errCap p"
    using assms(1) unfolding errCh_room_def by linarith
  with assms show ?thesis by (auto simp: errCh_room_def dest: list_all_nth)
qed

section \<open>Progress\<close>

definition no_gap :: "('j \<Rightarrow> nat) \<Rightarrow> nat \<Rightarrow> ('j, 'r, 's) pool \<Rightarrow> bool" where
  "no_gap ord m p \<longleftrightarrow> pl_failed p \<or>
     (\<forall>k. lastCompletedJobOrder p < k \<and> k \<le> m \<longrightarrow> (\<exists>w. holds ord p w k))"

lemma holds_set:
  "holds ord p v k \<Longrightarrow> worker_order ord (pl_workers p ! w) \<noteq> Some k \<Longrightarrow>
     pl_workers q = pl_workers p \<Longrightarrow> holds ord (set_worker w l q) v k"
  by (cases "v = w") (auto simp: holds_def)

lemma holds_keep:
  "holds ord p v k \<Longrightarrow> worker_order ord l = worker_order ord (pl_workers p ! w) \<Longrightarrow>
     pl_workers q = pl_workers p \<Longrightarrow> holds ord (set_worker w l q) v k"
  by (cases "v = w") (auto simp: holds_def)

lemma holds_cong [simp]:
  "holds ord (p\<lparr> pl_errCh := es \<rparr>) = holds ord p"
  "holds ord (p\<lparr> pl_jobsClosed := b \<rparr>) = holds ord p"
  "holds ord (p\<lparr> pl_errClosed := b \<rparr>) = holds ord p"
  by (simp_all add: holds_def fun_eq_iff)

lemma no_gap_keep:
  assumes "no_gap ord m p" "lastCompletedJobOrder q = lastCompletedJobOrder p"
    "pl_failed q = pl_failed p" "\<And>v k. holds ord p v k \<Longrightarrow> holds ord q v k"
  shows "no_gap ord m q"
  using assms unfolding no_gap_def by metis

lemma no_gap_event:
  assumes ev: "pool_event ord save ex ev p = Some (q, cs)" and gap: "no_gap ord m p"
    and sub: "submitted ord [ev] = (if n = m then [] else [Suc m])" "n = m \<or> n = Suc m"
  shows "no_gap ord n q"
  using ev
proof (cases rule: pool_event_elim)
  case (receive w j)
  then have n: "n = Suc m" "ord j = Suc m" using sub by (auto split: if_splits)
  have "holds ord q w (Suc m)" using receive n by (simp add: holds_def)
  moreover have "holds ord q v k" if "holds ord p v k" for v k
    using that receive by (auto intro: holds_set)
  ultimately show ?thesis
    using gap n(1) receive(4) unfolding no_gap_def by (simp add: le_Suc_eq) blast
next
  case (save w j r st)
  have "holds ord q v k" if "holds ord p v k" "lastCompletedJobOrder p + 1 < k" for v k
    using that save by (auto intro: holds_set)
  moreover have "n = m" "\<not> pl_failed p" "lastCompletedJobOrder q = lastCompletedJobOrder p + 1"
    using sub save by (auto split: if_splits)
  ultimately show ?thesis
    using gap unfolding no_gap_def by (metis less_trans lessI Suc_eq_plus1)
next
  case (mark w j x)
  then show ?thesis by (simp add: no_gap_def)
next
  case (reject w j r)
  then show ?thesis by (simp add: no_gap_def)
qed (use gap sub in \<open>auto split: if_splits intro!: no_gap_keep [of ord m p] intro: holds_set holds_keep\<close>)

lemma no_gap_run:
  assumes "pool_run ord save ex evs p = Some (q, cs)"
    and "submitted ord evs = [Suc m..<Suc n]" "m \<le> n" "no_gap ord m p"
  shows "no_gap ord n q"
  using assms
proof (induction evs arbitrary: p cs m)
  case Nil
  then have "m = n" by (metis Suc_leI Suc_le_mono le_antisym submitted.simps(1) upt_eq_Nil_conv
      not_less_eq_eq Zero_not_Suc)
  with Nil show ?case by simp
next
  case (Cons ev evs)
  from Cons.prems(1) obtain p1 cs1 cs2 where ev: "pool_event ord save ex ev p = Some (p1, cs1)"
    and run: "pool_run ord save ex evs p1 = Some (q, cs2)"
    by (rule pool_run_Cons)
  have sub: "submitted ord [ev] @ submitted ord evs = [Suc m..<Suc n]"
    using Cons.prems(2) by (subst submitted_Cons [symmetric])
  show ?case
  proof (cases "submitted ord [ev] = []")
    case True
    with no_gap_event [OF ev Cons.prems(4), of m] sub Cons.IH [OF run _ Cons.prems(3)]
    show ?thesis by simp
  next
    case False
    then obtain k where k: "submitted ord [ev] = [k]" by (cases ev) auto
    with sub have "[Suc m..<Suc n] = k # submitted ord evs" by simp
    then have m: "m < n" "k = Suc m" "submitted ord evs = [Suc (Suc m)..<Suc n]"
      unfolding upt_eq_Cons_conv by auto
    with no_gap_event [OF ev Cons.prems(4), of "Suc m"] k Cons.IH [OF run m(3)]
    show ?thesis by simp
  qed
qed

section \<open>The calls return what the storage returns\<close>

fun calls_faithful :: "('j, 'r, 's) saver \<Rightarrow> ('j, 'r) call list \<Rightarrow> 's \<Rightarrow> bool" where
  "calls_faithful save [] st = True"
| "calls_faithful save ((j, r, x) # cs) st =
     (snd (save j r st) = x \<and> calls_faithful save cs (fst (save j r st)))"

lemma calls_faithful_append:
  "calls_faithful save (cs @ ds) st \<longleftrightarrow>
     calls_faithful save cs st \<and> calls_faithful save ds (apply_calls save cs st)"
  by (induction save cs st rule: calls_faithful.induct) auto

lemma pool_event_faithful:
  "pool_event ord save ex ev p = Some (q, cs) \<Longrightarrow>
     calls_faithful save cs (pl_storage p) \<and> pl_storage q = apply_calls save cs (pl_storage p)"
  by (erule pool_event_elim) auto

lemma pool_run_faithful:
  assumes "pool_run ord save ex evs p = Some (q, cs)"
  shows "calls_faithful save cs (pl_storage p)"
  using assms
proof (induction evs arbitrary: p cs)
  case Nil
  then show ?case by simp
next
  case (Cons ev evs)
  from Cons.prems obtain p1 cs1 cs2 where ev: "pool_event ord save ex ev p = Some (p1, cs1)"
    and run: "pool_run ord save ex evs p1 = Some (q, cs2)" and cs: "cs = cs1 @ cs2"
    by (rule pool_run_Cons)
  with pool_event_faithful [OF ev] Cons.IH [OF run] show ?case by (simp add: calls_faithful_append)
qed

section \<open>Properties\<close>

text \<open>
  C5: Whatever the interleaving of the workers, the pool persists the results of the jobs one at a
  time in the order of the jobs, without a gap and without a repetition, up to
  \<open>lastCompletedJobOrder\<close>; at most one more call of the storage is made, the one that failed, for the
  next order; and the storage is the result of exactly these calls.
\<close>

theorem pool_saves_in_order:
  assumes "pool_run ord save ex evs (NewPool n st) = Some (p, cs)" and "distinct (submitted ord evs)"
  shows "(\<exists>good bad. cs = good @ bad \<and>
      map (\<lambda>c. ord (fst c)) good = [1..<Suc (lastCompletedJobOrder p)] \<and>
      (\<forall>c\<in>set good. snd (snd c) = None) \<and>
      (bad = [] \<or> (\<exists>j r e. bad = [(j, r, Some e)] \<and> ord j = Suc (lastCompletedJobOrder p)))) \<and>
    pl_storage p = apply_calls save cs st"
  using pool_run_ordered [OF assms(1) one_holder_NewPool [OF assms(2)]]
  by (simp add: ordered_calls_def)

text \<open>
  Nothing is persisted any more once the pool is marked as failed, even if workers go on to
  finish the jobs they have, and \<open>lastCompletedJobOrder\<close> stays at the order before the failed job.
\<close>

theorem pool_failed_saves_nothing:
  assumes "pool_run ord save ex evs p = Some (q, cs)" and "pl_failed p"
  shows "cs = [] \<and> pl_storage q = pl_storage p \<and>
    lastCompletedJobOrder q = lastCompletedJobOrder p \<and> pl_failed q"
  using assms
proof (induction evs arbitrary: p cs)
  case Nil
  then show ?case by simp
next
  case (Cons ev evs)
  from Cons.prems(1) obtain p1 cs1 cs2 where ev: "pool_event ord save ex ev p = Some (p1, cs1)"
    and run: "pool_run ord save ex evs p1 = Some (q, cs2)" and cs: "cs = cs1 @ cs2"
    by (rule pool_run_Cons)
  from ev Cons.prems(2) have "cs1 = [] \<and> pl_storage p1 = pl_storage p \<and>
      lastCompletedJobOrder p1 = lastCompletedJobOrder p \<and> pl_failed p1"
    by (cases rule: pool_event_elim) auto
  with Cons.IH [OF run] cs show ?case by simp
qed

text \<open>
  Reporting an error never blocks a worker and never panics on a closed channel: in every
  reachable state of a pool of \<open>n\<close> workers, a worker about to send to \<open>errCh\<close> can do so, although
  nobody may be receiving, because each worker sends at most one error and \<open>errCh\<close> has room for \<open>n\<close>.
\<close>

theorem pool_errCh_never_blocks:
  assumes "pool_run ord save ex evs (NewPool n st) = Some (p, cs)"
    and "w < length (pl_workers p)"
    and "(\<exists>j e. pl_workers p ! w = Reporting j e) \<or> (\<exists>e. pl_workers p ! w = Leaving e)"
  shows "pool_event ord save ex (SendErr w) p \<noteq> None"
proof -
  have "can_report (pl_workers p ! w)" using assms(3) by auto
  with can_report_room [OF errCh_room_run [OF assms(1)] assms(2)] assms(2,3) show ?thesis
    by (auto simp: pool_event_def send_err_def)
qed

text \<open>
  C19: The pool does not deadlock while it has not failed: when the jobs 1 to \<open>m\<close> have been submitted
  in order and not all of them are persisted, some worker holds the job that is next in the order,
  and that worker can make a step that takes it out of its present place, whatever the other workers
  are waiting for.
\<close>

theorem pool_next_job_moves:
  assumes run: "pool_run ord save ex evs (NewPool n st) = Some (p, cs)"
    and sub: "submitted ord evs = [1..<Suc m]"
    and p: "\<not> pl_failed p" "lastCompletedJobOrder p < m"
  shows "\<exists>w. worker_order ord (pl_workers p ! w) = Some (lastCompletedJobOrder p + 1) \<and>
    w < length (pl_workers p) \<and>
    (\<forall>fn. \<exists>ev \<in> {Executed w fn, SendErr w, SaveTurn w, MarkTurn w}. \<exists>q cs.
       pool_event ord save ex ev p = Some (q, cs) \<and> pl_workers q ! w \<noteq> pl_workers p ! w)"
proof -
  have "no_gap ord 0 (NewPool n st)" by (simp add: no_gap_def)
  with no_gap_run [OF run, of 0 m] sub have "no_gap ord m p" by simp
  with p obtain w where w: "w < length (pl_workers p)"
    and o: "worker_order ord (pl_workers p ! w) = Some (lastCompletedJobOrder p + 1)"
    by (force simp: no_gap_def holds_def)
  note room = can_report_room [OF errCh_room_run [OF run] w]
  have "\<exists>ev \<in> {Executed w fn, SendErr w, SaveTurn w, MarkTurn w}. \<exists>q cs.
      pool_event ord save ex ev p = Some (q, cs) \<and> pl_workers q ! w \<noteq> pl_workers p ! w" for fn
  proof (cases "pl_workers p ! w")
    case (Executing j)
    then show ?thesis using w
      by (cases "ex fn" rule: prod.exhaust; cases "snd (ex fn)") (auto simp: pool_event_def)
  next
    case (Reporting j e)
    then show ?thesis using w room by (auto simp: pool_event_def send_err_def)
  next
    case (Saving j r)
    then show ?thesis using w o p(1)
      by (auto simp: pool_event_def serialSave_turn_def split: prod.split option.split)
  next
    case (Marking j x)
    then show ?thesis using w o
      by (cases x) (auto simp: pool_event_def markAsFailed_turn_def)
  qed (use o in auto)
  with w o show ?thesis by blast
qed

text \<open>
  Once the pool has been marked as failed, a worker that is in \<open>markAsFailed\<close> for any order but
  the one that failed stays there for ever: \<open>lastCompletedJobOrder\<close> no longer moves. So after two
  failed jobs \<open>wg.Wait\<close> does not return and \<open>Shutdown\<close> never closes \<open>errCh\<close>.
\<close>

theorem pool_second_failure_hangs:
  assumes "pool_run ord save ex evs p = Some (q, cs)"
    and "pl_failed p" "w < length (pl_workers p)" "pl_workers p ! w = Marking j x"
    and "ord j \<noteq> lastCompletedJobOrder p + 1"
  shows "pl_workers q ! w = Marking j x \<and> pool_event ord save ex CloseErrs q = None"
  using assms
proof (induction evs arbitrary: p cs)
  case Nil
  then show ?case by (auto simp: pool_event_def dest: list_all_nth)
next
  case (Cons ev evs)
  from Cons.prems(1) obtain p1 cs1 cs2 where ev: "pool_event ord save ex ev p = Some (p1, cs1)"
    and run: "pool_run ord save ex evs p1 = Some (q, cs2)"
    by (rule pool_run_Cons)
  from ev Cons.prems(2-5) have "pl_failed p1 \<and> w < length (pl_workers p1) \<and>
      pl_workers p1 ! w = Marking j x \<and> ord j \<noteq> lastCompletedJobOrder p1 + 1"
    by (cases rule: pool_event_elim) (auto simp: nth_list_update)
  with Cons.IH [OF run] show ?case by blast
qed

section \<open>A pool of two workers\<close>

text \<open>
  Two jobs; the second finishes first and waits for its turn. The storage is the list of the blocks
  saved; \<open>sample_update\<close> rejects block 13.
\<close>

definition sample_update :: "nat \<Rightarrow> unit option \<Rightarrow> nat list \<Rightarrow> nat list \<times> go_err option" where
  "sample_update b r st = (if b = 13 then (st, Some (Err ''no db'')) else (b # st, None))"

definition sample_rate_job :: "nat \<Rightarrow> nat \<Rightarrow> rate_job" where
  "sample_rate_job n b = \<lparr> rj_order = n, rj_block = b \<rparr>"

definition sample_ok :: "nat \<Rightarrow> unit option \<times> go_err option" where
  "sample_ok i = (if i = 0 then (None, Some (Err ''timeout'')) else (Some (), None))"

definition sample_fail :: "nat \<Rightarrow> unit option \<times> go_err option" where
  "sample_fail i = (None, Some (Err ''timeout''))"

definition sample_start :: "nat \<Rightarrow> (rate_job, unit) pool_event list" where
  "sample_start b = [Run 0 (sample_rate_job 1 b), Run 1 (sample_rate_job 2 20)]"

definition sample_good :: "(rate_job, unit) pool_event list" where
  "sample_good = sample_start 10 @
     [Executed 1 sample_ok, SaveTurn 1, Executed 0 sample_ok, SaveTurn 0, SaveTurn 1]"

definition sample_save_fails :: "(rate_job, unit) pool_event list" where
  "sample_save_fails = sample_start 13 @
     [Executed 1 sample_ok, Executed 0 sample_ok, SaveTurn 0, SaveTurn 1, MarkTurn 0]"

definition sample_both_fail :: "(rate_job, unit) pool_event list" where
  "sample_both_fail = sample_start 10 @
     [Executed 1 sample_fail, SendErr 1, Executed 0 sample_fail, SendErr 0, MarkTurn 1, MarkTurn 0]"

lemmas sample_pool_defs = sample_update_def sample_rate_job_def sample_ok_def sample_fail_def
  sample_start_def sample_good_def sample_save_fails_def sample_both_fail_def rate_pool_run_def
  retry_rates_def pool_event_def serialSave_turn_def markAsFailed_turn_def set_worker_def
  send_err_def NewPool_def numeral_2_eq_2

lemma sample_good_run:
  "rate_pool_run sample_update 2 sample_good (NewPool 2 []) =
     Some (\<lparr> pl_workers = [Waiting, Waiting], pl_errCh = [], pl_errCap = 2, pl_jobsClosed = False,
             pl_errClosed = False, lastCompletedJobOrder = 2, pl_failed = False,
             pl_storage = [20, 10] \<rparr>,
           [(sample_rate_job 1 10, Some (), None), (sample_rate_job 2 20, Some (), None)])"
  by (simp add: sample_pool_defs)

lemma sample_save_fails_run:
  "rate_pool_run sample_update 2 sample_save_fails (NewPool 2 []) =
     Some (\<lparr> pl_workers = [Leaving (Err ''no db''), Saving (sample_rate_job 2 20) (Some ())],
             pl_errCh = [], pl_errCap = 2, pl_jobsClosed = False, pl_errClosed = False,
             lastCompletedJobOrder = 0, pl_failed = True, pl_storage = [] \<rparr>,
           [(sample_rate_job 1 13, Some (), Some (Err ''no db''))])"
  by (simp add: sample_pool_defs)

lemma sample_both_fail_run:
  "rate_pool_run sample_update 2 sample_both_fail (NewPool 2 []) =
     Some (\<lparr> pl_workers = [Stopped, Marking (sample_rate_job 2 20) None],
             pl_errCh = [Err ''timeout'', Err ''timeout''], pl_errCap = 2, pl_jobsClosed = False,
             pl_errClosed = False, lastCompletedJobOrder = 0, pl_failed = True, pl_storage = [] \<rparr>, [])"
  by (simp add: sample_pool_defs)

lemma sample_submitted: "submitted rj_order sample_good = [1, 2]"
  by (simp add: sample_good_def sample_start_def sample_rate_job_def)

theorem pool_saves_in_order_witness:
  "\<exists>p cs. rate_pool_run sample_update 2 sample_good (NewPool 2 []) = Some (p, cs) \<and>
     lastCompletedJobOrder p = 2 \<and> pl_storage p = apply_calls (\<lambda>j. sample_update (rj_block j)) cs []"
  using pool_saves_in_order [OF sample_good_run [unfolded rate_pool_run_def]] sample_good_run
  by (simp add: sample_submitted)

theorem pool_failed_saves_nothing_witness:
  "\<exists>p q cs. rate_pool_run sample_update 2 sample_save_fails (NewPool 2 []) = Some (p, cs) \<and>
     rate_pool_run sample_update 2 [SaveTurn 1, SendErr 1, SendErr 0] p = Some (q, []) \<and>
     pl_storage q = pl_storage p"
proof -
  obtain p cs where p: "rate_pool_run sample_update 2 sample_save_fails (NewPool 2 []) = Some (p, cs)"
      "pl_failed p" "pl_workers p = [Leaving (Err ''no db''), Saving (sample_rate_job 2 20) (Some ())]"
      "pl_errCh p = []" "pl_errCap p = 2" "\<not> pl_errClosed p"
    using sample_save_fails_run by auto
  then obtain q ds where q: "rate_pool_run sample_update 2 [SaveTurn 1, SendErr 1, SendErr 0] p = Some (q, ds)"
    by (simp add: sample_pool_defs)
  from p(1) q pool_failed_saves_nothing [OF q [unfolded rate_pool_run_def] p(2)] show ?thesis by auto
qed

theorem pool_errCh_never_blocks_witness:
  "\<exists>p cs. rate_pool_run sample_update 2 sample_save_fails (NewPool 2 []) = Some (p, cs) \<and>
     pool_event rj_order (\<lambda>j. sample_update (rj_block j)) (\<lambda>fn. retry_rates fn 2) (SendErr 0) p \<noteq> None"
  using pool_errCh_never_blocks [OF sample_save_fails_run [unfolded rate_pool_run_def], of 0]
    sample_save_fails_run
  by simp

theorem pool_next_job_moves_witness:
  "\<exists>p. rate_pool_run sample_update 2 (sample_start 10) (NewPool 2 []) = Some (p, []) \<and>
     (\<exists>w<2. worker_order rj_order (pl_workers p ! w) = Some 1)"
proof -
  have run: "rate_pool_run sample_update 2 (sample_start 10) (NewPool 2 []) =
      Some ((NewPool 2 [])\<lparr> pl_workers := [Executing (sample_rate_job 1 10),
              Executing (sample_rate_job 2 20)] \<rparr>, [])"
    by (simp add: sample_pool_defs)
  show ?thesis
    using pool_next_job_moves [OF run [unfolded rate_pool_run_def], of 2] run
    by (fastforce simp: sample_start_def sample_rate_job_def numeral_2_eq_2)
qed

theorem pool_second_failure_hangs_witness:
  "\<exists>p cs. rate_pool_run sample_update 2 sample_both_fail (NewPool 2 []) = Some (p, cs) \<and>
     (\<forall>evs q ds. rate_pool_run sample_update 2 evs p = Some (q, ds) \<longrightarrow>
        pl_workers q ! 1 = Marking (sample_rate_job 2 20) None)"
proof -
  obtain p cs where p: "rate_pool_run sample_update 2 sample_both_fail (NewPool 2 []) = Some (p, cs)"
      "pl_failed p" "pl_workers p = [Stopped, Marking (sample_rate_job 2 20) None]"
      "lastCompletedJobOrder p = 0"
    using sample_both_fail_run by auto
  have "pl_workers q ! 1 = Marking (sample_rate_job 2 20) None"
    if "rate_pool_run sample_update 2 evs p = Some (q, ds)" for evs q ds
    using pool_second_failure_hangs [OF that [unfolded rate_pool_run_def] p(2), of 1
        "sample_rate_job 2 20" None] p(3,4)
    by (simp add: sample_rate_job_def)
  with p(1) show ?thesis by blast
qed

text \<open>
  \<open>execute\<close> makes its attempts one after the other and returns the result of the first that
  succeeds, without an error and without a further attempt.
\<close>

theorem execute_first_success:
  assumes "\<forall>i<n. snd (fn i) \<noteq> None" "n < attempts" "fn n = (r, None)"
  shows "retry_trades fn attempts = (r, None) \<and> retry_rates fn attempts = (r, None)"
  using retry_from_first_success [of n fn 0 attempts r "(None, None)"] assms
  by (simp add: retry_trades_def retry_rates_def)

theorem execute_first_success_witness:
  "retry_trades sample_ok 2 = (Some (), None) \<and> retry_rates sample_ok 2 = (Some (), None)"
  by (rule execute_first_success [of 1]) (simp_all add: sample_ok_def)

end
