(* ===== verification/CrawlPlanner.thy ===== *)
theory CrawlPlanner
  imports WorkerPoolProps TradeProps
begin

text \<open>
  Which blocks are fetched: \<open>crawlPlanner.next\<close> of the trade logs crawler, the loop of its \<open>main.go\<close>
  that cuts a range into jobs for the worker pool, and the rounds of the reserve rates crawler. The
  Ethereum node and the storage are parameters: what each call of \<open>HeaderByNumber\<close> returns, and
  what \<open>LastBlock\<close> returns.
\<close>

section \<open>crawlPlanner\<close>

record planner =
  pn_fromBlock :: "int option"
  pn_toBlock :: "int option"
  pn_confirmations :: int
  pn_completed :: bool

definition defaultFromBlock :: int where "defaultFromBlock = 5069586"

definition errEOF :: go_err where "errEOF = Err ''no more planned blocks''"

text \<open>
  The loop that waits until a block has enough confirmations: \<open>header k\<close> is the result of the
  \<open>k\<close>-th poll of the node. \<open>None\<close> is a loop that never ends.
\<close>

partial_function (option) wait_confirmed ::
  "(nat \<Rightarrow> int go) \<Rightarrow> int \<Rightarrow> int \<Rightarrow> nat \<Rightarrow> int go option" where
  "wait_confirmed header from conf k =
     (case header k of
        Inl e \<Rightarrow> Some (Inl e)
      | Inr number \<Rightarrow>
          if from < number - conf then Some (Inr (number - conf))
          else wait_confirmed header from conf (Suc k))"

definition default_from :: "int go \<Rightarrow> int option \<Rightarrow> int go" where
  "default_from lastBlock f =
     (case f of Some b \<Rightarrow> Inr b
      | None \<Rightarrow> go_bind lastBlock (\<lambda>l. Inr (if l = 0 then defaultFromBlock else l)))"

definition planner_next :: "int go \<Rightarrow> (nat \<Rightarrow> int go) \<Rightarrow> planner \<Rightarrow> (planner \<times> (int \<times> int) go) option" where
  "planner_next lastBlock header p =
     (if pn_completed p then Some (p, Inl errEOF)
      else case default_from lastBlock (pn_fromBlock p) of
        Inl e \<Rightarrow> Some (p, Inl e)
      | Inr from \<Rightarrow>
          let p = p\<lparr> pn_fromBlock := Some from \<rparr> in
          (case pn_toBlock p of
             Some to \<Rightarrow>
               if from > to then Some (p, Inl (Err ''fromBlock is bigger than toBlock''))
               else Some (p\<lparr> pn_completed := True \<rparr>, Inr (from, to))
           | None \<Rightarrow>
               (case wait_confirmed header from (pn_confirmations p) 0 of
                  None \<Rightarrow> None
                | Some (Inl e) \<Rightarrow> Some (p, Inl e)
                | Some (Inr dst) \<Rightarrow> Some (p\<lparr> pn_fromBlock := Some dst \<rparr>, Inr (from, dst)))))"

text \<open>
  The rounds of \<open>run\<close>, as far as the planner is concerned: one element of the list per call of
  \<open>next\<close>, with what the node answers during it. An error ends the program.
\<close>

fun planner_rounds :: "int go \<Rightarrow> (nat \<Rightarrow> int go) list \<Rightarrow> planner \<Rightarrow> (int \<times> int) list" where
  "planner_rounds lastBlock [] p = []"
| "planner_rounds lastBlock (h # hs) p =
     (case planner_next lastBlock h p of
        Some (q, Inr r) \<Rightarrow> r # planner_rounds lastBlock hs q
      | _ \<Rightarrow> [])"

section \<open>Cutting a range into jobs\<close>

record starting_blocks =
  sb_V4 :: nat
  sb_V3 :: nat
  sb_V2 :: nat

datatype Deployment = Production | Staging | Ropsten

fun StartingBlocks :: "Deployment \<Rightarrow> starting_blocks" where
  "StartingBlocks Staging = \<lparr> sb_V4 = 10378366, sb_V3 = 6997111, sb_V2 = 5864036 \<rparr>"
| "StartingBlocks Production = \<lparr> sb_V4 = 10404483, sb_V3 = 7019038, sb_V2 = 5925999 \<rparr>"
| "StartingBlocks Ropsten = \<lparr> sb_V4 = 8111008, sb_V3 = 6899992, sb_V2 = 6899991 \<rparr>"

definition trade_job_of :: "nat \<Rightarrow> int \<Rightarrow> int \<Rightarrow> trade_job" where
  "trade_job_of n a b = \<lparr> tj_order = n, tj_from = a, tj_to = b \<rparr>"

definition jobs_at :: "starting_blocks \<Rightarrow> int \<Rightarrow> int \<Rightarrow> nat \<Rightarrow> trade_job list" where
  "jobs_at sb i end n =
     (if u64 end \<ge> sb_V4 sb \<and> u64 i < sb_V4 sb then
        [trade_job_of (n + 1) i (i64 (int (sb_V4 sb))), trade_job_of (n + 2) (i64 (int (sb_V4 sb))) end]
      else if u64 end \<ge> sb_V3 sb \<and> u64 i < sb_V3 sb then
        [trade_job_of (n + 1) i (i64 (int (sb_V3 sb))), trade_job_of (n + 2) (i64 (int (sb_V3 sb))) end]
      else if u64 end \<ge> sb_V2 sb \<and> u64 i < sb_V2 sb then
        [trade_job_of (n + 1) i (i64 (int (sb_V2 sb))), trade_job_of (n + 2) (i64 (int (sb_V2 sb))) end]
      else [trade_job_of (n + 1) i end])"

text \<open>\<open>for i := fromBlock; i <= toBlock; i += maxBlocks\<close>; \<open>n\<close> is \<open>jobOrder\<close>.\<close>

partial_function (option) plan_from ::
  "starting_blocks \<Rightarrow> int \<Rightarrow> int \<Rightarrow> int \<Rightarrow> nat \<Rightarrow> trade_job list option" where
  "plan_from sb maxBlocks to i n =
     (if i \<le> to then
        (let end = MinInt64 (i64 (i + maxBlocks)) to; js = jobs_at sb i end n in
           Option.bind (plan_from sb maxBlocks to (i64 (i + maxBlocks)) (n + length js))
             (\<lambda>rest. Some (js @ rest)))
      else Some [])"

definition plan_jobs :: "starting_blocks \<Rightarrow> int \<Rightarrow> int \<Rightarrow> int \<Rightarrow> trade_job list option" where
  "plan_jobs sb maxBlocks fromBlock toBlock = plan_from sb maxBlocks toBlock fromBlock 0"

text \<open>
  The quotient is a \<open>float64\<close> in the code; it is the exact quotient here, which has the same
  ceiling for the numbers of blocks of a chain (below \<open>2 ^ 52\<close>). \<open>maxBlocks\<close> is not zero.
\<close>

definition requiredWorkers :: "int \<Rightarrow> int \<Rightarrow> int \<Rightarrow> int \<Rightarrow> int" where
  "requiredWorkers fromBlock toBlock maxBlocks maxWorkers =
     (let jobs = \<lceil>(of_int (toBlock - fromBlock + 1) :: rat) / of_int maxBlocks\<rceil> in
        if jobs < maxWorkers then jobs else maxWorkers)"

section \<open>The reserve rates crawler\<close>

text \<open>
  The range of a round: \<open>head\<close> is the number of the latest block, \<open>lastBlock\<close> what the storage
  returns. In daemon mode both ends are reset to nil after a round.
\<close>

definition rate_range :: "int go \<Rightarrow> int go \<Rightarrow> int option \<Rightarrow> int option \<Rightarrow> (int \<times> int) go" where
  "rate_range head lastBlock fromBlock toBlock =
     go_bind head (\<lambda>h.
     go_bind (case fromBlock of
                Some b \<Rightarrow> Inr b
              | None \<Rightarrow> go_bind lastBlock (\<lambda>l. Inr (if l \<noteq> 0 then l else h))) (\<lambda>f.
     Inr (f, case toBlock of Some t \<Rightarrow> t | None \<Rightarrow> h + 1)))"

fun rate_jobs_from :: "int \<Rightarrow> nat \<Rightarrow> nat \<Rightarrow> rate_job list" where
  "rate_jobs_from block n 0 = []"
| "rate_jobs_from block n (Suc k) =
     \<lparr> rj_order = n + 1, rj_block = u64 block \<rparr> # rate_jobs_from (block + 1) (n + 1) k"

definition rate_jobs :: "int \<Rightarrow> int \<Rightarrow> rate_job list" where
  "rate_jobs fromBlock toBlock = rate_jobs_from fromBlock 0 (nat (toBlock - fromBlock))"

section \<open>Facts\<close>

lemma wait_confirmed_Inr:
  assumes "wait_confirmed header from conf k = Some (Inr dst)"
  shows "from < dst \<and> (\<exists>j\<ge>k. \<exists>number. header j = Inr number \<and> dst = number - conf)"
proof -
  have "\<forall>dst. r = Inr dst \<longrightarrow>
      from < dst \<and> (\<exists>j\<ge>k. \<exists>number. header j = Inr number \<and> dst = number - conf)"
    if "wait_confirmed header from conf k = Some r" for r
  proof (rule wait_confirmed.raw_induct [OF _ that])
    fix wait and header :: "nat \<Rightarrow> int go" and b conf :: int and k :: nat and r
    assume IH: "\<And>h b c k r. wait h b c k = Some r \<Longrightarrow> \<forall>dst. r = Inr dst \<longrightarrow>
        b < dst \<and> (\<exists>j\<ge>k. \<exists>number. h j = Inr number \<and> dst = number - c)"
      and body: "(case header k of Inl e \<Rightarrow> Some (Inl e)
        | Inr number \<Rightarrow> if b < number - conf then Some (Inr (number - conf))
            else wait header b conf (Suc k)) = Some r"
    show "\<forall>dst. r = Inr dst \<longrightarrow>
        b < dst \<and> (\<exists>j\<ge>k. \<exists>number. header j = Inr number \<and> dst = number - conf)"
    proof (cases "\<exists>number. header k = Inr number \<and> b \<ge> number - conf")
      case True
      with body have "wait header b conf (Suc k) = Some r" by (auto split: if_splits)
      note step = IH [OF this]
      show ?thesis
      proof (intro allI impI)
        fix dst
        assume "r = Inr dst"
        with step obtain j number where "b < dst" "Suc k \<le> j" "header j = Inr number"
            "dst = number - conf" by blast
        then show "b < dst \<and> (\<exists>j\<ge>k. \<exists>number. header j = Inr number \<and> dst = number - conf)"
          by (blast dest: Suc_leD)
      qed
    next
      case False
      with body show ?thesis by (auto split: sum.splits)
    qed
  qed
  with assms show ?thesis by blast
qed

lemma wait_confirmed_first:
  assumes "\<forall>j<k. \<exists>number. header (m + j) = Inr number \<and> number - conf \<le> from"
    and "header (m + k) = Inr number" "from < number - conf"
  shows "wait_confirmed header from conf m = Some (Inr (number - conf))"
  using assms
proof (induction k arbitrary: m)
  case 0
  then show ?case by (subst wait_confirmed.simps) simp
next
  case (Suc k)
  from Suc.prems(1) obtain n0 where "header m = Inr n0" "n0 - conf \<le> from" by force
  moreover have "wait_confirmed header from conf (Suc m) = Some (Inr (number - conf))"
  proof (rule Suc.IH)
    show "\<forall>j<k. \<exists>number. header (Suc m + j) = Inr number \<and> number - conf \<le> from"
      using Suc.prems(1) by (metis Suc_mono add_Suc_shift)
  qed (use Suc.prems in simp_all)
  ultimately show ?case by (subst wait_confirmed.simps) simp
qed

text \<open>The jobs follow one another from \<open>a\<close> to \<open>b\<close>, each starting at the block where the last one ends.\<close>

fun job_chain :: "int \<Rightarrow> trade_job list \<Rightarrow> int \<Rightarrow> bool" where
  "job_chain a [] b \<longleftrightarrow> a = b"
| "job_chain a (j # js) b \<longleftrightarrow> tj_from j = a \<and> job_chain (tj_to j) js b"

lemma job_chain_append: "job_chain a xs b \<Longrightarrow> job_chain b ys c \<Longrightarrow> job_chain a (xs @ ys) c"
  by (induction xs arbitrary: a) auto

definition sb_ok :: "starting_blocks \<Rightarrow> int \<Rightarrow> bool" where
  "sb_ok sb maxBlocks \<longleftrightarrow> sb_V2 sb \<le> sb_V3 sb \<and> sb_V3 sb \<le> sb_V4 sb \<and> int (sb_V4 sb) < 2 ^ 63 \<and> 0 < maxBlocks"

lemma sb_ok_deployments: "sb_ok (StartingBlocks d) maxBlocks \<longleftrightarrow> 0 < maxBlocks"
  by (cases d) (simp_all add: sb_ok_def)

text \<open>The version of the contracts at a block.\<close>

definition block_version :: "starting_blocks \<Rightarrow> int \<Rightarrow> nat" where
  "block_version sb x = (if int (sb_V4 sb) \<le> x then 4 else if int (sb_V3 sb) \<le> x then 3
     else if int (sb_V2 sb) \<le> x then 2 else 1)"

definition fetched_as :: "starting_blocks \<Rightarrow> trade_job \<Rightarrow> int \<Rightarrow> bool" where
  "fetched_as sb j x \<longleftrightarrow> tj_from j \<le> x \<and> x \<le> tj_to j \<and>
     block_version sb (tj_from j) = block_version sb x \<and> tj_from j \<le> tj_to j"

text \<open>
  A job is cut at one starting block only. Where a second one lies before it in the same job, the blocks
  between the two are in a job that starts before both.
\<close>

definition two_starts :: "starting_blocks \<Rightarrow> trade_job \<Rightarrow> int \<Rightarrow> bool" where
  "two_starts sb j x \<longleftrightarrow>
     (\<exists>(b, c)\<in>{(sb_V2 sb, sb_V3 sb), (sb_V3 sb, sb_V4 sb), (sb_V2 sb, sb_V4 sb)}.
        tj_from j < int b \<and> int b \<le> x \<and> x < int c \<and> tj_to j = int c)"

definition covers :: "starting_blocks \<Rightarrow> trade_job \<Rightarrow> int \<Rightarrow> bool" where
  "covers sb j x \<longleftrightarrow> tj_from j \<le> x \<and> x \<le> tj_to j \<and> (fetched_as sb j x \<or> two_starts sb j x)"

lemma jobs_at_spec:
  assumes sb: "sb_ok sb maxBlocks" and i: "0 \<le> i" "i \<le> end" "end \<le> i + maxBlocks" "end < 2 ^ 63"
  shows "map tj_order (jobs_at sb i end n) = [n + 1..<n + 1 + length (jobs_at sb i end n)] \<and>
    jobs_at sb i end n \<noteq> [] \<and> job_chain i (jobs_at sb i end n) end \<and>
    (\<forall>j\<in>set (jobs_at sb i end n). i \<le> tj_from j \<and> tj_from j \<le> tj_to j \<and> tj_to j \<le> end) \<and>
    (\<forall>x. i \<le> x \<and> x \<le> end \<longrightarrow> (\<exists>j\<in>set (jobs_at sb i end n). covers sb j x))"
proof -
  have u: "int (u64 i) = i" "int (u64 end) = end" using i by (simp_all add: u64_id)
  have v: "i64 (int (sb_V4 sb)) = int (sb_V4 sb)" "i64 (int (sb_V3 sb)) = int (sb_V3 sb)"
    "i64 (int (sb_V2 sb)) = int (sb_V2 sb)"
    using sb by (auto simp: sb_ok_def intro!: i64_id)
  have cmp: "(v \<le> u64 end) = (int v \<le> end)" "(u64 i < v) = (i < int v)" for v
    using u by (metis of_nat_le_iff, metis of_nat_less_iff)
  show ?thesis
    using sb i
    by (auto simp: jobs_at_def cmp v trade_job_of_def covers_def fetched_as_def two_starts_def
        block_version_def sb_ok_def)
qed

lemma plan_from_spec:
  assumes "sb_ok sb maxBlocks" "0 \<le> i" "to + maxBlocks < 2 ^ 63"
  shows "\<exists>js. plan_from sb maxBlocks to i n = Some js \<and>
    map tj_order js = [n + 1..<n + 1 + length js] \<and> (to < i \<longrightarrow> js = []) \<and>
    (i \<le> to \<longrightarrow> js \<noteq> [] \<and> job_chain i js to) \<and>
    (\<forall>j\<in>set js. tj_from j \<le> tj_to j \<and> tj_to j \<le> tj_from j + maxBlocks) \<and>
    (\<forall>x. i \<le> x \<and> x \<le> to \<longrightarrow> (\<exists>j\<in>set js. covers sb j x)) \<and>
    to - i + 1 \<le> maxBlocks * int (length js)"
  using assms
proof (induction "nat (to - i + 1)" arbitrary: i n rule: less_induct)
  case less
  show ?case
  proof (cases "i \<le> to")
    case False
    then show ?thesis by (subst plan_from.simps) simp
  next
    case True
    have mb: "0 < maxBlocks" using less.prems by (simp add: sb_ok_def)
    let ?i = "i + maxBlocks" and ?stop = "min (i + maxBlocks) to"
    have i64: "i64 ?i = ?i" using less.prems True mb by (intro i64_id) auto
    have fin: "MinInt64 ?i to = ?stop" by (auto simp: MinInt64_def)
    let ?js = "jobs_at sb i ?stop n"
    have A: "map tj_order ?js = [n + 1..<n + 1 + length ?js]" "?js \<noteq> []" "job_chain i ?js ?stop"
      "\<forall>j\<in>set ?js. i \<le> tj_from j \<and> tj_from j \<le> tj_to j \<and> tj_to j \<le> ?stop"
      "\<forall>x. i \<le> x \<and> x \<le> ?stop \<longrightarrow> (\<exists>j\<in>set ?js. covers sb j x)"
      using jobs_at_spec [OF less.prems(1,2), of ?stop n] True less.prems mb by auto
    have "nat (to - ?i + 1) < nat (to - i + 1)" using True mb by simp
    from less.hyps [OF this less.prems(1) _ less.prems(3), of "n + length ?js"] less.prems(2) mb
    obtain ks where B: "plan_from sb maxBlocks to ?i (n + length ?js) = Some ks"
      "map tj_order ks = [n + length ?js + 1..<n + length ?js + 1 + length ks]"
      "to < ?i \<longrightarrow> ks = []" "?i \<le> to \<longrightarrow> ks \<noteq> [] \<and> job_chain ?i ks to"
      "\<forall>j\<in>set ks. tj_from j \<le> tj_to j \<and> tj_to j \<le> tj_from j + maxBlocks"
      "\<forall>x. ?i \<le> x \<and> x \<le> to \<longrightarrow> (\<exists>j\<in>set ks. covers sb j x)"
      "to - ?i + 1 \<le> maxBlocks * int (length ks)" by auto
    have plan: "plan_from sb maxBlocks to i n = Some (?js @ ks)"
      using True B(1) by (subst plan_from.simps) (simp add: i64 fin Let_def)
    have order: "map tj_order (?js @ ks) = [n + 1..<n + 1 + length (?js @ ks)]"
      using A(1) B(2) upt_add_eq_append [of "n + 1" "n + 1 + length ?js" "length ks"]
      by (simp add: add.assoc add.commute add.left_commute del: upt_Suc)
    have chain: "job_chain i (?js @ ks) to"
    proof (cases "?i \<le> to")
      case True
      with A(3) B(4) show ?thesis by (auto intro: job_chain_append)
    next
      case False
      with A(3) B(3) show ?thesis by simp
    qed
    have size: "\<forall>j\<in>set (?js @ ks). tj_from j \<le> tj_to j \<and> tj_to j \<le> tj_from j + maxBlocks"
      using A(4) B(5) by force
    have cover: "\<exists>j\<in>set (?js @ ks). covers sb j x" if "i \<le> x" "x \<le> to" for x
    proof (cases "x \<le> ?stop")
      case True
      with A(5) that(1) show ?thesis by auto
    next
      case False
      with that(2) have "?i \<le> x" by auto
      with B(6) that(2) show ?thesis by auto
    qed
    have "maxBlocks * 1 \<le> maxBlocks * int (length ?js)"
      using A(2) mb by (intro mult_left_mono) (auto simp: Suc_le_eq)
    then have "to - i + 1 \<le> maxBlocks * int (length (?js @ ks))"
      using B(7) by (simp add: distrib_left)
    with plan order chain size cover A(2) True show ?thesis
      by (intro exI [of _ "?js @ ks"] conjI) simp_all
  qed
qed


section \<open>Properties\<close>

text \<open>
  Without a configured end, successive calls of \<open>next\<close> return adjacent ranges: each is non-empty and
  starts at the block where the previous one ended, the first at the configured block, or at the last
  block stored, or at \<open>defaultFromBlock\<close>; and a range never ends later than \<open>confirmations\<close> blocks
  before a head that the node reported.
\<close>

theorem planner_ranges_adjacent:
  assumes "pn_toBlock p = None" "\<not> pn_completed p"
    and "default_from lastBlock (pn_fromBlock p) = Inr start"
    and "ranges = planner_rounds lastBlock headers p"
  shows "(\<forall>k < length ranges. fst (ranges ! k) < snd (ranges ! k) \<and>
      fst (ranges ! k) = (if k = 0 then start else snd (ranges ! (k - 1))) \<and>
      (\<exists>j number. (headers ! k) j = Inr number \<and> snd (ranges ! k) = number - pn_confirmations p))"
  using assms
proof (induction headers arbitrary: p start ranges)
  case Nil
  then show ?case by simp
next
  case (Cons h hs)
  show ?case
  proof (cases "wait_confirmed h start (pn_confirmations p) 0")
    case None
    with Cons.prems show ?thesis by (simp add: planner_next_def Let_def)
  next
    case (Some x)
    show ?thesis
    proof (cases x)
      case (Inl e)
      with Some Cons.prems show ?thesis by (simp add: planner_next_def Let_def)
    next
      case (Inr dst)
      let ?q = "p\<lparr> pn_fromBlock := Some dst \<rparr>"
      have r: "ranges = (start, dst) # planner_rounds lastBlock hs ?q"
        using Some Inr Cons.prems by (simp add: planner_next_def Let_def)
      note IH = Cons.IH [of ?q dst "planner_rounds lastBlock hs ?q"]
      have dst: "start < dst" "\<exists>j number. h j = Inr number \<and> dst = number - pn_confirmations p"
        using wait_confirmed_Inr Some Inr by blast+
      show ?thesis
      proof (intro allI impI)
        fix k
        assume k: "k < length ranges"
        show "fst (ranges ! k) < snd (ranges ! k) \<and>
          fst (ranges ! k) = (if k = 0 then start else snd (ranges ! (k - 1))) \<and>
          (\<exists>j number. ((h # hs) ! k) j = Inr number \<and>
             snd (ranges ! k) = number - pn_confirmations p)"
          using IH Cons.prems(1,2) dst k
          by (cases k) (auto simp: r default_from_def nth_Cons split: nat.splits)
      qed
    qed
  qed
qed

text \<open>
  With a configured end there is exactly one range, the configured one, whatever the node and
  however often \<open>next\<close> is called; if the start is after the end there is none.
\<close>

theorem planner_bounded_once:
  assumes "pn_toBlock p = Some to" "\<not> pn_completed p"
    and "default_from lastBlock (pn_fromBlock p) = Inr start" "headers \<noteq> []"
  shows "planner_rounds lastBlock headers p = (if start \<le> to then [(start, to)] else [])"
  using assms
  by (cases headers; cases "tl headers") (auto simp: planner_next_def Let_def)

text \<open>
  C18: The jobs cut from a range exist (the loop ends), are numbered 1, 2, ... without a gap, follow
  one another from \<open>fromBlock\<close> to \<open>toBlock\<close>, and none spans more than \<open>maxBlocks\<close> blocks beyond its
  first one; each job starts with the very block the one before it ends with. The pool never gets
  more workers than jobs, and gets at least one if \<open>maxWorkers\<close> is at least one.
\<close>

theorem plan_jobs_chain:
  assumes "sb_ok sb maxBlocks" "0 \<le> fromBlock" "fromBlock \<le> toBlock"
    and "toBlock + maxBlocks < 2 ^ 63" "1 \<le> maxWorkers"
  shows "\<exists>js. plan_jobs sb maxBlocks fromBlock toBlock = Some js \<and> js \<noteq> [] \<and>
    map tj_order js = [1..<Suc (length js)] \<and> job_chain fromBlock js toBlock \<and>
    (\<forall>j\<in>set js. tj_from j \<le> tj_to j \<and> tj_to j \<le> tj_from j + maxBlocks) \<and>
    1 \<le> requiredWorkers fromBlock toBlock maxBlocks maxWorkers \<and>
    requiredWorkers fromBlock toBlock maxBlocks maxWorkers \<le> int (length js)"
proof -
  from plan_from_spec [OF assms(1,2,4), of 0] assms(3) obtain js where
    js: "plan_from sb maxBlocks toBlock fromBlock 0 = Some js" "map tj_order js = [1..<Suc (length js)]"
      "js \<noteq> []" "job_chain fromBlock js toBlock"
      "\<forall>j\<in>set js. tj_from j \<le> tj_to j \<and> tj_to j \<le> tj_from j + maxBlocks"
    and len: "toBlock - fromBlock + 1 \<le> maxBlocks * int (length js)"
    by auto
  have mb: "0 < maxBlocks" using assms(1) by (simp add: sb_ok_def)
  let ?q = "(of_int (toBlock - fromBlock + 1) :: rat) / of_int maxBlocks"
  have "(of_int (toBlock - fromBlock + 1) :: rat) \<le> of_int (maxBlocks * int (length js))"
    using len by (simp only: of_int_le_iff)
  then have "?q \<le> of_int (int (length js))"
    using mb by (simp add: divide_le_eq mult.commute)
  then have "\<lceil>?q\<rceil> \<le> int (length js)" by (simp only: ceiling_le_iff)
  moreover have "0 < ?q" using assms(3) mb by (intro divide_pos_pos) (simp_all only: of_int_0_less_iff)
  then have "1 \<le> \<lceil>?q\<rceil>" by (simp add: less_ceiling_iff [symmetric] add1_zle_eq)
  ultimately show ?thesis
    using js assms(5) by (auto simp: plan_jobs_def requiredWorkers_def Let_def)
qed

section \<open>Planner, jobs and crawler together\<close>

lemma fetchFn_block_version:
  assumes "0 \<le> a" "a \<le> b" "b < 2 ^ 63"
    and "sb = \<lparr> sb_V4 = cw_startV4 C, sb_V3 = cw_startV3 C, sb_V2 = cw_startV2 C \<rparr>"
  shows "fetchFn C a b =
    (if block_version sb a = 4 then fetchTradeLogV4 C else if block_version sb a = 3 then fetchTradeLogV3 C
     else if block_version sb a = 2 then fetchTradeLogV2 C else fetchTradeLogV1 C)"
proof -
  have "int (u64 a) = a" "int (u64 b) = b" using assms by (simp_all add: u64_id)
  then have "(v \<le> u64 a) = (int v \<le> a)" "(v \<le> u64 b) = (int v \<le> b)" for v
    by (metis of_nat_le_iff)+
  with assms(2,4) show ?thesis by (simp add: fetchFn_def block_version_def)
qed

lemma job_chain_span:
  "job_chain a ks b \<Longrightarrow> \<forall>j\<in>set ks. tj_from j \<le> tj_to j \<Longrightarrow>
     a \<le> b \<and> (\<forall>j\<in>set ks. a \<le> tj_from j \<and> tj_to j \<le> b)"
  by (induction a ks b rule: job_chain.induct) force+

text \<open>
  The job of a block, for any starting blocks in order: the fetch function of the job is the one of the
  block, or the job began before a second starting block.
\<close>

lemma plan_jobs_version:
  assumes "sb = \<lparr> sb_V4 = cw_startV4 C, sb_V3 = cw_startV3 C, sb_V2 = cw_startV2 C \<rparr>"
    and "sb_ok sb maxBlocks" "0 \<le> fromBlock" "toBlock + maxBlocks < 2 ^ 63"
    and "plan_jobs sb maxBlocks fromBlock toBlock = Some js"
    and "fromBlock \<le> x" "x \<le> toBlock"
  obtains j where "j \<in> set js" "tj_from j \<le> x" "x \<le> tj_to j" "tj_to j \<le> tj_from j + maxBlocks"
    "0 \<le> tj_from j" "tj_to j < 2 ^ 63"
    "fetchFn C (tj_from j) (tj_to j) = fetchFn C x x \<or> two_starts sb j x"
proof -
  from plan_from_spec [OF assms(2-4), of 0] assms(5-7) have
    js: "\<forall>x. fromBlock \<le> x \<and> x \<le> toBlock \<longrightarrow> (\<exists>j\<in>set js. covers sb j x)"
    and size: "\<forall>j\<in>set js. tj_from j \<le> tj_to j \<and> tj_to j \<le> tj_from j + maxBlocks"
    and chain: "job_chain fromBlock js toBlock"
    by (auto simp: plan_jobs_def)
  have mb: "0 < maxBlocks" using assms(2) by (simp add: sb_ok_def)
  from js assms(6,7) obtain j where j: "j \<in> set js" "covers sb j x" by blast
  have span: "fromBlock \<le> tj_from j" "tj_to j \<le> toBlock"
    using job_chain_span [OF chain] size j(1) by blast+
  have "fetchFn C (tj_from j) (tj_to j) = fetchFn C x x" if "fetched_as sb j x"
    using fetchFn_block_version [OF _ _ _ assms(1), of "tj_from j" "tj_to j"]
      fetchFn_block_version [OF _ _ _ assms(1), of x x] that span assms(3,4,6,7) mb
    by (simp add: fetched_as_def)
  with j size span assms(3,4) mb show thesis by (intro that [of j]) (auto simp: covers_def)
qed

text \<open>The versions of the shipped deployments are further apart than a job is long, but for 2 and 3 on Ropsten.\<close>

lemma two_starts_deployments:
  assumes "two_starts (StartingBlocks d) j x" "maxBlocks \<le> 1000000" "tj_to j \<le> tj_from j + maxBlocks"
  shows "d = Ropsten \<and> x = 6899991 \<and> tj_from j < 6899991"
  using assms by (cases d) (auto simp: two_starts_def)

text \<open>
  C17: On each of the shipped deployments every block of a range is fetched with the code for the version
  of the contracts that was live at that block, whatever the range and for jobs of up to a million
  blocks: some job contains the block, and \<open>GetTradeLogs\<close> chooses for the range of that job what it
  would choose for the block alone. The one exception is block 6899991 of Ropsten, the only block of
  version 2 there: a job is cut at one starting block only, so that block may be in a job that starts
  before it and is cut at the start of version 3, and is then fetched with the code for version 1.
\<close>

theorem plan_jobs_right_version:
  assumes "StartingBlocks d = \<lparr> sb_V4 = cw_startV4 C, sb_V3 = cw_startV3 C, sb_V2 = cw_startV2 C \<rparr>"
    and "0 < maxBlocks" "maxBlocks \<le> 1000000" "0 \<le> fromBlock" "toBlock + maxBlocks < 2 ^ 63"
    and "plan_jobs (StartingBlocks d) maxBlocks fromBlock toBlock = Some js"
    and "fromBlock \<le> x" "x \<le> toBlock"
  shows "\<exists>j\<in>set js. tj_from j \<le> x \<and> x \<le> tj_to j \<and>
    (fetchFn C (tj_from j) (tj_to j) = fetchFn C x x \<or>
     d = Ropsten \<and> x = 6899991 \<and> fetchFn C (tj_from j) (tj_to j) = fetchTradeLogV1 C)"
proof -
  have "sb_ok (StartingBlocks d) maxBlocks" using assms(2) by (simp add: sb_ok_deployments)
  from plan_jobs_version [OF assms(1) this assms(4-8)] obtain j where
    j: "j \<in> set js" "tj_from j \<le> x" "x \<le> tj_to j" "tj_to j \<le> tj_from j + maxBlocks"
      "0 \<le> tj_from j" "tj_to j < 2 ^ 63"
      "fetchFn C (tj_from j) (tj_to j) = fetchFn C x x \<or> two_starts (StartingBlocks d) j x" .
  have "d = Ropsten \<and> x = 6899991 \<and> fetchFn C (tj_from j) (tj_to j) = fetchTradeLogV1 C"
    if "two_starts (StartingBlocks d) j x"
  proof -
    from two_starts_deployments [OF that assms(3) j(4)]
    have r: "d = Ropsten" "x = 6899991" "tj_from j < 6899991" by blast+
    have "block_version (StartingBlocks d) (tj_from j) = 1" using r by (simp add: block_version_def)
    with r fetchFn_block_version [OF j(5) _ j(6) assms(1)] j(2,3) show ?thesis by simp
  qed
  with j show ?thesis by blast
qed

text \<open>The jobs handed to the pool.\<close>

fun jobs_of :: "('j, 'r) pool_event list \<Rightarrow> 'j list" where
  "jobs_of [] = []"
| "jobs_of (Run w j # evs) = j # jobs_of evs"
| "jobs_of (ev # evs) = jobs_of evs"

fun worker_job :: "('j, 'r) worker \<Rightarrow> 'j option" where
  "worker_job (Executing j) = Some j"
| "worker_job (Reporting j e) = Some j"
| "worker_job (Saving j r) = Some j"
| "worker_job (Marking j x) = Some j"
| "worker_job l = None"

lemma submitted_jobs_of: "submitted ord evs = map ord (jobs_of evs)"
  by (induction evs rule: jobs_of.induct) simp_all

definition jobs_from :: "'j set \<Rightarrow> ('j, 'r, 's) pool \<Rightarrow> bool" where
  "jobs_from J p \<longleftrightarrow>
     (\<forall>w j. w < length (pl_workers p) \<longrightarrow> worker_job (pl_workers p ! w) = Some j \<longrightarrow> j \<in> J)"

lemma jobs_from_event:
  assumes "pool_event ord save ex ev p = Some (q, cs)" "jobs_from J p" "set (jobs_of [ev]) \<subseteq> J"
  shows "jobs_from J q \<and> fst ` set cs \<subseteq> J"
  using assms
  by (cases rule: pool_event_elim)
    (auto simp: jobs_from_def nth_list_update split: if_splits option.splits)

lemma jobs_of_Cons: "set (jobs_of (ev # evs)) = set (jobs_of [ev]) \<union> set (jobs_of evs)"
  by (cases ev) auto

lemma jobs_from_run:
  assumes "pool_run ord save ex evs p = Some (q, cs)" "jobs_from J p" "set (jobs_of evs) \<subseteq> J"
  shows "fst ` set cs \<subseteq> J"
  using assms
proof (induction evs arbitrary: p cs)
  case Nil
  then show ?case by simp
next
  case (Cons ev evs)
  from Cons.prems(1) obtain p1 cs1 cs2 where ev: "pool_event ord save ex ev p = Some (p1, cs1)"
    and run: "pool_run ord save ex evs p1 = Some (q, cs2)" and cs: "cs = cs1 @ cs2"
    by (rule pool_run_Cons)
  have "set (jobs_of [ev]) \<subseteq> J" "set (jobs_of evs) \<subseteq> J"
    using Cons.prems(3) by (simp_all add: jobs_of_Cons [of ev evs])
  with jobs_from_event [OF ev Cons.prems(2)] Cons.IH [OF run] show ?case
    by (auto simp: cs image_Un)
qed

lemma map_inj_on_eq:
  "map f xs = map f ys \<Longrightarrow> distinct (map f ys) \<Longrightarrow> set xs \<subseteq> set ys \<Longrightarrow> xs = ys"
  by (rule map_inj_on) (auto simp: distinct_map Un_absorb1)

lemma pool_run_completes:
  assumes run: "pool_run ord save ex evs (NewPool n st) = Some (p, cs)"
    and jobs: "map ord (jobs_of evs) = [1..<Suc (length (jobs_of evs))]"
    and finished: "lastCompletedJobOrder p = length (jobs_of evs)"
  shows "map fst cs = jobs_of evs \<and> (\<forall>c\<in>set cs. snd (snd c) = None) \<and>
    pl_storage p = apply_calls save cs st"
proof -
  have d: "distinct (submitted ord evs)" by (simp only: submitted_jobs_of jobs distinct_upt)
  from pool_run_ordered [OF run one_holder_NewPool [OF d]]
  obtain good bad where cs: "cs = good @ bad" "map (\<lambda>c. ord (fst c)) good = [1..<Suc (length (jobs_of evs))]"
    "\<forall>c\<in>set good. snd (snd c) = None"
    and bad: "bad = [] \<or> (\<exists>j r e. bad = [(j, r, Some e)] \<and> ord j = Suc (length (jobs_of evs)))"
    and st: "pl_storage p = apply_calls save cs st"
    by (auto simp: ordered_calls_def finished)
  have "jobs_from (set (jobs_of evs)) (NewPool n st)" by (auto simp: jobs_from_def)
  from jobs_from_run [OF run this] have sub: "fst ` set cs \<subseteq> set (jobs_of evs)" by simp
  have "bad = []"
  proof (rule ccontr)
    assume "bad \<noteq> []"
    with bad cs(1) sub obtain j where "j \<in> set (jobs_of evs)" "ord j = Suc (length (jobs_of evs))" by auto
    then have "Suc (length (jobs_of evs)) \<in> set (map ord (jobs_of evs))" by force
    then show False unfolding jobs by simp
  qed
  moreover have "map fst good = jobs_of evs"
  proof (rule map_inj_on_eq)
    show "map ord (map fst good) = map ord (jobs_of evs)"
      unfolding jobs map_map o_def by (rule cs(2))
    show "distinct (map ord (jobs_of evs))" by (simp only: jobs distinct_upt)
    show "set (map fst good) \<subseteq> set (jobs_of evs)" using sub cs(1) by auto
  qed
  ultimately show ?thesis using cs st by simp
qed

text \<open>
  C8: A round of the trade logs crawler that ends with \<open>doneCh\<close> has persisted its whole range: when the
  jobs handed to the pool are the planned ones and \<open>GetLastCompleteJobOrder\<close> has reached their number,
  the storage has been called exactly once for each job, in the order of the range and without an
  error, however the workers were interleaved.
\<close>

theorem trade_round_complete:
  assumes "sb_ok sb maxBlocks" "0 \<le> fromBlock" "fromBlock \<le> toBlock" "toBlock + maxBlocks < 2 ^ 63"
    and "plan_jobs sb maxBlocks fromBlock toBlock = Some js" "jobs_of evs = js"
    and "trade_pool_run S bigVolume attempts evs (NewPool n st) = Some (p, cs)"
    and "lastCompletedJobOrder p = length js"
  shows "map fst cs = js \<and> (\<forall>c\<in>set cs. snd (snd c) = None) \<and>
    pl_storage p = apply_calls (save_trades S bigVolume) cs st \<and>
    job_chain fromBlock (map fst cs) toBlock"
proof -
  from plan_from_spec [OF assms(1,2,4), of 0] assms(3,5)
  have "map tj_order js = [1..<Suc (length js)]" "job_chain fromBlock js toBlock"
    by (auto simp: plan_jobs_def simp del: upt_Suc)
  with pool_run_completes [OF assms(7) [unfolded trade_pool_run_def], unfolded assms(6)] assms(8)
  show ?thesis by simp
qed

lemma rate_jobs_from_spec:
  "0 \<le> b \<Longrightarrow> b + int k \<le> 2 ^ 64 \<Longrightarrow>
     map rj_order (rate_jobs_from b n k) = [n + 1..<n + 1 + k] \<and>
     map rj_block (rate_jobs_from b n k) = [nat b..<nat b + k] \<and> length (rate_jobs_from b n k) = k"
proof (induction k arbitrary: b n)
  case 0
  then show ?case by simp
next
  case (Suc k)
  with Suc.IH [of "b + 1" "n + 1"] show ?case
    by (simp add: u64_id nat_add_distrib upt_conv_Cons del: upt_Suc)
qed

text \<open>
  A round of the reserve rates crawler that ends with \<open>doneCh\<close> has persisted the rates of every
  block from the start of its range up to the block before its end, each once and in order. In daemon
  mode the range ends with the latest block and starts at the last block stored, so that the rates of
  consecutive rounds leave no block out.
\<close>

theorem rate_round_complete:
  assumes "rate_range (Inr head) (Inr lastBlock) None None = Inr (f, t)"
    and "0 < lastBlock" "lastBlock \<le> head" "head < 2 ^ 63"
    and "jobs_of evs = rate_jobs f t"
    and "rate_pool_run update attempts evs (NewPool n st) = Some (p, cs)"
    and "lastCompletedJobOrder p = length (jobs_of evs)"
  shows "map (\<lambda>c. rj_block (fst c)) cs = [nat lastBlock..<Suc (nat head)] \<and>
    (\<forall>c\<in>set cs. snd (snd c) = None)"
proof -
  have ft: "f = lastBlock" "t = head + 1" using assms(1,2) by (simp_all add: rate_range_def)
  let ?k = "nat (t - f)"
  have "f + int ?k \<le> 2 ^ 64" "0 \<le> f" using assms(2-4) ft by simp_all
  from rate_jobs_from_spec [OF this(2,1), of 0] ft assms(2,3)
  have rates: "map rj_order (rate_jobs f t) = [1..<1 + ?k]"
    "map rj_block (rate_jobs f t) = [nat lastBlock..<Suc (nat head)]" "length (rate_jobs f t) = ?k"
    by (simp_all add: rate_jobs_def nat_diff_distrib' nat_add_distrib del: upt_Suc)
  from pool_run_completes [OF assms(6) [unfolded rate_pool_run_def]] assms(5,7) rates(1,3)
  have done_: "map fst cs = rate_jobs f t" "\<forall>c\<in>set cs. snd (snd c) = None" by simp_all
  have "map (\<lambda>c. rj_block (fst c)) cs = map rj_block (map fst cs)" by simp
  then show ?thesis unfolding done_(1) rates(2) using done_(2) by simp
qed

section \<open>Concrete instances\<close>

definition sample_planner :: planner where
  "sample_planner = \<lparr> pn_fromBlock = None, pn_toBlock = None, pn_confirmations = 7, pn_completed = False \<rparr>"

text \<open>A node whose head was 12 at first and 18 at the second poll; then 18 and 30.\<close>

definition sample_headers :: "(nat \<Rightarrow> int go) list" where
  "sample_headers = [\<lambda>k. Inr (if k = 0 then 12 else 18), \<lambda>k. Inr (if k = 0 then 18 else 30)]"

lemma sample_planner_rounds:
  "planner_rounds (Inr 6) sample_headers sample_planner = [(6, 11), (11, 23)]"
proof -
  have w: "wait_confirmed (\<lambda>k. Inr (if k = 0 then 12 else 18)) 6 7 0 = Some (Inr 11)"
    "wait_confirmed (\<lambda>k. Inr (if k = 0 then 18 else 30)) 11 7 0 = Some (Inr 23)"
    by (subst wait_confirmed.simps, subst wait_confirmed.simps, simp)+
  show ?thesis
    by (simp add: sample_headers_def sample_planner_def planner_next_def default_from_def w)
qed

theorem planner_ranges_adjacent_witness:
  "\<exists>ranges. planner_rounds (Inr 6) sample_headers sample_planner = ranges \<and> length ranges = 2 \<and>
     fst (ranges ! 1) = snd (ranges ! 0) \<and> fst (ranges ! 0) = 6"
proof -
  have "pn_toBlock sample_planner = None" "\<not> pn_completed sample_planner"
    "default_from (Inr 6) (pn_fromBlock sample_planner) = Inr 6"
    by (simp_all add: sample_planner_def default_from_def)
  from planner_ranges_adjacent [OF this sample_planner_rounds [symmetric]] show ?thesis
    by (simp add: sample_planner_rounds)
qed

theorem planner_bounded_once_witness:
  "planner_rounds (Inr 0) sample_headers (sample_planner\<lparr> pn_toBlock := Some 6000000 \<rparr>)
     = [(5069586, 6000000)]"
  by (subst planner_bounded_once [where start = 5069586 and to = 6000000])
    (simp_all add: sample_planner_def default_from_def defaultFromBlock_def sample_headers_def)

definition sample_sb :: starting_blocks where
  "sample_sb = \<lparr> sb_V4 = 30, sb_V3 = 20, sb_V2 = 10 \<rparr>"

lemma sample_sb_ok: "sb_ok sample_sb 5"
  by (simp add: sb_ok_def sample_sb_def)

theorem plan_jobs_chain_witness:
  "\<exists>js. plan_jobs sample_sb 5 8 22 = Some js \<and> job_chain 8 js 22 \<and>
     requiredWorkers 8 22 5 2 \<le> int (length js)"
  using plan_jobs_chain [OF sample_sb_ok, of 8 22 2] by auto

text \<open>The range 8 to 12 crosses block 10; block 11 is in the second job.\<close>

lemma sample_plan:
  "plan_jobs sample_sb 5 8 12 = Some [trade_job_of 1 8 10, trade_job_of 2 10 12]"
proof -
  have "plan_from sample_sb 5 12 13 2 = Some []" by (subst plan_from.simps) simp
  then show ?thesis
    unfolding plan_jobs_def
    by (subst plan_from.simps)
      (simp add: jobs_at_def sample_sb_def MinInt64_def i64_def u64_def eval_nat_numeral)
qed

text \<open>The start of version 2 in production is in the second of the two jobs of the range around it.\<close>

definition production_crawler :: crawler where
  "production_crawler = (sample_crawler [])\<lparr> cw_startV4 := 10404483, cw_startV3 := 7019038, cw_startV2 := 5925999 \<rparr>"

lemma production_plan:
  "plan_jobs (StartingBlocks Production) 100 5925950 5926010 =
     Some [trade_job_of 1 5925950 5925999, trade_job_of 2 5925999 5926010]"
proof -
  have "plan_from (StartingBlocks Production) 100 5926010 5926050 (Suc (Suc 0)) = Some []" by (subst plan_from.simps) simp
  then show ?thesis
    unfolding plan_jobs_def
    by (subst plan_from.simps) (simp add: jobs_at_def MinInt64_def i64_def u64_def trade_job_of_def)
qed

theorem plan_jobs_right_version_witness:
  "\<exists>j\<in>{trade_job_of 1 5925950 5925999, trade_job_of 2 5925999 5926010}.
     fetchFn production_crawler (tj_from j) (tj_to j) = fetchFn production_crawler 5926000 5926000"
  using plan_jobs_right_version [of Production production_crawler 100 5925950 5926010, OF _ _ _ _ _ production_plan,
      of 5926000]
  by (auto simp: production_crawler_def)

text \<open>
  The exception is real: with the default of 100 blocks a job, the range 6899950 to 6900000 of Ropsten is cut
  into two jobs, and block 6899991 is in the first one only, whose code is the one for version 1.
\<close>

definition ropsten_crawler :: crawler where
  "ropsten_crawler = (sample_crawler [])\<lparr> cw_startV4 := 8111008, cw_startV3 := 6899992, cw_startV2 := 6899991 \<rparr>"

lemma ropsten_plan:
  "plan_jobs (StartingBlocks Ropsten) 100 6899950 6900000 =
     Some [trade_job_of 1 6899950 6899992, trade_job_of 2 6899992 6900000]"
proof -
  have "plan_from (StartingBlocks Ropsten) 100 6900000 6900050 (Suc (Suc 0)) = Some []" by (subst plan_from.simps) simp
  then show ?thesis
    unfolding plan_jobs_def
    by (subst plan_from.simps) (simp add: jobs_at_def MinInt64_def i64_def u64_def trade_job_of_def)
qed

lemma ropsten_wrong_version:
  "fetchFn ropsten_crawler 6899950 6899992 = fetchTradeLogV1 ropsten_crawler"
  "fetchFn ropsten_crawler 6899991 6899991 = fetchTradeLogV2 ropsten_crawler"
  by (simp_all add: fetchFn_def ropsten_crawler_def u64_def)

definition sample_trade_store :: "nat trade_storage" where
  "sample_trade_store = \<lparr> st_SaveTradeLogs = (\<lambda>r n. (n + 1, None)), st_SaveBigTrades = (\<lambda>v b n. (n, None)) \<rparr>"

definition sample_trade_events :: "(trade_job, CrawlResult) pool_event list" where
  "sample_trade_events = [Run 0 (trade_job_of 1 8 10), Run 1 (trade_job_of 2 10 12),
     Executed 1 (\<lambda>i. (Some CrawlResult0, None)), SaveTurn 1, Executed 0 (\<lambda>i. (Some CrawlResult0, None)),
     SaveTurn 0, SaveTurn 1]"

theorem trade_round_complete_witness:
  "\<exists>p cs. trade_pool_run sample_trade_store 100 1 sample_trade_events (NewPool 2 0) = Some (p, cs) \<and>
     map fst cs = [trade_job_of 1 8 10, trade_job_of 2 10 12] \<and> job_chain 8 (map fst cs) 12"
proof -
  obtain p cs where run:
    "trade_pool_run sample_trade_store 100 1 sample_trade_events (NewPool 2 0) = Some (p, cs)"
    and fin: "lastCompletedJobOrder p = 2"
    by (simp add: sample_trade_events_def trade_pool_run_def trade_job_of_def sample_trade_store_def
        save_trades_def retry_trades_def sample_pool_defs)
  have jobs: "jobs_of sample_trade_events = [trade_job_of 1 8 10, trade_job_of 2 10 12]"
    by (simp add: sample_trade_events_def)
  from trade_round_complete [OF sample_sb_ok _ _ _ sample_plan jobs run] fin run
  show ?thesis by auto
qed

definition sample_rate_events :: "(rate_job, unit) pool_event list" where
  "sample_rate_events = [Run 0 (sample_rate_job 1 20), Run 1 (sample_rate_job 2 21),
     Executed 1 sample_ok, SaveTurn 1, Executed 0 sample_ok, SaveTurn 0, SaveTurn 1]"

theorem rate_round_complete_witness:
  "\<exists>p cs. rate_pool_run sample_update 2 sample_rate_events (NewPool 2 []) = Some (p, cs) \<and>
     map (\<lambda>c. rj_block (fst c)) cs = [20, 21]"
proof -
  obtain p cs where run: "rate_pool_run sample_update 2 sample_rate_events (NewPool 2 []) = Some (p, cs)"
    and fin: "lastCompletedJobOrder p = 2"
    by (simp add: sample_rate_events_def sample_pool_defs)
  have range: "rate_range (Inr 21) (Inr 20) None None = Inr (20, 22)" by (simp add: rate_range_def)
  have jobs: "jobs_of sample_rate_events = rate_jobs 20 22"
    by (simp add: sample_rate_events_def rate_jobs_def sample_rate_job_def u64_def numeral_2_eq_2)
  have two: "length (jobs_of sample_rate_events) = 2" by (simp add: sample_rate_events_def)
  from rate_round_complete [OF range _ _ _ jobs run] fin two run
  show ?thesis by (auto simp: upt_rec)
qed

end
