(* ===== verification/TokenAmount.thy ===== *)
theory TokenAmount
  imports Blockchain GoFloat
begin

text \<open>
  Token amounts, \<open>lib/blockchain/token_amount_formatter.go\<close>: the number of decimals of a token, with
  its cache, and the conversions between an integer amount in the smallest unit and a \<open>float64\<close>.

  The call of the contract's \<open>decimals\<close> is a parameter, which gives what the call returns or its error.
\<close>

section \<open>TokenAmountFormatter\<close>

type_synonym decimals_cache = "addr \<rightharpoonup> nat"
type_synonym contract_decimals = "addr \<Rightarrow> nat go"

definition NewTokenAmountFormatter :: decimals_cache where
  "NewTokenAmountFormatter = [ETHAddr \<mapsto> 18]"

definition GetDecimals :: "contract_decimals \<Rightarrow> addr \<Rightarrow> decimals_cache \<Rightarrow> nat go \<times> decimals_cache" where
  "GetDecimals contract a f =
     (case f a of
        Some d \<Rightarrow> (Inr d, f)
      | None \<Rightarrow> (case contract a of Inl e \<Rightarrow> (Inl e, f) | Inr d \<Rightarrow> (Inr d, f(a \<mapsto> d))))"

text \<open>The arithmetic of the two conversions.\<close>

definition amount_to_float :: "nat \<Rightarrow> int \<Rightarrow> f64" where
  "amount_to_float d amount = float64 (big_quo amount (10 ^ d))"

text \<open>\<open>big.NewFloat(0)\<close> has a precision of 53 bits, to which \<open>SetInt\<close> and \<open>Mul\<close> round.\<close>

definition float_to_amount :: "nat \<Rightarrow> f64 \<Rightarrow> int" where
  "float_to_amount d x = go_trunc (round_prec 53 (x * round_prec 53 (10 ^ d)))"

definition FromWei :: "contract_decimals \<Rightarrow> addr \<Rightarrow> int option \<Rightarrow> decimals_cache \<Rightarrow> f64 go \<times> decimals_cache" where
  "FromWei contract a amount f =
     (case amount of
        None \<Rightarrow> (Inr 0, f)
      | Some x \<Rightarrow>
          (case GetDecimals contract a f of
             (Inl e, f) \<Rightarrow> (Inl (errors_Wrap ''failed to get decimals'' e), f)
           | (Inr d, f) \<Rightarrow> (Inr (amount_to_float d x), f)))"

definition ToWei :: "contract_decimals \<Rightarrow> addr \<Rightarrow> f64 \<Rightarrow> decimals_cache \<Rightarrow> int go \<times> decimals_cache" where
  "ToWei contract a x f =
     (case GetDecimals contract a f of
        (Inl e, f) \<Rightarrow> (Inl e, f)
      | (Inr d, f) \<Rightarrow> (Inr (float_to_amount d x), f))"

section \<open>The interface\<close>

text \<open>
  \<open>TokenAmountFormatterInterface\<close>, as its clients use it: three functions of their arguments. The
  formatter that asks the contract each time is one, and the cache is not to be told from it.
\<close>

record formatter =
  tf_GetDecimals :: "addr \<Rightarrow> nat go"
  tf_FromWei :: "addr \<Rightarrow> int option \<Rightarrow> f64 go"
  tf_ToWei :: "addr \<Rightarrow> f64 \<Rightarrow> int go"

definition decimals_of :: "contract_decimals \<Rightarrow> addr \<Rightarrow> nat go" where
  "decimals_of contract a = (if a = ETHAddr then Inr 18 else contract a)"

definition formatter_of :: "contract_decimals \<Rightarrow> formatter" where
  "formatter_of contract = \<lparr>
     tf_GetDecimals = decimals_of contract,
     tf_FromWei = (\<lambda>a amount. case amount of
        None \<Rightarrow> Inr 0
      | Some x \<Rightarrow> go_bind (on_err (errors_Wrap ''failed to get decimals'') (decimals_of contract a))
          (\<lambda>d. Inr (amount_to_float d x))),
     tf_ToWei = (\<lambda>a x. go_bind (decimals_of contract a) (\<lambda>d. Inr (float_to_amount d x))) \<rparr>"

text \<open>The calls of the interface, with the values that they return.\<close>

datatype fmt_call = Decimals addr | From addr "int option" | To addr f64
datatype fmt_result = RDecimals "nat go" | RFrom "f64 go" | RTo "int go"

fun fmt_step :: "contract_decimals \<Rightarrow> fmt_call \<Rightarrow> decimals_cache \<Rightarrow> fmt_result \<times> decimals_cache" where
  "fmt_step contract (Decimals a) f = (let (r, f) = GetDecimals contract a f in (RDecimals r, f))"
| "fmt_step contract (From a x) f = (let (r, f) = FromWei contract a x f in (RFrom r, f))"
| "fmt_step contract (To a x) f = (let (r, f) = ToWei contract a x f in (RTo r, f))"

fun fmt_run :: "contract_decimals \<Rightarrow> fmt_call list \<Rightarrow> decimals_cache \<Rightarrow> fmt_result list \<times> decimals_cache" where
  "fmt_run contract [] f = ([], f)"
| "fmt_run contract (c # cs) f =
     (let (r, f) = fmt_step contract c f; (rs, f) = fmt_run contract cs f in (r # rs, f))"

fun fmt_answer :: "formatter \<Rightarrow> fmt_call \<Rightarrow> fmt_result" where
  "fmt_answer F (Decimals a) = RDecimals (tf_GetDecimals F a)"
| "fmt_answer F (From a x) = RFrom (tf_FromWei F a x)"
| "fmt_answer F (To a x) = RTo (tf_ToWei F a x)"

definition decimals_ok :: "contract_decimals \<Rightarrow> decimals_cache \<Rightarrow> bool" where
  "decimals_ok contract f \<longleftrightarrow> f ETHAddr = Some 18 \<and> (\<forall>a d. f a = Some d \<longrightarrow> decimals_of contract a = Inr d)"

lemma NewTokenAmountFormatter_ok: "decimals_ok contract NewTokenAmountFormatter"
  by (simp add: decimals_ok_def NewTokenAmountFormatter_def decimals_of_def)

lemma GetDecimals_ok:
  assumes "decimals_ok contract f"
  shows "\<exists>f'. GetDecimals contract a f = (decimals_of contract a, f') \<and> decimals_ok contract f'"
proof (cases "f a")
  case None
  with assms have "a \<noteq> ETHAddr" by (auto simp: decimals_ok_def)
  with None assms show ?thesis
    by (cases "contract a") (fastforce simp: GetDecimals_def decimals_of_def decimals_ok_def)+
next
  case (Some d)
  with assms show ?thesis by (auto simp: GetDecimals_def decimals_ok_def)
qed

lemma fmt_step_ok:
  assumes "decimals_ok contract f"
  shows "\<exists>f'. fmt_step contract c f = (fmt_answer (formatter_of contract) c, f') \<and> decimals_ok contract f'"
proof -
  obtain f' where f': "GetDecimals contract a f = (decimals_of contract a, f' a) \<and> decimals_ok contract (f' a)" for a
    using GetDecimals_ok [OF assms] by metis
  show ?thesis
  proof (cases c)
    case (Decimals a)
    with f' [of a] show ?thesis by (simp add: formatter_of_def)
  next
    case (From a x)
    with f' [of a] assms show ?thesis
      by (cases x; cases "decimals_of contract a") (auto simp: formatter_of_def FromWei_def)
  next
    case (To a x)
    with f' [of a] show ?thesis
      by (cases "decimals_of contract a") (auto simp: formatter_of_def ToWei_def)
  qed
qed

lemma fmt_run_ok:
  "decimals_ok contract f \<Longrightarrow> fst (fmt_run contract cs f) = map (fmt_answer (formatter_of contract)) cs"
proof (induction cs arbitrary: f)
  case (Cons c cs)
  from fmt_step_ok [OF Cons.prems, of c] obtain f' where
    "fmt_step contract c f = (fmt_answer (formatter_of contract) c, f')" "decimals_ok contract f'" by blast
  with Cons.IH [of f'] show ?case by (simp add: split_beta)
qed simp

lemma formatter_of_ETH:
  "tf_FromWei (formatter_of contract) ETHAddr amount =
     Inr (case amount of None \<Rightarrow> 0 | Some x \<Rightarrow> amount_to_float 18 x)"
  by (simp add: formatter_of_def decimals_of_def split: option.split)

section \<open>The error of the conversions\<close>

lemma rounding_step: "\<bar>y - x\<bar> \<le> x * e \<Longrightarrow> x * (1 - e) \<le> y \<and> y \<le> x * (1 + e)" for x :: rat
  by (simp add: abs_le_iff algebra_simps)

lemma round_prec_bounds:
  assumes "0 \<le> x" "m \<le> prec"
  shows "x * (1 - 1 / 2 ^ m) \<le> round_prec prec x" "round_prec prec x \<le> x * (1 + 1 / 2 ^ m)"
proof -
  have "(2 :: rat) powi (- int prec) \<le> 1 / 2 ^ m"
    using assms(2) by (simp add: power_int_minus divide_simps power_increasing)
  then have "x * 2 powi (- int prec) \<le> x * (1 / 2 ^ m)" using assms(1) by (intro mult_left_mono)
  with round_prec_error [of prec x] assms(1)
  have "\<bar>round_prec prec x - x\<bar> \<le> x * (1 / 2 ^ m)" by simp
  from rounding_step [OF this] show
    "x * (1 - 1 / 2 ^ m) \<le> round_prec prec x" "round_prec prec x \<le> x * (1 + 1 / 2 ^ m)" by simp_all
qed

text \<open>Four roundings, of the quotient, of its \<open>float64\<close>, of the power of ten and of the product.\<close>

lemma amount_roundtrip_float:
  fixes a :: int and d :: nat
  assumes "0 \<le> a"
  defines "w \<equiv> round_prec 53 (amount_to_float d a * round_prec 53 (10 ^ d))"
  shows "of_int a * (1 - 1 / 2 ^ 51) \<le> w" "w \<le> of_int a * (1 + 1 / 2 ^ 50)"
proof -
  define x :: rat where "x = of_int a / 10 ^ d"
  define e :: rat where "e = 1 / 2 ^ 53"
  have e: "0 \<le> e" "0 \<le> 1 - e" unfolding e_def by simp_all
  have x0: "0 \<le> x" using assms by (simp add: x_def)
  let ?q = "big_quo a (10 ^ d)"
  let ?f = "amount_to_float d a"
  let ?p = "round_prec 53 (10 ^ d :: rat)"
  have q: "x * (1 - e) \<le> ?q" "?q \<le> x * (1 + e)"
    unfolding big_quo_def e_def x_def
    using round_prec_bounds [of "of_int a / of_int (10 ^ d)" 53] assms(1)
    by (simp_all add: set_int_prec_def)
  then have q0: "0 \<le> ?q" using x0 e by (meson mult_nonneg_nonneg order_trans)
  have "?q * (1 - e) \<le> ?f" "?f \<le> ?q * (1 + e)"
    using round_prec_bounds [OF q0 order_refl, of 53] unfolding amount_to_float_def float64_def e_def
    by simp_all
  then have f: "x * (1 - e) * (1 - e) \<le> ?f" "?f \<le> x * (1 + e) * (1 + e)"
    using q e by (meson mult_right_mono order_trans add_nonneg_nonneg zero_le_one)+
  have p: "10 ^ d * (1 - e) \<le> ?p" "?p \<le> 10 ^ d * (1 + e)"
    using round_prec_bounds [of "10 ^ d" 53 53] by (simp_all add: e_def)
  have f0: "0 \<le> ?f" using f(1) x0 e by (meson mult_nonneg_nonneg order_trans)
  have p0: "0 \<le> ?p" using p(1) e by (meson mult_nonneg_nonneg order_trans zero_le_power zero_le_numeral)
  have a: "x * 10 ^ d = of_int a" by (simp add: x_def)
  have "(x * (1 - e) * (1 - e)) * (10 ^ d * (1 - e)) \<le> ?f * ?p"
    using f(1) p(1) f0 e by (intro mult_mono) auto
  then have lo: "of_int a * (1 - e) ^ 3 \<le> ?f * ?p"
    unfolding a [symmetric] by (simp add: power3_eq_cube mult_ac)
  have "?f * ?p \<le> (x * (1 + e) * (1 + e)) * (10 ^ d * (1 + e))"
    using f(2) p(2) p0 x0 e by (intro mult_mono) auto
  then have hi: "?f * ?p \<le> of_int a * (1 + e) ^ 3"
    unfolding a [symmetric] by (simp add: power3_eq_cube mult_ac)
  have fp0: "0 \<le> ?f * ?p" using f0 p0 by simp
  have w: "?f * ?p * (1 - e) \<le> w" "w \<le> ?f * ?p * (1 + e)"
    using round_prec_bounds [OF fp0 order_refl, of 53] unfolding w_def e_def by simp_all
  have "of_int a * (1 - 1 / 2 ^ 51) \<le> of_int a * (1 - e) ^ 4"
    using assms(1) unfolding e_def by (intro mult_left_mono) (simp_all add: power_divide)
  also have "\<dots> = of_int a * (1 - e) ^ 3 * (1 - e)" by (simp add: power_numeral_reduce)
  also have "\<dots> \<le> ?f * ?p * (1 - e)" using lo e by (intro mult_right_mono)
  also note w(1)
  finally show "of_int a * (1 - 1 / 2 ^ 51) \<le> w" .
  note w(2)
  also have "?f * ?p * (1 + e) \<le> of_int a * (1 + e) ^ 3 * (1 + e)" using hi e by (intro mult_right_mono) auto
  also have "\<dots> = of_int a * (1 + e) ^ 4" by (simp add: power_numeral_reduce)
  also have "\<dots> \<le> of_int a * (1 + 1 / 2 ^ 50)"
    using assms(1) unfolding e_def by (intro mult_left_mono) (simp_all add: power_divide)
  finally show "w \<le> of_int a * (1 + 1 / 2 ^ 50)" .
qed

lemma float_amount_near:
  fixes amount :: int and d :: nat
  assumes "0 \<le> amount"
  defines "b \<equiv> float_to_amount d (amount_to_float d amount)"
  shows "\<bar>of_int b - of_int amount :: rat\<bar> \<le> of_int amount / 2 ^ 50 + 1"
    and "amount < 2 ^ 50 \<Longrightarrow> b = amount \<or> b = amount - 1"
proof -
  define w where "w = round_prec 53 (amount_to_float d amount * round_prec 53 (10 ^ d))"
  note w = amount_roundtrip_float [OF assms(1), of d, folded w_def]
  have a: "0 \<le> (of_int amount :: rat)" using assms(1) by simp
  have "0 \<le> of_int amount * (1 - 1 / 2 ^ 51 :: rat)" using a by (intro mult_nonneg_nonneg) auto
  with w(1) have "0 \<le> w" by simp
  then have "b = \<lfloor>w\<rfloor>" by (simp add: b_def float_to_amount_def w_def go_trunc_def)
  then have b: "of_int b \<le> w" "w < of_int b + 1" by (simp_all only: of_int_floor_le) linarith
  have lo: "rat_of_int amount - of_int amount / 2 ^ 51 < of_int b + 1"
    using w(1) b(2) by (simp add: algebra_simps)
  have hi: "rat_of_int b \<le> of_int amount + of_int amount / 2 ^ 50"
    using w(2) b(1) by (simp add: algebra_simps)
  have "(of_int amount :: rat) / 2 ^ 51 \<le> of_int amount / 2 ^ 50" using a by simp
  with lo hi show "\<bar>of_int b - of_int amount :: rat\<bar> \<le> of_int amount / 2 ^ 50 + 1"
    by (simp only: abs_le_iff) linarith
  assume "amount < 2 ^ 50"
  then have "(of_int amount :: rat) < of_int (2 ^ 50)" by (simp only: of_int_less_iff)
  then have "(of_int amount :: rat) / 2 ^ 50 < 1" "(of_int amount :: rat) / 2 ^ 51 < 1" by simp_all
  with lo hi have "(of_int b :: rat) < of_int (amount + 1)" "(of_int (amount - 2) :: rat) < of_int b"
    by simp_all
  then have "b < amount + 1" "amount - 2 < b" by (simp_all only: of_int_less_iff)
  then show "b = amount \<or> b = amount - 1" by linarith
qed

section \<open>Properties\<close>

text \<open>
  C32: The cache of decimals cannot be observed: whatever sequence of calls the clients make, a new
  formatter answers each of them as the formatter that asks the contract every time would.
\<close>

theorem formatter_cache_transparent:
  "fst (fmt_run contract cs NewTokenAmountFormatter) = map (fmt_answer (formatter_of contract)) cs"
  by (rule fmt_run_ok [OF NewTokenAmountFormatter_ok])

text \<open>
  C35: The round trip of an amount through \<open>FromWei\<close> and \<open>ToWei\<close> is off by at most one unit and one part
  in \<open>2 ^ 50\<close> of the amount; below \<open>2 ^ 50\<close> units it gives the amount back or loses one unit, and the
  loss does happen (29 units of a token with two decimals come back as 28).
\<close>

theorem amount_roundtrip:
  assumes "decimals_of contract a = Inr d" "0 \<le> amount"
  shows "\<exists>x b. tf_FromWei (formatter_of contract) a (Some amount) = Inr x \<and>
    tf_ToWei (formatter_of contract) a x = Inr b \<and>
    \<bar>of_int b - of_int amount :: rat\<bar> \<le> of_int amount / 2 ^ 50 + 1 \<and>
    (amount < 2 ^ 50 \<longrightarrow> b = amount \<or> b = amount - 1)"
  using float_amount_near [OF assms(2), of d] assms(1) by (auto simp: formatter_of_def)

theorem amount_roundtrip_witness:
  "\<exists>x. tf_FromWei (formatter_of (\<lambda>a. Inr 2)) 7 (Some 29) = Inr x \<and>
     tf_ToWei (formatter_of (\<lambda>a. Inr 2)) 7 x = Inr 28"
proof -
  have d: "decimals_of (\<lambda>a. Inr 2) 7 = Inr 2" by (simp add: decimals_of_def ETHAddr_def)
  from amount_roundtrip [OF d, of 29] obtain x b where
    x: "tf_FromWei (formatter_of (\<lambda>a. Inr 2)) 7 (Some 29) = Inr x"
       "tf_ToWei (formatter_of (\<lambda>a. Inr 2)) 7 x = Inr b" by auto
  have "float_to_amount 2 (amount_to_float 2 29) = 28" by code_simp
  with x d show ?thesis by (auto simp: formatter_of_def)
qed

end
