(* ===== verification/TradeRecord.thy ===== *)
theory TradeRecord
  imports TradeTypes TokenAmount
begin

text \<open>
  From a crawled trade to what is stored of it: the record of \<open>tradelogs/storage/postgres/record.go\<close>,
  and the fee and split records of \<open>prepareFeeRecords\<close> and \<open>prepareSplitRecords\<close> in \<open>tradelog.go\<close>.

  The hexadecimal text of an address or of a reserve id is the address or the id itself; the text is
  never empty. The token amount formatter is the interface of theory TokenAmount.
\<close>

section \<open>Destination amounts\<close>

text \<open>
  The formula of the contract (\<open>Utils5.sol\<close>, to which the comments refer): the destination amount for
  a product of a source amount and a rate.
\<close>

definition calcDstQty :: "nat \<Rightarrow> nat \<Rightarrow> int \<Rightarrow> int" where
  "calcDstQty srcDecimals dstDecimals product =
     (if srcDecimals \<le> dstDecimals then product * 10 ^ (dstDecimals - srcDecimals) div 10 ^ 18
      else product div (10 ^ 18 * 10 ^ (srcDecimals - dstDecimals)))"

text \<open>The computation of both functions of the source, in \<open>big.Float\<close>.\<close>

definition scaled_dst :: "nat \<Rightarrow> nat \<Rightarrow> int \<Rightarrow> int" where
  "scaled_dst srcDecimals dstDecimals product =
     (if srcDecimals \<le> dstDecimals
      then go_trunc (big_quo (product * 10 ^ (dstDecimals - srcDecimals)) (10 ^ 18))
      else go_trunc (big_quo product (10 ^ (srcDecimals - dstDecimals) * 10 ^ 18)))"

lemma scaled_dst_eq: "0 \<le> product \<Longrightarrow> scaled_dst s d product = calcDstQty s d product"
  by (simp add: scaled_dst_def calcDstQty_def trunc_big_quo mult.commute)

definition decimals_V4 :: "formatter \<Rightarrow> TradelogV4 \<Rightarrow> (nat \<times> nat) go" where
  "decimals_V4 F trd =
     (if E2TReserves trd \<noteq> [] then
        go_bind (tf_GetDecimals F ETHAddr) (\<lambda>s.
        go_bind (tf_GetDecimals F (ti_DestAddress (TokenInfo trd))) (\<lambda>d. Inr (s, d)))
      else
        go_bind (tf_GetDecimals F (ti_SrcAddress (TokenInfo trd))) (\<lambda>s.
        go_bind (tf_GetDecimals F ETHAddr) (\<lambda>d. Inr (s, d))))"

text \<open>
  With the trade log comes its amount: \<open>log.DestAmount.Mul(log.DestAmount, exp)\<close> writes the product
  into the big integer of the caller's trade log.
\<close>

definition calculateDstAmountV4 :: "formatter \<Rightarrow> TradelogV4 \<Rightarrow> f64 go \<times> TradelogV4" where
  "calculateDstAmountV4 F trd =
     (case decimals_V4 F trd of
        Inl e \<Rightarrow> (Inl e, trd)
      | Inr (s, d) \<Rightarrow>
          (case DestAmount trd of
             None \<Rightarrow> (Inl (Panic ''nil pointer dereference''), trd)
           | Some product \<Rightarrow>
               (tf_FromWei F (ti_DestAddress (TokenInfo trd)) (Some (scaled_dst s d product)),
                if s \<le> d then trd\<lparr> DestAmount := Some (product * 10 ^ (d - s)) \<rparr> else trd)))"

definition calculateDstAmount :: "formatter \<Rightarrow> addr \<Rightarrow> addr \<Rightarrow> f64 \<Rightarrow> f64 \<Rightarrow> f64 go" where
  "calculateDstAmount F src dst srcAmount rate =
     go_bind (tf_GetDecimals F src) (\<lambda>s.
     go_bind (tf_GetDecimals F dst) (\<lambda>d.
     go_bind (tf_ToWei F src srcAmount) (\<lambda>srcAmountBig.
     go_bind (tf_ToWei F ETHAddr rate) (\<lambda>rateBig.
       tf_FromWei F dst (Some (scaled_dst s d (srcAmountBig * rateBig)))))))"

section \<open>The record\<close>

record trade_record =
  r_Timestamp :: gotime
  r_BlockNumber :: nat
  r_TransactionHash :: hash
  r_EthAmount :: f64
  r_OriginalEthAmount :: f64
  r_UserAddress :: addr
  r_SrcAddress :: addr
  r_DestAddress :: addr
  r_SrcReserveAddress :: addr
  r_DstReserveAddress :: addr
  r_T2EReserves :: "hash list"
  r_E2TReserves :: "hash list"
  r_T2ESrcAmount :: "f64 list"
  r_E2TSrcAmount :: "f64 list"
  r_T2ERates :: "f64 list"
  r_E2TRates :: "f64 list"
  r_SrcAmount :: f64
  r_DestAmount :: f64
  r_WalletAddress :: addr
  r_WalletName :: string
  r_IntegrationApp :: string
  r_IP :: "string option"
  r_Country :: "string option"
  r_ETHUSDRate :: f64
  r_ETHUSDProvider :: string
  r_Index :: nat
  r_Kyced :: bool
  r_IsFirstTrade :: bool
  r_TxSender :: addr
  r_ReceiverAddress :: addr
  r_GasUsed :: nat
  r_GasPrice :: f64
  r_TransactionFee :: f64
  r_Version :: nat
  r_Fee :: "TradelogFee list"

fun from_weis :: "formatter \<Rightarrow> addr \<Rightarrow> int list \<Rightarrow> f64 list go" where
  "from_weis F a [] = Inr []"
| "from_weis F a (x # xs) =
     go_bind (tf_FromWei F a (Some x)) (\<lambda>y. go_bind (from_weis F a xs) (\<lambda>ys. Inr (y # ys)))"

definition null_string :: "string \<Rightarrow> string option" where
  "null_string s = (if s \<noteq> '''' then Some s else None)"

definition dst_amount_of :: "formatter \<Rightarrow> TradelogV4 \<Rightarrow> f64 go \<times> TradelogV4" where
  "dst_amount_of F trd =
     (if Version trd = 4 then calculateDstAmountV4 F trd
      else (tf_FromWei F (ti_DestAddress (TokenInfo trd)) (DestAmount trd), trd))"

text \<open>The trade log is returned as the call leaves it.\<close>

definition recordFromTradeLog :: "formatter \<Rightarrow> TradelogV4 \<Rightarrow> trade_record go \<times> TradelogV4" where
  "recordFromTradeLog F trd =
     (case go_bind (tf_FromWei F ETHAddr (EthAmount trd)) (\<lambda>ethAmount.
           go_bind (tf_FromWei F ETHAddr (OriginalEthAmount trd)) (\<lambda>originalEthAmount.
           go_bind (tf_FromWei F (ti_SrcAddress (TokenInfo trd)) (SrcAmount trd)) (\<lambda>srcAmount.
             Inr (ethAmount, originalEthAmount, srcAmount)))) of
        Inl e \<Rightarrow> (Inl e, trd)
      | Inr (ethAmount, originalEthAmount, srcAmount) \<Rightarrow>
          (let (dst, trd') = dst_amount_of F trd in
           (go_bind dst (\<lambda>dstAmount.
            go_bind (tf_FromWei F ETHAddr (td_TransactionFee (TxInfo trd))) (\<lambda>transactionFee.
            go_bind (tf_FromWei F ETHAddr (td_GasPrice (TxInfo trd))) (\<lambda>gasPrice.
            go_bind (from_weis F (ti_SrcAddress (TokenInfo trd)) (T2ESrcAmount trd)) (\<lambda>t2eSrcAmounts.
            go_bind (from_weis F ETHAddr (E2TSrcAmount trd)) (\<lambda>e2tSrcAmounts.
            go_bind (from_weis F ETHAddr (T2ERates trd)) (\<lambda>t2eRates.
            go_bind (from_weis F ETHAddr (E2TRates trd)) (\<lambda>e2tRates.
              Inr \<lparr> r_Timestamp = Timestamp trd, r_BlockNumber = BlockNumber trd,
                r_TransactionHash = TransactionHash trd, r_EthAmount = ethAmount,
                r_OriginalEthAmount = originalEthAmount, r_UserAddress = ui_UserAddress (User trd),
                r_SrcAddress = ti_SrcAddress (TokenInfo trd),
                r_DestAddress = ti_DestAddress (TokenInfo trd),
                r_SrcReserveAddress = SrcReserveAddress trd, r_DstReserveAddress = DstReserveAddress trd,
                r_T2EReserves = T2EReserves trd, r_E2TReserves = E2TReserves trd,
                r_T2ESrcAmount = t2eSrcAmounts, r_E2TSrcAmount = e2tSrcAmounts,
                r_T2ERates = t2eRates, r_E2TRates = e2tRates, r_SrcAmount = srcAmount,
                r_DestAmount = dstAmount, r_WalletAddress = WalletAddress trd,
                r_WalletName = WalletName trd, r_IntegrationApp = IntegrationApp trd,
                r_IP = null_string (ui_IP (User trd)), r_Country = null_string (ui_Country (User trd)),
                r_ETHUSDRate = ETHUSDRate trd, r_ETHUSDProvider = ETHUSDProvider trd,
                r_Index = Index trd, r_Kyced = (ui_UID (User trd) \<noteq> ''''), r_IsFirstTrade = False,
                r_TxSender = td_TxSender (TxInfo trd), r_ReceiverAddress = ReceiverAddress trd,
                r_GasUsed = td_GasUsed (TxInfo trd), r_GasPrice = gasPrice,
                r_TransactionFee = transactionFee, r_Version = Version trd, r_Fee = Fees trd \<rparr>))))))),
            trd')))"

section \<open>Fee records\<close>

text \<open>The ten parallel arrays of the source, as a list of rows; they are used only without an error.\<close>

record fee_record =
  fr_reserve :: addr
  fr_wallet :: addr
  fr_wallet_fee :: f64
  fr_platform_fee :: f64
  fr_burn :: f64
  fr_rebate :: f64
  fr_reward :: f64
  fr_index :: nat
  fr_rebate_wallets :: "addr list"
  fr_rebate_percents :: "nat list"

fun prepareFeeRecords :: "formatter \<Rightarrow> TradelogFee list \<Rightarrow> fee_record list go" where
  "prepareFeeRecords F [] = Inr []"
| "prepareFeeRecords F (f # fees) =
     go_bind (tf_FromWei F ETHAddr (fee_WalletFee f)) (\<lambda>walletFee.
     go_bind (tf_FromWei F ETHAddr (fee_PlatformFee f)) (\<lambda>platformFee.
     go_bind (tf_FromWei F ETHAddr (fee_Burn f)) (\<lambda>burn.
     go_bind (tf_FromWei F ETHAddr (fee_Rebate f)) (\<lambda>rebate.
     go_bind (tf_FromWei F ETHAddr (fee_Reward f)) (\<lambda>reward.
     go_bind (prepareFeeRecords F fees) (\<lambda>rest.
       Inr (\<lparr> fr_reserve = fee_ReserveAddr f, fr_wallet = fee_PlatformWallet f,
              fr_wallet_fee = walletFee, fr_platform_fee = platformFee, fr_burn = burn,
              fr_rebate = rebate, fr_reward = reward, fr_index = fee_Index f,
              fr_rebate_wallets = fee_RebateWallets f,
              fr_rebate_percents = map u64 (fee_RebatePercentBpsPerWallet f) \<rparr> # rest)))))))"

section \<open>Split records\<close>

text \<open>
  The seven arrays of the source, as a list of rows. When an amount cannot be computed the source
  returns what it has, without an error: the last row then lacks its destination amount, its rate and
  its index, which the database reads as NULL. An index out of range is a panic.
\<close>

datatype rsv_ref = RsvAddr addr | RsvId hash

record split_record =
  spl_ref :: rsv_ref
  spl_src :: addr
  spl_dst :: addr
  spl_src_amount :: f64
  spl_rate :: "f64 option"
  spl_dst_amount :: "f64 option"
  spl_index :: "nat option"

definition splits_before_katalyst :: "trade_record \<Rightarrow> split_record list" where
  "splits_before_katalyst r =
     (let t2e = (if r_SrcAddress r \<noteq> ETHAddr then
            [\<lparr> spl_ref = RsvAddr (r_SrcReserveAddress r), spl_src = r_SrcAddress r, spl_dst = ETHAddr,
               spl_src_amount = r_SrcAmount r, spl_rate = Some 0,
               spl_dst_amount = Some (r_OriginalEthAmount r), spl_index = Some 1 \<rparr>] else []);
          e2t = (if r_DestAddress r \<noteq> ETHAddr then
            [\<lparr> spl_ref = RsvAddr (r_DstReserveAddress r), spl_src = ETHAddr, spl_dst = r_DestAddress r,
               spl_src_amount = r_OriginalEthAmount r, spl_rate = Some 0,
               spl_dst_amount = Some (r_DestAmount r), spl_index = Some (length t2e + 1) \<rparr>] else [])
      in t2e @ e2t)"

text \<open>One of the two loops: the rows, and whether the loop has returned.\<close>

fun split_loop :: "formatter \<Rightarrow> addr \<Rightarrow> addr \<Rightarrow> nat \<Rightarrow> nat \<Rightarrow> hash list \<Rightarrow> f64 list \<Rightarrow> f64 list
    \<Rightarrow> (split_record list \<times> bool) go" where
  "split_loop F src dst index splitIndex [] amounts rates = Inr ([], False)"
| "split_loop F src dst index splitIndex (s # reserves) amounts rates =
     go_bind (go_nth amounts index) (\<lambda>amount.
     go_bind (go_nth rates index) (\<lambda>rate.
       (case calculateDstAmount F src dst amount rate of
          Inl (Panic e) \<Rightarrow> Inl (Panic e)
        | Inl (Err e) \<Rightarrow>
            Inr ([\<lparr> spl_ref = RsvId s, spl_src = src, spl_dst = dst, spl_src_amount = amount,
                    spl_rate = None, spl_dst_amount = None, spl_index = None \<rparr>], True)
        | Inr dstAmount \<Rightarrow>
            go_bind (split_loop F src dst (index + 1) (splitIndex + 1) reserves amounts rates)
              (\<lambda>(rows, returned).
                 Inr (\<lparr> spl_ref = RsvId s, spl_src = src, spl_dst = dst, spl_src_amount = amount,
                        spl_rate = Some rate, spl_dst_amount = Some dstAmount,
                        spl_index = Some (splitIndex + 1) \<rparr> # rows, returned)))))"

definition prepareSplitRecords :: "formatter \<Rightarrow> trade_record \<Rightarrow> split_record list go" where
  "prepareSplitRecords F r =
     (if r_Version r \<noteq> 4 then Inr (splits_before_katalyst r)
      else
        go_bind (split_loop F (r_SrcAddress r) ETHAddr 0 0 (r_T2EReserves r) (r_T2ESrcAmount r) (r_T2ERates r))
          (\<lambda>(t2e, returned).
            if returned then Inr t2e
            else go_bind (split_loop F ETHAddr (r_DestAddress r) 0 (length t2e) (r_E2TReserves r)
                   (r_E2TSrcAmount r) (r_E2TRates r)) (\<lambda>(e2t, returned). Inr (t2e @ e2t))))"

end
