(* ===== verification/Tables.thy ===== *)
theory Tables
  imports Prelude
begin

text \<open>
  The statements that several storages execute: a table is the list of its rows in the order of their
  insertion, with the column or columns of its unique key read by a function \<open>key\<close>.
\<close>

text \<open>\<open>INSERT ... ON CONFLICT DO NOTHING\<close> into a table with a unique key.\<close>

definition insert_new :: "('r \<Rightarrow> 'k) \<Rightarrow> 'r \<Rightarrow> 'r list \<Rightarrow> 'r list" where
  "insert_new key r rows = (if key r \<in> key ` set rows then rows else rows @ [r])"

lemma insert_new_keys [simp]: "key ` set (insert_new key r rows) = insert (key r) (key ` set rows)"
  by (auto simp: insert_new_def)

lemma insert_new_old: "key r \<in> key ` set rows \<Longrightarrow> insert_new key r rows = rows"
  by (simp add: insert_new_def)

lemma fold_insert_new_old:
  "\<forall>x\<in>set xs. key (g x) \<in> key ` set rows \<Longrightarrow> fold (\<lambda>x. insert_new key (g x)) xs rows = rows"
  by (induction xs) (simp_all add: insert_new_old)

lemma fold_insert_new_keys:
  "key ` set (fold (\<lambda>x. insert_new key (g x)) xs rows) = key ` g ` set xs \<union> key ` set rows"
  by (induction xs arbitrary: rows) auto

lemma fold_insert_new_Cons:
  "\<exists>new. fold (\<lambda>x. insert_new key (g x)) xs rows = rows @ new \<and> set new \<subseteq> g ` set xs"
proof (induction xs arbitrary: rows)
  case (Cons x xs)
  from Cons [of "insert_new key (g x) rows"] show ?case by (force simp: insert_new_def)
qed simp

lemma fold_insert_new_set:
  assumes "inj_on key (set rows \<union> g ` set xs)"
  shows "set (fold (\<lambda>x. insert_new key (g x)) xs rows) = set rows \<union> g ` set xs"
  using assms
proof (induction xs arbitrary: rows)
  case (Cons x xs)
  have new: "set (insert_new key (g x) rows) = insert (g x) (set rows)"
    using Cons.prems by (auto simp: insert_new_def inj_on_def)
  with Cons.IH [of "insert_new key (g x) rows"] Cons.prems show ?case by (simp add: insert_commute)
qed simp

text \<open>An insertion that updates a row may not touch it twice.\<close>

definition twice_affected :: go_err where
  "twice_affected = Err ''ON CONFLICT DO UPDATE command cannot affect row a second time''"

text \<open>\<open>ILIKE\<close>, without pattern characters, compares without regard to case.\<close>

definition lower :: "string \<Rightarrow> string" where
  "lower = map (\<lambda>c. let n = of_char c :: nat in if 65 \<le> n \<and> n \<le> 90 then char_of (n + 32) else c)"

section \<open>Transactions\<close>

text \<open>The errors of a transaction of the database: statement \<open>n\<close> of it fails with \<open>te_stmt n\<close>.\<close>

record tx_errors =
  te_begin :: "go_err option"
  te_stmt :: "nat \<Rightarrow> go_err option"
  te_commit :: "go_err option"

text \<open>\<open>Beginx\<close>, the statements, and the deferred \<open>CommitOrRollback\<close> of the named result.\<close>

definition in_transaction :: "tx_errors \<Rightarrow> ((nat \<Rightarrow> go_err option) \<Rightarrow> 's \<Rightarrow> 's go) \<Rightarrow> 's \<Rightarrow> 's \<times> go_err option" where
  "in_transaction E body s =
     (case te_begin E of
        Some e \<Rightarrow> (s, Some e)
      | None \<Rightarrow>
          (case body (te_stmt E) s of
             Inl e \<Rightarrow> (s, Some e)
           | Inr s' \<Rightarrow> (case te_commit E of
               None \<Rightarrow> (s', None)
             | Some e \<Rightarrow> (s, Some (errors_Wrap ''failed to commit transaction'' e)))))"

lemma in_transaction_cases:
  assumes "in_transaction E body s = (s', e)"
  obtains "s' = s" "e \<noteq> None" | "body (te_stmt E) s = Inr s'" "e = None"
proof (cases "te_begin E")
  case None
  with assms that show thesis
    by (cases "body (te_stmt E) s"; cases "te_commit E") (auto simp: in_transaction_def)
next
  case (Some x)
  with assms have "s' = s" "e = Some x" by (simp_all add: in_transaction_def)
  with that(1) show thesis by simp
qed

end
