(* ===== verification/TradeStore.thy ===== *)
theory TradeStore
  imports TradeRecord Tables
begin

text \<open>
  The PostgreSQL storage of trade logs: \<open>SaveTradeLogs\<close> of \<open>tradelogs/storage/postgres/tradelog.go\<close>
  with the statements it executes, the function \<open>create_or_update_tradelogs\<close> of \<open>schema/schema.go\<close>, and
  \<open>LastBlock\<close> of \<open>postgres.go\<close>.

  A table is the list of its rows in the order of their insertion; rows are never deleted. The serial
  id of a reserve is its position, and the serial id of a trade log is its unique key, the transaction
  hash and the log index. A statement that violates a constraint fails; that it fails for another
  reason, as a lost connection, is a parameter.
\<close>

section \<open>Tables\<close>

record reserve_row =
  rv_address :: addr
  rv_reserve_id :: "hash option"
  rv_type :: nat
  rv_rebate_wallet :: "addr option"
  rv_block :: nat

type_synonym trade_id = "hash \<times> nat"

record tradelog_row =
  tl_id :: trade_id
  tl_timestamp :: gotime
  tl_block_number :: nat
  tl_eth_amount :: f64
  tl_original_eth_amount :: f64
  tl_user :: addr
  tl_src :: addr
  tl_dst :: addr
  tl_wallet :: addr
  tl_src_amount :: f64
  tl_dst_amount :: f64
  tl_integration_app :: string
  tl_ip :: "string option"
  tl_country :: "string option"
  tl_eth_usd_rate :: f64
  tl_eth_usd_provider :: string
  tl_kyced :: bool
  tl_is_first_trade :: bool
  tl_tx_sender :: addr
  tl_receiver :: addr
  tl_gas_used :: nat
  tl_gas_price :: f64
  tl_transaction_fee :: f64
  tl_version :: nat

record fee_row =
  fe_trade :: trade_id
  fe_data :: fee_record

record split_row =
  sr_trade :: trade_id
  sr_reserve :: nat
  sr_src :: addr
  sr_dst :: addr
  sr_src_amount :: f64
  sr_rate :: f64
  sr_dst_amount :: "f64 option"
  sr_index :: nat
  sr_eth_amount :: "f64 option"

record trade_db =
  db_users :: "(addr \<times> gotime) list"
  db_wallets :: "(addr \<times> string) list"
  db_tokens :: "addr list"
  db_reserves :: "reserve_row list"
  db_tradelogs :: "tradelog_row list"
  db_fees :: "fee_row list"
  db_splits :: "split_row list"

section \<open>Statements\<close>

definition reserve_key :: "reserve_row \<Rightarrow> addr \<times> hash option \<times> nat" where
  "reserve_key r = (rv_address r, rv_reserve_id r, rv_block r)"

definition saveReserve :: "Reserve list \<Rightarrow> trade_db \<Rightarrow> go_err + trade_db" where
  "saveReserve reserves db = Inr (db\<lparr> db_reserves :=
     fold (\<lambda>r. insert_new reserve_key
        \<lparr> rv_address = rs_Address r, rv_reserve_id = Some (rs_ReserveID r), rv_type = rs_ReserveType r,
          rv_rebate_wallet = Some (rs_RebateWallet r), rv_block = rs_BlockNumber r \<rparr>)
      reserves (db_reserves db) \<rparr>)"

text \<open>The first row of a reserve id with the greatest block number.\<close>

fun latest_reserve :: "hash \<Rightarrow> reserve_row list \<Rightarrow> reserve_row option" where
  "latest_reserve h [] = None"
| "latest_reserve h (r # rs) =
     (if rv_reserve_id r = Some h then
        (case latest_reserve h rs of
           None \<Rightarrow> Some r
         | Some r' \<Rightarrow> if rv_block r < rv_block r' then Some r' else Some r)
      else latest_reserve h rs)"

definition not_null :: go_err where "not_null = Err ''null value violates not-null constraint''"

definition rebate_wallet_stmt :: "Reserve \<Rightarrow> trade_db \<Rightarrow> go_err + trade_db" where
  "rebate_wallet_stmt r db =
     (case latest_reserve (rs_ReserveID r) (db_reserves db) of
        None \<Rightarrow> Inl not_null
      | Some l \<Rightarrow> Inr (db\<lparr> db_reserves := insert_new reserve_key
          \<lparr> rv_address = rv_address l, rv_reserve_id = Some (rs_ReserveID r), rv_type = rv_type l,
            rv_rebate_wallet = Some (rs_RebateWallet r), rv_block = rs_BlockNumber r \<rparr>
          (db_reserves db) \<rparr>))"

definition saveReserveAddress :: "addr list \<Rightarrow> trade_db \<Rightarrow> go_err + trade_db" where
  "saveReserveAddress addresses db = Inr (db\<lparr> db_reserves :=
     fold (\<lambda>a. insert_new reserve_key
        \<lparr> rv_address = a, rv_reserve_id = None, rv_type = 0, rv_rebate_wallet = None, rv_block = 0 \<rparr>)
      addresses (db_reserves db) \<rparr>)"

definition saveTokens :: "addr list \<Rightarrow> trade_db \<Rightarrow> go_err + trade_db" where
  "saveTokens tokens db = Inr (db\<lparr> db_tokens := fold (insert_new id) tokens (db_tokens db) \<rparr>)"

definition insertionUser :: "trade_record \<Rightarrow> trade_db \<Rightarrow> go_err + trade_db" where
  "insertionUser r db =
     Inr (db\<lparr> db_users := insert_new fst (r_UserAddress r, r_Timestamp r) (db_users db) \<rparr>)"

definition insertionWallet :: "trade_record \<Rightarrow> trade_db \<Rightarrow> go_err + trade_db" where
  "insertionWallet r db =
     Inr (db\<lparr> db_wallets := insert_new fst (r_WalletAddress r, r_WalletName r) (db_wallets db) \<rparr>)"

section \<open>create_or_update_tradelogs\<close>

definition record_id :: "trade_record \<Rightarrow> trade_id" where
  "record_id r = (r_TransactionHash r, r_Index r)"

definition row_of_record :: "trade_record \<Rightarrow> tradelog_row" where
  "row_of_record r = \<lparr> tl_id = record_id r, tl_timestamp = r_Timestamp r,
     tl_block_number = r_BlockNumber r, tl_eth_amount = r_EthAmount r,
     tl_original_eth_amount = r_OriginalEthAmount r, tl_user = r_UserAddress r,
     tl_src = r_SrcAddress r, tl_dst = r_DestAddress r, tl_wallet = r_WalletAddress r,
     tl_src_amount = r_SrcAmount r, tl_dst_amount = r_DestAmount r,
     tl_integration_app = r_IntegrationApp r, tl_ip = r_IP r, tl_country = r_Country r,
     tl_eth_usd_rate = r_ETHUSDRate r, tl_eth_usd_provider = r_ETHUSDProvider r,
     tl_kyced = r_Kyced r, tl_is_first_trade = r_IsFirstTrade r, tl_tx_sender = r_TxSender r,
     tl_receiver = r_ReceiverAddress r, tl_gas_used = r_GasUsed r, tl_gas_price = r_GasPrice r,
     tl_transaction_fee = r_TransactionFee r, tl_version = r_Version r \<rparr>"

text \<open>\<open>ON CONFLICT (tx_hash, index) DO UPDATE SET timestamp = _timestamp\<close>.\<close>

fun upsert_tradelog :: "tradelog_row \<Rightarrow> tradelog_row list \<Rightarrow> tradelog_row list" where
  "upsert_tradelog r [] = [r]"
| "upsert_tradelog r (x # xs) =
     (if tl_id x = tl_id r then x\<lparr> tl_timestamp := tl_timestamp r \<rparr> # xs
      else x # upsert_tradelog r xs)"

text \<open>\<open>ON CONFLICT (trade_id, index) DO UPDATE SET reserve_address = _address\<close>.\<close>

fun upsert_fee :: "fee_row \<Rightarrow> fee_row list \<Rightarrow> fee_row list" where
  "upsert_fee f [] = [f]"
| "upsert_fee f (x # xs) =
     (if fe_trade x = fe_trade f \<and> fr_index (fe_data x) = fr_index (fe_data f)
      then x\<lparr> fe_data := (fe_data x)\<lparr> fr_reserve := fr_reserve (fe_data f) \<rparr> \<rparr> # xs
      else x # upsert_fee f xs)"

text \<open>
  \<open>MAX(id)\<close> of the reserves with an id for version 4, \<open>MIN(id)\<close> of those with an address before.
\<close>

definition split_reserve :: "nat \<Rightarrow> rsv_ref \<Rightarrow> reserve_row list \<Rightarrow> nat option" where
  "split_reserve version ref rows =
     (let ids = filter (\<lambda>i. (case ref of
            RsvId h \<Rightarrow> version = 4 \<and> rv_reserve_id (rows ! i) = Some h
          | RsvAddr a \<Rightarrow> version \<noteq> 4 \<and> rv_address (rows ! i) = a)) [0..<length rows]
      in if ids = [] then None else if version = 4 then Some (last ids) else Some (hd ids))"

definition split_key :: "split_row \<Rightarrow> trade_id \<times> nat" where
  "split_key s = (sr_trade s, sr_index s)"

definition insert_split :: "trade_id \<Rightarrow> nat \<Rightarrow> split_record \<Rightarrow> trade_db \<Rightarrow> go_err + trade_db" where
  "insert_split t version s db =
     (case (split_reserve version (spl_ref s) (db_reserves db), spl_rate s, spl_index s) of
        (Some i, Some rate, Some index) \<Rightarrow>
          Inr (db\<lparr> db_splits := insert_new split_key
            \<lparr> sr_trade = t, sr_reserve = i, sr_src = spl_src s, sr_dst = spl_dst s,
              sr_src_amount = spl_src_amount s, sr_rate = rate, sr_dst_amount = spl_dst_amount s,
              sr_index = index,
              sr_eth_amount = (if spl_src s = ETHAddr then Some (spl_src_amount s) else spl_dst_amount s) \<rparr>
            (db_splits db) \<rparr>)
      | _ \<Rightarrow> Inl not_null)"

fun insert_splits :: "trade_id \<Rightarrow> nat \<Rightarrow> split_record list \<Rightarrow> trade_db \<Rightarrow> go_err + trade_db" where
  "insert_splits t version [] db = Inr db"
| "insert_splits t version (s # ss) db =
     go_bind (insert_split t version s db) (insert_splits t version ss)"

definition create_or_update_tradelogs :: "trade_record \<Rightarrow> fee_record list \<Rightarrow> split_record list
    \<Rightarrow> trade_db \<Rightarrow> go_err + trade_db" where
  "create_or_update_tradelogs r fees splits db =
     (if r_UserAddress r \<notin> fst ` set (db_users db) \<or> r_SrcAddress r \<notin> set (db_tokens db) \<or>
         r_DestAddress r \<notin> set (db_tokens db) \<or> r_WalletAddress r \<notin> fst ` set (db_wallets db)
      then Inl not_null
      else insert_splits (record_id r) (r_Version r) splits
        (db\<lparr> db_tradelogs := upsert_tradelog (row_of_record r) (db_tradelogs db),
             db_fees := fold (\<lambda>f. upsert_fee \<lparr> fe_trade = record_id r, fe_data = f \<rparr>) fees (db_fees db) \<rparr>))"

section \<open>Transactions\<close>

text \<open>
  The body of a transaction counts its statements: \<open>fails n\<close> is the error of the \<open>n\<close>-th one, if it
  fails for a reason outside the database's constraints. The body ends normally, with an error of a
  statement, or with an error of the program itself, which the database does not see.
\<close>

datatype tx_out = TxOk nat trade_db | TxStmtErr go_err | TxProgErr go_err trade_db

definition tx_exec :: "(nat \<Rightarrow> go_err option) \<Rightarrow> (trade_db \<Rightarrow> go_err + trade_db) \<Rightarrow> nat \<Rightarrow> trade_db \<Rightarrow> tx_out" where
  "tx_exec fails stmt n db =
     (case fails n of
        Some e \<Rightarrow> TxStmtErr e
      | None \<Rightarrow> (case stmt db of Inl e \<Rightarrow> TxStmtErr e | Inr db' \<Rightarrow> TxOk (Suc n) db'))"

fun tx_then :: "tx_out \<Rightarrow> (nat \<Rightarrow> trade_db \<Rightarrow> tx_out) \<Rightarrow> tx_out" where
  "tx_then (TxOk n db) k = k n db"
| "tx_then (TxStmtErr e) k = TxStmtErr e"
| "tx_then (TxProgErr e db) k = TxProgErr e db"

text \<open>
  \<open>defer CommitOrRollback(tx, logger, &err)\<close>. In both functions that use it, the \<open>err\<close> it is given is
  a variable declared by \<open>tx, err := Beginx()\<close> inside the body, not the result of the function. What it
  assigns to \<open>err\<close> is lost, and an error of the program leaves that \<open>err\<close> nil, so that the transaction
  is committed. After a failed statement the server rolls back in either case.
\<close>

fun CommitOrRollback :: "go_err option \<Rightarrow> tx_out \<Rightarrow> trade_db \<Rightarrow> trade_db \<times> go_err option" where
  "CommitOrRollback commit_err (TxOk n db') db = (case commit_err of None \<Rightarrow> (db', None) | Some e \<Rightarrow> (db, None))"
| "CommitOrRollback commit_err (TxStmtErr e) db = (db, Some e)"
| "CommitOrRollback commit_err (TxProgErr e db') db =
     (case commit_err of None \<Rightarrow> (db', Some e) | Some _ \<Rightarrow> (db, Some e))"

record sql_env =
  se_saveReserve :: "go_err option"
  se_rebate_begin :: "go_err option"
  se_rebate :: "nat \<Rightarrow> go_err option"
  se_rebate_commit :: "go_err option"
  se_isFirstTrade :: "addr \<Rightarrow> go_err option"
  se_begin :: "go_err option"
  se_stmt :: "nat \<Rightarrow> go_err option"
  se_commit :: "go_err option"

definition no_errors :: sql_env where
  "no_errors = \<lparr> se_saveReserve = None, se_rebate_begin = None, se_rebate = (\<lambda>n. None),
     se_rebate_commit = None, se_isFirstTrade = (\<lambda>a. None), se_begin = None,
     se_stmt = (\<lambda>n. None), se_commit = None \<rparr>"

fun rebate_body :: "(nat \<Rightarrow> go_err option) \<Rightarrow> Reserve list \<Rightarrow> nat \<Rightarrow> trade_db \<Rightarrow> tx_out" where
  "rebate_body fails [] n db = TxOk n db"
| "rebate_body fails (r # rs) n db =
     tx_then (tx_exec fails (rebate_wallet_stmt r) n db) (rebate_body fails rs)"

definition updateRebateWallet :: "sql_env \<Rightarrow> Reserve list \<Rightarrow> trade_db \<Rightarrow> trade_db \<times> go_err option" where
  "updateRebateWallet S reserves db =
     (case se_rebate_begin S of
        Some e \<Rightarrow> (db, Some e)
      | None \<Rightarrow> CommitOrRollback (se_rebate_commit S) (rebate_body (se_rebate S) reserves 0 db) db)"

section \<open>SaveTradeLogs\<close>

definition isFirstTrade :: "sql_env \<Rightarrow> addr \<Rightarrow> trade_db \<Rightarrow> bool go" where
  "isFirstTrade S a db =
     (case se_isFirstTrade S a of
        Some e \<Rightarrow> Inl e | None \<Rightarrow> Inr (a \<notin> fst ` set (db_users db)))"

text \<open>
  The first loop: the records, with the users seen so far. The trade logs are returned as the loop
  leaves them.
\<close>

fun gather_records :: "sql_env \<Rightarrow> formatter \<Rightarrow> trade_db \<Rightarrow> addr set \<Rightarrow> TradelogV4 list
    \<Rightarrow> trade_record list go \<times> TradelogV4 list" where
  "gather_records S F db users [] = (Inr [], [])"
| "gather_records S F db users (trd # logs) =
     (case recordFromTradeLog F trd of
        (Inl e, trd') \<Rightarrow> (Inl e, trd' # logs)
      | (Inr r, trd') \<Rightarrow>
          (let user = ui_UserAddress (User trd) in
           case (if user \<in> users then Inr False else isFirstTrade S user db) of
             Inl e \<Rightarrow> (Inl e, trd' # logs)
           | Inr first \<Rightarrow>
               (let (rs, logs') = gather_records S F db (insert user users) logs
                in (go_bind rs (\<lambda>rs. Inr (r\<lparr> r_IsFirstTrade := first \<rparr> # rs)), trd' # logs'))))"

text \<open>The second loop: the tokens and the addresses of reserves, each once, in the order of the records.\<close>

definition add_once :: "'a \<Rightarrow> 'a list \<Rightarrow> 'a list" where
  "add_once x xs = (if x \<in> set xs then xs else xs @ [x])"

definition tokens_of :: "trade_record list \<Rightarrow> addr list" where
  "tokens_of rs = fold (\<lambda>r. add_once (r_DestAddress r) \<circ> add_once (r_SrcAddress r)) rs []"

definition reserves_of :: "trade_record list \<Rightarrow> addr list" where
  "reserves_of rs = fold (\<lambda>r. add_once (r_DstReserveAddress r) \<circ> add_once (r_SrcReserveAddress r)) rs []"

definition save_record :: "sql_env \<Rightarrow> formatter \<Rightarrow> trade_record \<Rightarrow> nat \<Rightarrow> trade_db \<Rightarrow> tx_out" where
  "save_record S F r n db =
     tx_then (tx_exec (se_stmt S) (insertionUser r) n db) (\<lambda>n db.
     tx_then (tx_exec (se_stmt S) (insertionWallet r) n db) (\<lambda>n db.
       (case go_bind (prepareFeeRecords F (r_Fee r)) (\<lambda>fees.
             go_bind (prepareSplitRecords F r) (\<lambda>splits. Inr (fees, splits))) of
          Inl e \<Rightarrow> TxProgErr e db
        | Inr (fees, splits) \<Rightarrow> tx_exec (se_stmt S) (create_or_update_tradelogs r fees splits) n db)))"

fun save_records :: "sql_env \<Rightarrow> formatter \<Rightarrow> trade_record list \<Rightarrow> nat \<Rightarrow> trade_db \<Rightarrow> tx_out" where
  "save_records S F [] n db = TxOk n db"
| "save_records S F (r # rs) n db = tx_then (save_record S F r n db) (save_records S F rs)"

definition save_body :: "sql_env \<Rightarrow> formatter \<Rightarrow> trade_record list \<Rightarrow> trade_db \<Rightarrow> tx_out" where
  "save_body S F rs db =
     tx_then (if reserves_of rs = [] then TxOk 0 db
              else tx_exec (se_stmt S) (saveReserveAddress (reserves_of rs)) 0 db) (\<lambda>n db.
     tx_then (tx_exec (se_stmt S) (saveTokens (tokens_of rs)) n db) (save_records S F rs))"

definition save_trade_records :: "sql_env \<Rightarrow> formatter \<Rightarrow> TradelogV4 list \<Rightarrow> trade_db
    \<Rightarrow> trade_db \<times> TradelogV4 list \<times> go_err option" where
  "save_trade_records S F logs db =
     (case gather_records S F db {} logs of
        (Inl e, logs') \<Rightarrow> (db, logs', Some e)
      | (Inr rs, logs') \<Rightarrow>
          (case se_begin S of
             Some e \<Rightarrow> (db, logs', Some e)
           | None \<Rightarrow> (case CommitOrRollback (se_commit S) (save_body S F rs db) db of
                       (db', err) \<Rightarrow> (db', logs', err))))"

definition save_reserves :: "sql_env \<Rightarrow> CrawlResult \<Rightarrow> trade_db \<Rightarrow> trade_db \<times> go_err option" where
  "save_reserves S cr db =
     (case (if cr_Reserves cr = [] then Inr db
            else case se_saveReserve S of Some e \<Rightarrow> Inl e | None \<Rightarrow> saveReserve (cr_Reserves cr) db) of
        Inl e \<Rightarrow> (db, Some e)
      | Inr db \<Rightarrow> if cr_UpdateWallets cr = [] then (db, None)
                  else updateRebateWallet S (cr_UpdateWallets cr) db)"

text \<open>The database, the trade logs as the call leaves them, and the error.\<close>

definition SaveTradeLogs :: "sql_env \<Rightarrow> formatter \<Rightarrow> CrawlResult option \<Rightarrow> trade_db
    \<Rightarrow> trade_db \<times> TradelogV4 list \<times> go_err option" where
  "SaveTradeLogs S F crResult db =
     (case crResult of
        None \<Rightarrow> (db, [], None)
      | Some cr \<Rightarrow>
          (case save_reserves S cr db of
             (db, Some e) \<Rightarrow> (db, cr_Trades cr, Some e)
           | (db, None) \<Rightarrow> save_trade_records S F (cr_Trades cr) db))"

text \<open>\<open>SELECT MAX(block_number)\<close>, 0 for an empty table.\<close>

definition trades_LastBlock :: "trade_db \<Rightarrow> nat" where
  "trades_LastBlock db = Max (insert 0 (tl_block_number ` set (db_tradelogs db)))"

end
