(* ===== verification/TradeStoreFacts.thy ===== *)
theory TradeStoreFacts
  imports TradeStore
begin

text \<open>
  What the statements and the transactions of theory TradeStore do: which tables they change, that the
  program's own formatter leaves no error to the program, the invariant of the first trades, and that
  a second run of the statements of a record finds its rows and changes nothing.
\<close>

section \<open>Effects of the statements\<close>

lemma tx_then_Ok_iff: "tx_then t k = TxOk n db \<longleftrightarrow> (\<exists>m db'. t = TxOk m db' \<and> k m db' = TxOk n db)"
  by (cases t) auto

lemma tx_then_Prog_iff: "tx_then t k = TxProgErr e db \<longleftrightarrow>
    t = TxProgErr e db \<or> (\<exists>m db'. t = TxOk m db' \<and> k m db' = TxProgErr e db)"
  by (cases t) auto

lemma tx_exec_Ok_iff:
  "tx_exec fails stmt n db = TxOk n' db' \<longleftrightarrow> fails n = None \<and> stmt db = Inr db' \<and> n' = Suc n"
  by (auto simp: tx_exec_def split: option.splits sum.splits)

lemma tx_exec_not_Prog [simp]: "tx_exec fails stmt n db \<noteq> TxProgErr e db'"
  by (auto simp: tx_exec_def split: option.splits sum.splits)

lemmas tx_simps = tx_then_Ok_iff tx_then_Prog_iff tx_exec_Ok_iff

lemma insert_splits_frame:
  "insert_splits t v ss db = Inr db' \<Longrightarrow> \<exists>s. db' = db\<lparr> db_splits := s \<rparr>"
proof (induction ss arbitrary: db)
  case Nil
  then show ?case by (intro exI [of _ "db_splits db"]) simp
next
  case (Cons s ss)
  then obtain db1 where db1: "insert_split t v s db = Inr db1" "insert_splits t v ss db1 = Inr db'"
    by (auto simp: go_bind_Inr_iff)
  from db1(1) obtain s1 where "db1 = db\<lparr> db_splits := s1 \<rparr>"
    by (auto simp: insert_split_def split: option.splits)
  with Cons.IH [OF db1(2)] show ?case by auto
qed

definition with_user_wallet :: "trade_record \<Rightarrow> trade_db \<Rightarrow> trade_db" where
  "with_user_wallet r db = db\<lparr> db_users := insert_new fst (r_UserAddress r, r_Timestamp r) (db_users db),
     db_wallets := insert_new fst (r_WalletAddress r, r_WalletName r) (db_wallets db) \<rparr>"

lemma save_record_Ok:
  assumes "save_record S F r n db = TxOk n' db'"
  obtains fees splits where "prepareFeeRecords F (r_Fee r) = Inr fees"
    "prepareSplitRecords F r = Inr splits"
    "create_or_update_tradelogs r fees splits (with_user_wallet r db) = Inr db'"
  using assms
  by (auto simp: save_record_def tx_simps insertionUser_def insertionWallet_def go_bind_Inr_iff
      with_user_wallet_def split: sum.splits)

lemma save_record_tables:
  assumes "save_record S F r n db = TxOk n' db'"
  shows "db_users db' = insert_new fst (r_UserAddress r, r_Timestamp r) (db_users db)"
    and "db_tradelogs db' = upsert_tradelog (row_of_record r) (db_tradelogs db)"
    and "db_tokens db' = db_tokens db" "db_reserves db' = db_reserves db"
proof -
  from assms obtain fees splits where
    c: "create_or_update_tradelogs r fees splits (with_user_wallet r db) = Inr db'"
    by (rule save_record_Ok)
  then obtain s where "db' = (with_user_wallet r db)\<lparr>
      db_tradelogs := upsert_tradelog (row_of_record r) (db_tradelogs db),
      db_fees := fold (\<lambda>f. upsert_fee \<lparr> fe_trade = record_id r, fe_data = f \<rparr>) fees (db_fees db),
      db_splits := s \<rparr>"
    by (auto simp: create_or_update_tradelogs_def with_user_wallet_def
        dest!: insert_splits_frame split: if_splits)
  then show "db_users db' = insert_new fst (r_UserAddress r, r_Timestamp r) (db_users db)"
    "db_tradelogs db' = upsert_tradelog (row_of_record r) (db_tradelogs db)"
    "db_tokens db' = db_tokens db" "db_reserves db' = db_reserves db"
    by (simp_all add: with_user_wallet_def)
qed

lemma upsert_tradelog_ids: "tl_id ` set (upsert_tradelog r rows) = insert (tl_id r) (tl_id ` set rows)"
  by (induction r rows rule: upsert_tradelog.induct) auto

lemma save_records_ids:
  "save_records S F rs n db = TxOk n' db' \<Longrightarrow>
     tl_id ` set (db_tradelogs db') = record_id ` set rs \<union> tl_id ` set (db_tradelogs db)"
proof (induction rs arbitrary: n db)
  case (Cons r rs)
  then obtain m db1 where 1: "save_record S F r n db = TxOk m db1" "save_records S F rs m db1 = TxOk n' db'"
    by (auto simp: tx_simps)
  show ?case
    unfolding Cons.IH [OF 1(2)] save_record_tables(2) [OF 1(1)]
    by (auto simp: upsert_tradelog_ids row_of_record_def)
qed simp

lemma save_body_Ok:
  assumes "save_body S F rs db = TxOk n db'"
  obtains m dbt where "save_records S F rs m dbt = TxOk n db'"
    "dbt = db\<lparr> db_reserves := db_reserves dbt, db_tokens := fold (insert_new id) (tokens_of rs) (db_tokens db) \<rparr>"
    "saveReserveAddress (reserves_of rs) db = Inr (db\<lparr> db_reserves := db_reserves dbt \<rparr>)"
  using assms
  by (auto simp: save_body_def tx_simps saveTokens_def saveReserveAddress_def split: if_splits)

section \<open>Errors of the program\<close>

definition splits_ok :: "TradelogV4 \<Rightarrow> bool" where
  "splits_ok trd \<longleftrightarrow> (Version trd = 4 \<longrightarrow>
     length (T2EReserves trd) \<le> length (T2ESrcAmount trd) \<and> length (T2EReserves trd) \<le> length (T2ERates trd) \<and>
     length (E2TReserves trd) \<le> length (E2TSrcAmount trd) \<and> length (E2TReserves trd) \<le> length (E2TRates trd))"

definition record_splits_ok :: "trade_record \<Rightarrow> bool" where
  "record_splits_ok r \<longleftrightarrow> (r_Version r = 4 \<longrightarrow>
     length (r_T2EReserves r) \<le> length (r_T2ESrcAmount r) \<and> length (r_T2EReserves r) \<le> length (r_T2ERates r) \<and>
     length (r_E2TReserves r) \<le> length (r_E2TSrcAmount r) \<and> length (r_E2TReserves r) \<le> length (r_E2TRates r))"

definition no_panics :: "contract_decimals \<Rightarrow> bool" where
  "no_panics contract \<longleftrightarrow> (\<forall>a e. contract a \<noteq> Inl (Panic e))"

lemma prepareFeeRecords_total: "\<exists>rows. prepareFeeRecords (formatter_of contract) fees = Inr rows"
  by (induction fees) (auto simp: formatter_of_ETH)

lemma calculateDstAmount_no_panic:
  assumes "no_panics contract"
  shows "calculateDstAmount (formatter_of contract) src dst amount rate \<noteq> Inl (Panic e)"
proof -
  have "decimals_of contract a \<noteq> Inl (Panic e')" for a e'
    using assms by (simp add: decimals_of_def no_panics_def)
  moreover have "errors_Wrap m x \<noteq> Panic e'" if "x \<noteq> Panic e'" for m x e'
    using that by (cases x) auto
  ultimately show ?thesis
    by (auto simp: calculateDstAmount_def formatter_of_def go_bind_Inl_iff on_err_Inl_iff split: if_splits)
qed

lemma split_loop_total:
  assumes "no_panics contract"
  shows "index + length reserves \<le> length amounts \<Longrightarrow> index + length reserves \<le> length rates
    \<Longrightarrow> \<exists>x. split_loop (formatter_of contract) src dst index k reserves amounts rates = Inr x"
proof (induction reserves arbitrary: index k)
  case Nil
  show ?case by (rule exI [of _ "([], False)"]) simp
next
  case (Cons s reserves)
  have "\<exists>x. split_loop (formatter_of contract) src dst (Suc index) (Suc k) reserves amounts rates = Inr x"
    using Cons.prems by (intro Cons.IH) auto
  then show ?case
    using Cons.prems calculateDstAmount_no_panic [OF assms]
    by (auto simp: go_nth_Inr split: sum.split go_err.split)
qed

lemma prepareSplitRecords_total:
  assumes "no_panics contract" "record_splits_ok r"
  shows "\<exists>rows. prepareSplitRecords (formatter_of contract) r = Inr rows"
proof (cases "r_Version r = 4")
  case True
  let ?F = "formatter_of contract"
  from True assms(2) have len:
    "0 + length (r_T2EReserves r) \<le> length (r_T2ESrcAmount r)" "0 + length (r_T2EReserves r) \<le> length (r_T2ERates r)"
    "0 + length (r_E2TReserves r) \<le> length (r_E2TSrcAmount r)" "0 + length (r_E2TReserves r) \<le> length (r_E2TRates r)"
    by (simp_all add: record_splits_ok_def)
  from split_loop_total [OF assms(1) len(1,2), of "r_SrcAddress r" ETHAddr 0] obtain t2e ret where
    1: "split_loop ?F (r_SrcAddress r) ETHAddr 0 0 (r_T2EReserves r) (r_T2ESrcAmount r) (r_T2ERates r) = Inr (t2e, ret)"
    by auto
  from split_loop_total [OF assms(1) len(3,4), of ETHAddr "r_DestAddress r" "length t2e"] 1 True
  show ?thesis by (auto simp: prepareSplitRecords_def)
qed (simp add: prepareSplitRecords_def)

lemma save_records_no_prog_err:
  assumes "no_panics contract" "\<forall>r\<in>set rs. record_splits_ok r"
  shows "save_records S (formatter_of contract) rs n db \<noteq> TxProgErr e db'"
  using assms(2)
proof (induction rs arbitrary: n db)
  case (Cons r rs)
  from prepareFeeRecords_total obtain fees where
    "prepareFeeRecords (formatter_of contract) (r_Fee r) = Inr fees" by blast
  moreover from prepareSplitRecords_total [OF assms(1)] Cons.prems obtain splits where
    "prepareSplitRecords (formatter_of contract) r = Inr splits" by auto
  ultimately have "save_record S (formatter_of contract) r n db \<noteq> TxProgErr e' db''" for n db e' db''
    by (simp add: save_record_def tx_then_Prog_iff)
  with Cons show ?case by (simp add: tx_then_Prog_iff)
qed simp

lemma save_body_no_prog_err:
  assumes "no_panics contract" "\<forall>r\<in>set rs. record_splits_ok r"
  shows "save_body S (formatter_of contract) rs db \<noteq> TxProgErr e db'"
  using save_records_no_prog_err [OF assms] by (auto simp: save_body_def tx_then_Prog_iff)

section \<open>Records\<close>

lemma from_weis_length: "from_weis F a xs = Inr ys \<Longrightarrow> length ys = length xs"
  by (induction xs arbitrary: ys) (auto simp: go_bind_Inr_iff)

lemma recordFromTradeLog_fields:
  assumes "recordFromTradeLog F trd = (Inr r, trd')"
  shows "record_id r = (TransactionHash trd, Index trd)" "r_UserAddress r = ui_UserAddress (User trd)"
    "splits_ok trd \<Longrightarrow> record_splits_ok r" "r_Fee r = Fees trd" "r_Timestamp r = Timestamp trd"
  using assms
  by (auto simp: recordFromTradeLog_def record_id_def splits_ok_def record_splits_ok_def go_bind_Inr_iff
      dest!: from_weis_length split: sum.splits prod.splits)

definition record_of :: "TradelogV4 \<Rightarrow> trade_record \<Rightarrow> bool" where
  "record_of trd r \<longleftrightarrow> record_id r = (TransactionHash trd, Index trd) \<and>
     r_UserAddress r = ui_UserAddress (User trd) \<and> (splits_ok trd \<longrightarrow> record_splits_ok r) \<and>
     r_Fee r = Fees trd \<and> r_Timestamp r = Timestamp trd"

fun flags_ok :: "addr set \<Rightarrow> trade_record list \<Rightarrow> bool" where
  "flags_ok U [] \<longleftrightarrow> True"
| "flags_ok U (r # rs) \<longleftrightarrow>
     (r_IsFirstTrade r \<longleftrightarrow> r_UserAddress r \<notin> U) \<and> flags_ok (insert (r_UserAddress r) U) rs"

lemma gather_records_spec:
  "gather_records S F db users logs = (Inr rs, logs') \<Longrightarrow>
     list_all2 record_of logs rs \<and> flags_ok (users \<union> fst ` set (db_users db)) rs"
proof (induction logs arbitrary: users rs logs')
  case (Cons trd logs)
  obtain x trd' where rec: "recordFromTradeLog F trd = (x, trd')" by (cases "recordFromTradeLog F trd")
  with Cons.prems obtain r where r: "recordFromTradeLog F trd = (Inr r, trd')" by (cases x) auto
  let ?u = "ui_UserAddress (User trd)"
  from r Cons.prems obtain first where
    f: "(if ?u \<in> users then Inr False else isFirstTrade S ?u db) = Inr first"
    by (auto simp: Let_def split: sum.splits if_splits)
  from r f Cons.prems obtain rs1 logs1 where
    1: "gather_records S F db (insert ?u users) logs = (Inr rs1, logs1)"
       "rs = r\<lparr> r_IsFirstTrade := first \<rparr> # rs1"
    by (auto simp: Let_def go_bind_Inr_iff split: prod.splits)
  have "first \<longleftrightarrow> ?u \<notin> users \<union> fst ` set (db_users db)"
    using f by (auto simp: isFirstTrade_def split: if_splits option.splits)
  moreover have "record_of trd (r\<lparr> r_IsFirstTrade := first \<rparr>)"
    using recordFromTradeLog_fields [OF r]
    by (simp add: record_of_def record_id_def record_splits_ok_def)
  ultimately show ?case
    using Cons.IH [OF 1(1)] recordFromTradeLog_fields(2) [OF r] by (simp add: 1(2))
qed simp

section \<open>All or nothing\<close>

definition trade_part :: "trade_db \<Rightarrow> trade_db" where
  "trade_part db = db\<lparr> db_reserves := [] \<rparr>"

lemma rebate_body_frame:
  "rebate_body fails rs n db = TxOk n' db' \<Longrightarrow> trade_part db' = trade_part db"
proof (induction rs arbitrary: n db)
  case (Cons r rs)
  then obtain db1 where "rebate_wallet_stmt r db = Inr db1" "trade_part db' = trade_part db1"
    by (auto simp: tx_simps)
  then show ?case by (auto simp: rebate_wallet_stmt_def trade_part_def split: option.splits)
qed simp

lemma rebate_body_no_prog_err: "rebate_body fails rs n db \<noteq> TxProgErr e db'"
  by (induction rs arbitrary: n db) (auto simp: tx_then_Prog_iff)

lemma save_reserves_frame: "save_reserves S cr db = (db', err) \<Longrightarrow> trade_part db' = trade_part db"
proof -
  have "trade_part db' = trade_part db" if "updateRebateWallet S rs db = (db', err)" for rs db
    using that rebate_body_no_prog_err [of "se_rebate S" rs 0 db]
    by (cases "rebate_body (se_rebate S) rs 0 db")
      (auto simp: updateRebateWallet_def dest!: rebate_body_frame split: option.splits)
  then show "save_reserves S cr db = (db', err) \<Longrightarrow> trade_part db' = trade_part db"
    by (auto simp: save_reserves_def saveReserve_def trade_part_def split: if_splits option.splits)
qed

lemma list_all2_set_image:
  "list_all2 P xs ys \<Longrightarrow> (\<And>x y. P x y \<Longrightarrow> f x = g y) \<Longrightarrow> f ` set xs = g ` set ys"
  by (induction rule: list_all2_induct) auto

definition trade_id_of :: "TradelogV4 \<Rightarrow> trade_id" where
  "trade_id_of trd = (TransactionHash trd, Index trd)"

text \<open>What \<open>save_trade_records\<close> does when it returns, in the three cases there are.\<close>

lemma save_trade_records_cases [consumes 3, case_names error commit_lost saved]:
  assumes "save_trade_records S (formatter_of contract) logs db = (db', logs', err)"
    and "no_panics contract" "\<forall>trd\<in>set logs. splits_ok trd"
  obtains (error) "err \<noteq> None" "db' = db"
  | (commit_lost) "err = None" "se_commit S \<noteq> None" "db' = db"
  | (saved) rs n where "err = None" "se_commit S = None" "se_begin S = None"
      "gather_records S (formatter_of contract) db {} logs = (Inr rs, logs')"
      "save_body S (formatter_of contract) rs db = TxOk n db'"
proof (cases "gather_records S (formatter_of contract) db {} logs")
  case (Pair x logs1)
  show ?thesis
  proof (cases x)
    case (Inl e)
    with Pair assms(1) show ?thesis by (intro error) (auto simp: save_trade_records_def)
  next
    case (Inr rs)
    with Pair have g: "gather_records S (formatter_of contract) db {} logs = (Inr rs, logs1)" by simp
    have "record_splits_ok r" if "r \<in> set rs" for r
      using list_all2_source [OF conjunct1 [OF gather_records_spec [OF g]] that] assms(3)
      by (auto simp: record_of_def)
    then have np: "save_body S (formatter_of contract) rs db \<noteq> TxProgErr e db''" for e db''
      using save_body_no_prog_err [OF assms(2)] by blast
    show ?thesis
    proof (cases "se_begin S")
      case None
      with g assms(1) show ?thesis using np error commit_lost saved
        by (cases "save_body S (formatter_of contract) rs db"; cases "se_commit S")
          (auto simp: save_trade_records_def)
    next
      case (Some e)
      with g assms(1) have "err = Some e" "db' = db" by (simp_all add: save_trade_records_def)
      then show ?thesis by (intro error) simp_all
    qed
  qed
qed

lemma save_trade_records_Ok:
  assumes "save_trade_records S F logs db = (db', logs', None)" "se_commit S = None"
  obtains rs n where "gather_records S F db {} logs = (Inr rs, logs')" "save_body S F rs db = TxOk n db'"
proof -
  obtain x logs1 where g: "gather_records S F db {} logs = (x, logs1)" by fastforce
  with assms(1) obtain rs where x: "x = Inr rs" by (cases x) (auto simp: save_trade_records_def)
  show ?thesis
    using assms g x that
    by (cases "save_body S F rs db") (auto simp: save_trade_records_def split: option.splits)
qed

lemma save_body_ids:
  "save_body S F rs db = TxOk n db' \<Longrightarrow>
     tl_id ` set (db_tradelogs db') = record_id ` set rs \<union> tl_id ` set (db_tradelogs db)"
  by (elim save_body_Ok) (metis save_records_ids trade_db.select_convs(5) trade_db.surjective
      trade_db.update_convs(3) trade_db.update_convs(4))

section \<open>First trades\<close>

text \<open>
  Of the rows of a user exactly the first one is marked, and the users are those that have a row.
\<close>

fun first_only :: "bool list \<Rightarrow> bool" where
  "first_only [] \<longleftrightarrow> True"
| "first_only (b # bs) \<longleftrightarrow> b \<and> True \<notin> set bs"

definition rows_of_user :: "addr \<Rightarrow> tradelog_row list \<Rightarrow> tradelog_row list" where
  "rows_of_user u rows = filter (\<lambda>x. tl_user x = u) rows"

definition first_trades_ok :: "trade_db \<Rightarrow> bool" where
  "first_trades_ok db \<longleftrightarrow> (\<forall>u. (u \<in> fst ` set (db_users db) \<longleftrightarrow> rows_of_user u (db_tradelogs db) \<noteq> []) \<and>
     first_only (map tl_is_first_trade (rows_of_user u (db_tradelogs db))))"

definition ids_of_users :: "trade_id \<times> addr \<Rightarrow> tradelog_row list \<Rightarrow> bool" where
  "ids_of_users x rows \<longleftrightarrow> (\<forall>row\<in>set rows. tl_id row = fst x \<longrightarrow> tl_user row = snd x)"

lemma upsert_tradelog_new: "tl_id r \<notin> tl_id ` set rows \<Longrightarrow> upsert_tradelog r rows = rows @ [r]"
  by (induction r rows rule: upsert_tradelog.induct) auto

lemma upsert_tradelog_old:
  assumes "tl_id r \<in> tl_id ` set rows" "\<And>x t. f (x\<lparr> tl_timestamp := t \<rparr>) = f x"
  shows "map f (upsert_tradelog r rows) = map f rows"
  using assms by (induction r rows rule: upsert_tradelog.induct) auto

lemma upsert_tradelog_set: "x \<in> set (upsert_tradelog r rows) \<Longrightarrow>
    x = r \<or> (\<exists>y\<in>set rows. tl_id x = tl_id y \<and> tl_user x = tl_user y)"
  by (induction r rows rule: upsert_tradelog.induct) (auto split: if_splits)

lemma rows_of_user_flags:
  "map tl_is_first_trade (rows_of_user u rows) =
     map snd (filter (\<lambda>p. fst p = u) (map (\<lambda>x. (tl_user x, tl_is_first_trade x)) rows))"
  by (induction rows) (auto simp: rows_of_user_def)

lemma first_only_append: "first_only bs \<Longrightarrow> first_only (bs @ [b]) \<longleftrightarrow> (b \<longleftrightarrow> bs = [])"
  by (cases bs) auto

lemma save_record_first_trades:
  assumes "first_trades_ok db" "save_record S F r n db = TxOk n' db'"
    and "r_IsFirstTrade r \<longleftrightarrow> r_UserAddress r \<notin> fst ` set (db_users db)"
    and "ids_of_users (record_id r, r_UserAddress r) (db_tradelogs db)"
  shows "first_trades_ok db'"
proof -
  let ?row = "row_of_record r"
  note t = save_record_tables(1,2) [OF assms(2)]
  note ok = assms(1) [unfolded first_trades_ok_def, rule_format]
  show ?thesis
  proof (cases "record_id r \<in> tl_id ` set (db_tradelogs db)")
    case True
    then obtain row where "row \<in> set (db_tradelogs db)" "tl_id row = record_id r" by auto
    with assms(4) have "row \<in> set (rows_of_user (r_UserAddress r) (db_tradelogs db))"
      by (auto simp: ids_of_users_def rows_of_user_def)
    with ok have "r_UserAddress r \<in> fst ` set (db_users db)" by (metis empty_iff list.set(1))
    then have users: "fst ` set (db_users db') = fst ` set (db_users db)"
      unfolding t by (simp add: insert_absorb)
    have "map (\<lambda>x. (tl_user x, tl_is_first_trade x)) (db_tradelogs db') =
        map (\<lambda>x. (tl_user x, tl_is_first_trade x)) (db_tradelogs db)"
      unfolding t using True by (intro upsert_tradelog_old) (simp_all add: row_of_record_def)
    then have "map tl_is_first_trade (rows_of_user u (db_tradelogs db')) =
        map tl_is_first_trade (rows_of_user u (db_tradelogs db))" for u
      by (simp only: rows_of_user_flags)
    with ok users show ?thesis unfolding first_trades_ok_def by (metis map_is_Nil_conv)
  next
    case False
    then have rows: "db_tradelogs db' = db_tradelogs db @ [?row]"
      unfolding t by (intro upsert_tradelog_new) (simp add: row_of_record_def)
    show ?thesis
      unfolding first_trades_ok_def
    proof (intro allI conjI)
      fix u
      let ?old = "rows_of_user u (db_tradelogs db)"
      have new: "rows_of_user u (db_tradelogs db') = ?old @ (if u = r_UserAddress r then [?row] else [])"
        unfolding rows by (simp add: rows_of_user_def row_of_record_def)
      show "u \<in> fst ` set (db_users db') \<longleftrightarrow> rows_of_user u (db_tradelogs db') \<noteq> []"
        unfolding new t(1) using ok [of u] by simp
      show "first_only (map tl_is_first_trade (rows_of_user u (db_tradelogs db')))"
        unfolding new using ok [of u] assms(3)
        by (cases "u = r_UserAddress r") (simp_all add: first_only_append row_of_record_def)
    qed
  qed
qed

lemma save_records_first_trades:
  "save_records S F rs n db = TxOk n' db' \<Longrightarrow> first_trades_ok db \<Longrightarrow>
     flags_ok (fst ` set (db_users db)) rs \<Longrightarrow>
     (\<forall>r\<in>set rs. ids_of_users (record_id r, r_UserAddress r) (db_tradelogs db)) \<Longrightarrow>
     (\<forall>r\<in>set rs. \<forall>r'\<in>set rs. record_id r = record_id r' \<longrightarrow> r_UserAddress r = r_UserAddress r') \<Longrightarrow>
     first_trades_ok db'"
proof (induction rs arbitrary: n db)
  case Nil
  from Nil.prems(1,2) show ?case by simp
next
  case (Cons r rs)
  from Cons.prems(1) obtain m db1 where 1: "save_record S F r n db = TxOk m db1" "save_records S F rs m db1 = TxOk n' db'"
    by (auto simp: tx_simps)
  note t = save_record_tables(1,2) [OF 1(1)]
  have ids: "ids_of_users (record_id q, r_UserAddress q) (db_tradelogs db1)" if "q \<in> set rs" for q
    unfolding t ids_of_users_def
  proof (intro ballI impI)
    fix x assume x: "x \<in> set (upsert_tradelog (row_of_record r) (db_tradelogs db))"
      "tl_id x = fst (record_id q, r_UserAddress q)"
    from upsert_tradelog_set [OF x(1)] consider "x = row_of_record r"
      | y where "y \<in> set (db_tradelogs db)" "tl_id x = tl_id y" "tl_user x = tl_user y" by blast
    then show "tl_user x = snd (record_id q, r_UserAddress q)"
    proof cases
      case 1
      with x(2) have "record_id r = record_id q" by (simp add: row_of_record_def)
      then have "r_UserAddress r = r_UserAddress q"
        using Cons.prems(5) that by (meson list.set_intros)
      then show ?thesis by (simp add: 1 row_of_record_def)
    next
      case 2
      have "ids_of_users (record_id q, r_UserAddress q) (db_tradelogs db)"
        using Cons.prems(4) that by simp
      with 2 x(2) show ?thesis by (simp add: ids_of_users_def)
    qed
  qed
  have "first_trades_ok db1"
    using Cons.prems(2-4) by (intro save_record_first_trades [OF _ 1(1)]) auto
  moreover have "flags_ok (fst ` set (db_users db1)) rs" unfolding t using Cons.prems(3) by simp
  moreover have "\<forall>r\<in>set rs. \<forall>r'\<in>set rs. record_id r = record_id r' \<longrightarrow> r_UserAddress r = r_UserAddress r'"
    using Cons.prems(5) by (meson list.set_intros(2))
  ultimately show ?case using ids by (intro Cons.IH [OF 1(2)]) blast+
qed

section \<open>Saving twice\<close>

text \<open>A record whose rows are there: saving it again changes nothing.\<close>

definition fee_matches :: "trade_id \<Rightarrow> nat \<Rightarrow> fee_row \<Rightarrow> bool" where
  "fee_matches t i x \<longleftrightarrow> fe_trade x = t \<and> fr_index (fe_data x) = i"

definition trade_kept :: "tradelog_row \<Rightarrow> tradelog_row list \<Rightarrow> bool" where
  "trade_kept r rows \<longleftrightarrow>
     map_option tl_timestamp (find (\<lambda>x. tl_id x = tl_id r) rows) = Some (tl_timestamp r)"

definition fee_kept :: "fee_row \<Rightarrow> fee_row list \<Rightarrow> bool" where
  "fee_kept f rows \<longleftrightarrow>
     map_option (fr_reserve \<circ> fe_data) (find (fee_matches (fe_trade f) (fr_index (fe_data f))) rows) =
       Some (fr_reserve (fe_data f))"

lemma upsert_tradelog_kept: "trade_kept r rows \<Longrightarrow> upsert_tradelog r rows = rows"
  by (induction r rows rule: upsert_tradelog.induct) (auto simp: trade_kept_def split: if_splits)

lemma trade_kept_self: "trade_kept r (upsert_tradelog r rows)"
  by (induction r rows rule: upsert_tradelog.induct) (auto simp: trade_kept_def)

lemma trade_kept_other:
  "trade_kept r rows \<Longrightarrow> tl_id q \<noteq> tl_id r \<Longrightarrow> trade_kept r (upsert_tradelog q rows)"
  by (induction q rows rule: upsert_tradelog.induct) (auto simp: trade_kept_def split: if_splits)

lemma upsert_fee_kept: "fee_kept f rows \<Longrightarrow> upsert_fee f rows = rows"
  by (induction f rows rule: upsert_fee.induct)
    (auto simp: fee_kept_def fee_matches_def split: if_splits)

lemma fee_kept_self: "fee_kept f (upsert_fee f rows)"
  by (induction f rows rule: upsert_fee.induct) (auto simp: fee_kept_def fee_matches_def)

lemma fee_kept_other:
  "fee_kept f rows \<Longrightarrow> (fe_trade g, fr_index (fe_data g)) \<noteq> (fe_trade f, fr_index (fe_data f)) \<Longrightarrow>
     fee_kept f (upsert_fee g rows)"
  by (induction g rows rule: upsert_fee.induct)
    (auto simp: fee_kept_def fee_matches_def split: if_splits)

definition split_kept :: "trade_record \<Rightarrow> split_record \<Rightarrow> trade_db \<Rightarrow> bool" where
  "split_kept r s db \<longleftrightarrow> split_reserve (r_Version r) (spl_ref s) (db_reserves db) \<noteq> None \<and>
     spl_rate s \<noteq> None \<and> (\<exists>i. spl_index s = Some i \<and> (record_id r, i) \<in> split_key ` set (db_splits db))"

definition record_kept :: "formatter \<Rightarrow> trade_record \<Rightarrow> trade_db \<Rightarrow> bool" where
  "record_kept F r db \<longleftrightarrow> r_UserAddress r \<in> fst ` set (db_users db) \<and>
     r_SrcAddress r \<in> set (db_tokens db) \<and> r_DestAddress r \<in> set (db_tokens db) \<and>
     r_WalletAddress r \<in> fst ` set (db_wallets db) \<and>
     trade_kept (row_of_record r) (db_tradelogs db) \<and>
     (\<exists>fees splits. prepareFeeRecords F (r_Fee r) = Inr fees \<and> prepareSplitRecords F r = Inr splits \<and>
        (\<forall>f\<in>set fees. fee_kept \<lparr> fe_trade = record_id r, fe_data = f \<rparr> (db_fees db)) \<and>
        (\<forall>s\<in>set splits. split_kept r s db))"

lemma insert_splits_kept:
  "\<forall>s\<in>set ss. split_kept r s db \<Longrightarrow> insert_splits (record_id r) (r_Version r) ss db = Inr db"
proof (induction ss)
  case (Cons s ss)
  then have "insert_split (record_id r) (r_Version r) s db = Inr db"
    by (auto simp: split_kept_def insert_split_def insert_new_def split_key_def)
  with Cons show ?case by simp
qed simp

lemma fold_upsert_fee_kept:
  "\<forall>f\<in>set fees. fee_kept \<lparr> fe_trade = t, fe_data = f \<rparr> rows \<Longrightarrow>
     fold (\<lambda>f. upsert_fee \<lparr> fe_trade = t, fe_data = f \<rparr>) fees rows = rows"
  by (induction fees) (simp_all add: upsert_fee_kept)

lemma save_record_kept:
  assumes "record_kept F r db"
  shows "\<exists>m. save_record no_errors F r n db = TxOk m db"
proof -
  from assms obtain fees splits where fs: "prepareFeeRecords F (r_Fee r) = Inr fees"
    "prepareSplitRecords F r = Inr splits"
    "\<forall>f\<in>set fees. fee_kept \<lparr> fe_trade = record_id r, fe_data = f \<rparr> (db_fees db)"
    "\<forall>s\<in>set splits. split_kept r s db" by (auto simp: record_kept_def)
  have "create_or_update_tradelogs r fees splits db = Inr db"
    using assms insert_splits_kept [OF fs(4)]
    by (simp add: create_or_update_tradelogs_def record_kept_def upsert_tradelog_kept fold_upsert_fee_kept [OF fs(3)])
  moreover have "insertionUser r db = Inr db" "insertionWallet r db = Inr db"
    using assms by (simp_all add: insertionUser_def insertionWallet_def insert_new_old record_kept_def)
  ultimately show ?thesis using fs
    by (simp add: save_record_def tx_exec_def no_errors_def)
qed

lemma save_records_kept:
  "\<forall>r\<in>set rs. record_kept F r db \<Longrightarrow> \<exists>m. save_records no_errors F rs n db = TxOk m db"
proof (induction rs arbitrary: n)
  case (Cons r rs)
  then obtain m where "save_record no_errors F r n db = TxOk m db" using save_record_kept by force
  with Cons show ?case by simp
qed simp

lemma insert_split_row:
  assumes "insert_split t v s db = Inr db'"
  shows "\<exists>row. db' = db\<lparr> db_splits := insert_new split_key row (db_splits db) \<rparr> \<and>
    split_reserve v (spl_ref s) (db_reserves db) \<noteq> None \<and> spl_rate s \<noteq> None \<and>
    spl_index s = Some (sr_index row) \<and> sr_trade row = t"
  using assms unfolding insert_split_def
  by (simp split: option.splits) (rule exI, rule conjI, erule sym, simp)

lemma insert_splits_keys:
  "insert_splits t v ss db = Inr db' \<Longrightarrow> split_key ` set (db_splits db) \<subseteq> split_key ` set (db_splits db') \<and>
     db_reserves db' = db_reserves db \<and>
     (\<forall>s\<in>set ss. split_reserve v (spl_ref s) (db_reserves db) \<noteq> None \<and> spl_rate s \<noteq> None \<and>
        (\<exists>i. spl_index s = Some i \<and> (t, i) \<in> split_key ` set (db_splits db')))"
proof (induction ss arbitrary: db)
  case (Cons s ss)
  then obtain db1 where 1: "insert_split t v s db = Inr db1" "insert_splits t v ss db1 = Inr db'"
    by (auto simp: go_bind_Inr_iff)
  from insert_split_row [OF 1(1)] obtain row where
    row: "db1 = db\<lparr> db_splits := insert_new split_key row (db_splits db) \<rparr>"
      "split_reserve v (spl_ref s) (db_reserves db) \<noteq> None" "spl_rate s \<noteq> None"
      "spl_index s = Some (sr_index row)" "sr_trade row = t" by blast
  then have "split_key ` set (db_splits db1) = insert (t, sr_index row) (split_key ` set (db_splits db))"
    by (simp add: split_key_def [of row])
  moreover have "db_reserves db1 = db_reserves db" using row(1) by simp
  ultimately show ?case using Cons.IH [OF 1(2)] row(2-4) by auto
qed simp

lemma fold_upsert_fee_self:
  "distinct (map fr_index fees) \<Longrightarrow> f \<in> set fees \<Longrightarrow>
     fee_kept \<lparr> fe_trade = t, fe_data = f \<rparr> (fold (\<lambda>f. upsert_fee \<lparr> fe_trade = t, fe_data = f \<rparr>) fees rows)"
proof (induction fees rule: rev_induct)
  case (snoc g fees)
  then show ?case
    by (cases "f = g") (auto simp: fee_kept_self intro!: fee_kept_other)
qed simp

lemma fold_upsert_fee_other:
  "fee_kept g rows \<Longrightarrow> fe_trade g \<noteq> t \<Longrightarrow>
     fee_kept g (fold (\<lambda>f. upsert_fee \<lparr> fe_trade = t, fe_data = f \<rparr>) fees rows)"
  by (induction fees arbitrary: rows) (simp_all add: fee_kept_other)

lemma save_record_all_tables:
  assumes "save_record S F r n db = TxOk n' db'"
  obtains fees splits where "prepareFeeRecords F (r_Fee r) = Inr fees" "prepareSplitRecords F r = Inr splits"
    "r_SrcAddress r \<in> set (db_tokens db)" "r_DestAddress r \<in> set (db_tokens db)"
    "db_wallets db' = insert_new fst (r_WalletAddress r, r_WalletName r) (db_wallets db)"
    "db_fees db' = fold (\<lambda>f. upsert_fee \<lparr> fe_trade = record_id r, fe_data = f \<rparr>) fees (db_fees db)"
    "split_key ` set (db_splits db) \<subseteq> split_key ` set (db_splits db')"
    "\<forall>s\<in>set splits. split_kept r s db'"
proof -
  from assms obtain fees splits where fs: "prepareFeeRecords F (r_Fee r) = Inr fees"
    "prepareSplitRecords F r = Inr splits"
    and c: "create_or_update_tradelogs r fees splits (with_user_wallet r db) = Inr db'"
    by (rule save_record_Ok)
  let ?db = "(with_user_wallet r db)\<lparr>
      db_tradelogs := upsert_tradelog (row_of_record r) (db_tradelogs db),
      db_fees := fold (\<lambda>f. upsert_fee \<lparr> fe_trade = record_id r, fe_data = f \<rparr>) fees (db_fees db) \<rparr>"
  from c have i: "insert_splits (record_id r) (r_Version r) splits ?db = Inr db'"
    and tok: "r_SrcAddress r \<in> set (db_tokens db)" "r_DestAddress r \<in> set (db_tokens db)"
    by (auto simp: create_or_update_tradelogs_def with_user_wallet_def split: if_splits)
  from insert_splits_frame [OF i] obtain s where "db' = ?db\<lparr> db_splits := s \<rparr>" by blast
  with fs tok insert_splits_keys [OF i] show ?thesis
    by (intro that [of fees splits]) (auto simp: with_user_wallet_def split_kept_def)
qed

lemma prepareFeeRecords_indexes:
  "prepareFeeRecords F fees = Inr rows \<Longrightarrow> map fr_index rows = map fee_Index fees"
  by (induction fees arbitrary: rows) (auto simp: go_bind_Inr_iff)

lemma record_kept_self:
  assumes "save_record S F r n db = TxOk n' db'" "distinct (map fee_Index (r_Fee r))"
  shows "record_kept F r db'"
proof -
  from assms(1) obtain fees splits where fs: "prepareFeeRecords F (r_Fee r) = Inr fees"
    "prepareSplitRecords F r = Inr splits" "r_SrcAddress r \<in> set (db_tokens db)"
    "r_DestAddress r \<in> set (db_tokens db)"
    "db_wallets db' = insert_new fst (r_WalletAddress r, r_WalletName r) (db_wallets db)"
    "db_fees db' = fold (\<lambda>f. upsert_fee \<lparr> fe_trade = record_id r, fe_data = f \<rparr>) fees (db_fees db)"
    "\<forall>s\<in>set splits. split_kept r s db'" by (rule save_record_all_tables)
  moreover have "distinct (map fr_index fees)"
    using prepareFeeRecords_indexes [OF fs(1)] assms(2) by simp
  moreover note save_record_tables [OF assms(1)]
  ultimately show ?thesis
    by (auto simp: record_kept_def trade_kept_self intro!: fold_upsert_fee_self)
qed

lemma record_kept_other:
  assumes "save_record S F r n db = TxOk n' db'" "record_kept F q db" "record_id q \<noteq> record_id r"
  shows "record_kept F q db'"
proof -
  from assms(1) obtain fees splits where fs:
    "db_wallets db' = insert_new fst (r_WalletAddress r, r_WalletName r) (db_wallets db)"
    "db_fees db' = fold (\<lambda>f. upsert_fee \<lparr> fe_trade = record_id r, fe_data = f \<rparr>) fees (db_fees db)"
    "split_key ` set (db_splits db) \<subseteq> split_key ` set (db_splits db')"
    by (rule save_record_all_tables)
  note t = save_record_tables [OF assms(1)]
  have "split_kept q s db'" if "split_kept q s db" for s
    using that fs(3) t(4) by (auto simp: split_kept_def)
  moreover have "fee_kept \<lparr> fe_trade = record_id q, fe_data = f \<rparr> (db_fees db')"
    if "fee_kept \<lparr> fe_trade = record_id q, fe_data = f \<rparr> (db_fees db)" for f
    unfolding fs(2) using that assms(3) by (intro fold_upsert_fee_other) auto
  moreover have "trade_kept (row_of_record q) (db_tradelogs db')"
    unfolding t using assms(2,3) by (intro trade_kept_other) (auto simp: record_kept_def row_of_record_def)
  ultimately show ?thesis using assms(2) t(1,3) fs(1) unfolding record_kept_def by auto
qed

lemma save_records_all_kept:
  "save_records S F rs n db = TxOk n' db' \<Longrightarrow> distinct (map record_id rs) \<Longrightarrow>
     (\<forall>r\<in>set rs. distinct (map fee_Index (r_Fee r))) \<Longrightarrow> (\<forall>q\<in>set qs. record_kept F q db) \<Longrightarrow>
     record_id ` set qs \<inter> record_id ` set rs = {} \<Longrightarrow> \<forall>q\<in>set qs \<union> set rs. record_kept F q db'"
proof (induction rs arbitrary: n db qs)
  case (Cons r rs)
  from Cons.prems(1) obtain m db1 where 1: "save_record S F r n db = TxOk m db1"
    "save_records S F rs m db1 = TxOk n' db'" by (auto simp: tx_simps)
  have "record_id q \<noteq> record_id r" if "q \<in> set qs" for q
    using Cons.prems(5) that by (metis disjoint_iff image_eqI list.set_intros(1))
  then have "\<forall>q\<in>set qs. record_kept F q db1"
    using record_kept_other [OF 1(1)] Cons.prems(4) by blast
  then have "\<forall>q\<in>set (r # qs). record_kept F q db1"
    using record_kept_self [OF 1(1)] Cons.prems(3) by simp
  then have "\<forall>q\<in>set (r # qs) \<union> set rs. record_kept F q db'"
    using Cons.prems(2,3,5) by (intro Cons.IH [OF 1(2)]) auto
  then show ?case by auto
qed simp

text \<open>The second run: the records differ in their flags at most.\<close>

lemma record_kept_flag: "record_kept F (r\<lparr> r_IsFirstTrade := b \<rparr>) db \<longleftrightarrow> record_kept F r db"
proof -
  have "prepareSplitRecords F (r\<lparr> r_IsFirstTrade := b \<rparr>) = prepareSplitRecords F r"
    by (simp add: prepareSplitRecords_def splits_before_katalyst_def Let_def cong: if_cong)
  moreover have "record_id (r\<lparr> r_IsFirstTrade := b \<rparr>) = record_id r" by (simp add: record_id_def)
  ultimately show ?thesis
    by (simp add: record_kept_def split_kept_def trade_kept_def row_of_record_def)
qed

definition same_but_flags :: "trade_record list \<Rightarrow> trade_record list \<Rightarrow> bool" where
  "same_but_flags rs rs' \<longleftrightarrow> list_all2 (\<lambda>r r'. \<exists>b. r' = r\<lparr> r_IsFirstTrade := b \<rparr>) rs rs'"

lemma gather_records_again:
  "gather_records S F db users logs = (Inr rs, logs') \<Longrightarrow>
     \<exists>rs'. gather_records no_errors F db' users' logs = (Inr rs', logs') \<and> same_but_flags rs rs'"
proof (induction logs arbitrary: users users' rs logs')
  case (Cons trd logs)
  obtain x trd' where rec: "recordFromTradeLog F trd = (x, trd')" by (cases "recordFromTradeLog F trd")
  with Cons.prems obtain r where r: "recordFromTradeLog F trd = (Inr r, trd')" by (cases x) auto
  let ?u = "ui_UserAddress (User trd)"
  from r Cons.prems obtain b rs1 logs1 where
    1: "gather_records S F db (insert ?u users) logs = (Inr rs1, logs1)"
       "rs = r\<lparr> r_IsFirstTrade := b \<rparr> # rs1" "logs' = trd' # logs1"
    by (auto simp: Let_def go_bind_Inr_iff split: prod.splits sum.splits if_splits)
  from Cons.IH [OF 1(1), of "insert ?u users'"] obtain rs1' where
    2: "gather_records no_errors F db' (insert ?u users') logs = (Inr rs1', logs1)"
       "same_but_flags rs1 rs1'" by blast
  obtain b' where b': "(if ?u \<in> users' then Inr False else isFirstTrade no_errors ?u db') = Inr b'"
    by (cases "?u \<in> users'") (auto simp: isFirstTrade_def no_errors_def)
  have "gather_records no_errors F db' users' (trd # logs) = (Inr (r\<lparr> r_IsFirstTrade := b' \<rparr> # rs1'), logs')"
    by (simp add: r b' 2(1) Let_def 1(3))
  moreover have "r\<lparr> r_IsFirstTrade := b' \<rparr> = (r\<lparr> r_IsFirstTrade := b \<rparr>)\<lparr> r_IsFirstTrade := b' \<rparr>" by simp
  then have "same_but_flags rs (r\<lparr> r_IsFirstTrade := b' \<rparr> # rs1')"
    using 2(2) unfolding same_but_flags_def 1(2) by (intro list.rel_intros(2) exI)
  ultimately show ?case by blast
qed (simp add: same_but_flags_def)

lemma same_but_flags_tokens:
  assumes "same_but_flags rs rs'"
  shows "tokens_of rs' = tokens_of rs" "reserves_of rs' = reserves_of rs"
proof -
  have "fold (\<lambda>r. add_once (r_DestAddress r) \<circ> add_once (r_SrcAddress r)) rs' xs =
      fold (\<lambda>r. add_once (r_DestAddress r) \<circ> add_once (r_SrcAddress r)) rs xs" for xs
    using assms unfolding same_but_flags_def by (induction arbitrary: xs rule: list_all2_induct) auto
  then show "tokens_of rs' = tokens_of rs" by (simp add: tokens_of_def)
  have "fold (\<lambda>r. add_once (r_DstReserveAddress r) \<circ> add_once (r_SrcReserveAddress r)) rs' xs =
      fold (\<lambda>r. add_once (r_DstReserveAddress r) \<circ> add_once (r_SrcReserveAddress r)) rs xs" for xs
    using assms unfolding same_but_flags_def by (induction arbitrary: xs rule: list_all2_induct) auto
  then show "reserves_of rs' = reserves_of rs" by (simp add: reserves_of_def)
qed

lemma same_but_flags_kept:
  "same_but_flags rs rs' \<Longrightarrow> \<forall>r\<in>set rs. record_kept F r db \<Longrightarrow> \<forall>r\<in>set rs'. record_kept F r db"
  unfolding same_but_flags_def by (induction rule: list_all2_induct) (auto simp: record_kept_flag)

lemma save_body_again:
  assumes "save_body S F rs db = TxOk n db'" "distinct (map record_id rs)"
    and "\<forall>r\<in>set rs. distinct (map fee_Index (r_Fee r))" "same_but_flags rs rs'"
  shows "\<exists>m. save_body no_errors F rs' db' = TxOk m db'"
proof -
  from assms(1) obtain m dbt where b: "save_records S F rs m dbt = TxOk n db'"
    "dbt = db\<lparr> db_reserves := db_reserves dbt, db_tokens := fold (insert_new id) (tokens_of rs) (db_tokens db) \<rparr>"
    "saveReserveAddress (reserves_of rs) db = Inr (db\<lparr> db_reserves := db_reserves dbt \<rparr>)"
    by (rule save_body_Ok)
  have "save_records S F rs k d = TxOk l d' \<Longrightarrow> db_tokens d' = db_tokens d \<and> db_reserves d' = db_reserves d"
    for k d l d' rs
    by (induction rs arbitrary: k d) (auto simp: tx_then_Ok_iff dest: save_record_tables(3,4))
  with b(1) have frame: "db_tokens db' = db_tokens dbt" "db_reserves db' = db_reserves dbt" by simp_all
  have "db_tokens dbt = fold (insert_new id) (tokens_of rs) (db_tokens db)" by (subst b(2)) simp
  then have "set (tokens_of rs) \<subseteq> set (db_tokens dbt)"
    using fold_insert_new_keys [of id "\<lambda>x. x" "tokens_of rs" "db_tokens db"] by simp
  then have tok: "saveTokens (tokens_of rs) db' = Inr db'"
    using fold_insert_new_old [of "tokens_of rs" id "\<lambda>x. x" "db_tokens db'"] frame
    by (simp add: saveTokens_def subset_eq)
  have "saveReserveAddress (reserves_of rs) db' = Inr db'"
  proof -
    let ?g = "\<lambda>a. \<lparr> rv_address = a, rv_reserve_id = None, rv_type = 0, rv_rebate_wallet = None, rv_block = 0 \<rparr>"
    from b(3) have "db_reserves dbt = fold (\<lambda>a. insert_new reserve_key (?g a)) (reserves_of rs) (db_reserves db)"
      unfolding saveReserveAddress_def by (auto dest: arg_cong [where f = db_reserves])
    then have "\<forall>a\<in>set (reserves_of rs). reserve_key (?g a) \<in> reserve_key ` set (db_reserves db')"
      using fold_insert_new_keys [of reserve_key ?g "reserves_of rs" "db_reserves db"] frame by auto
    from fold_insert_new_old [OF this] show ?thesis by (simp add: saveReserveAddress_def)
  qed
  moreover have "\<forall>r\<in>set rs. record_kept F r db'"
    using save_records_all_kept [OF b(1) assms(2,3), of "[]"] by simp
  then have "\<exists>m. save_records no_errors F rs' k db' = TxOk m db'" for k
    by (intro save_records_kept same_but_flags_kept [OF assms(4)])
  moreover note tok
  ultimately show ?thesis
    by (simp add: save_body_def same_but_flags_tokens [OF assms(4)] tx_exec_def no_errors_def)
qed

text \<open>The reserves that the first run has saved.\<close>

definition reserve_addr :: "hash \<Rightarrow> reserve_row list \<Rightarrow> addr option" where
  "reserve_addr h rows = map_option rv_address (latest_reserve h rows)"

lemma latest_reserve_append: "latest_reserve h (rows @ [x]) =
    (if rv_reserve_id x \<noteq> Some h then latest_reserve h rows
     else case latest_reserve h rows of
       None \<Rightarrow> Some x | Some l \<Rightarrow> if rv_block l < rv_block x then Some x else Some l)"
proof (induction rows)
  case (Cons r rs)
  then show ?case
    by (cases "latest_reserve h rs"; cases "rv_reserve_id x = Some h"; cases "rv_reserve_id r = Some h") auto
qed simp

lemma reserve_addr_append:
  "(rv_reserve_id x = Some h \<longrightarrow> reserve_addr h rows = Some (rv_address x)) \<Longrightarrow>
     reserve_addr h (rows @ [x]) = reserve_addr h rows"
  by (auto simp: reserve_addr_def latest_reserve_append split: option.splits)

lemma reserve_addr_no_id:
  "\<forall>x\<in>set new. rv_reserve_id x = None \<Longrightarrow> reserve_addr h (rows @ new) = reserve_addr h rows"
proof (induction new rule: rev_induct)
  case (snoc x new)
  then have "reserve_addr h ((rows @ new) @ [x]) = reserve_addr h (rows @ new)"
    by (intro reserve_addr_append) simp
  with snoc show ?case by simp
qed simp

definition rebate_row :: "Reserve \<Rightarrow> reserve_row list \<Rightarrow> bool" where
  "rebate_row r rows \<longleftrightarrow> (\<exists>a. reserve_addr (rs_ReserveID r) rows = Some a \<and>
     (a, Some (rs_ReserveID r), rs_BlockNumber r) \<in> reserve_key ` set rows)"

lemma rebate_wallet_stmt_Ok:
  assumes "rebate_wallet_stmt r db = Inr db'"
  shows "rebate_row r (db_reserves db')" "reserve_addr h (db_reserves db') = reserve_addr h (db_reserves db)"
    "set (db_reserves db) \<subseteq> set (db_reserves db')"
proof -
  from assms obtain l where l: "latest_reserve (rs_ReserveID r) (db_reserves db) = Some l"
    by (auto simp: rebate_wallet_stmt_def split: option.splits)
  define x where "x = \<lparr> rv_address = rv_address l, rv_reserve_id = Some (rs_ReserveID r), rv_type = rv_type l,
      rv_rebate_wallet = Some (rs_RebateWallet r), rv_block = rs_BlockNumber r \<rparr>"
  have db': "db_reserves db' = insert_new reserve_key x (db_reserves db)"
    using assms l by (auto simp: rebate_wallet_stmt_def x_def)
  have addr: "reserve_addr (rs_ReserveID r) (db_reserves db) = Some (rv_address x)"
    using l by (simp add: reserve_addr_def x_def)
  have same: "reserve_addr h (db_reserves db') = reserve_addr h (db_reserves db)" for h
    unfolding db' insert_new_def using addr by (auto intro!: reserve_addr_append simp: x_def)
  show "reserve_addr h (db_reserves db') = reserve_addr h (db_reserves db)" by (rule same)
  show "set (db_reserves db) \<subseteq> set (db_reserves db')" by (auto simp: db' insert_new_def)
  have "reserve_key x \<in> reserve_key ` set (db_reserves db')" unfolding db' by simp
  then show "rebate_row r (db_reserves db')"
    using addr same by (auto simp: rebate_row_def reserve_key_def x_def)
qed

lemma rebate_row_mono:
  "rebate_row r rows \<Longrightarrow> reserve_addr (rs_ReserveID r) rows' = reserve_addr (rs_ReserveID r) rows \<Longrightarrow>
     set rows \<subseteq> set rows' \<Longrightarrow> rebate_row r rows'"
  by (auto simp: rebate_row_def)

lemma rebate_body_rows:
  "rebate_body fails rs n db = TxOk n' db' \<Longrightarrow>
     (\<forall>r\<in>set rs. rebate_row r (db_reserves db')) \<and> (\<forall>h. reserve_addr h (db_reserves db') = reserve_addr h (db_reserves db)) \<and>
     set (db_reserves db) \<subseteq> set (db_reserves db')"
proof (induction rs arbitrary: n db)
  case (Cons r rs)
  then obtain db1 where 1: "rebate_wallet_stmt r db = Inr db1" "rebate_body fails rs (Suc n) db1 = TxOk n' db'"
    by (auto simp: tx_simps)
  note w = rebate_wallet_stmt_Ok [OF 1(1)]
  from Cons.IH [OF 1(2)] have IH: "\<forall>r\<in>set rs. rebate_row r (db_reserves db')"
    "\<And>h. reserve_addr h (db_reserves db') = reserve_addr h (db_reserves db1)"
    "set (db_reserves db1) \<subseteq> set (db_reserves db')" by auto
  with rebate_row_mono [OF w(1) IH(2,3)] w(2,3) show ?case by auto
qed simp

lemma rebate_body_again:
  "\<forall>r\<in>set rs. rebate_row r (db_reserves db) \<Longrightarrow> \<exists>m. rebate_body (\<lambda>n. None) rs n db = TxOk m db"
proof (induction rs arbitrary: n)
  case (Cons r rs)
  then obtain a where "reserve_addr (rs_ReserveID r) (db_reserves db) = Some a"
    "(a, Some (rs_ReserveID r), rs_BlockNumber r) \<in> reserve_key ` set (db_reserves db)"
    by (auto simp: rebate_row_def)
  then have "rebate_wallet_stmt r db = Inr db"
    by (auto simp: rebate_wallet_stmt_def reserve_addr_def insert_new_def reserve_key_def)
  with Cons show ?case by (simp add: tx_exec_def)
qed simp

definition saved_reserve :: "Reserve \<Rightarrow> reserve_row" where
  "saved_reserve r = \<lparr> rv_address = rs_Address r, rv_reserve_id = Some (rs_ReserveID r),
     rv_type = rs_ReserveType r, rv_rebate_wallet = Some (rs_RebateWallet r), rv_block = rs_BlockNumber r \<rparr>"

lemma save_reserves_Ok:
  assumes "save_reserves S cr db = (db', None)" "se_rebate_commit S = None"
  shows "\<forall>r\<in>set (cr_Reserves cr). reserve_key (saved_reserve r) \<in> reserve_key ` set (db_reserves db')"
    and "\<forall>r\<in>set (cr_UpdateWallets cr). rebate_row r (db_reserves db')"
proof -
  define rows where "rows = (if cr_Reserves cr = [] then db_reserves db else
    fold (\<lambda>r. insert_new reserve_key (saved_reserve r)) (cr_Reserves cr) (db_reserves db))"
  have rows: "\<forall>r\<in>set (cr_Reserves cr). reserve_key (saved_reserve r) \<in> reserve_key ` set rows"
    unfolding rows_def using fold_insert_new_keys [of reserve_key saved_reserve "cr_Reserves cr" "db_reserves db"]
    by auto
  let ?db = "db\<lparr> db_reserves := rows \<rparr>"
  have "(if cr_UpdateWallets cr = [] then (?db, None) else updateRebateWallet S (cr_UpdateWallets cr) ?db) = (db', None)"
    using assms(1) by (auto simp: save_reserves_def saveReserve_def rows_def saved_reserve_def [abs_def]
        split: option.splits if_splits)
  then consider "cr_UpdateWallets cr = []" "db' = ?db"
    | n where "rebate_body (se_rebate S) (cr_UpdateWallets cr) 0 ?db = TxOk n db'"
    using assms(2) rebate_body_no_prog_err [of "se_rebate S" "cr_UpdateWallets cr" 0 ?db]
    by (cases "rebate_body (se_rebate S) (cr_UpdateWallets cr) 0 ?db")
      (auto simp: updateRebateWallet_def split: if_splits option.splits)
  then show "\<forall>r\<in>set (cr_Reserves cr). reserve_key (saved_reserve r) \<in> reserve_key ` set (db_reserves db')"
    and "\<forall>r\<in>set (cr_UpdateWallets cr). rebate_row r (db_reserves db')"
  proof (atomize(full), cases)
    case 1
    with rows show "(\<forall>r\<in>set (cr_Reserves cr). reserve_key (saved_reserve r) \<in> reserve_key ` set (db_reserves db')) \<and>
      (\<forall>r\<in>set (cr_UpdateWallets cr). rebate_row r (db_reserves db'))" by simp
  next
    case 2
    from rebate_body_rows [OF 2] rows
    show "(\<forall>r\<in>set (cr_Reserves cr). reserve_key (saved_reserve r) \<in> reserve_key ` set (db_reserves db')) \<and>
      (\<forall>r\<in>set (cr_UpdateWallets cr). rebate_row r (db_reserves db'))" by (auto 0 4)
  qed
qed

lemma save_reserves_again:
  assumes "\<forall>r\<in>set (cr_Reserves cr). reserve_key (saved_reserve r) \<in> reserve_key ` set (db_reserves db)"
    and "\<forall>r\<in>set (cr_UpdateWallets cr). rebate_row r (db_reserves db)"
  shows "save_reserves no_errors cr db = (db, None)"
proof -
  have "saveReserve (cr_Reserves cr) db = Inr db"
    using fold_insert_new_old [OF assms(1)] by (simp add: saveReserve_def saved_reserve_def [abs_def])
  moreover from rebate_body_again [OF assms(2)]
  obtain m where "rebate_body (\<lambda>n. None) (cr_UpdateWallets cr) 0 db = TxOk m db" by blast
  ultimately show ?thesis by (simp add: save_reserves_def updateRebateWallet_def no_errors_def)
qed

lemma save_body_reserves:
  assumes "save_body S F rs db = TxOk n db'"
  shows "\<exists>new. db_reserves db' = db_reserves db @ new \<and> (\<forall>x\<in>set new. rv_reserve_id x = None)"
proof -
  from assms obtain m dbt where b: "save_records S F rs m dbt = TxOk n db'"
    "saveReserveAddress (reserves_of rs) db = Inr (db\<lparr> db_reserves := db_reserves dbt \<rparr>)"
    by (rule save_body_Ok)
  have "save_records S F rs k d = TxOk l d' \<Longrightarrow> db_reserves d' = db_reserves d" for k d l d' rs
    by (induction rs arbitrary: k d) (auto simp: tx_then_Ok_iff dest: save_record_tables(4))
  with b(1) have frame: "db_reserves db' = db_reserves dbt" by simp
  let ?g = "\<lambda>a. \<lparr> rv_address = a, rv_reserve_id = None, rv_type = 0, rv_rebate_wallet = None, rv_block = 0 \<rparr>"
  from b(2) have "db_reserves dbt = fold (\<lambda>a. insert_new reserve_key (?g a)) (reserves_of rs) (db_reserves db)"
    unfolding saveReserveAddress_def by (auto dest: arg_cong [where f = db_reserves])
  with fold_insert_new_Cons [of reserve_key ?g "reserves_of rs" "db_reserves db"] frame
  show ?thesis by fastforce
qed

lemma rebate_row_append:
  "rebate_row r rows \<Longrightarrow> \<forall>x\<in>set new. rv_reserve_id x = None \<Longrightarrow> rebate_row r (rows @ new)"
  by (rule rebate_row_mono) (auto simp: reserve_addr_no_id)

lemma commit_error_independent [simp]:
  "gather_records (S\<lparr> se_commit := c \<rparr>) F db users logs = gather_records S F db users logs"
  "save_records (S\<lparr> se_commit := c \<rparr>) F rs = save_records S F rs"
  "save_body (S\<lparr> se_commit := c \<rparr>) F rs db = save_body S F rs db"
  "save_reserves (S\<lparr> se_commit := c \<rparr>) cr db = save_reserves S cr db"
proof -
  have st: "se_stmt (S\<lparr> se_commit := c \<rparr>) = se_stmt S" by simp
  have se: "se_rebate_begin (S\<lparr> se_commit := c \<rparr>) = se_rebate_begin S"
    "se_rebate (S\<lparr> se_commit := c \<rparr>) = se_rebate S" "se_saveReserve (S\<lparr> se_commit := c \<rparr>) = se_saveReserve S"
    "se_rebate_commit (S\<lparr> se_commit := c \<rparr>) = se_rebate_commit S" by simp_all
  have f: "isFirstTrade (S\<lparr> se_commit := c \<rparr>) = isFirstTrade S"
    by (intro ext) (simp add: isFirstTrade_def)
  show "gather_records (S\<lparr> se_commit := c \<rparr>) F db users logs = gather_records S F db users logs"
    by (induction logs arbitrary: users) (simp_all only: gather_records.simps f)
  have r: "save_record (S\<lparr> se_commit := c \<rparr>) F r n db = save_record S F r n db" for r n db
    by (simp only: save_record_def st)
  show sr: "save_records (S\<lparr> se_commit := c \<rparr>) F rs = save_records S F rs" for rs
  proof (induction rs)
    case (Cons q rs)
    show ?case by (intro ext) (simp only: save_records.simps r Cons.IH)
  qed (simp add: fun_eq_iff)
  show "save_body (S\<lparr> se_commit := c \<rparr>) F rs db = save_body S F rs db"
    by (simp only: save_body_def sr st)
  show "save_reserves (S\<lparr> se_commit := c \<rparr>) cr db = save_reserves S cr db"
    by (simp only: save_reserves_def updateRebateWallet_def se)
qed

section \<open>Nothing is lost\<close>

definition tx_state :: "tx_out \<Rightarrow> trade_db option" where
  "tx_state t = (case t of TxOk n db \<Rightarrow> Some db | TxStmtErr e \<Rightarrow> None | TxProgErr e db \<Rightarrow> Some db)"

definition tradelog_ids :: "trade_db \<Rightarrow> trade_id set" where
  "tradelog_ids db = tl_id ` set (db_tradelogs db)"

lemma save_record_keeps:
  "tx_state (save_record S F r n db) = Some db' \<Longrightarrow> tradelog_ids db \<subseteq> tradelog_ids db'"
proof (cases "save_record S F r n db")
  case (TxOk m d)
  then show "tx_state (save_record S F r n db) = Some db' \<Longrightarrow> tradelog_ids db \<subseteq> tradelog_ids db'"
    using save_record_tables(2) [OF TxOk] by (auto simp: tx_state_def tradelog_ids_def upsert_tradelog_ids)
next
  case (TxProgErr e d)
  then have "d = with_user_wallet r db"
    by (auto simp: save_record_def tx_simps insertionUser_def insertionWallet_def with_user_wallet_def
        split: sum.splits prod.splits)
  then show "tx_state (save_record S F r n db) = Some db' \<Longrightarrow> tradelog_ids db \<subseteq> tradelog_ids db'"
    by (auto simp: tx_state_def TxProgErr tradelog_ids_def with_user_wallet_def)
qed (simp add: tx_state_def)

lemma tx_state_then:
  "tx_state (tx_then t k) = Some db' \<Longrightarrow>
     (\<exists>n db. t = TxOk n db \<and> tx_state (k n db) = Some db') \<or> (\<exists>e. t = TxProgErr e db')"
  by (cases t) (auto simp: tx_state_def)

lemma save_records_keeps:
  "tx_state (save_records S F rs n db) = Some db' \<Longrightarrow> tradelog_ids db \<subseteq> tradelog_ids db'"
proof (induction rs arbitrary: n db)
  case (Cons r rs)
  from Cons.prems have "tx_state (tx_then (save_record S F r n db) (save_records S F rs)) = Some db'" by simp
  from tx_state_then [OF this] consider m d where "save_record S F r n db = TxOk m d"
      "tx_state (save_records S F rs m d) = Some db'" | e where "save_record S F r n db = TxProgErr e db'"
    by blast
  then show ?case
  proof cases
    case 1
    with Cons.IH [OF 1(2)] save_record_keeps [of S F r n db d] show ?thesis by (simp add: tx_state_def)
  next
    case 2
    then have "tx_state (save_record S F r n db) = Some db'" by (simp add: tx_state_def)
    then show ?thesis by (rule save_record_keeps)
  qed
qed (simp add: tx_state_def)

lemma save_body_keeps:
  assumes "tx_state (save_body S F rs db) = Some db'"
  shows "tradelog_ids db \<subseteq> tradelog_ids db'"
proof -
  from assms tx_state_then [OF assms [unfolded save_body_def]]
  obtain n1 db1 where 1: "(if reserves_of rs = [] then TxOk 0 db
        else tx_exec (se_stmt S) (saveReserveAddress (reserves_of rs)) 0 db) = TxOk n1 db1"
    "tx_state (tx_then (tx_exec (se_stmt S) (saveTokens (tokens_of rs)) n1 db1) (save_records S F rs)) = Some db'"
    by (auto split: if_splits)
  from tx_state_then [OF 1(2)] obtain n2 db2 where
    2: "tx_exec (se_stmt S) (saveTokens (tokens_of rs)) n1 db1 = TxOk n2 db2"
    "tx_state (save_records S F rs n2 db2) = Some db'" by auto
  have "tradelog_ids db1 = tradelog_ids db"
    using 1(1) by (auto simp: saveReserveAddress_def tradelog_ids_def tx_exec_Ok_iff split: if_splits)
  moreover have "tradelog_ids db2 = tradelog_ids db1"
    using 2(1) by (auto simp: saveTokens_def tradelog_ids_def tx_exec_Ok_iff)
  ultimately show ?thesis using save_records_keeps [OF 2(2)] by simp
qed

lemma CommitOrRollback_cases:
  "CommitOrRollback c t db = (db', e) \<Longrightarrow> db' = db \<or> tx_state t = Some db'"
  by (cases t; cases c) (auto simp: tx_state_def)

lemma save_reserves_ids: "save_reserves S cr db = (db', e) \<Longrightarrow> tradelog_ids db' = tradelog_ids db"
  using save_reserves_frame [of S cr db db' e]
  by (auto simp: trade_part_def tradelog_ids_def dest: arg_cong [where f = db_tradelogs])

lemma SaveTradeLogs_keeps:
  assumes "SaveTradeLogs S F r db = (db', logs, e)"
  shows "tradelog_ids db \<subseteq> tradelog_ids db'"
proof (cases r)
  case (Some cr)
  obtain db1 e1 where 1: "save_reserves S cr db = (db1, e1)" by fastforce
  note ids = save_reserves_ids [OF 1]
  show ?thesis
  proof (cases e1)
    case None
    with assms Some 1 have t: "save_trade_records S F (cr_Trades cr) db1 = (db', logs, e)"
      by (simp add: SaveTradeLogs_def)
    obtain x logs1 where g: "gather_records S F db1 {} (cr_Trades cr) = (x, logs1)" by fastforce
    then have "db' = db1 \<or> (\<exists>rs. CommitOrRollback (se_commit S) (save_body S F rs db1) db1 = (db', e))"
      using t by (auto simp: save_trade_records_def split: sum.splits option.splits prod.splits)
    then consider "db' = db1" | rs where "tx_state (save_body S F rs db1) = Some db'"
      using CommitOrRollback_cases by blast
    then show ?thesis using ids
    proof cases
      case 2
      with save_body_keeps [OF 2] ids show ?thesis by simp
    qed simp
  next
    case (Some e2)
    with assms \<open>r = Some cr\<close> 1 ids show ?thesis by (simp add: SaveTradeLogs_def)
  qed
qed (use assms in \<open>simp add: SaveTradeLogs_def\<close>)

text \<open>The rows after a save that returns no error: exactly the trades are added, unless the commit was lost.\<close>

lemma save_trade_records_ids:
  assumes "save_trade_records S F logs db = (db', logs', None)"
  shows "tradelog_ids db' =
    (if se_commit S = None then tradelog_ids db \<union> trade_id_of ` set logs else tradelog_ids db)"
proof (cases "se_commit S")
  case None
  with assms obtain rs n where g: "gather_records S F db {} logs = (Inr rs, logs')"
    and b: "save_body S F rs db = TxOk n db'" by (rule save_trade_records_Ok)
  have "trade_id_of ` set logs = record_id ` set rs"
    using gather_records_spec [OF g] by (auto intro!: list_all2_set_image simp: record_of_def trade_id_of_def)
  with save_body_ids [OF b] None show ?thesis by (auto simp: tradelog_ids_def)
next
  case (Some e)
  obtain x logs1 where g: "gather_records S F db {} logs = (x, logs1)" by fastforce
  with assms obtain rs where x: "x = Inr rs" by (cases x) (auto simp: save_trade_records_def)
  have "db' = db"
    using assms g x Some
    by (cases "save_body S F rs db") (auto simp: save_trade_records_def split: option.splits)
  with Some show ?thesis by simp
qed

lemma SaveTradeLogs_ids:
  assumes "SaveTradeLogs S F (Some cr) db = (db', logs, None)"
  shows "tradelog_ids db' =
    (if se_commit S = None then tradelog_ids db \<union> trade_id_of ` set (cr_Trades cr) else tradelog_ids db)"
proof -
  obtain db1 e1 where 1: "save_reserves S cr db = (db1, e1)" by fastforce
  with assms have "save_trade_records S F (cr_Trades cr) db1 = (db', logs, None)"
    by (cases e1) (simp_all add: SaveTradeLogs_def)
  from save_trade_records_ids [OF this] save_reserves_ids [OF 1] show ?thesis by simp
qed

end
