(* ===== verification/TradeStoreProps.thy ===== *)
theory TradeStoreProps
  imports TradeStoreFacts
begin

text \<open>
  The properties of the storage of trade logs: all or nothing, the lost error of a commit, the first
  trades of the users, saving twice, and the destination amounts.
\<close>

section \<open>Properties\<close>

text \<open>
  C6: \<open>SaveTradeLogs\<close> is all or nothing: when it returns an error, whichever statement failed, or when
  the commit fails, no trade, fee, split, user, wallet or token of the call is in the database;
  otherwise every trade of the call has its row. (The formatter is the one of the program, and the
  trades have an amount and a rate for every reserve, as those of the crawler have.)
\<close>

theorem SaveTradeLogs_atomic:
  assumes "SaveTradeLogs S (formatter_of contract) (Some cr) db = (db', logs', err)"
    and "no_panics contract" "\<forall>trd\<in>set (cr_Trades cr). splits_ok trd"
  shows "(err \<noteq> None \<or> se_commit S \<noteq> None \<longrightarrow> trade_part db' = trade_part db) \<and>
    (err = None \<and> se_commit S = None \<longrightarrow>
       tl_id ` set (db_tradelogs db') = trade_id_of ` set (cr_Trades cr) \<union> tl_id ` set (db_tradelogs db))"
proof -
  obtain db1 err1 where 1: "save_reserves S cr db = (db1, err1)" by fastforce
  note frame = save_reserves_frame [OF 1]
  then have tl: "db_tradelogs db1 = db_tradelogs db" by (auto simp: trade_part_def dest: arg_cong [where f = db_tradelogs])
  show ?thesis
  proof (cases err1)
    case (Some e)
    with assms(1) 1 frame show ?thesis by (auto simp: SaveTradeLogs_def)
  next
    case None
    with assms(1) 1 have "save_trade_records S (formatter_of contract) (cr_Trades cr) db1 = (db', logs', err)"
      by (simp add: SaveTradeLogs_def)
    from this assms(2,3) show ?thesis
    proof (cases rule: save_trade_records_cases)
      case (saved rs n)
      from gather_records_spec [OF saved(4)] have "trade_id_of ` set (cr_Trades cr) = record_id ` set rs"
        by (auto intro!: list_all2_set_image simp: record_of_def trade_id_of_def)
      with save_body_ids [OF saved(5)] saved(1,2) tl show ?thesis by simp
    qed (use frame in auto)
  qed
qed

text \<open>
  A failed commit is not reported: the deferred \<open>CommitOrRollback\<close> assigns its error to a variable
  that is not the result of \<open>SaveTradeLogs\<close>. A call that would have saved its trades returns no error,
  and none of them is stored.
\<close>

theorem SaveTradeLogs_commit_error_lost:
  assumes "SaveTradeLogs S (formatter_of contract) (Some cr) db = (db', logs', None)"
    and "no_panics contract" "\<forall>trd\<in>set (cr_Trades cr). splits_ok trd" "se_commit S = None"
  shows "\<exists>db1 logs1. SaveTradeLogs (S\<lparr> se_commit := Some e \<rparr>) (formatter_of contract) (Some cr) db = (db1, logs1, None) \<and>
    db_tradelogs db1 = db_tradelogs db"
proof -
  obtain db1 err1 where 1: "save_reserves S cr db = (db1, err1)" by fastforce
  with assms(1) have none: "err1 = None" by (cases err1) (simp_all add: SaveTradeLogs_def)
  with assms(1) 1 have st: "save_trade_records S (formatter_of contract) (cr_Trades cr) db1 = (db', logs', None)"
    by (simp add: SaveTradeLogs_def)
  have tl: "db_tradelogs db1 = db_tradelogs db"
    using save_reserves_frame [OF 1] by (auto simp: trade_part_def dest: arg_cong [where f = db_tradelogs])
  from st assms(2,3) show ?thesis
  proof (cases rule: save_trade_records_cases)
    case (saved rs n)
    then show ?thesis using 1 none tl by (simp add: SaveTradeLogs_def save_trade_records_def)
  qed (use assms(4) in simp_all)
qed

text \<open>
  C13: Of the trades of a user exactly the first one stored is marked as a first trade, and the table of
  users lists the users with a trade: whatever \<open>SaveTradeLogs\<close> returns, and whatever fails, it keeps
  this, when a transaction hash and a log index determine the user.
\<close>

theorem SaveTradeLogs_first_trades:
  assumes "SaveTradeLogs S (formatter_of contract) (Some cr) db = (db', logs', err)" "first_trades_ok db"
    and "no_panics contract" "\<forall>trd\<in>set (cr_Trades cr). splits_ok trd"
    and "\<forall>trd\<in>set (cr_Trades cr). ids_of_users (trade_id_of trd, ui_UserAddress (User trd)) (db_tradelogs db)"
    and "\<forall>t\<in>set (cr_Trades cr). \<forall>u\<in>set (cr_Trades cr).
      trade_id_of t = trade_id_of u \<longrightarrow> ui_UserAddress (User t) = ui_UserAddress (User u)"
  shows "first_trades_ok db'"
proof -
  obtain db1 err1 where 1: "save_reserves S cr db = (db1, err1)" by fastforce
  have same: "db_tradelogs db1 = db_tradelogs db" "db_users db1 = db_users db"
    using save_reserves_frame [OF 1]
    by (auto simp: trade_part_def dest: arg_cong [where f = db_tradelogs] arg_cong [where f = db_users])
  then have ok: "first_trades_ok db1" using assms(2) by (simp add: first_trades_ok_def)
  show ?thesis
  proof (cases err1)
    case (Some e)
    with assms(1) 1 ok show ?thesis by (auto simp: SaveTradeLogs_def)
  next
    case None
    with assms(1) 1 have "save_trade_records S (formatter_of contract) (cr_Trades cr) db1 = (db', logs', err)"
      by (simp add: SaveTradeLogs_def)
    from this assms(3,4) show ?thesis
    proof (cases rule: save_trade_records_cases)
      case (saved rs n)
      from gather_records_spec [OF saved(4)] have g: "list_all2 record_of (cr_Trades cr) rs"
        "flags_ok (fst ` set (db_users db1)) rs" by auto
      from saved(5) obtain m dbt where b: "save_records S (formatter_of contract) rs m dbt = TxOk n db'"
        "dbt = db1\<lparr> db_reserves := db_reserves dbt, db_tokens := fold (insert_new id) (tokens_of rs) (db_tokens db1) \<rparr>"
        by (rule save_body_Ok)
      have dbt: "db_users dbt = db_users db1" "db_tradelogs dbt = db_tradelogs db1"
        by (subst b(2), simp)+
      have src: "\<exists>trd\<in>set (cr_Trades cr). record_id r = trade_id_of trd \<and> r_UserAddress r = ui_UserAddress (User trd)"
        if "r \<in> set rs" for r
        using list_all2_source [OF g(1) that] by (auto simp: record_of_def trade_id_of_def)
      show ?thesis
      proof (rule save_records_first_trades [OF b(1)])
        show "first_trades_ok dbt" using ok by (simp add: first_trades_ok_def dbt)
        show "flags_ok (fst ` set (db_users dbt)) rs" using g(2) by (simp add: dbt)
        show "\<forall>r\<in>set rs. ids_of_users (record_id r, r_UserAddress r) (db_tradelogs dbt)"
          unfolding dbt same using src assms(5) by metis
        show "\<forall>r\<in>set rs. \<forall>r'\<in>set rs. record_id r = record_id r' \<longrightarrow> r_UserAddress r = r_UserAddress r'"
          using src assms(6) by metis
      qed
    qed (use ok in simp_all)
  qed
qed

text \<open>
  C9: Saving the same crawl result twice is harmless: the second call succeeds and leaves the database
  as it was, even though the trades are no longer new to it. The crawler starts again from the last
  block stored, so this happens at every start.
\<close>

theorem SaveTradeLogs_idempotent:
  assumes "SaveTradeLogs S F (Some cr) db = (db', logs', None)" "se_commit S = None" "se_rebate_commit S = None"
    and "distinct (map trade_id_of (cr_Trades cr))" "\<forall>trd\<in>set (cr_Trades cr). distinct (map fee_Index (Fees trd))"
  shows "\<exists>logs2. SaveTradeLogs no_errors F (Some cr) db' = (db', logs2, None)"
proof -
  obtain db1 err1 where 1: "save_reserves S cr db = (db1, err1)" by fastforce
  with assms(1) have none: "save_reserves S cr db = (db1, None)" by (cases err1) (simp_all add: SaveTradeLogs_def)
  with assms(1) have "save_trade_records S F (cr_Trades cr) db1 = (db', logs', None)" by (simp add: SaveTradeLogs_def)
  then obtain rs n where g: "gather_records S F db1 {} (cr_Trades cr) = (Inr rs, logs')"
    and b: "save_body S F rs db1 = TxOk n db'" using assms(2) by (rule save_trade_records_Ok)
  from gather_records_spec [OF g] have l: "list_all2 record_of (cr_Trades cr) rs" by simp
  have "map trade_id_of (cr_Trades cr) = map record_id rs"
    using l by (induction rule: list_all2_induct) (auto simp: record_of_def trade_id_of_def)
  then have ids: "distinct (map record_id rs)" using assms(4) by simp
  have fees: "\<forall>r\<in>set rs. distinct (map fee_Index (r_Fee r))"
    using list_all2_source [OF l] assms(5) by (fastforce simp: record_of_def)
  from gather_records_again [OF g, of db' "{}"] obtain rs' where
    g': "gather_records no_errors F db' {} (cr_Trades cr) = (Inr rs', logs')" and sf: "same_but_flags rs rs'" by blast
  from save_body_again [OF b ids fees sf] obtain m where b': "save_body no_errors F rs' db' = TxOk m db'" by blast
  from save_body_reserves [OF b] obtain new where
    new: "db_reserves db' = db_reserves db1 @ new" "\<forall>x\<in>set new. rv_reserve_id x = None" by blast
  have "save_reserves no_errors cr db' = (db', None)"
    using save_reserves_Ok [OF none assms(3)] rebate_row_append [OF _ new(2)]
    by (intro save_reserves_again) (auto simp: new(1))
  with g' b' show ?thesis by (simp add: SaveTradeLogs_def save_trade_records_def no_errors_def)
qed

text \<open>
  C23: The destination amount recorded for a trade of version 4 is that of the contract's integer
  arithmetic: the division in \<open>big.Float\<close> and its truncation give exactly the quotient of \<open>Utils5.sol\<close>.
  The amount of the caller's trade log is scaled in place.
\<close>

theorem recorded_dst_amount:
  assumes "recordFromTradeLog F trd = (Inr r, trd')" "Version trd = 4"
    and "DestAmount trd = Some product" "0 \<le> product" "decimals_V4 F trd = Inr (s, d)"
  shows "tf_FromWei F (ti_DestAddress (TokenInfo trd)) (Some (calcDstQty s d product)) = Inr (r_DestAmount r) \<and>
    DestAmount trd' = Some (if s \<le> d then product * 10 ^ (d - s) else product)"
  using assms
  by (auto simp: recordFromTradeLog_def dst_amount_of_def calculateDstAmountV4_def scaled_dst_eq
      go_bind_Inr_iff split: sum.splits)

section \<open>Concrete instances\<close>

definition empty_db :: trade_db where
  "empty_db = \<lparr> db_users = [], db_wallets = [], db_tokens = [], db_reserves = [], db_tradelogs = [],
     db_fees = [], db_splits = [] \<rparr>"

definition sample_stored_trade :: "nat \<Rightarrow> TradelogV4" where
  "sample_stored_trade i = TradelogV40\<lparr> TransactionHash := 900, Index := i, Version := 3,
     User := KyberUserInfo0\<lparr> ui_UserAddress := 7 \<rparr> \<rparr>"

definition sample_result :: CrawlResult where
  "sample_result = \<lparr> cr_Reserves = [\<lparr> rs_Address = 5, rs_ReserveID = 50, rs_ReserveType = 1,
       rs_RebateWallet = 6, rs_BlockNumber = 10 \<rparr>],
     cr_UpdateWallets = [\<lparr> rs_Address = 0, rs_ReserveID = 50, rs_ReserveType = 0,
       rs_RebateWallet = 8, rs_BlockNumber = 12 \<rparr>],
     cr_Trades = [sample_stored_trade 1, sample_stored_trade 2] \<rparr>"

abbreviation sample_formatter :: formatter where
  "sample_formatter \<equiv> formatter_of (\<lambda>a. Inr 18)"

lemmas save_defs = SaveTradeLogs_def save_reserves_def saveReserve_def updateRebateWallet_def
  rebate_wallet_stmt_def save_trade_records_def gather_records.simps recordFromTradeLog_def isFirstTrade_def
  save_body_def save_record_def tx_exec_def create_or_update_tradelogs_def row_of_record_def record_id_def
  insertionUser_def insertionWallet_def saveTokens_def saveReserveAddress_def insert_new_def reserve_key_def
  no_errors_def tokens_of_def reserves_of_def add_once_def prepareSplitRecords_def splits_before_katalyst_def
  insert_split_def split_reserve_def split_key_def dst_amount_of_def null_string_def

lemma sample_save: "\<exists>db logs. SaveTradeLogs no_errors sample_formatter (Some sample_result) empty_db = (db, logs, None)"
  by (simp add: save_defs sample_result_def sample_stored_trade_def empty_db_def zero_values formatter_of_def
      ETHAddr_def Let_def upt_rec)

lemma sample_trades: "\<forall>trd\<in>set (cr_Trades sample_result). splits_ok trd"
  "no_panics (\<lambda>a. Inr 18)" "map trade_id_of (cr_Trades sample_result) = [(900, 1), (900, 2)]"
  "\<forall>trd\<in>set (cr_Trades sample_result). distinct (map fee_Index (Fees trd))"
  by (simp_all add: sample_result_def sample_stored_trade_def splits_ok_def no_panics_def trade_id_of_def zero_values)

theorem SaveTradeLogs_atomic_witness:
  "\<exists>db logs. SaveTradeLogs no_errors sample_formatter (Some sample_result) empty_db = (db, logs, None) \<and>
     tl_id ` set (db_tradelogs db) = {(900, 1), (900, 2)}"
proof -
  from sample_save obtain db logs where
    s: "SaveTradeLogs no_errors sample_formatter (Some sample_result) empty_db = (db, logs, None)" by blast
  have "trade_id_of ` set (cr_Trades sample_result) = {(900, 1), (900, 2)}"
    using arg_cong [OF sample_trades(3), of set] by simp
  with SaveTradeLogs_atomic [OF s sample_trades(2,1)] s show ?thesis
    by (auto simp: no_errors_def empty_db_def)
qed

theorem SaveTradeLogs_commit_error_lost_witness:
  "\<exists>db logs. SaveTradeLogs (no_errors\<lparr> se_commit := Some (Err ''connection reset'') \<rparr>) sample_formatter
     (Some sample_result) empty_db = (db, logs, None) \<and> db_tradelogs db = []"
proof -
  from sample_save obtain db logs where
    s: "SaveTradeLogs no_errors sample_formatter (Some sample_result) empty_db = (db, logs, None)" by blast
  from SaveTradeLogs_commit_error_lost [OF s sample_trades(2,1)] show ?thesis
    by (simp add: no_errors_def empty_db_def)
qed

theorem SaveTradeLogs_first_trades_witness:
  "\<exists>db logs. SaveTradeLogs no_errors sample_formatter (Some sample_result) empty_db = (db, logs, None) \<and>
     first_trades_ok db"
proof -
  from sample_save obtain db logs where
    s: "SaveTradeLogs no_errors sample_formatter (Some sample_result) empty_db = (db, logs, None)" by blast
  have "first_trades_ok empty_db" by (simp add: first_trades_ok_def empty_db_def rows_of_user_def)
  moreover have "\<forall>trd\<in>set (cr_Trades sample_result).
      ids_of_users (trade_id_of trd, ui_UserAddress (User trd)) (db_tradelogs empty_db)"
    by (simp add: ids_of_users_def empty_db_def)
  moreover have "\<forall>t\<in>set (cr_Trades sample_result). \<forall>u\<in>set (cr_Trades sample_result).
      trade_id_of t = trade_id_of u \<longrightarrow> ui_UserAddress (User t) = ui_UserAddress (User u)"
    by (simp add: sample_result_def sample_stored_trade_def)
  ultimately have "first_trades_ok db" using SaveTradeLogs_first_trades [OF s _ sample_trades(2,1)] by blast
  with s show ?thesis by blast
qed

theorem SaveTradeLogs_idempotent_witness:
  "\<exists>db logs logs2. SaveTradeLogs no_errors sample_formatter (Some sample_result) empty_db = (db, logs, None) \<and>
     SaveTradeLogs no_errors sample_formatter (Some sample_result) db = (db, logs2, None)"
proof -
  from sample_save obtain db logs where
    s: "SaveTradeLogs no_errors sample_formatter (Some sample_result) empty_db = (db, logs, None)" by blast
  have "distinct (map trade_id_of (cr_Trades sample_result))" unfolding sample_trades(3) by simp
  from SaveTradeLogs_idempotent [OF s _ _ this sample_trades(4)] s show ?thesis
    by (auto simp: no_errors_def)
qed

definition sample_trade_V4 :: TradelogV4 where
  "sample_trade_V4 = TradelogV40\<lparr> Version := 4, DestAmount := Some 1999999999999,
     TokenInfo := TradeTokenInfo0\<lparr> ti_SrcAddress := 3, ti_DestAddress := ETHAddr \<rparr> \<rparr>"

theorem recorded_dst_amount_witness:
  "\<exists>r trd'. recordFromTradeLog (formatter_of (\<lambda>a. Inr 6)) sample_trade_V4 = (Inr r, trd') \<and>
     r_DestAmount r = amount_to_float 18 1999999 \<and> DestAmount trd' = Some 1999999999999000000000000"
proof -
  let ?F = "formatter_of (\<lambda>a. Inr 6)"
  have eth: "ETHAddr \<noteq> 3" by (simp add: ETHAddr_def)
  have d: "decimals_V4 ?F sample_trade_V4 = Inr (6, 18)"
    by (simp add: decimals_V4_def sample_trade_V4_def formatter_of_def decimals_of_def zero_values ETHAddr_def)
  obtain r trd' where r: "recordFromTradeLog ?F sample_trade_V4 = (Inr r, trd')"
    by (simp add: recordFromTradeLog_def dst_amount_of_def calculateDstAmountV4_def decimals_V4_def
        sample_trade_V4_def formatter_of_def decimals_of_def zero_values eth)
  have "Version sample_trade_V4 = 4" "DestAmount sample_trade_V4 = Some 1999999999999"
    "ti_DestAddress (TokenInfo sample_trade_V4) = ETHAddr" by (simp_all add: sample_trade_V4_def)
  with recorded_dst_amount [OF r _ _ _ d, of 1999999999999] r show ?thesis
    by (simp add: calcDstQty_def formatter_of_ETH)
qed

end
