(* ===== verification/TradePipeline.thy ===== *)
theory TradePipeline
  imports CrawlPlanner TradeStoreProps
begin

text \<open>
  The big trades of \<open>tradelogs/storage/postgres/big_trades.go\<close>, and the storage put behind the worker
  pool: what the pool's interface \<open>storage.Interface\<close> promises, and what a crawl round therefore leaves
  in the database.

  The symbols of the tokens are a table of their own, since \<open>UpdateTokens\<close> fills them from elsewhere;
  \<open>now()\<close> is a parameter.
\<close>

section \<open>Big trades\<close>

record big_db =
  bg_trades :: trade_db
  bg_symbols :: "addr \<Rightarrow> string"
  bg_big :: "(trade_id \<times> bool) list"

definition is_big :: "gotime \<Rightarrow> rat \<Rightarrow> nat \<Rightarrow> (addr \<Rightarrow> string) \<Rightarrow> tradelog_row \<Rightarrow> bool" where
  "is_big now bigVolume fromBlock symbols r \<longleftrightarrow>
     bigVolume < tl_original_eth_amount r \<and> fromBlock \<le> tl_block_number r \<and>
     symbols (tl_src r) \<noteq> ''WETH'' \<and> symbols (tl_dst r) \<noteq> ''WETH'' \<and> now - Hour \<le> tl_timestamp r"

text \<open>\<open>err\<close> is the error of the statement, if it fails.\<close>

definition SaveBigTrades :: "go_err option \<Rightarrow> gotime \<Rightarrow> rat \<Rightarrow> nat \<Rightarrow> big_db \<Rightarrow> big_db \<times> go_err option" where
  "SaveBigTrades err now bigVolume fromBlock db =
     (case err of
        Some e \<Rightarrow> (db, Some (errors_Wrap ''cannot update big trades'' e))
      | None \<Rightarrow> (db\<lparr> bg_big := fold (\<lambda>r. insert_new fst (tl_id r, False))
          (filter (is_big now bigVolume fromBlock (bg_symbols db)) (db_tradelogs (bg_trades db)))
          (bg_big db) \<rparr>, None))"

record BigTradeLog =
  bt_TradelogID :: trade_id
  bt_Timestamp :: gotime
  bt_TransactionHash :: hash
  bt_EthAmount :: int
  bt_OriginalETHAmount :: int
  bt_SrcSymbol :: string
  bt_DestSymbol :: string
  bt_FiatAmount :: f64

fun big_logs :: "formatter \<Rightarrow> (addr \<Rightarrow> string) \<Rightarrow> tradelog_row list \<Rightarrow> BigTradeLog list go" where
  "big_logs F symbols [] = Inr []"
| "big_logs F symbols (r # rs) =
     go_bind (tf_ToWei F ETHAddr (tl_eth_amount r)) (\<lambda>eth.
     go_bind (tf_ToWei F ETHAddr (tl_original_eth_amount r)) (\<lambda>original.
     go_bind (big_logs F symbols rs) (\<lambda>rest.
       Inr (\<lparr> bt_TradelogID = tl_id r, bt_Timestamp = tl_timestamp r,
              bt_TransactionHash = fst (tl_id r), bt_EthAmount = eth,
              bt_OriginalETHAmount = original, bt_SrcSymbol = symbols (tl_src r),
              bt_DestSymbol = symbols (tl_dst r),
              bt_FiatAmount = float64 (tl_eth_usd_rate r * tl_original_eth_amount r) \<rparr> # rest))))"

definition not_twitted :: "gotime \<Rightarrow> gotime \<Rightarrow> big_db \<Rightarrow> tradelog_row \<Rightarrow> bool" where
  "not_twitted t u db r \<longleftrightarrow> (tl_id r, False) \<in> set (bg_big db) \<and> t \<le> tl_timestamp r \<and> tl_timestamp r \<le> u"

definition GetNotTwittedTrades :: "formatter \<Rightarrow> gotime \<Rightarrow> gotime \<Rightarrow> big_db \<Rightarrow> BigTradeLog list go" where
  "GetNotTwittedTrades F t u db =
     big_logs F (bg_symbols db) (filter (not_twitted t u db) (db_tradelogs (bg_trades db)))"

text \<open>Each update is a statement of its own; an id without a row gives \<open>sql.ErrNoRows\<close>.\<close>

definition mark_twitted :: "trade_id \<Rightarrow> (trade_id \<times> bool) list \<Rightarrow> (trade_id \<times> bool) list" where
  "mark_twitted i rows = map (\<lambda>(j, b). (j, if j = i then True else b)) rows"

fun UpdateBigTradesTwitted :: "trade_id list \<Rightarrow> big_db \<Rightarrow> big_db \<times> go_err option" where
  "UpdateBigTradesTwitted [] db = (db, None)"
| "UpdateBigTradesTwitted (i # is) db =
     (if i \<in> fst ` set (bg_big db)
      then UpdateBigTradesTwitted is (db\<lparr> bg_big := mark_twitted i (bg_big db) \<rparr>)
      else (db, Some (Err ''sql: no rows in result set'')))"

text \<open>
  What may happen to the tables between two runs of the bot that announces the big trades: the crawler
  saves big trades, the bot marks some as announced, and other tables change.
\<close>

inductive big_step :: "big_db \<Rightarrow> big_db \<Rightarrow> bool" where
  save: "big_step db (fst (SaveBigTrades err now bigVolume fromBlock db))"
| mark: "big_step db (fst (UpdateBigTradesTwitted is db))"
| other: "big_step db (db\<lparr> bg_trades := t, bg_symbols := f \<rparr>)"

abbreviation one_row_each :: "big_db \<Rightarrow> bool" where
  "one_row_each db \<equiv> distinct (map fst (bg_big db))"

lemma insert_big_all:
  "distinct (map fst xs) \<Longrightarrow> distinct (map fst (fold (\<lambda>r. insert_new fst (tl_id r, False)) rs xs)) \<and>
   set xs \<subseteq> set (fold (\<lambda>r. insert_new fst (tl_id r, False)) rs xs)"
proof (induction rs arbitrary: xs)
  case (Cons r rs)
  let ?xs = "insert_new fst (tl_id r, False) xs"
  have "distinct (map fst ?xs)" "set xs \<subseteq> set ?xs"
    using Cons.prems by (auto simp: insert_new_def)
  with Cons.IH [of ?xs] show ?case by (simp add: subset_trans)
qed simp

lemma mark_twitted_fst [simp]: "map fst (mark_twitted i xs) = map fst xs"
  by (induction xs) (auto simp: mark_twitted_def)

lemma mark_twitted_True: "(k, True) \<in> set xs \<Longrightarrow> (k, True) \<in> set (mark_twitted i xs)"
  by (force simp: mark_twitted_def)

lemma mark_twitted_self: "i \<in> fst ` set xs \<Longrightarrow> (i, True) \<in> set (mark_twitted i xs)"
  by (force simp: mark_twitted_def)

lemma UpdateBigTradesTwitted_marks:
  "UpdateBigTradesTwitted is db = (db', e) \<Longrightarrow>
   map fst (bg_big db') = map fst (bg_big db) \<and>
   (\<forall>i. (i, True) \<in> set (bg_big db) \<longrightarrow> (i, True) \<in> set (bg_big db')) \<and>
   (e = None \<longrightarrow> (\<forall>i\<in>set is. (i, True) \<in> set (bg_big db')))"
proof (induction "is" db arbitrary: db' e rule: UpdateBigTradesTwitted.induct)
  case (2 i "is" db)
  let ?db = "db\<lparr> bg_big := mark_twitted i (bg_big db) \<rparr>"
  show ?case
  proof (cases "i \<in> fst ` set (bg_big db)")
    case True
    with 2 (2) have run: "UpdateBigTradesTwitted is ?db = (db', e)" by simp
    have "map fst (bg_big ?db) = map fst (bg_big db)"
      "\<And>k. (k, True) \<in> set (bg_big db) \<Longrightarrow> (k, True) \<in> set (bg_big ?db)" "(i, True) \<in> set (bg_big ?db)"
      using mark_twitted_True mark_twitted_self [OF True] by simp_all
    with 2 (1) [OF True run] show ?thesis by (metis set_ConsD)
  next
    case False
    with 2 (2) show ?thesis by auto
  qed
qed simp

lemma big_step_keeps:
  assumes "big_step db db'" "one_row_each db"
  shows "one_row_each db' \<and> (\<forall>i. (i, True) \<in> set (bg_big db) \<longrightarrow> (i, True) \<in> set (bg_big db'))"
  using assms
proof (cases rule: big_step.cases)
  case (save err now v n)
  then show ?thesis
    using insert_big_all [OF assms(2)] assms(2) by (fastforce simp: SaveBigTrades_def split: option.splits)
next
  case (mark "is")
  obtain e where "UpdateBigTradesTwitted is db = (db', e)" using mark by (metis prod.collapse)
  from UpdateBigTradesTwitted_marks [OF this] assms(2) show ?thesis by simp
qed (use assms(2) in simp)

lemma big_steps_keep:
  assumes "big_step\<^sup>*\<^sup>* db db'" "one_row_each db"
  shows "one_row_each db' \<and> (\<forall>i. (i, True) \<in> set (bg_big db) \<longrightarrow> (i, True) \<in> set (bg_big db'))"
  using assms
proof (induction rule: rtranclp_induct)
  case (step db1 db2)
  with big_step_keeps [OF step.hyps(2)] show ?case by simp
qed simp

lemma big_logs_ids: "big_logs F symbols rs = Inr bts \<Longrightarrow> map bt_TradelogID bts = map tl_id rs"
  by (induction rs arbitrary: bts) (auto simp: go_bind_Inr_iff)

lemma not_twitted_twice:
  assumes "one_row_each db" "(i, True) \<in> set (bg_big db)"
  shows "(i, False) \<notin> set (bg_big db)"
  using eq_key_imp_eq_value [OF assms(1)] assms(2) by blast

section \<open>The storage behind the pool\<close>

text \<open>
  The storage as the pool calls it, with the number of the calls so far: \<open>S k\<close> is what happens to the
  statements of call \<open>k\<close>, so that every call may fail in its own way.
\<close>

definition postgres_store :: "(nat \<Rightarrow> sql_env) \<Rightarrow> (nat \<Rightarrow> go_err option) \<Rightarrow> gotime \<Rightarrow> formatter
    \<Rightarrow> (nat \<times> big_db) trade_storage" where
  "postgres_store S bigErr now F = \<lparr>
     st_SaveTradeLogs = (\<lambda>r (k, db).
       case SaveTradeLogs (S k) F r (bg_trades db) of
         (t, logs, err) \<Rightarrow> ((Suc k, db\<lparr> bg_trades := t \<rparr>), err)),
     st_SaveBigTrades = (\<lambda>v n (k, db).
       case SaveBigTrades (bigErr k) now v n db of (db', err) \<Rightarrow> ((k, db'), err)) \<rparr>"

text \<open>
  What the pool's storage promises: a save that returns no error has added exactly its trades, unless its
  call is one whose commit was lost, which adds none; and no save loses any trade.
\<close>

locale trade_store =
  fixes S :: "'s trade_storage" and stored :: "'s \<Rightarrow> trade_id set" and calls :: "'s \<Rightarrow> nat" and lost :: "nat \<Rightarrow> bool"
  assumes save_adds: "st_SaveTradeLogs S (Some r) st = (st', None) \<Longrightarrow>
      stored st' = (if lost (calls st) then stored st else stored st \<union> trade_id_of ` set (cr_Trades r))"
    and save_keeps: "st_SaveTradeLogs S x st = (st', e) \<Longrightarrow> stored st \<subseteq> stored st' \<and> calls st' = Suc (calls st)"
    and big_keeps: "st_SaveBigTrades S v n st = (st', e) \<Longrightarrow> stored st' = stored st \<and> calls st' = calls st"
begin

lemma save_trades_adds:
  fixes r :: CrawlResult
  assumes "save_trades S v j (Some r) st = (st', None)"
  shows "stored st' = (if lost (calls st) then stored st else stored st \<union> trade_id_of ` set (cr_Trades r)) \<and>
    calls st' = Suc (calls st)"
proof -
  from assms obtain st1 where 1: "st_SaveTradeLogs S (Some r) st = (st1, None)"
    and 2: "st_SaveBigTrades S v (u64 (tj_from j)) st1 = (st', None)"
    by (auto simp: save_trades_def split: prod.splits option.splits)
  from save_adds [OF 1] save_keeps [OF 1] big_keeps [OF 2] show ?thesis by simp
qed

lemma save_trades_keeps:
  assumes "save_trades S v j r st = (st', e)"
  shows "stored st \<subseteq> stored st'"
  using assms save_keeps big_keeps by (fastforce simp: save_trades_def split: prod.splits option.splits)

lemma apply_calls_keeps: "stored st \<subseteq> stored (apply_calls (save_trades S v) cs st)"
proof (induction cs arbitrary: st)
  case (Cons c cs)
  obtain j r x where c: "c = (j, r, x)" by (cases c)
  have "stored st \<subseteq> stored (fst (save_trades S v j r st))" by (rule save_trades_keeps) (rule prod.collapse [symmetric])
  with Cons show ?case by (simp add: c) blast
qed simp

lemma apply_calls_stored:
  assumes "calls_faithful (save_trades S v) cs st" "\<forall>(j, r, x)\<in>set cs. r \<noteq> None \<and> x = None"
  shows "stored (apply_calls (save_trades S v) cs st) = stored st \<union>
    (\<Union>i\<in>{i. i < length cs \<and> \<not> lost (calls st + i)}. trade_id_of ` set (cr_Trades (the (fst (snd (cs ! i))))))"
  using assms
proof (induction cs arbitrary: st)
  case (Cons c cs)
  from Cons.prems(2) obtain j r where c: "c = (j, Some r, None)" by (cases c) auto
  let ?st = "fst (save_trades S v j (Some r) st)"
  let ?f = "\<lambda>i. trade_id_of ` set (cr_Trades (the (fst (snd (cs ! i)))))"
  from Cons.prems(1) c have "save_trades S v j (Some r) st = (?st, None)" by (auto simp: prod_eq_iff)
  from save_trades_adds [OF this]
  have st: "stored ?st = (if lost (calls st) then stored st else stored st \<union> trade_id_of ` set (cr_Trades r))"
    "calls ?st = Suc (calls st)" by blast+
  have IH: "stored (apply_calls (save_trades S v) cs ?st) =
      stored ?st \<union> (\<Union>i\<in>{i. i < length cs \<and> \<not> lost (calls ?st + i)}. ?f i)"
    by (rule Cons.IH) (use Cons.prems c in auto)
  have "{i. i < length (c # cs) \<and> \<not> lost (calls st + i)} =
      (if lost (calls st) then {} else {0}) \<union> Suc ` {i. i < length cs \<and> \<not> lost (calls ?st + i)}"
    unfolding st(2) by (auto simp: image_iff less_Suc_eq_0_disj)
  then have "(\<Union>i\<in>{i. i < length (c # cs) \<and> \<not> lost (calls st + i)}. trade_id_of ` set (cr_Trades (the (fst (snd ((c # cs) ! i)))))) =
      (if lost (calls st) then {} else trade_id_of ` set (cr_Trades r)) \<union>
      (\<Union>i\<in>{i. i < length cs \<and> \<not> lost (calls ?st + i)}. ?f i)"
    by (simp add: UN_Un c)
  with IH show ?case unfolding st(1) by (auto simp: c)
qed simp

end

lemma SaveBigTrades_trades: "SaveBigTrades err now v n db = (db', e) \<Longrightarrow> bg_trades db' = bg_trades db"
  by (auto simp: SaveBigTrades_def split: option.splits)

interpretation pg_trades: trade_store
  "postgres_store S bigErr now F" "\<lambda>(k, db). tradelog_ids (bg_trades db)" fst "\<lambda>k. se_commit (S k) \<noteq> None"
  for S bigErr now F
proof
  fix st st' e v n
  let ?P = "postgres_store S bigErr now F" and ?ids = "\<lambda>(k :: nat, db). tradelog_ids (bg_trades db)"
  show "?ids st' = (if se_commit (S (fst st)) \<noteq> None then ?ids st else ?ids st \<union> trade_id_of ` set (cr_Trades r))"
    if "st_SaveTradeLogs ?P (Some r) st = (st', None)" for r
    using that by (auto simp: postgres_store_def dest!: SaveTradeLogs_ids split: prod.splits)
  show "?ids st \<subseteq> ?ids st' \<and> fst st' = Suc (fst st)"
    if "st_SaveTradeLogs ?P x st = (st', e)" for x
    using that by (auto simp: postgres_store_def dest: SaveTradeLogs_keeps [THEN subsetD] split: prod.splits)
  show "?ids st' = ?ids st \<and> fst st' = fst st"
    if "st_SaveBigTrades ?P v n st = (st', e)"
    using that by (auto simp: postgres_store_def dest: SaveBigTrades_trades split: prod.splits)
qed

section \<open>The results that the pool saves\<close>

text \<open>Every result that a worker gets for a job is one of the outcomes of the job.\<close>

fun honest_run :: "('j \<Rightarrow> nat) \<Rightarrow> ('j, 'r, 's) saver
    \<Rightarrow> ((nat \<Rightarrow> 'r option \<times> go_err option) \<Rightarrow> 'r option \<times> go_err option)
    \<Rightarrow> ('j \<Rightarrow> ('r option \<times> go_err option) set)
    \<Rightarrow> ('j, 'r) pool_event list \<Rightarrow> ('j, 'r, 's) pool \<Rightarrow> bool" where
  "honest_run ord save ex outcomes [] p \<longleftrightarrow> True"
| "honest_run ord save ex outcomes (ev # evs) p \<longleftrightarrow>
     (\<forall>w fn j. ev = Executed w fn \<longrightarrow> pl_workers p ! w = Executing j \<longrightarrow> range fn \<subseteq> outcomes j) \<and>
     (\<forall>q cs. pool_event ord save ex ev p = Some (q, cs) \<longrightarrow> honest_run ord save ex outcomes evs q)"

definition saving_ok :: "('j \<Rightarrow> 'r option \<Rightarrow> bool) \<Rightarrow> ('j, 'r, 's) pool \<Rightarrow> bool" where
  "saving_ok P p \<longleftrightarrow> (\<forall>w j r. w < length (pl_workers p) \<longrightarrow> pl_workers p ! w = Saving j r \<longrightarrow> P j r)"

lemma saving_ok_set_worker:
  "saving_ok P p \<Longrightarrow> (\<And>j r. l = Saving j r \<Longrightarrow> P j r) \<Longrightarrow> saving_ok P (set_worker w l p)"
  by (cases "w < length (pl_workers p)")
    (auto simp: saving_ok_def set_worker_def nth_list_update list_update_beyond split: if_splits)

lemma saving_ok_update [simp]:
  "saving_ok P (p\<lparr> pl_storage := a \<rparr>) = saving_ok P p"
  "saving_ok P (p\<lparr> lastCompletedJobOrder := b \<rparr>) = saving_ok P p"
  "saving_ok P (p\<lparr> pl_failed := c \<rparr>) = saving_ok P p"
  "saving_ok P (p\<lparr> pl_errCh := d \<rparr>) = saving_ok P p"
  "saving_ok P (p\<lparr> pl_jobsClosed := f \<rparr>) = saving_ok P p"
  "saving_ok P (p\<lparr> pl_errClosed := g \<rparr>) = saving_ok P p"
  by (simp_all add: saving_ok_def)

lemma pool_event_results:
  assumes "pool_event ord save ex ev p = Some (q, cs)" "saving_ok P p"
    and "\<And>w fn j r. ev = Executed w fn \<Longrightarrow> pl_workers p ! w = Executing j \<Longrightarrow> ex fn = (r, None) \<Longrightarrow> P j r"
  shows "saving_ok P q" "\<forall>(j, r, x) \<in> set cs. P j r"
proof -
  have "saving_ok P q \<and> (\<forall>(j, r, x) \<in> set cs. P j r)"
    using assms(1)
  proof (cases rule: pool_event_elim)
    case (executed w fn j r)
    with assms(3) have "P j r" by blast
    with executed assms(2) show ?thesis by (auto intro: saving_ok_set_worker)
  next
    case (save w j r st)
    with assms(2) have "P j r" by (auto simp: saving_ok_def)
    with save assms(2) show ?thesis by (auto intro!: saving_ok_set_worker)
  next
    case (save_error w j r st e)
    with assms(2) have "P j r" by (auto simp: saving_ok_def)
    with save_error assms(2) show ?thesis by (auto intro!: saving_ok_set_worker)
  next
    case (mark w j x)
    with assms(2) show ?thesis by (auto intro!: saving_ok_set_worker split: option.splits)
  qed (use assms(2) in \<open>auto intro!: saving_ok_set_worker\<close>)
  then show "saving_ok P q" "\<forall>(j, r, x) \<in> set cs. P j r" by blast+
qed

lemma pool_run_results:
  assumes "pool_run ord save ex evs p = Some (q, cs)" "saving_ok P p" "honest_run ord save ex outcomes evs p"
    and ex: "\<And>fn j r. range fn \<subseteq> outcomes j \<Longrightarrow> ex fn = (r, None) \<Longrightarrow> P j r"
  shows "\<forall>(j, r, x) \<in> set cs. P j r"
  using assms(1-3)
proof (induction evs arbitrary: p cs)
  case (Cons ev evs)
  from Cons.prems(1) obtain p1 cs1 cs2 where ev: "pool_event ord save ex ev p = Some (p1, cs1)"
    and run: "pool_run ord save ex evs p1 = Some (q, cs2)" and cs: "cs = cs1 @ cs2" by (rule pool_run_Cons)
  have h: "P j r" if "ev = Executed w fn" "pl_workers p ! w = Executing j" "ex fn = (r, None)" for w fn j r
    using Cons.prems(3) that by (intro ex [of fn]) auto
  have r: "saving_ok P p1" "\<forall>(j, r, x) \<in> set cs1. P j r"
    by (rule pool_event_results(1) [OF ev Cons.prems(2)], rule h, assumption+)
      (rule pool_event_results(2) [OF ev Cons.prems(2)], rule h, assumption+)
  have "honest_run ord save ex outcomes evs p1" using Cons.prems(3) ev by simp
  from Cons.IH [OF run r(1) this] r(2) show ?case unfolding cs set_append by blast
qed simp

lemma retry_trades_outcome:
  assumes "retry_trades fn attempts = (r, None)" "0 < attempts"
  shows "(r, None) \<in> range fn"
proof -
  obtain k where k: "attempts = Suc k" using assms(2) gr0_conv_Suc by blast
  obtain a b where f: "fn 0 = (a, b)" by (cases "fn 0")
  show ?thesis
  proof (cases b)
    case None
    with assms(1) k f have "fn 0 = (r, None)" by (simp add: retry_trades_def)
    then show ?thesis by (metis rangeI)
  next
    case (Some e)
    with assms(1) k f have "retry_from fn 1 k (a, Some e) = (r, None)" by (simp add: retry_trades_def)
    then show ?thesis by (auto dest: retry_from_outcome)
  qed
qed

definition crawl_outcomes :: "crawler set \<Rightarrow> trade_job \<Rightarrow> crawl_out set" where
  "crawl_outcomes nodes j = (\<lambda>C. GetTradeLogs C (tj_from j) (tj_to j)) ` nodes"

lemma GetTradeLogs_not_nil: "GetTradeLogs C f t \<noteq> (None, None)"
proof -
  have "crawl_loop body st logs \<noteq> (None, None)" for body st logs
    by (induction body st logs rule: crawl_loop.induct)
      (auto split: list.split sum.split abort.split)
  then have "assemble_of_version v C logs \<noteq> (None, None)" for v logs
    by (simp add: assemble_of_version_def assembleTradeLogsV1_def assembleTradeLogsV2_def
        assembleTradeLogsV3_def assembleTradeLogsV4_def)
  then have "fetchFn C f t f t \<noteq> (None, None)"
    by (auto simp: fetchFn_version Let_def fetch_and_assemble_def split: sum.split)
  moreover have "enrich_from C cr acc trs \<noteq> (None, None)" for cr acc trs
    by (induction C cr acc trs rule: enrich_from.induct) (auto simp: Let_def split: sum.split prod.split)
  ultimately show ?thesis by (auto simp: GetTradeLogs_def split: prod.split option.split)
qed

definition trade_events :: "crawler \<Rightarrow> trade_job \<Rightarrow> log list option" where
  "trade_events C j =
     (case FilterLogs C (tj_from j) (tj_to j) (cw_addresses C)
        (topics_of_version (crawl_version C (tj_from j) (tj_to j))) of
        Inl e \<Rightarrow> None
      | Inr logs \<Rightarrow> Some (trade_logs (trade_topic_of_version (crawl_version C (tj_from j) (tj_to j))) logs))"

lemma crawl_outcomes_events:
  assumes "(r, None) \<in> crawl_outcomes nodes j"
  shows "\<exists>C\<in>nodes. \<exists>cr events. r = Some cr \<and> trade_events C j = Some events \<and>
    map trade_id_of (cr_Trades cr) = map (\<lambda>lg. (lg_TxHash lg, lg_Index lg)) events"
proof -
  from assms obtain C where C: "C \<in> nodes" "GetTradeLogs C (tj_from j) (tj_to j) = (r, None)"
    by (auto simp: crawl_outcomes_def)
  then obtain cr where cr: "r = Some cr" using GetTradeLogs_not_nil by (cases r) auto
  from GetTradeLogs_keys [OF C(2) [unfolded cr]] obtain logs where
    1: "FilterLogs C (tj_from j) (tj_to j) (cw_addresses C)
          (topics_of_version (crawl_version C (tj_from j) (tj_to j))) = Inr logs"
    and 2: "map trade_key (cr_Trades cr) =
       map log_key (trade_logs (trade_topic_of_version (crawl_version C (tj_from j) (tj_to j))) logs)"
    by blast
  let ?events = "trade_logs (trade_topic_of_version (crawl_version C (tj_from j) (tj_to j))) logs"
  have "map trade_id_of (cr_Trades cr) = map (\<lambda>(h, b, i). (h, i)) (map trade_key (cr_Trades cr))"
    by (simp add: trade_key_def trade_id_of_def)
  also have "\<dots> = map (\<lambda>lg. (lg_TxHash lg, lg_Index lg)) ?events"
    unfolding 2 by (simp add: log_key_def)
  finally show ?thesis using C(1) cr 1 by (intro bexI [of _ C] exI conjI) (simp_all add: trade_events_def)
qed

definition log_ids :: "log list \<Rightarrow> trade_id set" where
  "log_ids events = (\<lambda>lg. (lg_TxHash lg, lg_Index lg)) ` set events"

lemma calls_events:
  assumes "\<forall>(j, r, x) \<in> set cs. (r, None) \<in> crawl_outcomes nodes j"
  obtains events where "length events = length cs"
    "\<forall>i<length cs. \<exists>C\<in>nodes. trade_events C (fst (cs ! i)) = Some (events ! i)"
    "\<forall>(j, r, x)\<in>set cs. r \<noteq> None"
    "\<forall>i<length cs. trade_id_of ` set (cr_Trades (the (fst (snd (cs ! i))))) = log_ids (events ! i)"
proof -
  let ?P = "\<lambda>c events. fst (snd c) \<noteq> None \<and> (\<exists>C\<in>nodes. trade_events C (fst c) = Some events) \<and>
     trade_id_of ` set (cr_Trades (the (fst (snd c)))) = log_ids events"
  have "\<exists>events. ?P c events" if c: "c \<in> set cs" for c
  proof -
    from c assms have "(fst (snd c), None) \<in> crawl_outcomes nodes (fst c)" by auto
    from crawl_outcomes_events [OF this] obtain C cr events where
      e: "C \<in> nodes" "fst (snd c) = Some cr" "trade_events C (fst c) = Some events"
      "map trade_id_of (cr_Trades cr) = map (\<lambda>lg. (lg_TxHash lg, lg_Index lg)) events" by blast
    from arg_cong [OF e(4), of set] e(1-3) show ?thesis by (auto simp: log_ids_def)
  qed
  then obtain ev where ev: "\<And>c. c \<in> set cs \<Longrightarrow> ?P c (ev c)" by metis
  show thesis
  proof (rule that [of "map ev cs"])
    show "\<forall>(j, r, x)\<in>set cs. r \<noteq> None"
    proof (intro ballI)
      fix c assume "c \<in> set cs"
      from ev [OF this] show "case c of (j, r, x) \<Rightarrow> r \<noteq> None" by (simp add: case_prod_beta)
    qed
  qed (use ev in simp_all)
qed

section \<open>Properties\<close>

text \<open>
  C1: End to end: what a round of the trade logs crawler that ends with \<open>doneCh\<close> has stored, exactly. The
  planned jobs cover the range without gap or overlap, and call \<open>i\<close> of the storage saves job \<open>i\<close>. For each
  job there is a crawl, with the logs that a node returned for its blocks, and the rows of the database
  are the rows before and one for each of the trade events of these crawls that no reorganisation
  removed, for every job whose call committed. This holds for any starting blocks in order, however the
  workers were interleaved and whichever attempts, statements or commits failed on the way. Only a failed
  commit costs trades: \<open>SaveTradeLogs\<close> loses its error, and the round ends with \<open>doneCh\<close> and without the
  rows of that job.
\<close>

theorem trade_round_stored:
  assumes "sb_ok sb maxBlocks" "0 \<le> fromBlock" "fromBlock \<le> toBlock" "toBlock + maxBlocks < 2 ^ 63"
    and "plan_jobs sb maxBlocks fromBlock toBlock = Some js" "jobs_of evs = js" "0 < attempts"
    and "store = postgres_store S bigErr now F"
    and "trade_pool_run store bigVolume attempts evs (NewPool workers (0, db)) = Some (p, cs)"
    and "honest_run tj_order (save_trades store bigVolume) (\<lambda>fn. retry_trades fn attempts)
      (crawl_outcomes nodes) evs (NewPool workers (0, db))"
    and "lastCompletedJobOrder p = length js"
  shows "job_chain fromBlock js toBlock \<and>
    (\<exists>events. length events = length js \<and>
       (\<forall>i<length js. \<exists>C\<in>nodes. trade_events C (js ! i) = Some (events ! i)) \<and>
       tradelog_ids (bg_trades (snd (pl_storage p))) = tradelog_ids (bg_trades db) \<union>
         {(lg_TxHash lg, lg_Index lg) | lg i. i < length js \<and> se_commit (S i) = None \<and> lg \<in> set (events ! i)})"
proof -
  from plan_from_spec [OF assms(1,2,4), of 0] assms(3,5)
  have plan: "map tj_order js = [1..<Suc (length js)]" "job_chain fromBlock js toBlock"
    by (auto simp: plan_jobs_def simp del: upt_Suc)
  note run = assms(9) [unfolded trade_pool_run_def]
  from pool_run_completes [OF run, unfolded assms(6)] plan(1) assms(11)
  have cs: "map fst cs = js" "\<forall>c\<in>set cs. snd (snd c) = None"
    "pl_storage p = apply_calls (save_trades store bigVolume) cs (0, db)" by simp_all
  have faithful: "calls_faithful (save_trades store bigVolume) cs (0, db)"
    using pool_run_faithful [OF run] by (simp add: NewPool_def)
  have honest: "\<forall>(j, r, x) \<in> set cs. (r, None) \<in> crawl_outcomes nodes j"
    using retry_trades_outcome [OF _ assms(7)]
    by (intro pool_run_results [OF run _ assms(10)]) (auto simp: saving_ok_def NewPool_def)
  from calls_events [OF honest] obtain events where
    e: "length events = length cs" "\<forall>i<length cs. \<exists>C\<in>nodes. trade_events C (fst (cs ! i)) = Some (events ! i)"
      "\<forall>(j, r, x)\<in>set cs. r \<noteq> None"
      "\<forall>i<length cs. trade_id_of ` set (cr_Trades (the (fst (snd (cs ! i))))) = log_ids (events ! i)" .
  have len: "length cs = length js" "\<forall>i<length cs. fst (cs ! i) = js ! i" using cs(1) by auto
  have "\<forall>(j, r, x)\<in>set cs. r \<noteq> None \<and> x = None" using e(3) cs(2) by auto
  from pg_trades.apply_calls_stored [OF faithful [unfolded assms(8)] this]
  have "tradelog_ids (bg_trades (snd (pl_storage p))) = tradelog_ids (bg_trades db) \<union>
      (\<Union>i\<in>{i. i < length cs \<and> se_commit (S i) = None}. trade_id_of ` set (cr_Trades (the (fst (snd (cs ! i))))))"
    unfolding cs(3) assms(8) by (simp add: case_prod_beta)
  also have "\<dots> = tradelog_ids (bg_trades db) \<union> (\<Union>i\<in>{i. i < length cs \<and> se_commit (S i) = None}. log_ids (events ! i))"
    using e(4) by simp
  finally have "tradelog_ids (bg_trades (snd (pl_storage p))) = tradelog_ids (bg_trades db) \<union>
      {(lg_TxHash lg, lg_Index lg) | lg i. i < length js \<and> se_commit (S i) = None \<and> lg \<in> set (events ! i)}"
    unfolding len(1) log_ids_def by blast
  with plan(2) e(1,2) len show ?thesis by (intro conjI exI [of _ events]) auto
qed

text \<open>
  C10: A big trade is announced at most once: once the bot has marked it, \<open>GetNotTwittedTrades\<close> never returns
  it again, whatever the crawler saves and the bot marks afterwards; in particular a new run of
  \<open>SaveBigTrades\<close>, which selects the same trades for an hour, does not reset the mark.
\<close>

theorem big_trade_announced_once:
  assumes "distinct (map fst (bg_big db))" "UpdateBigTradesTwitted is db = (db1, None)"
    and "big_step\<^sup>*\<^sup>* db1 db2" "GetNotTwittedTrades F t u db2 = Inr bts"
  shows "set is \<inter> bt_TradelogID ` set bts = {}"
proof -
  note marks = UpdateBigTradesTwitted_marks [OF assms(2)]
  with assms(1) have "one_row_each db1" by simp
  note keep = big_steps_keep [OF assms(3) this]
  have "i \<notin> bt_TradelogID ` set bts" if "i \<in> set is" for i
  proof -
    from that marks have "(i, True) \<in> set (bg_big db1)" by blast
    with keep have "(i, True) \<in> set (bg_big db2)" "one_row_each db2" by blast+
    with not_twitted_twice have "(i, False) \<notin> set (bg_big db2)" by blast
    moreover have "set (map bt_TradelogID bts) = set (map tl_id (filter (not_twitted t u db2) (db_tradelogs (bg_trades db2))))"
      using big_logs_ids [OF assms(4) [unfolded GetNotTwittedTrades_def]] by simp
    ultimately show ?thesis by (auto simp: not_twitted_def)
  qed
  then show ?thesis by blast
qed

text \<open>
  One job of version 4, crawled from the sample logs of the crawler: two trades with their splits, whose
  reserves are in the database.
\<close>

definition pipeline_job :: trade_job where
  "pipeline_job = trade_job_of 1 31 33"

lemma pipeline_plan: "plan_jobs sample_sb 5 31 33 = Some [pipeline_job]"
proof -
  have "plan_from sample_sb 5 33 36 1 = Some []" by (subst plan_from.simps) simp
  then show ?thesis
    unfolding plan_jobs_def
    by (subst plan_from.simps)
      (simp add: jobs_at_def sample_sb_def MinInt64_def i64_def u64_def eval_nat_numeral pipeline_job_def)
qed

definition pipeline_result :: "CrawlResult option" where
  "pipeline_result = fst (GetTradeLogs (sample_crawler sample_logs) 31 33)"

definition pipeline_db :: big_db where
  "pipeline_db = \<lparr> bg_trades = empty_db\<lparr> db_reserves := map (\<lambda>i. \<lparr> rv_address = 40, rv_reserve_id = Some i,
     rv_type = 1, rv_rebate_wallet = None, rv_block = 1 \<rparr>) [1, 2] \<rparr>, bg_symbols = (\<lambda>a. ''KNC''), bg_big = [] \<rparr>"

lemmas pipeline_eval = sample_crawler_def sample_logs_def sample_log_def sample_fee_def TradeProps.sample_trade_def
  crawl_eval set_tx_info_def save_defs empty_db_def formatter_of_def ETHAddr_def upt_rec decimals_of_def
  prepareFeeRecords.simps calculateDstAmountV4_def decimals_V4_def calculateDstAmount_def split_loop.simps

lemma pipeline_crawl: "GetTradeLogs (sample_crawler sample_logs) 31 33 = (pipeline_result, None)"
  by (simp add: pipeline_result_def prod_eq_iff, simp add: pipeline_eval)

lemma pipeline_save:
  "snd (snd (SaveTradeLogs no_errors sample_formatter pipeline_result (bg_trades pipeline_db))) = None"
  by (simp add: pipeline_result_def pipeline_db_def pipeline_eval)

abbreviation pipeline_store :: "(nat \<times> big_db) trade_storage" where
  "pipeline_store \<equiv> postgres_store (\<lambda>n. no_errors) (\<lambda>n. None) 2000000 sample_formatter"

definition pipeline_events :: "(trade_job, CrawlResult) pool_event list" where
  "pipeline_events = [Run 0 pipeline_job, Executed 0 (\<lambda>i. (pipeline_result, None)), SaveTurn 0]"

lemma pipeline_save_call: "snd (save_trades pipeline_store 100 pipeline_job pipeline_result (0, pipeline_db)) = None"
proof -
  obtain t logs where "SaveTradeLogs no_errors sample_formatter pipeline_result (bg_trades pipeline_db) = (t, logs, None)"
    using pipeline_save by (metis prod.collapse)
  then show ?thesis by (simp add: save_trades_def postgres_store_def no_errors_def SaveBigTrades_def)
qed

theorem trade_round_stored_witness:
  "\<exists>p cs events. trade_pool_run pipeline_store 100 1 pipeline_events (NewPool 1 (0, pipeline_db)) = Some (p, cs) \<and>
     trade_events (sample_crawler sample_logs) pipeline_job = Some events \<and> length events = 2 \<and>
     tradelog_ids (bg_trades (snd (pl_storage p))) = {(lg_TxHash lg, lg_Index lg) | lg. lg \<in> set events}"
proof -
  let ?run = "trade_pool_run pipeline_store 100 1 pipeline_events (NewPool 1 (0, pipeline_db))"
  obtain st where st: "save_trades pipeline_store 100 pipeline_job pipeline_result (0, pipeline_db) = (st, None)"
    using pipeline_save_call by (metis prod.collapse)
  then obtain p cs where run: "?run = Some (p, cs)" and fin: "lastCompletedJobOrder p = 1"
    by (simp add: pipeline_events_def trade_pool_run_def pipeline_job_def trade_job_of_def retry_trades_def
        sample_pool_defs)
  have jobs: "jobs_of pipeline_events = [pipeline_job]" by (simp add: pipeline_events_def)
  have "honest_run tj_order (save_trades pipeline_store 100) (\<lambda>fn. retry_trades fn 1)
      (crawl_outcomes {sample_crawler sample_logs}) pipeline_events (NewPool 1 (0, pipeline_db))"
    by (auto simp: pipeline_events_def crawl_outcomes_def pipeline_crawl pipeline_job_def trade_job_of_def
        retry_trades_def sample_pool_defs)
  from trade_round_stored [OF sample_sb_ok _ _ _ pipeline_plan jobs _ refl run this] fin
  obtain events where e: "trade_events (sample_crawler sample_logs) pipeline_job = Some (events ! 0)"
    "tradelog_ids (bg_trades (snd (pl_storage p))) = tradelog_ids (bg_trades pipeline_db) \<union>
       {(lg_TxHash lg, lg_Index lg) | lg i. i < length [pipeline_job] \<and> se_commit no_errors = None \<and> lg \<in> set (events ! i)}"
    by auto
  have "length lgs = 2" if "trade_events (sample_crawler sample_logs) pipeline_job = Some lgs" for lgs
    using that by (auto simp: trade_events_def pipeline_job_def trade_job_of_def crawl_version_def u64_def
        sample_crawler_def sample_logs_def sample_log_def topics_neq trade_logs_def trade_topic_of_version_def is_trade_V4_def)
  from this [OF e(1)] have "length (events ! 0) = 2" .
  moreover have "tradelog_ids (bg_trades (snd (pl_storage p))) = {(lg_TxHash lg, lg_Index lg) | lg. lg \<in> set (events ! 0)}"
    unfolding e(2) by (simp add: pipeline_db_def empty_db_def tradelog_ids_def no_errors_def)
  ultimately show ?thesis using run e(1) by blast
qed

definition twitted_db :: big_db where
  "twitted_db = pipeline_db\<lparr> bg_big := [((900, 4), False), ((900, 8), False)] \<rparr>"

theorem big_trade_announced_once_witness:
  "\<exists>db1. UpdateBigTradesTwitted [(900, 8)] twitted_db = (db1, None) \<and>
     (\<forall>bts. GetNotTwittedTrades sample_formatter 0 2000000 (fst (SaveBigTrades None 2000000 100 20 db1)) = Inr bts
        \<longrightarrow> (900, 8) \<notin> bt_TradelogID ` set bts)"
proof -
  obtain db1 where m: "UpdateBigTradesTwitted [(900, 8)] twitted_db = (db1, None)"
    by (simp add: twitted_db_def)
  have "big_step\<^sup>*\<^sup>* db1 (fst (SaveBigTrades None 2000000 100 20 db1))" by (intro r_into_rtranclp big_step.save)
  from big_trade_announced_once [OF _ m this] m show ?thesis by (auto simp: twitted_db_def)
qed

end
