(* ===== verification/TradeLoad.thy ===== *)
theory TradeLoad
  imports TradeStoreProps "HOL-Library.Multiset"
begin

text \<open>
  Reading the trades back, \<open>tradelogs/storage/postgres/postgres.go\<close>: the two queries with their joins and
  array aggregates, and \<open>tradeLogFromDBData\<close>; and the symbols of the tokens, \<open>token.go\<close>.

  The order in which a query returns its groups and fills its arrays is not determined by its text: it is
  the parameter \<open>query_order\<close>. The arrays of one group are filled in the same order.
\<close>

section \<open>The queries\<close>

record tradeLogDBData =
  dd_Timestamp :: gotime
  dd_BlockNumber :: nat
  dd_EthAmount :: f64
  dd_OriginalEthAmount :: f64
  dd_EthUsdRate :: f64
  dd_UserAddress :: "addr list"
  dd_SrcAddress :: "addr list"
  dd_DstAddress :: "addr list"
  dd_SrcAmount :: f64
  dd_DstAmount :: f64
  dd_LogIndex :: nat
  dd_TxHash :: hash
  dd_IP :: "string option"
  dd_Country :: "string option"
  dd_IntegrationApp :: string
  dd_WalletAddress :: "addr list"
  dd_TxSender :: addr
  dd_ReceiverAddr :: addr
  dd_GasUsed :: nat
  dd_GasPrice :: f64
  dd_TransactionFee :: f64
  dd_Version :: nat
  dd_FeeReserveAddress :: "addr list"
  dd_FeeWalletAddress :: "addr list"
  dd_WalletFee :: "f64 list"
  dd_PlatformFee :: "f64 list"
  dd_Burn :: "f64 list"
  dd_Rebate :: "f64 list"
  dd_Reward :: "f64 list"
  dd_RebateWallets :: "addr list list"
  dd_RebatePercents :: "nat list list"
  dd_FeeIndex :: "nat list"
  dd_SplitReserveAddress :: "addr list"
  dd_SplitSrc :: "addr list"
  dd_SplitDst :: "addr list"
  dd_SplitSrcAmount :: "f64 list"
  dd_SplitRate :: "f64 list"
  dd_SplitDstAmount :: "f64 list"
  dd_SplitIndex :: "nat list"

text \<open>One row of the joins for a trade: a fee, or NULL when it has none, a split, and the split's reserve.\<close>

type_synonym join_row = "fee_record option \<times> split_row \<times> reserve_row"

record query_order =
  qo_trades :: "tradelog_row list \<Rightarrow> tradelog_row list"
  qo_joins :: "join_row list \<Rightarrow> join_row list"

definition fees_of :: "trade_db \<Rightarrow> trade_id \<Rightarrow> fee_record list" where
  "fees_of db t = map fe_data (filter (\<lambda>f. fe_trade f = t) (db_fees db))"

definition splits_of :: "trade_db \<Rightarrow> trade_id \<Rightarrow> split_row list" where
  "splits_of db t = filter (\<lambda>s. sr_trade s = t) (db_splits db)"

text \<open>
  \<open>LEFT JOIN fee LEFT JOIN split INNER JOIN reserve ON sr.id = split.reserve_id\<close>: the last join drops the
  rows without a split.
\<close>

definition joined :: "trade_db \<Rightarrow> tradelog_row \<Rightarrow> join_row list" where
  "joined db x =
     (let fees = (case fees_of db (tl_id x) of [] \<Rightarrow> [None] | fs \<Rightarrow> map Some fs);
          splits = filter (\<lambda>s. sr_reserve s < length (db_reserves db)) (splits_of db (tl_id x))
      in concat (map (\<lambda>f. map (\<lambda>s. (f, s, db_reserves db ! sr_reserve s)) splits) fees))"

text \<open>The inner joins with the users, the tokens and the wallets, whose addresses are unique.\<close>

definition has_references :: "trade_db \<Rightarrow> tradelog_row \<Rightarrow> bool" where
  "has_references db x \<longleftrightarrow> tl_user x \<in> fst ` set (db_users db) \<and> tl_src x \<in> set (db_tokens db) \<and>
     tl_dst x \<in> set (db_tokens db) \<and> tl_wallet x \<in> fst ` set (db_wallets db)"

text \<open>\<open>ARRAY_REMOVE(ARRAY_AGG(fee.c), NULL)\<close>; the columns of a fee are not NULL.\<close>

definition fee_array :: "(fee_record \<Rightarrow> 'a) \<Rightarrow> join_row list \<Rightarrow> 'a list" where
  "fee_array c js = map c (List.map_filter fst js)"

definition split_array :: "(split_row \<Rightarrow> 'a) \<Rightarrow> join_row list \<Rightarrow> 'a list" where
  "split_array c js = map (\<lambda>(f, s, v). c s) js"

definition group_data :: "tradelog_row \<Rightarrow> join_row list \<Rightarrow> tradeLogDBData" where
  "group_data x js = \<lparr>
     dd_Timestamp = tl_timestamp x, dd_BlockNumber = tl_block_number x, dd_EthAmount = tl_eth_amount x,
     dd_OriginalEthAmount = tl_original_eth_amount x, dd_EthUsdRate = tl_eth_usd_rate x,
     dd_UserAddress = map (\<lambda>j. tl_user x) js, dd_SrcAddress = map (\<lambda>j. tl_src x) js,
     dd_DstAddress = map (\<lambda>j. tl_dst x) js, dd_SrcAmount = tl_src_amount x, dd_DstAmount = tl_dst_amount x,
     dd_LogIndex = snd (tl_id x), dd_TxHash = fst (tl_id x), dd_IP = tl_ip x, dd_Country = tl_country x,
     dd_IntegrationApp = tl_integration_app x, dd_WalletAddress = map (\<lambda>j. tl_wallet x) js,
     dd_TxSender = tl_tx_sender x, dd_ReceiverAddr = tl_receiver x, dd_GasUsed = tl_gas_used x,
     dd_GasPrice = tl_gas_price x, dd_TransactionFee = tl_transaction_fee x, dd_Version = tl_version x,
     dd_FeeReserveAddress = fee_array fr_reserve js, dd_FeeWalletAddress = fee_array fr_wallet js,
     dd_WalletFee = fee_array fr_wallet_fee js, dd_PlatformFee = fee_array fr_platform_fee js,
     dd_Burn = fee_array fr_burn js, dd_Rebate = fee_array fr_rebate js, dd_Reward = fee_array fr_reward js,
     dd_RebateWallets = fee_array fr_rebate_wallets js, dd_RebatePercents = fee_array fr_rebate_percents js,
     dd_FeeIndex = fee_array fr_index js,
     dd_SplitReserveAddress = map (\<lambda>(f, s, v). rv_address v) js, dd_SplitSrc = split_array sr_src js,
     dd_SplitDst = split_array sr_dst js, dd_SplitSrcAmount = split_array sr_src_amount js,
     dd_SplitRate = split_array sr_rate js,
     dd_SplitDstAmount = List.map_filter (\<lambda>(f, s, v). sr_dst_amount s) js,
     dd_SplitIndex = split_array sr_index js \<rparr>"

text \<open>A NULL in an array of floats cannot be scanned, and fails the whole query.\<close>

definition scan_null :: go_err where
  "scan_null = Err ''pq: parsing array element: cannot convert nil to float64''"

fun query_groups :: "query_order \<Rightarrow> trade_db \<Rightarrow> tradelog_row list \<Rightarrow> tradeLogDBData list go" where
  "query_groups Q db [] = Inr []"
| "query_groups Q db (x # xs) =
     (let js = qo_joins Q (joined db x) in
      if \<not> has_references db x \<or> js = [] then query_groups Q db xs
      else if \<exists>(f, s, v)\<in>set js. sr_dst_amount s = None then Inl scan_null
      else go_bind (query_groups Q db xs) (\<lambda>ds. Inr (group_data x js # ds)))"

definition query_trades :: "query_order \<Rightarrow> (tradelog_row \<Rightarrow> bool) \<Rightarrow> trade_db \<Rightarrow> tradeLogDBData list go" where
  "query_trades Q P db = query_groups Q db (qo_trades Q (filter P (db_tradelogs db)))"

section \<open>tradeLogFromDBData\<close>

text \<open>
  The loop over the fees: a fee comes once for every split, and its first copy is taken. The platform
  wallet is read from \<open>WalletAddress\<close>, the wallets of the trade.
\<close>

fun load_fees :: "formatter \<Rightarrow> tradeLogDBData \<Rightarrow> nat \<Rightarrow> nat set \<Rightarrow> addr list \<Rightarrow> TradelogFee list go" where
  "load_fees F r index uniqueFee [] = Inr []"
| "load_fees F r index uniqueFee (feeReserveAddr # addrs) =
     go_bind (go_nth (dd_FeeIndex r) index) (\<lambda>i.
       if i \<in> uniqueFee then load_fees F r (index + 1) uniqueFee addrs
       else
         go_bind (go_bind (go_nth (dd_PlatformFee r) index) (tf_ToWei F ETHAddr)) (\<lambda>platformFee.
         go_bind (go_bind (go_nth (dd_WalletFee r) index) (tf_ToWei F ETHAddr)) (\<lambda>walletFee.
         go_bind (go_bind (go_nth (dd_Burn r) index) (tf_ToWei F ETHAddr)) (\<lambda>burn.
         go_bind (go_bind (go_nth (dd_Rebate r) index) (tf_ToWei F ETHAddr)) (\<lambda>rebate.
         go_bind (go_bind (go_nth (dd_Reward r) index) (tf_ToWei F ETHAddr)) (\<lambda>reward.
         go_bind (go_nth (dd_RebateWallets r) index) (\<lambda>rebateWallets.
         go_bind (go_nth (dd_RebatePercents r) index) (\<lambda>rebatePercents.
         go_bind (go_nth (dd_WalletAddress r) index) (\<lambda>wallet.
         go_bind (load_fees F r (index + 1) (insert i uniqueFee) addrs) (\<lambda>fees.
           Inr (\<lparr> fee_ReserveAddr = feeReserveAddr, fee_WalletName = '''', fee_WalletFee = Some walletFee,
                  fee_PlatformFee = Some platformFee, fee_PlatformWallet = wallet, fee_Reward = Some reward,
                  fee_Rebate = Some rebate, fee_RebateWallets = rebateWallets,
                  fee_RebatePercentBpsPerWallet = map (\<lambda>p. i64 (int p)) rebatePercents,
                  fee_Burn = Some burn, fee_Index = i \<rparr> # fees)))))))))))"

fun load_splits :: "formatter \<Rightarrow> tradeLogDBData \<Rightarrow> nat \<Rightarrow> nat set \<Rightarrow> addr list \<Rightarrow> TradeSplit list go" where
  "load_splits F r index uniqueSplit [] = Inr []"
| "load_splits F r index uniqueSplit (sp # addrs) =
     go_bind (go_nth (dd_SplitIndex r) index) (\<lambda>i.
       if i \<in> uniqueSplit then load_splits F r (index + 1) uniqueSplit addrs
       else
         go_bind (go_nth (dd_SplitSrc r) index) (\<lambda>src.
         go_bind (go_bind (go_nth (dd_SplitSrcAmount r) index) (tf_ToWei F src)) (\<lambda>srcAmount.
         go_bind (go_nth (dd_SplitDst r) index) (\<lambda>dst.
         go_bind (go_bind (go_nth (dd_SplitDstAmount r) index) (tf_ToWei F dst)) (\<lambda>dstAmount.
         go_bind (go_bind (go_nth (dd_SplitRate r) index) (tf_ToWei F ETHAddr)) (\<lambda>rate.
         go_bind (load_splits F r (index + 1) (insert i uniqueSplit) addrs) (\<lambda>splits.
           Inr (\<lparr> sp_ReserveAddress = sp, sp_SrcToken = src, sp_DstToken = dst, sp_SrcAmount = Some srcAmount,
                  sp_DstAmount = Some dstAmount, sp_Rate = Some rate, sp_Index = i \<rparr> # splits))))))))"

definition option_string :: "string option \<Rightarrow> string" where
  "option_string s = (case s of None \<Rightarrow> '''' | Some s \<Rightarrow> s)"

definition tradeLogFromDBData :: "formatter \<Rightarrow> tradeLogDBData \<Rightarrow> TradelogV4 go" where
  "tradeLogFromDBData F r =
     go_bind (tf_ToWei F ETHAddr (dd_EthAmount r)) (\<lambda>ethAmount.
     go_bind (tf_ToWei F ETHAddr (dd_OriginalEthAmount r)) (\<lambda>originalEthAmount.
     go_bind (go_nth (dd_SrcAddress r) 0) (\<lambda>srcAddress.
     go_bind (tf_ToWei F srcAddress (dd_SrcAmount r)) (\<lambda>srcAmount.
     go_bind (go_nth (dd_DstAddress r) 0) (\<lambda>dstAddress.
     go_bind (tf_ToWei F dstAddress (dd_DstAmount r)) (\<lambda>dstAmount.
     go_bind (tf_ToWei F ETHAddr (dd_GasPrice r)) (\<lambda>gasPrice.
     go_bind (tf_ToWei F ETHAddr (dd_TransactionFee r)) (\<lambda>transactionFee.
     go_bind (load_fees F r 0 {} (dd_FeeReserveAddress r)) (\<lambda>fees.
     go_bind (load_splits F r 0 {} (dd_SplitReserveAddress r)) (\<lambda>splits.
     go_bind (go_nth (dd_UserAddress r) 0) (\<lambda>userAddress.
     go_bind (go_nth (dd_WalletAddress r) 0) (\<lambda>wallet.
       Inr (TradelogV40\<lparr> TransactionHash := dd_TxHash r, Index := dd_LogIndex r, Timestamp := dd_Timestamp r,
         BlockNumber := dd_BlockNumber r, EthAmount := Some ethAmount, OriginalEthAmount := Some originalEthAmount,
         User := KyberUserInfo0\<lparr> ui_UserAddress := userAddress, ui_IP := option_string (dd_IP r),
           ui_Country := option_string (dd_Country r) \<rparr>,
         TokenInfo := TradeTokenInfo0\<lparr> ti_SrcAddress := srcAddress, ti_DestAddress := dstAddress \<rparr>,
         SrcAmount := Some srcAmount, DestAmount := Some dstAmount, IntegrationApp := dd_IntegrationApp r,
         FiatAmount := float64 (dd_EthAmount r * dd_EthUsdRate r), WalletAddress := wallet,
         ReceiverAddress := dd_ReceiverAddr r, ETHUSDRate := dd_EthUsdRate r,
         TxInfo := \<lparr> td_GasUsed = dd_GasUsed r, td_GasPrice = Some gasPrice,
           td_TransactionFee = Some transactionFee, td_TxSender = dd_TxSender r \<rparr>,
         Fees := fees, Split := splits, Version := dd_Version r \<rparr>)))))))))))))"

fun load_all :: "formatter \<Rightarrow> tradeLogDBData list \<Rightarrow> TradelogV4 list go" where
  "load_all F [] = Inr []"
| "load_all F (r # rs) =
     go_bind (tradeLogFromDBData F r) (\<lambda>l. go_bind (load_all F rs) (\<lambda>ls. Inr (l # ls)))"

definition LoadTradeLogs :: "go_err option \<Rightarrow> query_order \<Rightarrow> formatter \<Rightarrow> gotime \<Rightarrow> gotime \<Rightarrow> trade_db
    \<Rightarrow> TradelogV4 list go" where
  "LoadTradeLogs err Q F fromTime toTime db =
     (case err of
        Some e \<Rightarrow> Inl e
      | None \<Rightarrow> go_bind (query_trades Q (\<lambda>x. fromTime \<le> tl_timestamp x \<and> tl_timestamp x \<le> toTime) db) (load_all F))"

definition LoadTradeLogsByTxHash :: "go_err option \<Rightarrow> query_order \<Rightarrow> formatter \<Rightarrow> hash \<Rightarrow> trade_db \<Rightarrow> TradelogV4 list go" where
  "LoadTradeLogsByTxHash err Q F tx db =
     (case err of
        Some e \<Rightarrow> Inl e
      | None \<Rightarrow> go_bind (query_trades Q (\<lambda>x. fst (tl_id x) = tx) db) (load_all F))"

section \<open>Symbols of tokens\<close>

text \<open>
  The table of tokens with its column of symbols. \<open>saveTokens\<close> leaves the symbol of a new token at its
  default, the empty text. \<open>unnest\<close> pads the shorter of the two arrays with NULL.
\<close>

type_synonym token_table = "(addr \<times> string option) list"

definition add_tokens :: "addr list \<Rightarrow> token_table \<Rightarrow> token_table" where
  "add_tokens = fold (\<lambda>a. insert_new fst (a, Some ''''))"

fun upsert_symbol :: "addr \<times> string option \<Rightarrow> token_table \<Rightarrow> token_table" where
  "upsert_symbol r [] = [r]"
| "upsert_symbol r (x # xs) = (if fst x = fst r then r # xs else x # upsert_symbol r xs)"

definition UpdateTokens :: "go_err option \<Rightarrow> addr list \<Rightarrow> string list \<Rightarrow> token_table \<Rightarrow> token_table \<times> go_err option" where
  "UpdateTokens err tokensArray symbolArray rows =
     (case err of
        Some e \<Rightarrow> (rows, Some e)
      | None \<Rightarrow>
          if length tokensArray < length symbolArray then (rows, Some not_null)
          else if \<not> distinct tokensArray then (rows, Some twice_affected)
          else (fold upsert_symbol (zip tokensArray
                  (map Some symbolArray @ replicate (length tokensArray - length symbolArray) None)) rows, None))"

definition GetTokenSymbol :: "go_err option \<Rightarrow> addr \<Rightarrow> token_table \<Rightarrow> string go" where
  "GetTokenSymbol err address rows =
     (case err of
        Some e \<Rightarrow> Inl (errors_Wrap ''failed to get token symbol'' e)
      | None \<Rightarrow> (case map_of rows address of
          None \<Rightarrow> Inr ''''
        | Some None \<Rightarrow> Inl (errors_Wrap ''failed to get token symbol'' (Err ''converting NULL to string is unsupported''))
        | Some (Some s) \<Rightarrow> Inr s))"

lemma map_of_upsert_symbol: "map_of (upsert_symbol r rows) = (map_of rows)(fst r \<mapsto> snd r)"
  by (induction r rows rule: upsert_symbol.induct) auto

lemma map_of_fold_upsert_symbol: "distinct (map fst rs) \<Longrightarrow> map_of (fold upsert_symbol rs rows) = map_of rows ++ map_of rs"
proof (induction rs arbitrary: rows)
  case (Cons r rs)
  then have "fst r \<notin> dom (map_of rs)" by (simp add: dom_map_of_conv_image_fst)
  with Cons show ?case
    by (cases r) (auto simp: map_of_upsert_symbol fun_eq_iff map_add_def split: option.split)
qed simp

text \<open>A symbol that was set is returned until it is set again, whatever trades are saved.\<close>

lemma map_of_add_tokens: "map_of rows a = Some s \<Longrightarrow> map_of (add_tokens ts rows) a = Some s"
  unfolding add_tokens_def by (induction ts arbitrary: rows) (auto simp: insert_new_def map_add_Some_iff)

lemma GetTokenSymbol_after_UpdateTokens:
  assumes "UpdateTokens None ts ss rows = (rows', None)" "i < length ss" "length ss \<le> length ts"
  shows "GetTokenSymbol None (ts ! i) (add_tokens us rows') = Inr (ss ! i)"
proof -
  let ?ss = "map Some ss @ replicate (length ts - length ss) None"
  from assms have d: "distinct ts" and rows': "rows' = fold upsert_symbol (zip ts ?ss) rows"
    by (auto simp: UpdateTokens_def split: if_splits)
  have "map_of (zip ts ?ss) (ts ! i) = Some (?ss ! i)" using assms d by (intro map_of_zip_nth) auto
  then have "map_of rows' (ts ! i) = Some (Some (ss ! i))"
    using d assms by (simp add: rows' map_of_fold_upsert_symbol map_add_def nth_append)
  from map_of_add_tokens [OF this] show ?thesis by (simp add: GetTokenSymbol_def)
qed

section \<open>Well-formed databases\<close>

text \<open>
  The constraints of the schema, unique keys and references, and what every split of the program has: an
  amount, and tokens that are ether or in the table.
\<close>

definition fee_key :: "fee_row \<Rightarrow> trade_id \<times> nat" where
  "fee_key f = (fe_trade f, fr_index (fe_data f))"

definition split_row_ok :: "trade_db \<Rightarrow> split_row \<Rightarrow> bool" where
  "split_row_ok db s \<longleftrightarrow> sr_reserve s < length (db_reserves db) \<and> sr_dst_amount s \<noteq> None \<and>
     {sr_src s, sr_dst s} \<subseteq> insert ETHAddr (set (db_tokens db))"

definition db_ok :: "trade_db \<Rightarrow> bool" where
  "db_ok db \<longleftrightarrow> distinct (map fst (db_users db)) \<and> distinct (map fst (db_wallets db)) \<and> distinct (db_tokens db) \<and>
     distinct (map reserve_key (db_reserves db)) \<and> distinct (map tl_id (db_tradelogs db)) \<and>
     distinct (map fee_key (db_fees db)) \<and> distinct (map split_key (db_splits db)) \<and>
     (\<forall>x\<in>set (db_tradelogs db). has_references db x) \<and>
     (\<forall>f\<in>set (db_fees db). fe_trade f \<in> tradelog_ids db) \<and>
     (\<forall>s\<in>set (db_splits db). sr_trade s \<in> tradelog_ids db \<and> split_row_ok db s)"

lemma insert_new_distinct: "distinct (map key rows) \<Longrightarrow> distinct (map key (insert_new key r rows))"
  by (auto simp: insert_new_def)

lemma fold_insert_new_distinct:
  "distinct (map key rows) \<Longrightarrow> distinct (map key (fold (\<lambda>x. insert_new key (g x)) xs rows))"
  by (induction xs arbitrary: rows) (simp_all add: insert_new_distinct)

text \<open>Tables that others refer to may grow at the end.\<close>

definition grows :: "trade_db \<Rightarrow> trade_db \<Rightarrow> bool" where
  "grows db db' \<longleftrightarrow> fst ` set (db_users db) \<subseteq> fst ` set (db_users db') \<and>
     fst ` set (db_wallets db) \<subseteq> fst ` set (db_wallets db') \<and> set (db_tokens db) \<subseteq> set (db_tokens db') \<and>
     (\<exists>new. db_reserves db' = db_reserves db @ new)"

lemma grows_references: "grows db db' \<Longrightarrow> has_references db x \<Longrightarrow> has_references db' x"
  by (auto simp: grows_def has_references_def)

lemma grows_split_row: "grows db db' \<Longrightarrow> split_row_ok db s \<Longrightarrow> split_row_ok db' s"
  by (auto simp: grows_def split_row_ok_def)

lemma db_ok_grows:
  assumes "db_ok db" "grows db db'" "distinct (map fst (db_users db'))" "distinct (map fst (db_wallets db'))"
    "distinct (db_tokens db')" "distinct (map reserve_key (db_reserves db'))"
    "db_tradelogs db' = db_tradelogs db" "db_fees db' = db_fees db" "db_splits db' = db_splits db"
  shows "db_ok db'"
  using assms grows_references [OF assms(2)] grows_split_row [OF assms(2)]
  by (auto simp: db_ok_def tradelog_ids_def)

lemma fold_insert_new_grows: "\<exists>new. fold (\<lambda>x. insert_new key (g x)) xs rows = rows @ new"
  using fold_insert_new_Cons [of key g xs rows] by auto

lemma insert_new_grows: "\<exists>new. insert_new key r rows = rows @ new"
  by (simp add: insert_new_def)

lemma db_ok_distinct: "db_ok db \<Longrightarrow> distinct (map fst (db_users db)) \<and> distinct (map fst (db_wallets db)) \<and>
   distinct (db_tokens db) \<and> distinct (map reserve_key (db_reserves db))"
  by (simp add: db_ok_def)

text \<open>The statements, one by one.\<close>

lemma saveReserve_ok: "saveReserve rs db = Inr db' \<Longrightarrow> db_ok db \<Longrightarrow> db_ok db'"
  by (rule db_ok_grows [of db])
    (auto simp: saveReserve_def grows_def fold_insert_new_grows fold_insert_new_distinct dest: db_ok_distinct)

lemma saveReserveAddress_ok: "saveReserveAddress rs db = Inr db' \<Longrightarrow> db_ok db \<Longrightarrow> db_ok db'"
  by (rule db_ok_grows [of db])
    (auto simp: saveReserveAddress_def grows_def fold_insert_new_grows fold_insert_new_distinct dest: db_ok_distinct)

lemma rebate_wallet_stmt_ok: "rebate_wallet_stmt r db = Inr db' \<Longrightarrow> db_ok db \<Longrightarrow> db_ok db'"
  by (rule db_ok_grows [of db])
    (auto simp: rebate_wallet_stmt_def grows_def insert_new_grows insert_new_distinct dest: db_ok_distinct
      split: option.splits)

lemma saveTokens_ok:
  assumes "saveTokens ts db = Inr db'" "db_ok db"
  shows "db_ok db'"
proof -
  have db': "db' = db\<lparr> db_tokens := fold (insert_new id) ts (db_tokens db) \<rparr>"
    using assms(1) by (simp add: saveTokens_def)
  have "distinct (map id (fold (\<lambda>x. insert_new id (id x)) ts (db_tokens db)))"
    using db_ok_distinct [OF assms(2)] by (intro fold_insert_new_distinct) simp
  moreover obtain new where "fold (\<lambda>x. insert_new id (id x)) ts (db_tokens db) = db_tokens db @ new"
    using fold_insert_new_grows by blast
  ultimately show ?thesis using db_ok_distinct [OF assms(2)]
    by (intro db_ok_grows [OF assms(2)]) (auto simp: grows_def db')
qed

lemma insertionUser_ok:
  assumes "insertionUser r db = Inr db'" "db_ok db"
  shows "db_ok db'"
proof -
  have "db' = db\<lparr> db_users := insert_new fst (r_UserAddress r, r_Timestamp r) (db_users db) \<rparr>"
    using assms(1) by (simp add: insertionUser_def)
  then show ?thesis using db_ok_distinct [OF assms(2)]
    by (intro db_ok_grows [OF assms(2)]) (simp_all add: grows_def insert_new_distinct subset_insertI)
qed

lemma insertionWallet_ok:
  assumes "insertionWallet r db = Inr db'" "db_ok db"
  shows "db_ok db'"
proof -
  have "db' = db\<lparr> db_wallets := insert_new fst (r_WalletAddress r, r_WalletName r) (db_wallets db) \<rparr>"
    using assms(1) by (simp add: insertionWallet_def)
  then show ?thesis using db_ok_distinct [OF assms(2)]
    by (intro db_ok_grows [OF assms(2)]) (simp_all add: grows_def insert_new_distinct subset_insertI)
qed

text \<open>The stored function.\<close>

lemma upsert_fee_keys: "fee_key ` set (upsert_fee f rows) = insert (fee_key f) (fee_key ` set rows)"
  by (induction f rows rule: upsert_fee.induct) (auto simp: fee_key_def)

lemma upsert_fee_new: "fee_key f \<notin> fee_key ` set rows \<Longrightarrow> upsert_fee f rows = rows @ [f]"
  by (induction f rows rule: upsert_fee.induct) (auto simp: fee_key_def)

lemma upsert_fee_distinct: "distinct (map fee_key rows) \<Longrightarrow> distinct (map fee_key (upsert_fee f rows))"
proof (induction f rows rule: upsert_fee.induct)
  case (2 f x xs)
  show ?case
  proof (cases "fee_key x = fee_key f")
    case True
    with 2 show ?thesis by (auto simp: fee_key_def)
  next
    case False
    then have "upsert_fee f (x # xs) = x # upsert_fee f xs" by (auto simp: fee_key_def)
    moreover have "fee_key x \<notin> fee_key ` set (upsert_fee f xs)"
      using False "2.prems" by (simp add: upsert_fee_keys)
    ultimately show ?thesis using 2 False by (auto simp: fee_key_def)
  qed
qed simp

lemma upsert_fees_ok:
  assumes "distinct (map fee_key rows)"
  shows "distinct (map fee_key (fold (\<lambda>f. upsert_fee \<lparr> fe_trade = t, fe_data = f \<rparr>) fees rows)) \<and>
    fe_trade ` set (fold (\<lambda>f. upsert_fee \<lparr> fe_trade = t, fe_data = f \<rparr>) fees rows) \<subseteq> insert t (fe_trade ` set rows)"
  using assms
proof (induction fees arbitrary: rows)
  case (Cons f fees)
  let ?rows = "upsert_fee \<lparr> fe_trade = t, fe_data = f \<rparr> rows"
  have "fe_trade ` set ?rows = fst ` fee_key ` set ?rows" by (simp add: image_image fee_key_def)
  also have "\<dots> = insert t (fe_trade ` set rows)"
    by (simp add: upsert_fee_keys image_image) (simp add: fee_key_def)
  finally show ?case
    using Cons.IH [of ?rows] upsert_fee_distinct [OF Cons.prems] by simp
qed auto

lemma upsert_tradelog_distinct: "distinct (map tl_id rows) \<Longrightarrow> distinct (map tl_id (upsert_tradelog r rows))"
proof (induction r rows rule: upsert_tradelog.induct)
  case (2 r x xs)
  then show ?case using upsert_tradelog_ids [of r xs] by (cases "tl_id x = tl_id r") auto
qed simp

lemma upsert_tradelog_references:
  "x \<in> set (upsert_tradelog r rows) \<Longrightarrow> \<forall>y\<in>set (r # rows). has_references db y \<Longrightarrow> has_references db x"
proof (induction r rows rule: upsert_tradelog.induct)
  case (2 r y ys)
  have "has_references db (y\<lparr> tl_timestamp := t \<rparr>) = has_references db y" for t by (simp add: has_references_def)
  with 2 show ?case by (auto split: if_splits)
qed simp

text \<open>The splits of the program: with a rate comes an amount, and the tokens are those of the trade or ether.\<close>

definition spl_ok :: "trade_record \<Rightarrow> split_record \<Rightarrow> bool" where
  "spl_ok r s \<longleftrightarrow> (spl_rate s \<noteq> None \<longrightarrow> spl_dst_amount s \<noteq> None) \<and>
     {spl_src s, spl_dst s} \<subseteq> {ETHAddr, r_SrcAddress r, r_DestAddress r}"

lemma split_loop_rows:
  "split_loop F src dst index k reserves amounts rates = Inr (rows, b) \<Longrightarrow>
   \<forall>s\<in>set rows. (spl_rate s \<noteq> None \<longrightarrow> spl_dst_amount s \<noteq> None) \<and> spl_src s = src \<and> spl_dst s = dst"
proof (induction reserves arbitrary: index k rows b)
  case (Cons x reserves)
  then obtain amount rate where g: "go_nth amounts index = Inr amount" "go_nth rates index = Inr rate"
    by (auto simp: go_bind_Inr_iff)
  show ?case
  proof (cases "calculateDstAmount F src dst amount rate")
    case (Inl e)
    with g Cons.prems show ?thesis by (cases e) auto
  next
    case (Inr d)
    with g Cons.prems obtain rest where
      "split_loop F src dst (index + 1) (k + 1) reserves amounts rates = Inr (rest, b)"
      "rows = \<lparr> spl_ref = RsvId x, spl_src = src, spl_dst = dst, spl_src_amount = amount,
         spl_rate = Some rate, spl_dst_amount = Some d, spl_index = Some (k + 1) \<rparr> # rest"
      by (auto simp: go_bind_Inr_iff)
    with Cons.IH [OF this(1)] show ?thesis by simp
  qed
qed simp

lemma split_loop_spl_ok:
  "split_loop F src dst index k reserves amounts rates = Inr (rows, b) \<Longrightarrow>
   {src, dst} \<subseteq> {ETHAddr, r_SrcAddress r, r_DestAddress r} \<Longrightarrow> \<forall>s\<in>set rows. spl_ok r s"
  using split_loop_rows [of F src dst index k reserves amounts rates rows b] by (auto simp: spl_ok_def)

lemma prepareSplitRecords_spl_ok: "prepareSplitRecords F r = Inr splits \<Longrightarrow> \<forall>s\<in>set splits. spl_ok r s"
proof (cases "r_Version r = 4")
  case True
  assume "prepareSplitRecords F r = Inr splits"
  with True obtain t2e b where t: "split_loop F (r_SrcAddress r) ETHAddr 0 0 (r_T2EReserves r) (r_T2ESrcAmount r) (r_T2ERates r) = Inr (t2e, b)"
    "if b then splits = t2e else \<exists>e2t b'. split_loop F ETHAddr (r_DestAddress r) 0 (length t2e) (r_E2TReserves r)
       (r_E2TSrcAmount r) (r_E2TRates r) = Inr (e2t, b') \<and> splits = t2e @ e2t"
    by (auto simp: prepareSplitRecords_def go_bind_Inr_iff split: if_splits)
  from split_loop_spl_ok [OF t(1)] t(2) show ?thesis
    by (auto split: if_splits dest!: split_loop_spl_ok [where r = r])
next
  case False
  then show "prepareSplitRecords F r = Inr splits \<Longrightarrow> ?thesis"
    by (auto simp: prepareSplitRecords_def splits_before_katalyst_def Let_def spl_ok_def)
qed

lemma split_reserve_less: "split_reserve v ref rows = Some i \<Longrightarrow> i < length rows"
proof -
  assume a: "split_reserve v ref rows = Some i"
  obtain P where P: "split_reserve v ref rows = (let ids = filter P [0..<length rows]
      in if ids = [] then None else if v = 4 then Some (last ids) else Some (hd ids))"
    by (auto simp: split_reserve_def)
  with a have "filter P [0..<length rows] \<noteq> []" "i \<in> set (filter P [0..<length rows])"
    using hd_in_set [of "filter P [0..<length rows]"] last_in_set [of "filter P [0..<length rows]"]
    by (simp_all only: Let_def split: if_splits) auto
  then show ?thesis by simp
qed

lemma insert_splits_ok:
  "insert_splits t v ss db = Inr db' \<Longrightarrow> db_ok db \<Longrightarrow> t \<in> tradelog_ids db \<Longrightarrow>
   \<forall>s\<in>set ss. spl_ok r s \<Longrightarrow> {r_SrcAddress r, r_DestAddress r} \<subseteq> set (db_tokens db) \<Longrightarrow> db_ok db'"
proof (induction ss arbitrary: db)
  case (Cons s ss)
  then obtain db1 where 1: "insert_split t v s db = Inr db1" "insert_splits t v ss db1 = Inr db'"
    by (auto simp: go_bind_Inr_iff)
  then obtain i rate index where s: "split_reserve v (spl_ref s) (db_reserves db) = Some i"
    "spl_rate s = Some rate" "spl_index s = Some index"
    by (auto simp: insert_split_def split: option.splits)
  let ?row = "\<lparr> sr_trade = t, sr_reserve = i, sr_src = spl_src s, sr_dst = spl_dst s,
      sr_src_amount = spl_src_amount s, sr_rate = rate, sr_dst_amount = spl_dst_amount s, sr_index = index,
      sr_eth_amount = (if spl_src s = ETHAddr then Some (spl_src_amount s) else spl_dst_amount s) \<rparr>"
  from 1(1) s have db1: "db1 = db\<lparr> db_splits := insert_new split_key ?row (db_splits db) \<rparr>"
    by (simp add: insert_split_def)
  have "split_row_ok db ?row"
    using Cons.prems(4,5) s split_reserve_less [OF s(1)] by (auto simp: split_row_ok_def spl_ok_def)
  then have "\<forall>x\<in>set (insert_new split_key ?row (db_splits db)). sr_trade x \<in> tradelog_ids db \<and> split_row_ok db x"
    using Cons.prems(2,3) by (auto simp: insert_new_def db_ok_def)
  moreover have "tradelog_ids db1 = tradelog_ids db" "split_row_ok db1 x = split_row_ok db x"
    "has_references db1 y = has_references db y" for x y
    by (simp_all add: db1 tradelog_ids_def split_row_ok_def has_references_def)
  ultimately have "db_ok db1" "t \<in> tradelog_ids db1" "db_tokens db1 = db_tokens db"
    using Cons.prems(2,3) by (simp_all add: db_ok_def db1 insert_new_distinct)
  with Cons.IH [OF 1(2)] Cons.prems show ?case by simp
qed simp

lemma create_or_update_tradelogs_ok:
  assumes "create_or_update_tradelogs r fees splits db = Inr db'" "db_ok db" "\<forall>s\<in>set splits. spl_ok r s"
  shows "db_ok db'"
proof -
  let ?db = "db\<lparr> db_tradelogs := upsert_tradelog (row_of_record r) (db_tradelogs db),
      db_fees := fold (\<lambda>f. upsert_fee \<lparr> fe_trade = record_id r, fe_data = f \<rparr>) fees (db_fees db) \<rparr>"
  from assms(1) have i: "insert_splits (record_id r) (r_Version r) splits ?db = Inr db'"
    and ref: "has_references db (row_of_record r)"
    by (auto simp: create_or_update_tradelogs_def has_references_def row_of_record_def split: if_splits)
  have ids: "tradelog_ids ?db = insert (record_id r) (tradelog_ids db)"
    by (simp add: tradelog_ids_def upsert_tradelog_ids row_of_record_def)
  have "has_references ?db x \<longleftrightarrow> has_references db x" "split_row_ok ?db s \<longleftrightarrow> split_row_ok db s" for x s
    by (simp_all add: has_references_def split_row_ok_def)
  then have "db_ok ?db"
    using assms(2) upsert_fees_ok [of "db_fees db" "record_id r" fees] ref
    by (auto simp: db_ok_def ids upsert_tradelog_distinct tradelog_ids_def [of db]
        dest!: upsert_tradelog_references [where db = db])
  moreover have "record_id r \<in> tradelog_ids ?db" by (simp only: ids insertI1)
  moreover have "{r_SrcAddress r, r_DestAddress r} \<subseteq> set (db_tokens ?db)"
    using ref by (simp add: has_references_def row_of_record_def)
  ultimately show ?thesis using insert_splits_ok [OF i] assms(3) by blast
qed

text \<open>Transactions: what is committed, also after an error of the program, is well-formed.\<close>

lemma tx_exec_state:
  "tx_state (tx_exec fails stmt n db) = Some db' \<Longrightarrow> (\<And>d. stmt db = Inr d \<Longrightarrow> db_ok d) \<Longrightarrow> db_ok db'"
  by (auto simp: tx_state_def tx_exec_def split: option.splits sum.splits)

lemma tx_then_ok:
  assumes "tx_state (tx_then t k) = Some db'" "\<And>d. tx_state t = Some d \<Longrightarrow> db_ok d"
    "\<And>n d e. db_ok d \<Longrightarrow> tx_state (k n d) = Some e \<Longrightarrow> db_ok e"
  shows "db_ok db'"
  using tx_state_then [OF assms(1)] assms(2,3) by (auto simp: tx_state_def)

lemma save_record_ok:
  assumes "db_ok db" "tx_state (save_record S F r n db) = Some db'"
  shows "db_ok db'"
  using assms(2) unfolding save_record_def
proof (rule tx_then_ok)
  show "tx_state (tx_exec (se_stmt S) (insertionUser r) n db) = Some d \<Longrightarrow> db_ok d" for d
    by (erule tx_exec_state) (erule insertionUser_ok, rule assms(1))
  fix n d e
  assume d: "db_ok d" and "tx_state (tx_then (tx_exec (se_stmt S) (insertionWallet r) n d) (\<lambda>n db.
      case go_bind (prepareFeeRecords F (r_Fee r)) (\<lambda>fees.
            go_bind (prepareSplitRecords F r) (\<lambda>splits. Inr (fees, splits))) of
          Inl e \<Rightarrow> TxProgErr e db
        | Inr (fees, splits) \<Rightarrow> tx_exec (se_stmt S) (create_or_update_tradelogs r fees splits) n db)) = Some e"
  from this(2) show "db_ok e"
  proof (rule tx_then_ok)
    show "tx_state (tx_exec (se_stmt S) (insertionWallet r) n d) = Some c \<Longrightarrow> db_ok c" for c
      by (erule tx_exec_state) (erule insertionWallet_ok, rule d)
    fix n c e
    assume c: "db_ok c" and e: "tx_state (case go_bind (prepareFeeRecords F (r_Fee r)) (\<lambda>fees.
            go_bind (prepareSplitRecords F r) (\<lambda>splits. Inr (fees, splits))) of
          Inl e \<Rightarrow> TxProgErr e c
        | Inr (fees, splits) \<Rightarrow> tx_exec (se_stmt S) (create_or_update_tradelogs r fees splits) n c) = Some e"
    show "db_ok e"
    proof (cases "go_bind (prepareFeeRecords F (r_Fee r)) (\<lambda>fees. go_bind (prepareSplitRecords F r) (\<lambda>splits. Inr (fees, splits)))")
      case (Inl x)
      with e c show ?thesis by (simp add: tx_state_def)
    next
      case (Inr x)
      then obtain fees splits where x: "x = (fees, splits)" "prepareSplitRecords F r = Inr splits"
        by (auto simp: go_bind_Inr_iff)
      from e have "tx_state (tx_exec (se_stmt S) (create_or_update_tradelogs r fees splits) n c) = Some e"
        by (simp only: Inr x(1) sum.case prod.case)
      then show ?thesis
        by (rule tx_exec_state) (erule create_or_update_tradelogs_ok, rule c, rule prepareSplitRecords_spl_ok, rule x)
    qed
  qed
qed

lemma save_records_ok: "db_ok db \<Longrightarrow> tx_state (save_records S F rs n db) = Some db' \<Longrightarrow> db_ok db'"
proof (induction rs arbitrary: n db db')
  case (Cons r rs)
  from Cons.prems(2) have "tx_state (tx_then (save_record S F r n db) (save_records S F rs)) = Some db'" by simp
  then show ?case by (rule tx_then_ok) (erule save_record_ok [OF Cons.prems(1)], rule Cons.IH)
qed (simp add: tx_state_def)

lemma save_body_ok:
  assumes "db_ok db" "tx_state (save_body S F rs db) = Some db'"
  shows "db_ok db'"
  using assms(2) unfolding save_body_def
proof (rule tx_then_ok)
  show "db_ok d" if "tx_state (if reserves_of rs = [] then TxOk 0 db
      else tx_exec (se_stmt S) (saveReserveAddress (reserves_of rs)) 0 db) = Some d" for d
    using that assms(1) saveReserveAddress_ok
    by (auto simp: tx_state_def tx_exec_def split: if_splits option.splits sum.splits)
  fix n d e
  assume d: "db_ok d"
    and "tx_state (tx_then (tx_exec (se_stmt S) (saveTokens (tokens_of rs)) n d) (save_records S F rs)) = Some e"
  from this(2) show "db_ok e"
  proof (rule tx_then_ok)
    show "tx_state (tx_exec (se_stmt S) (saveTokens (tokens_of rs)) n d) = Some c \<Longrightarrow> db_ok c" for c
      by (erule tx_exec_state) (erule saveTokens_ok, rule d)
  qed (rule save_records_ok)
qed

lemma rebate_body_ok: "db_ok db \<Longrightarrow> tx_state (rebate_body fails rs n db) = Some db' \<Longrightarrow> db_ok db'"
proof (induction rs arbitrary: n db db')
  case (Cons r rs)
  from Cons.prems(2) have "tx_state (tx_then (tx_exec fails (rebate_wallet_stmt r) n db) (rebate_body fails rs)) = Some db'"
    by simp
  then show ?case
  proof (rule tx_then_ok)
    show "tx_state (tx_exec fails (rebate_wallet_stmt r) n db) = Some d \<Longrightarrow> db_ok d" for d
      by (erule tx_exec_state) (erule rebate_wallet_stmt_ok, rule Cons.prems(1))
  qed (rule Cons.IH)
qed (simp add: tx_state_def)

lemma CommitOrRollback_ok:
  "CommitOrRollback c t db = (db', e) \<Longrightarrow> db_ok db \<Longrightarrow> (\<And>d. tx_state t = Some d \<Longrightarrow> db_ok d) \<Longrightarrow> db_ok db'"
  using CommitOrRollback_cases by blast

lemma updateRebateWallet_ok: "updateRebateWallet S rs db = (db', e) \<Longrightarrow> db_ok db \<Longrightarrow> db_ok db'"
  by (auto simp: updateRebateWallet_def split: option.splits intro: CommitOrRollback_ok rebate_body_ok)

lemma save_reserves_db_ok: "save_reserves S cr db = (db', e) \<Longrightarrow> db_ok db \<Longrightarrow> db_ok db'"
  by (auto simp: save_reserves_def split: if_splits option.splits sum.splits
      dest: saveReserve_ok updateRebateWallet_ok)

lemma save_trade_records_db_ok: "save_trade_records S F logs db = (db', logs', e) \<Longrightarrow> db_ok db \<Longrightarrow> db_ok db'"
  by (auto simp: save_trade_records_def split: sum.splits option.splits prod.splits
      intro: CommitOrRollback_ok save_body_ok)

lemma SaveTradeLogs_db_ok: "SaveTradeLogs S F r db = (db', logs, e) \<Longrightarrow> db_ok db \<Longrightarrow> db_ok db'"
  by (auto simp: SaveTradeLogs_def split: option.splits prod.splits
      dest: save_reserves_db_ok save_trade_records_db_ok)

end
