(* ===== verification/TradeLoadProps.thy ===== *)
theory TradeLoadProps
  imports TradeLoad
begin

text \<open>
  What is read back: a save leaves exactly the rows of its trades, and \<open>LoadTradeLogs\<close> makes of them the
  trades that were saved, up to the rounding of the amounts.
\<close>

section \<open>The rows of a saved record\<close>

definition split_stored :: "trade_db \<Rightarrow> split_record \<Rightarrow> split_row \<Rightarrow> bool" where
  "split_stored db s row \<longleftrightarrow> sr_reserve row < length (db_reserves db) \<and>
     (case spl_ref s of
        RsvId h \<Rightarrow> rv_reserve_id (db_reserves db ! sr_reserve row) = Some h
      | RsvAddr a \<Rightarrow> rv_address (db_reserves db ! sr_reserve row) = a) \<and>
     sr_src row = spl_src s \<and> sr_dst row = spl_dst s \<and> sr_src_amount row = spl_src_amount s \<and>
     Some (sr_rate row) = spl_rate s \<and> sr_dst_amount row = spl_dst_amount s \<and> Some (sr_index row) = spl_index s"

definition record_stored :: "formatter \<Rightarrow> trade_record \<Rightarrow> trade_db \<Rightarrow> bool" where
  "record_stored F r db \<longleftrightarrow> filter (\<lambda>x. tl_id x = record_id r) (db_tradelogs db) = [row_of_record r] \<and>
     prepareFeeRecords F (r_Fee r) = Inr (fees_of db (record_id r)) \<and>
     (\<exists>splits. prepareSplitRecords F r = Inr splits \<and>
        list_all2 (split_stored db) splits (splits_of db (record_id r)))"

text \<open>The indexes of the splits are 1, 2, and so on, and their tokens follow the route of the trade.\<close>

definition split_routes :: "trade_record \<Rightarrow> (addr \<times> addr) list" where
  "split_routes r =
     (if r_Version r = 4
      then replicate (length (r_T2EReserves r)) (r_SrcAddress r, ETHAddr) @
           replicate (length (r_E2TReserves r)) (ETHAddr, r_DestAddress r)
      else (if r_SrcAddress r \<noteq> ETHAddr then [(r_SrcAddress r, ETHAddr)] else []) @
           (if r_DestAddress r \<noteq> ETHAddr then [(ETHAddr, r_DestAddress r)] else []))"

definition spl_route :: "split_record \<Rightarrow> nat option \<times> addr \<times> addr" where
  "spl_route s = (spl_index s, spl_src s, spl_dst s)"

lemma enumerate_append: "enumerate n (xs @ ys) = enumerate n xs @ enumerate (n + length xs) ys"
  by (simp add: enumerate_append_eq)

lemma split_loop_routes:
  "split_loop F src dst index k reserves amounts rates = Inr (rows, b) \<Longrightarrow> \<forall>s\<in>set rows. spl_rate s \<noteq> None \<Longrightarrow>
   \<not> b \<and> map spl_route rows = map (\<lambda>(i, t). (Some i, t)) (enumerate (Suc k) (replicate (length reserves) (src, dst)))"
proof (induction reserves arbitrary: index k rows)
  case (Cons x reserves)
  then obtain amount rate where g: "go_nth amounts index = Inr amount" "go_nth rates index = Inr rate"
    by (auto simp: go_bind_Inr_iff)
  show ?case
  proof (cases "calculateDstAmount F src dst amount rate")
    case (Inl e)
    with g Cons.prems show ?thesis by (cases e) auto
  next
    case (Inr d)
    with g Cons.prems(1) obtain rest where rest:
      "split_loop F src dst (index + 1) (k + 1) reserves amounts rates = Inr (rest, b)"
      "rows = \<lparr> spl_ref = RsvId x, spl_src = src, spl_dst = dst, spl_src_amount = amount,
         spl_rate = Some rate, spl_dst_amount = Some d, spl_index = Some (k + 1) \<rparr> # rest"
      by (auto simp: go_bind_Inr_iff)
    with Cons.IH [OF rest(1)] Cons.prems(2) show ?thesis by (simp add: spl_route_def)
  qed
qed simp

lemma prepareSplitRecords_routes:
  assumes "prepareSplitRecords F r = Inr splits" "\<forall>s\<in>set splits. spl_rate s \<noteq> None"
  shows "map spl_route splits = map (\<lambda>(i, t). (Some i, t)) (enumerate 1 (split_routes r))"
proof (cases "r_Version r = 4")
  case True
  with assms(1) obtain t2e b where t: "split_loop F (r_SrcAddress r) ETHAddr 0 0 (r_T2EReserves r) (r_T2ESrcAmount r) (r_T2ERates r) = Inr (t2e, b)"
    "if b then splits = t2e else \<exists>e2t b'. split_loop F ETHAddr (r_DestAddress r) 0 (length t2e) (r_E2TReserves r)
       (r_E2TSrcAmount r) (r_E2TRates r) = Inr (e2t, b') \<and> splits = t2e @ e2t"
    by (auto simp: prepareSplitRecords_def go_bind_Inr_iff split: if_splits)
  have "\<forall>s\<in>set t2e. spl_rate s \<noteq> None" using t(2) assms(2) by (auto split: if_splits)
  note 1 = split_loop_routes [OF t(1) this]
  have len: "length t2e = length (r_T2EReserves r)" using arg_cong [OF conjunct2 [OF 1], where f = length] by simp
  from 1 t(2) obtain e2t b' where e: "split_loop F ETHAddr (r_DestAddress r) 0 (length t2e) (r_E2TReserves r)
       (r_E2TSrcAmount r) (r_E2TRates r) = Inr (e2t, b')" "splits = t2e @ e2t" by auto
  then have "\<forall>s\<in>set e2t. spl_rate s \<noteq> None" using assms(2) by auto
  from 1 split_loop_routes [OF e(1) this] show ?thesis
    by (simp add: True e(2) split_routes_def enumerate_append_eq len)
next
  case False
  with assms(1) show ?thesis
    by (auto simp: prepareSplitRecords_def splits_before_katalyst_def Let_def split_routes_def spl_route_def)
qed

lemma prepareSplitRecords_indexes:
  assumes "prepareSplitRecords F r = Inr splits" "\<forall>s\<in>set splits. spl_rate s \<noteq> None"
  shows "distinct (map spl_index splits)"
proof -
  have "map spl_index splits = map fst (map spl_route splits)" by (simp add: spl_route_def)
  also have "\<dots> = map Some (map fst (enumerate 1 (split_routes r)))"
    unfolding prepareSplitRecords_routes [OF assms] by (simp only: map_map comp_def split_def fst_conv)
  also have "\<dots> = map Some [1..<1 + length (split_routes r)]" by (simp only: map_fst_enumerate)
  finally show ?thesis by (simp add: distinct_map del: upt_Suc)
qed

lemma split_reserve_ref:
  assumes "split_reserve v ref rows = Some i"
  shows "i < length rows" "case ref of RsvId h \<Rightarrow> rv_reserve_id (rows ! i) = Some h | RsvAddr a \<Rightarrow> rv_address (rows ! i) = a"
proof -
  define P where "P = (\<lambda>i. case ref of
            RsvId h \<Rightarrow> v = 4 \<and> rv_reserve_id (rows ! i) = Some h
          | RsvAddr a \<Rightarrow> v \<noteq> 4 \<and> rv_address (rows ! i) = a)"
  have "split_reserve v ref rows = (let ids = filter P [0..<length rows]
      in if ids = [] then None else if v = 4 then Some (last ids) else Some (hd ids))"
    by (simp add: split_reserve_def P_def)
  with assms have "filter P [0..<length rows] \<noteq> [] \<and> i \<in> set (filter P [0..<length rows])"
    using hd_in_set [of "filter P [0..<length rows]"] last_in_set [of "filter P [0..<length rows]"]
    by (simp only: Let_def split: if_splits) auto
  then show "i < length rows" "case ref of RsvId h \<Rightarrow> rv_reserve_id (rows ! i) = Some h | RsvAddr a \<Rightarrow> rv_address (rows ! i) = a"
    by (auto simp: P_def split: rsv_ref.splits)
qed

text \<open>Insertion of the splits of a new trade.\<close>

lemma insert_splits_rows:
  "insert_splits t v ss db = Inr db' \<Longrightarrow> distinct (map spl_index ss) \<Longrightarrow>
   \<forall>s\<in>set ss. \<forall>i. spl_index s = Some i \<longrightarrow> (t, i) \<notin> split_key ` set (db_splits db) \<Longrightarrow>
   \<exists>rows. db' = db\<lparr> db_splits := db_splits db @ rows \<rparr> \<and> list_all2 (split_stored db) ss rows \<and>
     (\<forall>row\<in>set rows. sr_trade row = t)"
proof (induction ss arbitrary: db)
  case Nil
  then show ?case by (intro exI [of _ "[]"]) simp
next
  case (Cons s ss)
  then obtain db1 where 1: "insert_split t v s db = Inr db1" "insert_splits t v ss db1 = Inr db'"
    by (auto simp: go_bind_Inr_iff)
  then obtain i rate index where s: "split_reserve v (spl_ref s) (db_reserves db) = Some i"
    "spl_rate s = Some rate" "spl_index s = Some index"
    by (auto simp: insert_split_def split: option.splits)
  define row where "row = \<lparr> sr_trade = t, sr_reserve = i, sr_src = spl_src s, sr_dst = spl_dst s,
      sr_src_amount = spl_src_amount s, sr_rate = rate, sr_dst_amount = spl_dst_amount s, sr_index = index,
      sr_eth_amount = (if spl_src s = ETHAddr then Some (spl_src_amount s) else spl_dst_amount s) \<rparr>"
  have row: "sr_reserve row = i" "sr_src row = spl_src s" "sr_dst row = spl_dst s" "sr_trade row = t"
    "sr_src_amount row = spl_src_amount s" "sr_rate row = rate" "sr_dst_amount row = spl_dst_amount s"
    "sr_index row = index" by (simp_all add: row_def)
  then have key: "split_key row = (t, index)" by (simp add: split_key_def)
  from 1(1) s have "db1 = db\<lparr> db_splits := insert_new split_key row (db_splits db) \<rparr>"
    by (simp add: insert_split_def row_def)
  moreover have "split_key row \<notin> split_key ` set (db_splits db)" using Cons.prems(3) s(3) key by simp
  ultimately have db1: "db1 = db\<lparr> db_splits := db_splits db @ [row] \<rparr>" by (simp add: insert_new_def)
  have "Some index \<notin> spl_index ` set ss" using Cons.prems(2) s(3) by simp
  then have "\<forall>s\<in>set ss. \<forall>i. spl_index s = Some i \<longrightarrow> (t, i) \<notin> split_key ` set (db_splits db1)"
    using Cons.prems(3) key by (force simp: db1)
  with Cons.IH [OF 1(2)] Cons.prems(2) obtain rows where
    rows: "db' = db1\<lparr> db_splits := db_splits db1 @ rows \<rparr>" "list_all2 (split_stored db1) ss rows"
      "\<forall>row\<in>set rows. sr_trade row = t" by auto
  have "split_stored db1 = split_stored db" by (intro ext) (simp add: db1 split_stored_def split: rsv_ref.split)
  moreover have "split_stored db s row"
    using split_reserve_ref [OF s(1)] s(2,3) by (simp add: split_stored_def row split: rsv_ref.splits)
  ultimately show ?case using rows by (intro exI [of _ "row # rows"]) (simp add: db1 row)
qed

lemma upsert_fees_new:
  "distinct (map fr_index fees) \<Longrightarrow> \<forall>f\<in>set fees. (t, fr_index f) \<notin> fee_key ` set rows \<Longrightarrow>
   fold (\<lambda>f. upsert_fee \<lparr> fe_trade = t, fe_data = f \<rparr>) fees rows = rows @ map (\<lambda>f. \<lparr> fe_trade = t, fe_data = f \<rparr>) fees"
proof (induction fees arbitrary: rows)
  case (Cons f fees)
  have "upsert_fee \<lparr> fe_trade = t, fe_data = f \<rparr> rows = rows @ [\<lparr> fe_trade = t, fe_data = f \<rparr>]"
    using Cons.prems(2) by (intro upsert_fee_new) (simp add: fee_key_def)
  moreover have "\<forall>g\<in>set fees. (t, fr_index g) \<notin> fee_key ` set (rows @ [\<lparr> fe_trade = t, fe_data = f \<rparr>])"
  proof
    fix g assume g: "g \<in> set fees"
    with Cons.prems(1) have "fr_index g \<noteq> fr_index f" by simp (metis imageI)
    moreover have "(t, fr_index g) \<notin> fee_key ` set rows" using Cons.prems(2) g by simp
    ultimately show "(t, fr_index g) \<notin> fee_key ` set (rows @ [\<lparr> fe_trade = t, fe_data = f \<rparr>])" by (simp add: fee_key_def [of "\<lparr> fe_trade = t, fe_data = f \<rparr>"])
  qed
  ultimately show ?case using Cons.IH [of "rows @ [\<lparr> fe_trade = t, fe_data = f \<rparr>]"] Cons.prems(1) by simp
qed simp

lemma create_or_update_tradelogs_new:
  assumes "create_or_update_tradelogs r fees splits db = Inr db'" "record_id r \<notin> tradelog_ids db" "db_ok db"
    and "prepareFeeRecords F (r_Fee r) = Inr fees" "prepareSplitRecords F r = Inr splits"
    and "distinct (map fee_Index (r_Fee r))"
  shows "record_stored F r db'"
proof -
  let ?t = "record_id r"
  let ?fs = "map (\<lambda>f. \<lparr> fe_trade = ?t, fe_data = f \<rparr>) fees"
  have no_fee: "fe_trade f \<noteq> ?t" if "f \<in> set (db_fees db)" for f
    using assms(2,3) that by (auto simp: db_ok_def)
  have no_split: "sr_trade s \<noteq> ?t" if "s \<in> set (db_splits db)" for s
    using assms(2,3) that by (auto simp: db_ok_def)
  have "distinct (map fr_index fees)" using prepareFeeRecords_indexes [OF assms(4)] assms(6) by simp
  then have fees: "fold (\<lambda>f. upsert_fee \<lparr> fe_trade = ?t, fe_data = f \<rparr>) fees (db_fees db) = db_fees db @ ?fs"
    using no_fee by (intro upsert_fees_new) (fastforce simp: fee_key_def)+
  have tl: "upsert_tradelog (row_of_record r) (db_tradelogs db) = db_tradelogs db @ [row_of_record r]"
    using assms(2) by (intro upsert_tradelog_new) (simp add: tradelog_ids_def row_of_record_def)
  let ?db = "db\<lparr> db_tradelogs := db_tradelogs db @ [row_of_record r], db_fees := db_fees db @ ?fs \<rparr>"
  from assms(1) have i: "insert_splits ?t (r_Version r) splits ?db = Inr db'"
    by (auto simp: create_or_update_tradelogs_def fees tl split: if_splits)
  have "\<forall>s\<in>set splits. spl_rate s \<noteq> None" using insert_splits_keys [OF i] by blast
  note idx = prepareSplitRecords_indexes [OF assms(5) this]
  from insert_splits_rows [OF i idx] no_split obtain rows where
    rows: "db' = ?db\<lparr> db_splits := db_splits db @ rows \<rparr>" "list_all2 (split_stored ?db) splits rows"
      "\<forall>row\<in>set rows. sr_trade row = ?t"
    by (fastforce simp: split_key_def)
  have "split_stored ?db = split_stored db'"
    by (intro ext) (simp add: rows(1) split_stored_def cong: rsv_ref.case_cong)
  moreover have "splits_of db' ?t = rows"
    using no_split rows(3) by (simp add: splits_of_def rows(1) filter_id_conv filter_empty_conv)
  moreover have "fees_of db' ?t = fees"
    using no_fee by (simp add: fees_of_def rows(1) filter_empty_conv filter_map comp_def)
  moreover have "filter (\<lambda>x. tl_id x = ?t) (db_tradelogs db') = [row_of_record r]"
    using assms(2) by (auto simp: rows(1) tradelog_ids_def filter_empty_conv row_of_record_def image_iff)
  ultimately show ?thesis using assms(4,5) rows(2) by (simp add: record_stored_def)
qed

text \<open>Another record leaves the rows alone.\<close>

lemma upsert_tradelog_filter:
  "tl_id r \<noteq> t \<Longrightarrow> filter (\<lambda>x. tl_id x = t) (upsert_tradelog r rows) = filter (\<lambda>x. tl_id x = t) rows"
  by (induction r rows rule: upsert_tradelog.induct) auto

lemma upsert_fee_filter:
  "fe_trade f \<noteq> t \<Longrightarrow> filter (\<lambda>x. fe_trade x = t) (upsert_fee f rows) = filter (\<lambda>x. fe_trade x = t) rows"
  by (induction f rows rule: upsert_fee.induct) auto

lemma upsert_fees_filter:
  "u \<noteq> t \<Longrightarrow> filter (\<lambda>x. fe_trade x = t) (fold (\<lambda>f. upsert_fee \<lparr> fe_trade = u, fe_data = f \<rparr>) fees rows) =
     filter (\<lambda>x. fe_trade x = t) rows"
  by (induction fees arbitrary: rows) (simp_all add: upsert_fee_filter)

lemma insert_splits_filter:
  "insert_splits u v ss db = Inr db' \<Longrightarrow> u \<noteq> t \<Longrightarrow> splits_of db' t = splits_of db t \<and> db_reserves db' = db_reserves db"
proof (induction ss arbitrary: db)
  case (Cons s ss)
  then obtain db1 where 1: "insert_split u v s db = Inr db1" "insert_splits u v ss db1 = Inr db'"
    by (auto simp: go_bind_Inr_iff)
  from insert_split_row [OF 1(1)] obtain row where
    "db1 = db\<lparr> db_splits := insert_new split_key row (db_splits db) \<rparr>" "sr_trade row = u" by blast
  with Cons.prems(2) have "splits_of db1 t = splits_of db t \<and> db_reserves db1 = db_reserves db"
    by (simp add: splits_of_def insert_new_def)
  with Cons.IH [OF 1(2)] Cons.prems(2) show ?case by simp
qed simp

lemma create_or_update_tradelogs_other:
  assumes "create_or_update_tradelogs q fees splits db = Inr db'" "record_stored F r db" "record_id q \<noteq> record_id r"
  shows "record_stored F r db'"
proof -
  let ?db = "db\<lparr> db_tradelogs := upsert_tradelog (row_of_record q) (db_tradelogs db),
      db_fees := fold (\<lambda>f. upsert_fee \<lparr> fe_trade = record_id q, fe_data = f \<rparr>) fees (db_fees db) \<rparr>"
  from assms(1) have i: "insert_splits (record_id q) (r_Version q) splits ?db = Inr db'"
    by (auto simp: create_or_update_tradelogs_def split: if_splits)
  from insert_splits_frame [OF i] obtain s where db': "db' = ?db\<lparr> db_splits := s \<rparr>" by blast
  have "split_stored db' = split_stored db" using insert_splits_filter [OF i assms(3)]
    by (intro ext) (simp add: split_stored_def cong: rsv_ref.case_cong)
  moreover have "splits_of db' (record_id r) = splits_of db (record_id r)"
    using insert_splits_filter [OF i assms(3)] by (simp add: splits_of_def)
  moreover have "fees_of db' (record_id r) = fees_of db (record_id r)"
    using assms(3) by (simp add: fees_of_def db' upsert_fees_filter)
  moreover have "tl_id (row_of_record q) \<noteq> record_id r" using assms(3) by (simp add: row_of_record_def)
  then have "filter (\<lambda>x. tl_id x = record_id r) (db_tradelogs db') = filter (\<lambda>x. tl_id x = record_id r) (db_tradelogs db)"
    by (simp add: db' upsert_tradelog_filter)
  ultimately show ?thesis using assms(2) by (simp add: record_stored_def)
qed

lemma record_stored_cong:
  "db_tradelogs db' = db_tradelogs db \<Longrightarrow> db_fees db' = db_fees db \<Longrightarrow> db_splits db' = db_splits db \<Longrightarrow>
   db_reserves db' = db_reserves db \<Longrightarrow> record_stored F r db' = record_stored F r db"
  by (simp add: record_stored_def fees_of_def splits_of_def split_stored_def [abs_def] cong: rsv_ref.case_cong)

lemma save_record_stored:
  assumes "save_record S F r n db = TxOk m db'" "db_ok db"
  shows "record_id r \<notin> tradelog_ids db \<Longrightarrow> distinct (map fee_Index (r_Fee r)) \<Longrightarrow> record_stored F r db'"
    and "record_stored F q db \<Longrightarrow> record_id r \<noteq> record_id q \<Longrightarrow> record_stored F q db'"
proof -
  from assms(1) obtain fees splits where fs: "prepareFeeRecords F (r_Fee r) = Inr fees"
    "prepareSplitRecords F r = Inr splits"
    and c: "create_or_update_tradelogs r fees splits (with_user_wallet r db) = Inr db'" by (rule save_record_Ok)
  have "insertionUser r db = Inr (db\<lparr> db_users := insert_new fst (r_UserAddress r, r_Timestamp r) (db_users db) \<rparr>)"
    by (simp add: insertionUser_def)
  from insertionUser_ok [OF this assms(2)] have "db_ok (with_user_wallet r db)"
    by (rule insertionWallet_ok [rotated]) (simp add: insertionWallet_def with_user_wallet_def)
  moreover have "tradelog_ids (with_user_wallet r db) = tradelog_ids db"
    by (simp add: tradelog_ids_def with_user_wallet_def)
  ultimately show "record_id r \<notin> tradelog_ids db \<Longrightarrow> distinct (map fee_Index (r_Fee r)) \<Longrightarrow> record_stored F r db'"
    using create_or_update_tradelogs_new [OF c _ _ fs] by simp
  have "record_stored F q (with_user_wallet r db) = record_stored F q db"
    by (rule record_stored_cong) (simp_all add: with_user_wallet_def)
  then show "record_stored F q db \<Longrightarrow> record_id r \<noteq> record_id q \<Longrightarrow> record_stored F q db'"
    using create_or_update_tradelogs_other [OF c] by simp
qed

lemma save_records_stored:
  "save_records S F rs n db = TxOk m db' \<Longrightarrow> db_ok db \<Longrightarrow> distinct (map record_id rs) \<Longrightarrow>
   \<forall>r\<in>set rs. record_id r \<notin> tradelog_ids db \<and> distinct (map fee_Index (r_Fee r)) \<Longrightarrow>
   \<forall>q\<in>set qs. record_stored F q db \<and> record_id q \<notin> record_id ` set rs \<Longrightarrow>
   \<forall>q\<in>set qs \<union> set rs. record_stored F q db'"
proof (induction rs arbitrary: n db qs)
  case (Cons r rs)
  from Cons.prems(1) obtain k db1 where 1: "save_record S F r n db = TxOk k db1"
    "save_records S F rs k db1 = TxOk m db'" by (auto simp: tx_simps)
  have ok: "db_ok db1" using save_record_ok [OF Cons.prems(2), of S F r n db1] 1(1) by (simp add: tx_state_def)
  have ids: "tradelog_ids db1 = insert (record_id r) (tradelog_ids db)"
    using save_record_tables(2) [OF 1(1)] by (simp add: tradelog_ids_def upsert_tradelog_ids row_of_record_def)
  have new: "\<forall>q\<in>set rs. record_id q \<notin> tradelog_ids db1 \<and> distinct (map fee_Index (r_Fee q))"
    using Cons.prems(3,4) by (auto simp: ids) (metis imageI)
  have "record_stored F r db1" using save_record_stored(1) [OF 1(1) Cons.prems(2)] Cons.prems(4) by simp
  moreover have "record_stored F q db1" if "q \<in> set qs" for q
    using save_record_stored(2) [OF 1(1) Cons.prems(2)] Cons.prems(5) that by (metis image_eqI list.set_intros(1))
  ultimately have "\<forall>q\<in>set (r # qs). record_stored F q db1 \<and> record_id q \<notin> record_id ` set rs"
    using Cons.prems(3,5) by auto
  from Cons.IH [OF 1(2) ok _ new this] Cons.prems(3) show ?case by auto
qed simp

lemma SaveTradeLogs_stored:
  assumes "SaveTradeLogs S F (Some cr) db = (db', logs, None)" "se_commit S = None" "db_ok db"
    and "distinct (map trade_id_of (cr_Trades cr))" "\<forall>trd\<in>set (cr_Trades cr). distinct (map fee_Index (Fees trd))"
    and "trade_id_of ` set (cr_Trades cr) \<inter> tradelog_ids db = {}"
  shows "\<forall>trd\<in>set (cr_Trades cr). \<exists>r trd'. recordFromTradeLog F trd = (Inr r, trd') \<and>
    (\<exists>b. record_stored F (r\<lparr> r_IsFirstTrade := b \<rparr>) db')"
proof -
  obtain db1 where 1: "save_reserves S cr db = (db1, None)"
    "save_trade_records S F (cr_Trades cr) db1 = (db', logs, None)"
    using assms(1) by (auto simp: SaveTradeLogs_def split: prod.splits option.splits)
  have ok1: "db_ok db1" using save_reserves_db_ok [OF 1(1) assms(3)] .
  from 1(2) assms(2) obtain rs n where g: "gather_records S F db1 {} (cr_Trades cr) = (Inr rs, logs)"
    and b: "save_body S F rs db1 = TxOk n db'" by (rule save_trade_records_Ok)
  have recs: "list_all2 (\<lambda>trd r. \<exists>q trd' b. recordFromTradeLog F trd = (Inr q, trd') \<and> r = q\<lparr> r_IsFirstTrade := b \<rparr>)
      trades rs" if "gather_records S F db1 us trades = (Inr rs, logs)" for us trades rs logs
    using that
  proof (induction trades arbitrary: us rs logs)
    case (Cons trd trades)
    obtain x trd' where rec: "recordFromTradeLog F trd = (x, trd')" by fastforce
    with Cons.prems obtain q where q: "x = Inr q" by (cases x) auto
    let ?u = "ui_UserAddress (User trd)"
    from rec q Cons.prems obtain f rs1 logs1 where
      "gather_records S F db1 (insert ?u us) trades = (Inr rs1, logs1)" "rs = q\<lparr> r_IsFirstTrade := f \<rparr> # rs1"
      by (auto simp: Let_def go_bind_Inr_iff split: prod.splits sum.splits if_splits)
    with Cons.IH rec q show ?case by auto
  qed simp
  from gather_records_spec [OF g] have l: "list_all2 record_of (cr_Trades cr) rs" by simp
  have ids: "map trade_id_of (cr_Trades cr) = map record_id rs"
    using l by (induction rule: list_all2_induct) (auto simp: record_of_def trade_id_of_def)
  obtain k dbt rv where body: "save_records S F rs k dbt = TxOk n db'"
    "dbt = db1\<lparr> db_reserves := rv, db_tokens := fold (insert_new id) (tokens_of rs) (db_tokens db1) \<rparr>"
    "saveReserveAddress (reserves_of rs) db1 = Inr (db1\<lparr> db_reserves := rv \<rparr>)"
    using save_body_Ok [OF b] by metis
  have "db_ok dbt"
    using saveTokens_ok [OF _ saveReserveAddress_ok [OF body(3) ok1], of "tokens_of rs"] by (simp add: saveTokens_def body(2))
  moreover have "tradelog_ids dbt = tradelog_ids db"
    using save_reserves_ids [OF 1(1)] by (simp add: tradelog_ids_def body(2))
  moreover have "\<forall>r\<in>set rs. record_id r \<in> trade_id_of ` set (cr_Trades cr) \<and> distinct (map fee_Index (r_Fee r))"
  proof
    fix r assume "r \<in> set rs"
    with list_all2_source [OF l] obtain trd where "trd \<in> set (cr_Trades cr)" "record_of trd r" by blast
    then show "record_id r \<in> trade_id_of ` set (cr_Trades cr) \<and> distinct (map fee_Index (r_Fee r))"
      using assms(5) by (auto simp: record_of_def trade_id_of_def)
  qed
  ultimately have "\<forall>r\<in>set [] \<union> set rs. record_stored F r db'"
    using ids assms(4,6) by (intro save_records_stored [OF body(1)]) auto
  then show ?thesis     using list_all2_source [OF list.rel_flip [THEN iffD2, OF recs [OF g]]] by fastforce
qed

section \<open>What a query returns\<close>

definition order_ok :: "query_order \<Rightarrow> bool" where
  "order_ok Q \<longleftrightarrow> (\<forall>xs. mset (qo_trades Q xs) = mset xs) \<and> (\<forall>js. mset (qo_joins Q js) = mset js)"

fun first_by :: "('a \<Rightarrow> 'k) \<Rightarrow> 'k set \<Rightarrow> 'a list \<Rightarrow> 'a list" where
  "first_by key U [] = []"
| "first_by key U (x # xs) = (if key x \<in> U then first_by key U xs else x # first_by key (insert (key x) U) xs)"

lemma first_by_set:
  "inj_on key (set xs) \<Longrightarrow> set (first_by key U xs) = {x \<in> set xs. key x \<notin> U} \<and> distinct (first_by key U xs)"
  by (induction key U xs rule: first_by.induct) (auto simp: inj_on_def)

lemma first_by_map: "first_by key U (map g xs) = map g (first_by (key \<circ> g) U xs)"
  by (induction xs arbitrary: U) simp_all

lemma first_by_mset:
  assumes "inj_on key (set ys)" "set xs = set ys" "distinct ys"
  shows "mset (first_by key {} xs) = mset ys"
  using first_by_set [of key xs "{}"] assms by (simp add: set_eq_iff_mset_eq_distinct [symmetric])

definition load_fee :: "addr \<Rightarrow> fee_record \<Rightarrow> TradelogFee" where
  "load_fee w f = \<lparr> fee_ReserveAddr = fr_reserve f, fee_WalletName = '''',
     fee_WalletFee = Some (float_to_amount 18 (fr_wallet_fee f)),
     fee_PlatformFee = Some (float_to_amount 18 (fr_platform_fee f)), fee_PlatformWallet = w,
     fee_Reward = Some (float_to_amount 18 (fr_reward f)), fee_Rebate = Some (float_to_amount 18 (fr_rebate f)),
     fee_RebateWallets = fr_rebate_wallets f,
     fee_RebatePercentBpsPerWallet = map (\<lambda>p. i64 (int p)) (fr_rebate_percents f),
     fee_Burn = Some (float_to_amount 18 (fr_burn f)), fee_Index = fr_index f \<rparr>"

definition fee_arrays :: "tradeLogDBData \<Rightarrow> fee_record list \<Rightarrow> addr \<Rightarrow> bool" where
  "fee_arrays r fs w \<longleftrightarrow> dd_FeeIndex r = map fr_index fs \<and> dd_PlatformFee r = map fr_platform_fee fs \<and>
     dd_WalletFee r = map fr_wallet_fee fs \<and> dd_Burn r = map fr_burn fs \<and> dd_Rebate r = map fr_rebate fs \<and>
     dd_Reward r = map fr_reward fs \<and> dd_RebateWallets r = map fr_rebate_wallets fs \<and>
     dd_RebatePercents r = map fr_rebate_percents fs \<and>
     (\<exists>n. length fs \<le> n \<and> dd_WalletAddress r = replicate n w)"

lemma ToWei_ETH: "tf_ToWei (formatter_of contract) ETHAddr x = Inr (float_to_amount 18 x)"
  by (simp add: formatter_of_def decimals_of_def)

lemma load_fees_spec:
  "fee_arrays r (pre @ fs) w \<Longrightarrow>
   load_fees (formatter_of contract) r (length pre) U (map fr_reserve fs) = Inr (map (load_fee w) (first_by fr_index U fs))"
proof (induction fs arbitrary: pre U)
  case (Cons f fs)
  have "fee_arrays r ((pre @ [f]) @ fs) w" using Cons.prems by simp
  note IH = Cons.IH [OF this]
  from Cons.prems have cols:
    "go_nth (dd_FeeIndex r) (length pre) = Inr (fr_index f)"
    "go_nth (dd_PlatformFee r) (length pre) = Inr (fr_platform_fee f)"
    "go_nth (dd_WalletFee r) (length pre) = Inr (fr_wallet_fee f)"
    "go_nth (dd_Burn r) (length pre) = Inr (fr_burn f)"
    "go_nth (dd_Rebate r) (length pre) = Inr (fr_rebate f)"
    "go_nth (dd_Reward r) (length pre) = Inr (fr_reward f)"
    "go_nth (dd_RebateWallets r) (length pre) = Inr (fr_rebate_wallets f)"
    "go_nth (dd_RebatePercents r) (length pre) = Inr (fr_rebate_percents f)"
    "go_nth (dd_WalletAddress r) (length pre) = Inr w"
    by (auto simp: fee_arrays_def go_nth_def nth_append)
  show ?case
  proof (cases "fr_index f \<in> U")
    case True
    with IH [of U] show ?thesis by (simp add: cols)
  next
    case False
    with IH [of "insert (fr_index f) U"] show ?thesis by (simp add: cols ToWei_ETH load_fee_def)
  qed
qed simp

definition load_split :: "(addr \<Rightarrow> nat) \<Rightarrow> join_row \<Rightarrow> TradeSplit" where
  "load_split dec = (\<lambda>(f, s, v). \<lparr> sp_ReserveAddress = rv_address v, sp_SrcToken = sr_src s, sp_DstToken = sr_dst s,
     sp_SrcAmount = Some (float_to_amount (dec (sr_src s)) (sr_src_amount s)),
     sp_DstAmount = Some (float_to_amount (dec (sr_dst s)) (the (sr_dst_amount s))),
     sp_Rate = Some (float_to_amount 18 (sr_rate s)), sp_Index = sr_index s \<rparr>)"

definition join_index :: "join_row \<Rightarrow> nat" where "join_index = (\<lambda>(f, s, v). sr_index s)"

definition join_ok :: "contract_decimals \<Rightarrow> (addr \<Rightarrow> nat) \<Rightarrow> join_row \<Rightarrow> bool" where
  "join_ok contract dec = (\<lambda>(f, s, v). sr_dst_amount s \<noteq> None \<and>
     decimals_of contract (sr_src s) = Inr (dec (sr_src s)) \<and> decimals_of contract (sr_dst s) = Inr (dec (sr_dst s)))"

lemma map_filter_some: "\<forall>x\<in>set xs. g x \<noteq> None \<Longrightarrow> List.map_filter g xs = map (\<lambda>x. the (g x)) xs"
  by (induction xs) (auto simp: map_filter_simps)

lemma load_splits_spec:
  "\<forall>j\<in>set (pre @ js). join_ok contract dec j \<Longrightarrow>
   load_splits (formatter_of contract) (group_data x (pre @ js)) (length pre) U (map (\<lambda>(f, s, v). rv_address v) js) =
     Inr (map (load_split dec) (first_by join_index U js))"
proof (induction js arbitrary: pre U)
  case (Cons j js)
  obtain f s v where j: "j = (f, s, v)" by (cases j)
  have "\<forall>j\<in>set ((pre @ [j]) @ js). join_ok contract dec j" using Cons.prems by simp
  note IH = Cons.IH [OF this]
  have "List.map_filter (\<lambda>(f, s, v). sr_dst_amount s) (pre @ j # js) =
      map (\<lambda>(f, s, v). the (sr_dst_amount s)) (pre @ j # js)"
    using Cons.prems by (subst map_filter_some) (fastforce simp: join_ok_def)+
  then have cols: "go_nth (dd_SplitIndex (group_data x (pre @ j # js))) (length pre) = Inr (sr_index s)"
    "go_nth (dd_SplitSrc (group_data x (pre @ j # js))) (length pre) = Inr (sr_src s)"
    "go_nth (dd_SplitSrcAmount (group_data x (pre @ j # js))) (length pre) = Inr (sr_src_amount s)"
    "go_nth (dd_SplitDst (group_data x (pre @ j # js))) (length pre) = Inr (sr_dst s)"
    "go_nth (dd_SplitDstAmount (group_data x (pre @ j # js))) (length pre) = Inr (the (sr_dst_amount s))"
    "go_nth (dd_SplitRate (group_data x (pre @ j # js))) (length pre) = Inr (sr_rate s)"
    by (simp_all add: group_data_def split_array_def go_nth_def nth_append j)
  have dec: "tf_ToWei (formatter_of contract) (sr_src s) y = Inr (float_to_amount (dec (sr_src s)) y)"
    "tf_ToWei (formatter_of contract) (sr_dst s) y = Inr (float_to_amount (dec (sr_dst s)) y)" for y
    using Cons.prems by (simp_all add: formatter_of_def join_ok_def j)
  show ?case
  proof (cases "sr_index s \<in> U")
    case True
    with IH [of U] show ?thesis by (simp add: cols [unfolded j] j join_index_def)
  next
    case False
    with IH [of "insert (sr_index s) U"] show ?thesis
      by (simp add: cols [unfolded j] dec ToWei_ETH j join_index_def load_split_def)
  qed
qed simp

definition load_trade :: "(addr \<Rightarrow> nat) \<Rightarrow> tradelog_row \<Rightarrow> join_row list \<Rightarrow> TradelogV4" where
  "load_trade dec x js = TradelogV40\<lparr> TransactionHash := fst (tl_id x), Index := snd (tl_id x),
     Timestamp := tl_timestamp x, BlockNumber := tl_block_number x,
     EthAmount := Some (float_to_amount 18 (tl_eth_amount x)),
     OriginalEthAmount := Some (float_to_amount 18 (tl_original_eth_amount x)),
     User := KyberUserInfo0\<lparr> ui_UserAddress := tl_user x, ui_IP := option_string (tl_ip x),
       ui_Country := option_string (tl_country x) \<rparr>,
     TokenInfo := TradeTokenInfo0\<lparr> ti_SrcAddress := tl_src x, ti_DestAddress := tl_dst x \<rparr>,
     SrcAmount := Some (float_to_amount (dec (tl_src x)) (tl_src_amount x)),
     DestAmount := Some (float_to_amount (dec (tl_dst x)) (tl_dst_amount x)),
     IntegrationApp := tl_integration_app x, FiatAmount := float64 (tl_eth_amount x * tl_eth_usd_rate x),
     WalletAddress := tl_wallet x, ReceiverAddress := tl_receiver x, ETHUSDRate := tl_eth_usd_rate x,
     TxInfo := \<lparr> td_GasUsed = tl_gas_used x, td_GasPrice = Some (float_to_amount 18 (tl_gas_price x)),
       td_TransactionFee = Some (float_to_amount 18 (tl_transaction_fee x)), td_TxSender = tl_tx_sender x \<rparr>,
     Fees := map (load_fee (tl_wallet x)) (first_by fr_index {} (List.map_filter fst js)),
     Split := map (load_split dec) (first_by join_index {} js), Version := tl_version x \<rparr>"

lemma tradeLogFromDBData_spec:
  assumes "js \<noteq> []" "\<forall>j\<in>set js. join_ok contract dec j"
    and "(\<forall>j\<in>set js. fst j \<noteq> None) \<or> (\<forall>j\<in>set js. fst j = None)"
    and "decimals_of contract (tl_src x) = Inr (dec (tl_src x))" "decimals_of contract (tl_dst x) = Inr (dec (tl_dst x))"
  shows "tradeLogFromDBData (formatter_of contract) (group_data x js) = Inr (load_trade dec x js)"
proof -
  have "length (List.map_filter fst js) \<le> length js" by (induction js) (auto simp: map_filter_simps split: option.split)
  then have "fee_arrays (group_data x js) ([] @ List.map_filter fst js) (tl_wallet x)"
    by (auto simp: fee_arrays_def group_data_def fee_array_def map_replicate_const)
  from load_fees_spec [OF this, of contract "{}"]
  have f: "load_fees (formatter_of contract) (group_data x js) 0 {} (dd_FeeReserveAddress (group_data x js)) =
      Inr (map (load_fee (tl_wallet x)) (first_by fr_index {} (List.map_filter fst js)))"
    by (simp add: group_data_def fee_array_def)
  have s: "load_splits (formatter_of contract) (group_data x js) 0 {} (dd_SplitReserveAddress (group_data x js)) =
      Inr (map (load_split dec) (first_by join_index {} js))"
    using load_splits_spec [of "[]" js contract dec x "{}"] assms(2) by (simp add: group_data_def)
  have dec: "tf_ToWei (formatter_of contract) (tl_src x) y = Inr (float_to_amount (dec (tl_src x)) y)"
    "tf_ToWei (formatter_of contract) (tl_dst x) y = Inr (float_to_amount (dec (tl_dst x)) y)" for y
    using assms(4,5) by (simp_all add: formatter_of_def)
  have first: "go_nth (map (\<lambda>j. c) js) 0 = Inr c" for c :: addr using assms(1) by (simp add: go_nth_def)
  show ?thesis unfolding tradeLogFromDBData_def f s
    by (simp add: group_data_def first dec ToWei_ETH load_trade_def)
qed

text \<open>The rows of the joins, in a database that is well-formed.\<close>

definition tokens_known :: "contract_decimals \<Rightarrow> (addr \<Rightarrow> nat) \<Rightarrow> trade_db \<Rightarrow> bool" where
  "tokens_known contract dec db \<longleftrightarrow> (\<forall>a\<in>insert ETHAddr (set (db_tokens db)). decimals_of contract a = Inr (dec a))"

lemma joined_ok:
  assumes "db_ok db"
  shows "set (joined db x) = {(f, s, db_reserves db ! sr_reserve s) | f s.
      s \<in> set (splits_of db (tl_id x)) \<and> (if fees_of db (tl_id x) = [] then f = None else f \<in> Some ` set (fees_of db (tl_id x)))}"
proof -
  have "filter (\<lambda>s. sr_reserve s < length (db_reserves db)) (splits_of db t) = splits_of db t" for t
    using assms by (intro filter_True) (simp add: splits_of_def db_ok_def split_row_ok_def)
  then show ?thesis by (cases "fees_of db (tl_id x)") (auto simp: joined_def)
qed

lemma joined_rows:
  assumes "db_ok db" "mset js = mset (joined db x)"
  shows "js = [] \<longleftrightarrow> splits_of db (tl_id x) = []"
    and "(\<forall>j\<in>set js. fst j \<noteq> None) \<or> (\<forall>j\<in>set js. fst j = None)"
    and "tokens_known contract dec db \<Longrightarrow> \<forall>j\<in>set js. join_ok contract dec j"
    and "splits_of db (tl_id x) \<noteq> [] \<Longrightarrow> set (List.map_filter fst js) = set (fees_of db (tl_id x))"
    and "(\<lambda>(f, s, v). (s, v)) ` set js = (\<lambda>s. (s, db_reserves db ! sr_reserve s)) ` set (splits_of db (tl_id x))"
proof -
  let ?t = "tl_id x"
  have js: "set js = {(f, s, db_reserves db ! sr_reserve s) | f s.
      s \<in> set (splits_of db ?t) \<and> (if fees_of db ?t = [] then f = None else f \<in> Some ` set (fees_of db ?t))}"
    using mset_eq_setD [OF assms(2)] joined_ok [OF assms(1)] by simp
  have "js = [] \<longleftrightarrow> set js = {}" by simp
  also have "\<dots> \<longleftrightarrow> splits_of db ?t = []"
    unfolding js by (cases "splits_of db ?t"; cases "fees_of db ?t") auto
  finally show "js = [] \<longleftrightarrow> splits_of db ?t = []" .
  show "(\<forall>j\<in>set js. fst j \<noteq> None) \<or> (\<forall>j\<in>set js. fst j = None)"
    unfolding js by (cases "fees_of db ?t = []") auto
  have "s \<in> set (splits_of db ?t) \<Longrightarrow> split_row_ok db s" for s
    using assms(1) by (auto simp: splits_of_def db_ok_def)
  then show "tokens_known contract dec db \<Longrightarrow> \<forall>j\<in>set js. join_ok contract dec j"
    unfolding js by (fastforce simp: join_ok_def tokens_known_def split_row_ok_def)
  have mf: "set (List.map_filter fst js) = {f. Some f \<in> fst ` set js}"
    by (induction js) (auto simp: map_filter_simps split: option.split)
  show "splits_of db ?t \<noteq> [] \<Longrightarrow> set (List.map_filter fst js) = set (fees_of db ?t)"
    unfolding mf js by (cases "splits_of db ?t"; cases "fees_of db ?t") force+
  show "(\<lambda>(f, s, v). (s, v)) ` set js = (\<lambda>s. (s, db_reserves db ! sr_reserve s)) ` set (splits_of db ?t)"
    unfolding js by (cases "fees_of db ?t") force+
qed

lemma query_groups_load:
  assumes "db_ok db" "tokens_known contract dec db" "order_ok Q" "set xs \<subseteq> set (db_tradelogs db)"
  shows "go_bind (query_groups Q db xs) (load_all (formatter_of contract)) =
    Inr (map (\<lambda>x. load_trade dec x (qo_joins Q (joined db x))) (filter (\<lambda>x. splits_of db (tl_id x) \<noteq> []) xs))"
  using assms(4)
proof (induction xs)
  case (Cons x xs)
  let ?js = "qo_joins Q (joined db x)"
  have m: "mset ?js = mset (joined db x)" using assms(3) by (simp add: order_ok_def)
  note rows = joined_rows [OF assms(1) m]
  have ref: "has_references db x" using assms(1) Cons.prems by (simp add: db_ok_def)
  show ?case
  proof (cases "splits_of db (tl_id x) = []")
    case True
    with rows(1) Cons show ?thesis by simp
  next
    case False
    have join: "\<forall>j\<in>set ?js. join_ok contract dec j" by (rule rows(3) [OF assms(2)])
    then have "\<not> (\<exists>(f, s, v)\<in>set ?js. sr_dst_amount s = None)" by (force simp: join_ok_def)
    moreover have "decimals_of contract (tl_src x) = Inr (dec (tl_src x))"
      "decimals_of contract (tl_dst x) = Inr (dec (tl_dst x))"
      using ref assms(2) by (auto simp: has_references_def tokens_known_def)
    then have "tradeLogFromDBData (formatter_of contract) (group_data x ?js) = Inr (load_trade dec x ?js)"
      using False rows(1) by (intro tradeLogFromDBData_spec join rows(2)) simp_all
    ultimately show ?thesis using Cons False rows(1) ref
      by (cases "query_groups Q db xs") (auto simp: Let_def)
  qed
qed simp

lemma query_trades_load:
  assumes "db_ok db" "tokens_known contract dec db" "order_ok Q"
  shows "go_bind (query_trades Q P db) (load_all (formatter_of contract)) =
    Inr (map (\<lambda>x. load_trade dec x (qo_joins Q (joined db x)))
      (filter (\<lambda>x. splits_of db (tl_id x) \<noteq> []) (qo_trades Q (filter P (db_tradelogs db)))))"
  unfolding query_trades_def
proof (rule query_groups_load [OF assms])
  have "mset (qo_trades Q (filter P (db_tradelogs db))) = mset (filter P (db_tradelogs db))"
    using assms(3) by (simp add: order_ok_def)
  from mset_eq_setD [OF this] show "set (qo_trades Q (filter P (db_tradelogs db))) \<subseteq> set (db_tradelogs db)" by auto
qed

lemma load_trade_id [simp]: "trade_id_of (load_trade dec x js) = tl_id x"
  by (simp add: trade_id_of_def load_trade_def)

text \<open>The trade of an id that is there once.\<close>

lemma query_one:
  assumes "db_ok db" "tokens_known contract dec db" "order_ok Q" "filter (\<lambda>x. tl_id x = t) (db_tradelogs db) = [row]"
  shows "\<exists>logs. go_bind (query_trades Q P db) (load_all (formatter_of contract)) = Inr logs \<and>
    filter (\<lambda>l. trade_id_of l = t) logs =
      (if P row \<and> splits_of db t \<noteq> [] then [load_trade dec row (qo_joins Q (joined db row))] else [])"
proof -
  let ?xs = "qo_trades Q (filter P (db_tradelogs db))"
  let ?ys = "filter (\<lambda>x. tl_id x = t) (filter (\<lambda>x. splits_of db (tl_id x) \<noteq> []) ?xs)"
  have "tl_id row = t" using arg_cong [OF assms(4), of set] by auto
  have "mset ?xs = mset (filter P (db_tradelogs db))" using assms(3) by (simp add: order_ok_def)
  then have "mset ?ys = mset (filter (\<lambda>x. P x \<and> splits_of db t \<noteq> []) (filter (\<lambda>x. tl_id x = t) (db_tradelogs db)))"
    by (auto simp: mset_filter filter_filter_mset intro!: filter_mset_cong)
  also have "\<dots> = mset (if P row \<and> splits_of db t \<noteq> [] then [row] else [])" by (simp add: assms(4))
  finally have ys: "?ys = (if P row \<and> splits_of db t \<noteq> [] then [row] else [])"
    by (cases "P row \<and> splits_of db t \<noteq> []") (simp_all del: mset_filter)
  show ?thesis unfolding query_trades_load [OF assms(1-3)] using ys by (simp add: filter_map comp_def)
qed

section \<open>What a trade is read back as\<close>

text \<open>
  An amount that is read back: nil as 0, and otherwise up to one part in \<open>2 ^ 50\<close> and one unit.
\<close>

definition near_amount :: "int option \<Rightarrow> int option \<Rightarrow> bool" where
  "near_amount x y \<longleftrightarrow> (case x of
     None \<Rightarrow> y = Some 0
   | Some a \<Rightarrow> 0 \<le> a \<longrightarrow> (\<exists>b. y = Some b \<and> \<bar>of_int b - of_int a :: rat\<bar> \<le> of_int a / 2 ^ 50 + 1))"

lemma near_reread: "near_amount (Some a) (Some (float_to_amount d (amount_to_float d a)))"
  using float_amount_near(1) [of a d] by (simp add: near_amount_def)

lemma near_stored:
  assumes "tf_FromWei (formatter_of contract) a x = Inr y" "decimals_of contract a = Inr d"
  shows "near_amount x (Some (float_to_amount d y))"
proof (cases x)
  case None
  then show ?thesis using assms
    by (simp add: formatter_of_def near_amount_def float_to_amount_def go_trunc_def)
next
  case (Some n)
  with assms show ?thesis using near_reread [of n d] by (simp add: formatter_of_def)
qed

text \<open>A fee read back has the wallet of the trade for its platform wallet.\<close>

definition fee_read :: "addr \<Rightarrow> TradelogFee \<Rightarrow> TradelogFee \<Rightarrow> bool" where
  "fee_read wallet f g \<longleftrightarrow> fee_ReserveAddr g = fee_ReserveAddr f \<and> fee_Index g = fee_Index f \<and>
     fee_PlatformWallet g = wallet \<and> fee_RebateWallets g = fee_RebateWallets f \<and>
     ((\<forall>p\<in>set (fee_RebatePercentBpsPerWallet f). 0 \<le> p \<and> p < 2 ^ 63) \<longrightarrow>
        fee_RebatePercentBpsPerWallet g = fee_RebatePercentBpsPerWallet f) \<and>
     near_amount (fee_WalletFee f) (fee_WalletFee g) \<and> near_amount (fee_PlatformFee f) (fee_PlatformFee g) \<and>
     near_amount (fee_Burn f) (fee_Burn g) \<and> near_amount (fee_Rebate f) (fee_Rebate g) \<and>
     near_amount (fee_Reward f) (fee_Reward g)"

definition trade_routes :: "TradelogV4 \<Rightarrow> (addr \<times> addr) list" where
  "trade_routes trd =
     (let src = ti_SrcAddress (TokenInfo trd); dst = ti_DestAddress (TokenInfo trd) in
      if Version trd = 4
      then replicate (length (T2EReserves trd)) (src, ETHAddr) @ replicate (length (E2TReserves trd)) (ETHAddr, dst)
      else (if src \<noteq> ETHAddr then [(src, ETHAddr)] else []) @ (if dst \<noteq> ETHAddr then [(ETHAddr, dst)] else []))"

definition read_back :: "contract_decimals \<Rightarrow> TradelogV4 \<Rightarrow> TradelogV4 \<Rightarrow> bool" where
  "read_back contract trd l \<longleftrightarrow>
     TransactionHash l = TransactionHash trd \<and> Index l = Index trd \<and> Timestamp l = Timestamp trd \<and>
     BlockNumber l = BlockNumber trd \<and> Version l = Version trd \<and>
     ui_UserAddress (User l) = ui_UserAddress (User trd) \<and> ui_IP (User l) = ui_IP (User trd) \<and>
     ui_Country (User l) = ui_Country (User trd) \<and>
     ti_SrcAddress (TokenInfo l) = ti_SrcAddress (TokenInfo trd) \<and>
     ti_DestAddress (TokenInfo l) = ti_DestAddress (TokenInfo trd) \<and>
     WalletAddress l = WalletAddress trd \<and> IntegrationApp l = IntegrationApp trd \<and>
     ReceiverAddress l = ReceiverAddress trd \<and> ETHUSDRate l = ETHUSDRate trd \<and>
     td_GasUsed (TxInfo l) = td_GasUsed (TxInfo trd) \<and> td_TxSender (TxInfo l) = td_TxSender (TxInfo trd) \<and>
     near_amount (EthAmount trd) (EthAmount l) \<and> near_amount (OriginalEthAmount trd) (OriginalEthAmount l) \<and>
     near_amount (SrcAmount trd) (SrcAmount l) \<and>
     near_amount (td_GasPrice (TxInfo trd)) (td_GasPrice (TxInfo l)) \<and>
     near_amount (td_TransactionFee (TxInfo trd)) (td_TransactionFee (TxInfo l)) \<and>
     (Version trd \<noteq> 4 \<longrightarrow> near_amount (DestAmount trd) (DestAmount l)) \<and>
     (\<forall>s d p. Version trd = 4 \<and> decimals_V4 (formatter_of contract) trd = Inr (s, d) \<and> DestAmount trd = Some p \<and> 0 \<le> p \<longrightarrow>
        near_amount (Some (calcDstQty s d p)) (DestAmount l)) \<and>
     (\<exists>fs. mset fs = mset (Fees trd) \<and> list_all2 (fee_read (WalletAddress trd)) fs (Fees l)) \<and>
     mset (map (\<lambda>s. (sp_Index s, sp_SrcToken s, sp_DstToken s)) (Split l)) = mset (enumerate 1 (trade_routes trd))"

lemma option_null_string [simp]: "option_string (null_string s) = s"
  by (simp add: option_string_def null_string_def)

lemma record_amounts:
  assumes "recordFromTradeLog (formatter_of contract) trd = (Inr r, trd')"
    and "decimals_of contract (ti_SrcAddress (TokenInfo trd)) = Inr ds" "decimals_of contract (ti_DestAddress (TokenInfo trd)) = Inr dd"
  shows "near_amount (EthAmount trd) (Some (float_to_amount 18 (r_EthAmount r)))"
    and "near_amount (OriginalEthAmount trd) (Some (float_to_amount 18 (r_OriginalEthAmount r)))"
    and "near_amount (SrcAmount trd) (Some (float_to_amount ds (r_SrcAmount r)))"
    and "near_amount (td_GasPrice (TxInfo trd)) (Some (float_to_amount 18 (r_GasPrice r)))"
    and "near_amount (td_TransactionFee (TxInfo trd)) (Some (float_to_amount 18 (r_TransactionFee r)))"
    and "Version trd \<noteq> 4 \<Longrightarrow> near_amount (DestAmount trd) (Some (float_to_amount dd (r_DestAmount r)))"
    and "Version trd = 4 \<Longrightarrow> decimals_V4 (formatter_of contract) trd = Inr (s, d) \<Longrightarrow> DestAmount trd = Some p \<Longrightarrow> 0 \<le> p \<Longrightarrow>
      near_amount (Some (calcDstQty s d p)) (Some (float_to_amount dd (r_DestAmount r)))"
proof -
  let ?F = "formatter_of contract"
  have eth: "decimals_of contract ETHAddr = Inr 18" by (simp add: decimals_of_def)
  from assms(1) have w: "tf_FromWei ?F ETHAddr (EthAmount trd) = Inr (r_EthAmount r)"
    "tf_FromWei ?F ETHAddr (OriginalEthAmount trd) = Inr (r_OriginalEthAmount r)"
    "tf_FromWei ?F (ti_SrcAddress (TokenInfo trd)) (SrcAmount trd) = Inr (r_SrcAmount r)"
    "tf_FromWei ?F ETHAddr (td_GasPrice (TxInfo trd)) = Inr (r_GasPrice r)"
    "tf_FromWei ?F ETHAddr (td_TransactionFee (TxInfo trd)) = Inr (r_TransactionFee r)"
    "fst (dst_amount_of ?F trd) = Inr (r_DestAmount r)"
    by (auto simp: recordFromTradeLog_def go_bind_Inr_iff split: sum.splits prod.splits)
  show "near_amount (EthAmount trd) (Some (float_to_amount 18 (r_EthAmount r)))"
    "near_amount (OriginalEthAmount trd) (Some (float_to_amount 18 (r_OriginalEthAmount r)))"
    "near_amount (SrcAmount trd) (Some (float_to_amount ds (r_SrcAmount r)))"
    "near_amount (td_GasPrice (TxInfo trd)) (Some (float_to_amount 18 (r_GasPrice r)))"
    "near_amount (td_TransactionFee (TxInfo trd)) (Some (float_to_amount 18 (r_TransactionFee r)))"
    by (rule near_stored [OF w(1) eth] near_stored [OF w(2) eth] near_stored [OF w(3) assms(2)]
        near_stored [OF w(4) eth] near_stored [OF w(5) eth])+
  show "Version trd \<noteq> 4 \<Longrightarrow> near_amount (DestAmount trd) (Some (float_to_amount dd (r_DestAmount r)))"
    using w(6) by (intro near_stored [OF _ assms(3)]) (simp add: dst_amount_of_def)
  show "near_amount (Some (calcDstQty s d p)) (Some (float_to_amount dd (r_DestAmount r)))"
    if "Version trd = 4" "decimals_V4 ?F trd = Inr (s, d)" "DestAmount trd = Some p" "0 \<le> p"
    using w(6) that
    by (intro near_stored [OF _ assms(3)]) (simp add: dst_amount_of_def calculateDstAmountV4_def scaled_dst_eq)
qed

lemma fee_read_stored:
  "prepareFeeRecords (formatter_of contract) fees = Inr rows \<Longrightarrow>
   list_all2 (\<lambda>f row. fee_read w f (load_fee w row)) fees rows"
proof (induction fees arbitrary: rows)
  case (Cons f fees)
  have eth: "decimals_of contract ETHAddr = Inr 18" by (simp add: decimals_of_def)
  from Cons.prems obtain a b c d e rest where w:
    "tf_FromWei (formatter_of contract) ETHAddr (fee_WalletFee f) = Inr a"
    "tf_FromWei (formatter_of contract) ETHAddr (fee_PlatformFee f) = Inr b"
    "tf_FromWei (formatter_of contract) ETHAddr (fee_Burn f) = Inr c"
    "tf_FromWei (formatter_of contract) ETHAddr (fee_Rebate f) = Inr d"
    "tf_FromWei (formatter_of contract) ETHAddr (fee_Reward f) = Inr e"
    "prepareFeeRecords (formatter_of contract) fees = Inr rest"
    "rows = \<lparr> fr_reserve = fee_ReserveAddr f, fr_wallet = fee_PlatformWallet f,
              fr_wallet_fee = a, fr_platform_fee = b, fr_burn = c, fr_rebate = d, fr_reward = e, fr_index = fee_Index f,
              fr_rebate_wallets = fee_RebateWallets f,
              fr_rebate_percents = map u64 (fee_RebatePercentBpsPerWallet f) \<rparr> # rest"
    by (auto simp: go_bind_Inr_iff)
  have "map (\<lambda>p. i64 (int (u64 p))) ps = ps" if "\<forall>p\<in>set ps. 0 \<le> p \<and> p < 2 ^ 63" for ps
  proof (rule map_idI)
    fix p assume "p \<in> set ps"
    with that have "0 \<le> p" "p < 2 ^ 63" by auto
    moreover from this have "p mod 2 ^ 64 = p" by (intro mod_pos_pos_trivial) simp_all
    ultimately show "i64 (int (u64 p)) = p" by (simp add: u64_def i64_id)
  qed
  with near_stored [OF w(1) eth] near_stored [OF w(2) eth] near_stored [OF w(3) eth] near_stored [OF w(4) eth]
    near_stored [OF w(5) eth] Cons.IH [OF w(6)]
  show ?case by (simp add: w(7) fee_read_def load_fee_def comp_def)
qed simp

lemma list_all2_mset_right:
  "list_all2 R xs ys \<Longrightarrow> mset ys' = mset ys \<Longrightarrow> \<exists>xs'. mset xs' = mset xs \<and> list_all2 R xs' ys'"
  using list_all2_reorder_left_invariance [of "\<lambda>y x. R x y" ys xs ys'] by (auto simp: list_all2_conv_all_nth)

lemma splits_stored_routes:
  assumes "record_stored F r db" "db_ok db"
  shows "mset (map (\<lambda>s. (sr_index s, sr_src s, sr_dst s)) (splits_of db (record_id r))) = mset (enumerate 1 (split_routes r))"
proof -
  from assms(1) obtain splits where s: "prepareSplitRecords F r = Inr splits"
    "list_all2 (split_stored db) splits (splits_of db (record_id r))" by (auto simp: record_stored_def)
  have "\<forall>s\<in>set splits. spl_rate s \<noteq> None"
    using s(2) by (auto simp: split_stored_def list_all2_conv_all_nth in_set_conv_nth) (metis option.distinct(1))
  note r = prepareSplitRecords_routes [OF s(1) this]
  have "map spl_route splits = map (\<lambda>s. (Some (sr_index s), sr_src s, sr_dst s)) (splits_of db (record_id r))"
    using s(2) by (induction rule: list_all2_induct) (auto simp: split_stored_def spl_route_def)
  then have eq: "map (\<lambda>(i, t). (Some i, t)) (enumerate 1 (split_routes r)) =
      map (\<lambda>(i, t). (Some i, t)) (map (\<lambda>s. (sr_index s, sr_src s, sr_dst s)) (splits_of db (record_id r)))"
    using r by (simp add: comp_def)
  have inj: "inj (\<lambda>(i :: nat, t :: addr \<times> addr). (Some i, t))" by (auto simp: inj_def)
  have "enumerate 1 (split_routes r) = map (\<lambda>s. (sr_index s, sr_src s, sr_dst s)) (splits_of db (record_id r))"
    by (rule map_injective [OF eq inj])
  then show ?thesis by simp
qed

lemma record_read_back:
  assumes "recordFromTradeLog (formatter_of contract) trd = (Inr r, trd')" "record_stored (formatter_of contract) (r\<lparr> r_IsFirstTrade := b \<rparr>) db"
    and "db_ok db" "tokens_known contract dec db" "order_ok Q" "distinct (map fee_Index (Fees trd))" "trade_routes trd \<noteq> []"
  defines "x \<equiv> row_of_record (r\<lparr> r_IsFirstTrade := b \<rparr>)"
  shows "read_back contract trd (load_trade dec x (qo_joins Q (joined db x)))"
    and "tl_id x = trade_id_of trd" "tl_timestamp x = Timestamp trd" "splits_of db (trade_id_of trd) \<noteq> []"
proof -
  let ?q = "r\<lparr> r_IsFirstTrade := b \<rparr>" and ?js = "qo_joins Q (joined db x)"
  have fields: "record_id r = trade_id_of trd" "r_Timestamp r = Timestamp trd" "r_Fee r = Fees trd"
    "r_SrcAddress r = ti_SrcAddress (TokenInfo trd)" "r_DestAddress r = ti_DestAddress (TokenInfo trd)"
    "r_Version r = Version trd" "r_BlockNumber r = BlockNumber trd" "r_UserAddress r = ui_UserAddress (User trd)"
    "r_IP r = null_string (ui_IP (User trd))" "r_Country r = null_string (ui_Country (User trd))"
    "r_WalletAddress r = WalletAddress trd" "r_IntegrationApp r = IntegrationApp trd" "r_ReceiverAddress r = ReceiverAddress trd"
    "r_ETHUSDRate r = ETHUSDRate trd" "r_GasUsed r = td_GasUsed (TxInfo trd)" "r_TxSender r = td_TxSender (TxInfo trd)"
    "length (r_T2EReserves r) = length (T2EReserves trd)" "length (r_E2TReserves r) = length (E2TReserves trd)"
    using assms(1)
    by (auto simp: recordFromTradeLog_def record_id_def trade_id_of_def go_bind_Inr_iff split: sum.splits prod.splits)
  have q: "record_id ?q = trade_id_of trd" "split_routes ?q = trade_routes trd"
    using fields(1) by (simp_all add: record_id_def split_routes_def trade_routes_def fields Let_def cong: if_cong)
  show id: "tl_id x = trade_id_of trd" using q(1) by (simp add: x_def row_of_record_def)
  show "tl_timestamp x = Timestamp trd" by (simp add: x_def row_of_record_def fields)
  note stored = splits_stored_routes [OF assms(2,3), unfolded q]
  have "length (splits_of db (trade_id_of trd)) = length (trade_routes trd)"
    using arg_cong [OF stored, of size] by simp
  then show ne: "splits_of db (trade_id_of trd) \<noteq> []" using assms(7) by auto
  have m: "mset ?js = mset (joined db x)" using assms(5) by (simp add: order_ok_def)
  note rows = joined_rows [OF assms(3) m]
  have "x \<in> set (filter (\<lambda>y. tl_id y = trade_id_of trd) (db_tradelogs db))"
    using assms(2) by (simp add: record_stored_def q x_def)
  then have "has_references db x" using assms(3) by (simp add: db_ok_def)
  then have toks: "decimals_of contract (ti_SrcAddress (TokenInfo trd)) = Inr (dec (tl_src x))"
    "decimals_of contract (ti_DestAddress (TokenInfo trd)) = Inr (dec (tl_dst x))"
    using assms(4) by (auto simp: tokens_known_def has_references_def x_def row_of_record_def fields)
  note amounts = record_amounts [OF assms(1) toks]
  let ?fees = "first_by fr_index {} (List.map_filter fst ?js)"
  have pf: "prepareFeeRecords (formatter_of contract) (Fees trd) = Inr (fees_of db (trade_id_of trd))"
    using assms(2) by (simp add: record_stored_def q fields)
  have "distinct (map fr_index (fees_of db (trade_id_of trd)))"
    using prepareFeeRecords_indexes [OF pf] assms(6) by simp
  then have "mset ?fees = mset (fees_of db (trade_id_of trd))"
    using rows(4) ne id by (intro first_by_mset) (auto simp: distinct_map)
  from list_all2_mset_right [OF fee_read_stored [OF pf, of "WalletAddress trd"] this]
  have fees: "\<exists>fs. mset fs = mset (Fees trd) \<and> list_all2 (fee_read (WalletAddress trd)) fs (map (load_fee (WalletAddress trd)) ?fees)"
    by (auto simp: list_all2_map2)
  let ?splits = "first_by join_index {} ?js"
  have splits: "mset (map (\<lambda>s. (sp_Index s, sp_SrcToken s, sp_DstToken s)) (map (load_split dec) ?splits)) = mset (enumerate 1 (trade_routes trd))"
  proof -
    let ?g = "\<lambda>(f, s, v). (s, v)" and ?h = "\<lambda>(s, v). (sr_index s, sr_src s, sr_dst s)"
    let ?ss = "map (\<lambda>s. (s, db_reserves db ! sr_reserve s)) (splits_of db (trade_id_of trd))"
    have "distinct (map split_key (splits_of db (trade_id_of trd)))"
      using assms(3) by (simp add: db_ok_def splits_of_def distinct_map_filter)
    moreover have "map split_key (splits_of db (trade_id_of trd)) =
        map (Pair (trade_id_of trd)) (map sr_index (splits_of db (trade_id_of trd)))"
      by (simp add: splits_of_def split_key_def)
    ultimately have d: "distinct (map sr_index (splits_of db (trade_id_of trd)))" by (metis distinct_map)
    have "map ?g ?splits = first_by (sr_index \<circ> fst) {} (map ?g ?js)"
      by (simp add: first_by_map comp_def split_def join_index_def)
    also have "mset \<dots> = mset ?ss"
    proof (rule first_by_mset)
      show "inj_on (sr_index \<circ> fst) (set ?ss)" "distinct ?ss"
        using d by (auto simp: distinct_map inj_on_def)
      show "set (map ?g ?js) = set ?ss" using rows(5) id by simp
    qed
    finally have "mset (map ?h (map ?g ?splits)) = mset (map ?h ?ss)" by (metis mset_map)
    moreover have "map ?h (map ?g ?splits) = map (\<lambda>s. (sp_Index s, sp_SrcToken s, sp_DstToken s)) (map (load_split dec) ?splits)"
      by (simp add: load_split_def split_def)
    moreover have "map ?h ?ss = map (\<lambda>s. (sr_index s, sr_src s, sr_dst s)) (splits_of db (trade_id_of trd))" by simp
    ultimately show ?thesis using stored by metis
  qed
  have wallet: "tl_wallet x = WalletAddress trd" by (simp add: x_def row_of_record_def fields)
  show "read_back contract trd (load_trade dec x ?js)"
    using amounts fees splits id
    by (simp add: read_back_def load_trade_def wallet trade_id_of_def) (simp add: x_def row_of_record_def fields)
qed

text \<open>A trade that was saved is in the answer of a query for its time.\<close>

lemma saved_trade_loads:
  assumes "SaveTradeLogs S (formatter_of contract) (Some cr) db = (db', logs', None)" "se_commit S = None" "db_ok db"
    and "distinct (map trade_id_of (cr_Trades cr))" "\<forall>trd\<in>set (cr_Trades cr). distinct (map fee_Index (Fees trd))"
    and "trade_id_of ` set (cr_Trades cr) \<inter> tradelog_ids db = {}"
    and "tokens_known contract dec db'" "order_ok Q" "trd \<in> set (cr_Trades cr)"
  shows "\<exists>logs. LoadTradeLogs None Q (formatter_of contract) fromTime toTime db' = Inr logs \<and>
    (if fromTime \<le> Timestamp trd \<and> Timestamp trd \<le> toTime \<and> trade_routes trd \<noteq> []
     then \<exists>l. filter (\<lambda>l. trade_id_of l = trade_id_of trd) logs = [l] \<and> read_back contract trd l
     else filter (\<lambda>l. trade_id_of l = trade_id_of trd) logs = [])"
proof -
  have ok: "db_ok db'" using SaveTradeLogs_db_ok [OF assms(1,3)] .
  from SaveTradeLogs_stored [OF assms(1-6)] assms(9) obtain r trd' b where
    r: "recordFromTradeLog (formatter_of contract) trd = (Inr r, trd')"
      "record_stored (formatter_of contract) (r\<lparr> r_IsFirstTrade := b \<rparr>) db'" by blast
  let ?x = "row_of_record (r\<lparr> r_IsFirstTrade := b \<rparr>)"
  have fields: "record_id (r\<lparr> r_IsFirstTrade := b \<rparr>) = trade_id_of trd" "tl_timestamp ?x = Timestamp trd"
    "split_routes (r\<lparr> r_IsFirstTrade := b \<rparr>) = trade_routes trd"
    using r(1)
    by (auto simp: recordFromTradeLog_def record_id_def trade_id_of_def go_bind_Inr_iff row_of_record_def
        split_routes_def trade_routes_def Let_def split: sum.splits prod.splits)
  have "size (mset (splits_of db' (trade_id_of trd))) = length (trade_routes trd)"
    using arg_cong [OF splits_stored_routes [OF r(2) ok], of size] by (simp add: fields)
  then have routes: "splits_of db' (trade_id_of trd) \<noteq> [] \<longleftrightarrow> trade_routes trd \<noteq> []" by auto
  have "filter (\<lambda>x. tl_id x = trade_id_of trd) (db_tradelogs db') = [?x]"
    using r(2) by (simp add: record_stored_def fields)
  from query_one [OF ok assms(7,8) this, of "\<lambda>x. fromTime \<le> tl_timestamp x \<and> tl_timestamp x \<le> toTime"]
  obtain logs where l: "LoadTradeLogs None Q (formatter_of contract) fromTime toTime db' = Inr logs"
    "filter (\<lambda>l. trade_id_of l = trade_id_of trd) logs =
      (if (fromTime \<le> Timestamp trd \<and> Timestamp trd \<le> toTime) \<and> trade_routes trd \<noteq> []
       then [load_trade dec ?x (qo_joins Q (joined db' ?x))] else [])"
    by (auto simp: LoadTradeLogs_def fields routes)
  have "distinct (map fee_Index (Fees trd))" using assms(5,9) by blast
  from record_read_back(1) [OF r ok assms(7,8) this] l show ?thesis by auto
qed

section \<open>Properties\<close>

text \<open>
  C14: Whatever a save has been called with and whatever has failed in it, it leaves the database well-formed:
  unique keys, references that lead somewhere, and splits with an amount. Nothing is assumed of the trades.
\<close>

theorem SaveTradeLogs_well_formed:
  assumes "db_ok db" "SaveTradeLogs S F r db = (db', logs, e)"
  shows "db_ok db'"
  using assms SaveTradeLogs_db_ok by blast

text \<open>
  C15: The trades of a save are read back: a query for a time that includes the trade, in whatever order the
  database fills its arrays, returns the trade once, with each fee once and each split once although the join
  multiplies them, with the text it had, and with its amounts up to the rounding of the floats. Two things
  are not read back: a trade without any split, which the inner join with the reserves drops, and the platform
  wallet of a fee, which comes back as the wallet of the trade.
\<close>

theorem SaveTradeLogs_LoadTradeLogs:
  assumes "SaveTradeLogs S (formatter_of contract) (Some cr) db = (db', logs', None)" "se_commit S = None" "db_ok db"
    and "distinct (map trade_id_of (cr_Trades cr))" "\<forall>trd\<in>set (cr_Trades cr). distinct (map fee_Index (Fees trd))"
    and "trade_id_of ` set (cr_Trades cr) \<inter> tradelog_ids db = {}"
    and "tokens_known contract dec db'" "order_ok Q" "trd \<in> set (cr_Trades cr)"
  shows "\<exists>logs. LoadTradeLogs None Q (formatter_of contract) fromTime toTime db' = Inr logs \<and>
    (if fromTime \<le> Timestamp trd \<and> Timestamp trd \<le> toTime \<and> trade_routes trd \<noteq> []
     then \<exists>l. filter (\<lambda>l. trade_id_of l = trade_id_of trd) logs = [l] \<and> read_back contract trd l
     else filter (\<lambda>l. trade_id_of l = trade_id_of trd) logs = [])"
  by (rule saved_trade_loads [OF assms])

section \<open>Concrete instances\<close>

definition sample_order :: query_order where "sample_order = \<lparr> qo_trades = rev, qo_joins = rev \<rparr>"

lemma empty_db_ok: "db_ok empty_db" by (simp add: db_ok_def empty_db_def)

theorem SaveTradeLogs_well_formed_witness:
  "\<exists>db logs. SaveTradeLogs no_errors sample_formatter (Some sample_result) empty_db = (db, logs, None) \<and> db_ok db"
  using sample_save SaveTradeLogs_well_formed [OF empty_db_ok] by blast

theorem SaveTradeLogs_LoadTradeLogs_witness:
  "\<exists>db logs l. SaveTradeLogs no_errors sample_formatter (Some sample_result) empty_db = (db, logs, None) \<and>
     (\<exists>ls. LoadTradeLogs None sample_order sample_formatter zero_time zero_time db = Inr ls \<and>
       filter (\<lambda>l. trade_id_of l = (900, 2)) ls = [l] \<and> read_back (\<lambda>a. Inr 18) (sample_stored_trade 2) l)"
proof -
  from sample_save obtain db logs where
    s: "SaveTradeLogs no_errors sample_formatter (Some sample_result) empty_db = (db, logs, None)" by blast
  have d: "distinct (map trade_id_of (cr_Trades sample_result))" unfolding sample_trades(3) by simp
  have fresh: "trade_id_of ` set (cr_Trades sample_result) \<inter> tradelog_ids empty_db = {}"
    by (simp add: tradelog_ids_def empty_db_def)
  have known: "tokens_known (\<lambda>a. Inr 18) (\<lambda>a. 18) db" by (simp add: tokens_known_def decimals_of_def)
  have order: "order_ok sample_order" by (simp add: order_ok_def sample_order_def)
  have trade: "sample_stored_trade 2 \<in> set (cr_Trades sample_result)" by (simp add: sample_result_def)
  have "Timestamp (sample_stored_trade 2) = zero_time" "trade_id_of (sample_stored_trade 2) = (900, 2)"
    "trade_routes (sample_stored_trade 2) \<noteq> []"
    by (simp_all add: sample_stored_trade_def trade_id_of_def trade_routes_def zero_values ETHAddr_def)
  with SaveTradeLogs_LoadTradeLogs [OF s _ empty_db_ok d sample_trades(4) fresh known order trade, of zero_time zero_time] s
  show ?thesis by (auto simp: no_errors_def)
qed

end
