(* ===== verification/BlockTime.thy ===== *)
theory BlockTime
  imports Prelude "HOL-Library.Multiset"
begin

text \<open>
  \<open>lib/blockchain/block_time.go\<close>: the resolver of block times with its cache of headers. A call of
  \<open>Resolve\<close> reads the cache under the read lock and, after a miss, fills it under the write lock; other
  goroutines can run between the two, so the two critical sections are two steps. The node is a
  parameter: what \<open>HeaderByNumber\<close> returns, a header (its time, in seconds) and an error.
\<close>

section \<open>The resolver\<close>

record block_cache =
  cachedHeaders :: "nat \<rightharpoonup> nat"
  cachedIndices :: "nat list"
  maxCachedBlocks :: nat

definition NewBlockTimeResolver :: block_cache where
  "NewBlockTimeResolver =
     \<lparr> cachedHeaders = (\<lambda>_. None), cachedIndices = [], maxCachedBlocks = 10 \<rparr>"

type_synonym header_result = "nat option \<times> go_err option"

text \<open>\<open>time.Unix(int64(header.Time), 0)\<close>.\<close>

definition header_time :: "nat \<Rightarrow> gotime" where
  "header_time h = i64 (int h) * Second"

definition resolve_lookup :: "block_cache \<Rightarrow> nat \<Rightarrow> gotime option" where
  "resolve_lookup c b = map_option header_time (cachedHeaders c b)"

definition purge_oldest :: "block_cache \<Rightarrow> block_cache go" where
  "purge_oldest c =
     (if card (dom (cachedHeaders c)) \<ge> maxCachedBlocks c then
        (case cachedIndices c of
           [] \<Rightarrow> Inl (Panic ''index out of range'')
         | oldest # rest \<Rightarrow>
             Inr (c\<lparr> cachedIndices := rest, cachedHeaders := (cachedHeaders c)(oldest := None) \<rparr>))
      else Inr c)"

definition resolve_fill :: "block_cache \<Rightarrow> nat \<Rightarrow> header_result \<Rightarrow> block_cache \<times> gotime go" where
  "resolve_fill c b res =
     (case res of
        (None, Some e) \<Rightarrow> (c, Inl e)
      | (None, None) \<Rightarrow> (c, Inl (Panic ''nil header''))
      | (Some header, _) \<Rightarrow>
          (case purge_oldest c of
             Inl e \<Rightarrow> (c, Inl e)
           | Inr c' \<Rightarrow>
               (c'\<lparr> cachedIndices := sort (cachedIndices c' @ [b]),
                    cachedHeaders := (cachedHeaders c')(b \<mapsto> header) \<rparr>,
                Inr (header_time header))))"

text \<open>A call that nobody interrupts.\<close>

definition resolve_block :: "(nat \<Rightarrow> header_result) \<Rightarrow> block_cache \<Rightarrow> nat \<Rightarrow> block_cache \<times> gotime go" where
  "resolve_block node c b =
     (case resolve_lookup c b of
        Some t \<Rightarrow> (c, Inr t)
      | None \<Rightarrow> resolve_fill c b (node b))"

text \<open>
  Interleaved calls: a fill of block \<open>b\<close> happens some time after a lookup that missed, when \<open>b\<close> may
  have been cached meanwhile. Lookups do not change the cache, so a history of the cache is a sequence
  of fills, of any blocks.
\<close>

fun fills :: "(nat \<Rightarrow> header_result) \<Rightarrow> nat list \<Rightarrow> block_cache \<Rightarrow> block_cache" where
  "fills node [] c = c"
| "fills node (b # bs) c = fills node bs (fst (resolve_fill c b (node b)))"

fun resolves :: "(nat \<Rightarrow> header_result) \<Rightarrow> nat list \<Rightarrow> block_cache \<Rightarrow> block_cache \<times> gotime go list" where
  "resolves node [] c = (c, [])"
| "resolves node (b # bs) c =
     (let (c', t) = resolve_block node c b; (c'', ts) = resolves node bs c' in (c'', t # ts))"

section \<open>Invariants\<close>

text \<open>What the node reports for a block, without the cache.\<close>

definition node_time :: "(nat \<Rightarrow> header_result) \<Rightarrow> nat \<Rightarrow> gotime go" where
  "node_time node b = (case node b of
     (Some h, _) \<Rightarrow> Inr (header_time h)
   | (None, Some e) \<Rightarrow> Inl e
   | (None, None) \<Rightarrow> Inl (Panic ''nil header''))"

definition cache_ok :: "(nat \<Rightarrow> header_result) \<Rightarrow> block_cache \<Rightarrow> bool" where
  "cache_ok node c \<longleftrightarrow> sorted (cachedIndices c) \<and> 0 < maxCachedBlocks c \<and>
     dom (cachedHeaders c) \<subseteq> set (cachedIndices c) \<and>
     (\<forall>b h. cachedHeaders c b = Some h \<longrightarrow> fst (node b) = Some h)"

definition cache_tight :: "block_cache \<Rightarrow> bool" where
  "cache_tight c \<longleftrightarrow> distinct (cachedIndices c) \<and> dom (cachedHeaders c) = set (cachedIndices c) \<and>
     length (cachedIndices c) \<le> maxCachedBlocks c"

lemma cache_ok_new: "cache_ok node NewBlockTimeResolver"
  by (simp add: cache_ok_def NewBlockTimeResolver_def)

lemma cache_tight_new: "cache_tight NewBlockTimeResolver"
  by (simp add: cache_tight_def NewBlockTimeResolver_def)

lemma cache_ok_card:
  assumes "cache_ok node c"
  shows "card (dom (cachedHeaders c)) \<le> length (cachedIndices c)"
proof -
  have "card (dom (cachedHeaders c)) \<le> card (set (cachedIndices c))"
    using assms by (intro card_mono) (auto simp: cache_ok_def)
  also have "\<dots> \<le> length (cachedIndices c)" by (rule card_length)
  finally show ?thesis .
qed

lemma purge_ok:
  assumes "cache_ok node c"
  obtains c' where "purge_oldest c = Inr c'" "cache_ok node c'"
    "set (cachedIndices c') \<subseteq> set (cachedIndices c)" "maxCachedBlocks c' = maxCachedBlocks c"
proof (cases "card (dom (cachedHeaders c)) \<ge> maxCachedBlocks c")
  case False
  with assms that [of c] show ?thesis by (simp add: purge_oldest_def)
next
  case True
  then have "0 < length (cachedIndices c)"
    using cache_ok_card [OF assms] assms unfolding cache_ok_def by linarith
  then obtain x xs where xs: "cachedIndices c = x # xs" by (cases "cachedIndices c") auto
  let ?c = "c\<lparr> cachedIndices := xs, cachedHeaders := (cachedHeaders c)(x := None) \<rparr>"
  have "cache_ok node ?c" using assms xs by (auto simp: cache_ok_def)
  moreover have "purge_oldest c = Inr ?c" using True xs by (simp add: purge_oldest_def)
  ultimately show ?thesis using that [of ?c] xs by auto
qed

lemma fill_ok:
  assumes "cache_ok node c"
  shows "cache_ok node (fst (resolve_fill c b (node b))) \<and>
    snd (resolve_fill c b (node b)) = node_time node b"
proof -
  obtain c' where p: "purge_oldest c = Inr c'" "cache_ok node c'" using assms by (rule purge_ok)
  show ?thesis
  proof (cases "fst (node b)")
    case None
    then show ?thesis using assms
      by (cases "node b"; cases "snd (node b)") (auto simp: resolve_fill_def node_time_def)
  next
    case (Some h)
    then show ?thesis using p
      by (cases "node b") (auto simp: resolve_fill_def node_time_def cache_ok_def)
  qed
qed

lemma lookup_ok: "cache_ok node c \<Longrightarrow> resolve_lookup c b = Some t \<Longrightarrow> node_time node b = Inr t"
  by (cases "node b") (force simp: resolve_lookup_def cache_ok_def node_time_def)

lemma resolve_block_ok:
  "cache_ok node c \<Longrightarrow> cache_ok node (fst (resolve_block node c b)) \<and>
     snd (resolve_block node c b) = node_time node b"
  using fill_ok [of node c b] lookup_ok [of node c b]
  by (auto simp: resolve_block_def split: option.split)

lemma tight_resolve:
  assumes "cache_tight c" "0 < maxCachedBlocks c"
  shows "cache_tight (fst (resolve_block node c b)) \<and>
    maxCachedBlocks (fst (resolve_block node c b)) = maxCachedBlocks c"
proof (cases "cachedHeaders c b")
  case (Some h)
  with assms show ?thesis by (simp add: resolve_block_def resolve_lookup_def)
next
  case None
  have card: "card (dom (cachedHeaders c)) = length (cachedIndices c)"
    using assms by (simp add: cache_tight_def distinct_card)
  show ?thesis
  proof (cases "fst (node b)")
    case no: None
    with None assms show ?thesis
      by (cases "node b"; cases "snd (node b)")
        (auto simp: resolve_block_def resolve_lookup_def resolve_fill_def)
  next
    case (Some h)
    then obtain e where node: "node b = (Some h, e)" by (cases "node b") auto
    have b: "b \<notin> set (cachedIndices c)" using None assms by (auto simp: cache_tight_def)
    show ?thesis
    proof (cases "cachedIndices c")
      case Nil
      with assms None node card show ?thesis
        by (auto simp: resolve_block_def resolve_lookup_def resolve_fill_def purge_oldest_def
            cache_tight_def)
    next
      case (Cons x xs)
      with assms None node card b show ?thesis
        by (auto simp: resolve_block_def resolve_lookup_def resolve_fill_def purge_oldest_def
            cache_tight_def set_insort_key distinct_insort)
    qed
  qed
qed

section \<open>Properties\<close>

text \<open>
  Whatever the interleaving of the calls, a call of \<open>Resolve\<close> returns what the node reports for
  the block, whether it finds the block in the cache or fills it, and never panics on the list of
  cached indices; after a success the block is in the cache.
\<close>

theorem resolve_returns_node_time:
  "let c = fills node bs NewBlockTimeResolver in
     snd (resolve_block node c b) = node_time node b \<and>
     snd (resolve_fill c b (node b)) = node_time node b \<and>
     (case node_time node b of
        Inr t \<Rightarrow> resolve_lookup (fst (resolve_fill c b (node b))) b = Some t
      | Inl e \<Rightarrow> fst (resolve_fill c b (node b)) = c)"
proof -
  define c where "c = fills node bs NewBlockTimeResolver"
  have "cache_ok node d \<Longrightarrow> cache_ok node (fills node bs d)" for d
    by (induction bs arbitrary: d) (simp_all add: fill_ok)
  then have ok: "cache_ok node c" using c_def cache_ok_new by blast
  obtain c' where "purge_oldest c = Inr c'" using ok by (rule purge_ok)
  then show ?thesis
    unfolding c_def [symmetric] Let_def
    using resolve_block_ok [OF ok, of b] fill_ok [OF ok, of b]
    by (cases "node b")
      (auto simp: node_time_def resolve_fill_def resolve_lookup_def split: option.splits)
qed

text \<open>
  C25: With one caller the cache never holds more than \<open>maxCachedBlocks\<close> headers, one index for each,
  and every call returns what the node reports.
\<close>

theorem resolves_bounded:
  "(case resolves node bs NewBlockTimeResolver of (c, ts) \<Rightarrow>
      ts = map (node_time node) bs \<and> cache_tight c \<and> card (dom (cachedHeaders c)) \<le> 10)"
proof -
  have "case resolves node bs c of (d, ts) \<Rightarrow>
      ts = map (node_time node) bs \<and> cache_tight d \<and> maxCachedBlocks d = maxCachedBlocks c"
    if "cache_ok node c" "cache_tight c" "0 < maxCachedBlocks c" for c
    using that
  proof (induction bs arbitrary: c)
    case Nil
    then show ?case by simp
  next
    case (Cons b bs)
    obtain d t where d: "resolve_block node c b = (d, t)" by (cases "resolve_block node c b")
    with resolve_block_ok [OF Cons.prems(1), of b] tight_resolve [OF Cons.prems(2,3), of node b]
      Cons.prems(3) Cons.IH [of d]
    show ?case by (auto simp: split_beta)
  qed
  from this [OF cache_ok_new cache_tight_new] show ?thesis
    by (auto simp: split_beta cache_tight_def distinct_card NewBlockTimeResolver_def)
qed

text \<open>
  With several callers the bound does not hold. When two goroutines miss the same block and both
  fill it, its index is recorded twice; the header is deleted with the first index, the second purge
  deletes nothing, and from then on the cache keeps eleven headers.
\<close>

theorem double_fill_breaks_bound:
  "card (dom (cachedHeaders (fills (\<lambda>b. (Some b, None)) (1 # [1..<13]) NewBlockTimeResolver))) = 11"
proof -
  let ?node = "\<lambda>b. (Some b, None) :: header_result"
  have step: "resolve_fill \<lparr> cachedHeaders = f, cachedIndices = is, maxCachedBlocks = 10 \<rparr> b (?node b) =
      (if card (dom f) \<ge> 10 \<and> is \<noteq> [] then
         \<lparr> cachedHeaders = (f(hd is := None))(b \<mapsto> b), cachedIndices = sort (tl is @ [b]),
           maxCachedBlocks = 10 \<rparr>
       else \<lparr> cachedHeaders = f(b \<mapsto> b), cachedIndices = sort (is @ [b]), maxCachedBlocks = 10 \<rparr>,
       Inr (header_time b))" if "card (dom f) < 10 \<or> is \<noteq> []" for f b "is"
    using that by (cases "is") (auto simp: resolve_fill_def purge_oldest_def)
  have list: "1 # [1..<13] = [1, 1, 2, 3, 4, 5, 6, 7, 8, 9, 10, 11, 12::nat]"
    by (simp add: upt_rec)
  show ?thesis
    unfolding list NewBlockTimeResolver_def
    by (simp add: step)
qed

end
