(* ===== verification/LastBlock.thy ===== *)
theory LastBlock
  imports BlockTime
begin

text \<open>
  \<open>lib/lastblockdaily\<close>: finding the last block of every day. The resolver of block times is a
  parameter, the function of block numbers that \<open>BlockTimeResolver\<close> computes; the storage is an
  interface (a record of operations over a state), with its PostgreSQL implementation below. Days are
  days of UTC, as everywhere in the source.
\<close>

section \<open>Definitions\<close>

record BlockInfo =
  bi_Block :: nat
  bi_Timestamp :: gotime

definition avgBlock :: duration where "avgBlock = 15 * Second"

definition blockStep :: nat where "blockStep = 200"

definition firstBlock :: BlockInfo where
  "firstBlock = \<lparr> bi_Block = 5000000, bi_Timestamp = TimestampMsToTime 1517319693000 \<rparr>"

definition BlockInfo0 :: BlockInfo where
  "BlockInfo0 = \<lparr> bi_Block = 0, bi_Timestamp = zero_time \<rparr>"

definition nextDay :: "gotime \<Rightarrow> gotime" where
  "nextDay t = t + Day"

definition isSameDay :: "gotime \<Rightarrow> gotime \<Rightarrow> bool" where
  "isSameDay t1 t2 \<longleftrightarrow> Midnight t1 = Midnight t2"

definition isNextDay :: "gotime \<Rightarrow> gotime \<Rightarrow> bool" where
  "isNextDay t1 t2 \<longleftrightarrow> nextDay (Midnight t1) = Midnight t2"

text \<open>The loop of \<open>nextDayBlock\<close>; \<open>None\<close> is a loop that does not end.\<close>

partial_function (option) scan_days ::
  "(nat \<Rightarrow> gotime go) \<Rightarrow> gotime \<Rightarrow> nat \<Rightarrow> BlockInfo go option" where
  "scan_days resolve current next =
     (case resolve next of
        Inl e \<Rightarrow> Some (Inl e)
      | Inr t \<Rightarrow>
          if t < current \<or> isSameDay current t then scan_days resolve current (u64_add next blockStep)
          else if isNextDay current t then Some (Inr \<lparr> bi_Block = next, bi_Timestamp = t \<rparr>)
          else scan_days resolve current (u64_sub next blockStep))"

definition nextDayBlock :: "(nat \<Rightarrow> gotime go) \<Rightarrow> gotime \<Rightarrow> BlockInfo \<Rightarrow> BlockInfo go option" where
  "nextDayBlock resolve current known0 =
     (let known = (if bi_Block known0 = 0 then firstBlock else known0) in
      if current < bi_Timestamp known then Some (Inl (Err ''start time is too old''))
      else
        let estimatedBlocks = u64 (go_div (time_Sub (nextDay current) (bi_Timestamp known)) avgBlock)
        in scan_days resolve current (u64_add (bi_Block known) estimatedBlocks))"

partial_function (option) searchLastBlock ::
  "(nat \<Rightarrow> gotime go) \<Rightarrow> BlockInfo \<Rightarrow> BlockInfo \<Rightarrow> BlockInfo go option" where
  "searchLastBlock resolve start stop =
     (if bi_Block start = bi_Block stop \<or> u64_sub (bi_Block stop) (bi_Block start) = 1
      then Some (Inr start)
      else
        let midBlockNum = u64_add (bi_Block start) (bi_Block stop) div 2 in
        (case resolve midBlockNum of
           Inl e \<Rightarrow> Some (Inl e)
         | Inr t \<Rightarrow>
             let mid = \<lparr> bi_Block = midBlockNum, bi_Timestamp = t \<rparr> in
             if isSameDay t (bi_Timestamp stop) then searchLastBlock resolve start mid
             else searchLastBlock resolve mid stop))"

text \<open>\<open>storage.Interface\<close>.\<close>

record 'db block_db =
  GetBlockInfo :: "'db \<Rightarrow> gotime \<Rightarrow> BlockInfo go"
  UpdateBlockInfo :: "'db \<Rightarrow> BlockInfo \<Rightarrow> 'db \<times> go_err option"

definition sql_ErrNoRows :: go_err where "sql_ErrNoRows = Err ''sql: no rows in result set''"

record 'db resolver =
  LastResolved :: BlockInfo
  lr_db :: 'db

type_synonym 'db resolved = "'db resolver \<times> BlockInfo \<times> go_err option"

definition fail :: "'db resolver \<Rightarrow> go_err \<Rightarrow> 'db resolved option" where
  "fail st e = Some (st, BlockInfo0, Some e)"

text \<open>
  The common end of \<open>Next\<close> and \<open>Resolve\<close>: search between \<open>start\<close> and a block of the next day, store
  the result, and remember it unless storing it fails.
\<close>

definition search_and_store :: "'db block_db \<Rightarrow> (nat \<Rightarrow> gotime go) \<Rightarrow> gotime \<Rightarrow> BlockInfo
    \<Rightarrow> 'db resolver \<Rightarrow> 'db resolved option" where
  "search_and_store S resolve current start st =
     (case nextDayBlock resolve current start of
        None \<Rightarrow> None
      | Some (Inl e) \<Rightarrow> fail st e
      | Some (Inr stop) \<Rightarrow>
          (case searchLastBlock resolve start stop of
             None \<Rightarrow> None
           | Some (Inl e) \<Rightarrow> fail st e
           | Some (Inr lastBlock) \<Rightarrow>
               (case UpdateBlockInfo S (lr_db st) lastBlock of
                  (db, Some e) \<Rightarrow> Some (st\<lparr> lr_db := db \<rparr>, lastBlock, Some e)
                | (db, None) \<Rightarrow>
                    Some (st\<lparr> lr_db := db, LastResolved := lastBlock \<rparr>, lastBlock, None))))"

definition resolver_Next :: "'db block_db \<Rightarrow> (nat \<Rightarrow> gotime go) \<Rightarrow> 'db resolver \<Rightarrow> 'db resolved option" where
  "resolver_Next S resolve st =
     (if bi_Block (LastResolved st) = 0 then
        fail st (Err ''no last resolved block to call Next()'')
      else
        (case GetBlockInfo S (lr_db st) (nextDay (bi_Timestamp (LastResolved st))) of
           Inr info \<Rightarrow> Some (st\<lparr> LastResolved := info \<rparr>, info, None)
         | Inl e \<Rightarrow>
             if e \<noteq> sql_ErrNoRows then fail st e
             else
               let block = u64_add (bi_Block (LastResolved st)) 1 in
               (case resolve block of
                  Inl e \<Rightarrow> fail st e
                | Inr t \<Rightarrow> search_and_store S resolve t \<lparr> bi_Block = block, bi_Timestamp = t \<rparr> st)))"

definition resolver_Resolve :: "'db block_db \<Rightarrow> (nat \<Rightarrow> gotime go) \<Rightarrow> gotime \<Rightarrow> 'db resolver
    \<Rightarrow> 'db resolved option" where
  "resolver_Resolve S resolve date st =
     (case GetBlockInfo S (lr_db st) date of
        Inr info \<Rightarrow> Some (st\<lparr> LastResolved := info \<rparr>, info, None)
      | Inl e \<Rightarrow>
          if e \<noteq> sql_ErrNoRows then fail st e
          else
            let start = (if bi_Block (LastResolved st) > bi_Block firstBlock \<and>
                            bi_Timestamp (LastResolved st) < date
                         then LastResolved st else firstBlock)
            in search_and_store S resolve date start st)"

text \<open>\<open>Run\<close>: one pass of its loop, with what it sends to the two channels and whether it goes on.\<close>

datatype lbr_send = SendResult BlockInfo | SendError go_err

definition NotFound :: go_err where "NotFound = Err ''not found''"

definition run_pass :: "'db block_db \<Rightarrow> (nat \<Rightarrow> gotime go) \<Rightarrow> gotime \<Rightarrow> gotime \<Rightarrow> 'db resolver
    \<Rightarrow> ('db resolver \<times> lbr_send list \<times> bool) option" where
  "run_pass S resolve from to st =
     (case (if bi_Block (LastResolved st) = 0 then resolver_Resolve S resolve from st
            else resolver_Next S resolve st) of
        None \<Rightarrow> None
      | Some (st', info, Some e) \<Rightarrow> Some (st', [SendError e], False)
      | Some (st', info, None) \<Rightarrow>
          Some (st', SendResult info # (if to < bi_Timestamp info then [SendError NotFound] else []), True))"

text \<open>
  \<open>Run\<close> together with its reader, the loop of \<open>Fetcher.Fetch\<close> in
  \<open>accounting/reserve-rate/fetcher/fetcher.go\<close>, which stops reading at the first error. \<open>Run\<close> does not
  leave its loop after it has sent \<open>NotFound\<close>: it makes one more pass, and then blocks for ever on a
  channel that nobody reads. The result is the state in which the resolver is left, the blocks
  received and the error; \<open>n\<close> bounds the number of passes.
\<close>

fun run_read :: "'db block_db \<Rightarrow> (nat \<Rightarrow> gotime go) \<Rightarrow> gotime \<Rightarrow> gotime \<Rightarrow> nat \<Rightarrow> 'db resolver
    \<Rightarrow> ('db resolver \<times> BlockInfo list \<times> go_err) option" where
  "run_read S resolve from to 0 st = None"
| "run_read S resolve from to (Suc n) st =
     (case run_pass S resolve from to st of
        None \<Rightarrow> None
      | Some (st', [SendError e], _) \<Rightarrow> Some (st', [], e)
      | Some (st', [SendResult info, SendError e], _) \<Rightarrow>
          (case run_pass S resolve from to st' of
             None \<Rightarrow> None
           | Some (st'', _) \<Rightarrow> Some (st'', [info], e))
      | Some (st', SendResult info # _, _) \<Rightarrow>
          map_option (\<lambda>(st'', infos, e). (st'', info # infos, e)) (run_read S resolve from to n st')
      | Some (st', _, _) \<Rightarrow> None)"

section \<open>The PostgreSQL storage\<close>

text \<open>
  The table \<open>block_info\<close>, one row for each block. \<open>GetBlockInfo\<close> selects one of the rows strictly
  inside the day (\<open>Limit 1\<close>), the first here; \<open>UpdateBlockInfo\<close> does nothing on a conflict.
\<close>

definition pg_GetBlockInfo :: "BlockInfo list \<Rightarrow> gotime \<Rightarrow> BlockInfo go" where
  "pg_GetBlockInfo rows atTime =
     (case filter (\<lambda>r. Midnight atTime < bi_Timestamp r \<and> bi_Timestamp r < Midnight atTime + Day) rows of
        [] \<Rightarrow> Inl sql_ErrNoRows
      | r # _ \<Rightarrow> Inr r)"

definition pg_UpdateBlockInfo :: "BlockInfo list \<Rightarrow> BlockInfo \<Rightarrow> BlockInfo list \<times> go_err option" where
  "pg_UpdateBlockInfo rows info =
     (if bi_Block info \<in> set (map bi_Block rows) then (rows, None) else (rows @ [info], None))"

definition BlockInfoStorage :: "BlockInfo list block_db" where
  "BlockInfoStorage = \<lparr> GetBlockInfo = pg_GetBlockInfo, UpdateBlockInfo = pg_UpdateBlockInfo \<rparr>"

end
