(* ===== verification/LastBlockProps.thy ===== *)
theory LastBlockProps
  imports LastBlock
begin

text \<open>
  The resolver of last blocks finds, for every day, the block after which the next day begins; what
  \<open>Next\<close> returns is the last block of the day after the last one resolved; and the leftover pass of
  \<open>Run\<close> makes the reader of the next \<open>Run\<close> miss a day.
\<close>

section \<open>The chain\<close>

text \<open>
  \<open>T\<close> is the time of every block: it does not decrease, two blocks \<open>blockStep\<close> apart are never more
  than one day apart (the assumption that the source states at \<open>blockStep\<close>), the chain goes on for
  ever, and the block \<open>firstBlock\<close> has the time the source gives. Block numbers stay below \<open>2 ^ 61\<close>.
\<close>

definition chain_ok :: "(nat \<Rightarrow> gotime go) \<Rightarrow> (nat \<Rightarrow> gotime) \<Rightarrow> bool" where
  "chain_ok resolve T \<longleftrightarrow> (\<forall>b. resolve b = Inr (T b)) \<and> (\<forall>b c. b \<le> c \<longrightarrow> T b \<le> T c) \<and>
     (\<forall>b. Midnight (T (b + blockStep)) \<le> Midnight (T b) + Day) \<and>
     T (bi_Block firstBlock) = bi_Timestamp firstBlock"

lemma chain_resolve: "chain_ok resolve T \<Longrightarrow> resolve b = Inr (T b)"
  by (simp add: chain_ok_def)

lemma chain_mono: "chain_ok resolve T \<Longrightarrow> b \<le> c \<Longrightarrow> Midnight (T b) \<le> Midnight (T c)"
  by (simp add: chain_ok_def Midnight_mono)

lemma chain_step: "chain_ok resolve T \<Longrightarrow> Midnight (T (b + blockStep)) \<le> Midnight (T b) + Day"
  by (simp add: chain_ok_def)

lemma chain_Suc: "chain_ok resolve T \<Longrightarrow> Midnight (T (Suc b)) \<le> Midnight (T b) + Day"
  using chain_mono [of resolve T "Suc b" "b + blockStep"] chain_step [of resolve T b]
  by (simp add: blockStep_def)

lemma Midnight_less_Day: "Midnight s < Midnight t \<Longrightarrow> Midnight s + Day \<le> Midnight t"
proof -
  assume "Midnight s < Midnight t"
  then have "Day * (s div Day) < Day * (t div Day)" by (simp add: Midnight_eq_day)
  moreover have "0 < Day" by (simp add: go_defs)
  ultimately have "s div Day + 1 \<le> t div Day" by simp
  then have "Day * (s div Day + 1) \<le> Day * (t div Day)"
    using \<open>0 < Day\<close> by (intro mult_left_mono) simp_all
  then show ?thesis by (simp add: Midnight_eq_day distrib_left)
qed

lemma Midnight_add_Day: "Midnight (t + Day) = Midnight t + Day"
  by (simp add: Midnight_def)

lemma before_or_same:
  "(t < current \<or> isSameDay current t) \<longleftrightarrow> Midnight t \<le> Midnight current"
proof
  assume "t < current \<or> isSameDay current t"
  then show "Midnight t \<le> Midnight current" using Midnight_mono [of t current] by (auto simp: isSameDay_def)
next
  assume "Midnight t \<le> Midnight current"
  then show "t < current \<or> isSameDay current t"
    using Midnight_mono [of current t] by (cases "t < current") (auto simp: isSameDay_def)
qed

text \<open>The last block of the day that starts at \<open>d\<close>.\<close>

definition last_of_day :: "(nat \<Rightarrow> gotime) \<Rightarrow> gotime \<Rightarrow> BlockInfo \<Rightarrow> bool" where
  "last_of_day T d i \<longleftrightarrow> bi_Timestamp i = T (bi_Block i) \<and> Midnight (T (bi_Block i)) = d \<and>
     d < Midnight (T (Suc (bi_Block i)))"

lemma last_of_day_unique:
  assumes "chain_ok resolve T" "last_of_day T d i" "last_of_day T d j"
  shows "i = j"
proof -
  have "\<not> bi_Block i < bi_Block j" if "last_of_day T d i" "last_of_day T d j" for i j
    using chain_mono [OF assms(1), of "Suc (bi_Block i)" "bi_Block j"] that
    by (auto simp: last_of_day_def)
  from this [OF assms(2,3)] this [OF assms(3,2)] have "bi_Block i = bi_Block j" by simp
  with assms(2,3) show ?thesis by (simp add: last_of_day_def)
qed

section \<open>nextDayBlock\<close>

lemma scan_step:
  assumes "chain_ok resolve T" "nx + blockStep < 2 ^ 63"
  shows "scan_days resolve current nx =
    (if Midnight (T nx) \<le> Midnight current then scan_days resolve current (nx + blockStep)
     else if Midnight (T nx) = Midnight current + Day
     then Some (Inr \<lparr> bi_Block = nx, bi_Timestamp = T nx \<rparr>)
     else scan_days resolve current (u64_sub nx blockStep))"
  using assms
  by (subst scan_days.simps)
    (auto simp: chain_resolve before_or_same u64_add_id isNextDay_def nextDay_def)

definition next_day_block :: "(nat \<Rightarrow> gotime) \<Rightarrow> gotime \<Rightarrow> BlockInfo \<Rightarrow> bool" where
  "next_day_block T current i \<longleftrightarrow>
     bi_Timestamp i = T (bi_Block i) \<and> Midnight (T (bi_Block i)) = Midnight current + Day"

lemma scan_down:
  assumes chain: "chain_ok resolve T" and known: "Midnight (T known) \<le> Midnight current"
  shows "Midnight current < Midnight (T nx) \<Longrightarrow> nx + blockStep < 2 ^ 63 \<Longrightarrow>
    \<exists>i. scan_days resolve current nx = Some (Inr i) \<and> next_day_block T current i \<and> bi_Block i \<le> nx"
proof (induction nx rule: less_induct)
  case (less nx)
  show ?case
  proof (cases "Midnight (T nx) = Midnight current + Day")
    case True
    with less.prems scan_step [OF chain less.prems(2)] show ?thesis
      by (auto simp: next_day_block_def)
  next
    case False
    with less.prems(1) Midnight_less_Day have later: "Midnight current + Day < Midnight (T nx)"
      by force
    have "known + blockStep < nx"
    proof (rule ccontr)
      assume "\<not> known + blockStep < nx"
      then have "Midnight (T nx) \<le> Midnight (T known) + Day"
        using chain_mono [OF chain, of nx "known + blockStep"] chain_step [OF chain, of known] by simp
      with later known show False by simp
    qed
    then have sub: "u64_sub nx blockStep = nx - blockStep" "nx - blockStep + blockStep = nx"
      "nx - blockStep < nx"
      using less.prems(2) by (simp_all add: u64_sub_id blockStep_def)
    have "Midnight current < Midnight (T (nx - blockStep))"
      using chain_step [OF chain, of "nx - blockStep"] sub(2) later by simp
    with less.IH [OF sub(3)] less.prems(2) sub obtain i where
      "scan_days resolve current (nx - blockStep) = Some (Inr i)" "next_day_block T current i"
      "bi_Block i \<le> nx - blockStep" by auto
    with scan_step [OF chain less.prems(2)] less.prems(1) False sub show ?thesis by auto
  qed
qed

lemma scan_any:
  assumes chain: "chain_ok resolve T" and known: "Midnight (T known) \<le> Midnight current"
    and late: "Midnight current < Midnight (T late)"
  shows "nx + blockStep < 2 ^ 62 \<Longrightarrow> late + 2 * blockStep < 2 ^ 62 \<Longrightarrow>
    \<exists>i. scan_days resolve current nx = Some (Inr i) \<and> next_day_block T current i \<and> bi_Block i < 2 ^ 62"
proof (induction "late - nx" arbitrary: nx rule: less_induct)
  case less
  show ?case
  proof (cases "Midnight (T nx) \<le> Midnight current")
    case False
    with scan_down [OF chain known, of nx] less.prems show ?thesis by auto
  next
    case True
    then have lt: "nx < late"
      using late chain_mono [OF chain, of late nx] by (cases "nx < late") auto
    have s: "scan_days resolve current nx = scan_days resolve current (nx + blockStep)"
      using scan_step [OF chain, of nx] True less.prems by simp
    show ?thesis
    proof (cases "nx + blockStep < late")
      case True
      with less.hyps [of "nx + blockStep"] less.prems lt s show ?thesis by (simp add: blockStep_def)
    next
      case False
      then have "Midnight current < Midnight (T (nx + blockStep))"
        using late chain_mono [OF chain, of late "nx + blockStep"] by simp
      with scan_down [OF chain known, of "nx + blockStep"] less.prems lt s show ?thesis
        by (auto simp: blockStep_def)
    qed
  qed
qed

lemma estimate_small: "u64 (go_div (time_Sub a b) avgBlock) < 2 ^ 61" if "b \<le> a"
proof -
  have "0 \<le> time_Sub a b" "time_Sub a b \<le> 2 ^ 63" using that by (auto simp: time_Sub_def)
  then have "0 \<le> time_Sub a b div avgBlock" "time_Sub a b div avgBlock < 2 ^ 61"
    by (auto simp: avgBlock_def go_defs)
  then show ?thesis
    using \<open>0 \<le> time_Sub a b\<close> by (simp add: go_div_nonneg avgBlock_def go_defs u64_id nat_less_iff)
qed

lemma nextDayBlock_finds:
  assumes chain: "chain_ok resolve T" and known: "bi_Block known \<noteq> 0" "bi_Block known < 2 ^ 60"
      "bi_Timestamp known = T (bi_Block known)" "bi_Timestamp known \<le> current"
    and late: "Midnight current < Midnight (T late)" "late < 2 ^ 61"
  shows "\<exists>i. nextDayBlock resolve current known = Some (Inr i) \<and> next_day_block T current i \<and>
    bi_Block i < 2 ^ 62"
proof -
  let ?e = "u64 (go_div (time_Sub (nextDay current) (bi_Timestamp known)) avgBlock)"
  have e: "?e < 2 ^ 61" using known(4) by (intro estimate_small) (simp add: nextDay_def go_defs)
  then have "u64_add (bi_Block known) ?e = bi_Block known + ?e" using known(2) by (intro u64_add_id) simp
  moreover have "\<exists>i. scan_days resolve current (bi_Block known + ?e) = Some (Inr i) \<and>
      next_day_block T current i \<and> bi_Block i < 2 ^ 62"
    using scan_any [OF chain Midnight_mono late(1), of "bi_Block known" "bi_Block known + ?e"] known e late(2)
    by (simp add: blockStep_def)
  ultimately show ?thesis using known by (simp add: nextDayBlock_def)
qed

section \<open>searchLastBlock\<close>

lemma searchLastBlock_finds:
  assumes chain: "chain_ok resolve T"
  shows "bi_Block s < bi_Block e \<Longrightarrow> bi_Block e < 2 ^ 62 \<Longrightarrow> bi_Timestamp s = T (bi_Block s) \<Longrightarrow>
    bi_Timestamp e = T (bi_Block e) \<Longrightarrow> Midnight (T (bi_Block s)) < Midnight (T (bi_Block e)) \<Longrightarrow>
    \<exists>r. searchLastBlock resolve s e = Some (Inr r) \<and> bi_Block s \<le> bi_Block r \<and>
      bi_Timestamp r = T (bi_Block r) \<and> Midnight (T (bi_Block r)) < Midnight (T (bi_Block e)) \<and>
      Midnight (T (Suc (bi_Block r))) = Midnight (T (bi_Block e))"
proof (induction "bi_Block e - bi_Block s" arbitrary: s e rule: less_induct)
  case less
  have sub: "u64_sub (bi_Block e) (bi_Block s) = bi_Block e - bi_Block s"
    using less.prems by (intro u64_sub_id) auto
  show ?case
  proof (cases "bi_Block e - bi_Block s = 1")
    case True
    then have "Suc (bi_Block s) = bi_Block e" using less.prems(1) by simp
    with less.prems True sub show ?thesis
      by (subst searchLastBlock.simps) (auto intro!: exI [of _ s])
  next
    case False
    define m where "m = (bi_Block s + bi_Block e) div 2"
    have m: "bi_Block s < m" "m < bi_Block e" using less.prems(1) False by (auto simp: m_def)
    have add: "u64_add (bi_Block s) (bi_Block e) div 2 = m"
      using less.prems by (simp add: u64_add_id m_def)
    let ?mid = "\<lparr> bi_Block = m, bi_Timestamp = T m \<rparr>"
    have rec: "searchLastBlock resolve s e =
        (if isSameDay (T m) (T (bi_Block e)) then searchLastBlock resolve s ?mid
         else searchLastBlock resolve ?mid e)"
      using less.prems False sub
      by (subst searchLastBlock.simps) (auto simp: add chain_resolve [OF chain] Let_def)
    show ?thesis
    proof (cases "isSameDay (T m) (T (bi_Block e))")
      case True
      then have "Midnight (T m) = Midnight (T (bi_Block e))" by (simp add: isSameDay_def)
      with less.hyps [of ?mid s] less.prems m rec True show ?thesis by simp
    next
      case False
      then have "Midnight (T m) < Midnight (T (bi_Block e))"
        using chain_mono [OF chain, of m "bi_Block e"] m by (simp add: isSameDay_def)
      with less.hyps [of e ?mid] less.prems m rec False show ?thesis by force
    qed
  qed
qed

section \<open>The storage as an interface\<close>

text \<open>
  What the resolver needs of its storage: a row that is found was stored and is of the day asked for,
  and storing adds at most the row stored.
\<close>

locale block_store =
  fixes S :: "'db block_db" and rows :: "'db \<Rightarrow> BlockInfo set"
  assumes get_row: "GetBlockInfo S db t = Inr i \<Longrightarrow> i \<in> rows db \<and> Midnight (bi_Timestamp i) = Midnight t"
    and update_rows: "UpdateBlockInfo S db i = (db', e) \<Longrightarrow> rows db' \<subseteq> insert i (rows db)"

text \<open>A storage that can be reached: the only error is that there is no row.\<close>

locale live_block_store = block_store +
  assumes get_error: "GetBlockInfo S db t = Inl e \<Longrightarrow> e = sql_ErrNoRows"
    and update_ok: "snd (UpdateBlockInfo S db i) = None"

definition rows_ok :: "(nat \<Rightarrow> gotime) \<Rightarrow> BlockInfo set \<Rightarrow> bool" where
  "rows_ok T R \<longleftrightarrow> (\<forall>i\<in>R. last_of_day T (Midnight (bi_Timestamp i)) i)"

text \<open>The chain is known to reach a day after \<open>d\<close>, at a block \<open>late\<close> of a realistic number.\<close>

definition reaches :: "(nat \<Rightarrow> gotime) \<Rightarrow> nat \<Rightarrow> gotime \<Rightarrow> bool" where
  "reaches T late d \<longleftrightarrow> d < Midnight (T late) \<and> late < 2 ^ 60"

lemma reaches_block:
  assumes "chain_ok resolve T" "reaches T late d" "last_of_day T d i"
  shows "bi_Block i < late" "bi_Block i < 2 ^ 60"
proof -
  show "bi_Block i < late"
    using chain_mono [OF assms(1), of late "bi_Block i"] assms(2,3)
    by (cases "bi_Block i < late") (auto simp: reaches_def last_of_day_def)
  then show "bi_Block i < 2 ^ 60" using assms(2) by (simp add: reaches_def)
qed

lemma reaches_mono: "reaches T late d \<Longrightarrow> c \<le> d \<Longrightarrow> reaches T late c"
  by (simp add: reaches_def)

lemma search_finds:
  assumes chain: "chain_ok resolve T" and start: "bi_Block start \<noteq> 0" "bi_Block start < 2 ^ 60"
      "bi_Timestamp start = T (bi_Block start)" "bi_Timestamp start \<le> current"
    and late: "reaches T late (Midnight current)"
  shows "\<exists>stop r. nextDayBlock resolve current start = Some (Inr stop) \<and>
    searchLastBlock resolve start stop = Some (Inr r) \<and> last_of_day T (Midnight current) r"
proof -
  from nextDayBlock_finds [OF chain start, of late] late obtain stop where
    stop: "nextDayBlock resolve current start = Some (Inr stop)" "next_day_block T current stop"
      "bi_Block stop < 2 ^ 62" by (auto simp: reaches_def)
  have day: "Midnight (T (bi_Block start)) < Midnight (T (bi_Block stop))"
    using Midnight_mono [OF start(4)] start(3) stop(2) by (simp add: next_day_block_def go_defs)
  then have "bi_Block start < bi_Block stop"
    using chain_mono [OF chain, of "bi_Block stop" "bi_Block start"]
    by (cases "bi_Block start < bi_Block stop") auto
  from searchLastBlock_finds [OF chain this stop(3) start(3) _ day] stop(2) obtain r where
    r: "searchLastBlock resolve start stop = Some (Inr r)" "bi_Timestamp r = T (bi_Block r)"
      "Midnight (T (bi_Block r)) < Midnight current + Day"
      "Midnight (T (Suc (bi_Block r))) = Midnight current + Day"
    by (auto simp: next_day_block_def)
  have "Midnight (T (bi_Block r)) \<le> Midnight current"
    using Midnight_less_Day [of "T (bi_Block r)" "current + Day"] r(3) by (simp add: Midnight_add_Day)
  then have "last_of_day T (Midnight current) r"
    using chain_Suc [OF chain, of "bi_Block r"] r by (auto simp: last_of_day_def go_defs)
  with stop(1) r(1) show ?thesis by blast
qed

context live_block_store
begin

lemma search_and_store_last:
  assumes "chain_ok resolve T" "bi_Block start \<noteq> 0" "bi_Block start < 2 ^ 60"
    "bi_Timestamp start = T (bi_Block start)" "bi_Timestamp start \<le> current"
    "reaches T late (Midnight current)" "rows_ok T (rows (lr_db st))"
  shows "\<exists>st' i. search_and_store S resolve current start st = Some (st', i, None) \<and>
    LastResolved st' = i \<and> last_of_day T (Midnight current) i \<and> rows_ok T (rows (lr_db st'))"
proof -
  from search_finds [OF assms(1-6)] obtain stop r where
    r: "nextDayBlock resolve current start = Some (Inr stop)"
      "searchLastBlock resolve start stop = Some (Inr r)" "last_of_day T (Midnight current) r" by blast
  obtain db where db: "UpdateBlockInfo S (lr_db st) r = (db, None)"
    using update_ok [of "lr_db st" r] by (cases "UpdateBlockInfo S (lr_db st) r") auto
  have "Midnight (bi_Timestamp r) = Midnight current" using r(3) by (simp add: last_of_day_def)
  then have "rows_ok T (rows db)"
    using update_rows [OF db] assms(7) r(3) by (auto simp: rows_ok_def)
  with r db show ?thesis by (simp add: search_and_store_def)
qed

lemma Next_last:
  assumes chain: "chain_ok resolve T" and last: "last_of_day T d (LastResolved st)"
    and block: "bi_Block (LastResolved st) \<noteq> 0" and late: "reaches T late (d + Day)"
    and rows: "rows_ok T (rows (lr_db st))"
  shows "\<exists>st' i. resolver_Next S resolve st = Some (st', i, None) \<and> LastResolved st' = i \<and>
    last_of_day T (d + Day) i \<and> rows_ok T (rows (lr_db st')) \<and> bi_Block i \<noteq> 0"
proof -
  let ?b = "bi_Block (LastResolved st)"
  have nz: "bi_Block i \<noteq> 0" if "last_of_day T (d + Day) i" for i
    using that last chain_mono [OF chain, of 0 ?b] by (cases "bi_Block i") (auto simp: last_of_day_def go_defs)
  have d: "Midnight d = d" "Midnight (bi_Timestamp (LastResolved st)) = d"
    using last Midnight_idem by (auto simp: last_of_day_def)
  show ?thesis
  proof (cases "GetBlockInfo S (lr_db st) (nextDay (bi_Timestamp (LastResolved st)))")
    case (Inr i)
    from get_row [OF this] d have "i \<in> rows (lr_db st)" "Midnight (bi_Timestamp i) = d + Day"
      by (auto simp: nextDay_def Midnight_add_Day)
    with rows have "last_of_day T (d + Day) i" by (auto simp: rows_ok_def)
    with Inr block rows nz show ?thesis by (simp add: resolver_Next_def)
  next
    case (Inl e)
    have small: "?b < 2 ^ 60"
      by (rule reaches_block [OF chain _ last]) (rule reaches_mono [OF late], simp add: go_defs)
    have add: "u64_add ?b 1 = Suc ?b" using small by (simp add: u64_add_id)
    have day: "Midnight (T (Suc ?b)) = d + Day"
      using last chain_Suc [OF chain, of ?b] Midnight_less_Day [of d "T (Suc ?b)"] d(1)
      by (auto simp: last_of_day_def)
    have "\<exists>st' i. search_and_store S resolve (T (Suc ?b)) \<lparr> bi_Block = Suc ?b, bi_Timestamp = T (Suc ?b) \<rparr> st
        = Some (st', i, None) \<and> LastResolved st' = i \<and> last_of_day T (d + Day) i \<and>
          rows_ok T (rows (lr_db st'))"
    proof -
      have "Suc ?b < 2 ^ 60"
      proof -
        have "Suc ?b \<le> late"
          using reaches_block [OF chain _ last, of late] reaches_mono [OF late] by (auto simp: go_defs)
        with late show ?thesis by (simp add: reaches_def)
      qed
      with search_and_store_last [OF chain _ _ _ _ _ rows, of "\<lparr> bi_Block = Suc ?b, bi_Timestamp = T (Suc ?b) \<rparr>"
          "T (Suc ?b)" late] late day
      show ?thesis by simp
    qed
    with Inl get_error [OF Inl] block add nz show ?thesis
      by (auto simp: resolver_Next_def chain_resolve [OF chain] Let_def)
  qed
qed

lemma Resolve_last:
  assumes chain: "chain_ok resolve T" and date: "bi_Timestamp firstBlock \<le> date"
    and last: "bi_Block (LastResolved st) = 0 \<or>
      last_of_day T (Midnight (bi_Timestamp (LastResolved st))) (LastResolved st)"
    and late: "reaches T late (Midnight date)" and rows: "rows_ok T (rows (lr_db st))"
  shows "\<exists>st' i. resolver_Resolve S resolve date st = Some (st', i, None) \<and> LastResolved st' = i \<and>
    last_of_day T (Midnight date) i \<and> rows_ok T (rows (lr_db st'))"
proof (cases "GetBlockInfo S (lr_db st) date")
  case (Inr i)
  from get_row [OF this] rows have "last_of_day T (Midnight date) i" by (auto simp: rows_ok_def)
  with Inr rows show ?thesis by (simp add: resolver_Resolve_def)
next
  case (Inl e)
  define start where "start = (if bi_Block (LastResolved st) > bi_Block firstBlock \<and>
      bi_Timestamp (LastResolved st) < date then LastResolved st else firstBlock)"
  have "bi_Block start < 2 ^ 60"
  proof (cases "start = firstBlock")
    case False
    then have s: "start = LastResolved st" "bi_Timestamp start < date" "bi_Block start \<noteq> 0"
      by (auto simp: start_def split: if_splits)
    with last have l: "last_of_day T (Midnight (bi_Timestamp start)) start" by simp
    show ?thesis
      by (rule reaches_block [OF chain _ l]) (rule reaches_mono [OF late], use s in \<open>simp add: Midnight_mono\<close>)
  qed (simp add: firstBlock_def)
  moreover have "bi_Block start \<noteq> 0" "bi_Timestamp start = T (bi_Block start)" "bi_Timestamp start \<le> date"
    using last date chain by (auto simp: start_def chain_ok_def last_of_day_def firstBlock_def)
  ultimately show ?thesis
    using search_and_store_last [OF chain, of start date late st] late rows Inl get_error [OF Inl]
    by (simp add: resolver_Resolve_def start_def Let_def)
qed

end

interpretation pg: live_block_store BlockInfoStorage set
proof
  fix db t i db' e
  show "i \<in> set db \<and> Midnight (bi_Timestamp i) = Midnight t" if "GetBlockInfo BlockInfoStorage db t = Inr i"
  proof -
    from that have "i \<in> set db" "Midnight t < bi_Timestamp i" "bi_Timestamp i < Midnight t + Day"
      by (auto simp: BlockInfoStorage_def pg_GetBlockInfo_def filter_eq_Cons_iff split: list.splits)
    moreover have "Midnight (bi_Timestamp i) = Midnight t"
    proof -
      have "Midnight t \<le> Midnight (bi_Timestamp i)"
        using Midnight_mono [of "Midnight t" "bi_Timestamp i"] calculation by (simp add: Midnight_idem)
      moreover have "\<not> Midnight t < Midnight (bi_Timestamp i)"
        using Midnight_less_Day [of t "bi_Timestamp i"] Midnight_le [of "bi_Timestamp i"]
          \<open>bi_Timestamp i < Midnight t + Day\<close> by auto
      ultimately show ?thesis by simp
    qed
    ultimately show ?thesis by simp
  qed
  show "set db' \<subseteq> insert i (set db)" if "UpdateBlockInfo BlockInfoStorage db i = (db', e)"
    using that by (auto simp: BlockInfoStorage_def pg_UpdateBlockInfo_def split: if_splits)
next
  fix db t e i
  show "e = sql_ErrNoRows" if "GetBlockInfo BlockInfoStorage db t = Inl e"
    using that by (auto simp: BlockInfoStorage_def pg_GetBlockInfo_def split: list.splits)
  show "snd (UpdateBlockInfo BlockInfoStorage db i) = None"
    by (simp add: BlockInfoStorage_def pg_UpdateBlockInfo_def)
qed

section \<open>Run\<close>

lemma run_pass_Next:
  assumes "resolver_Next S resolve st = Some (st', i, None)" "bi_Block (LastResolved st) \<noteq> 0"
  shows "run_pass S resolve from to st =
    Some (st', SendResult i # (if to < bi_Timestamp i then [SendError NotFound] else []), True)"
  using assms by (simp add: run_pass_def)

definition at_day :: "(nat \<Rightarrow> gotime) \<Rightarrow> gotime \<Rightarrow> BlockInfo list resolver \<Rightarrow> bool" where
  "at_day T d st \<longleftrightarrow> last_of_day T d (LastResolved st) \<and> bi_Block (LastResolved st) \<noteq> 0 \<and>
     rows_ok T (set (lr_db st))"

lemma run_pass_day:
  assumes "chain_ok resolve T" "at_day T d st" "reaches T late (d + Day)"
  shows "\<exists>st'. run_pass BlockInfoStorage resolve from to st =
      Some (st', SendResult (LastResolved st') #
        (if to < bi_Timestamp (LastResolved st') then [SendError NotFound] else []), True) \<and>
    at_day T (d + Day) st'"
proof -
  from pg.Next_last [OF assms(1), of d st late] assms(2,3) obtain st' i where
    n: "resolver_Next BlockInfoStorage resolve st = Some (st', i, None)" "LastResolved st' = i"
      "last_of_day T (d + Day) i" "rows_ok T (set (lr_db st'))" "bi_Block i \<noteq> 0"
    by (auto simp: at_day_def)
  with run_pass_Next [OF n(1)] assms(2) show ?thesis by (auto simp: at_day_def)
qed

definition consecutive :: "(nat \<Rightarrow> gotime) \<Rightarrow> gotime \<Rightarrow> BlockInfo list \<Rightarrow> bool" where
  "consecutive T d infos \<longleftrightarrow>
     (\<forall>k < length infos. last_of_day T (d + (int k + 1) * Day) (infos ! k))"

lemma consecutive_Cons:
  "last_of_day T (d + Day) i \<Longrightarrow> consecutive T (d + Day) infos \<Longrightarrow> consecutive T d (i # infos)"
  by (auto simp: consecutive_def nth_Cons algebra_simps split: nat.splits)

lemma run_read_days:
  assumes chain: "chain_ok resolve T"
  shows "at_day T d st \<Longrightarrow> reaches T late (max d (Midnight to) + 2 * Day) \<Longrightarrow> 1 \<le> n \<Longrightarrow>
    Midnight to < d + int n * Day \<Longrightarrow>
    \<exists>st' infos. run_read BlockInfoStorage resolve from to n st = Some (st', infos, NotFound) \<and>
      infos \<noteq> [] \<and> consecutive T d infos \<and> (\<forall>i\<in>set (butlast infos). bi_Timestamp i \<le> to) \<and>
      to < bi_Timestamp (last infos) \<and> at_day T (d + (int (length infos) + 1) * Day) st'"
proof (induction n arbitrary: d st)
  case 0
  then show ?case by simp
next
  case (Suc n)
  have r1: "reaches T late (d + Day)" "reaches T late (d + Day + Day)"
    using Suc.prems(2) by (auto elim!: reaches_mono simp: go_defs)
  from run_pass_day [OF chain Suc.prems(1) r1(1), of "from" to] obtain st1 where
    st1: "run_pass BlockInfoStorage resolve from to st =
      Some (st1, SendResult (LastResolved st1) #
        (if to < bi_Timestamp (LastResolved st1) then [SendError NotFound] else []), True)"
      "at_day T (d + Day) st1" by blast
  let ?i = "LastResolved st1"
  have i: "last_of_day T (d + Day) ?i" using st1(2) by (simp add: at_day_def)
  show ?case
  proof (cases "to < bi_Timestamp ?i")
    case True
    from run_pass_day [OF chain st1(2) r1(2), of "from" to] obtain st2 x where
      "run_pass BlockInfoStorage resolve from to st1 = Some (st2, x)" "at_day T (d + Day + Day) st2"
      by (metis (no_types))
    with True st1(1) i show ?thesis
      by (auto simp: consecutive_def algebra_simps split: prod.splits)
  next
    case False
    then have day: "d + Day \<le> Midnight to"
      using Midnight_mono [of "bi_Timestamp ?i" to] i by (simp add: last_of_day_def)
    then have n: "1 \<le> n" "Midnight to < d + Day + int n * Day"
      using Suc.prems(4) by (cases n; simp add: algebra_simps)+
    have "max (d + Day) (Midnight to) = max d (Midnight to)" using day by (simp add: go_defs)
    with Suc.IH [OF st1(2) _ n] Suc.prems(2) obtain st' infos where
      r: "run_read BlockInfoStorage resolve from to n st1 = Some (st', infos, NotFound)" "infos \<noteq> []"
        "consecutive T (d + Day) infos" "\<forall>i\<in>set (butlast infos). bi_Timestamp i \<le> to"
        "to < bi_Timestamp (last infos)" "at_day T (d + Day + (int (length infos) + 1) * Day) st'"
      by auto
    have "run_read BlockInfoStorage resolve from to (Suc n) st = Some (st', ?i # infos, NotFound)"
      using st1(1) False r(1) by simp
    with r False consecutive_Cons [OF i r(3)] show ?thesis by (auto simp: algebra_simps)
  qed
qed

section \<open>Properties\<close>

text \<open>
  C26: \<open>Resolve\<close> returns the last block of the day of its date, whether it is in the database or has to
  be searched for: the block is of that day and the block after it is not. Neither the scan for a
  block of the next day nor the binary search runs for ever, and the database keeps only last blocks.
\<close>

theorem Resolve_last_block_of_day:
  assumes "chain_ok resolve T" "bi_Timestamp firstBlock \<le> date" "reaches T late (Midnight date)"
    and "bi_Block (LastResolved st) = 0 \<or>
      last_of_day T (Midnight (bi_Timestamp (LastResolved st))) (LastResolved st)"
    and "rows_ok T (set (lr_db st))"
  shows "\<exists>st' i. resolver_Resolve BlockInfoStorage resolve date st = Some (st', i, None) \<and>
    last_of_day T (Midnight date) i \<and> LastResolved st' = i \<and> rows_ok T (set (lr_db st'))"
  using pg.Resolve_last [OF assms(1,2,4,3,5)] by blast

text \<open>
  \<open>Run\<close> delivers the last blocks of consecutive days, starting with the day after the one last
  resolved, up to and including the first whose time is after \<open>to\<close>; then the reader gets \<open>NotFound\<close>.
  As many passes as there are days are enough.
\<close>

theorem Run_delivers_every_day:
  assumes "chain_ok resolve T" "at_day T d st" "reaches T late (max d (Midnight to) + 2 * Day)"
    and "1 \<le> n" "Midnight to < d + int n * Day"
  shows "\<exists>st' infos. run_read BlockInfoStorage resolve from to n st = Some (st', infos, NotFound) \<and>
    infos \<noteq> [] \<and> (\<forall>k < length infos. last_of_day T (d + (int k + 1) * Day) (infos ! k)) \<and>
    (\<forall>i\<in>set (butlast infos). bi_Timestamp i \<le> to) \<and> to < bi_Timestamp (last infos)"
  using run_read_days [OF assms, of "from"] unfolding consecutive_def by blast

text \<open>
  Two successive calls of \<open>Run\<close> on one resolver, as the daemon mode of the rate fetcher makes them,
  lose a day between them: the last block delivered by the first is of a day \<open>D\<close>, and the first block
  delivered by the second is of day \<open>D + 2\<close>. The block of day \<open>D + 1\<close> was resolved by the pass that
  \<open>Run\<close> makes after it has sent \<open>NotFound\<close>, and was delivered to nobody.
\<close>

theorem Run_twice_skips_a_day:
  assumes "chain_ok resolve T" "at_day T d st" "reaches T late (max d (Midnight to) + 2 * Day)"
    and "1 \<le> n" "Midnight to < d + int n * Day"
    and "run_read BlockInfoStorage resolve from to n st = Some (st', infos, e)"
    and "reaches T late (max (d + (int (length infos) + 1) * Day) (Midnight to2) + 2 * Day)"
    and "1 \<le> n2" "Midnight to2 < d + (int (length infos) + 1) * Day + int n2 * Day"
    and "run_read BlockInfoStorage resolve from2 to2 n2 st' = Some (st2, infos2, e2)"
  shows "\<exists>D. last_of_day T D (last infos) \<and> last_of_day T (D + 2 * Day) (hd infos2)"
proof -
  from run_read_days [OF assms(1-5), of "from"] assms(6)
  have r: "infos \<noteq> []" "consecutive T d infos" "at_day T (d + (int (length infos) + 1) * Day) st'" by auto
  from run_read_days [OF assms(1) r(3) assms(7-9), of from2] assms(10)
  have r2: "infos2 \<noteq> []" "consecutive T (d + (int (length infos) + 1) * Day) infos2" by auto
  have "last_of_day T (d + int (length infos) * Day) (last infos)"
    using r(1,2) by (cases infos rule: rev_cases) (auto simp: consecutive_def nth_append algebra_simps)
  moreover have "last_of_day T (d + int (length infos) * Day + 2 * Day) (hd infos2)"
    using r2 by (cases infos2) (force simp: consecutive_def algebra_simps)+
  ultimately show ?thesis by blast
qed

section \<open>A chain with a block every 15 seconds\<close>

definition sample_T :: "nat \<Rightarrow> gotime" where
  "sample_T b = bi_Timestamp firstBlock + (int b - 5000000) * avgBlock"

lemma firstBlock_time: "bi_Timestamp firstBlock = 1517319693 * Second"
  by (simp add: firstBlock_def TimestampMsToTime_def i64_def go_defs)

lemma sample_chain: "chain_ok (\<lambda>b. Inr (sample_T b)) sample_T"
proof -
  have "Midnight (sample_T (b + blockStep)) \<le> Midnight (sample_T b + Day)" for b
    by (rule Midnight_mono) (simp add: sample_T_def avgBlock_def blockStep_def go_defs)
  moreover have "sample_T b \<le> sample_T c" if "b \<le> c" for b c
    using that by (simp add: sample_T_def avgBlock_def go_defs)
  ultimately show ?thesis
    by (simp add: chain_ok_def Midnight_add_Day) (simp add: sample_T_def firstBlock_def)
qed

lemma sample_first_day: "Midnight (bi_Timestamp firstBlock) = 1517270400 * Second"
  unfolding firstBlock_time by (simp add: Midnight_def go_defs)

lemma sample_reaches: "reaches sample_T 6000000 (1517270400 * Second + 10 * Day)"
proof -
  have "1517270400 * Second + 11 * Day \<le> sample_T 6000000"
    by (simp add: sample_T_def firstBlock_time avgBlock_def go_defs)
  from Midnight_mono [OF this] have "1517270400 * Second + 11 * Day \<le> Midnight (sample_T 6000000)"
    by (simp add: Midnight_def go_defs)
  then show ?thesis by (simp add: reaches_def go_defs)
qed

definition sample_resolver :: "BlockInfo list resolver" where
  "sample_resolver = \<lparr> LastResolved = BlockInfo0, lr_db = [] \<rparr>"

theorem Resolve_last_block_of_day_witness:
  "\<exists>st' i. resolver_Resolve BlockInfoStorage (\<lambda>b. Inr (sample_T b)) (1517319693 * Second) sample_resolver
      = Some (st', i, None) \<and> last_of_day sample_T (1517270400 * Second) i"
proof -
  have "reaches sample_T 6000000 (Midnight (bi_Timestamp firstBlock))"
    by (rule reaches_mono [OF sample_reaches]) (simp add: sample_first_day go_defs)
  from Resolve_last_block_of_day [OF sample_chain order_refl this, of sample_resolver]
  show ?thesis
    by (auto simp: firstBlock_time [symmetric] sample_first_day sample_resolver_def BlockInfo0_def
        rows_ok_def)
qed

lemma sample_at_day: "\<exists>st. at_day sample_T (1517270400 * Second) st"
proof -
  have "reaches sample_T 6000000 (Midnight (bi_Timestamp firstBlock))"
    by (rule reaches_mono [OF sample_reaches]) (simp add: sample_first_day go_defs)
  with pg.Resolve_last [OF sample_chain order_refl, of sample_resolver 6000000] obtain st :: "BlockInfo list resolver" where
    st: "last_of_day sample_T (1517270400 * Second) (LastResolved st)" "rows_ok sample_T (set (lr_db st))"
    by (auto simp: sample_first_day sample_resolver_def BlockInfo0_def rows_ok_def)
  have "Midnight (sample_T 0) \<noteq> 1517270400 * Second"
    using Midnight_le [of "sample_T 0"]
    by (auto simp: sample_T_def firstBlock_time avgBlock_def Midnight_def go_defs)
  with st(1) have "bi_Block (LastResolved st) \<noteq> 0" by (metis last_of_day_def)
  with st show ?thesis by (auto simp: at_day_def)
qed

lemma sample_day0: "Midnight (1517270400 * Second) = 1517270400 * Second"
  by (simp add: Midnight_def go_defs)

theorem Run_delivers_every_day_witness:
  "\<exists>(st::BlockInfo list resolver) st' infos.
     run_read BlockInfoStorage (\<lambda>b. Inr (sample_T b)) 0 (1517270400 * Second) 1 st =
       Some (st', infos, NotFound) \<and> infos \<noteq> []"
proof -
  obtain st where st: "at_day sample_T (1517270400 * Second) st" using sample_at_day by blast
  have "reaches sample_T 6000000
      (max (1517270400 * Second) (Midnight (1517270400 * Second)) + 2 * Day)"
    unfolding sample_day0 by (rule reaches_mono [OF sample_reaches]) (simp add: go_defs)
  moreover have "Midnight (1517270400 * Second) < 1517270400 * Second + int 1 * Day"
    unfolding sample_day0 by (simp add: go_defs)
  ultimately show ?thesis
    using Run_delivers_every_day [OF sample_chain st, of 6000000 "1517270400 * Second" 1 0] by blast
qed

theorem Run_twice_skips_a_day_witness:
  "\<exists>(st::BlockInfo list resolver) st' infos e st2 infos2 e2 D.
     run_read BlockInfoStorage (\<lambda>b. Inr (sample_T b)) 0 (1517270400 * Second) 1 st = Some (st', infos, e) \<and>
     run_read BlockInfoStorage (\<lambda>b. Inr (sample_T b)) 0 (1517270400 * Second) 1 st' = Some (st2, infos2, e2) \<and>
     last_of_day sample_T D (last infos) \<and> last_of_day sample_T (D + 2 * Day) (hd infos2)"
proof -
  let ?run = "run_read BlockInfoStorage (\<lambda>b. Inr (sample_T b)) 0 (1517270400 * Second) 1"
  let ?d = "1517270400 * Second"
  obtain st where st: "at_day sample_T ?d st" using sample_at_day by blast
  have late: "reaches sample_T 6000000 (max ?d (Midnight ?d) + 2 * Day)"
    unfolding sample_day0 by (rule reaches_mono [OF sample_reaches]) (simp add: go_defs)
  have n: "Midnight ?d < ?d + int 1 * Day" unfolding sample_day0 by (simp add: go_defs)
  from run_read_days [OF sample_chain st late _ n, of 0] obtain st' infos where
    r: "?run st = Some (st', infos, NotFound)" "infos \<noteq> []"
      "at_day sample_T (?d + (int (length infos) + 1) * Day) st'" by auto
  have "length infos \<le> 1"
    using r(1) by (auto simp: One_nat_def split: option.splits list.splits lbr_send.splits)
  with r(2) have len: "length infos = 1" by (cases infos) auto
  have late2: "reaches sample_T 6000000 (max (?d + (int (length infos) + 1) * Day) (Midnight ?d) + 2 * Day)"
    unfolding sample_day0 by (rule reaches_mono [OF sample_reaches]) (simp add: len go_defs)
  have n2: "Midnight ?d < ?d + (int (length infos) + 1) * Day + int 1 * Day"
    unfolding sample_day0 by (simp add: len go_defs)
  from run_read_days [OF sample_chain r(3) late2 _ n2, of 0] obtain st2 infos2 where
    r2: "?run st' = Some (st2, infos2, NotFound)" by auto
  from Run_twice_skips_a_day [OF sample_chain st late _ n r(1) late2 _ n2 r2] r(1) r2
  show ?thesis by blast
qed

end
