(* ===== verification/RateStore.thy ===== *)
theory RateStore
  imports TradeTypes
begin

text \<open>
  The reserve rates and their PostgreSQL storage: \<open>reserverates/common/types.go\<close> and
  \<open>reserverates/storage/postgres/postgres.go\<close>. A row of the table holds the rate of a pair of a reserve
  for the blocks from \<open>from_block\<close> up to, not including, \<open>to_block\<close>. A Go map is an association list
  with distinct keys, whose order stands for the order of the iteration.

  The SQL statements are modelled by what they do to the rows.
\<close>

section \<open>Rates\<close>

record ReserveRateEntry =
  BuyReserveRate :: f64
  BuySanityRate :: f64
  SellReserveRate :: f64
  SellSanityRate :: f64

definition fromWeiETH :: "int option \<Rightarrow> f64" where
  "fromWeiETH amount = (case amount of None \<Rightarrow> 0 | Some a \<Rightarrow> float64 (big_quo a (10 ^ 18)))"

definition NewReserveRateEntry :: "int option list \<Rightarrow> int option list \<Rightarrow> nat \<Rightarrow> ReserveRateEntry go" where
  "NewReserveRateEntry reserveRates sanityRates index =
     go_bind (go_nth reserveRates (index * 2 + 1)) (\<lambda>buy.
     go_bind (go_nth sanityRates (index * 2 + 1)) (\<lambda>buyS.
     go_bind (go_nth reserveRates (index * 2)) (\<lambda>sell.
     go_bind (go_nth sanityRates (index * 2)) (\<lambda>sellS.
       Inr \<lparr> BuyReserveRate = fromWeiETH buy, BuySanityRate = fromWeiETH buyS,
              SellReserveRate = fromWeiETH sell, SellSanityRate = fromWeiETH sellS \<rparr>))))"

type_synonym pair_rates = "(string \<times> ReserveRateEntry) list"
type_synonym rate_records = "(string \<times> pair_rates) list"

section \<open>The table\<close>

record rate_row =
  rr_reserve :: string
  rr_pair :: string
  rr_rate :: ReserveRateEntry
  rr_from :: nat
  rr_to :: nat
  rr_time :: gotime

type_synonym rate_table = "rate_row list"

text \<open>\<open>ORDER BY timestamp DESC\<close>, first row; of rows with equal timestamps the first is taken here.\<close>

fun newest :: "rate_table \<Rightarrow> rate_row option" where
  "newest [] = None"
| "newest (r # rs) = (case newest rs of
     None \<Rightarrow> Some r | Some r' \<Rightarrow> if rr_time r < rr_time r' then Some r' else Some r)"

definition of_pair :: "string \<Rightarrow> string \<Rightarrow> rate_row \<Rightarrow> bool" where
  "of_pair rsv pair r \<longleftrightarrow> rr_reserve r = rsv \<and> rr_pair r = pair"

text \<open>\<open>lastRates(rsvAddr)[pair]\<close>: the newest row of every pair of the reserve.\<close>

definition lastRate :: "rate_table \<Rightarrow> string \<Rightarrow> string \<Rightarrow> rate_row option" where
  "lastRate table rsv pair = newest (filter (of_pair rsv pair) table)"

definition same_key :: "rate_row \<Rightarrow> rate_row \<Rightarrow> bool" where
  "same_key r r' \<longleftrightarrow> rr_reserve r = rr_reserve r' \<and> rr_pair r = rr_pair r' \<and> rr_from r = rr_from r'"

text \<open>
  \<open>INSERT ... ON CONFLICT (reserve, pair, from_block) DO UPDATE\<close>: a conflict updates the end and the
  time of the row, and leaves its rates.
\<close>

fun upsert_rate :: "rate_row \<Rightarrow> rate_table \<Rightarrow> rate_table" where
  "upsert_rate r [] = [r]"
| "upsert_rate r (x # xs) =
     (if same_key r x then x\<lparr> rr_to := rr_to r, rr_time := rr_time r \<rparr> # xs
      else x # upsert_rate r xs)"

section \<open>UpdateRatesRecords\<close>

definition rate_span :: "rate_row option \<Rightarrow> nat \<Rightarrow> ReserveRateEntry \<Rightarrow> nat \<times> nat" where
  "rate_span prev blockNumber rate =
     (case prev of
        None \<Rightarrow> (blockNumber, blockNumber + 1)
      | Some l \<Rightarrow> if rr_rate l \<noteq> rate then (blockNumber, blockNumber + 1)
                  else (rr_from l, rr_to l + 1))"

definition new_row :: "(nat \<Rightarrow> gotime go) \<Rightarrow> rate_table \<Rightarrow> nat \<Rightarrow> string \<Rightarrow> string \<Rightarrow> ReserveRateEntry
    \<Rightarrow> rate_row go" where
  "new_row resolve table blockNumber rsv pair rate =
     (let (fromBlock, toBlock) = rate_span (lastRate table rsv pair) blockNumber rate in
      go_bind (resolve fromBlock) (\<lambda>t.
        Inr \<lparr> rr_reserve = rsv, rr_pair = pair, rr_rate = rate, rr_from = fromBlock,
               rr_to = toBlock, rr_time = t \<rparr>))"

fun new_rows_of :: "(nat \<Rightarrow> gotime go) \<Rightarrow> rate_table \<Rightarrow> nat \<Rightarrow> string \<Rightarrow> pair_rates \<Rightarrow> rate_row list go" where
  "new_rows_of resolve table n rsv [] = Inr []"
| "new_rows_of resolve table n rsv ((pair, rate) # prs) =
     go_bind (new_row resolve table n rsv pair rate) (\<lambda>r.
     go_bind (new_rows_of resolve table n rsv prs) (\<lambda>rs. Inr (r # rs)))"

text \<open>
  \<open>select_err rsv\<close> is the error of the query for the last rates of a reserve, \<open>exec_err\<close> the error of
  the insertion, if any; a statement that fails leaves the table as it was.
\<close>

fun new_rows :: "(string \<Rightarrow> go_err option) \<Rightarrow> (nat \<Rightarrow> gotime go) \<Rightarrow> rate_table \<Rightarrow> nat \<Rightarrow> rate_records
    \<Rightarrow> rate_row list go" where
  "new_rows select_err resolve table n [] = Inr []"
| "new_rows select_err resolve table n ((rsv, prs) # recs) =
     (case select_err rsv of
        Some e \<Rightarrow> Inl e
      | None \<Rightarrow>
          go_bind (new_rows_of resolve table n rsv prs) (\<lambda>rs.
          go_bind (new_rows select_err resolve table n recs) (\<lambda>rs'. Inr (rs @ rs'))))"

definition UpdateRatesRecords :: "(string \<Rightarrow> go_err option) \<Rightarrow> go_err option \<Rightarrow> (nat \<Rightarrow> gotime go) option
    \<Rightarrow> nat \<Rightarrow> rate_records \<Rightarrow> rate_table \<Rightarrow> rate_table \<times> go_err option" where
  "UpdateRatesRecords select_err exec_err resolver blockNumber rateRecords table =
     (case resolver of
        None \<Rightarrow> (table, Some (Err ''block time resolver is not available''))
      | Some resolve \<Rightarrow>
          (case new_rows select_err resolve table blockNumber rateRecords of
             Inl e \<Rightarrow> (table, Some e)
           | Inr rows \<Rightarrow>
               (case exec_err of
                  Some e \<Rightarrow> (table, Some e)
                | None \<Rightarrow> (fold upsert_rate rows table, None))))"

section \<open>Queries\<close>

text \<open>\<open>LastBlock\<close>: the end of the newest row, 0 for an empty table.\<close>

definition LastBlock :: "rate_table \<Rightarrow> nat" where
  "LastBlock table = (case newest table of None \<Rightarrow> 0 | Some r \<Rightarrow> rr_to r)"

record ReserveRates =
  rs_Timestamp :: gotime
  rs_FromBlock :: nat
  rs_ToBlock :: nat
  rs_Rates :: ReserveRateEntry

definition rates_of_row :: "rate_row \<Rightarrow> ReserveRates" where
  "rates_of_row r = \<lparr> rs_Timestamp = rr_time r, rs_FromBlock = rr_from r, rs_ToBlock = rr_to r,
     rs_Rates = rr_rate r \<rparr>"

definition row_selected :: "string list \<Rightarrow> nat \<Rightarrow> nat \<Rightarrow> rate_row \<Rightarrow> bool" where
  "row_selected reserves fromTime toTime r \<longleftrightarrow>
     int fromTime * Nanosecond_per_ms < rr_time r \<and> rr_time r < int toTime * Nanosecond_per_ms \<and>
     rr_reserve r \<in> set reserves"

type_synonym rate_result = "string \<rightharpoonup> (string \<rightharpoonup> ReserveRates list)"

definition append_rate :: "rate_row \<Rightarrow> rate_result \<Rightarrow> rate_result" where
  "append_rate r result =
     (let ratePair = (case result (rr_reserve r) of None \<Rightarrow> Map.empty | Some m \<Rightarrow> m);
          old = (case ratePair (rr_pair r) of None \<Rightarrow> [] | Some xs \<Rightarrow> xs)
      in result(rr_reserve r \<mapsto> ratePair(rr_pair r \<mapsto> old @ [rates_of_row r])))"

definition GetRatesByTimePoint :: "string list \<Rightarrow> nat \<Rightarrow> nat \<Rightarrow> rate_table \<Rightarrow> rate_result" where
  "GetRatesByTimePoint addrs fromTime toTime table =
     fold append_rate (filter (row_selected addrs fromTime toTime) table) Map.empty"

end
