(* ===== verification/RateStoreProps.thy ===== *)
theory RateStoreProps
  imports RateStore CrawlPlanner
begin

text \<open>
  The table of rates is a run-length encoding: when the blocks of a range are stored one after the
  other, the rows of every pair cover the range without gap or overlap, each block has the rate
  it was stored with, and neighbouring rows have different rates.
\<close>

section \<open>The newest row\<close>

lemma newest_None [simp]: "newest rs = None \<longleftrightarrow> rs = []"
  by (induction rs) (auto split: option.splits)

lemma newest_mem: "newest rs = Some r \<Longrightarrow> r \<in> set rs"
  by (induction rs arbitrary: r) (auto split: option.splits if_splits)

lemma newest_max: "newest rs = Some r \<Longrightarrow> x \<in> set rs \<Longrightarrow> rr_time x \<le> rr_time r"
  by (induction rs arbitrary: r x) (fastforce split: option.splits if_splits)+

lemma newest_last: "\<forall>x\<in>set rs. rr_time x < rr_time r \<Longrightarrow> newest (rs @ [r]) = Some r"
  by (induction rs) auto

section \<open>Insertion\<close>

lemma of_pair_update [simp]:
  "of_pair rsv pair (x\<lparr> rr_to := b, rr_time := t \<rparr>) = of_pair rsv pair x"
  by (simp add: of_pair_def)

lemma same_key_of_pair: "same_key r x \<Longrightarrow> of_pair rsv pair r = of_pair rsv pair x"
  by (simp add: same_key_def of_pair_def)

lemma filter_upsert:
  "filter (of_pair rsv pair) (upsert_rate r table) =
     (if of_pair rsv pair r then upsert_rate r (filter (of_pair rsv pair) table)
      else filter (of_pair rsv pair) table)"
  by (induction table) (auto simp: same_key_of_pair)

lemma filter_fold_upsert:
  "filter (of_pair rsv pair) (fold upsert_rate rows table) =
     fold upsert_rate (filter (of_pair rsv pair) rows) (filter (of_pair rsv pair) table)"
  by (induction rows arbitrary: table) (simp_all add: filter_upsert)

lemma upsert_new: "\<forall>x\<in>set xs. \<not> same_key r x \<Longrightarrow> upsert_rate r xs = xs @ [r]"
  by (induction xs) auto

lemma upsert_last:
  "\<forall>x\<in>set xs. \<not> same_key r x \<Longrightarrow> same_key r y \<Longrightarrow>
     upsert_rate r (xs @ [y]) = xs @ [y\<lparr> rr_to := rr_to r, rr_time := rr_time r \<rparr>]"
  by (induction xs) auto

section \<open>The rows of one update\<close>

definition rate_of :: "rate_records \<Rightarrow> string \<Rightarrow> string \<Rightarrow> ReserveRateEntry option" where
  "rate_of recs rsv pair = (case map_of recs rsv of None \<Rightarrow> None | Some prs \<Rightarrow> map_of prs pair)"

definition records_ok :: "rate_records \<Rightarrow> bool" where
  "records_ok recs \<longleftrightarrow> distinct (map fst recs) \<and> (\<forall>(rsv, prs) \<in> set recs. distinct (map fst prs))"

lemma new_rows_of_filter:
  assumes "new_rows_of resolve table n rsv prs = Inr rows" "distinct (map fst prs)"
  shows "filter (of_pair rsv' pair) rows =
    (if rsv' = rsv then (case map_of prs pair of None \<Rightarrow> []
       | Some rate \<Rightarrow> [projr (new_row resolve table n rsv pair rate)]) else []) \<and>
    (\<forall>rate. rsv' = rsv \<longrightarrow> map_of prs pair = Some rate \<longrightarrow>
       (\<exists>r. new_row resolve table n rsv pair rate = Inr r))"
  using assms
proof (induction prs arbitrary: rows)
  case Nil
  then show ?case by simp
next
  case (Cons x prs)
  obtain p rate where x: "x = (p, rate)" by (cases x)
  from Cons.prems(1) obtain r rs where r: "new_row resolve table n rsv p rate = Inr r"
    and rs: "new_rows_of resolve table n rsv prs = Inr rs" and rows: "rows = r # rs"
    by (auto simp: x go_bind_Inr_iff)
  have key: "rr_reserve r = rsv" "rr_pair r = p"
    using r by (auto simp: new_row_def go_bind_Inr_iff split: prod.splits)
  have "p \<notin> fst ` set prs" using Cons.prems(2) by (simp add: x)
  then have no: "map_of prs p = None" by (simp add: map_of_eq_None_iff)
  from Cons.IH [OF rs] Cons.prems(2) r key no show ?case
    by (auto simp: x rows of_pair_def)
qed

lemma new_rows_filter:
  assumes "new_rows sel resolve table n recs = Inr rows" "records_ok recs"
  shows "(case rate_of recs rsv pair of
      None \<Rightarrow> filter (of_pair rsv pair) rows = []
    | Some rate \<Rightarrow> \<exists>r. new_row resolve table n rsv pair rate = Inr r \<and>
        filter (of_pair rsv pair) rows = [r])"
  using assms
proof (induction recs arbitrary: rows)
  case Nil
  then show ?case by (simp add: rate_of_def)
next
  case (Cons x recs)
  obtain s prs where x: "x = (s, prs)" by (cases x)
  from Cons.prems(1) obtain rs rs' where rs: "new_rows_of resolve table n s prs = Inr rs"
    and rs': "new_rows sel resolve table n recs = Inr rs'" and rows: "rows = rs @ rs'"
    by (auto simp: x go_bind_Inr_iff split: option.splits)
  have ok: "records_ok recs" "distinct (map fst prs)" "s \<notin> fst ` set recs"
    using Cons.prems(2) by (auto simp: x records_ok_def)
  note f = new_rows_of_filter [OF rs ok(2), of rsv pair]
  show ?case
  proof (cases "rsv = s")
    case True
    have "map_of recs s = None" using ok(3) by (simp add: map_of_eq_None_iff)
    with Cons.IH [OF rs' ok(1)] True have "filter (of_pair rsv pair) rs' = []"
      by (simp add: rate_of_def)
    with f True show ?thesis by (auto simp: rows x rate_of_def split: option.splits)
  next
    case False
    then have "rate_of (x # recs) rsv pair = rate_of recs rsv pair" by (simp add: x rate_of_def)
    with f False Cons.IH [OF rs' ok(1)] show ?thesis
      unfolding rows by (simp split: option.splits)
  qed
qed

section \<open>The encoding\<close>

text \<open>The rows of a pair, in the order of insertion, cover the blocks from \<open>a\<close> to \<open>b\<close> with the rates \<open>h\<close>.\<close>

fun runs :: "(nat \<Rightarrow> gotime) \<Rightarrow> (nat \<Rightarrow> ReserveRateEntry) \<Rightarrow> nat \<Rightarrow> rate_table \<Rightarrow> nat \<Rightarrow> bool" where
  "runs T h a [] b \<longleftrightarrow> a = b"
| "runs T h a (r # rs) b \<longleftrightarrow> rr_from r = a \<and> a < rr_to r \<and> rr_time r = T a \<and>
     (\<forall>n. a \<le> n \<and> n < rr_to r \<longrightarrow> h n = rr_rate r) \<and>
     (case rs of [] \<Rightarrow> True | r' # _ \<Rightarrow> rr_rate r' \<noteq> rr_rate r) \<and>
     runs T h (rr_to r) rs b"

lemma runs_le: "runs T h a rs b \<Longrightarrow> a \<le> b"
  by (induction rs arbitrary: a) (auto intro: less_imp_le order_trans)

lemma runs_cong: "runs T h a rs b \<Longrightarrow> (\<forall>n<b. h n = h' n) \<Longrightarrow> runs T h' a rs b"
proof (induction rs arbitrary: a)
  case Nil
  then show ?case by simp
next
  case (Cons r rs)
  then have "rr_to r \<le> b" by (auto dest: runs_le)
  with Cons show ?case by auto
qed

lemma runs_snoc:
  "runs T h a (rs @ [r]) b \<longleftrightarrow> (\<exists>c. runs T h a rs c \<and> rr_from r = c \<and> c < b \<and> rr_to r = b \<and>
     rr_time r = T c \<and> (\<forall>n. c \<le> n \<and> n < b \<longrightarrow> h n = rr_rate r) \<and>
     (rs \<noteq> [] \<longrightarrow> rr_rate r \<noteq> rr_rate (last rs)))"
proof (induction rs arbitrary: a)
  case Nil
  then show ?case by auto
next
  case (Cons x rs)
  then show ?case by (cases rs) auto
qed

lemma runs_from_less: "runs T h a rs b \<Longrightarrow> r \<in> set rs \<Longrightarrow> rr_from r < b \<and> rr_time r = T (rr_from r)"
  by (induction rs arbitrary: a) (auto dest: runs_le)

lemma runs_cover:
  assumes "runs T h a rs b" "a \<le> n" "n < b"
  shows "\<exists>!r. r \<in> set rs \<and> rr_from r \<le> n \<and> n < rr_to r"
    and "r \<in> set rs \<Longrightarrow> rr_from r \<le> n \<Longrightarrow> n < rr_to r \<Longrightarrow> rr_rate r = h n"
proof -
  have low: "runs T h a rs b \<Longrightarrow> r \<in> set rs \<Longrightarrow> a \<le> rr_from r" for a rs r
    by (induction rs arbitrary: a) force+
  have "runs T h a rs b \<Longrightarrow> a \<le> n \<Longrightarrow> n < b \<Longrightarrow>
      (\<exists>!r. r \<in> set rs \<and> rr_from r \<le> n \<and> n < rr_to r)" for a
  proof (induction rs arbitrary: a)
    case Nil
    then show ?case by simp
  next
    case (Cons x rs)
    show ?case
    proof (cases "n < rr_to x")
      case True
      with Cons.prems low [of "rr_to x" rs] show ?thesis by (intro ex1I [of _ x]) force+
    next
      case False
      with Cons.prems Cons.IH [of "rr_to x"] show ?thesis by auto
    qed
  qed
  with assms show "\<exists>!r. r \<in> set rs \<and> rr_from r \<le> n \<and> n < rr_to r" by blast
  show "r \<in> set rs \<Longrightarrow> rr_from r \<le> n \<Longrightarrow> n < rr_to r \<Longrightarrow> rr_rate r = h n"
    using assms(1)
  proof (induction rs arbitrary: a)
    case Nil
    then show ?case by simp
  next
    case (Cons x rs)
    then show ?case by auto
  qed
qed

section \<open>One update\<close>

lemma newest_runs:
  assumes "strict_mono T" "runs T h a (rs @ [l]) b"
  shows "newest (rs @ [l]) = Some l"
proof (rule newest_last, rule ballI)
  fix x
  assume "x \<in> set rs"
  moreover from assms(2) obtain c where c: "runs T h a rs c" "rr_from l = c" "rr_time l = T c"
    by (auto simp: runs_snoc)
  ultimately have "rr_from x < c" "rr_time x = T (rr_from x)" using runs_from_less by blast+
  with c(3) assms(1) show "rr_time x < rr_time l" by (simp add: strict_monoD)
qed

lemma update_runs:
  assumes up: "UpdateRatesRecords sel ex (Some resolve) n recs table = (table', None)"
    and T: "strict_mono T" "\<forall>b. resolve b = Inr (T b)"
    and recs: "records_ok recs" "rate_of recs rsv pair = Some rate" "h n = rate"
    and runs: "runs T h a (filter (of_pair rsv pair) table) n"
  shows "runs T h a (filter (of_pair rsv pair) table') (Suc n)"
proof -
  let ?rs = "filter (of_pair rsv pair) table"
  from up obtain rows where rows: "new_rows sel resolve table n recs = Inr rows"
    and table': "table' = fold upsert_rate rows table"
    by (auto simp: UpdateRatesRecords_def split: sum.splits option.splits)
  from new_rows_filter [OF rows recs(1), of rsv pair] recs(2) obtain r where
    r: "new_row resolve table n rsv pair rate = Inr r" and f: "filter (of_pair rsv pair) rows = [r]" by auto
  have new: "filter (of_pair rsv pair) table' = upsert_rate r ?rs"
    by (simp add: table' filter_fold_upsert f)
  have key: "of_pair rsv pair x" if "x \<in> set ?rs" for x using that by simp
  show ?thesis
  proof (cases ?rs rule: rev_cases)
    case Nil
    then have "r = \<lparr> rr_reserve = rsv, rr_pair = pair, rr_rate = rate, rr_from = n, rr_to = n + 1, rr_time = T n \<rparr>"
      using r T(2) by (simp add: new_row_def lastRate_def rate_span_def)
    with runs recs(3) show ?thesis by (auto simp: new Nil less_Suc_eq)
  next
    case (snoc rs l)
    have l: "lastRate table rsv pair = Some l"
      unfolding lastRate_def snoc using newest_runs [OF T(1), of h a rs l n] runs snoc by simp
    from runs [unfolded snoc runs_snoc] obtain c where
      c: "runs T h a rs c" "rr_from l = c" "c < n" "rr_to l = n" "rr_time l = T c"
        "\<forall>k. c \<le> k \<and> k < n \<longrightarrow> h k = rr_rate l" "rs \<noteq> [] \<longrightarrow> rr_rate l \<noteq> rr_rate (last rs)" by auto
    have lkey: "rr_reserve l = rsv" "rr_pair l = pair" using key [of l] snoc by (auto simp: of_pair_def)
    show ?thesis
    proof (cases "rr_rate l = rate")
      case False
      then have rr: "r = \<lparr> rr_reserve = rsv, rr_pair = pair, rr_rate = rate, rr_from = n, rr_to = n + 1,
          rr_time = T n \<rparr>"
        using r T(2) l by (simp add: new_row_def rate_span_def)
      have "\<forall>x\<in>set ?rs. \<not> same_key r x"
        using runs_from_less [OF runs] by (auto simp: same_key_def rr)
      then have "filter (of_pair rsv pair) table' = ?rs @ [r]" by (simp add: new upsert_new)
      moreover have "runs T h a (?rs @ [r]) (Suc n)"
        unfolding runs_snoc using runs False rr snoc recs(3) by (auto simp: less_Suc_eq)
      ultimately show ?thesis by simp
    next
      case True
      then have rr: "r = \<lparr> rr_reserve = rsv, rr_pair = pair, rr_rate = rate, rr_from = c, rr_to = n + 1,
          rr_time = T c \<rparr>"
        using r T(2) l c by (simp add: new_row_def rate_span_def)
      have "\<forall>x\<in>set rs. \<not> same_key r x"
        using runs_from_less [OF c(1)] by (auto simp: same_key_def rr)
      moreover have "same_key r l" using rr c(2) lkey by (simp add: same_key_def)
      ultimately have "filter (of_pair rsv pair) table' =
          rs @ [l\<lparr> rr_to := Suc n, rr_time := T c \<rparr>]"
        by (simp add: new snoc upsert_last rr)
      with c True recs(3) show ?thesis by (auto simp: runs_snoc less_Suc_eq)
    qed
  qed
qed

text \<open>Consecutive blocks.\<close>

fun update_blocks :: "(string \<Rightarrow> go_err option) \<Rightarrow> (nat \<Rightarrow> gotime go) \<Rightarrow> nat \<Rightarrow> rate_records list
    \<Rightarrow> rate_table \<Rightarrow> rate_table" where
  "update_blocks sel resolve n [] table = table"
| "update_blocks sel resolve n (recs # rest) table =
     update_blocks sel resolve (Suc n) rest
       (fst (UpdateRatesRecords sel None (Some resolve) n recs table))"

fun updates_ok :: "(string \<Rightarrow> go_err option) \<Rightarrow> (nat \<Rightarrow> gotime go) \<Rightarrow> nat \<Rightarrow> rate_records list
    \<Rightarrow> rate_table \<Rightarrow> bool" where
  "updates_ok sel resolve n [] table = True"
| "updates_ok sel resolve n (recs # rest) table =
     (snd (UpdateRatesRecords sel None (Some resolve) n recs table) = None \<and>
      updates_ok sel resolve (Suc n) rest
        (fst (UpdateRatesRecords sel None (Some resolve) n recs table)))"

lemma update_blocks_runs:
  assumes T: "strict_mono T" "\<forall>b. resolve b = Inr (T b)"
  shows "updates_ok sel resolve n rss table \<Longrightarrow> \<forall>recs\<in>set rss. records_ok recs \<Longrightarrow>
    \<forall>i<length rss. rate_of (rss ! i) rsv pair = Some (h (n + i)) \<Longrightarrow>
    runs T h a (filter (of_pair rsv pair) table) n \<Longrightarrow>
    runs T h a (filter (of_pair rsv pair) (update_blocks sel resolve n rss table)) (n + length rss)"
proof (induction rss arbitrary: n table)
  case Nil
  then show ?case by simp
next
  case (Cons recs rss)
  let ?up = "UpdateRatesRecords sel None (Some resolve) n recs table"
  have up: "?up = (fst ?up, None)" using Cons.prems(1) by (cases ?up) auto
  have "rate_of recs rsv pair = Some (h n)" using Cons.prems(3) by force
  with update_runs [OF up T] Cons.prems(2,4)
  have "runs T h a (filter (of_pair rsv pair) (fst ?up)) (Suc n)" by simp
  with Cons.IH [of "Suc n" "fst ?up"] Cons.prems(1,2,3) show ?case by force
qed

lemma fold_upsert_pairs:
  "x \<in> set (fold upsert_rate rows table) \<Longrightarrow> \<exists>y\<in>set rows \<union> set table. of_pair (rr_reserve y) (rr_pair y) x"
proof (induction rows arbitrary: table)
  case Nil
  then show ?case by (auto simp: of_pair_def)
next
  case (Cons r rows)
  have up: "x \<in> set (upsert_rate r t) \<Longrightarrow> \<exists>y\<in>insert r (set t). of_pair (rr_reserve y) (rr_pair y) x" for x t
    by (induction t) (auto simp: of_pair_def split: if_splits)
  from Cons.IH [of "upsert_rate r table"] Cons.prems obtain y where
    "y \<in> set rows \<union> set (upsert_rate r table)" "of_pair (rr_reserve y) (rr_pair y) x" by auto
  with up [of y table] show ?case by (fastforce simp: of_pair_def)
qed

lemma update_pairs:
  assumes up: "UpdateRatesRecords sel ex (Some resolve) n recs table = (table', None)"
    and ok: "records_ok recs" and x: "x \<in> set table'"
  shows "rate_of recs (rr_reserve x) (rr_pair x) \<noteq> None \<or>
    (\<exists>y\<in>set table. of_pair (rr_reserve y) (rr_pair y) x)"
proof -
  from up obtain rows where rows: "new_rows sel resolve table n recs = Inr rows"
    and table': "table' = fold upsert_rate rows table"
    by (auto simp: UpdateRatesRecords_def split: sum.splits option.splits)
  from fold_upsert_pairs x table' obtain y where y: "y \<in> set rows \<union> set table"
      "of_pair (rr_reserve y) (rr_pair y) x" by blast
  have "rate_of recs (rr_reserve y) (rr_pair y) \<noteq> None" if "y \<in> set rows"
  proof
    assume "rate_of recs (rr_reserve y) (rr_pair y) = None"
    with new_rows_filter [OF rows ok, of "rr_reserve y" "rr_pair y"]
    have "filter (of_pair (rr_reserve y) (rr_pair y)) rows = []" by simp
    with that show False by (auto simp: filter_empty_conv of_pair_def)
  qed
  with y show ?thesis by (auto simp: of_pair_def)
qed

lemma update_blocks_pairs:
  "updates_ok sel resolve n rss table \<Longrightarrow> \<forall>recs\<in>set rss. records_ok recs \<Longrightarrow>
     \<forall>recs\<in>set rss. \<forall>rsv pair. rate_of recs rsv pair \<noteq> None \<longrightarrow> (rsv, pair) \<in> K \<Longrightarrow>
     \<forall>x\<in>set table. (rr_reserve x, rr_pair x) \<in> K \<Longrightarrow>
     \<forall>x\<in>set (update_blocks sel resolve n rss table). (rr_reserve x, rr_pair x) \<in> K"
proof (induction rss arbitrary: n table)
  case Nil
  then show ?case by simp
next
  case (Cons recs rss)
  let ?up = "UpdateRatesRecords sel None (Some resolve) n recs table"
  have up: "?up = (fst ?up, None)" using Cons.prems(1) by (cases ?up) auto
  have "\<forall>x\<in>set (fst ?up). (rr_reserve x, rr_pair x) \<in> K"
    using update_pairs [OF up] Cons.prems(2-4) by (fastforce simp: of_pair_def)
  with Cons.IH [of "Suc n" "fst ?up"] Cons.prems(1-3) show ?case by simp
qed

lemma LastBlock_runs:
  assumes T: "strict_mono T" and table: "table \<noteq> []"
    and runs: "\<forall>x\<in>set table. \<exists>h a. runs T h a (filter (of_pair (rr_reserve x) (rr_pair x)) table) n"
  shows "LastBlock table = n"
proof -
  obtain r where r: "newest table = Some r" using table by (cases "newest table") auto
  let ?rs = "filter (of_pair (rr_reserve r) (rr_pair r)) table"
  have mem: "r \<in> set ?rs" using newest_mem [OF r] by (simp add: of_pair_def)
  obtain h a where ha: "runs T h a ?rs n" using runs newest_mem [OF r] by blast
  obtain rs l where l: "?rs = rs @ [l]" using mem by (cases ?rs rule: rev_cases) auto
  have "l \<in> set ?rs" by (simp only: l set_append) simp
  then have "rr_time l \<le> rr_time r" using newest_max [OF r] by auto
  moreover obtain c where c: "runs T h a rs c" "rr_from l = c" "rr_to l = n" "rr_time l = T c"
    using ha by (auto simp: l runs_snoc)
  have "\<not> r \<in> set rs"
  proof
    assume "r \<in> set rs"
    with runs_from_less [OF c(1)] T have "rr_time r < T c" by (auto simp: strict_monoD)
    with \<open>rr_time l \<le> rr_time r\<close> c(4) show False by simp
  qed
  with mem have "r = l" by (simp add: l)
  with r c(3) show ?thesis by (simp add: LastBlock_def)
qed

section \<open>A storage whose failed calls change nothing\<close>

text \<open>What a pool may assume of a storage whose updates are single statements.\<close>

locale atomic_storage =
  fixes save :: "('j, 'r, 's) saver"
  assumes atomic: "save j r st = (st', Some e) \<Longrightarrow> st' = st"
begin

lemma apply_successes:
  "calls_faithful save cs st \<Longrightarrow>
     apply_calls save (filter (\<lambda>c. snd (snd c) = None) cs) st = apply_calls save cs st"
proof (induction cs arbitrary: st)
  case Nil
  then show ?case by simp
next
  case (Cons c cs)
  obtain j r x where c: "c = (j, r, x)" by (cases c)
  show ?case
  proof (cases x)
    case None
    with Cons show ?thesis by (simp add: c)
  next
    case (Some e)
    with Cons.prems atomic have "fst (save j r st) = st" by (cases "save j r st") (auto simp: c)
    with Cons Some show ?thesis by (simp add: c)
  qed
qed

lemma storage_of_successes:
  assumes "pool_run ord save ex evs (NewPool n st) = Some (p, cs)" "distinct (submitted ord evs)"
  shows "\<exists>good. map (\<lambda>c. ord (fst c)) good = [1..<Suc (lastCompletedJobOrder p)] \<and>
    good = filter (\<lambda>c. snd (snd c) = None) cs \<and> pl_storage p = apply_calls save good st"
proof -
  from pool_run_ordered [OF assms(1) one_holder_NewPool [OF assms(2)]] obtain good bad where
    cs: "cs = good @ bad" "map (\<lambda>c. ord (fst c)) good = [1..<Suc (lastCompletedJobOrder p)]"
      "\<forall>c\<in>set good. snd (snd c) = None" "bad = [] \<or> (\<exists>j r e. bad = [(j, r, Some e)])"
    and st: "pl_storage p = apply_calls save cs st"
    by (auto simp: ordered_calls_def)
  have "filter (\<lambda>c. snd (snd c) = None) cs = good" using cs by (auto simp: filter_id_conv)
  moreover have "pl_storage p = apply_calls save (filter (\<lambda>c. snd (snd c) = None) cs) st"
    using apply_successes pool_run_faithful [OF assms(1)] st by simp
  ultimately show ?thesis using cs(2) by auto
qed

end

text \<open>The rate storage as the storage of the rate pool; a nil map has no rates.\<close>

definition nil_records :: "rate_records option \<Rightarrow> rate_records" where
  "nil_records r = (case r of None \<Rightarrow> [] | Some recs \<Rightarrow> recs)"

definition save_rates :: "(string \<Rightarrow> go_err option) \<Rightarrow> go_err option \<Rightarrow> (nat \<Rightarrow> gotime go) option
    \<Rightarrow> nat \<Rightarrow> rate_records option \<Rightarrow> rate_table \<Rightarrow> rate_table \<times> go_err option" where
  "save_rates sel ex resolver b r = UpdateRatesRecords sel ex resolver b (nil_records r)"

interpretation rate_storage: atomic_storage "\<lambda>j. save_rates sel ex resolver (rj_block j)"
  for sel ex resolver
  by unfold_locales (auto simp: save_rates_def UpdateRatesRecords_def split: option.splits sum.splits)

section \<open>Properties\<close>

text \<open>
  The table of rates is exactly the result of the updates for the jobs 1 to
  \<open>lastCompletedJobOrder\<close> in this order, whatever the interleaving of the workers and even when the pool
  has failed: an update that fails leaves no trace, because it is one statement.
\<close>

theorem rate_pool_table:
  assumes "rate_pool_run (save_rates sel ex resolver) attempts evs (NewPool n []) = Some (p, cs)"
    and "distinct (map rj_order (jobs_of evs))"
  shows "\<exists>good. map (\<lambda>c. rj_order (fst c)) good = [1..<Suc (lastCompletedJobOrder p)] \<and>
    good = filter (\<lambda>c. snd (snd c) = None) cs \<and>
    pl_storage p = apply_calls (\<lambda>j. save_rates sel ex resolver (rj_block j)) good []"
  using rate_storage.storage_of_successes [OF assms(1) [unfolded rate_pool_run_def]] assms(2)
  by (simp only: submitted_jobs_of)

text \<open>
  Storing the rates of consecutive blocks builds a run-length encoding of the history: for each
  pair that every block has, exactly one row covers each block, that row has the rate the pair had at
  that block, and a new row begins only where the rate changes. \<open>LastBlock\<close> is the block after the last
  one stored, when all blocks have the same pairs.
\<close>

theorem rates_run_length_encoded:
  assumes "strict_mono T" "\<forall>b. resolve b = Inr (T b)"
    and "updates_ok sel resolve n rss []" "\<forall>recs\<in>set rss. records_ok recs" "rss \<noteq> []"
    and "K \<noteq> {}" "\<forall>recs\<in>set rss. \<forall>rsv pair. rate_of recs rsv pair \<noteq> None \<longleftrightarrow> (rsv, pair) \<in> K"
    and "(rsv, pair) \<in> K" "rows = filter (of_pair rsv pair) (update_blocks sel resolve n rss [])"
  shows "(\<forall>i<length rss. (\<exists>!r. r \<in> set rows \<and> rr_from r \<le> n + i \<and> n + i < rr_to r) \<and>
      (\<forall>r\<in>set rows. rr_from r \<le> n + i \<and> n + i < rr_to r \<longrightarrow>
         rate_of (rss ! i) rsv pair = Some (rr_rate r))) \<and>
    (\<forall>k. Suc k < length rows \<longrightarrow> rr_rate (rows ! k) \<noteq> rr_rate (rows ! Suc k)) \<and>
    LastBlock (update_blocks sel resolve n rss []) = n + length rss"
proof -
  define hist where "hist rsv pair b = the (rate_of (rss ! (b - n)) rsv pair)" for rsv pair b
  let ?table = "update_blocks sel resolve n rss []"
  have runs: "runs T (hist rsv pair) n (filter (of_pair rsv pair) ?table) (n + length rss)"
    if "(rsv, pair) \<in> K" for rsv pair
  proof (rule update_blocks_runs [OF assms(1,2,3,4)])
    show "\<forall>i<length rss. rate_of (rss ! i) rsv pair = Some (hist rsv pair (n + i))"
      using assms(7) that by (auto simp: hist_def)
  qed simp
  have rows: "runs T (hist rsv pair) n rows (n + length rss)" using runs [OF assms(8)] assms(9) by simp
  have cover: "(\<exists>!r. r \<in> set rows \<and> rr_from r \<le> n + i \<and> n + i < rr_to r) \<and>
      (\<forall>r\<in>set rows. rr_from r \<le> n + i \<and> n + i < rr_to r \<longrightarrow>
         rate_of (rss ! i) rsv pair = Some (rr_rate r))" if i: "i < length rss" for i
  proof -
    have "rate_of (rss ! i) rsv pair = Some (hist rsv pair (n + i))"
      using assms(7,8) i by (auto simp: hist_def)
    with runs_cover [OF rows, of "n + i"] i show ?thesis by auto
  qed
  have "runs T h a rs b \<Longrightarrow> Suc k < length rs \<Longrightarrow> rr_rate (rs ! k) \<noteq> rr_rate (rs ! Suc k)" for h a rs b k
  proof (induction rs arbitrary: a k)
    case Nil
    then show ?case by simp
  next
    case (Cons r rs)
    then show ?case by (cases k; cases rs) auto
  qed
  with rows have change: "\<forall>k. Suc k < length rows \<longrightarrow> rr_rate (rows ! k) \<noteq> rr_rate (rows ! Suc k)" by blast
  have "rows \<noteq> []" using rows assms(5) by (cases rows) auto
  then have "?table \<noteq> []" using assms(9) by auto
  moreover have "\<forall>x\<in>set ?table. (rr_reserve x, rr_pair x) \<in> K"
    by (rule update_blocks_pairs [OF assms(3,4)]) (use assms(7) in auto)
  ultimately have "LastBlock ?table = n + length rss"
    using LastBlock_runs [OF assms(1), of ?table "n + length rss"] runs by blast
  with cover change show ?thesis by blast
qed

text \<open>
  The encoding needs consecutive blocks: an update does not look at its block number when the rate
  is unchanged, but moves the end of the last row by one. Storing a block again, as a restart from an
  earlier block does, claims the rate for a block that has not been fetched.
\<close>

theorem update_same_block_drifts:
  assumes "lastRate table rsv pair = Some l" "rr_rate l = rate" "resolve (rr_from l) = Inr t"
    and "UpdateRatesRecords (\<lambda>_. None) None (Some resolve) b [(rsv, [(pair, rate)])] table = (table', None)"
  shows "\<exists>x\<in>set table'. of_pair rsv pair x \<and> rr_from x = rr_from l \<and> rr_to x = rr_to l + 1"
proof -
  let ?r = "\<lparr> rr_reserve = rsv, rr_pair = pair, rr_rate = rate, rr_from = rr_from l,
    rr_to = rr_to l + 1, rr_time = t \<rparr>"
  have "table' = upsert_rate ?r table"
    using assms by (simp add: UpdateRatesRecords_def new_row_def rate_span_def)
  moreover have "\<exists>x\<in>set (upsert_rate ?r tab). of_pair rsv pair x \<and> rr_from x = rr_from l \<and>
      rr_to x = rr_to l + 1" for tab
    by (induction tab) (auto simp: of_pair_def same_key_def)
  ultimately show ?thesis by simp
qed

section \<open>Concrete instances\<close>

definition sample_rate :: "f64 \<Rightarrow> ReserveRateEntry" where
  "sample_rate x = \<lparr> BuyReserveRate = x, BuySanityRate = 1, SellReserveRate = 2, SellSanityRate = 3 \<rparr>"

definition sample_recs :: "f64 \<Rightarrow> rate_records" where
  "sample_recs x = [(''0x63'', [(''ETH-KNC'', sample_rate x)])]"

definition sample_times :: "nat \<Rightarrow> gotime" where
  "sample_times b = int b * (15 * Second)"

lemma sample_times_mono: "strict_mono sample_times"
  by (rule strict_monoI) (simp add: sample_times_def go_defs)

lemma sample_updates_ok: "updates_ok (\<lambda>_. None) (\<lambda>b. Inr (sample_times b)) n (map sample_recs xs) table"
  by (induction xs arbitrary: n table)
    (simp_all add: UpdateRatesRecords_def sample_recs_def new_row_def split: prod.split)

lemma sample_rate_of:
  "rate_of (sample_recs x) rsv pair \<noteq> None \<longleftrightarrow> (rsv, pair) \<in> {(''0x63'', ''ETH-KNC'')}"
  "rate_of (sample_recs x) ''0x63'' ''ETH-KNC'' = Some (sample_rate x)"
  by (auto simp: rate_of_def sample_recs_def)

lemma sample_records_ok: "records_ok (sample_recs x)"
  by (simp add: records_ok_def sample_recs_def)

theorem rates_run_length_encoded_witness:
  "LastBlock (update_blocks (\<lambda>_. None) (\<lambda>b. Inr (sample_times b)) 10
     [sample_recs 1, sample_recs 1, sample_recs 2] []) = 13"
proof -
  let ?rss = "[sample_recs 1, sample_recs 1, sample_recs 2]"
  have ok: "updates_ok (\<lambda>_. None) (\<lambda>b. Inr (sample_times b)) 10 ?rss []"
    using sample_updates_ok [of 10 "[1, 1, 2]" "[]"] by (simp del: updates_ok.simps)
  have K: "\<forall>recs\<in>set ?rss. \<forall>rsv pair. rate_of recs rsv pair \<noteq> None \<longleftrightarrow>
      (rsv, pair) \<in> {(''0x63'', ''ETH-KNC'')}"
    using sample_rate_of(1) by (auto simp del: insert_iff)
  from rates_run_length_encoded [OF sample_times_mono _ ok _ _ _ K _ refl, of "''0x63''" "''ETH-KNC''"]
  have "LastBlock (update_blocks (\<lambda>_. None) (\<lambda>b. Inr (sample_times b)) 10 ?rss []) = 10 + length ?rss"
    by (simp add: sample_records_ok del: update_blocks.simps)
  then show ?thesis by (simp del: update_blocks.simps)
qed

definition sample_store_events :: "(rate_job, rate_records) pool_event list" where
  "sample_store_events = [Run 0 (sample_rate_job 1 20), Executed 0 (\<lambda>i. (Some (sample_recs 1), None)),
     SaveTurn 0]"

theorem rate_pool_table_witness:
  "\<exists>p cs. rate_pool_run (save_rates (\<lambda>_. None) None (Some (\<lambda>b. Inr (sample_times b)))) 1
       sample_store_events (NewPool 2 []) = Some (p, cs) \<and>
     length (filter (\<lambda>c. snd (snd c) = None) cs) = 1"
proof -
  obtain p cs where run: "rate_pool_run (save_rates (\<lambda>_. None) None (Some (\<lambda>b. Inr (sample_times b)))) 1
      sample_store_events (NewPool 2 []) = Some (p, cs)" and one: "lastCompletedJobOrder p = 1"
    by (simp add: sample_store_events_def sample_pool_defs save_rates_def nil_records_def
        UpdateRatesRecords_def sample_recs_def new_row_def lastRate_def rate_span_def)
  have "distinct (map rj_order (jobs_of sample_store_events))" by (simp add: sample_store_events_def)
  from rate_pool_table [OF run this] one have
    "map (\<lambda>c. rj_order (fst c)) (filter (\<lambda>c. snd (snd c) = None) cs) = [1]" by auto
  then have "length (filter (\<lambda>c. snd (snd c) = None) cs) = 1"
    by (metis length_map length_Cons list.size(3) One_nat_def)
  with run show ?thesis by blast
qed

theorem update_same_block_drifts_witness:
  "\<exists>x\<in>set (update_blocks (\<lambda>_. None) (\<lambda>b. Inr (sample_times b)) 20 [sample_recs 1]
      [\<lparr> rr_reserve = ''0x63'', rr_pair = ''ETH-KNC'', rr_rate = sample_rate 1, rr_from = 20, rr_to = 21,
         rr_time = sample_times 20 \<rparr>]). rr_from x = 20 \<and> rr_to x = 22"
proof -
  let ?l = "\<lparr> rr_reserve = ''0x63'', rr_pair = ''ETH-KNC'', rr_rate = sample_rate 1, rr_from = 20,
    rr_to = 21, rr_time = sample_times 20 \<rparr>"
  have last: "lastRate [?l] ''0x63'' ''ETH-KNC'' = Some ?l" by (simp add: lastRate_def of_pair_def)
  obtain t where t: "UpdateRatesRecords (\<lambda>_. None) None (Some (\<lambda>b. Inr (sample_times b))) 20
      [(''0x63'', [(''ETH-KNC'', sample_rate 1)])] [?l] = (t, None)"
    by (simp add: UpdateRatesRecords_def new_row_def last rate_span_def)
  from update_same_block_drifts [OF last _ _ t] t show ?thesis by (auto simp: sample_recs_def)
qed

end
