(* ===== verification/RateCrawl.thy ===== *)
theory RateCrawl
  imports RateStore LastBlock
begin

text \<open>
  Fetching reserve rates: the crawler of \<open>reserverates/crawler/crawler.go\<close>, and the daily fetcher of
  \<open>accounting/reserve-rate/fetcher\<close> with its retries, its serial storing of the results and its plan of
  the time ranges to fetch. The contracts, the symbol resolver, the rate provider and the clock are
  parameters.
\<close>

section \<open>ReserveRatesCrawler\<close>

record rates_crawler =
  rc_Tokens :: "addr \<Rightarrow> nat \<Rightarrow> (addr \<times> string) list go"
  rc_GetReserveRate :: "nat \<Rightarrow> addr \<Rightarrow> addr list \<Rightarrow> addr list \<Rightarrow> (int option list \<times> int option list) go"
  rc_Hex :: "addr \<Rightarrow> string"

definition errNoCode :: go_err where "errNoCode = Err ''no contract code at given address''"

definition errorCannotGetSupportedTokens :: go_err where
  "errorCannotGetSupportedTokens = Err ''cannot get supported token for reserve''"

fun insert_key :: "'k \<Rightarrow> 'v \<Rightarrow> ('k \<times> 'v) list \<Rightarrow> ('k \<times> 'v) list" where
  "insert_key k v [] = [(k, v)]"
| "insert_key k v ((k', v') # xs) = (if k = k' then (k, v) # xs else (k', v') # insert_key k v xs)"

fun rate_entries :: "int option list \<Rightarrow> int option list \<Rightarrow> nat \<Rightarrow> (addr \<times> string) list \<Rightarrow> pair_rates
    \<Rightarrow> pair_rates go" where
  "rate_entries reserveRates sanityRates index [] rates = Inr rates"
| "rate_entries reserveRates sanityRates index ((a, symbol) # tokens) rates =
     go_bind (NewReserveRateEntry reserveRates sanityRates index) (\<lambda>entry.
       rate_entries reserveRates sanityRates (index + 1) tokens
         (insert_key (''ETH-'' @ symbol) entry rates))"

text \<open>The result is a nil map when the reserve has no code at the block.\<close>

definition getEachReserveRate :: "rates_crawler \<Rightarrow> nat \<Rightarrow> addr \<Rightarrow> pair_rates option go" where
  "getEachReserveRate C block rsvAddr =
     (case rc_Tokens C rsvAddr block of
        Inl e \<Rightarrow> if e = errNoCode then Inr None else Inl errorCannotGetSupportedTokens
      | Inr tokens \<Rightarrow>
          let srcAddresses = concat (map (\<lambda>(a, s). [a, ETHAddr]) tokens);
              destAddresses = concat (map (\<lambda>(a, s). [ETHAddr, a]) tokens)
          in
          (case rc_GetReserveRate C block rsvAddr srcAddresses destAddresses of
             Inl e \<Rightarrow> Inl (errors_Wrap ''cannot get rates for reserve'' e)
           | Inr (reserveRates, sanityRates) \<Rightarrow>
               go_bind (rate_entries reserveRates sanityRates 0 tokens []) (\<lambda>rates. Inr (Some rates))))"

text \<open>
  One goroutine for each address; the addresses are listed in the order in which their goroutines
  finish, since the error group returns the first error. All of them run to the end.
\<close>

fun gather_rates :: "rates_crawler \<Rightarrow> nat \<Rightarrow> addr list \<Rightarrow> rate_records \<Rightarrow> rate_records go" where
  "gather_rates C block [] result = Inr result"
| "gather_rates C block (a # addresses) result =
     (case getEachReserveRate C block a of
        Inl e \<Rightarrow>
          if e = errorCannotGetSupportedTokens then gather_rates C block addresses result else Inl e
      | Inr None \<Rightarrow> gather_rates C block addresses result
      | Inr (Some rates) \<Rightarrow>
          gather_rates C block addresses (insert_key (rc_Hex C a) rates result))"

definition GetReserveRatesWithAddresses :: "rates_crawler \<Rightarrow> addr list \<Rightarrow> nat \<Rightarrow> rate_records go" where
  "GetReserveRatesWithAddresses C addresses block = gather_rates C block addresses []"

section \<open>Retries of the daily fetcher\<close>

type_synonym buy_rates = "(string \<times> (string \<times> f64) list) list"

definition buy_rates :: "rate_records \<Rightarrow> buy_rates" where
  "buy_rates rates = map (\<lambda>(rsv, prs). (rsv, map (\<lambda>(pair, r). (pair, BuyReserveRate r)) prs)) rates"

text \<open>
  \<open>fetch i\<close> is what the crawler returns in attempt \<open>i\<close>. The error of the loop body is a variable of its
  own (\<open>rates, err := ...\<close>), so that the \<open>err\<close> returned after the loop is still nil.
\<close>

fun token_rate_attempts :: "(nat \<Rightarrow> rate_records go) \<Rightarrow> nat \<Rightarrow> nat \<Rightarrow> buy_rates option \<times> go_err option" where
  "token_rate_attempts fetch i 0 = (None, None)"
| "token_rate_attempts fetch i (Suc k) =
     (case fetch i of
        Inl e \<Rightarrow> token_rate_attempts fetch (Suc i) k
      | Inr rates \<Rightarrow> (Some (buy_rates rates), None))"

definition retryFetchTokenRate :: "nat \<Rightarrow> (nat \<Rightarrow> rate_records go) \<Rightarrow> buy_rates option \<times> go_err option" where
  "retryFetchTokenRate maxAttempt fetch = token_rate_attempts fetch 0 maxAttempt"

text \<open>A \<open>float64\<close> that may be the quotient by zero.\<close>

datatype go_float = Fin f64 | PosInf

definition go_inverse :: "f64 \<Rightarrow> go_float" where
  "go_inverse x = (if x = 0 then PosInf else Fin (float64 (1 / x)))"

fun usd_rate_attempts :: "(nat \<Rightarrow> f64 go) \<Rightarrow> nat \<Rightarrow> nat \<Rightarrow> go_err option \<Rightarrow> go_float \<times> go_err option" where
  "usd_rate_attempts fetch i 0 err = (Fin 0, err)"
| "usd_rate_attempts fetch i (Suc k) err =
     (case fetch i of
        Inr x \<Rightarrow> (go_inverse x, None)
      | Inl e \<Rightarrow> usd_rate_attempts fetch (Suc i) k (Some e))"

definition retryFetchETHUSDRate :: "nat \<Rightarrow> (nat \<Rightarrow> f64 go) \<Rightarrow> go_float \<times> go_err option" where
  "retryFetchETHUSDRate maxAttempt fetch = usd_rate_attempts fetch 0 maxAttempt None"

section \<open>Jobs of the daily fetcher\<close>

record 's rate_fetcher =
  rf_lastCompletedJobOrder :: nat
  rf_failed :: bool
  rf_storage :: 's

type_synonym 's daily_saver =
  "BlockInfo \<Rightarrow> buy_rates option \<Rightarrow> go_float \<Rightarrow> 's \<Rightarrow> 's \<times> go_err option"

text \<open>One pass of the loop of \<open>serialDataStore\<close>: \<open>None\<close> is another pass, later.\<close>

definition serialDataStore_turn :: "'s daily_saver \<Rightarrow> BlockInfo \<Rightarrow> buy_rates option \<Rightarrow> go_float \<Rightarrow> nat
    \<Rightarrow> 's rate_fetcher \<Rightarrow> ('s rate_fetcher \<times> go_err option) option" where
  "serialDataStore_turn save blockInfo rates usd jobOrder fc =
     (if rf_failed fc then Some (fc, Some (Err ''fetcher has failed before job order''))
      else if rf_lastCompletedJobOrder fc + 1 = jobOrder then
        (case save blockInfo rates usd (rf_storage fc) of
           (st, Some e) \<Rightarrow> Some (fc\<lparr> rf_storage := st, rf_failed := True \<rparr>, Some e)
         | (st, None) \<Rightarrow> Some (fc\<lparr> rf_storage := st, rf_lastCompletedJobOrder := jobOrder \<rparr>, None))
      else None)"

text \<open>
  The goroutine of a job whose turn it is, with the errors it sends: after an error of the first two
  steps it marks the fetcher as failed and goes on.
\<close>

definition mark_failed :: "'s rate_fetcher \<Rightarrow> 's rate_fetcher" where
  "mark_failed fc = fc\<lparr> rf_failed := True \<rparr>"

definition daily_job :: "'s daily_saver \<Rightarrow> nat \<Rightarrow> (nat \<Rightarrow> rate_records go) \<Rightarrow> (nat \<Rightarrow> f64 go) \<Rightarrow> BlockInfo
    \<Rightarrow> nat \<Rightarrow> 's rate_fetcher \<Rightarrow> ('s rate_fetcher \<times> go_err list) option" where
  "daily_job save attempts fetchRates fetchUSD blockInfo jobOrder fc =
     (let (rates, rateErr) = retryFetchTokenRate attempts fetchRates;
          (fc, errs) = (case rateErr of None \<Rightarrow> (fc, []) | Some e \<Rightarrow> (mark_failed fc, [e]));
          (usd, usdErr) = retryFetchETHUSDRate attempts fetchUSD;
          (fc, errs) = (case usdErr of None \<Rightarrow> (fc, errs) | Some e \<Rightarrow> (mark_failed fc, errs @ [e]))
      in
      (case serialDataStore_turn save blockInfo rates usd jobOrder fc of
         None \<Rightarrow> None
       | Some (fc, None) \<Rightarrow> Some (fc, errs)
       | Some (fc, Some e) \<Rightarrow> Some (mark_failed fc, errs @ [e])))"

section \<open>The plan of the daemon mode\<close>

text \<open>
  \<open>getLastFetchedBlockPerReserve\<close>: for each reserve the time from which it is to be fetched, sorted.
  \<open>lastInfo\<close> is \<open>GetLastResolvedBlockInfo\<close> of the storage. Reserves with equal times keep their order
  here; \<open>sort.Sort\<close> may swap them.
\<close>

type_synonym reserve_times = "(addr \<times> gotime) list"

fun reserve_times_of :: "(addr \<Rightarrow> BlockInfo go) \<Rightarrow> (addr \<times> gotime) list \<Rightarrow> reserve_times go" where
  "reserve_times_of lastInfo [] = Inr []"
| "reserve_times_of lastInfo ((a, created) # rsvs) =
     go_bind (case lastInfo a of
                Inr info \<Rightarrow> Inr (bi_Timestamp info)
              | Inl e \<Rightarrow> if e = sql_ErrNoRows then Inr created else Inl e) (\<lambda>t.
     go_bind (reserve_times_of lastInfo rsvs) (\<lambda>ts. Inr ((a, t) # ts)))"

definition getLastFetchedBlockPerReserve :: "(addr \<times> gotime) list go \<Rightarrow> (addr \<Rightarrow> BlockInfo go)
    \<Rightarrow> reserve_times go" where
  "getLastFetchedBlockPerReserve addresses lastInfo =
     go_bind addresses (\<lambda>rsvs.
     go_bind (reserve_times_of lastInfo rsvs) (\<lambda>ts. Inr (sort_key snd ts)))"

text \<open>
  The inner loop of \<open>Run\<close>: the calls of \<open>Fetch\<close> (from, to, addresses) of one round, when none of them
  fails; \<open>addrs\<close> are the addresses collected so far.
\<close>

fun same_time :: "gotime \<Rightarrow> reserve_times \<Rightarrow> reserve_times \<times> reserve_times" where
  "same_time t [] = ([], [])"
| "same_time t ((a, t') # rs) =
     (if t' = t then (let (xs, ys) = same_time t rs in ((a, t') # xs, ys)) else ([], (a, t') # rs))"

lemma same_time_length: "length (snd (same_time t rs)) \<le> length rs"
  by (induction t rs rule: same_time.induct) (auto split: prod.splits)

function fetch_calls :: "gotime \<Rightarrow> addr list \<Rightarrow> reserve_times \<Rightarrow> (gotime \<times> gotime \<times> addr list) list" where
  "fetch_calls now addrs [] = []"
| "fetch_calls now addrs ((a, t) # rs) =
     (let (same, rest) = same_time t rs;
          rsvAddrs = addrs @ a # map fst same;
          toTime = (case rest of [] \<Rightarrow> now | (_, t') # _ \<Rightarrow> t')
      in (t, toTime, rsvAddrs) # fetch_calls now rsvAddrs rest)"
  by pat_completeness auto
termination
  by (relation "measure (\<lambda>(now, addrs, rs). length rs)")
    (auto simp: less_Suc_eq_le dest!: same_time_length [of _ _, THEN order_trans] split: prod.splits,
     metis same_time_length snd_conv)

end
