(* ===== verification/RateCrawlProps.thy ===== *)
theory RateCrawlProps
  imports RateCrawl
begin

text \<open>
  The crawler of rates reads the answer of the contract in the order in which it asked; the daily
  fetcher plans every reserve from the time it was last fetched; and its retry of the rates loses the
  error.
\<close>

section \<open>Association lists\<close>

lemma map_of_insert_key: "map_of (insert_key k v xs) = (map_of xs)(k \<mapsto> v)"
  by (induction k v xs rule: insert_key.induct) (auto simp: fun_eq_iff)

section \<open>The crawler\<close>

definition query_rates :: "(addr \<Rightarrow> addr \<Rightarrow> int option) \<Rightarrow> addr list \<Rightarrow> addr list \<Rightarrow> int option list" where
  "query_rates rate srcs dests = map (\<lambda>(s, d). rate s d) (zip srcs dests)"

lemma query_rates_pairs:
  "query_rates rate (concat (map (\<lambda>(a, s). [a, ETHAddr]) tokens))
     (concat (map (\<lambda>(a, s). [ETHAddr, a]) tokens)) =
   concat (map (\<lambda>(a, s). [rate a ETHAddr, rate ETHAddr a]) tokens)"
  by (induction tokens) (auto simp: query_rates_def)

lemma go_nth_Cons: "go_nth (x # xs) (Suc i) = go_nth xs i" "go_nth (x # xs) 0 = Inr x"
  by (simp_all add: go_nth_def)

lemma nth_concat_pairs:
  "i < length tokens \<Longrightarrow>
     go_nth (concat (map (\<lambda>(a, s). [f a, g a]) tokens)) (i * 2) = Inr (f (fst (tokens ! i))) \<and>
     go_nth (concat (map (\<lambda>(a, s). [f a, g a]) tokens)) (i * 2 + 1) = Inr (g (fst (tokens ! i)))"
proof (induction tokens arbitrary: i)
  case Nil
  then show ?case by simp
next
  case (Cons x tokens)
  then show ?case by (cases i; cases x) (auto simp: go_nth_Cons)
qed

definition token_entry :: "(addr \<Rightarrow> addr \<Rightarrow> int option) \<Rightarrow> (addr \<Rightarrow> addr \<Rightarrow> int option) \<Rightarrow> addr
    \<Rightarrow> ReserveRateEntry" where
  "token_entry rate sanity a =
     \<lparr> BuyReserveRate = fromWeiETH (rate ETHAddr a), BuySanityRate = fromWeiETH (sanity ETHAddr a),
       SellReserveRate = fromWeiETH (rate a ETHAddr), SellSanityRate = fromWeiETH (sanity a ETHAddr) \<rparr>"

lemma entry_of_answer:
  assumes "i < length tokens"
  shows "NewReserveRateEntry (concat (map (\<lambda>(a, s). [rate a ETHAddr, rate ETHAddr a]) tokens))
      (concat (map (\<lambda>(a, s). [sanity a ETHAddr, sanity ETHAddr a]) tokens)) i =
    Inr (token_entry rate sanity (fst (tokens ! i)))"
  using nth_concat_pairs [OF assms, of "\<lambda>a. rate a ETHAddr" "\<lambda>a. rate ETHAddr a"]
    nth_concat_pairs [OF assms, of "\<lambda>a. sanity a ETHAddr" "\<lambda>a. sanity ETHAddr a"]
  by (simp add: NewReserveRateEntry_def token_entry_def)

lemma rate_entries_answer:
  assumes "tokens = pre @ suf"
  shows "\<exists>rates'. rate_entries (concat (map (\<lambda>(a, s). [rate a ETHAddr, rate ETHAddr a]) tokens))
      (concat (map (\<lambda>(a, s). [sanity a ETHAddr, sanity ETHAddr a]) tokens)) (length pre) suf rates
      = Inr rates' \<and>
    (distinct (map snd suf) \<longrightarrow> (\<forall>(a, s) \<in> set suf. map_of rates' (''ETH-'' @ s) =
      Some (token_entry rate sanity a))) \<and>
    (\<forall>k. k \<notin> (\<lambda>x. ''ETH-'' @ snd x) ` set suf \<longrightarrow> map_of rates' k = map_of rates k)"
  using assms
proof (induction suf arbitrary: pre rates)
  case Nil
  then show ?case by simp
next
  case (Cons x suf)
  obtain a s where x: "x = (a, s)" by (cases x)
  have e: "NewReserveRateEntry (concat (map (\<lambda>(a, s). [rate a ETHAddr, rate ETHAddr a]) tokens))
      (concat (map (\<lambda>(a, s). [sanity a ETHAddr, sanity ETHAddr a]) tokens)) (length pre) =
    Inr (token_entry rate sanity a)"
    using entry_of_answer [of "length pre" tokens rate sanity] Cons.prems x by simp
  from Cons.IH [of "pre @ [x]" "insert_key (''ETH-'' @ s) (token_entry rate sanity a) rates"] Cons.prems
  obtain rates' where r: "rate_entries (concat (map (\<lambda>(a, s). [rate a ETHAddr, rate ETHAddr a]) tokens))
      (concat (map (\<lambda>(a, s). [sanity a ETHAddr, sanity ETHAddr a]) tokens)) (Suc (length pre)) suf
      (insert_key (''ETH-'' @ s) (token_entry rate sanity a) rates) = Inr rates'"
    "distinct (map snd suf) \<longrightarrow> (\<forall>(a, s) \<in> set suf. map_of rates' (''ETH-'' @ s) =
      Some (token_entry rate sanity a))"
    "\<forall>k. k \<notin> (\<lambda>x. ''ETH-'' @ snd x) ` set suf \<longrightarrow>
      map_of rates' k = ((map_of rates)(''ETH-'' @ s \<mapsto> token_entry rate sanity a)) k"
    by (auto simp: map_of_insert_key)
  have "map_of rates' (''ETH-'' @ s) = Some (token_entry rate sanity a)" if "s \<notin> set (map snd suf)"
  proof -
    have "''ETH-'' @ s \<notin> (\<lambda>x. ''ETH-'' @ snd x) ` set suf" using that by auto
    with r(3) show ?thesis by simp
  qed
  with e r show ?case by (auto simp: x)
qed

lemma gather_rates_spec:
  "gather_rates C block addresses result = Inr result' \<Longrightarrow> distinct (map (rc_Hex C) addresses) \<Longrightarrow>
     (\<forall>a\<in>set addresses. map_of result (rc_Hex C a) = None) \<Longrightarrow>
     (\<forall>a\<in>set addresses. case getEachReserveRate C block a of
        Inl e \<Rightarrow> e = errorCannotGetSupportedTokens \<and> map_of result' (rc_Hex C a) = None
      | Inr rates \<Rightarrow> map_of result' (rc_Hex C a) = rates) \<and>
     (\<forall>k. k \<notin> rc_Hex C ` set addresses \<longrightarrow> map_of result' k = map_of result k)"
proof (induction addresses arbitrary: result)
  case Nil
  then show ?case by simp
next
  case (Cons a addresses)
  have a: "rc_Hex C a \<notin> rc_Hex C ` set addresses" using Cons.prems(2) by simp
  show ?case
  proof (cases "getEachReserveRate C block a")
    case (Inl e)
    with Cons.prems have e: "e = errorCannotGetSupportedTokens"
      "gather_rates C block addresses result = Inr result'" by (auto split: if_splits)
    from Cons.IH [OF e(2)] Cons.prems(2,3) a Inl e(1) show ?thesis by auto
  next
    case (Inr x)
    show ?thesis
    proof (cases x)
      case None
      with Inr Cons.prems Cons.IH [of result] a show ?thesis by auto
    next
      case (Some rates)
      let ?r = "insert_key (rc_Hex C a) rates result"
      have "gather_rates C block addresses ?r = Inr result'" using Inr Some Cons.prems(1) by simp
      moreover have "\<forall>b\<in>set addresses. map_of ?r (rc_Hex C b) = None"
        using Cons.prems(3) a by (simp add: map_of_insert_key) (metis image_eqI)
      ultimately show ?thesis
        using Cons.IH [of ?r] Cons.prems(2) a Inr Some by (auto simp: map_of_insert_key)
    qed
  qed
qed

section \<open>The plan\<close>

lemma same_time_split:
  "same_time t rs = (xs, ys) \<Longrightarrow> rs = xs @ ys \<and> (\<forall>x\<in>set xs. snd x = t) \<and>
     (case ys of [] \<Rightarrow> True | y # _ \<Rightarrow> snd y \<noteq> t)"
  by (induction t rs arbitrary: xs ys rule: same_time.induct)
    (auto split: if_splits prod.splits)

abbreviation due :: "reserve_times \<Rightarrow> gotime \<Rightarrow> addr set" where
  "due rs f \<equiv> {a. \<exists>t \<le> f. (a, t) \<in> set rs}"

lemma same_time_due:
  assumes "same_time t rs = (same, rest)" "t \<le> f"
  shows "set (addrs @ a # map fst same) \<union> due rest f = set addrs \<union> due ((a, t) # rs) f"
proof -
  note split = same_time_split [OF assms(1)]
  have "(\<exists>u\<le>f. (b, u) \<in> set same) \<longleftrightarrow> b \<in> fst ` set same" for b
  proof
    assume "b \<in> fst ` set same"
    then obtain u where "(b, u) \<in> set same" by auto
    moreover from this have "u = t" using split by fastforce
    ultimately show "\<exists>u\<le>f. (b, u) \<in> set same" using assms(2) by (intro exI [of _ t]) simp
  qed force
  then have "set (addrs @ a # map fst same) \<union> due rest f =
      set addrs \<union> {a} \<union> due same f \<union> due rest f"
    by auto
  moreover have "rs = same @ rest" using split by blast
  ultimately show ?thesis using assms(2) by auto
qed

lemma same_time_later:
  assumes "same_time t rs = (same, rest)" "sorted (map snd ((a, t) # rs))"
  shows "sorted (map snd rest)" "\<forall>x\<in>set rest. t < snd x"
proof -
  note split = same_time_split [OF assms(1)]
  then have sorted: "sorted (map snd rest)" "\<forall>x\<in>set rs. t \<le> snd x"
    using assms(2) by (auto simp: sorted_append)
  then show "sorted (map snd rest)" by blast
  show "\<forall>x\<in>set rest. t < snd x"
    using sorted split by (cases rest) (fastforce simp: sorted_append)+
qed

lemma adjacent_Cons:
  assumes "calls \<noteq> []" "\<forall>k. Suc k < length calls \<longrightarrow> P (calls ! k) (calls ! Suc k)" "P c (hd calls)"
  shows "\<forall>k. Suc k < length (c # calls) \<longrightarrow> P ((c # calls) ! k) ((c # calls) ! Suc k)"
proof (intro allI impI)
  fix k assume "Suc k < length (c # calls)"
  then show "P ((c # calls) ! k) ((c # calls) ! Suc k)"
    using assms by (cases k) (auto simp: hd_conv_nth)
qed

lemma fetch_calls_spec:
  "sorted (map snd rs) \<Longrightarrow> rs \<noteq> [] \<Longrightarrow>
     (let calls = fetch_calls now addrs rs in
      calls \<noteq> [] \<and> fst (hd calls) = snd (hd rs) \<and> fst (snd (last calls)) = now \<and>
      (\<forall>k. Suc k < length calls \<longrightarrow> fst (snd (calls ! k)) = fst (calls ! Suc k) \<and>
         fst (calls ! k) < fst (calls ! Suc k)) \<and>
      (\<forall>c \<in> set calls. snd (hd rs) \<le> fst c \<and> set (snd (snd c)) = set addrs \<union> due rs (fst c)))"
proof (induction now addrs rs rule: fetch_calls.induct)
  case (1 now addrs)
  then show ?case by simp
next
  case (2 now addrs a t rs)
  obtain same rest where st: "same_time t rs = (same, rest)" by (cases "same_time t rs")
  let ?as = "addrs @ a # map fst same"
  let ?calls = "fetch_calls now ?as rest"
  note later = same_time_later [OF st "2.prems"(1)]
  have calls: "fetch_calls now addrs ((a, t) # rs) =
      (t, (case rest of [] \<Rightarrow> now | (_, t') # _ \<Rightarrow> t'), ?as) # ?calls"
    by (simp add: st Let_def)
  have "due rest t = {}" using later(2) by force
  with same_time_due [OF st order_refl, of addrs a]
  have first: "set ?as = set addrs \<union> due ((a, t) # rs) t" by simp
  show ?case
  proof (cases rest)
    case Nil
    with first show ?thesis unfolding calls Let_def by simp
  next
    case (Cons y ys)
    then have rest: "rest \<noteq> []" "snd (hd rest) = snd y" and y: "t < snd y" using later by simp_all
    have IH: "?calls \<noteq> []" "fst (hd ?calls) = snd y" "fst (snd (last ?calls)) = now"
      "\<forall>k. Suc k < length ?calls \<longrightarrow> fst (snd (?calls ! k)) = fst (?calls ! Suc k) \<and>
         fst (?calls ! k) < fst (?calls ! Suc k)"
      "\<forall>c \<in> set ?calls. snd y \<le> fst c \<and> set (snd (snd c)) = set ?as \<union> due rest (fst c)"
      using "2.IH" [OF refl st [symmetric] refl refl later(1) rest(1), unfolded Let_def rest(2)]
      by blast+
    have hd: "fetch_calls now addrs ((a, t) # rs) = (t, snd y, ?as) # ?calls"
      unfolding calls by (simp add: Cons split: prod.split)
    let ?all = "(t, snd y, ?as) # ?calls"
    have adj: "\<forall>k. Suc k < length ?all \<longrightarrow> fst (snd (?all ! k)) = fst (?all ! Suc k) \<and>
        fst (?all ! k) < fst (?all ! Suc k)"
      by (rule adjacent_Cons [where P = "\<lambda>c d. fst (snd c) = fst d \<and> fst c < fst d", OF IH(1,4)])
        (unfold fst_conv snd_conv IH(2), intro conjI refl y)
    have others: "t \<le> fst c \<and> set (snd (snd c)) = set addrs \<union> due ((a, t) # rs) (fst c)"
      if c: "c \<in> set ?calls" for c
    proof -
      have "t \<le> fst c" "set (snd (snd c)) = set ?as \<union> due rest (fst c)"
        using bspec [OF IH(5) c] y by simp_all
      with same_time_due [OF st, of "fst c" addrs a] show ?thesis by simp
    qed
    have all: "\<forall>c \<in> set ?all. t \<le> fst c \<and>
        set (snd (snd c)) = set addrs \<union> due ((a, t) # rs) (fst c)"
    proof
      fix c assume "c \<in> set ?all"
      then consider "c = (t, snd y, ?as)" | "c \<in> set ?calls" unfolding list.set(2) by (elim insertE)
      then show "t \<le> fst c \<and> set (snd (snd c)) = set addrs \<union> due ((a, t) # rs) (fst c)"
      proof cases
        case 1
        show ?thesis unfolding 1 fst_conv snd_conv by (intro conjI order_refl first)
      qed (rule others)
    qed
    have "fst (snd (last ?all)) = now" using IH(1,3) by simp
    then show ?thesis
      unfolding hd Let_def list.sel(1) fst_conv snd_conv using adj all
      by (intro conjI) (rule refl list.distinct(2) | assumption)+
  qed
qed

section \<open>Properties\<close>

text \<open>
  The rates of a reserve are attributed to the right token and direction: when the contract answers
  each query of a source and a destination with \<open>rate\<close> and \<open>sanity\<close>, the entry of a token has as its buy
  rate the answer for ether to token and as its sell rate the answer for token to ether, with no index
  out of range.
\<close>

theorem getEachReserveRate_directions:
  assumes "rc_Tokens C rsv block = Inr tokens" "distinct (map snd tokens)"
    and "\<forall>srcs dests. rc_GetReserveRate C block rsv srcs dests =
      Inr (query_rates rate srcs dests, query_rates sanity srcs dests)"
  shows "\<exists>rates. getEachReserveRate C block rsv = Inr (Some rates) \<and>
    (\<forall>(a, symbol) \<in> set tokens. map_of rates (''ETH-'' @ symbol) =
       Some \<lparr> BuyReserveRate = fromWeiETH (rate ETHAddr a), BuySanityRate = fromWeiETH (sanity ETHAddr a),
              SellReserveRate = fromWeiETH (rate a ETHAddr), SellSanityRate = fromWeiETH (sanity a ETHAddr) \<rparr>)"
  using rate_entries_answer [of tokens "[]" tokens rate sanity "[]"] assms
  by (auto simp: getEachReserveRate_def query_rates_pairs Let_def token_entry_def)

text \<open>
  A successful crawl has, for every address, exactly the rates of its reserve; a reserve without
  code, or whose tokens cannot be listed, is left out without an error, and nothing else is in the
  result.
\<close>

theorem GetReserveRates_complete:
  assumes "GetReserveRatesWithAddresses C addresses block = Inr result"
    and "distinct (map (rc_Hex C) addresses)"
  shows "(\<forall>a\<in>set addresses. case getEachReserveRate C block a of
      Inl e \<Rightarrow> e = errorCannotGetSupportedTokens \<and> map_of result (rc_Hex C a) = None
    | Inr rates \<Rightarrow> map_of result (rc_Hex C a) = rates) \<and>
    (\<forall>k. map_of result k \<noteq> None \<longrightarrow> k \<in> rc_Hex C ` set addresses)"
  using gather_rates_spec [OF assms(1) [unfolded GetReserveRatesWithAddresses_def] assms(2)] by auto

text \<open>
  \<open>retryFetchTokenRate\<close> never returns an error: when all attempts fail it returns a nil map and a
  nil error. The job of a day whose rates could not be fetched then completes like any other: it
  stores no rates for its day, reports nothing, and counts as completed.
\<close>

theorem daily_job_loses_day:
  assumes "\<forall>i<attempts. \<exists>e. fetchRates i = Inl e"
    and "retryFetchETHUSDRate attempts fetchUSD = (usd, None)"
    and "\<not> rf_failed fc" "jobOrder = rf_lastCompletedJobOrder fc + 1"
    and "save blockInfo None usd (rf_storage fc) = (st, None)"
  shows "retryFetchTokenRate attempts fetchRates = (None, None) \<and>
    daily_job save attempts fetchRates fetchUSD blockInfo jobOrder fc =
      Some (fc\<lparr> rf_storage := st, rf_lastCompletedJobOrder := jobOrder \<rparr>, [])"
proof -
  have "token_rate_attempts fetchRates i k = (None, None)" if "\<forall>j<k. \<exists>e. fetchRates (i + j) = Inl e" for i k
    using that
  proof (induction k arbitrary: i)
    case 0
    then show ?case by simp
  next
    case (Suc k)
    then obtain e where "fetchRates i = Inl e" by force
    moreover have "\<forall>j<k. \<exists>e. fetchRates (Suc i + j) = Inl e"
      using Suc.prems by (metis Suc_mono add_Suc_shift)
    ultimately show ?case using Suc.IH [of "Suc i"] by simp
  qed
  from this [of attempts 0] assms show ?thesis
    by (auto simp: retryFetchTokenRate_def daily_job_def serialDataStore_turn_def)
qed

text \<open>
  A round of the daemon mode fetches every reserve exactly from the time it was last fetched up to
  now: the calls of \<open>Fetch\<close> have adjacent, increasing time ranges, the last of which ends now, and the
  addresses of a call are those of the reserves whose time is not after its start.
\<close>

theorem fetch_calls_cover:
  assumes "getLastFetchedBlockPerReserve (Inr rsvs) lastInfo = Inr rs" "rs \<noteq> []"
    and "calls = fetch_calls now [] rs"
  shows "calls \<noteq> [] \<and> fst (hd calls) = Min (snd ` set rs) \<and> fst (snd (last calls)) = now \<and>
    (\<forall>k. Suc k < length calls \<longrightarrow> fst (snd (calls ! k)) = fst (calls ! Suc k) \<and>
       fst (calls ! k) < fst (calls ! Suc k)) \<and>
    (\<forall>c \<in> set calls. set (snd (snd c)) = {a. \<exists>t \<le> fst c. (a, t) \<in> set rs})"
proof -
  have sorted: "sorted (map snd rs)"
    using assms(1) by (auto simp: getLastFetchedBlockPerReserve_def go_bind_Inr_iff)
  have "snd (hd rs) = Min (snd ` set rs)"
    using sorted assms(2) by (cases rs) (auto intro!: Min_eqI [symmetric])
  with fetch_calls_spec [OF sorted assms(2), of now "[]"] assms(3) show ?thesis
    unfolding Let_def by simp
qed

section \<open>Concrete instances\<close>

definition sample_rates_crawler :: rates_crawler where
  "sample_rates_crawler = \<lparr> rc_Tokens = (\<lambda>a b. if a = 9 then Inl errNoCode else Inr [(5, ''KNC'')]),
     rc_GetReserveRate = (\<lambda>b a srcs dests.
       Inr (query_rates (\<lambda>s d. Some (if s = ETHAddr then 3 else 4)) srcs dests,
            query_rates (\<lambda>s d. None) srcs dests)),
     rc_Hex = (\<lambda>a. if a = 9 then ''0x9'' else ''0x1'') \<rparr>"

theorem getEachReserveRate_directions_witness:
  "\<exists>rates. getEachReserveRate sample_rates_crawler 20 1 = Inr (Some rates) \<and>
     map_option BuyReserveRate (map_of rates (''ETH-KNC'')) = Some (float64 (big_quo 3 (10 ^ 18)))"
proof -
  have t: "rc_Tokens sample_rates_crawler 1 20 = Inr [(5, ''KNC'')]"
    by (simp add: sample_rates_crawler_def)
  have r: "\<forall>srcs dests. rc_GetReserveRate sample_rates_crawler 20 1 srcs dests =
      Inr (query_rates (\<lambda>s d. Some (if s = ETHAddr then 3 else 4)) srcs dests,
           query_rates (\<lambda>s d. None) srcs dests)"
    by (simp add: sample_rates_crawler_def)
  from getEachReserveRate_directions [OF t _ r] show ?thesis by (auto simp: fromWeiETH_def)
qed

theorem GetReserveRates_complete_witness:
  "\<exists>result. GetReserveRatesWithAddresses sample_rates_crawler [1, 9] 20 = Inr result \<and>
     map_of result ''0x9'' = None"
proof -
  obtain result where r: "GetReserveRatesWithAddresses sample_rates_crawler [1, 9] 20 = Inr result"
    by (simp add: GetReserveRatesWithAddresses_def getEachReserveRate_def sample_rates_crawler_def
        query_rates_def NewReserveRateEntry_def go_nth_def)
  have "getEachReserveRate sample_rates_crawler 20 9 = Inr None"
    by (simp add: getEachReserveRate_def sample_rates_crawler_def)
  with GetReserveRates_complete [OF r] r show ?thesis by (auto simp: sample_rates_crawler_def)
qed

theorem daily_job_loses_day_witness:
  "daily_job (\<lambda>b r usd n. (n + 1, None)) 2 (\<lambda>i. Inl (Err ''timeout'')) (\<lambda>i. Inr 200) firstBlock 1
     \<lparr> rf_lastCompletedJobOrder = 0, rf_failed = False, rf_storage = (0::nat) \<rparr> =
   Some (\<lparr> rf_lastCompletedJobOrder = 1, rf_failed = False, rf_storage = 1 \<rparr>, [])"
proof -
  have usd: "retryFetchETHUSDRate 2 (\<lambda>i. Inr 200) = (Fin (float64 (1 / 200)), None)"
    by (simp add: retryFetchETHUSDRate_def numeral_2_eq_2 go_inverse_def)
  from daily_job_loses_day [of 2 "\<lambda>i. Inl (Err ''timeout'')", OF _ usd, of
      "\<lparr> rf_lastCompletedJobOrder = 0, rf_failed = False, rf_storage = (0::nat) \<rparr>" 1
      "\<lambda>b r usd n. (n + 1, None)" firstBlock 1]
  show ?thesis by simp
qed

theorem fetch_calls_cover_witness:
  "\<exists>rs. getLastFetchedBlockPerReserve (Inr [(1, 10), (2, 0), (3, 10)]) (\<lambda>a. Inl sql_ErrNoRows) = Inr rs \<and>
     fst (snd (last (fetch_calls 50 [] rs))) = 50 \<and> fst (hd (fetch_calls 50 [] rs)) = 0"
proof -
  have rs: "getLastFetchedBlockPerReserve (Inr [(1, 10), (2, 0), (3, 10)]) (\<lambda>a. Inl sql_ErrNoRows) =
      Inr [(2, 0), (1, 10), (3, 10)]"
    by (simp add: getLastFetchedBlockPerReserve_def)
  from fetch_calls_cover [OF rs _ refl, of 50] rs show ?thesis by simp
qed

end
