(* ===== verification/BinanceTrades.thy ===== *)
theory BinanceTrades
  imports Tables
begin

text \<open>
  The trades of the accounts on Binance: the requests of \<open>accounting/binance/fetcher/fetcher.go\<close> with their
  retries and pages, the tables of \<open>accounting/binance/storage/tradestorage/trade_storage.go\<close>, and the run for
  an account of \<open>accounting/cmd/accounting-binance-trade-fetcher/main.go\<close>.

  The HTTP client is a parameter: \<open>client symbol fromID i\<close> is what its call returns in attempt \<open>i\<close>. The
  goroutines of a batch share only the database; a batch is listed in the order in which they finish.
\<close>

section \<open>Data\<close>

record TradeHistory =
  th_Symbol :: string
  th_ID :: nat
  th_OrderID :: int
  th_Price :: string
  th_Quantity :: string
  th_QuoteQuantity :: string
  th_Commission :: string
  th_CommissionAsset :: string
  th_Time :: nat
  th_IsBuyer :: bool
  th_IsMaker :: bool
  th_IsBestMatch :: bool
  th_IsIsolated :: "bool option"

section \<open>Requests\<close>

definition ErrBadAPIKeyFormat :: go_err where "ErrBadAPIKeyFormat = Err ''API-key format invalid''"

definition ErrRejectedMBxKey :: go_err where
  "ErrRejectedMBxKey = Err ''invalid API-key, IP, or permissions for action''"

text \<open>The retries of the three requests that give up at once on a rejected key; the value is then nil.\<close>

fun binance_attempts :: "(nat \<Rightarrow> 'r list \<times> go_err option) \<Rightarrow> nat \<Rightarrow> nat \<Rightarrow> 'r list \<times> go_err option
    \<Rightarrow> 'r list \<times> go_err option" where
  "binance_attempts fn i 0 acc = acc"
| "binance_attempts fn i (Suc k) acc =
     (case fn i of
        (r, Some e) \<Rightarrow> if e = ErrBadAPIKeyFormat \<or> e = ErrRejectedMBxKey then ([], Some e)
                       else binance_attempts fn (Suc i) k (r, Some e)
      | (r, None) \<Rightarrow> (r, None))"

type_synonym trade_client = "string \<Rightarrow> nat \<Rightarrow> nat \<Rightarrow> TradeHistory list \<times> go_err option"

definition getTradeHistoryWithRetry :: "trade_client \<Rightarrow> nat \<Rightarrow> string \<Rightarrow> nat \<Rightarrow> TradeHistory list \<times> go_err option" where
  "getTradeHistoryWithRetry client attempts symbol fromID =
     binance_attempts (client symbol fromID) 0 attempts ([], None)"

text \<open>The loop over the pages, from the trade after the last one of the page before.\<close>

partial_function (option) trade_pages ::
  "(nat \<Rightarrow> TradeHistory list \<times> go_err option) \<Rightarrow> nat \<Rightarrow> TradeHistory list
    \<Rightarrow> (TradeHistory list \<times> go_err option) option" where
  "trade_pages get fromID result =
     (case get fromID of
        (page, Some e) \<Rightarrow> Some (result, Some e)
      | (page, None) \<Rightarrow>
          if page = [] then Some (result, None)
          else trade_pages get (u64_add (th_ID (last page)) 1) (result @ page))"

definition getTradeHistoryForOneSymBol :: "trade_client \<Rightarrow> nat \<Rightarrow> nat \<Rightarrow> string
    \<Rightarrow> (TradeHistory list \<times> go_err option) option" where
  "getTradeHistoryForOneSymBol client attempts fromID symbol =
     trade_pages (getTradeHistoryWithRetry client attempts symbol) fromID []"

text \<open>The client's call for margin trades takes the answer 500 for "no margin trading", without trades.\<close>

definition Err500 :: go_err where "Err500 = Err ''500 from Binance, its fault''"

definition margin_client :: "trade_client \<Rightarrow> trade_client" where
  "margin_client send symbol fromID i =
     (case send symbol fromID i of
        (r, Some e) \<Rightarrow> if e = Err500 then ([], None) else (r, Some e)
      | (r, None) \<Rightarrow> (r, None))"

section \<open>Storage\<close>

text \<open>A row of \<open>binance_trades\<close> or \<open>binance_margin_trades\<close>; both have the key \<open>(id, symbol)\<close>.\<close>

record trade_row =
  br_id :: nat
  br_symbol :: string
  br_account :: string
  br_timestamp :: gotime
  br_data :: TradeHistory

definition trade_row_of :: "string \<Rightarrow> TradeHistory \<Rightarrow> trade_row" where
  "trade_row_of account t = \<lparr> br_id = th_ID t, br_symbol = th_Symbol t, br_account = account,
     br_timestamp = TimestampMsToTime (th_Time t), br_data = t \<rparr>"

definition trade_row_key :: "trade_row \<Rightarrow> nat \<times> string" where
  "trade_row_key r = (br_id r, br_symbol r)"

definition insert_trades :: "string \<Rightarrow> TradeHistory list \<Rightarrow> trade_row list \<Rightarrow> trade_row list" where
  "insert_trades account trades rows = fold (\<lambda>t. insert_new trade_row_key (trade_row_of account t)) trades rows"

text \<open>The errors of \<open>Beginx\<close>, \<open>Exec\<close> and \<open>Commit\<close>, if they fail.\<close>

record tx_errors =
  te_begin :: "go_err option"
  te_exec :: "go_err option"
  te_commit :: "go_err option"

text \<open>
  The two functions differ in one word: the result of \<open>UpdateTradeHistory\<close> is named, so that the error of
  the deferred commit is returned; in \<open>UpdateMarginTradeHistory\<close> it is lost.
\<close>

definition UpdateTradeHistory :: "tx_errors \<Rightarrow> TradeHistory list \<Rightarrow> string \<Rightarrow> trade_row list
    \<Rightarrow> trade_row list \<times> go_err option" where
  "UpdateTradeHistory E trades account rows =
     (case te_begin E of
        Some e \<Rightarrow> (rows, Some e)
      | None \<Rightarrow> (case te_exec E of
          Some e \<Rightarrow> (rows, Some e)
        | None \<Rightarrow> (case te_commit E of
            Some e \<Rightarrow> (rows, Some (errors_Wrap ''failed to commit transaction'' e))
          | None \<Rightarrow> (insert_trades account trades rows, None))))"

definition UpdateMarginTradeHistory :: "tx_errors \<Rightarrow> TradeHistory list \<Rightarrow> string \<Rightarrow> trade_row list
    \<Rightarrow> trade_row list \<times> go_err option" where
  "UpdateMarginTradeHistory E trades account rows =
     (case te_begin E of
        Some e \<Rightarrow> (rows, Some e)
      | None \<Rightarrow> (case te_exec E of
          Some e \<Rightarrow> (rows, Some e)
        | None \<Rightarrow> (case te_commit E of
            Some e \<Rightarrow> (rows, None)
          | None \<Rightarrow> (insert_trades account trades rows, None))))"

definition GetLastStoredID :: "string \<Rightarrow> string \<Rightarrow> trade_row list \<Rightarrow> nat" where
  "GetLastStoredID symbol account rows =
     Max (insert 0 (br_id ` {r \<in> set rows. br_symbol r = symbol \<and> br_account r = account}))"

section \<open>Batches\<close>

type_synonym trade_update = "TradeHistory list \<Rightarrow> string \<Rightarrow> trade_row list \<Rightarrow> trade_row list \<times> go_err option"

text \<open>
  The goroutine of a pair, at the time it reaches the storage. \<open>None\<close> is a goroutine that never ends.
\<close>

definition fetch_pair :: "trade_client \<Rightarrow> nat \<Rightarrow> (string \<Rightarrow> trade_update) \<Rightarrow> (string \<Rightarrow> nat) \<Rightarrow> string \<Rightarrow> string
    \<Rightarrow> trade_row list \<Rightarrow> (trade_row list \<times> go_err option) option" where
  "fetch_pair client attempts update fromIDs account symbol rows =
     (case getTradeHistoryForOneSymBol client attempts (fromIDs symbol) symbol of
        None \<Rightarrow> None
      | Some (trades, Some e) \<Rightarrow> Some (rows, Some e)
      | Some (trades, None) \<Rightarrow> Some (update symbol trades account rows))"

fun run_batch :: "(string \<Rightarrow> trade_row list \<Rightarrow> (trade_row list \<times> go_err option) option) \<Rightarrow> string list
    \<Rightarrow> trade_row list \<Rightarrow> (trade_row list \<times> go_err option) option" where
  "run_batch go [] rows = Some (rows, None)"
| "run_batch go (p # ps) rows =
     Option.bind (go p rows) (\<lambda>(rows, e).
     Option.bind (run_batch go ps rows) (\<lambda>(rows, e').
       Some (rows, if e = None then e' else e)))"

text \<open>\<open>order batch\<close> lists the pairs of a batch in the order in which their goroutines finish.\<close>

partial_function (option) run_batches ::
  "(string \<Rightarrow> trade_row list \<Rightarrow> (trade_row list \<times> go_err option) option) \<Rightarrow> (string list \<Rightarrow> string list) \<Rightarrow> nat
    \<Rightarrow> string list \<Rightarrow> nat \<Rightarrow> trade_row list \<Rightarrow> (trade_row list \<times> go_err option) option" where
  "run_batches go order batchSize pairs index rows =
     (if index < length pairs then
        Option.bind (run_batch go (order (take batchSize (drop index pairs))) rows) (\<lambda>(rows, e).
          if e \<noteq> None then Some (rows, e)
          else run_batches go order batchSize pairs (index + batchSize) rows)
      else Some (rows, None))"

definition GetTradeHistory :: "trade_client \<Rightarrow> nat \<Rightarrow> nat \<Rightarrow> (string \<Rightarrow> tx_errors) \<Rightarrow> (string list \<Rightarrow> string list)
    \<Rightarrow> (string \<Rightarrow> nat) \<Rightarrow> string list \<Rightarrow> string \<Rightarrow> trade_row list \<Rightarrow> (trade_row list \<times> go_err option) option" where
  "GetTradeHistory client attempts batchSize E order fromIDs pairs account rows =
     run_batches (fetch_pair client attempts (\<lambda>s. UpdateTradeHistory (E s)) fromIDs account) order batchSize pairs 0 rows"

definition GetMarginTradeHistory :: "trade_client \<Rightarrow> nat \<Rightarrow> nat \<Rightarrow> (string \<Rightarrow> tx_errors) \<Rightarrow> (string list \<Rightarrow> string list)
    \<Rightarrow> (string \<Rightarrow> nat) \<Rightarrow> string list \<Rightarrow> string \<Rightarrow> trade_row list \<Rightarrow> (trade_row list \<times> go_err option) option" where
  "GetMarginTradeHistory client attempts batchSize E order fromIDs pairs account rows =
     run_batches (fetch_pair client attempts (\<lambda>s. UpdateMarginTradeHistory (E s)) fromIDs account) order batchSize pairs 0 rows"

text \<open>The run for an account: each pair from the last stored id, that trade included.\<close>

definition fetch_account :: "trade_client \<Rightarrow> nat \<Rightarrow> nat \<Rightarrow> (string \<Rightarrow> tx_errors) \<Rightarrow> (string list \<Rightarrow> string list)
    \<Rightarrow> string list \<Rightarrow> string \<Rightarrow> trade_row list \<Rightarrow> (trade_row list \<times> go_err option) option" where
  "fetch_account client attempts batchSize E order pairs account rows =
     GetTradeHistory client attempts batchSize E order
       (\<lambda>symbol. if symbol \<in> set pairs then GetLastStoredID symbol account rows else 0) pairs account rows"

definition fetch_margin_account :: "trade_client \<Rightarrow> nat \<Rightarrow> nat \<Rightarrow> (string \<Rightarrow> tx_errors) \<Rightarrow> (string list \<Rightarrow> string list)
    \<Rightarrow> string list \<Rightarrow> string \<Rightarrow> trade_row list \<Rightarrow> (trade_row list \<times> go_err option) option" where
  "fetch_margin_account client attempts batchSize E order pairs account rows =
     GetMarginTradeHistory client attempts batchSize E order
       (\<lambda>symbol. if symbol \<in> set pairs then GetLastStoredID symbol account rows else 0) pairs account rows"

section \<open>What is stored\<close>

definition account_rows :: "string \<Rightarrow> string \<Rightarrow> trade_row list \<Rightarrow> trade_row set" where
  "account_rows account s rows = {r \<in> set rows. br_symbol r = s \<and> br_account r = account}"

text \<open>
  \<open>H s\<close> are the trades of the account for the pair \<open>s\<close> that the exchange has, in the order of their ids,
  which are positive and leave room for one more.
\<close>

definition history_ok :: "(string \<Rightarrow> TradeHistory list) \<Rightarrow> bool" where
  "history_ok H \<longleftrightarrow> (\<forall>s. sorted_wrt (\<lambda>t u. th_ID t < th_ID u) (H s) \<and>
     (\<forall>t\<in>set (H s). th_Symbol t = s \<and> 0 < th_ID t \<and> th_ID t + 1 < 2 ^ 64))"

text \<open>
  What Binance documents for \<open>myTrades\<close>: an answer has the first trades from \<open>fromId\<close> on, up to some limit.
  A call may fail at any time.
\<close>

definition exchange_ok :: "(string \<Rightarrow> TradeHistory list) \<Rightarrow> trade_client \<Rightarrow> bool" where
  "exchange_ok H client \<longleftrightarrow> (\<forall>s n i page. client s n i = (page, None) \<longrightarrow>
     (\<exists>k>0. page = take k (filter (\<lambda>t. n \<le> th_ID t) (H s))))"

definition up_to_last :: "(string \<Rightarrow> TradeHistory list) \<Rightarrow> string \<Rightarrow> trade_row list \<Rightarrow> bool" where
  "up_to_last H account rows \<longleftrightarrow> (\<forall>s. account_rows account s rows =
     trade_row_of account ` {t \<in> set (H s). th_ID t \<le> GetLastStoredID s account rows})"

definition all_stored :: "(string \<Rightarrow> TradeHistory list) \<Rightarrow> string \<Rightarrow> string \<Rightarrow> trade_row list \<Rightarrow> bool" where
  "all_stored H account s rows \<longleftrightarrow> account_rows account s rows = trade_row_of account ` set (H s)"

text \<open>No other account has a trade with the same key: the table has one row for a trade between two accounts.\<close>

definition own_keys :: "(string \<Rightarrow> TradeHistory list) \<Rightarrow> string \<Rightarrow> trade_row list \<Rightarrow> bool" where
  "own_keys H account rows \<longleftrightarrow>
     (\<forall>r\<in>set rows. br_account r \<noteq> account \<longrightarrow> br_id r \<notin> th_ID ` set (H (br_symbol r)))"

lemma binance_attempts_success:
  "binance_attempts fn i k acc = (r, None) \<Longrightarrow> acc = (r, None) \<or> (\<exists>j. fn j = (r, None))"
  by (induction fn i k acc rule: binance_attempts.induct) (auto split: prod.splits option.splits if_splits)

text \<open>
  What an answer of the loop's calls is: the first trades from \<open>n\<close> on; or, unless the source is
  \<open>whole\<close>, possibly nothing at all.
\<close>

definition page_ok :: "bool \<Rightarrow> TradeHistory list \<Rightarrow> nat \<Rightarrow> TradeHistory list \<Rightarrow> bool" where
  "page_ok whole h n page \<longleftrightarrow>
     (\<not> whole \<and> page = []) \<or> (\<exists>k>0. page = take k (filter (\<lambda>t. n \<le> th_ID t) h))"

definition source_ok :: "bool \<Rightarrow> (string \<Rightarrow> TradeHistory list) \<Rightarrow> trade_client \<Rightarrow> bool" where
  "source_ok whole H client \<longleftrightarrow> (\<forall>s n i page. client s n i = (page, None) \<longrightarrow> page_ok whole (H s) n page)"

lemma retry_page_ok:
  assumes "source_ok whole H client" "0 < attempts" "getTradeHistoryWithRetry client attempts s n = (page, None)"
  shows "page_ok whole (H s) n page"
proof -
  obtain k where "attempts = Suc k" using assms(2) gr0_conv_Suc by blast
  with assms(3) have "\<exists>j. client s n j = (page, None)"
    by (auto simp: getTradeHistoryWithRetry_def split: prod.splits option.splits if_splits
        dest: binance_attempts_success)
  with assms(1) show ?thesis by (simp add: source_ok_def) blast
qed

lemma exchange_source: "exchange_ok H client \<Longrightarrow> source_ok True H client"
  by (simp add: exchange_ok_def source_ok_def page_ok_def)

lemma margin_source: "exchange_ok H send \<Longrightarrow> source_ok False H (margin_client send)"
  by (auto simp: exchange_ok_def source_ok_def page_ok_def margin_client_def split: prod.splits option.splits if_splits)

text \<open>The pages from an id on are the trades from that id up to some id, or all when the source is whole.\<close>

lemma filter_split_sorted:
  fixes f :: "'a \<Rightarrow> nat"
  assumes "sorted_wrt (\<lambda>t u. f t < f u) xs" "n \<le> b + 1"
  shows "filter (\<lambda>t. n \<le> f t \<and> f t \<le> b) xs @ filter (\<lambda>t. b + 1 \<le> f t \<and> f t \<le> m) xs =
    filter (\<lambda>t. n \<le> f t \<and> f t \<le> max b m) xs"
  using assms(1)
proof (induction xs)
  case (Cons x xs)
  show ?case
  proof (cases "f x \<le> b")
    case True
    with Cons show ?thesis by auto
  next
    case False
    with Cons.prems have "filter (\<lambda>t. n \<le> f t \<and> f t \<le> b) xs = []" by (auto simp: filter_empty_conv)
    with False Cons assms(2) show ?thesis by (auto simp: le_max_iff_disj)
  qed
qed simp

lemma length_filter_less:
  "x \<in> set xs \<Longrightarrow> Q x \<Longrightarrow> \<not> P x \<Longrightarrow> (\<And>y. P y \<Longrightarrow> Q y) \<Longrightarrow> length (filter P xs) < length (filter Q xs)"
proof (induction xs)
  case (Cons y ys)
  have "length (filter P ys) \<le> length (filter Q ys)"
    using Cons.prems(4) by (induction ys) auto
  with Cons show ?case by auto
qed simp

lemma sorted_wrt_last_le:
  "sorted_wrt (\<lambda>t u. f t < (f u :: nat)) ys \<Longrightarrow> t \<in> set ys \<Longrightarrow> f t \<le> f (last ys)"
  by (induction ys) (auto intro: less_imp_le)

lemma take_filter_sorted:
  fixes f :: "'a \<Rightarrow> nat"
  assumes "sorted_wrt (\<lambda>t u. f t < f u) xs" "ys = take k (filter (\<lambda>t. n \<le> f t) xs)" "ys \<noteq> []"
  shows "ys = filter (\<lambda>t. n \<le> f t \<and> f t \<le> f (last ys)) xs"
proof -
  let ?zs = "filter (\<lambda>t. n \<le> f t) xs"
  have split: "?zs = ys @ drop k ?zs" using assms(2) by simp
  have "sorted_wrt (\<lambda>t u. f t < f u) ?zs" using assms(1) by (rule sorted_wrt_filter)
  then have sw: "sorted_wrt (\<lambda>t u. f t < f u) (ys @ drop k ?zs)" using split by simp
  have "last ys \<in> set ys" using assms(3) by simp
  with sw have "filter (\<lambda>t. f t \<le> f (last ys)) (drop k ?zs) = []"
    by (auto simp: filter_empty_conv sorted_wrt_append not_le)
  moreover have "filter (\<lambda>t. f t \<le> f (last ys)) ys = ys"
    using sw by (intro filter_True) (auto simp: sorted_wrt_append intro: sorted_wrt_last_le)
  ultimately have "filter (\<lambda>t. f t \<le> f (last ys)) ?zs = ys" by (subst split) simp
  then show ?thesis by (simp add: conj_commute)
qed

lemma trade_pages_upto:
  assumes get: "\<forall>n page. get n = (page, None) \<longrightarrow> page_ok whole h n page"
    and h: "sorted_wrt (\<lambda>t u. th_ID t < th_ID u) h" "\<forall>t\<in>set h. 0 < th_ID t \<and> th_ID t + 1 < 2 ^ 64"
  shows "\<exists>trades err. trade_pages get n result = Some (trades, err) \<and>
    (err = None \<longrightarrow> (\<exists>m. trades = result @ filter (\<lambda>t. n \<le> th_ID t \<and> th_ID t \<le> m) h \<and>
       (whole \<longrightarrow> (\<forall>t\<in>set h. th_ID t \<le> m))))"
proof (induction "length (filter (\<lambda>t. n \<le> th_ID t) h)" arbitrary: n result rule: less_induct)
  case less
  obtain page e where page: "get n = (page, e)" by (cases "get n")
  show ?case
  proof (cases e)
    case (Some e')
    with page show ?thesis by (subst trade_pages.simps) simp
  next
    case None
    with page get have ok: "page_ok whole h n page" by simp
    show ?thesis
    proof (cases "page = []")
      case True
      have "\<exists>m. filter (\<lambda>t. n \<le> th_ID t \<and> th_ID t \<le> m) h = [] \<and> (whole \<longrightarrow> (\<forall>t\<in>set h. th_ID t \<le> m))"
      proof (cases whole)
        case True
        with ok \<open>page = []\<close> have "\<forall>t\<in>set h. \<not> n \<le> th_ID t" by (auto simp: page_ok_def filter_empty_conv)
        then show ?thesis using h(2) by (intro exI [of _ "2 ^ 64"]) (auto simp: filter_empty_conv)
      next
        case False
        then show ?thesis using h(2) by (intro exI [of _ 0]) (auto simp: filter_empty_conv)
      qed
      with page None True show ?thesis by (subst trade_pages.simps) auto
    next
      case False
      with ok obtain k where k: "page = take k (filter (\<lambda>t. n \<le> th_ID t) h)" by (auto simp: page_ok_def)
      let ?b = "th_ID (last page)"
      note upto = take_filter_sorted [OF h(1) k False]
      have "set page \<subseteq> set (filter (\<lambda>t. n \<le> th_ID t) h)" unfolding k by (rule set_take_subset)
      with last_in_set [OF False] have last: "last page \<in> set h" "n \<le> ?b" by auto
      then have next_id: "u64_add ?b 1 = ?b + 1" using h(2) by (simp add: u64_add_id)
      have "length (filter (\<lambda>t. ?b + 1 \<le> th_ID t) h) < length (filter (\<lambda>t. n \<le> th_ID t) h)"
        using last by (intro length_filter_less [of "last page"]) auto
      from less.hyps [OF this, of "result @ page"] obtain trades err where
        t: "trade_pages get (?b + 1) (result @ page) = Some (trades, err)"
        "err = None \<longrightarrow> (\<exists>m. trades = (result @ page) @ filter (\<lambda>t. ?b + 1 \<le> th_ID t \<and> th_ID t \<le> m) h \<and>
           (whole \<longrightarrow> (\<forall>t\<in>set h. th_ID t \<le> m)))" by blast
      have "\<exists>m'. trades = result @ filter (\<lambda>t. n \<le> th_ID t \<and> th_ID t \<le> m') h \<and>
          (whole \<longrightarrow> (\<forall>t\<in>set h. th_ID t \<le> m'))" if "err = None"
      proof -
        from t(2) that obtain m where
          m: "trades = result @ page @ filter (\<lambda>t. ?b + 1 \<le> th_ID t \<and> th_ID t \<le> m) h"
          "whole \<longrightarrow> (\<forall>t\<in>set h. th_ID t \<le> m)" by auto
        have "page @ filter (\<lambda>t. ?b + 1 \<le> th_ID t \<and> th_ID t \<le> m) h =
            filter (\<lambda>t. n \<le> th_ID t \<and> th_ID t \<le> max ?b m) h"
          using filter_split_sorted [OF h(1), of n ?b m] last(2) upto by simp
        with m show ?thesis by (intro exI [of _ "max ?b m"]) (auto simp: le_max_iff_disj)
      qed
      with t(1) page None False next_id show ?thesis by (subst trade_pages.simps) simp
    qed
  qed
qed

section \<open>The tables\<close>

lemma trade_row_of_simps [simp]:
  "br_id (trade_row_of account t) = th_ID t" "br_symbol (trade_row_of account t) = th_Symbol t"
  "br_account (trade_row_of account t) = account"
  by (simp_all add: trade_row_of_def)

lemma history_ids: "history_ok H \<Longrightarrow> t \<in> set (H s) \<Longrightarrow> u \<in> set (H s) \<Longrightarrow> th_ID t = th_ID u \<Longrightarrow> t = u"
  unfolding history_ok_def by (metis in_set_conv_nth less_irrefl linorder_neqE_nat sorted_wrt_nth_less)

text \<open>Keys of the rows and of the trades to come are unique, so that an insertion adds what is missing.\<close>

definition keys_ok :: "(string \<Rightarrow> TradeHistory list) \<Rightarrow> string \<Rightarrow> trade_row list \<Rightarrow> bool" where
  "keys_ok H account rows \<longleftrightarrow> inj_on trade_row_key (set rows \<union> (\<Union>s. trade_row_of account ` set (H s)))"

lemma insert_trades_set:
  assumes "keys_ok H account rows" "set trades \<subseteq> set (H s)"
  shows "set (insert_trades account trades rows) = set rows \<union> trade_row_of account ` set trades"
  unfolding insert_trades_def
  using assms by (intro fold_insert_new_set) (force simp: keys_ok_def intro: inj_on_subset)

lemma insert_trades_keys:
  assumes "keys_ok H account rows" "set trades \<subseteq> set (H s)"
  shows "keys_ok H account (insert_trades account trades rows)"
proof -
  have "set (insert_trades account trades rows) \<union> (\<Union>s. trade_row_of account ` set (H s)) =
      set rows \<union> (\<Union>s. trade_row_of account ` set (H s))"
    using insert_trades_set [OF assms] assms(2) by blast
  with assms(1) show ?thesis by (simp add: keys_ok_def)
qed

lemma account_rows_insert:
  assumes "keys_ok H account rows" "set trades \<subseteq> set (H s)" "history_ok H"
  shows "account_rows account s' (insert_trades account trades rows) =
    account_rows account s' rows \<union> (if s' = s then trade_row_of account ` set trades else {})"
proof -
  have "th_Symbol t = s" if "t \<in> set trades" for t using that assms(2,3) by (auto simp: history_ok_def)
  then have "{r \<in> trade_row_of account ` set trades. br_symbol r = s' \<and> br_account r = account} =
      (if s' = s then trade_row_of account ` set trades else {})" by auto
  then show ?thesis unfolding account_rows_def insert_trades_set [OF assms(1,2)] by blast
qed

lemma own_keys_ok:
  assumes "history_ok H" "own_keys H account rows" "up_to_last H account rows" "inj_on trade_row_key (set rows)"
  shows "keys_ok H account rows"
proof -
  have "r = trade_row_of account t"
    if r: "r \<in> set rows" and t: "t \<in> set (H s)" and eq: "trade_row_key r = trade_row_key (trade_row_of account t)" for r t s
  proof -
    from t assms(1) have sym: "th_Symbol t = s" by (simp add: history_ok_def)
    with eq have id: "br_id r = th_ID t" "br_symbol r = s" by (simp_all add: trade_row_key_def)
    with assms(2) r t have "br_account r = account" by (force simp: own_keys_def)
    with r id have "r \<in> account_rows account s rows" by (simp add: account_rows_def)
    with assms(3) obtain u where u: "u \<in> set (H s)" "r = trade_row_of account u" by (auto simp: up_to_last_def)
    with id history_ids [OF assms(1) u(1) t] show ?thesis by simp
  qed
  moreover have "trade_row_of account t = trade_row_of account u"
    if "t \<in> set (H s)" "u \<in> set (H s')" "trade_row_key (trade_row_of account t) = trade_row_key (trade_row_of account u)" for t u s s'
  proof -
    from that assms(1) have "s = s'" "th_ID t = th_ID u" by (auto simp: trade_row_key_def history_ok_def)
    with that history_ids [OF assms(1)] show ?thesis by metis
  qed
  ultimately show ?thesis
    unfolding keys_ok_def using assms(4) by (intro inj_onI) (elim UnE UN_E imageE; metis inj_onD)
qed

lemma GetLastStoredID_rows:
  "GetLastStoredID s account rows = Max (insert 0 (br_id ` account_rows account s rows))"
  by (simp add: GetLastStoredID_def account_rows_def)

lemma finite_account_rows [simp]: "finite (account_rows account s rows)"
  by (simp add: account_rows_def)

lemma account_rows_upto:
  assumes "history_ok H" "account_rows account s rows = trade_row_of account ` {t \<in> set (H s). th_ID t \<le> m}"
  shows "account_rows account s rows = trade_row_of account ` {t \<in> set (H s). th_ID t \<le> GetLastStoredID s account rows}"
proof -
  let ?last = "GetLastStoredID s account rows"
  have ids: "br_id ` account_rows account s rows = th_ID ` {t \<in> set (H s). th_ID t \<le> m}"
    unfolding assms(2) by (simp add: image_image)
  have "th_ID t \<le> m \<longleftrightarrow> th_ID t \<le> ?last" if t: "t \<in> set (H s)" for t
  proof
    assume "th_ID t \<le> m"
    then show "th_ID t \<le> ?last" unfolding GetLastStoredID_rows ids using t by (intro Max_ge) auto
  next
    assume le: "th_ID t \<le> ?last"
    have "?last \<in> insert 0 (th_ID ` {t \<in> set (H s). th_ID t \<le> m})"
      unfolding GetLastStoredID_rows ids by (rule Max_in) auto
    moreover have "0 < th_ID t" using assms(1) t by (simp add: history_ok_def)
    ultimately show "th_ID t \<le> m" using le by auto
  qed
  then show ?thesis unfolding assms(2) by (auto intro: image_eqI)
qed

section \<open>Batches keep an invariant\<close>

text \<open>
  \<open>I\<close> is an invariant of the goroutines, and \<open>D p\<close> something that the goroutine of \<open>p\<close> has achieved when it
  ends without an error, and that no goroutine undoes.
\<close>

definition achieves :: "(string \<Rightarrow> trade_row list \<Rightarrow> (trade_row list \<times> go_err option) option)
    \<Rightarrow> (trade_row list \<Rightarrow> bool) \<Rightarrow> (string \<Rightarrow> trade_row list \<Rightarrow> bool) \<Rightarrow> bool" where
  "achieves go I D \<longleftrightarrow> (\<forall>p rows. I rows \<longrightarrow> (\<exists>rows' e. go p rows = Some (rows', e) \<and> I rows' \<and>
     (\<forall>q. D q rows \<longrightarrow> D q rows') \<and> (e = None \<longrightarrow> D p rows')))"

lemma run_batch_achieves:
  assumes "achieves go I D" "I rows"
  shows "\<exists>rows' e. run_batch go ps rows = Some (rows', e) \<and> I rows' \<and>
    (\<forall>q. D q rows \<longrightarrow> D q rows') \<and> (e = None \<longrightarrow> (\<forall>p\<in>set ps. D p rows'))"
  using assms(2)
proof (induction ps arbitrary: rows)
  case (Cons p ps)
  from assms(1) Cons.prems obtain rows1 e1 where 1: "go p rows = Some (rows1, e1)" "I rows1"
    "\<forall>q. D q rows \<longrightarrow> D q rows1" "e1 = None \<longrightarrow> D p rows1" unfolding achieves_def by blast
  from Cons.IH [OF 1(2)] obtain rows2 e2 where 2: "run_batch go ps rows1 = Some (rows2, e2)" "I rows2"
    "\<forall>q. D q rows1 \<longrightarrow> D q rows2" "e2 = None \<longrightarrow> (\<forall>p\<in>set ps. D p rows2)" by blast
  from 1 2 show ?case by auto
qed simp

lemma run_batches_achieves:
  assumes "achieves go I D" "I rows" "0 < batchSize" "\<And>b. set (order b) = set b"
  shows "\<exists>rows' e. run_batches go order batchSize pairs index rows = Some (rows', e) \<and> I rows' \<and>
    (\<forall>q. D q rows \<longrightarrow> D q rows') \<and> (e = None \<longrightarrow> (\<forall>p\<in>set (drop index pairs). D p rows'))"
  using assms(2)
proof (induction "length pairs - index" arbitrary: index rows rule: less_induct)
  case less
  show ?case
  proof (cases "index < length pairs")
    case False
    with less.prems show ?thesis by (subst run_batches.simps) simp
  next
    case True
    let ?batch = "take batchSize (drop index pairs)"
    from run_batch_achieves [OF assms(1) less.prems] obtain rows1 e1 where
      1: "run_batch go (order ?batch) rows = Some (rows1, e1)" "I rows1" "\<forall>q. D q rows \<longrightarrow> D q rows1"
      "e1 = None \<longrightarrow> (\<forall>p\<in>set ?batch. D p rows1)" using assms(4) by metis
    show ?thesis
    proof (cases e1)
      case (Some e)
      with 1 True show ?thesis by (subst run_batches.simps) simp
    next
      case None
      have "length pairs - (index + batchSize) < length pairs - index" using True assms(3) by simp
      from less.hyps [OF this 1(2)] obtain rows2 e2 where
        2: "run_batches go order batchSize pairs (index + batchSize) rows1 = Some (rows2, e2)" "I rows2"
        "\<forall>q. D q rows1 \<longrightarrow> D q rows2" "e2 = None \<longrightarrow> (\<forall>p\<in>set (drop (index + batchSize) pairs). D p rows2)"
        by blast
      have "set (drop index pairs) = set ?batch \<union> set (drop (index + batchSize) pairs)"
        by (metis append_take_drop_id drop_drop add.commute set_append)
      with 1 2 None True show ?thesis by (subst run_batches.simps) auto
    qed
  qed
qed

section \<open>What the two functions of the storage share\<close>

locale trade_table =
  fixes update :: "string \<Rightarrow> trade_update"
  assumes update_rows: "update s trades account rows = (rows', e) \<Longrightarrow>
    rows' = rows \<or> rows' = insert_trades account trades rows"
begin

definition table_inv :: "(string \<Rightarrow> TradeHistory list) \<Rightarrow> string \<Rightarrow> (string \<Rightarrow> nat) \<Rightarrow> trade_row list \<Rightarrow> bool" where
  "table_inv H account from rows \<longleftrightarrow> keys_ok H account rows \<and> up_to_last H account rows \<and>
     (\<forall>s. from s \<le> GetLastStoredID s account rows)"

lemma insert_rest:
  assumes "history_ok H" "table_inv H account from rows"
    and "trades = filter (\<lambda>t. from s \<le> th_ID t \<and> th_ID t \<le> m) (H s)"
  shows "table_inv H account from (insert_trades account trades rows) \<and>
    ((\<forall>t\<in>set (H s). th_ID t \<le> m) \<longrightarrow> all_stored H account s (insert_trades account trades rows)) \<and>
    (\<forall>s'. all_stored H account s' rows \<longrightarrow> all_stored H account s' (insert_trades account trades rows))"
proof -
  let ?rows = "insert_trades account trades rows" and ?last = "GetLastStoredID s account rows"
  have k: "keys_ok H account rows" "set trades \<subseteq> set (H s)" using assms(2,3) by (auto simp: table_inv_def)
  note rows = account_rows_insert [OF k assms(1)]
  have lo: "from s \<le> ?last" and up: "account_rows account s rows = trade_row_of account ` {t \<in> set (H s). th_ID t \<le> ?last}"
    using assms(2) by (auto simp: table_inv_def up_to_last_def)
  have "{t \<in> set (H s). th_ID t \<le> ?last} \<union> set trades = {t \<in> set (H s). th_ID t \<le> max ?last m}"
    unfolding assms(3) using lo by auto
  then have s: "account_rows account s ?rows = trade_row_of account ` {t \<in> set (H s). th_ID t \<le> max ?last m}"
    unfolding rows [of s] up by (simp flip: image_Un)
  have other: "account_rows account s' ?rows = account_rows account s' rows" if "s' \<noteq> s" for s'
    using rows that by simp
  then have last: "GetLastStoredID s' account ?rows = GetLastStoredID s' account rows" if "s' \<noteq> s" for s'
    using that by (simp add: GetLastStoredID_rows)
  have mono: "GetLastStoredID s' account rows \<le> GetLastStoredID s' account ?rows" for s'
    unfolding GetLastStoredID_rows rows by (intro Max_mono) auto
  have "account_rows account s' ?rows =
      trade_row_of account ` {t \<in> set (H s'). th_ID t \<le> GetLastStoredID s' account ?rows}" for s'
  proof (cases "s' = s")
    case True
    with account_rows_upto [OF assms(1) s] show ?thesis by simp
  next
    case False
    with assms(2) other last show ?thesis by (simp add: table_inv_def up_to_last_def)
  qed
  then have "up_to_last H account ?rows" by (simp add: up_to_last_def)
  moreover have "all_stored H account s' ?rows" if "all_stored H account s' rows" for s'
  proof (cases "s' = s")
    case True
    with that rows [of s] k(2) show ?thesis by (auto simp: all_stored_def)
  next
    case False
    with that other show ?thesis by (simp add: all_stored_def)
  qed
  moreover have "all_stored H account s ?rows" if "\<forall>t\<in>set (H s). th_ID t \<le> m"
  proof -
    from that have "{t \<in> set (H s). th_ID t \<le> max ?last m} = set (H s)" by (auto simp: le_max_iff_disj)
    with s show ?thesis by (simp add: all_stored_def)
  qed
  ultimately show ?thesis
    using assms(2) mono insert_trades_keys [OF k] by (auto simp: table_inv_def intro: order_trans)
qed

lemma fetch_pair_step:
  assumes "history_ok H" "source_ok whole H client" "0 < attempts"
    and "table_inv H account from rows"
  shows "\<exists>rows' err. fetch_pair client attempts update from account s rows = Some (rows', err) \<and>
    table_inv H account from rows' \<and>
    (\<forall>s'. all_stored H account s' rows \<longrightarrow> all_stored H account s' rows') \<and>
    (err = None \<longrightarrow> (\<exists>trades. update s trades account rows = (rows', None) \<and>
       (whole \<and> rows' = insert_trades account trades rows \<longrightarrow> all_stored H account s rows')))"
proof -
  from assms(1) have h: "sorted_wrt (\<lambda>t u. th_ID t < th_ID u) (H s)"
      "\<forall>t\<in>set (H s). 0 < th_ID t \<and> th_ID t + 1 < 2 ^ 64"
    by (auto simp: history_ok_def)
  from retry_page_ok [OF assms(2,3)]
  have "\<forall>n page. getTradeHistoryWithRetry client attempts s n = (page, None) \<longrightarrow> page_ok whole (H s) n page" by blast
  from trade_pages_upto [OF this h, of "from s" "[]"] obtain trades e where
    g: "getTradeHistoryForOneSymBol client attempts (from s) s = Some (trades, e)"
    "e = None \<longrightarrow> (\<exists>m. trades = filter (\<lambda>t. from s \<le> th_ID t \<and> th_ID t \<le> m) (H s) \<and>
       (whole \<longrightarrow> (\<forall>t\<in>set (H s). th_ID t \<le> m)))"
    by (auto simp: getTradeHistoryForOneSymBol_def)
  show ?thesis
  proof (cases e)
    case None
    with g(2) obtain m where m: "trades = filter (\<lambda>t. from s \<le> th_ID t \<and> th_ID t \<le> m) (H s)"
      "whole \<longrightarrow> (\<forall>t\<in>set (H s). th_ID t \<le> m)" by blast
    obtain rows' err where u: "update s trades account rows = (rows', err)" by fastforce
    note rest = insert_rest [OF assms(1,4) m(1)]
    from update_rows [OF u] rest assms(4) have "table_inv H account from rows'"
      "\<forall>s'. all_stored H account s' rows \<longrightarrow> all_stored H account s' rows'" by auto
    with g(1) None u rest m(2) show ?thesis by (auto simp: fetch_pair_def)
  next
    case (Some e')
    with g(1) assms(4) show ?thesis by (simp add: fetch_pair_def)
  qed
qed

lemma run_keeps:
  assumes "history_ok H" "source_ok whole H client"
    and "0 < attempts" "0 < batchSize" "\<And>b. set (order b) = set b"
    and "keys_ok H account rows" "up_to_last H account rows" "\<And>s. from s \<le> GetLastStoredID s account rows"
  shows "\<exists>rows' err. run_batches (fetch_pair client attempts update from account) order batchSize pairs 0 rows =
    Some (rows', err) \<and> up_to_last H account rows'"
proof -
  have "achieves (fetch_pair client attempts update from account) (table_inv H account from) (\<lambda>s rows. True)"
    unfolding achieves_def using fetch_pair_step [OF assms(1-3)] by blast
  from run_batches_achieves [OF this _ assms(4,5), of rows pairs 0] assms(6-8)
  show ?thesis by (auto simp: table_inv_def)
qed

end

text \<open>A table whose function returns no error only when the trades are in.\<close>

locale reporting_table = trade_table +
  assumes update_reports: "update s trades account rows = (rows', None) \<Longrightarrow> rows' = insert_trades account trades rows"
begin

lemma run_complete:
  assumes "history_ok H" "exchange_ok H client"
    and "0 < attempts" "0 < batchSize" "\<And>b. set (order b) = set b"
    and "keys_ok H account rows" "up_to_last H account rows" "\<And>s. from s \<le> GetLastStoredID s account rows"
  shows "\<exists>rows' err. run_batches (fetch_pair client attempts update from account) order batchSize pairs 0 rows =
    Some (rows', err) \<and> up_to_last H account rows' \<and> (err = None \<longrightarrow> (\<forall>s\<in>set pairs. all_stored H account s rows'))"
proof -
  have "\<exists>rows' err. fetch_pair client attempts update from account s rows = Some (rows', err) \<and>
      table_inv H account from rows' \<and> (\<forall>s'. all_stored H account s' rows \<longrightarrow> all_stored H account s' rows') \<and>
      (err = None \<longrightarrow> all_stored H account s rows')" if "table_inv H account from rows" for s rows
    using fetch_pair_step [OF assms(1) exchange_source [OF assms(2)] assms(3) that, of s] update_reports by blast
  then have "achieves (fetch_pair client attempts update from account) (table_inv H account from)
      (\<lambda>s rows. all_stored H account s rows)"
    unfolding achieves_def by blast
  from run_batches_achieves [OF this _ assms(4,5), of rows pairs 0] assms(6-8)
  show ?thesis by (auto simp: table_inv_def)
qed

end

lemma UpdateTradeHistory_rows:
  "UpdateTradeHistory E trades account rows = (rows', e) \<Longrightarrow>
   (rows' = rows \<and> e \<noteq> None) \<or> (rows' = insert_trades account trades rows \<and> e = None)"
  by (auto simp: UpdateTradeHistory_def split: option.splits)

interpretation binance_trades: reporting_table "\<lambda>s. UpdateTradeHistory (E s)" for E
  by unfold_locales (use UpdateTradeHistory_rows in blast)+

interpretation binance_margin: trade_table "\<lambda>s. UpdateMarginTradeHistory (E s)" for E
  by unfold_locales (auto simp: UpdateMarginTradeHistory_def split: option.splits)

section \<open>Properties\<close>

text \<open>
  C28: The trade fetcher of an account is incremental and complete. Whatever requests and statements fail,
  and in whatever order the goroutines of a batch finish, a run ends, and then the database has of each
  pair exactly the trades of the exchange up to the last stored id, so that starting the next run from
  that id misses none; and when the run ends without an error it has all trades of every pair. (The table
  is unique in the id and the pair: the trades of two accounts with each other are excluded.)
\<close>

theorem fetch_account_complete:
  assumes "history_ok H" "exchange_ok H client" "0 < attempts" "0 < batchSize" "\<forall>b. set (order b) = set b"
    and "own_keys H account rows" "up_to_last H account rows" "inj_on trade_row_key (set rows)"
  shows "\<exists>rows' err. fetch_account client attempts batchSize E order pairs account rows = Some (rows', err) \<and>
    up_to_last H account rows' \<and> (err = None \<longrightarrow> (\<forall>s\<in>set pairs. all_stored H account s rows'))"
  unfolding fetch_account_def GetTradeHistory_def
  using assms(5) own_keys_ok [OF assms(1,6-8)] assms(7)
  by (intro binance_trades.run_complete [OF assms(1-4)]) simp_all

text \<open>
  The margin trades of an account keep the same invariant, but a run without an error need not be
  complete: the error of a commit is lost, and the answer 500 of the exchange counts as the end of the
  trades. The trades are not lost either: they are after the last stored id, where the next run starts.
\<close>

theorem fetch_margin_account_keeps:
  assumes "history_ok H" "exchange_ok H send" "0 < attempts" "0 < batchSize" "\<forall>b. set (order b) = set b"
    and "own_keys H account rows" "up_to_last H account rows" "inj_on trade_row_key (set rows)"
  shows "\<exists>rows' err. fetch_margin_account (margin_client send) attempts batchSize E order pairs account rows =
    Some (rows', err) \<and> up_to_last H account rows'"
  unfolding fetch_margin_account_def GetMarginTradeHistory_def
  using assms(5) own_keys_ok [OF assms(1,6-8)] assms(7)
  by (intro binance_margin.run_keeps [OF assms(1) margin_source [OF assms(2)] assms(3,4)]) simp_all

section \<open>A concrete run\<close>

definition sample_trade_of :: "string \<Rightarrow> nat \<Rightarrow> TradeHistory" where
  "sample_trade_of s i = \<lparr> th_Symbol = s, th_ID = i, th_OrderID = 5, th_Price = ''0.004'', th_Quantity = ''50'',
     th_QuoteQuantity = '''', th_Commission = ''0.05'', th_CommissionAsset = ''KNC'', th_Time = 1516439513145,
     th_IsBuyer = True, th_IsMaker = True, th_IsBestMatch = True, th_IsIsolated = None \<rparr>"

definition sample_history :: "string \<Rightarrow> TradeHistory list" where
  "sample_history s = (if s = ''KNCETH'' then map (sample_trade_of s) [3, 5, 8] else [])"

text \<open>Two trades in an answer; the first attempt of every request fails.\<close>

definition sample_exchange :: trade_client where
  "sample_exchange s n i =
     (if i = 0 then ([], Some (Err ''timeout'')) else (take 2 (filter (\<lambda>t. n \<le> th_ID t) (sample_history s)), None))"

lemma sample_exchange_ok: "history_ok sample_history" "exchange_ok sample_history sample_exchange"
proof -
  show "history_ok sample_history" by (auto simp: history_ok_def sample_history_def sample_trade_of_def)
  show "exchange_ok sample_history sample_exchange"
    unfolding exchange_ok_def by (auto simp: sample_exchange_def intro: exI [of _ 2])
qed

lemma empty_table:
  "history_ok H \<Longrightarrow> own_keys H account [] \<and> up_to_last H account [] \<and> inj_on trade_row_key (set [])"
  by (force simp: own_keys_def up_to_last_def account_rows_def GetLastStoredID_def history_ok_def)

abbreviation no_tx_errors :: "string \<Rightarrow> tx_errors" where
  "no_tx_errors \<equiv> \<lambda>s. \<lparr> te_begin = None, te_exec = None, te_commit = None \<rparr>"

lemma one_batch:
  assumes "pairs \<noteq> []" "length pairs \<le> batchSize"
  shows "run_batches go order batchSize pairs 0 rows = run_batch go (order pairs) rows"
proof -
  have "run_batches go order batchSize pairs batchSize rows' = Some (rows', None)" for rows'
    using assms(2) by (subst run_batches.simps) simp
  then show ?thesis using assms
    by (subst run_batches.simps) (cases "run_batch go (order pairs) rows"; auto)
qed

lemma sample_request:
  "getTradeHistoryWithRetry sample_exchange 2 s n = (take 2 (filter (\<lambda>t. n \<le> th_ID t) (sample_history s)), None)"
proof -
  have "binance_attempts fn 0 2 acc = (p, None)" if "fn 0 = (r, Some (Err ''timeout''))" "fn 1 = (p, None)"
    for fn acc and r p :: "TradeHistory list"
    using that by (simp add: numeral_2_eq_2 ErrBadAPIKeyFormat_def ErrRejectedMBxKey_def)
  then show ?thesis by (simp add: getTradeHistoryWithRetry_def sample_exchange_def)
qed

lemma sample_pages:
  "trade_pages (getTradeHistoryWithRetry sample_exchange 2 ''KNCETH'') 0 [] =
     Some (map (sample_trade_of ''KNCETH'') [3, 5, 8], None)"
  "trade_pages (getTradeHistoryWithRetry sample_exchange 2 ''ETHBTC'') 0 [] = Some ([], None)"
proof -
  note eval = trade_pages.simps sample_request sample_history_def sample_trade_of_def u64_add_def
  show "trade_pages (getTradeHistoryWithRetry sample_exchange 2 ''KNCETH'') 0 [] =
      Some (map (sample_trade_of ''KNCETH'') [3, 5, 8], None)"
    by (subst trade_pages.simps, simp add: eval(2-))+
  show "trade_pages (getTradeHistoryWithRetry sample_exchange 2 ''ETHBTC'') 0 [] = Some ([], None)"
    by (subst trade_pages.simps) (simp add: eval(2-))
qed

lemmas binance_eval = one_batch fetch_pair_def getTradeHistoryForOneSymBol_def UpdateTradeHistory_def
  UpdateMarginTradeHistory_def GetLastStoredID_def

lemma sample_run:
  "\<exists>rows. fetch_account sample_exchange 2 5 no_tx_errors rev [''ETHBTC'', ''KNCETH''] ''main'' [] = Some (rows, None)"
  by (simp add: fetch_account_def GetTradeHistory_def binance_eval sample_pages)

theorem fetch_account_complete_witness:
  "\<exists>rows. fetch_account sample_exchange 2 5 no_tx_errors rev [''ETHBTC'', ''KNCETH''] ''main'' [] = Some (rows, None) \<and>
     all_stored sample_history ''main'' ''KNCETH'' rows"
proof -
  obtain rows where run:
    "fetch_account sample_exchange 2 5 no_tx_errors rev [''ETHBTC'', ''KNCETH''] ''main'' [] = Some (rows, None)"
    using sample_run by blast
  from empty_table [OF sample_exchange_ok(1), of "''main''"]
  have "own_keys sample_history ''main'' []" "up_to_last sample_history ''main'' []" "inj_on trade_row_key (set [])"
    by blast+
  from fetch_account_complete [OF sample_exchange_ok _ _ _ this, of 2 5 rev no_tx_errors "[''ETHBTC'', ''KNCETH'']"] run
  show ?thesis by simp
qed

text \<open>The exchange answers 500 to the request for the trades from id 6 on: the trade 8 is left for later.\<close>

definition sample_send :: trade_client where
  "sample_send s n i = (if n = 6 then ([], Some Err500) else sample_exchange s n i)"

lemma sample_margin_request:
  "getTradeHistoryWithRetry (margin_client sample_send) 2 s n =
     (if n = 6 then [] else take 2 (filter (\<lambda>t. n \<le> th_ID t) (sample_history s)), None)"
proof -
  have "binance_attempts fn 0 2 acc = (p, None)" if "fn 0 = (p, None)" for fn acc and p :: "TradeHistory list"
    using that by (simp add: numeral_2_eq_2)
  moreover have "binance_attempts (margin_client sample_send s n) 0 2 acc = getTradeHistoryWithRetry sample_exchange 2 s n"
    if "n \<noteq> 6" for acc
    using that by (simp add: getTradeHistoryWithRetry_def numeral_2_eq_2 margin_client_def sample_send_def
        sample_exchange_def Err500_def ErrBadAPIKeyFormat_def ErrRejectedMBxKey_def)
  ultimately show ?thesis
    using sample_request [unfolded getTradeHistoryWithRetry_def]
    by (simp add: getTradeHistoryWithRetry_def margin_client_def sample_send_def)
qed

lemma sample_margin_pages:
  "trade_pages (getTradeHistoryWithRetry (margin_client sample_send) 2 ''KNCETH'') 0 [] =
     Some (map (sample_trade_of ''KNCETH'') [3, 5], None)"
  by (subst trade_pages.simps,
      simp add: sample_margin_request sample_history_def sample_trade_of_def u64_add_def)+

theorem fetch_margin_account_keeps_witness:
  "\<exists>rows. fetch_margin_account (margin_client sample_send) 2 5 no_tx_errors rev [''KNCETH''] ''main'' [] = Some (rows, None) \<and>
     up_to_last sample_history ''main'' rows \<and> map br_id rows = [3, 5]"
proof -
  have ok: "exchange_ok sample_history sample_send"
    using sample_exchange_ok(2) by (simp add: exchange_ok_def sample_send_def)
  obtain rows where run:
    "fetch_margin_account (margin_client sample_send) 2 5 no_tx_errors rev [''KNCETH''] ''main'' [] = Some (rows, None)"
    "map br_id rows = [3, 5]"
    by (simp add: fetch_margin_account_def GetMarginTradeHistory_def binance_eval sample_margin_pages
        insert_trades_def insert_new_def trade_row_key_def sample_trade_of_def)
  from empty_table [OF sample_exchange_ok(1), of "''main''"]
  have "own_keys sample_history ''main'' []" "up_to_last sample_history ''main'' []" "inj_on trade_row_key (set [])"
    by blast+
  from fetch_margin_account_keeps [OF sample_exchange_ok(1) ok _ _ _ this, of 2 5 rev no_tx_errors "[''KNCETH'']"] run
  show ?thesis by simp
qed

end
