(* ===== verification/BinanceWithdrawals.thy ===== *)
theory BinanceWithdrawals
  imports GoFloat Tables
begin

text \<open>
  The withdrawals of the accounts on Binance: the windows of \<open>GetWithdrawHistory\<close> in
  \<open>accounting/binance/fetcher/fetcher.go\<close>, the table of
  \<open>accounting/binance/storage/withdrawalstorage/withdraw_storage.go\<close>, and the run for an account of
  \<open>accounting/cmd/accounting-binance-withdrawal-fetcher/main.go\<close>.

  The request is a parameter: \<open>send start stop i\<close> is what the exchange returns in attempt \<open>i\<close> for the two
  timestamps. The storage compares \<open>applyTime\<close> as the text of the JSON; the model compares the numbers, which
  is the same for timestamps of 13 digits (the years 2001 to 2286).
\<close>

section \<open>Data\<close>

record WithdrawHistory =
  wh_ID :: string
  wh_Amount :: f64
  wh_Address :: string
  wh_Asset :: string
  wh_TxID :: string
  wh_ApplyTime :: nat
  wh_Status :: int
  wh_TxFee :: f64

datatype BinanceWithdrawStatus =
  EmailSent | Cancelled | AwaitingApproval | Rejected | Processing | Failure | Completed

fun status_code :: "BinanceWithdrawStatus \<Rightarrow> int" where
  "status_code EmailSent = 0"
| "status_code Cancelled = 1"
| "status_code AwaitingApproval = 2"
| "status_code Rejected = 3"
| "status_code Processing = 4"
| "status_code Failure = 5"
| "status_code Completed = 6"

section \<open>Requests\<close>

type_synonym withdraw_client = "nat option \<Rightarrow> nat option \<Rightarrow> nat \<Rightarrow> WithdrawHistory list \<times> go_err option"

text \<open>The client leaves a zero time out of the query.\<close>

definition GetWithdrawalHistory :: "withdraw_client \<Rightarrow> gotime \<Rightarrow> gotime \<Rightarrow> nat \<Rightarrow> WithdrawHistory list \<times> go_err option" where
  "GetWithdrawalHistory send fromTime toTime =
     send (if fromTime \<noteq> zero_time then Some (TimeToTimestampMs fromTime) else None)
          (if toTime \<noteq> zero_time then Some (TimeToTimestampMs toTime) else None)"

definition getWithdrawHistoryWithRetry :: "withdraw_client \<Rightarrow> nat \<Rightarrow> gotime \<Rightarrow> gotime
    \<Rightarrow> WithdrawHistory list \<times> go_err option" where
  "getWithdrawHistoryWithRetry send attempts startTime endTime =
     retry_from (GetWithdrawalHistory send startTime endTime) 0 attempts ([], None)"

definition withdrawalTimeLimit :: int where "withdrawalTimeLimit = Hour * 24 * 90"

partial_function (option) withdraw_windows ::
  "(gotime \<Rightarrow> gotime \<Rightarrow> WithdrawHistory list \<times> go_err option) \<Rightarrow> gotime \<Rightarrow> gotime \<Rightarrow> WithdrawHistory list
    \<Rightarrow> (WithdrawHistory list \<times> go_err option) option" where
  "withdraw_windows get fromTime toTime result =
     (if fromTime < toTime then
        let endTime = (if toTime < fromTime + withdrawalTimeLimit then toTime else fromTime + withdrawalTimeLimit) in
        (case get fromTime endTime of
           (l, Some e) \<Rightarrow> Some (result, Some e)
         | (l, None) \<Rightarrow> withdraw_windows get endTime toTime (result @ l))
      else Some (result, None))"

definition GetWithdrawHistory :: "withdraw_client \<Rightarrow> nat \<Rightarrow> gotime \<Rightarrow> gotime
    \<Rightarrow> (WithdrawHistory list \<times> go_err option) option" where
  "GetWithdrawHistory send attempts fromTime toTime =
     withdraw_windows (getWithdrawHistoryWithRetry send attempts) fromTime toTime []"

section \<open>Storage\<close>

record withdraw_row =
  wr_id :: string
  wr_data :: WithdrawHistory
  wr_account :: string
  wr_timestamp :: gotime

text \<open>\<open>ON CONFLICT ON CONSTRAINT binance_withdrawals_pk DO UPDATE SET data = EXCLUDED.data\<close>.\<close>

fun upsert_withdraw :: "withdraw_row \<Rightarrow> withdraw_row list \<Rightarrow> withdraw_row list" where
  "upsert_withdraw r [] = [r]"
| "upsert_withdraw r (x # xs) =
     (if wr_id x = wr_id r then x\<lparr> wr_data := wr_data r \<rparr> # xs else x # upsert_withdraw r xs)"

definition withdraw_row_of :: "string \<Rightarrow> WithdrawHistory \<Rightarrow> withdraw_row" where
  "withdraw_row_of account w = \<lparr> wr_id = wh_ID w, wr_data = w, wr_account = account,
     wr_timestamp = TimestampMsToTime (wh_ApplyTime w) \<rparr>"

text \<open>PostgreSQL refuses an insertion that updates a row twice, so the ids of the call have to be distinct.\<close>

definition upsert_withdrawals :: "WithdrawHistory list \<Rightarrow> string \<Rightarrow> withdraw_row list \<Rightarrow> go_err + withdraw_row list" where
  "upsert_withdrawals ws account rows =
     (if distinct (map wh_ID ws) then Inr (fold (\<lambda>w. upsert_withdraw (withdraw_row_of account w)) ws rows)
      else Inl twice_affected)"

text \<open>\<open>db\<close> has the errors of \<open>Beginx\<close>, of \<open>Exec\<close> for another reason, and of \<open>Commit\<close>; the result is named.\<close>

definition UpdateWithdrawHistory :: "go_err option \<times> go_err option \<times> go_err option \<Rightarrow> WithdrawHistory list \<Rightarrow> string
    \<Rightarrow> withdraw_row list \<Rightarrow> withdraw_row list \<times> go_err option" where
  "UpdateWithdrawHistory db ws account rows =
     (case db of
        (Some e, _, _) \<Rightarrow> (rows, Some e)
      | (None, Some e, _) \<Rightarrow> (rows, Some e)
      | (None, None, commit) \<Rightarrow>
          (case upsert_withdrawals ws account rows of
             Inl e \<Rightarrow> (rows, Some e)
           | Inr rows' \<Rightarrow> (case commit of
               None \<Rightarrow> (rows', None)
             | Some e \<Rightarrow> (rows, Some (errors_Wrap ''failed to commit transaction'' e)))))"

text \<open>2018-01-01 00:00:00 UTC.\<close>

definition withdrawals_start :: gotime where "withdrawals_start = 1514764800 * 10 ^ 9"

definition apply_times :: "(withdraw_row \<Rightarrow> bool) \<Rightarrow> withdraw_row list \<Rightarrow> nat set" where
  "apply_times P rows = (\<lambda>r. wh_ApplyTime (wr_data r)) ` {r \<in> set rows. P r}"

definition not_completed :: "withdraw_row \<Rightarrow> bool" where
  "not_completed r \<longleftrightarrow> wh_Status (wr_data r) \<in> {status_code AwaitingApproval, status_code Processing}"

definition GetLastStoredTimestamp :: "string \<Rightarrow> withdraw_row list \<Rightarrow> gotime" where
  "GetLastStoredTimestamp account rows =
     (let open_times = apply_times (\<lambda>r. not_completed r \<and> wr_account r = account) rows;
          all_times = apply_times (\<lambda>r. wr_account r = account) rows;
          first_open = (if open_times = {} then 0 else Min open_times);
          dbResult = (if first_open \<noteq> 0 then first_open else if all_times = {} then 0 else Max all_times)
      in if dbResult \<noteq> 0 then TimestampMsToTime dbResult else withdrawals_start)"

text \<open>The run for an account; \<open>fromTime\<close> is the one of the command line, if it is given.\<close>

definition fetch_withdrawals :: "withdraw_client \<Rightarrow> nat \<Rightarrow> go_err option \<times> go_err option \<times> go_err option \<Rightarrow> gotime option
    \<Rightarrow> gotime \<Rightarrow> string \<Rightarrow> withdraw_row list \<Rightarrow> (withdraw_row list \<times> go_err option) option" where
  "fetch_withdrawals send attempts db fromTime toTime account rows =
     (let fromTime = (case fromTime of Some t \<Rightarrow> t | None \<Rightarrow> GetLastStoredTimestamp account rows) in
      (case GetWithdrawHistory send attempts fromTime toTime of
         None \<Rightarrow> None
       | Some (ws, Some e) \<Rightarrow> Some (rows, Some e)
       | Some (ws, None) \<Rightarrow> Some (UpdateWithdrawHistory db ws account rows)))"

section \<open>The windows\<close>

text \<open>
  \<open>H\<close> are the withdrawals of the account. What Binance documents: the answer has those whose time lies
  between the two timestamps, both included. A call may fail at any time.
\<close>

definition withdraw_exchange_ok :: "WithdrawHistory list \<Rightarrow> withdraw_client \<Rightarrow> bool" where
  "withdraw_exchange_ok H send \<longleftrightarrow> (\<forall>a b i l. send (Some a) (Some b) i = (l, None) \<longrightarrow>
     l = filter (\<lambda>w. a \<le> wh_ApplyTime w \<and> wh_ApplyTime w \<le> b) H)"

text \<open>The withdrawals at the millisecond in which one window ends and the next one starts.\<close>

definition at_boundary :: "gotime \<Rightarrow> gotime \<Rightarrow> WithdrawHistory \<Rightarrow> bool" where
  "at_boundary fromTime toTime w \<longleftrightarrow> (\<exists>k. fromTime + int (Suc k) * withdrawalTimeLimit < toTime \<and>
     wh_ApplyTime w = TimeToTimestampMs (fromTime + int (Suc k) * withdrawalTimeLimit))"

definition window_of :: "WithdrawHistory list \<Rightarrow> gotime \<Rightarrow> gotime \<Rightarrow> WithdrawHistory list" where
  "window_of H a b = filter (\<lambda>w. TimeToTimestampMs a \<le> wh_ApplyTime w \<and> wh_ApplyTime w \<le> TimeToTimestampMs b) H"

lemma limit_pos: "0 < withdrawalTimeLimit"
  by (simp add: withdrawalTimeLimit_def go_defs)

lemma retry_window:
  assumes "withdraw_exchange_ok H send" "0 < attempts" "0 \<le> a" "0 \<le> b"
    and "getWithdrawHistoryWithRetry send attempts a b = (l, None)"
  shows "l = window_of H a b"
proof -
  obtain k where k: "attempts = Suc k" using assms(2) gr0_conv_Suc by blast
  have "a \<noteq> zero_time" "b \<noteq> zero_time" using assms(3,4) by (auto simp: zero_time_def Second_def)
  moreover have "\<exists>j. GetWithdrawalHistory send a b j = (l, None)"
    using assms(5) k unfolding getWithdrawHistoryWithRetry_def
    by (auto split: prod.splits option.splits dest!: retry_from_outcome)
  ultimately show ?thesis using assms(1)
    by (auto simp: GetWithdrawalHistory_def withdraw_exchange_ok_def window_of_def)
qed

lemma at_boundary_step:
  assumes "fromTime + withdrawalTimeLimit < toTime"
  shows "at_boundary fromTime toTime w \<longleftrightarrow> wh_ApplyTime w = TimeToTimestampMs (fromTime + withdrawalTimeLimit) \<or>
    at_boundary (fromTime + withdrawalTimeLimit) toTime w"
proof
  assume "at_boundary fromTime toTime w"
  then obtain k where k: "fromTime + int (Suc k) * withdrawalTimeLimit < toTime"
    "wh_ApplyTime w = TimeToTimestampMs (fromTime + int (Suc k) * withdrawalTimeLimit)" by (auto simp: at_boundary_def)
  show "wh_ApplyTime w = TimeToTimestampMs (fromTime + withdrawalTimeLimit) \<or>
    at_boundary (fromTime + withdrawalTimeLimit) toTime w"
  proof (cases k)
    case 0
    with k show ?thesis by simp
  next
    case (Suc j)
    with k have "at_boundary (fromTime + withdrawalTimeLimit) toTime w"
      unfolding at_boundary_def by (intro exI [of _ j]) (simp add: algebra_simps)
    then show ?thesis ..
  qed
next
  assume "wh_ApplyTime w = TimeToTimestampMs (fromTime + withdrawalTimeLimit) \<or>
    at_boundary (fromTime + withdrawalTimeLimit) toTime w"
  then show "at_boundary fromTime toTime w"
  proof
    assume "wh_ApplyTime w = TimeToTimestampMs (fromTime + withdrawalTimeLimit)"
    with assms show ?thesis unfolding at_boundary_def by (intro exI [of _ 0]) simp
  next
    assume "at_boundary (fromTime + withdrawalTimeLimit) toTime w"
    then obtain k where "fromTime + withdrawalTimeLimit + int (Suc k) * withdrawalTimeLimit < toTime"
      "wh_ApplyTime w = TimeToTimestampMs (fromTime + withdrawalTimeLimit + int (Suc k) * withdrawalTimeLimit)"
      by (auto simp: at_boundary_def)
    then show ?thesis unfolding at_boundary_def by (intro exI [of _ "Suc k"]) (simp add: algebra_simps)
  qed
qed

lemma withdraw_windows_spec:
  assumes get: "\<forall>a b l. 0 \<le> a \<longrightarrow> 0 \<le> b \<longrightarrow> get a b = (l, None) \<longrightarrow> l = window_of H a b"
    and "0 \<le> fromTime" "toTime < 2 ^ 63" "distinct H"
  shows "\<exists>ws err. withdraw_windows get fromTime toTime result = Some (result @ ws, err) \<and>
    (err = None \<longrightarrow> (if fromTime < toTime then set ws = set (window_of H fromTime toTime) \<and>
       (distinct ws \<longleftrightarrow> (\<forall>w\<in>set H. \<not> at_boundary fromTime toTime w)) else ws = []))"
  using assms(2)
proof (induction "nat (toTime - fromTime)" arbitrary: fromTime result rule: less_induct)
  case less
  let ?stop = "if toTime < fromTime + withdrawalTimeLimit then toTime else fromTime + withdrawalTimeLimit"
  show ?case
  proof (cases "fromTime < toTime")
    case False
    then show ?thesis by (subst withdraw_windows.simps) simp
  next
    case True
    then have e: "fromTime < ?stop" "?stop \<le> toTime" using limit_pos by auto
    obtain l x where g: "get fromTime ?stop = (l, x)" by fastforce
    show ?thesis
    proof (cases x)
      case (Some err)
      with g True show ?thesis by (subst withdraw_windows.simps) simp
    next
      case None
      with g get less.prems e have l: "l = window_of H fromTime ?stop" by auto
      then have dl: "distinct l" using assms(4) by (simp add: window_of_def)
      have "nat (toTime - ?stop) < nat (toTime - fromTime)" "0 \<le> ?stop" using e less.prems by auto
      from less.hyps [OF this, of "result @ l"] obtain ws err where
        w: "withdraw_windows get ?stop toTime (result @ l) = Some ((result @ l) @ ws, err)"
        "err = None \<longrightarrow> (if ?stop < toTime then set ws = set (window_of H ?stop toTime) \<and>
           (distinct ws \<longleftrightarrow> (\<forall>w\<in>set H. \<not> at_boundary ?stop toTime w)) else ws = [])" by blast
      have run: "withdraw_windows get fromTime toTime result = Some (result @ (l @ ws), err)"
        using True g None w(1) by (subst withdraw_windows.simps) (simp add: Let_def)
      have "set (l @ ws) = set (window_of H fromTime toTime) \<and>
          (distinct (l @ ws) \<longleftrightarrow> (\<forall>w\<in>set H. \<not> at_boundary fromTime toTime w))" if "err = None"
      proof (cases "?stop < toTime")
        case False
        with e have "?stop = toTime" by simp
        moreover have "\<not> at_boundary fromTime toTime w" for w
        proof -
          have "toTime \<le> fromTime + withdrawalTimeLimit" using False limit_pos by (auto split: if_splits)
          moreover have "withdrawalTimeLimit \<le> int (Suc k) * withdrawalTimeLimit" for k
            using limit_pos by (simp add: algebra_simps)
          ultimately have "\<not> fromTime + int (Suc k) * withdrawalTimeLimit < toTime" for k
            by (meson add_left_mono not_less order_trans)
          then show ?thesis by (simp add: at_boundary_def)
        qed
        ultimately show ?thesis using False that w(2) l dl by simp
      next
        case True
        then have "?stop = fromTime + withdrawalTimeLimit" "fromTime + withdrawalTimeLimit < toTime"
          by (auto split: if_splits)
        note bound = this
        from True that w(2) have ws: "set ws = set (window_of H ?stop toTime)"
          "distinct ws \<longleftrightarrow> (\<forall>w\<in>set H. \<not> at_boundary ?stop toTime w)" by simp_all
        have ms: "TimeToTimestampMs fromTime \<le> TimeToTimestampMs ?stop" "TimeToTimestampMs ?stop \<le> TimeToTimestampMs toTime"
          using e less.prems assms(3) by (auto intro!: TimeToTimestampMs_mono)
        have "set (l @ ws) = set (window_of H fromTime toTime)"
          unfolding set_append l ws(1) using ms by (auto simp: window_of_def)
        moreover have "set l \<inter> set ws = {w \<in> set H. wh_ApplyTime w = TimeToTimestampMs ?stop}"
          unfolding l ws(1) using ms by (auto simp: window_of_def)
        then have "distinct (l @ ws) \<longleftrightarrow> (\<forall>w\<in>set H. \<not> at_boundary fromTime toTime w)"
          using dl ws(2) bound at_boundary_step [OF bound(2)] by auto
        ultimately show ?thesis ..
      qed
      with run True show ?thesis by auto
    qed
  qed
qed

section \<open>The rows\<close>

definition has_withdrawal :: "withdraw_row list \<Rightarrow> WithdrawHistory \<Rightarrow> bool" where
  "has_withdrawal rows w \<longleftrightarrow> (\<exists>r\<in>set rows. wr_id r = wh_ID w \<and> wr_data r = w)"

lemma withdraw_row_of_simps [simp]:
  "wr_id (withdraw_row_of account w) = wh_ID w" "wr_data (withdraw_row_of account w) = w"
  by (simp_all add: withdraw_row_of_def)

lemma upsert_withdraw_has: "has_withdrawal (upsert_withdraw (withdraw_row_of account w) rows) w"
  by (induction rows) (auto simp: has_withdrawal_def)

lemma upsert_withdraw_other:
  "has_withdrawal rows v \<Longrightarrow> wh_ID v \<noteq> wh_ID w \<Longrightarrow> has_withdrawal (upsert_withdraw (withdraw_row_of account w) rows) v"
  by (induction rows) (auto simp: has_withdrawal_def)

lemma upsert_withdrawals_keep:
  "has_withdrawal rows v \<Longrightarrow> wh_ID v \<notin> wh_ID ` set ws \<Longrightarrow>
   has_withdrawal (fold (\<lambda>w. upsert_withdraw (withdraw_row_of account w)) ws rows) v"
  by (induction ws arbitrary: rows) (auto simp: upsert_withdraw_other)

lemma upsert_withdrawals_has:
  "distinct (map wh_ID ws) \<Longrightarrow> w \<in> set ws \<Longrightarrow>
   has_withdrawal (fold (\<lambda>w. upsert_withdraw (withdraw_row_of account w)) ws rows) w"
proof (induction ws arbitrary: rows)
  case (Cons v ws)
  show ?case
  proof (cases "w = v")
    case True
    with Cons.prems show ?thesis by (auto intro!: upsert_withdrawals_keep upsert_withdraw_has)
  next
    case False
    with Cons show ?thesis by simp
  qed
qed simp

lemma GetWithdrawHistory_spec:
  assumes "withdraw_exchange_ok H send" "0 < attempts" "distinct H" "0 \<le> fromTime" "fromTime < toTime" "toTime < 2 ^ 63"
  shows "\<exists>ws err. GetWithdrawHistory send attempts fromTime toTime = Some (ws, err) \<and>
    (err = None \<longrightarrow> set ws = set (window_of H fromTime toTime) \<and>
       (distinct ws \<longleftrightarrow> (\<forall>w\<in>set H. \<not> at_boundary fromTime toTime w)))"
proof -
  have "\<forall>a b l. 0 \<le> a \<longrightarrow> 0 \<le> b \<longrightarrow> getWithdrawHistoryWithRetry send attempts a b = (l, None) \<longrightarrow> l = window_of H a b"
    using retry_window [OF assms(1,2)] by blast
  from withdraw_windows_spec [OF this assms(4,6,3), of "[]"] assms(5) show ?thesis
    by (auto simp: GetWithdrawHistory_def)
qed

section \<open>Properties\<close>

text \<open>
  C30: A run for the withdrawals of an account is all or nothing: with an error it leaves the table as it
  was, and without one it has stored every withdrawal from the start time to the end time, in its present
  state, also those that were stored before and have changed since. (The windows cover the whole time.)
\<close>

theorem fetch_withdrawals_saved:
  assumes "withdraw_exchange_ok H send" "0 < attempts" "distinct (map wh_ID H)"
    and "start = (case fromTime of Some t \<Rightarrow> t | None \<Rightarrow> GetLastStoredTimestamp account rows)"
    and "0 \<le> start" "start < toTime" "toTime < 2 ^ 63"
  shows "\<exists>rows' err. fetch_withdrawals send attempts db fromTime toTime account rows = Some (rows', err) \<and>
    (err \<noteq> None \<longrightarrow> rows' = rows) \<and>
    (err = None \<longrightarrow> (\<forall>w\<in>set H. TimeToTimestampMs start \<le> wh_ApplyTime w \<and> wh_ApplyTime w \<le> TimeToTimestampMs toTime
       \<longrightarrow> has_withdrawal rows' w))"
proof -
  have "distinct H" using assms(3) by (simp add: distinct_map)
  from GetWithdrawHistory_spec [OF assms(1,2) this assms(5-7)] obtain ws err where
    g: "GetWithdrawHistory send attempts start toTime = Some (ws, err)"
    "err = None \<longrightarrow> set ws = set (window_of H start toTime)" by blast
  show ?thesis
  proof (cases err)
    case (Some e)
    with g(1) assms(4) show ?thesis by (simp add: fetch_withdrawals_def)
  next
    case None
    have "has_withdrawal rows' w" if "upsert_withdrawals ws account rows = Inr rows'" "w \<in> set ws" for rows' w
      using that upsert_withdrawals_has by (auto simp: upsert_withdrawals_def split: if_splits)
    moreover have "set ws = {w \<in> set H. TimeToTimestampMs start \<le> wh_ApplyTime w \<and> wh_ApplyTime w \<le> TimeToTimestampMs toTime}"
      using g(2) None by (simp add: window_of_def)
    ultimately show ?thesis using g(1) None assms(4)
      by (auto simp: fetch_withdrawals_def UpdateWithdrawHistory_def split: option.split prod.split sum.split)
  qed
qed

text \<open>
  A withdrawal at the very millisecond in which one window of 90 days ends is fetched twice, because
  the next window starts there, and then the insertion of the whole run is refused. The table stays as it
  was, so the next run starts at the same time and fails again.
\<close>

theorem fetch_withdrawals_boundary_blocks:
  assumes "withdraw_exchange_ok H send" "0 < attempts" "distinct (map wh_ID H)"
    and "start = (case fromTime of Some t \<Rightarrow> t | None \<Rightarrow> GetLastStoredTimestamp account rows)"
    and "0 \<le> start" "start < toTime" "toTime < 2 ^ 63"
    and "w \<in> set H" "at_boundary start toTime w"
  shows "\<exists>e. fetch_withdrawals send attempts db fromTime toTime account rows = Some (rows, Some e)"
proof -
  have d: "distinct H" using assms(3) by (simp add: distinct_map)
  from GetWithdrawHistory_spec [OF assms(1,2) d assms(5-7)] assms(8,9) obtain ws err where
    g: "GetWithdrawHistory send attempts start toTime = Some (ws, err)" "err = None \<longrightarrow> \<not> distinct ws" by blast
  show ?thesis
  proof (cases err)
    case (Some e)
    with g(1) assms(4) show ?thesis by (simp add: fetch_withdrawals_def)
  next
    case None
    with g(2) have "\<not> distinct (map wh_ID ws)" by (auto simp: distinct_map)
    then show ?thesis using g(1) None assms(4)
      by (auto simp: fetch_withdrawals_def UpdateWithdrawHistory_def upsert_withdrawals_def
          split: option.split prod.split)
  qed
qed

section \<open>A concrete run\<close>

definition sample_withdrawal :: "string \<Rightarrow> nat \<Rightarrow> WithdrawHistory" where
  "sample_withdrawal i t = \<lparr> wh_ID = i, wh_Amount = 5, wh_Address = ''0x1'', wh_Asset = ''KNC'', wh_TxID = ''0x2'',
     wh_ApplyTime = t, wh_Status = status_code Completed, wh_TxFee = 1 \<rparr>"

text \<open>One withdrawal 90 days after the start, and one later.\<close>

definition sample_withdrawals :: "WithdrawHistory list" where
  "sample_withdrawals = [sample_withdrawal ''a'' 1522540800000, sample_withdrawal ''b'' 1522540800001]"

definition sample_withdraw_send :: withdraw_client where
  "sample_withdraw_send start stop i = (case (start, stop) of
     (Some a, Some b) \<Rightarrow> (filter (\<lambda>w. a \<le> wh_ApplyTime w \<and> wh_ApplyTime w \<le> b) sample_withdrawals, None)
   | _ \<Rightarrow> ([], None))"

lemma sample_withdraw_ok:
  "withdraw_exchange_ok sample_withdrawals sample_withdraw_send" "distinct (map wh_ID sample_withdrawals)"
  by (simp_all add: withdraw_exchange_ok_def sample_withdraw_send_def sample_withdrawals_def sample_withdrawal_def)

definition sample_withdraw_stop :: gotime where "sample_withdraw_stop = 1530000000 * 10 ^ 9"

theorem fetch_withdrawals_boundary_blocks_witness:
  "\<exists>e. fetch_withdrawals sample_withdraw_send 1 (None, None, None) None sample_withdraw_stop ''main'' [] = Some ([], Some e)"
proof -
  have start: "withdrawals_start = (case None of Some t \<Rightarrow> t | None \<Rightarrow> GetLastStoredTimestamp ''main'' [])"
    by (simp add: GetLastStoredTimestamp_def apply_times_def)
  have "TimeToTimestampMs (withdrawals_start + withdrawalTimeLimit) = 1522540800000"
    by (simp add: TimeToTimestampMs_nonneg withdrawals_start_def withdrawalTimeLimit_def go_defs)
  then have "at_boundary withdrawals_start sample_withdraw_stop (sample_withdrawal ''a'' 1522540800000)"
    unfolding at_boundary_def
    by (intro exI [of _ 0])
      (simp add: withdrawals_start_def withdrawalTimeLimit_def go_defs sample_withdraw_stop_def sample_withdrawal_def)
  from fetch_withdrawals_boundary_blocks [OF sample_withdraw_ok(1) _ sample_withdraw_ok(2) start _ _ _ _ this]
  show ?thesis by (simp add: withdrawals_start_def sample_withdraw_stop_def sample_withdrawals_def)
qed

text \<open>Started a second later, both are saved.\<close>

theorem fetch_withdrawals_saved_witness:
  "\<exists>rows. fetch_withdrawals sample_withdraw_send 1 (None, None, None) (Some (withdrawals_start + 10 ^ 9))
     sample_withdraw_stop ''main'' [] = Some (rows, None) \<and> (\<forall>w\<in>set sample_withdrawals. has_withdrawal rows w)"
proof -
  let ?start = "withdrawals_start + 10 ^ 9"
  let ?run = "fetch_withdrawals sample_withdraw_send 1 (None, None, None) (Some ?start) sample_withdraw_stop ''main'' []"
  have ms: "TimeToTimestampMs ?start = 1514764801000" "TimeToTimestampMs sample_withdraw_stop = 1530000000000"
    "TimeToTimestampMs (?start + withdrawalTimeLimit) = 1522540801000"
    by (simp_all add: TimeToTimestampMs_nonneg withdrawals_start_def withdrawalTimeLimit_def go_defs sample_withdraw_stop_def)
  have get: "getWithdrawHistoryWithRetry sample_withdraw_send 1 a b = (window_of sample_withdrawals a b, None)"
    if "a \<noteq> zero_time" "b \<noteq> zero_time" for a b
    using that by (simp add: getWithdrawHistoryWithRetry_def GetWithdrawalHistory_def sample_withdraw_send_def window_of_def)
  have times: "?start < sample_withdraw_stop" "?start + withdrawalTimeLimit < sample_withdraw_stop"
    "sample_withdraw_stop < ?start + withdrawalTimeLimit + withdrawalTimeLimit"
    "?start \<noteq> zero_time" "?start + withdrawalTimeLimit \<noteq> zero_time" "sample_withdraw_stop \<noteq> zero_time"
    by (simp_all add: withdrawals_start_def withdrawalTimeLimit_def go_defs sample_withdraw_stop_def)
  have "GetWithdrawHistory sample_withdraw_send 1 ?start sample_withdraw_stop = Some (sample_withdrawals, None)"
    unfolding GetWithdrawHistory_def using times get ms
    by (subst withdraw_windows.simps, simp, subst withdraw_windows.simps, simp, subst withdraw_windows.simps)
      (simp add: window_of_def sample_withdrawals_def sample_withdrawal_def)
  then obtain rows where run: "?run = Some (rows, None)"
    using sample_withdraw_ok(2) by (simp add: fetch_withdrawals_def UpdateWithdrawHistory_def upsert_withdrawals_def)
  have bounds: "0 \<le> ?start" "sample_withdraw_stop < 2 ^ 63"
    by (simp_all add: withdrawals_start_def sample_withdraw_stop_def)
  from fetch_withdrawals_saved [OF sample_withdraw_ok(1) _ sample_withdraw_ok(2), where attempts = 1 and start = ?start and fromTime = "Some ?start"
      and toTime = sample_withdraw_stop and account = "''main''" and rows = "[]" and db = "(None, None, None)"] run bounds times(1) ms
  show ?thesis by (simp add: sample_withdrawals_def sample_withdrawal_def)
qed

end
