(* ===== verification/AccountingTx.thy ===== *)
theory AccountingTx
  imports TradeCrawler
begin

text \<open>
  The transactions of the reserves, \<open>accounting/common/tx-types.go\<close> and
  \<open>accounting/reserve-transaction-fetcher/fetcher/fetcher.go\<close>: which of them belong to a trade, their JSON,
  and the pages of the Etherscan API.

  The node and the Etherscan client are parameters, as are the conversions of go-ethereum (\<open>tx_lib\<close>). A
  slice of the data of a log beyond its length is a panic.
\<close>

record tx_lib = eth_lib +
  HashHex :: "hash \<Rightarrow> string"
  AddressHex :: "addr \<Rightarrow> string"

definition go_slice :: "nat \<Rightarrow> nat \<Rightarrow> 'a list \<Rightarrow> 'a list go" where
  "go_slice a b xs = (if b \<le> length xs then Inr (slice a b xs) else Inl (Panic ''slice bounds out of range''))"

section \<open>Transactions\<close>

text \<open>The three structs of the Etherscan client, with the fields that are read.\<close>

record etherscan_NormalTx =
  en_BlockNumber :: int
  en_TimeStamp :: gotime
  en_Hash :: string
  en_BlockHash :: string
  en_From :: string
  en_To :: string
  en_Value :: int
  en_Gas :: int
  en_GasUsed :: int
  en_GasPrice :: int
  en_IsError :: int

record etherscan_InternalTx =
  ei_BlockNumber :: int
  ei_TimeStamp :: gotime
  ei_Hash :: string
  ei_From :: string
  ei_To :: string
  ei_Value :: int
  ei_Gas :: int
  ei_GasUsed :: int
  ei_IsError :: int

record etherscan_ERC20Transfer =
  ee_BlockNumber :: int
  ee_TimeStamp :: gotime
  ee_Hash :: string
  ee_From :: string
  ee_ContractAddress :: string
  ee_To :: string
  ee_Value :: int
  ee_Gas :: int
  ee_GasUsed :: int
  ee_GasPrice :: int

record NormalTx =
  nt_BlockNumber :: int
  nt_Timestamp :: gotime
  nt_Hash :: string
  nt_BlockHash :: string
  nt_From :: string
  nt_To :: string
  nt_Value :: int
  nt_Gas :: int
  nt_GasUsed :: int
  nt_GasPrice :: int
  nt_IsError :: int

record accounting_InternalTx =
  it_BlockNumber :: int
  it_Timestamp :: gotime
  it_Hash :: string
  it_From :: string
  it_To :: string
  it_Value :: int
  it_Gas :: int
  it_GasUsed :: int
  it_IsError :: int
  it_IsTrade :: bool

record ERC20Transfer =
  et_BlockNumber :: int
  et_Timestamp :: gotime
  et_Hash :: hash
  et_From :: addr
  et_ContractAddress :: addr
  et_To :: addr
  et_Value :: int
  et_Gas :: int
  et_GasUsed :: int
  et_GasPrice :: int
  et_IsTrade :: bool

section \<open>Trade detection\<close>

text \<open>Four attempts to get the receipt; \<open>node h i\<close> is the answer of attempt \<open>i\<close>.\<close>

type_synonym receipts = "hash \<Rightarrow> nat \<Rightarrow> receipt \<times> go_err option"

definition receipt_with_retry :: "receipts \<Rightarrow> hash \<Rightarrow> receipt go" where
  "receipt_with_retry node txHash =
     (case retry_from (node txHash) 0 4 (\<lparr> rc_Logs = [], rc_GasUsed = 0 \<rparr>, None) of
        (r, Some e) \<Rightarrow> Inl e
      | (r, None) \<Rightarrow> Inr r)"

text \<open>
  One topic of a log: the answer, if the function returns, or the new \<open>transferEventIndex\<close>. The condition
  compares two pointers to big integers with \<open>==\<close>. \<open>ptr_eq\<close> is this comparison.
\<close>

definition detect_topic :: "tx_lib \<Rightarrow> (int \<Rightarrow> int \<Rightarrow> bool) \<Rightarrow> etherscan_ERC20Transfer \<Rightarrow> log \<Rightarrow> hash \<Rightarrow> nat
    \<Rightarrow> (bool + nat) go" where
  "detect_topic L ptr_eq tx lg topic i =
     go_bind
       (if topic = transferEvent then
          go_bind (go_nth (lg_Topics lg) 1) (\<lambda>t1.
          go_bind (go_nth (lg_Topics lg) 2) (\<lambda>t2.
            let fromAddress = HexToAddress L (HashHex L t1);
                toAddress = HexToAddress L (HashHex L t2);
                val = BytesToHash L (lg_Data lg);
                i' = (if fromAddress = HexToAddress L (ee_From tx) \<and> toAddress = HexToAddress L (ee_To tx) \<and>
                         ptr_eq (HashBig L val) (ee_Value tx) then lg_Index lg else i)
            in if toAddress = HexToAddress L (ee_To tx) \<and> i' \<noteq> 0 \<and> i' < lg_Index lg then Inr (Inl False)
               else Inr (Inr i')))
        else Inr (Inr i))
       (\<lambda>r. case r of
          Inl b \<Rightarrow> Inr (Inl b)
        | Inr i \<Rightarrow>
            if topic = tradeExecuteEvent then
              if i = 0 then Inr (Inl True)
              else go_bind (go_slice 0 32 (lg_Data lg)) (\<lambda>bytes.
                let srcToken = BytesToAddress L bytes in
                if srcToken = ETHAddr then Inr (Inl False)
                else if HexToAddress L (ee_ContractAddress tx) \<noteq> srcToken then Inr (Inl False)
                else Inr (Inl True))
            else Inr (Inr i))"

fun detect_topics :: "tx_lib \<Rightarrow> (int \<Rightarrow> int \<Rightarrow> bool) \<Rightarrow> etherscan_ERC20Transfer \<Rightarrow> log \<Rightarrow> hash list \<Rightarrow> nat
    \<Rightarrow> (bool + nat) go" where
  "detect_topics L ptr_eq tx lg [] i = Inr (Inr i)"
| "detect_topics L ptr_eq tx lg (t # ts) i =
     go_bind (detect_topic L ptr_eq tx lg t i) (\<lambda>r. case r of
       Inl b \<Rightarrow> Inr (Inl b) | Inr i \<Rightarrow> detect_topics L ptr_eq tx lg ts i)"

fun detect_logs :: "tx_lib \<Rightarrow> (int \<Rightarrow> int \<Rightarrow> bool) \<Rightarrow> etherscan_ERC20Transfer \<Rightarrow> log list \<Rightarrow> nat \<Rightarrow> bool go" where
  "detect_logs L ptr_eq tx [] i = Inr False"
| "detect_logs L ptr_eq tx (lg # logs) i =
     go_bind (detect_topics L ptr_eq tx lg (lg_Topics lg) i) (\<lambda>r. case r of
       Inl b \<Rightarrow> Inr b | Inr i \<Rightarrow> detect_logs L ptr_eq tx logs i)"

text \<open>
  \<open>value.Big() == tx.Value.Int()\<close>: \<open>Big\<close> makes a new big integer at each call, so its pointer is no other.
\<close>

definition new_ptr_eq :: "int \<Rightarrow> int \<Rightarrow> bool" where "new_ptr_eq a b = False"

definition DetectTradeTransaction :: "tx_lib \<Rightarrow> receipts \<Rightarrow> etherscan_ERC20Transfer \<Rightarrow> bool go" where
  "DetectTradeTransaction L node tx =
     go_bind (receipt_with_retry node (HexToHash L (ee_Hash tx))) (\<lambda>r. detect_logs L new_ptr_eq tx (rc_Logs r) 0)"

text \<open>What the comments of the function describe: the values are compared.\<close>

definition DetectTradeTransaction_intended :: "tx_lib \<Rightarrow> receipts \<Rightarrow> etherscan_ERC20Transfer \<Rightarrow> bool go" where
  "DetectTradeTransaction_intended L node tx =
     go_bind (receipt_with_retry node (HexToHash L (ee_Hash tx))) (\<lambda>r. detect_logs L (=) tx (rc_Logs r) 0)"

text \<open>Internal transactions: the trade has the amount, on the side of ether.\<close>

definition internal_topic :: "tx_lib \<Rightarrow> int \<Rightarrow> log \<Rightarrow> bool go" where
  "internal_topic L ethAmount lg =
     go_bind (go_slice 64 96 (lg_Data lg)) (\<lambda>dest.
     go_bind (if BytesToAddress L dest = ETHAddr
              then go_bind (go_slice 96 128 (lg_Data lg)) (\<lambda>amount. Inr (HashBig L (BytesToHash L amount) = ethAmount))
              else Inr False) (\<lambda>found.
       if found then Inr True
       else go_bind (go_slice 0 32 (lg_Data lg)) (\<lambda>src.
         if BytesToAddress L src = ETHAddr
         then go_bind (go_slice 32 64 (lg_Data lg)) (\<lambda>amount. Inr (HashBig L (BytesToHash L amount) = ethAmount))
         else Inr False)))"

fun internal_topics :: "tx_lib \<Rightarrow> int \<Rightarrow> log \<Rightarrow> hash list \<Rightarrow> bool go" where
  "internal_topics L ethAmount lg [] = Inr False"
| "internal_topics L ethAmount lg (t # ts) =
     go_bind (if t = tradeExecuteEvent then internal_topic L ethAmount lg else Inr False) (\<lambda>found.
       if found then Inr True else internal_topics L ethAmount lg ts)"

fun internal_logs :: "tx_lib \<Rightarrow> int \<Rightarrow> log list \<Rightarrow> bool go" where
  "internal_logs L ethAmount [] = Inr False"
| "internal_logs L ethAmount (lg # logs) =
     go_bind (internal_topics L ethAmount lg (lg_Topics lg)) (\<lambda>found.
       if found then Inr True else internal_logs L ethAmount logs)"

definition DetectTradeInternalTransaction :: "tx_lib \<Rightarrow> receipts \<Rightarrow> hash \<Rightarrow> int \<Rightarrow> bool go" where
  "DetectTradeInternalTransaction L node txHash ethAmount =
     go_bind (receipt_with_retry node txHash) (\<lambda>r. internal_logs L ethAmount (rc_Logs r))"

section \<open>Conversions\<close>

definition EtherscanNormalTxToCommon :: "etherscan_NormalTx \<Rightarrow> NormalTx" where
  "EtherscanNormalTxToCommon tx = \<lparr> nt_BlockNumber = en_BlockNumber tx, nt_Timestamp = en_TimeStamp tx,
     nt_Hash = en_Hash tx, nt_BlockHash = en_BlockHash tx, nt_From = en_From tx, nt_To = en_To tx,
     nt_Value = en_Value tx, nt_Gas = en_Gas tx, nt_GasUsed = en_GasUsed tx, nt_GasPrice = en_GasPrice tx,
     nt_IsError = en_IsError tx \<rparr>"

definition EtherscanInternalTxToCommon :: "tx_lib \<Rightarrow> receipts \<Rightarrow> etherscan_InternalTx \<Rightarrow> accounting_InternalTx go" where
  "EtherscanInternalTxToCommon L node tx =
     go_bind (DetectTradeInternalTransaction L node (HexToHash L (ei_Hash tx)) (ei_Value tx)) (\<lambda>isTrade.
       Inr \<lparr> it_BlockNumber = ei_BlockNumber tx, it_Timestamp = ei_TimeStamp tx, it_Hash = ei_Hash tx,
             it_From = ei_From tx, it_To = ei_To tx, it_Value = ei_Value tx, it_Gas = ei_Gas tx,
             it_GasUsed = ei_GasUsed tx, it_IsError = ei_IsError tx, it_IsTrade = isTrade \<rparr>)"

definition EtherscanERC20TransferToCommon :: "tx_lib \<Rightarrow> receipts \<Rightarrow> etherscan_ERC20Transfer \<Rightarrow> ERC20Transfer go" where
  "EtherscanERC20TransferToCommon L node tx =
     go_bind (DetectTradeTransaction L node tx) (\<lambda>isTrade.
       Inr \<lparr> et_BlockNumber = ee_BlockNumber tx, et_Timestamp = ee_TimeStamp tx,
             et_Hash = HexToHash L (ee_Hash tx), et_From = HexToAddress L (ee_From tx),
             et_ContractAddress = HexToAddress L (ee_ContractAddress tx), et_To = HexToAddress L (ee_To tx),
             et_Value = ee_Value tx, et_Gas = ee_Gas tx, et_GasUsed = ee_GasUsed tx,
             et_GasPrice = ee_GasPrice tx, et_IsTrade = isTrade \<rparr>)"

section \<open>JSON\<close>

text \<open>The timestamps are in milliseconds, hashes and addresses in hexadecimal; the zero time is null.\<close>

record NormalTx_json =
  nj_timestamp :: nat
  nj_body :: NormalTx

definition NormalTx_MarshalJSON :: "NormalTx \<Rightarrow> NormalTx_json" where
  "NormalTx_MarshalJSON tx = \<lparr> nj_timestamp = TimeToTimestampMs (nt_Timestamp tx), nj_body = tx\<lparr> nt_Timestamp := zero_time \<rparr> \<rparr>"

definition NormalTx_UnmarshalJSON :: "NormalTx_json \<Rightarrow> NormalTx" where
  "NormalTx_UnmarshalJSON j = (nj_body j)\<lparr> nt_Timestamp := TimestampMsToTime (nj_timestamp j) \<rparr>"

record InternalTx_json =
  ij_timestamp :: nat
  ij_body :: accounting_InternalTx

definition InternalTx_MarshalJSON :: "accounting_InternalTx \<Rightarrow> InternalTx_json" where
  "InternalTx_MarshalJSON tx = \<lparr> ij_timestamp = TimeToTimestampMs (it_Timestamp tx), ij_body = tx\<lparr> it_Timestamp := zero_time \<rparr> \<rparr>"

definition InternalTx_UnmarshalJSON :: "InternalTx_json \<Rightarrow> accounting_InternalTx" where
  "InternalTx_UnmarshalJSON j = (ij_body j)\<lparr> it_Timestamp := TimestampMsToTime (ij_timestamp j) \<rparr>"

record ERC20Transfer_json =
  ej_timestamp :: "nat option"
  ej_hash :: string
  ej_from :: string
  ej_contractAddress :: string
  ej_to :: string
  ej_blockNumber :: int
  ej_value :: int
  ej_gas :: int
  ej_gasUsed :: int
  ej_gasPrice :: int
  ej_isTrade :: bool

definition ERC20Transfer_MarshalJSON :: "tx_lib \<Rightarrow> ERC20Transfer \<Rightarrow> ERC20Transfer_json" where
  "ERC20Transfer_MarshalJSON L et = \<lparr>
     ej_timestamp = (if et_Timestamp et \<noteq> zero_time then Some (TimeToTimestampMs (et_Timestamp et)) else None),
     ej_hash = HashHex L (et_Hash et), ej_from = AddressHex L (et_From et),
     ej_contractAddress = AddressHex L (et_ContractAddress et), ej_to = AddressHex L (et_To et),
     ej_blockNumber = et_BlockNumber et, ej_value = et_Value et, ej_gas = et_Gas et, ej_gasUsed = et_GasUsed et,
     ej_gasPrice = et_GasPrice et, ej_isTrade = et_IsTrade et \<rparr>"

text \<open>The receiver \<open>et\<close> keeps its timestamp when there is none in the text.\<close>

definition ERC20Transfer_UnmarshalJSON :: "tx_lib \<Rightarrow> ERC20Transfer_json \<Rightarrow> ERC20Transfer \<Rightarrow> ERC20Transfer" where
  "ERC20Transfer_UnmarshalJSON L j et = \<lparr>
     et_BlockNumber = ej_blockNumber j,
     et_Timestamp = (case ej_timestamp j of None \<Rightarrow> et_Timestamp et | Some ms \<Rightarrow> TimestampMsToTime ms),
     et_Hash = HexToHash L (ej_hash j), et_From = HexToAddress L (ej_from j),
     et_ContractAddress = HexToAddress L (ej_contractAddress j), et_To = HexToAddress L (ej_to j),
     et_Value = ej_value j, et_Gas = ej_gas j, et_GasUsed = ej_gasUsed j, et_GasPrice = ej_gasPrice j,
     et_IsTrade = ej_isTrade j \<rparr>"

section \<open>Pages\<close>

text \<open>
  \<open>fetchWithRetry\<close>: an answer without transactions ends the retries, another error does not. The last
  attempt's answer is returned.
\<close>

fun page_attempts :: "(nat \<Rightarrow> 'a list \<times> go_err option) \<Rightarrow> nat \<Rightarrow> nat \<Rightarrow> 'a list \<times> go_err option \<Rightarrow> 'a list \<times> go_err option" where
  "page_attempts fetch i 0 acc = acc"
| "page_attempts fetch i (Suc k) acc =
     (case fetch i of
        (txs, None) \<Rightarrow> (txs, None)
      | (txs, Some e) \<Rightarrow> if IsEtherscanNotransactionFound e then (txs, Some e)
                          else page_attempts fetch (Suc i) k (txs, Some e))"

definition fetchWithRetry :: "nat \<Rightarrow> (nat \<Rightarrow> 'a list \<times> go_err option) \<Rightarrow> 'a list \<times> go_err option" where
  "fetchWithRetry attempts fetch = page_attempts fetch 0 attempts ([], None)"

text \<open>The block numbers of the query: \<open>IsInt64\<close>, and the last block excluded.\<close>

definition isInt64 :: "int \<Rightarrow> bool" where "isInt64 x \<longleftrightarrow> - (2 ^ 63) \<le> x \<and> x < 2 ^ 63"

definition unsupported :: go_err where "unsupported = Err ''unsupported block''"

definition block_params :: "int option \<Rightarrow> int option \<Rightarrow> (int option \<times> int option) go" where
  "block_params fromBlock toBlock =
     go_bind (case fromBlock of None \<Rightarrow> Inr None | Some a \<Rightarrow> if isInt64 a then Inr (Some a) else Inl unsupported) (\<lambda>startBlock.
     go_bind (case toBlock of None \<Rightarrow> Inr None | Some b \<Rightarrow> if isInt64 (b - 1) then Inr (Some (b - 1)) else Inl unsupported) (\<lambda>endBlock.
       Inr (startBlock, endBlock)))"

text \<open>The loop over the pages; \<open>get page i\<close> is the answer of attempt \<open>i\<close> for a page.\<close>

partial_function (option) fetch_pages ::
  "nat \<Rightarrow> (nat \<Rightarrow> nat \<Rightarrow> 'a list \<times> go_err option) \<Rightarrow> nat \<Rightarrow> 'a list \<Rightarrow> 'a list go option" where
  "fetch_pages attempts get page results =
     (case fetchWithRetry attempts (get page) of
        (txs, Some e) \<Rightarrow> Some (if IsEtherscanNotransactionFound e then Inr results else Inl e)
      | (txs, None) \<Rightarrow> fetch_pages attempts get (page + 1) (results @ txs))"

type_synonym 'a tx_client = "int option \<Rightarrow> int option \<Rightarrow> nat \<Rightarrow> nat \<Rightarrow> 'a list \<times> go_err option"

definition etherscan_fetch :: "nat \<Rightarrow> 'a tx_client \<Rightarrow> int option \<Rightarrow> int option \<Rightarrow> 'a list go option" where
  "etherscan_fetch attempts client fromBlock toBlock =
     (case block_params fromBlock toBlock of
        Inl e \<Rightarrow> Some (Inl e)
      | Inr (startBlock, endBlock) \<Rightarrow> fetch_pages attempts (client startBlock endBlock) 1 [])"

text \<open>
  One goroutine converts each result; \<open>order n\<close> lists the indices in the order in which they end, since the
  error group returns the first error. Each result is stored under its index.
\<close>

definition convert_all :: "('a \<Rightarrow> 'b go) \<Rightarrow> (nat \<Rightarrow> nat list) \<Rightarrow> 'a list \<Rightarrow> 'b list go" where
  "convert_all conv order results =
     (case filter (\<lambda>i. isl (conv (results ! i))) (order (length results)) of
        i # _ \<Rightarrow> Inl (projl (conv (results ! i)))
      | [] \<Rightarrow> Inr (map (\<lambda>r. projr (conv r)) results))"

definition fetch_NormalTx :: "nat \<Rightarrow> etherscan_NormalTx tx_client \<Rightarrow> int option \<Rightarrow> int option \<Rightarrow> NormalTx list go option" where
  "fetch_NormalTx attempts client fromBlock toBlock =
     map_option (\<lambda>m. go_bind m (\<lambda>results. Inr (map EtherscanNormalTxToCommon results)))
       (etherscan_fetch attempts client fromBlock toBlock)"

definition fetch_InternalTx :: "tx_lib \<Rightarrow> receipts \<Rightarrow> (nat \<Rightarrow> nat list) \<Rightarrow> nat \<Rightarrow> etherscan_InternalTx tx_client
    \<Rightarrow> int option \<Rightarrow> int option \<Rightarrow> accounting_InternalTx list go option" where
  "fetch_InternalTx L node order attempts client fromBlock toBlock =
     map_option (\<lambda>m. go_bind m (convert_all (EtherscanInternalTxToCommon L node) order))
       (etherscan_fetch attempts client fromBlock toBlock)"

definition fetch_ERC20Transfer :: "tx_lib \<Rightarrow> receipts \<Rightarrow> (nat \<Rightarrow> nat list) \<Rightarrow> nat \<Rightarrow> etherscan_ERC20Transfer tx_client
    \<Rightarrow> int option \<Rightarrow> int option \<Rightarrow> ERC20Transfer list go option" where
  "fetch_ERC20Transfer L node order attempts client fromBlock toBlock =
     map_option (\<lambda>m. go_bind m (convert_all (EtherscanERC20TransferToCommon L node) order))
       (etherscan_fetch attempts client fromBlock toBlock)"

section \<open>Facts\<close>

definition transfers_ok :: "log list \<Rightarrow> bool" where
  "transfers_ok logs \<longleftrightarrow> (\<forall>lg\<in>set logs. transferEvent \<in> set (lg_Topics lg) \<longrightarrow> 2 < length (lg_Topics lg))"

lemma events_differ: "transferEvent \<noteq> tradeExecuteEvent" "tradeExecuteEvent \<noteq> transferEvent"
  by (simp_all add: transferEvent_def tradeExecuteEvent_def)

lemma detect_topics_new:
  assumes "transferEvent \<in> set ts \<Longrightarrow> 2 < length (lg_Topics lg)"
  shows "detect_topics L new_ptr_eq tx lg ts 0 = Inr (if tradeExecuteEvent \<in> set ts then Inl True else Inr 0)"
  using assms
proof (induction ts)
  case (Cons t ts)
  have "detect_topic L new_ptr_eq tx lg t 0 = Inr (if t = tradeExecuteEvent then Inl True else Inr 0)"
    using Cons.prems events_differ by (auto simp: detect_topic_def new_ptr_eq_def go_nth_def Let_def)
  with Cons show ?case by auto
qed simp

lemma detect_logs_new:
  "transfers_ok logs \<Longrightarrow>
   detect_logs L new_ptr_eq tx logs 0 = Inr (\<exists>lg\<in>set logs. tradeExecuteEvent \<in> set (lg_Topics lg))"
  by (induction logs) (auto simp: transfers_ok_def detect_topics_new)

text \<open>The side of ether of a trade log has the amount.\<close>

definition ether_side :: "tx_lib \<Rightarrow> int \<Rightarrow> log \<Rightarrow> bool" where
  "ether_side L ethAmount lg \<longleftrightarrow>
     (BytesToAddress L (slice 64 96 (lg_Data lg)) = ETHAddr \<and>
      HashBig L (BytesToHash L (slice 96 128 (lg_Data lg))) = ethAmount) \<or>
     (BytesToAddress L (slice 0 32 (lg_Data lg)) = ETHAddr \<and>
      HashBig L (BytesToHash L (slice 32 64 (lg_Data lg))) = ethAmount)"

lemma internal_topic_spec:
  "128 \<le> length (lg_Data lg) \<Longrightarrow> internal_topic L ethAmount lg = Inr (ether_side L ethAmount lg)"
  by (simp add: internal_topic_def go_slice_def ether_side_def)

lemma internal_topics_spec:
  "tradeExecuteEvent \<in> set ts \<longrightarrow> 128 \<le> length (lg_Data lg) \<Longrightarrow>
   internal_topics L ethAmount lg ts = Inr (tradeExecuteEvent \<in> set ts \<and> ether_side L ethAmount lg)"
  by (induction ts) (auto simp: internal_topic_spec)

lemma internal_logs_spec:
  "\<forall>lg\<in>set logs. tradeExecuteEvent \<in> set (lg_Topics lg) \<longrightarrow> 128 \<le> length (lg_Data lg) \<Longrightarrow>
   internal_logs L ethAmount logs =
     Inr (\<exists>lg\<in>set logs. tradeExecuteEvent \<in> set (lg_Topics lg) \<and> ether_side L ethAmount lg)"
  by (induction logs) (auto simp: internal_topics_spec)

subsection \<open>Pages\<close>

text \<open>
  \<open>H s e\<close> are the transactions between two blocks. What Etherscan documents: page \<open>p\<close> has the next \<open>offset\<close>
  of them, and the error "No transactions found" when there are none. Other errors may come at any time.
\<close>

definition etherscan_ok :: "(int option \<Rightarrow> int option \<Rightarrow> 'a list) \<Rightarrow> nat \<Rightarrow> 'a tx_client \<Rightarrow> bool" where
  "etherscan_ok H offset client \<longleftrightarrow> (\<forall>s e p i.
     (case client s e p i of
        (txs, None) \<Rightarrow> txs \<noteq> [] \<and> txs = take offset (drop ((p - 1) * offset) (H s e))
      | (txs, Some err) \<Rightarrow> IsEtherscanNotransactionFound err \<longrightarrow> length (H s e) \<le> (p - 1) * offset))"

lemma page_attempts_answer:
  "page_attempts fetch i k acc = out \<Longrightarrow> 0 < k \<Longrightarrow> \<exists>j. fetch j = out"
proof (induction k arbitrary: i acc)
  case (Suc k)
  show ?case
  proof (cases "k = 0")
    case True
    with Suc.prems show ?thesis
      by (intro exI [of _ i]) (auto split: prod.splits option.splits if_splits)
  next
    case False
    with Suc show ?thesis by (auto split: prod.splits option.splits if_splits)
  qed
qed simp

lemma fetch_pages_all:
  assumes "etherscan_ok H offset client" "0 < attempts" "0 < page" "results = take ((page - 1) * offset) (H s e)"
  shows "\<exists>r. fetch_pages attempts (client s e) page results = Some r \<and> (\<forall>res. r = Inr res \<longrightarrow> res = H s e)"
  using assms(3,4)
proof (induction "length (H s e) - (page - 1) * offset" arbitrary: page results rule: less_induct)
  case less
  obtain txs x where out: "fetchWithRetry attempts (client s e page) = (txs, x)" by fastforce
  then obtain j where j: "client s e page j = (txs, x)"
    using page_attempts_answer [OF out [unfolded fetchWithRetry_def] assms(2)] by blast
  have ok: "case client s e page j of
      (txs, None) \<Rightarrow> txs \<noteq> [] \<and> txs = take offset (drop ((page - 1) * offset) (H s e))
    | (txs, Some err) \<Rightarrow> IsEtherscanNotransactionFound err \<longrightarrow> length (H s e) \<le> (page - 1) * offset"
    using assms(1) by (simp add: etherscan_ok_def)
  show ?case
  proof (cases x)
    case (Some err)
    with out j ok less.prems show ?thesis by (subst fetch_pages.simps) simp
  next
    case None
    have txs: "txs \<noteq> []" "txs = take offset (drop ((page - 1) * offset) (H s e))"
      using ok unfolding j None prod.case option.case by blast+
    have next_page: "(page + 1 - 1) * offset = (page - 1) * offset + offset"
      using less.prems(1) by (cases page) simp_all
    have "results @ txs = take ((page + 1 - 1) * offset) (H s e)"
      unfolding less.prems(2) txs(2) next_page by (rule take_add [symmetric])
    moreover have "length (H s e) - (page + 1 - 1) * offset < length (H s e) - (page - 1) * offset"
      unfolding next_page using txs(1) unfolding txs(2) by (cases offset) auto
    ultimately obtain r where "fetch_pages attempts (client s e) (page + 1) (results @ txs) = Some r"
      "\<forall>res. r = Inr res \<longrightarrow> res = H s e"
      using less.hyps [of "page + 1" "results @ txs"] by auto
    with out None show ?thesis by (subst fetch_pages.simps) simp
  qed
qed

lemma fetch_pages_no_attempts: "fetch_pages 0 get page results = None"
proof -
  have "attempts \<noteq> 0" if "fetch_pages attempts get page results = Some r" for attempts r
    using that
    by (rule fetch_pages.raw_induct [rotated])
      (rule ccontr, fastforce simp: fetchWithRetry_def split: prod.splits option.splits)
  then show ?thesis by (cases "fetch_pages 0 get page results") auto
qed

lemma etherscan_fetch_all:
  assumes "etherscan_ok H offset client" "0 < attempts"
  shows "\<exists>r. etherscan_fetch attempts client fromBlock toBlock = Some r \<and>
    (\<forall>res. r = Inr res \<longrightarrow> res = H fromBlock (map_option (\<lambda>b. b - 1) toBlock))"
proof (cases "block_params fromBlock toBlock")
  case (Inr b)
  obtain s e where b: "b = (s, e)" by (cases b)
  with Inr have "s = fromBlock" "e = map_option (\<lambda>b. b - 1) toBlock"
    by (auto simp: block_params_def go_bind_Inr_iff split: option.splits if_splits)
  with fetch_pages_all [OF assms, of 1 "[]" s e] Inr b show ?thesis by (simp add: etherscan_fetch_def)
qed (simp add: etherscan_fetch_def)

lemma convert_all_Inr:
  assumes "convert_all conv order results = Inr ys" "{..<length results} \<subseteq> set (order (length results))"
  shows "list_all2 (\<lambda>r y. conv r = Inr y) results ys"
proof -
  from assms(1) have ok: "filter (\<lambda>i. isl (conv (results ! i))) (order (length results)) = []"
    and ys: "ys = map (\<lambda>r. projr (conv r)) results"
    by (auto simp: convert_all_def split: list.splits)
  have "\<not> isl (conv (results ! i))" if "i < length results" for i
    using ok assms(2) that by (auto simp: filter_empty_conv)
  then have "conv (results ! i) = Inr (projr (conv (results ! i)))" if "i < length results" for i
    using that by simp
  then show ?thesis unfolding ys by (auto simp: list_all2_conv_all_nth)
qed

section \<open>Properties\<close>

text \<open>
  A transfer counts as part of a trade exactly when its transaction has a trade event at all: the value
  of the transfer is never recognised, because two pointers are compared, so the rules of the comments,
  which exclude other transfers of the transaction, do not apply.
\<close>

theorem DetectTradeTransaction_any_trade:
  assumes "receipt_with_retry node (HexToHash L (ee_Hash tx)) = Inr r" "transfers_ok (rc_Logs r)"
  shows "DetectTradeTransaction L node tx = Inr (\<exists>lg\<in>set (rc_Logs r). tradeExecuteEvent \<in> set (lg_Topics lg))"
  using assms by (simp add: DetectTradeTransaction_def detect_logs_new)

text \<open>
  An internal transaction counts as part of a trade exactly when some trade event of its transaction
  has its amount on the side of ether, as destination or as source.
\<close>

theorem DetectTradeInternalTransaction_spec:
  assumes "receipt_with_retry node h = Inr r"
    and "\<forall>lg\<in>set (rc_Logs r). tradeExecuteEvent \<in> set (lg_Topics lg) \<longrightarrow> 128 \<le> length (lg_Data lg)"
  shows "DetectTradeInternalTransaction L node h ethAmount =
    Inr (\<exists>lg\<in>set (rc_Logs r). tradeExecuteEvent \<in> set (lg_Topics lg) \<and> ether_side L ethAmount lg)"
  using assms by (simp add: DetectTradeInternalTransaction_def internal_logs_spec)

text \<open>
  C33: The fetcher returns, and without an error it has every ERC20 transfer from the start block up to the
  one before the end block, once and in order, each with its trade flag, whatever pages had to be asked
  again and in whatever order the conversions end.
\<close>

theorem fetch_ERC20Transfer_complete:
  assumes "etherscan_ok H offset client" "0 < attempts" "\<forall>n. {..<n} \<subseteq> set (order n)"
  shows "\<exists>r. fetch_ERC20Transfer L node order attempts client fromBlock toBlock = Some r \<and>
    (\<forall>txs. r = Inr txs \<longrightarrow> list_all2 (\<lambda>e t. EtherscanERC20TransferToCommon L node e = Inr t)
       (H fromBlock (map_option (\<lambda>b. b - 1) toBlock)) txs)"
proof -
  from etherscan_fetch_all [OF assms(1,2)] obtain r where
    "etherscan_fetch attempts client fromBlock toBlock = Some r"
    "\<forall>res. r = Inr res \<longrightarrow> res = H fromBlock (map_option (\<lambda>b. b - 1) toBlock)" by blast
  then show ?thesis
    using convert_all_Inr assms(3) by (fastforce simp: fetch_ERC20Transfer_def go_bind_Inr_iff)
qed

text \<open>
  The JSON of the three kinds of transactions is read back to the transaction that was written, with
  its time to the millisecond; a transfer without a time is read back without one.
\<close>

theorem accounting_json_roundtrip:
  assumes "\<forall>h. HexToHash L (HashHex L h) = h" "\<forall>a. HexToAddress L (AddressHex L a) = a"
    and "0 \<le> nt_Timestamp n" "nt_Timestamp n < 2 ^ 63" "0 \<le> it_Timestamp i" "it_Timestamp i < 2 ^ 63"
    and "et_Timestamp t = zero_time \<or> 0 \<le> et_Timestamp t \<and> et_Timestamp t < 2 ^ 63"
    and "et_Timestamp receiver = zero_time"
  shows "NormalTx_UnmarshalJSON (NormalTx_MarshalJSON n) = n\<lparr> nt_Timestamp := nt_Timestamp n - nt_Timestamp n mod 1000000 \<rparr> \<and>
    InternalTx_UnmarshalJSON (InternalTx_MarshalJSON i) = i\<lparr> it_Timestamp := it_Timestamp i - it_Timestamp i mod 1000000 \<rparr> \<and>
    ERC20Transfer_UnmarshalJSON L (ERC20Transfer_MarshalJSON L t) receiver =
      (if et_Timestamp t = zero_time then t else t\<lparr> et_Timestamp := et_Timestamp t - et_Timestamp t mod 1000000 \<rparr>)"
  using assms
  by (auto simp: NormalTx_UnmarshalJSON_def NormalTx_MarshalJSON_def InternalTx_UnmarshalJSON_def
      InternalTx_MarshalJSON_def ERC20Transfer_UnmarshalJSON_def ERC20Transfer_MarshalJSON_def
      time_roundtrip_truncates)

section \<open>Concrete instances\<close>

fun hex_string :: "nat \<Rightarrow> string" where
  "hex_string n = (if n < 16 then [char_of (if n < 10 then 48 + n else 87 + n)]
     else hex_string (n div 16) @ [char_of (if n mod 16 < 10 then 48 + n mod 16 else 87 + n mod 16)])"

declare hex_string.simps [simp del]

lemma hex_digit_of: "n < 16 \<Longrightarrow> hex_digit (char_of (if n < 10 then 48 + n else 87 + n)) = n"
  by (simp add: hex_digit_def Let_def)

lemma hex_nat_string: "hex_nat (''0x'' @ hex_string n) = n"
proof (induction n rule: hex_string.induct)
  case (1 n)
  show ?case
  proof (cases "n < 16")
    case True
    then show ?thesis using hex_digit_of [of n] by (subst hex_string.simps) (simp add: hex_nat_def)
  next
    case False
    have "hex_digit (char_of (if n mod 16 < 10 then 48 + n mod 16 else 87 + n mod 16)) = n mod 16"
      by (rule hex_digit_of) simp
    with False 1 show ?thesis by (subst hex_string.simps) (simp add: hex_nat_def)
  qed
qed

definition sample_tx_lib :: tx_lib where
  "sample_tx_lib = \<lparr> BytesToAddress = BytesToAddress sample_lib, BytesToHash = BytesToHash sample_lib,
     HashBytes = HashBytes sample_lib, HashBig = HashBig sample_lib, HexToHash = HexToHash sample_lib,
     HexToAddress = HexToAddress sample_lib, HashHex = (\<lambda>h. ''0x'' @ hex_string (unat h)),
     AddressHex = (\<lambda>a. ''0x'' @ hex_string (unat a)) \<rparr>"

lemma sample_tx_lib_hex:
  "HexToHash sample_tx_lib (HashHex sample_tx_lib h) = h" "HexToAddress sample_tx_lib (AddressHex sample_tx_lib a) = a"
  "HexToAddress sample_tx_lib (HashHex sample_tx_lib h) = word_of_nat (unat h)"
  using hex_nat_string by (simp_all add: sample_tx_lib_def sample_lib_def del: append.simps)

definition eth_word :: "byte list" where "eth_word = replicate 12 0 @
  [0xee, 0xee, 0xee, 0xee, 0xee, 0xee, 0xee, 0xee, 0xee, 0xee, 0xee, 0xee, 0xee, 0xee, 0xee, 0xee, 0xee, 0xee, 0xee, 0xee]"

definition number_word :: "byte \<Rightarrow> byte list" where "number_word n = replicate 31 0 @ [n]"

lemma be_nat_zeros [simp]: "be_nat (replicate k 0 @ bs) = be_nat bs"
  by (induction k) simp_all

lemma sample_words [simp]:
  "length eth_word = 32" "length (number_word n) = 32"
  "BytesToAddress sample_tx_lib eth_word = ETHAddr"
  "HashBig sample_tx_lib (BytesToHash sample_tx_lib (number_word n)) = int (unat n)"
proof -
  show "BytesToAddress sample_tx_lib eth_word = ETHAddr"
    by (simp add: eth_word_def sample_tx_lib_def sample_lib_def ETHAddr_def)
  have "HashBig sample_lib (BytesToHash sample_lib (number_word n)) = int (be_nat (number_word n))"
    using sample_lib_ok by (simp add: eth_lib_ok_def number_word_def)
  then show "HashBig sample_tx_lib (BytesToHash sample_tx_lib (number_word n)) = int (unat n)"
    by (simp add: number_word_def sample_tx_lib_def)
qed (simp_all add: eth_word_def number_word_def)

text \<open>
  A transfer of 5 from 11 to 12, and then a trade of ether for a token: the transfer did not pay for the
  trade.
\<close>

definition sample_transfer :: etherscan_ERC20Transfer where
  "sample_transfer = \<lparr> ee_BlockNumber = 20, ee_TimeStamp = 10 ^ 18, ee_Hash = ''0x9'', ee_From = ''0xb'',
     ee_ContractAddress = ''0x7'', ee_To = ''0xc'', ee_Value = 5, ee_Gas = 21000, ee_GasUsed = 21000, ee_GasPrice = 2 \<rparr>"

definition accounting_log :: "hash list \<Rightarrow> byte list \<Rightarrow> nat \<Rightarrow> log" where
  "accounting_log ts bs i = \<lparr> lg_Address = 1, lg_Topics = ts, lg_Data = bs, lg_BlockNumber = 20,
     lg_TxHash = 9, lg_TxIndex = 0, lg_BlockHash = 5, lg_Index = i, lg_Removed = False \<rparr>"

definition sample_tx_receipt :: receipt where
  "sample_tx_receipt = \<lparr> rc_Logs = [accounting_log [transferEvent, 11, 12] (number_word 5) 4,
     accounting_log [tradeExecuteEvent] (eth_word @ number_word 5 @ number_word 7 @ number_word 8) 6], rc_GasUsed = 1 \<rparr>"

definition sample_tx_receipts :: receipts where
  "sample_tx_receipts h i = (if i = 0 then (\<lparr> rc_Logs = [], rc_GasUsed = 0 \<rparr>, Some (Err ''not found'')) else (sample_tx_receipt, None))"

lemma sample_tx_receipt_ok: "receipt_with_retry sample_tx_receipts h = Inr sample_tx_receipt"
  by (simp add: receipt_with_retry_def sample_tx_receipts_def numeral_eq_Suc)

lemma slice_append:
  "length xs = a \<Longrightarrow> b \<le> a \<Longrightarrow> slice 0 b (xs @ ys) = take b xs"
  "length xs = a \<Longrightarrow> slice (a + i) (a + j) (xs @ ys) = slice i j ys"
  by (simp_all add: slice_def)

theorem DetectTradeTransaction_any_trade_witness:
  "DetectTradeTransaction sample_tx_lib sample_tx_receipts sample_transfer = Inr True \<and>
   DetectTradeTransaction_intended sample_tx_lib sample_tx_receipts sample_transfer = Inr False"
proof
  have "transfers_ok (rc_Logs sample_tx_receipt)"
    by (simp add: transfers_ok_def sample_tx_receipt_def accounting_log_def events_differ)
  from DetectTradeTransaction_any_trade [OF sample_tx_receipt_ok this]
  show "DetectTradeTransaction sample_tx_lib sample_tx_receipts sample_transfer = Inr True"
    by (simp add: sample_tx_receipt_def accounting_log_def)
  have addr: "HexToAddress sample_tx_lib ''0xb'' = 11" "HexToAddress sample_tx_lib ''0xc'' = 12"
    by (simp_all add: sample_tx_lib_def sample_lib_def hex_nat_def hex_digit_def)
  have src: "slice 0 32 (eth_word @ bs) = eth_word" for bs by (simp add: slice_append)
  have topics: "(11 :: hash) \<noteq> transferEvent" "(12 :: hash) \<noteq> transferEvent" "transferEvent \<noteq> 11" "transferEvent \<noteq> 12"
    "(11 :: hash) \<noteq> tradeExecuteEvent" "(12 :: hash) \<noteq> tradeExecuteEvent" "tradeExecuteEvent \<noteq> 11" "tradeExecuteEvent \<noteq> 12"
    by (simp_all add: transferEvent_def tradeExecuteEvent_def)
  show "DetectTradeTransaction_intended sample_tx_lib sample_tx_receipts sample_transfer = Inr False"
    by (simp add: DetectTradeTransaction_intended_def sample_tx_receipt_ok, simp add: sample_tx_receipt_def accounting_log_def
        detect_topic_def go_nth_def sample_transfer_def sample_tx_lib_hex addr events_differ topics go_slice_def src)
qed

text \<open>The same trade, and an internal transaction of its 5 wei.\<close>

theorem DetectTradeInternalTransaction_spec_witness:
  "DetectTradeInternalTransaction sample_tx_lib sample_tx_receipts 9 5 = Inr True \<and>
   DetectTradeInternalTransaction sample_tx_lib sample_tx_receipts 9 6 = Inr False"
proof -
  let ?data = "eth_word @ number_word 5 @ number_word 7 @ number_word 8"
  have words: "slice 0 32 ?data = eth_word" "slice 32 64 ?data = number_word 5"
    "slice 64 96 ?data = number_word 7"
    using slice_append(2) [of eth_word 32 0 32 "number_word 5 @ number_word 7 @ number_word 8"]
      slice_append(2) [of eth_word 32 32 64 "number_word 5 @ number_word 7 @ number_word 8"]
      slice_append(2) [of "number_word 5" 32 0 32 "number_word 7 @ number_word 8"]
    by (simp_all add: slice_append)
  have "BytesToAddress sample_tx_lib (number_word 7) \<noteq> ETHAddr"
    by (simp add: number_word_def sample_tx_lib_def sample_lib_def ETHAddr_def)
  with words have side: "ether_side sample_tx_lib a (accounting_log ts ?data i) \<longleftrightarrow> a = 5" for a ts i
    by (auto simp: ether_side_def accounting_log_def)
  have "\<forall>lg\<in>set (rc_Logs sample_tx_receipt). tradeExecuteEvent \<in> set (lg_Topics lg) \<longrightarrow> 128 \<le> length (lg_Data lg)"
    by (simp add: sample_tx_receipt_def accounting_log_def events_differ) (simp add: transferEvent_def tradeExecuteEvent_def)
  from DetectTradeInternalTransaction_spec [OF sample_tx_receipt_ok this, where L = sample_tx_lib] show ?thesis
    by (auto simp: sample_tx_receipt_def side) (auto simp: accounting_log_def transferEvent_def tradeExecuteEvent_def)
qed

text \<open>Three transfers in pages of two; the first attempt of every page fails.\<close>

definition sample_transfers :: "int option \<Rightarrow> int option \<Rightarrow> etherscan_ERC20Transfer list" where
  "sample_transfers s e = [sample_transfer, sample_transfer\<lparr> ee_Hash := ''0xa'' \<rparr>, sample_transfer\<lparr> ee_Hash := ''0xb'' \<rparr>]"

definition sample_etherscan :: "etherscan_ERC20Transfer tx_client" where
  "sample_etherscan s e p i =
     (if i = 0 then ([], Some (Err ''response status 403 403 Forbidden''))
      else case take 2 (drop ((p - 1) * 2) (sample_transfers s e)) of
        [] \<Rightarrow> ([], Some (Err ''etherscan server: No transactions found''))
      | txs \<Rightarrow> (txs, None))"

lemma sample_etherscan_ok: "etherscan_ok sample_transfers 2 sample_etherscan"
proof -
  have "length (sample_transfers s e) \<le> (p - 1) * 2" if "take 2 (drop ((p - 1) * 2) (sample_transfers s e)) = []" for s e p
    using that by simp
  then show ?thesis
    by (auto simp: etherscan_ok_def sample_etherscan_def IsEtherscanNotransactionFound_def split: list.split)
qed

lemma fetchWithRetry_second:
  "fetch 0 = ([], Some (Err ''response status 403 403 Forbidden'')) \<Longrightarrow>
   snd (fetch 1) = None \<or> snd (fetch 1) = Some (Err ''etherscan server: No transactions found'') \<Longrightarrow>
   fetchWithRetry 4 fetch = fetch 1"
  by (cases "fetch 1") (auto simp: fetchWithRetry_def numeral_eq_Suc IsEtherscanNotransactionFound_def)

lemma sample_fetch_page:
  "fetchWithRetry 4 (sample_etherscan s e p) = sample_etherscan s e p 1"
  by (rule fetchWithRetry_second) (auto simp: sample_etherscan_def split: list.split)

theorem fetch_ERC20Transfer_complete_witness:
  "\<exists>txs. fetch_ERC20Transfer sample_tx_lib sample_tx_receipts (\<lambda>n. rev [0..<n]) 4 sample_etherscan (Some 10) (Some 21)
     = Some (Inr txs) \<and> length txs = 3 \<and> (\<forall>t\<in>set txs. et_IsTrade t)"
proof -
  let ?conv = "EtherscanERC20TransferToCommon sample_tx_lib sample_tx_receipts"
  let ?run = "fetch_ERC20Transfer sample_tx_lib sample_tx_receipts (\<lambda>n. rev [0..<n]) 4 sample_etherscan (Some 10) (Some 21)"
  have "transfers_ok (rc_Logs sample_tx_receipt)"
    by (simp add: transfers_ok_def sample_tx_receipt_def accounting_log_def events_differ)
  then have trade: "DetectTradeTransaction sample_tx_lib sample_tx_receipts tx = Inr True" for tx
    using sample_tx_receipt_ok detect_logs_new
    by (simp add: DetectTradeTransaction_def) (simp add: sample_tx_receipt_def accounting_log_def)
  have "etherscan_fetch 4 sample_etherscan (Some 10) (Some 21) = Some (Inr (sample_transfers None None))"
    unfolding etherscan_fetch_def
    by (simp add: block_params_def isInt64_def, subst fetch_pages.simps, simp add: sample_fetch_page,
        simp add: sample_etherscan_def sample_transfers_def, subst fetch_pages.simps, simp add: sample_fetch_page,
        simp add: sample_etherscan_def sample_transfers_def, subst fetch_pages.simps, simp add: sample_fetch_page,
        simp add: sample_etherscan_def sample_transfers_def IsEtherscanNotransactionFound_def)
  moreover have "convert_all ?conv order rs = Inr (map (\<lambda>r. projr (?conv r)) rs)" for order rs
    by (simp add: convert_all_def EtherscanERC20TransferToCommon_def trade)
  ultimately obtain txs where run: "?run = Some (Inr txs)" by (simp add: fetch_ERC20Transfer_def)
  from fetch_ERC20Transfer_complete [OF sample_etherscan_ok, of 4 "\<lambda>n. rev [0..<n]" sample_tx_lib sample_tx_receipts "Some 10" "Some 21"] run
  have all: "list_all2 (\<lambda>e t. ?conv e = Inr t) (sample_transfers (Some 10) (Some 20)) txs"
    by (auto simp: atLeast0LessThan [symmetric])
  then have "length txs = 3" by (auto dest: list_all2_lengthD simp: sample_transfers_def)
  moreover have is_trade: "?conv e = Inr t \<Longrightarrow> et_IsTrade t" for e t
    by (auto simp: EtherscanERC20TransferToCommon_def trade)
  from all have "\<forall>t\<in>set txs. et_IsTrade t"
    by (fastforce simp: list_all2_conv_all_nth in_set_conv_nth dest: is_trade)
  ultimately show ?thesis using run by blast
qed

theorem accounting_json_roundtrip_witness:
  "\<exists>t. et_Timestamp t = 10 ^ 18 \<and>
     ERC20Transfer_UnmarshalJSON sample_tx_lib (ERC20Transfer_MarshalJSON sample_tx_lib t) (t\<lparr> et_Timestamp := zero_time \<rparr>) = t"
proof -
  define t :: ERC20Transfer where "t = \<lparr> et_BlockNumber = 20, et_Timestamp = 10 ^ 18, et_Hash = 9, et_From = 11,
    et_ContractAddress = 7, et_To = 12, et_Value = 5, et_Gas = 1, et_GasUsed = 1, et_GasPrice = 2, et_IsTrade = True \<rparr>"
  define n :: NormalTx where "n = \<lparr> nt_BlockNumber = 1, nt_Timestamp = 0, nt_Hash = [], nt_BlockHash = [], nt_From = [],
    nt_To = [], nt_Value = 0, nt_Gas = 0, nt_GasUsed = 0, nt_GasPrice = 0, nt_IsError = 0 \<rparr>"
  define i :: accounting_InternalTx where "i = \<lparr> it_BlockNumber = 1, it_Timestamp = 0, it_Hash = [], it_From = [],
    it_To = [], it_Value = 0, it_Gas = 0, it_GasUsed = 0, it_IsError = 0, it_IsTrade = False \<rparr>"
  have "ERC20Transfer_UnmarshalJSON sample_tx_lib (ERC20Transfer_MarshalJSON sample_tx_lib t) (t\<lparr> et_Timestamp := zero_time \<rparr>) = t"
    using accounting_json_roundtrip [of sample_tx_lib n i t "t\<lparr> et_Timestamp := zero_time \<rparr>"]
    by (simp add: sample_tx_lib_hex n_def i_def) (simp add: t_def zero_time_def Second_def)
  then show ?thesis by (intro exI [of _ t]) (simp add: t_def)
qed

end
