(* ===== verification/ReserveAddresses.thy ===== *)
theory ReserveAddresses
  imports AccountingTx Tables "HOL-Library.Multiset"
begin

text \<open>
  The addresses of the reserves: their types and JSON, \<open>accounting/common/types.go\<close>, their table,
  \<open>accounting/reserve-addresses/storage/postgresql/\<close>, the handlers of \<open>accounting/reserve-addresses/http/addresses.go\<close>
  that create and update them, and the creation time of a contract, \<open>lib/blockchain/contract_timestamp_etherscan.go\<close>.

  The times are whole seconds, so the column of microseconds keeps them. The answers of Etherscan and the clock are
  parameters.
\<close>

section \<open>Addresses\<close>

text \<open>\<open>AddressType\<close> of \<open>accounting/common/types.go\<close>, with the names of its generated \<open>String\<close>.\<close>

datatype AddressType = Reserve | PricingOperator | SanityOperator | IntermediateOperator | CEXDepositAddress |
  CompanyWallet | DepositOperator

fun AddressType_String :: "AddressType \<Rightarrow> string" where
  "AddressType_String Reserve = ''reserve''"
| "AddressType_String PricingOperator = ''pricing_operator''"
| "AddressType_String SanityOperator = ''sanity_operator''"
| "AddressType_String IntermediateOperator = ''intermediate_operator''"
| "AddressType_String CEXDepositAddress = ''cex_deposit_address''"
| "AddressType_String CompanyWallet = ''company_wallet''"
| "AddressType_String DepositOperator = ''deposit_operator''"

definition all_address_types :: "AddressType list" where
  "all_address_types = [Reserve, PricingOperator, SanityOperator, IntermediateOperator, CEXDepositAddress,
     CompanyWallet, DepositOperator]"

text \<open>The map \<open>validAddressTypes\<close> from the names.\<close>

definition IsValidAddressType :: "string \<Rightarrow> AddressType option" where
  "IsValidAddressType typ = List.find (\<lambda>a. AddressType_String a = typ) all_address_types"

record ReserveAddress =
  ra_ID :: nat
  ra_Address :: addr
  ra_Type :: AddressType
  ra_Description :: string
  ra_Timestamp :: gotime

record ReserveAddress_json =
  rj_ID :: nat
  rj_Address :: addr
  rj_Type :: string
  rj_Description :: string
  rj_timestamp :: "nat option"

definition ReserveAddress_MarshalJSON :: "ReserveAddress \<Rightarrow> ReserveAddress_json" where
  "ReserveAddress_MarshalJSON r = \<lparr> rj_ID = ra_ID r, rj_Address = ra_Address r, rj_Type = AddressType_String (ra_Type r),
     rj_Description = ra_Description r,
     rj_timestamp = (if ra_Timestamp r \<noteq> zero_time then Some (TimeToTimestampMs (ra_Timestamp r)) else None) \<rparr>"

definition invalid_type :: "string \<Rightarrow> go_err" where
  "invalid_type typ = Err (''invalid address type: '' @ typ)"

text \<open>The receiver keeps its time when the text has none.\<close>

definition ReserveAddress_UnmarshalJSON :: "ReserveAddress_json \<Rightarrow> ReserveAddress \<Rightarrow> ReserveAddress go" where
  "ReserveAddress_UnmarshalJSON j r =
     (case IsValidAddressType (rj_Type j) of
        None \<Rightarrow> Inl (invalid_type (rj_Type j))
      | Some typ \<Rightarrow> Inr \<lparr> ra_ID = rj_ID j, ra_Address = rj_Address j, ra_Type = typ, ra_Description = rj_Description j,
          ra_Timestamp = (case rj_timestamp j of None \<Rightarrow> ra_Timestamp r | Some ms \<Rightarrow> TimestampMsToTime ms) \<rparr>)"

section \<open>The time of a contract\<close>

definition ErrNotAvailable :: go_err where
  "ErrNotAvailable = Err ''address is not a contract, or does not exist''"

record first_tx =
  ft_ContractAddress :: string
  ft_TimeStamp :: gotime

text \<open>The answers for one address: the first normal and internal transaction, and the first transfers.\<close>

record creation_client =
  cc_normal :: "first_tx list \<times> go_err option"
  cc_internal :: "first_tx list \<times> go_err option"
  cc_erc20 :: "gotime list \<times> go_err option"

text \<open>An error other than "no transactions" is not returned: the code goes on with the empty answer.\<close>

definition resolveUsingInternalTx :: "creation_client \<Rightarrow> gotime go" where
  "resolveUsingInternalTx c =
     (let (txs, err) = cc_internal c in
      if (case err of Some e \<Rightarrow> IsEtherscanNotransactionFound e | None \<Rightarrow> False) then Inl ErrNotAvailable
      else case txs of
        [] \<Rightarrow> Inl ErrNotAvailable
      | firstTx # _ \<Rightarrow>
          if ft_ContractAddress firstTx = [] then Inl ErrNotAvailable else Inr (ft_TimeStamp firstTx))"

definition Resolve_creation :: "creation_client \<Rightarrow> gotime go" where
  "Resolve_creation c =
     (case cc_normal c of
        (txs, Some e) \<Rightarrow> if IsEtherscanNotransactionFound e then resolveUsingInternalTx c else Inl e
      | ([], None) \<Rightarrow> Inl ErrNotAvailable
      | (firstTx # _, None) \<Rightarrow>
          if ft_ContractAddress firstTx = [] then
            (case resolveUsingInternalTx c of
               Inr t \<Rightarrow> Inr t
             | Inl e \<Rightarrow>
                 (case cc_erc20 c of
                    (t # _, None) \<Rightarrow> Inr (if t < ft_TimeStamp firstTx then t else ft_TimeStamp firstTx)
                  | _ \<Rightarrow> Inr (ft_TimeStamp firstTx)))
          else Inr (ft_TimeStamp firstTx))"

section \<open>The table\<close>

record address_row =
  ad_id :: nat
  ad_address :: string
  ad_type :: string
  ad_description :: string
  ad_timestamp :: "gotime option"
  ad_last_updated :: gotime

text \<open>The row of \<open>addresses_version\<close> is there once the trigger has run.\<close>

record address_db =
  sd_rows :: "address_row list"
  sd_next :: nat
  sd_version :: "nat option"

definition empty_address_db :: address_db where
  "empty_address_db = \<lparr> sd_rows = [], sd_next = 1, sd_version = None \<rparr>"

definition inc_version :: "address_db \<Rightarrow> address_db" where
  "inc_version db = db\<lparr> sd_version := Some (case sd_version db of None \<Rightarrow> 1 | Some v \<Rightarrow> v + 1) \<rparr>"

definition ErrNotExists :: go_err where "ErrNotExists = Err ''not exists''"

definition ErrExists :: go_err where "ErrExists = Err ''already exists''"

definition unique_violation :: go_err where
  "unique_violation = Err ''pq: duplicate key value violates unique constraint''"

text \<open>The parameter of the time: NULL when there is none.\<close>

definition time_param :: "gotime go \<Rightarrow> gotime option go" where
  "time_param ts =
     (case ts of
        Inr t \<Rightarrow> Inr (Some t)
      | Inl e \<Rightarrow> if e = ErrNotAvailable then Inr None else Inl e)"

text \<open>\<open>exec\<close> is an error of the statement for another reason. The number of a row that was refused is used up.\<close>

definition Create :: "tx_lib \<Rightarrow> (addr \<Rightarrow> gotime go) \<Rightarrow> go_err option \<Rightarrow> gotime \<Rightarrow> addr \<Rightarrow> AddressType \<Rightarrow> string \<Rightarrow> address_db
    \<Rightarrow> address_db \<times> nat go" where
  "Create L resolv exec now address addressType description db =
     (case time_param (resolv address) of
        Inl e \<Rightarrow> (db, Inl e)
      | Inr ts \<Rightarrow>
          (case exec of
             Some e \<Rightarrow> (db, Inl e)
           | None \<Rightarrow>
               let i = sd_next db; db = db\<lparr> sd_next := i + 1 \<rparr>
               in if AddressHex L address \<in> ad_address ` set (sd_rows db) then (db, Inl ErrExists)
                  else (inc_version (db\<lparr> sd_rows := sd_rows db @ [\<lparr> ad_id = i, ad_address = AddressHex L address,
                          ad_type = AddressType_String addressType, ad_description = description, ad_timestamp = ts,
                          ad_last_updated = now \<rparr>] \<rparr>), Inr i)))"

definition unknown_type :: "string \<Rightarrow> go_err" where "unknown_type typ = Err (''unknown type: '' @ typ)"

text \<open>\<open>Common\<close>; the time of a NULL is the zero time.\<close>

definition Common :: "tx_lib \<Rightarrow> address_row \<Rightarrow> ReserveAddress go" where
  "Common L r =
     (case IsValidAddressType (ad_type r) of
        None \<Rightarrow> Inl (unknown_type (ad_type r))
      | Some typ \<Rightarrow> Inr \<lparr> ra_ID = ad_id r, ra_Address = HexToAddress L (ad_address r), ra_Type = typ,
          ra_Description = ad_description r,
          ra_Timestamp = (case ad_timestamp r of None \<Rightarrow> zero_time | Some t \<Rightarrow> t) \<rparr>)"

definition Get_address :: "tx_lib \<Rightarrow> go_err option \<Rightarrow> nat \<Rightarrow> address_db \<Rightarrow> ReserveAddress go" where
  "Get_address L get n db =
     (case get of
        Some e \<Rightarrow> Inl e
      | None \<Rightarrow>
          (case List.find (\<lambda>r. ad_id r = n) (sd_rows db) of
             None \<Rightarrow> Inl ErrNotExists
           | Some r \<Rightarrow> Common L r))"

fun all_common :: "tx_lib \<Rightarrow> address_row list \<Rightarrow> ReserveAddress list go" where
  "all_common L [] = Inr []"
| "all_common L (r # rs) = go_bind (Common L r) (\<lambda>a. go_bind (all_common L rs) (\<lambda>as. Inr (a # as)))"

definition no_rows :: go_err where "no_rows = Err ''sql: no rows in result set''"

definition GetAll_addresses :: "tx_lib \<Rightarrow> (address_row list \<Rightarrow> address_row list) \<Rightarrow> go_err option \<times> go_err option \<Rightarrow> address_db
    \<Rightarrow> (ReserveAddress list \<times> nat) go" where
  "GetAll_addresses L ord err db =
     (case err of
        (Some e, _) \<Rightarrow> Inl e
      | (None, ver) \<Rightarrow>
          go_bind (all_common L (ord (sd_rows db))) (\<lambda>results.
            if 0 < length results then
              (case ver of
                 Some e \<Rightarrow> Inl e
               | None \<Rightarrow> (case sd_version db of None \<Rightarrow> Inl no_rows | Some v \<Rightarrow> Inr (results, v)))
            else Inr (results, 0)))"

text \<open>
  \<open>Update\<close>: a zero value keeps the column, except that the time is set to that of the given address, which is the zero
  address when the address is not to change.
\<close>

definition updated_row :: "tx_lib \<Rightarrow> addr \<Rightarrow> AddressType option \<Rightarrow> string \<Rightarrow> gotime option \<Rightarrow> address_row \<Rightarrow> address_row" where
  "updated_row L address addressType description ts r =
     r\<lparr> ad_address := (if \<not> IsZeroAddress address then AddressHex L address else ad_address r),
        ad_type := (case addressType of Some typ \<Rightarrow> AddressType_String typ | None \<Rightarrow> ad_type r),
        ad_description := (if 0 < length description then description else ad_description r),
        ad_timestamp := ts \<rparr>"

definition Update :: "tx_lib \<Rightarrow> (addr \<Rightarrow> gotime go) \<Rightarrow> go_err option \<Rightarrow> nat \<Rightarrow> addr \<Rightarrow> AddressType option \<Rightarrow> string
    \<Rightarrow> address_db \<Rightarrow> address_db \<times> go_err option" where
  "Update L resolv exec n address addressType description db =
     (case time_param (resolv address) of
        Inl e \<Rightarrow> (db, Some e)
      | Inr ts \<Rightarrow>
          (case exec of
             Some e \<Rightarrow> (db, Some e)
           | None \<Rightarrow>
               (case List.find (\<lambda>r. ad_id r = n) (sd_rows db) of
                  None \<Rightarrow> (db, Some ErrNotExists)
                | Some r \<Rightarrow>
                    let r' = updated_row L address addressType description ts r
                    in if ad_address r' \<in> ad_address ` {x \<in> set (sd_rows db). ad_id x \<noteq> n} then (db, Some unique_violation)
                       else let db' = db\<lparr> sd_rows := map (\<lambda>x. if ad_id x = n then r' else x) (sd_rows db) \<rparr>
                            in (if r' = r then db' else inc_version db', None))))"

section \<open>Handlers\<close>

text \<open>The codes that a handler writes, in order; \<open>input\<close> is the bound JSON, None when it is not accepted.\<close>

record createInput =
  ci_Address :: string
  ci_Type :: string
  ci_Description :: string

definition create_handler :: "tx_lib \<Rightarrow> (addr \<Rightarrow> gotime go) \<Rightarrow> go_err option \<Rightarrow> gotime \<Rightarrow> createInput option \<Rightarrow> address_db
    \<Rightarrow> address_db \<times> nat list" where
  "create_handler L resolv exec now input db =
     (case input of
        None \<Rightarrow> (db, [400])
      | Some i \<Rightarrow>
          (case IsValidAddressType (ci_Type i) of
             None \<Rightarrow> (db, [400])
           | Some typ \<Rightarrow>
               (case Create L resolv exec now (HexToAddress L (ci_Address i)) typ (ci_Description i) db of
                  (db, Inl e) \<Rightarrow> (db, [if e = ErrExists then 409 else 500])
                | (db, Inr n) \<Rightarrow> (db, [201]))))"

record updateInput =
  ui_Address :: string
  ui_Type :: "string option"
  ui_Description :: string

text \<open>
  The parameter of the path is \<open>n\<close>, None when it is not a number: then an error is written, but the handlers go on with
  the number 0.
\<close>

definition id_param :: "nat option \<Rightarrow> nat \<times> nat list" where
  "id_param n = (case n of None \<Rightarrow> (0, [400]) | Some n \<Rightarrow> (n, []))"

definition get_handler :: "tx_lib \<Rightarrow> go_err option \<Rightarrow> nat option \<Rightarrow> address_db \<Rightarrow> nat list" where
  "get_handler L get n db =
     (let (i, written) = id_param n in
      written @ (case Get_address L get i db of
        Inl e \<Rightarrow> if e = ErrNotExists then [404] else [500]
      | Inr ra \<Rightarrow> [200]))"

definition update_handler :: "tx_lib \<Rightarrow> (addr \<Rightarrow> gotime go) \<Rightarrow> go_err option \<Rightarrow> nat option \<Rightarrow> updateInput option \<Rightarrow> address_db
    \<Rightarrow> address_db \<times> nat list" where
  "update_handler L resolv exec n input db =
     (let (i, written) = id_param n in
      (case input of
         None \<Rightarrow> (db, written @ [400])
       | Some u \<Rightarrow>
           (case (case ui_Type u of None \<Rightarrow> Some None | Some typ \<Rightarrow> map_option Some (IsValidAddressType typ)) of
              None \<Rightarrow> (db, written @ [400])
            | Some addressType \<Rightarrow>
                (case Update L resolv exec i (HexToAddress L (ui_Address u)) addressType (ui_Description u) db of
                   (db, Some e) \<Rightarrow> (db, written @ [if e = ErrNotExists then 404 else 500])
                 | (db, None) \<Rightarrow> (db, written @ [204])))))"

section \<open>The state of the table\<close>

lemma IsValidAddressType_String [simp]: "IsValidAddressType (AddressType_String t) = Some t"
  by (cases t) (simp_all add: IsValidAddressType_def all_address_types_def)

text \<open>
  The constraints of the table, rows that can be read, and a version if there is a row.
\<close>

definition addresses_ok :: "address_db \<Rightarrow> bool" where
  "addresses_ok db \<longleftrightarrow> distinct (map ad_id (sd_rows db)) \<and> distinct (map ad_address (sd_rows db)) \<and>
     (\<forall>r\<in>set (sd_rows db). 0 < ad_id r \<and> ad_id r < sd_next db \<and> IsValidAddressType (ad_type r) \<noteq> None) \<and> 0 < sd_next db \<and>
     (sd_rows db \<noteq> [] \<longrightarrow> sd_version db \<noteq> None)"

lemma empty_address_db_ok: "addresses_ok empty_address_db"
  by (simp add: addresses_ok_def empty_address_db_def)

lemma inc_version_rows [simp]: "sd_rows (inc_version db) = sd_rows db" "sd_next (inc_version db) = sd_next db"
  "sd_version (inc_version db) \<noteq> None"
  by (simp_all add: inc_version_def)

lemma Create_ok:
  assumes "Create L resolv exec now a typ d db = (db', x)" "addresses_ok db"
  shows "addresses_ok db'"
proof (cases "db' = db \<or> db' = db\<lparr> sd_next := sd_next db + 1 \<rparr>")
  case True
  with assms(2) show ?thesis by (auto simp: addresses_ok_def less_Suc_eq)
next
  case False
  with assms(1) obtain ts where "AddressHex L a \<notin> ad_address ` set (sd_rows db)"
    "db' = inc_version (db\<lparr> sd_next := sd_next db + 1, sd_rows := sd_rows db @ [\<lparr> ad_id = sd_next db, ad_address = AddressHex L a,
       ad_type = AddressType_String typ, ad_description = d, ad_timestamp = ts, ad_last_updated = now \<rparr>] \<rparr>)"
    by (auto simp: Create_def Let_def split: sum.splits option.splits if_splits)
  with assms(2) show ?thesis by (auto simp: addresses_ok_def less_Suc_eq)
qed

lemma find_row: "List.find (\<lambda>r. ad_id r = n) rows = Some r \<Longrightarrow> r \<in> set rows \<and> ad_id r = n"
  by (auto simp: find_Some_iff)

lemma find_appended: "List.find P xs = None \<Longrightarrow> List.find P (xs @ ys) = List.find P ys"
  by (induction xs) (auto split: if_splits)

lemma updated_row_simps [simp]: "ad_id (updated_row L a typ d ts r) = ad_id r"
  by (simp add: updated_row_def)

lemma distinct_map_update:
  assumes "distinct (map f xs)" "distinct (map g xs)" "r \<in> set xs" "g r' \<notin> g ` {x \<in> set xs. f x \<noteq> f r}"
  shows "distinct (map (\<lambda>x. g (if f x = f r then r' else x)) xs)"
proof -
  let ?h = "\<lambda>x. if f x = f r then r' else x"
  have "inj_on (\<lambda>x. g (?h x)) (set xs)"
  proof (rule inj_onI)
    fix x y assume xy: "x \<in> set xs" "y \<in> set xs" "g (?h x) = g (?h y)"
    have other: "g z \<noteq> g r'" if "z \<in> set xs" "f z \<noteq> f r" for z
      using assms(4) that by (metis (mono_tags, lifting) imageI mem_Collect_eq)
    have "f x = f y" if "g x = g y" using assms(2) xy(1,2) that by (metis distinct_map inj_onD)
    then have "f x = f y" using xy other [of x] other [of y] by (auto split: if_splits)
    then show "x = y" using assms(1) xy(1,2) by (metis distinct_map inj_onD)
  qed
  moreover have "distinct xs" using assms(1) by (simp add: distinct_map)
  ultimately show ?thesis by (simp add: distinct_map comp_def)
qed

lemma Update_ok:
  assumes "Update L resolv exec n a typ d db = (db', e)" "addresses_ok db"
  shows "addresses_ok db'"
proof (cases "db' = db")
  case False
  with assms(1) obtain ts r where r: "List.find (\<lambda>r. ad_id r = n) (sd_rows db) = Some r"
    and new: "ad_address (updated_row L a typ d ts r) \<notin> ad_address ` {x \<in> set (sd_rows db). ad_id x \<noteq> n}"
    and db': "db' = (let r' = updated_row L a typ d ts r;
      db' = db\<lparr> sd_rows := map (\<lambda>x. if ad_id x = n then r' else x) (sd_rows db) \<rparr> in if r' = r then db' else inc_version db')"
    unfolding Update_def by (auto simp: Let_def split: sum.splits option.splits if_splits)
  let ?r = "updated_row L a typ d ts r"
  have mem: "r \<in> set (sd_rows db)" "ad_id r = n" using find_row [OF r] by simp_all
  have rows: "sd_rows db' = map (\<lambda>x. if ad_id x = ad_id r then ?r else x) (sd_rows db)" "sd_next db' = sd_next db"
    "sd_version db \<noteq> None \<longrightarrow> sd_version db' \<noteq> None"
    using mem by (auto simp: db' Let_def inc_version_def)
  have ids: "map ad_id (sd_rows db') = map ad_id (sd_rows db)" by (simp add: rows)
  have ads: "distinct (map ad_address (sd_rows db'))"
    using distinct_map_update [of ad_id "sd_rows db" ad_address r ?r] assms(2) mem new
    by (simp add: rows(1) addresses_ok_def comp_def)
  have valid: "IsValidAddressType (ad_type ?r) \<noteq> None"
    using assms(2) mem by (auto simp: updated_row_def addresses_ok_def split: option.splits)
  have "\<forall>x\<in>set (sd_rows db'). 0 < ad_id x \<and> ad_id x < sd_next db' \<and> IsValidAddressType (ad_type x) \<noteq> None"
    using assms(2) mem valid unfolding rows addresses_ok_def by auto
  moreover have "sd_rows db' \<noteq> [] \<longrightarrow> sd_version db' \<noteq> None"
    using assms(2) rows mem unfolding addresses_ok_def by auto
  ultimately show ?thesis using assms(2) ids ads rows(2) unfolding addresses_ok_def by simp
qed (use assms(2) in simp)

lemma all_common_ok:
  "\<forall>r\<in>set rs. IsValidAddressType (ad_type r) \<noteq> None \<Longrightarrow> \<exists>as. all_common L rs = Inr as \<and> length as = length rs"
  by (induction rs) (auto simp: Common_def)

section \<open>Properties\<close>

text \<open>
  The addresses that are stored can always be read: whatever calls create and update them, and whichever of the calls
  fail, their types stay names of types, so a query for all of them has each one.
\<close>

theorem addresses_readable:
  assumes "addresses_ok db" "\<forall>rows. mset (ord rows) = mset rows"
  shows "addresses_ok (fst (Create L resolv exec now a typ d db)) \<and> addresses_ok (fst (Update L resolv exec n a ty d db)) \<and>
    (\<exists>rs v. GetAll_addresses L ord (None, None) db = Inr (rs, v) \<and> length rs = length (sd_rows db))"
proof -
  have "set (ord (sd_rows db)) = set (sd_rows db)" "length (ord (sd_rows db)) = length (sd_rows db)"
    using assms(2) by (metis mset_eq_setD, metis mset_eq_length)
  with assms(1) obtain as where "all_common L (ord (sd_rows db)) = Inr as" "length as = length (sd_rows db)"
    using all_common_ok [of "ord (sd_rows db)" L] by (auto simp: addresses_ok_def)
  then have "\<exists>rs v. GetAll_addresses L ord (None, None) db = Inr (rs, v) \<and> length rs = length (sd_rows db)"
    using assms(1) by (auto simp: GetAll_addresses_def addresses_ok_def)
  then show ?thesis
    using Create_ok [OF _ assms(1)] Update_ok [OF _ assms(1)] by (metis prod.collapse)
qed

text \<open>
  An address that is created is the one that is read under the number that was returned, with the time of its contract,
  and the version grows by one.
\<close>

theorem Create_Get_address:
  assumes "\<forall>a. HexToAddress L (AddressHex L a) = a" "addresses_ok db"
    and "Create L resolv exec now a typ d db = (db', Inr n)"
  shows "Get_address L None n db' = Inr \<lparr> ra_ID = n, ra_Address = a, ra_Type = typ, ra_Description = d,
      ra_Timestamp = (case resolv a of Inr t \<Rightarrow> t | Inl e \<Rightarrow> zero_time) \<rparr> \<and>
    sd_version db' = Some (case sd_version db of None \<Rightarrow> 1 | Some v \<Rightarrow> v + 1)"
proof -
  from assms(3) obtain ts where ts: "time_param (resolv a) = Inr ts" and n: "n = sd_next db"
    and db': "db' = inc_version (db\<lparr> sd_next := n + 1, sd_rows := sd_rows db @ [\<lparr> ad_id = n, ad_address = AddressHex L a,
       ad_type = AddressType_String typ, ad_description = d, ad_timestamp = ts, ad_last_updated = now \<rparr>] \<rparr>)"
    by (auto simp: Create_def Let_def split: sum.splits option.splits if_splits)
  have "(case ts of None \<Rightarrow> zero_time | Some t \<Rightarrow> t) = (case resolv a of Inr t \<Rightarrow> t | Inl e \<Rightarrow> zero_time)"
    using ts by (auto simp: time_param_def split: sum.splits if_splits)
  moreover have "List.find (\<lambda>r. ad_id r = n) (sd_rows db) = None"
    using assms(2) n by (auto simp: find_None_iff addresses_ok_def)
  ultimately show ?thesis
    using assms(1) by (simp add: db' Get_address_def find_appended Common_def inc_version_def)
qed

text \<open>
  An update that leaves the address as it is erases its time: the time is looked up for the zero address, which has
  none.
\<close>

theorem Update_erases_time:
  assumes "resolv 0 = Inl ErrNotAvailable" "Update L resolv exec n 0 typ d db = (db', None)"
  shows "(\<exists>r\<in>set (sd_rows db'). ad_id r = n) \<and> (\<forall>r\<in>set (sd_rows db'). ad_id r = n \<longrightarrow> ad_timestamp r = None)"
proof -
  have "time_param (resolv 0) = Inr None" using assms(1) by (simp add: time_param_def)
  with assms(2) obtain r where r: "List.find (\<lambda>r. ad_id r = n) (sd_rows db) = Some r"
    "sd_rows db' = map (\<lambda>x. if ad_id x = n then updated_row L 0 typ d None r else x) (sd_rows db)"
    unfolding Update_def by (auto simp: Let_def split: sum.splits option.splits if_splits)
  have mem: "r \<in> set (sd_rows db)" "ad_id r = n" using find_row [OF r(1)] by simp_all
  let ?r = "updated_row L 0 typ d None r"
  have set: "set (sd_rows db') = (\<lambda>x. if ad_id x = n then ?r else x) ` set (sd_rows db)" by (simp only: r(2) set_map)
  have new: "ad_id ?r = n" "ad_timestamp ?r = None" using mem by (simp_all add: updated_row_def)
  have "?r \<in> set (sd_rows db')" unfolding set using mem by (intro image_eqI [of _ _ r]) simp_all
  moreover have "ad_timestamp x = None" if "x \<in> set (sd_rows db')" "ad_id x = n" for x
    using that new unfolding set by (auto split: if_splits)
  ultimately show ?thesis using new by blast
qed

section \<open>Concrete instances\<close>

definition sample_resolver :: "addr \<Rightarrow> gotime go" where
  "sample_resolver a = (if a = 9 then Inr (10 ^ 18) else Inl ErrNotAvailable)"

definition sample_addresses :: address_db where
  "sample_addresses = fst (Create sample_tx_lib sample_resolver None 0 9 Reserve ''a reserve'' empty_address_db)"

lemma sample_addresses_row:
  "sample_addresses = \<lparr> sd_rows = [\<lparr> ad_id = 1, ad_address = AddressHex sample_tx_lib 9, ad_type = ''reserve'',
     ad_description = ''a reserve'', ad_timestamp = Some (10 ^ 18), ad_last_updated = 0 \<rparr>], sd_next = 2, sd_version = Some 1 \<rparr>"
  by (simp add: sample_addresses_def Create_def empty_address_db_def sample_resolver_def time_param_def inc_version_def)

lemma sample_addresses_ok: "addresses_ok sample_addresses"
  by (simp add: sample_addresses_row addresses_ok_def IsValidAddressType_def all_address_types_def)

theorem addresses_readable_witness:
  "addresses_ok (fst (Create sample_tx_lib sample_resolver None 0 8 CompanyWallet [] sample_addresses)) \<and>
   length (sd_rows (fst (Create sample_tx_lib sample_resolver None 0 8 CompanyWallet [] sample_addresses))) = 2 \<and>
   (\<exists>rs v. GetAll_addresses sample_tx_lib rev (None, None) sample_addresses = Inr (rs, v) \<and> length rs = 1)"
proof -
  have "AddressHex sample_tx_lib 8 \<noteq> AddressHex sample_tx_lib 9" 
  proof
    assume "AddressHex sample_tx_lib 8 = AddressHex sample_tx_lib 9"
    then have "(8 :: addr) = 9" by (metis sample_tx_lib_hex(2))
    then show False by simp
  qed
  then have "length (sd_rows (fst (Create sample_tx_lib sample_resolver None 0 8 CompanyWallet [] sample_addresses))) = 2"
    by (simp add: Create_def sample_resolver_def time_param_def sample_addresses_row)
  moreover have "length (sd_rows sample_addresses) = 1" by (simp add: sample_addresses_row)
  ultimately show ?thesis
    using addresses_readable [OF sample_addresses_ok, of rev sample_tx_lib sample_resolver None 0 8 CompanyWallet "[]"] by simp
qed

theorem Create_Get_address_witness:
  "\<exists>ra. Get_address sample_tx_lib None 1 sample_addresses = Inr ra \<and> ra_Address ra = 9 \<and> ra_Timestamp ra = 10 ^ 18"
proof -
  have "Create sample_tx_lib sample_resolver None 0 9 Reserve ''a reserve'' empty_address_db = (sample_addresses, Inr 1)"
    by (simp add: sample_addresses_row) (simp add: Create_def empty_address_db_def sample_resolver_def time_param_def inc_version_def)
  from Create_Get_address [OF _ empty_address_db_ok this] show ?thesis
    by (simp add: sample_tx_lib_hex) (simp add: sample_resolver_def)
qed

theorem Update_erases_time_witness:
  "\<exists>db'. Update sample_tx_lib sample_resolver None 1 0 None ''renamed'' sample_addresses = (db', None) \<and>
     (\<forall>r\<in>set (sd_rows db'). ad_id r = 1 \<longrightarrow> ad_timestamp r = None)"
proof -
  have "\<exists>db'. Update sample_tx_lib sample_resolver None 1 0 None ''renamed'' sample_addresses = (db', None)"
    by (simp add: Update_def sample_resolver_def time_param_def sample_addresses_row updated_row_def IsZeroAddress_def Let_def)
      auto
  then obtain db' where "Update sample_tx_lib sample_resolver None 1 0 None ''renamed'' sample_addresses = (db', None)" by blast
  with Update_erases_time [OF _ this] show ?thesis by (auto simp: sample_resolver_def)
qed

end
