(* ===== verification/AccountingStore.thy ===== *)
theory AccountingStore
  imports ReserveAddresses
begin

text \<open>
  The tables of the reserves' transactions, \<open>accounting/reserve-transaction-fetcher/storage/postgres/postgres.go\<close>:
  one table of transactions and one table of links to the addresses for each of the three kinds, the addresses, and
  the last inserted block of each address.

  A transaction is stored as its JSON. The order in which a query returns its rows is not determined by its text: it
  is the parameter \<open>ord\<close> of the readers. The errors of the database are parameters of each call.
\<close>

section \<open>Tables\<close>

text \<open>A table of transactions, the next number of its sequence, and the table of links \<open>(tx_id, address_key)\<close>.\<close>

record 'd tx_table =
  tb_rows :: "(nat \<times> 'd) list"
  tb_next :: nat
  tb_links :: "(nat \<times> string) list"

definition empty_table :: "'d tx_table" where "empty_table = \<lparr> tb_rows = [], tb_next = 1, tb_links = [] \<rparr>"

record tx_db =
  xd_reserve :: "string \<Rightarrow> string option"
  xd_normal :: "NormalTx_json tx_table"
  xd_internal :: "InternalTx_json tx_table"
  xd_erc20 :: "ERC20Transfer_json tx_table"
  xd_last :: "(string \<times> nat) list"

definition empty_tx_db :: tx_db where
  "empty_tx_db = \<lparr> xd_reserve = Map.empty, xd_normal = empty_table, xd_internal = empty_table, xd_erc20 = empty_table,
     xd_last = [] \<rparr>"

text \<open>\<open>INSERT ... ON CONFLICT (tx_hash) DO UPDATE SET data = EXCLUDED.data RETURNING id\<close>.\<close>

definition upsert_data :: "('d \<Rightarrow> 'k) \<Rightarrow> 'd \<Rightarrow> 'd tx_table \<Rightarrow> nat option \<times> 'd tx_table" where
  "upsert_data key d tb =
     (case List.find (\<lambda>(i, x). key x = key d) (tb_rows tb) of
        Some (i, x) \<Rightarrow> (Some i, tb\<lparr> tb_rows := map (\<lambda>(j, y). if key y = key d then (j, d) else (j, y)) (tb_rows tb),
                                tb_next := tb_next tb + 1 \<rparr>)
      | None \<Rightarrow> (Some (tb_next tb), tb\<lparr> tb_rows := tb_rows tb @ [(tb_next tb, d)], tb_next := tb_next tb + 1 \<rparr>))"

text \<open>\<open>INSERT ... ON CONFLICT DO NOTHING RETURNING id\<close>: no row is returned when the data are there.\<close>

definition insert_data :: "'d \<Rightarrow> 'd tx_table \<Rightarrow> nat option \<times> 'd tx_table" where
  "insert_data d tb =
     (if d \<in> snd ` set (tb_rows tb) then (None, tb\<lparr> tb_next := tb_next tb + 1 \<rparr>)
      else (Some (tb_next tb), tb\<lparr> tb_rows := tb_rows tb @ [(tb_next tb, d)], tb_next := tb_next tb + 1 \<rparr>))"

definition fk_violation :: go_err where
  "fk_violation = Err ''insert or update on table violates foreign key constraint''"

text \<open>
  The loop over the transactions. The variable \<open>id\<close> is declared before it, so it keeps the value of the
  preceding transaction when a statement returns no row. Statement \<open>n\<close> of the call fails with \<open>stmt n\<close>.
\<close>

fun store_txs :: "(nat \<Rightarrow> go_err option) \<Rightarrow> ('d \<Rightarrow> 'd tx_table \<Rightarrow> nat option \<times> 'd tx_table) \<Rightarrow> bool \<Rightarrow> string
    \<Rightarrow> nat \<Rightarrow> nat \<Rightarrow> 'd list \<Rightarrow> 'd tx_table \<Rightarrow> 'd tx_table go" where
  "store_txs stmt ins known address n tid [] tb = Inr tb"
| "store_txs stmt ins known address n tid (d # ds) tb =
     (case stmt n of
        Some e \<Rightarrow> Inl e
      | None \<Rightarrow>
          let (row, tb) = ins d tb;
              tid = (case row of Some i \<Rightarrow> i | None \<Rightarrow> tid)
          in if tid \<noteq> 0 then
               (case stmt (n + 1) of
                  Some e \<Rightarrow> Inl e
                | None \<Rightarrow>
                    if known then
                      store_txs stmt ins known address (n + 2) tid ds
                        (tb\<lparr> tb_links := insert_new (\<lambda>l. l) (tid, address) (tb_links tb) \<rparr>)
                    else Inl fk_violation)
             else store_txs stmt ins known address (n + 2) tid ds tb)"

definition StoreReserve :: "tx_lib \<Rightarrow> go_err option \<Rightarrow> addr \<Rightarrow> string \<Rightarrow> tx_db \<Rightarrow> tx_db \<times> go_err option" where
  "StoreReserve L exec reserve reserveType db =
     (case exec of
        Some e \<Rightarrow> (db, Some e)
      | None \<Rightarrow> (db\<lparr> xd_reserve := (xd_reserve db)(AddressHex L reserve \<mapsto> reserveType) \<rparr>, None))"

definition known_address :: "tx_lib \<Rightarrow> tx_db \<Rightarrow> addr \<Rightarrow> bool" where
  "known_address L db reserve \<longleftrightarrow> AddressHex L reserve \<in> dom (xd_reserve db)"

definition normal_hash :: "NormalTx_json \<Rightarrow> string" where "normal_hash j = nt_Hash (nj_body j)"

definition StoreNormalTx :: "tx_lib \<Rightarrow> tx_errors \<Rightarrow> NormalTx list \<Rightarrow> addr \<Rightarrow> tx_db \<Rightarrow> tx_db \<times> go_err option" where
  "StoreNormalTx L E txs reserve db =
     in_transaction E (\<lambda>stmt db. go_bind
       (store_txs stmt (upsert_data normal_hash) (known_address L db reserve) (AddressHex L reserve) 0 0
          (map NormalTx_MarshalJSON txs) (xd_normal db))
       (\<lambda>tb. Inr (db\<lparr> xd_normal := tb \<rparr>))) db"

definition StoreInternalTx :: "tx_lib \<Rightarrow> tx_errors \<Rightarrow> accounting_InternalTx list \<Rightarrow> addr \<Rightarrow> tx_db \<Rightarrow> tx_db \<times> go_err option" where
  "StoreInternalTx L E txs reserve db =
     in_transaction E (\<lambda>stmt db. go_bind
       (store_txs stmt insert_data (known_address L db reserve) (AddressHex L reserve) 0 0
          (map InternalTx_MarshalJSON txs) (xd_internal db))
       (\<lambda>tb. Inr (db\<lparr> xd_internal := tb \<rparr>))) db"

definition StoreERC20Transfer :: "tx_lib \<Rightarrow> tx_errors \<Rightarrow> ERC20Transfer list \<Rightarrow> addr \<Rightarrow> tx_db \<Rightarrow> tx_db \<times> go_err option" where
  "StoreERC20Transfer L E txs reserve db =
     in_transaction E (\<lambda>stmt db. go_bind
       (store_txs stmt insert_data (known_address L db reserve) (AddressHex L reserve) 0 0
          (map (ERC20Transfer_MarshalJSON L) txs) (xd_erc20 db))
       (\<lambda>tb. Inr (db\<lparr> xd_erc20 := tb \<rparr>))) db"

text \<open>
  The last inserted block: \<open>Uint64\<close> of a big integer takes the low 64 bits of its magnitude, the driver refuses
  values from \<open>2 ^ 63\<close> on, and the address refers to the table of addresses.
\<close>

definition high_bit :: go_err where
  "high_bit = Err ''sql: converting argument $2 type: uint64 values with high bit set are not supported''"

fun set_last :: "string \<Rightarrow> nat \<Rightarrow> (string \<times> nat) list \<Rightarrow> (string \<times> nat) list" where
  "set_last a n [] = [(a, n)]"
| "set_last a n (x # xs) = (if fst x = a then (a, n) # xs else x # set_last a n xs)"

definition StoreLastInserted :: "tx_lib \<Rightarrow> go_err option \<Rightarrow> addr \<Rightarrow> int \<Rightarrow> tx_db \<Rightarrow> tx_db \<times> go_err option" where
  "StoreLastInserted L exec address blockNumber db =
     (let n = u64 \<bar>blockNumber\<bar> in
      if 2 ^ 63 \<le> n then (db, Some high_bit)
      else case exec of
        Some e \<Rightarrow> (db, Some e)
      | None \<Rightarrow>
          if known_address L db address then (db\<lparr> xd_last := set_last (AddressHex L address) n (xd_last db) \<rparr>, None)
          else (db, Some fk_violation))"

text \<open>\<open>address_key ILIKE $1\<close>; an address has no pattern characters.\<close>

definition GetLastInserted :: "tx_lib \<Rightarrow> go_err option \<Rightarrow> addr \<Rightarrow> tx_db \<Rightarrow> nat option go" where
  "GetLastInserted L get address db =
     (case get of
        Some e \<Rightarrow> Inl e
      | None \<Rightarrow> Inr (map_option snd (List.find (\<lambda>(a, n). lower a = lower (AddressHex L address)) (xd_last db))))"

section \<open>Reading\<close>

definition between_ms :: "gotime \<Rightarrow> gotime \<Rightarrow> nat \<Rightarrow> bool" where
  "between_ms t0 t1 ms \<longleftrightarrow> TimeToTimestampMs t0 \<le> ms \<and> ms < TimeToTimestampMs t1"

definition GetNormalTx :: "(NormalTx_json list \<Rightarrow> NormalTx_json list) \<Rightarrow> go_err option \<Rightarrow> gotime \<Rightarrow> gotime \<Rightarrow> tx_db \<Rightarrow> NormalTx list go" where
  "GetNormalTx ord sel t0 t1 db =
     (case sel of
        Some e \<Rightarrow> Inl e
      | None \<Rightarrow> Inr (map NormalTx_UnmarshalJSON
          (ord (filter (\<lambda>j. between_ms t0 t1 (nj_timestamp j)) (map snd (tb_rows (xd_normal db)))))))"

definition GetInternalTx :: "(InternalTx_json list \<Rightarrow> InternalTx_json list) \<Rightarrow> go_err option \<Rightarrow> gotime \<Rightarrow> gotime \<Rightarrow> tx_db
    \<Rightarrow> accounting_InternalTx list go" where
  "GetInternalTx ord sel t0 t1 db =
     (case sel of
        Some e \<Rightarrow> Inl e
      | None \<Rightarrow> Inr (map InternalTx_UnmarshalJSON
          (ord (filter (\<lambda>j. between_ms t0 t1 (ij_timestamp j)) (map snd (tb_rows (xd_internal db)))))))"

text \<open>One variable receives every transfer, and keeps what a text leaves out. A timestamp that is null is in no range.\<close>

fun unmarshal_transfers :: "tx_lib \<Rightarrow> ERC20Transfer \<Rightarrow> ERC20Transfer_json list \<Rightarrow> ERC20Transfer list" where
  "unmarshal_transfers L t [] = []"
| "unmarshal_transfers L t (j # js) =
     (let t = ERC20Transfer_UnmarshalJSON L j t in t # unmarshal_transfers L t js)"

definition ERC20Transfer0 :: ERC20Transfer where
  "ERC20Transfer0 = \<lparr> et_BlockNumber = 0, et_Timestamp = zero_time, et_Hash = 0, et_From = 0, et_ContractAddress = 0,
     et_To = 0, et_Value = 0, et_Gas = 0, et_GasUsed = 0, et_GasPrice = 0, et_IsTrade = False \<rparr>"

definition transfer_between :: "gotime \<Rightarrow> gotime \<Rightarrow> ERC20Transfer_json \<Rightarrow> bool" where
  "transfer_between t0 t1 j = (case ej_timestamp j of None \<Rightarrow> False | Some ms \<Rightarrow> between_ms t0 t1 ms)"

definition GetERC20Transfer :: "tx_lib \<Rightarrow> (ERC20Transfer_json list \<Rightarrow> ERC20Transfer_json list) \<Rightarrow> go_err option \<Rightarrow> gotime \<Rightarrow> gotime \<Rightarrow> tx_db
    \<Rightarrow> ERC20Transfer list go" where
  "GetERC20Transfer L ord sel t0 t1 db =
     (case sel of
        Some e \<Rightarrow> Inl e
      | None \<Rightarrow> Inr (unmarshal_transfers L ERC20Transfer0
          (ord (filter (transfer_between t0 t1) (map snd (tb_rows (xd_erc20 db)))))))"

text \<open>The joins with the links and the addresses, for the company wallets: one row for each link.\<close>

definition wallet_joins :: "tx_db \<Rightarrow> ERC20Transfer_json list" where
  "wallet_joins db = concat (map (\<lambda>(i, j).
     map (\<lambda>l. j) (filter (\<lambda>(tx, a). tx = i \<and> xd_reserve db a = Some (AddressType_String CompanyWallet)) (tb_links (xd_erc20 db))))
     (tb_rows (xd_erc20 db)))"

definition GetWalletERC20Transfers :: "tx_lib \<Rightarrow> (ERC20Transfer_json list \<Rightarrow> ERC20Transfer_json list) \<Rightarrow> go_err option \<Rightarrow> addr \<Rightarrow> addr
    \<Rightarrow> gotime \<Rightarrow> gotime \<Rightarrow> tx_db \<Rightarrow> ERC20Transfer list go" where
  "GetWalletERC20Transfers L ord sel wallet token t0 t1 db =
     (case sel of
        Some e \<Rightarrow> Inl e
      | None \<Rightarrow> Inr (unmarshal_transfers L ERC20Transfer0
          (ord (filter (\<lambda>j. transfer_between t0 t1 j \<and>
               (IsZeroAddress wallet \<or> ej_from j = AddressHex L wallet \<or> ej_to j = AddressHex L wallet) \<and>
               (IsZeroAddress token \<or> ej_contractAddress j = AddressHex L token)) (wallet_joins db)))))"

section \<open>The tables after a call\<close>

text \<open>The data of a table, and the addresses that its transactions are linked to.\<close>

abbreviation data_of :: "'d tx_table \<Rightarrow> 'd set" where "data_of tb \<equiv> snd ` set (tb_rows tb)"

definition linked :: "'d tx_table \<Rightarrow> 'd \<Rightarrow> string \<Rightarrow> bool" where
  "linked tb d a \<longleftrightarrow> (\<exists>i. (i, d) \<in> set (tb_rows tb) \<and> (i, a) \<in> set (tb_links tb))"

text \<open>
  The constraints of the tables: distinct numbers below the sequence, one row for each key, and links to existing
  rows.
\<close>

definition table_ok :: "('d \<Rightarrow> 'k) \<Rightarrow> 'd tx_table \<Rightarrow> bool" where
  "table_ok key tb \<longleftrightarrow> distinct (map fst (tb_rows tb)) \<and> 0 < tb_next tb \<and>
     (\<forall>p\<in>set (tb_rows tb). 0 < fst p \<and> fst p < tb_next tb) \<and>
     distinct (map (\<lambda>p. key (snd p)) (tb_rows tb)) \<and> fst ` set (tb_links tb) \<subseteq> fst ` set (tb_rows tb)"

lemma empty_table_ok [simp]: "table_ok key empty_table"
  by (simp add: table_ok_def empty_table_def)

lemma same_row: "table_ok key tb \<Longrightarrow> (i, d) \<in> set (tb_rows tb) \<Longrightarrow> (j, d') \<in> set (tb_rows tb) \<Longrightarrow> key d = key d' \<Longrightarrow> i = j \<and> d = d'"
  unfolding table_ok_def distinct_map inj_on_def by fastforce

lemma insert_other_keys: "inj_on key (insert d A) \<Longrightarrow> insert d {x \<in> A. key x \<noteq> key d} = insert d A"
  by (auto simp: inj_on_def)

text \<open>What both statements do, for the key of the constraint.\<close>

locale tx_insertion =
  fixes ins :: "'d \<Rightarrow> 'd tx_table \<Rightarrow> nat option \<times> 'd tx_table" and key :: "'d \<Rightarrow> 'k"
  assumes ins_ok: "ins d tb = (row, tb') \<Longrightarrow> table_ok key tb \<Longrightarrow> table_ok key tb'"
    and ins_data: "ins d tb = (row, tb') \<Longrightarrow> table_ok key tb \<Longrightarrow>
      data_of tb' = insert d {x \<in> data_of tb. key x \<noteq> key d}"
    and ins_links: "ins d tb = (row, tb') \<Longrightarrow> tb_links tb' = tb_links tb"
    and ins_row: "ins d tb = (Some i, tb') \<Longrightarrow> (i, d) \<in> set (tb_rows tb')"
    and ins_rows: "ins d tb = (row, tb') \<Longrightarrow> (i, x) \<in> set (tb_rows tb) \<Longrightarrow> \<exists>y. (i, y) \<in> set (tb_rows tb') \<and> key y = key x"

text \<open>The statement that updates returns a number each time.\<close>

locale tx_update = tx_insertion +
  assumes ins_returns: "fst (ins d tb) \<noteq> None"

lemma insert_data_rows: "insert_data d tb = (row, tb') \<Longrightarrow>
   tb_next tb' = tb_next tb + 1 \<and> tb_links tb' = tb_links tb \<and>
   (if d \<in> data_of tb then row = None \<and> tb_rows tb' = tb_rows tb
    else row = Some (tb_next tb) \<and> tb_rows tb' = tb_rows tb @ [(tb_next tb, d)])"
  by (auto simp: insert_data_def split: if_splits)

lemma append_row_ok:
  assumes "table_ok key tb" "key d \<notin> key ` data_of tb"
  shows "table_ok key (tb\<lparr> tb_rows := tb_rows tb @ [(tb_next tb, d)], tb_next := tb_next tb + 1 \<rparr>)"
proof -
  have "tb_next tb \<notin> fst ` set (tb_rows tb)" using assms(1) unfolding table_ok_def by (metis imageE less_irrefl)
  moreover have "key d \<notin> (\<lambda>p. key (snd p)) ` set (tb_rows tb)" using assms(2) by (simp add: image_image)
  ultimately show ?thesis using assms(1) unfolding table_ok_def by (simp add: less_Suc_eq) blast
qed

lemma next_row_ok: "table_ok key tb \<Longrightarrow> table_ok key (tb\<lparr> tb_next := tb_next tb + 1 \<rparr>)"
  unfolding table_ok_def by (simp add: less_Suc_eq)

interpretation data_insert: tx_insertion insert_data "\<lambda>d. d"
proof
  fix d :: 'd and tb row tb' i and x :: 'd
  show "data_of tb' = insert d {x \<in> data_of tb. x \<noteq> d}" if "insert_data d tb = (row, tb')"
    using insert_data_rows [OF that] by (auto split: if_splits)
  show "tb_links tb' = tb_links tb" if "insert_data d tb = (row, tb')"
    using insert_data_rows [OF that] by simp
  show "(i, d) \<in> set (tb_rows tb')" if "insert_data d tb = (Some i, tb')"
    using insert_data_rows [OF that] by (auto split: if_splits)
  show "\<exists>y. (i, y) \<in> set (tb_rows tb') \<and> y = x" if "insert_data d tb = (row, tb')" "(i, x) \<in> set (tb_rows tb)"
    using insert_data_rows [OF that(1)] that(2) by (auto split: if_splits)
  show "table_ok (\<lambda>d. d) tb'" if "insert_data d tb = (row, tb')" "table_ok (\<lambda>d. d) tb"
    using that append_row_ok [of "\<lambda>d. d" tb d] next_row_ok [of "\<lambda>d. d" tb]
    by (auto simp: insert_data_def split: if_splits)
qed

lemma find_key_None: "List.find (\<lambda>(i, x). key x = key d) rows = None \<longleftrightarrow> key d \<notin> key ` snd ` set rows"
  unfolding find_None_iff by (auto simp: image_iff) metis

lemma find_key_Some: "List.find (\<lambda>(i, x). key x = key d) rows = Some (i, x) \<Longrightarrow> (i, x) \<in> set rows \<and> key x = key d"
  unfolding find_Some_iff by (metis (mono_tags, lifting) case_prod_conv nth_mem)

lemma upsert_data_cases:
  assumes "upsert_data key d tb = (row, tb')"
  obtains i x where "row = Some i" "(i, x) \<in> set (tb_rows tb)" "key x = key d"
      "tb' = tb\<lparr> tb_rows := map (\<lambda>(j, y). if key y = key d then (j, d) else (j, y)) (tb_rows tb), tb_next := tb_next tb + 1 \<rparr>"
    | "key d \<notin> key ` data_of tb" "row = Some (tb_next tb)"
      "tb' = tb\<lparr> tb_rows := tb_rows tb @ [(tb_next tb, d)], tb_next := tb_next tb + 1 \<rparr>"
proof (cases "List.find (\<lambda>(i, x). key x = key d) (tb_rows tb)")
  case None
  with assms that(2) show thesis by (auto simp: upsert_data_def find_key_None)
next
  case (Some a)
  obtain i x where a: "a = (i, x)" by (cases a)
  with Some find_key_Some have "(i, x) \<in> set (tb_rows tb)" "key x = key d" by metis+
  with Some a assms that(1) show thesis by (auto simp: upsert_data_def)
qed

interpretation data_upsert: tx_update "upsert_data key" key for key :: "'d \<Rightarrow> 'k"
proof
  fix d :: 'd and tb row tb' i and x :: 'd
  let ?f = "\<lambda>(j, y). if key y = key d then (j, d) else (j, y)"
  have f: "fst (?f p) = fst p" "key (snd (?f p)) = key (snd p)"
    "snd (?f p) = (if key (snd p) = key d then d else snd p)" for p :: "nat \<times> 'd" by (auto split: prod.splits)
  show "data_of tb' = insert d {x \<in> data_of tb. key x \<noteq> key d}" if "upsert_data key d tb = (row, tb')"
    using that
  proof (cases rule: upsert_data_cases)
    case (1 i x)
    have "tb_rows tb' = map ?f (tb_rows tb)" by (simp add: 1(4))
    then have "data_of tb' = (\<lambda>y. if key y = key d then d else y) ` data_of tb"
      by (simp only: set_map image_image f(3))
    then show ?thesis using 1(2,3) by force
  next
    case 2
    have "data_of tb' = insert d (data_of tb)" by (simp add: 2(3))
    moreover have "key x \<noteq> key d" if "x \<in> data_of tb" for x
    proof
      assume "key x = key d"
      with imageI [OF that, of key] 2(1) show False by simp
    qed
    ultimately show ?thesis by (auto simp only:)
  qed
  show "tb_links tb' = tb_links tb" if "upsert_data key d tb = (row, tb')"
    using that by (cases rule: upsert_data_cases) auto
  show "(i, d) \<in> set (tb_rows tb')" if "upsert_data key d tb = (Some i, tb')"
    using that
  proof (cases rule: upsert_data_cases)
    case (1 k x)
    then have "tb_rows tb' = map ?f (tb_rows tb)" by simp
    with 1(2) have "?f (k, x) \<in> set (tb_rows tb')" by (simp only: set_map imageI)
    with 1 show ?thesis by simp
  qed simp
  show "\<exists>y. (i, y) \<in> set (tb_rows tb') \<and> key y = key x" if "upsert_data key d tb = (row, tb')" "(i, x) \<in> set (tb_rows tb)"
    using that(1)
  proof (cases rule: upsert_data_cases)
    case 1
    then have "tb_rows tb' = map ?f (tb_rows tb)" by simp
    with that(2) have "?f (i, x) \<in> set (tb_rows tb')" by (simp only: set_map imageI)
    with f [of "(i, x)"] show ?thesis by (cases "?f (i, x)") (simp only: fst_conv snd_conv, blast)
  next
    case 2
    with that(2) show ?thesis by auto
  qed
  show "table_ok key tb'" if "upsert_data key d tb = (row, tb')" "table_ok key tb"
    using that(1)
  proof (cases rule: upsert_data_cases)
    case (1 i x)
    have "map fst (tb_rows tb') = map fst (tb_rows tb)" "map (\<lambda>p. key (snd p)) (tb_rows tb') = map (\<lambda>p. key (snd p)) (tb_rows tb)"
      using 1 by (auto split: prod.splits)
    moreover from this have "fst ` set (tb_rows tb') = fst ` set (tb_rows tb)"
      by (metis list.set_map)
    moreover have "\<forall>p\<in>set (tb_rows tb'). 0 < fst p \<and> fst p < tb_next tb'"
    proof
      fix p assume "p \<in> set (tb_rows tb')"
      then obtain q where "q \<in> set (tb_rows tb)" "fst p = fst q"
        using \<open>fst ` set (tb_rows tb') = fst ` set (tb_rows tb)\<close> by (metis imageE imageI)
      with that(2) show "0 < fst p \<and> fst p < tb_next tb'" by (simp add: 1(4) table_ok_def less_Suc_eq)
    qed
    moreover have "0 < tb_next tb'" "tb_links tb' = tb_links tb" by (simp_all add: 1(4))
    ultimately show ?thesis using that(2) unfolding table_ok_def by (simp only: simp_thms)
  next
    case 2
    with append_row_ok [OF that(2)] show ?thesis by simp
  qed
  show "fst (upsert_data key d tb) \<noteq> None"
    by (auto simp: upsert_data_def split: option.splits)
qed

text \<open>One transaction of the loop.\<close>

definition link_row :: "string \<Rightarrow> nat \<Rightarrow> 'd tx_table \<Rightarrow> 'd tx_table" where
  "link_row a t tb = (if t = 0 then tb else tb\<lparr> tb_links := insert_new (\<lambda>l. l) (t, a) (tb_links tb) \<rparr>)"

lemma link_row_simps [simp]:
  "tb_rows (link_row a t tb) = tb_rows tb" "tb_next (link_row a t tb) = tb_next tb"
  "set (tb_links (link_row a t tb)) = (if t = 0 then {} else {(t, a)}) \<union> set (tb_links tb)"
  using insert_new_keys [of "\<lambda>l. l" "(t, a)" "tb_links tb"] by (auto simp: link_row_def)

lemma store_txs_Cons:
  assumes "store_txs stmt ins known a n t (d # ds) tb = Inr tb'"
  obtains row tb1 where "ins d tb = (row, tb1)" "t \<noteq> 0 \<or> row \<noteq> None \<longrightarrow> known \<or> row = Some 0"
    "store_txs stmt ins known a (n + 2) (case row of Some i \<Rightarrow> i | None \<Rightarrow> t) ds
       (link_row a (case row of Some i \<Rightarrow> i | None \<Rightarrow> t) tb1) = Inr tb'"
proof -
  obtain row tb1 where "ins d tb = (row, tb1)" by fastforce
  with assms that show thesis
    by (cases row) (auto simp: link_row_def split: option.splits if_splits)
qed

context tx_insertion begin

lemma link_step:
  assumes s: "ins d tb = (row, tb1)" and ok: "table_ok key tb" and t: "t = 0 \<or> t \<in> fst ` set (tb_rows tb)"
  defines "t' \<equiv> case row of Some i \<Rightarrow> i | None \<Rightarrow> t"
  shows "table_ok key (link_row a t' tb1)" "t' = 0 \<or> t' \<in> fst ` set (tb_rows tb1)"
proof -
  show t': "t' = 0 \<or> t' \<in> fst ` set (tb_rows tb1)"
  proof (cases row)
    case None
    have "i \<in> fst ` set (tb_rows tb1)" if "i \<in> fst ` set (tb_rows tb)" for i
      using that ins_rows [OF s] by (metis (no_types, lifting) fst_conv imageE image_eqI prod.collapse)
    with None t show ?thesis by (auto simp: t'_def)
  next
    case (Some i)
    with ins_row [of d tb i tb1] s show ?thesis by (force simp: t'_def)
  qed
  have "table_ok key tb1" by (rule ins_ok [OF s ok])
  with t' show "table_ok key (link_row a t' tb1)" unfolding table_ok_def by auto
qed

lemma store_ok:
  "store_txs stmt ins known a n t ds tb = Inr tb' \<Longrightarrow> table_ok key tb \<Longrightarrow> t = 0 \<or> t \<in> fst ` set (tb_rows tb)
   \<Longrightarrow> table_ok key tb'"
proof (induction ds arbitrary: n t tb)
  case (Cons d ds)
  obtain row tb1 where s: "ins d tb = (row, tb1)"
    "store_txs stmt ins known a (n + 2) (case row of Some i \<Rightarrow> i | None \<Rightarrow> t) ds
       (link_row a (case row of Some i \<Rightarrow> i | None \<Rightarrow> t) tb1) = Inr tb'"
    using store_txs_Cons [OF Cons.prems(1)] by metis
  note one = link_step [OF s(1) Cons.prems(2,3)]
  with Cons.IH [OF s(2) one(1)] show ?case by simp
qed simp


lemma store_inserts:
  "store_txs stmt ins known a n t ds tb = Inr tb' \<Longrightarrow> table_ok key tb \<Longrightarrow> t = 0 \<or> t \<in> fst ` set (tb_rows tb)
   \<Longrightarrow> inj_on key (data_of tb \<union> set ds) \<Longrightarrow> data_of tb' = data_of tb \<union> set ds"
proof (induction ds arbitrary: n t tb)
  case (Cons d ds)
  obtain row tb1 where s: "ins d tb = (row, tb1)"
    "store_txs stmt ins known a (n + 2) (case row of Some i \<Rightarrow> i | None \<Rightarrow> t) ds
       (link_row a (case row of Some i \<Rightarrow> i | None \<Rightarrow> t) tb1) = Inr tb'"
    using store_txs_Cons [OF Cons.prems(1)] by metis
  note one = link_step [OF s(1) Cons.prems(2,3)]
  have data: "data_of tb1 = insert d (data_of tb)"
    unfolding ins_data [OF s(1) Cons.prems(2)]
    by (rule insert_other_keys, rule inj_on_subset [OF Cons.prems(4)]) auto
  with Cons.IH [OF s(2) one(1)] one(2) Cons.prems(4) show ?case by simp
qed simp

lemma store_rows:
  "store_txs stmt ins known a n t ds tb = Inr tb' \<Longrightarrow> (i, x) \<in> set (tb_rows tb)
   \<Longrightarrow> \<exists>y. (i, y) \<in> set (tb_rows tb') \<and> key y = key x"
proof (induction ds arbitrary: n t tb x)
  case (Cons d ds)
  obtain row tb1 where s: "ins d tb = (row, tb1)"
    "store_txs stmt ins known a (n + 2) (case row of Some i \<Rightarrow> i | None \<Rightarrow> t) ds
       (link_row a (case row of Some i \<Rightarrow> i | None \<Rightarrow> t) tb1) = Inr tb'"
    using store_txs_Cons [OF Cons.prems(1)] by metis
  obtain y where "(i, y) \<in> set (tb_rows tb1)" "key y = key x"
    using ins_rows [OF s(1) Cons.prems(2)] by auto
  with Cons.IH [OF s(2)] show ?case by (metis link_row_simps(1))
qed auto

text \<open>The links of other addresses stay.\<close>

lemma store_links:
  "store_txs stmt ins known a n t ds tb = Inr tb' \<Longrightarrow> set (tb_links tb) \<subseteq> set (tb_links tb')"
proof (induction ds arbitrary: n t tb)
  case (Cons d ds)
  obtain row tb1 where s: "ins d tb = (row, tb1)"
    "store_txs stmt ins known a (n + 2) (case row of Some i \<Rightarrow> i | None \<Rightarrow> t) ds
       (link_row a (case row of Some i \<Rightarrow> i | None \<Rightarrow> t) tb1) = Inr tb'"
    using store_txs_Cons [OF Cons.prems(1)] by metis
  with Cons.IH [OF s(2)] ins_links [OF s(1)] show ?case by auto
qed simp

end

context tx_update begin

text \<open>Every transaction of the call is linked to the address, under its key.\<close>

lemma store_links_all:
  "store_txs stmt ins known a n t ds tb = Inr tb' \<Longrightarrow> table_ok key tb \<Longrightarrow> t = 0 \<or> t \<in> fst ` set (tb_rows tb)
   \<Longrightarrow> d \<in> set ds \<Longrightarrow> \<exists>i x. (i, x) \<in> set (tb_rows tb') \<and> key x = key d \<and> (i, a) \<in> set (tb_links tb')"
proof (induction ds arbitrary: n t tb)
  case (Cons x ds)
  obtain row tb1 where s: "ins x tb = (row, tb1)"
    "store_txs stmt ins known a (n + 2) (case row of Some i \<Rightarrow> i | None \<Rightarrow> t) ds
       (link_row a (case row of Some i \<Rightarrow> i | None \<Rightarrow> t) tb1) = Inr tb'"
    using store_txs_Cons [OF Cons.prems(1)] by metis
  note one = link_step [OF s(1) Cons.prems(2,3)]
  show ?case
  proof (cases "d \<in> set ds")
    case True
    with Cons.IH [OF s(2) one(1)] one(2) show ?thesis by simp
  next
    case False
    with Cons.prems(4) have d: "d = x" by simp
    obtain i where i: "row = Some i" using ins_returns [of x tb] s(1) by auto
    with s(1) ins_row have row: "(i, x) \<in> set (tb_rows tb1)" by metis
    then have "i \<noteq> 0" using ins_ok [OF s(1) Cons.prems(2)] unfolding table_ok_def by fastforce
    then have "(i, a) \<in> set (tb_links tb')" using store_links [OF s(2)] i by auto
    with store_rows [OF s(2), of i x] row d show ?thesis by auto
  qed
qed simp

end

text \<open>A row that is there keeps its data and gets no link.\<close>

lemma insert_data_old_links:
  "store_txs stmt insert_data known a n t ds tb = Inr tb' \<Longrightarrow> table_ok (\<lambda>d. d) tb \<Longrightarrow> t = 0 \<or> t \<in> fst ` set (tb_rows tb)
   \<Longrightarrow> (i, d) \<in> set (tb_rows tb) \<Longrightarrow> t \<noteq> i \<Longrightarrow>
   (i, d) \<in> set (tb_rows tb') \<and> ((i, b) \<in> set (tb_links tb') \<longleftrightarrow> (i, b) \<in> set (tb_links tb))"
proof (induction ds arbitrary: n t tb)
  case (Cons x ds)
  obtain row tb1 where s: "insert_data x tb = (row, tb1)"
    "store_txs stmt insert_data known a (n + 2) (case row of Some i \<Rightarrow> i | None \<Rightarrow> t) ds
       (link_row a (case row of Some i \<Rightarrow> i | None \<Rightarrow> t) tb1) = Inr tb'"
    using store_txs_Cons [OF Cons.prems(1)] by metis
  note one = data_insert.link_step [OF s(1) Cons.prems(2,3)]
  have "i < tb_next tb" using Cons.prems(2,4) unfolding table_ok_def by fastforce
  then have i: "(case row of Some i \<Rightarrow> i | None \<Rightarrow> t) \<noteq> i" "(i, d) \<in> set (tb_rows tb1)"
    using insert_data_rows [OF s(1)] Cons.prems(4,5) by (auto split: if_splits)
  have "tb_links tb1 = tb_links tb" by (rule data_insert.ins_links [OF s(1)])
  with Cons.IH [OF s(2) one(1)] one(2) i show ?case by simp
qed simp

end
