(* ===== verification/AccountingRun.thy ===== *)
theory AccountingRun
  imports AccountingStore
begin

text \<open>
  The run of \<open>accounting/cmd/accounting-reserve-transaction-fetcher/main.go\<close>: the windows of blocks of an address,
  what is fetched and stored for each of its types, and the last inserted block from which the next run goes on.

  The fetcher is the record \<open>TransactionFetcher\<close>, with the functions of the interface of this name: \<open>k\<close> numbers the
  windows of a run, so that the answers may change in time. None stands for a call that does not return.
\<close>

record TransactionFetcher =
  tf_NormalTx :: "nat \<Rightarrow> addr \<Rightarrow> int option \<Rightarrow> int option \<Rightarrow> nat \<Rightarrow> NormalTx list go option"
  tf_InternalTx :: "nat \<Rightarrow> addr \<Rightarrow> int option \<Rightarrow> int option \<Rightarrow> nat \<Rightarrow> accounting_InternalTx list go option"
  tf_ERC20Transfer :: "nat \<Rightarrow> addr \<Rightarrow> int option \<Rightarrow> int option \<Rightarrow> nat \<Rightarrow> ERC20Transfer list go option"

record fetch_config =
  fc_normalOffset :: nat
  fc_internalOffset :: nat
  fc_transferOffset :: nat
  fc_batch :: int

text \<open>The errors of the database in window \<open>k\<close>.\<close>

record window_errors =
  we_normal :: tx_errors
  we_internal :: tx_errors
  we_erc20 :: tx_errors
  we_last :: "go_err option"

definition minBig :: "int \<Rightarrow> int \<Rightarrow> int" where "minBig a b = (if a \<le> b then a else b)"

definition fetches_transactions :: "AddressType \<Rightarrow> bool" where
  "fetches_transactions typ \<longleftrightarrow> typ = Reserve \<or> typ = IntermediateOperator \<or> typ = PricingOperator \<or>
     typ = SanityOperator \<or> typ = DepositOperator"

definition fetches_transfers :: "AddressType \<Rightarrow> bool" where
  "fetches_transfers typ \<longleftrightarrow> typ = Reserve \<or> typ = IntermediateOperator \<or> typ = CompanyWallet"

text \<open>\<open>txs, err := f(...); if err != nil { return err }; if len(txs) > 0 { if err = store(txs); ... }\<close>.\<close>

definition fetch_and_store :: "'a list go option \<Rightarrow> ('a list \<Rightarrow> tx_db \<Rightarrow> tx_db \<times> go_err option) \<Rightarrow> tx_db
    \<Rightarrow> (tx_db \<times> go_err option) option" where
  "fetch_and_store ans store db =
     (case ans of
        None \<Rightarrow> None
      | Some (Inl e) \<Rightarrow> Some (db, Some e)
      | Some (Inr txs) \<Rightarrow> Some (if 0 < length txs then store txs db else (db, None)))"

definition and_then :: "('s \<times> go_err option) option \<Rightarrow> ('s \<Rightarrow> ('s \<times> go_err option) option) \<Rightarrow> ('s \<times> go_err option) option" where
  "and_then m f =
     (case m of
        None \<Rightarrow> None
      | Some (s, Some e) \<Rightarrow> Some (s, Some e)
      | Some (s, None) \<Rightarrow> f s)"

text \<open>The body of the loop of \<open>fetchTx\<close>, for the blocks from \<open>fromBlock\<close> to the one before \<open>endBlock\<close>.\<close>

definition fetch_window :: "tx_lib \<Rightarrow> TransactionFetcher \<Rightarrow> fetch_config \<Rightarrow> window_errors \<Rightarrow> ReserveAddress \<Rightarrow> nat \<Rightarrow> int \<Rightarrow> int
    \<Rightarrow> tx_db \<Rightarrow> (tx_db \<times> go_err option) option" where
  "fetch_window L f C E a k fromBlock endBlock db =
     and_then
       (if fetches_transactions (ra_Type a) then
          and_then (fetch_and_store (tf_NormalTx f k (ra_Address a) (Some fromBlock) (Some endBlock) (fc_normalOffset C))
              (\<lambda>txs. StoreNormalTx L (we_normal E) txs (ra_Address a)) db)
            (fetch_and_store (tf_InternalTx f k (ra_Address a) (Some fromBlock) (Some endBlock) (fc_internalOffset C))
              (\<lambda>txs. StoreInternalTx L (we_internal E) txs (ra_Address a)))
        else Some (db, None)) (\<lambda>db.
     and_then
       (if fetches_transfers (ra_Type a) then
          fetch_and_store (tf_ERC20Transfer f k (ra_Address a) (Some fromBlock) (Some endBlock) (fc_transferOffset C))
            (\<lambda>txs. StoreERC20Transfer L (we_erc20 E) txs (ra_Address a)) db
        else Some (db, None)) (\<lambda>db.
     Some (StoreLastInserted L (we_last E) (ra_Address a) endBlock db)))"

partial_function (option) fetch_windows :: "(nat \<Rightarrow> int \<Rightarrow> int \<Rightarrow> tx_db \<Rightarrow> (tx_db \<times> go_err option) option) \<Rightarrow> int \<Rightarrow> int
    \<Rightarrow> nat \<Rightarrow> int \<Rightarrow> int \<Rightarrow> tx_db \<Rightarrow> (tx_db \<times> go_err option) option" where
  "fetch_windows window batch toBlock k fromBlock endBlock db =
     (if endBlock \<le> toBlock then
        (case window k fromBlock endBlock db of
           None \<Rightarrow> None
         | Some (db, Some e) \<Rightarrow> Some (db, Some e)
         | Some (db, None) \<Rightarrow>
             if endBlock = toBlock then Some (db, None)
             else fetch_windows window batch toBlock (k + 1) endBlock (minBig (endBlock + batch) toBlock) db)
      else Some (db, None))"

text \<open>The first end is computed from \<open>fromBlock.Int64()\<close>; without a first block the fetch starts at 0.\<close>

definition fetchTx :: "tx_lib \<Rightarrow> TransactionFetcher \<Rightarrow> fetch_config \<Rightarrow> (nat \<Rightarrow> window_errors) \<Rightarrow> ReserveAddress \<Rightarrow> int option \<Rightarrow> int
    \<Rightarrow> tx_db \<Rightarrow> (tx_db \<times> go_err option) option" where
  "fetchTx L f C E a fromBlock toBlock db =
     (let fromBlock = (case fromBlock of None \<Rightarrow> 0 | Some b \<Rightarrow> b) in
      fetch_windows (\<lambda>k. fetch_window L f C (E k) a k) (fc_batch C) toBlock 0 fromBlock (i64 fromBlock + fc_batch C) db)"

record address_errors =
  ae_reserve :: "go_err option"
  ae_get :: "go_err option"
  ae_window :: "nat \<Rightarrow> window_errors"

definition fetch_address :: "tx_lib \<Rightarrow> TransactionFetcher \<Rightarrow> fetch_config \<Rightarrow> address_errors \<Rightarrow> int option \<Rightarrow> int \<Rightarrow> ReserveAddress
    \<Rightarrow> tx_db \<Rightarrow> (tx_db \<times> go_err option) option" where
  "fetch_address L f C E fromBlock toBlock a db =
     and_then (Some (StoreReserve L (ae_reserve E) (ra_Address a) (AddressType_String (ra_Type a)) db)) (\<lambda>db.
       (case GetLastInserted L (ae_get E) (ra_Address a) db of
          Inl e \<Rightarrow> Some (db, Some e)
        | Inr lastInserted \<Rightarrow>
            fetchTx L f C (ae_window E) a (case lastInserted of Some n \<Rightarrow> Some (int n) | None \<Rightarrow> fromBlock) toBlock db))"

text \<open>The loop of \<open>run\<close> over the addresses; address \<open>n\<close> has the fetcher \<open>f n\<close> and the errors \<open>E n\<close>.\<close>

fun run_addresses :: "tx_lib \<Rightarrow> (nat \<Rightarrow> TransactionFetcher) \<Rightarrow> fetch_config \<Rightarrow> (nat \<Rightarrow> address_errors) \<Rightarrow> int option \<Rightarrow> int \<Rightarrow> nat
    \<Rightarrow> ReserveAddress list \<Rightarrow> tx_db \<Rightarrow> (tx_db \<times> go_err option) option" where
  "run_addresses L f C E fromBlock toBlock n [] db = Some (db, None)"
| "run_addresses L f C E fromBlock toBlock n (a # addrs) db =
     and_then (fetch_address L (f n) C (E n) fromBlock toBlock a db) (run_addresses L f C E fromBlock toBlock (n + 1) addrs)"

section \<open>Windows\<close>

text \<open>The loop returns when the batch is positive and every window does.\<close>

lemma fetch_windows_returns:
  assumes "0 < batch" "\<And>k a b db. window k a b db \<noteq> None"
  shows "fetch_windows window batch toBlock k fromBlock endBlock db \<noteq> None"
proof (induction "nat (toBlock - endBlock)" arbitrary: k fromBlock endBlock db rule: less_induct)
  case less
  obtain db1 x where w: "window k fromBlock endBlock db = Some (db1, x)" using assms(2) by fast
  show ?case
  proof (cases "x = None \<and> endBlock < toBlock")
    case True
    then have "nat (toBlock - minBig (endBlock + batch) toBlock) < nat (toBlock - endBlock)"
      using assms(1) by (simp add: minBig_def)
    with less w True show ?thesis by (subst fetch_windows.simps) simp
  next
    case False
    with w show ?thesis by (subst fetch_windows.simps) (auto split: option.splits)
  qed
qed

text \<open>
  An invariant of the loop that each window establishes for its end, and with which a window may fail: \<open>P b db\<close>
  says that the database is complete up to block \<open>b\<close>.
\<close>

lemma fetch_windows_invariant:
  assumes "0 < batch"
    and win: "\<And>k a b db db'. window k a b db = Some (db', None) \<Longrightarrow> a \<le> b \<Longrightarrow> P a db \<Longrightarrow> P b db'"
    and err: "\<And>k a b db db' e. window k a b db = Some (db', Some e) \<Longrightarrow> a \<le> b \<Longrightarrow> P a db \<Longrightarrow> P a db'"
  shows "fetch_windows window batch toBlock k fromBlock endBlock db = Some (db', e) \<Longrightarrow> fromBlock \<le> endBlock \<Longrightarrow> P fromBlock db
    \<Longrightarrow> (\<exists>b\<ge>fromBlock. P b db') \<and> (e = None \<longrightarrow> endBlock \<le> toBlock \<longrightarrow> P toBlock db')"
proof (induction "nat (toBlock - endBlock)" arbitrary: k fromBlock endBlock db rule: less_induct)
  case less
  show ?case
  proof (cases "endBlock \<le> toBlock")
    case False
    with less.prems show ?thesis by (subst (asm) fetch_windows.simps) auto
  next
    case True
    with less.prems(1) obtain db1 x where w: "window k fromBlock endBlock db = Some (db1, x)"
      by (subst (asm) fetch_windows.simps) (auto split: option.splits)
    show ?thesis
    proof (cases x)
      case (Some y)
      with less.prems(1) w True have "db' = db1" "e = x" by (subst (asm) fetch_windows.simps, simp)+
      with err [OF w [unfolded Some]] less.prems Some show ?thesis by auto
    next
      case None
      with win w less.prems have ok: "P endBlock db1" by blast
      show ?thesis
      proof (cases "endBlock = toBlock")
        case True
        with less.prems(1,2) w None ok show ?thesis by (subst (asm) fetch_windows.simps) auto
      next
        case False
        let ?stop = "minBig (endBlock + batch) toBlock"
        have "fetch_windows window batch toBlock (k + 1) endBlock ?stop db1 = Some (db', e)"
          using less.prems(1) w None False True by (subst (asm) fetch_windows.simps) simp
        moreover have "nat (toBlock - ?stop) < nat (toBlock - endBlock)" "endBlock \<le> ?stop" "?stop \<le> toBlock"
          using assms(1) True False by (auto simp: minBig_def)
        ultimately show ?thesis using less.hyps [of ?stop "k + 1" endBlock db1] ok less.prems(2)
          by (meson order_trans)
      qed
    qed
  qed
qed

lemma and_then_Some:
  assumes "and_then m f = Some (s', e)"
  obtains s x where "m = Some (s, Some x)" "s' = s" "e = Some x" | s where "m = Some (s, None)" "f s = Some (s', e)"
  using assms by (auto simp: and_then_def split: option.splits)

section \<open>What a run keeps\<close>

text \<open>The transactions of a ledger from block \<open>f0\<close> to before block \<open>b\<close> are in the table.\<close>

definition covered :: "(int \<times> 'a option) set \<Rightarrow> ('a \<Rightarrow> 'd) \<Rightarrow> int \<Rightarrow> int \<Rightarrow> 'd set \<Rightarrow> bool" where
  "covered ledger marshal f0 b data \<longleftrightarrow> (\<forall>(n, x)\<in>ledger. f0 \<le> n \<and> n < b \<longrightarrow> (\<exists>t. x = Some t \<and> marshal t \<in> data))"

lemma covered_mono: "covered ledger marshal f0 b data \<Longrightarrow> b' \<le> b \<Longrightarrow> data \<subseteq> data' \<Longrightarrow> covered ledger marshal f0 b' data'"
  unfolding covered_def by fastforce

lemma covered_start: "covered ledger marshal f0 f0 data"
  by (auto simp: covered_def)

lemma covered_step:
  assumes "covered ledger marshal f0 a data" "Some ` set ts = {x. \<exists>n. (n, x) \<in> ledger \<and> a \<le> n \<and> n < b}"
    and "marshal ` set ts \<subseteq> data'" "data \<subseteq> data'"
  shows "covered ledger marshal f0 b data'"
  unfolding covered_def
proof (clarify)
  fix n x assume x: "(n, x) \<in> ledger" "f0 \<le> n" "n < b"
  show "\<exists>t. x = Some t \<and> marshal t \<in> data'"
  proof (cases "n < a")
    case True
    with assms(1,4) x show ?thesis unfolding covered_def by fast
  next
    case False
    with x assms(2) have "x \<in> Some ` set ts" by auto
    with assms(3) show ?thesis by auto
  qed
qed

text \<open>What each address needs up to a block.\<close>

record 'l ledger_sets =
  ls_normals :: "'l \<Rightarrow> addr \<Rightarrow> (int \<times> NormalTx option) set"
  ls_internals :: "'l \<Rightarrow> addr \<Rightarrow> (int \<times> accounting_InternalTx option) set"
  ls_transfers :: "'l \<Rightarrow> addr \<Rightarrow> (int \<times> ERC20Transfer option) set"

definition complete_to :: "tx_lib \<Rightarrow> 'l ledger_sets \<Rightarrow> 'l \<Rightarrow> int \<Rightarrow> addr \<Rightarrow> AddressType \<Rightarrow> int \<Rightarrow> tx_db \<Rightarrow> bool" where
  "complete_to L S l f0 a typ b db \<longleftrightarrow>
     (fetches_transactions typ \<longrightarrow>
        covered (ls_normals S l a) NormalTx_MarshalJSON f0 b (data_of (xd_normal db)) \<and>
        covered (ls_internals S l a) InternalTx_MarshalJSON f0 b (data_of (xd_internal db))) \<and>
     (fetches_transfers typ \<longrightarrow>
        covered (ls_transfers S l a) (ERC20Transfer_MarshalJSON L) f0 b (data_of (xd_erc20 db)))"

text \<open>The normal transactions of the ledger: the hash identifies them.\<close>

definition all_normals :: "'l ledger_sets \<Rightarrow> 'l \<Rightarrow> NormalTx_json set" where
  "all_normals S l = {NormalTx_MarshalJSON t |t a b. (b, Some t) \<in> ls_normals S l a}"

text \<open>
  The invariant of the database: its constraints hold, the normal transactions are those of the ledger, and each
  address is complete up to its last inserted block.
\<close>

definition progress_ok :: "tx_lib \<Rightarrow> 'l ledger_sets \<Rightarrow> 'l \<Rightarrow> int \<Rightarrow> (addr \<Rightarrow> AddressType) \<Rightarrow> tx_db \<Rightarrow> bool" where
  "progress_ok L S l f0 types db \<longleftrightarrow>
     table_ok normal_hash (xd_normal db) \<and> table_ok (\<lambda>d. d) (xd_internal db) \<and> table_ok (\<lambda>d. d) (xd_erc20 db) \<and>
     data_of (xd_normal db) \<subseteq> all_normals S l \<and>
     (\<forall>(h, n)\<in>set (xd_last db). n < 2 ^ 63 \<and> (\<exists>a. h = AddressHex L a \<and> complete_to L S l f0 a (types a) (int n) db))"

text \<open>The tables of transactions may grow; the table of addresses plays no part.\<close>

definition grows :: "tx_db \<Rightarrow> tx_db \<Rightarrow> bool" where
  "grows db db' \<longleftrightarrow> data_of (xd_normal db) \<subseteq> data_of (xd_normal db') \<and> data_of (xd_internal db) \<subseteq> data_of (xd_internal db') \<and>
     data_of (xd_erc20 db) \<subseteq> data_of (xd_erc20 db') \<and> xd_last db' = xd_last db"

lemma grows_refl [simp]: "grows db db" by (simp add: grows_def)

lemma complete_to_mono: "complete_to L S l f0 a typ b db \<Longrightarrow> grows db db' \<Longrightarrow> b' \<le> b \<Longrightarrow> complete_to L S l f0 a typ b' db'"
  unfolding complete_to_def grows_def using covered_mono by (metis (no_types, lifting))

lemma complete_to_start: "complete_to L S l f0 a typ f0 db"
  by (simp add: complete_to_def covered_start)

lemma progress_ok_grows:
  assumes "progress_ok L S l f0 types db" "grows db db'"
    and "table_ok normal_hash (xd_normal db')" "table_ok (\<lambda>d. d) (xd_internal db')" "table_ok (\<lambda>d. d) (xd_erc20 db')"
    and "data_of (xd_normal db') \<subseteq> all_normals S l"
  shows "progress_ok L S l f0 types db'"
proof -
  have "xd_last db' = xd_last db" using assms(2) by (simp add: grows_def)
  moreover have "complete_to L S l f0 a (types a) n db'" if "complete_to L S l f0 a (types a) n db" for a n
    by (rule complete_to_mono [OF that assms(2) order_refl])
  ultimately show ?thesis using assms(1,3-6) unfolding progress_ok_def by fastforce
qed

lemma StoreNormalTx_grows:
  assumes st: "StoreNormalTx L E txs r db = (db', e)" and ok: "progress_ok L S l f0 types db"
    and txs: "NormalTx_MarshalJSON ` set txs \<subseteq> all_normals S l" and inj: "inj_on normal_hash (all_normals S l)"
  shows "progress_ok L S l f0 types db' \<and> grows db db' \<and>
    (e = None \<longrightarrow> NormalTx_MarshalJSON ` set txs \<subseteq> data_of (xd_normal db'))"
  using st unfolding StoreNormalTx_def
proof (cases rule: in_transaction_cases)
  case 1
  with ok show ?thesis by auto
next
  case 2
  then obtain tb where tb: "store_txs (te_stmt E) (upsert_data normal_hash) (known_address L db r) (AddressHex L r) 0 0
      (map NormalTx_MarshalJSON txs) (xd_normal db) = Inr tb" "db' = db\<lparr> xd_normal := tb \<rparr>"
    by (auto simp: go_bind_Inr_iff)
  have old: "table_ok normal_hash (xd_normal db)" "data_of (xd_normal db) \<subseteq> all_normals S l"
    using ok by (simp_all add: progress_ok_def)
  have "inj_on normal_hash (data_of (xd_normal db) \<union> set (map NormalTx_MarshalJSON txs))"
    by (rule inj_on_subset [OF inj]) (use old txs in simp)
  with tb(1) old have data: "data_of tb = data_of (xd_normal db) \<union> NormalTx_MarshalJSON ` set txs"
    using data_upsert.store_inserts [OF tb(1)] by simp
  moreover have "table_ok normal_hash tb" using data_upsert.store_ok [OF tb(1)] old by simp
  moreover have g: "grows db db'" using data by (auto simp: grows_def tb(2))
  ultimately show ?thesis
    using progress_ok_grows [OF ok g] ok old txs by (simp add: tb(2) progress_ok_def)
qed

lemma StoreInternalTx_grows:
  assumes st: "StoreInternalTx L E txs r db = (db', e)" and ok: "progress_ok L S l f0 types db"
  shows "progress_ok L S l f0 types db' \<and> grows db db' \<and>
    (e = None \<longrightarrow> InternalTx_MarshalJSON ` set txs \<subseteq> data_of (xd_internal db'))"
  using st unfolding StoreInternalTx_def
proof (cases rule: in_transaction_cases)
  case 1
  with ok show ?thesis by auto
next
  case 2
  then obtain tb where tb: "store_txs (te_stmt E) insert_data (known_address L db r) (AddressHex L r) 0 0
      (map InternalTx_MarshalJSON txs) (xd_internal db) = Inr tb" "db' = db\<lparr> xd_internal := tb \<rparr>"
    by (auto simp: go_bind_Inr_iff)
  have old: "table_ok (\<lambda>d. d) (xd_internal db)" using ok by (simp add: progress_ok_def)
  have "data_of tb = data_of (xd_internal db) \<union> InternalTx_MarshalJSON ` set txs"
    using data_insert.store_inserts [OF tb(1) old] by simp
  moreover have "table_ok (\<lambda>d. d) tb" using data_insert.store_ok [OF tb(1) old] by simp
  moreover from calculation have g: "grows db db'" by (auto simp: grows_def tb(2))
  ultimately show ?thesis
    using progress_ok_grows [OF ok g] ok by (simp add: tb(2) progress_ok_def)
qed

lemma StoreERC20Transfer_grows:
  assumes st: "StoreERC20Transfer L E txs r db = (db', e)" and ok: "progress_ok L S l f0 types db"
  shows "progress_ok L S l f0 types db' \<and> grows db db' \<and>
    (e = None \<longrightarrow> ERC20Transfer_MarshalJSON L ` set txs \<subseteq> data_of (xd_erc20 db'))"
  using st unfolding StoreERC20Transfer_def
proof (cases rule: in_transaction_cases)
  case 1
  with ok show ?thesis by auto
next
  case 2
  then obtain tb where tb: "store_txs (te_stmt E) insert_data (known_address L db r) (AddressHex L r) 0 0
      (map (ERC20Transfer_MarshalJSON L) txs) (xd_erc20 db) = Inr tb" "db' = db\<lparr> xd_erc20 := tb \<rparr>"
    by (auto simp: go_bind_Inr_iff)
  have old: "table_ok (\<lambda>d. d) (xd_erc20 db)" using ok by (simp add: progress_ok_def)
  have "data_of tb = data_of (xd_erc20 db) \<union> ERC20Transfer_MarshalJSON L ` set txs"
    using data_insert.store_inserts [OF tb(1) old] by simp
  moreover have "table_ok (\<lambda>d. d) tb" using data_insert.store_ok [OF tb(1) old] by simp
  moreover from calculation have g: "grows db db'" by (auto simp: grows_def tb(2))
  ultimately show ?thesis
    using progress_ok_grows [OF ok g] ok by (simp add: tb(2) progress_ok_def)
qed

lemma set_last_rows: "(h, m) \<in> set (set_last a n rows) \<Longrightarrow> (h, m) = (a, n) \<or> (h, m) \<in> set rows"
  by (induction rows) (auto split: if_splits)

lemma StoreLastInserted_progress:
  assumes st: "StoreLastInserted L x a b db = (db', e)" and ok: "progress_ok L S l f0 types db"
    and b: "complete_to L S l f0 a (types a) b db" "0 \<le> b"
  shows "progress_ok L S l f0 types db' \<and> complete_to L S l f0 a (types a) b db'"
proof (cases "db' = db")
  case False
  let ?n = "u64 b"
  from st False b(2) have n: "?n < 2 ^ 63" and db': "db' = db\<lparr> xd_last := set_last (AddressHex L a) ?n (xd_last db) \<rparr>"
    by (auto simp: StoreLastInserted_def Let_def split: option.splits if_splits)
  have keep: "complete_to L S l f0 c t m db' = complete_to L S l f0 c t m db" for c t m
    by (simp add: complete_to_def db')
  have "?n \<le> nat b" using b(2) by (simp add: u64_def nat_mono zmod_le_nonneg_dividend)
  then have "complete_to L S l f0 a (types a) (int ?n) db"
    using complete_to_mono [OF b(1) grows_refl, of "int ?n"] b(2) by simp
  moreover have "n' < 2 ^ 63 \<and> (\<exists>c. h = AddressHex L c \<and> complete_to L S l f0 c (types c) (int n') db)"
    if "(h, n') \<in> set (xd_last db)" for h n' using ok that unfolding progress_ok_def by fastforce
  ultimately have "n' < 2 ^ 63 \<and> (\<exists>c. h = AddressHex L c \<and> complete_to L S l f0 c (types c) (int n') db)"
    if "(h, n') \<in> set (xd_last db')" for h n'
    using that n set_last_rows [of h n' "AddressHex L a" ?n "xd_last db"] unfolding db' by fastforce
  then have "\<forall>(h, n)\<in>set (xd_last db'). n < 2 ^ 63 \<and> (\<exists>c. h = AddressHex L c \<and> complete_to L S l f0 c (types c) (int n) db')"
    by (auto simp: keep)
  moreover have "xd_normal db' = xd_normal db" "xd_internal db' = xd_internal db" "xd_erc20 db' = xd_erc20 db"
    by (simp_all add: db')
  ultimately show ?thesis using ok b(1) unfolding keep progress_ok_def by simp
qed (use ok b in simp)

lemma fetch_and_store_cases:
  assumes "fetch_and_store ans store db = Some (db', e)"
  obtains "db' = db" "e \<noteq> None" | txs where "ans = Some (Inr txs)" "txs = [] \<and> db' = db \<and> e = None \<or> store txs db = (db', e)"
  using assms by (auto simp: fetch_and_store_def split: option.splits sum.splits if_splits)

text \<open>
  The transactions of an address, each with its block; None stands for one whose conversion fails. \<open>ok l w\<close> says that
  the fetcher \<open>w\<close> answers from \<open>l\<close>: a successful call has all of them for the blocks from the first one to the one
  before the last.
\<close>

locale tx_source =
  fixes ok :: "'l \<Rightarrow> 'w \<Rightarrow> bool" and fetcher :: "'w \<Rightarrow> TransactionFetcher"
    and normals :: "'l \<Rightarrow> addr \<Rightarrow> (int \<times> NormalTx option) set"
    and internals :: "'l \<Rightarrow> addr \<Rightarrow> (int \<times> accounting_InternalTx option) set"
    and transfers :: "'l \<Rightarrow> addr \<Rightarrow> (int \<times> ERC20Transfer option) set"
  assumes normal_law: "ok l w \<Longrightarrow> tf_NormalTx (fetcher w) k a (Some s) (Some e) off = Some (Inr ns) \<Longrightarrow>
      Some ` set ns = {x. \<exists>b. (b, x) \<in> normals l a \<and> s \<le> b \<and> b < e}"
    and internal_law: "ok l w \<Longrightarrow> tf_InternalTx (fetcher w) k a (Some s) (Some e) off = Some (Inr is) \<Longrightarrow>
      Some ` set is = {x. \<exists>b. (b, x) \<in> internals l a \<and> s \<le> b \<and> b < e}"
    and transfer_law: "ok l w \<Longrightarrow> tf_ERC20Transfer (fetcher w) k a (Some s) (Some e) off = Some (Inr es) \<Longrightarrow>
      Some ` set es = {x. \<exists>b. (b, x) \<in> transfers l a \<and> s \<le> b \<and> b < e}"
begin

abbreviation sets :: "'l ledger_sets" where
  "sets \<equiv> \<lparr> ls_normals = normals, ls_internals = internals, ls_transfers = transfers \<rparr>"

lemma fetch_normals:
  assumes "fetch_and_store (tf_NormalTx (fetcher w) k a (Some s) (Some b) off) (\<lambda>txs. StoreNormalTx L E txs a) db = Some (db', e)"
    and "ok l w" "progress_ok L sets l f0 types db" "inj_on normal_hash (all_normals sets l)"
    and "covered (normals l a) NormalTx_MarshalJSON f0 s (data_of (xd_normal db))"
  shows "progress_ok L sets l f0 types db' \<and> grows db db' \<and>
    (e = None \<longrightarrow> covered (normals l a) NormalTx_MarshalJSON f0 b (data_of (xd_normal db')))"
  using assms(1)
proof (cases rule: fetch_and_store_cases)
  case 1
  with assms(3) show ?thesis by auto
next
  case (2 txs)
  note law = normal_law [OF assms(2) 2(1)]
  have led: "NormalTx_MarshalJSON ` set txs \<subseteq> all_normals sets l"
  proof
    fix j assume "j \<in> NormalTx_MarshalJSON ` set txs"
    then obtain t where "t \<in> set txs" "j = NormalTx_MarshalJSON t" by auto
    with law obtain n where "(n, Some t) \<in> normals l a" by blast
    with \<open>j = _\<close> show "j \<in> all_normals sets l" unfolding all_normals_def by auto
  qed
  have "progress_ok L sets l f0 types db' \<and> grows db db' \<and> (e = None \<longrightarrow> NormalTx_MarshalJSON ` set txs \<subseteq> data_of (xd_normal db'))"
    using 2(2) by (elim disjE) (use assms(3) in simp, rule StoreNormalTx_grows [OF _ assms(3) led assms(4)])
  with covered_step [OF assms(5) law, of "data_of (xd_normal db')"] show ?thesis
    by (simp add: grows_def)
qed

lemma fetch_internals:
  assumes "fetch_and_store (tf_InternalTx (fetcher w) k a (Some s) (Some b) off) (\<lambda>txs. StoreInternalTx L E txs a) db = Some (db', e)"
    and "ok l w" "progress_ok L sets l f0 types db"
    and "covered (internals l a) InternalTx_MarshalJSON f0 s (data_of (xd_internal db))"
  shows "progress_ok L sets l f0 types db' \<and> grows db db' \<and>
    (e = None \<longrightarrow> covered (internals l a) InternalTx_MarshalJSON f0 b (data_of (xd_internal db')))"
  using assms(1)
proof (cases rule: fetch_and_store_cases)
  case 1
  with assms(3) show ?thesis by auto
next
  case (2 txs)
  have "progress_ok L sets l f0 types db' \<and> grows db db' \<and> (e = None \<longrightarrow> InternalTx_MarshalJSON ` set txs \<subseteq> data_of (xd_internal db'))"
    using 2(2) by (elim disjE) (use assms(3) in simp, rule StoreInternalTx_grows [OF _ assms(3)])
  with covered_step [OF assms(4) internal_law [OF assms(2) 2(1)], of "data_of (xd_internal db')"]
  show ?thesis by (simp add: grows_def)
qed

lemma fetch_transfers:
  assumes "fetch_and_store (tf_ERC20Transfer (fetcher w) k a (Some s) (Some b) off) (\<lambda>txs. StoreERC20Transfer L E txs a) db = Some (db', e)"
    and "ok l w" "progress_ok L sets l f0 types db"
    and "covered (transfers l a) (ERC20Transfer_MarshalJSON L) f0 s (data_of (xd_erc20 db))"
  shows "progress_ok L sets l f0 types db' \<and> grows db db' \<and>
    (e = None \<longrightarrow> covered (transfers l a) (ERC20Transfer_MarshalJSON L) f0 b (data_of (xd_erc20 db')))"
  using assms(1)
proof (cases rule: fetch_and_store_cases)
  case 1
  with assms(3) show ?thesis by auto
next
  case (2 txs)
  have "progress_ok L sets l f0 types db' \<and> grows db db' \<and> (e = None \<longrightarrow> ERC20Transfer_MarshalJSON L ` set txs \<subseteq> data_of (xd_erc20 db'))"
    using 2(2) by (elim disjE) (use assms(3) in simp, rule StoreERC20Transfer_grows [OF _ assms(3)])
  with covered_step [OF assms(4) transfer_law [OF assms(2) 2(1)], of "data_of (xd_erc20 db')"]
  show ?thesis by (simp add: grows_def)
qed

lemma window_progress:
  assumes "fetch_window L (fetcher w) C E r k s b db = Some (db', e)"
    and "ok l w" "progress_ok L sets l f0 types db" "inj_on normal_hash (all_normals sets l)"
    and "complete_to L sets l f0 (ra_Address r) (ra_Type r) s db" "types (ra_Address r) = ra_Type r" "s \<le> b" "0 \<le> b"
  shows "progress_ok L sets l f0 types db' \<and> complete_to L sets l f0 (ra_Address r) (ra_Type r) (if e = None then b else s) db'"
proof -
  let ?a = "ra_Address r" and ?t = "ra_Type r"
  let ?good = "\<lambda>db'. progress_ok L sets l f0 types db' \<and> complete_to L sets l f0 ?a ?t s db'"
  have step: "?good db2" if "?good db1" "progress_ok L sets l f0 types db2" "grows db1 db2" for db1 db2
    using that complete_to_mono [of L sets l f0 ?a ?t s db1 db2 s] by simp
  note parts = assms(1) [unfolded fetch_window_def]
  have tx: "?good db2 \<and> (x = None \<longrightarrow> fetches_transactions ?t \<longrightarrow>
      covered (normals l ?a) NormalTx_MarshalJSON f0 b (data_of (xd_normal db2)) \<and>
      covered (internals l ?a) InternalTx_MarshalJSON f0 b (data_of (xd_internal db2)))"
    if "(if fetches_transactions ?t then
          and_then (fetch_and_store (tf_NormalTx (fetcher w) k ?a (Some s) (Some b) (fc_normalOffset C))
              (\<lambda>txs. StoreNormalTx L (we_normal E) txs ?a) db)
            (fetch_and_store (tf_InternalTx (fetcher w) k ?a (Some s) (Some b) (fc_internalOffset C))
              (\<lambda>txs. StoreInternalTx L (we_internal E) txs ?a))
        else Some (db, None)) = Some (db2, x)" for db2 x
  proof (cases "fetches_transactions ?t")
    case False
    with that assms(3,5) show ?thesis by simp
  next
    case True
    have good: "?good db" using assms(3,5) by simp
    have cov: "covered (normals l ?a) NormalTx_MarshalJSON f0 s (data_of (xd_normal db))"
      using assms(5) True by (simp add: complete_to_def)
    from that True have "and_then (fetch_and_store (tf_NormalTx (fetcher w) k ?a (Some s) (Some b) (fc_normalOffset C))
              (\<lambda>txs. StoreNormalTx L (we_normal E) txs ?a) db)
            (fetch_and_store (tf_InternalTx (fetcher w) k ?a (Some s) (Some b) (fc_internalOffset C))
              (\<lambda>txs. StoreInternalTx L (we_internal E) txs ?a)) = Some (db2, x)" by simp
    then show ?thesis
    proof (cases rule: and_then_Some)
      case (1 s1 y)
      with fetch_normals [OF 1(1) assms(2-4) cov] step [OF good] show ?thesis by simp
    next
      case (2 db1)
      note n = fetch_normals [OF 2(1) assms(2-4) cov]
      with step [OF good] have good1: "?good db1" by simp
      then have "covered (internals l ?a) InternalTx_MarshalJSON f0 s (data_of (xd_internal db1))"
        using True by (simp add: complete_to_def)
      note i = fetch_internals [OF 2(2) assms(2) conjunct1 [OF good1] this]
      have "covered (normals l ?a) NormalTx_MarshalJSON f0 b (data_of (xd_normal db2))"
        using n i by (auto simp: grows_def intro: covered_mono [OF _ order_refl])
      with i step [OF good1] show ?thesis by simp
    qed
  qed
  show ?thesis using parts
  proof (cases rule: and_then_Some)
    case (1 db2 y)
    with tx [OF 1(1)] show ?thesis by simp
  next
    case (2 db2)
    note t2 = tx [OF 2(1)]
    show ?thesis using 2(2)
    proof (cases rule: and_then_Some)
      case (1 db3 y)
      show ?thesis
      proof (cases "fetches_transfers ?t")
        case True
        then have "covered (transfers l ?a) (ERC20Transfer_MarshalJSON L) f0 s (data_of (xd_erc20 db2))"
          using t2 by (simp add: complete_to_def)
        note e = fetch_transfers [OF 1(1) [simplified True if_True] assms(2) conjunct1 [OF conjunct1 [OF t2]] this]
        with t2 step [of db2 db3] 1 show ?thesis by simp
      qed (use 1 t2 in simp)
    next
      case (2 db3)
      have good3: "progress_ok L sets l f0 types db3 \<and> complete_to L sets l f0 ?a ?t b db3"
      proof (cases "fetches_transfers ?t")
        case True
        then have cov: "covered (transfers l ?a) (ERC20Transfer_MarshalJSON L) f0 s (data_of (xd_erc20 db2))"
          using t2 by (simp add: complete_to_def)
        note e = fetch_transfers [OF 2(1) [simplified True if_True] assms(2) conjunct1 [OF conjunct1 [OF t2]] cov]
        with t2 True show ?thesis
          by (auto simp: complete_to_def grows_def intro: covered_mono [OF _ order_refl])
      next
        case False
        with 2(1) t2 show ?thesis by (simp add: complete_to_def)
      qed
      from 2(2) have st: "StoreLastInserted L (we_last E) ?a b db3 = (db', e)" by simp
      have "progress_ok L sets l f0 types db' \<and> complete_to L sets l f0 ?a ?t b db'"
        using StoreLastInserted_progress [OF st, of sets l f0 types] good3 assms(6,8) by simp
      then show ?thesis using complete_to_mono [OF _ grows_refl assms(7)] by auto
    qed
  qed
qed

lemma fetchTx_progress:
  assumes run: "fetchTx L (fetcher w) C E r fromBlock toBlock db = Some (db', e)" and batch: "0 < fc_batch C"
    and "ok l w" "inj_on normal_hash (all_normals sets l)" "types (ra_Address r) = ra_Type r"
    and b: "b = (case fromBlock of None \<Rightarrow> 0 | Some b \<Rightarrow> b)" "0 \<le> b" "b < 2 ^ 63"
    and start: "progress_ok L sets l f0 types db" "complete_to L sets l f0 (ra_Address r) (ra_Type r) b db"
  shows "progress_ok L sets l f0 types db' \<and>
    (e = None \<longrightarrow> b + fc_batch C \<le> toBlock \<longrightarrow> complete_to L sets l f0 (ra_Address r) (ra_Type r) toBlock db')"
proof -
  let ?P = "\<lambda>b db. progress_ok L sets l f0 types db \<and> complete_to L sets l f0 (ra_Address r) (ra_Type r) b db \<and> 0 \<le> b"
  let ?w = "\<lambda>k. fetch_window L (fetcher w) C (E k) r k"
  have i64: "i64 b = b" using b by (simp add: i64_id)
  have loop: "fetch_windows ?w (fc_batch C) toBlock 0 b (b + fc_batch C) db = Some (db', e)"
    using run by (simp add: fetchTx_def i64 flip: b(1))
  have win: "?P v db'" if "?w k u v db = Some (db', None)" "u \<le> v" "?P u db" for k u v db db'
    using window_progress [where types = types, OF that(1) assms(3) _ assms(4) _ assms(5) that(2)] that(2,3) by simp
  have err: "?P u db'" if "?w k u v db = Some (db', Some x)" "u \<le> v" "?P u db" for k u v db db' x
    using window_progress [where types = types, OF that(1) assms(3) _ assms(4) _ assms(5) that(2)] that(2,3) by simp
  have "(\<exists>v\<ge>b. ?P v db') \<and> (e = None \<longrightarrow> b + fc_batch C \<le> toBlock \<longrightarrow> ?P toBlock db')"
    by (rule fetch_windows_invariant [of "fc_batch C" ?w ?P, OF batch win err loop]) (use batch start b in auto)
  then show ?thesis by blast
qed

lemma StoreReserve_progress:
  assumes "StoreReserve L x a t db = (db', e)" "progress_ok L sets l f0 types db"
  shows "progress_ok L sets l f0 types db'"
proof -
  have "grows db db'" "xd_normal db' = xd_normal db" "xd_internal db' = xd_internal db" "xd_erc20 db' = xd_erc20 db"
    using assms(1) by (auto simp: StoreReserve_def grows_def split: option.splits)
  with progress_ok_grows [OF assms(2), of db'] assms(2) show ?thesis by (simp add: progress_ok_def)
qed

lemma GetLastInserted_progress:
  assumes "GetLastInserted L x a db = Inr (Some n)" "progress_ok L sets l f0 types db"
    and hex: "\<And>a b. lower (AddressHex L a) = lower (AddressHex L b) \<Longrightarrow> a = b"
  shows "n < 2 ^ 63 \<and> complete_to L sets l f0 a (types a) (int n) db"
proof -
  from assms(1) obtain h where "List.find (\<lambda>(h, n). lower h = lower (AddressHex L a)) (xd_last db) = Some (h, n)"
    by (auto simp: GetLastInserted_def split: option.splits)
  then have h: "(h, n) \<in> set (xd_last db)" "lower h = lower (AddressHex L a)"
    unfolding find_Some_iff by (metis nth_mem, force)
  with assms(2) obtain c where "n < 2 ^ 63" "h = AddressHex L c" "complete_to L sets l f0 c (types c) (int n) db"
    unfolding progress_ok_def by fastforce
  with h(2) hex show ?thesis by blast
qed

lemma fetch_address_progress:
  assumes run: "fetch_address L (fetcher w) C E fromBlock toBlock r db = Some (db', e)" and batch: "0 < fc_batch C"
    and w: "ok l w" "inj_on normal_hash (all_normals sets l)" "types (ra_Address r) = ra_Type r"
    and hex: "\<And>a b. lower (AddressHex L a) = lower (AddressHex L b) \<Longrightarrow> a = b"
    and f0: "f0 = (case fromBlock of None \<Rightarrow> 0 | Some b \<Rightarrow> b)" "0 \<le> f0" "f0 < 2 ^ 63"
    and ok: "progress_ok L sets l f0 types db"
  shows "progress_ok L sets l f0 types db'"
  using run unfolding fetch_address_def
proof (cases rule: and_then_Some)
  case (1 s x)
  with StoreReserve_progress [OF _ ok] show ?thesis by auto
next
  case (2 s)
  then have s: "progress_ok L sets l f0 types s" using StoreReserve_progress [OF _ ok] by auto
  show ?thesis
  proof (cases "GetLastInserted L (ae_get E) (ra_Address r) s")
    case (Inl x)
    with 2(2) s show ?thesis by simp
  next
    case (Inr last_block)
    show ?thesis
    proof (cases last_block)
      case None
      with 2(2) Inr have "fetchTx L (fetcher w) C (ae_window E) r fromBlock toBlock s = Some (db', e)" by simp
      from fetchTx_progress [OF this batch w f0 s complete_to_start] show ?thesis by simp
    next
      case (Some n)
      with 2(2) Inr have run: "fetchTx L (fetcher w) C (ae_window E) r (Some (int n)) toBlock s = Some (db', e)" by simp
      from GetLastInserted_progress [OF Inr [unfolded Some] s hex]
      have n: "n < 2 ^ 63" "complete_to L sets l f0 (ra_Address r) (ra_Type r) (int n) s" by (auto simp: w(3))
      then have "int n < 2 ^ 63" using zless_nat_eq_int_zless by fastforce
      with fetchTx_progress [OF run batch w _ _ _ s n(2)] show ?thesis by simp
    qed
  qed
qed

lemma run_progress:
  assumes batch: "0 < fc_batch C" and w: "\<And>n. ok l (W n)" "inj_on normal_hash (all_normals sets l)"
    and hex: "\<And>a b. lower (AddressHex L a) = lower (AddressHex L b) \<Longrightarrow> a = b"
    and f0: "f0 = (case fromBlock of None \<Rightarrow> 0 | Some b \<Rightarrow> b)" "0 \<le> f0" "f0 < 2 ^ 63"
  shows "run_addresses L (\<lambda>n. fetcher (W n)) C E fromBlock toBlock n addrs db = Some (db', e) \<Longrightarrow>
    \<forall>r\<in>set addrs. types (ra_Address r) = ra_Type r \<Longrightarrow> progress_ok L sets l f0 types db \<Longrightarrow> progress_ok L sets l f0 types db'"
proof (induction addrs arbitrary: n db)
  case (Cons r addrs)
  from Cons.prems(1) have "and_then (fetch_address L (fetcher (W n)) C (E n) fromBlock toBlock r db)
      (run_addresses L (\<lambda>n. fetcher (W n)) C E fromBlock toBlock (n + 1) addrs) = Some (db', e)" by simp
  then show ?case
  proof (cases rule: and_then_Some)
    case (1 s x)
    with fetch_address_progress [OF 1(1) batch w(1,2) _ hex f0] Cons.prems(2,3) show ?thesis by simp
  next
    case (2 s)
    have "progress_ok L sets l f0 types s"
      using fetch_address_progress [OF 2(1) batch w(1,2) _ hex f0] Cons.prems(2,3) by simp
    with Cons.IH [OF 2(2)] Cons.prems(2) show ?thesis by simp
  qed
qed simp

end

section \<open>The fetcher of Etherscan\<close>

text \<open>
  The chain: the transactions of each address, and the receipts. The service: the answers of the Etherscan client in
  window \<open>k\<close> for an address and an offset, those of the node, and the order in which conversions end.
\<close>

record etherscan_chain =
  ec_lib :: tx_lib
  ec_receipt :: "hash \<Rightarrow> receipt"
  ec_normal :: "addr \<Rightarrow> etherscan_NormalTx list"
  ec_internal :: "addr \<Rightarrow> etherscan_InternalTx list"
  ec_erc20 :: "addr \<Rightarrow> etherscan_ERC20Transfer list"

record etherscan_service =
  es_lib :: tx_lib
  es_node :: receipts
  es_order :: "nat \<Rightarrow> nat list"
  es_attempt :: nat
  es_normal :: "nat \<Rightarrow> addr \<Rightarrow> nat \<Rightarrow> etherscan_NormalTx tx_client"
  es_internal :: "nat \<Rightarrow> addr \<Rightarrow> nat \<Rightarrow> etherscan_InternalTx tx_client"
  es_erc20 :: "nat \<Rightarrow> addr \<Rightarrow> nat \<Rightarrow> etherscan_ERC20Transfer tx_client"

definition EtherscanTransactionFetcher :: "etherscan_service \<Rightarrow> TransactionFetcher" where
  "EtherscanTransactionFetcher w = \<lparr>
     tf_NormalTx = (\<lambda>k a s e offset. fetch_NormalTx (es_attempt w) (es_normal w k a offset) s e),
     tf_InternalTx = (\<lambda>k a s e offset. fetch_InternalTx (es_lib w) (es_node w) (es_order w) (es_attempt w)
       (es_internal w k a offset) s e),
     tf_ERC20Transfer = (\<lambda>k a s e offset. fetch_ERC20Transfer (es_lib w) (es_node w) (es_order w) (es_attempt w)
       (es_erc20 w k a offset) s e) \<rparr>"

text \<open>The transactions between two blocks, both included.\<close>

definition in_blocks :: "('a \<Rightarrow> int) \<Rightarrow> 'a list \<Rightarrow> int option \<Rightarrow> int option \<Rightarrow> 'a list" where
  "in_blocks block txs s e = filter (\<lambda>x. (case s of None \<Rightarrow> True | Some a \<Rightarrow> a \<le> block x) \<and>
     (case e of None \<Rightarrow> True | Some b \<Rightarrow> block x \<le> b)) txs"

definition service_ok :: "etherscan_chain \<Rightarrow> etherscan_service \<Rightarrow> bool" where
  "service_ok l w \<longleftrightarrow> es_lib w = ec_lib l \<and> 0 < es_attempt w \<and> (\<forall>n. {..<n} \<subseteq> set (es_order w n)) \<and>
     (\<forall>h r. receipt_with_retry (es_node w) h = Inr r \<longrightarrow> r = ec_receipt l h) \<and>
     (\<forall>k a offset. etherscan_ok (in_blocks en_BlockNumber (ec_normal l a)) offset (es_normal w k a offset) \<and>
       etherscan_ok (in_blocks ei_BlockNumber (ec_internal l a)) offset (es_internal w k a offset) \<and>
       etherscan_ok (in_blocks ee_BlockNumber (ec_erc20 l a)) offset (es_erc20 w k a offset))"

text \<open>The transactions with their blocks, as the fetcher converts them with the receipts of the chain.\<close>

definition chain_node :: "etherscan_chain \<Rightarrow> receipts" where
  "chain_node l h i = (ec_receipt l h, None)"

definition to_option :: "'a go \<Rightarrow> 'a option" where
  "to_option m = (case m of Inl e \<Rightarrow> None | Inr x \<Rightarrow> Some x)"

definition chain_normals :: "etherscan_chain \<Rightarrow> addr \<Rightarrow> (int \<times> NormalTx option) set" where
  "chain_normals l a = (\<lambda>x. (en_BlockNumber x, Some (EtherscanNormalTxToCommon x))) ` set (ec_normal l a)"

definition chain_internals :: "etherscan_chain \<Rightarrow> addr \<Rightarrow> (int \<times> accounting_InternalTx option) set" where
  "chain_internals l a = (\<lambda>x. (ei_BlockNumber x, to_option (EtherscanInternalTxToCommon (ec_lib l) (chain_node l) x))) ` set (ec_internal l a)"

definition chain_transfers :: "etherscan_chain \<Rightarrow> addr \<Rightarrow> (int \<times> ERC20Transfer option) set" where
  "chain_transfers l a = (\<lambda>x. (ee_BlockNumber x, to_option (EtherscanERC20TransferToCommon (ec_lib l) (chain_node l) x))) ` set (ec_erc20 l a)"

definition chain_sets :: "etherscan_chain ledger_sets" where
  "chain_sets = \<lparr> ls_normals = chain_normals, ls_internals = chain_internals, ls_transfers = chain_transfers \<rparr>"

lemma chain_node_retry [simp]: "receipt_with_retry (chain_node l) h = Inr (ec_receipt l h)"
  by (simp add: receipt_with_retry_def chain_node_def eval_nat_numeral)

lemma node_receipt:
  "service_ok l w \<Longrightarrow> receipt_with_retry (es_node w) h = Inr r \<Longrightarrow> receipt_with_retry (chain_node l) h = Inr r"
  by (simp add: service_ok_def)

lemma convert_internal:
  "service_ok l w \<Longrightarrow> EtherscanInternalTxToCommon (es_lib w) (es_node w) x = Inr t \<Longrightarrow>
   to_option (EtherscanInternalTxToCommon (ec_lib l) (chain_node l) x) = Some t"
  using node_receipt [of l w]
  by (auto simp: EtherscanInternalTxToCommon_def DetectTradeInternalTransaction_def go_bind_Inr_iff to_option_def service_ok_def)

lemma convert_erc20:
  "service_ok l w \<Longrightarrow> EtherscanERC20TransferToCommon (es_lib w) (es_node w) x = Inr t \<Longrightarrow>
   to_option (EtherscanERC20TransferToCommon (ec_lib l) (chain_node l) x) = Some t"
  using node_receipt [of l w]
  by (auto simp: EtherscanERC20TransferToCommon_def DetectTradeTransaction_def go_bind_Inr_iff to_option_def service_ok_def)

lemma converted_set:
  assumes "list_all2 (\<lambda>x t. conv x = Inr t) (in_blocks block xs (Some s) (Some (e - 1))) ts"
    and "\<And>x t. conv x = Inr t \<Longrightarrow> g x = Some t"
  shows "Some ` set ts = {y. \<exists>b. (b, y) \<in> (\<lambda>x. (block x, g x)) ` set xs \<and> s \<le> b \<and> b < e}"
proof -
  have "map Some ts = map g (in_blocks block xs (Some s) (Some (e - 1)))"
    using assms(1) by (rule list_all2_map_eq) (simp add: assms(2))
  then have "Some ` set ts = g ` set (in_blocks block xs (Some s) (Some (e - 1)))" by (metis list.set_map)
  also have "\<dots> = {y. \<exists>b. (b, y) \<in> (\<lambda>x. (block x, g x)) ` set xs \<and> s \<le> b \<and> b < e}"
    by (auto simp: in_blocks_def image_iff)
  finally show ?thesis .
qed

end
