(* ===== verification/AccountingProps.thy ===== *)
theory AccountingProps
  imports AccountingRun
begin

text \<open>
  The properties of the storage and of the run of the reserves' transactions: the contract of the fetcher is discharged
  for the one of Etherscan, and the facts of \<open>AccountingRun\<close> are stated for it.
\<close>

section \<open>The fetcher of Etherscan keeps the contract\<close>

lemma fetch_all:
  assumes "service_ok l w"
  shows "etherscan_fetch (es_attempt w) (es_normal w k a offset) (Some s) (Some e) = Some (Inr ns) \<Longrightarrow>
      ns = in_blocks en_BlockNumber (ec_normal l a) (Some s) (Some (e - 1))"
    and "etherscan_fetch (es_attempt w) (es_internal w k a offset) (Some s) (Some e) = Some (Inr is) \<Longrightarrow>
      is = in_blocks ei_BlockNumber (ec_internal l a) (Some s) (Some (e - 1))"
    and "etherscan_fetch (es_attempt w) (es_erc20 w k a offset) (Some s) (Some e) = Some (Inr es) \<Longrightarrow>
      es = in_blocks ee_BlockNumber (ec_erc20 l a) (Some s) (Some (e - 1))"
proof -
  have w: "0 < es_attempt w" "etherscan_ok (in_blocks en_BlockNumber (ec_normal l a)) offset (es_normal w k a offset)"
    "etherscan_ok (in_blocks ei_BlockNumber (ec_internal l a)) offset (es_internal w k a offset)"
    "etherscan_ok (in_blocks ee_BlockNumber (ec_erc20 l a)) offset (es_erc20 w k a offset)"
    using assms by (simp_all add: service_ok_def)
  show "ns = in_blocks en_BlockNumber (ec_normal l a) (Some s) (Some (e - 1))"
    if "etherscan_fetch (es_attempt w) (es_normal w k a offset) (Some s) (Some e) = Some (Inr ns)"
    using etherscan_fetch_all [OF w(2,1), of "Some s" "Some e"] that by auto
  show "is = in_blocks ei_BlockNumber (ec_internal l a) (Some s) (Some (e - 1))"
    if "etherscan_fetch (es_attempt w) (es_internal w k a offset) (Some s) (Some e) = Some (Inr is)"
    using etherscan_fetch_all [OF w(3,1), of "Some s" "Some e"] that by auto
  show "es = in_blocks ee_BlockNumber (ec_erc20 l a) (Some s) (Some (e - 1))"
    if "etherscan_fetch (es_attempt w) (es_erc20 w k a offset) (Some s) (Some e) = Some (Inr es)"
    using etherscan_fetch_all [OF w(4,1), of "Some s" "Some e"] that by auto
qed

interpretation etherscan: tx_source service_ok EtherscanTransactionFetcher chain_normals chain_internals chain_transfers
proof
  fix l w k a s e off and ns is' es
  assume w: "service_ok l w"
  then have order: "{..<n} \<subseteq> set (es_order w n)" for n by (simp add: service_ok_def)
  show "Some ` set ns = {x. \<exists>b. (b, x) \<in> chain_normals l a \<and> s \<le> b \<and> b < e}"
    if "tf_NormalTx (EtherscanTransactionFetcher w) k a (Some s) (Some e) off = Some (Inr ns)"
  proof -
    from that obtain rs where "etherscan_fetch (es_attempt w) (es_normal w k a off) (Some s) (Some e) = Some (Inr rs)"
      "ns = map EtherscanNormalTxToCommon rs"
      by (auto simp: EtherscanTransactionFetcher_def fetch_NormalTx_def go_bind_Inr_iff)
    with fetch_all(1) [OF w] have "list_all2 (\<lambda>x t. Inr (EtherscanNormalTxToCommon x) = (Inr t :: NormalTx go))
        (in_blocks en_BlockNumber (ec_normal l a) (Some s) (Some (e - 1))) ns"
      by (simp add: list.rel_map list_all2_same)
    from converted_set [OF this, of "\<lambda>x. Some (EtherscanNormalTxToCommon x)"] show ?thesis by (simp add: chain_normals_def)
  qed
  show "Some ` set is' = {x. \<exists>b. (b, x) \<in> chain_internals l a \<and> s \<le> b \<and> b < e}"
    if "tf_InternalTx (EtherscanTransactionFetcher w) k a (Some s) (Some e) off = Some (Inr is')"
  proof -
    from that obtain rs where "etherscan_fetch (es_attempt w) (es_internal w k a off) (Some s) (Some e) = Some (Inr rs)"
      "convert_all (EtherscanInternalTxToCommon (es_lib w) (es_node w)) (es_order w) rs = Inr is'"
      by (auto simp: EtherscanTransactionFetcher_def fetch_InternalTx_def go_bind_Inr_iff)
    with fetch_all(2) [OF w] convert_all_Inr [where order = "es_order w", OF _ order] have "list_all2 (\<lambda>x t. EtherscanInternalTxToCommon (es_lib w) (es_node w) x = Inr t)
        (in_blocks ei_BlockNumber (ec_internal l a) (Some s) (Some (e - 1))) is'" by blast
    from converted_set [OF this convert_internal [OF w]] show ?thesis by (simp add: chain_internals_def)
  qed
  show "Some ` set es = {x. \<exists>b. (b, x) \<in> chain_transfers l a \<and> s \<le> b \<and> b < e}"
    if "tf_ERC20Transfer (EtherscanTransactionFetcher w) k a (Some s) (Some e) off = Some (Inr es)"
  proof -
    from that obtain rs where "etherscan_fetch (es_attempt w) (es_erc20 w k a off) (Some s) (Some e) = Some (Inr rs)"
      "convert_all (EtherscanERC20TransferToCommon (es_lib w) (es_node w)) (es_order w) rs = Inr es"
      by (auto simp: EtherscanTransactionFetcher_def fetch_ERC20Transfer_def go_bind_Inr_iff)
    with fetch_all(3) [OF w] convert_all_Inr [where order = "es_order w", OF _ order] have "list_all2 (\<lambda>x t. EtherscanERC20TransferToCommon (es_lib w) (es_node w) x = Inr t)
        (in_blocks ee_BlockNumber (ec_erc20 l a) (Some s) (Some (e - 1))) es" by blast
    from converted_set [OF this convert_erc20 [OF w]] show ?thesis by (simp add: chain_transfers_def)
  qed
qed

lemma fetcher_returns:
  assumes "service_ok l w"
  shows "tf_NormalTx (EtherscanTransactionFetcher w) k a s e off \<noteq> None"
    "tf_InternalTx (EtherscanTransactionFetcher w) k a s e off \<noteq> None"
    "tf_ERC20Transfer (EtherscanTransactionFetcher w) k a s e off \<noteq> None"
proof -
  have w: "0 < es_attempt w" "etherscan_ok (in_blocks en_BlockNumber (ec_normal l a)) off (es_normal w k a off)"
    "etherscan_ok (in_blocks ei_BlockNumber (ec_internal l a)) off (es_internal w k a off)"
    "etherscan_ok (in_blocks ee_BlockNumber (ec_erc20 l a)) off (es_erc20 w k a off)"
    using assms by (simp_all add: service_ok_def)
  show "tf_NormalTx (EtherscanTransactionFetcher w) k a s e off \<noteq> None"
    using etherscan_fetch_all [OF w(2,1), of s e] by (auto simp: EtherscanTransactionFetcher_def fetch_NormalTx_def)
  show "tf_InternalTx (EtherscanTransactionFetcher w) k a s e off \<noteq> None"
    using etherscan_fetch_all [OF w(3,1), of s e] by (auto simp: EtherscanTransactionFetcher_def fetch_InternalTx_def)
  show "tf_ERC20Transfer (EtherscanTransactionFetcher w) k a s e off \<noteq> None"
    using etherscan_fetch_all [OF w(4,1), of s e] by (auto simp: EtherscanTransactionFetcher_def fetch_ERC20Transfer_def)
qed

lemma and_then_returns: "m \<noteq> None \<Longrightarrow> (\<And>s. f s \<noteq> None) \<Longrightarrow> and_then m f \<noteq> None"
  by (auto simp: and_then_def split: option.splits)

lemma fetch_and_store_returns: "ans \<noteq> None \<Longrightarrow> fetch_and_store ans store db \<noteq> None"
  by (auto simp: fetch_and_store_def split: sum.splits)

lemma fetchTx_returns:
  assumes "service_ok l w" "0 < fc_batch C"
  shows "fetchTx L (EtherscanTransactionFetcher w) C E r fromBlock toBlock db \<noteq> None"
proof -
  have "fetch_window L (EtherscanTransactionFetcher w) C e r k a b db \<noteq> None" for e k a b db
    unfolding fetch_window_def
    by (simp add: and_then_returns fetch_and_store_returns fetcher_returns [OF assms(1)] del: not_None_eq)
  then show ?thesis unfolding fetchTx_def Let_def by (intro fetch_windows_returns assms(2))
qed

lemma run_addresses_some:
  assumes "\<And>n. service_ok l (W n)" "0 < fc_batch C"
  shows "run_addresses L (\<lambda>n. EtherscanTransactionFetcher (W n)) C E fromBlock toBlock n addrs db \<noteq> None"
proof (induction addrs arbitrary: n db)
  case (Cons r addrs)
  have "fetch_address L (EtherscanTransactionFetcher (W n)) C (E n) fromBlock toBlock r db \<noteq> None"
    unfolding fetch_address_def using fetchTx_returns [OF assms(1,2)]
    by (intro and_then_returns) (auto split: sum.splits simp del: not_None_eq)
  with Cons show ?case by (simp add: and_then_returns del: not_None_eq)
qed simp

lemma empty_progress_ok: "progress_ok L S l f0 types empty_tx_db"
  by (simp add: progress_ok_def empty_tx_db_def) (simp add: empty_table_def)

section \<open>Reading\<close>

lemma unmarshal_transfers_map:
  "\<forall>j\<in>set js. ej_timestamp j \<noteq> None \<Longrightarrow> unmarshal_transfers L t js = map (\<lambda>j. ERC20Transfer_UnmarshalJSON L j ERC20Transfer0) js"
proof (induction js arbitrary: t)
  case (Cons j js)
  then have "ERC20Transfer_UnmarshalJSON L j t = ERC20Transfer_UnmarshalJSON L j ERC20Transfer0"
    by (auto simp: ERC20Transfer_UnmarshalJSON_def)
  with Cons show ?case by (simp add: Let_def)
qed simp

lemma GetERC20Transfer_set:
  assumes "\<And>js. set (ord js) = set js"
  shows "GetERC20Transfer L ord None t0 t1 db = Inr res \<Longrightarrow>
    set res = (\<lambda>j. ERC20Transfer_UnmarshalJSON L j ERC20Transfer0) ` {j \<in> data_of (xd_erc20 db). transfer_between t0 t1 j}"
proof -
  let ?js = "ord (filter (transfer_between t0 t1) (map snd (tb_rows (xd_erc20 db))))"
  have "\<forall>j\<in>set ?js. ej_timestamp j \<noteq> None" unfolding assms by (auto simp: transfer_between_def split: option.splits)
  then have "unmarshal_transfers L ERC20Transfer0 ?js = map (\<lambda>j. ERC20Transfer_UnmarshalJSON L j ERC20Transfer0) ?js"
    by (rule unmarshal_transfers_map)
  moreover have "set ?js = {j \<in> data_of (xd_erc20 db). transfer_between t0 t1 j}" unfolding assms by auto
  ultimately show "GetERC20Transfer L ord None t0 t1 db = Inr res \<Longrightarrow>
    set res = (\<lambda>j. ERC20Transfer_UnmarshalJSON L j ERC20Transfer0) ` {j \<in> data_of (xd_erc20 db). transfer_between t0 t1 j}"
    unfolding GetERC20Transfer_def by (simp del: set_map set_filter) (drule sym, simp only: set_map)
qed

lemma wallet_joins_iff: "j \<in> set (wallet_joins db) \<longleftrightarrow> (\<exists>i a. (i, j) \<in> set (tb_rows (xd_erc20 db)) \<and>
    (i, a) \<in> set (tb_links (xd_erc20 db)) \<and> xd_reserve db a = Some (AddressType_String CompanyWallet))"
proof -
  have "j \<in> set (wallet_joins db) \<longleftrightarrow> (\<exists>p\<in>set (tb_rows (xd_erc20 db)). \<exists>l\<in>set (tb_links (xd_erc20 db)).
      fst l = fst p \<and> xd_reserve db (snd l) = Some (AddressType_String CompanyWallet) \<and> snd p = j)"
    by (auto simp: wallet_joins_def case_prod_beta)
  then show ?thesis by force
qed

lemma StoreERC20Transfer_data:
  assumes "StoreERC20Transfer L E txs r db = (db', None)" "table_ok (\<lambda>d. d) (xd_erc20 db)"
  shows "data_of (xd_erc20 db') = data_of (xd_erc20 db) \<union> ERC20Transfer_MarshalJSON L ` set txs"
  using assms(1) unfolding StoreERC20Transfer_def
proof (cases rule: in_transaction_cases)
  case 2
  then obtain tb where tb: "store_txs (te_stmt E) insert_data (known_address L db r) (AddressHex L r) 0 0
      (map (ERC20Transfer_MarshalJSON L) txs) (xd_erc20 db) = Inr tb" "db' = db\<lparr> xd_erc20 := tb \<rparr>"
    by (auto simp: go_bind_Inr_iff)
  with data_insert.store_inserts [OF tb(1) assms(2)] show ?thesis by simp
qed simp

lemma to_option_Some: "to_option m = Some t \<Longrightarrow> m = Inr t"
  by (cases m) (simp_all add: to_option_def)

section \<open>Properties\<close>

text \<open>
  C11: The runs of the fetcher of transactions are resumable and complete. Whatever calls of Etherscan, of the node and of
  the database fail, and wherever a run ends because of it, the database keeps its constraints, and every transfer of
  an address between the first block and the last inserted block of that address is stored (the same holds of the
  normal and internal transactions, as part of \<open>progress_ok\<close>).
\<close>

theorem run_addresses_complete:
  assumes "\<forall>n. service_ok l (W n)" and "0 < fc_batch C" and "inj_on normal_hash (all_normals chain_sets l)"
    and "inj (\<lambda>a. lower (AddressHex (ec_lib l) a))"
    and "f0 = (case fromBlock of None \<Rightarrow> 0 | Some b \<Rightarrow> b)" "0 \<le> f0" "f0 < 2 ^ 63"
    and "\<forall>r\<in>set addrs. types (ra_Address r) = ra_Type r"
    and "progress_ok (ec_lib l) chain_sets l f0 types db"
    and "run_addresses (ec_lib l) (\<lambda>n. EtherscanTransactionFetcher (W n)) C E fromBlock toBlock 0 addrs db = Some (db', e)"
  shows "progress_ok (ec_lib l) chain_sets l f0 types db' \<and>
    (\<forall>a n x. GetLastInserted (ec_lib l) None a db' = Inr (Some n) \<longrightarrow> fetches_transfers (types a) \<longrightarrow>
       x \<in> set (ec_erc20 l a) \<longrightarrow> f0 \<le> ee_BlockNumber x \<longrightarrow> ee_BlockNumber x < int n \<longrightarrow>
       (\<exists>t. EtherscanERC20TransferToCommon (ec_lib l) (chain_node l) x = Inr t \<and>
          ERC20Transfer_MarshalJSON (ec_lib l) t \<in> data_of (xd_erc20 db')))"
proof -
  have hex: "a = b" if "lower (AddressHex (ec_lib l) a) = lower (AddressHex (ec_lib l) b)" for a b
    using assms(4) that by (simp add: inj_def)
  have ok: "progress_ok (ec_lib l) chain_sets l f0 types db'"
    by (rule etherscan.run_progress [where W = W and L = "ec_lib l" and types = types, folded chain_sets_def,
          OF assms(2) _ assms(3) hex assms(5-7,10,8,9)]) (use assms(1) in blast)+
  have "\<exists>t. EtherscanERC20TransferToCommon (ec_lib l) (chain_node l) x = Inr t \<and>
      ERC20Transfer_MarshalJSON (ec_lib l) t \<in> data_of (xd_erc20 db')"
    if "GetLastInserted (ec_lib l) None a db' = Inr (Some n)" "fetches_transfers (types a)"
      "x \<in> set (ec_erc20 l a)" "f0 \<le> ee_BlockNumber x" "ee_BlockNumber x < int n" for a n x
  proof -
    have "complete_to (ec_lib l) chain_sets l f0 a (types a) (int n) db'"
      using etherscan.GetLastInserted_progress [OF that(1) ok [unfolded chain_sets_def] hex] by (simp add: chain_sets_def)
    with that(2) have "covered (chain_transfers l a) (ERC20Transfer_MarshalJSON (ec_lib l)) f0 (int n) (data_of (xd_erc20 db'))"
      by (simp add: complete_to_def chain_sets_def)
    moreover have "(ee_BlockNumber x, to_option (EtherscanERC20TransferToCommon (ec_lib l) (chain_node l) x)) \<in> chain_transfers l a"
      using that(3) by (simp add: chain_transfers_def)
    ultimately show ?thesis using that(4,5) to_option_Some unfolding covered_def by fast
  qed
  with ok show ?thesis by blast
qed

text \<open>A run returns, whatever fails, when the batch is positive.\<close>

theorem run_addresses_returns:
  assumes "\<forall>n. service_ok l (W n)" "0 < fc_batch C"
  shows "\<exists>db' e. run_addresses L (\<lambda>n. EtherscanTransactionFetcher (W n)) C E fromBlock toBlock 0 addrs db = Some (db', e)"
  using run_addresses_some [of l W C L E fromBlock toBlock 0 addrs db] assms by auto

text \<open>
  C31: A fetch that succeeds brings the address up to the last block, if there is a whole batch of blocks to fetch;
  if fewer are left, nothing is fetched at all, and the blocks wait until there are enough.
\<close>

theorem fetchTx_up_to_date:
  assumes "service_ok l w" and "0 < fc_batch C" and "inj_on normal_hash (all_normals chain_sets l)"
    and "types (ra_Address r) = ra_Type r" and "0 \<le> b" "b < 2 ^ 63"
    and "progress_ok (ec_lib l) chain_sets l f0 types db" "complete_to (ec_lib l) chain_sets l f0 (ra_Address r) (ra_Type r) b db"
    and "fetchTx (ec_lib l) (EtherscanTransactionFetcher w) C E r (Some b) toBlock db = Some (db', None)"
  shows "if b + fc_batch C \<le> toBlock then complete_to (ec_lib l) chain_sets l f0 (ra_Address r) (ra_Type r) toBlock db'
    else db' = db"
proof (cases "b + fc_batch C \<le> toBlock")
  case True
  with etherscan.fetchTx_progress [where types = types and b = b, folded chain_sets_def, OF assms(9,2,1,3,4) _ assms(5-8)]
  show ?thesis by simp
next
  case False
  have "i64 b = b" using assms(5,6) by (simp add: i64_id)
  with False assms(9) show ?thesis
    by (simp add: fetchTx_def) (subst (asm) fetch_windows.simps, simp)
qed

text \<open>
  A transfer that was stored for one address is not linked to a second one: if it is not in the history of the company
  wallets, storing it for a company wallet does not put it there.
\<close>

theorem second_address_not_linked:
  assumes "table_ok (\<lambda>d. d) (xd_erc20 db)" "j \<in> data_of (xd_erc20 db)" "j \<notin> set (wallet_joins db)"
    and "StoreERC20Transfer L E txs wallet db = (db', e)"
  shows "j \<in> data_of (xd_erc20 db') \<and> j \<notin> set (wallet_joins db')"
  using assms(4) unfolding StoreERC20Transfer_def
proof (cases rule: in_transaction_cases)
  case 1
  with assms(2,3) show ?thesis by simp
next
  case 2
  then obtain tb where tb: "store_txs (te_stmt E) insert_data (known_address L db wallet) (AddressHex L wallet) 0 0
      (map (ERC20Transfer_MarshalJSON L) txs) (xd_erc20 db) = Inr tb" "db' = db\<lparr> xd_erc20 := tb \<rparr>"
    by (auto simp: go_bind_Inr_iff)
  from assms(2) obtain i where i: "(i, j) \<in> set (tb_rows (xd_erc20 db))" by auto
  then have "i \<noteq> 0" using assms(1) unfolding table_ok_def by fastforce
  then have old: "(i, j) \<in> set (tb_rows tb)" "\<And>b. (i, b) \<in> set (tb_links tb) \<longleftrightarrow> (i, b) \<in> set (tb_links (xd_erc20 db))"
    using insert_data_old_links [OF tb(1) assms(1) _ i] by auto
  have "table_ok (\<lambda>d. d) tb" using data_insert.store_ok [OF tb(1) assms(1)] by simp
  then have only: "k = i" if "(k, j) \<in> set (tb_rows tb)" for k using same_row [OF _ that old(1)] by simp
  have "j \<notin> set (wallet_joins db')"
  proof
    assume "j \<in> set (wallet_joins db')"
    then obtain k a where "(k, j) \<in> set (tb_rows tb)" "(k, a) \<in> set (tb_links tb)"
      "xd_reserve db a = Some (AddressType_String CompanyWallet)"
      by (auto simp: wallet_joins_iff tb(2))
    with only old(2) i have "j \<in> set (wallet_joins db)" unfolding wallet_joins_iff by blast
    with assms(3) show False ..
  qed
  with old(1) show ?thesis by (force simp: tb(2))
qed

text \<open>
  After transfers have been stored, a query for a range of time has what it had before and those of them in the range,
  with their times to the millisecond.
\<close>

theorem StoreERC20Transfer_GetERC20Transfer:
  assumes "\<forall>h. HexToHash L (HashHex L h) = h" "\<forall>a. HexToAddress L (AddressHex L a) = a"
    and "\<forall>js. set (ord js) = set js" "\<forall>t\<in>set txs. 0 \<le> et_Timestamp t \<and> et_Timestamp t < 2 ^ 63"
    and "table_ok (\<lambda>d. d) (xd_erc20 db)" "StoreERC20Transfer L E txs r db = (db', None)"
    and "GetERC20Transfer L ord None t0 t1 db = Inr before" "GetERC20Transfer L ord None t0 t1 db' = Inr after"
  shows "set after = set before \<union> (\<lambda>t. t\<lparr> et_Timestamp := et_Timestamp t - et_Timestamp t mod 1000000 \<rparr>) `
    {t \<in> set txs. between_ms t0 t1 (TimeToTimestampMs (et_Timestamp t))}"
proof -
  have range: "transfer_between t0 t1 (ERC20Transfer_MarshalJSON L t) = between_ms t0 t1 (TimeToTimestampMs (et_Timestamp t))"
    "ERC20Transfer_UnmarshalJSON L (ERC20Transfer_MarshalJSON L t) ERC20Transfer0 =
       t\<lparr> et_Timestamp := et_Timestamp t - et_Timestamp t mod 1000000 \<rparr>" if "t \<in> set txs" for t
  proof -
    have t: "0 \<le> et_Timestamp t" "et_Timestamp t < 2 ^ 63" "et_Timestamp t \<noteq> zero_time"
      using assms(4) that by (auto simp: zero_time_def Second_def)
    then show "transfer_between t0 t1 (ERC20Transfer_MarshalJSON L t) = between_ms t0 t1 (TimeToTimestampMs (et_Timestamp t))"
      by (simp add: transfer_between_def ERC20Transfer_MarshalJSON_def)
    from t show "ERC20Transfer_UnmarshalJSON L (ERC20Transfer_MarshalJSON L t) ERC20Transfer0 =
       t\<lparr> et_Timestamp := et_Timestamp t - et_Timestamp t mod 1000000 \<rparr>"
      by (simp add: ERC20Transfer_UnmarshalJSON_def ERC20Transfer_MarshalJSON_def assms(1,2) time_roundtrip_truncates)
  qed
  let ?un = "\<lambda>j. ERC20Transfer_UnmarshalJSON L j ERC20Transfer0"
  have "set after = ?un ` {j \<in> data_of (xd_erc20 db) \<union> ERC20Transfer_MarshalJSON L ` set txs. transfer_between t0 t1 j}"
    using GetERC20Transfer_set [OF _ assms(8)] assms(3) StoreERC20Transfer_data [OF assms(6,5)] by simp
  also have "\<dots> = ?un ` {j \<in> data_of (xd_erc20 db). transfer_between t0 t1 j} \<union>
      (\<lambda>t. ?un (ERC20Transfer_MarshalJSON L t)) ` {t \<in> set txs. transfer_between t0 t1 (ERC20Transfer_MarshalJSON L t)}"
    by blast
  also have "?un ` {j \<in> data_of (xd_erc20 db). transfer_between t0 t1 j} = set before"
    using GetERC20Transfer_set [OF _ assms(7)] assms(3) by simp
  also have "(\<lambda>t. ?un (ERC20Transfer_MarshalJSON L t)) ` {t \<in> set txs. transfer_between t0 t1 (ERC20Transfer_MarshalJSON L t)} =
      (\<lambda>t. t\<lparr> et_Timestamp := et_Timestamp t - et_Timestamp t mod 1000000 \<rparr>) `
        {t \<in> set txs. between_ms t0 t1 (TimeToTimestampMs (et_Timestamp t))}"
    by (rule image_cong) (auto simp: range)
  finally show ?thesis .
qed

section \<open>Concrete instances\<close>

text \<open>A client that pages a history, and a company wallet with one transfer.\<close>

definition paged_client :: "(int option \<Rightarrow> int option \<Rightarrow> 'a list) \<Rightarrow> nat \<Rightarrow> 'a tx_client" where
  "paged_client H offset s e p i =
     (if offset = 0 then ([], Some (Err ''response status 400''))
      else case take offset (drop ((p - 1) * offset) (H s e)) of
        [] \<Rightarrow> ([], Some (Err ''etherscan server: No transactions found''))
      | txs \<Rightarrow> (txs, None))"

lemma paged_client_ok: "etherscan_ok H offset (paged_client H offset)"
proof -
  have "length (H s e) \<le> (p - 1) * offset" if "take offset (drop ((p - 1) * offset) (H s e)) = []" "0 < offset" for s e p
    using that by simp
  then show ?thesis
    by (auto simp: etherscan_ok_def paged_client_def IsEtherscanNotransactionFound_def split: list.split)
qed

definition wallet_chain :: etherscan_chain where
  "wallet_chain = \<lparr> ec_lib = sample_tx_lib, ec_receipt = (\<lambda>h. sample_tx_receipt), ec_normal = (\<lambda>a. []), ec_internal = (\<lambda>a. []),
     ec_erc20 = (\<lambda>a. if a = 12 then [sample_transfer] else []) \<rparr>"

definition wallet_service :: etherscan_service where
  "wallet_service = \<lparr> es_lib = sample_tx_lib, es_node = sample_tx_receipts, es_order = (\<lambda>n. [0..<n]), es_attempt = 4,
     es_normal = (\<lambda>k a offset. paged_client (in_blocks en_BlockNumber (ec_normal wallet_chain a)) offset),
     es_internal = (\<lambda>k a offset. paged_client (in_blocks ei_BlockNumber (ec_internal wallet_chain a)) offset),
     es_erc20 = (\<lambda>k a offset. paged_client (in_blocks ee_BlockNumber (ec_erc20 wallet_chain a)) offset) \<rparr>"

lemma wallet_service_ok: "service_ok wallet_chain wallet_service"
  by (simp add: service_ok_def wallet_service_def paged_client_ok atLeast0LessThan [symmetric])
    (simp add: wallet_chain_def sample_tx_receipt_ok)

definition wallet_transfer :: ERC20Transfer where
  "wallet_transfer = projr (EtherscanERC20TransferToCommon sample_tx_lib sample_tx_receipts sample_transfer)"

lemma sample_conversion:
  "EtherscanERC20TransferToCommon sample_tx_lib sample_tx_receipts sample_transfer = Inr wallet_transfer"
  "EtherscanERC20TransferToCommon sample_tx_lib (chain_node wallet_chain) sample_transfer = Inr wallet_transfer"
proof -
  have "transfers_ok (rc_Logs sample_tx_receipt)"
    by (simp add: transfers_ok_def sample_tx_receipt_def accounting_log_def events_differ)
  then have "DetectTradeTransaction sample_tx_lib node sample_transfer = Inr True"
    if "\<And>h. receipt_with_retry node h = Inr sample_tx_receipt" for node
    using that detect_logs_new
    by (simp add: DetectTradeTransaction_def) (simp add: sample_tx_receipt_def accounting_log_def)
  moreover have "receipt_with_retry (chain_node wallet_chain) h = Inr sample_tx_receipt" for h
    by (simp add: wallet_chain_def)
  ultimately show "EtherscanERC20TransferToCommon sample_tx_lib sample_tx_receipts sample_transfer = Inr wallet_transfer"
    "EtherscanERC20TransferToCommon sample_tx_lib (chain_node wallet_chain) sample_transfer = Inr wallet_transfer"
    by (simp_all add: wallet_transfer_def EtherscanERC20TransferToCommon_def sample_tx_receipt_ok)
qed

definition wallet_config :: fetch_config where
  "wallet_config = \<lparr> fc_normalOffset = 2, fc_internalOffset = 2, fc_transferOffset = 2, fc_batch = 30 \<rparr>"

definition no_tx_errors :: tx_errors where
  "no_tx_errors = \<lparr> te_begin = None, te_stmt = (\<lambda>n. None), te_commit = None \<rparr>"

definition no_window_errors :: window_errors where
  "no_window_errors = \<lparr> we_normal = no_tx_errors, we_internal = no_tx_errors, we_erc20 = no_tx_errors, we_last = None \<rparr>"

definition no_address_errors :: address_errors where
  "no_address_errors = \<lparr> ae_reserve = None, ae_get = None, ae_window = (\<lambda>k. no_window_errors) \<rparr>"

definition company_address :: ReserveAddress where
  "company_address = \<lparr> ra_ID = 1, ra_Address = 12, ra_Type = CompanyWallet, ra_Description = [], ra_Timestamp = 0 \<rparr>"

lemma wallet_fetch:
  "tf_ERC20Transfer (EtherscanTransactionFetcher wallet_service) k 12 (Some 0) (Some 30) 2 = Some (Inr [wallet_transfer])"
proof -
  let ?c = "paged_client (in_blocks ee_BlockNumber [sample_transfer]) 2 (Some 0) (Some 29)"
  have page: "fetchWithRetry 4 (?c p) = ?c p 0" for p
    by (auto simp: fetchWithRetry_def numeral_eq_Suc paged_client_def IsEtherscanNotransactionFound_def split: list.split)
  have "in_blocks ee_BlockNumber [sample_transfer] (Some 0) (Some 29) = [sample_transfer]"
    by (simp add: in_blocks_def sample_transfer_def)
  then have pages: "?c 1 0 = ([sample_transfer], None)" "?c 2 0 = ([], Some (Err ''etherscan server: No transactions found''))"
    by (simp_all add: paged_client_def)
  have "fetch_pages 4 ?c 1 [] = fetch_pages 4 ?c 2 [sample_transfer]"
    by (subst fetch_pages.simps) (simp add: page pages(1) [simplified] numeral_2_eq_2 [symmetric])
  also have "\<dots> = Some (Inr [sample_transfer])"
    by (subst fetch_pages.simps) (simp add: page pages IsEtherscanNotransactionFound_def)
  finally have "etherscan_fetch 4 (paged_client (in_blocks ee_BlockNumber [sample_transfer]) 2) (Some 0) (Some 30) =
      Some (Inr [sample_transfer])"
    by (simp add: etherscan_fetch_def block_params_def isInt64_def)
  then show ?thesis
    by (simp add: EtherscanTransactionFetcher_def wallet_service_def fetch_ERC20Transfer_def wallet_chain_def convert_all_def
        sample_conversion)
qed

definition wallet_run :: "tx_db \<Rightarrow> int \<Rightarrow> (tx_db \<times> go_err option) option" where
  "wallet_run db toBlock = run_addresses sample_tx_lib (\<lambda>n. EtherscanTransactionFetcher wallet_service) wallet_config
     (\<lambda>n. no_address_errors) None toBlock 0 [company_address] db"

definition wallet_hex :: string where "wallet_hex = AddressHex sample_tx_lib 12"

definition wallet_db :: tx_db where
  "wallet_db = empty_tx_db\<lparr> xd_reserve := [wallet_hex \<mapsto> ''company_wallet''],
     xd_erc20 := \<lparr> tb_rows = [(1, ERC20Transfer_MarshalJSON sample_tx_lib wallet_transfer)], tb_next = 2, tb_links = [(1, wallet_hex)] \<rparr>,
     xd_last := [(wallet_hex, 30)] \<rparr>"

lemma wallet_run_db: "wallet_run empty_tx_db 30 = Some (wallet_db, None)"
proof -
  have u: "u64 30 = 30" "i64 0 = 0" by (simp_all add: u64_def i64_id)
  have "fetch_window sample_tx_lib (EtherscanTransactionFetcher wallet_service) wallet_config no_window_errors company_address 0 0 30
      (empty_tx_db\<lparr> xd_reserve := [wallet_hex \<mapsto> ''company_wallet''] \<rparr>) = Some (wallet_db, None)"
    by (simp add: fetch_window_def company_address_def fetches_transactions_def fetches_transfers_def wallet_config_def wallet_fetch
        and_then_def fetch_and_store_def StoreERC20Transfer_def in_transaction_def no_window_errors_def no_tx_errors_def
        insert_data_def empty_tx_db_def empty_table_def known_address_def wallet_hex_def [symmetric] insert_new_def
        StoreLastInserted_def u wallet_db_def)
  then show ?thesis
    by (simp add: wallet_run_def fetch_address_def StoreReserve_def no_address_errors_def and_then_def GetLastInserted_def
        company_address_def empty_tx_db_def wallet_hex_def [symmetric] fetchTx_def u wallet_config_def)
      (subst fetch_windows.simps, simp)
qed

lemma lower_append [simp]: "lower (xs @ ys) = lower xs @ lower ys"
  by (simp add: lower_def)

lemma lower_hex_string: "lower (hex_string n) = hex_string n"
proof (induction n rule: hex_string.induct)
  case (1 n)
  have digit: "lower [char_of (if m < 10 then 48 + m else 87 + m)] = [char_of (if m < 10 then 48 + m else 87 + m)]" if "m < 16" for m :: nat
    using that by (simp add: lower_def Let_def)
  show ?case
  proof (cases "n < 16")
    case True
    then show ?thesis using digit [of n] by (subst (1 2) hex_string.simps) simp
  next
    case False
    then show ?thesis using 1 digit [of "n mod 16"] by (subst (1 2) hex_string.simps) simp
  qed
qed

lemma sample_hex_inj: "inj (\<lambda>a. lower (AddressHex sample_tx_lib a))"
proof (rule injI)
  fix a b assume "lower (AddressHex sample_tx_lib a) = lower (AddressHex sample_tx_lib b)"
  then have "lower ''0x'' @ hex_string (unat a) = lower ''0x'' @ hex_string (unat b)"
    by (simp add: sample_tx_lib_def lower_hex_string del: append.simps)
  then have "hex_nat (''0x'' @ hex_string (unat a)) = hex_nat (''0x'' @ hex_string (unat b))"
    by (simp only: same_append_eq)
  then show "a = b" by (simp only: hex_nat_string unsigned_word_eqI)
qed

lemma wallet_normals: "all_normals chain_sets wallet_chain = {}"
  by (simp add: all_normals_def chain_sets_def chain_normals_def wallet_chain_def)

lemma wallet_db_ok: "table_ok (\<lambda>d. d) (xd_erc20 wallet_db)"
  by (simp add: wallet_db_def table_ok_def)

text \<open>The run for the company wallet stores its transfer, and leaves the database complete up to block 30.\<close>

theorem run_addresses_complete_witness:
  "wallet_run empty_tx_db 30 = Some (wallet_db, None) \<and>
   GetLastInserted sample_tx_lib None 12 wallet_db = Inr (Some 30) \<and>
   (\<exists>t. EtherscanERC20TransferToCommon sample_tx_lib (chain_node wallet_chain) sample_transfer = Inr t \<and>
     ERC20Transfer_MarshalJSON sample_tx_lib t \<in> data_of (xd_erc20 wallet_db))"
proof -
  have lib: "ec_lib wallet_chain = sample_tx_lib" by (simp add: wallet_chain_def)
  have last_block: "GetLastInserted sample_tx_lib None 12 wallet_db = Inr (Some 30)"
    by (simp add: GetLastInserted_def wallet_db_def wallet_hex_def)
  have "\<exists>t. EtherscanERC20TransferToCommon sample_tx_lib (chain_node wallet_chain) sample_transfer = Inr t \<and>
     ERC20Transfer_MarshalJSON sample_tx_lib t \<in> data_of (xd_erc20 wallet_db)"
  proof -
    note run = wallet_run_db [unfolded wallet_run_def lib [symmetric]]
    have "sample_transfer \<in> set (ec_erc20 wallet_chain 12)" "0 \<le> ee_BlockNumber sample_transfer" "ee_BlockNumber sample_transfer < int 30"
      by (simp_all add: wallet_chain_def) (simp_all add: sample_transfer_def)
    moreover have "0 < fc_batch wallet_config" "inj_on normal_hash (all_normals chain_sets wallet_chain)"
      by (simp_all add: wallet_config_def wallet_normals)
    ultimately show ?thesis
      using run_addresses_complete [where W = "\<lambda>n. wallet_service" and types = "\<lambda>a. CompanyWallet", OF _ _ _ _ _ _ _ _ empty_progress_ok run, of 0]
        wallet_service_ok sample_hex_inj last_block
      by (simp add: lib company_address_def fetches_transfers_def)
  qed
  with wallet_run_db last_block show ?thesis by blast
qed

theorem run_addresses_returns_witness: "\<exists>db' e. wallet_run wallet_db 100 = Some (db', e)"
  unfolding wallet_run_def
  by (rule run_addresses_returns [where l = wallet_chain]) (simp_all add: wallet_service_ok wallet_config_def)

text \<open>Ten blocks more are less than a batch: nothing is fetched.\<close>

theorem fetchTx_up_to_date_witness:
  "\<exists>db'. fetchTx sample_tx_lib (EtherscanTransactionFetcher wallet_service) wallet_config (\<lambda>k. no_window_errors) company_address
     (Some 30) 40 empty_tx_db = Some (db', None) \<and> db' = empty_tx_db"
proof -
  let ?run = "fetchTx sample_tx_lib (EtherscanTransactionFetcher wallet_service) wallet_config (\<lambda>k. no_window_errors) company_address
     (Some 30) 40 empty_tx_db"
  have lib: "ec_lib wallet_chain = sample_tx_lib" by (simp add: wallet_chain_def)
  have run: "?run = Some (empty_tx_db, None)"
    by (simp add: fetchTx_def i64_id wallet_config_def, subst fetch_windows.simps, simp)
  have "complete_to sample_tx_lib chain_sets wallet_chain 30 (ra_Address company_address) (ra_Type company_address) 30 empty_tx_db"
    by (rule complete_to_start)
  with fetchTx_up_to_date [where l = wallet_chain and w = wallet_service and types = "\<lambda>a. CompanyWallet", unfolded lib,
      OF _ _ _ _ _ _ empty_progress_ok _ run, of 30] run show ?thesis
    by (simp add: wallet_service_ok wallet_normals company_address_def wallet_config_def)
qed

text \<open>The transfer is stored for a reserve first; the history of the company wallet does not have it.\<close>

theorem second_address_not_linked_witness:
  "\<exists>db'. StoreERC20Transfer sample_tx_lib no_tx_errors [wallet_transfer] 12
      (wallet_db\<lparr> xd_reserve := [wallet_hex \<mapsto> ''company_wallet'', ''0xb'' \<mapsto> ''reserve''],
        xd_erc20 := (xd_erc20 wallet_db)\<lparr> tb_links := [(1, ''0xb'')] \<rparr> \<rparr>) = (db', None) \<and>
    ERC20Transfer_MarshalJSON sample_tx_lib wallet_transfer \<in> data_of (xd_erc20 db') \<and>
    ERC20Transfer_MarshalJSON sample_tx_lib wallet_transfer \<notin> set (wallet_joins db')"
proof -
  let ?db = "wallet_db\<lparr> xd_reserve := [wallet_hex \<mapsto> ''company_wallet'', ''0xb'' \<mapsto> ''reserve''],
        xd_erc20 := (xd_erc20 wallet_db)\<lparr> tb_links := [(1, ''0xb'')] \<rparr> \<rparr>"
  have "hex_nat wallet_hex = 12" "hex_nat ''0xb'' = 11"
    using hex_nat_string [of 12] by (simp_all add: wallet_hex_def sample_tx_lib_def hex_nat_def hex_digit_def)
  then have "''0xb'' \<noteq> wallet_hex" by force
  then have "StoreERC20Transfer sample_tx_lib no_tx_errors [wallet_transfer] 12 ?db =
      (?db\<lparr> xd_erc20 := (xd_erc20 ?db)\<lparr> tb_next := 3 \<rparr> \<rparr>, None)"
    by (simp add: StoreERC20Transfer_def in_transaction_def no_tx_errors_def known_address_def wallet_db_def insert_data_def)
  moreover have "table_ok (\<lambda>d. d) (xd_erc20 ?db)" "ERC20Transfer_MarshalJSON sample_tx_lib wallet_transfer \<in> data_of (xd_erc20 ?db)"
    "ERC20Transfer_MarshalJSON sample_tx_lib wallet_transfer \<notin> set (wallet_joins ?db)"
    by (simp_all add: wallet_db_def table_ok_def wallet_joins_def)
  ultimately show ?thesis using second_address_not_linked [of ?db] by blast
qed

text \<open>The transfer of the company wallet is read back.\<close>

theorem StoreERC20Transfer_GetERC20Transfer_witness:
  "\<exists>db' after. StoreERC20Transfer sample_tx_lib no_tx_errors [wallet_transfer] 12
      (empty_tx_db\<lparr> xd_reserve := [wallet_hex \<mapsto> ''company_wallet''] \<rparr>) = (db', None) \<and>
    GetERC20Transfer sample_tx_lib rev None 0 (2 * 10 ^ 18) db' = Inr after \<and> set after = {wallet_transfer}"
proof -
  let ?db = "empty_tx_db\<lparr> xd_reserve := [wallet_hex \<mapsto> ''company_wallet''] \<rparr>"
  have "\<exists>db'. StoreERC20Transfer sample_tx_lib no_tx_errors [wallet_transfer] 12 ?db = (db', None)"
    by (simp add: StoreERC20Transfer_def in_transaction_def no_tx_errors_def known_address_def wallet_hex_def insert_data_def
        empty_tx_db_def empty_table_def)
  then obtain db' where db': "StoreERC20Transfer sample_tx_lib no_tx_errors [wallet_transfer] 12 ?db = (db', None)" by blast
  have "\<exists>after. GetERC20Transfer sample_tx_lib rev None 0 (2 * 10 ^ 18) db' = Inr after"
    by (simp add: GetERC20Transfer_def)
  then obtain after where after: "GetERC20Transfer sample_tx_lib rev None 0 (2 * 10 ^ 18) db' = Inr after" by blast
  have before: "GetERC20Transfer sample_tx_lib rev None 0 (2 * 10 ^ 18) ?db = Inr []"
    by (simp add: GetERC20Transfer_def empty_tx_db_def empty_table_def)
  have t: "et_Timestamp wallet_transfer = 10 ^ 18"
    using sample_conversion(1)
    by (auto simp: EtherscanERC20TransferToCommon_def go_bind_Inr_iff sample_transfer_def dest!: arg_cong [where f = et_Timestamp])
  have ok: "table_ok (\<lambda>d. d) (xd_erc20 ?db)" by (simp add: empty_tx_db_def)
  have "set after = set [] \<union> (\<lambda>t. t\<lparr> et_Timestamp := et_Timestamp t - et_Timestamp t mod 1000000 \<rparr>) `
      {t \<in> set [wallet_transfer]. between_ms 0 (2 * 10 ^ 18) (TimeToTimestampMs (et_Timestamp t))}"
    by (rule StoreERC20Transfer_GetERC20Transfer [OF _ _ _ _ ok db' before after]) (simp_all add: sample_tx_lib_hex t)
  moreover have "between_ms 0 (2 * 10 ^ 18) (TimeToTimestampMs (et_Timestamp wallet_transfer))"
    by (simp add: t between_ms_def TimeToTimestampMs_def i64_id u64_def go_div_def Nanosecond_per_ms_def)
  then have "{t \<in> set [wallet_transfer]. between_ms 0 (2 * 10 ^ 18) (TimeToTimestampMs (et_Timestamp t))} = {wallet_transfer}"
    by auto
  moreover have "wallet_transfer\<lparr> et_Timestamp := 10 ^ 18 \<rparr> = wallet_transfer" using t by (cases wallet_transfer) simp
  ultimately have "set after = {wallet_transfer}" by (simp add: t)
  with db' after show ?thesis by blast
qed

end
