(* ===== verification/ListedTokens.thy ===== *)
theory ListedTokens
  imports ReserveAddresses
begin

text \<open>
  The tokens that a reserve lists: how \<open>accounting/listed-tokens/fetcher/fetcher.go\<close> groups the contracts of a token,
  the function \<open>save_token\<close> and the tables of \<open>accounting/listed-tokens/storage/\<close>, and the run of
  \<open>accounting/cmd/accounting-listed-token-fetcher/main.go\<close>.

  The contracts are parameters (\<open>token_contracts\<close>), as are the order in which a Go map is traversed and the orders in
  which the queries return rows and fill arrays. Times are whole seconds.
\<close>

record OldListedToken =
  ot_Address :: addr
  ot_Timestamp :: gotime
  ot_Decimals :: nat

record ListedToken =
  lt_Address :: addr
  lt_Symbol :: string
  lt_Name :: string
  lt_Timestamp :: gotime
  lt_Decimals :: nat
  lt_Old :: "OldListedToken list"

section \<open>Fetching\<close>

text \<open>The map from \<open>symbol-name\<close>, with its entries in the order of their insertion.\<close>

type_synonym token_map = "(string \<times> ListedToken) list"

definition token_key :: "string \<Rightarrow> string \<Rightarrow> string" where "token_key symbol name = symbol @ ''-'' @ name"

definition merge_token :: "addr \<Rightarrow> gotime \<Rightarrow> nat \<Rightarrow> ListedToken \<Rightarrow> ListedToken" where
  "merge_token address timestamp decimals token =
     (if timestamp < lt_Timestamp token then
        token\<lparr> lt_Old := lt_Old token @ [\<lparr> ot_Address = lt_Address token, ot_Timestamp = lt_Timestamp token, ot_Decimals = lt_Decimals token \<rparr>],
               lt_Address := address, lt_Timestamp := timestamp, lt_Decimals := decimals \<rparr>
      else token\<lparr> lt_Old := lt_Old token @ [\<lparr> ot_Address = address, ot_Timestamp = timestamp, ot_Decimals = decimals \<rparr>] \<rparr>)"

fun updateListedToken :: "token_map \<Rightarrow> string \<Rightarrow> string \<Rightarrow> addr \<Rightarrow> gotime \<Rightarrow> nat \<Rightarrow> token_map" where
  "updateListedToken [] symbol name address timestamp decimals =
     [(token_key symbol name, \<lparr> lt_Address = address, lt_Symbol = symbol, lt_Name = name, lt_Timestamp = timestamp,
         lt_Decimals = decimals, lt_Old = [] \<rparr>)]"
| "updateListedToken ((k, token) # m) symbol name address timestamp decimals =
     (if k = token_key symbol name then (k, merge_token address timestamp decimals token) # m
      else (k, token) # updateListedToken m symbol name address timestamp decimals)"

record token_contracts =
  tc_ConversionRatesContract :: "addr \<Rightarrow> addr go"
  tc_GetListedTokens :: "addr \<Rightarrow> addr list go"
  tc_Symbol :: "addr \<Rightarrow> string go"
  tc_Name :: "addr \<Rightarrow> string go"
  tc_Decimals :: "addr \<Rightarrow> nat go"
  tc_Resolve :: "addr \<Rightarrow> gotime go"

fun list_tokens :: "token_contracts \<Rightarrow> addr list \<Rightarrow> token_map \<Rightarrow> token_map go" where
  "list_tokens T [] m = Inr m"
| "list_tokens T (a # as) m =
     go_bind (tc_Symbol T a) (\<lambda>symbol. go_bind (tc_Name T a) (\<lambda>name. go_bind (tc_Resolve T a) (\<lambda>timestamp.
     go_bind (tc_Decimals T a) (\<lambda>decimals. list_tokens T as (updateListedToken m symbol name a timestamp decimals)))))"

text \<open>\<open>ord\<close> is the order in which the map is traversed.\<close>

definition GetListedToken :: "token_contracts \<Rightarrow> (ListedToken list \<Rightarrow> ListedToken list) \<Rightarrow> addr \<Rightarrow> ListedToken list go" where
  "GetListedToken T ord reserveAddr =
     go_bind (tc_ConversionRatesContract T reserveAddr) (\<lambda>rates.
     go_bind (tc_GetListedTokens T rates) (\<lambda>listed.
     go_bind (list_tokens T listed []) (\<lambda>m. Inr (ord (map snd m)))))"

section \<open>The tables\<close>

record token_row =
  tk_id :: nat
  tk_address :: string
  tk_name :: string
  tk_symbol :: string
  tk_timestamp :: gotime
  tk_decimals :: nat
  tk_parent :: "nat option"

text \<open>The address of a reserve is unique and stands for its number.\<close>

record token_db =
  kd_tokens :: "token_row list"
  kd_next :: nat
  kd_reserves :: "string list"
  kd_links :: "(nat \<times> string) list"
  kd_version :: nat
  kd_block :: nat

definition empty_token_db :: token_db where
  "empty_token_db = \<lparr> kd_tokens = [], kd_next = 1, kd_reserves = [], kd_links = [], kd_version = 0, kd_block = 0 \<rparr>"

definition find_token :: "token_db \<Rightarrow> string \<Rightarrow> token_row option" where
  "find_token db a = List.find (\<lambda>r. tk_address r = a) (kd_tokens db)"

definition no_parent :: go_err where "no_parent = Err ''pq: token with id <NULL> does not exist''"

text \<open>The PL/pgSQL function: the new tables, and whether anything has changed.\<close>

definition save_token :: "string \<Rightarrow> string \<Rightarrow> string \<Rightarrow> gotime \<Rightarrow> nat \<Rightarrow> string option \<Rightarrow> string \<Rightarrow> token_db \<Rightarrow> (token_db \<times> bool) go" where
  "save_token address name symbol timestamp decimals parent reserve db =
     go_bind (case parent of
         None \<Rightarrow> Inr None
       | Some p \<Rightarrow> (case find_token db p of None \<Rightarrow> Inl no_parent | Some r \<Rightarrow> Inr (Some (tk_id r)))) (\<lambda>parent_id.
       let (db, tid, changed) =
         (case find_token db address of
            None \<Rightarrow>
              (db\<lparr> kd_tokens := kd_tokens db @ [\<lparr> tk_id = kd_next db, tk_address = address, tk_name = name, tk_symbol = symbol,
                     tk_timestamp = timestamp, tk_decimals = decimals, tk_parent = parent_id \<rparr>], kd_next := kd_next db + 1 \<rparr>,
               kd_next db, True)
          | Some r \<Rightarrow>
              if tk_name r \<noteq> name \<or> tk_symbol r \<noteq> symbol \<or> tk_timestamp r \<noteq> timestamp \<or> tk_decimals r \<noteq> decimals \<or>
                 tk_parent r \<noteq> parent_id
              then (db\<lparr> kd_tokens := map (\<lambda>x. if tk_address x = address then x\<lparr> tk_name := name, tk_symbol := symbol,
                      tk_timestamp := timestamp, tk_decimals := decimals, tk_parent := parent_id \<rparr> else x) (kd_tokens db) \<rparr>,
                    tk_id r, True)
              else (db, tk_id r, False));
           db = db\<lparr> kd_reserves := insert_new (\<lambda>a. a) reserve (kd_reserves db) \<rparr>;
           new_link = ((tid, reserve) \<notin> set (kd_links db));
           db = db\<lparr> kd_links := insert_new (\<lambda>l. l) (tid, reserve) (kd_links db) \<rparr>
       in Inr (db, changed \<or> new_link))"

text \<open>One call of the function for a token and for each of its old contracts; \<open>n\<close> numbers the statements.\<close>

type_synonym token_call = "string \<times> string \<times> string \<times> gotime \<times> nat \<times> string option"

definition token_calls :: "tx_lib \<Rightarrow> ListedToken \<Rightarrow> token_call list" where
  "token_calls L t =
     (AddressHex L (lt_Address t), lt_Name t, lt_Symbol t, lt_Timestamp t, lt_Decimals t, None) #
     map (\<lambda>o'. (AddressHex L (ot_Address o'), lt_Name t, lt_Symbol t, ot_Timestamp o', ot_Decimals o', Some (AddressHex L (lt_Address t))))
       (lt_Old t)"

fun save_calls :: "(nat \<Rightarrow> go_err option) \<Rightarrow> string \<Rightarrow> nat \<Rightarrow> token_call list \<Rightarrow> token_db \<Rightarrow> bool \<Rightarrow> (token_db \<times> bool \<times> nat) go" where
  "save_calls stmt reserve n [] db changed = Inr (db, changed, n)"
| "save_calls stmt reserve n ((a, name, symbol, ts, decs, parent) # cs) db changed =
     (case stmt n of
        Some e \<Rightarrow> Inl e
      | None \<Rightarrow> go_bind (save_token a name symbol ts decs parent reserve db) (\<lambda>(db, c).
          save_calls stmt reserve (n + 1) cs db (changed \<or> c)))"

definition CreateOrUpdate :: "tx_lib \<Rightarrow> tx_errors \<Rightarrow> ListedToken list \<Rightarrow> int \<Rightarrow> addr \<Rightarrow> token_db \<Rightarrow> token_db \<times> go_err option" where
  "CreateOrUpdate L E tokens blockNumber reserve db =
     in_transaction E (\<lambda>stmt db.
       go_bind (save_calls stmt (AddressHex L reserve) 0 (concat (map (token_calls L) tokens)) db False) (\<lambda>(db, changed, n).
         if changed then
           (case stmt n of
              Some e \<Rightarrow> Inl e
            | None \<Rightarrow> Inr (db\<lparr> kd_version := kd_version db + 1, kd_block := u64 \<bar>blockNumber\<bar> \<rparr>))
         else Inr db)) db"

section \<open>Reading\<close>

text \<open>A row of the query: the arrays of one token are filled in the same order.\<close>

record listedTokenRecord =
  lr_Address :: string
  lr_Symbol :: string
  lr_Name :: string
  lr_Timestamp :: gotime
  lr_Decimals :: nat
  lr_OldAddresses :: "string list"
  lr_OldTimestamps :: "nat list"
  lr_OldDecimals :: "nat list"

definition olds_of :: "(token_row list \<Rightarrow> token_row list) \<Rightarrow> token_db \<Rightarrow> nat \<Rightarrow> token_row list" where
  "olds_of ord db i = ord (filter (\<lambda>x. tk_parent x = Some i) (kd_tokens db))"

definition view_record :: "(token_row list \<Rightarrow> token_row list) \<Rightarrow> token_db \<Rightarrow> token_row \<Rightarrow> listedTokenRecord" where
  "view_record ord db r =
     (let olds = olds_of ord db (tk_id r) in
      \<lparr> lr_Address = tk_address r, lr_Symbol = tk_symbol r, lr_Name = tk_name r, lr_Timestamp = tk_timestamp r,
        lr_Decimals = tk_decimals r, lr_OldAddresses = map tk_address olds,
        lr_OldTimestamps = map (\<lambda>x. TimeToTimestampMs (tk_timestamp x)) olds, lr_OldDecimals = map tk_decimals olds \<rparr>)"

text \<open>The tokens without a parent, each once for a reserve that it is linked to; \<open>DISTINCT\<close> removes the repetitions.\<close>

definition tokens_query :: "(token_row list \<Rightarrow> token_row list) \<Rightarrow> bool \<Rightarrow> string \<Rightarrow> token_db \<Rightarrow> listedTokenRecord list" where
  "tokens_query ord every reserve db =
     remdups (concat (map (\<lambda>r. map (\<lambda>l. view_record ord db r)
       (filter (\<lambda>(t, a). t = tk_id r \<and> a \<in> set (kd_reserves db) \<and> (every \<or> a = reserve)) (kd_links db)))
       (filter (\<lambda>r. tk_parent r = None) (kd_tokens db))))"

definition malformed :: go_err where "malformed = Err ''malformed old data record''"

definition record_ListedToken :: "tx_lib \<Rightarrow> listedTokenRecord \<Rightarrow> ListedToken go" where
  "record_ListedToken L r =
     (if length (lr_OldAddresses r) \<noteq> length (lr_OldTimestamps r) then Inl malformed
      else if length (lr_OldDecimals r) < length (lr_OldAddresses r) then Inl (Panic ''index out of range'')
      else Inr \<lparr> lt_Address = HexToAddress L (lr_Address r), lt_Symbol = lr_Symbol r, lt_Name = lr_Name r,
        lt_Timestamp = lr_Timestamp r, lt_Decimals = lr_Decimals r,
        lt_Old = map (\<lambda>i. \<lparr> ot_Address = HexToAddress L (lr_OldAddresses r ! i),
          ot_Timestamp = TimestampMsToTime (lr_OldTimestamps r ! i), ot_Decimals = lr_OldDecimals r ! i mod 256 \<rparr>)
          [0..<length (lr_OldAddresses r)] \<rparr>)"

fun all_tokens :: "tx_lib \<Rightarrow> listedTokenRecord list \<Rightarrow> ListedToken list go" where
  "all_tokens L [] = Inr []"
| "all_tokens L (r # rs) = go_bind (record_ListedToken L r) (\<lambda>t. go_bind (all_tokens L rs) (\<lambda>ts. Inr (t # ts)))"

text \<open>
  \<open>E\<close> has the errors of the two statements; \<open>ordr\<close> orders the rows and \<open>ord\<close> the arrays. The error of the commit is
  returned with the tokens.
\<close>

definition GetTokens :: "tx_lib \<Rightarrow> tx_errors \<Rightarrow> (listedTokenRecord list \<Rightarrow> listedTokenRecord list) \<Rightarrow> (token_row list \<Rightarrow> token_row list)
    \<Rightarrow> addr \<Rightarrow> token_db \<Rightarrow> (ListedToken list \<times> nat \<times> nat) \<times> go_err option" where
  "GetTokens L E ordr ord reserve db =
     (let fail = (\<lambda>e. (([], 0, 0), Some e)) in
      case te_begin E of Some e \<Rightarrow> fail e | None \<Rightarrow>
      (case te_stmt E 0 of Some e \<Rightarrow> fail e | None \<Rightarrow>
      (case all_tokens L (ordr (tokens_query ord (IsZeroAddress reserve) (AddressHex L reserve) db)) of Inl e \<Rightarrow> fail e | Inr ts \<Rightarrow>
      (case te_stmt E 1 of Some e \<Rightarrow> fail e | None \<Rightarrow>
        ((ts, kd_version db, kd_block db), map_option (errors_Wrap ''failed to commit transaction'') (te_commit E))))))"

text \<open>The run over the reserves; \<open>T n\<close>, \<open>ord n\<close> and \<open>E n\<close> are those of reserve \<open>n\<close>.\<close>

fun fetch_listed :: "tx_lib \<Rightarrow> (nat \<Rightarrow> token_contracts) \<Rightarrow> (nat \<Rightarrow> ListedToken list \<Rightarrow> ListedToken list) \<Rightarrow> (nat \<Rightarrow> tx_errors) \<Rightarrow> int
    \<Rightarrow> nat \<Rightarrow> addr list \<Rightarrow> token_db \<Rightarrow> token_db \<times> go_err option" where
  "fetch_listed L T ord E block n [] db = (db, None)"
| "fetch_listed L T ord E block n (a # as) db =
     (case GetListedToken (T n) (ord n) a of
        Inl e \<Rightarrow> (db, Some e)
      | Inr tokens \<Rightarrow>
          (case CreateOrUpdate L (E n) tokens block a db of
             (db, Some e) \<Rightarrow> (db, Some e)
           | (db, None) \<Rightarrow> fetch_listed L T ord E block (n + 1) as db))"

section \<open>The contracts of a token\<close>

definition token_addresses :: "ListedToken \<Rightarrow> addr list" where
  "token_addresses t = lt_Address t # map ot_Address (lt_Old t)"

text \<open>The times are those of the contracts, and the token itself has the first.\<close>

definition times_ok :: "token_contracts \<Rightarrow> ListedToken \<Rightarrow> bool" where
  "times_ok T t \<longleftrightarrow> tc_Resolve T (lt_Address t) = Inr (lt_Timestamp t) \<and>
     (\<forall>o'\<in>set (lt_Old t). tc_Resolve T (ot_Address o') = Inr (ot_Timestamp o') \<and> lt_Timestamp t \<le> ot_Timestamp o')"

lemma merge_token_addresses: "mset (token_addresses (merge_token a ts d t)) = add_mset a (mset (token_addresses t))"
  by (simp add: merge_token_def token_addresses_def)

lemma merge_token_times: "times_ok T t \<Longrightarrow> tc_Resolve T a = Inr ts \<Longrightarrow> times_ok T (merge_token a ts d t)"
  by (auto simp: merge_token_def times_ok_def)

lemma updateListedToken_addresses:
  "mset (concat (map token_addresses (map snd (updateListedToken m s n a ts d)))) =
   add_mset a (mset (concat (map token_addresses (map snd m))))"
  by (induction m s n a ts d rule: updateListedToken.induct) (simp_all add: merge_token_addresses, simp add: token_addresses_def)

lemma updateListedToken_times:
  "\<forall>t\<in>snd ` set m. times_ok T t \<Longrightarrow> tc_Resolve T a = Inr ts \<Longrightarrow> \<forall>t\<in>snd ` set (updateListedToken m s n a ts d). times_ok T t"
  by (induction m s n a ts d rule: updateListedToken.induct) (auto simp: merge_token_times, simp add: times_ok_def)

lemma list_tokens_groups:
  "list_tokens T as m = Inr m' \<Longrightarrow> \<forall>t\<in>snd ` set m. times_ok T t \<Longrightarrow>
   mset (concat (map token_addresses (map snd m'))) = mset as + mset (concat (map token_addresses (map snd m))) \<and>
   (\<forall>t\<in>snd ` set m'. times_ok T t)"
proof (induction as arbitrary: m)
  case (Cons a as)
  then obtain s n ts d where step: "tc_Resolve T a = Inr ts" "list_tokens T as (updateListedToken m s n a ts d) = Inr m'"
    by (auto simp: go_bind_Inr_iff)
  from Cons.IH [OF step(2) updateListedToken_times [OF Cons.prems(2) step(1)]]
  show ?case unfolding updateListedToken_addresses by simp
qed simp

section \<open>What is saved\<close>

fun call_address :: "token_call \<Rightarrow> string" where "call_address (a, r) = a"

text \<open>The tables have what a call of \<open>save_token\<close> writes.\<close>

definition call_saved :: "string \<Rightarrow> token_db \<Rightarrow> token_call \<Rightarrow> bool" where
  "call_saved reserve db = (\<lambda>(a, name, symbol, ts, decs, parent). \<exists>r. find_token db a = Some r \<and> tk_name r = name \<and>
     tk_symbol r = symbol \<and> tk_timestamp r = ts \<and> tk_decimals r = decs \<and>
     (case parent of None \<Rightarrow> tk_parent r = None | Some p \<Rightarrow> \<exists>q. find_token db p = Some q \<and> tk_parent r = Some (tk_id q)) \<and>
     reserve \<in> set (kd_reserves db) \<and> (tk_id r, reserve) \<in> set (kd_links db))"

text \<open>How \<open>save_token\<close> changes the tables.\<close>

lemma find_token_map:
  "(\<And>x. tk_address (f x) = tk_address x) \<Longrightarrow>
   List.find (\<lambda>r. tk_address r = b) (map (\<lambda>x. if tk_address x = a then f x else x) rows) =
     map_option (if a = b then f else (\<lambda>x. x)) (List.find (\<lambda>r. tk_address r = b) rows)"
  by (induction rows) auto

lemma find_token_new:
  "List.find (\<lambda>r. tk_address r = b) (rows @ [x]) =
     (case List.find (\<lambda>r. tk_address r = b) rows of Some r \<Rightarrow> Some r | None \<Rightarrow> if tk_address x = b then Some x else None)"
  by (induction rows) auto

lemma find_token_address: "find_token db a = Some r \<Longrightarrow> r \<in> set (kd_tokens db) \<and> tk_address r = a"
  by (auto simp: find_token_def find_Some_iff)

lemma insert_new_self: "set (insert_new (\<lambda>x. x) a xs) = insert a (set xs)"
  using insert_new_keys [of "\<lambda>x. x" a xs] by simp

definition write_token :: "string \<Rightarrow> string \<Rightarrow> string \<Rightarrow> gotime \<Rightarrow> nat \<Rightarrow> nat option \<Rightarrow> token_row list \<Rightarrow> token_row list" where
  "write_token a name symbol ts decs pid rows =
     map (\<lambda>x. if tk_address x = a then x\<lparr> tk_name := name, tk_symbol := symbol, tk_timestamp := ts, tk_decimals := decs,
       tk_parent := pid \<rparr> else x) rows"

lemma save_token_cases:
  assumes "save_token a name symbol ts decs parent reserve db = Inr (db', changed)"
  obtains pid tid where
    "case parent of None \<Rightarrow> pid = None | Some p \<Rightarrow> \<exists>q. find_token db p = Some q \<and> pid = Some (tk_id q)"
    "find_token db a = None \<and> tid = kd_next db \<and> changed \<and> kd_tokens db' = kd_tokens db @ [\<lparr> tk_id = tid, tk_address = a,
         tk_name = name, tk_symbol = symbol, tk_timestamp = ts, tk_decimals = decs, tk_parent = pid \<rparr>] \<or>
     (\<exists>r. find_token db a = Some r \<and> tk_id r = tid \<and>
       (kd_tokens db' = write_token a name symbol ts decs pid (kd_tokens db) \<or>
        kd_tokens db' = kd_tokens db \<and> r = \<lparr> tk_id = tid, tk_address = a, tk_name = name, tk_symbol = symbol,
          tk_timestamp = ts, tk_decimals = decs, tk_parent = pid \<rparr>))"
    "set (kd_reserves db') = insert reserve (set (kd_reserves db))" "set (kd_links db') = insert (tid, reserve) (set (kd_links db))"
proof -
  from assms obtain pid where pid: "(case parent of
         None \<Rightarrow> Inr None
       | Some p \<Rightarrow> (case find_token db p of None \<Rightarrow> Inl no_parent | Some r \<Rightarrow> Inr (Some (tk_id r)))) = Inr pid"
    unfolding save_token_def by (auto simp: go_bind_Inr_iff)
  then have p: "case parent of None \<Rightarrow> pid = None | Some p \<Rightarrow> \<exists>q. find_token db p = Some q \<and> pid = Some (tk_id q)"
    by (auto split: option.splits)
  show thesis
  proof (cases "find_token db a")
    case None
    with assms show thesis
      by (intro that [OF p, of "kd_next db"]) (auto simp: save_token_def pid Let_def insert_new_self)
  next
    case (Some r)
    have "r = \<lparr> tk_id = tk_id r, tk_address = a, tk_name = tk_name r, tk_symbol = tk_symbol r, tk_timestamp = tk_timestamp r,
        tk_decimals = tk_decimals r, tk_parent = tk_parent r \<rparr>"
      using find_token_address [OF Some] by simp
    with Some assms show thesis
      by (intro that [OF p, of "tk_id r"])
        (auto simp: save_token_def pid Let_def insert_new_self write_token_def split: if_splits)
  qed
qed

lemma save_token_effect:
  assumes "save_token a name symbol ts decs parent reserve db = Inr (db', changed)"
  obtains pid tid where
    "case parent of None \<Rightarrow> pid = None | Some p \<Rightarrow> \<exists>q. find_token db p = Some q \<and> pid = Some (tk_id q)"
    "find_token db' a = Some \<lparr> tk_id = tid, tk_address = a, tk_name = name, tk_symbol = symbol, tk_timestamp = ts,
       tk_decimals = decs, tk_parent = pid \<rparr>"
    "\<And>b. b \<noteq> a \<Longrightarrow> find_token db' b = find_token db b"
    "\<And>q. find_token db a = Some q \<Longrightarrow> tk_id q = tid"
    "set (kd_reserves db') = insert reserve (set (kd_reserves db))" "set (kd_links db') = insert (tid, reserve) (set (kd_links db))"
  using assms
proof (cases rule: save_token_cases)
  case (1 pid tid)
  let ?row = "\<lparr> tk_id = tid, tk_address = a, tk_name = name, tk_symbol = symbol, tk_timestamp = ts,
       tk_decimals = decs, tk_parent = pid \<rparr>"
  have "find_token db' a = Some ?row \<and> (\<forall>b. b \<noteq> a \<longrightarrow> find_token db' b = find_token db b) \<and>
      (\<forall>q. find_token db a = Some q \<longrightarrow> tk_id q = tid)"
    using 1(2)
  proof (elim disjE exE conjE)
    assume "find_token db a = None" "kd_tokens db' = kd_tokens db @ [?row]"
    then show ?thesis by (simp add: find_token_def find_token_new split: option.split)
  next
    fix r assume r: "find_token db a = Some r" "tk_id r = tid" "kd_tokens db' = write_token a name symbol ts decs pid (kd_tokens db)"
    then have "find_token db' b = map_option (if a = b then (\<lambda>x. x\<lparr> tk_name := name, tk_symbol := symbol, tk_timestamp := ts,
        tk_decimals := decs, tk_parent := pid \<rparr>) else (\<lambda>x. x)) (find_token db b)" for b
      unfolding find_token_def r(3) write_token_def by (intro find_token_map) simp
    moreover have "r\<lparr> tk_name := name, tk_symbol := symbol, tk_timestamp := ts, tk_decimals := decs, tk_parent := pid \<rparr> = ?row"
      using find_token_address [OF r(1)] r(2) by simp
    ultimately show ?thesis using r(1,2) by (simp add: option.map_ident)
  next
    fix r assume "find_token db a = Some r" "tk_id r = tid" "kd_tokens db' = kd_tokens db" "r = ?row"
    then show ?thesis by (simp add: find_token_def)
  qed
  with 1(1,3,4) that show thesis by blast
qed

lemma save_token_saved:
  assumes "save_token a name symbol ts decs parent reserve db = Inr (db', changed)"
  shows "call_saved reserve db' (a, name, symbol, ts, decs, parent)"
  using assms
proof (cases rule: save_token_effect)
  case (1 pid tid)
  have keep: "\<exists>q'. find_token db' x = Some q' \<and> tk_id q' = tk_id q" if "find_token db x = Some q" for x q
    using that 1(2-4) by (cases "x = a") auto
  show ?thesis
  proof (cases parent)
    case None
    with 1(1,2,5,6) show ?thesis by (simp add: call_saved_def)
  next
    case (Some x)
    with 1(1) obtain q where "find_token db x = Some q" "pid = Some (tk_id q)" by auto
    with keep [of x q] Some 1(2,5,6) show ?thesis by (auto simp: call_saved_def)
  qed
qed

lemma save_token_keeps:
  assumes "save_token a name symbol ts decs parent reserve db = Inr (db', changed)" "call_saved reserve db c" "call_address c \<noteq> a"
  shows "call_saved reserve db' c"
  using assms(1)
proof (cases rule: save_token_effect)
  case (1 pid tid)
  obtain b n s t d p where c: "c = (b, n, s, t, d, p)" by (cases c)
  with assms(2,3) obtain r where r: "find_token db b = Some r" "b \<noteq> a" by (auto simp: call_saved_def)
  have parent: "\<exists>q'. find_token db' x = Some q' \<and> tk_id q' = tk_id q" if "find_token db x = Some q" for x q
    using that 1(2-4) by (cases "x = a") auto
  show ?thesis
  proof (cases p)
    case None
    with assms(2) c r 1(3) [OF r(2)] 1(5,6) show ?thesis by (simp add: call_saved_def)
  next
    case (Some x)
    with assms(2) c r obtain q where "find_token db x = Some q" "tk_parent r = Some (tk_id q)" by (auto simp: call_saved_def)
    with parent [of x q] Some assms(2) c r 1(3) [OF r(2)] 1(5,6) show ?thesis by (auto simp: call_saved_def)
  qed
qed

lemma save_token_again:
  assumes "call_saved reserve db (a, name, symbol, ts, decs, parent)"
  shows "save_token a name symbol ts decs parent reserve db = Inr (db, False)"
proof -
  from assms obtain r where r: "find_token db a = Some r" "tk_name r = name" "tk_symbol r = symbol" "tk_timestamp r = ts" "tk_decimals r = decs"
    "reserve \<in> set (kd_reserves db)" "(tk_id r, reserve) \<in> set (kd_links db)"
    "case parent of None \<Rightarrow> tk_parent r = None | Some p \<Rightarrow> \<exists>q. find_token db p = Some q \<and> tk_parent r = Some (tk_id q)"
    by (auto simp: call_saved_def)
  have "(case parent of
         None \<Rightarrow> Inr None
       | Some p \<Rightarrow> (case find_token db p of None \<Rightarrow> Inl no_parent | Some r \<Rightarrow> Inr (Some (tk_id r)))) = Inr (tk_parent r)"
    using r(8) by (auto split: option.splits)
  with r show ?thesis by (simp add: save_token_def insert_new_old Let_def)
qed

lemma save_calls_again:
  "\<forall>c\<in>set cs. call_saved reserve db c \<Longrightarrow> \<forall>k. stmt k = None \<Longrightarrow> save_calls stmt reserve n cs db changed = Inr (db, changed, n + length cs)"
proof (induction cs arbitrary: n)
  case (Cons c cs)
  then show ?case by (cases c) (simp add: save_token_again)
qed simp

lemma save_calls_keeps:
  "save_calls stmt reserve n cs db changed = Inr (db', ch, n') \<Longrightarrow> call_saved reserve db c \<Longrightarrow> call_address c \<notin> call_address ` set cs
   \<Longrightarrow> call_saved reserve db' c"
proof (induction cs arbitrary: n db changed)
  case (Cons x cs)
  obtain a name s t d p where x: "x = (a, name, s, t, d, p)" by (cases x)
  with Cons.prems(1) obtain db1 c1 where step: "save_token a name s t d p reserve db = Inr (db1, c1)"
    "save_calls stmt reserve (n + 1) cs db1 (changed \<or> c1) = Inr (db', ch, n')"
    by (auto simp: go_bind_Inr_iff split: option.splits)
  have "call_saved reserve db1 c" using save_token_keeps [OF step(1) Cons.prems(2)] Cons.prems(3) x by auto
  with Cons.IH [OF step(2)] Cons.prems(3) show ?case by simp
qed simp

lemma save_calls_saved:
  "save_calls stmt reserve n cs db changed = Inr (db', ch, n') \<Longrightarrow> distinct (map call_address cs) \<Longrightarrow> \<forall>c\<in>set cs. call_saved reserve db' c"
proof (induction cs arbitrary: n db changed)
  case (Cons x cs)
  obtain a name s t d p where x: "x = (a, name, s, t, d, p)" by (cases x)
  with Cons.prems(1) obtain db1 c1 where step: "save_token a name s t d p reserve db = Inr (db1, c1)"
    "save_calls stmt reserve (n + 1) cs db1 (changed \<or> c1) = Inr (db', ch, n')"
    by (auto simp: go_bind_Inr_iff split: option.splits)
  have "call_saved reserve db' x"
    using save_calls_keeps [OF step(2) save_token_saved [OF step(1)]] Cons.prems(2) x by auto
  with Cons.IH [OF step(2)] Cons.prems(2) show ?case by simp
qed simp

lemma call_saved_version [simp]:
  "call_saved reserve (db\<lparr> kd_version := v, kd_block := b \<rparr>) c = call_saved reserve db c"
proof -
  have "find_token (db\<lparr> kd_version := v, kd_block := b \<rparr>) x = find_token db x" for x by (simp add: find_token_def)
  then show ?thesis by (simp add: call_saved_def cong: option.case_cong)
qed

lemma CreateOrUpdate_saved:
  assumes "CreateOrUpdate L E tokens block reserve db = (db', None)"
    and "inj (AddressHex L)" "distinct (concat (map token_addresses tokens))"
  shows "\<forall>t\<in>set tokens. \<forall>c\<in>set (token_calls L t). call_saved (AddressHex L reserve) db' c"
proof -
  let ?calls = "concat (map (token_calls L) tokens)"
  have "map call_address (token_calls L t) = map (AddressHex L) (token_addresses t)" for t
    by (simp add: token_calls_def token_addresses_def)
  then have "map call_address ?calls = map (AddressHex L) (concat (map token_addresses tokens))"
    by (simp add: map_concat comp_def)
  then have dist: "distinct (map call_address ?calls)"
    using assms(2,3) by (simp add: distinct_map inj_on_subset [OF assms(2)])
  from assms(1) have "\<forall>c\<in>set ?calls. call_saved (AddressHex L reserve) db' c"
    unfolding CreateOrUpdate_def
  proof (cases rule: in_transaction_cases)
    case 2
    then obtain db1 ch n where run: "save_calls (te_stmt E) (AddressHex L reserve) 0 ?calls db False = Inr (db1, ch, n)"
      and db': "(if ch then (case te_stmt E n of Some e \<Rightarrow> Inl e
          | None \<Rightarrow> Inr (db1\<lparr> kd_version := kd_version db1 + 1, kd_block := u64 \<bar>block\<bar> \<rparr>)) else Inr db1) = Inr db'"
      by (auto simp: go_bind_Inr_iff)
    have "call_saved (AddressHex L reserve) db' c = call_saved (AddressHex L reserve) db1 c" for c
      using db' by (auto split: if_splits option.splits)
    with save_calls_saved [OF run dist] show ?thesis by simp
  qed simp
  then show ?thesis by auto
qed

section \<open>What is read\<close>

lemma mset_concat_map: "mset (concat (map f xs)) = (\<Sum>x\<in>#mset xs. mset (f x))"
  by (induction xs) simp_all

lemma all_tokens_ok:
  "\<forall>r\<in>set rs. \<exists>t. record_ListedToken L r = Inr t \<Longrightarrow>
   \<exists>ts. all_tokens L rs = Inr ts \<and> set ts = {t. \<exists>r\<in>set rs. record_ListedToken L r = Inr t}"
proof (induction rs)
  case (Cons r rs)
  then obtain t ts where "record_ListedToken L r = Inr t" "all_tokens L rs = Inr ts"
    "set ts = {t. \<exists>r\<in>set rs. record_ListedToken L r = Inr t}" by auto
  then show ?case by auto
qed simp

lemma view_record_token:
  "\<exists>t. record_ListedToken L (view_record ord db r) = Inr t \<and> lt_Address t = HexToAddress L (tk_address r) \<and>
     lt_Symbol t = tk_symbol r \<and> lt_Name t = tk_name r \<and> lt_Timestamp t = tk_timestamp r \<and> lt_Decimals t = tk_decimals r \<and>
     lt_Old t = map (\<lambda>x. \<lparr> ot_Address = HexToAddress L (tk_address x), ot_Timestamp = TimestampMsToTime (TimeToTimestampMs (tk_timestamp x)),
       ot_Decimals = tk_decimals x mod 256 \<rparr>) (olds_of ord db (tk_id r))"
  by (simp add: record_ListedToken_def view_record_def Let_def) (auto intro!: nth_equalityI)

lemma in_concat_map: "x \<in> set xs \<Longrightarrow> v \<in> set (f x) \<Longrightarrow> v \<in> set (concat (map f xs))"
  by auto

lemma tokens_query_has:
  assumes "r \<in> set (kd_tokens db)" "tk_parent r = None" "(tk_id r, a) \<in> set (kd_links db)" "a \<in> set (kd_reserves db)" "every \<or> a = reserve"
  shows "view_record ord db r \<in> set (tokens_query ord every reserve db)"
proof -
  let ?links = "filter (\<lambda>(t, a). t = tk_id r \<and> a \<in> set (kd_reserves db) \<and> (every \<or> a = reserve)) (kd_links db)"
  have "(tk_id r, a) \<in> set ?links" using assms(3-5) by simp
  then have "view_record ord db r \<in> set (map (\<lambda>l. view_record ord db r) ?links)" by (simp only: set_map) blast
  moreover have "r \<in> set (filter (\<lambda>r. tk_parent r = None) (kd_tokens db))" using assms(1,2) by simp
  ultimately show ?thesis unfolding tokens_query_def set_remdups by (intro in_concat_map)
qed

lemma tokens_query_views: "x \<in> set (tokens_query ord every reserve db) \<Longrightarrow> \<exists>r. x = view_record ord db r"
  by (auto simp: tokens_query_def)

section \<open>Properties\<close>

text \<open>
  The fetcher of listed tokens loses no contract: each address that the reserve lists is the address of one token or
  of one of its old contracts. The token itself is the one that was created first, so the contracts that replaced it
  are listed as old ones.
\<close>

theorem GetListedToken_groups:
  assumes "GetListedToken T ord reserve = Inr tokens" "\<forall>ts. mset (ord ts) = mset ts"
  shows "\<exists>rates listed. tc_ConversionRatesContract T reserve = Inr rates \<and> tc_GetListedTokens T rates = Inr listed \<and>
    mset (concat (map token_addresses tokens)) = mset listed \<and>
    (\<forall>t\<in>set tokens. tc_Resolve T (lt_Address t) = Inr (lt_Timestamp t) \<and>
       (\<forall>o'\<in>set (lt_Old t). tc_Resolve T (ot_Address o') = Inr (ot_Timestamp o') \<and> lt_Timestamp t \<le> ot_Timestamp o'))"
proof -
  from assms(1) obtain rates listed m where m: "tc_ConversionRatesContract T reserve = Inr rates"
    "tc_GetListedTokens T rates = Inr listed" "list_tokens T listed [] = Inr m" "tokens = ord (map snd m)"
    by (auto simp: GetListedToken_def go_bind_Inr_iff)
  have groups: "mset (concat (map token_addresses (map snd m))) = mset listed" "\<forall>t\<in>snd ` set m. times_ok T t"
    using list_tokens_groups [OF m(3)] by simp_all
  have ord: "mset tokens = mset (map snd m)" unfolding m(4) using assms(2) by simp
  then have "mset (concat (map token_addresses tokens)) = mset (concat (map token_addresses (map snd m)))"
    by (simp only: mset_concat_map)
  moreover have "set tokens = snd ` set m" using mset_eq_setD [OF ord] by simp
  ultimately show ?thesis using m(1,2) groups unfolding times_ok_def by auto
qed

text \<open>
  Saving the tokens of a reserve a second time changes nothing, not even the version and the block number.
\<close>

theorem CreateOrUpdate_idempotent:
  assumes "CreateOrUpdate L E tokens block reserve db = (db', None)"
    and "inj (AddressHex L)" "distinct (concat (map token_addresses tokens))"
    and "te_begin E' = None" "\<forall>k. te_stmt E' k = None" "te_commit E' = None"
  shows "CreateOrUpdate L E' tokens block' reserve db' = (db', None)"
proof -
  have "\<forall>c\<in>set (concat (map (token_calls L) tokens)). call_saved (AddressHex L reserve) db' c"
    using CreateOrUpdate_saved [OF assms(1-3)] by auto
  from save_calls_again [OF this assms(5), of 0 False] assms(4,6) show ?thesis
    by (simp add: CreateOrUpdate_def in_transaction_def)
qed

text \<open>
  The tokens that were saved for a reserve are read back for this reserve, and for the zero address, which stands for
  every reserve, each with its old contracts (and those that earlier runs stored for it).
\<close>

theorem CreateOrUpdate_GetTokens:
  assumes "CreateOrUpdate L E tokens block reserve db = (db', None)"
    and "\<forall>a. HexToAddress L (AddressHex L a) = a" "distinct (concat (map token_addresses tokens))"
    and "\<forall>t\<in>set tokens. \<forall>o'\<in>set (lt_Old t). 0 \<le> ot_Timestamp o' \<and> ot_Timestamp o' < 2 ^ 63 \<and> ot_Timestamp o' mod 1000000 = 0 \<and> ot_Decimals o' < 256"
    and "\<forall>rs. set (ordr rs) = set rs" "\<forall>rows. set (ord rows) = set rows"
    and "te_begin E' = None" "\<forall>k. te_stmt E' k = None" "te_commit E' = None" "asked = reserve \<or> IsZeroAddress asked"
  shows "\<exists>ts. GetTokens L E' ordr ord asked db' = ((ts, kd_version db', kd_block db'), None) \<and>
    (\<forall>t\<in>set tokens. \<exists>t'\<in>set ts. lt_Address t' = lt_Address t \<and> lt_Symbol t' = lt_Symbol t \<and> lt_Name t' = lt_Name t \<and>
       lt_Timestamp t' = lt_Timestamp t \<and> lt_Decimals t' = lt_Decimals t \<and> set (lt_Old t) \<subseteq> set (lt_Old t'))"
proof -
  have inj: "inj (AddressHex L)" using assms(2) by (metis injI)
  note saved = CreateOrUpdate_saved [OF assms(1) inj assms(3)]
  let ?q = "tokens_query ord (IsZeroAddress asked) (AddressHex L asked) db'"
  have "\<forall>r\<in>set (ordr ?q). \<exists>t. record_ListedToken L r = Inr t"
    using tokens_query_views [of _ ord "IsZeroAddress asked" "AddressHex L asked" db'] view_record_token assms(5) by metis
  then obtain ts where ts: "all_tokens L (ordr ?q) = Inr ts" "set ts = {t. \<exists>r\<in>set ?q. record_ListedToken L r = Inr t}"
    using all_tokens_ok [of "ordr ?q" L] assms(5) by auto
  have "\<exists>t'\<in>set ts. lt_Address t' = lt_Address t \<and> lt_Symbol t' = lt_Symbol t \<and> lt_Name t' = lt_Name t \<and>
       lt_Timestamp t' = lt_Timestamp t \<and> lt_Decimals t' = lt_Decimals t \<and> set (lt_Old t) \<subseteq> set (lt_Old t')"
    if t: "t \<in> set tokens" for t
  proof -
    have "call_saved (AddressHex L reserve) db' (AddressHex L (lt_Address t), lt_Name t, lt_Symbol t, lt_Timestamp t, lt_Decimals t, None)"
      using saved t by (simp add: token_calls_def)
    then obtain r where r: "find_token db' (AddressHex L (lt_Address t)) = Some r" "tk_name r = lt_Name t" "tk_symbol r = lt_Symbol t"
      "tk_timestamp r = lt_Timestamp t" "tk_decimals r = lt_Decimals t" "tk_parent r = None"
      "AddressHex L reserve \<in> set (kd_reserves db')" "(tk_id r, AddressHex L reserve) \<in> set (kd_links db')"
      by (auto simp: call_saved_def)
    have mem: "r \<in> set (kd_tokens db')" "tk_address r = AddressHex L (lt_Address t)" using find_token_address [OF r(1)] by simp_all
    obtain t' where t': "record_ListedToken L (view_record ord db' r) = Inr t'" "lt_Address t' = lt_Address t"
      "lt_Symbol t' = lt_Symbol t" "lt_Name t' = lt_Name t" "lt_Timestamp t' = lt_Timestamp t" "lt_Decimals t' = lt_Decimals t"
      "lt_Old t' = map (\<lambda>x. \<lparr> ot_Address = HexToAddress L (tk_address x), ot_Timestamp = TimestampMsToTime (TimeToTimestampMs (tk_timestamp x)),
         ot_Decimals = tk_decimals x mod 256 \<rparr>) (olds_of ord db' (tk_id r))"
      using view_record_token [of L ord db' r] mem r assms(2) by auto
    have "view_record ord db' r \<in> set ?q" by (rule tokens_query_has [OF mem(1) r(6,8,7)]) (use assms(10) in auto)
    with t'(1) ts(2) have "t' \<in> set ts" by auto
    moreover have "o' \<in> set (lt_Old t')" if o': "o' \<in> set (lt_Old t)" for o'
    proof -
      have "call_saved (AddressHex L reserve) db' (AddressHex L (ot_Address o'), lt_Name t, lt_Symbol t, ot_Timestamp o', ot_Decimals o',
          Some (AddressHex L (lt_Address t)))"
        using saved t o' by (auto simp: token_calls_def)
      with r(1) obtain x where x: "find_token db' (AddressHex L (ot_Address o')) = Some x" "tk_timestamp x = ot_Timestamp o'"
        "tk_decimals x = ot_Decimals o'" "tk_parent x = Some (tk_id r)"
        by (auto simp: call_saved_def)
      from find_token_address [OF x(1)] x(4) assms(6) have "x \<in> set (olds_of ord db' (tk_id r))" "tk_address x = AddressHex L (ot_Address o')"
        by (simp_all add: olds_of_def)
      moreover have "TimestampMsToTime (TimeToTimestampMs (ot_Timestamp o')) = ot_Timestamp o'" "ot_Decimals o' mod 256 = ot_Decimals o'"
        using assms(4) t o' by (auto simp: time_roundtrip_truncates)
      ultimately show ?thesis using x(2,3) assms(2) unfolding t'(7) by (auto intro!: image_eqI [of _ _ x])
    qed
    ultimately show ?thesis using t'(2-6) by blast
  qed
  moreover have "GetTokens L E' ordr ord asked db' = ((ts, kd_version db', kd_block db'), None)"
    using assms(7-9) ts(1) by (simp add: GetTokens_def Let_def)
  ultimately show ?thesis by blast
qed

section \<open>Concrete instances\<close>

text \<open>A reserve that lists the two contracts of a token, the second of which is the older one.\<close>

definition sample_contracts :: token_contracts where
  "sample_contracts = \<lparr> tc_ConversionRatesContract = (\<lambda>a. Inr 7), tc_GetListedTokens = (\<lambda>a. Inr [1, 2]),
     tc_Symbol = (\<lambda>a. Inr ''KNC''), tc_Name = (\<lambda>a. Inr ''Kyber''), tc_Decimals = (\<lambda>a. Inr 18),
     tc_Resolve = (\<lambda>a. Inr (if a = 1 then 2 * 10 ^ 18 else 10 ^ 18)) \<rparr>"

definition sample_listed :: ListedToken where
  "sample_listed = \<lparr> lt_Address = 2, lt_Symbol = ''KNC'', lt_Name = ''Kyber'', lt_Timestamp = 10 ^ 18, lt_Decimals = 18,
     lt_Old = [\<lparr> ot_Address = 1, ot_Timestamp = 2 * 10 ^ 18, ot_Decimals = 18 \<rparr>] \<rparr>"

definition no_errors :: tx_errors where
  "no_errors = \<lparr> te_begin = None, te_stmt = (\<lambda>n. None), te_commit = None \<rparr>"

lemma sample_fetch_listed: "GetListedToken sample_contracts rev 9 = Inr [sample_listed]"
  by (simp add: GetListedToken_def sample_contracts_def token_key_def merge_token_def sample_listed_def)

theorem GetListedToken_groups_witness:
  "GetListedToken sample_contracts rev 9 = Inr [sample_listed] \<and> mset (token_addresses sample_listed) = {#1, 2#} \<and>
   map ot_Timestamp (lt_Old sample_listed) = [2 * 10 ^ 18]"
proof -
  from GetListedToken_groups [OF sample_fetch_listed] have "mset (token_addresses sample_listed) = {#1, 2#}"
    by (simp add: sample_contracts_def)
  then show ?thesis using sample_fetch_listed by (simp add: sample_listed_def)
qed

lemma sample_hexes: "AddressHex sample_tx_lib 1 \<noteq> AddressHex sample_tx_lib 2" "inj (AddressHex sample_tx_lib)"
proof -
  show "inj (AddressHex sample_tx_lib)" by (metis injI sample_tx_lib_hex(2))
  then show "AddressHex sample_tx_lib 1 \<noteq> AddressHex sample_tx_lib 2" by (simp add: inj_eq)
qed

definition sample_token_db :: token_db where
  "sample_token_db = \<lparr>
     kd_tokens = [\<lparr> tk_id = 1, tk_address = AddressHex sample_tx_lib 2, tk_name = ''Kyber'', tk_symbol = ''KNC'', tk_timestamp = 10 ^ 18,
         tk_decimals = 18, tk_parent = None \<rparr>,
       \<lparr> tk_id = 2, tk_address = AddressHex sample_tx_lib 1, tk_name = ''Kyber'', tk_symbol = ''KNC'', tk_timestamp = 2 * 10 ^ 18,
         tk_decimals = 18, tk_parent = Some 1 \<rparr>], kd_next = 3, kd_reserves = [AddressHex sample_tx_lib 9],
     kd_links = [(1, AddressHex sample_tx_lib 9), (2, AddressHex sample_tx_lib 9)], kd_version = 1, kd_block = 100 \<rparr>"

lemma sample_create: "CreateOrUpdate sample_tx_lib no_errors [sample_listed] 100 9 empty_token_db = (sample_token_db, None)"
  using sample_hexes(1)
  by (simp add: CreateOrUpdate_def in_transaction_def no_errors_def token_calls_def sample_listed_def save_token_def
      find_token_def empty_token_db_def insert_new_def sample_token_db_def u64_def)

theorem CreateOrUpdate_idempotent_witness:
  "CreateOrUpdate sample_tx_lib no_errors [sample_listed] 200 9 sample_token_db = (sample_token_db, None) \<and> kd_block sample_token_db = 100"
proof
  show "CreateOrUpdate sample_tx_lib no_errors [sample_listed] 200 9 sample_token_db = (sample_token_db, None)"
    by (rule CreateOrUpdate_idempotent [OF sample_create sample_hexes(2)])
      (simp_all add: no_errors_def token_addresses_def sample_listed_def)
qed (simp add: sample_token_db_def)

theorem CreateOrUpdate_GetTokens_witness:
  "\<exists>ts. GetTokens sample_tx_lib no_errors rev rev 0 sample_token_db = ((ts, 1, 100), None) \<and>
     (\<exists>t'\<in>set ts. lt_Address t' = 2 \<and> ot_Address ` set (lt_Old t') \<supseteq> {1})"
proof -
  have "\<exists>ts. GetTokens sample_tx_lib no_errors rev rev 0 sample_token_db = ((ts, kd_version sample_token_db, kd_block sample_token_db), None) \<and>
    (\<forall>t\<in>set [sample_listed]. \<exists>t'\<in>set ts. lt_Address t' = lt_Address t \<and> lt_Symbol t' = lt_Symbol t \<and> lt_Name t' = lt_Name t \<and>
       lt_Timestamp t' = lt_Timestamp t \<and> lt_Decimals t' = lt_Decimals t \<and> set (lt_Old t) \<subseteq> set (lt_Old t'))"
    by (rule CreateOrUpdate_GetTokens [OF sample_create])
      (simp_all add: sample_tx_lib_hex, simp_all add: no_errors_def token_addresses_def sample_listed_def IsZeroAddress_def)
  then obtain ts t' where ts: "GetTokens sample_tx_lib no_errors rev rev 0 sample_token_db = ((ts, 1, 100), None)" "t' \<in> set ts"
    "lt_Address t' = lt_Address sample_listed" "set (lt_Old sample_listed) \<subseteq> set (lt_Old t')"
    by (auto simp: sample_token_db_def)
  have "1 \<in> ot_Address ` set (lt_Old sample_listed)" by (simp add: sample_listed_def)
  with ts(4) have "{1} \<subseteq> ot_Address ` set (lt_Old t')" by blast
  moreover have "lt_Address t' = 2" using ts(3) by (simp add: sample_listed_def)
  ultimately show ?thesis using ts(1,2) by blast
qed

end
