(* ===== verification/AppNames.thy ===== *)
theory AppNames
  imports AccountingTx Tables
begin

text \<open>
  The applications that integrate the trades: the tables and the two PL/pgSQL functions of \<open>app-names/storage/sql.go\<close>,
  the operations of \<open>app-names/storage/app_name_storage.go\<close>, and the answers of the handlers of
  \<open>app-names/http/server.go\<close>.

  The orders in which a query returns its rows and fills an array are parameters, as are the errors of the database.
  An empty list of addresses is a nil slice, which is passed as NULL. A number is a natural number: the column is
  serial, and a negative number is the number of no application.
\<close>

record Application =
  ap_ID :: nat
  ap_Name :: string
  ap_Addresses :: "addr list"

section \<open>The tables\<close>

record app_row =
  ar_id :: nat
  ar_name :: string
  ar_active :: bool

text \<open>The rows of \<open>addresses\<close> are pairs of a unique address and the number of its application.\<close>

record app_db =
  nd_apps :: "app_row list"
  nd_next :: nat
  nd_addresses :: "(string \<times> nat) list"

definition empty_app_db :: app_db where "empty_app_db = \<lparr> nd_apps = [], nd_next = 1, nd_addresses = [] \<rparr>"

definition check_violation :: go_err where
  "check_violation = Err ''pq: new row for relation app_names violates check constraint''"

definition unique_name :: go_err where
  "unique_name = Err ''pq: duplicate key value violates unique constraint app_names_name_key''"

definition unknown_app :: go_err where
  "unknown_app = Err ''pq: insert or update on table addresses violates foreign key constraint''"

definition app_ids :: "app_db \<Rightarrow> nat set" where "app_ids db = ar_id ` set (nd_apps db)"

text \<open>\<open>UPDATE app_names SET name = _name WHERE id = _id\<close>, with the constraints of the column.\<close>

definition rename_app :: "nat \<Rightarrow> string \<Rightarrow> app_db \<Rightarrow> app_db go" where
  "rename_app i name db =
     (if i \<notin> app_ids db then Inr db
      else if name = [] then Inl check_violation
      else if \<exists>r\<in>set (nd_apps db). ar_name r = name \<and> ar_id r \<noteq> i then Inl unique_name
      else Inr (db\<lparr> nd_apps := map (\<lambda>r. if ar_id r = i then r\<lparr> ar_name := name \<rparr> else r) (nd_apps db) \<rparr>))"

definition activate_app :: "(app_row \<Rightarrow> bool) \<Rightarrow> bool \<Rightarrow> app_db \<Rightarrow> app_db" where
  "activate_app P active db = db\<lparr> nd_apps := map (\<lambda>r. if P r then r\<lparr> ar_active := active \<rparr> else r) (nd_apps db) \<rparr>"

text \<open>\<open>INSERT ... ON CONFLICT ... DO UPDATE SET app_name_id\<close>.\<close>

fun claim_address :: "nat \<Rightarrow> string \<Rightarrow> (string \<times> nat) list \<Rightarrow> (string \<times> nat) list" where
  "claim_address i a [] = [(a, i)]"
| "claim_address i a (x # xs) = (if fst x = a then (a, i) # xs else x # claim_address i a xs)"

text \<open>The loop over the addresses and the \<open>DELETE\<close> after it.\<close>

definition link_addresses :: "nat \<Rightarrow> string list \<Rightarrow> app_db \<Rightarrow> app_db go" where
  "link_addresses i addresses db =
     (if addresses \<noteq> [] \<and> i \<notin> app_ids db then Inl unknown_app
      else Inr (db\<lparr> nd_addresses := filter (\<lambda>(a, j). \<not> (j = i \<and> a \<notin> set addresses))
        (fold (claim_address i) addresses (nd_addresses db)) \<rparr>))"

text \<open>The first half of the function: the row of the application, its number, and whether it was there.\<close>

definition app_upsert :: "nat \<Rightarrow> string \<Rightarrow> app_db \<Rightarrow> (app_db \<times> nat \<times> bool) go" where
  "app_upsert i name db =
     (if i = 0 then
        (if name = [] then Inl check_violation
         else case List.find (\<lambda>r. ar_name r = name) (nd_apps db) of
           None \<Rightarrow> Inr (db\<lparr> nd_apps := nd_apps db @ [\<lparr> ar_id = nd_next db, ar_name = name, ar_active = True \<rparr>],
                            nd_next := nd_next db + 1 \<rparr>, nd_next db, False)
         | Some r \<Rightarrow> Inr (activate_app (\<lambda>r. ar_name r = name) True (db\<lparr> nd_next := nd_next db + 1 \<rparr>), ar_id r, True))
      else go_bind (rename_app i name db) (\<lambda>db. Inr (activate_app (\<lambda>r. ar_id r = i) True db, i, True)))"

definition create_or_update_app :: "nat \<Rightarrow> string \<Rightarrow> string list option \<Rightarrow> app_db \<Rightarrow> (app_db \<times> nat \<times> bool) go" where
  "create_or_update_app i name addresses db =
     go_bind (app_upsert i name db) (\<lambda>(db, i, updated).
       (case addresses of
          None \<Rightarrow> Inr (db, i, updated)
        | Some as \<Rightarrow> go_bind (link_addresses i as db) (\<lambda>db. Inr (db, i, updated))))"

definition no_data_found :: go_err where "no_data_found = Err ''P0002''"

text \<open>\<open>ARRAY_LENGTH\<close> of an empty array is NULL, so it changes nothing either.\<close>

definition update_app :: "nat \<Rightarrow> string \<Rightarrow> string list option \<Rightarrow> app_db \<Rightarrow> app_db go" where
  "update_app i name addresses db =
     (if i \<notin> app_ids db then Inl no_data_found
      else go_bind (if 0 < length name then rename_app i name (activate_app (\<lambda>r. ar_id r = i) True db)
                    else Inr (activate_app (\<lambda>r. ar_id r = i) True db)) (\<lambda>db.
        (case addresses of
           None \<Rightarrow> Inr db
         | Some as \<Rightarrow> if 0 < length as then link_addresses i as db else Inr db)))"

section \<open>Operations\<close>

definition ErrAppNotExists :: go_err where "ErrAppNotExists = Err ''app does not exist''"

text \<open>The parameter of the addresses: \<open>append\<close> leaves the slice nil when there are none.\<close>

definition address_param :: "tx_lib \<Rightarrow> addr list \<Rightarrow> string list option" where
  "address_param L as = (if as = [] then None else Some (map (AddressHex L) as))"

definition CreateOrUpdate_app :: "tx_lib \<Rightarrow> go_err option \<Rightarrow> Application \<Rightarrow> app_db \<Rightarrow> app_db \<times> (nat \<times> bool) go" where
  "CreateOrUpdate_app L exec app db =
     (case exec of
        Some e \<Rightarrow> (db, Inl e)
      | None \<Rightarrow>
          (case create_or_update_app (ap_ID app) (ap_Name app) (address_param L (ap_Addresses app)) db of
             Inl e \<Rightarrow> (db, Inl e)
           | Inr (db, i, updated) \<Rightarrow> (db, Inr (i, updated))))"

definition Update_app :: "tx_lib \<Rightarrow> go_err option \<Rightarrow> Application \<Rightarrow> app_db \<Rightarrow> app_db \<times> go_err option" where
  "Update_app L exec app db =
     (case exec of
        Some e \<Rightarrow> (db, Some e)
      | None \<Rightarrow>
          (case update_app (ap_ID app) (ap_Name app) (address_param L (ap_Addresses app)) db of
             Inl e \<Rightarrow> (db, Some (if e = no_data_found then ErrAppNotExists else e))
           | Inr db \<Rightarrow> (db, None)))"

definition app_addresses :: "app_db \<Rightarrow> nat \<Rightarrow> string list" where
  "app_addresses db i = map fst (filter (\<lambda>(a, j). j = i) (nd_addresses db))"

definition row_Application :: "tx_lib \<Rightarrow> (string list \<Rightarrow> string list) \<Rightarrow> app_db \<Rightarrow> app_row \<Rightarrow> Application" where
  "row_Application L ord db r = \<lparr> ap_ID = ar_id r, ap_Name = ar_name r,
     ap_Addresses = map (HexToAddress L) (ord (app_addresses db (ar_id r))) \<rparr>"

record FilterConf =
  fl_Name :: "string option"
  fl_Address :: "string option"
  fl_Active :: "bool option"

text \<open>\<open>ILIKE ANY\<close>; without addresses the array is NULL and the row is left out.\<close>

definition app_matches :: "app_db \<Rightarrow> FilterConf \<Rightarrow> app_row \<Rightarrow> bool" where
  "app_matches db f r \<longleftrightarrow>
     (case fl_Name f of None \<Rightarrow> True | Some n \<Rightarrow> ar_name r = n) \<and>
     (case fl_Active f of None \<Rightarrow> True | Some b \<Rightarrow> ar_active r = b) \<and>
     (case fl_Address f of None \<Rightarrow> True | Some a \<Rightarrow> \<exists>x\<in>set (app_addresses db (ar_id r)). lower a = lower x)"

definition GetAll_apps :: "tx_lib \<Rightarrow> (app_row list \<Rightarrow> app_row list) \<Rightarrow> (string list \<Rightarrow> string list) \<Rightarrow> go_err option \<Rightarrow> FilterConf
    \<Rightarrow> app_db \<Rightarrow> Application list go" where
  "GetAll_apps L ordr ord sel f db =
     (case sel of
        Some e \<Rightarrow> Inl e
      | None \<Rightarrow> Inr (map (row_Application L ord db) (ordr (filter (app_matches db f) (nd_apps db)))))"

definition Get_app :: "tx_lib \<Rightarrow> (string list \<Rightarrow> string list) \<Rightarrow> go_err option \<Rightarrow> nat \<Rightarrow> app_db \<Rightarrow> Application go" where
  "Get_app L ord get i db =
     (case get of
        Some e \<Rightarrow> Inl e
      | None \<Rightarrow>
          (case List.find (\<lambda>r. ar_id r = i \<and> ar_active r) (nd_apps db) of
             None \<Rightarrow> Inl ErrAppNotExists
           | Some r \<Rightarrow> Inr (row_Application L ord db r)))"

definition Delete_app :: "tx_errors \<Rightarrow> nat \<Rightarrow> app_db \<Rightarrow> app_db \<times> go_err option" where
  "Delete_app E i db =
     in_transaction E (\<lambda>stmt db.
       (case stmt 0 of
          Some e \<Rightarrow> Inl e
        | None \<Rightarrow>
            if i \<notin> app_ids db then Inl ErrAppNotExists
            else (case stmt 1 of
              Some e \<Rightarrow> Inl e
            | None \<Rightarrow> Inr (activate_app (\<lambda>r. ar_id r = i) False db)))) db"

section \<open>Handlers\<close>

text \<open>
  The codes that are written, in order. When the application cannot be read after it was written, the handlers write an
  error and then go on to write the empty application.
\<close>

definition createApp :: "tx_lib \<Rightarrow> (string list \<Rightarrow> string list) \<Rightarrow> go_err option \<Rightarrow> go_err option \<Rightarrow> Application option \<Rightarrow> app_db
    \<Rightarrow> app_db \<times> nat list" where
  "createApp L ord exec get input db =
     (case input of
        None \<Rightarrow> (db, [400])
      | Some q \<Rightarrow>
          (case CreateOrUpdate_app L exec q db of
             (db, Inl e) \<Rightarrow> (db, [500])
           | (db, Inr (i, updated)) \<Rightarrow>
               (db, (if isl (Get_app L ord get i db) then [500] else []) @ [if updated then 200 else 201])))"

text \<open>\<open>param\<close> is the number in the path, None when it is not a number.\<close>

definition updateApp :: "tx_lib \<Rightarrow> (string list \<Rightarrow> string list) \<Rightarrow> go_err option \<Rightarrow> go_err option \<Rightarrow> nat option \<Rightarrow> Application option \<Rightarrow> app_db
    \<Rightarrow> app_db \<times> nat list" where
  "updateApp L ord exec get param input db =
     (case (param, input) of
        (Some appID, Some q) \<Rightarrow>
          if appID = 0 then (db, [400])
          else (case Update_app L exec (q\<lparr> ap_ID := appID \<rparr>) db of
            (db, Some e) \<Rightarrow> (db, [if e = ErrAppNotExists then 404 else 500])
          | (db, None) \<Rightarrow> (db, (if isl (Get_app L ord get appID db) then [500] else []) @ [200]))
      | _ \<Rightarrow> (db, [400]))"

definition deleteApp :: "tx_errors \<Rightarrow> nat option \<Rightarrow> app_db \<Rightarrow> app_db \<times> nat list" where
  "deleteApp E param db =
     (case param of
        None \<Rightarrow> (db, [400])
      | Some appID \<Rightarrow>
          (case Delete_app E appID db of
             (db, Some e) \<Rightarrow> (db, [if e = ErrAppNotExists then 404 else 500])
           | (db, None) \<Rightarrow> (db, [200])))"

section \<open>The specification\<close>

text \<open>
  What the tables stand for: the applications, each with its name and whether it is active, and the application that an
  address belongs to.
\<close>

record app_spec =
  sp_apps :: "nat \<Rightarrow> (string \<times> bool) option"
  sp_owner :: "string \<Rightarrow> nat option"

definition app_abs :: "app_db \<Rightarrow> app_spec" where
  "app_abs db = \<lparr> sp_apps = map_of (map (\<lambda>r. (ar_id r, ar_name r, ar_active r)) (nd_apps db)),
     sp_owner = map_of (nd_addresses db) \<rparr>"

text \<open>
  An application gets exactly the addresses that are given, which leave the applications that had them; without any,
  its addresses stay. A new application gets the number \<open>n\<close>.
\<close>

definition spec_link :: "nat \<Rightarrow> string list \<Rightarrow> (string \<Rightarrow> nat option) \<Rightarrow> string \<Rightarrow> nat option" where
  "spec_link i as own a = (if a \<in> set as then Some i else if own a = Some i then None else own a)"

definition spec_set :: "nat \<Rightarrow> string \<Rightarrow> string list option \<Rightarrow> app_spec \<Rightarrow> app_spec" where
  "spec_set i name addresses s =
     s\<lparr> sp_apps := (sp_apps s)(i \<mapsto> (name, True)),
        sp_owner := (case addresses of None \<Rightarrow> sp_owner s | Some as \<Rightarrow> spec_link i as (sp_owner s)) \<rparr>"

text \<open>The constraints of the tables.\<close>

definition apps_ok :: "app_db \<Rightarrow> bool" where
  "apps_ok db \<longleftrightarrow> distinct (map ar_id (nd_apps db)) \<and> distinct (map ar_name (nd_apps db)) \<and>
     distinct (map fst (nd_addresses db)) \<and> snd ` set (nd_addresses db) \<subseteq> app_ids db \<and> 0 < nd_next db \<and>
     (\<forall>r\<in>set (nd_apps db). 0 < ar_id r \<and> ar_id r < nd_next db \<and> ar_name r \<noteq> [])"

section \<open>The tables implement the specification\<close>

lemma map_of_update_row:
  assumes "distinct (map ar_id rows)" "r \<in> set rows" "ar_id r = i" "ar_id (f r) = i" "h (f r) = v"
  shows "map_of (map (\<lambda>r. (ar_id r, h r)) (map (\<lambda>r. if ar_id r = i then f r else r) rows)) =
    (map_of (map (\<lambda>r. (ar_id r, h r)) rows))(i \<mapsto> v)"
  using assms(1,2)
proof (induction rows)
  case (Cons x rows)
  show ?case
  proof (cases "ar_id x = i")
    case True
    with Cons.prems assms(3) have "x = r" "\<forall>y\<in>set rows. ar_id y \<noteq> i" by (force simp: image_iff)+
    moreover from this have "map (\<lambda>r. if ar_id r = i then f r else r) rows = rows" by (intro map_idI) simp
    ultimately show ?thesis using assms(3-5) by (simp add: fun_eq_iff)
  next
    case False
    with Cons assms(3) have "map_of (map (\<lambda>r. (ar_id r, h r)) (map (\<lambda>r. if ar_id r = i then f r else r) rows)) =
      (map_of (map (\<lambda>r. (ar_id r, h r)) rows))(i \<mapsto> v)" by auto
    with False show ?thesis by (auto simp: fun_eq_iff)
  qed
qed simp

lemma claim_address_map: "map_of (claim_address i a xs) = (map_of xs)(a \<mapsto> i)"
  by (induction xs) (auto simp: fun_upd_twist)

lemma claim_address_keys: "distinct (map fst xs) \<Longrightarrow> distinct (map fst (claim_address i a xs))"
  "fst ` set (claim_address i a xs) = insert a (fst ` set xs)"
  "snd ` set (claim_address i a xs) \<subseteq> insert i (snd ` set xs)"
proof -
  show keys: "fst ` set (claim_address i a xs) = insert a (fst ` set xs)" for xs by (induction xs) auto
  show "distinct (map fst xs) \<Longrightarrow> distinct (map fst (claim_address i a xs))"
  proof (induction xs)
    case (Cons x xs)
    have "fst x \<notin> fst ` set (claim_address i a xs)" if "fst x \<noteq> a" using that Cons.prems keys [of xs] by simp
    with Cons show ?case by (cases "fst x = a") auto
  qed simp
  show "snd ` set (claim_address i a xs) \<subseteq> insert i (snd ` set xs)" by (induction xs) auto
qed

lemma claim_all:
  "map_of (fold (claim_address i) as xs) b = (if b \<in> set as then Some i else map_of xs b)"
  "distinct (map fst xs) \<Longrightarrow> distinct (map fst (fold (claim_address i) as xs))"
  "as \<noteq> [] \<Longrightarrow> snd ` set (fold (claim_address i) as xs) \<subseteq> insert i (snd ` set xs)"
proof -
  show "map_of (fold (claim_address i) as xs) b = (if b \<in> set as then Some i else map_of xs b)"
    by (induction as arbitrary: xs) (auto simp: claim_address_map)
  show "distinct (map fst xs) \<Longrightarrow> distinct (map fst (fold (claim_address i) as xs))"
    by (induction as arbitrary: xs) (auto simp: claim_address_keys)
  have "snd ` set (fold (claim_address i) as xs) \<subseteq> insert i (snd ` set xs)" for xs
  proof (induction as arbitrary: xs)
    case (Cons a as)
    from Cons [of "claim_address i a xs"] claim_address_keys(3) [of i a xs] show ?case by auto
  qed auto
  then show "snd ` set (fold (claim_address i) as xs) \<subseteq> insert i (snd ` set xs)" .
qed

lemma map_of_filter_rows:
  "distinct (map fst xs) \<Longrightarrow>
   map_of (filter (\<lambda>(a, j). P a j) xs) b = (case map_of xs b of None \<Rightarrow> None | Some j \<Rightarrow> if P b j then Some j else None)"
proof (induction xs)
  case (Cons x xs)
  obtain a j where x: "x = (a, j)" by (cases x)
  have "map_of xs a = None" using Cons.prems x by (simp add: map_of_eq_None_iff)
  with Cons x show ?case by auto
qed simp

lemma link_addresses_spec:
  assumes "link_addresses i as db = Inr db'" "apps_ok db" "i \<in> app_ids db"
  shows "apps_ok db' \<and> nd_apps db' = nd_apps db \<and> map_of (nd_addresses db') = spec_link i as (map_of (nd_addresses db))"
proof -
  let ?xs = "fold (claim_address i) as (nd_addresses db)"
  from assms(1) have db': "db' = db\<lparr> nd_addresses := filter (\<lambda>(a, j). \<not> (j = i \<and> a \<notin> set as)) ?xs \<rparr>"
    by (simp add: link_addresses_def split: if_splits)
  have dist: "distinct (map fst ?xs)" using assms(2) by (simp add: apps_ok_def claim_all)
  have "snd ` set ?xs \<subseteq> app_ids db"
    using assms(2,3) claim_all(3) [of as i "nd_addresses db"] by (cases "as = []") (auto simp: apps_ok_def)
  moreover have "distinct (map fst (nd_addresses db'))"
    using dist unfolding db' by (simp add: distinct_map_filter)
  ultimately have "apps_ok db'" using assms(2) unfolding apps_ok_def db' by (auto simp: app_ids_def)
  moreover have "map_of (nd_addresses db') = spec_link i as (map_of (nd_addresses db))"
  proof
    fix a
    show "map_of (nd_addresses db') a = spec_link i as (map_of (nd_addresses db)) a"
      using map_of_filter_rows [OF dist, of "\<lambda>a j. \<not> (j = i \<and> a \<notin> set as)" a]
      by (simp add: db' claim_all(1) spec_link_def split: option.splits)
  qed
  ultimately show ?thesis by (simp add: db')
qed

lemma activate_named:
  assumes "apps_ok db" "r \<in> set (nd_apps db)" "ar_name r = name"
  shows "activate_app (\<lambda>r. ar_name r = name) b db = activate_app (\<lambda>x. ar_id x = ar_id r) b db"
proof -
  have "ar_name x = name \<longleftrightarrow> ar_id x = ar_id r" if "x \<in> set (nd_apps db)" for x
    using assms that unfolding apps_ok_def distinct_map by (metis inj_onD)
  then show ?thesis by (simp add: activate_app_def cong: map_cong)
qed

lemma activate_app_ok:
  "apps_ok db \<Longrightarrow> apps_ok (activate_app P b db)" "app_ids (activate_app P b db) = app_ids db"
  "nd_addresses (activate_app P b db) = nd_addresses db"
proof -
  let ?f = "\<lambda>r. if P r then r\<lparr> ar_active := b \<rparr> else r"
  have f: "map ar_id (map ?f xs) = map ar_id xs" "map ar_name (map ?f xs) = map ar_name xs" for xs by simp_all
  show ids: "app_ids (activate_app P b db) = app_ids db" 
  proof -
    have "nd_apps (activate_app P b db) = map ?f (nd_apps db)" by (simp add: activate_app_def)
    with arg_cong [OF f(1) [of "nd_apps db"], of set] show ?thesis by (simp only: app_ids_def set_map)
  qed
  show "nd_addresses (activate_app P b db) = nd_addresses db" by (simp add: activate_app_def)
  assume "apps_ok db"
  then show "apps_ok (activate_app P b db)"
  proof -
    have rows: "nd_apps (activate_app P b db) = map ?f (nd_apps db)" "nd_next (activate_app P b db) = nd_next db"
      "nd_addresses (activate_app P b db) = nd_addresses db" by (simp_all add: activate_app_def)
    have "\<forall>r\<in>set (map ?f (nd_apps db)). 0 < ar_id r \<and> ar_id r < nd_next db \<and> ar_name r \<noteq> []"
      using \<open>apps_ok db\<close> by (auto simp: apps_ok_def)
    then show ?thesis using \<open>apps_ok db\<close> unfolding apps_ok_def rows f ids by blast
  qed
qed

lemma activate_app_abs:
  assumes "apps_ok db" "r \<in> set (nd_apps db)"
  shows "app_abs (activate_app (\<lambda>x. ar_id x = ar_id r) b db) = (app_abs db)\<lparr> sp_apps := (sp_apps (app_abs db))(ar_id r \<mapsto> (ar_name r, b)) \<rparr>"
  using map_of_update_row [of "nd_apps db" r "ar_id r" "\<lambda>r. r\<lparr> ar_active := b \<rparr>" "\<lambda>r. (ar_name r, ar_active r)"] assms
  by (simp add: app_abs_def activate_app_def apps_ok_def)

lemma map_of_new: "k \<notin> fst ` set xs \<Longrightarrow> map_of (xs @ [(k, v)]) = (map_of xs)(k \<mapsto> v)"
  by (induction xs) (auto simp: fun_eq_iff)

lemma app_row_of: "i \<in> app_ids db \<Longrightarrow> \<exists>r\<in>set (nd_apps db). ar_id r = i"
  by (auto simp: app_ids_def)

lemma rename_app_spec:
  assumes "rename_app i name db = Inr db'" "apps_ok db" "i \<in> app_ids db"
  shows "apps_ok db' \<and> app_ids db' = app_ids db \<and> nd_addresses db' = nd_addresses db \<and>
    (\<exists>r\<in>set (nd_apps db'). ar_id r = i \<and> ar_name r = name) \<and>
    (\<forall>k. k \<noteq> i \<longrightarrow> sp_apps (app_abs db') k = sp_apps (app_abs db) k)"
proof -
  obtain r where r: "r \<in> set (nd_apps db)" "ar_id r = i" using app_row_of [OF assms(3)] by blast
  let ?f = "\<lambda>x. if ar_id x = i then x\<lparr> ar_name := name \<rparr> else x"
  from assms(1,3) have db': "db' = db\<lparr> nd_apps := map ?f (nd_apps db) \<rparr>" and name: "name \<noteq> []"
    "\<forall>x\<in>set (nd_apps db). ar_id x \<noteq> ar_id r \<longrightarrow> ar_name x \<noteq> name"
    using r(2) by (auto simp: rename_app_def split: if_splits)
  have ids: "map ar_id (map ?f (nd_apps db)) = map ar_id (nd_apps db)" by simp
  have rows: "nd_apps db' = map ?f (nd_apps db)" by (simp add: db')
  have app_ids: "app_ids db' = app_ids db"
    using arg_cong [OF ids, of set] by (simp only: app_ids_def rows set_map)
  have "distinct (map ar_name (nd_apps db'))"
  proof -
    have "inj_on (\<lambda>x. ar_name (?f x)) (set (nd_apps db))"
    proof (rule inj_onI)
      fix x y assume xy: "x \<in> set (nd_apps db)" "y \<in> set (nd_apps db)" "ar_name (?f x) = ar_name (?f y)"
      have inj: "inj_on ar_id (set (nd_apps db))" "inj_on ar_name (set (nd_apps db))"
        using assms(2) by (simp_all add: apps_ok_def distinct_map)
      have "ar_id x = ar_id y"
        using xy name(2) r(2) inj_onD [OF inj(2) _ xy(1,2)] by (auto split: if_splits)
      then show "x = y" using inj_onD [OF inj(1) _ xy(1,2)] by simp
    qed
    then show ?thesis using assms(2) by (simp add: rows apps_ok_def distinct_map comp_def)
  qed
  moreover have "\<forall>x\<in>set (nd_apps db'). 0 < ar_id x \<and> ar_id x < nd_next db' \<and> ar_name x \<noteq> []"
    using assms(2) name unfolding rows apps_ok_def by (auto simp: db')
  moreover have "distinct (map ar_id (nd_apps db'))" using assms(2) unfolding rows ids by (simp add: apps_ok_def)
  ultimately have "apps_ok db'" using assms(2) app_ids unfolding apps_ok_def by (simp add: db')
  moreover have "?f r \<in> set (nd_apps db')" using imageI [OF r(1), of ?f] by (simp only: rows set_map)
  then have "\<exists>r\<in>set (nd_apps db'). ar_id r = i \<and> ar_name r = name"
    by (rule bexI [rotated]) (simp add: r(2))
  moreover have "sp_apps (app_abs db') k = sp_apps (app_abs db) k" if "k \<noteq> i" for k
    using map_of_update_row [of "nd_apps db" r i "\<lambda>x. x\<lparr> ar_name := name \<rparr>" "\<lambda>r. (ar_name r, ar_active r)"] assms(2) r that
    by (simp add: app_abs_def rows apps_ok_def)
  ultimately show ?thesis using app_ids by (simp add: db')
qed

lemma find_name: "List.find (\<lambda>r. ar_name r = name) rows = Some r \<Longrightarrow> r \<in> set rows \<and> ar_name r = name"
  by (auto simp: find_Some_iff)

lemma abs_addresses: "nd_addresses db' = nd_addresses db \<Longrightarrow> sp_owner (app_abs db') = sp_owner (app_abs db)"
  by (simp add: app_abs_def)

lemma app_upsert_spec:
  assumes "app_upsert i name db = Inr (db1, n, updated)"
    and "apps_ok db" "i = 0 \<or> i \<in> app_ids db"
  shows "apps_ok db1 \<and> n \<in> app_ids db1 \<and> nd_addresses db1 = nd_addresses db \<and> (i \<noteq> 0 \<longrightarrow> n = i) \<and>
    sp_apps (app_abs db1) = (sp_apps (app_abs db))(n \<mapsto> (name, True)) \<and>
    (updated \<longleftrightarrow> n \<in> app_ids db)"
proof (cases "i = 0")
  case True
  show ?thesis
  proof (cases "List.find (\<lambda>r. ar_name r = name) (nd_apps db)")
    case None
    with assms(1) True have db1: "db1 = db\<lparr> nd_apps := nd_apps db @ [\<lparr> ar_id = nd_next db, ar_name = name, ar_active = True \<rparr>],
        nd_next := nd_next db + 1 \<rparr>" "n = nd_next db" "\<not> updated" "name \<noteq> []" by (auto simp: app_upsert_def split: if_splits)
    have new: "name \<notin> ar_name ` set (nd_apps db)" using None by (auto simp: find_None_iff)
    have next_id: "nd_next db \<notin> ar_id ` set (nd_apps db)" using assms(2) unfolding apps_ok_def by (metis imageE less_irrefl)
    have "apps_ok db1" using assms(2) new next_id db1(4) unfolding apps_ok_def db1(1) app_ids_def by (auto simp: less_Suc_eq)
    moreover have "sp_apps (app_abs db1) = (sp_apps (app_abs db))(n \<mapsto> (name, True))"
      using next_id map_of_new [of "nd_next db" "map (\<lambda>r. (ar_id r, ar_name r, ar_active r)) (nd_apps db)"]
      by (simp add: app_abs_def db1 image_image)
    ultimately show ?thesis using next_id True db1 by (simp add: app_ids_def)
  next
    case (Some r)
    let ?db = "db\<lparr> nd_next := nd_next db + 1 \<rparr>"
    from Some assms(1) True have db1: "db1 = activate_app (\<lambda>r. ar_name r = name) True ?db" "n = ar_id r" "updated"
      by (auto simp: app_upsert_def split: if_splits)
    have r: "r \<in> set (nd_apps ?db)" "ar_name r = name" using find_name [OF Some] by simp_all
    have ok: "apps_ok ?db" using assms(2) unfolding apps_ok_def app_ids_def by (auto simp: less_Suc_eq)
    have same: "db1 = activate_app (\<lambda>x. ar_id x = ar_id r) True ?db"
      unfolding db1(1) by (rule activate_named [OF ok r])
    have "app_abs ?db = app_abs db" "app_ids ?db = app_ids db" by (simp_all add: app_abs_def app_ids_def)
    with activate_app_abs [OF ok r(1), of True] have "sp_apps (app_abs db1) = (sp_apps (app_abs db))(n \<mapsto> (name, True))"
      by (simp add: same db1(2) r(2))
    moreover have "n \<in> app_ids db" using r(1) db1(2) by (auto simp: app_ids_def)
    ultimately show ?thesis
      using activate_app_ok [where db = ?db] ok True db1(3) \<open>app_ids ?db = app_ids db\<close> by (simp add: same)
  qed
next
  case False
  with assms(1) obtain db2 where db2: "rename_app i name db = Inr db2" "db1 = activate_app (\<lambda>r. ar_id r = i) True db2" "n = i" "updated"
    by (auto simp: app_upsert_def go_bind_Inr_iff)
  have i: "i \<in> app_ids db" using False assms(3) by simp
  note ren = rename_app_spec [OF db2(1) assms(2) i]
  then obtain r where r: "r \<in> set (nd_apps db2)" "ar_id r = i" "ar_name r = name" by blast
  have "sp_apps (app_abs db1) = (sp_apps (app_abs db2))(i \<mapsto> (name, True))"
    using activate_app_abs [of db2 r True] ren r by (simp add: db2(2))
  also have "\<dots> = (sp_apps (app_abs db))(i \<mapsto> (name, True))" using ren by (auto simp: fun_eq_iff)
  finally show ?thesis using activate_app_ok [where db = db2] ren i db2(3,4) by (simp add: db2(2))
qed

lemma create_or_update_app_spec:
  assumes "create_or_update_app i name addresses db = Inr (db', n, updated)" "apps_ok db" "i = 0 \<or> i \<in> app_ids db"
  shows "apps_ok db' \<and> app_abs db' = spec_set n name addresses (app_abs db) \<and> (i \<noteq> 0 \<longrightarrow> n = i) \<and> (updated \<longleftrightarrow> n \<in> app_ids db)"
proof -
  from assms(1) obtain x where x: "app_upsert i name db = Inr x" "(case x of (db1, k, u) \<Rightarrow>
      (case addresses of None \<Rightarrow> Inr (db1, k, u) | Some as \<Rightarrow> go_bind (link_addresses k as db1) (\<lambda>db. Inr (db, k, u)))) = Inr (db', n, updated)"
    unfolding create_or_update_app_def go_bind_Inr_iff by blast
  obtain db1 k u where y: "x = (db1, k, u)" by (cases x)
  have "k = n \<and> u = updated \<and> (case addresses of None \<Rightarrow> db' = db1 | Some as \<Rightarrow> link_addresses k as db1 = Inr db')"
    using x(2) unfolding y by (cases addresses) (auto simp: go_bind_Inr_iff)
  then have k: "k = n" "u = updated" and second: "(case addresses of None \<Rightarrow> db' = db1 | Some as \<Rightarrow> link_addresses k as db1 = Inr db')"
    by blast+
  have first: "app_upsert i name db = Inr (db1, n, updated)" using x(1) unfolding y k .
  note second = second [unfolded k(1)]
  note row = app_upsert_spec [OF first assms(2,3)]
  then have "nd_addresses db1 = nd_addresses db" by blast
  then have owner: "sp_owner (app_abs db1) = sp_owner (app_abs db)" by (rule abs_addresses)
  show ?thesis
  proof (cases addresses)
    case None
    with row owner second show ?thesis by (simp add: spec_set_def)
  next
    case (Some as)
    with second have link: "link_addresses n as db1 = Inr db'" by simp
    have "apps_ok db'" "nd_apps db' = nd_apps db1" "map_of (nd_addresses db') = spec_link n as (map_of (nd_addresses db1))"
      using link_addresses_spec [OF link] row by simp_all
    then show ?thesis using row owner Some by (simp add: spec_set_def app_abs_def)
  qed
qed

lemma update_app_spec:
  assumes "update_app i name addresses db = Inr db'" "apps_ok db"
  shows "apps_ok db'"
proof -
  from assms(1) have i: "i \<in> app_ids db" by (auto simp: update_app_def split: if_splits)
  let ?db = "activate_app (\<lambda>r. ar_id r = i) True db"
  have ok: "apps_ok ?db" "i \<in> app_ids ?db" using activate_app_ok [where db = db] assms(2) i by simp_all
  from assms(1) i obtain db1 where db1: "(if 0 < length name then rename_app i name ?db else Inr ?db) = Inr db1"
    "(case addresses of None \<Rightarrow> Inr db1 | Some as \<Rightarrow> if 0 < length as then link_addresses i as db1 else Inr db1) = Inr db'"
    by (auto simp: update_app_def go_bind_Inr_iff)
  have "apps_ok db1 \<and> i \<in> app_ids db1"
    using db1(1) ok rename_app_spec [OF _ ok] by (cases "0 < length name") auto
  with db1(2) link_addresses_spec show ?thesis by (auto split: option.splits if_splits)
qed

lemma Delete_app_ok: "Delete_app E i db = (db', e) \<Longrightarrow> apps_ok db \<Longrightarrow> apps_ok db'"
  unfolding Delete_app_def
  by (erule in_transaction_cases) (auto split: option.splits if_splits simp: activate_app_ok)

lemma Get_app_spec:
  assumes "apps_ok db" "sp_apps (app_abs db) i = Some (name, True)" "\<And>xs. set (ord xs) = set xs"
  shows "\<exists>app. Get_app L ord None i db = Inr app \<and> ap_ID app = i \<and> ap_Name app = name \<and>
    set (ap_Addresses app) = HexToAddress L ` {a. sp_owner (app_abs db) a = Some i}"
proof -
  from assms(2) have "(i, name, True) \<in> set (map (\<lambda>r. (ar_id r, ar_name r, ar_active r)) (nd_apps db))"
    unfolding app_abs_def by (auto dest: map_of_SomeD)
  then obtain r0 where r0: "r0 \<in> set (nd_apps db)" "ar_id r0 = i" "ar_name r0 = name" "ar_active r0" by auto
  then have "List.find (\<lambda>r. ar_id r = i \<and> ar_active r) (nd_apps db) \<noteq> None" by (auto simp: find_None_iff)
  then obtain r where find: "List.find (\<lambda>r. ar_id r = i \<and> ar_active r) (nd_apps db) = Some r" by blast
  then have r: "r \<in> set (nd_apps db)" "ar_id r = i" by (auto simp: find_Some_iff)
  with r0 assms(1) have "r = r0" unfolding apps_ok_def distinct_map by (metis inj_onD)
  have "distinct (map fst (nd_addresses db))" using assms(1) by (simp add: apps_ok_def)
  then have "(a, i) \<in> set (nd_addresses db) \<longleftrightarrow> map_of (nd_addresses db) a = Some i" for a by simp
  then have "set (app_addresses db i) = {a. sp_owner (app_abs db) a = Some i}"
    by (force simp: app_addresses_def app_abs_def)
  with find r0 \<open>r = r0\<close> assms(3) show ?thesis by (simp add: Get_app_def row_Application_def)
qed

section \<open>Properties\<close>

text \<open>
  C16: The function that creates or updates an application implements the specification: the application has the given name
  and is active, and exactly the given addresses belong to it, whichever application had them; all other applications
  and addresses stay. It says whether the application was there, and keeps the constraints of the tables.
\<close>

theorem CreateOrUpdate_app_refines:
  assumes "apps_ok db" "ap_ID app = 0 \<or> ap_ID app \<in> app_ids db"
    and "CreateOrUpdate_app L exec app db = (db', Inr (n, updated))"
  shows "apps_ok db' \<and> app_abs db' = spec_set n (ap_Name app) (address_param L (ap_Addresses app)) (app_abs db) \<and>
    (ap_ID app \<noteq> 0 \<longrightarrow> n = ap_ID app) \<and> (updated \<longleftrightarrow> n \<in> app_ids db)"
proof -
  from assms(3) have "create_or_update_app (ap_ID app) (ap_Name app) (address_param L (ap_Addresses app)) db = Inr (db', n, updated)"
    by (auto simp: CreateOrUpdate_app_def split: option.splits sum.splits)
  from create_or_update_app_spec [OF this assms(1,2)] show ?thesis .
qed

text \<open>An application that was created or updated with some addresses is read back with its name and exactly these.\<close>

theorem CreateOrUpdate_app_Get_app:
  assumes "\<forall>a. HexToAddress L (AddressHex L a) = a" "\<forall>xs. set (ord xs) = set xs"
    and "apps_ok db" "ap_ID app = 0 \<or> ap_ID app \<in> app_ids db" "ap_Addresses app \<noteq> []"
    and "CreateOrUpdate_app L exec app db = (db', Inr (n, updated))"
  shows "\<exists>got. Get_app L ord None n db' = Inr got \<and> ap_ID got = n \<and> ap_Name got = ap_Name app \<and>
    set (ap_Addresses got) = set (ap_Addresses app)"
proof -
  let ?as = "map (AddressHex L) (ap_Addresses app)"
  from assms(6) have "create_or_update_app (ap_ID app) (ap_Name app) (address_param L (ap_Addresses app)) db = Inr (db', n, updated)"
    by (auto simp: CreateOrUpdate_app_def split: option.splits sum.splits)
  from create_or_update_app_spec [OF this assms(3,4)] assms(5)
  have ok: "apps_ok db'" and abs: "app_abs db' = spec_set n (ap_Name app) (Some ?as) (app_abs db)"
    by (simp_all add: address_param_def)
  have "{a. sp_owner (app_abs db') a = Some n} = set ?as"
    by (auto simp: abs spec_set_def spec_link_def)
  moreover have "sp_apps (app_abs db') n = Some (ap_Name app, True)" by (simp add: abs spec_set_def)
  ultimately show ?thesis
    using Get_app_spec [OF ok, of n "ap_Name app" ord L] assms(1,2) by (force simp: image_image)
qed

text \<open>
  With the number of an application that is not there and no addresses, nothing is stored, but the function reports an
  update; the handler then writes two answers.
\<close>

theorem createApp_unknown_id:
  assumes "i \<noteq> 0" "i \<notin> app_ids db"
  shows "createApp L ord None None (Some \<lparr> ap_ID = i, ap_Name = name, ap_Addresses = [] \<rparr>) db = (db, [500, 200])"
proof -
  have "activate_app (\<lambda>r. ar_id r = i) True db = db"
  proof -
    have "r = (if ar_id r = i then r\<lparr> ar_active := True \<rparr> else r)" if "r \<in> set (nd_apps db)" for r
      using assms(2) that by (auto simp: app_ids_def)
    then have "map (\<lambda>r. if ar_id r = i then r\<lparr> ar_active := True \<rparr> else r) (nd_apps db) = nd_apps db"
      by (intro map_idI) simp
    then show ?thesis by (simp add: activate_app_def)
  qed
  moreover have "List.find (\<lambda>r. ar_id r = i \<and> ar_active r) (nd_apps db) = None"
    using assms(2) by (auto simp: find_None_iff app_ids_def)
  ultimately show ?thesis
    using assms by (simp add: createApp_def CreateOrUpdate_app_def create_or_update_app_def app_upsert_def rename_app_def
        address_param_def Get_app_def)
qed

section \<open>Concrete instances\<close>

definition sample_app :: Application where
  "sample_app = \<lparr> ap_ID = 0, ap_Name = ''wallet'', ap_Addresses = [1, 2] \<rparr>"

definition sample_app_db :: app_db where
  "sample_app_db = \<lparr> nd_apps = [\<lparr> ar_id = 1, ar_name = ''wallet'', ar_active = True \<rparr>], nd_next = 2,
     nd_addresses = [(AddressHex sample_tx_lib 1, 1), (AddressHex sample_tx_lib 2, 1)] \<rparr>"

lemma empty_apps_ok: "apps_ok empty_app_db"
  by (simp add: apps_ok_def empty_app_db_def app_ids_def)

lemma sample_app_created: "CreateOrUpdate_app sample_tx_lib None sample_app empty_app_db = (sample_app_db, Inr (1, False))"
proof -
  have "AddressHex sample_tx_lib 1 \<noteq> AddressHex sample_tx_lib 2"
  proof
    assume "AddressHex sample_tx_lib 1 = AddressHex sample_tx_lib 2"
    then have "(1 :: addr) = 2" by (metis sample_tx_lib_hex(2))
    then show False by simp
  qed
  then show ?thesis
    by (simp add: CreateOrUpdate_app_def sample_app_def empty_app_db_def create_or_update_app_def app_upsert_def address_param_def
        link_addresses_def app_ids_def sample_app_db_def)
qed

theorem CreateOrUpdate_app_refines_witness:
  "apps_ok sample_app_db \<and> sp_owner (app_abs sample_app_db) (AddressHex sample_tx_lib 2) = Some 1"
proof -
  from CreateOrUpdate_app_refines [OF empty_apps_ok _ sample_app_created] have "apps_ok sample_app_db"
    "app_abs sample_app_db = spec_set 1 ''wallet'' (address_param sample_tx_lib [1, 2]) (app_abs empty_app_db)"
    by (simp_all add: sample_app_def)
  then show ?thesis by (simp add: spec_set_def address_param_def spec_link_def)
qed

theorem CreateOrUpdate_app_Get_app_witness:
  "\<exists>got. Get_app sample_tx_lib rev None 1 sample_app_db = Inr got \<and> set (ap_Addresses got) = {1, 2}"
  using CreateOrUpdate_app_Get_app [OF _ _ empty_apps_ok _ _ sample_app_created, of rev] sample_tx_lib_hex
  by (auto simp: sample_app_def)

theorem createApp_unknown_id_witness:
  "createApp sample_tx_lib rev None None (Some \<lparr> ap_ID = 7, ap_Name = ''other'', ap_Addresses = [] \<rparr>) sample_app_db = (sample_app_db, [500, 200])"
  by (rule createApp_unknown_id) (simp_all add: sample_app_db_def app_ids_def)

end
