(* ===== verification/TextNumbers.thy ===== *)
theory TextNumbers
  imports Prelude
begin

text \<open>
  Numbers as text: what \<open>strconv.FormatUint\<close> and the JSON of a number write, and the comparison of text with which
  PostgreSQL compares \<open>data->>'...'\<close> to a parameter. For numbers with the same number of digits it is that of the
  numbers.
\<close>

definition digit_char :: "nat \<Rightarrow> char" where "digit_char d = char_of (48 + d)"

fun decimal :: "nat \<Rightarrow> string" where
  "decimal n = (if n < 10 then [digit_char n] else decimal (n div 10) @ [digit_char (n mod 10)])"

declare decimal.simps [simp del]

text \<open>The number that a text of digits stands for.\<close>

definition text_value :: "string \<Rightarrow> nat" where
  "text_value s = foldl (\<lambda>v c. 10 * v + (of_char c - 48)) 0 s"

text \<open>\<open>a <= b\<close> on text, and \<open>a < b\<close>.\<close>

fun text_le :: "string \<Rightarrow> string \<Rightarrow> bool" where
  "text_le [] ys = True"
| "text_le (x # xs) [] = False"
| "text_le (x # xs) (y # ys) = (if x = y then text_le xs ys else (of_char x :: nat) < of_char y)"

definition text_less :: "string \<Rightarrow> string \<Rightarrow> bool" where "text_less a b \<longleftrightarrow> \<not> text_le b a"

text \<open>
  \<open>COALESCE(MAX(column), '0')\<close> of a column of texts of numbers: the number with the greatest text.
\<close>

fun text_max :: "nat list \<Rightarrow> nat" where
  "text_max [] = 0"
| "text_max (n # ns) = (if text_le (decimal n) (decimal (text_max ns)) then text_max ns else n)"

lemma of_char_digit: "d < 10 \<Longrightarrow> (of_char (digit_char d) :: nat) = 48 + d"
  by (simp add: digit_char_def)

lemma digit_char_inj: "c < 10 \<Longrightarrow> d < 10 \<Longrightarrow> digit_char c = digit_char d \<longleftrightarrow> c = d"
  by (metis of_char_digit add_left_cancel)

lemma text_le_snoc:
  "length xs = length ys \<Longrightarrow> text_le (xs @ [x]) (ys @ [y]) \<longleftrightarrow>
    (if xs = ys then (of_char x :: nat) \<le> of_char y else text_le xs ys)"
  by (induction xs ys rule: list_induct2) (auto simp: le_less)

lemma decimal_small: "n < 10 \<Longrightarrow> decimal n = [digit_char n]"
  by (simp add: decimal.simps)

lemma decimal_large: "10 \<le> n \<Longrightarrow> decimal n = decimal (n div 10) @ [digit_char (n mod 10)]"
  by (simp add: decimal.simps)

lemma decimal_not_Nil [simp]: "decimal n \<noteq> []"
  by (cases "n < 10") (simp_all add: decimal.simps)

lemma decimal_two: "10 \<le> n \<Longrightarrow> 1 < length (decimal n)"
proof -
  assume "10 \<le> n"
  moreover have "0 < length (decimal (n div 10))" by simp
  ultimately show ?thesis by (simp add: decimal_large del: length_greater_0_conv)
qed

lemma decimal_inj: "decimal a = decimal b \<Longrightarrow> a = b"
proof (induction a arbitrary: b rule: less_induct)
  case (less a)
  consider "a < 10" "b < 10" | "a < 10" "10 \<le> b" | "10 \<le> a" "b < 10" | "10 \<le> a" "10 \<le> b" by linarith
  then show ?case
  proof cases
    case 4
    with less.prems have "decimal (a div 10) = decimal (b div 10)" "a mod 10 = b mod 10"
      by (simp_all add: decimal_large digit_char_inj)
    with 4 less.IH [of "a div 10" "b div 10"] have "a div 10 = b div 10" by simp
    with \<open>a mod 10 = b mod 10\<close> show ?thesis by (metis div_mult_mod_eq)
  next
    case 2
    with less.prems decimal_two [of b] show ?thesis by (auto simp: decimal_small [of a] dest: arg_cong [where f = length])
  next
    case 3
    with less.prems decimal_two [of a] show ?thesis by (auto simp: decimal_small [of b] dest: arg_cong [where f = length])
  qed (use less.prems in \<open>simp add: decimal_small digit_char_inj\<close>)
qed

lemma text_value_decimal [simp]: "text_value (decimal n) = n"
proof (induction n rule: less_induct)
  case (less n)
  show ?case
  proof (cases "n < 10")
    case True
    then show ?thesis by (simp add: decimal_small text_value_def of_char_digit)
  next
    case False
    then have "text_value (decimal (n div 10)) = n div 10" by (intro less.IH) simp
    with False show ?thesis by (simp add: decimal_large text_value_def of_char_digit)
  qed
qed

lemma tens_le:
  fixes p q r s :: nat
  assumes "r < 10" "s < 10"
  shows "(if p = q then r \<le> s else p \<le> q) \<longleftrightarrow> p * 10 + r \<le> q * 10 + s"
  using assms by (cases p q rule: linorder_cases) auto

lemma decimal_text_le: "length (decimal a) = length (decimal b) \<Longrightarrow> text_le (decimal a) (decimal b) \<longleftrightarrow> a \<le> b"
proof (induction a arbitrary: b rule: less_induct)
  case (less a)
  consider "a < 10" "b < 10" | "a < 10" "10 \<le> b" | "10 \<le> a" "b < 10" | "10 \<le> a" "10 \<le> b" by linarith
  then show ?case
  proof cases
    case 1
    then show ?thesis by (auto simp: decimal_small of_char_digit digit_char_inj)
  next
    case 4
    then have len: "length (decimal (a div 10)) = length (decimal (b div 10))" using less.prems by (simp add: decimal_large)
    have eq: "decimal (a div 10) = decimal (b div 10) \<longleftrightarrow> a div 10 = b div 10" using decimal_inj by auto
    have "text_le (decimal a) (decimal b) \<longleftrightarrow> (if a div 10 = b div 10 then a mod 10 \<le> b mod 10 else a div 10 \<le> b div 10)"
      using 4 len eq less.IH [of "a div 10" "b div 10"] by (simp add: decimal_large text_le_snoc of_char_digit)
    also have "\<dots> \<longleftrightarrow> a \<le> b" using tens_le [of "a mod 10" "b mod 10" "a div 10" "b div 10"] by (simp add: div_mult_mod_eq)
    finally show ?thesis .
  next
    case 2
    with less.prems decimal_two [of b] show ?thesis by (simp add: decimal_small [of a])
  next
    case 3
    with less.prems [symmetric] decimal_two [of a] show ?thesis by (simp add: decimal_small [of b])
  qed
qed

lemma length_decimal: "10 ^ k \<le> n \<Longrightarrow> n < 10 ^ Suc k \<Longrightarrow> length (decimal n) = Suc k"
proof (induction k arbitrary: n)
  case 0
  then show ?case by (simp add: decimal_small)
next
  case (Suc k)
  from Suc.prems have "10 \<le> n" by (metis Suc_le_eq le_trans nat_1_add_1 one_le_power power_Suc mult_le_mono2 mult.right_neutral one_le_numeral)
  moreover have "10 ^ k \<le> n div 10" "n div 10 < 10 ^ Suc k"
    using Suc.prems by (simp_all add: less_eq_div_iff_mult_less_eq div_less_iff_less_mult mult.commute)
  ultimately show ?case using Suc.IH [of "n div 10"] by (simp add: decimal_large)
qed

text \<open>Timestamps of 13 digits, in milliseconds, are those from September 2001 to November 2286.\<close>

definition ms_stamp :: "nat \<Rightarrow> bool" where "ms_stamp n \<longleftrightarrow> 10 ^ 12 \<le> n \<and> n < 10 ^ 13"

lemma ms_stamp_text_le: "ms_stamp a \<Longrightarrow> ms_stamp b \<Longrightarrow> text_le (decimal a) (decimal b) \<longleftrightarrow> a \<le> b"
  unfolding ms_stamp_def by (rule decimal_text_le) (simp add: length_decimal [of 12])

lemma ms_stamp_text_less: "ms_stamp a \<Longrightarrow> ms_stamp b \<Longrightarrow> text_less (decimal a) (decimal b) \<longleftrightarrow> a < b"
  by (simp add: text_less_def ms_stamp_text_le not_le)

text \<open>The text of zero comes before that of every other number.\<close>

lemma decimal_0: "decimal 0 = ''0''"
  by (simp add: decimal_small digit_char_def char_of_def bit_iff_odd)

lemma decimal_head: "0 < n \<Longrightarrow> \<exists>d s. 0 < d \<and> d < 10 \<and> decimal n = digit_char d # s"
proof (induction n rule: less_induct)
  case (less n)
  show ?case
  proof (cases "n < 10")
    case True
    with less.prems show ?thesis by (auto simp: decimal_small)
  next
    case False
    then have "n div 10 < n" "0 < n div 10" by simp_all
    from less.IH [OF this] obtain d s where "0 < d" "d < 10" "decimal (n div 10) = digit_char d # s" by blast
    with False show ?thesis by (auto simp: decimal_large)
  qed
qed

lemma zero_text_less: "0 < n \<Longrightarrow> text_less (decimal 0) (decimal n)"
proof -
  assume "0 < n"
  then obtain d s where d: "0 < d" "d < 10" "decimal n = digit_char d # s" using decimal_head by blast
  then have "digit_char d \<noteq> digit_char 0" by (simp add: digit_char_inj)
  then show ?thesis using d by (simp add: text_less_def decimal_small of_char_digit)
qed

lemma text_max_Max: "\<forall>n\<in>set ns. ms_stamp n \<Longrightarrow> ns \<noteq> [] \<Longrightarrow> text_max ns = Max (set ns)"
proof (induction ns)
  case (Cons n ns)
  show ?case
  proof (cases "ns = []")
    case True
    have "0 < n" using Cons.prems by (simp add: ms_stamp_def)
    then have "\<not> text_le (decimal n) (decimal 0)" using zero_text_less [of n] by (simp add: text_less_def)
    with True show ?thesis by simp
  next
    case False
    with Cons have m: "text_max ns = Max (set ns)" by simp
    have "Max (set ns) \<in> set ns" using False by simp
    then have "ms_stamp (Max (set ns))" using Cons.prems by simp
    then show ?thesis using m Cons.prems False by (simp add: ms_stamp_text_le max_def)
  qed
qed simp

end
