(* ===== verification/Huobi.thy ===== *)
theory Huobi
  imports GoFloat Tables TextNumbers "HOL-Library.AList"
begin

text \<open>
  The client of the Huobi exchange, \<open>lib/huobi/huobi_client.go\<close> with the types of \<open>lib/huobi/types.go\<close>, and what the
  two fetchers of \<open>accounting/huobi/fetcher/\<close> share.

  What lies outside is a record \<open>huobi_net\<close> of parameters: the rate limiter, the clock, the transport (call \<open>i\<close> may
  answer differently from call \<open>i + 1\<close>), the signature and the encodings of the standard library.
\<close>

section \<open>Data\<close>

record HuobiAccount =
  ha_ID :: int
  ha_Type :: string
  ha_State :: string
  ha_UserID :: string

record HuobiTrade =
  ht_ID :: int
  ht_Symbol :: string
  ht_AccountID :: int
  ht_Amount :: string
  ht_Price :: string
  ht_CreatedAt :: nat
  ht_Type :: string
  ht_FieldAmount :: string
  ht_FieldCashAmount :: string
  ht_FieldFees :: string
  ht_FinishedAt :: nat
  ht_UserID :: int
  ht_Source :: string
  ht_State :: string
  ht_CanceledAt :: nat
  ht_Exchange :: string
  ht_Batch :: string

record HuobiWithdraw =
  hw_ID :: nat
  hw_Type :: string
  hw_Currency :: string
  hw_TxHash :: string
  hw_Amount :: f64
  hw_Address :: string
  hw_AddressTag :: string
  hw_Fee :: f64
  hw_State :: string
  hw_CreatedAt :: nat
  hw_UpdatedAt :: nat

record HuobiSymbol =
  hs_Base :: string
  hs_Quote :: string
  hs_PricePrecision :: int
  hs_AmountPrecision :: int
  hs_SymBolPartition :: string
  hs_SymBol :: string

record CommonResponse =
  cr_Status :: string
  cr_ErrorCode :: string
  cr_ErrorMessage :: string

type_synonym 'd reply = "'d list \<times> CommonResponse"

text \<open>What decoding an empty body leaves.\<close>

definition no_response :: CommonResponse where
  "no_response = \<lparr> cr_Status = [], cr_ErrorCode = [], cr_ErrorMessage = [] \<rparr>"

record ExtrasTradeHistoryParams =
  ex_From :: string
  ex_Size :: string
  ex_Direct :: string

definition no_extras :: ExtrasTradeHistoryParams where "no_extras = \<lparr> ex_From = [], ex_Size = [], ex_Direct = [] \<rparr>"

section \<open>Requests\<close>

type_synonym params = "string \<Rightarrow> string option"

record huobi_net =
  hn_wait :: "nat \<Rightarrow> go_err option"
  hn_now :: "nat \<Rightarrow> string"
  hn_send :: "nat \<Rightarrow> string \<Rightarrow> params \<Rightarrow> (nat \<times> string) go"
  hn_sign :: "string \<Rightarrow> string \<Rightarrow> string"
  hn_Encode :: "params \<Rightarrow> string"
  hn_accounts :: "string \<Rightarrow> HuobiAccount reply \<times> go_err option"
  hn_orders :: "string \<Rightarrow> HuobiTrade reply \<times> go_err option"
  hn_withdraws :: "string \<Rightarrow> HuobiWithdraw reply \<times> go_err option"
  hn_symbols :: "string \<Rightarrow> HuobiSymbol reply \<times> go_err option"
  hn_currencies :: "string \<Rightarrow> string reply \<times> go_err option"

record huobi_keys =
  hk_APIKey :: string
  hk_SecretKey :: string

definition huobi_host :: string where "huobi_host = ''api.huobi.pro''"

text \<open>The texts of the request line, one per line.\<close>

definition sign_payload :: "huobi_net \<Rightarrow> string \<Rightarrow> params \<Rightarrow> string" where
  "sign_payload N path q = ''GET'' @ [CHR 0x0A] @ huobi_host @ [CHR 0x0A] @ path @ [CHR 0x0A] @ hn_Encode N q"

definition fillRequest :: "huobi_net \<Rightarrow> huobi_keys \<Rightarrow> string \<Rightarrow> bool \<Rightarrow> params \<Rightarrow> params" where
  "fillRequest N K path signNeeded q =
     (if signNeeded then q(''Signature'' \<mapsto> hn_sign N (hk_SecretKey K) (sign_payload N path q)) else q)"

definition sign_params :: "huobi_net \<Rightarrow> huobi_keys \<Rightarrow> nat \<Rightarrow> bool \<Rightarrow> params \<Rightarrow> params" where
  "sign_params N K i signNeeded ps =
     (if signNeeded then ps(''SignatureMethod'' \<mapsto> ''HmacSHA256'', ''SignatureVersion'' \<mapsto> ''2'',
        ''AccessKeyId'' \<mapsto> hk_APIKey K, ''Timestamp'' \<mapsto> hn_now N i) else ps)"

text \<open>The body of a response with another code than these stays nil, without an error.\<close>

definition response_body :: "nat \<times> string \<Rightarrow> string go" where
  "response_body r =
     (case r of (code, body) \<Rightarrow>
        if code = 404 then Inl (Err ''api not found'')
        else if code = 429 then Inl (Err ''breaking Huobi request rate limit'')
        else if code = 500 then Inl (Err ''500 from Huobi, its fault'')
        else if code = 200 then Inr body
        else Inr [])"

definition sendRequest :: "huobi_net \<Rightarrow> huobi_keys \<Rightarrow> nat \<Rightarrow> string \<Rightarrow> params \<Rightarrow> bool \<Rightarrow> string go" where
  "sendRequest N K i path ps signNeeded =
     (case hn_wait N i of
        Some e \<Rightarrow> Inl e
      | None \<Rightarrow> go_bind (hn_send N i path (fillRequest N K path signNeeded (sign_params N K i signNeeded ps))) response_body)"

definition unexpected_status :: "CommonResponse \<Rightarrow> go_err" where
  "unexpected_status r = Err (''received unexpect status: err='' @ cr_Status r @ '' code='' @ cr_ErrorCode r @
     '' msg='' @ cr_ErrorMessage r)"

text \<open>The answer of a request: the error of the decoding, then the status.\<close>

definition checked_reply :: "'d reply \<times> go_err option \<Rightarrow> 'd list go" where
  "checked_reply r =
     (case r of
        (_, Some e) \<Rightarrow> Inl e
      | ((d, c), None) \<Rightarrow> if cr_Status c \<noteq> ''ok'' then Inl (unexpected_status c) else Inr d)"

text \<open>\<open>GetAccounts\<close> looks at the status first.\<close>

definition GetAccounts :: "huobi_net \<Rightarrow> huobi_keys \<Rightarrow> nat \<Rightarrow> HuobiAccount list go" where
  "GetAccounts N K i =
     go_bind (sendRequest N K i ''/v1/account/accounts'' Map.empty True) (\<lambda>body.
       (case hn_accounts N body of ((d, c), e) \<Rightarrow>
          if cr_Status c \<noteq> ''ok'' then Inl (unexpected_status c)
          else (case e of Some e \<Rightarrow> Inl e | None \<Rightarrow> Inr d)))"

text \<open>The extra parameters are not sent.\<close>

definition order_params :: "string \<Rightarrow> gotime \<Rightarrow> gotime \<Rightarrow> params" where
  "order_params symbol startDate endDate =
     [''states'' \<mapsto> ''filled'', ''symbol'' \<mapsto> lower symbol,
      ''start-time'' \<mapsto> decimal (TimeToTimestampMs startDate), ''end-time'' \<mapsto> decimal (TimeToTimestampMs endDate)]"

definition client_GetTradeHistory :: "huobi_net \<Rightarrow> huobi_keys \<Rightarrow> string \<Rightarrow> gotime \<Rightarrow> gotime \<Rightarrow> ExtrasTradeHistoryParams
    \<Rightarrow> nat \<Rightarrow> HuobiTrade list go" where
  "client_GetTradeHistory N K symbol startDate endDate extras i =
     go_bind (sendRequest N K i ''/v1/order/orders'' (order_params symbol startDate endDate) True)
       (\<lambda>body. checked_reply (hn_orders N body))"

definition withdraw_params :: "string \<Rightarrow> nat \<Rightarrow> params" where
  "withdraw_params currency fromID =
     [''type'' \<mapsto> ''withdraw'', ''size'' \<mapsto> ''20'', ''from'' \<mapsto> decimal fromID, ''currency'' \<mapsto> lower currency]"

definition client_GetWithdrawHistory :: "huobi_net \<Rightarrow> huobi_keys \<Rightarrow> string \<Rightarrow> nat \<Rightarrow> nat \<Rightarrow> HuobiWithdraw list go" where
  "client_GetWithdrawHistory N K currency fromID i =
     go_bind (sendRequest N K i ''/v1/query/deposit-withdraw'' (withdraw_params currency fromID) True)
       (\<lambda>body. checked_reply (hn_withdraws N body))"

definition unexpected_reply :: "CommonResponse \<Rightarrow> go_err" where
  "unexpected_reply c = Err (''unexpected reply status '' @ cr_Status c)"

definition public_reply :: "'d reply \<times> go_err option \<Rightarrow> 'd list go" where
  "public_reply r =
     (case r of
        (_, Some e) \<Rightarrow> Inl e
      | ((d, c), None) \<Rightarrow> if cr_Status c \<noteq> ''ok'' then Inl (unexpected_reply c) else Inr d)"

definition GetSymbolsPair :: "huobi_net \<Rightarrow> huobi_keys \<Rightarrow> nat \<Rightarrow> HuobiSymbol list go" where
  "GetSymbolsPair N K i =
     go_bind (sendRequest N K i ''/v1/common/symbols'' Map.empty False) (\<lambda>body. public_reply (hn_symbols N body))"

definition GetCurrencies :: "huobi_net \<Rightarrow> huobi_keys \<Rightarrow> nat \<Rightarrow> string list go" where
  "GetCurrencies N K i =
     go_bind (sendRequest N K i ''/v1/common/currencys'' Map.empty False) (\<lambda>body. public_reply (hn_currencies N body))"

text \<open>\<open>NewClient\<close> with the options of the fetchers: with the validation, the accounts are asked for.\<close>

definition validation_error :: "go_err \<Rightarrow> go_err" where
  "validation_error = errors_Wrap ''failed to validate Huobi API key by calling GetAccountInfo API''"

definition NewClient :: "huobi_net \<Rightarrow> huobi_keys \<Rightarrow> bool \<Rightarrow> nat \<Rightarrow> huobi_keys go" where
  "NewClient N K validate i =
     (if validate then (case GetAccounts N K i of Inl e \<Rightarrow> Inl (validation_error e) | Inr _ \<Rightarrow> Inr K) else Inr K)"

section \<open>Retries and goroutines\<close>

text \<open>The loop over the attempts; without any, the value is empty and there is no error.\<close>

definition huobi_retry :: "(nat \<Rightarrow> 'd list go) \<Rightarrow> nat \<Rightarrow> 'd list go" where
  "huobi_retry fn attempts =
     (case retry_from (\<lambda>i. case fn i of Inl e \<Rightarrow> ([], Some e) | Inr d \<Rightarrow> (d, None)) 0 attempts ([], None) of
        (d, Some e) \<Rightarrow> Inl e
      | (d, None) \<Rightarrow> Inr d)"

lemma huobi_retry_Inr: "0 < attempts \<Longrightarrow> huobi_retry fn attempts = Inr d \<Longrightarrow> \<exists>i. fn i = Inr d"
proof -
  assume "0 < attempts" and *: "huobi_retry fn attempts = Inr d"
  then obtain k where k: "attempts = Suc k" using gr0_conv_Suc by blast
  let ?f = "\<lambda>i. case fn i of Inl e \<Rightarrow> ([], Some e) | Inr d \<Rightarrow> (d, None)"
  from * have "retry_from ?f 0 attempts ([], None) = (d, None)"
    unfolding huobi_retry_def by (auto split: prod.splits option.splits)
  then have "(d, None) \<in> range ?f"
    unfolding k by (cases "fn 0") (auto dest: retry_from_outcome intro: range_eqI [where x = 0])
  then show ?thesis by (auto split: sum.splits)
qed

text \<open>
  One goroutine for each name, listed in the order in which they end; a name with results is stored in the map. \<open>None\<close>
  is a goroutine that never ends, for which \<open>Wait\<close> waits for ever.
\<close>

fun gather_names :: "(string \<Rightarrow> ('d list \<times> go_err option) option) \<Rightarrow> string list \<Rightarrow> (string \<times> 'd list) list
    \<Rightarrow> ((string \<times> 'd list) list \<times> go_err option) option" where
  "gather_names go [] m = Some (m, None)"
| "gather_names go (s # ss) m =
     Option.bind (go s) (\<lambda>(r, e).
     Option.bind (gather_names go ss (if e = None \<and> r \<noteq> [] then AList.update s r m else m)) (\<lambda>(m, e').
       Some (m, if e = None then e' else e)))"

lemma gather_names_total:
  assumes "\<forall>s. go s \<noteq> None"
  shows "\<exists>m' e. gather_names go ss m = Some (m', e)"
proof (induction ss arbitrary: m)
  case (Cons s ss)
  obtain r e where r: "go s = Some (r, e)" using assms by (metis not_None_eq surj_pair)
  from Cons [of "if e = None \<and> r \<noteq> [] then AList.update s r m else m"] r show ?case by (auto split: option.splits)
qed simp

lemma gather_names_spec:
  assumes "gather_names go ss m = Some (m', None)"
  shows "(\<forall>s\<in>set ss. \<exists>r. go s = Some (r, None) \<and> (r \<noteq> [] \<longrightarrow> map_of m' s = Some r) \<and> (r = [] \<longrightarrow> map_of m' s = map_of m s)) \<and>
    (\<forall>s. s \<notin> set ss \<longrightarrow> map_of m' s = map_of m s) \<and> (distinct (map fst m) \<longrightarrow> distinct (map fst m'))"
  using assms
proof (induction ss arbitrary: m)
  case (Cons s ss)
  obtain r e where r: "go s = Some (r, e)" using Cons.prems by (cases "go s") auto
  let ?m = "if e = None \<and> r \<noteq> [] then AList.update s r m else m"
  from Cons.prems r have e: "e = None" and rest: "gather_names go ss ?m = Some (m', None)"
    by (auto simp: bind_eq_Some_conv split: if_splits)
  from Cons.IH [OF rest] have ih: "\<forall>s\<in>set ss. \<exists>r. go s = Some (r, None) \<and> (r \<noteq> [] \<longrightarrow> map_of m' s = Some r) \<and>
      (r = [] \<longrightarrow> map_of m' s = map_of ?m s)" "\<forall>s. s \<notin> set ss \<longrightarrow> map_of m' s = map_of ?m s"
    "distinct (map fst ?m) \<longrightarrow> distinct (map fst m')" by blast+
  have m: "map_of ?m s' = (if s' = s \<and> r \<noteq> [] then Some r else map_of m s')" for s'
    using e by (auto simp: AList.update_conv')
  have d: "distinct (map fst m) \<Longrightarrow> distinct (map fst ?m)" by (simp add: AList.distinct_update)
  show ?case
  proof (intro conjI ballI allI impI)
    fix s' assume "s' \<in> set (s # ss)"
    then show "\<exists>r. go s' = Some (r, None) \<and> (r \<noteq> [] \<longrightarrow> map_of m' s' = Some r) \<and> (r = [] \<longrightarrow> map_of m' s' = map_of m s')"
      using ih(1,2) r e m by (cases "s' \<in> set ss") (auto, metis option.inject prod.inject)
  qed (use ih(2,3) m d in auto)
qed simp

lemma gather_names_source:
  assumes "gather_names go ss m = Some (m', None)" "(s, r) \<in> set m'" "m = []"
  shows "s \<in> set ss \<and> go s = Some (r, None)"
proof -
  have "distinct (map fst m')" using gather_names_spec [OF assms(1)] assms(3) by simp
  with assms(2) have s: "map_of m' s = Some r" by simp
  then have "s \<in> set ss" using gather_names_spec [OF assms(1)] assms(3) by (cases "s \<in> set ss") auto
  with s gather_names_spec [OF assms(1)] assms(3) show ?thesis by (metis map_of.simps(1) option.distinct(1) option.inject)
qed

end
