(* ===== verification/HuobiTrades.thy ===== *)
theory HuobiTrades
  imports Huobi "HOL-Library.Multiset"
begin

text \<open>
  The trades of the accounts on Huobi: the requests of \<open>accounting/huobi/fetcher/trade-history.go\<close>, the table of
  \<open>accounting/huobi/storage/postgres/postgres.go\<close>, and the run of \<open>accounting/cmd/accounting-huobi-trade-fetcher/main.go\<close>.

  A loop may run for ever; not returning is \<open>None\<close>. The rows of the table carry the trade; in its JSON the fields
  marked \<open>omitempty\<close> are left out when they are zero, so reading a row into a variable leaves these fields of it
  as they are.
\<close>

section \<open>Requests\<close>

type_synonym trade_get = "string \<Rightarrow> gotime \<Rightarrow> gotime \<Rightarrow> ExtrasTradeHistoryParams \<Rightarrow> nat \<Rightarrow> HuobiTrade list go"

definition huobi_trades_retry :: "trade_get \<Rightarrow> nat \<Rightarrow> string \<Rightarrow> gotime \<Rightarrow> gotime \<Rightarrow> ExtrasTradeHistoryParams \<Rightarrow> HuobiTrade list go" where
  "huobi_trades_retry get attempts symbol startTime endTime extras = huobi_retry (get symbol startTime endTime extras) attempts"

text \<open>\<open>lastID\<close> is the text of a number, or empty at the start: texts are equal when the numbers are.\<close>

definition page_extras :: "int option \<Rightarrow> ExtrasTradeHistoryParams" where
  "page_extras lastID =
     (case lastID of
        Some i \<Rightarrow> \<lparr> ex_From = (if i < 0 then ''-'' else []) @ decimal (nat \<bar>i\<bar>), ex_Size = [], ex_Direct = ''prev'' \<rparr>
      | None \<Rightarrow> no_extras)"

partial_function (option) symbol_pages ::
  "(gotime \<Rightarrow> ExtrasTradeHistoryParams \<Rightarrow> HuobiTrade list go) \<Rightarrow> gotime \<Rightarrow> gotime \<Rightarrow> int option \<Rightarrow> HuobiTrade list
    \<Rightarrow> (HuobiTrade list \<times> go_err option) option" where
  "symbol_pages get endTime startTime lastID result =
     (case get startTime (page_extras lastID) of
        Inl e \<Rightarrow> Some (result, Some e)
      | Inr page \<Rightarrow>
          if page = [] then Some (result, None)
          else let lastTrade = hd page in
            if lastID = Some (ht_ID lastTrade) then Some (result, None)
            else let startTime = TimestampMsToTime (ht_CreatedAt lastTrade) in
              if endTime > startTime then symbol_pages get endTime startTime (Some (ht_ID lastTrade)) (result @ page)
              else Some (result @ page, None))"

definition getTradeHistoryWithSymbol :: "trade_get \<Rightarrow> nat \<Rightarrow> gotime \<Rightarrow> gotime \<Rightarrow> string \<Rightarrow> (HuobiTrade list \<times> go_err option) option" where
  "getTradeHistoryWithSymbol get attempts fromTime toTime symbol =
     symbol_pages (\<lambda>start. huobi_trades_retry get attempts symbol start toTime) toTime fromTime None []"

text \<open>\<open>order\<close> lists the pairs in the order in which their goroutines end.\<close>

definition huobi_GetTradeHistory :: "trade_get \<Rightarrow> nat \<Rightarrow> HuobiSymbol list go \<Rightarrow> (string list \<Rightarrow> string list) \<Rightarrow> gotime \<Rightarrow> gotime
    \<Rightarrow> ((string \<times> HuobiTrade list) list \<times> go_err option) option" where
  "huobi_GetTradeHistory get attempts pairs order fromTime toTime =
     (case pairs of
        Inl e \<Rightarrow> Some ([], Some e)
      | Inr symbols \<Rightarrow>
          Option.bind (gather_names (getTradeHistoryWithSymbol get attempts fromTime toTime) (order (map hs_SymBol symbols)) [])
            (\<lambda>(m, e). Some (case e of None \<Rightarrow> (m, None) | Some e \<Rightarrow> ([], Some e))))"

section \<open>The trades of a batch\<close>

text \<open>\<open>strconv.ParseFloat\<close>, and \<open>FormatFloat\<close> with the shortest text.\<close>

record float_text =
  ft_Parse :: "string \<Rightarrow> f64 go"
  ft_Format :: "f64 \<Rightarrow> string"

definition add_texts :: "float_text \<Rightarrow> string \<Rightarrow> string \<Rightarrow> string go" where
  "add_texts T a b = go_bind (ft_Parse T a) (\<lambda>x. go_bind (ft_Parse T b) (\<lambda>y. Inr (ft_Format T (float64 (x + y)))))"

definition updateTradeRecord :: "float_text \<Rightarrow> (int \<times> HuobiTrade) list \<Rightarrow> HuobiTrade \<Rightarrow> (int \<times> HuobiTrade) list go" where
  "updateTradeRecord T trades trade =
     (case map_of trades (ht_ID trade) of
        None \<Rightarrow> Inr (AList.update (ht_ID trade) trade trades)
      | Some old \<Rightarrow>
          if ht_State trade = ''partial-filled'' \<or> (ht_State trade = ''filled'' \<and> ht_State old \<noteq> ''filled'') then
            go_bind (add_texts T (ht_Amount old) (ht_FieldAmount trade)) (\<lambda>amount.
            go_bind (add_texts T (ht_FieldFees old) (ht_FieldFees trade)) (\<lambda>fee.
              Inr (AList.update (ht_ID trade) (old\<lparr> ht_Amount := amount, ht_FieldFees := fee, ht_State := ht_State trade \<rparr>) trades)))
          else Inr trades)"

fun batch_trades :: "float_text \<Rightarrow> HuobiTrade list \<Rightarrow> (int \<times> HuobiTrade) list \<Rightarrow> (int \<times> HuobiTrade) list go" where
  "batch_trades T [] trades = Inr trades"
| "batch_trades T (t # ts) trades = go_bind (updateTradeRecord T trades t) (batch_trades T ts)"

section \<open>Storage\<close>

record huobi_row =
  hr_id :: int
  hr_data :: HuobiTrade
  hr_created :: gotime
  hr_account :: string

definition huobi_row_of :: "string \<Rightarrow> HuobiTrade \<Rightarrow> huobi_row" where
  "huobi_row_of account t = \<lparr> hr_id = ht_ID t, hr_data = t, hr_created = TimestampMsToTime (ht_CreatedAt t), hr_account = account \<rparr>"

text \<open>\<open>ON CONFLICT ON CONSTRAINT huobi_trades_pk DO UPDATE SET created = EXCLUDED.created\<close>.\<close>

fun upsert_huobi :: "huobi_row \<Rightarrow> huobi_row list \<Rightarrow> huobi_row list" where
  "upsert_huobi r [] = [r]"
| "upsert_huobi r (x # xs) = (if hr_id x = hr_id r then x\<lparr> hr_created := hr_created r \<rparr> # xs else x # upsert_huobi r xs)"

text \<open>\<open>ord\<close> is the order in which the map is read. Its keys are the ids, so that no row is affected twice.\<close>

definition huobi_UpdateTradeHistory :: "tx_errors \<Rightarrow> ((int \<times> HuobiTrade) list \<Rightarrow> (int \<times> HuobiTrade) list) \<Rightarrow> (int \<times> HuobiTrade) list
    \<Rightarrow> string \<Rightarrow> huobi_row list \<Rightarrow> huobi_row list \<times> go_err option" where
  "huobi_UpdateTradeHistory E ord trades account rows =
     in_transaction E (\<lambda>stmt rows.
       (case stmt 0 of
          Some e \<Rightarrow> Inl e
        | None \<Rightarrow> Inr (fold (\<lambda>t. upsert_huobi (huobi_row_of account t)) (map snd (ord trades)) rows))) rows"

text \<open>\<open>data->>'created-at'\<close>; a time of zero is not in the JSON.\<close>

definition created_text :: "huobi_row \<Rightarrow> string option" where
  "created_text r = (if ht_CreatedAt (hr_data r) = 0 then None else Some (decimal (ht_CreatedAt (hr_data r))))"

text \<open>\<open>json.Unmarshal(data, &tmp)\<close>: the fields that the JSON has.\<close>

definition unmarshal_trade :: "HuobiTrade \<Rightarrow> HuobiTrade \<Rightarrow> HuobiTrade" where
  "unmarshal_trade tmp t = \<lparr>
     ht_ID = (if ht_ID t = 0 then ht_ID tmp else ht_ID t),
     ht_Symbol = (if ht_Symbol t = [] then ht_Symbol tmp else ht_Symbol t),
     ht_AccountID = (if ht_AccountID t = 0 then ht_AccountID tmp else ht_AccountID t),
     ht_Amount = (if ht_Amount t = [] then ht_Amount tmp else ht_Amount t),
     ht_Price = (if ht_Price t = [] then ht_Price tmp else ht_Price t),
     ht_CreatedAt = (if ht_CreatedAt t = 0 then ht_CreatedAt tmp else ht_CreatedAt t),
     ht_Type = (if ht_Type t = [] then ht_Type tmp else ht_Type t),
     ht_FieldAmount = (if ht_FieldAmount t = [] then ht_FieldAmount tmp else ht_FieldAmount t),
     ht_FieldCashAmount = (if ht_FieldCashAmount t = [] then ht_FieldCashAmount tmp else ht_FieldCashAmount t),
     ht_FieldFees = (if ht_FieldFees t = [] then ht_FieldFees tmp else ht_FieldFees t),
     ht_FinishedAt = (if ht_FinishedAt t = 0 then ht_FinishedAt tmp else ht_FinishedAt t),
     ht_UserID = (if ht_UserID t = 0 then ht_UserID tmp else ht_UserID t),
     ht_Source = (if ht_Source t = [] then ht_Source tmp else ht_Source t),
     ht_State = (if ht_State t = [] then ht_State tmp else ht_State t),
     ht_CanceledAt = ht_CanceledAt t,
     ht_Exchange = (if ht_Exchange t = [] then ht_Exchange tmp else ht_Exchange t),
     ht_Batch = (if ht_Batch t = [] then ht_Batch tmp else ht_Batch t) \<rparr>"

definition zero_trade :: HuobiTrade where
  "zero_trade = \<lparr> ht_ID = 0, ht_Symbol = [], ht_AccountID = 0, ht_Amount = [], ht_Price = [], ht_CreatedAt = 0, ht_Type = [],
     ht_FieldAmount = [], ht_FieldCashAmount = [], ht_FieldFees = [], ht_FinishedAt = 0, ht_UserID = 0, ht_Source = [],
     ht_State = [], ht_CanceledAt = 0, ht_Exchange = [], ht_Batch = [] \<rparr>"

text \<open>One variable is read into for all rows of all accounts.\<close>

fun unmarshal_rows :: "HuobiTrade \<Rightarrow> HuobiTrade list \<Rightarrow> HuobiTrade list" where
  "unmarshal_rows tmp [] = []"
| "unmarshal_rows tmp (t # ts) = unmarshal_trade tmp t # unmarshal_rows (unmarshal_trade tmp t) ts"

fun unmarshal_groups :: "HuobiTrade \<Rightarrow> (string \<times> HuobiTrade list) list \<Rightarrow> (string \<times> HuobiTrade list) list" where
  "unmarshal_groups tmp [] = []"
| "unmarshal_groups tmp ((account, ts) # gs) =
     (let us = unmarshal_rows tmp ts in (account, us) # unmarshal_groups (last (tmp # us)) gs)"

text \<open>The rows that the query selects; \<open>grp\<close> is how the server orders the accounts and the rows of each.\<close>

definition in_text_range :: "gotime \<Rightarrow> gotime \<Rightarrow> huobi_row \<Rightarrow> bool" where
  "in_text_range fromTime toTime r \<longleftrightarrow>
     (case created_text r of
        None \<Rightarrow> False
      | Some c \<Rightarrow> text_le (decimal (TimeToTimestampMs fromTime)) c \<and> text_less c (decimal (TimeToTimestampMs toTime)))"

definition load_trades :: "go_err option \<Rightarrow> (huobi_row list \<Rightarrow> (string \<times> HuobiTrade list) list) \<Rightarrow> gotime \<Rightarrow> gotime
    \<Rightarrow> huobi_row list \<Rightarrow> (string \<times> HuobiTrade list) list go" where
  "load_trades sel grp fromTime toTime rows =
     (case sel of
        Some e \<Rightarrow> Inl e
      | None \<Rightarrow> Inr (unmarshal_groups zero_trade (grp (filter (in_text_range fromTime toTime) rows))))"

definition account_times :: "string \<Rightarrow> huobi_row list \<Rightarrow> nat list" where
  "account_times account rows = map (\<lambda>r. ht_CreatedAt (hr_data r)) (filter (\<lambda>r. hr_account r = account) rows)"

definition huobi_GetLastStoredTimestamp :: "go_err option \<Rightarrow> gotime \<Rightarrow> string \<Rightarrow> huobi_row list \<Rightarrow> gotime go" where
  "huobi_GetLastStoredTimestamp get now account rows =
     (case get of
        Some e \<Rightarrow> Inl e
      | None \<Rightarrow>
          let dbResult = text_max (account_times account rows)
          in Inr (if dbResult \<noteq> 0 then TimestampMsToTime dbResult else now - Hour * 24 * 90))"

section \<open>The run\<close>

text \<open>
  The parameters of the run for one account: the fetch of a window, the order in which the map of its results is read,
  and the storing of the trades at the end of the window.
\<close>

partial_function (option) huobi_batches ::
  "(gotime \<Rightarrow> gotime \<Rightarrow> ((string \<times> HuobiTrade list) list \<times> go_err option) option)
    \<Rightarrow> ((string \<times> HuobiTrade list) list \<Rightarrow> (string \<times> HuobiTrade list) list) \<Rightarrow> float_text
    \<Rightarrow> (gotime \<Rightarrow> (int \<times> HuobiTrade) list \<Rightarrow> huobi_row list \<Rightarrow> huobi_row list \<times> go_err option)
    \<Rightarrow> duration \<Rightarrow> gotime \<Rightarrow> gotime \<Rightarrow> huobi_row list \<Rightarrow> (huobi_row list \<times> go_err option) option" where
  "huobi_batches fetch ord T store batchDuration toTime startTime rows =
     (let stop = (if toTime < startTime + batchDuration then toTime else startTime + batchDuration) in
      Option.bind (fetch startTime stop) (\<lambda>(data, e).
        (case e of
           Some e \<Rightarrow> Some (rows, Some e)
         | None \<Rightarrow>
             (case batch_trades T (concat (map snd (ord data))) [] of
                Inl e \<Rightarrow> Some (rows, Some e)
              | Inr trades \<Rightarrow>
                  (case store stop trades rows of
                     (rows, Some e) \<Rightarrow> Some (rows, Some e)
                   | (rows, None) \<Rightarrow>
                       if stop < toTime then huobi_batches fetch ord T store batchDuration toTime stop rows
                       else Some (rows, None))))))"

record run_env =
  ru_get :: trade_get
  ru_attempts :: nat
  ru_symbols :: "HuobiSymbol list go"
  ru_order :: "string list \<Rightarrow> string list"
  ru_ord :: "(string \<times> HuobiTrade list) list \<Rightarrow> (string \<times> HuobiTrade list) list"
  ru_text :: float_text
  ru_errors :: "gotime \<Rightarrow> tx_errors"
  ru_rows :: "(int \<times> HuobiTrade) list \<Rightarrow> (int \<times> HuobiTrade) list"
  ru_last :: "go_err option"
  ru_now :: gotime

definition fetch_huobi_account :: "run_env \<Rightarrow> duration \<Rightarrow> gotime \<Rightarrow> gotime \<Rightarrow> string \<Rightarrow> huobi_row list
    \<Rightarrow> (huobi_row list \<times> go_err option) option" where
  "fetch_huobi_account R batchDuration fromTime toTime account rows =
     (case (if fromTime = zero_time then huobi_GetLastStoredTimestamp (ru_last R) (ru_now R) account rows else Inr fromTime) of
        Inl e \<Rightarrow> Some (rows, Some e)
      | Inr startTime \<Rightarrow>
          huobi_batches (huobi_GetTradeHistory (ru_get R) (ru_attempts R) (ru_symbols R) (ru_order R)) (ru_ord R) (ru_text R)
            (\<lambda>stop trades. huobi_UpdateTradeHistory (ru_errors R stop) (ru_rows R) trades account) batchDuration toTime startTime rows)"

text \<open>The accounts of the configuration, each with its client.\<close>

fun fetch_huobi_accounts :: "(string \<Rightarrow> run_env) \<Rightarrow> duration \<Rightarrow> gotime \<Rightarrow> gotime \<Rightarrow> string list \<Rightarrow> huobi_row list
    \<Rightarrow> (huobi_row list \<times> go_err option) option" where
  "fetch_huobi_accounts env batchDuration fromTime toTime [] rows = Some (rows, None)"
| "fetch_huobi_accounts env batchDuration fromTime toTime (a # as) rows =
     Option.bind (fetch_huobi_account (env a) batchDuration fromTime toTime a rows) (\<lambda>(rows, e).
       if e \<noteq> None then Some (rows, e) else fetch_huobi_accounts env batchDuration fromTime toTime as rows)"


section \<open>The exchange\<close>

text \<open>
  \<open>H s\<close> are the filled orders of the account for a pair, newest first: their ids are unique, and their times have 13
  digits and are in the range of \<open>time.Unix\<close>.
\<close>

definition orders_history_ok :: "(string \<Rightarrow> HuobiTrade list) \<Rightarrow> bool" where
  "orders_history_ok H \<longleftrightarrow>
     (\<forall>s. sorted_wrt (\<lambda>t u. ht_CreatedAt u \<le> ht_CreatedAt t) (H s)) \<and> inj_on ht_ID (\<Union>s. set (H s)) \<and>
     (\<forall>s. \<forall>t\<in>set (H s). ht_State t = ''filled'' \<and> ms_stamp (ht_CreatedAt t) \<and> ht_CreatedAt t \<le> 9223372036854)"

definition in_window :: "nat \<Rightarrow> nat \<Rightarrow> HuobiTrade \<Rightarrow> bool" where
  "in_window a b t \<longleftrightarrow> a \<le> ht_CreatedAt t \<and> ht_CreatedAt t \<le> b"

text \<open>
  What Huobi documents for \<open>/v1/order/orders\<close>: the newest orders of the window, newest first, at most \<open>limit\<close> of them.
  An answer that is not a JSON text is an error of the decoding.
\<close>

definition orders_ok :: "(string \<Rightarrow> HuobiTrade list) \<Rightarrow> nat \<Rightarrow> huobi_net \<Rightarrow> bool" where
  "orders_ok H limit N \<longleftrightarrow> snd (hn_orders N []) \<noteq> None \<and>
     (\<forall>i ps s a b body d c. ps ''symbol'' = Some s \<and> ps ''start-time'' = Some (decimal a) \<and> ps ''end-time'' = Some (decimal b) \<and>
        ps ''states'' = Some ''filled'' \<and> hn_send N i ''/v1/order/orders'' ps = Inr (200, body) \<and>
        hn_orders N body = ((d, c), None) \<and> cr_Status c = ''ok'' \<longrightarrow> d = take limit (filter (in_window a b) (H s)))"

definition trade_get_ok :: "(string \<Rightarrow> HuobiTrade list) \<Rightarrow> nat \<Rightarrow> trade_get \<Rightarrow> bool" where
  "trade_get_ok H limit get \<longleftrightarrow> (\<forall>s a b extras i page. get s a b extras i = Inr page \<longrightarrow>
     page = take limit (filter (in_window (TimeToTimestampMs a) (TimeToTimestampMs b)) (H (lower s))))"

lemma client_trades_ok:
  assumes "orders_ok H limit N"
  shows "trade_get_ok H limit (client_GetTradeHistory N K)"
  unfolding trade_get_ok_def
proof (intro allI impI)
  fix s a b extras i page
  assume "client_GetTradeHistory N K s a b extras i = Inr page"
  then obtain body where body: "sendRequest N K i ''/v1/order/orders'' (order_params s a b) True = Inr body"
    "checked_reply (hn_orders N body) = Inr page"
    by (auto simp: client_GetTradeHistory_def go_bind_Inr_iff)
  let ?ps = "fillRequest N K ''/v1/order/orders'' True (sign_params N K i True (order_params s a b))"
  from body(1) obtain code answer where sent: "hn_send N i ''/v1/order/orders'' ?ps = Inr (code, answer)" "response_body (code, answer) = Inr body"
    by (auto simp: sendRequest_def go_bind_Inr_iff split: option.splits)
  from body(2) obtain c where reply: "hn_orders N body = ((page, c), None)" "cr_Status c = ''ok''"
    by (auto simp: checked_reply_def split: prod.splits option.splits if_splits)
  then have "body \<noteq> []" using assms unfolding orders_ok_def by force
  with sent(2) have "code = 200" "answer = body" by (auto simp: response_body_def split: if_splits)
  moreover have "?ps ''symbol'' = Some (lower s)" "?ps ''start-time'' = Some (decimal (TimeToTimestampMs a))"
    "?ps ''end-time'' = Some (decimal (TimeToTimestampMs b))" "?ps ''states'' = Some ''filled''"
    by (simp_all add: fillRequest_def sign_params_def order_params_def)
  ultimately show "page = take limit (filter (in_window (TimeToTimestampMs a) (TimeToTimestampMs b)) (H (lower s)))"
    using assms sent(1) reply unfolding orders_ok_def by blast
qed

section \<open>One pair\<close>

lemma hd_filter_weaker:
  "(\<And>x. Q x \<Longrightarrow> P x) \<Longrightarrow> filter P xs \<noteq> [] \<Longrightarrow> Q (hd (filter P xs)) \<Longrightarrow> filter Q xs \<noteq> [] \<and> hd (filter Q xs) = hd (filter P xs)"
  by (induction xs) (auto split: if_splits)

lemma retry_page:
  assumes "trade_get_ok H limit get" "0 < attempts" "huobi_trades_retry get attempts s a b extras = Inr page"
  shows "page = take limit (filter (in_window (TimeToTimestampMs a) (TimeToTimestampMs b)) (H (lower s)))"
  using huobi_retry_Inr [OF assms(2)] assms(1,3) unfolding huobi_trades_retry_def trade_get_ok_def by blast

lemma created_time:
  assumes "orders_history_ok H" "t \<in> set (H s)"
  shows "TimeToTimestampMs (TimestampMsToTime (ht_CreatedAt t)) = ht_CreatedAt t"
  using assms unfolding orders_history_ok_def by (blast intro: timestamp_ms_roundtrip)

lemma symbol_newest:
  assumes get: "trade_get_ok H limit get" "0 < attempts" and H: "orders_history_ok H" "0 < limit"
  shows "\<exists>r e. getTradeHistoryWithSymbol get attempts a b s = Some (r, e) \<and>
    (e = None \<longrightarrow> r = take limit (filter (in_window (TimeToTimestampMs a) (TimeToTimestampMs b)) (H (lower s))))"
proof -
  let ?get = "\<lambda>start. huobi_trades_retry get attempts s start b"
  let ?w = "\<lambda>start. filter (in_window (TimeToTimestampMs start) (TimeToTimestampMs b)) (H (lower s))"
  have page: "?get start x = Inr p \<Longrightarrow> p = take limit (?w start)" for start x p
    using retry_page [OF get] .
  show ?thesis
  proof (cases "?get a (page_extras None)")
    case (Inl e)
    then show ?thesis unfolding getTradeHistoryWithSymbol_def by (subst symbol_pages.simps) simp
  next
    case (Inr p)
    then have p: "p = take limit (?w a)" by (rule page)
    show ?thesis
    proof (cases "p = []")
      case True
      with Inr p show ?thesis unfolding getTradeHistoryWithSymbol_def by (subst symbol_pages.simps) simp
    next
      case False
      then have w: "?w a \<noteq> []" "hd p = hd (?w a)" using p H(2) by (auto simp: hd_take)
      then have "hd p \<in> set (?w a)" by (metis hd_in_set)
      then have last_trade: "hd p \<in> set (H (lower s))" "in_window (TimeToTimestampMs a) (TimeToTimestampMs b) (hd p)" by auto
      let ?start = "TimestampMsToTime (ht_CreatedAt (hd p))"
      have ms: "TimeToTimestampMs ?start = ht_CreatedAt (hd p)" using created_time [OF H(1) last_trade(1)] .
      have one: "getTradeHistoryWithSymbol get attempts a b s =
        (if b > ?start then symbol_pages ?get b ?start (Some (ht_ID (hd p))) p else Some (p, None))"
        unfolding getTradeHistoryWithSymbol_def using Inr False by (subst symbol_pages.simps) (simp add: Let_def)
      show ?thesis
      proof (cases "?get ?start (page_extras (Some (ht_ID (hd p))))")
        case (Inl e)
        then have "symbol_pages ?get b ?start (Some (ht_ID (hd p))) p = Some (p, Some e)" by (subst symbol_pages.simps) simp
        with one p show ?thesis by simp
      next
        case (Inr q)
        then have q: "q = take limit (?w ?start)" by (rule page)
        let ?Q = "in_window (ht_CreatedAt (hd p)) (TimeToTimestampMs b)"
        have "?Q x \<Longrightarrow> in_window (TimeToTimestampMs a) (TimeToTimestampMs b) x" for x
          using last_trade(2) unfolding in_window_def by linarith
        moreover have "?Q (hd (?w a))" using last_trade(2) unfolding w(2) [symmetric] in_window_def by simp
        ultimately have "filter ?Q (H (lower s)) \<noteq> [] \<and> hd (filter ?Q (H (lower s))) = hd (?w a)"
          using w(1) hd_filter_weaker [of ?Q "in_window (TimeToTimestampMs a) (TimeToTimestampMs b)" "H (lower s)"] by blast
        then have "q \<noteq> []" "hd q = hd p" using H(2) unfolding q [unfolded ms] w(2) [symmetric] by (auto simp: hd_take)
        with Inr have "symbol_pages ?get b ?start (Some (ht_ID (hd p))) p = Some (p, None)" by (subst symbol_pages.simps) simp
        with one p show ?thesis by simp
      qed
    qed
  qed
qed

section \<open>A batch\<close>

lemma batch_trades_spec:
  assumes "\<forall>t\<in>set ts. ht_State t = ''filled''" "inj_on ht_ID (set ts \<union> snd ` set m)"
    and "\<forall>p\<in>set m. fst p = ht_ID (snd p) \<and> ht_State (snd p) = ''filled''"
  shows "\<exists>m'. batch_trades T ts m = Inr m' \<and> snd ` set m' = snd ` set m \<union> set ts"
  using assms
proof (induction ts arbitrary: m)
  case (Cons t ts)
  show ?case
  proof (cases "map_of m (ht_ID t)")
    case None
    let ?m = "AList.update (ht_ID t) t m"
    have m: "set ?m = insert (ht_ID t, t) (set m)" using None
      by (induction m) (auto split: if_splits)
    have "updateTradeRecord T m t = Inr ?m" using None by (simp add: updateTradeRecord_def)
    moreover from Cons.IH [of ?m] Cons.prems m
    obtain m' where "batch_trades T ts ?m = Inr m'" "snd ` set m' = snd ` set ?m \<union> set ts" by (auto simp: insert_commute)
    ultimately show ?thesis using m by auto
  next
    case (Some old)
    then have old: "(ht_ID t, old) \<in> set m" by (rule map_of_SomeD)
    with Cons.prems(3) have "ht_ID old = ht_ID t" "ht_State old = ''filled''" by auto
    moreover have "old \<in> snd ` set m" using old by force
    ultimately have "old = t" using inj_onD [OF Cons.prems(2), of old t] by simp
    have "updateTradeRecord T m t = Inr m" using Some \<open>ht_State old = ''filled''\<close> Cons.prems(1)
      by (simp add: updateTradeRecord_def)
    moreover have "inj_on ht_ID (set ts \<union> snd ` set m)" using Cons.prems(2) by (rule inj_on_subset) auto
    ultimately show ?thesis using Cons.IH [of m] Cons.prems(1,3) \<open>old = t\<close> \<open>old \<in> snd ` set m\<close> by (simp add: insert_absorb)
  qed
qed simp

lemma upsert_huobi_set:
  "\<forall>x\<in>set rows. hr_id x = hr_id r \<longrightarrow> x = r \<Longrightarrow> set (upsert_huobi r rows) = insert r (set rows)"
  by (induction rows) (auto split: if_splits)

lemma fold_upsert_huobi_set:
  assumes "\<forall>t\<in>set ts. \<forall>x\<in>set rows \<union> huobi_row_of account ` set ts. hr_id x = ht_ID t \<longrightarrow> x = huobi_row_of account t"
  shows "set (fold (\<lambda>t. upsert_huobi (huobi_row_of account t)) ts rows) = set rows \<union> huobi_row_of account ` set ts"
  using assms
proof (induction ts arbitrary: rows)
  case (Cons t ts)
  have id: "hr_id (huobi_row_of account t) = ht_ID t" by (simp add: huobi_row_of_def)
  have first: "set (upsert_huobi (huobi_row_of account t) rows) = insert (huobi_row_of account t) (set rows)"
  proof (rule upsert_huobi_set)
    have "t \<in> set (t # ts)" by simp
    with Cons.prems show "\<forall>x\<in>set rows. hr_id x = hr_id (huobi_row_of account t) \<longrightarrow> x = huobi_row_of account t"
      unfolding id by blast
  qed
  have rest: "\<forall>u\<in>set ts. \<forall>x\<in>set (upsert_huobi (huobi_row_of account t) rows) \<union> huobi_row_of account ` set ts.
      hr_id x = ht_ID u \<longrightarrow> x = huobi_row_of account u"
  proof (intro ballI)
    fix u x
    assume "u \<in> set ts" and "x \<in> set (upsert_huobi (huobi_row_of account t) rows) \<union> huobi_row_of account ` set ts"
    then have "u \<in> set (t # ts)" "x \<in> set rows \<union> huobi_row_of account ` set (t # ts)" unfolding first by auto
    with Cons.prems show "hr_id x = ht_ID u \<longrightarrow> x = huobi_row_of account u" by blast
  qed
  show ?case using Cons.IH [OF rest] first by simp
qed simp


section \<open>The run over the windows\<close>

definition all_orders :: "(string \<Rightarrow> HuobiTrade list) \<Rightarrow> string set \<Rightarrow> HuobiTrade set" where
  "all_orders H S = (\<Union>s\<in>S. set (H s))"

definition window_orders :: "(string \<Rightarrow> HuobiTrade list) \<Rightarrow> string set \<Rightarrow> gotime \<Rightarrow> gotime \<Rightarrow> HuobiTrade set" where
  "window_orders H S a b = {t \<in> all_orders H S. in_window (TimeToTimestampMs a) (TimeToTimestampMs b) t}"

text \<open>A row with the id of an order of the account is the row of this order, and the account has no others.\<close>

definition own_rows :: "(string \<Rightarrow> HuobiTrade list) \<Rightarrow> string \<Rightarrow> huobi_row list \<Rightarrow> bool" where
  "own_rows H account rows \<longleftrightarrow>
     (\<forall>x\<in>set rows. (hr_account x = account \<longrightarrow> hr_data x \<in> all_orders H UNIV) \<and>
        (\<forall>t\<in>all_orders H UNIV. hr_id x = ht_ID t \<longrightarrow> x = huobi_row_of account t))"

text \<open>
  The orders of the pairs that a run can see: no window of the length of a batch that has the order in it has more
  orders of its pair than an answer can have. The other ones may be lost, since only the newest orders of a window
  are in the answer.
\<close>

definition answerable :: "(string \<Rightarrow> HuobiTrade list) \<Rightarrow> nat \<Rightarrow> duration \<Rightarrow> string set \<Rightarrow> HuobiTrade set" where
  "answerable H limit batchDuration S =
     {t. \<exists>s\<in>S. t \<in> set (H s) \<and>
        (\<forall>a b. in_window a b t \<and> b \<le> a + nat (batchDuration div 1000000) + 1 \<longrightarrow>
           length (filter (in_window a b) (H s)) \<le> limit)}"

lemma row_of_simps [simp]:
  "hr_id (huobi_row_of account t) = ht_ID t" "hr_data (huobi_row_of account t) = t"
  "hr_account (huobi_row_of account t) = account"
  by (simp_all add: huobi_row_of_def)

lemma own_rows_add:
  assumes "orders_history_ok H" "own_rows H account rows" "W \<subseteq> all_orders H UNIV"
    and "set rows' = set rows \<union> huobi_row_of account ` W"
  shows "own_rows H account rows'"
  unfolding own_rows_def
proof (intro ballI conjI impI)
  fix x assume x: "x \<in> set rows'"
  then consider "x \<in> set rows" | t where "t \<in> W" "x = huobi_row_of account t" unfolding assms(4) by blast
  then show "hr_data x \<in> all_orders H UNIV" if "hr_account x = account"
    using that assms(2,3) unfolding own_rows_def by cases auto
  fix t assume t: "t \<in> all_orders H UNIV" "hr_id x = ht_ID t"
  from \<open>x \<in> set rows'\<close> consider "x \<in> set rows" | u where "u \<in> W" "x = huobi_row_of account u" unfolding assms(4) by blast
  then show "x = huobi_row_of account t"
  proof cases
    case 1
    with t assms(2) show ?thesis unfolding own_rows_def by blast
  next
    case (2 u)
    then have "ht_ID u = ht_ID t" "u \<in> all_orders H UNIV" using t(2) assms(3) by auto
    then have "u = t" using assms(1) t(1) unfolding orders_history_ok_def all_orders_def by (auto dest: inj_onD)
    with 2 show ?thesis by simp
  qed
qed

lemma window_ms:
  assumes "0 \<le> a" "b \<le> a + batch" "0 \<le> b" "b < 2 ^ 63" "0 \<le> batch" "a < 2 ^ 63"
  shows "TimeToTimestampMs b \<le> TimeToTimestampMs a + nat (batch div 1000000) + 1"
proof -
  have "b div 1000000 \<le> (a + batch) div 1000000" using assms(2) by (rule zdiv_mono1) simp
  also have "\<dots> \<le> a div 1000000 + batch div 1000000 + 1" by linarith
  finally show ?thesis using assms by (simp add: TimeToTimestampMs_nonneg nat_le_iff pos_imp_zdiv_nonneg_iff)
qed

lemma fetch_window:
  assumes get: "trade_get_ok H limit get" "0 < attempts" and H: "orders_history_ok H" "0 < limit"
    and short: "TimeToTimestampMs b \<le> TimeToTimestampMs a + nat (batch div 1000000) + 1"
    and order: "\<forall>xs. set (order xs) = set xs"
  shows "\<exists>data e. huobi_GetTradeHistory get attempts pairs order a b = Some (data, e) \<and>
    (e = None \<longrightarrow> (\<exists>symbols. pairs = Inr symbols \<and>
       (let S = (\<lambda>s. lower (hs_SymBol s)) ` set symbols; W = (\<Union>p\<in>set data. set (snd p)) in
          W \<subseteq> window_orders H S a b \<and> window_orders H S a b \<inter> answerable H limit batch S \<subseteq> W)))"
proof (cases pairs)
  case (Inl e)
  then show ?thesis by (simp add: huobi_GetTradeHistory_def)
next
  case (Inr symbols)
  let ?go = "getTradeHistoryWithSymbol get attempts a b"
  let ?names = "order (map hs_SymBol symbols)"
  let ?w = "\<lambda>s. filter (in_window (TimeToTimestampMs a) (TimeToTimestampMs b)) (H (lower s))"
  have one: "\<exists>r e. ?go s = Some (r, e) \<and> (e = None \<longrightarrow> r = take limit (?w s))" for s
    using symbol_newest [OF get H, of a b s] .
  then obtain m e where m: "gather_names ?go ?names [] = Some (m, e)" using gather_names_total [of ?go] by (metis option.distinct(1))
  show ?thesis
  proof (cases e)
    case (Some x)
    with m Inr show ?thesis by (simp add: huobi_GetTradeHistory_def)
  next
    case None
    let ?S = "(\<lambda>s. lower (hs_SymBol s)) ` set symbols" and ?W = "\<Union>p\<in>set m. set (snd p)"
    have "t \<in> window_orders H ?S a b" if "t \<in> ?W" for t
    proof -
      from that obtain s r where "(s, r) \<in> set m" "t \<in> set r" by auto
      with gather_names_source [OF m [unfolded None]] one [of s] have "s \<in> set ?names" "t \<in> set (?w s)"
        by (force dest: in_set_takeD)+
      then show ?thesis using order by (auto simp: window_orders_def all_orders_def)
    qed
    moreover have "t \<in> ?W" if t: "t \<in> window_orders H ?S a b" "t \<in> answerable H limit batch ?S" for t
    proof -
      from t(1) have w: "in_window (TimeToTimestampMs a) (TimeToTimestampMs b) t" by (simp add: window_orders_def)
      from t(2) short w obtain s where s: "s \<in> set ?names" "t \<in> set (H (lower s))" "length (?w s) \<le> limit"
        unfolding answerable_def using order by fastforce
      with gather_names_spec [OF m [unfolded None]] obtain r where r: "?go s = Some (r, None)" "r \<noteq> [] \<longrightarrow> map_of m s = Some r" by blast
      with one [of s] s(3) have "r = ?w s" by simp
      then have "t \<in> set r" using s(2) w by simp
      then have "r \<noteq> []" by auto
      with r(2) have "(s, r) \<in> set m" by (simp add: map_of_SomeD)
      with \<open>t \<in> set r\<close> show ?thesis by force
    qed
    ultimately show ?thesis using m None Inr by (auto simp: huobi_GetTradeHistory_def Let_def)
  qed
qed

lemma store_window:
  assumes H: "orders_history_ok H" and rows: "own_rows H account rows" and W: "W \<subseteq> all_orders H UNIV"
    and trades: "snd ` set trades = W" and ord: "\<forall>xs. set (ord xs) = set xs"
    and store: "huobi_UpdateTradeHistory E ord trades account rows = (rows', e)"
  shows "(e \<noteq> None \<longrightarrow> rows' = rows) \<and> (e = None \<longrightarrow> set rows' = set rows \<union> huobi_row_of account ` W)"
  using store unfolding huobi_UpdateTradeHistory_def
proof (cases rule: in_transaction_cases)
  case 2
  let ?ts = "map snd (ord trades)"
  have ts: "set ?ts = W" using trades ord by simp
  from 2 have rows': "rows' = fold (\<lambda>t. upsert_huobi (huobi_row_of account t)) ?ts rows" by (auto split: option.splits)
  have "\<forall>t\<in>set ?ts. \<forall>x\<in>set rows \<union> huobi_row_of account ` set ?ts. hr_id x = ht_ID t \<longrightarrow> x = huobi_row_of account t"
  proof (intro ballI impI)
    fix t x assume t: "t \<in> set ?ts" and x: "x \<in> set rows \<union> huobi_row_of account ` set ?ts" "hr_id x = ht_ID t"
    have "t \<in> all_orders H UNIV" using t ts W by blast
    consider "x \<in> set rows" | u where "u \<in> W" "x = huobi_row_of account u" using x(1) ts by blast
    then show "x = huobi_row_of account t"
    proof cases
      case 1
      with rows x(2) \<open>t \<in> all_orders H UNIV\<close> show ?thesis unfolding own_rows_def by blast
    next
      case (2 u)
      then have "ht_ID u = ht_ID t" "u \<in> all_orders H UNIV" using x(2) W by auto
      then have "u = t" using H \<open>t \<in> all_orders H UNIV\<close> unfolding orders_history_ok_def all_orders_def by (auto dest: inj_onD)
      with 2 show ?thesis by simp
    qed
  qed
  from fold_upsert_huobi_set [OF this] 2(2) show ?thesis unfolding rows' ts by simp
qed auto


text \<open>
  What a run over the windows from \<open>a\<close> to \<open>b\<close> leaves, with the orders of \<open>V\<close> up to \<open>m\<close>: they are all stored, and
  no later order is.
\<close>

definition reached :: "(string \<Rightarrow> HuobiTrade list) \<Rightarrow> HuobiTrade set \<Rightarrow> string \<Rightarrow> nat \<Rightarrow> nat \<Rightarrow> huobi_row list \<Rightarrow> huobi_row list \<Rightarrow> bool" where
  "reached H V account a m rows rows' \<longleftrightarrow> set rows \<subseteq> set rows' \<and> own_rows H account rows' \<and> a \<le> m \<and>
     (\<forall>t\<in>V. a \<le> ht_CreatedAt t \<and> ht_CreatedAt t < m \<longrightarrow> huobi_row_of account t \<in> set rows') \<and>
     (\<forall>x\<in>set rows'. x \<in> set rows \<or> ht_CreatedAt (hr_data x) \<le> m)"

definition all_orders_stored :: "HuobiTrade set \<Rightarrow> string \<Rightarrow> nat \<Rightarrow> nat \<Rightarrow> huobi_row list \<Rightarrow> bool" where
  "all_orders_stored V account a b rows \<longleftrightarrow>
     (\<forall>t\<in>V. a \<le> ht_CreatedAt t \<and> ht_CreatedAt t \<le> b \<longrightarrow> huobi_row_of account t \<in> set rows)"

lemma reached_window:
  assumes "set rows \<subseteq> set rows1" "own_rows H account rows1"
    and "\<And>t. t \<in> V \<Longrightarrow> a \<le> ht_CreatedAt t \<Longrightarrow> ht_CreatedAt t \<le> b \<Longrightarrow> huobi_row_of account t \<in> set rows1"
    and "\<And>x. x \<in> set rows1 \<Longrightarrow> x \<in> set rows \<or> ht_CreatedAt (hr_data x) \<le> b"
  shows "reached H V account a (max a b) rows rows1"
  unfolding reached_def
proof (intro conjI ballI impI)
  fix t assume "t \<in> V" "a \<le> ht_CreatedAt t \<and> ht_CreatedAt t < max a b"
  then show "huobi_row_of account t \<in> set rows1" using assms(3) [of t] by (auto simp: less_max_iff_disj)
next
  fix x assume "x \<in> set rows1"
  then show "x \<in> set rows \<or> ht_CreatedAt (hr_data x) \<le> max a b" using assms(4) [of x] by (auto simp: le_max_iff_disj)
qed (use assms(1,2) in simp_all)

lemma reached_trans:
  assumes "reached H V account b m rows1 rows'" "set rows \<subseteq> set rows1" "a \<le> b"
    and "\<And>t. t \<in> V \<Longrightarrow> a \<le> ht_CreatedAt t \<Longrightarrow> ht_CreatedAt t \<le> b \<Longrightarrow> huobi_row_of account t \<in> set rows1"
    and "\<And>x. x \<in> set rows1 \<Longrightarrow> x \<in> set rows \<or> ht_CreatedAt (hr_data x) \<le> b"
  shows "reached H V account a m rows rows'"
proof -
  from assms(1) have r: "set rows1 \<subseteq> set rows'" "own_rows H account rows'" "b \<le> m"
    "\<forall>t\<in>V. b \<le> ht_CreatedAt t \<and> ht_CreatedAt t < m \<longrightarrow> huobi_row_of account t \<in> set rows'"
    "\<forall>x\<in>set rows'. x \<in> set rows1 \<or> ht_CreatedAt (hr_data x) \<le> m" unfolding reached_def by blast+
  show ?thesis
    unfolding reached_def
  proof (intro conjI ballI impI)
    fix t assume t: "t \<in> V" "a \<le> ht_CreatedAt t \<and> ht_CreatedAt t < m"
    show "huobi_row_of account t \<in> set rows'"
    proof (cases "ht_CreatedAt t \<le> b")
      case True
      with assms(4) t r(1) show ?thesis by blast
    next
      case False
      with t r(4) show ?thesis by simp
    qed
  next
    fix x assume "x \<in> set rows'"
    then have "x \<in> set rows \<or> ht_CreatedAt (hr_data x) \<le> b \<or> ht_CreatedAt (hr_data x) \<le> m"
      using r(5) assms(5) by blast
    then show "x \<in> set rows \<or> ht_CreatedAt (hr_data x) \<le> m" using r(3) by (auto intro: order_trans)
  qed (use assms(2,3) r in auto)
qed

lemma huobi_batches_spec:
  assumes H: "orders_history_ok H" and batch: "0 < batch" and to: "0 \<le> to" "to < 2 ^ 63"
    and fetch: "\<And>a b. 0 \<le> a \<Longrightarrow> a < 2 ^ 63 \<Longrightarrow> 0 \<le> b \<Longrightarrow> b < 2 ^ 63 \<Longrightarrow> b \<le> a + batch \<Longrightarrow>
      \<exists>data e. fetch a b = Some (data, e) \<and> (e = None \<longrightarrow> (let W = (\<Union>p\<in>set data. set (snd p)) in
        W \<subseteq> window_orders H S a b \<and> window_orders H S a b \<inter> V \<subseteq> W))"
    and V: "V \<subseteq> all_orders H S"
    and ord: "\<forall>xs. set (ord xs) = set xs"
    and store: "\<And>b trades rows rows' e. store b trades rows = (rows', e) \<Longrightarrow> own_rows H account rows \<Longrightarrow>
      snd ` set trades \<subseteq> all_orders H UNIV \<Longrightarrow>
      (e \<noteq> None \<longrightarrow> rows' = rows) \<and> (e = None \<longrightarrow> set rows' = set rows \<union> huobi_row_of account ` snd ` set trades)"
    and start: "0 \<le> start" "start < 2 ^ 63" "own_rows H account rows"
  shows "\<exists>rows' e m. huobi_batches fetch ord T store batch to start rows = Some (rows', e) \<and>
    reached H V account (TimeToTimestampMs start) m rows rows' \<and>
    (e = None \<longrightarrow> all_orders_stored V account (TimeToTimestampMs start) (TimeToTimestampMs to) rows')"
  using start
proof (induction "nat (to - start)" arbitrary: start rows rule: less_induct)
  case less
  let ?stop = "if to < start + batch then to else start + batch"
  let ?run = "huobi_batches fetch ord T store batch to start rows"
  have stop: "0 \<le> ?stop" "?stop < 2 ^ 63" "?stop \<le> start + batch" using less.prems to batch by auto
  have same: "reached H V account (TimeToTimestampMs start) (TimeToTimestampMs start) rows rows"
    using less.prems(3) by (auto simp: reached_def)
  obtain data e where f: "fetch start ?stop = Some (data, e)"
    and data: "e = None \<longrightarrow> (let W = (\<Union>p\<in>set data. set (snd p)) in
        W \<subseteq> window_orders H S start ?stop \<and> window_orders H S start ?stop \<inter> V \<subseteq> W)"
    using fetch [OF less.prems(1,2) stop] by blast
  let ?W = "\<Union>p\<in>set data. set (snd p)"
  show ?case
  proof (cases e)
    case (Some x)
    with f have "?run = Some (rows, Some x)" by (subst huobi_batches.simps) (simp add: Let_def)
    with same show ?thesis by blast
  next
    case None
    let ?ts = "concat (map snd (ord data))"
    have ts: "set ?ts = ?W" using ord by simp
    from data None have seen: "?W \<subseteq> window_orders H S start ?stop" "window_orders H S start ?stop \<inter> V \<subseteq> ?W"
      by (simp_all add: Let_def)
    have W: "?W \<subseteq> all_orders H UNIV" using seen(1) by (auto simp: window_orders_def all_orders_def)
    have "inj_on ht_ID ?W" using H W unfolding orders_history_ok_def all_orders_def by (blast intro: inj_on_subset)
    moreover have "\<forall>t\<in>?W. ht_State t = ''filled''" using H W unfolding orders_history_ok_def all_orders_def by blast
    ultimately have "\<forall>t\<in>set ?ts. ht_State t = ''filled''" "inj_on ht_ID (set ?ts \<union> snd ` set ([] :: (int \<times> HuobiTrade) list))"
      unfolding ts by simp_all
    from batch_trades_spec [OF this, of T] obtain trades
      where "batch_trades T ?ts [] = Inr trades" "snd ` set trades = set ?ts" by auto
    then have trades: "batch_trades T ?ts [] = Inr trades" "snd ` set trades = ?W" unfolding ts by simp_all
    obtain rows1 e1 where st: "store ?stop trades rows = (rows1, e1)" by (cases "store ?stop trades rows")
    note stored = store [OF st less.prems(3)] trades(2) W
    show ?thesis
    proof (cases e1)
      case (Some x)
      with stored have "rows1 = rows" by simp
      with f None trades(1) st Some have "?run = Some (rows, Some x)" by (subst huobi_batches.simps) (simp add: Let_def)
      with same show ?thesis by blast
    next
      case None2: None
      with stored have rows1: "set rows1 = set rows \<union> huobi_row_of account ` ?W" by simp
      have own1: "own_rows H account rows1" using own_rows_add [OF H less.prems(3) W rows1] .
      let ?a = "TimeToTimestampMs start" and ?b = "TimeToTimestampMs ?stop"
      have win: "huobi_row_of account t \<in> set rows1"
        if "t \<in> V" "?a \<le> ht_CreatedAt t" "ht_CreatedAt t \<le> ?b" for t
        using that seen(2) V unfolding rows1 window_orders_def in_window_def by blast
      have new: "x \<in> set rows \<or> ht_CreatedAt (hr_data x) \<le> ?b" if "x \<in> set rows1" for x
        using that seen(1) unfolding rows1 window_orders_def in_window_def by auto
      show ?thesis
      proof (cases "?stop < to")
        case False
        with f None trades(1) st None2 have "?run = Some (rows1, None)" by (subst huobi_batches.simps) (simp add: Let_def)
        moreover have "TimeToTimestampMs to \<le> ?b" using False stop to by (intro TimeToTimestampMs_mono) auto
        then have "all_orders_stored V account ?a (TimeToTimestampMs to) rows1" using win unfolding all_orders_stored_def by force
        moreover have "reached H V account ?a (max ?a ?b) rows rows1"
          using own1 win new unfolding rows1 by (intro reached_window) (simp_all add: rows1)
        ultimately show ?thesis by blast
      next
        case True
        then have next_start: "?stop = start + batch" "nat (to - ?stop) < nat (to - start)" using batch by (auto split: if_splits)
        from less.hyps [OF next_start(2) stop(1,2) own1] obtain rows' e' m where run:
          "huobi_batches fetch ord T store batch to ?stop rows1 = Some (rows', e')"
          "reached H V account ?b m rows1 rows'" "e' = None \<longrightarrow> all_orders_stored V account ?b (TimeToTimestampMs to) rows'" by blast
        have "?run = Some (rows', e')"
          using f None trades(1) st None2 True run(1) by (subst huobi_batches.simps) (simp add: Let_def)
        moreover have "?a \<le> ?b" using next_start(1) batch less.prems(1) stop(2) by (intro TimeToTimestampMs_mono) auto
        then have "reached H V account ?a m rows rows'"
          using run(2) win new by (intro reached_trans [of H V account ?b m rows1 rows' rows ?a]) (simp_all add: rows1)
        moreover have "e' = None \<longrightarrow> all_orders_stored V account ?a (TimeToTimestampMs to) rows'"
          using run(2,3) win unfolding reached_def all_orders_stored_def by (metis linorder_le_cases subset_iff)
        ultimately show ?thesis by blast
      qed
    qed
  qed
qed


text \<open>The run for an account and what it relies on: \<open>K\<close> are the keys of its client.\<close>

definition huobi_run_ok :: "(string \<Rightarrow> HuobiTrade list) \<Rightarrow> nat \<Rightarrow> huobi_net \<Rightarrow> huobi_keys \<Rightarrow> duration \<Rightarrow> run_env \<Rightarrow> bool" where
  "huobi_run_ok H limit N K batch R \<longleftrightarrow>
     ru_get R = client_GetTradeHistory N K \<and> orders_ok H limit N \<and> 0 < limit \<and> 0 < ru_attempts R \<and>
     orders_history_ok H \<and> 0 < batch \<and>
     (\<forall>xs. set (ru_order R xs) = set xs) \<and> (\<forall>xs. set (ru_ord R xs) = set xs) \<and> (\<forall>xs. set (ru_rows R xs) = set xs)"

definition run_pairs :: "run_env \<Rightarrow> string set" where
  "run_pairs R = (case ru_symbols R of Inl e \<Rightarrow> {} | Inr symbols \<Rightarrow> (\<lambda>s. lower (hs_SymBol s)) ` set symbols)"

lemma huobi_run_spec:
  assumes ok: "huobi_run_ok H limit N K batch R" and start: "0 \<le> start" "start < 2 ^ 63" and to: "0 \<le> to" "to < 2 ^ 63"
    and rows: "own_rows H account rows"
  shows "\<exists>rows' e m. huobi_batches (huobi_GetTradeHistory (ru_get R) (ru_attempts R) (ru_symbols R) (ru_order R)) (ru_ord R) (ru_text R)
      (\<lambda>stop trades. huobi_UpdateTradeHistory (ru_errors R stop) (ru_rows R) trades account) batch to start rows = Some (rows', e) \<and>
    reached H (answerable H limit batch (run_pairs R)) account (TimeToTimestampMs start) m rows rows' \<and>
    (e = None \<longrightarrow> all_orders_stored (answerable H limit batch (run_pairs R)) account (TimeToTimestampMs start) (TimeToTimestampMs to) rows')"
proof (rule huobi_batches_spec)
  show H: "orders_history_ok H" and batch: "0 < batch" and "\<forall>xs. set (ru_ord R xs) = set xs"
    using ok unfolding huobi_run_ok_def by blast+
  fix a b :: gotime
  assume ab: "0 \<le> a" "a < 2 ^ 63" "0 \<le> b" "b < 2 ^ 63" "b \<le> a + batch"
  have get: "trade_get_ok H limit (ru_get R)" using ok client_trades_ok unfolding huobi_run_ok_def by metis
  have short: "TimeToTimestampMs b \<le> TimeToTimestampMs a + nat (batch div 1000000) + 1"
    using window_ms [OF ab(1,5,3,4) _ ab(2)] batch by simp
  show "\<exists>data e. huobi_GetTradeHistory (ru_get R) (ru_attempts R) (ru_symbols R) (ru_order R) a b = Some (data, e) \<and>
      (e = None \<longrightarrow> (let W = (\<Union>p\<in>set data. set (snd p)) in
        W \<subseteq> window_orders H (run_pairs R) a b \<and>
        window_orders H (run_pairs R) a b \<inter> answerable H limit batch (run_pairs R) \<subseteq> W))"
    proof -
      have "\<exists>data e. huobi_GetTradeHistory (ru_get R) (ru_attempts R) (ru_symbols R) (ru_order R) a b = Some (data, e) \<and>
        (e = None \<longrightarrow> (\<exists>symbols. ru_symbols R = Inr symbols \<and>
           (let S = (\<lambda>s. lower (hs_SymBol s)) ` set symbols; W = (\<Union>p\<in>set data. set (snd p)) in
              W \<subseteq> window_orders H S a b \<and> window_orders H S a b \<inter> answerable H limit batch S \<subseteq> W)))"
        by (rule fetch_window [OF get _ _ _ short]) (use ok in \<open>simp_all add: huobi_run_ok_def\<close>)
      then obtain data e where "huobi_GetTradeHistory (ru_get R) (ru_attempts R) (ru_symbols R) (ru_order R) a b = Some (data, e)"
        "e = None \<longrightarrow> (\<exists>symbols. ru_symbols R = Inr symbols \<and>
           (let S = (\<lambda>s. lower (hs_SymBol s)) ` set symbols; W = (\<Union>p\<in>set data. set (snd p)) in
              W \<subseteq> window_orders H S a b \<and> window_orders H S a b \<inter> answerable H limit batch S \<subseteq> W))"
        by (elim exE conjE) (rule that)
      then show ?thesis by (intro exI conjI impI) (assumption, auto simp: run_pairs_def Let_def)
    qed
next
  show "answerable H limit batch (run_pairs R) \<subseteq> all_orders H (run_pairs R)" by (auto simp: answerable_def all_orders_def)
next
  fix b :: gotime and trades :: "(int \<times> HuobiTrade) list" and rows rows' e
  assume "huobi_UpdateTradeHistory (ru_errors R b) (ru_rows R) trades account rows = (rows', e)" "own_rows H account rows"
    "snd ` set trades \<subseteq> all_orders H UNIV"
  moreover have "orders_history_ok H" "\<forall>xs. set (ru_rows R xs) = set xs" using ok unfolding huobi_run_ok_def by blast+
  ultimately show "(e \<noteq> None \<longrightarrow> rows' = rows) \<and> (e = None \<longrightarrow> set rows' = set rows \<union> huobi_row_of account ` snd ` set trades)"
    by (intro store_window [where trades = trades]) simp_all
qed (use start to rows in auto)

text \<open>All orders of \<open>V\<close> before the last one stored are stored: a later run can go on from there.\<close>

definition last_created :: "string \<Rightarrow> huobi_row list \<Rightarrow> nat" where
  "last_created account rows = text_max (account_times account rows)"

definition resumable :: "HuobiTrade set \<Rightarrow> string \<Rightarrow> huobi_row list \<Rightarrow> bool" where
  "resumable V account rows \<longleftrightarrow>
     (\<forall>t\<in>V. ht_CreatedAt t < last_created account rows \<longrightarrow> huobi_row_of account t \<in> set rows)"

lemma last_created_spec:
  assumes "orders_history_ok H" "own_rows H account rows" "account \<in> hr_account ` set rows"
  shows "\<exists>x\<in>set rows. hr_account x = account \<and> hr_data x \<in> all_orders H UNIV \<and> last_created account rows = ht_CreatedAt (hr_data x)"
    and "\<forall>x\<in>set rows. hr_account x = account \<longrightarrow> ht_CreatedAt (hr_data x) \<le> last_created account rows"
proof -
  let ?times = "account_times account rows"
  have ne: "?times \<noteq> []" using assms(3) by (auto simp: account_times_def filter_empty_conv)
  have own: "hr_data x \<in> all_orders H UNIV" if "x \<in> set rows" "hr_account x = account" for x
    using assms(2) that unfolding own_rows_def by blast
  have times: "set ?times = (\<lambda>x. ht_CreatedAt (hr_data x)) ` {x \<in> set rows. hr_account x = account}"
    by (simp add: account_times_def)
  have "ms_stamp (ht_CreatedAt t)" if "t \<in> all_orders H UNIV" for t
    using assms(1) that unfolding orders_history_ok_def all_orders_def by blast
  then have "\<forall>n\<in>set ?times. ms_stamp n" using own unfolding times by blast
  then have m: "last_created account rows = Max (set ?times)" using ne by (simp add: last_created_def text_max_Max)
  then have "last_created account rows \<in> set ?times" using ne by simp
  then obtain x where "x \<in> {x \<in> set rows. hr_account x = account}" "last_created account rows = ht_CreatedAt (hr_data x)"
    unfolding times by (elim imageE) (rule that)
  with own show "\<exists>x\<in>set rows. hr_account x = account \<and> hr_data x \<in> all_orders H UNIV \<and> last_created account rows = ht_CreatedAt (hr_data x)"
    by blast
  show "\<forall>x\<in>set rows. hr_account x = account \<longrightarrow> ht_CreatedAt (hr_data x) \<le> last_created account rows"
    unfolding m by (auto simp: account_times_def)
qed

lemma stamp_time:
  assumes "orders_history_ok H" "t \<in> all_orders H UNIV"
  shows "0 \<le> TimestampMsToTime (ht_CreatedAt t)" "TimestampMsToTime (ht_CreatedAt t) < 2 ^ 63" "0 < ht_CreatedAt t"
    "TimeToTimestampMs (TimestampMsToTime (ht_CreatedAt t)) = ht_CreatedAt t"
proof -
  have t: "ms_stamp (ht_CreatedAt t)" "ht_CreatedAt t \<le> 9223372036854"
    using assms unfolding orders_history_ok_def all_orders_def by blast+
  have "i64 (int (ht_CreatedAt t)) = int (ht_CreatedAt t)" "i64 (int (ht_CreatedAt t) * 1000000) = int (ht_CreatedAt t) * 1000000"
    using t(2) by (intro i64_id; simp)+
  then have "TimestampMsToTime (ht_CreatedAt t) = int (ht_CreatedAt t) * 1000000"
    by (simp add: TimestampMsToTime_def Nanosecond_per_ms_def)
  with t(2) show "0 \<le> TimestampMsToTime (ht_CreatedAt t)" "TimestampMsToTime (ht_CreatedAt t) < 2 ^ 63" by simp_all
  show "0 < ht_CreatedAt t" using t(1) by (simp add: ms_stamp_def)
  show "TimeToTimestampMs (TimestampMsToTime (ht_CreatedAt t)) = ht_CreatedAt t" using t(2) by (rule timestamp_ms_roundtrip)
qed

section \<open>Reading\<close>

text \<open>A trade whose JSON has all fields.\<close>

definition full_trade :: "HuobiTrade \<Rightarrow> bool" where
  "full_trade t \<longleftrightarrow> ht_ID t \<noteq> 0 \<and> ht_Symbol t \<noteq> [] \<and> ht_AccountID t \<noteq> 0 \<and> ht_Amount t \<noteq> [] \<and> ht_Price t \<noteq> [] \<and>
     ht_CreatedAt t \<noteq> 0 \<and> ht_Type t \<noteq> [] \<and> ht_FieldAmount t \<noteq> [] \<and> ht_FieldCashAmount t \<noteq> [] \<and> ht_FieldFees t \<noteq> [] \<and>
     ht_FinishedAt t \<noteq> 0 \<and> ht_UserID t \<noteq> 0 \<and> ht_Source t \<noteq> [] \<and> ht_State t \<noteq> [] \<and> ht_Exchange t \<noteq> [] \<and> ht_Batch t \<noteq> []"

lemma unmarshal_full: "full_trade t \<Longrightarrow> unmarshal_trade tmp t = t"
  by (simp add: full_trade_def unmarshal_trade_def)

lemma unmarshal_rows_full: "\<forall>t\<in>set ts. full_trade t \<Longrightarrow> unmarshal_rows tmp ts = ts"
  by (induction ts arbitrary: tmp) (simp_all add: unmarshal_full)

lemma unmarshal_groups_full: "\<forall>g\<in>set gs. \<forall>t\<in>set (snd g). full_trade t \<Longrightarrow> unmarshal_groups tmp gs = gs"
  by (induction gs arbitrary: tmp) (auto simp: unmarshal_rows_full Let_def)

text \<open>\<open>GROUP BY account\<close> with \<open>ARRAY_AGG(data)\<close>: one group for each account, with its rows in some order.\<close>

definition groups_ok :: "(huobi_row list \<Rightarrow> (string \<times> HuobiTrade list) list) \<Rightarrow> bool" where
  "groups_ok grp \<longleftrightarrow> (\<forall>rows. distinct (map fst (grp rows)) \<and> set (map fst (grp rows)) = hr_account ` set rows \<and>
     (\<forall>g\<in>set (grp rows). mset (snd g) = mset (map hr_data (filter (\<lambda>r. hr_account r = fst g) rows))))"

lemma groups_set:
  assumes "groups_ok grp" "g \<in> set (grp rows)"
  shows "set (snd g) = hr_data ` {r \<in> set rows. hr_account r = fst g}"
proof -
  have "mset (snd g) = mset (map hr_data (filter (\<lambda>r. hr_account r = fst g) rows))" using assms unfolding groups_ok_def by blast
  from mset_eq_setD [OF this] show ?thesis by auto
qed

lemma unmarshal_rows_append:
  "unmarshal_rows tmp (xs @ ys) = unmarshal_rows tmp xs @ unmarshal_rows (last (tmp # unmarshal_rows tmp xs)) ys"
  by (induction xs arbitrary: tmp) (simp_all split: if_splits)

lemma length_unmarshal_rows [simp]: "length (unmarshal_rows tmp xs) = length xs"
  by (induction xs arbitrary: tmp) simp_all

end
