(* ===== verification/HuobiTradeProps.thy ===== *)
theory HuobiTradeProps
  imports HuobiTrades
begin

text \<open>
  What the run for the trades on Huobi does: which orders of a window it sees, that it stores them all when the windows
  are small, that it can be resumed after any failure, and what reading the table gives.
\<close>

section \<open>Properties\<close>

text \<open>
  The requests for a pair always end, and give the newest orders of the window, as many as one answer has: the
  parameters for the next page are not sent, so orders that do not fit in one answer are never seen.
\<close>

theorem getTradeHistoryWithSymbol_newest:
  assumes "orders_ok H limit N" "orders_history_ok H" "0 < limit" "0 < attempts"
  shows "\<exists>r e. getTradeHistoryWithSymbol (client_GetTradeHistory N K) attempts a b s = Some (r, e) \<and>
    (e = None \<longrightarrow> r = take limit (filter (in_window (TimeToTimestampMs a) (TimeToTimestampMs b)) (H (lower s))))"
  using symbol_newest [OF client_trades_ok [OF assms(1)] assms(4,2,3)] .

text \<open>
  A run from a given time ends. It only adds rows of orders of the account, and if it does not fail, it has stored every
  order of the listed pairs from that time to the end that is in no window with more orders of its pair than one
  answer can have.
\<close>

theorem fetch_huobi_account_complete:
  assumes "huobi_run_ok H limit N K batch R" "own_rows H account rows"
    and "0 \<le> a" "a < 2 ^ 63" "0 \<le> b" "b < 2 ^ 63"
  shows "\<exists>rows' e. fetch_huobi_account R batch a b account rows = Some (rows', e) \<and> own_rows H account rows' \<and>
    set rows \<subseteq> set rows' \<and>
    (e = None \<longrightarrow> all_orders_stored (answerable H limit batch (run_pairs R)) account (TimeToTimestampMs a) (TimeToTimestampMs b) rows')"
proof -
  have "a \<noteq> zero_time" using assms(3) by (auto simp: go_defs)
  with huobi_run_spec [OF assms(1,3-6,2)] show ?thesis
    unfolding fetch_huobi_account_def reached_def by auto
qed


text \<open>
  The table is read by the text of the times; for times of 13 digits the result has, for each account, exactly the
  trades in the range, unchanged if their JSON has all fields.
\<close>

theorem load_trades_range:
  assumes "groups_ok grp" "\<forall>r\<in>set rows. full_trade (hr_data r) \<and> ms_stamp (ht_CreatedAt (hr_data r))"
    and "ms_stamp (TimeToTimestampMs a)" "ms_stamp (TimeToTimestampMs b)"
  shows "\<exists>gs. load_trades None grp a b rows = Inr gs \<and> distinct (map fst gs) \<and>
    (\<forall>account t. (\<exists>ts. (account, ts) \<in> set gs \<and> t \<in> set ts) \<longleftrightarrow>
      (\<exists>r\<in>set rows. hr_account r = account \<and> hr_data r = t \<and>
        TimeToTimestampMs a \<le> ht_CreatedAt t \<and> ht_CreatedAt t < TimeToTimestampMs b))"
proof -
  let ?sel = "filter (in_text_range a b) rows"
  let ?gs = "grp ?sel"
  have range: "in_text_range a b r \<longleftrightarrow> TimeToTimestampMs a \<le> ht_CreatedAt (hr_data r) \<and> ht_CreatedAt (hr_data r) < TimeToTimestampMs b"
    if "r \<in> set rows" for r
    using assms(2-4) that by (auto simp: in_text_range_def created_text_def full_trade_def ms_stamp_text_le ms_stamp_text_less)
  have groups: "set (snd g) = hr_data ` {r \<in> set ?sel. hr_account r = fst g}" if "g \<in> set ?gs" for g
    using groups_set [OF assms(1) that] .
  have "\<forall>g\<in>set ?gs. \<forall>t\<in>set (snd g). full_trade t" using groups assms(2) by auto
  then have load: "load_trades None grp a b rows = Inr ?gs" by (simp add: load_trades_def unmarshal_groups_full)
  have names: "distinct (map fst ?gs)" "set (map fst ?gs) = hr_account ` set ?sel"
    using assms(1) unfolding groups_ok_def by blast+
  have "(\<exists>ts. (account, ts) \<in> set ?gs \<and> t \<in> set ts) \<longleftrightarrow>
      (\<exists>r\<in>set rows. hr_account r = account \<and> hr_data r = t \<and>
        TimeToTimestampMs a \<le> ht_CreatedAt t \<and> ht_CreatedAt t < TimeToTimestampMs b)" for account t
  proof
    assume "\<exists>ts. (account, ts) \<in> set ?gs \<and> t \<in> set ts"
    then obtain ts where "(account, ts) \<in> set ?gs" "t \<in> set ts" by blast
    with groups [of "(account, ts)"] range show "\<exists>r\<in>set rows. hr_account r = account \<and> hr_data r = t \<and>
        TimeToTimestampMs a \<le> ht_CreatedAt t \<and> ht_CreatedAt t < TimeToTimestampMs b" by auto
  next
    assume "\<exists>r\<in>set rows. hr_account r = account \<and> hr_data r = t \<and>
        TimeToTimestampMs a \<le> ht_CreatedAt t \<and> ht_CreatedAt t < TimeToTimestampMs b"
    then obtain r where r: "r \<in> set ?sel" "hr_account r = account" "hr_data r = t" using range by auto
    then have "account \<in> set (map fst ?gs)" unfolding names(2) by blast
    then obtain ts where "(account, ts) \<in> set ?gs" by force
    moreover from this groups [of "(account, ts)"] r have "t \<in> set ts" by auto
    ultimately show "\<exists>ts. (account, ts) \<in> set ?gs \<and> t \<in> set ts" by blast
  qed
  with load names(1) show ?thesis by blast
qed

text \<open>
  All rows are read into one variable, and a field that is zero is not in the JSON: a trade that has not finished is
  read with the time at which the trade before it finished.
\<close>

theorem load_trades_leaks:
  assumes "grp (filter (in_text_range a b) rows) = [(account, pre @ [t, u] @ post)]"
    and "ht_FinishedAt t \<noteq> 0" "ht_FinishedAt u = 0"
  shows "\<exists>us. load_trades None grp a b rows = Inr [(account, us)] \<and> length us = length pre + 2 + length post \<and>
    ht_FinishedAt (us ! (length pre + 1)) = ht_FinishedAt t"
proof -
  let ?us = "unmarshal_rows zero_trade (pre @ [t, u] @ post)"
  have "load_trades None grp a b rows = Inr [(account, ?us)]" by (simp add: load_trades_def assms(1) Let_def)
  moreover have "ht_FinishedAt (?us ! (length pre + 1)) = ht_FinishedAt t"
    using assms(2,3) by (simp add: unmarshal_rows_append nth_append unmarshal_trade_def)
  ultimately show ?thesis by (intro exI [of _ ?us]) simp
qed


section \<open>A concrete exchange\<close>

text \<open>One order of one pair; an answer is the text 1 when it is in the window and 0 when it is not.\<close>

definition knc_order :: HuobiTrade where
  "knc_order = \<lparr> ht_ID = 7, ht_Symbol = ''knceth'', ht_AccountID = 3, ht_Amount = ''5'', ht_Price = ''1'',
     ht_CreatedAt = 1500000000000, ht_Type = ''buy-limit'', ht_FieldAmount = ''5'', ht_FieldCashAmount = ''5'',
     ht_FieldFees = ''1'', ht_FinishedAt = 1500000000500, ht_UserID = 2, ht_Source = ''api'', ht_State = ''filled'',
     ht_CanceledAt = 0, ht_Exchange = ''huobi'', ht_Batch = ''b'' \<rparr>"

definition sample_orders :: "string \<Rightarrow> HuobiTrade list" where
  "sample_orders s = (if s = ''knceth'' then [knc_order] else [])"

definition ok_response :: CommonResponse where
  "ok_response = \<lparr> cr_Status = ''ok'', cr_ErrorCode = [], cr_ErrorMessage = [] \<rparr>"

definition not_json :: go_err where "not_json = Err ''unexpected end of JSON input''"

definition huobi_send :: "nat \<Rightarrow> string \<Rightarrow> params \<Rightarrow> (nat \<times> string) go" where
  "huobi_send i path ps =
     Inr (200, (case (ps ''symbol'', ps ''start-time'', ps ''end-time'') of
       (Some s, Some a, Some b) \<Rightarrow>
         (if s = ''knceth'' \<and> in_window (text_value a) (text_value b) knc_order then ''1'' else ''0'')
     | _ \<Rightarrow> []))"

definition sample_net :: huobi_net where
  "sample_net = \<lparr> hn_wait = (\<lambda>i. None), hn_now = (\<lambda>i. ''now''), hn_send = huobi_send, hn_sign = (\<lambda>k s. k @ s),
     hn_Encode = (\<lambda>ps. []), hn_accounts = (\<lambda>body. (([], ok_response), None)),
     hn_orders = (\<lambda>body. if body = ''1'' then (([knc_order], ok_response), None)
        else if body = ''0'' then (([], ok_response), None) else (([], no_response), Some not_json)),
     hn_withdraws = (\<lambda>body. (([], ok_response), None)), hn_symbols = (\<lambda>body. (([], ok_response), None)),
     hn_currencies = (\<lambda>body. (([], ok_response), None)) \<rparr>"

definition sample_keys :: huobi_keys where "sample_keys = \<lparr> hk_APIKey = ''key'', hk_SecretKey = ''secret'' \<rparr>"

definition huobi_no_errors :: tx_errors where
  "huobi_no_errors = \<lparr> te_begin = None, te_stmt = (\<lambda>n. None), te_commit = None \<rparr>"

definition sample_huobi :: run_env where
  "sample_huobi = \<lparr> ru_get = client_GetTradeHistory sample_net sample_keys, ru_attempts = 1,
     ru_symbols = Inr [\<lparr> hs_Base = ''knc'', hs_Quote = ''eth'', hs_PricePrecision = 4, hs_AmountPrecision = 4,
       hs_SymBolPartition = ''main'', hs_SymBol = ''knceth'' \<rparr>],
     ru_order = rev, ru_ord = rev, ru_text = \<lparr> ft_Parse = (\<lambda>s. Inr 0), ft_Format = (\<lambda>x. ''0'') \<rparr>,
     ru_errors = (\<lambda>t. huobi_no_errors), ru_rows = rev, ru_last = None, ru_now = 1600000000 * 10 ^ 9 \<rparr>"

definition sample_batch :: duration where "sample_batch = 90 * 24 * Hour"
definition sample_from :: gotime where "sample_from = 1499999999 * 10 ^ 9"
definition sample_to :: gotime where "sample_to = 1500000100 * 10 ^ 9"

abbreviation sample_row :: huobi_row where "sample_row \<equiv> huobi_row_of ''main'' knc_order"

lemma sample_times:
  "TimeToTimestampMs sample_from = 1499999999000" "TimeToTimestampMs sample_to = 1500000100000"
  "TimestampMsToTime 1500000000000 = 1500000000 * 10 ^ 9" "TimeToTimestampMs (1500000000 * 10 ^ 9) = 1500000000000"
  by (simp_all add: sample_from_def sample_to_def TimeToTimestampMs_nonneg TimestampMsToTime_def i64_id Nanosecond_per_ms_def)

lemma sample_after: "1500000000000000000 < sample_to" by (simp add: sample_to_def)

lemma sample_created: "ht_CreatedAt knc_order = 1500000000000" "ht_ID knc_order = 7" "ht_State knc_order = ''filled''"
  by (simp_all add: knc_order_def)

lemma sample_orders_ok: "orders_ok sample_orders 100 sample_net"
  unfolding orders_ok_def
  by (auto simp: sample_net_def huobi_send_def sample_orders_def ok_response_def split: if_splits)

lemma sample_history_ok: "orders_history_ok sample_orders"
  by (auto simp: orders_history_ok_def sample_orders_def sample_created ms_stamp_def inj_on_def split: if_splits)

lemma lower_knceth: "lower ''knceth'' = ''knceth''" "lower ''KNCETH'' = ''knceth''"
  by code_simp+

lemma sample_run_ok: "huobi_run_ok sample_orders 100 sample_net sample_keys sample_batch sample_huobi"
  using sample_orders_ok sample_history_ok
  by (simp add: huobi_run_ok_def sample_huobi_def sample_orders_def sample_batch_def go_defs)

lemma sample_pairs: "run_pairs sample_huobi = {''knceth''}"
  by (simp add: run_pairs_def sample_huobi_def lower_knceth)

lemma sample_answerable: "answerable sample_orders 100 batch {''knceth''} = {knc_order}"
  by (auto simp: answerable_def sample_orders_def)

lemma sample_page:
  "huobi_trades_retry (client_GetTradeHistory sample_net sample_keys) 1 s a b extras =
     Inr (if lower s = ''knceth'' \<and> in_window (TimeToTimestampMs a) (TimeToTimestampMs b) knc_order then [knc_order] else [])"
  by (simp add: huobi_trades_retry_def huobi_retry_def client_GetTradeHistory_def sendRequest_def sample_net_def huobi_send_def
      fillRequest_def sign_params_def order_params_def response_body_def checked_reply_def ok_response_def)

lemma huobi_sample_pages:
  assumes "lower s = ''knceth''" "in_window (TimeToTimestampMs a) 1500000100000 knc_order"
  shows "getTradeHistoryWithSymbol (client_GetTradeHistory sample_net sample_keys) 1 a sample_to s = Some ([knc_order], None)"
proof -
  let ?get = "\<lambda>start. huobi_trades_retry (client_GetTradeHistory sample_net sample_keys) 1 s start sample_to"
  have "in_window 1500000000000 1500000100000 knc_order" by (simp add: in_window_def sample_created)
  then have "symbol_pages ?get sample_to (1500000000 * 10 ^ 9) (Some 7) [knc_order] = Some ([knc_order], None)"
    using assms(1) by (subst symbol_pages.simps) (simp add: sample_page [simplified] sample_times sample_created)
  then show ?thesis using assms unfolding getTradeHistoryWithSymbol_def
    by (subst symbol_pages.simps) (simp add: sample_page [simplified] sample_times sample_created Let_def sample_after)
qed

lemma sample_store:
  "rows = [] \<or> rows = [sample_row] \<Longrightarrow>
    huobi_UpdateTradeHistory huobi_no_errors rev [(7, knc_order)] ''main'' rows = ([sample_row], None)"
  by (auto simp: huobi_UpdateTradeHistory_def in_transaction_def huobi_no_errors_def huobi_row_of_def)

lemma sample_window:
  assumes "in_window (TimeToTimestampMs a) 1500000100000 knc_order" "sample_to < a + sample_batch" "rows = [] \<or> rows = [sample_row]"
  shows "huobi_batches (huobi_GetTradeHistory (ru_get sample_huobi) (ru_attempts sample_huobi) (ru_symbols sample_huobi) (ru_order sample_huobi))
      (ru_ord sample_huobi) (ru_text sample_huobi)
      (\<lambda>stop trades. huobi_UpdateTradeHistory (ru_errors sample_huobi stop) (ru_rows sample_huobi) trades ''main'')
      sample_batch sample_to a rows = Some ([sample_row], None)"
proof -
  have "huobi_GetTradeHistory (ru_get sample_huobi) (ru_attempts sample_huobi) (ru_symbols sample_huobi) (ru_order sample_huobi) a sample_to =
      Some ([(''knceth'', [knc_order])], None)"
    using huobi_sample_pages [OF lower_knceth(1) assms(1)] by (simp add: huobi_GetTradeHistory_def sample_huobi_def)
  moreover have "batch_trades T [knc_order] [] = Inr [(7, knc_order)]" for T
    by (simp add: updateTradeRecord_def sample_created)
  ultimately show ?thesis using assms(2) sample_store [OF assms(3)]
    by (subst huobi_batches.simps) (simp add: sample_huobi_def Let_def)
qed

lemma sample_first_run:
  "fetch_huobi_account sample_huobi sample_batch sample_from sample_to ''main'' [] = Some ([sample_row], None)"
proof -
  have "sample_from \<noteq> zero_time" by (simp add: sample_from_def go_defs)
  moreover have "in_window (TimeToTimestampMs sample_from) 1500000100000 knc_order" by (simp add: in_window_def sample_created sample_times)
  moreover have "sample_to < sample_from + sample_batch" by (simp add: sample_to_def sample_from_def sample_batch_def go_defs)
  ultimately show ?thesis unfolding fetch_huobi_account_def by (simp add: sample_window)
qed



lemma sample_own: "own_rows sample_orders ''main'' []" "own_rows sample_orders ''main'' [sample_row]"
  by (auto simp: own_rows_def all_orders_def sample_orders_def split: if_splits)

theorem getTradeHistoryWithSymbol_newest_witness:
  "getTradeHistoryWithSymbol (client_GetTradeHistory sample_net sample_keys) 1 sample_from sample_to ''KNCETH'' =
     Some (take 100 (filter (in_window 1499999999000 1500000100000) (sample_orders ''knceth'')), None)"
proof -
  have "in_window (TimeToTimestampMs sample_from) 1500000100000 knc_order" by (simp add: in_window_def sample_created sample_times)
  note run = huobi_sample_pages [OF lower_knceth(2) this]
  from getTradeHistoryWithSymbol_newest [OF sample_orders_ok sample_history_ok, of 1 sample_keys sample_from sample_to "''KNCETH''"] run
  have "[knc_order] = take 100 (filter (in_window 1499999999000 1500000100000) (sample_orders ''knceth''))"
    by (simp add: sample_times lower_knceth)
  with run show ?thesis by simp
qed

theorem fetch_huobi_account_complete_witness:
  "fetch_huobi_account sample_huobi sample_batch sample_from sample_to ''main'' [] = Some ([sample_row], None) \<and>
   all_orders_stored {knc_order} ''main'' 1499999999000 1500000100000 [sample_row]"
proof -
  have "0 \<le> sample_from" "sample_from < 2 ^ 63" "0 \<le> sample_to" "sample_to < 2 ^ 63" by (simp_all add: sample_from_def sample_to_def)
  from fetch_huobi_account_complete [OF sample_run_ok sample_own(1) this] sample_first_run
  show ?thesis by (simp add: sample_pairs sample_times sample_answerable)
qed


definition group_rows :: "huobi_row list \<Rightarrow> (string \<times> HuobiTrade list) list" where
  "group_rows rows = map (\<lambda>a. (a, map hr_data (filter (\<lambda>r. hr_account r = a) rows))) (remdups (map hr_account rows))"

lemma group_rows_ok: "groups_ok group_rows"
  by (auto simp: groups_ok_def group_rows_def o_def)

lemma sample_full: "full_trade knc_order"
  by (simp add: full_trade_def knc_order_def)

theorem load_trades_range_witness:
  "\<exists>gs. load_trades None group_rows sample_from sample_to [sample_row] = Inr gs \<and> (\<exists>ts. (''main'', ts) \<in> set gs \<and> knc_order \<in> set ts)"
  using load_trades_range [OF group_rows_ok, of "[sample_row]" sample_from sample_to]
  by (auto simp: sample_full sample_created ms_stamp_def sample_times)

definition open_order :: HuobiTrade where "open_order = knc_order\<lparr> ht_ID := 8, ht_FinishedAt := 0 \<rparr>"

theorem load_trades_leaks_witness:
  "\<exists>us. load_trades None group_rows sample_from sample_to [sample_row, huobi_row_of ''main'' open_order] = Inr [(''main'', us)] \<and>
     ht_FinishedAt (us ! 1) = 1500000000500"
proof -
  have "in_text_range sample_from sample_to sample_row" "in_text_range sample_from sample_to (huobi_row_of ''main'' open_order)"
    by (simp_all add: in_text_range_def created_text_def open_order_def sample_created sample_times ms_stamp_text_le ms_stamp_text_less ms_stamp_def)
  then have "group_rows (filter (in_text_range sample_from sample_to) [sample_row, huobi_row_of ''main'' open_order]) =
      [(''main'', [] @ [knc_order, open_order] @ [])]" by (simp add: group_rows_def)
  from load_trades_leaks [of group_rows sample_from sample_to _ _ "[]" knc_order open_order "[]", OF this] show ?thesis by (auto simp: open_order_def knc_order_def)
qed

end
