(* ===== verification/HuobiWithdrawals.thy ===== *)
theory HuobiWithdrawals
  imports Huobi
begin

text \<open>
  The withdrawals of the accounts on Huobi: the requests of \<open>accounting/huobi/fetcher/withdrawal-history.go\<close>, the
  table of \<open>accounting/huobi/storage/withdrawal-history/postgres/postgres.go\<close>, and the run of
  \<open>accounting/cmd/accounting-huobi-withdrawal-fetcher/main.go\<close>. A loop that never ends is \<open>None\<close>.
\<close>

section \<open>Requests\<close>

type_synonym withdraw_get = "string \<Rightarrow> nat \<Rightarrow> nat \<Rightarrow> HuobiWithdraw list go"

definition retryGetWithdrawal :: "withdraw_get \<Rightarrow> nat \<Rightarrow> string \<Rightarrow> nat \<Rightarrow> HuobiWithdraw list go" where
  "retryGetWithdrawal get attempts symbol fromID = huobi_retry (get symbol fromID) attempts"

partial_function (option) withdraw_pages ::
  "(nat \<Rightarrow> HuobiWithdraw list go) \<Rightarrow> nat \<Rightarrow> HuobiWithdraw list \<Rightarrow> (HuobiWithdraw list \<times> go_err option) option" where
  "withdraw_pages get nextFromID result =
     (case get nextFromID of
        Inl e \<Rightarrow> Some (result, Some e)
      | Inr page \<Rightarrow>
          if page = [] then Some (result, None)
          else withdraw_pages get (u64_add (hw_ID (hd page)) 1) (result @ page))"

definition getWithdrawHistoryWithSymbol :: "withdraw_get \<Rightarrow> nat \<Rightarrow> nat \<Rightarrow> string
    \<Rightarrow> (HuobiWithdraw list \<times> go_err option) option" where
  "getWithdrawHistoryWithSymbol get attempts fromID symbol =
     withdraw_pages (retryGetWithdrawal get attempts symbol) fromID []"

text \<open>When a goroutine fails, the function returns the empty map and no error.\<close>

definition huobi_GetWithdrawHistory :: "withdraw_get \<Rightarrow> nat \<Rightarrow> string list go \<Rightarrow> (string list \<Rightarrow> string list) \<Rightarrow> nat
    \<Rightarrow> ((string \<times> HuobiWithdraw list) list \<times> go_err option) option" where
  "huobi_GetWithdrawHistory get attempts currencies order fromID =
     (case currencies of
        Inl e \<Rightarrow> Some ([], Some e)
      | Inr symbols \<Rightarrow>
          Option.bind (gather_names (getWithdrawHistoryWithSymbol get attempts fromID) (order symbols) [])
            (\<lambda>(m, e). Some (case e of None \<Rightarrow> (m, None) | Some e \<Rightarrow> ([], None))))"

section \<open>Storage\<close>

record huobi_withdraw_row =
  vr_id :: nat
  vr_data :: HuobiWithdraw
  vr_timestamp :: gotime
  vr_account :: string

definition huobi_withdraw_row_of :: "string \<Rightarrow> HuobiWithdraw \<Rightarrow> huobi_withdraw_row" where
  "huobi_withdraw_row_of account w = \<lparr> vr_id = hw_ID w, vr_data = w, vr_timestamp = TimestampMsToTime (hw_CreatedAt w),
     vr_account = account \<rparr>"

text \<open>\<open>ON CONFLICT ON CONSTRAINT huobi_withdrawals_pk DO NOTHING\<close>.\<close>

definition huobi_UpdateWithdrawHistory :: "tx_errors \<Rightarrow> HuobiWithdraw list \<Rightarrow> string \<Rightarrow> huobi_withdraw_row list
    \<Rightarrow> huobi_withdraw_row list \<times> go_err option" where
  "huobi_UpdateWithdrawHistory E ws account rows =
     in_transaction E (\<lambda>stmt rows.
       (case stmt 0 of
          Some e \<Rightarrow> Inl e
        | None \<Rightarrow> Inr (fold (\<lambda>w. insert_new vr_id (huobi_withdraw_row_of account w)) ws rows))) rows"

definition withdraw_in_range :: "gotime \<Rightarrow> gotime \<Rightarrow> huobi_withdraw_row \<Rightarrow> bool" where
  "withdraw_in_range fromTime toTime r \<longleftrightarrow>
     (let c = decimal (hw_CreatedAt (vr_data r)) in
      text_le (decimal (TimeToTimestampMs fromTime)) c \<and> text_less c (decimal (TimeToTimestampMs toTime)))"

text \<open>The JSON of a withdrawal has all fields, so each row is read as it is.\<close>

definition load_withdrawals :: "go_err option \<Rightarrow> (huobi_withdraw_row list \<Rightarrow> (string \<times> HuobiWithdraw list) list) \<Rightarrow> gotime \<Rightarrow> gotime
    \<Rightarrow> huobi_withdraw_row list \<Rightarrow> (string \<times> HuobiWithdraw list) list go" where
  "load_withdrawals sel grp fromTime toTime rows =
     (case sel of
        Some e \<Rightarrow> Inl e
      | None \<Rightarrow> Inr (grp (filter (withdraw_in_range fromTime toTime) rows)))"

definition GetLastIDStored :: "go_err option \<Rightarrow> string \<Rightarrow> huobi_withdraw_row list \<Rightarrow> nat go" where
  "GetLastIDStored get account rows =
     (case get of
        Some e \<Rightarrow> Inl e
      | None \<Rightarrow> Inr (Max (insert 0 (vr_id ` {r \<in> set rows. vr_account r = account}))))"

section \<open>The run\<close>

text \<open>The parameters for one account: its client, whose creation may fail, and the errors of the database.\<close>

record withdraw_env =
  we_last :: "go_err option"
  we_new :: "go_err option"
  we_get :: withdraw_get
  we_attempts :: nat
  we_currencies :: "string list go"
  we_order :: "string list \<Rightarrow> string list"
  we_ord :: "(string \<times> HuobiWithdraw list) list \<Rightarrow> (string \<times> HuobiWithdraw list) list"
  we_errors :: tx_errors

definition fetch_withdraw_account :: "withdraw_env \<Rightarrow> nat \<Rightarrow> string \<Rightarrow> huobi_withdraw_row list
    \<Rightarrow> (huobi_withdraw_row list \<times> go_err option) option" where
  "fetch_withdraw_account W fromID account rows =
     (case we_new W of
        Some e \<Rightarrow> Some (rows, Some e)
      | None \<Rightarrow>
          Option.bind (huobi_GetWithdrawHistory (we_get W) (we_attempts W) (we_currencies W) (we_order W) (u64_add fromID 1))
            (\<lambda>(data, e). Some
              (case e of
                 Some e \<Rightarrow> (rows, Some e)
               | None \<Rightarrow> huobi_UpdateWithdrawHistory (we_errors W) (concat (map snd (we_ord W data))) account rows)))"

text \<open>
  The loop over the accounts. The variable \<open>fromID\<close> lives outside the loop: once it is set for an account, the accounts
  after it go on with it. \<open>close\<close> is the result of closing the database.
\<close>

fun fetch_withdraw_accounts :: "(string \<Rightarrow> withdraw_env) \<Rightarrow> go_err option \<Rightarrow> nat \<Rightarrow> string list \<Rightarrow> huobi_withdraw_row list
    \<Rightarrow> (huobi_withdraw_row list \<times> go_err option) option" where
  "fetch_withdraw_accounts env close fromID [] rows = Some (rows, close)"
| "fetch_withdraw_accounts env close fromID (a # as) rows =
     (case (if fromID = 0 then GetLastIDStored (we_last (env a)) a rows else Inr fromID) of
        Inl e \<Rightarrow> Some (rows, Some e)
      | Inr fromID \<Rightarrow>
          Option.bind (fetch_withdraw_account (env a) fromID a rows) (\<lambda>(rows, e).
            if e \<noteq> None then Some (rows, e) else fetch_withdraw_accounts env close fromID as rows))"

section \<open>The exchange\<close>

text \<open>
  \<open>H c\<close> are the withdrawals of the account in a currency. An answer has withdrawals from the given id on, and is empty
  only when there are none.
\<close>

definition withdraw_ids_ok :: "(string \<Rightarrow> HuobiWithdraw list) \<Rightarrow> bool" where
  "withdraw_ids_ok H \<longleftrightarrow> (\<forall>c. \<forall>w\<in>set (H c). hw_ID w + 1 < 2 ^ 64)"

definition from_id :: "nat \<Rightarrow> HuobiWithdraw list \<Rightarrow> HuobiWithdraw list" where
  "from_id n ws = filter (\<lambda>w. n \<le> hw_ID w) ws"

definition withdraw_answers :: "(HuobiWithdraw list \<Rightarrow> HuobiWithdraw list \<Rightarrow> bool) \<Rightarrow> (string \<Rightarrow> HuobiWithdraw list)
    \<Rightarrow> huobi_net \<Rightarrow> bool" where
  "withdraw_answers P H N \<longleftrightarrow> snd (hn_withdraws N []) \<noteq> None \<and>
     (\<forall>i ps c n body d r. ps ''currency'' = Some c \<and> ps ''from'' = Some (decimal n) \<and> ps ''type'' = Some ''withdraw'' \<and>
        hn_send N i ''/v1/query/deposit-withdraw'' ps = Inr (200, body) \<and>
        hn_withdraws N body = ((d, r), None) \<and> cr_Status r = ''ok'' \<longrightarrow> P (from_id n (H c)) d)"

definition some_of :: "HuobiWithdraw list \<Rightarrow> HuobiWithdraw list \<Rightarrow> bool" where
  "some_of ws d \<longleftrightarrow> set d \<subseteq> set ws \<and> (d = [] \<longrightarrow> ws = [])"

definition get_answers :: "(HuobiWithdraw list \<Rightarrow> HuobiWithdraw list \<Rightarrow> bool) \<Rightarrow> (string \<Rightarrow> HuobiWithdraw list) \<Rightarrow> withdraw_get \<Rightarrow> bool" where
  "get_answers P H get \<longleftrightarrow> (\<forall>c n i page. get c n i = Inr page \<longrightarrow> P (from_id n (H (lower c))) page)"

lemma client_withdraws:
  assumes "withdraw_answers P H N"
  shows "get_answers P H (client_GetWithdrawHistory N K)"
  unfolding get_answers_def
proof (intro allI impI)
  fix c n i page
  assume "client_GetWithdrawHistory N K c n i = Inr page"
  then obtain body where body: "sendRequest N K i ''/v1/query/deposit-withdraw'' (withdraw_params c n) True = Inr body"
    "checked_reply (hn_withdraws N body) = Inr page"
    by (auto simp: client_GetWithdrawHistory_def go_bind_Inr_iff)
  let ?ps = "fillRequest N K ''/v1/query/deposit-withdraw'' True (sign_params N K i True (withdraw_params c n))"
  from body(1) obtain code answer where sent: "hn_send N i ''/v1/query/deposit-withdraw'' ?ps = Inr (code, answer)"
    "response_body (code, answer) = Inr body"
    by (auto simp: sendRequest_def go_bind_Inr_iff split: option.splits)
  from body(2) obtain r where reply: "hn_withdraws N body = ((page, r), None)" "cr_Status r = ''ok''"
    by (auto simp: checked_reply_def split: prod.splits option.splits if_splits)
  then have "body \<noteq> []" using assms unfolding withdraw_answers_def by force
  with sent(2) have "code = 200" "answer = body" by (auto simp: response_body_def split: if_splits)
  moreover have "?ps ''currency'' = Some (lower c)" "?ps ''from'' = Some (decimal n)" "?ps ''type'' = Some ''withdraw''"
    by (simp_all add: fillRequest_def sign_params_def withdraw_params_def)
  ultimately show "P (from_id n (H (lower c))) page"
    using assms sent(1) reply unfolding withdraw_answers_def by blast
qed

lemma withdraw_page:
  assumes "get_answers P H get" "0 < attempts" "retryGetWithdrawal get attempts c n = Inr page"
  shows "P (from_id n (H (lower c))) page"
  using huobi_retry_Inr [OF assms(2)] assms(1,3) unfolding retryGetWithdrawal_def get_answers_def by blast

lemma withdraw_pages_end:
  assumes "\<forall>w\<in>set ws. hw_ID w + 1 < 2 ^ 64"
    and "\<And>n page. get n = Inr page \<Longrightarrow> some_of (from_id n ws) page"
  shows "\<exists>r e. withdraw_pages get n acc = Some (acc @ r, e) \<and> set r \<subseteq> set (from_id n ws)"
proof (induction "length (from_id n ws)" arbitrary: n acc rule: less_induct)
  case less
  show ?case
  proof (cases "get n")
    case (Inl e)
    then show ?thesis by (intro exI [of _ "[]"] exI [of _ "Some e"]) (subst withdraw_pages.simps, simp)
  next
    case (Inr page)
    show ?thesis
    proof (cases "page = []")
      case True
      with Inr show ?thesis by (intro exI [of _ "[]"] exI [of _ None]) (subst withdraw_pages.simps, simp)
    next
      case False
      let ?n = "u64_add (hw_ID (hd page)) 1"
      have sub: "set page \<subseteq> set (from_id n ws)" using assms(2) [OF Inr] by (simp add: some_of_def)
      then have hd: "hd page \<in> set (from_id n ws)" using False by auto
      with assms(1) have n: "?n = hw_ID (hd page) + 1" "n < ?n" by (auto simp: from_id_def u64_add_id)
      have "from_id ?n ws = filter (\<lambda>w. ?n \<le> hw_ID w) (from_id n ws)"
        using n(2) unfolding from_id_def by (auto intro: filter_cong)
      moreover have "length (filter (\<lambda>w. ?n \<le> hw_ID w) (from_id n ws)) < length (from_id n ws)"
        using hd n(1) by (intro length_filter_less) auto
      ultimately obtain r e where "withdraw_pages get ?n (acc @ page) = Some ((acc @ page) @ r, e)" "set r \<subseteq> set (from_id ?n ws)"
        using less [of ?n "acc @ page"] by auto
      moreover have "set (from_id ?n ws) \<subseteq> set (from_id n ws)" using n(2) by (auto simp: from_id_def)
      ultimately show ?thesis using Inr False sub
        by (intro exI [of _ "page @ r"] exI [of _ e]) (subst withdraw_pages.simps, auto)
    qed
  qed
qed

text \<open>With the oldest withdrawals first, the loop goes on after the oldest of a page, and sees all others again.\<close>

lemma withdraw_pages_oldest_first:
  assumes "\<forall>w\<in>set ws. hw_ID w + 1 < 2 ^ 64" "sorted_wrt (\<lambda>v w. hw_ID v < hw_ID w) ws" "0 < limit"
    and "\<And>n page. get n = Inr page \<Longrightarrow> page = take limit (from_id n ws)"
    and "withdraw_pages get n acc = Some (r, None)"
  shows "set r = set acc \<union> set (from_id n ws)"
  using assms(5)
proof (induction "length (from_id n ws)" arbitrary: n acc rule: less_induct)
  case less
  obtain page where page: "get n = Inr page"
  proof (cases "get n")
    case (Inl e)
    with less.prems show thesis by (subst (asm) withdraw_pages.simps) simp
  qed (rule that)
  note take = assms(4) [OF page]
  show ?case
  proof (cases "page = []")
    case True
    with page less.prems have "r = acc" by (subst (asm) withdraw_pages.simps) simp
    with True take assms(3) show ?thesis by simp
  next
    case False
    let ?n = "u64_add (hw_ID (hd page)) 1"
    obtain w rest where w: "from_id n ws = w # rest" using False take by (cases "from_id n ws") auto
    then have hd: "hd page = w" using take assms(3) by (cases limit) auto
    have "w \<in> set (from_id n ws)" by (simp add: w)
    with assms(1) hd have n: "?n = hw_ID w + 1" "n < ?n" by (auto simp: from_id_def u64_add_id)
    have "sorted_wrt (\<lambda>v w. hw_ID v < hw_ID w) (w # rest)"
      using assms(2) unfolding w [symmetric] from_id_def by (rule sorted_wrt_filter)
    then have later: "filter (\<lambda>v. ?n \<le> hw_ID v) (w # rest) = rest" using n(1) by (simp add: filter_id_conv Suc_le_eq)
    have "from_id ?n ws = filter (\<lambda>v. ?n \<le> hw_ID v) (from_id n ws)"
      using n(2) unfolding from_id_def by (auto intro: filter_cong)
    then have eq: "from_id ?n ws = rest" unfolding w later .
    have more: "withdraw_pages get ?n (acc @ page) = Some (r, None)"
      using less.prems page False by (subst (asm) withdraw_pages.simps) simp
    have "length (from_id ?n ws) < length (from_id n ws)" unfolding eq w by simp
    from less.hyps [OF this more] have "set r = set (acc @ page) \<union> set rest" unfolding eq .
    moreover have "set page \<subseteq> set (w # rest)" unfolding take w by (rule set_take_subset)
    moreover have "w \<in> set page" using hd False by auto
    ultimately show ?thesis unfolding w by auto
  qed
qed

text \<open>With the newest first, the loop ends after one page.\<close>

lemma withdraw_pages_newest_first:
  assumes "\<forall>w\<in>set ws. hw_ID w + 1 < 2 ^ 64" "sorted_wrt (\<lambda>v w. hw_ID w < hw_ID v) ws" "0 < limit"
    and "\<And>n page. get n = Inr page \<Longrightarrow> page = take limit (from_id n ws)"
  shows "\<exists>r e. withdraw_pages get n acc = Some (r, e) \<and> (e = None \<longrightarrow> r = acc @ take limit (from_id n ws))"
proof (cases "get n")
  case (Inl e)
  then show ?thesis by (subst withdraw_pages.simps) simp
next
  case (Inr page)
  note take = assms(4) [OF Inr]
  show ?thesis
  proof (cases "page = []")
    case True
    with Inr take show ?thesis by (subst withdraw_pages.simps) simp
  next
    case False
    let ?n = "u64_add (hw_ID (hd page)) 1"
    obtain w rest where w: "from_id n ws = w # rest" using False take by (cases "from_id n ws") auto
    then have hd: "hd page = w" using take assms(3) by (cases limit) auto
    have "w \<in> set (from_id n ws)" by (simp add: w)
    with assms(1) hd have n: "?n = hw_ID w + 1" "n < ?n" by (auto simp: from_id_def u64_add_id)
    have "sorted_wrt (\<lambda>v w. hw_ID w < hw_ID v) (w # rest)"
      using assms(2) unfolding w [symmetric] from_id_def by (rule sorted_wrt_filter)
    then have "\<forall>v\<in>set (from_id n ws). hw_ID v < ?n" unfolding w using n(1) by auto
    then have "from_id ?n ws = []" using n(2) unfolding from_id_def by (auto simp: filter_empty_conv)
    then have "get ?n = Inr q \<Longrightarrow> q = []" for q using assms(4) [of ?n q] by simp
    then have "\<exists>e. withdraw_pages get ?n (acc @ page) = Some (acc @ page, e)"
      by (cases "get ?n") (subst withdraw_pages.simps, auto)+
    then show ?thesis using Inr False take by (subst withdraw_pages.simps) auto
  qed
qed

section \<open>The run for an account\<close>

lemma gather_names_error:
  assumes "\<forall>s. go s \<noteq> None" "s \<in> set ss" "go s = Some (r, Some e)"
  shows "\<exists>m' e'. gather_names go ss m = Some (m', Some e')"
  using assms(2)
proof (induction ss arbitrary: m)
  case (Cons s' ss)
  obtain r' e' where r': "go s' = Some (r', e')" using assms(1) by (metis not_None_eq surj_pair)
  let ?m = "if e' = None \<and> r' \<noteq> [] then AList.update s' r' m else m"
  obtain m1 e1 where rest: "gather_names go ss ?m = Some (m1, e1)" using gather_names_total [OF assms(1)] by blast
  show ?case
  proof (cases e')
    case (Some x)
    with r' rest show ?thesis by simp
  next
    case None
    with assms(3) r' have "s \<noteq> s'" by auto
    with Cons.prems Cons.IH [of ?m] rest r' None show ?thesis by auto
  qed
qed simp

lemma GetWithdrawHistory_ids:
  assumes "get_answers some_of H get" "0 < attempts" "withdraw_ids_ok H" "\<forall>xs. set (order xs) = set xs"
  shows "\<exists>data e. huobi_GetWithdrawHistory get attempts currencies order n = Some (data, e) \<and>
    (\<forall>p\<in>set data. \<forall>w\<in>set (snd p). n \<le> hw_ID w)"
proof (cases currencies)
  case (Inl e)
  then show ?thesis by (simp add: huobi_GetWithdrawHistory_def)
next
  case (Inr symbols)
  let ?go = "getWithdrawHistoryWithSymbol get attempts n"
  have one: "\<exists>r e. ?go c = Some (r, e) \<and> set r \<subseteq> set (from_id n (H (lower c)))" for c
    using withdraw_pages_end [of "H (lower c)" "retryGetWithdrawal get attempts c" n "[]"] withdraw_page [OF assms(1,2)] assms(3)
    unfolding getWithdrawHistoryWithSymbol_def withdraw_ids_ok_def by auto
  then obtain m e where m: "gather_names ?go (order symbols) [] = Some (m, e)"
    using gather_names_total [of ?go] by (metis option.distinct(1))
  have "\<forall>p\<in>set m. \<forall>w\<in>set (snd p). n \<le> hw_ID w" if "e = None"
  proof (intro ballI)
    fix p w assume p: "p \<in> set m" "w \<in> set (snd p)"
    have "?go (fst p) = Some (snd p, None)"
      using gather_names_source [OF m [unfolded that], of "fst p" "snd p"] p(1) by simp
    with one [of "fst p"] p(2) show "n \<le> hw_ID w" by (auto simp: from_id_def)
  qed
  with m Inr show ?thesis by (cases e) (auto simp: huobi_GetWithdrawHistory_def)
qed

lemma fold_insert_withdrawals:
  "x \<in> set (fold (\<lambda>w. insert_new vr_id (huobi_withdraw_row_of account w)) ws rows) \<Longrightarrow>
    x \<in> set rows \<or> x \<in> huobi_withdraw_row_of account ` set ws"
  using fold_insert_new_Cons [of vr_id "huobi_withdraw_row_of account" ws rows] by auto

definition withdraw_env_ok :: "(string \<Rightarrow> HuobiWithdraw list) \<Rightarrow> huobi_net \<Rightarrow> huobi_keys \<Rightarrow> withdraw_env \<Rightarrow> bool" where
  "withdraw_env_ok H N K W \<longleftrightarrow> we_get W = client_GetWithdrawHistory N K \<and> withdraw_answers some_of H N \<and> withdraw_ids_ok H \<and>
     0 < we_attempts W \<and> (\<forall>xs. set (we_order W xs) = set xs) \<and> (\<forall>xs. set (we_ord W xs) = set xs)"

lemma fetch_withdraw_account_rows:
  assumes "withdraw_env_ok H N K W" "n + 1 < 2 ^ 64"
  shows "\<exists>rows' e. fetch_withdraw_account W n account rows = Some (rows', e) \<and>
    (\<forall>x\<in>set rows'. x \<in> set rows \<or> (vr_account x = account \<and> n < vr_id x))"
proof (cases "we_new W")
  case (Some e)
  then show ?thesis by (simp add: fetch_withdraw_account_def)
next
  case None
  have "get_answers some_of H (we_get W)" using assms(1) client_withdraws unfolding withdraw_env_ok_def by metis
  then obtain data e where data: "huobi_GetWithdrawHistory (we_get W) (we_attempts W) (we_currencies W) (we_order W) (n + 1) = Some (data, e)"
    "\<forall>p\<in>set data. \<forall>w\<in>set (snd p). n + 1 \<le> hw_ID w"
    using GetWithdrawHistory_ids assms(1) unfolding withdraw_env_ok_def by blast
  have n: "u64_add n 1 = n + 1" using assms(2) by (rule u64_add_id)
  show ?thesis
  proof (cases e)
    case (Some x)
    with data(1) None n show ?thesis by (simp add: fetch_withdraw_account_def)
  next
    case no_err: None
    let ?ws = "concat (map snd (we_ord W data))"
    obtain rows' e' where st: "huobi_UpdateWithdrawHistory (we_errors W) ?ws account rows = (rows', e')"
      by (cases "huobi_UpdateWithdrawHistory (we_errors W) ?ws account rows")
    have ws: "\<forall>w\<in>set ?ws. n + 1 \<le> hw_ID w" using data(2) assms(1) unfolding withdraw_env_ok_def by simp
    have "\<forall>x\<in>set rows'. x \<in> set rows \<or> (vr_account x = account \<and> n < vr_id x)"
      using st unfolding huobi_UpdateWithdrawHistory_def
    proof (cases rule: in_transaction_cases)
      case 2
      then have "rows' = fold (\<lambda>w. insert_new vr_id (huobi_withdraw_row_of account w)) ?ws rows" by (auto split: option.splits)
      then have "x \<in> set rows \<or> x \<in> huobi_withdraw_row_of account ` set ?ws" if "x \<in> set rows'" for x
        using that fold_insert_withdrawals by metis
      with ws show ?thesis by (fastforce simp: huobi_withdraw_row_of_def)
    qed auto
    with data(1) None n no_err st show ?thesis by (simp add: fetch_withdraw_account_def)
  qed
qed

section \<open>Properties\<close>

lemma symbol_total:
  assumes "withdraw_answers some_of H N" "withdraw_ids_ok H" "0 < attempts"
  shows "\<exists>r e. getWithdrawHistoryWithSymbol (client_GetWithdrawHistory N K) attempts n c = Some (r, e) \<and>
    set r \<subseteq> set (from_id n (H (lower c)))"
  using withdraw_pages_end [of "H (lower c)" "retryGetWithdrawal (client_GetWithdrawHistory N K) attempts c" n "[]"]
    withdraw_page [OF client_withdraws [OF assms(1)] assms(3)] assms(2)
  unfolding getWithdrawHistoryWithSymbol_def withdraw_ids_ok_def by auto

text \<open>The requests for a currency end, whatever order the answers have, and give only withdrawals from the given id on.\<close>

theorem getWithdrawHistoryWithSymbol_ends:
  assumes "withdraw_answers some_of H N" "withdraw_ids_ok H" "0 < attempts"
  shows "\<exists>r e. getWithdrawHistoryWithSymbol (client_GetWithdrawHistory N K) attempts n c = Some (r, e) \<and>
    set r \<subseteq> set (from_id n (H (lower c)))"
  using symbol_total [OF assms] .

text \<open>
  What they see depends on the order of the answers. With the oldest first it is everything from the id on; with the
  newest first, which is what the code takes for granted, it is one page: the older ones are never asked for.
\<close>

theorem getWithdrawHistoryWithSymbol_order:
  assumes "withdraw_answers (\<lambda>ws d. d = take limit ws) H N" "withdraw_ids_ok H" "0 < attempts" "0 < limit"
    and "getWithdrawHistoryWithSymbol (client_GetWithdrawHistory N K) attempts n c = Some (r, None)"
  shows "(sorted_wrt (\<lambda>v w. hw_ID v < hw_ID w) (H (lower c)) \<longrightarrow> set r = set (from_id n (H (lower c)))) \<and>
    (sorted_wrt (\<lambda>v w. hw_ID w < hw_ID v) (H (lower c)) \<longrightarrow> r = take limit (from_id n (H (lower c))))"
proof -
  let ?get = "retryGetWithdrawal (client_GetWithdrawHistory N K) attempts c"
  have ids: "\<forall>w\<in>set (H (lower c)). hw_ID w + 1 < 2 ^ 64" using assms(2) by (simp add: withdraw_ids_ok_def)
  have page: "?get n = Inr page \<Longrightarrow> page = take limit (from_id n (H (lower c)))" for n page
    using withdraw_page [OF client_withdraws [OF assms(1)] assms(3)] .
  have run: "withdraw_pages ?get n [] = Some (r, None)" using assms(5) by (simp add: getWithdrawHistoryWithSymbol_def)
  have "set r = set (from_id n (H (lower c)))" if "sorted_wrt (\<lambda>v w. hw_ID v < hw_ID w) (H (lower c))"
    using withdraw_pages_oldest_first [OF ids that assms(4) page run] by simp
  moreover have "r = take limit (from_id n (H (lower c)))" if "sorted_wrt (\<lambda>v w. hw_ID w < hw_ID v) (H (lower c))"
    using withdraw_pages_newest_first [where ws = "H (lower c)" and limit = limit and get = ?get and n = n and acc = "[]"]
      ids that assms(4) page run by auto
  ultimately show ?thesis by blast
qed

text \<open>
  When the requests for some currency fail, the fetcher returns nothing, but no error: the run for the account stores
  nothing of any currency and succeeds.
\<close>

theorem fetch_withdraw_accounts_error_lost:
  assumes "withdraw_env_ok H N K (env a)" "we_new (env a) = None" "we_currencies (env a) = Inr symbols" "c \<in> set symbols"
    and "getWithdrawHistoryWithSymbol (we_get (env a)) (we_attempts (env a)) (n + 1) c = Some (r, Some e)"
    and "0 < n" "n + 1 < 2 ^ 64" "we_errors (env a) = \<lparr> te_begin = None, te_stmt = (\<lambda>i. None), te_commit = None \<rparr>"
  shows "fetch_withdraw_accounts env None n [a] rows = Some (rows, None)"
proof -
  let ?W = "env a"
  let ?go = "getWithdrawHistoryWithSymbol (we_get ?W) (we_attempts ?W) (n + 1)"
  have "\<forall>s. ?go s \<noteq> None"
    using symbol_total assms(1) unfolding withdraw_env_ok_def by (metis option.distinct(1))
  moreover have "c \<in> set (we_order ?W symbols)" using assms(1,4) unfolding withdraw_env_ok_def by simp
  ultimately obtain m e' where "gather_names ?go (we_order ?W symbols) [] = Some (m, Some e')"
    using gather_names_error assms(5) by blast
  then have "huobi_GetWithdrawHistory (we_get ?W) (we_attempts ?W) (we_currencies ?W) (we_order ?W) (n + 1) = Some ([], None)"
    using assms(3) by (simp add: huobi_GetWithdrawHistory_def)
  moreover have "we_ord ?W [] = []" using assms(1) unfolding withdraw_env_ok_def by (metis set_empty)
  moreover have "u64_add n 1 = n + 1" using assms(7) by (rule u64_add_id)
  ultimately have "fetch_withdraw_account ?W n a rows = Some (rows, None)"
    using assms(2,8) by (simp add: fetch_withdraw_account_def huobi_UpdateWithdrawHistory_def in_transaction_def)
  with assms(6) show ?thesis by simp
qed

text \<open>
  The last stored id of the first account is the start of the second one too: its withdrawals up to that id are never
  stored.
\<close>

theorem fetch_withdraw_accounts_shared_id:
  assumes "withdraw_env_ok H N K (env a)" "withdraw_env_ok H' N' K' (env b)" "a \<noteq> b"
    and "GetLastIDStored (we_last (env a)) a rows = Inr n" "0 < n" "n + 1 < 2 ^ 64"
    and "fetch_withdraw_accounts env close 0 [a, b] rows = Some (rows', e)"
    and "x \<in> set rows'" "vr_account x = b"
  shows "x \<in> set rows \<or> n < vr_id x"
proof -
  obtain rows1 e1 where first: "fetch_withdraw_account (env a) n a rows = Some (rows1, e1)"
    "\<forall>x\<in>set rows1. x \<in> set rows \<or> (vr_account x = a \<and> n < vr_id x)"
    using fetch_withdraw_account_rows [OF assms(1,6)] by blast
  obtain rows2 e2 where second: "fetch_withdraw_account (env b) n b rows1 = Some (rows2, e2)"
    "\<forall>x\<in>set rows2. x \<in> set rows1 \<or> (vr_account x = b \<and> n < vr_id x)"
    using fetch_withdraw_account_rows [OF assms(2,6)] by blast
  have "rows' = rows1 \<or> rows' = rows2"
    using assms(4,5,7) first(1) second(1) by (auto split: if_splits)
  with assms(3,8,9) first(2) second(2) show ?thesis by blast
qed

section \<open>A concrete exchange\<close>

text \<open>
  Two withdrawals in one currency; an answer is the number of them from the id on, and the requests for any other
  currency fail.
\<close>

definition sample_withdraw :: "nat \<Rightarrow> HuobiWithdraw" where
  "sample_withdraw i = \<lparr> hw_ID = i, hw_Type = ''withdraw'', hw_Currency = ''knc'', hw_TxHash = ''0x1'', hw_Amount = 5, hw_Address = ''0x2'',
     hw_AddressTag = [], hw_Fee = 1, hw_State = ''confirmed'', hw_CreatedAt = 1500000000000, hw_UpdatedAt = 1500000000000 \<rparr>"

definition sample_withdraws :: "string \<Rightarrow> HuobiWithdraw list" where
  "sample_withdraws c = (if c = ''knc'' then [sample_withdraw 5, sample_withdraw 12] else [])"

definition withdraw_ok_response :: CommonResponse where
  "withdraw_ok_response = \<lparr> cr_Status = ''ok'', cr_ErrorCode = [], cr_ErrorMessage = [] \<rparr>"

definition withdraw_send :: "nat \<Rightarrow> string \<Rightarrow> params \<Rightarrow> (nat \<times> string) go" where
  "withdraw_send i path ps =
     (case (ps ''currency'', ps ''from'') of
       (Some c, Some n) \<Rightarrow>
         if c = ''knc'' then Inr (200, if text_value n \<le> 5 then ''2'' else if text_value n \<le> 12 then ''1'' else ''0'')
         else Inl (Err ''timeout'')
     | _ \<Rightarrow> Inl (Err ''timeout''))"

definition withdraw_net :: huobi_net where
  "withdraw_net = \<lparr> hn_wait = (\<lambda>i. None), hn_now = (\<lambda>i. ''now''), hn_send = withdraw_send, hn_sign = (\<lambda>k s. k @ s),
     hn_Encode = (\<lambda>ps. []), hn_accounts = (\<lambda>body. (([], withdraw_ok_response), None)),
     hn_orders = (\<lambda>body. (([], withdraw_ok_response), None)),
     hn_withdraws = (\<lambda>body. if body = ''2'' then (([sample_withdraw 5, sample_withdraw 12], withdraw_ok_response), None)
        else if body = ''1'' then (([sample_withdraw 12], withdraw_ok_response), None)
        else if body = ''0'' then (([], withdraw_ok_response), None) else (([], no_response), Some (Err ''not JSON''))),
     hn_symbols = (\<lambda>body. (([], withdraw_ok_response), None)), hn_currencies = (\<lambda>body. (([], withdraw_ok_response), None)) \<rparr>"

definition withdraw_keys :: huobi_keys where "withdraw_keys = \<lparr> hk_APIKey = ''key'', hk_SecretKey = ''secret'' \<rparr>"

definition sample_withdraw_env :: "string list \<Rightarrow> string \<Rightarrow> withdraw_env" where
  "sample_withdraw_env currencies a = \<lparr> we_last = None, we_new = None, we_get = client_GetWithdrawHistory withdraw_net withdraw_keys,
     we_attempts = 1, we_currencies = Inr currencies, we_order = rev, we_ord = rev,
     we_errors = \<lparr> te_begin = None, te_stmt = (\<lambda>i. None), te_commit = None \<rparr> \<rparr>"

lemma sample_withdraw_id [simp]: "hw_ID (sample_withdraw i) = i" by (simp add: sample_withdraw_def)

lemma sample_from_id:
  "from_id n (sample_withdraws c) = (if c = ''knc'' then (if n \<le> 5 then [sample_withdraw 5, sample_withdraw 12]
     else if n \<le> 12 then [sample_withdraw 12] else []) else [])"
  by (simp add: from_id_def sample_withdraws_def)

lemma sample_answers: "withdraw_answers (\<lambda>ws d. d = take 20 ws) sample_withdraws withdraw_net"
  unfolding withdraw_answers_def
  by (auto simp: withdraw_net_def withdraw_send_def sample_from_id withdraw_ok_response_def split: if_splits)

lemma sample_some: "withdraw_answers some_of sample_withdraws withdraw_net"
proof -
  have some: "some_of ws (take 20 ws)" for ws :: "HuobiWithdraw list" by (auto simp: some_of_def dest: in_set_takeD)
  show ?thesis using sample_answers some unfolding withdraw_answers_def by blast
qed

lemma sample_ids: "withdraw_ids_ok sample_withdraws"
  by (simp add: withdraw_ids_ok_def sample_withdraws_def)

lemma sample_env_ok: "withdraw_env_ok sample_withdraws withdraw_net withdraw_keys (sample_withdraw_env cs a)"
  using sample_some sample_ids by (simp add: withdraw_env_ok_def sample_withdraw_env_def)

lemma sample_retry:
  "retryGetWithdrawal (client_GetWithdrawHistory withdraw_net withdraw_keys) 1 c n =
     (if lower c = ''knc'' then Inr (from_id n (sample_withdraws ''knc'')) else Inl (Err ''timeout''))"
  by (simp add: retryGetWithdrawal_def huobi_retry_def client_GetWithdrawHistory_def sendRequest_def withdraw_net_def withdraw_send_def
      fillRequest_def sign_params_def withdraw_params_def response_body_def checked_reply_def withdraw_ok_response_def sample_from_id)

lemma lower_knc: "lower ''knc'' = ''knc''" "lower ''KNC'' = ''knc''" "lower ''eth'' \<noteq> ''knc''"
  by code_simp+

lemma sample_withdraw_pages:
  "getWithdrawHistoryWithSymbol (client_GetWithdrawHistory withdraw_net withdraw_keys) 1 0 ''KNC'' =
     Some ([sample_withdraw 5, sample_withdraw 12, sample_withdraw 12], None)"
proof -
  let ?get = "retryGetWithdrawal (client_GetWithdrawHistory withdraw_net withdraw_keys) 1 ''KNC''"
  have get: "?get n = Inr (if n \<le> 5 then [sample_withdraw 5, sample_withdraw 12] else if n \<le> 12 then [sample_withdraw 12] else [])" for n
    by (simp only: sample_retry lower_knc sample_from_id) simp
  have "withdraw_pages ?get 13 acc = Some (acc, None)" for acc by (subst withdraw_pages.simps) (simp only: get, simp)
  then have "withdraw_pages ?get 6 acc = Some (acc @ [sample_withdraw 12], None)" for acc
    by (subst withdraw_pages.simps) (simp only: get, simp add: u64_add_def)
  then show ?thesis unfolding getWithdrawHistoryWithSymbol_def
    by (subst withdraw_pages.simps) (simp only: get, simp add: u64_add_def)
qed

theorem getWithdrawHistoryWithSymbol_ends_witness:
  "\<exists>r e. getWithdrawHistoryWithSymbol (client_GetWithdrawHistory withdraw_net withdraw_keys) 3 6 ''KNC'' = Some (r, e) \<and>
     set r \<subseteq> {sample_withdraw 12}"
  using getWithdrawHistoryWithSymbol_ends [OF sample_some sample_ids, of 3 withdraw_keys 6 "''KNC''"]
  by (simp add: lower_knc sample_from_id)

theorem getWithdrawHistoryWithSymbol_order_witness:
  "set [sample_withdraw 5, sample_withdraw 12, sample_withdraw 12] = set (from_id 0 (sample_withdraws ''knc''))"
  using getWithdrawHistoryWithSymbol_order [OF sample_answers sample_ids _ _ sample_withdraw_pages]
  by (simp add: lower_knc sample_withdraws_def)

lemma sample_timeout:
  "getWithdrawHistoryWithSymbol (client_GetWithdrawHistory withdraw_net withdraw_keys) 1 n ''eth'' = Some ([], Some (Err ''timeout''))"
  unfolding getWithdrawHistoryWithSymbol_def by (subst withdraw_pages.simps) (simp only: sample_retry lower_knc, simp)

theorem fetch_withdraw_accounts_error_lost_witness:
  "fetch_withdraw_accounts (sample_withdraw_env [''knc'', ''eth'']) None 1 [''main''] [] = Some ([], None)"
  by (rule fetch_withdraw_accounts_error_lost [OF sample_env_ok, where symbols = "[''knc'', ''eth'']" and c = "''eth''" and r = "[]" and e = "Err ''timeout''"])
    (simp_all add: sample_withdraw_env_def sample_timeout [simplified])

theorem fetch_withdraw_accounts_shared_id_witness:
  "\<exists>rows' e. fetch_withdraw_accounts (sample_withdraw_env [''knc'']) None 0 [''a'', ''b''] [huobi_withdraw_row_of ''a'' (sample_withdraw 10)] = Some (rows', e) \<and>
     huobi_withdraw_row_of ''b'' (sample_withdraw 5) \<notin> set rows'"
proof -
  let ?env = "sample_withdraw_env [''knc'']" and ?rows = "[huobi_withdraw_row_of ''a'' (sample_withdraw 10)]"
  have acc: "GetLastIDStored (we_last (?env ''a'')) ''a'' ?rows = Inr 10"
    by (simp add: GetLastIDStored_def sample_withdraw_env_def huobi_withdraw_row_of_def Collect_conv_if)
  obtain rows1 e1 where one: "fetch_withdraw_account (?env ''a'') 10 ''a'' ?rows = Some (rows1, e1)"
    using fetch_withdraw_account_rows [OF sample_env_ok, of 10] by fastforce
  obtain rows2 e2 where two: "fetch_withdraw_account (?env ''b'') 10 ''b'' rows1 = Some (rows2, e2)"
    using fetch_withdraw_account_rows [OF sample_env_ok, of 10] by fastforce
  obtain rows' e where run: "fetch_withdraw_accounts ?env None 0 [''a'', ''b''] ?rows = Some (rows', e)"
    using acc one two by (cases e1; cases e2) auto
  have "huobi_withdraw_row_of ''b'' (sample_withdraw 5) \<notin> set rows'"
  proof
    assume "huobi_withdraw_row_of ''b'' (sample_withdraw 5) \<in> set rows'"
    from fetch_withdraw_accounts_shared_id [OF sample_env_ok sample_env_ok _ acc _ _ run this] show False
      by (simp add: huobi_withdraw_row_of_def)
  qed
  with run show ?thesis by blast
qed

end
