(* ===== verification/HuobiImport.thy ===== *)
theory HuobiImport
  imports HuobiTrades HuobiWithdrawals
begin

text \<open>
  The import of the two files with the history of the first Huobi account,
  \<open>accounting/cmd/accounting-huobi-import-data/main.go\<close>. The lines of a file are what \<open>encoding/csv\<close> reads; the parsers
  of \<open>strconv\<close> are parameters.
\<close>

section \<open>States of an order\<close>

datatype OrderState = PreSubmitted | Submitting | Submitted | PartialFilled | PartialCanceled | Filled | Canceled | Failed

fun state_code :: "OrderState \<Rightarrow> int" where
  "state_code PreSubmitted = 1"
| "state_code Submitting = 2"
| "state_code Submitted = 3"
| "state_code PartialFilled = 4"
| "state_code PartialCanceled = 5"
| "state_code Filled = 6"
| "state_code Canceled = 7"
| "state_code Failed = 8"

fun OrderState_String :: "OrderState \<Rightarrow> string" where
  "OrderState_String PreSubmitted = ''pre-submitted''"
| "OrderState_String Submitting = ''submitting''"
| "OrderState_String Submitted = ''submitted''"
| "OrderState_String PartialFilled = ''partial-filled''"
| "OrderState_String PartialCanceled = ''partial-canceled''"
| "OrderState_String Filled = ''filled''"
| "OrderState_String Canceled = ''canceled''"
| "OrderState_String Failed = ''failed''"

definition OrderStates :: "OrderState list" where
  "OrderStates = [PreSubmitted, Submitting, Submitted, PartialFilled, PartialCanceled, Filled, Canceled, Failed]"

text \<open>\<open>common.OrderState(n).String()\<close>, also for a number that is no state.\<close>

definition state_text :: "int \<Rightarrow> string" where
  "state_text n = (case List.find (\<lambda>s. state_code s = n) OrderStates of
     Some s \<Rightarrow> OrderState_String s
   | None \<Rightarrow> ''OrderState('' @ (if n < 0 then ''-'' else []) @ decimal (nat \<bar>n\<bar>) @ '')'')"

section \<open>Trades\<close>

record csv_text =
  cv_Int :: "string \<Rightarrow> int go"
  cv_Uint :: "string \<Rightarrow> nat go"
  cv_float :: float_text

definition order_types :: "string list" where
  "order_types = [[], ''buy-market'', ''sell-market'', ''buy-limit'', ''sell-limit'']"

text \<open>The columns of a line, in the order in which they are read.\<close>

record order_line =
  ol_id :: int
  ol_updated :: nat
  ol_type :: int
  ol_state :: int
  ol_amount :: f64
  ol_fee :: f64

definition parse_line :: "csv_text \<Rightarrow> string list \<Rightarrow> order_line go" where
  "parse_line C line =
     go_bind (go_bind (go_nth line 0) (cv_Int C)) (\<lambda>orderID.
     go_bind (go_bind (go_nth line 8) (cv_Uint C)) (\<lambda>updatedAt.
     go_bind (go_bind (go_nth line 2) (cv_Int C)) (\<lambda>orderType.
     go_bind (go_bind (go_nth line 4) (cv_Int C)) (\<lambda>orderState.
     go_bind (go_bind (go_nth line 6) (ft_Parse (cv_float C))) (\<lambda>orderAmount.
     go_bind (go_bind (go_nth line 7) (ft_Parse (cv_float C))) (\<lambda>orderFee.
       Inr \<lparr> ol_id = orderID, ol_updated = updatedAt, ol_type = orderType, ol_state = orderState, ol_amount = orderAmount,
             ol_fee = orderFee \<rparr>))))))"

text \<open>A negative index panics as well.\<close>

definition order_type :: "int \<Rightarrow> string go" where
  "order_type n = (if n < 0 then Inl (Panic ''index out of range'') else go_nth order_types (nat n))"

definition new_order :: "csv_text \<Rightarrow> string list \<Rightarrow> order_line \<Rightarrow> HuobiTrade go" where
  "new_order C line l =
     go_bind (go_nth line 1) (\<lambda>symbol.
     go_bind (order_type (ol_type l)) (\<lambda>type.
     go_bind (go_nth line 5) (\<lambda>price.
     go_bind (go_nth line 7) (\<lambda>fees.
       Inr (zero_trade\<lparr> ht_ID := ol_id l, ht_Symbol := symbol, ht_Source := ''api'', ht_Type := type, ht_Price := price,
         ht_State := state_text (ol_state l), ht_FieldFees := fees, ht_Amount := ft_Format (cv_float C) (ol_amount l),
         ht_CreatedAt := ol_updated l,
         ht_FinishedAt := (if ol_state l = state_code PartialCanceled \<or> ol_state l = state_code Filled then ol_updated l else 0),
         ht_CanceledAt := (if ol_state l = state_code Canceled then ol_updated l else 0) \<rparr>)))))"

definition added_text :: "csv_text \<Rightarrow> string \<Rightarrow> f64 \<Rightarrow> string go" where
  "added_text C s y = go_bind (ft_Parse (cv_float C) s) (\<lambda>x. Inr (ft_Format (cv_float C) (float64 (x + y))))"

definition import_line :: "csv_text \<Rightarrow> string list \<Rightarrow> (int \<times> HuobiTrade) list \<Rightarrow> (int \<times> HuobiTrade) list go" where
  "import_line C line m =
     go_bind (parse_line C line) (\<lambda>l.
       (case map_of m (ol_id l) of
          None \<Rightarrow> go_bind (new_order C line l) (\<lambda>t. Inr (AList.update (ol_id l) t m))
        | Some t \<Rightarrow>
            if ol_state l = state_code PartialFilled \<or> (ol_state l = state_code Filled \<and> ht_State t \<noteq> OrderState_String Filled) then
              go_bind (added_text C (ht_Amount t) (ol_amount l)) (\<lambda>amount.
              go_bind (added_text C (ht_FieldFees t) (ol_fee l)) (\<lambda>fee.
                Inr (AList.update (ol_id l) (t\<lparr> ht_Amount := amount, ht_FieldFees := fee, ht_State := state_text (ol_state l) \<rparr>) m)))
            else Inr m))"

fun import_lines :: "csv_text \<Rightarrow> string list list \<Rightarrow> (int \<times> HuobiTrade) list \<Rightarrow> (int \<times> HuobiTrade) list go" where
  "import_lines C [] m = Inr m"
| "import_lines C (line # ls) m = go_bind (import_line C line m) (import_lines C ls)"

definition import_account :: string where "import_account = ''huobi_v1_main''"

text \<open>The first line has the names of the columns.\<close>

definition importTradeHistory :: "csv_text \<Rightarrow> string list list go \<Rightarrow> tx_errors \<Rightarrow> ((int \<times> HuobiTrade) list \<Rightarrow> (int \<times> HuobiTrade) list)
    \<Rightarrow> huobi_row list \<Rightarrow> huobi_row list \<times> go_err option" where
  "importTradeHistory C file E ord rows =
     (case go_bind file (\<lambda>ls. import_lines C (drop 1 ls) []) of
        Inl e \<Rightarrow> (rows, Some e)
      | Inr m \<Rightarrow> huobi_UpdateTradeHistory E ord m import_account rows)"

section \<open>Withdrawals\<close>

definition import_withdraw :: "csv_text \<Rightarrow> string list \<Rightarrow> HuobiWithdraw go" where
  "import_withdraw C line =
     go_bind (go_bind (go_nth line 0) (cv_Uint C)) (\<lambda>withdrawID.
     go_bind (go_bind (go_nth line 3) (ft_Parse (cv_float C))) (\<lambda>amount.
     go_bind (go_bind (go_nth line 4) (ft_Parse (cv_float C))) (\<lambda>fee.
     go_bind (go_bind (go_nth line 5) (cv_Uint C)) (\<lambda>updatedAt.
     go_bind (go_nth line 1) (\<lambda>currency.
     go_bind (go_nth line 7) (\<lambda>hash.
     go_bind (go_nth line 6) (\<lambda>address.
       Inr \<lparr> hw_ID = withdrawID, hw_Type = ''withdraw'', hw_Currency = currency, hw_TxHash = hash, hw_Amount = amount,
         hw_Address = address, hw_AddressTag = [], hw_Fee = fee, hw_State = ''confirmed'', hw_CreatedAt = 0,
         hw_UpdatedAt = updatedAt \<rparr>)))))))"

fun import_withdraws :: "csv_text \<Rightarrow> string list list \<Rightarrow> HuobiWithdraw list go" where
  "import_withdraws C [] = Inr []"
| "import_withdraws C (line # ls) = go_bind (import_withdraw C line) (\<lambda>w. go_bind (import_withdraws C ls) (\<lambda>ws. Inr (w # ws)))"

definition importWithdrawHistory :: "csv_text \<Rightarrow> string list list go \<Rightarrow> tx_errors \<Rightarrow> huobi_withdraw_row list
    \<Rightarrow> huobi_withdraw_row list \<times> go_err option" where
  "importWithdrawHistory C file E rows =
     (case go_bind file (\<lambda>ls. import_withdraws C (drop 1 ls)) of
        Inl e \<Rightarrow> (rows, Some e)
      | Inr ws \<Rightarrow> huobi_UpdateWithdrawHistory E ws import_account rows)"

section \<open>The lines of one order\<close>

text \<open>What the lines of an order alone give: its amount and its last state.\<close>

definition order_step :: "order_line \<Rightarrow> (f64 \<times> string) option \<Rightarrow> (f64 \<times> string) option" where
  "order_step l acc =
     (case acc of
        None \<Rightarrow> Some (ol_amount l, state_text (ol_state l))
      | Some (x, s) \<Rightarrow>
          if ol_state l = 4 \<or> (ol_state l = 6 \<and> s \<noteq> ''filled'') then Some (float64 (x + ol_amount l), state_text (ol_state l))
          else Some (x, s))"

definition order_fold :: "int \<Rightarrow> order_line list \<Rightarrow> (f64 \<times> string) option \<Rightarrow> (f64 \<times> string) option" where
  "order_fold i ls acc = fold order_step (filter (\<lambda>l. ol_id l = i) ls) acc"

definition stored_order :: "csv_text \<Rightarrow> int \<Rightarrow> (int \<times> HuobiTrade) list \<Rightarrow> (f64 \<times> string) option \<Rightarrow> bool" where
  "stored_order C i m acc \<longleftrightarrow>
     map_option (\<lambda>t. (ht_Amount t, ht_State t)) (map_of m i) = map_option (\<lambda>(x, s). (ft_Format (cv_float C) x, s)) acc"

lemma import_line_step:
  assumes "\<forall>x. ft_Parse (cv_float C) (ft_Format (cv_float C) x) = Inr x" "import_line C line m = Inr m'" "stored_order C i m acc"
  shows "\<exists>l. parse_line C line = Inr l \<and> stored_order C i m' (if ol_id l = i then order_step l acc else acc)"
proof -
  from assms(2) obtain l where l: "parse_line C line = Inr l" by (auto simp: import_line_def go_bind_Inr_iff)
  show ?thesis
  proof (intro exI [of _ l] conjI l)
    show "stored_order C i m' (if ol_id l = i then order_step l acc else acc)"
    proof (cases "map_of m (ol_id l)")
      case None
      with assms(2) l obtain t where t: "new_order C line l = Inr t" "m' = AList.update (ol_id l) t m"
        by (auto simp: import_line_def go_bind_Inr_iff)
      then have "ht_Amount t = ft_Format (cv_float C) (ol_amount l)" "ht_State t = state_text (ol_state l)"
        by (auto simp: new_order_def go_bind_Inr_iff)
      with None t assms(3) show ?thesis by (auto simp: stored_order_def AList.update_conv' order_step_def)
    next
      case (Some t)
      show ?thesis
      proof (cases "ol_state l = 4 \<or> (ol_state l = 6 \<and> ht_State t \<noteq> ''filled'')")
        case True
        with assms(2) l Some obtain x fee where m': "ft_Parse (cv_float C) (ht_Amount t) = Inr x"
          "m' = AList.update (ol_id l) (t\<lparr> ht_Amount := ft_Format (cv_float C) (float64 (x + ol_amount l)), ht_FieldFees := fee,
             ht_State := state_text (ol_state l) \<rparr>) m"
          by (auto simp: import_line_def go_bind_Inr_iff added_text_def)
        show ?thesis
        proof (cases "ol_id l = i")
          case own: True
          with Some assms(3) obtain y where y: "acc = Some (y, ht_State t)" "ht_Amount t = ft_Format (cv_float C) y"
            by (cases acc) (auto simp: stored_order_def)
          with m'(1) assms(1) have "y = x" by simp
          with y True own show ?thesis by (auto simp: stored_order_def m'(2) AList.update_conv' order_step_def)
        next
          case False
          with assms(3) show ?thesis by (simp add: stored_order_def m'(2) AList.update_conv')
        qed
      next
        case False
        with assms(2) l Some have "m' = m" by (auto simp: import_line_def)
        moreover have "order_step l acc = acc" if "ol_id l = i"
        proof -
          from that Some assms(3) obtain y where "acc = Some (y, ht_State t)" by (cases acc) (auto simp: stored_order_def)
          with False show ?thesis by (auto simp: order_step_def)
        qed
        ultimately show ?thesis using assms(3) by simp
      qed
    qed
  qed
qed

lemma import_lines_fold:
  assumes "\<forall>x. ft_Parse (cv_float C) (ft_Format (cv_float C) x) = Inr x" "import_lines C lines m = Inr m'" "stored_order C i m acc"
  shows "\<exists>ls. list_all2 (\<lambda>line l. parse_line C line = Inr l) lines ls \<and> stored_order C i m' (order_fold i ls acc)"
  using assms(2,3)
proof (induction lines arbitrary: m acc)
  case Nil
  then show ?case by (auto simp: order_fold_def)
next
  case (Cons line lines)
  from Cons.prems(1) obtain m1 where m1: "import_line C line m = Inr m1" "import_lines C lines m1 = Inr m'"
    by (auto simp: go_bind_Inr_iff)
  from import_line_step [OF assms(1) m1(1) Cons.prems(2)] obtain l where l: "parse_line C line = Inr l"
    "stored_order C i m1 (if ol_id l = i then order_step l acc else acc)" by blast
  from Cons.IH [OF m1(2) l(2)] obtain ls where "list_all2 (\<lambda>line l. parse_line C line = Inr l) lines ls"
    "stored_order C i m' (order_fold i ls (if ol_id l = i then order_step l acc else acc))" by blast
  with l(1) show ?case by (intro exI [of _ "l # ls"]) (auto simp: order_fold_def)
qed

section \<open>Properties\<close>

text \<open>
  The amount and the state that are stored for an order are those that its own lines give, one after the other, however
  the lines of other orders stand between them: the amounts of partial fills are added up until the order is filled.
\<close>

theorem importTradeHistory_orders:
  assumes "\<forall>x. ft_Parse (cv_float C) (ft_Format (cv_float C) x) = Inr x" "import_lines C lines [] = Inr m"
  shows "\<exists>ls. list_all2 (\<lambda>line l. parse_line C line = Inr l) lines ls \<and>
    (\<forall>i. map_option (\<lambda>t. (ht_Amount t, ht_State t)) (map_of m i) =
      map_option (\<lambda>(x, s). (ft_Format (cv_float C) x, s)) (order_fold i ls None))"
proof -
  have one: "\<exists>ls. list_all2 (\<lambda>line l. parse_line C line = Inr l) lines ls \<and> stored_order C i m (order_fold i ls None)" for i
    by (rule import_lines_fold [OF assms]) (simp add: stored_order_def)
  obtain ls where ls: "list_all2 (\<lambda>line l. parse_line C line = Inr l) lines ls" using one [of 0] by blast
  have "ls' = ls" if "list_all2 (\<lambda>line l. parse_line C line = Inr l) lines ls'" for ls'
    using that ls by (auto simp: list_all2_conv_all_nth intro: nth_equalityI)
  with one ls show ?thesis unfolding stored_order_def by blast
qed

text \<open>
  An imported withdrawal has no time of creation, and the table is read by this time: no query from a time after the
  epoch gives it back.
\<close>

lemma import_withdraws_created: "import_withdraws C ls = Inr ws \<Longrightarrow> w \<in> set ws \<Longrightarrow> hw_CreatedAt w = 0"
  by (induction ls arbitrary: ws) (auto simp: go_bind_Inr_iff import_withdraw_def)

theorem importWithdrawHistory_unseen:
  assumes "importWithdrawHistory C file E rows = (rows', None)" "r \<in> set rows'" "r \<notin> set rows"
    and "0 < TimeToTimestampMs a" "\<forall>xs g. g \<in> set (grp xs) \<longrightarrow> set (snd g) \<subseteq> vr_data ` {x \<in> set xs. vr_account x = fst g}"
    and "load_withdrawals None grp a b rows' = Inr gs"
  shows "\<forall>g\<in>set gs. vr_data r \<notin> set (snd g)"
proof -
  from assms(1) obtain lines ws where ws: "import_withdraws C lines = Inr ws" "huobi_UpdateWithdrawHistory E ws import_account rows = (rows', None)"
    by (auto simp: importWithdrawHistory_def go_bind_Inr_iff split: sum.splits)
  have new: "x \<in> set rows \<or> x \<in> huobi_withdraw_row_of import_account ` set ws" if "x \<in> set rows'" for x
    using ws(2) unfolding huobi_UpdateWithdrawHistory_def
  proof (cases rule: in_transaction_cases)
    case 2
    then have "rows' = fold (\<lambda>w. insert_new vr_id (huobi_withdraw_row_of import_account w)) ws rows" by (auto split: option.splits)
    with that fold_insert_withdrawals show ?thesis by metis
  qed simp
  have zero: "hw_CreatedAt (vr_data r) = 0"
    using new [OF assms(2)] assms(3) import_withdraws_created [OF ws(1)] by (auto simp: huobi_withdraw_row_of_def)
  have "\<not> withdraw_in_range a b x" if "vr_data x = vr_data r" for x
    using zero_text_less [OF assms(4)] zero that by (simp add: withdraw_in_range_def text_less_def Let_def)
  moreover have "gs = grp (filter (withdraw_in_range a b) rows')" using assms(6) by (simp add: load_withdrawals_def)
  ultimately show ?thesis using assms(5) by fastforce
qed

section \<open>A concrete file\<close>

text \<open>Numbers in unary: a sign, the numerator in ones and the denominator in twos.\<close>

definition unary :: "f64 \<Rightarrow> string" where
  "unary x = (if x < 0 then ''-'' else []) @ replicate (nat \<bar>fst (quotient_of x)\<bar>) CHR ''1'' @
     replicate (nat (snd (quotient_of x))) CHR ''2''"

definition unary_value :: "string \<Rightarrow> f64 go" where
  "unary_value s = Inr ((if CHR ''-'' \<in> set s then -1 else 1) * of_nat (length (filter (\<lambda>c. c = CHR ''1'') s)) /
     of_nat (length (filter (\<lambda>c. c = CHR ''2'') s)))"

lemma unary_roundtrip: "unary_value (unary x) = Inr x"
proof -
  obtain a b where q: "quotient_of x = (a, b)" by (cases "quotient_of x")
  then have b: "0 < b" and x: "x = of_int a / of_int b" by (simp_all add: quotient_of_denom_pos quotient_of_div)
  have sign: "x < 0 \<longleftrightarrow> a < 0" using b by (simp add: x divide_less_0_iff)
  have "length (filter (\<lambda>c. c = CHR ''1'') (unary x)) = nat \<bar>a\<bar>" "length (filter (\<lambda>c. c = CHR ''2'') (unary x)) = nat b"
    "CHR ''-'' \<in> set (unary x) \<longleftrightarrow> x < 0"
    by (simp_all add: unary_def q)
  then show ?thesis using b sign by (simp add: unary_value_def x)
qed

definition sample_csv :: csv_text where
  "sample_csv = \<lparr> cv_Int = (\<lambda>s. Inr (int (text_value s))), cv_Uint = (\<lambda>s. Inr (text_value s)),
     cv_float = \<lparr> ft_Parse = unary_value, ft_Format = unary \<rparr> \<rparr>"

definition sample_line :: "string \<Rightarrow> string list" where
  "sample_line state = [''7'', ''knceth'', ''3'', [], state, ''1'', unary 5, unary 1, ''15'']"

definition sample_file :: "string list list" where "sample_file = [sample_line ''4'', sample_line ''6'']"

definition imported_order :: HuobiTrade where
  "imported_order = zero_trade\<lparr> ht_ID := 7, ht_Symbol := ''knceth'', ht_Source := ''api'', ht_Type := ''buy-limit'',
     ht_Price := ''1'', ht_State := ''filled'', ht_FieldFees := unary (float64 (1 + 1)), ht_Amount := unary (float64 (5 + 5)),
     ht_CreatedAt := 15 \<rparr>"

lemma sample_digits: "text_value ''7'' = 7" "text_value ''3'' = 3" "text_value ''4'' = 4" "text_value ''6'' = 6" "text_value ''15'' = 15"
  by (simp_all add: text_value_def)

lemma sample_states: "state_text 4 = ''partial-filled''" "state_text 6 = ''filled''"
  by (simp_all add: state_text_def OrderStates_def)

lemma sample_import: "import_lines sample_csv sample_file [] = Inr [(7, imported_order)]"
  by (simp add: sample_file_def sample_line_def import_line_def parse_line_def go_nth_def sample_csv_def sample_digits unary_roundtrip
      new_order_def order_type_def order_types_def sample_states added_text_def imported_order_def zero_trade_def)

theorem importTradeHistory_orders_witness:
  "\<exists>ls. list_all2 (\<lambda>line l. parse_line sample_csv line = Inr l) sample_file ls \<and>
     map_option (\<lambda>(x, s). (unary x, s)) (order_fold 7 ls None) = Some (unary (float64 (5 + 5)), ''filled'')"
proof -
  have "\<forall>x. ft_Parse (cv_float sample_csv) (ft_Format (cv_float sample_csv) x) = Inr x"
    by (simp add: sample_csv_def unary_roundtrip)
  from importTradeHistory_orders [OF this sample_import] obtain ls where
    ls: "list_all2 (\<lambda>line l. parse_line sample_csv line = Inr l) sample_file ls"
    "\<forall>i. map_option (\<lambda>t. (ht_Amount t, ht_State t)) (map_of [(7, imported_order)] i) =
      map_option (\<lambda>(x, s). (ft_Format (cv_float sample_csv) x, s)) (order_fold i ls None)" by blast
  from ls(2) [rule_format, of 7] have "map_option (\<lambda>(x, s). (unary x, s)) (order_fold 7 ls None) = Some (unary (float64 (5 + 5)), ''filled'')"
    by (simp add: imported_order_def sample_csv_def)
  with ls(1) show ?thesis by blast
qed

definition sample_withdraw_file :: "string list list" where
  "sample_withdraw_file = [[], [''7'', ''knc'', [], unary 5, unary 1, ''15'', ''0x1'', ''0x2'']]"

definition imported_withdraw :: HuobiWithdraw where
  "imported_withdraw = \<lparr> hw_ID = 7, hw_Type = ''withdraw'', hw_Currency = ''knc'', hw_TxHash = ''0x2'', hw_Amount = 5,
     hw_Address = ''0x1'', hw_AddressTag = [], hw_Fee = 1, hw_State = ''confirmed'', hw_CreatedAt = 0, hw_UpdatedAt = 15 \<rparr>"

definition all_ok :: tx_errors where "all_ok = \<lparr> te_begin = None, te_stmt = (\<lambda>n. None), te_commit = None \<rparr>"

definition group_withdraws :: "huobi_withdraw_row list \<Rightarrow> (string \<times> HuobiWithdraw list) list" where
  "group_withdraws rows = map (\<lambda>a. (a, map vr_data (filter (\<lambda>r. vr_account r = a) rows))) (remdups (map vr_account rows))"

theorem importWithdrawHistory_unseen_witness:
  "\<exists>gs. load_withdrawals None group_withdraws 1000000 (10 ^ 18) [huobi_withdraw_row_of import_account imported_withdraw] = Inr gs \<and>
     list_all (\<lambda>g. imported_withdraw \<notin> set (snd g)) gs"
proof -
  let ?r = "huobi_withdraw_row_of import_account imported_withdraw"
  have run: "importWithdrawHistory sample_csv (Inr sample_withdraw_file) all_ok [] = ([?r], None)"
    by (simp add: importWithdrawHistory_def sample_withdraw_file_def import_withdraw_def go_nth_def sample_csv_def sample_digits
        unary_roundtrip huobi_UpdateWithdrawHistory_def in_transaction_def all_ok_def imported_withdraw_def insert_new_def)
  have grp: "\<forall>xs g. g \<in> set (group_withdraws xs) \<longrightarrow> set (snd g) \<subseteq> vr_data ` {x \<in> set xs. vr_account x = fst g}"
    by (auto simp: group_withdraws_def)
  obtain gs where gs: "load_withdrawals None group_withdraws 1000000 (10 ^ 18) [?r] = Inr gs" by (simp add: load_withdrawals_def)
  have "0 < TimeToTimestampMs 1000000" by (simp add: TimeToTimestampMs_nonneg)
  from importWithdrawHistory_unseen [OF run _ _ this grp gs, of ?r] gs show ?thesis
    by (simp add: list_all_iff huobi_withdraw_row_of_def)
qed

end
