(* ===== verification/UserStats.thy ===== *)
theory UserStats
  imports Blockchain GoFloat Tables
begin

text \<open>
  The caps of the users: the configuration of \<open>users/common/caps.go\<close> and \<open>users/common/black_list.go\<close>, the two cachers of
  \<open>users/cacher/\<close> that write the volume of the last day into Redis, and the handlers of \<open>users/http/server.go\<close> and
  \<open>users/public-server/server.go\<close> that read it.

  Redis holds a number with the time at which it expires for each key. The answer of InfluxDB, the validators, the
  conversions of go-ethereum, the rate and the failures of Redis are parameters.
\<close>

section \<open>Caps\<close>

record UserCap =
  uc_DailyLimit :: f64
  uc_TxLimit :: f64

record UserCapConfiguration =
  NonKYC :: UserCap
  KYC :: UserCap

definition NewUserCapConfiguration :: "f64 \<Rightarrow> f64 \<Rightarrow> f64 \<Rightarrow> f64 \<Rightarrow> UserCapConfiguration" where
  "NewUserCapConfiguration nonKYCDailyLimit nonKYCTxLimit kycDailyLimit kycTxLimit =
     \<lparr> NonKYC = \<lparr> uc_DailyLimit = nonKYCDailyLimit, uc_TxLimit = nonKYCTxLimit \<rparr>,
       KYC = \<lparr> uc_DailyLimit = kycDailyLimit, uc_TxLimit = kycTxLimit \<rparr> \<rparr>"

definition user_cap :: "UserCapConfiguration \<Rightarrow> bool \<Rightarrow> UserCap" where
  "user_cap c kyced = (if kyced then KYC c else NonKYC c)"

definition IsRich :: "UserCapConfiguration \<Rightarrow> bool \<Rightarrow> f64 \<Rightarrow> bool" where
  "IsRich c kyced volume \<longleftrightarrow> uc_DailyLimit (NonKYC c) \<le> volume"

text \<open>The file with the list has an array of addresses; \<open>decode\<close> is the result of opening and reading it.\<close>

definition newBlacklist :: "addr list go \<Rightarrow> addr set go" where
  "newBlacklist decode = go_bind decode (\<lambda>data. Inr (fold insert data {}))"

definition IsBanned :: "addr set \<Rightarrow> addr \<Rightarrow> bool" where "IsBanned bl a \<longleftrightarrow> a \<in> bl"

text \<open>
  A quotient by zero is infinite or not a number, and its conversion to \<open>int64\<close>, as that of every number out of the
  range, is the least number (on amd64).
\<close>

definition float_quo :: "f64 \<Rightarrow> f64 \<Rightarrow> f64 option" where
  "float_quo x y = (if y = 0 then None else Some (float64 (x / y)))"

definition float_int64 :: "f64 option \<Rightarrow> int" where
  "float_int64 x =
     (case x of
        None \<Rightarrow> - (2 ^ 63)
      | Some x \<Rightarrow> if - (2 ^ 63) \<le> go_trunc x \<and> go_trunc x < 2 ^ 63 then go_trunc x else - (2 ^ 63))"

definition floatToBigInt :: "f64 option \<Rightarrow> nat \<Rightarrow> int" where
  "floatToBigInt amount decimal =
     (if decimal < 6 then float_int64 (map_option (\<lambda>x. float64 (x * 10 ^ decimal)) amount)
      else float_int64 (map_option (\<lambda>x. float64 (x * 10 ^ 6)) amount) * 10 ^ (decimal - 6))"

definition EthToWei :: "f64 option \<Rightarrow> int" where "EthToWei n = floatToBigInt n 18"

section \<open>The cache in Redis\<close>

type_synonym redis = "string \<Rightarrow> (f64 \<times> gotime) option"

definition redis_get :: "redis \<Rightarrow> gotime \<Rightarrow> string \<Rightarrow> f64 option" where
  "redis_get r now key = (case r key of Some (x, expires) \<Rightarrow> if now < expires then Some x else None | None \<Rightarrow> None)"

text \<open>The answer of InfluxDB: results with series, each with its tags and its rows of values.\<close>

datatype influx_value = NoValue | JSONNumber string | OtherValue

record influx_series =
  is_tag :: string
  is_values :: "influx_value list list"

text \<open>\<open>GetFloat64FromInterface\<close>; \<open>parse\<close> is \<open>json.Number.Float64\<close>.\<close>

fun GetFloat64FromInterface :: "(string \<Rightarrow> f64 go) \<Rightarrow> influx_value \<Rightarrow> f64 go" where
  "GetFloat64FromInterface parse NoValue = Inr 0"
| "GetFloat64FromInterface parse (JSONNumber s) = parse s"
| "GetFloat64FromInterface parse OtherValue = Inl (Err ''invalid number value'')"

text \<open>The guard looks at the first series only; the loop reads the second value of the first row of each.\<close>

definition no_record :: "influx_series list list \<Rightarrow> bool" where
  "no_record res \<longleftrightarrow> res = [] \<or> hd res = [] \<or> is_values (hd (hd res)) = [] \<or> length (hd (is_values (hd (hd res)))) < 2"

definition series_value :: "influx_series \<Rightarrow> influx_value go" where
  "series_value s = go_bind (go_nth (is_values s) 0) (\<lambda>row. go_nth row 1)"

text \<open>
  The commands that are put into the pipeline: the keys with their values. A value that is no number ends the function
  without an error and without the pipeline being executed, which is \<open>Inr None\<close>.
\<close>

fun pipeline_sets :: "(string \<Rightarrow> f64 go) \<Rightarrow> string \<Rightarrow> influx_series list \<Rightarrow> (string \<times> f64) list option go" where
  "pipeline_sets parse prefix [] = Inr (Some [])"
| "pipeline_sets parse prefix (s # ss) =
     go_bind (series_value s) (\<lambda>v.
       (case GetFloat64FromInterface parse v of
          Inl e \<Rightarrow> Inr None
        | Inr x \<Rightarrow> go_bind (pipeline_sets parse prefix ss) (\<lambda>cmds.
            Inr (map_option (\<lambda>cmds. (prefix @ '':'' @ is_tag s, x) # cmds) cmds))))"

definition redis_exec :: "(string \<times> f64) list \<Rightarrow> gotime \<Rightarrow> redis \<Rightarrow> redis" where
  "redis_exec cmds expires = fold (\<lambda>c r. r(fst c \<mapsto> (snd c, expires))) cmds"

text \<open>\<open>cacheRichUser\<close> and \<open>cache24hVolumeByUID\<close>: they differ in the query and in the prefix of the keys.\<close>

definition cache_volumes :: "string \<Rightarrow> (string \<Rightarrow> f64 go) \<Rightarrow> influx_series list list go \<Rightarrow> go_err option \<Rightarrow> duration \<Rightarrow> gotime \<Rightarrow> redis
    \<Rightarrow> redis \<times> go_err option" where
  "cache_volumes prefix parse query exec expiration now r =
     (case query of
        Inl e \<Rightarrow> (r, Some e)
      | Inr res \<Rightarrow>
          if no_record res then (r, None)
          else (case pipeline_sets parse prefix (hd res) of
             Inl e \<Rightarrow> (r, Some e)
           | Inr None \<Rightarrow> (r, None)
           | Inr (Some cmds) \<Rightarrow>
               (case exec of
                  Some e \<Rightarrow> (r, Some e)
                | None \<Rightarrow> (redis_exec cmds (now + expiration) r, None))))"

definition richPrefix :: string where "richPrefix = ''rich''"
definition uidPrefix :: string where "uidPrefix = ''uid''"

definition CacheUserInfo :: "(string \<Rightarrow> f64 go) \<Rightarrow> influx_series list list go \<Rightarrow> go_err option \<Rightarrow> duration \<Rightarrow> gotime \<Rightarrow> redis
    \<Rightarrow> redis \<times> go_err option" where
  "CacheUserInfo = cache_volumes richPrefix"

definition Cache24hVolume :: "(string \<Rightarrow> f64 go) \<Rightarrow> influx_series list list go \<Rightarrow> go_err option \<Rightarrow> duration \<Rightarrow> gotime \<Rightarrow> redis
    \<Rightarrow> redis \<times> go_err option" where
  "Cache24hVolume = cache_volumes uidPrefix"

section \<open>The servers\<close>

text \<open>What a command of Redis answers: a number, nil, a value that is no number, or an error.\<close>

datatype redis_answer = RNumber f64 | RNil | RBad go_err | RError go_err

text \<open>\<open>us_fail key\<close> is how the command for a key fails, if it does.\<close>

record user_server =
  us_conf :: UserCapConfiguration
  us_blacklist :: "addr set"
  us_maxBatchSize :: nat
  us_IsHexAddress :: "string \<Rightarrow> bool"
  us_HexToAddress :: "string \<Rightarrow> addr"
  us_redis :: redis
  us_now :: gotime
  us_fail :: "string \<Rightarrow> redis_answer option"
  us_exec :: "go_err option"
  us_rate :: "f64 go"

definition redis_answer_of :: "user_server \<Rightarrow> string \<Rightarrow> redis_answer" where
  "redis_answer_of S key =
     (case us_fail S key of
        Some a \<Rightarrow> a
      | None \<Rightarrow> (case redis_get (us_redis S) (us_now S) key of None \<Rightarrow> RNil | Some x \<Rightarrow> RNumber x))"

fun answer_volume :: "redis_answer \<Rightarrow> f64 go" where
  "answer_volume (RNumber x) = Inr x"
| "answer_volume RNil = Inr 0"
| "answer_volume (RBad e) = Inl e"
| "answer_volume (RError e) = Inl e"

definition volume_of_key :: "user_server \<Rightarrow> string \<Rightarrow> string \<Rightarrow> f64 go" where
  "volume_of_key S prefix name = answer_volume (redis_answer_of S (prefix @ '':'' @ name))"

definition getUserVolumeByUID :: "user_server \<Rightarrow> string \<Rightarrow> f64 go" where
  "getUserVolumeByUID S uid = volume_of_key S uidPrefix uid"

text \<open>The first command that failed is the error of \<open>Exec\<close>, unless the connection failed.\<close>

fun first_failure :: "redis_answer list \<Rightarrow> go_err option" where
  "first_failure [] = None"
| "first_failure (RNil # as) = None"
| "first_failure (RError e # as) = Some e"
| "first_failure (a # as) = first_failure as"

fun batch_volumes :: "redis_answer list \<Rightarrow> f64 list go" where
  "batch_volumes [] = Inr []"
| "batch_volumes (a # as) =
     go_bind (case a of
        RNumber x \<Rightarrow> Inr x
      | RNil \<Rightarrow> Inr 0
      | RBad e \<Rightarrow> Inl (errors_Wrap ''failed to convert result to float64'' e)
      | RError e \<Rightarrow> Inl (errors_Wrap ''failed to exec singer cmd'' e)) (\<lambda>x.
     go_bind (batch_volumes as) (\<lambda>xs. Inr (x # xs)))"

definition getUserVolumeByUIDs :: "user_server \<Rightarrow> string list \<Rightarrow> f64 list go" where
  "getUserVolumeByUIDs S uids =
     (let answers = map (\<lambda>uid. redis_answer_of S (uidPrefix @ '':'' @ uid)) uids in
      (case (case us_exec S of Some e \<Rightarrow> Some e | None \<Rightarrow> first_failure answers) of
         Some e \<Rightarrow> Inl (errors_Wrap ''failed to exec pipeline'' e)
       | None \<Rightarrow> batch_volumes answers))"

text \<open>\<open>strings.Split(s, ",")\<close>: one text even when \<open>s\<close> is empty.\<close>

fun split_comma :: "string \<Rightarrow> string list" where
  "split_comma [] = [[]]"
| "split_comma (c # s) =
     (if c = CHR '','' then [] # split_comma s
      else (case split_comma s of [] \<Rightarrow> [[c]] | w # ws \<Rightarrow> (c # w) # ws))"

definition ParseBool :: "string \<Rightarrow> bool go" where
  "ParseBool s =
     (if s \<in> set [''1'', ''t'', ''T'', ''TRUE'', ''true'', ''True''] then Inr True
      else if s \<in> set [''0'', ''f'', ''F'', ''FALSE'', ''false'', ''False''] then Inr False
      else Inl (Err (''strconv.ParseBool: parsing '' @ s @ '': invalid syntax'')))"

record batch_query =
  bq_UIDs :: string
  bq_Addresses :: string
  bq_KYCed :: string

definition convert_address :: "user_server \<Rightarrow> string \<Rightarrow> addr go" where
  "convert_address S s =
     (if us_IsHexAddress S s then Inr (us_HexToAddress S s) else Inl (Err (''input '' @ s @ '' is not a address'')))"

definition convertQueryParams :: "user_server \<Rightarrow> batch_query \<Rightarrow> (string list \<times> addr list \<times> bool list) go" where
  "convertQueryParams S q =
     (let uidArr = split_comma (bq_UIDs q) in
      go_bind (go_map ParseBool (split_comma (bq_KYCed q))) (\<lambda>kycedArr.
        if us_maxBatchSize S \<le> length uidArr then Inl (Err ''batch size is too big'')
        else if length uidArr \<noteq> length kycedArr then Inl (Err ''len uids and kyced are not match'')
        else go_bind (go_map (convert_address S) (split_comma (bq_Addresses q))) (\<lambda>addresses.
          if length addresses \<noteq> length uidArr then Inl (Err ''len uids and addresses are not match'')
          else Inr (uidArr, addresses, kycedArr))))"

record user_stats =
  st_cap :: int
  st_kyced :: bool
  st_rich :: bool
  st_volume :: int
  st_remaining :: int

definition banned_stats :: "bool \<Rightarrow> user_stats" where
  "banned_stats kyced = \<lparr> st_cap = 0, st_kyced = kyced, st_rich = False, st_volume = 0, st_remaining = 0 \<rparr>"

text \<open>What both handlers compute for a user, who is not banned, from the volume and the rate.\<close>

definition stats_of :: "UserCapConfiguration \<Rightarrow> f64 \<Rightarrow> bool \<Rightarrow> f64 \<Rightarrow> user_stats" where
  "stats_of conf rate kyced volume =
     (let userCap = EthToWei (float_quo (uc_TxLimit (user_cap conf kyced)) rate);
          volumeInWei = EthToWei (float_quo volume rate);
          userCapDaily = EthToWei (float_quo (uc_DailyLimit (user_cap conf kyced)) rate);
          availableUserCapDaily = userCapDaily - volumeInWei
      in \<lparr> st_cap = (if availableUserCapDaily < userCap then availableUserCapDaily else userCap), st_kyced = kyced,
           st_rich = IsRich conf kyced volume, st_volume = volumeInWei, st_remaining = availableUserCapDaily \<rparr>)"

text \<open>An answer is the code of an error or the body. \<open>None\<close> is a query that the binding refuses.\<close>

type_synonym 'a answer = "nat + 'a"

record stats_query =
  sq_UID :: string
  sq_Address :: string
  sq_KYCed :: bool

definition userStats :: "user_server \<Rightarrow> stats_query option \<Rightarrow> user_stats answer" where
  "userStats S input =
     (case input of
        None \<Rightarrow> Inl 400
      | Some q \<Rightarrow>
          if IsBanned (us_blacklist S) (us_HexToAddress S (sq_Address q)) then Inr (banned_stats (sq_KYCed q))
          else (case getUserVolumeByUID S (sq_UID q) of
             Inl e \<Rightarrow> Inl 500
           | Inr volume \<Rightarrow> (case us_rate S of
               Inl e \<Rightarrow> Inl 500
             | Inr rate \<Rightarrow> Inr (stats_of (us_conf S) rate (sq_KYCed q) volume))))"

fun batch_stats :: "user_server \<Rightarrow> f64 \<Rightarrow> string list \<Rightarrow> addr list \<Rightarrow> bool list \<Rightarrow> f64 list \<Rightarrow> user_stats list" where
  "batch_stats S rate (u # us) (a # as) (k # ks) (v # vs) =
     (if IsBanned (us_blacklist S) a then banned_stats k else stats_of (us_conf S) rate k v) # batch_stats S rate us as ks vs"
| "batch_stats S rate _ _ _ _ = []"

definition userStatsBatch :: "user_server \<Rightarrow> batch_query option \<Rightarrow> user_stats list answer" where
  "userStatsBatch S input =
     (case input of
        None \<Rightarrow> Inl 400
      | Some q \<Rightarrow> (case convertQueryParams S q of
          Inl e \<Rightarrow> Inl 500
        | Inr (uidArr, addressArr, kycedArr) \<Rightarrow> (case getUserVolumeByUIDs S uidArr of
            Inl e \<Rightarrow> Inl 500
          | Inr volume \<Rightarrow> (case us_rate S of
              Inl e \<Rightarrow> Inl 500
            | Inr rate \<Rightarrow> Inr (batch_stats S rate uidArr addressArr kycedArr volume)))))"

text \<open>The public server: the cap of a transaction and whether the user is rich, without a limit for the day.\<close>

record UserResponse =
  rs_Cap :: int
  rs_Rich :: bool

definition getUsers :: "user_server \<Rightarrow> string option \<Rightarrow> UserResponse answer" where
  "getUsers S address =
     (case address of
        None \<Rightarrow> Inl 400
      | Some a \<Rightarrow>
          if IsBanned (us_blacklist S) (us_HexToAddress S a) then Inr \<lparr> rs_Cap = 0, rs_Rich = False \<rparr>
          else (case volume_of_key S richPrefix a of
             Inl e \<Rightarrow> Inl 500
           | Inr volume \<Rightarrow> (case us_rate S of
               Inl e \<Rightarrow> Inl 500
             | Inr rate \<Rightarrow> Inr \<lparr> rs_Cap = EthToWei (float_quo (uc_TxLimit (user_cap (us_conf S) False)) rate),
                             rs_Rich = IsRich (us_conf S) False volume \<rparr>)))"

section \<open>Lemmas\<close>

lemma split_comma_not_Nil [simp]: "split_comma s \<noteq> []"
  by (induction s) (auto split: list.splits)

lemma batch_volumes_Inr:
  "batch_volumes as = Inr xs \<Longrightarrow> length xs = length as \<and> (\<forall>i<length as. answer_volume (as ! i) = Inr (xs ! i))"
proof (induction as arbitrary: xs)
  case (Cons a as)
  then show ?case by (cases a) (auto simp: go_bind_Inr_iff nth_Cons split: nat.splits)
qed simp

lemma batch_stats_nth:
  assumes "length as = length us" "length ks = length us" "length vs = length us"
  shows "length (batch_stats S rate us as ks vs) = length us \<and>
    (\<forall>i<length us. batch_stats S rate us as ks vs ! i =
      (if IsBanned (us_blacklist S) (as ! i) then banned_stats (ks ! i) else stats_of (us_conf S) rate (ks ! i) (vs ! i)))"
  using assms
proof (induction S rate us as ks vs rule: batch_stats.induct)
  case (1 S rate u us a as k ks v vs)
  then show ?case by (auto simp: nth_Cons split: nat.splits)
qed auto

lemma go_trunc_bounds: "0 \<le> x \<Longrightarrow> x - 1 < of_int (go_trunc x) \<and> of_int (go_trunc x) \<le> x"
  by (simp add: go_trunc_def) linarith

lemma float64_error: "0 \<le> x \<Longrightarrow> \<bar>float64 x - x\<bar> \<le> x / 2 ^ 53"
proof -
  assume x: "0 \<le> x"
  have p: "2 powi (- int 53) = (1 / 2 ^ 53 :: rat)" by (simp only: power_int_minus power_int_of_nat inverse_eq_divide)
  have "\<bar>float64 x - x\<bar> \<le> \<bar>x\<bar> * (1 / 2 ^ 53)" using round_prec_error [of 53 x] unfolding p float64_def .
  then show ?thesis using x by (simp only: abs_of_nonneg mult_1_right times_divide_eq_right)
qed

lemma float64_nonneg: "0 \<le> x \<Longrightarrow> 0 \<le> float64 x"
proof -
  assume x: "0 \<le> x"
  then have "x / 2 ^ 53 \<le> x" by simp
  with float64_error [OF x] show ?thesis by linarith
qed

lemma pipeline_sets_cmds:
  assumes "pipeline_sets parse prefix ss = Inr (Some cmds)"
  shows "list_all2 (\<lambda>s c. fst c = prefix @ '':'' @ is_tag s \<and>
    go_bind (series_value s) (GetFloat64FromInterface parse) = Inr (snd c)) ss cmds"
  using assms
proof (induction ss arbitrary: cmds)
  case (Cons s ss)
  from Cons.prems obtain v where v: "series_value s = Inr v" by (auto simp: go_bind_Inr_iff)
  with Cons.prems obtain x where x: "GetFloat64FromInterface parse v = Inr x" by (cases "GetFloat64FromInterface parse v") auto
  with Cons.prems v obtain cmds' where "pipeline_sets parse prefix ss = Inr (Some cmds')" "cmds = (prefix @ '':'' @ is_tag s, x) # cmds'"
    by (auto simp: go_bind_Inr_iff)
  with Cons.IH [of cmds'] v x show ?case by simp
qed simp

lemma redis_exec_other: "k \<notin> fst ` set cmds \<Longrightarrow> redis_exec cmds expires r k = r k"
  unfolding redis_exec_def by (induction cmds arbitrary: r) auto

lemma redis_exec_key:
  assumes "distinct (map fst cmds)" "(k, x) \<in> set cmds"
  shows "redis_exec cmds expires r k = Some (x, expires)"
  using assms
proof (induction cmds arbitrary: r)
  case (Cons c cmds)
  show ?case
  proof (cases "c = (k, x)")
    case True
    with Cons.prems redis_exec_other [of k cmds expires "r(k \<mapsto> (x, expires))"] show ?thesis by (simp add: redis_exec_def)
  next
    case False
    with Cons.prems Cons.IH show ?thesis by (simp add: redis_exec_def)
  qed
qed simp

section \<open>Properties\<close>

text \<open>
  C29: The answer for several users is, for each of them, the answer that the query for this user alone would have: the same
  address, flag and id at the same place of the three lists.
\<close>

theorem userStatsBatch_each:
  assumes "userStatsBatch S (Some q) = Inr outs"
  shows "length outs = length (split_comma (bq_UIDs q)) \<and> length outs < us_maxBatchSize S \<and>
    (\<forall>i<length outs. \<exists>kyced. ParseBool (split_comma (bq_KYCed q) ! i) = Inr kyced \<and>
       userStats S (Some \<lparr> sq_UID = split_comma (bq_UIDs q) ! i, sq_Address = split_comma (bq_Addresses q) ! i, sq_KYCed = kyced \<rparr>) =
         Inr (outs ! i))"
proof -
  let ?us = "split_comma (bq_UIDs q)" and ?as = "split_comma (bq_Addresses q)" and ?ks = "split_comma (bq_KYCed q)"
  from assms obtain addresses kyced volume rate where
    params: "convertQueryParams S q = Inr (?us, addresses, kyced)" and
    volume: "getUserVolumeByUIDs S ?us = Inr volume" and rate: "us_rate S = Inr rate" and
    outs: "outs = batch_stats S rate ?us addresses kyced volume"
    by (auto simp: userStatsBatch_def convertQueryParams_def Let_def go_bind_Inr_iff split: sum.splits if_splits)
  from params have conv: "go_map ParseBool ?ks = Inr kyced" "go_map (convert_address S) ?as = Inr addresses"
    "length ?us < us_maxBatchSize S" "length kyced = length ?us" "length addresses = length ?us"
    by (auto simp: convertQueryParams_def Let_def go_bind_Inr_iff split: if_splits)
  note ks = go_map_Inr [OF conv(1)] and as = go_map_Inr [OF conv(2)]
  let ?answers = "map (\<lambda>uid. redis_answer_of S (uidPrefix @ '':'' @ uid)) ?us"
  from volume have "batch_volumes ?answers = Inr volume"
    by (auto simp: getUserVolumeByUIDs_def Let_def split: option.splits)
  from batch_volumes_Inr [OF this] have vs: "length volume = length ?us"
    "\<forall>i<length ?us. getUserVolumeByUID S (?us ! i) = Inr (volume ! i)"
    by (simp_all add: getUserVolumeByUID_def volume_of_key_def)
  note each = batch_stats_nth [OF conv(5,4) vs(1), of S rate]
  have "userStats S (Some \<lparr> sq_UID = ?us ! i, sq_Address = ?as ! i, sq_KYCed = kyced ! i \<rparr>) = Inr (outs ! i)"
    if "i < length ?us" for i
  proof -
    have "convert_address S (?as ! i) = Inr (addresses ! i)" using as that conv(5) by simp
    then have "addresses ! i = us_HexToAddress S (?as ! i)" by (simp add: convert_address_def split: if_splits)
    with each that vs(2) rate outs show ?thesis by (simp add: userStats_def)
  qed
  moreover have "ParseBool (?ks ! i) = Inr (kyced ! i)" if "i < length ?us" for i using ks that conv(4) by simp
  ultimately show ?thesis using each outs conv(3) by auto
qed

text \<open>
  The conversion to wei keeps six decimals: it is at most the amount and the rounding of its product, and short of it by
  less than one unit of the sixth decimal.
\<close>

theorem EthToWei_bounds:
  assumes "0 \<le> x" "x \<le> 9 * 10 ^ 12"
  shows "x * 10 ^ 18 * (1 - 1 / 2 ^ 53) - 10 ^ 12 < of_int (EthToWei (Some x)) \<and>
    of_int (EthToWei (Some x)) \<le> x * 10 ^ 18 * (1 + 1 / 2 ^ 53)"
proof -
  let ?y = "float64 (x * 10 ^ 6)"
  have y: "\<bar>?y - x * 10 ^ 6\<bar> \<le> x * 10 ^ 6 / 2 ^ 53" "0 \<le> ?y"
    using float64_error [of "x * 10 ^ 6"] float64_nonneg [of "x * 10 ^ 6"] assms(1) by simp_all
  have t: "?y - 1 < of_int (go_trunc ?y)" "of_int (go_trunc ?y) \<le> ?y" using go_trunc_bounds [OF y(2)] by simp_all
  have "x * 10 ^ 6 \<le> 9 * 10 ^ 18" using assms(2) by simp
  moreover from this have "x * 10 ^ 6 / 2 ^ 53 \<le> 9 * 10 ^ 18 / 2 ^ 53" by (rule divide_right_mono) simp
  ultimately have "?y < 2 ^ 63" using abs_le_D1 [OF y(1)] by simp
  then have "of_int (go_trunc ?y) < (2 ^ 63 :: rat)" using t(2) by linarith
  then have "go_trunc ?y < 2 ^ 63" by (metis of_int_less_iff of_int_numeral of_int_power)
  moreover have "- (2 ^ 63) \<le> go_trunc ?y" using y(2) by (simp add: go_trunc_def)
  ultimately have "EthToWei (Some x) = go_trunc ?y * 10 ^ 12"
    by (simp add: EthToWei_def floatToBigInt_def float_int64_def)
  moreover have "x * 10 ^ 18 * (1 - 1 / 2 ^ 53) - 10 ^ 12 < of_int (go_trunc ?y) * 10 ^ 12"
  proof -
    have "x * 10 ^ 6 - x * 10 ^ 6 / 2 ^ 53 - 1 < of_int (go_trunc ?y)" using abs_le_D2 [OF y(1)] t(1) by linarith
    then have "(x * 10 ^ 6 - x * 10 ^ 6 / 2 ^ 53 - 1) * 10 ^ 12 < of_int (go_trunc ?y) * 10 ^ 12" by (rule mult_strict_right_mono) simp
    then show ?thesis by (simp add: algebra_simps)
  qed
  moreover have "of_int (go_trunc ?y) * 10 ^ 12 \<le> x * 10 ^ 18 * (1 + 1 / 2 ^ 53)"
  proof -
    have "of_int (go_trunc ?y) \<le> x * 10 ^ 6 + x * 10 ^ 6 / 2 ^ 53" using abs_le_D1 [OF y(1)] t(2) by linarith
    then have "of_int (go_trunc ?y) * 10 ^ 12 \<le> (x * 10 ^ 6 + x * 10 ^ 6 / 2 ^ 53) * 10 ^ 12" by (rule mult_right_mono) simp
    then show ?thesis by (simp add: algebra_simps)
  qed
  ultimately show ?thesis by simp
qed

text \<open>
  A user who is not banned gets the smaller of the cap of a transaction and of what the volume of the last day leaves of
  the daily cap, which is negative for a user who has traded more than the daily cap.
\<close>

theorem userStats_cap:
  assumes "userStats S (Some q) = Inr st" "us_rate S = Inr rate" "\<not> IsBanned (us_blacklist S) (us_HexToAddress S (sq_Address q))"
  shows "st_cap st \<le> EthToWei (float_quo (uc_TxLimit (user_cap (us_conf S) (sq_KYCed q))) rate) \<and>
    st_cap st \<le> EthToWei (float_quo (uc_DailyLimit (user_cap (us_conf S) (sq_KYCed q))) rate) - st_volume st \<and>
    (EthToWei (float_quo (uc_DailyLimit (user_cap (us_conf S) (sq_KYCed q))) rate) < st_volume st \<longrightarrow> st_cap st < 0)"
proof -
  from assms obtain volume where "st = stats_of (us_conf S) rate (sq_KYCed q) volume"
    by (auto simp: userStats_def split: sum.splits)
  then show ?thesis by (simp add: stats_of_def Let_def)
qed

text \<open>
  The volume that the cacher has written for a user is the one that the public server reads until it expires, for the
  same text of the address. For any other text, such as the address in other letters, the volume is zero.
\<close>

theorem CacheUserInfo_getUsers:
  assumes "CacheUserInfo parse (Inr res) None expiration t r = (r', None)" "\<not> no_record res"
    and "pipeline_sets parse richPrefix (hd res) = Inr (Some cmds)" "distinct (map is_tag (hd res))"
    and "us_redis S = r'" "us_now S < t + expiration" "us_fail S = (\<lambda>k. None)" "us_rate S = Inr rate"
    and "\<forall>a. us_HexToAddress S a \<notin> us_blacklist S"
  shows "(\<forall>s\<in>set (hd res). \<exists>x. go_bind (series_value s) (GetFloat64FromInterface parse) = Inr x \<and>
       getUsers S (Some (is_tag s)) = Inr \<lparr> rs_Cap = EthToWei (float_quo (uc_TxLimit (NonKYC (us_conf S))) rate),
         rs_Rich = (uc_DailyLimit (NonKYC (us_conf S)) \<le> x) \<rparr>) \<and>
    (\<forall>a. a \<notin> is_tag ` set (hd res) \<and> r (richPrefix @ '':'' @ a) = None \<longrightarrow>
       getUsers S (Some a) = Inr \<lparr> rs_Cap = EthToWei (float_quo (uc_TxLimit (NonKYC (us_conf S))) rate),
         rs_Rich = (uc_DailyLimit (NonKYC (us_conf S)) \<le> 0) \<rparr>)"
proof -
  have r': "r' = redis_exec cmds (t + expiration) r"
    using assms(1-3) by (simp add: CacheUserInfo_def cache_volumes_def)
  have cmds: "list_all2 (\<lambda>s c. fst c = richPrefix @ '':'' @ is_tag s \<and>
      go_bind (series_value s) (GetFloat64FromInterface parse) = Inr (snd c)) (hd res) cmds"
    using pipeline_sets_cmds [OF assms(3)] .
  have keys: "map fst cmds = map (\<lambda>s. richPrefix @ '':'' @ is_tag s) (hd res)"
    by (rule list_all2_map_eq [OF cmds]) simp
  have "distinct (map fst cmds)" unfolding keys using assms(4) by (simp add: distinct_map inj_on_def)
  then have hit: "r' (fst c) = Some (snd c, t + expiration)" if "c \<in> set cmds" for c
    using redis_exec_key [of cmds "fst c" "snd c"] that by (simp add: r')
  have users: "getUsers S (Some a) = (case volume_of_key S richPrefix a of Inl e \<Rightarrow> Inl 500
      | Inr v \<Rightarrow> Inr \<lparr> rs_Cap = EthToWei (float_quo (uc_TxLimit (NonKYC (us_conf S))) rate),
         rs_Rich = (uc_DailyLimit (NonKYC (us_conf S)) \<le> v) \<rparr>)" for a
    using assms(8,9) by (simp add: getUsers_def IsBanned_def user_cap_def IsRich_def split: sum.splits)
  have volume: "volume_of_key S richPrefix a =
      (case r' (richPrefix @ '':'' @ a) of Some (x, e) \<Rightarrow> if us_now S < e then Inr x else Inr 0 | None \<Rightarrow> Inr 0)" for a
    using assms(5,7) by (simp add: volume_of_key_def redis_answer_of_def redis_get_def split: option.splits)
  show ?thesis
  proof (intro conjI ballI allI impI)
    fix s assume "s \<in> set (hd res)"
    then obtain i where i: "i < length (hd res)" "hd res ! i = s" by (auto simp: in_set_conv_nth)
    with cmds have c: "fst (cmds ! i) = richPrefix @ '':'' @ is_tag s" "cmds ! i \<in> set cmds"
      "go_bind (series_value s) (GetFloat64FromInterface parse) = Inr (snd (cmds ! i))"
      by (auto simp: list_all2_conv_all_nth)
    from hit [OF c(2)] c(1) assms(6) have "volume_of_key S richPrefix (is_tag s) = Inr (snd (cmds ! i))"
      by (simp add: volume)
    with users [of "is_tag s"] c(3) show "\<exists>x. go_bind (series_value s) (GetFloat64FromInterface parse) = Inr x \<and>
       getUsers S (Some (is_tag s)) = Inr \<lparr> rs_Cap = EthToWei (float_quo (uc_TxLimit (NonKYC (us_conf S))) rate),
         rs_Rich = (uc_DailyLimit (NonKYC (us_conf S)) \<le> x) \<rparr>" by auto
  next
    fix a assume a: "a \<notin> is_tag ` set (hd res) \<and> r (richPrefix @ '':'' @ a) = None"
    have "fst ` set cmds = (\<lambda>s. richPrefix @ '':'' @ is_tag s) ` set (hd res)" by (metis keys set_map)
    then have "richPrefix @ '':'' @ a \<notin> fst ` set cmds" using a by auto
    then have "r' (richPrefix @ '':'' @ a) = None" using a by (simp add: r' redis_exec_other)
    then have "volume_of_key S richPrefix a = Inr 0" by (simp add: volume)
    with users [of a] show "getUsers S (Some a) = Inr \<lparr> rs_Cap = EthToWei (float_quo (uc_TxLimit (NonKYC (us_conf S))) rate),
         rs_Rich = (uc_DailyLimit (NonKYC (us_conf S)) \<le> 0) \<rparr>" by simp
  qed
qed


section \<open>Witnesses\<close>

text \<open>A server with two users: the first has traded for 20000 dollars, and the address of the second is banned.\<close>

definition sample_server :: user_server where
  "sample_server = \<lparr> us_conf = NewUserCapConfiguration 15000 5000 150000 50000, us_blacklist = {2}, us_maxBatchSize = 3,
     us_IsHexAddress = (\<lambda>s. s \<noteq> []), us_HexToAddress = (\<lambda>s. if s = ''0x2'' then 2 else 1),
     us_redis = [''uid:a'' \<mapsto> (20000, 100)], us_now = 50, us_fail = (\<lambda>k. None), us_exec = None, us_rate = Inr 200 \<rparr>"

definition sample_users :: batch_query where
  "sample_users = \<lparr> bq_UIDs = ''a,b'', bq_Addresses = ''0x1,0x2'', bq_KYCed = ''true,0'' \<rparr>"

lemma sample_split:
  "split_comma ''a,b'' = [''a'', ''b'']" "split_comma ''0x1,0x2'' = [''0x1'', ''0x2'']" "split_comma ''true,0'' = [''true'', ''0'']"
  by code_simp+

theorem userStatsBatch_each_witness:
  "\<exists>x. userStatsBatch sample_server (Some sample_users) = Inr [x, banned_stats False] \<and>
     userStats sample_server (Some \<lparr> sq_UID = ''a'', sq_Address = ''0x1'', sq_KYCed = True \<rparr>) = Inr x"
proof -
  let ?x = "stats_of (us_conf sample_server) 200 True 20000"
  have e: "userStatsBatch sample_server (Some sample_users) = Inr [?x, banned_stats False]"
    by (simp add: userStatsBatch_def convertQueryParams_def sample_users_def sample_split ParseBool_def convert_address_def
        getUserVolumeByUIDs_def redis_answer_of_def redis_get_def sample_server_def uidPrefix_def IsBanned_def Let_def)
  from userStatsBatch_each [OF e]
  have "userStats sample_server (Some \<lparr> sq_UID = ''a'', sq_Address = ''0x1'', sq_KYCed = True \<rparr>) = Inr ?x"
    by (auto simp: sample_users_def sample_split ParseBool_def All_less_Suc2 numeral_2_eq_2)
  with e show ?thesis by blast
qed

theorem EthToWei_bounds_witness:
  "(25 :: rat) / 2 * 10 ^ 18 * (1 - 1 / 2 ^ 53) - 10 ^ 12 < of_int (EthToWei (Some (25 / 2))) \<and>
    of_int (EthToWei (Some (25 / 2))) \<le> (25 :: rat) / 2 * 10 ^ 18 * (1 + 1 / 2 ^ 53)"
  by (rule EthToWei_bounds) simp_all

theorem userStats_cap_witness:
  "\<exists>st. userStats sample_server (Some \<lparr> sq_UID = ''a'', sq_Address = ''0x1'', sq_KYCed = False \<rparr>) = Inr st \<and> st_cap st < 0"
proof -
  let ?st = "stats_of (us_conf sample_server) 200 False 20000"
  have e: "userStats sample_server (Some \<lparr> sq_UID = ''a'', sq_Address = ''0x1'', sq_KYCed = False \<rparr>) = Inr ?st"
    by (simp add: userStats_def getUserVolumeByUID_def volume_of_key_def redis_answer_of_def redis_get_def sample_server_def
        uidPrefix_def IsBanned_def)
  have "us_rate sample_server = Inr 200" and "\<not> IsBanned (us_blacklist sample_server) (us_HexToAddress sample_server ''0x1'')"
    by (simp_all add: sample_server_def IsBanned_def)
  moreover have "EthToWei (float_quo 15000 200) < EthToWei (float_quo 20000 200)" by code_simp
  ultimately show ?thesis using userStats_cap [OF e] e
    by (simp add: stats_of_def Let_def user_cap_def sample_server_def NewUserCapConfiguration_def)
qed

theorem CacheUserInfo_getUsers_witness:
  "let r = fst (CacheUserInfo (\<lambda>s. Inr 20000) (Inr [[\<lparr> is_tag = ''0xAb'', is_values = [[NoValue, JSONNumber ''20000'']] \<rparr>]])
        None 100 0 Map.empty);
       S = sample_server \<lparr> us_redis := r, us_blacklist := {} \<rparr>
   in map_option rs_Rich (case getUsers S (Some ''0xAb'') of Inr a \<Rightarrow> Some a | Inl e \<Rightarrow> None) = Some True \<and>
      map_option rs_Rich (case getUsers S (Some ''0xab'') of Inr a \<Rightarrow> Some a | Inl e \<Rightarrow> None) = Some False"
proof -
  let ?res = "[[\<lparr> is_tag = ''0xAb'', is_values = [[NoValue, JSONNumber ''20000'']] \<rparr>]]"
  let ?cmds = "[(''rich:0xAb'', 20000 :: rat)]"
  let ?r = "redis_exec ?cmds 100 Map.empty"
  let ?S = "sample_server \<lparr> us_redis := ?r, us_blacklist := {} \<rparr>"
  have p: "pipeline_sets (\<lambda>s. Inr 20000) richPrefix (hd ?res) = Inr (Some ?cmds)"
    by (simp add: series_value_def go_nth_def richPrefix_def)
  have n: "\<not> no_record ?res" by (simp add: no_record_def)
  have c: "CacheUserInfo (\<lambda>s. Inr 20000) (Inr ?res) None 100 0 Map.empty = (?r, None)"
    using p n by (simp add: CacheUserInfo_def cache_volumes_def)
  have S: "us_redis ?S = ?r" "us_now ?S < 0 + 100" "us_fail ?S = (\<lambda>k. None)" "us_rate ?S = Inr 200"
    "\<forall>a. us_HexToAddress ?S a \<notin> us_blacklist ?S" "uc_DailyLimit (NonKYC (us_conf ?S)) = 15000"
    by (simp_all add: sample_server_def NewUserCapConfiguration_def)
  note g = CacheUserInfo_getUsers [OF c n p _ S(1-5), unfolded S(6)]
  show ?thesis unfolding Let_def c fst_conv using g by (auto simp: series_value_def go_nth_def)
qed

end
