(* ===== verification/BurnedFees.thy ===== *)
theory BurnedFees
  imports Blockchain GoFloat "HOL-Library.Multiset"
begin

text \<open>
  The crawler of the burned fees: \<open>burnedfees/crawler/crawler.go\<close>, the storages of \<open>burnedfees/storage/postgres\<close> and
  \<open>burnedfees/storage/influxdb\<close> behind its interface, and the loop of \<open>burnedfees/cmd/burned-fees-crawler/main.go\<close>.

  The node, the formatter of the amounts, the resolver of the times of the blocks and the failures of the databases are
  parameters.
\<close>

section \<open>Events\<close>

record BurnAssignedFeesEvent =
  ba_BlockNumber :: nat
  ba_TxHash :: hash
  ba_Reserve :: addr
  ba_Sender :: addr
  ba_Quantity :: int

record burned_crawler =
  bf_lib :: eth_lib
  bf_FilterLogs :: "int \<Rightarrow> int \<Rightarrow> addr list \<Rightarrow> hash list \<Rightarrow> log list go"
  bf_burners :: "addr list"

definition burnAssignedFeesTopic :: string where
  "burnAssignedFeesTopic = ''0x2f8d2d194cbe1816411754a2fc9478a11f0707da481b11cff7c69791eb877ee1''"

definition logDataToBurnedFeesParams :: "eth_lib \<Rightarrow> byte list \<Rightarrow> (addr \<times> int) go" where
  "logDataToBurnedFeesParams L data =
     (if length data \<noteq> 64 then Inl (Err ''invalid assigned burned fees data'')
      else Inr (BytesToAddress L (take 32 data), HashBig L (BytesToHash L (drop 32 data))))"

definition burned_event :: "eth_lib \<Rightarrow> log \<Rightarrow> BurnAssignedFeesEvent go" where
  "burned_event L lg =
     go_bind (logDataToBurnedFeesParams L (lg_Data lg)) (\<lambda>(sender, qty).
     go_bind (go_nth (lg_Topics lg) 1) (\<lambda>topic.
     Inr \<lparr> ba_BlockNumber = lg_BlockNumber lg, ba_TxHash = lg_TxHash lg, ba_Reserve = BytesToAddress L (HashBytes L topic),
           ba_Sender = sender, ba_Quantity = qty \<rparr>))"

definition crawl :: "burned_crawler \<Rightarrow> nat \<Rightarrow> nat \<Rightarrow> BurnAssignedFeesEvent list go" where
  "crawl C fromBlock toBlock =
     go_bind (bf_FilterLogs C (int fromBlock) (int toBlock) (bf_burners C) [HexToHash (bf_lib C) burnAssignedFeesTopic])
       (go_map (burned_event (bf_lib C)))"

text \<open>
  The loop over the ranges, with the interface of the storage as its argument: \<open>store\<close> takes the events and the state of
  the storage. \<open>None\<close> is a loop that never ends: \<open>maxBlocks\<close> may be zero, and \<open>i += maxBlocks\<close> wraps around.
\<close>

type_synonym 's event_store = "BurnAssignedFeesEvent list \<Rightarrow> 's \<Rightarrow> 's \<times> go_err option"

partial_function (option) Crawl :: "burned_crawler \<Rightarrow> 's event_store \<Rightarrow> nat \<Rightarrow> nat \<Rightarrow> nat \<Rightarrow> 's \<Rightarrow> ('s \<times> go_err option) option" where
  "Crawl C store i toBlock maxBlocks s =
     (if i < toBlock then
        (case crawl C i (MinUint64 (u64_add i maxBlocks) toBlock) of
           Inl e \<Rightarrow> Some (s, Some e)
         | Inr events \<Rightarrow>
             (case store events s of
                (s', Some e) \<Rightarrow> Some (s', Some e)
              | (s', None) \<Rightarrow> Crawl C store (u64_add i maxBlocks) toBlock maxBlocks s'))
      else Some (s, None))"

section \<open>The storages\<close>

text \<open>What the storages call: \<open>FromWei\<close> for the amount, \<open>Resolve\<close> for the time of a block, and the database.\<close>

record burned_row =
  bw_block_number :: nat
  bw_timestamp :: gotime
  bw_tx_hash :: hash
  bw_amount :: f64
  bw_sender :: addr
  bw_reserve :: addr

record burned_env =
  be_FromWei :: "addr \<Rightarrow> int \<Rightarrow> f64 go"
  be_Resolve :: "nat \<Rightarrow> gotime go"
  be_exec :: "burned_row \<Rightarrow> go_err option"
  be_write :: "go_err option"
  be_get :: "go_err option"

text \<open>The amount is computed before the time is resolved. The column of the block is an \<open>INTEGER\<close>.\<close>

definition burned_row_of :: "burned_env \<Rightarrow> BurnAssignedFeesEvent \<Rightarrow> burned_row go" where
  "burned_row_of E e =
     go_bind (be_FromWei E KNCAddr (ba_Quantity e)) (\<lambda>qty.
     go_bind (be_Resolve E (ba_BlockNumber e)) (\<lambda>ts.
     Inr \<lparr> bw_block_number = ba_BlockNumber e, bw_timestamp = ts, bw_tx_hash = ba_TxHash e, bw_amount = qty,
           bw_sender = ba_Sender e, bw_reserve = ba_Reserve e \<rparr>))"

definition insert_burned :: "burned_env \<Rightarrow> burned_row \<Rightarrow> burned_row list \<Rightarrow> burned_row list go" where
  "insert_burned E r rows =
     (if 2 ^ 31 \<le> bw_block_number r then Inl (Err ''integer out of range'')
      else (case be_exec E r of Some e \<Rightarrow> Inl e | None \<Rightarrow> Inr (rows @ [r])))"

text \<open>\<open>Store\<close> of PostgreSQL: one insertion for each event, without a transaction.\<close>

fun burned_Store :: "burned_env \<Rightarrow> burned_row list event_store" where
  "burned_Store E [] rows = (rows, None)"
| "burned_Store E (e # es) rows =
     (case go_bind (burned_row_of E e) (\<lambda>r. insert_burned E r rows) of
        Inl x \<Rightarrow> (rows, Some x)
      | Inr rows' \<Rightarrow> burned_Store E es rows')"

definition burned_LastBlock :: "burned_env \<Rightarrow> burned_row list \<Rightarrow> int go" where
  "burned_LastBlock E rows =
     (case be_get E of
        Some e \<Rightarrow> Inl e
      | None \<Rightarrow> Inr (if rows = [] then 0 else int (Max (set (map bw_block_number rows)))))"

text \<open>
  \<open>Store\<close> of InfluxDB: a point is identified by its tags and its time in seconds, and a later point replaces the fields
  of an earlier one. All points are written at once.
\<close>

type_synonym burned_tags = "nat \<times> hash \<times> addr \<times> addr \<times> int"

definition burned_point :: "burned_row \<Rightarrow> burned_tags \<times> f64" where
  "burned_point r = ((bw_block_number r, bw_tx_hash r, bw_reserve r, bw_sender r, bw_timestamp r div Second), bw_amount r)"

definition write_points :: "(burned_tags \<times> f64) list \<Rightarrow> (burned_tags \<rightharpoonup> f64) \<Rightarrow> (burned_tags \<rightharpoonup> f64)" where
  "write_points pts db = fold (\<lambda>p db. db(fst p \<mapsto> snd p)) pts db"

definition influx_Store :: "burned_env \<Rightarrow> (burned_tags \<rightharpoonup> f64) event_store" where
  "influx_Store E events db =
     (case go_map (\<lambda>e. go_bind (burned_row_of E e) (\<lambda>r. Inr (burned_point r))) events of
        Inl e \<Rightarrow> (db, Some e)
      | Inr pts \<Rightarrow> (case be_write E of Some e \<Rightarrow> (db, Some e) | None \<Rightarrow> (write_points pts db, None)))"

section \<open>The program\<close>

definition burned_defaultFromBlock :: int where "burned_defaultFromBlock = 5069586"

definition burned_from :: "int go \<Rightarrow> int option \<Rightarrow> int go" where
  "burned_from lastBlock fromBlock =
     (case fromBlock of
        Some b \<Rightarrow> Inr b
      | None \<Rightarrow> go_bind lastBlock (\<lambda>l. Inr (if l \<noteq> 0 then l else burned_defaultFromBlock)))"

text \<open>One round: \<open>head\<close> is the answer of the node for the current block.\<close>

definition burned_round :: "burned_crawler \<Rightarrow> 's event_store \<Rightarrow> ('s \<Rightarrow> int go) \<Rightarrow> nat \<Rightarrow> int option \<Rightarrow> int go \<Rightarrow> 's
    \<Rightarrow> ('s \<times> go_err option) option" where
  "burned_round C store LastBlock maxBlocks fromBlock toBlock s =
     (case burned_from (LastBlock s) fromBlock of
        Inl e \<Rightarrow> Some (s, Some e)
      | Inr f \<Rightarrow> (case toBlock of
          Inl e \<Rightarrow> Some (s, Some e)
        | Inr t \<Rightarrow> Crawl C store (u64 f) (u64 t) maxBlocks s))"

text \<open>
  The rounds of the daemon, one for each answer of the node: after the first one, the block to start from is forgotten.
  With the flag \<open>to-block\<close> there is one round.
\<close>

fun burned_daemon :: "burned_crawler \<Rightarrow> 's event_store \<Rightarrow> ('s \<Rightarrow> int go) \<Rightarrow> nat \<Rightarrow> int option \<Rightarrow> int go list \<Rightarrow> 's
    \<Rightarrow> ('s \<times> go_err option) option" where
  "burned_daemon C store LastBlock maxBlocks fromBlock [] s = Some (s, None)"
| "burned_daemon C store LastBlock maxBlocks fromBlock (head # heads) s =
     (case burned_round C store LastBlock maxBlocks fromBlock head s of
        None \<Rightarrow> None
      | Some (s', Some e) \<Rightarrow> Some (s', Some e)
      | Some (s', None) \<Rightarrow> burned_daemon C store LastBlock maxBlocks None heads s')"

definition burned_run :: "burned_crawler \<Rightarrow> 's event_store \<Rightarrow> ('s \<Rightarrow> int go) \<Rightarrow> nat \<Rightarrow> int option \<Rightarrow> int option \<Rightarrow> int go list \<Rightarrow> 's
    \<Rightarrow> ('s \<times> go_err option) option" where
  "burned_run C store LastBlock maxBlocks fromBlock toBlock heads s =
     (case toBlock of
        Some t \<Rightarrow> burned_round C store LastBlock maxBlocks fromBlock (Inr t) s
      | None \<Rightarrow> burned_daemon C store LastBlock maxBlocks fromBlock heads s)"

section \<open>A storage keeps what it is given\<close>

text \<open>
  The contract of the interface: when every event can be stored, they are stored one after the other. The loop over the
  ranges then stores one sequence of events.
\<close>

locale burned_storage =
  fixes store :: "'s event_store"
    and step :: "BurnAssignedFeesEvent \<Rightarrow> 's \<Rightarrow> 's"
    and storable :: "BurnAssignedFeesEvent \<Rightarrow> bool"
    and up :: bool
  assumes store_steps: "up \<Longrightarrow> list_all storable es \<Longrightarrow> store es s = (fold step es s, None)"

text \<open>
  What the node answers: the logs of the range, from all logs of the burners with the topic on the chain, in which each
  log has an event.
\<close>

definition burned_chain :: "burned_crawler \<Rightarrow> log list \<Rightarrow> (log \<Rightarrow> BurnAssignedFeesEvent) \<Rightarrow> bool" where
  "burned_chain C chain event \<longleftrightarrow>
     (\<forall>f t. bf_FilterLogs C f t (bf_burners C) [HexToHash (bf_lib C) burnAssignedFeesTopic] =
        Inr (filter (\<lambda>l. f \<le> int (lg_BlockNumber l) \<and> int (lg_BlockNumber l) \<le> t) chain)) \<and>
     (\<forall>l\<in>set chain. burned_event (bf_lib C) l = Inr (event l))"

definition logs_between :: "nat \<Rightarrow> nat \<Rightarrow> log list \<Rightarrow> log list" where
  "logs_between f t chain = filter (\<lambda>l. f \<le> lg_BlockNumber l \<and> lg_BlockNumber l \<le> t) chain"

lemma crawl_chain:
  assumes "burned_chain C chain event"
  shows "crawl C f t = Inr (map event (logs_between f t chain))"
  using assms unfolding burned_chain_def crawl_def logs_between_def
  by (simp add: go_map_all_Inr [where g = event] conj_commute)

text \<open>The logs in the order in which the loop stores them.\<close>

function crawled :: "nat \<Rightarrow> nat \<Rightarrow> nat \<Rightarrow> log list \<Rightarrow> log list" where
  "crawled i toBlock maxBlocks chain =
     (if i < toBlock \<and> 0 < maxBlocks
      then logs_between i (min (i + maxBlocks) toBlock) chain @ crawled (i + maxBlocks) toBlock maxBlocks chain else [])"
  by pat_completeness auto
termination by (relation "measure (\<lambda>(i, t, m, c). t - i)") auto

declare crawled.simps [simp del]

context burned_storage begin

lemma Crawl_fold:
  assumes up: up and chain: "burned_chain C chain event" and ok: "\<forall>l\<in>set chain. storable (event l)"
    and m: "0 < maxBlocks" "toBlock + maxBlocks < 2 ^ 64"
  shows "Crawl C store i toBlock maxBlocks s = Some (fold step (map event (crawled i toBlock maxBlocks chain)) s, None)"
proof (induction "toBlock - i" arbitrary: i s rule: less_induct)
  case less
  show ?case
  proof (cases "i < toBlock")
    case True
    with m have add: "u64_add i maxBlocks = i + maxBlocks" by (intro u64_add_id) simp
    have range: "MinUint64 (i + maxBlocks) toBlock = min (i + maxBlocks) toBlock" by (simp add: MinUint64_def)
    let ?logs = "logs_between i (min (i + maxBlocks) toBlock) chain"
    have "list_all storable (map event ?logs)" using ok by (auto simp: list_all_iff logs_between_def)
    note st = store_steps [OF up this, of s]
    from less [of "i + maxBlocks" "fold step (map event ?logs) s"] True m(1)
    have IH: "Crawl C store (i + maxBlocks) toBlock maxBlocks (fold step (map event ?logs) s) =
        Some (fold step (map event (crawled (i + maxBlocks) toBlock maxBlocks chain)) (fold step (map event ?logs) s), None)"
      by simp
    show ?thesis
      using True m(1)
      by (subst Crawl.simps) (simp add: add range crawl_chain [OF chain] st IH crawled.simps [of i])
  qed (subst Crawl.simps, simp add: crawled.simps)
qed

end

section \<open>How often a block is fetched\<close>

text \<open>The ranges share their ends: a block between two ranges is fetched twice.\<close>

definition fetched_times :: "nat \<Rightarrow> nat \<Rightarrow> nat \<Rightarrow> nat \<Rightarrow> nat" where
  "fetched_times fromBlock toBlock maxBlocks b =
     (if toBlock \<le> fromBlock \<or> b < fromBlock \<or> toBlock < b then 0
      else if fromBlock < b \<and> b < toBlock \<and> (b - fromBlock) mod maxBlocks = 0 then 2 else 1)"

lemma fetched_times_step:
  assumes "i < t" "0 < m"
  shows "fetched_times i t m b = (if i \<le> b \<and> b \<le> min (i + m) t then 1 else 0) + fetched_times (i + m) t m b"
proof -
  have mod: "(b - (i + m)) mod m = (b - i) mod m" if "i + m \<le> b"
  proof -
    have "b - i = (b - (i + m)) + m" using that by simp
    then show ?thesis by (simp only: mod_add_self2)
  qed
  have small: "(b - i) mod m = b - i" if "b < i + m" using that assms by (intro mod_less) auto
  consider "b < i" | "i \<le> b" "b < i + m" | "b = i + m" | "i + m < b" by linarith
  then show ?thesis
  proof cases
    case 2
    then show ?thesis using assms small by (auto simp: fetched_times_def)
  next
    case 4
    then show ?thesis using assms mod by (auto simp: fetched_times_def)
  qed (use assms in \<open>auto simp: fetched_times_def\<close>)
qed

lemma crawled_count:
  assumes "0 < m"
  shows "count (mset (crawled i t m chain)) l = count (mset chain) l * fetched_times i t m (lg_BlockNumber l)"
proof (induction "t - i" arbitrary: i rule: less_induct)
  case less
  show ?case
  proof (cases "i < t")
    case True
    with less [of "i + m"] assms show ?thesis
      by (simp add: crawled.simps [of i] fetched_times_step logs_between_def algebra_simps)
  qed (simp add: crawled.simps fetched_times_def)
qed

section \<open>Both storages keep the contract\<close>

definition burned_row_at :: "burned_env \<Rightarrow> BurnAssignedFeesEvent \<Rightarrow> burned_row" where
  "burned_row_at E e = (case burned_row_of E e of Inr r \<Rightarrow> r | Inl x \<Rightarrow> undefined)"

definition insertable :: "burned_env \<Rightarrow> BurnAssignedFeesEvent \<Rightarrow> bool" where
  "insertable E e \<longleftrightarrow> burned_row_of E e = Inr (burned_row_at E e) \<and> bw_block_number (burned_row_at E e) < 2 ^ 31 \<and>
     be_exec E (burned_row_at E e) = None"

definition writable :: "burned_env \<Rightarrow> BurnAssignedFeesEvent \<Rightarrow> bool" where
  "writable E e \<longleftrightarrow> burned_row_of E e = Inr (burned_row_at E e)"

interpretation burned_pg: burned_storage "burned_Store E" "\<lambda>e rows. rows @ [burned_row_at E e]" "insertable E" True for E
proof unfold_locales
  fix es rows
  show "list_all (insertable E) es \<Longrightarrow> burned_Store E es rows = (fold (\<lambda>e rows. rows @ [burned_row_at E e]) es rows, None)"
    by (induction es arbitrary: rows) (simp_all add: insertable_def insert_burned_def)
qed

lemma write_points_Cons: "write_points (p # ps) db = write_points ps (db(fst p \<mapsto> snd p))"
  by (simp add: write_points_def)

lemma write_points_fold: "write_points ps db = fold (\<lambda>p. write_points [p]) ps db"
  by (induction ps arbitrary: db) (simp_all add: write_points_def)

lemma write_points_add: "write_points ps db = db ++ map_of (rev ps)"
  by (induction ps arbitrary: db) (simp_all add: write_points_def map_add_upd_left)

interpretation burned_ix: burned_storage "influx_Store E" "\<lambda>e. write_points [burned_point (burned_row_at E e)]" "writable E" "be_write E = None"
  for E
proof unfold_locales
  fix es :: "BurnAssignedFeesEvent list" and db
  assume up: "be_write E = None" and ok: "list_all (writable E) es"
  have "go_map (\<lambda>e. go_bind (burned_row_of E e) (\<lambda>r. Inr (burned_point r))) es = Inr (map (\<lambda>e. burned_point (burned_row_at E e)) es)"
    using ok by (intro go_map_all_Inr) (simp add: list_all_iff writable_def)
  moreover have "fold (\<lambda>e. write_points [burned_point (burned_row_at E e)]) es db =
      write_points (map (\<lambda>e. burned_point (burned_row_at E e)) es) db"
    by (subst write_points_fold) (simp add: fold_map comp_def)
  ultimately show "influx_Store E es db = (fold (\<lambda>e. write_points [burned_point (burned_row_at E e)]) es db, None)"
    using up by (simp add: influx_Store_def)
qed

lemma fold_rows: "fold (\<lambda>e rows. rows @ [f e]) es rows = rows @ map f es"
  by (induction es arbitrary: rows) simp_all

section \<open>Properties\<close>

text \<open>
  C34: The run over the blocks ends and stores one row in PostgreSQL for each log of the range, in the order of the ranges; but
  a log of a block at the end of a range that is not the last one is stored twice.
\<close>

theorem burned_Crawl_rows:
  assumes "burned_chain C chain event" "\<forall>l\<in>set chain. insertable E (event l)"
    and "0 < maxBlocks" "toBlock + maxBlocks < 2 ^ 64"
  shows "\<exists>ls. Crawl C (burned_Store E) fromBlock toBlock maxBlocks rows =
      Some (rows @ map (\<lambda>l. burned_row_at E (event l)) ls, None) \<and>
    (\<forall>l. count (mset ls) l = count (mset chain) l * fetched_times fromBlock toBlock maxBlocks (lg_BlockNumber l))"
  using burned_pg.Crawl_fold [OF TrueI assms, of fromBlock rows] crawled_count [OF assms(3)]
  by (intro exI [of _ "crawled fromBlock toBlock maxBlocks chain"]) (simp add: fold_rows comp_def)

text \<open>
  C36: A round of the daemon starts at the last stored block, and the table has no unique key: with each round, the fees of
  this block are stored once more.
\<close>

theorem burned_round_repeats:
  assumes "burned_chain C chain event" "\<forall>l\<in>set chain. insertable E (event l)"
    and "0 < maxBlocks" "head + maxBlocks < 2 ^ 64"
    and "be_get E = None" "rows \<noteq> []" "b = Max (set (map bw_block_number rows))" "0 < b" "b < head"
  shows "\<exists>rows'. burned_round C (burned_Store E) (burned_LastBlock E) maxBlocks None (Inr (int head)) rows = Some (rows', None) \<and>
    (\<forall>l\<in>set chain. lg_BlockNumber l = b \<longrightarrow>
       count (mset rows) (burned_row_at E (event l)) < count (mset rows') (burned_row_at E (event l)))"
proof -
  let ?ls = "crawled b head maxBlocks chain" and ?row = "\<lambda>l. burned_row_at E (event l)"
  have "burned_round C (burned_Store E) (burned_LastBlock E) maxBlocks None (Inr (int head)) rows =
      Crawl C (burned_Store E) b head maxBlocks rows"
    using assms(4-6,8,9) by (simp add: burned_round_def burned_from_def burned_LastBlock_def u64_id assms(7) [symmetric] del: set_map)
  also have "\<dots> = Some (rows @ map ?row ?ls, None)"
    using burned_pg.Crawl_fold [OF TrueI assms(1-4), of b rows] by (simp add: fold_rows comp_def)
  finally have run: "burned_round C (burned_Store E) (burned_LastBlock E) maxBlocks None (Inr (int head)) rows =
      Some (rows @ map ?row ?ls, None)" .
  have "?row l \<in> set (map ?row ?ls)" if "l \<in> set chain" "lg_BlockNumber l = b" for l
  proof -
    have "0 < count (mset ?ls) l" using that assms(3,9) by (simp add: crawled_count fetched_times_def)
    then show ?thesis by simp
  qed
  then have "0 < count (mset (map ?row ?ls)) (?row l)" if "l \<in> set chain" "lg_BlockNumber l = b" for l
    using that by (simp only: count_greater_zero_iff set_mset_mset)
  then have "count (mset rows) (?row l) < count (mset (rows @ map ?row ?ls)) (?row l)" if "l \<in> set chain" "lg_BlockNumber l = b" for l
    using that by (simp only: mset_append count_union less_add_same_cancel1)
  with run show ?thesis by blast
qed

text \<open>
  InfluxDB keeps one point for the tags and the second: the same run over the same blocks changes nothing, and the points
  are those that were there and those of the logs of the range.
\<close>

theorem influx_Crawl_idempotent:
  assumes "burned_chain C chain event" "be_write E = None" "\<forall>l\<in>set chain. writable E (event l)"
    and "0 < maxBlocks" "toBlock + maxBlocks < 2 ^ 64" "fromBlock < toBlock"
  shows "\<exists>db'. Crawl C (influx_Store E) fromBlock toBlock maxBlocks db = Some (db', None) \<and>
    Crawl C (influx_Store E) fromBlock toBlock maxBlocks db' = Some (db', None) \<and>
    dom db' = dom db \<union> (\<lambda>l. fst (burned_point (burned_row_at E (event l)))) ` set (logs_between fromBlock toBlock chain)"
proof -
  let ?ls = "crawled fromBlock toBlock maxBlocks chain" and ?pt = "\<lambda>l. burned_point (burned_row_at E (event l))"
  note run = burned_ix.Crawl_fold [OF assms(2,1,3-5), of fromBlock]
  have pts: "fold (\<lambda>e. write_points [burned_point (burned_row_at E e)]) (map event ?ls) db = db ++ map_of (rev (map ?pt ?ls))" for db
    unfolding write_points_add [symmetric] by (subst write_points_fold) (simp add: fold_map comp_def)
  have "l \<in> set ?ls \<longleftrightarrow> l \<in> set (logs_between fromBlock toBlock chain)" for l
  proof -
    have "l \<in> set ?ls \<longleftrightarrow> 0 < count (mset ?ls) l" by simp
    also have "\<dots> \<longleftrightarrow> l \<in> set chain \<and> 0 < fetched_times fromBlock toBlock maxBlocks (lg_BlockNumber l)"
      unfolding crawled_count [OF assms(4)] by simp
    finally show ?thesis using assms(6) by (auto simp: logs_between_def fetched_times_def split: if_splits)
  qed
  then have "set ?ls = set (logs_between fromBlock toBlock chain)" by blast
  then have "dom (db ++ map_of (rev (map ?pt ?ls))) =
      dom db \<union> (\<lambda>l. fst (?pt l)) ` set (logs_between fromBlock toBlock chain)"
    by (simp add: dom_map_of_conv_image_fst image_image Un_commute)
  moreover have "db ++ map_of (rev (map ?pt ?ls)) ++ map_of (rev (map ?pt ?ls)) = db ++ map_of (rev (map ?pt ?ls))"
    by (simp add: map_add_def fun_eq_iff split: option.splits)
  ultimately show ?thesis
    using run [of db] run [of "db ++ map_of (rev (map ?pt ?ls))"] unfolding pts by simp
qed

section \<open>Witnesses\<close>

text \<open>Two logs, in the blocks 10 and 20; the amount is the quantity, and the time of a block its number in seconds.\<close>

definition burned_log :: "nat \<Rightarrow> hash \<Rightarrow> log" where
  "burned_log b h = \<lparr> lg_Address = 7, lg_Topics = [HexToHash sample_lib burnAssignedFeesTopic, 5], lg_Data = replicate 64 0,
     lg_BlockNumber = b, lg_TxHash = h, lg_TxIndex = 0, lg_BlockHash = 0, lg_Index = 0, lg_Removed = False \<rparr>"

definition burned_logs :: "log list" where "burned_logs = [burned_log 10 1, burned_log 20 2]"

definition burned_logs_event :: "log \<Rightarrow> BurnAssignedFeesEvent" where
  "burned_logs_event l = \<lparr> ba_BlockNumber = lg_BlockNumber l, ba_TxHash = lg_TxHash l,
     ba_Reserve = BytesToAddress sample_lib (HashBytes sample_lib 5), ba_Sender = BytesToAddress sample_lib (replicate 32 0),
     ba_Quantity = HashBig sample_lib (BytesToHash sample_lib (replicate 32 0)) \<rparr>"

definition sample_burned :: burned_crawler where
  "sample_burned = \<lparr> bf_lib = sample_lib,
     bf_FilterLogs = (\<lambda>f t as ts. Inr (filter (\<lambda>l. f \<le> int (lg_BlockNumber l) \<and> int (lg_BlockNumber l) \<le> t) burned_logs)),
     bf_burners = [7] \<rparr>"

definition sample_burned_env :: burned_env where
  "sample_burned_env = \<lparr> be_FromWei = (\<lambda>a q. Inr (of_int q)), be_Resolve = (\<lambda>b. Inr (int b * Second)), be_exec = (\<lambda>r. None),
     be_write = None, be_get = None \<rparr>"

lemma sample_burned_chain: "burned_chain sample_burned burned_logs burned_logs_event"
  by (simp add: burned_chain_def sample_burned_def burned_logs_def burned_log_def burned_logs_event_def burned_event_def
      logDataToBurnedFeesParams_def go_nth_def)

lemma sample_burned_row: "burned_row_of sample_burned_env e = Inr (burned_row_at sample_burned_env e)"
  by (simp add: burned_row_at_def burned_row_of_def sample_burned_env_def)

lemma sample_burned_insertable: "\<forall>l\<in>set burned_logs. insertable sample_burned_env (burned_logs_event l)"
  by (simp add: insertable_def burned_logs_def burned_row_at_def burned_row_of_def sample_burned_env_def burned_logs_event_def
      burned_log_def)

lemma burned_logs_distinct: "burned_log 10 1 \<noteq> burned_log 20 2"
  by (simp add: burned_log_def)

text \<open>From 0 to 30 in ranges of 10 blocks: both logs are at ends of ranges.\<close>

theorem burned_Crawl_rows_witness:
  "\<exists>ls. Crawl sample_burned (burned_Store sample_burned_env) 0 30 10 [] =
      Some (map (\<lambda>l. burned_row_at sample_burned_env (burned_logs_event l)) ls, None) \<and> count (mset ls) (burned_log 20 2) = 2"
proof -
  from burned_Crawl_rows [OF sample_burned_chain sample_burned_insertable, of 10 30 0 "[]"] obtain ls where
    "Crawl sample_burned (burned_Store sample_burned_env) 0 30 10 [] =
      Some (map (\<lambda>l. burned_row_at sample_burned_env (burned_logs_event l)) ls, None)" and
    ls: "\<And>l. count (mset ls) l = count (mset burned_logs) l * fetched_times 0 30 10 (lg_BlockNumber l)" by auto
  moreover have "lg_BlockNumber (burned_log 20 2) = 20" by (simp add: burned_log_def)
  then have "count (mset ls) (burned_log 20 2) = 2"
    using ls [of "burned_log 20 2"] burned_logs_distinct by (simp add: burned_logs_def fetched_times_def)
  ultimately show ?thesis by blast
qed

theorem burned_round_repeats_witness:
  "let r = burned_row_at sample_burned_env (burned_logs_event (burned_log 20 2)) in
   \<exists>rows. burned_round sample_burned (burned_Store sample_burned_env) (burned_LastBlock sample_burned_env) 10 None (Inr (int 25)) [r] =
     Some (rows, None) \<and> 2 \<le> count (mset rows) r"
proof -
  let ?r = "burned_row_at sample_burned_env (burned_logs_event (burned_log 20 2))"
  have b: "bw_block_number ?r = 20"
    by (simp add: burned_row_at_def burned_row_of_def sample_burned_env_def burned_logs_event_def burned_log_def)
  then have "20 = Max (set (map bw_block_number [?r]))" and "be_get sample_burned_env = None"
    by (simp_all add: sample_burned_env_def)
  from burned_round_repeats [OF sample_burned_chain sample_burned_insertable, of 10 25, OF _ _ this(2) _ this(1)] obtain rows where
    "burned_round sample_burned (burned_Store sample_burned_env) (burned_LastBlock sample_burned_env) 10 None (Inr (int 25)) [?r] =
       Some (rows, None)" and
    "\<forall>l\<in>set burned_logs. lg_BlockNumber l = 20 \<longrightarrow>
       count (mset [?r]) (burned_row_at sample_burned_env (burned_logs_event l)) <
       count (mset rows) (burned_row_at sample_burned_env (burned_logs_event l))"
    by auto
  moreover from this(2) have "2 \<le> count (mset rows) ?r"
    by (simp add: burned_logs_def burned_log_def)
  ultimately show ?thesis unfolding Let_def by blast
qed

theorem influx_Crawl_idempotent_witness:
  "\<exists>db. Crawl sample_burned (influx_Store sample_burned_env) 0 30 10 Map.empty = Some (db, None) \<and>
     Crawl sample_burned (influx_Store sample_burned_env) 0 30 10 db = Some (db, None) \<and> card (dom db) = 2"
proof -
  have "be_write sample_burned_env = None" "\<forall>l\<in>set burned_logs. writable sample_burned_env (burned_logs_event l)"
    by (simp_all add: sample_burned_env_def writable_def sample_burned_row [unfolded sample_burned_env_def])
  from influx_Crawl_idempotent [OF sample_burned_chain this, of 10 30 0 Map.empty] obtain db where
    db: "Crawl sample_burned (influx_Store sample_burned_env) 0 30 10 Map.empty = Some (db, None)"
    "Crawl sample_burned (influx_Store sample_burned_env) 0 30 10 db = Some (db, None)"
    "dom db = (\<lambda>l. fst (burned_point (burned_row_at sample_burned_env (burned_logs_event l)))) ` set (logs_between 0 30 burned_logs)"
    by auto
  let ?a = "BytesToAddress sample_lib (HashBytes sample_lib 5)" and ?b = "BytesToAddress sample_lib (replicate 32 0)"
  have "dom db = {(10, 1, ?a, ?b, 10), (20, 2, ?a, ?b, 20)}" unfolding db(3)
    by (simp add: logs_between_def burned_logs_def burned_point_def burned_row_at_def burned_row_of_def sample_burned_env_def
        burned_logs_event_def burned_log_def Second_def)
  then have "card (dom db) = 2" by simp
  with db(1,2) show ?thesis by blast
qed

end
