(* ===== verification/TokenRates.thy ===== *)
theory TokenRates
  imports Tables GoFloat
begin

text \<open>
  The rates of tokens: the cache of the ETH rate of \<open>lib/tokenrate/cached_rate_provider.go\<close>, the fetcher of
  \<open>tokenratefetcher/token_rate_fetcher.go\<close>, its table of \<open>tokenratefetcher/storage/postgres/postgres.go\<close> and the program of
  \<open>tokenratefetcher/cmd/main.go\<close>.

  The providers of the rates, the clock and the failures of the database are parameters.
\<close>

section \<open>The cache of rates\<close>

text \<open>
  The cache holds a rate with the time at which it expires for each day, which is the text of the date in UTC; go-cache
  gives an item back until this time has passed.
\<close>

record rate_cache =
  ch_expires :: duration
  ch_todayExpires :: duration
  ch_items :: "int \<Rightarrow> (f64 \<times> gotime) option"

definition defaultExpire :: duration where "defaultExpire = Hour"
definition todayDefaultExpire :: duration where "todayDefaultExpire = 5 * Minute"

definition WithExpires :: "duration \<Rightarrow> rate_cache \<Rightarrow> rate_cache" where
  "WithExpires timeout c = c\<lparr> ch_expires := timeout \<rparr>"

definition WithTodayExpires :: "duration \<Rightarrow> rate_cache \<Rightarrow> rate_cache" where
  "WithTodayExpires timeout c = c\<lparr> ch_todayExpires := timeout \<rparr>"

definition NewCachedRateProvider :: "(rate_cache \<Rightarrow> rate_cache) list \<Rightarrow> rate_cache" where
  "NewCachedRateProvider options =
     (fold (\<lambda>option. option) options
        \<lparr> ch_expires = defaultExpire, ch_todayExpires = todayDefaultExpire, ch_items = Map.empty \<rparr>)\<lparr> ch_items := Map.empty \<rparr>"

definition day_of :: "gotime \<Rightarrow> int" where "day_of t = t div Day"

definition cache_get :: "rate_cache \<Rightarrow> gotime \<Rightarrow> int \<Rightarrow> f64 option" where
  "cache_get c now key = (case ch_items c key of Some (x, e) \<Rightarrow> if now \<le> e then Some x else None | None \<Rightarrow> None)"

definition cache_set :: "int \<Rightarrow> f64 \<Rightarrow> gotime \<Rightarrow> rate_cache \<Rightarrow> rate_cache" where
  "cache_set key x e c = c\<lparr> ch_items := (ch_items c)(key \<mapsto> (x, e)) \<rparr>"

text \<open>
  A request: the time whose rate is wanted, the times of the clock when the cache is read and when it is written, and what
  the provider would answer.
\<close>

record rate_request =
  rq_time :: gotime
  rq_get :: gotime
  rq_set :: gotime
  rq_provider :: "f64 go"

definition USDRate :: "rate_request \<Rightarrow> rate_cache \<Rightarrow> rate_cache \<times> f64 go" where
  "USDRate r c =
     (let cacheKey = day_of (rq_time r) in
      (case cache_get c (rq_get r) cacheKey of
         Some rate \<Rightarrow> (c, Inr rate)
       | None \<Rightarrow>
           (case rq_provider r of
              Inl e \<Rightarrow> (c, Inl e)
            | Inr rate \<Rightarrow>
                let today = day_of (rq_set r) in
                (cache_set cacheKey rate (rq_set r + (if cacheKey = today then ch_todayExpires c else ch_expires c)) c,
                 Inr rate))))"

fun USDRates :: "rate_request list \<Rightarrow> rate_cache \<Rightarrow> rate_cache \<times> f64 go list" where
  "USDRates [] c = (c, [])"
| "USDRates (r # rs) c =
     (case USDRate r c of (c', a) \<Rightarrow> (case USDRates rs c' of (c'', as) \<Rightarrow> (c'', a # as)))"

section \<open>The fetcher\<close>

record TokenRate =
  tr_Timestamp :: gotime
  tr_Rate :: f64
  tr_Provider :: string
  tr_TokenID :: string
  tr_Currency :: string

definition tokenSymbols :: "string \<Rightarrow> (string \<Rightarrow> string option) option" where
  "tokenSymbols = [''coingecko'' \<mapsto> [''kyber-network'' \<mapsto> ''knc'']]"

definition GetTokenSymbolFromProviderNameTokenID :: "string \<Rightarrow> string \<Rightarrow> string" where
  "GetTokenSymbolFromProviderNameTokenID providerName tokenID =
     (case tokenSymbols providerName of
        None \<Rightarrow> tokenID
      | Some provider \<Rightarrow> (case provider tokenID of None \<Rightarrow> tokenID | Some symbol \<Rightarrow> symbol))"

record rate_provider =
  rp_Name :: string
  rp_Rate :: "string \<Rightarrow> string \<Rightarrow> gotime \<Rightarrow> f64 go"

definition fetchRates :: "rate_provider \<Rightarrow> string \<Rightarrow> string \<Rightarrow> gotime \<Rightarrow> TokenRate go" where
  "fetchRates P token currency timeStamp =
     go_bind (rp_Rate P token currency timeStamp) (\<lambda>USDRate.
     Inr \<lparr> tr_Timestamp = timeStamp, tr_Rate = USDRate, tr_Provider = rp_Name P, tr_TokenID = token, tr_Currency = currency \<rparr>)"

text \<open>The loop over the days, with \<open>SaveRates\<close> of the storage as an argument.\<close>

function fetch_days :: "rate_provider \<Rightarrow> (TokenRate list \<Rightarrow> 's \<Rightarrow> 's \<times> go_err option) \<Rightarrow> string \<Rightarrow> string \<Rightarrow> gotime \<Rightarrow> gotime \<Rightarrow> 's
    \<Rightarrow> 's \<times> go_err option" where
  "fetch_days P save tokenID currency d to s =
     (if to < d then (s, None)
      else (case fetchRates P tokenID currency d of
         Inl e \<Rightarrow> (s, Some e)
       | Inr rate \<Rightarrow>
           (case save [rate] s of
              (s', Some e) \<Rightarrow> (s', Some e)
            | (s', None) \<Rightarrow> fetch_days P save tokenID currency (d + Day) to s')))"
  by pat_completeness auto
termination by (relation "measure (\<lambda>(P, save, k, c, d, to, s). nat (to + 1 - d))") (auto simp: go_defs)

declare fetch_days.simps [simp del]

definition FetchRatesInRanges :: "rate_provider \<Rightarrow> (TokenRate list \<Rightarrow> 's \<Rightarrow> 's \<times> go_err option) \<Rightarrow> gotime \<Rightarrow> gotime \<Rightarrow> string \<Rightarrow> string
    \<Rightarrow> 's \<Rightarrow> 's \<times> go_err option" where
  "FetchRatesInRanges P save fromTime to tokenID currency s =
     fetch_days P save tokenID currency (Midnight fromTime) (Midnight to) s"

section \<open>The table\<close>

record token_rate_row =
  trr_symbol :: string
  trr_provider :: string
  trr_timestamp :: gotime
  trr_rate :: f64

definition rate_symbol :: "string \<Rightarrow> string \<Rightarrow> string \<Rightarrow> string" where
  "rate_symbol providerName tokenID currency = GetTokenSymbolFromProviderNameTokenID providerName tokenID @ ''_'' @ currency"

definition token_rate_row_of :: "TokenRate \<Rightarrow> token_rate_row" where
  "token_rate_row_of r =
     \<lparr> trr_symbol = rate_symbol (tr_Provider r) (tr_TokenID r) (tr_Currency r), trr_provider = tr_Provider r,
       trr_timestamp = tr_Timestamp r, trr_rate = tr_Rate r \<rparr>"

definition token_rate_key :: "token_rate_row \<Rightarrow> string \<times> string \<times> gotime" where
  "token_rate_key r = (trr_symbol r, trr_provider r, trr_timestamp r)"

text \<open>One statement inserts all rates; \<open>exec\<close> is its error.\<close>

definition SaveRates :: "(TokenRate list \<Rightarrow> go_err option) \<Rightarrow> TokenRate list \<Rightarrow> token_rate_row list \<Rightarrow> token_rate_row list \<times> go_err option" where
  "SaveRates exec rates rows =
     (case exec rates of
        Some e \<Rightarrow> (rows, Some e)
      | None \<Rightarrow> (fold (\<lambda>r. insert_new token_rate_key (token_rate_row_of r)) rates rows, None))"

definition LastTimePoint :: "go_err option \<Rightarrow> string \<Rightarrow> string \<Rightarrow> string \<Rightarrow> token_rate_row list \<Rightarrow> gotime go" where
  "LastTimePoint err providerName tokenID currencyID rows =
     (let symbol = rate_symbol providerName tokenID currencyID;
          times = map trr_timestamp [r \<leftarrow> rows. trr_symbol r = symbol]
      in (case err of Some e \<Rightarrow> Inl e | None \<Rightarrow> Inr (if times = [] then zero_time else Max (set times))))"

section \<open>The program\<close>

definition kyberNetworkTokenID :: string where "kyberNetworkTokenID = ''kyber-network''"
definition usdCurrencyID :: string where "usdCurrencyID = ''usd''"

text \<open>The first of January 2018.\<close>

definition rates_defaultFromTime :: gotime where "rates_defaultFromTime = 17532 * Day"

definition rates_from :: "gotime option \<Rightarrow> gotime go \<Rightarrow> gotime go" where
  "rates_from fromFlag lastTime =
     (case fromFlag of
        Some t \<Rightarrow> Inr t
      | None \<Rightarrow> go_bind lastTime (\<lambda>t. Inr ((if t = zero_time then rates_defaultFromTime else t) + Day)))"

definition rates_run :: "rate_provider \<Rightarrow> (TokenRate list \<Rightarrow> go_err option) \<Rightarrow> go_err option \<Rightarrow> gotime option \<Rightarrow> gotime option \<Rightarrow> gotime
    \<Rightarrow> token_rate_row list \<Rightarrow> token_rate_row list \<times> go_err option" where
  "rates_run P exec lastErr fromFlag toFlag now rows =
     (case rates_from fromFlag (LastTimePoint lastErr (rp_Name P) kyberNetworkTokenID usdCurrencyID rows) of
        Inl e \<Rightarrow> (rows, Some e)
      | Inr f \<Rightarrow>
          FetchRatesInRanges P (SaveRates exec) f (case toFlag of Some t \<Rightarrow> t | None \<Rightarrow> now) kyberNetworkTokenID usdCurrencyID rows)"

section \<open>Lemmas\<close>

text \<open>Each item of the cache is what the provider answered to a request for the same day, until its time has passed.\<close>

definition answered_by :: "rate_cache \<Rightarrow> rate_request list \<Rightarrow> int \<Rightarrow> f64 \<Rightarrow> gotime \<Rightarrow> bool" where
  "answered_by c rs day x e \<longleftrightarrow>
     (\<exists>r\<in>set rs. day_of (rq_time r) = day \<and> rq_provider r = Inr x \<and>
        e = rq_set r + (if day = day_of (rq_set r) then ch_todayExpires c else ch_expires c))"

definition cache_justified :: "rate_cache \<Rightarrow> rate_request list \<Rightarrow> bool" where
  "cache_justified c rs \<longleftrightarrow> (\<forall>day x e. ch_items c day = Some (x, e) \<longrightarrow> answered_by c rs day x e)"

lemma USDRate_keeps:
  assumes "USDRate r c = (c', a)"
  shows "ch_expires c' = ch_expires c" "ch_todayExpires c' = ch_todayExpires c"
  using assms by (auto simp: USDRate_def cache_set_def Let_def split: option.splits sum.splits)

lemma answered_by_mono: "answered_by c rs day x e \<Longrightarrow> set rs \<subseteq> set rs' \<Longrightarrow> answered_by c rs' day x e"
  by (auto simp: answered_by_def)

lemma USDRate_justified:
  assumes "USDRate r c = (c', a)" "cache_justified c rs"
  shows "cache_justified c' (rs @ [r])" and
    "a = Inr x \<Longrightarrow> rq_provider r = Inr x \<or> (\<exists>e. rq_get r \<le> e \<and> answered_by c rs (day_of (rq_time r)) x e)"
proof -
  have old: "answered_by c' (rs @ [r]) day y e" if "ch_items c day = Some (y, e)" for day y e
  proof -
    have "answered_by c' = answered_by c" using USDRate_keeps [OF assms(1)] by (simp add: answered_by_def fun_eq_iff)
    moreover have "answered_by c rs day y e" using that assms(2) by (simp add: cache_justified_def)
    then have "answered_by c (rs @ [r]) day y e" by (rule answered_by_mono) auto
    ultimately show ?thesis by (simp only:)
  qed
  show "cache_justified c' (rs @ [r])"
  proof (cases "c' = c")
    case True
    with old show ?thesis by (simp add: cache_justified_def)
  next
    case False
    with assms(1) obtain y where y: "rq_provider r = Inr y" and
      c': "c' = cache_set (day_of (rq_time r)) y
        (rq_set r + (if day_of (rq_time r) = day_of (rq_set r) then ch_todayExpires c else ch_expires c)) c"
      by (auto simp: USDRate_def Let_def split: option.splits sum.splits)
    have "answered_by c' (rs @ [r]) (day_of (rq_time r)) y
        (rq_set r + (if day_of (rq_time r) = day_of (rq_set r) then ch_todayExpires c else ch_expires c))"
      using y USDRate_keeps [OF assms(1)] by (simp add: answered_by_def)
    with old c' show ?thesis by (auto simp: cache_justified_def cache_set_def)
  qed
  show "rq_provider r = Inr x \<or> (\<exists>e. rq_get r \<le> e \<and> answered_by c rs (day_of (rq_time r)) x e)" if "a = Inr x"
    using assms that
    by (auto simp: USDRate_def cache_get_def cache_justified_def Let_def split: option.splits sum.splits if_splits)
qed

lemma USDRates_justified:
  assumes "USDRates rs c = (c', as)" "cache_justified c rs0"
  shows "length as = length rs \<and> (\<forall>i<length rs. \<forall>x. as ! i = Inr x \<longrightarrow>
    rq_provider (rs ! i) = Inr x \<or>
    (\<exists>e. rq_get (rs ! i) \<le> e \<and> answered_by c (rs0 @ take i rs) (day_of (rq_time (rs ! i))) x e))"
  using assms
proof (induction rs arbitrary: c as rs0)
  case (Cons r rs)
  from Cons.prems(1) obtain c1 a as1 where s: "USDRate r c = (c1, a)" "USDRates rs c1 = (c', as1)" "as = a # as1"
    by (auto split: prod.splits)
  note j = USDRate_justified [OF s(1) Cons.prems(2)]
  from Cons.IH [OF s(2) j(1)] have IH: "length as1 = length rs"
    "\<And>i x. i < length rs \<Longrightarrow> as1 ! i = Inr x \<Longrightarrow> rq_provider (rs ! i) = Inr x \<or>
      (\<exists>e. rq_get (rs ! i) \<le> e \<and> answered_by c1 (rs0 @ take (Suc i) (r # rs)) (day_of (rq_time (rs ! i))) x e)"
    by auto
  have same: "answered_by c1 = answered_by c" using USDRate_keeps [OF s(1)] by (simp add: answered_by_def fun_eq_iff)
  show ?case using j(2) IH s(3) unfolding same by (auto simp: nth_Cons split: nat.splits)
qed simp

text \<open>The midnights from the first day to the last one.\<close>

definition days_between :: "int \<Rightarrow> int \<Rightarrow> gotime set" where "days_between a b = (\<lambda>k. Day * k) ` {a..b}"

definition rate_days :: "string \<Rightarrow> token_rate_row list \<Rightarrow> gotime set" where
  "rate_days symbol rows = trr_timestamp ` {r \<in> set rows. trr_symbol r = symbol}"

lemma fetch_days_contiguous:
  assumes "fetch_days P (SaveRates exec) tokenID currency (Day * d) (Day * t) rows = (rows', e)"
    and "symbol = rate_symbol (rp_Name P) tokenID currency" "rate_days symbol rows = days_between a (d - 1)" "a \<le> d"
  shows "\<exists>b. rate_days symbol rows' = days_between a b \<and> d - 1 \<le> b \<and> b \<le> max t (d - 1) \<and> (e = None \<longrightarrow> b = max t (d - 1))"
  using assms
proof (induction "nat (t + 1 - d)" arbitrary: d rows rule: less_induct)
  case less
  show ?case
  proof (cases "t < d")
    case True
    then have "Day * t < Day * d" by (simp add: go_defs)
    with less.prems True show ?thesis
      by (intro exI [of _ "d - 1"]) (auto simp: fetch_days.simps [of P _ _ _ "Day * d"])
  next
    case False
    then have n: "\<not> Day * t < Day * d" by (simp add: go_defs)
    from less.prems(1) n consider (fail) x where "rows' = rows" "e = Some x"
      | (step) r rows1 where "fetchRates P tokenID currency (Day * d) = Inr r" "SaveRates exec [r] rows = (rows1, None)"
          "fetch_days P (SaveRates exec) tokenID currency (Day * d + Day) (Day * t) rows1 = (rows', e)"
      by (auto simp: fetch_days.simps [of P _ _ _ "Day * d"] split: sum.splits prod.splits option.splits)
        (auto simp: SaveRates_def split: option.splits)
    then show ?thesis
    proof cases
      case fail
      with less.prems(3,4) False show ?thesis by (intro exI [of _ "d - 1"]) auto
    next
      case step
      let ?q = "token_rate_row_of r"
      have q: "trr_symbol ?q = symbol" "trr_timestamp ?q = Day * d"
        using step(1) less.prems(2) by (auto simp: fetchRates_def token_rate_row_of_def go_bind_Inr_iff)
      have "rows1 = insert_new token_rate_key ?q rows" using step(2) by (simp add: SaveRates_def split: option.splits)
      then consider "set rows1 = insert ?q (set rows)" | p where "set rows1 = set rows" "p \<in> set rows" "token_rate_key p = token_rate_key ?q"
        by (auto simp: insert_new_def split: if_splits)
      then have "rate_days symbol rows1 = insert (Day * d) (rate_days symbol rows)"
      proof cases
        case 1
        with q have "{x \<in> set rows1. trr_symbol x = symbol} = insert ?q {x \<in> set rows. trr_symbol x = symbol}" by auto
        with q(2) show ?thesis by (simp add: rate_days_def)
      next
        case 2
        with q have "Day * d \<in> rate_days symbol rows" by (force simp: token_rate_key_def rate_days_def)
        with 2(1) show ?thesis by (simp add: rate_days_def insert_absorb)
      qed
      moreover have "{a..d} = insert d {a..d - 1}" using less.prems(4) by auto
      ultimately have "rate_days symbol rows1 = days_between a (d + 1 - 1)"
        unfolding less.prems(3) days_between_def by simp
      from less.hyps [of "d + 1", OF _ _ less.prems(2) this] step(3) less.prems(4) False
      obtain b where "rate_days symbol rows' = days_between a b" "d \<le> b" "b \<le> max t d" "e = None \<longrightarrow> b = max t d"
        by (auto simp: algebra_simps)
      with False show ?thesis by (intro exI [of _ b]) auto
    qed
  qed
qed

lemma rate_days_Max:
  assumes "rate_days symbol rows = days_between a b" "a \<le> b"
  shows "[r \<leftarrow> rows. trr_symbol r = symbol] \<noteq> [] \<and> Max (trr_timestamp ` {r \<in> set rows. trr_symbol r = symbol}) = Day * b"
proof -
  have "Day * b \<in> rate_days symbol rows" using assms by (auto simp: days_between_def)
  then have "[r \<leftarrow> rows. trr_symbol r = symbol] \<noteq> []" by (auto simp: rate_days_def filter_empty_conv)
  moreover have "Max (rate_days symbol rows) = Day * b"
  proof (rule Max_eqI)
    show "finite (rate_days symbol rows)" by (simp add: rate_days_def)
    show "x \<le> Day * b" if "x \<in> rate_days symbol rows" for x
      using that unfolding assms(1) by (auto simp: days_between_def go_defs)
  qed fact
  ultimately show ?thesis by (simp add: rate_days_def)
qed

section \<open>Properties\<close>

text \<open>
  C37: However many requests are made, each rate that is answered comes from the provider: either for this request, or for an
  earlier one for the same day, and then it was written at most five minutes before when the day was the current one, and
  at most one hour before otherwise.
\<close>

theorem USDRates_fresh:
  assumes "USDRates rs (NewCachedRateProvider []) = (c, as)" "i < length rs" "as ! i = Inr x"
  shows "rq_provider (rs ! i) = Inr x \<or>
    (\<exists>j<i. rq_provider (rs ! j) = Inr x \<and> day_of (rq_time (rs ! j)) = day_of (rq_time (rs ! i)) \<and>
       rq_get (rs ! i) - rq_set (rs ! j) \<le> (if day_of (rq_time (rs ! j)) = day_of (rq_set (rs ! j)) then 5 * Minute else Hour))"
proof -
  let ?c = "NewCachedRateProvider []"
  have c: "ch_expires ?c = Hour" "ch_todayExpires ?c = 5 * Minute" "cache_justified ?c []"
    by (simp_all add: NewCachedRateProvider_def defaultExpire_def todayDefaultExpire_def cache_justified_def)
  from USDRates_justified [OF assms(1) c(3)] assms(2,3) consider "rq_provider (rs ! i) = Inr x"
    | e where "rq_get (rs ! i) \<le> e" "answered_by ?c (take i rs) (day_of (rq_time (rs ! i))) x e" by auto
  then show ?thesis
  proof cases
    case (2 e)
    from 2(2) obtain k where "k \<in> set (take i rs)" "day_of (rq_time k) = day_of (rq_time (rs ! i))" "rq_provider k = Inr x"
      "e = rq_set k + (if day_of (rq_time (rs ! i)) = day_of (rq_set k) then 5 * Minute else Hour)"
      unfolding answered_by_def c by blast
    with 2(1) obtain j where "j < i" "rq_provider (rs ! j) = Inr x" "day_of (rq_time (rs ! j)) = day_of (rq_time (rs ! i))"
      "rq_get (rs ! i) \<le> rq_set (rs ! j) + (if day_of (rq_time (rs ! j)) = day_of (rq_set (rs ! j)) then 5 * Minute else Hour)"
      using assms(2) by (auto simp: in_set_conv_nth)
    then show ?thesis by (intro disjI2 exI [of _ j]) auto
  qed blast
qed

text \<open>
  C38: The days whose rates are stored stay without a gap: a run without flags, wherever it stops, stores days that follow the
  stored ones, and a run that does not fail stores all days up to the current one.
\<close>

theorem rates_run_contiguous:
  assumes "rates_run P exec lastErr None None now rows = (rows', e)"
    and "symbol = rate_symbol (rp_Name P) kyberNetworkTokenID usdCurrencyID"
    and "rate_days symbol rows = days_between a b" "0 \<le> a" "a \<le> b"
  shows "\<exists>b'. rate_days symbol rows' = days_between a b' \<and> b \<le> b' \<and> b' \<le> max b (now div Day) \<and>
    (e = None \<longrightarrow> b' = max b (now div Day))"
proof (cases lastErr)
  case (Some x)
  with assms(1) have "rows' = rows" "e = Some x" by (simp_all add: rates_run_def rates_from_def LastTimePoint_def Let_def)
  with assms(3) show ?thesis by (intro exI [of _ b]) simp
next
  case None
  have "Day * b \<noteq> zero_time" using assms(4,5) by (simp add: go_defs)
  then have "rates_from None (LastTimePoint lastErr (rp_Name P) kyberNetworkTokenID usdCurrencyID rows) = Inr (Day * b + Day)"
    using rate_days_Max [OF assms(3,5)] None assms(2) by (simp add: rates_from_def LastTimePoint_def Let_def)
  moreover have "Midnight (Day * b + Day) = Day * (b + 1)" "Midnight now = Day * (now div Day)"
    by (simp_all add: Midnight_eq_day go_defs algebra_simps)
  ultimately have "fetch_days P (SaveRates exec) kyberNetworkTokenID usdCurrencyID (Day * (b + 1)) (Day * (now div Day)) rows = (rows', e)"
    using assms(1) by (simp add: rates_run_def FetchRatesInRanges_def)
  from fetch_days_contiguous [OF this assms(2), of a] assms(3,5) show ?thesis by auto
qed

text \<open>With an empty table, the first day that is fetched is the one after the day that is the default.\<close>

theorem rates_run_skips_default_day:
  assumes "rates_run P exec None None None now rows = (rows', None)"
    and "symbol = rate_symbol (rp_Name P) kyberNetworkTokenID usdCurrencyID" "rate_days symbol rows = {}"
  shows "rates_defaultFromTime \<notin> rate_days symbol rows' \<and>
    (rates_defaultFromTime + Day \<le> now \<longrightarrow> rates_defaultFromTime + Day \<in> rate_days symbol rows')"
proof -
  have "LastTimePoint None (rp_Name P) kyberNetworkTokenID usdCurrencyID rows = Inr zero_time"
    using assms(2,3) by (auto simp: LastTimePoint_def rate_days_def Let_def)
  then have "fetch_days P (SaveRates exec) kyberNetworkTokenID usdCurrencyID (Midnight (rates_defaultFromTime + Day)) (Midnight now) rows
      = (rows', None)"
    using assms(1) by (simp add: rates_run_def rates_from_def FetchRatesInRanges_def)
  moreover have m: "Midnight (rates_defaultFromTime + Day) = Day * 17533" "Midnight now = Day * (now div Day)"
    by (simp_all add: Midnight_eq_day rates_defaultFromTime_def go_defs)
  ultimately have run: "fetch_days P (SaveRates exec) kyberNetworkTokenID usdCurrencyID (Day * 17533) (Day * (now div Day)) rows = (rows', None)"
    by simp
  have "rate_days symbol rows = days_between 17533 (17533 - 1)" using assms(3) by (simp add: days_between_def)
  from fetch_days_contiguous [OF run assms(2) this] have
    days: "rate_days symbol rows' = days_between 17533 (max (now div Day) 17532)" by auto
  have "17533 \<le> now div Day" if "rates_defaultFromTime + Day \<le> now"
    using that by (simp add: rates_defaultFromTime_def go_defs)
  then show ?thesis unfolding days by (auto simp: days_between_def rates_defaultFromTime_def go_defs)
qed

section \<open>Witnesses\<close>

text \<open>Two requests for the current day, two minutes apart: the provider would answer another rate to the second one.\<close>

definition sample_requests :: "rate_request list" where
  "sample_requests =
     [\<lparr> rq_time = 10 * Minute, rq_get = 10 * Minute, rq_set = 10 * Minute, rq_provider = Inr 200 \<rparr>,
      \<lparr> rq_time = 12 * Minute, rq_get = 12 * Minute, rq_set = 12 * Minute, rq_provider = Inr 300 \<rparr>]"

lemma sample_requests_rates: "\<exists>c. USDRates sample_requests (NewCachedRateProvider []) = (c, [Inr 200, Inr 200])"
  by (simp add: sample_requests_def USDRate_def NewCachedRateProvider_def cache_get_def cache_set_def day_of_def
      todayDefaultExpire_def go_defs)

theorem USDRates_fresh_witness:
  "\<exists>c j. USDRates sample_requests (NewCachedRateProvider []) = (c, [Inr 200, Inr 200]) \<and> j < 1 \<and>
     rq_provider (sample_requests ! j) = Inr 200 \<and> rq_get (sample_requests ! 1) - rq_set (sample_requests ! j) \<le> 5 * Minute"
proof -
  from sample_requests_rates obtain c where c: "USDRates sample_requests (NewCachedRateProvider []) = (c, [Inr 200, Inr 200])" ..
  have "rq_provider (sample_requests ! 1) \<noteq> Inr 200" by (simp add: sample_requests_def)
  with USDRates_fresh [OF c, of 1 200] obtain j where "j < 1" "rq_provider (sample_requests ! j) = Inr 200"
    "rq_get (sample_requests ! 1) - rq_set (sample_requests ! j) \<le>
       (if day_of (rq_time (sample_requests ! j)) = day_of (rq_set (sample_requests ! j)) then 5 * Minute else Hour)"
    by (auto simp: sample_requests_def)
  with c show ?thesis by (intro exI [of _ c] exI [of _ j]) (simp add: sample_requests_def)
qed

text \<open>A provider that fails for the day 17535, and a table with the first day.\<close>

definition sample_provider :: rate_provider where
  "sample_provider = \<lparr> rp_Name = ''coingecko'',
     rp_Rate = (\<lambda>token currency t. if t = 17535 * Day then Inl (Err ''too many requests'') else Inr 2) \<rparr>"

definition knc_row :: "int \<Rightarrow> token_rate_row" where
  "knc_row d = \<lparr> trr_symbol = ''knc_usd'', trr_provider = ''coingecko'', trr_timestamp = d * Day, trr_rate = 2 \<rparr>"

lemma knc_symbol: "rate_symbol (rp_Name sample_provider) kyberNetworkTokenID usdCurrencyID = ''knc_usd''" by code_simp

lemma sample_rates_run:
  "rates_run sample_provider (\<lambda>r. None) None None None (17540 * Day + 5) [knc_row 17533] =
     ([knc_row 17533, knc_row 17534], Some (Err ''too many requests''))"
  by code_simp

theorem rates_run_contiguous_witness:
  "\<exists>b. rate_days ''knc_usd'' (fst (rates_run sample_provider (\<lambda>r. None) None None None (17540 * Day + 5) [knc_row 17533])) =
     days_between 17533 b \<and> 17533 \<le> b \<and> b \<le> 17540"
proof -
  have "rate_days ''knc_usd'' [knc_row 17533] = days_between 17533 17533"
    by (auto simp: rate_days_def knc_row_def days_between_def)
  from rates_run_contiguous [OF sample_rates_run knc_symbol [symmetric] this] show ?thesis
    unfolding sample_rates_run by (auto simp: go_defs)
qed

lemma sample_rates_first:
  "rates_run sample_provider (\<lambda>r. None) None None None (17533 * Day + 5) [] = ([knc_row 17533], None)"
  by code_simp

theorem rates_run_skips_default_day_witness:
  "rates_defaultFromTime \<notin> rate_days ''knc_usd'' (fst (rates_run sample_provider (\<lambda>r. None) None None None (17533 * Day + 5) []))"
  using rates_run_skips_default_day [OF sample_rates_first knc_symbol [symmetric]] by (simp add: sample_rates_first rate_days_def)

end
