(* ===== verification/TradeReports.thy ===== *)
theory TradeReports
  imports TradeLoad
begin

text \<open>
  The reports of the storage of trade logs: the queries of \<open>volume.go\<close>, \<open>user_volume.go\<close>, \<open>user_list.go\<close>, \<open>burnfee.go\<close>,
  \<open>wallet_fee.go\<close>, \<open>wallet_stats.go\<close>, \<open>country_stats.go\<close>, \<open>trade_summary.go\<close>, \<open>token_heatmap.go\<close>, \<open>integration_volume.go\<close> and
  \<open>reports.go\<close> of \<open>tradelogs/storage/postgres\<close>, over the tables of the theory \<open>TradeStore\<close>.

  A query is what PostgreSQL documents: the rows that satisfy the condition, in groups, with aggregates of each group. The
  aggregates \<open>SUM\<close> and \<open>AVG\<close> of floats round in an order that is not specified, and are parameters, as are the failures
  of the queries. The time zone of the session is UTC.
\<close>

section \<open>Windows\<close>

text \<open>The meaning of the expression that \<open>BuildDateTruncField\<close> builds, at a value of the column \<open>timestamp\<close>.\<close>

definition date_trunc :: "string \<Rightarrow> gotime \<Rightarrow> gotime" where
  "date_trunc param t = (if param = ''hour'' then t - t mod Hour else t - t mod Day)"

definition BuildDateTruncField :: "string \<Rightarrow> int \<Rightarrow> gotime \<Rightarrow> gotime" where
  "BuildDateTruncField param timeZone t =
     (if timeZone \<noteq> 0 \<and> param = ''day'' then date_trunc param (t + timeZone * Hour) - timeZone * Hour
      else date_trunc param t)"

definition RoundTime :: "gotime \<Rightarrow> string \<Rightarrow> int \<Rightarrow> gotime" where
  "RoundTime t freq timeZone =
     (if freq = ''hour'' then t - (t - zero_time) mod Hour else Midnight (t + timeZone * Hour) - timeZone * Hour)"

text \<open>The switch on the frequency: the field of the groups and the ends of the range.\<close>

definition freq_window :: "string \<Rightarrow> int \<Rightarrow> gotime \<Rightarrow> gotime \<Rightarrow> ((gotime \<Rightarrow> gotime) \<times> gotime \<times> gotime) go" where
  "freq_window freq timeZone fromTime toTime =
     (if lower freq = ''h'' then
        Inr (BuildDateTruncField ''hour'' timeZone, RoundTime fromTime ''hour'' timeZone, RoundTime toTime ''hour'' timeZone + Hour)
      else if lower freq = ''d'' then
        Inr (BuildDateTruncField ''day'' timeZone, RoundTime fromTime ''day'' timeZone, RoundTime toTime ''day'' timeZone + 24 * Hour)
      else Inl (Err (''frequency not supported: '' @ freq)))"

definition day_window :: "int \<Rightarrow> gotime \<Rightarrow> gotime \<Rightarrow> (gotime \<Rightarrow> gotime) \<times> gotime \<times> gotime" where
  "day_window timeZone fromTime toTime =
     (BuildDateTruncField ''day'' timeZone, RoundTime fromTime ''day'' timeZone, RoundTime toTime ''day'' timeZone + 24 * Hour)"

section \<open>Queries\<close>

record report_env =
  re_sum :: "f64 list \<Rightarrow> f64"
  re_avg :: "f64 list \<Rightarrow> f64"
  re_err :: "nat \<Rightarrow> go_err option"
  re_Hex :: "addr \<Rightarrow> string"

text \<open>\<open>GROUP BY\<close>: an aggregate of the rows of each key.\<close>

definition group_by :: "('a \<Rightarrow> 'k) \<Rightarrow> ('a list \<Rightarrow> 'r) \<Rightarrow> 'a list \<Rightarrow> ('k \<times> 'r) list" where
  "group_by key agg xs = map (\<lambda>k. (k, agg [x \<leftarrow> xs. key x = k])) (remdups (map key xs))"

definition select_rows :: "report_env \<Rightarrow> nat \<Rightarrow> 'r list \<Rightarrow> 'r list go" where
  "select_rows E n rows = (case re_err E n of Some e \<Rightarrow> Inl e | None \<Rightarrow> Inr rows)"

text \<open>The loop that puts the records into a map, by the milliseconds of their time.\<close>

definition by_time :: "('r \<Rightarrow> 'v) \<Rightarrow> (gotime \<times> 'r) list \<Rightarrow> (nat \<rightharpoonup> 'v)" where
  "by_time f records = fold (\<lambda>r m. m(TimeToTimestampMs (fst r) \<mapsto> f (snd r))) records Map.empty"

definition trades_between :: "trade_db \<Rightarrow> gotime \<Rightarrow> gotime \<Rightarrow> tradelog_row list" where
  "trades_between db f t = [r \<leftarrow> db_tradelogs db. f \<le> tl_timestamp r \<and> tl_timestamp r < t]"

definition usd_amount :: "tradelog_row \<Rightarrow> f64" where
  "usd_amount r = float64 (tl_eth_amount r * tl_eth_usd_rate r)"

section \<open>Volumes\<close>

record VolumeStats =
  vs_ETHAmount :: f64
  vs_USDAmount :: f64
  vs_Volume :: f64

text \<open>The rows of \<open>UNION ALL\<close>: the trades from the token, then those to it, with the amount of the token.\<close>

definition token_rows :: "addr \<Rightarrow> tradelog_row list \<Rightarrow> (tradelog_row \<times> f64) list" where
  "token_rows token trades =
     map (\<lambda>r. (r, tl_src_amount r)) [r \<leftarrow> trades. tl_src r = token] @
     map (\<lambda>r. (r, tl_dst_amount r)) [r \<leftarrow> trades. tl_dst r = token]"

definition volume_stats :: "report_env \<Rightarrow> (tradelog_row \<times> f64) list \<Rightarrow> VolumeStats" where
  "volume_stats E rows =
     \<lparr> vs_ETHAmount = re_sum E (map (\<lambda>(r, x). tl_eth_amount r) rows),
       vs_USDAmount = re_sum E (map (\<lambda>(r, x). usd_amount r) rows), vs_Volume = re_sum E (map snd rows) \<rparr>"

text \<open>A nil map is \<open>None\<close>.\<close>

definition GetAssetVolume :: "report_env \<Rightarrow> trade_db \<Rightarrow> addr \<Rightarrow> gotime \<Rightarrow> gotime \<Rightarrow> string \<Rightarrow> (nat \<rightharpoonup> VolumeStats) option go" where
  "GetAssetVolume E db token fromTime toTime frequency =
     go_bind (freq_window frequency 0 fromTime toTime) (\<lambda>(field, f, t).
     go_bind (select_rows E 0 (group_by (\<lambda>(r, x). field (tl_timestamp r)) (volume_stats E) (token_rows token (trades_between db f t))))
       (\<lambda>records. Inr (if records = [] then None else Some (by_time (\<lambda>v. v) records))))"

text \<open>
  Three queries name a column or a table that the schema does not have, and one selects a column that is neither grouped
  nor aggregated: the server refuses them.
\<close>

definition refused_query :: "report_env \<Rightarrow> string \<Rightarrow> 'a go" where
  "refused_query E msg = Inl (case re_err E 0 of Some e \<Rightarrow> e | None \<Rightarrow> Err msg)"

definition GetReserveVolume :: "report_env \<Rightarrow> trade_db \<Rightarrow> addr \<Rightarrow> addr \<Rightarrow> gotime \<Rightarrow> gotime \<Rightarrow> string \<Rightarrow> (nat \<rightharpoonup> VolumeStats) option go" where
  "GetReserveVolume E db rsvAddr token fromTime toTime frequency =
     go_bind (freq_window frequency 0 fromTime toTime) (\<lambda>w. refused_query E ''column src_reserve_address_id does not exist'')"

definition GetMonthlyVolume :: "addr \<Rightarrow> gotime \<Rightarrow> gotime \<Rightarrow> (nat \<rightharpoonup> VolumeStats) option go" where
  "GetMonthlyVolume rsvAddr fromTime toTime = Inr None"

definition GetAggregatedBurnFee :: "report_env \<Rightarrow> trade_db \<Rightarrow> gotime \<Rightarrow> gotime \<Rightarrow> string \<Rightarrow> addr list \<Rightarrow> (addr \<rightharpoonup> (string \<rightharpoonup> f64)) option go" where
  "GetAggregatedBurnFee E db fromTime toTime freq reserveAddrs =
     go_bind (freq_window freq 0 fromTime toTime) (\<lambda>w. refused_query E ''invalid reference to FROM-clause entry for table fee'')"

definition GetAggregatedWalletFee :: "report_env \<Rightarrow> trade_db \<Rightarrow> string \<Rightarrow> string \<Rightarrow> string \<Rightarrow> gotime \<Rightarrow> gotime \<Rightarrow> int \<Rightarrow> (nat \<rightharpoonup> f64) option go" where
  "GetAggregatedWalletFee E db reserveAddr walletAddr freq fromTime toTime timezone =
     go_bind (freq_window freq timezone fromTime toTime) (\<lambda>w. refused_query E ''column src_wallet_fee_amount does not exist'')"

record UserVolume =
  uv_ETHAmount :: f64
  uv_USDAmount :: f64

definition user_volume :: "report_env \<Rightarrow> tradelog_row list \<Rightarrow> UserVolume" where
  "user_volume E rows = \<lparr> uv_ETHAmount = re_sum E (map tl_eth_amount rows), uv_USDAmount = re_sum E (map usd_amount rows) \<rparr>"

definition GetUserVolume :: "report_env \<Rightarrow> trade_db \<Rightarrow> addr \<Rightarrow> gotime \<Rightarrow> gotime \<Rightarrow> string \<Rightarrow> (nat \<rightharpoonup> UserVolume) go" where
  "GetUserVolume E db userAddress fromTime toTime freq =
     go_bind (freq_window freq 0 fromTime toTime) (\<lambda>(field, f, t).
     go_bind (select_rows E 0 (group_by (\<lambda>r. field (tl_timestamp r)) (user_volume E) [r \<leftarrow> trades_between db f t. tl_user r = userAddress]))
       (\<lambda>records. Inr (by_time (\<lambda>v. v) records)))"

text \<open>\<open>GetUserList\<close>: both ends of the range belong to it.\<close>

definition GetUserList :: "report_env \<Rightarrow> trade_db \<Rightarrow> gotime \<Rightarrow> gotime \<Rightarrow> (addr \<times> UserVolume) list option go" where
  "GetUserList E db fromTime toTime =
     go_bind (select_rows E 0 (group_by tl_user (user_volume E)
         [r \<leftarrow> db_tradelogs db. fromTime \<le> tl_timestamp r \<and> tl_timestamp r \<le> toTime]))
       (\<lambda>records. Inr (if records = [] then None else Some records))"

record IntegrationVolume =
  iv_KyberSwapVolume :: f64
  iv_NonKyberSwapVolume :: f64

definition KyberSwapAppName :: string where "KyberSwapAppName = ''KyberSwap''"

definition integration_volume :: "report_env \<Rightarrow> tradelog_row list \<Rightarrow> IntegrationVolume" where
  "integration_volume E rows =
     \<lparr> iv_KyberSwapVolume = re_sum E (map (\<lambda>r. if tl_integration_app r = KyberSwapAppName then tl_eth_amount r else 0) rows),
       iv_NonKyberSwapVolume = re_sum E (map (\<lambda>r. if tl_integration_app r \<noteq> KyberSwapAppName then tl_eth_amount r else 0) rows) \<rparr>"

definition GetIntegrationVolume :: "report_env \<Rightarrow> trade_db \<Rightarrow> gotime \<Rightarrow> gotime \<Rightarrow> (nat \<rightharpoonup> IntegrationVolume) option go" where
  "GetIntegrationVolume E db fromTime toTime =
     (case day_window 0 fromTime toTime of (field, f, t) \<Rightarrow>
      go_bind (select_rows E 0 (group_by (\<lambda>r. field (tl_timestamp r)) (integration_volume E) (trades_between db f t)))
        (\<lambda>records. Inr (if records = [] then None else Some (by_time (\<lambda>v. v) records))))"

record Heatmap =
  hm_TotalETHValue :: f64
  hm_TotalTokenValue :: f64
  hm_TotalFiatValue :: f64

definition heatmap :: "report_env \<Rightarrow> (tradelog_row \<times> f64) list \<Rightarrow> Heatmap" where
  "heatmap E rows =
     \<lparr> hm_TotalETHValue = re_sum E (map (\<lambda>(r, x). tl_eth_amount r) rows), hm_TotalTokenValue = re_sum E (map snd rows),
       hm_TotalFiatValue = re_sum E (map (\<lambda>(r, x). usd_amount r) rows) \<rparr>"

definition GetTokenHeatmap :: "report_env \<Rightarrow> trade_db \<Rightarrow> addr \<Rightarrow> gotime \<Rightarrow> gotime \<Rightarrow> int \<Rightarrow> (string \<rightharpoonup> Heatmap) option go" where
  "GetTokenHeatmap E db asset fromTime toTime timezone =
     (case day_window timezone fromTime toTime of (field, f, t) \<Rightarrow>
      go_bind (select_rows E 0 (group_by (\<lambda>(r, x). the (tl_country r)) (heatmap E)
          [p \<leftarrow> token_rows asset (trades_between db f t). tl_country (fst p) \<noteq> None]))
        (\<lambda>records. Inr (if records = [] then None else Some (fold (\<lambda>r m. m(fst r \<mapsto> snd r)) records Map.empty))))"

section \<open>Statistics of the days\<close>

text \<open>\<open>TradeSummary\<close>, \<open>CountryStats\<close> and \<open>WalletStats\<close> have the same fields, without the burn fee, which stays zero.\<close>

record day_stats =
  ds_ETHVolume :: f64
  ds_USDVolume :: f64
  ds_TotalTrade :: nat
  ds_UniqueAddresses :: nat
  ds_KYCEDAddresses :: nat
  ds_NewUniqueAddresses :: nat
  ds_USDPerTrade :: f64
  ds_ETHPerTrade :: f64

definition count_stats :: "tradelog_row list \<Rightarrow> day_stats" where
  "count_stats rows =
     \<lparr> ds_ETHVolume = 0, ds_USDVolume = 0, ds_TotalTrade = 0, ds_UniqueAddresses = card (tl_user ` set rows),
       ds_KYCEDAddresses = length [r \<leftarrow> rows. tl_kyced r], ds_NewUniqueAddresses = length [r \<leftarrow> rows. tl_is_first_trade r],
       ds_USDPerTrade = 0, ds_ETHPerTrade = 0 \<rparr>"

definition add_volumes :: "report_env \<Rightarrow> tradelog_row list \<Rightarrow> day_stats \<Rightarrow> day_stats" where
  "add_volumes E rows s =
     s\<lparr> ds_ETHVolume := re_sum E (map tl_eth_amount rows), ds_USDVolume := re_sum E (map usd_amount rows),
        ds_ETHPerTrade := re_avg E (map tl_eth_amount rows), ds_USDPerTrade := re_avg E (map usd_amount rows),
        ds_TotalTrade := length rows \<rparr>"

text \<open>
  The two queries of each report: the first one counts, and the second one adds the volumes to the days that the first one
  has found. They are not in a transaction: \<open>rows\<close> and \<open>rows'\<close> are the rows that each of them sees.
\<close>

definition day_report :: "report_env \<Rightarrow> (gotime \<Rightarrow> gotime) \<Rightarrow> tradelog_row list \<Rightarrow> tradelog_row list \<Rightarrow> (nat \<rightharpoonup> day_stats) option go" where
  "day_report E field rows rows' =
     go_bind (select_rows E 0 (group_by (\<lambda>r. field (tl_timestamp r)) count_stats rows)) (\<lambda>counts.
       if counts = [] then Inr None
       else go_bind (select_rows E 1 (group_by (\<lambda>r. field (tl_timestamp r)) (add_volumes E) rows')) (\<lambda>volumes.
         Inr (Some (fold (\<lambda>v m. let ts = TimeToTimestampMs (fst v) in
            (case m ts of None \<Rightarrow> m | Some s \<Rightarrow> m(ts \<mapsto> snd v s))) volumes (by_time (\<lambda>s. s) counts)))))"

definition GetTradeSummary :: "report_env \<Rightarrow> trade_db \<Rightarrow> trade_db \<Rightarrow> gotime \<Rightarrow> gotime \<Rightarrow> int \<Rightarrow> (nat \<rightharpoonup> day_stats) option go" where
  "GetTradeSummary E db db' fromTime toTime timezone =
     (case day_window timezone fromTime toTime of (field, f, t) \<Rightarrow>
        day_report E field (trades_between db f t) (trades_between db' f t))"

definition GetWalletStats :: "report_env \<Rightarrow> trade_db \<Rightarrow> trade_db \<Rightarrow> gotime \<Rightarrow> gotime \<Rightarrow> string \<Rightarrow> int \<Rightarrow> (nat \<rightharpoonup> day_stats) option go" where
  "GetWalletStats E db db' fromTime toTime walletAddr timezone =
     (case day_window timezone fromTime toTime of (field, f, t) \<Rightarrow>
        day_report E field [r \<leftarrow> trades_between db f t. re_Hex E (tl_wallet r) = walletAddr]
          [r \<leftarrow> trades_between db' f t. re_Hex E (tl_wallet r) = walletAddr])"

text \<open>\<open>LEFT JOIN\<close>: a row without a partner has one, which is NULL.\<close>

definition left_join :: "('a \<Rightarrow> 'b \<Rightarrow> bool) \<Rightarrow> 'a list \<Rightarrow> 'b list \<Rightarrow> ('a \<times> 'b option) list" where
  "left_join P xs ys = concat (map (\<lambda>x. let ps = filter (P x) ys in if ps = [] then [(x, None)] else map (\<lambda>y. (x, Some y)) ps) xs)"

definition fees_joined :: "trade_db \<Rightarrow> tradelog_row list \<Rightarrow> (tradelog_row \<times> fee_row option) list" where
  "fees_joined db trades = left_join (\<lambda>r f. fe_trade f = tl_id r) trades (db_fees db)"

text \<open>In the first query of the statistics of a country, the trades are joined with the fees.\<close>

definition GetCountryStats :: "report_env \<Rightarrow> trade_db \<Rightarrow> trade_db \<Rightarrow> string \<Rightarrow> gotime \<Rightarrow> gotime \<Rightarrow> int \<Rightarrow> (nat \<rightharpoonup> day_stats) option go" where
  "GetCountryStats E db db' countryCode fromTime toTime timezone =
     (case day_window timezone fromTime toTime of (field, f, t) \<Rightarrow>
        day_report E field (map fst (fees_joined db [r \<leftarrow> trades_between db f t. tl_country r = Some countryCode]))
          [r \<leftarrow> trades_between db' f t. tl_country r = Some countryCode])"

section \<open>Statistics of a range\<close>

record StatsResponse =
  rp_ETHVolume :: f64
  rp_USDVolume :: f64
  rp_UniqueAddresses :: nat
  rp_NewAdresses :: nat
  rp_TotalTrades :: nat
  rp_FeeCollected :: f64
  rp_AverageTradeSize :: f64

definition trades_within :: "trade_db \<Rightarrow> gotime \<Rightarrow> gotime \<Rightarrow> tradelog_row list" where
  "trades_within db f t = [r \<leftarrow> db_tradelogs db. f \<le> tl_timestamp r \<and> tl_timestamp r \<le> t]"

text \<open>The trades joined with their fees, and each of these rows with the splits of the trade.\<close>

definition stats_rows :: "trade_db \<Rightarrow> tradelog_row list \<Rightarrow> ((tradelog_row \<times> fee_row option) \<times> split_row option) list" where
  "stats_rows db trades = left_join (\<lambda>(r, f) s. sr_trade s = tl_id r) (fees_joined db trades) (db_splits db)"

text \<open>\<open>COALESCE(SUM(...), 0)\<close> over values that may be NULL.\<close>

definition coalesce_agg :: "(f64 list \<Rightarrow> f64) \<Rightarrow> f64 option list \<Rightarrow> f64" where
  "coalesce_agg agg xs = (let vs = List.map_filter (\<lambda>x. x) xs in if vs = [] then 0 else agg vs)"

definition split_eth :: "split_row option \<Rightarrow> f64 option" where
  "split_eth s =
     (case s of None \<Rightarrow> None | Some s \<Rightarrow> if sr_src s \<noteq> WETHAddr \<and> sr_dst s \<noteq> WETHAddr then sr_eth_amount s else None)"

definition split_usd :: "tradelog_row \<Rightarrow> split_row option \<Rightarrow> f64 option" where
  "split_usd r s =
     (case s of None \<Rightarrow> None | Some s \<Rightarrow> map_option (\<lambda>x. float64 (x * tl_eth_usd_rate r)) (sr_eth_amount s))"

definition fee_sum :: "fee_row option \<Rightarrow> f64 option" where
  "fee_sum f =
     (case f of None \<Rightarrow> None
      | Some f \<Rightarrow> let d = fe_data f in
          Some (float64 (float64 (float64 (fr_platform_fee d + fr_burn d) + fr_rebate d) + fr_reward d)))"

definition GetStats :: "report_env \<Rightarrow> trade_db \<Rightarrow> gotime \<Rightarrow> gotime \<Rightarrow> StatsResponse go" where
  "GetStats E db fromTime toTime =
     (case re_err E 0 of
        Some e \<Rightarrow> Inl e
      | None \<Rightarrow>
          let rows = stats_rows db (trades_within db fromTime toTime) in
          Inr \<lparr> rp_ETHVolume = coalesce_agg (re_sum E) (map (\<lambda>((r, f), s). split_eth s) rows),
                rp_USDVolume = coalesce_agg (re_sum E) (map (\<lambda>((r, f), s). split_usd r s) rows),
                rp_UniqueAddresses = card ((\<lambda>((r, f), s). tl_user r) ` set rows),
                rp_NewAdresses = length [p \<leftarrow> rows. tl_is_first_trade (fst (fst p))],
                rp_TotalTrades = card ((\<lambda>((r, f), s). tl_id r) ` set rows),
                rp_FeeCollected = coalesce_agg (re_sum E) (map (\<lambda>((r, f), s). fee_sum f) rows),
                rp_AverageTradeSize = coalesce_agg (re_avg E) (map (\<lambda>((r, f), s). split_usd r s) rows) \<rparr>)"

section \<open>The top lists\<close>

text \<open>\<open>ORDER BY usd_amount DESC LIMIT\<close>; rows with equal amounts may come in any order, here that of the groups.\<close>

definition top_rows :: "nat \<Rightarrow> ('k \<times> f64) list \<Rightarrow> ('k \<times> f64) list" where
  "top_rows limit rows = (let sorted = sort_key (\<lambda>r. - snd r) rows in if 0 < limit then take limit sorted else sorted)"

text \<open>The maps of the results: a row without a name has its address as the key.\<close>

definition name_or_address :: "report_env \<Rightarrow> addr \<times> string \<Rightarrow> string" where
  "name_or_address E k = (if snd k = '''' then re_Hex E (fst k) else snd k)"

definition top_map :: "report_env \<Rightarrow> ((addr \<times> string) \<times> f64) list \<Rightarrow> (string \<rightharpoonup> f64)" where
  "top_map E rows = fold (\<lambda>r m. m(name_or_address E (fst r) \<mapsto> snd r)) rows Map.empty"

definition original_usd :: "tradelog_row \<Rightarrow> f64" where
  "original_usd r = float64 (tl_original_eth_amount r * tl_eth_usd_rate r)"

text \<open>A symbol that is NULL cannot be scanned.\<close>

definition GetTopTokens :: "report_env \<Rightarrow> trade_db \<Rightarrow> token_table \<Rightarrow> gotime \<Rightarrow> gotime \<Rightarrow> nat \<Rightarrow> (string \<rightharpoonup> f64) go" where
  "GetTopTokens E db tokens fromTime toTime limit =
     (let trades = trades_within db fromTime toTime;
          parts = group_by tl_src (\<lambda>g. re_sum E (map original_usd g)) trades @ group_by tl_dst (\<lambda>g. re_sum E (map original_usd g)) trades;
          rows = group_by fst (\<lambda>g. re_sum E (map snd g)) parts
      in go_bind (select_rows E 0 (top_rows limit rows)) (\<lambda>records.
         go_bind (go_map (\<lambda>(a, x). case map_of tokens a of
             Some (Some s) \<Rightarrow> Inr ((a, s), x) | _ \<Rightarrow> Inl (Err ''converting NULL to string is unsupported'')) records) (\<lambda>named.
         Inr (top_map E named))))"

definition GetTopIntegrations :: "report_env \<Rightarrow> trade_db \<Rightarrow> gotime \<Rightarrow> gotime \<Rightarrow> nat \<Rightarrow> (string \<rightharpoonup> f64) go" where
  "GetTopIntegrations E db fromTime toTime limit =
     (let rows = group_by tl_wallet (\<lambda>g. re_sum E (map usd_amount g)) (trades_within db fromTime toTime)
      in go_bind (select_rows E 0 (top_rows limit rows)) (\<lambda>records.
         go_bind (go_map (\<lambda>(a, x). case map_of (db_wallets db) a of
             Some s \<Rightarrow> Inr ((a, s), x) | None \<Rightarrow> Inl (Err ''converting NULL to string is unsupported'')) records) (\<lambda>named.
         Inr (top_map E named))))"

definition GetTopReserves :: "report_env \<Rightarrow> trade_db \<Rightarrow> gotime \<Rightarrow> gotime \<Rightarrow> nat \<Rightarrow> (string \<rightharpoonup> f64) go" where
  "GetTopReserves E db fromTime toTime limit =
     refused_query E ''column reserve.name must appear in the GROUP BY clause or be used in an aggregate function''"

section \<open>Lemmas\<close>

text \<open>The field of the groups is the start of an hour or of a day, and the ends of the range are such starts too.\<close>

definition unit_of :: "string \<Rightarrow> duration" where "unit_of freq = (if lower freq = ''h'' then Hour else Day)"
definition offset_of :: "string \<Rightarrow> int \<Rightarrow> duration" where "offset_of freq timeZone = (if lower freq = ''h'' then 0 else timeZone * Hour)"

definition slot :: "duration \<Rightarrow> duration \<Rightarrow> gotime \<Rightarrow> gotime" where "slot u z t = u * ((t + z) div u) - z"

lemma slot_le: "0 < u \<Longrightarrow> slot u z t \<le> t \<and> t < slot u z t + u"
  using mult_div_mod_eq [of u "t + z"] pos_mod_bound [of u "t + z"] pos_mod_sign [of u "t + z"] unfolding slot_def by linarith

lemma mult_le_iff_le_div: "0 < (u :: int) \<Longrightarrow> u * q \<le> x \<longleftrightarrow> q \<le> x div u"
proof
  assume u: "0 < u" and q: "q \<le> x div u"
  have "u * q \<le> u * (x div u)" using u q by simp
  also have "\<dots> \<le> x" using mult_div_mod_eq [of u x] pos_mod_sign [of u x] u by linarith
  finally show "u * q \<le> x" .
next
  assume u: "0 < u" and le: "u * q \<le> x"
  from zdiv_mono1 [OF le u] u show "q \<le> x div u" by simp
qed

lemma slot_ge_iff: "0 < u \<Longrightarrow> slot u z s \<le> slot u z x \<longleftrightarrow> slot u z s \<le> x"
  using mult_le_iff_le_div [of u "(s + z) div u" "x + z"] unfolding slot_def by auto

lemma trunc_slot: "x - x mod u = u * (x div u)" for x u :: int
  by (simp add: minus_mod_eq_mult_div)

lemma BuildDateTruncField_slot:
  "BuildDateTruncField ''day'' z t = slot Day (z * Hour) t" "BuildDateTruncField ''hour'' z t = slot Hour 0 t"
  by (auto simp: BuildDateTruncField_def date_trunc_def slot_def trunc_slot)

lemma RoundTime_slot: "RoundTime t ''day'' z = slot Day (z * Hour) t" "RoundTime t ''hour'' z = slot Hour 0 t"
proof -
  have "(t - zero_time) mod Hour = t mod Hour"
  proof -
    have "t - zero_time = t + 17259888 * Hour" by (simp add: go_defs)
    then show ?thesis by (simp only: mod_mult_self2 mult.commute [of 17259888])
  qed
  then show "RoundTime t ''hour'' z = slot Hour 0 t" by (simp add: RoundTime_def slot_def trunc_slot)
  show "RoundTime t ''day'' z = slot Day (z * Hour) t" by (simp add: RoundTime_def slot_def Midnight_eq_day)
qed

lemma freq_window_slot:
  assumes "freq_window freq tz fromTime toTime = Inr (field, f, t)"
  shows "field = slot (unit_of freq) (offset_of freq tz)" "f = slot (unit_of freq) (offset_of freq tz) fromTime"
    "t = slot (unit_of freq) (offset_of freq tz) toTime + unit_of freq" "0 < unit_of freq" "unit_of freq \<le> Day"
proof -
  have "field = slot (unit_of freq) (offset_of freq tz) \<and> f = slot (unit_of freq) (offset_of freq tz) fromTime \<and>
      t = slot (unit_of freq) (offset_of freq tz) toTime + unit_of freq"
    using assms unfolding freq_window_def BuildDateTruncField_slot RoundTime_slot
    by (auto simp: unit_of_def offset_of_def BuildDateTruncField_slot Day_def fun_eq_iff split: if_splits)
  then show "field = slot (unit_of freq) (offset_of freq tz)" "f = slot (unit_of freq) (offset_of freq tz) fromTime"
    "t = slot (unit_of freq) (offset_of freq tz) toTime + unit_of freq" by blast+
  show "0 < unit_of freq" "unit_of freq \<le> Day" by (simp_all add: unit_of_def go_defs)
qed

lemma day_window_slot:
  "day_window tz fromTime toTime = (slot Day (tz * Hour), slot Day (tz * Hour) fromTime, slot Day (tz * Hour) toTime + Day)"
  by (simp add: day_window_def BuildDateTruncField_slot RoundTime_slot Day_def fun_eq_iff)

text \<open>The starts of the groups have different milliseconds.\<close>

lemma slot_ms_inj:
  assumes "u = Hour \<or> u = Day" "z mod Hour = 0"
  shows "inj_on TimeToTimestampMs (slot u z ` {t. Day \<le> t \<and> t < 2 ^ 63})"
proof (rule inj_onI)
  fix a b assume a: "a \<in> slot u z ` {t. Day \<le> t \<and> t < 2 ^ 63}" and b: "b \<in> slot u z ` {t. Day \<le> t \<and> t < 2 ^ 63}"
    and e: "TimeToTimestampMs a = TimeToTimestampMs b"
  have u: "0 < u" "u \<le> Day" "u mod 1000000 = 0" using assms(1) by (auto simp: go_defs)
  have "z mod 1000000 = 0" using assms(2) by (auto simp: go_defs)
  with u(3) have mod: "slot u z t mod 1000000 = 0" for t
    by (simp add: slot_def mod_eq_0_iff_dvd dvd_diff)
  have range: "0 \<le> c \<and> c < 2 ^ 63" if "c \<in> slot u z ` {t. Day \<le> t \<and> t < 2 ^ 63}" for c
  proof -
    from that obtain t where "c = slot u z t" "Day \<le> t" "t < 2 ^ 63" by blast
    with slot_le [OF u(1), of z t] u(2) show ?thesis by linarith
  qed
  have "a div 1000000 = b div 1000000"
    using e range [OF a] range [OF b] pos_imp_zdiv_nonneg_iff [of 1000000 a] pos_imp_zdiv_nonneg_iff [of 1000000 b]
    by (simp add: TimeToTimestampMs_nonneg eq_nat_nat_iff)
  moreover have "a mod 1000000 = 0" "b mod 1000000 = 0" using a b mod by auto
  ultimately show "a = b" by (metis mult_div_mod_eq)
qed

lemma group_by_keys: "map fst (group_by key agg xs) = remdups (map key xs)"
  by (simp add: group_by_def comp_def)

lemma group_by_Nil_iff [simp]: "group_by key agg xs = [] \<longleftrightarrow> xs = []"
  by (simp add: group_by_def)

lemma set_group_by: "set (group_by key agg xs) = (\<lambda>k. (k, agg [x \<leftarrow> xs. key x = k])) ` key ` set xs"
  by (simp add: group_by_def)

lemma by_time_map:
  assumes "distinct (map fst rs)" "inj_on TimeToTimestampMs (fst ` set rs)"
  shows "dom (by_time f rs) = TimeToTimestampMs ` fst ` set rs \<and> (\<forall>(t, r)\<in>set rs. by_time f rs (TimeToTimestampMs t) = Some (f r))"
  using assms
proof (induction rs rule: rev_induct)
  case Nil
  then show ?case by (simp add: by_time_def)
next
  case (snoc q rs)
  have step: "by_time f (rs @ [q]) = (by_time f rs)(TimeToTimestampMs (fst q) \<mapsto> f (snd q))" by (simp add: by_time_def)
  have new: "TimeToTimestampMs (fst q) \<noteq> TimeToTimestampMs t" if "(t, r) \<in> set rs" for t r
  proof
    assume "TimeToTimestampMs (fst q) = TimeToTimestampMs t"
    with inj_onD [OF snoc.prems(2), of "fst q" t] that have "fst q = t" by force
    moreover have "fst q \<notin> fst ` set rs" using snoc.prems(1) by simp
    moreover have "t \<in> fst ` set rs" using that by (rule image_eqI [rotated]) simp
    ultimately show False by simp
  qed
  have "inj_on TimeToTimestampMs (fst ` set rs)" using snoc.prems(2) by (rule inj_on_subset) auto
  with snoc.IH snoc.prems(1) have IH: "dom (by_time f rs) = TimeToTimestampMs ` fst ` set rs"
    "\<And>t r. (t, r) \<in> set rs \<Longrightarrow> by_time f rs (TimeToTimestampMs t) = Some (f r)" by auto
  have "(by_time f (rs @ [q])) (TimeToTimestampMs t) = Some (f r)" if "(t, r) \<in> set (rs @ [q])" for t r
  proof (cases "(t, r) \<in> set rs")
    case True
    with IH(2) [OF True] new [OF True] show ?thesis unfolding step by (simp add: fun_upd_other)
  next
    case False
    with that have "q = (t, r)" by auto
    then show ?thesis unfolding step by simp
  qed
  moreover have "dom (by_time f (rs @ [q])) = TimeToTimestampMs ` fst ` set (rs @ [q])" unfolding step using IH(1) by simp
  ultimately show ?case by blast
qed

lemma dom_by_time_group:
  assumes "inj_on TimeToTimestampMs (key ` set xs)"
  shows "dom (by_time f (group_by key agg xs)) = TimeToTimestampMs ` key ` set xs"
proof -
  have keys: "fst ` set (group_by key agg xs) = key ` set xs" by (simp add: set_group_by image_image)
  show ?thesis using by_time_map [of "group_by key agg xs" f] assms unfolding keys by (simp add: group_by_keys)
qed

text \<open>The times that the reports need: after the first day of 1970, and within the range of \<open>UnixNano\<close>.\<close>

definition report_times_ok :: "trade_db \<Rightarrow> bool" where
  "report_times_ok db \<longleftrightarrow> list_all (\<lambda>r. Day \<le> tl_timestamp r \<and> tl_timestamp r < 2 ^ 63) (db_tradelogs db)"

lemma slot_keys_inj:
  assumes "\<forall>x\<in>set xs. g x \<in> set (db_tradelogs db)" "report_times_ok db" "u = Hour \<or> u = Day" "z mod Hour = 0"
  shows "inj_on TimeToTimestampMs ((\<lambda>x. slot u z (tl_timestamp (g x))) ` set xs)"
  by (rule inj_on_subset [OF slot_ms_inj [OF assms(3,4)]]) (use assms(1,2) in \<open>auto simp: report_times_ok_def list_all_iff\<close>)

lemma freq_keys_inj:
  assumes "freq_window freq tz fromTime toTime = Inr (field, f, t)" "\<forall>x\<in>set xs. g x \<in> set (db_tradelogs db)" "report_times_ok db"
  shows "inj_on TimeToTimestampMs ((\<lambda>x. field (tl_timestamp (g x))) ` set xs)"
  unfolding freq_window_slot(1) [OF assms(1)]
  by (rule slot_keys_inj [OF assms(2,3)]) (auto simp: unit_of_def offset_of_def)

text \<open>The second query of a report on the map of the first one.\<close>

lemma fold_volumes:
  assumes "distinct (map fst vs)" "inj_on TimeToTimestampMs (fst ` set vs)"
    and "\<forall>(t, h)\<in>set vs. m (TimeToTimestampMs t) = Some (s t)"
  defines "upd \<equiv> \<lambda>v m. let ts = TimeToTimestampMs (fst v) in (case m ts of None \<Rightarrow> m | Some s \<Rightarrow> m(ts \<mapsto> snd v s))"
  shows "(\<forall>(t, h)\<in>set vs. fold upd vs m (TimeToTimestampMs t) = Some (h (s t))) \<and>
    (\<forall>k. k \<notin> TimeToTimestampMs ` fst ` set vs \<longrightarrow> fold upd vs m k = m k)"
  using assms(1-3)
proof (induction vs arbitrary: m)
  case (Cons v vs)
  obtain t h where v: "v = (t, h)" by force
  let ?m = "m(TimeToTimestampMs t \<mapsto> h (s t))"
  have new: "TimeToTimestampMs t \<notin> TimeToTimestampMs ` fst ` set vs"
  proof
    assume "TimeToTimestampMs t \<in> TimeToTimestampMs ` fst ` set vs"
    then obtain t' where t': "t' \<in> fst ` set vs" "TimeToTimestampMs t = TimeToTimestampMs t'" by blast
    with inj_onD [OF Cons.prems(2), of t t'] v have "t = t'" by simp
    with t'(1) Cons.prems(1) v show False by simp
  qed
  have "\<forall>(t', h')\<in>set vs. ?m (TimeToTimestampMs t') = Some (s t')"
  proof (clarify)
    fix t' h' assume "(t', h') \<in> set vs"
    then have "t' \<in> fst ` set vs" by (rule image_eqI [rotated]) simp
    with new have "TimeToTimestampMs t' \<noteq> TimeToTimestampMs t" by (metis imageI)
    with Cons.prems(3) \<open>(t', h') \<in> set vs\<close> show "?m (TimeToTimestampMs t') = Some (s t')" by auto
  qed
  moreover have "distinct (map fst vs)" "inj_on TimeToTimestampMs (fst ` set vs)"
    using Cons.prems(1) inj_on_subset [OF Cons.prems(2)] by auto
  ultimately have IH: "(\<forall>(t, h)\<in>set vs. fold upd vs ?m (TimeToTimestampMs t) = Some (h (s t))) \<and>
    (\<forall>k. k \<notin> TimeToTimestampMs ` fst ` set vs \<longrightarrow> fold upd vs ?m k = ?m k)" using Cons.IH by blast
  have step: "fold upd (v # vs) m = fold upd vs ?m" using Cons.prems(3) v by (simp add: upd_def Let_def)
  show ?case unfolding step using IH new v by (auto simp: fun_upd_def)
qed simp

lemma day_report_same:
  assumes "re_err E 0 = None" "re_err E 1 = None" "rows \<noteq> []"
    and "inj_on TimeToTimestampMs ((\<lambda>r. field (tl_timestamp r)) ` set rows)"
    and "set (map (\<lambda>r. field (tl_timestamp r)) rows') = set (map (\<lambda>r. field (tl_timestamp r)) rows)"
  shows "\<exists>m. day_report E field rows rows' = Inr (Some m) \<and>
    dom m = (\<lambda>r. TimeToTimestampMs (field (tl_timestamp r))) ` set rows \<and>
    (\<forall>r\<in>set rows. m (TimeToTimestampMs (field (tl_timestamp r))) =
       Some (add_volumes E [x \<leftarrow> rows'. field (tl_timestamp x) = field (tl_timestamp r)]
         (count_stats [x \<leftarrow> rows. field (tl_timestamp x) = field (tl_timestamp r)])))"
proof -
  let ?key = "\<lambda>r. field (tl_timestamp r)" and ?ms = TimeToTimestampMs
  let ?counts = "group_by ?key count_stats rows" and ?volumes = "group_by ?key (add_volumes E) rows'"
  let ?upd = "\<lambda>v m. let ts = ?ms (fst v) in (case m ts of None \<Rightarrow> m | Some s \<Rightarrow> m(ts \<mapsto> snd v s))"
  let ?m = "fold ?upd ?volumes (by_time (\<lambda>s. s) ?counts)"
  let ?s = "\<lambda>t. count_stats [x \<leftarrow> rows. ?key x = t]"
  have keys: "?key ` set rows' = ?key ` set rows" using assms(5) by simp
  have fsts: "fst ` set ?counts = ?key ` set rows" "fst ` set ?volumes = ?key ` set rows"
    by (simp_all add: set_group_by image_image keys)
  have "distinct (map fst ?counts)" by (simp add: group_by_keys)
  from by_time_map [OF this, of "\<lambda>s. s"] assms(4) have counts: "dom (by_time (\<lambda>s. s) ?counts) = ?ms ` ?key ` set rows"
    "\<And>t s. (t, s) \<in> set ?counts \<Longrightarrow> by_time (\<lambda>s. s) ?counts (?ms t) = Some s" unfolding fsts by auto
  have "by_time (\<lambda>s. s) ?counts (?ms (?key r)) = Some (?s (?key r))" if "r \<in> set rows" for r
    by (rule counts(2)) (use that in \<open>auto simp: set_group_by\<close>)
  then have "\<forall>(t, h)\<in>set ?volumes. by_time (\<lambda>s. s) ?counts (?ms t) = Some (?s t)"
    using keys by (force simp: set_group_by)
  moreover have "distinct (map fst ?volumes)" "inj_on ?ms (fst ` set ?volumes)" using assms(4) unfolding fsts by (simp_all add: group_by_keys)
  ultimately have fold: "\<And>t h. (t, h) \<in> set ?volumes \<Longrightarrow> ?m (?ms t) = Some (h (?s t))"
    "\<And>k. k \<notin> ?ms ` ?key ` set rows \<Longrightarrow> ?m k = by_time (\<lambda>s. s) ?counts k"
    using fold_volumes [of ?volumes "by_time (\<lambda>s. s) ?counts" ?s] unfolding fsts by auto
  have each: "?m (?ms (?key r)) = Some (add_volumes E [x \<leftarrow> rows'. ?key x = ?key r] (?s (?key r)))" if "r \<in> set rows" for r
  proof (rule fold(1))
    have "?key r \<in> ?key ` set rows'" using that keys by blast
    then show "(?key r, add_volumes E [x \<leftarrow> rows'. ?key x = ?key r]) \<in> set ?volumes" by (auto simp: set_group_by)
  qed
  have "dom ?m = ?ms ` ?key ` set rows"
  proof (rule set_eqI)
    fix k show "k \<in> dom ?m \<longleftrightarrow> k \<in> ?ms ` ?key ` set rows"
      using each fold(2) [of k] counts(1) by (cases "k \<in> ?ms ` ?key ` set rows") (auto simp: domIff)
  qed
  then have "dom ?m = (\<lambda>r. ?ms (?key r)) ` set rows" by (simp only: image_image)
  moreover have "day_report E field rows rows' = Inr (Some ?m)"
    using assms(1-3) by (simp add: day_report_def select_rows_def)
  ultimately show ?thesis using each by blast
qed

text \<open>Sums over the rows of a join: each row counts once for each partner, and once without a partner.\<close>

lemma sum_list_left_join:
  "sum_list (map w (left_join P xs ys)) =
    (\<Sum>x\<leftarrow>xs. let ps = filter (P x) ys in if ps = [] then w (x, None) else (\<Sum>y\<leftarrow>ps. w (x, Some y)) :: 'b :: comm_monoid_add)"
  unfolding left_join_def by (induction xs) (simp_all add: Let_def comp_def)

definition partners :: "('a \<Rightarrow> 'b \<Rightarrow> bool) \<Rightarrow> 'a \<Rightarrow> 'b list \<Rightarrow> nat" where
  "partners P x ys = max 1 (length (filter (P x) ys))"

lemma sum_list_left_join_fst:
  "sum_list (map (\<lambda>p. w (fst p)) (left_join P xs ys)) = (\<Sum>x\<leftarrow>xs. of_nat (partners P x ys) * w x :: 'b :: comm_semiring_1)"
proof -
  have "sum_list (map (\<lambda>y. w x) zs) = of_nat (length zs) * (w x :: 'b)" for x and zs :: "'c list"
    by (induction zs) (simp_all add: algebra_simps)
  then show ?thesis
    unfolding sum_list_left_join by (intro arg_cong [where f = sum_list] map_cong) (auto simp: partners_def Let_def max_def Suc_le_eq)
qed

lemma set_left_join: "fst ` set (left_join P xs ys) = set xs"
proof -
  have "fst ` set (let ps = filter (P x) ys in if ps = [] then [(x, None)] else map (\<lambda>y. (x, Some y)) ps) = {x}" for x
    by (cases "filter (P x) ys") (auto simp: Let_def)
  then show ?thesis by (simp add: left_join_def image_UN)
qed

lemma length_filter_sum: "length (filter P xs) = (\<Sum>x\<leftarrow>xs. if P x then 1 else 0)"
  by (induction xs) simp_all

lemma ms_inj: "inj_on TimeToTimestampMs {s. 0 \<le> s \<and> s < 2 ^ 63 \<and> 1000000 dvd s}"
proof (rule inj_onI)
  fix a b :: gotime
  assume a: "a \<in> {s. 0 \<le> s \<and> s < 2 ^ 63 \<and> 1000000 dvd s}" and b: "b \<in> {s. 0 \<le> s \<and> s < 2 ^ 63 \<and> 1000000 dvd s}"
    and e: "TimeToTimestampMs a = TimeToTimestampMs b"
  then have "a div 1000000 = b div 1000000"
    using pos_imp_zdiv_nonneg_iff [of 1000000 a] pos_imp_zdiv_nonneg_iff [of 1000000 b]
    by (simp add: TimeToTimestampMs_nonneg eq_nat_nat_iff)
  with a b show "a = b" by (metis (mono_tags, lifting) dvd_div_eq_iff mem_Collect_eq)
qed

lemma by_time_group_lookup:
  assumes "inj_on TimeToTimestampMs (insert s (key ` set xs))"
  shows "by_time (\<lambda>r. r) (group_by key agg xs) (TimeToTimestampMs s) =
    (if s \<in> key ` set xs then Some (agg [x \<leftarrow> xs. key x = s]) else None)"
proof -
  let ?rs = "group_by key agg xs" and ?m = "by_time (\<lambda>r. r) (group_by key agg xs)"
  have keys: "fst ` set ?rs = key ` set xs" by (simp add: set_group_by image_image)
  have inj: "inj_on TimeToTimestampMs (key ` set xs)" using assms by (rule inj_on_subset) auto
  have m: "dom ?m = TimeToTimestampMs ` key ` set xs" "\<And>t r. (t, r) \<in> set ?rs \<Longrightarrow> ?m (TimeToTimestampMs t) = Some r"
    using by_time_map [of ?rs "\<lambda>r. r"] inj unfolding keys by (auto simp: group_by_keys)
  show ?thesis
  proof (cases "s \<in> key ` set xs")
    case True
    then have "(s, agg [x \<leftarrow> xs. key x = s]) \<in> set ?rs" by (auto simp: set_group_by)
    from m(2) [OF this] True show ?thesis by simp
  next
    case False
    have "TimeToTimestampMs s \<notin> dom ?m"
    proof
      assume "TimeToTimestampMs s \<in> dom ?m"
      then obtain k where "k \<in> key ` set xs" "TimeToTimestampMs s = TimeToTimestampMs k" unfolding m(1) by blast
      with inj_onD [OF assms, of s k] False show False by blast
    qed
    with False show ?thesis by (auto simp: domIff)
  qed
qed

text \<open>The hours and the days of the reports in the zone 0: a slot has the times of one unit.\<close>

definition report_unit :: "string \<Rightarrow> duration \<Rightarrow> bool" where
  "report_unit frequency u \<longleftrightarrow> (lower frequency = ''h'' \<and> u = Hour) \<or> (lower frequency = ''d'' \<and> u = Day)"

definition slot_starts :: "duration \<Rightarrow> gotime set" where
  "slot_starts u = {s. 0 \<le> s \<and> s < 2 ^ 63 \<and> u dvd s}"

lemma report_unit_window:
  assumes "report_unit frequency u"
  shows "freq_window frequency 0 fromTime toTime =
    Inr (\<lambda>t. u * (t div u), u * (fromTime div u), u * (toTime div u) + u)" "u = Hour \<or> u = Day" "0 < u" "1000000 dvd u"
proof -
  show u: "u = Hour \<or> u = Day" using assms by (auto simp: report_unit_def)
  then show "0 < u" "1000000 dvd u" by (auto simp: go_defs)
  have slots: "slot u 0 = (\<lambda>t. u * (t div u))" for u by (simp add: slot_def fun_eq_iff)
  have "BuildDateTruncField ''day'' 0 = slot Day 0" "BuildDateTruncField ''hour'' 0 = slot Hour 0"
    by (simp_all add: fun_eq_iff BuildDateTruncField_slot)
  then show "freq_window frequency 0 fromTime toTime =
      Inr (\<lambda>t. u * (t div u), u * (fromTime div u), u * (toTime div u) + u)"
    using assms by (auto simp: report_unit_def freq_window_def RoundTime_slot slots Day_def)
qed

lemma slot_of_time:
  fixes s u x :: int
  assumes "0 < u" "u dvd s"
  shows "u * (x div u) = s \<longleftrightarrow> s \<le> x \<and> x < s + u"
proof -
  from assms obtain q where s: "s = u * q" by blast
  have "x div u = q \<longleftrightarrow> u * q \<le> x \<and> x < u * q + u"
  proof
    assume "x div u = q"
    then show "u * q \<le> x \<and> x < u * q + u"
      using mult_div_mod_eq [of u x] pos_mod_bound [OF assms(1), of x] pos_mod_sign [OF assms(1), of x] by auto
  next
    assume "u * q \<le> x \<and> x < u * q + u"
    then show "x div u = q" using assms(1) by (intro int_div_pos_eq [of x u q "x - u * q"]) auto
  qed
  with assms(1) s show ?thesis by simp
qed

lemma slot_in_window:
  fixes s u a b :: int
  assumes "0 < u" "u dvd s" "u * (x div u) = s"
  shows "u * (a div u) \<le> x \<and> x < u * (b div u) + u \<longleftrightarrow> a < s + u \<and> s \<le> b"
proof -
  from assms(1,2) obtain q where s: "s = u * q" by blast
  have x: "x div u = q" using assms(1,3) s by simp
  have "u * (a div u) \<le> x \<longleftrightarrow> a div u \<le> q" unfolding mult_le_iff_le_div [OF assms(1)] x ..
  also have "\<dots> \<longleftrightarrow> \<not> u * (q + 1) \<le> a" unfolding mult_le_iff_le_div [OF assms(1)] by linarith
  finally have 1: "u * (a div u) \<le> x \<longleftrightarrow> a < s + u" by (simp add: s algebra_simps not_le)
  have "x < u * (b div u) + u \<longleftrightarrow> \<not> u * (b div u + 1) \<le> x" by (simp add: algebra_simps not_le)
  also have "\<dots> \<longleftrightarrow> q \<le> b div u" unfolding mult_le_iff_le_div [OF assms(1)] x by linarith
  also have "\<dots> \<longleftrightarrow> s \<le> b" unfolding s mult_le_iff_le_div [OF assms(1)] ..
  finally show ?thesis using 1 by simp
qed

text \<open>The map of a report, by the starts of its slots: \<open>rows\<close> are those of the window, with their trades.\<close>

lemma slot_map:
  fixes agg :: "'a list \<Rightarrow> 'r" and rows :: "'a list" and u :: duration and trade :: "'a \<Rightarrow> tradelog_row"
  assumes "report_unit frequency u" "report_times_ok db" "\<forall>x\<in>set rows. trade x \<in> set (db_tradelogs db)"
  defines "m \<equiv> by_time (\<lambda>v. v) (group_by (\<lambda>x. u * (tl_timestamp (trade x) div u)) agg rows)"
  shows "dom m \<subseteq> TimeToTimestampMs ` slot_starts u"
    and "s \<in> slot_starts u \<Longrightarrow> m (TimeToTimestampMs s) =
      (let xs = [x \<leftarrow> rows. s \<le> tl_timestamp (trade x) \<and> tl_timestamp (trade x) < s + u]
       in if xs = [] then None else Some (agg xs))"
    and "m = Map.empty \<longleftrightarrow> rows = []"
proof -
  let ?key = "\<lambda>x. u * (tl_timestamp (trade x) div u)"
  note u = report_unit_window(2-4) [OF assms(1)]
  have key: "?key x \<in> slot_starts u" if "x \<in> set rows" for x
  proof -
    have "Day \<le> tl_timestamp (trade x)" "tl_timestamp (trade x) < 2 ^ 63"
      using assms(2,3) that by (auto simp: report_times_ok_def list_all_iff)
    moreover have "?key x \<le> tl_timestamp (trade x)"
      using slot_of_time [OF u(2), of "?key x" "tl_timestamp (trade x)"] by simp
    moreover have "0 \<le> ?key x" if "0 \<le> tl_timestamp (trade x)" using that u(2) by (simp add: pos_imp_zdiv_nonneg_iff)
    moreover have "0 \<le> Day" by (simp add: go_defs)
    ultimately have "0 \<le> ?key x" "?key x < 2 ^ 63" by linarith+
    then show ?thesis by (simp add: slot_starts_def)
  qed
  have starts: "slot_starts u \<subseteq> {s. 0 \<le> s \<and> s < 2 ^ 63 \<and> 1000000 dvd s}"
    using dvd_trans [OF u(3)] unfolding slot_starts_def by blast
  have inj: "inj_on TimeToTimestampMs (insert s (?key ` set rows))" if "s \<in> slot_starts u" for s
    by (rule inj_on_subset [OF ms_inj]) (use that key starts in blast)
  have inj_keys: "inj_on TimeToTimestampMs (?key ` set rows)"
    by (rule inj_on_subset [OF ms_inj]) (use key starts in blast)
  have dom: "dom m = TimeToTimestampMs ` ?key ` set rows" unfolding m_def by (rule dom_by_time_group [OF inj_keys])
  with key show "dom m \<subseteq> TimeToTimestampMs ` slot_starts u" by blast
  show "m = Map.empty \<longleftrightarrow> rows = []" unfolding dom_eq_empty_conv [symmetric] dom by simp
  assume s: "s \<in> slot_starts u"
  then have "u dvd s" by (simp add: slot_starts_def)
  from slot_of_time [OF u(2) this] have "?key x = s \<longleftrightarrow> s \<le> tl_timestamp (trade x) \<and> tl_timestamp (trade x) < s + u" for x .
  then have "[x \<leftarrow> rows. ?key x = s] = [x \<leftarrow> rows. s \<le> tl_timestamp (trade x) \<and> tl_timestamp (trade x) < s + u]"
    by (intro filter_cong) simp_all
  moreover have "s \<in> ?key ` set rows \<longleftrightarrow> [x \<leftarrow> rows. ?key x = s] \<noteq> []" by (auto simp: filter_empty_conv)
  ultimately show "m (TimeToTimestampMs s) =
      (let xs = [x \<leftarrow> rows. s \<le> tl_timestamp (trade x) \<and> tl_timestamp (trade x) < s + u]
       in if xs = [] then None else Some (agg xs))"
    unfolding m_def by_time_group_lookup [OF inj [OF s]] by (simp add: Let_def)
qed

lemma window_slot_filter:
  assumes "report_unit frequency u" "s \<in> slot_starts u"
  shows "[r \<leftarrow> trades_between db (u * (fromTime div u)) (u * (toTime div u) + u). s \<le> tl_timestamp r \<and> tl_timestamp r < s + u] =
    (if fromTime < s + u \<and> s \<le> toTime then [r \<leftarrow> db_tradelogs db. s \<le> tl_timestamp r \<and> tl_timestamp r < s + u] else [])"
proof -
  note u = report_unit_window(3) [OF assms(1)]
  have s: "u dvd s" using assms(2) by (simp add: slot_starts_def)
  have "(u * (fromTime div u) \<le> x \<and> x < u * (toTime div u) + u) \<longleftrightarrow> (fromTime < s + u \<and> s \<le> toTime)"
    if "s \<le> x" "x < s + u" for x
    using slot_in_window [OF u s] slot_of_time [OF u s] that by blast
  then have same: "((u * (fromTime div u) \<le> tl_timestamp r \<and> tl_timestamp r < u * (toTime div u) + u) \<and>
      s \<le> tl_timestamp r \<and> tl_timestamp r < s + u) =
      ((fromTime < s + u \<and> s \<le> toTime) \<and> s \<le> tl_timestamp r \<and> tl_timestamp r < s + u)" for r by blast
  have "[r \<leftarrow> trades_between db (u * (fromTime div u)) (u * (toTime div u) + u). s \<le> tl_timestamp r \<and> tl_timestamp r < s + u] =
      [r \<leftarrow> db_tradelogs db. (fromTime < s + u \<and> s \<le> toTime) \<and> s \<le> tl_timestamp r \<and> tl_timestamp r < s + u]"
    unfolding trades_between_def filter_filter by (rule filter_cong [OF refl]) (rule same)
  then show ?thesis by (cases "fromTime < s + u \<and> s \<le> toTime") auto
qed

text \<open>Lists over the rows of a join.\<close>

lemma concat_left_join:
  "concat (map g (left_join P xs ys)) =
    concat (map (\<lambda>x. let ps = filter (P x) ys in if ps = [] then g (x, None) else concat (map (\<lambda>y. g (x, Some y)) ps)) xs)"
  unfolding left_join_def by (induction xs) (simp_all add: Let_def comp_def)

lemma concat_left_join_fst:
  "concat (map (\<lambda>p. g (fst p)) (left_join P xs ys)) = concat (map (\<lambda>x. concat (replicate (partners P x ys) (g x))) xs)"
  unfolding concat_left_join
  by (intro arg_cong [where f = concat] map_cong refl) (auto simp: partners_def Let_def max_def Suc_le_eq map_replicate_const)

lemma concat_left_join_snd:
  assumes "\<And>x. g (x, None) = []"
  shows "concat (map g (left_join P xs ys)) = concat (map (\<lambda>x. concat (map (\<lambda>y. g (x, Some y)) (filter (P x) ys))) xs)"
  unfolding concat_left_join by (intro arg_cong [where f = concat] map_cong refl) (auto simp: Let_def assms)

lemma concat_replicate_single: "concat (replicate n [x]) = replicate n x"
  by (induction n) simp_all

definition non_null :: "f64 option \<Rightarrow> f64 list" where
  "non_null x = (case x of None \<Rightarrow> [] | Some v \<Rightarrow> [v])"

lemma map_filter_concat: "List.map_filter w xs = concat (map (\<lambda>x. non_null (w x)) xs)"
  by (induction xs) (auto simp: List.map_filter_simps non_null_def split: option.splits)

lemma coalesce_list: "coalesce_agg agg (map w xs) = (let vs = concat (map (\<lambda>x. non_null (w x)) xs) in if vs = [] then 0 else agg vs)"
proof -
  have "List.map_filter (\<lambda>x. x) (map w xs) = concat (map (\<lambda>x. non_null (w x)) xs)"
    unfolding map_filter_concat by (simp add: comp_def)
  then show ?thesis by (simp add: coalesce_agg_def)
qed

section \<open>Properties\<close>

text \<open>
  The range of a report consists of whole hours or days of the zone: it contains the range that is asked for, and a time
  belongs to it exactly when the start of its group does.
\<close>

theorem freq_window_whole:
  assumes "freq_window freq tz fromTime toTime = Inr (field, f, t)"
  shows "f \<le> fromTime \<and> toTime < t \<and>
    (\<forall>x. field x \<le> x \<and> x < field x + unit_of freq \<and> (f \<le> x \<and> x < t) = (f \<le> field x \<and> field x < t))"
proof -
  let ?u = "unit_of freq" and ?z = "offset_of freq tz"
  note w = freq_window_slot [OF assms]
  have t: "t = slot ?u ?z (toTime + ?u)"
  proof -
    have "(toTime + ?u + ?z) div ?u = (toTime + ?z + ?u) div ?u" by (simp add: algebra_simps)
    also have "\<dots> = (toTime + ?z) div ?u + 1" using w(4) by (intro div_add_self2) simp
    finally show ?thesis unfolding w(3) slot_def by (simp add: algebra_simps)
  qed
  have "f \<le> x \<longleftrightarrow> f \<le> field x" for x unfolding w(1,2) using slot_ge_iff [OF w(4), of ?z fromTime x] by blast
  moreover have "t \<le> x \<longleftrightarrow> t \<le> field x" for x unfolding w(1) t using slot_ge_iff [OF w(4), of ?z "toTime + ?u" x] by blast
  then have "x < t \<longleftrightarrow> field x < t" for x by (metis not_le)
  moreover have "field x \<le> x \<and> x < field x + ?u" for x unfolding w(1) by (rule slot_le [OF w(4)])
  moreover have "f \<le> fromTime" "toTime < t" unfolding w(2,3) using slot_le [OF w(4), of ?z] by blast+
  ultimately show ?thesis by blast
qed

text \<open>
  C20: The volume of a token, slot by slot. For the frequency of an hour or of a day, the result has an entry for each hour or
  day (UTC) that overlaps the range asked for and has a trade from or to the token, and no other; the entry has the sums over
  exactly the trades of the whole hour or day: of the source amount of each trade from the token and the destination amount of
  each trade to it, and of the ether amount and its value in dollars of both. A trade from the token to itself counts on both
  sides. \<open>SUM\<close> is the aggregate of the database, of which nothing is assumed; the trades are after the first day of 1970 and
  before the end of the range of \<open>UnixNano\<close>.
\<close>

theorem GetAssetVolume_slots:
  assumes "report_unit frequency u" "re_err E 0 = None" "report_times_ok db"
  shows "\<exists>m. GetAssetVolume E db token fromTime toTime frequency = Inr (if m = Map.empty then None else Some m) \<and>
    dom m \<subseteq> TimeToTimestampMs ` slot_starts u \<and>
    (\<forall>s\<in>slot_starts u.
       let slot = [r \<leftarrow> db_tradelogs db. s \<le> tl_timestamp r \<and> tl_timestamp r < s + u];
           sold = [r \<leftarrow> slot. tl_src r = token]; bought = [r \<leftarrow> slot. tl_dst r = token]
       in m (TimeToTimestampMs s) =
         (if fromTime < s + u \<and> s \<le> toTime \<and> sold @ bought \<noteq> [] then
            Some \<lparr> vs_ETHAmount = re_sum E (map tl_eth_amount (sold @ bought)),
                   vs_USDAmount = re_sum E (map (\<lambda>r. float64 (tl_eth_amount r * tl_eth_usd_rate r)) (sold @ bought)),
                   vs_Volume = re_sum E (map tl_src_amount sold @ map tl_dst_amount bought) \<rparr>
          else None))"
proof -
  let ?key = "\<lambda>p. u * (tl_timestamp (fst p) div u)"
  let ?trades = "trades_between db (u * (fromTime div u)) (u * (toTime div u) + u)"
  let ?rows = "token_rows token ?trades"
  let ?m = "by_time (\<lambda>v. v) (group_by ?key (volume_stats E) ?rows)"
  have own: "\<forall>p\<in>set ?rows. fst p \<in> set (db_tradelogs db)" by (auto simp: token_rows_def trades_between_def)
  note m = slot_map [OF assms(1,3) own, where agg = "volume_stats E"]
  have run: "GetAssetVolume E db token fromTime toTime frequency = Inr (if ?m = Map.empty then None else Some ?m)"
    unfolding GetAssetVolume_def report_unit_window(1) [OF assms(1)] m(3)
    using assms(2) by (simp add: select_rows_def split_beta')
  have filter_rows: "[p \<leftarrow> token_rows token xs. P (fst p)] = token_rows token [r \<leftarrow> xs. P r]" for P xs
    by (simp add: token_rows_def filter_map comp_def conj_commute)
  have entry: "?m (TimeToTimestampMs s) =
      (let xs = token_rows token (if fromTime < s + u \<and> s \<le> toTime
                then [r \<leftarrow> db_tradelogs db. s \<le> tl_timestamp r \<and> tl_timestamp r < s + u] else [])
       in if xs = [] then None else Some (volume_stats E xs))" if "s \<in> slot_starts u" for s
    unfolding m(2) [OF that] window_slot_filter [OF assms(1) that, symmetric] filter_rows [symmetric] ..
  obtain m where "GetAssetVolume E db token fromTime toTime frequency = Inr (if m = Map.empty then None else Some m)"
    "dom m \<subseteq> TimeToTimestampMs ` slot_starts u"
    "\<And>s. s \<in> slot_starts u \<Longrightarrow> m (TimeToTimestampMs s) =
      (let xs = token_rows token (if fromTime < s + u \<and> s \<le> toTime
                then [r \<leftarrow> db_tradelogs db. s \<le> tl_timestamp r \<and> tl_timestamp r < s + u] else [])
       in if xs = [] then None else Some (volume_stats E xs))"
    using run m(1) entry by blast
  then show ?thesis
    by (intro exI [of _ m] conjI ballI)
      (simp_all add: Let_def token_rows_def volume_stats_def usd_amount_def comp_def split_beta')
qed

text \<open>The same for the volume of a user.\<close>

theorem GetUserVolume_slots:
  assumes "report_unit frequency u" "re_err E 0 = None" "report_times_ok db"
  shows "\<exists>m. GetUserVolume E db user fromTime toTime frequency = Inr m \<and> dom m \<subseteq> TimeToTimestampMs ` slot_starts u \<and>
    (\<forall>s\<in>slot_starts u.
       let trades = [r \<leftarrow> db_tradelogs db. s \<le> tl_timestamp r \<and> tl_timestamp r < s + u \<and> tl_user r = user]
       in m (TimeToTimestampMs s) =
         (if fromTime < s + u \<and> s \<le> toTime \<and> trades \<noteq> [] then
            Some \<lparr> uv_ETHAmount = re_sum E (map tl_eth_amount trades),
                   uv_USDAmount = re_sum E (map (\<lambda>r. float64 (tl_eth_amount r * tl_eth_usd_rate r)) trades) \<rparr>
          else None))"
proof -
  let ?key = "\<lambda>r. u * (tl_timestamp r div u)"
  let ?trades = "trades_between db (u * (fromTime div u)) (u * (toTime div u) + u)"
  let ?rows = "[r \<leftarrow> ?trades. tl_user r = user]"
  let ?m = "by_time (\<lambda>v. v) (group_by ?key (user_volume E) ?rows)"
  have own: "\<forall>r\<in>set ?rows. r \<in> set (db_tradelogs db)" by (auto simp: trades_between_def)
  note m = slot_map [OF assms(1,3) own, where agg = "user_volume E"]
  have run: "GetUserVolume E db user fromTime toTime frequency = Inr ?m"
    unfolding GetUserVolume_def report_unit_window(1) [OF assms(1)] using assms(2) by (simp add: select_rows_def)
  have entry: "?m (TimeToTimestampMs s) =
      (let xs = [r \<leftarrow> (if fromTime < s + u \<and> s \<le> toTime
                then [r \<leftarrow> db_tradelogs db. s \<le> tl_timestamp r \<and> tl_timestamp r < s + u] else []). tl_user r = user]
       in if xs = [] then None else Some (user_volume E xs))" if "s \<in> slot_starts u" for s
    unfolding m(2) [OF that] window_slot_filter [OF assms(1) that, symmetric] by (simp add: conj_commute conj_left_commute)
  have swap: "(tl_user r = user \<and> s \<le> tl_timestamp r \<and> tl_timestamp r < s + u) =
      (s \<le> tl_timestamp r \<and> tl_timestamp r < s + u \<and> tl_user r = user)" for r s by blast
  obtain m where "GetUserVolume E db user fromTime toTime frequency = Inr m" "dom m \<subseteq> TimeToTimestampMs ` slot_starts u"
    "\<And>s. s \<in> slot_starts u \<Longrightarrow> m (TimeToTimestampMs s) =
      (let xs = [r \<leftarrow> (if fromTime < s + u \<and> s \<le> toTime
                then [r \<leftarrow> db_tradelogs db. s \<le> tl_timestamp r \<and> tl_timestamp r < s + u] else []). tl_user r = user]
       in if xs = [] then None else Some (user_volume E xs))"
    using run m(1) entry by blast
  then show ?thesis
    by (intro exI [of _ m] conjI ballI) (simp_all add: Let_def swap user_volume_def usd_amount_def [abs_def])
qed

text \<open>
  When no trade is stored between the two queries, the summary has an entry for each day of the zone with trades, with the
  counts and the volumes of all trades of this day.
\<close>

theorem GetTradeSummary_days:
  assumes "re_err E 0 = None" "re_err E 1 = None" "report_times_ok db"
    and "day_window tz fromTime toTime = (field, f, t)" "rows = trades_between db f t" "rows \<noteq> []"
  shows "\<exists>m. GetTradeSummary E db db fromTime toTime tz = Inr (Some m) \<and>
    dom m = (\<lambda>r. TimeToTimestampMs (field (tl_timestamp r))) ` set rows \<and>
    (\<forall>r\<in>set rows. let day = [x \<leftarrow> rows. field (tl_timestamp x) = field (tl_timestamp r)] in
       m (TimeToTimestampMs (field (tl_timestamp r))) = Some \<lparr> ds_ETHVolume = re_sum E (map tl_eth_amount day),
         ds_USDVolume = re_sum E (map usd_amount day), ds_TotalTrade = length day, ds_UniqueAddresses = card (tl_user ` set day),
         ds_KYCEDAddresses = length (filter tl_kyced day), ds_NewUniqueAddresses = length (filter tl_is_first_trade day),
         ds_USDPerTrade = re_avg E (map usd_amount day), ds_ETHPerTrade = re_avg E (map tl_eth_amount day) \<rparr>)"
proof -
  have field: "field = slot Day (tz * Hour)" using assms(4) by (simp add: day_window_slot)
  have "inj_on TimeToTimestampMs ((\<lambda>r. field (tl_timestamp r)) ` set rows)"
    unfolding field using assms(3,5) by (intro slot_keys_inj [where g = "\<lambda>r. r"]) (auto simp: trades_between_def go_defs)
  note report = day_report_same [OF assms(1,2,6) this refl]
  have "GetTradeSummary E db db fromTime toTime tz = day_report E field rows rows"
    using assms(4,5) by (simp add: GetTradeSummary_def)
  with report show ?thesis by (simp add: Let_def add_volumes_def count_stats_def)
qed

text \<open>
  In the statistics of a country a first trade is counted once for each fee of the trade, while the volumes count each
  trade once: the number of new users is right only when no trade has more than one fee.
\<close>

theorem GetCountryStats_counts_fees:
  assumes "re_err E 0 = None" "re_err E 1 = None" "report_times_ok db"
    and "day_window tz fromTime toTime = (field, f, t)"
    and "rows = [r \<leftarrow> trades_between db f t. tl_country r = Some country]" "rows \<noteq> []"
  shows "\<exists>m. GetCountryStats E db db country fromTime toTime tz = Inr (Some m) \<and>
    (\<forall>r\<in>set rows. let day = [x \<leftarrow> rows. field (tl_timestamp x) = field (tl_timestamp r)] in
       \<exists>s. m (TimeToTimestampMs (field (tl_timestamp r))) = Some s \<and> ds_TotalTrade s = length day \<and>
         ds_UniqueAddresses s = card (tl_user ` set day) \<and>
         ds_NewUniqueAddresses s =
           (\<Sum>x\<leftarrow>day. if tl_is_first_trade x then partners (\<lambda>r f. fe_trade f = tl_id r) x (db_fees db) else 0))"
proof -
  let ?J = "\<lambda>xs. map fst (fees_joined db xs)" and ?P = "\<lambda>r f. fe_trade f = tl_id r" and ?key = "\<lambda>r. field (tl_timestamp r)"
  have field: "field = slot Day (tz * Hour)" using assms(4) by (simp add: day_window_slot)
  have J: "set (?J xs) = set xs" for xs using set_left_join unfolding fees_joined_def by force
  have "inj_on TimeToTimestampMs (?key ` set (?J rows))"
    unfolding field J using assms(3,5) by (intro slot_keys_inj [where g = "\<lambda>r. r"]) (auto simp: trades_between_def go_defs)
  moreover have "?J rows \<noteq> []" using J [of rows] assms(6) by (metis set_empty)
  moreover have "set (map ?key rows) = set (map ?key (?J rows))" using J [of rows] by (simp only: set_map)
  ultimately obtain m where m: "day_report E field (?J rows) rows = Inr (Some m)"
    "\<forall>r\<in>set rows. m (TimeToTimestampMs (?key r)) = Some (add_volumes E [x \<leftarrow> rows. ?key x = ?key r]
       (count_stats [x \<leftarrow> ?J rows. ?key x = ?key r]))"
    using day_report_same [OF assms(1,2), of "?J rows" field rows] unfolding J by blast
  have filter_J: "[x \<leftarrow> ?J rows. ?key x = k] = ?J [x \<leftarrow> rows. ?key x = k]" for k
    unfolding fees_joined_def left_join_def by (induction rows) (auto simp: Let_def filter_map comp_def)
  have count: "length (filter tl_is_first_trade (?J xs)) = (\<Sum>x\<leftarrow>xs. if tl_is_first_trade x then partners ?P x (db_fees db) else 0)" for xs
  proof -
    have "length (filter tl_is_first_trade (?J xs)) = (\<Sum>p\<leftarrow>fees_joined db xs. if tl_is_first_trade (fst p) then 1 else 0)"
      unfolding length_filter_sum by (simp add: comp_def)
    also have "\<dots> = (\<Sum>x\<leftarrow>xs. of_nat (partners ?P x (db_fees db)) * (if tl_is_first_trade x then 1 else 0))"
      unfolding fees_joined_def by (rule sum_list_left_join_fst)
    also have "\<dots> = (\<Sum>x\<leftarrow>xs. if tl_is_first_trade x then partners ?P x (db_fees db) else 0)"
      by (intro arg_cong [where f = sum_list] map_cong) auto
    finally show ?thesis .
  qed
  have "GetCountryStats E db db country fromTime toTime tz = day_report E field (?J rows) rows"
    using assms(4,5) by (simp add: GetCountryStats_def)
  with m(1) have "GetCountryStats E db db country fromTime toTime tz = Inr (Some m)" by simp
  moreover have fields: "ds_TotalTrade (add_volumes E a (count_stats b)) = length a"
    "ds_UniqueAddresses (add_volumes E a (count_stats b)) = card (tl_user ` set b)"
    "ds_NewUniqueAddresses (add_volumes E a (count_stats b)) = length (filter tl_is_first_trade b)" for a b
    by (simp_all add: add_volumes_def count_stats_def)
  have "\<exists>s. m (TimeToTimestampMs (?key r)) = Some s \<and> ds_TotalTrade s = length [x \<leftarrow> rows. ?key x = ?key r] \<and>
      ds_UniqueAddresses s = card (tl_user ` set [x \<leftarrow> rows. ?key x = ?key r]) \<and>
      ds_NewUniqueAddresses s = (\<Sum>x\<leftarrow>[x \<leftarrow> rows. ?key x = ?key r]. if tl_is_first_trade x then partners ?P x (db_fees db) else 0)"
    if "r \<in> set rows" for r
    using m(2) that by (intro exI conjI) (rule bspec, assumption, assumption, simp_all only: fields filter_J J count)
  ultimately show ?thesis unfolding Let_def by blast
qed

text \<open>
  C21: The statistics of a range join the trades with their fees and with their splits. The volumes are the sums over the
  splits of every trade, where the amounts of a trade appear once for each of its fees; the fees are the sum over the fees
  of every trade, where a fee appears once for each of the splits of its trade; and a new user is counted once for each
  pair of both. Only the number of trades and that of the users count each trade once. A trade without fees or without splits
  counts as with one. \<open>SUM\<close> and \<open>AVG\<close> are the aggregates of the database, of which nothing is assumed; of no value they are 0.
\<close>

theorem GetStats_multiplies:
  assumes "re_err E 0 = None"
    and "trades = [r \<leftarrow> db_tradelogs db. fromTime \<le> tl_timestamp r \<and> tl_timestamp r \<le> toTime]"
    and "F = (\<lambda>r. [f \<leftarrow> db_fees db. fe_trade f = tl_id r])" "S = (\<lambda>r. [s \<leftarrow> db_splits db. sr_trade s = tl_id r])"
    and "tot = (\<lambda>agg vs. if vs = [] then 0 else agg vs)"
    and "usd = concat (map (\<lambda>r. concat (replicate (max 1 (length (F r)))
          (map (\<lambda>x. float64 (x * tl_eth_usd_rate r)) (List.map_filter sr_eth_amount (S r))))) trades)"
    and "eth = concat (map (\<lambda>r. concat (replicate (max 1 (length (F r)))
          (List.map_filter sr_eth_amount [s \<leftarrow> S r. sr_src s \<noteq> WETHAddr \<and> sr_dst s \<noteq> WETHAddr]))) trades)"
    and "fees = concat (map (\<lambda>r. concat (map (\<lambda>f. replicate (max 1 (length (S r)))
          (let d = fe_data f in float64 (float64 (float64 (fr_platform_fee d + fr_burn d) + fr_rebate d) + fr_reward d))) (F r))) trades)"
  shows "GetStats E db fromTime toTime = Inr
    \<lparr> rp_ETHVolume = tot (re_sum E) eth, rp_USDVolume = tot (re_sum E) usd,
      rp_UniqueAddresses = card (tl_user ` set trades),
      rp_NewAdresses = (\<Sum>r\<leftarrow>trades. if tl_is_first_trade r then max 1 (length (F r)) * max 1 (length (S r)) else 0),
      rp_TotalTrades = card (tl_id ` set trades),
      rp_FeeCollected = tot (re_sum E) fees, rp_AverageTradeSize = tot (re_avg E) usd \<rparr>"
proof -
  let ?P = "\<lambda>r f. fe_trade f = tl_id r" and ?Q = "\<lambda>(r, f :: fee_row option) s. sr_trade s = tl_id r"
  let ?fees = "fees_joined db trades" and ?rows = "stats_rows db trades"
  have F: "partners ?P r (db_fees db) = max 1 (length (F r))" for r by (simp add: partners_def assms(3))
  have S: "partners ?Q p (db_splits db) = max 1 (length (S (fst p)))" "filter (?Q p) (db_splits db) = S (fst p)" for p
    by (simp_all add: partners_def assms(4) case_prod_beta)
  have rows: "fst ` set ?rows = set ?fees" "fst ` set ?fees = set trades"
    unfolding stats_rows_def fees_joined_def by (rule set_left_join)+
  have split_side: "concat (map (\<lambda>p. non_null (w (fst (fst p)) (snd p))) ?rows) =
      concat (map (\<lambda>r. concat (replicate (max 1 (length (F r))) (concat (map (\<lambda>s. non_null (w r (Some s))) (S r))))) trades)"
    if "\<And>r. w r None = None" for w :: "tradelog_row \<Rightarrow> split_row option \<Rightarrow> f64 option"
  proof -
    have "concat (map (\<lambda>p. non_null (w (fst (fst p)) (snd p))) ?rows) =
        concat (map (\<lambda>p. concat (map (\<lambda>s. non_null (w (fst p) (Some s))) (S (fst p)))) ?fees)"
      unfolding stats_rows_def by (subst concat_left_join_snd) (simp_all add: that non_null_def S(2))
    also have "\<dots> = concat (map (\<lambda>r. concat (replicate (max 1 (length (F r))) (concat (map (\<lambda>s. non_null (w r (Some s))) (S r))))) trades)"
      unfolding fees_joined_def by (subst concat_left_join_fst) (simp only: F)
    finally show ?thesis .
  qed
  have "concat (map (\<lambda>s. non_null (split_usd r (Some s))) xs) =
      map (\<lambda>x. float64 (x * tl_eth_usd_rate r)) (List.map_filter sr_eth_amount xs)" for r xs
    by (induction xs) (auto simp: split_usd_def non_null_def List.map_filter_simps split: option.splits)
  then have usd: "concat (map (\<lambda>p. non_null (split_usd (fst (fst p)) (snd p))) ?rows) = usd"
    unfolding assms(6) by (subst split_side) (simp_all add: split_usd_def)
  have "concat (map (\<lambda>s. non_null (split_eth (Some s))) xs) =
      List.map_filter sr_eth_amount [s \<leftarrow> xs. sr_src s \<noteq> WETHAddr \<and> sr_dst s \<noteq> WETHAddr]" for xs
    by (induction xs) (auto simp: split_eth_def non_null_def List.map_filter_simps split: option.splits)
  then have eth: "concat (map (\<lambda>p. non_null (split_eth (snd p))) ?rows) = eth"
    using split_side [of "\<lambda>r. split_eth"] unfolding assms(7) by (simp add: split_eth_def)
  have fee: "concat (map (\<lambda>p. non_null (fee_sum (snd (fst p)))) ?rows) = fees"
  proof -
    have "concat (map (\<lambda>p. non_null (fee_sum (snd (fst p)))) ?rows) =
        concat (map (\<lambda>p. concat (replicate (max 1 (length (S (fst p)))) (non_null (fee_sum (snd p))))) ?fees)"
      unfolding stats_rows_def by (subst concat_left_join_fst [where g = "\<lambda>p. non_null (fee_sum (snd p))"]) (simp only: S(1))
    also have "\<dots> = concat (map (\<lambda>r. concat (map (\<lambda>f. concat (replicate (max 1 (length (S r))) (non_null (fee_sum (Some f))))) (F r))) trades)"
      unfolding fees_joined_def
      by (subst concat_left_join_snd) (simp_all add: fee_sum_def non_null_def assms(3))
    also have "\<dots> = fees" unfolding assms(8) by (simp add: fee_sum_def non_null_def Let_def concat_replicate_single)
    finally show ?thesis .
  qed
  have new: "length [p \<leftarrow> ?rows. tl_is_first_trade (fst (fst p))] =
      (\<Sum>r\<leftarrow>trades. if tl_is_first_trade r then max 1 (length (F r)) * max 1 (length (S r)) else 0)"
  proof -
    let ?one = "\<lambda>r. if tl_is_first_trade r then 1 else 0 :: nat"
    have "length [p \<leftarrow> ?rows. tl_is_first_trade (fst (fst p))] = (\<Sum>p\<leftarrow>?rows. ?one (fst (fst p)))"
      by (rule length_filter_sum)
    also have "\<dots> = (\<Sum>p\<leftarrow>?fees. max 1 (length (S (fst p))) * ?one (fst p))"
      unfolding stats_rows_def by (subst sum_list_left_join_fst) (simp only: S of_nat_id)
    also have "\<dots> = (\<Sum>r\<leftarrow>trades. max 1 (length (F r)) * (max 1 (length (S r)) * ?one r))"
      unfolding fees_joined_def by (subst sum_list_left_join_fst [where w = "\<lambda>r. max 1 (length (S r)) * ?one r"]) (simp only: F of_nat_id)
    also have "\<dots> = (\<Sum>r\<leftarrow>trades. if tl_is_first_trade r then max 1 (length (F r)) * max 1 (length (S r)) else 0)"
      by (intro arg_cong [where f = sum_list] map_cong) auto
    finally show ?thesis .
  qed
  have ids: "(\<lambda>((r, f), s). tl_id r) ` set ?rows = tl_id ` set trades" "(\<lambda>((r, f), s). tl_user r) ` set ?rows = tl_user ` set trades"
    unfolding rows(2) [symmetric] rows(1) [symmetric] by (simp_all add: image_image split_beta')
  have within: "trades_within db fromTime toTime = trades" by (simp add: trades_within_def assms(2))
  show ?thesis
    unfolding GetStats_def within assms(1) option.case Let_def coalesce_list split_beta' new
    using ids by (simp add: split_beta' usd eth fee assms(5))
qed


section \<open>Witnesses\<close>

text \<open>Two trades of two users on two days; the first one has two fees and one split.\<close>

definition report_trade :: "hash \<Rightarrow> gotime \<Rightarrow> addr \<Rightarrow> tradelog_row" where
  "report_trade h ts user = \<lparr> tl_id = (h, 0), tl_timestamp = ts, tl_block_number = 1, tl_eth_amount = 2, tl_original_eth_amount = 2,
     tl_user = user, tl_src = 10, tl_dst = 20, tl_wallet = 30, tl_src_amount = 2, tl_dst_amount = 500, tl_integration_app = '''',
     tl_ip = None, tl_country = Some ''VN'', tl_eth_usd_rate = 0, tl_eth_usd_provider = '''', tl_kyced = False, tl_is_first_trade = True,
     tl_tx_sender = user, tl_receiver = user, tl_gas_used = 0, tl_gas_price = 0, tl_transaction_fee = 0, tl_version = 4 \<rparr>"

definition report_fee :: "hash \<Rightarrow> nat \<Rightarrow> fee_row" where
  "report_fee h i = \<lparr> fe_trade = (h, 0), fe_data = \<lparr> fr_reserve = 1, fr_wallet = 2, fr_wallet_fee = 0, fr_platform_fee = 1, fr_burn = 0,
     fr_rebate = 0, fr_reward = 0, fr_index = i, fr_rebate_wallets = [], fr_rebate_percents = [] \<rparr> \<rparr>"

definition report_split :: "hash \<Rightarrow> split_row" where
  "report_split h = \<lparr> sr_trade = (h, 0), sr_reserve = 0, sr_src = 10, sr_dst = 20, sr_src_amount = 2, sr_rate = 1, sr_dst_amount = None,
     sr_index = 0, sr_eth_amount = Some 2 \<rparr>"

definition report_db :: trade_db where
  "report_db = \<lparr> db_users = [], db_wallets = [], db_tokens = [10, 20], db_reserves = [],
     db_tradelogs = [report_trade 1 (10 * Day + 1) 5, report_trade 2 (11 * Day + 1) 6],
     db_fees = [report_fee 1 0, report_fee 1 1], db_splits = [report_split 1, report_split 2] \<rparr>"

definition exact_env :: report_env where
  "exact_env = \<lparr> re_sum = sum_list, re_avg = (\<lambda>xs. sum_list xs / of_nat (length xs)), re_err = (\<lambda>n. None), re_Hex = (\<lambda>a. ''0x'') \<rparr>"

lemma exact_env_simps: "\<forall>xs. re_sum exact_env xs = sum_list xs" "re_err exact_env n = None"
  by (simp_all add: exact_env_def)

lemma report_times: "report_times_ok report_db"
  by (simp add: report_times_ok_def report_db_def report_trade_def go_defs)

lemma report_window: "freq_window ''D'' 0 (10 * Day) (11 * Day) = Inr (slot Day 0, 10 * Day, 12 * Day)"
proof -
  have "lower ''D'' = ''d''" by code_simp
  then show ?thesis by (simp add: freq_window_def BuildDateTruncField_slot RoundTime_slot fun_eq_iff) (simp add: slot_def go_defs)
qed

lemma report_rows: "trades_between report_db (10 * Day) (12 * Day) = [report_trade 1 (10 * Day + 1) 5, report_trade 2 (11 * Day + 1) 6]"
  by (simp add: trades_between_def report_db_def report_trade_def go_defs)

theorem freq_window_whole_witness:
  "\<exists>field f t. freq_window ''d'' 7 (10 * Day) (10 * Day) = Inr (field, f, t) \<and> field (10 * Day) = 9 * Day + 17 * Hour \<and>
     f \<le> 10 * Day \<and> 10 * Day < t \<and> f \<le> field (10 * Day) \<and> field (10 * Day) < t"
proof -
  have "lower ''d'' = ''d''" by code_simp
  moreover have "BuildDateTruncField ''day'' 7 = slot Day (7 * Hour)" by (simp add: fun_eq_iff BuildDateTruncField_slot)
  ultimately obtain field f t where w: "freq_window ''d'' 7 (10 * Day) (10 * Day) = Inr (field, f, t)" and "field = slot Day (7 * Hour)"
    by (simp add: freq_window_def)
  moreover have "slot Day (7 * Hour) (10 * Day) = 9 * Day + 17 * Hour" by (simp add: slot_def go_defs)
  moreover from freq_window_whole [OF w] have "f \<le> 10 * Day" "10 * Day < t" "f \<le> field (10 * Day)" "field (10 * Day) < t" by auto
  ultimately show ?thesis by blast
qed

lemma report_units: "report_unit ''D'' Day"
proof -
  have "lower ''D'' = ''d''" by code_simp
  then show ?thesis by (simp add: report_unit_def)
qed

lemma report_starts: "10 * Day \<in> slot_starts Day"
  by (simp add: slot_starts_def go_defs)

lemma report_slot: "[r \<leftarrow> db_tradelogs report_db. 10 * Day \<le> tl_timestamp r \<and> tl_timestamp r < 10 * Day + Day] =
    [report_trade 1 (10 * Day + 1) 5]"
  by (simp add: report_db_def report_trade_def go_defs)

theorem GetAssetVolume_slots_witness:
  "\<exists>m v. GetAssetVolume exact_env report_db 20 (10 * Day) (11 * Day) ''D'' = Inr (Some m) \<and>
     m (TimeToTimestampMs (10 * Day)) = Some v \<and> vs_Volume v = 500 \<and> vs_ETHAmount v = 2"
proof -
  from GetAssetVolume_slots [OF report_units exact_env_simps(2) report_times, of 20 "10 * Day" "11 * Day"] obtain m where
    m: "GetAssetVolume exact_env report_db 20 (10 * Day) (11 * Day) ''D'' = Inr (if m = Map.empty then None else Some m)" and
    each: "\<forall>s\<in>slot_starts Day.
       let slot = [r \<leftarrow> db_tradelogs report_db. s \<le> tl_timestamp r \<and> tl_timestamp r < s + Day];
           sold = [r \<leftarrow> slot. tl_src r = 20]; bought = [r \<leftarrow> slot. tl_dst r = 20]
       in m (TimeToTimestampMs s) =
         (if 10 * Day < s + Day \<and> s \<le> 11 * Day \<and> sold @ bought \<noteq> [] then
            Some \<lparr> vs_ETHAmount = re_sum exact_env (map tl_eth_amount (sold @ bought)),
                   vs_USDAmount = re_sum exact_env (map (\<lambda>r. float64 (tl_eth_amount r * tl_eth_usd_rate r)) (sold @ bought)),
                   vs_Volume = re_sum exact_env (map tl_src_amount sold @ map tl_dst_amount bought) \<rparr>
          else None)" by blast
  have "10 * Day < 10 * Day + Day" "10 * Day \<le> 11 * Day" by (simp_all add: go_defs)
  with bspec [OF each report_starts] have "\<exists>v. m (TimeToTimestampMs (10 * Day)) = Some v \<and> vs_Volume v = 500 \<and> vs_ETHAmount v = 2"
    unfolding report_slot Let_def by (simp add: report_trade_def exact_env_def)
  then show ?thesis using m by auto
qed

theorem GetUserVolume_slots_witness:
  "\<exists>m v. GetUserVolume exact_env report_db 5 (10 * Day) (11 * Day) ''D'' = Inr m \<and>
     m (TimeToTimestampMs (10 * Day)) = Some v \<and> uv_ETHAmount v = 2"
proof -
  from GetUserVolume_slots [OF report_units exact_env_simps(2) report_times, of 5 "10 * Day" "11 * Day"] obtain m where
    m: "GetUserVolume exact_env report_db 5 (10 * Day) (11 * Day) ''D'' = Inr m" and
    each: "\<forall>s\<in>slot_starts Day.
       let trades = [r \<leftarrow> db_tradelogs report_db. s \<le> tl_timestamp r \<and> tl_timestamp r < s + Day \<and> tl_user r = 5]
       in m (TimeToTimestampMs s) =
         (if 10 * Day < s + Day \<and> s \<le> 11 * Day \<and> trades \<noteq> [] then
            Some \<lparr> uv_ETHAmount = re_sum exact_env (map tl_eth_amount trades),
                   uv_USDAmount = re_sum exact_env (map (\<lambda>r. float64 (tl_eth_amount r * tl_eth_usd_rate r)) trades) \<rparr>
          else None)" by blast
  have day: "[r \<leftarrow> db_tradelogs report_db. 10 * Day \<le> tl_timestamp r \<and> tl_timestamp r < 10 * Day + Day \<and> tl_user r = 5] =
      [report_trade 1 (10 * Day + 1) 5]" by (simp add: report_db_def report_trade_def go_defs)
  have "10 * Day < 10 * Day + Day" "10 * Day \<le> 11 * Day" by (simp_all add: go_defs)
  with bspec [OF each report_starts] have "\<exists>v. m (TimeToTimestampMs (10 * Day)) = Some v \<and> uv_ETHAmount v = 2"
    unfolding day Let_def by (simp add: report_trade_def exact_env_def)
  then show ?thesis using m by auto
qed

lemma report_day_window: "day_window 0 (10 * Day) (11 * Day) = (slot Day 0, 10 * Day, 12 * Day)"
  unfolding day_window_slot by (simp add: fun_eq_iff) (simp add: slot_def go_defs)

lemma report_day: "[x \<leftarrow> trades_between report_db (10 * Day) (12 * Day). slot Day 0 (tl_timestamp x) = slot Day 0 (10 * Day + 1)] =
    [report_trade 1 (10 * Day + 1) 5]"
  unfolding report_rows by (simp add: report_trade_def slot_def go_defs)

theorem GetTradeSummary_days_witness:
  "\<exists>m s. GetTradeSummary exact_env report_db report_db (10 * Day) (11 * Day) 0 = Inr (Some m) \<and>
     m (TimeToTimestampMs (slot Day 0 (10 * Day + 1))) = Some s \<and> ds_TotalTrade s = 1 \<and> ds_NewUniqueAddresses s = 1 \<and> ds_ETHVolume s = 2"
proof -
  have "trades_between report_db (10 * Day) (12 * Day) \<noteq> []" unfolding report_rows by simp
  from GetTradeSummary_days [OF exact_env_simps(2,2) report_times report_day_window refl this] obtain m where
    m: "GetTradeSummary exact_env report_db report_db (10 * Day) (11 * Day) 0 = Inr (Some m)" and
    each: "\<forall>r\<in>set (trades_between report_db (10 * Day) (12 * Day)).
      let day = [x \<leftarrow> trades_between report_db (10 * Day) (12 * Day). slot Day 0 (tl_timestamp x) = slot Day 0 (tl_timestamp r)] in
       m (TimeToTimestampMs (slot Day 0 (tl_timestamp r))) = Some \<lparr> ds_ETHVolume = re_sum exact_env (map tl_eth_amount day),
         ds_USDVolume = re_sum exact_env (map usd_amount day), ds_TotalTrade = length day, ds_UniqueAddresses = card (tl_user ` set day),
         ds_KYCEDAddresses = length (filter tl_kyced day), ds_NewUniqueAddresses = length (filter tl_is_first_trade day),
         ds_USDPerTrade = re_avg exact_env (map usd_amount day), ds_ETHPerTrade = re_avg exact_env (map tl_eth_amount day) \<rparr>" by blast
  have mem: "report_trade 1 (10 * Day + 1) 5 \<in> set (trades_between report_db (10 * Day) (12 * Day))" unfolding report_rows by simp
  have ts: "tl_timestamp (report_trade 1 (10 * Day + 1) 5) = 10 * Day + 1" by (simp add: report_trade_def)
  from bspec [OF each mem] m show ?thesis
    unfolding ts report_day Let_def by (intro exI conjI) (assumption, assumption, simp_all add: report_trade_def exact_env_def)
qed

text \<open>One new user, who is counted twice since the trade has two fees.\<close>

theorem GetCountryStats_counts_fees_witness:
  "\<exists>m s. GetCountryStats exact_env report_db report_db ''VN'' (10 * Day) (11 * Day) 0 = Inr (Some m) \<and>
     m (TimeToTimestampMs (slot Day 0 (10 * Day + 1))) = Some s \<and> ds_TotalTrade s = 1 \<and> ds_NewUniqueAddresses s = 2"
proof -
  have rows: "[r \<leftarrow> trades_between report_db (10 * Day) (12 * Day). tl_country r = Some ''VN''] = trades_between report_db (10 * Day) (12 * Day)"
    unfolding report_rows by (simp add: report_trade_def)
  have "trades_between report_db (10 * Day) (12 * Day) \<noteq> []" unfolding report_rows by simp
  from GetCountryStats_counts_fees [OF exact_env_simps(2,2) report_times report_day_window rows [symmetric] this] obtain m where
    m: "GetCountryStats exact_env report_db report_db ''VN'' (10 * Day) (11 * Day) 0 = Inr (Some m)" and
    each: "\<forall>r\<in>set (trades_between report_db (10 * Day) (12 * Day)).
      let day = [x \<leftarrow> trades_between report_db (10 * Day) (12 * Day). slot Day 0 (tl_timestamp x) = slot Day 0 (tl_timestamp r)] in
       \<exists>s. m (TimeToTimestampMs (slot Day 0 (tl_timestamp r))) = Some s \<and> ds_TotalTrade s = length day \<and>
         ds_UniqueAddresses s = card (tl_user ` set day) \<and>
         ds_NewUniqueAddresses s =
           (\<Sum>x\<leftarrow>day. if tl_is_first_trade x then partners (\<lambda>r f. fe_trade f = tl_id r) x (db_fees report_db) else 0)" by blast
  have mem: "report_trade 1 (10 * Day + 1) 5 \<in> set (trades_between report_db (10 * Day) (12 * Day))" unfolding report_rows by simp
  have ts: "tl_timestamp (report_trade 1 (10 * Day + 1) 5) = 10 * Day + 1" by (simp add: report_trade_def)
  have two: "partners (\<lambda>r f. fe_trade f = tl_id r) (report_trade 1 (10 * Day + 1) 5) (db_fees report_db) = 2"
    by (simp add: partners_def report_db_def report_trade_def report_fee_def)
  have "tl_is_first_trade (report_trade 1 (10 * Day + 1) 5)" by (simp add: report_trade_def)
  with bspec [OF each mem] m two show ?thesis unfolding ts report_day Let_def by (auto simp del: One_nat_def)
qed

text \<open>Two trades and two users, of whom three are new.\<close>

theorem GetStats_multiplies_witness:
  "\<exists>st. GetStats exact_env report_db (10 * Day) (12 * Day) = Inr st \<and> rp_TotalTrades st = 2 \<and> rp_UniqueAddresses st = 2 \<and>
     rp_NewAdresses st = 3"
proof -
  have t: "[r \<leftarrow> db_tradelogs report_db. 10 * Day \<le> tl_timestamp r \<and> tl_timestamp r \<le> 12 * Day] =
      [report_trade 1 (10 * Day + 1) 5, report_trade 2 (11 * Day + 1) 6]"
    by (simp add: report_db_def report_trade_def go_defs)
  from GetStats_multiplies [OF exact_env_simps(2) t [symmetric] refl refl refl refl refl refl] show ?thesis
    by (intro exI conjI) (assumption, simp_all add: report_db_def report_trade_def report_fee_def report_split_def)
qed

end
