(* ===== verification/QueryRange.thy ===== *)
theory QueryRange
  imports Tables
begin

text \<open>
  The parameters of the queries: \<open>lib/httputil/time_range_query.go\<close>, the validators of
  \<open>lib/httputil/validators/validators.go\<close> and the flags of \<open>lib/timeutil/flags.go\<close>. The clock, \<open>IsHexAddress\<close> of go-ethereum,
  the list of the codes of the countries and the parsing of a date are parameters.
\<close>

section \<open>Ranges\<close>

record TimeRangeQuery =
  tq_From :: nat
  tq_To :: nat
  tq_maxTimeFrame :: duration
  tq_defaultTimeFrame :: duration

definition defaultMaxTimeFrame :: duration where "defaultMaxTimeFrame = 24 * Hour"
definition query_defaultTimeFrame :: duration where "query_defaultTimeFrame = Hour"

text \<open>A query that was bound has the parameters \<open>from\<close> and \<open>to\<close> only.\<close>

definition bound_range :: "nat \<Rightarrow> nat \<Rightarrow> TimeRangeQuery" where
  "bound_range f t = \<lparr> tq_From = f, tq_To = t, tq_maxTimeFrame = 0, tq_defaultTimeFrame = 0 \<rparr>"

definition TimeRangeQueryWithMaxTimeFrame :: "duration \<Rightarrow> 'a TimeRangeQuery_scheme \<Rightarrow> 'a TimeRangeQuery_scheme" where
  "TimeRangeQueryWithMaxTimeFrame d q = q\<lparr> tq_maxTimeFrame := d \<rparr>"

definition TimeRangeQueryWithDefaultTimeFrame :: "duration \<Rightarrow> 'a TimeRangeQuery_scheme \<Rightarrow> 'a TimeRangeQuery_scheme" where
  "TimeRangeQueryWithDefaultTimeFrame d q = q\<lparr> tq_defaultTimeFrame := d \<rparr>"

definition range_defaults :: "gotime \<Rightarrow> TimeRangeQuery \<Rightarrow> TimeRangeQuery" where
  "range_defaults now q =
     (let q = (if tq_maxTimeFrame q = 0 then q\<lparr> tq_maxTimeFrame := defaultMaxTimeFrame \<rparr> else q);
          q = (if tq_defaultTimeFrame q = 0 then q\<lparr> tq_defaultTimeFrame := query_defaultTimeFrame \<rparr> else q)
      in if tq_To q = 0
         then (let q = q\<lparr> tq_To := TimeToTimestampMs now \<rparr>
               in if tq_From q = 0 then q\<lparr> tq_From := TimeToTimestampMs (now - tq_defaultTimeFrame q) \<rparr> else q)
         else q)"

definition check_range :: "TimeRangeQuery \<Rightarrow> (gotime \<times> gotime) go" where
  "check_range q =
     (if tq_To q < tq_From q then Inl (Err ''to parameter must bigger than from parameter'')
      else
        let f = TimestampMsToTime (tq_From q); t = TimestampMsToTime (tq_To q)
        in if tq_maxTimeFrame q < time_Sub t f then Inl (Err ''max time frame exceed'') else Inr (f, t))"

definition range_Validate :: "gotime \<Rightarrow> (TimeRangeQuery \<Rightarrow> TimeRangeQuery) list \<Rightarrow> TimeRangeQuery \<Rightarrow> (gotime \<times> gotime) go" where
  "range_Validate now options q = check_range (range_defaults now (fold (\<lambda>option. option) options q))"

text \<open>The query with a frequency: the result of \<open>Validate\<close> and the frequency that it leaves in the query.\<close>

record TimeRangeQueryFreq =
  qf_range :: TimeRangeQuery
  qf_Freq :: string
  qf_freqs :: "(string \<Rightarrow> duration option) option"

definition defaultFreq :: string where "defaultFreq = ''h''"

definition defaultFreqs :: "string \<Rightarrow> duration option" where
  "defaultFreqs = [''h'' \<mapsto> 24 * Hour * 180, ''d'' \<mapsto> 24 * Hour * 365 * 3]"

definition TimeRangeQueryFreqWithValidFreqs :: "(string \<Rightarrow> duration option) \<Rightarrow> TimeRangeQueryFreq \<Rightarrow> TimeRangeQueryFreq" where
  "TimeRangeQueryFreqWithValidFreqs freqs q = q\<lparr> qf_freqs := Some freqs \<rparr>"

definition freq_Validate :: "gotime \<Rightarrow> (TimeRangeQueryFreq \<Rightarrow> TimeRangeQueryFreq) list \<Rightarrow> TimeRangeQueryFreq \<Rightarrow> (gotime \<times> gotime \<times> string) go" where
  "freq_Validate now options q0 =
     (let q = fold (\<lambda>option. option) options q0;
          freqs = (case qf_freqs q of None \<Rightarrow> defaultFreqs | Some fs \<Rightarrow> fs);
          freq = (if qf_Freq q = '''' then defaultFreq else qf_Freq q)
      in (case freqs freq of
            None \<Rightarrow> Inl (Err (''invalid frequency: '' @ freq))
          | Some maxTimeFrame \<Rightarrow>
              go_bind (range_Validate now [TimeRangeQueryWithMaxTimeFrame maxTimeFrame] (qf_range q)) (\<lambda>(f, t). Inr (f, t, freq))))"

section \<open>Validators\<close>

definition isEthereumAddress :: "(string \<Rightarrow> bool) \<Rightarrow> string \<Rightarrow> bool" where
  "isEthereumAddress IsHexAddress address = (if length address \<noteq> 0 \<and> \<not> IsHexAddress address then False else True)"

definition isFreq :: "string \<Rightarrow> bool" where
  "isFreq s = (let freq = lower s in if freq = ''h'' \<or> freq = ''d'' then True else False)"

definition isSupportedTimezone :: "int \<Rightarrow> bool" where
  "isSupportedTimezone timezone = (if timezone < -11 \<or> timezone > 14 then False else True)"

definition UnknownCountry :: string where "UnknownCountry = ''UNKNOWN''"

definition isValidCountryCode :: "(string \<Rightarrow> bool) \<Rightarrow> string \<Rightarrow> bool" where
  "isValidCountryCode CountryCode2 country = (if country = UnknownCountry then True else if \<not> CountryCode2 country then False else True)"

section \<open>Flags\<close>

definition ErrEmptyFlag :: go_err where "ErrEmptyFlag = Err ''empty flag''"

definition timeFlagFromContext :: "(string \<Rightarrow> gotime go) \<Rightarrow> string \<Rightarrow> gotime go" where
  "timeFlagFromContext parse timeString = (if timeString = '''' then Inl ErrEmptyFlag else parse timeString)"

definition millisTimeFlagFromContext :: "nat \<Rightarrow> gotime go" where
  "millisTimeFlagFromContext timeUint = (if timeUint = 0 then Inr zero_time else Inr (TimestampMsToTime timeUint))"

definition millisTimestampFlagFromContext :: "nat \<Rightarrow> nat go" where
  "millisTimestampFlagFromContext timeUint = (if timeUint = 0 then Inl ErrEmptyFlag else Inr timeUint)"

section \<open>Lemmas\<close>

text \<open>The milliseconds whose nanoseconds fit into an \<open>int64\<close>.\<close>

definition ms_fits :: "nat \<Rightarrow> bool" where "ms_fits ms \<longleftrightarrow> ms \<le> 9223372036854"

lemma TimestampMsToTime_fits: "ms_fits ms \<Longrightarrow> TimestampMsToTime ms = int ms * 1000000"
proof -
  assume "ms_fits ms"
  then have "i64 (int ms) = int ms" "i64 (int ms * 1000000) = int ms * 1000000" by (auto simp: ms_fits_def intro!: i64_id)
  then show ?thesis by (simp add: TimestampMsToTime_def Nanosecond_per_ms_def)
qed

lemma range_defaults_max: "tq_maxTimeFrame (range_defaults now q) = (if tq_maxTimeFrame q = 0 then defaultMaxTimeFrame else tq_maxTimeFrame q)"
  by (simp add: range_defaults_def Let_def)

lemma range_defaults_To: "tq_To (range_defaults now q) = (if tq_To q = 0 then TimeToTimestampMs now else tq_To q)"
  by (simp add: range_defaults_def Let_def)

lemma range_defaults_From:
  "tq_From (range_defaults now q) = (if tq_To q = 0 \<and> tq_From q = 0
     then TimeToTimestampMs (now - (if tq_defaultTimeFrame q = 0 then query_defaultTimeFrame else tq_defaultTimeFrame q)) else tq_From q)"
  by (simp add: range_defaults_def Let_def)

lemma i64_mult: "i64 (i64 x * c) = i64 (x * c)"
proof -
  have wrap: "i64 (y + 2 ^ 64 * k) = i64 y" for y k
  proof -
    have "(y + 2 ^ 64 * k + 2 ^ 63) mod 2 ^ 64 = (y + 2 ^ 63 + 2 ^ 64 * k) mod 2 ^ 64" by (simp only: add_ac)
    then show ?thesis unfolding i64_def by (simp only: mod_mult_self2)
  qed
  obtain k where k: "i64 x = x + 2 ^ 64 * k"
  proof
    have "(x + 2 ^ 63) mod 2 ^ 64 = x + 2 ^ 63 - 2 ^ 64 * ((x + 2 ^ 63) div 2 ^ 64)" by (rule minus_mult_div_eq_mod [symmetric])
    then show "i64 x = x + 2 ^ 64 * (- ((x + 2 ^ 63) div 2 ^ 64))" unfolding i64_def by simp
  qed
  have "i64 x * c = x * c + 2 ^ 64 * (k * c)" unfolding k by (simp add: algebra_simps)
  then show ?thesis by (simp only: wrap)
qed

lemma TimestampMsToTime_i64: "TimestampMsToTime ms = i64 (int ms * 1000000)"
  unfolding TimestampMsToTime_def Nanosecond_per_ms_def by (rule i64_mult)

lemma check_range_iff:
  assumes "0 \<le> tq_maxTimeFrame q" "tq_maxTimeFrame q < 2 ^ 63 - 1"
  shows "check_range q = Inr (f, t) \<longleftrightarrow> tq_From q \<le> tq_To q \<and> f = i64 (int (tq_From q) * 1000000) \<and>
    t = i64 (int (tq_To q) * 1000000) \<and> t - f \<le> tq_maxTimeFrame q"
proof -
  have "tq_maxTimeFrame q < time_Sub b a \<longleftrightarrow> tq_maxTimeFrame q < b - a" for a b
    using assms unfolding time_Sub_def by linarith
  then show ?thesis unfolding check_range_def Let_def TimestampMsToTime_i64 by auto
qed

section \<open>Properties\<close>

text \<open>
  C39: Which ranges pass, exactly. Let \<open>q\<close> be the query after the options. Its end is the parameter, or the present if that is
  zero; its start is the parameter, or, if both are zero, the present less the default frame of the query, which is an hour if it
  is not set. A range passes when its start is not after its end in milliseconds, and the times of both, as an \<open>int64\<close> of
  nanoseconds, are at most the allowed frame apart, which is 24 hours if it is not set. With times that fit an \<open>int64\<close>, the
  range that passes is then what was asked for, in order; a later time wraps around, and only the difference of the wrapped
  times is checked. A query with a frequency passes when the frequency is h or d, h if it is not set, and the same holds with
  180 days or 3 years allowed.
\<close>

theorem range_Validate_bounds:
  assumes "q = fold (\<lambda>option. option) options q0" "0 \<le> tq_maxTimeFrame q" "tq_maxTimeFrame q < 2 ^ 63 - 1"
    and "frame = (if tq_defaultTimeFrame q = 0 then Hour else tq_defaultTimeFrame q)" "0 \<le> frame" "frame \<le> now" "now < 2 ^ 63"
    and "end_ms = (if tq_To q = 0 then nat (now div 1000000) else tq_To q)"
    and "start_ms = (if tq_To q = 0 \<and> tq_From q = 0 then nat ((now - frame) div 1000000) else tq_From q)"
  shows "(range_Validate now options q0 = Inr (f, t) \<longleftrightarrow>
      start_ms \<le> end_ms \<and> f = i64 (int start_ms * 1000000) \<and> t = i64 (int end_ms * 1000000) \<and>
      t - f \<le> (if tq_maxTimeFrame q = 0 then 24 * Hour else tq_maxTimeFrame q)) \<and>
    (start_ms \<le> end_ms \<and> end_ms \<le> 9223372036854 \<longrightarrow>
      i64 (int start_ms * 1000000) = int start_ms * 1000000 \<and> i64 (int end_ms * 1000000) = int end_ms * 1000000) \<and>
    (freq_Validate now [] \<lparr> qf_range = q, qf_Freq = freq, qf_freqs = None \<rparr> = Inr (f, t, freq') \<longleftrightarrow>
      freq' = (if freq = '''' then ''h'' else freq) \<and>
      start_ms \<le> end_ms \<and> f = i64 (int start_ms * 1000000) \<and> t = i64 (int end_ms * 1000000) \<and>
      (freq' = ''h'' \<and> t - f \<le> 180 * 24 * Hour \<or> freq' = ''d'' \<and> t - f \<le> 3 * 365 * 24 * Hour))"
proof -
  have hours: "0 < Hour" "Hour * 1000000 < 2 ^ 63" by (simp_all add: go_defs)
  have now: "TimeToTimestampMs now = nat (now div 1000000)" "TimeToTimestampMs (now - frame) = nat ((now - frame) div 1000000)"
    using assms(5-7) by (simp_all add: TimeToTimestampMs_nonneg)
  have frame: "(if tq_defaultTimeFrame q = 0 then query_defaultTimeFrame else tq_defaultTimeFrame q) = frame"
    by (simp add: assms(4) query_defaultTimeFrame_def)
  have ends: "tq_To (range_defaults now (q\<lparr> tq_maxTimeFrame := m \<rparr>)) = end_ms"
    "tq_From (range_defaults now (q\<lparr> tq_maxTimeFrame := m \<rparr>)) = start_ms" for m
    unfolding range_defaults_To range_defaults_From assms(8,9) by (simp_all add: frame now cong: if_cong)
  have check: "check_range (range_defaults now (q\<lparr> tq_maxTimeFrame := m \<rparr>)) = Inr (f, t) \<longleftrightarrow>
      start_ms \<le> end_ms \<and> f = i64 (int start_ms * 1000000) \<and> t = i64 (int end_ms * 1000000) \<and>
      t - f \<le> (if m = 0 then 24 * Hour else m)" if "0 \<le> m" "m < 2 ^ 63 - 1" for m
    using check_range_iff [of "range_defaults now (q\<lparr> tq_maxTimeFrame := m \<rparr>)" f t] that hours
    unfolding ends range_defaults_max by (simp add: defaultMaxTimeFrame_def)
  have range: "range_Validate now options q0 = Inr (f, t) \<longleftrightarrow>
      start_ms \<le> end_ms \<and> f = i64 (int start_ms * 1000000) \<and> t = i64 (int end_ms * 1000000) \<and>
      t - f \<le> (if tq_maxTimeFrame q = 0 then 24 * Hour else tq_maxTimeFrame q)"
    using check [OF assms(2,3)] unfolding range_Validate_def assms(1) [symmetric] by simp
  have fits: "i64 (int start_ms * 1000000) = int start_ms * 1000000 \<and> i64 (int end_ms * 1000000) = int end_ms * 1000000"
    if "start_ms \<le> end_ms \<and> end_ms \<le> 9223372036854"
    using that by (intro conjI i64_id) simp_all
  let ?freq = "if freq = '''' then ''h'' else freq" and ?m = "\<lambda>x :: string. if x = ''h'' then 24 * Hour * 180 else 24 * Hour * 365 * 3"
  have "freq_Validate now [] \<lparr> qf_range = q, qf_Freq = freq, qf_freqs = None \<rparr> = Inr (f, t, freq') \<longleftrightarrow>
      freq' = ?freq \<and> (?freq = ''h'' \<or> ?freq = ''d'') \<and> range_Validate now [TimeRangeQueryWithMaxTimeFrame (?m ?freq)] q = Inr (f, t)"
    by (auto simp: freq_Validate_def defaultFreqs_def defaultFreq_def go_bind_Inr_iff Let_def)
  also have "\<dots> \<longleftrightarrow> freq' = ?freq \<and> start_ms \<le> end_ms \<and> f = i64 (int start_ms * 1000000) \<and> t = i64 (int end_ms * 1000000) \<and>
      (freq' = ''h'' \<and> t - f \<le> 180 * 24 * Hour \<or> freq' = ''d'' \<and> t - f \<le> 3 * 365 * 24 * Hour)"
  proof -
    have m: "0 \<le> ?m x" "?m x < 2 ^ 63 - 1" "?m x \<noteq> 0" for x by (simp_all add: go_defs)
    have "range_Validate now [TimeRangeQueryWithMaxTimeFrame (?m x)] q = Inr (f, t) \<longleftrightarrow>
        start_ms \<le> end_ms \<and> f = i64 (int start_ms * 1000000) \<and> t = i64 (int end_ms * 1000000) \<and> t - f \<le> ?m x" for x
      using check [OF m(1,2), of x] m(3) [of x] by (simp add: range_Validate_def TimeRangeQueryWithMaxTimeFrame_def)
    then show ?thesis by (auto simp: mult.commute mult.assoc)
  qed
  finally show ?thesis using range fits by blast
qed

text \<open>
  A time beyond the nanoseconds of an \<open>int64\<close> wraps around to a negative one, and the check of the length passes: the end
  of the range that is accepted is before its start.
\<close>

theorem range_Validate_wraps:
  assumes "0 < m" "ms_fits from_ms" "9223372036855 \<le> to_ms" "to_ms \<le> 18446744073709"
  shows "\<exists>f t. range_Validate now [TimeRangeQueryWithMaxTimeFrame m] (bound_range from_ms to_ms) = Inr (f, t) \<and> t < 0 \<and> 0 \<le> f"
proof -
  have f: "TimestampMsToTime from_ms = int from_ms * 1000000" by (rule TimestampMsToTime_fits [OF assms(2)])
  have i: "i64 (int to_ms) = int to_ms" using assms(4) by (intro i64_id) auto
  have "i64 (int to_ms * 1000000) = int to_ms * 1000000 - 2 ^ 64"
  proof -
    have "(int to_ms * 1000000 + 2 ^ 63) mod 2 ^ 64 = (int to_ms * 1000000 + 2 ^ 63 - 2 ^ 64) mod 2 ^ 64"
      by (rule minus_mod_self2 [symmetric])
    also have "\<dots> = int to_ms * 1000000 + 2 ^ 63 - 2 ^ 64" using assms(3,4) by (intro mod_pos_pos_trivial) simp_all
    finally show ?thesis by (simp add: i64_def)
  qed
  then have t: "TimestampMsToTime to_ms = int to_ms * 1000000 - 2 ^ 64" using i by (simp add: TimestampMsToTime_def Nanosecond_per_ms_def)
  have neg: "int to_ms * 1000000 - 2 ^ 64 < 0" using assms(4) by simp
  have "time_Sub (int to_ms * 1000000 - 2 ^ 64) (int from_ms * 1000000) < 0" using neg unfolding time_Sub_def by simp
  then have "check_range (range_defaults now (TimeRangeQueryWithMaxTimeFrame m (bound_range from_ms to_ms))) =
      Inr (int from_ms * 1000000, int to_ms * 1000000 - 2 ^ 64)"
    using assms unfolding check_range_def range_defaults_max range_defaults_To range_defaults_From
    by (simp add: TimeRangeQueryWithMaxTimeFrame_def bound_range_def f t ms_fits_def)
  then show ?thesis using neg by (simp add: range_Validate_def)
qed

text \<open>The validator accepts a frequency in upper case, which \<open>Validate\<close> then refuses.\<close>

theorem freq_Validate_case:
  assumes "isFreq freq" "qf_freqs q = None" "qf_Freq q = freq" "lower freq \<noteq> freq"
  shows "freq_Validate now [] q = Inl (Err (''invalid frequency: '' @ freq))"
proof -
  have "lower ''h'' = ''h''" "lower ''d'' = ''d''" by code_simp+
  then have "freq \<noteq> ''h''" "freq \<noteq> ''d''" "freq \<noteq> ''''" using assms(1,4) by (auto simp: isFreq_def lower_def)
  then show ?thesis using assms(2,3) by (simp add: freq_Validate_def defaultFreqs_def)
qed

section \<open>Witnesses\<close>

theorem range_Validate_bounds_witness:
  "range_Validate (100 * Day) [] (bound_range 0 0) = Inr (100 * Day - Hour, 100 * Day) \<and>
   freq_Validate (100 * Day) [] \<lparr> qf_range = bound_range 0 0, qf_Freq = '''', qf_freqs = None \<rparr> = Inr (100 * Day - Hour, 100 * Day, ''h'')"
proof -
  let ?q = "bound_range 0 0" and ?T = "nat (100 * Day div 1000000)" and ?F = "nat ((100 * Day - Hour) div 1000000)"
  have q: "?q = fold (\<lambda>option. option) [] ?q" "0 \<le> tq_maxTimeFrame ?q" "tq_maxTimeFrame ?q < 2 ^ 63 - 1"
    "Hour = (if tq_defaultTimeFrame ?q = 0 then Hour else tq_defaultTimeFrame ?q)" "0 \<le> Hour" "Hour \<le> 100 * Day" "100 * Day < 2 ^ 63"
    "?T = (if tq_To ?q = 0 then ?T else tq_To ?q)" "?F = (if tq_To ?q = 0 \<and> tq_From ?q = 0 then ?F else tq_From ?q)"
    by (simp_all add: bound_range_def go_defs)
  have times: "?F \<le> ?T" "i64 (int ?F * 1000000) = 100 * Day - Hour" "i64 (int ?T * 1000000) = 100 * Day"
    "100 * Day - (100 * Day - Hour) \<le> 24 * Hour" "100 * Day - (100 * Day - Hour) \<le> 180 * 24 * Hour" "tq_maxTimeFrame ?q = 0"
    by (simp_all add: go_defs i64_def bound_range_def)
  from range_Validate_bounds [OF q, of "100 * Day - Hour" "100 * Day" "''''" "''h''"] times show ?thesis by simp
qed

theorem range_Validate_wraps_witness:
  "\<exists>f t. range_Validate 0 [TimeRangeQueryWithMaxTimeFrame Day] (bound_range 1 10000000000000) = Inr (f, t) \<and> t < 0 \<and> 0 \<le> f"
proof -
  have "0 < Day" "ms_fits 1" by (simp_all add: go_defs ms_fits_def)
  then show ?thesis using range_Validate_wraps [of Day 1 10000000000000 0] by simp
qed

theorem freq_Validate_case_witness:
  "isFreq ''D'' \<and> freq_Validate 0 [] \<lparr> qf_range = bound_range 1 2, qf_Freq = ''D'', qf_freqs = None \<rparr> =
     Inl (Err ''invalid frequency: D'')"
proof -
  have i: "isFreq ''D''" "lower ''D'' \<noteq> ''D''" by code_simp+
  from freq_Validate_case [OF i(1) _ _ i(2)] i(1) show ?thesis by simp
qed

end
