(* ===== verification/UserProfiles.thy ===== *)
theory UserProfiles
  imports Blockchain "HOL-Library.Multiset"
begin

text \<open>
  The client of the profiles of users with its cache, \<open>lib/userprofile\<close>: the heap of the addresses and
  \<open>CachedClient\<close>. \<open>heap_up\<close>, \<open>heap_down\<close>, \<open>heap_Push\<close> and \<open>heap_Pop\<close> are the package \<open>container/heap\<close> of the
  standard library; \<open>heap_Interface\<close> is its interface, which \<open>AddrHeap\<close> implements. The service, behind
  \<open>Client.LookUpUserProfile\<close>, and the clock are parameters. The text of the address of a node stands for the address.
\<close>

section \<open>container/heap\<close>

function heap_up :: "('a list \<Rightarrow> nat \<Rightarrow> nat \<Rightarrow> bool) \<Rightarrow> ('a list \<Rightarrow> nat \<Rightarrow> nat \<Rightarrow> 'a list) \<Rightarrow> 'a list \<Rightarrow> nat \<Rightarrow> 'a list" where
  "heap_up lt swap h j = (let i = (j - 1) div 2 in if i = j \<or> \<not> lt h j i then h else heap_up lt swap (swap h i j) i)"
  by pat_completeness auto
termination by (relation "measure (\<lambda>(lt, swap, h, j). j)") auto

function heap_down :: "('a list \<Rightarrow> nat \<Rightarrow> nat \<Rightarrow> bool) \<Rightarrow> ('a list \<Rightarrow> nat \<Rightarrow> nat \<Rightarrow> 'a list) \<Rightarrow> 'a list \<Rightarrow> nat \<Rightarrow> nat \<Rightarrow> 'a list" where
  "heap_down lt swap h i n =
     (let j1 = 2 * i + 1 in
      if n \<le> j1 then h
      else
        let j2 = j1 + 1; j = (if j2 < n \<and> lt h j2 j1 then j2 else j1)
        in if \<not> lt h j i then h else heap_down lt swap (swap h i j) j n)"
  by pat_completeness auto
termination by (relation "measure (\<lambda>(lt, swap, h, i, n). n - i)") (auto simp: Let_def)

declare heap_up.simps [simp del] heap_down.simps [simp del]

definition heap_Push :: "('a list \<Rightarrow> nat \<Rightarrow> nat \<Rightarrow> bool) \<Rightarrow> ('a list \<Rightarrow> nat \<Rightarrow> nat \<Rightarrow> 'a list) \<Rightarrow> ('a list \<Rightarrow> 'a \<Rightarrow> 'a list) \<Rightarrow> 'a \<Rightarrow> 'a list \<Rightarrow> 'a list" where
  "heap_Push lt swap push x h = (let h' = push h x in heap_up lt swap h' (length h' - 1))"

text \<open>\<open>Pop\<close> of an empty heap swaps the elements 0 and -1, and panics.\<close>

definition heap_Pop :: "('a list \<Rightarrow> nat \<Rightarrow> nat \<Rightarrow> bool) \<Rightarrow> ('a list \<Rightarrow> nat \<Rightarrow> nat \<Rightarrow> 'a list) \<Rightarrow> ('a list \<Rightarrow> 'a \<times> 'a list) \<Rightarrow> 'a list \<Rightarrow> ('a \<times> 'a list) go" where
  "heap_Pop lt swap pop h =
     (if h = [] then Inl (Panic ''index out of range'')
      else let n = length h - 1 in Inr (pop (heap_down lt swap (swap h 0 n) 0 n)))"

section \<open>The heap of addresses\<close>

record AddrNode =
  an_Timestamp :: nat
  an_Addr :: addr

definition AddrHeap_Less :: "AddrNode list \<Rightarrow> nat \<Rightarrow> nat \<Rightarrow> bool" where
  "AddrHeap_Less a i j \<longleftrightarrow> an_Timestamp (a ! i) < an_Timestamp (a ! j)"

definition AddrHeap_Swap :: "AddrNode list \<Rightarrow> nat \<Rightarrow> nat \<Rightarrow> AddrNode list" where
  "AddrHeap_Swap a i j = a[i := a ! j, j := a ! i]"

definition AddrHeap_Push :: "AddrNode list \<Rightarrow> AddrNode \<Rightarrow> AddrNode list" where
  "AddrHeap_Push a x = a @ [x]"

definition AddrHeap_Pop :: "AddrNode list \<Rightarrow> AddrNode \<times> AddrNode list" where
  "AddrHeap_Pop old = (let n = length old in (old ! (n - 1), take (n - 1) old))"

section \<open>The client and its cache\<close>

record UserProfile =
  up_UserName :: string
  up_ProfileID :: int

record userClientReply =
  ur_Success :: bool
  ur_Data :: UserProfile
  ur_Reason :: string

text \<open>The answer of the service: a failure of the request, or the status and the decoding of the body.\<close>

definition Client_LookUpUserProfile :: "(nat \<times> userClientReply go) go \<Rightarrow> UserProfile go" where
  "Client_LookUpUserProfile rsp =
     go_bind rsp (\<lambda>(status, body).
       if status \<noteq> 200 then Inl (Err ''unexpected return code'')
       else go_bind body (\<lambda>result.
         if \<not> ur_Success result then Inl (Err (''failed to get  user profile, reason : '' @ ur_Reason result))
         else Inr (ur_Data result)))"

record CachedClient =
  cc_cached :: "addr \<rightharpoonup> UserProfile"
  cc_MaxCacheSize :: int
  cc_cacheSize :: int
  cc_minHeap :: "AddrNode list"

definition NewCachedClient :: "int \<Rightarrow> CachedClient" where
  "NewCachedClient maxCache = \<lparr> cc_cached = Map.empty, cc_MaxCacheSize = maxCache, cc_cacheSize = 0, cc_minHeap = [] \<rparr>"

definition LookUpCache :: "CachedClient \<Rightarrow> addr \<Rightarrow> UserProfile option" where
  "LookUpCache cc a = cc_cached cc a"

text \<open>What a lookup does under the lock with the answer of the service.\<close>

definition evict_oldest :: "CachedClient \<Rightarrow> CachedClient go" where
  "evict_oldest cc =
     (if cc_MaxCacheSize cc \<le> cc_cacheSize cc then
        go_bind (heap_Pop AddrHeap_Less AddrHeap_Swap AddrHeap_Pop (cc_minHeap cc)) (\<lambda>(addrNode, h).
          Inr (cc\<lparr> cc_minHeap := h, cc_cached := (cc_cached cc)(an_Addr addrNode := None), cc_cacheSize := cc_cacheSize cc - 1 \<rparr>))
      else Inr cc)"

definition cache_profile :: "nat \<Rightarrow> addr \<Rightarrow> UserProfile \<Rightarrow> CachedClient \<Rightarrow> CachedClient" where
  "cache_profile now a p cc =
     cc\<lparr> cc_cached := (cc_cached cc)(a \<mapsto> p),
         cc_minHeap := heap_Push AddrHeap_Less AddrHeap_Swap AddrHeap_Push \<lparr> an_Timestamp = now, an_Addr = a \<rparr> (cc_minHeap cc),
         cc_cacheSize := cc_cacheSize cc + 1 \<rparr>"

definition store_profile :: "nat \<Rightarrow> addr \<Rightarrow> UserProfile \<Rightarrow> CachedClient \<Rightarrow> CachedClient go" where
  "store_profile now a p cc = go_bind (evict_oldest cc) (\<lambda>cc. Inr (cache_profile now a p cc))"

text \<open>A lookup with no other lookup between its parts: the client and the result.\<close>

definition LookUpUserProfile :: "(addr \<Rightarrow> UserProfile go) \<Rightarrow> nat \<Rightarrow> addr \<Rightarrow> CachedClient \<Rightarrow> CachedClient \<times> UserProfile go" where
  "LookUpUserProfile service now a cc =
     (case LookUpCache cc a of
        Some p \<Rightarrow> (cc, Inr p)
      | None \<Rightarrow> (case service a of
          Inl e \<Rightarrow> (cc, Inl e)
        | Inr p \<Rightarrow> (case store_profile now a p cc of Inl e \<Rightarrow> (cc, Inl e) | Inr cc' \<Rightarrow> (cc', Inr p))))"

text \<open>
  Lookups of several requests: one that misses asks the service without the lock, and stores the answer later. The
  state has the answers that are not stored yet.
\<close>

inductive lookup_step :: "(addr \<Rightarrow> UserProfile \<Rightarrow> bool) \<Rightarrow> CachedClient \<times> (addr \<times> UserProfile) multiset
    \<Rightarrow> CachedClient \<times> (addr \<times> UserProfile) multiset \<Rightarrow> bool" for answers where
  lookup_miss: "LookUpCache cc a = None \<Longrightarrow> answers a p \<Longrightarrow> lookup_step answers (cc, waiting) (cc, add_mset (a, p) waiting)"
| lookup_store: "store_profile now a p cc = Inr cc' \<Longrightarrow> lookup_step answers (cc, add_mset (a, p) waiting) (cc', waiting)"

section \<open>The laws of the heap\<close>

text \<open>Every node but the root is not smaller than its parent.\<close>

definition parent :: "nat \<Rightarrow> nat" where "parent k = (k - 1) div 2"

definition ordered_except :: "('a \<Rightarrow> nat) \<Rightarrow> 'a list \<Rightarrow> nat \<Rightarrow> (nat \<Rightarrow> bool) \<Rightarrow> bool" where
  "ordered_except key h n skip \<longleftrightarrow> (\<forall>k<n. 0 < k \<longrightarrow> \<not> skip k \<longrightarrow> key (h ! parent k) \<le> key (h ! k))"

definition is_heap :: "('a \<Rightarrow> nat) \<Rightarrow> 'a list \<Rightarrow> bool" where
  "is_heap key h = ordered_except key h (length h) (\<lambda>k. False)"

text \<open>The nodes below \<open>i\<close> are not smaller than the parent of \<open>i\<close>.\<close>

definition grandparents :: "('a \<Rightarrow> nat) \<Rightarrow> 'a list \<Rightarrow> nat \<Rightarrow> nat \<Rightarrow> bool" where
  "grandparents key h n i \<longleftrightarrow> (0 < i \<longrightarrow> (\<forall>k<n. 0 < k \<longrightarrow> parent k = i \<longrightarrow> key (h ! parent i) \<le> key (h ! k)))"

lemma parent_less: "0 < k \<Longrightarrow> parent k < k"
  by (auto simp: parent_def)

lemma heap_root_least:
  assumes "ordered_except key h n (\<lambda>k. False)" "k < n"
  shows "key (h ! 0) \<le> key (h ! k)"
  using assms(2)
proof (induction k rule: less_induct)
  case (less k)
  show ?case
  proof (cases "k = 0")
    case False
    then have "key (h ! 0) \<le> key (h ! parent k)" using less parent_less [of k] by auto
    also have "\<dots> \<le> key (h ! k)" using assms(1) less.prems False by (auto simp: ordered_except_def)
    finally show ?thesis .
  qed simp
qed

locale heap_Interface =
  fixes lt :: "'a list \<Rightarrow> nat \<Rightarrow> nat \<Rightarrow> bool" and swap :: "'a list \<Rightarrow> nat \<Rightarrow> nat \<Rightarrow> 'a list" and push :: "'a list \<Rightarrow> 'a \<Rightarrow> 'a list"
    and pop :: "'a list \<Rightarrow> 'a \<times> 'a list" and key :: "'a \<Rightarrow> nat"
  assumes lt_law: "i < length h \<Longrightarrow> j < length h \<Longrightarrow> lt h i j \<longleftrightarrow> key (h ! i) < key (h ! j)"
    and swap_law: "i < length h \<Longrightarrow> j < length h \<Longrightarrow> swap h i j = h[i := h ! j, j := h ! i]"
    and push_law: "push h x = h @ [x]"
    and pop_law: "h \<noteq> [] \<Longrightarrow> pop h = (h ! (length h - 1), take (length h - 1) h)"
begin

lemma swap_nth:
  "i < length h \<Longrightarrow> j < length h \<Longrightarrow> k < length h \<Longrightarrow> swap h i j ! k = (if k = i then h ! j else if k = j then h ! i else h ! k)"
  by (auto simp: swap_law nth_list_update)

lemma swap_length [simp]: "i < length h \<Longrightarrow> j < length h \<Longrightarrow> length (swap h i j) = length h"
  by (simp add: swap_law)

lemma swap_mset [simp]: "i < length h \<Longrightarrow> j < length h \<Longrightarrow> mset (swap h i j) = mset h"
  by (simp add: swap_law mset_swap)

lemma heap_up_mset: "j < length h \<Longrightarrow> mset (heap_up lt swap h j) = mset h"
proof (induction j arbitrary: h rule: less_induct)
  case (less j)
  show ?case
  proof (cases "parent j = j \<or> \<not> lt h j (parent j)")
    case True
    then show ?thesis by (subst heap_up.simps) (simp add: parent_def Let_def)
  next
    case False
    then have p: "parent j < j" by (cases j) (auto simp: parent_def)
    with less.prems have "mset (heap_up lt swap (swap h (parent j) j) (parent j)) = mset h"
      by (simp add: less.IH [OF p])
    with False show ?thesis by (subst heap_up.simps) (simp add: parent_def Let_def)
  qed
qed

lemma heap_up_ordered:
  assumes "ordered_except key h (length h) (\<lambda>k. k = j)" "grandparents key h (length h) j" "j < length h"
  shows "is_heap key (heap_up lt swap h j)"
  using assms
proof (induction j arbitrary: h rule: less_induct)
  case (less j)
  note ord = less.prems(1) and gp = less.prems(2) and j = less.prems(3)
  show ?case
  proof (cases "parent j = j \<or> \<not> lt h j (parent j)")
    case True
    have "ordered_except key h (length h) (\<lambda>k. False)"
      unfolding ordered_except_def
    proof (intro allI impI)
      fix k assume k: "k < length h" "0 < k"
      show "key (h ! parent k) \<le> key (h ! k)"
      proof (cases "k = j")
        case True
        with \<open>parent j = j \<or> _\<close> k parent_less [of j] lt_law [of j h "parent j"] j show ?thesis by auto
      next
        case False
        with ord k show ?thesis by (simp add: ordered_except_def)
      qed
    qed
    with True show ?thesis by (subst heap_up.simps) (simp add: parent_def Let_def is_heap_def)
  next
    case False
    then have j0: "0 < j" by (cases j) (auto simp: parent_def)
    let ?i = "parent j" and ?h = "swap h (parent j) j"
    have p: "?i < j" using parent_less [OF j0] .
    then have i: "?i < length h" using j by simp
    have lt: "key (h ! j) < key (h ! ?i)" using False lt_law [OF j i] by simp
    note nth = swap_nth [OF i j]
    have "ordered_except key ?h (length ?h) (\<lambda>k. k = ?i)"
      unfolding ordered_except_def
    proof (intro allI impI)
      fix k assume k: "k < length ?h" "0 < k" "k \<noteq> ?i"
      then have kl: "k < length h" using i j by simp
      have pk: "parent k < length h" using parent_less [OF k(2)] kl by simp
      have "key (h ! parent k) \<le> key (h ! k)" if "k \<noteq> j" using ord kl k(2) that by (simp add: ordered_except_def)
      moreover have "key (h ! ?i) \<le> key (h ! k)" if "parent k = j" using gp j0 kl k(2) that by (simp add: grandparents_def)
      ultimately show "key (?h ! parent k) \<le> key (?h ! k)"
        unfolding nth [OF kl] nth [OF pk] using lt k(3) p by (auto intro: order_trans)
    qed
    moreover have "grandparents key ?h (length ?h) ?i"
      unfolding grandparents_def
    proof (intro allI impI)
      fix k assume i0: "0 < ?i" and k: "k < length ?h" "0 < k" "parent k = ?i"
      then have kl: "k < length h" using i j by simp
      have pi: "parent ?i < ?i" using parent_less [OF i0] .
      then have pil: "parent ?i < length h" using i by simp
      have a: "key (h ! parent ?i) \<le> key (h ! ?i)" using ord i i0 p by (simp add: ordered_except_def)
      have b: "key (h ! ?i) \<le> key (h ! k)" if "k \<noteq> j" using ord kl k(2,3) that by (auto simp: ordered_except_def)
      have "k \<noteq> ?i" using k(2,3) parent_less [of k] by auto
      then show "key (?h ! parent ?i) \<le> key (?h ! k)"
        unfolding nth [OF kl] nth [OF pil] using a b pi p by (auto intro: order_trans)
    qed
    ultimately have "is_heap key (heap_up lt swap ?h ?i)" using i j by (intro less.IH [OF p]) auto
    with False show ?thesis by (subst heap_up.simps) (simp add: parent_def Let_def)
  qed
qed

lemma heap_Push_heap:
  assumes "is_heap key h"
  shows "is_heap key (heap_Push lt swap push x h) \<and> mset (heap_Push lt swap push x h) = add_mset x (mset h)"
proof -
  have "ordered_except key (h @ [x]) (length (h @ [x])) (\<lambda>k. k = length h)"
    unfolding ordered_except_def
  proof (intro allI impI)
    fix k assume "k < length (h @ [x])" "0 < k" "k \<noteq> length h"
    then have "k < length h" "parent k < length h" using parent_less [of k] by auto
    with assms \<open>0 < k\<close> show "key ((h @ [x]) ! parent k) \<le> key ((h @ [x]) ! k)"
      by (simp add: is_heap_def ordered_except_def nth_append)
  qed
  moreover have "grandparents key (h @ [x]) (length (h @ [x])) (length h)"
    unfolding grandparents_def using parent_less by (metis length_append_singleton less_Suc_eq less_asym not_less_iff_gr_or_eq)
  ultimately have "is_heap key (heap_up lt swap (h @ [x]) (length h))" by (rule heap_up_ordered) simp
  moreover have "mset (heap_up lt swap (h @ [x]) (length h)) = add_mset x (mset h)" by (simp add: heap_up_mset)
  ultimately show ?thesis by (simp add: heap_Push_def push_law)
qed

text \<open>The step of \<open>heap_down\<close>: the child to exchange with.\<close>

abbreviation least_child :: "'a list \<Rightarrow> nat \<Rightarrow> nat \<Rightarrow> nat" where
  "least_child h i n \<equiv> (if 2 * i + 2 < n \<and> lt h (2 * i + 2) (2 * i + 1) then 2 * i + 2 else 2 * i + 1)"

lemma heap_down_step:
  "heap_down lt swap h i n =
     (if n \<le> 2 * i + 1 \<or> \<not> lt h (least_child h i n) i then h else heap_down lt swap (swap h i (least_child h i n)) (least_child h i n) n)"
  by (subst heap_down.simps) (simp add: Let_def)

lemma heap_down_frame:
  "n \<le> length h \<Longrightarrow> mset (heap_down lt swap h i n) = mset h \<and> length (heap_down lt swap h i n) = length h \<and>
     (\<forall>k. n \<le> k \<longrightarrow> k < length h \<longrightarrow> heap_down lt swap h i n ! k = h ! k)"
proof (induction "n - i" arbitrary: h i rule: less_induct)
  case less
  let ?j = "least_child h i n"
  show ?case
  proof (cases "n \<le> 2 * i + 1 \<or> \<not> lt h ?j i")
    case True
    then show ?thesis by (subst (1 2 3) heap_down_step) simp
  next
    case False
    then have ij: "i < length h" "?j < length h" "i < n" "?j < n" "n - ?j < n - i" using less.prems by auto
    note eq = heap_down_step [of h i n] and IH = less.hyps [OF ij(5), of "swap h i ?j"]
    have "(swap h i ?j) ! k = h ! k" if "n \<le> k" "k < length h" for k
      using swap_nth [OF ij(1,2) that(2)] ij(3,4) that(1) by auto
    with IH less.prems ij(1,2) False show ?thesis unfolding eq by simp
  qed
qed

lemma heap_down_ordered:
  assumes "ordered_except key h n (\<lambda>k. parent k = i)" "grandparents key h n i" "n \<le> length h"
  shows "ordered_except key (heap_down lt swap h i n) n (\<lambda>k. False)"
  using assms
proof (induction "n - i" arbitrary: h i rule: less_induct)
  case less
  note ord = less.prems(1) and gp = less.prems(2) and n = less.prems(3)
  let ?j = "least_child h i n"
  have children: "k = 2 * i + 1 \<or> k = 2 * i + 2" if "parent k = i" "0 < k" for k
    using that by (auto simp: parent_def)
  have least: "key (h ! ?j) \<le> key (h ! k)" if "parent k = i" "0 < k" "k < n" for k
    using children [OF that(1,2)] that(3) n lt_law [of "2 * i + 2" h "2 * i + 1"] by auto
  show ?case
  proof (cases "n \<le> 2 * i + 1 \<or> \<not> lt h ?j i")
    case True
    have "ordered_except key h n (\<lambda>k. False)"
      unfolding ordered_except_def
    proof (intro allI impI)
      fix k assume k: "k < n" "0 < k"
      show "key (h ! parent k) \<le> key (h ! k)"
      proof (cases "parent k = i")
        case p: True
        then have "\<not> n \<le> 2 * i + 1" using children [OF p k(2)] k(1) by auto
        then have "\<not> lt h ?j i" "?j < length h" "i < length h" using True n by auto
        then have "key (h ! i) \<le> key (h ! ?j)" using lt_law [of ?j h i] by auto
        with least [OF p k(2,1)] p show ?thesis by simp
      next
        case False
        with ord k show ?thesis by (simp add: ordered_except_def)
      qed
    qed
    with True show ?thesis by (subst heap_down_step) simp
  next
    case False
    then have ij: "i < length h" "?j < length h" "i < n" "?j < n" "n - ?j < n - i" "i < ?j" using n by auto
    have pj: "parent ?j = i" by (simp add: parent_def)
    have lt: "key (h ! ?j) < key (h ! i)" using False lt_law [OF ij(2,1)] by simp
    note nth = swap_nth [OF ij(1,2)]
    have "ordered_except key (swap h i ?j) n (\<lambda>k. parent k = ?j)"
      unfolding ordered_except_def
    proof (intro allI impI)
      fix k assume k: "k < n" "0 < k" "parent k \<noteq> ?j"
      have kl: "k < length h" "parent k < length h" using k n parent_less [OF k(2)] by simp_all
      consider "parent k = i" | "k = i" | "parent k \<noteq> i" "k \<noteq> i" by blast
      then show "key (swap h i ?j ! parent k) \<le> key (swap h i ?j ! k)"
      proof cases
        case 1
        then have "k \<noteq> i" using parent_less [OF k(2)] by simp
        with 1 least [OF 1 k(2,1)] lt show ?thesis unfolding nth [OF kl(1)] nth [OF kl(2)] by simp
      next
        case 2
        then have "key (h ! parent i) \<le> key (h ! ?j)" using gp k(2) pj ij(4,6) by (auto simp: grandparents_def)
        with 2 k(3) parent_less [OF k(2)] show ?thesis unfolding nth [OF kl(1)] nth [OF kl(2)] by auto
      next
        case 3
        then have "k \<noteq> ?j" using pj by auto
        with 3 k ord show ?thesis unfolding nth [OF kl(1)] nth [OF kl(2)] by (auto simp: ordered_except_def)
      qed
    qed
    moreover have "grandparents key (swap h i ?j) n ?j"
      unfolding grandparents_def
    proof (intro allI impI)
      fix k assume k: "k < n" "0 < k" "parent k = ?j"
      have kl: "k < length h" using k n by simp
      have "k \<noteq> i" "k \<noteq> ?j" using k(2,3) parent_less [OF k(2)] ij(6) by auto
      moreover have "key (h ! ?j) \<le> key (h ! k)" using ord k ij(6) by (auto simp: ordered_except_def)
      ultimately show "key (swap h i ?j ! parent ?j) \<le> key (swap h i ?j ! k)"
        unfolding pj nth [OF kl] nth [OF ij(1)] by simp
    qed
    ultimately have "ordered_except key (heap_down lt swap (swap h i ?j) ?j n) n (\<lambda>k. False)"
      using n ij by (intro less.hyps [OF ij(5)]) auto
    with False show ?thesis by (subst heap_down_step) simp
  qed
qed

lemma heap_Pop_least:
  assumes "is_heap key h" "h \<noteq> []"
  shows "\<exists>x h'. heap_Pop lt swap pop h = Inr (x, h') \<and> is_heap key h' \<and> mset h = add_mset x (mset h') \<and> (\<forall>y\<in>set h. key x \<le> key y)"
proof -
  let ?n = "length h - 1"
  have n: "0 < length h" "?n < length h" using assms(2) by simp_all
  let ?s = "swap h 0 ?n" and ?d = "heap_down lt swap (swap h 0 ?n) 0 ?n"
  have frame: "mset ?d = mset h" "length ?d = length h" "?d ! ?n = h ! 0"
    using heap_down_frame [of ?n ?s 0] n swap_nth [OF n n(2)] by auto
  have "ordered_except key ?s ?n (\<lambda>k. parent k = 0)"
    unfolding ordered_except_def
  proof (intro allI impI)
    fix k assume k: "k < ?n" "0 < k" "parent k \<noteq> 0"
    then have kl: "k < length h" "parent k < length h" "parent k < ?n" using parent_less [OF k(2)] by simp_all
    have "key (h ! parent k) \<le> key (h ! k)" using assms(1) k kl by (simp add: is_heap_def ordered_except_def)
    with k kl show "key (?s ! parent k) \<le> key (?s ! k)" unfolding swap_nth [OF n kl(1)] swap_nth [OF n kl(2)] by simp
  qed
  then have ord: "ordered_except key ?d ?n (\<lambda>k. False)"
    using n by (intro heap_down_ordered) (simp_all add: grandparents_def)
  have "is_heap key (take ?n ?d)"
    unfolding is_heap_def ordered_except_def
  proof (intro allI impI)
    fix k assume k: "k < length (take ?n ?d)" "0 < k"
    with ord parent_less [OF k(2)] show "key (take ?n ?d ! parent k) \<le> key (take ?n ?d ! k)"
      by (simp add: ordered_except_def)
  qed
  moreover have "?d = take ?n ?d @ [h ! 0]"
    using frame(2,3) n take_Suc_conv_app_nth [of ?n ?d] by simp
  then have "mset h = add_mset (h ! 0) (mset (take ?n ?d))" using frame(1) by (metis mset_append add.right_neutral mset.simps union_mset_add_mset_right)
  moreover have "\<forall>y\<in>set h. key (h ! 0) \<le> key y"
    using heap_root_least assms(1) by (fastforce simp: is_heap_def in_set_conv_nth)
  moreover have "pop ?d = (h ! 0, take ?n ?d)" using pop_law [of ?d] frame(2,3) assms(2) by (metis length_0_conv)
  ultimately show ?thesis using assms(2) by (simp add: heap_Pop_def Let_def)
qed

end

interpretation addr_heap: heap_Interface AddrHeap_Less AddrHeap_Swap AddrHeap_Push AddrHeap_Pop an_Timestamp
  by unfold_locales (simp_all add: AddrHeap_Less_def AddrHeap_Swap_def AddrHeap_Push_def AddrHeap_Pop_def Let_def)

section \<open>The cache\<close>

definition profiles_ok :: "(addr \<Rightarrow> UserProfile \<Rightarrow> bool) \<Rightarrow> CachedClient \<Rightarrow> bool" where
  "profiles_ok answers cc \<longleftrightarrow> is_heap an_Timestamp (cc_minHeap cc) \<and> cc_cacheSize cc = int (length (cc_minHeap cc)) \<and>
     cc_cacheSize cc \<le> cc_MaxCacheSize cc \<and> dom (cc_cached cc) \<subseteq> an_Addr ` set (cc_minHeap cc) \<and>
     (\<forall>a p. cc_cached cc a = Some p \<longrightarrow> answers a p)"

text \<open>Each address that is cached has one node.\<close>

definition profiles_exact :: "CachedClient \<Rightarrow> bool" where
  "profiles_exact cc \<longleftrightarrow> size (cc_minHeap cc) = card (dom (cc_cached cc)) \<and> dom (cc_cached cc) = an_Addr ` set (cc_minHeap cc)"

lemma profiles_ok_new: "0 \<le> m \<Longrightarrow> profiles_ok answers (NewCachedClient m) \<and> profiles_exact (NewCachedClient m)"
  by (simp add: profiles_ok_def profiles_exact_def NewCachedClient_def is_heap_def ordered_except_def)

text \<open>A store, by whether the cache is full.\<close>

lemma store_profile_free:
  assumes "cc_cacheSize cc < cc_MaxCacheSize cc"
  shows "store_profile now a p cc = Inr (cache_profile now a p cc)"
  using assms by (simp add: store_profile_def evict_oldest_def)

lemma store_profile_full:
  assumes "profiles_ok answers cc" "1 \<le> cc_MaxCacheSize cc" "cc_cacheSize cc = cc_MaxCacheSize cc"
  obtains old h where "mset (cc_minHeap cc) = add_mset old (mset h)" "\<forall>y\<in>set (cc_minHeap cc). an_Timestamp old \<le> an_Timestamp y"
    "is_heap an_Timestamp h"
    "store_profile now a p cc = Inr (cache_profile now a p (cc\<lparr> cc_minHeap := h,
       cc_cached := (cc_cached cc)(an_Addr old := None), cc_cacheSize := cc_cacheSize cc - 1 \<rparr>))"
proof -
  have "is_heap an_Timestamp (cc_minHeap cc)" "cc_minHeap cc \<noteq> []" using assms by (auto simp: profiles_ok_def)
  from addr_heap.heap_Pop_least [OF this] obtain old h where
    "heap_Pop AddrHeap_Less AddrHeap_Swap AddrHeap_Pop (cc_minHeap cc) = Inr (old, h)" "is_heap an_Timestamp h"
    "mset (cc_minHeap cc) = add_mset old (mset h)" "\<forall>y\<in>set (cc_minHeap cc). an_Timestamp old \<le> an_Timestamp y" by blast
  then show ?thesis using assms(3) by (intro that [of old h]) (simp_all add: store_profile_def evict_oldest_def)
qed

lemma cache_profile_ok:
  assumes "is_heap an_Timestamp (cc_minHeap cc)" "cc_cacheSize cc = int (length (cc_minHeap cc))" "cc_cacheSize cc < cc_MaxCacheSize cc"
    "dom (cc_cached cc) \<subseteq> an_Addr ` set (cc_minHeap cc)" "\<forall>b q. cc_cached cc b = Some q \<longrightarrow> answers b q" "answers a p"
  shows "profiles_ok answers (cache_profile now a p cc)"
proof -
  note push = addr_heap.heap_Push_heap [OF assms(1), of "\<lparr> an_Timestamp = now, an_Addr = a \<rparr>"]
  have "length (heap_Push AddrHeap_Less AddrHeap_Swap AddrHeap_Push \<lparr> an_Timestamp = now, an_Addr = a \<rparr> (cc_minHeap cc)) = Suc (length (cc_minHeap cc))"
    using arg_cong [OF conjunct2 [OF push], of size] by simp
  moreover have "set (heap_Push AddrHeap_Less AddrHeap_Swap AddrHeap_Push \<lparr> an_Timestamp = now, an_Addr = a \<rparr> (cc_minHeap cc)) =
      insert \<lparr> an_Timestamp = now, an_Addr = a \<rparr> (set (cc_minHeap cc))"
    using arg_cong [OF conjunct2 [OF push], of set_mset] by simp
  ultimately show ?thesis using push assms by (auto simp: profiles_ok_def cache_profile_def)
qed

lemma store_profile_ok:
  assumes "profiles_ok answers cc" "1 \<le> cc_MaxCacheSize cc" "answers a p"
  shows "\<exists>cc'. store_profile now a p cc = Inr cc' \<and> profiles_ok answers cc' \<and> cc_MaxCacheSize cc' = cc_MaxCacheSize cc"
proof (cases "cc_cacheSize cc < cc_MaxCacheSize cc")
  case True
  with assms have "profiles_ok answers (cache_profile now a p cc)" by (intro cache_profile_ok) (auto simp: profiles_ok_def)
  with store_profile_free [OF True] show ?thesis by (simp add: cache_profile_def)
next
  case False
  with assms(1) have "cc_cacheSize cc = cc_MaxCacheSize cc" by (auto simp: profiles_ok_def)
  from store_profile_full [OF assms(1,2) this, of now a p] obtain old h where
    h: "mset (cc_minHeap cc) = add_mset old (mset h)" "is_heap an_Timestamp h"
    "store_profile now a p cc = Inr (cache_profile now a p (cc\<lparr> cc_minHeap := h,
       cc_cached := (cc_cached cc)(an_Addr old := None), cc_cacheSize := cc_cacheSize cc - 1 \<rparr>))" by blast
  have "length (cc_minHeap cc) = Suc (length h)" "set (cc_minHeap cc) = insert old (set h)"
    using arg_cong [OF h(1), of size] arg_cong [OF h(1), of set_mset] by simp_all
  with assms h(2) have "profiles_ok answers (cache_profile now a p (cc\<lparr> cc_minHeap := h,
       cc_cached := (cc_cached cc)(an_Addr old := None), cc_cacheSize := cc_cacheSize cc - 1 \<rparr>))"
    by (intro cache_profile_ok) (auto simp: profiles_ok_def split: if_splits)
  with h(3) show ?thesis by (simp add: cache_profile_def)
qed

lemma lookup_steps_ok:
  assumes "(lookup_step answers)\<^sup>*\<^sup>* s s'" "profiles_ok answers (fst s)" "1 \<le> cc_MaxCacheSize (fst s)" "\<forall>(a, p)\<in>#snd s. answers a p"
  shows "profiles_ok answers (fst s') \<and> cc_MaxCacheSize (fst s') = cc_MaxCacheSize (fst s) \<and> (\<forall>(a, p)\<in>#snd s'. answers a p)"
  using assms(1)
proof (induction rule: rtranclp_induct)
  case (step s1 s2)
  from step(2) show ?case
  proof (cases rule: lookup_step.cases)
    case (lookup_store now a p cc cc' waiting)
    with step.IH assms(3) store_profile_ok [of answers cc a p now] show ?thesis by auto
  qed (use step.IH in auto)
qed (use assms in auto)

text \<open>A sequence of lookups, each at its time and with nothing between its parts.\<close>

definition lookups :: "(addr \<Rightarrow> UserProfile go) \<Rightarrow> (nat \<times> addr) list \<Rightarrow> CachedClient \<Rightarrow> CachedClient" where
  "lookups service xs cc = fold (\<lambda>(now, a) cc. fst (LookUpUserProfile service now a cc)) xs cc"

lemma image_card_distinct: "length h = card (an_Addr ` set h) \<longleftrightarrow> distinct (map an_Addr h)"
  using card_distinct [of "map an_Addr h"] distinct_card [of "map an_Addr h"] by auto

lemma profiles_exact_distinct: "profiles_exact cc \<longleftrightarrow> distinct (map an_Addr (cc_minHeap cc)) \<and> dom (cc_cached cc) = an_Addr ` set (cc_minHeap cc)"
  unfolding profiles_exact_def using image_card_distinct [of "cc_minHeap cc"] by auto

lemma cache_profile_exact:
  assumes "is_heap an_Timestamp (cc_minHeap cc)" "distinct (map an_Addr (cc_minHeap cc))" "dom (cc_cached cc) = an_Addr ` set (cc_minHeap cc)"
    "a \<notin> dom (cc_cached cc)"
  shows "profiles_exact (cache_profile now a p cc)"
proof -
  let ?h = "heap_Push AddrHeap_Less AddrHeap_Swap AddrHeap_Push \<lparr> an_Timestamp = now, an_Addr = a \<rparr> (cc_minHeap cc)"
  have push: "mset ?h = add_mset \<lparr> an_Timestamp = now, an_Addr = a \<rparr> (mset (cc_minHeap cc))"
    using addr_heap.heap_Push_heap [OF assms(1)] by blast
  have "mset (map an_Addr ?h) = add_mset a (mset (map an_Addr (cc_minHeap cc)))" using push by simp
  also have "\<dots> = mset (a # map an_Addr (cc_minHeap cc))" by simp
  finally have "distinct (map an_Addr ?h)" using assms(2-4) by (metis distinct.simps(2) mset_eq_imp_distinct_iff set_map)
  moreover have "set ?h = insert \<lparr> an_Timestamp = now, an_Addr = a \<rparr> (set (cc_minHeap cc))"
    using arg_cong [OF push, of set_mset] by simp
  ultimately show ?thesis unfolding profiles_exact_distinct using assms(3) by (simp add: cache_profile_def)
qed

lemma LookUp_sequential:
  assumes "profiles_ok answers cc" "profiles_exact cc" "1 \<le> cc_MaxCacheSize cc" "LookUpCache cc a = None" "service a = Inr p" "answers a p"
  shows "\<exists>cc'. LookUpUserProfile service now a cc = (cc', Inr p) \<and> profiles_ok answers cc' \<and> profiles_exact cc' \<and>
    cc_MaxCacheSize cc' = cc_MaxCacheSize cc \<and>
    (if card (dom (cc_cached cc)) < nat (cc_MaxCacheSize cc) then cc_cached cc' = (cc_cached cc)(a \<mapsto> p)
     else \<exists>old\<in>set (cc_minHeap cc). (\<forall>y\<in>set (cc_minHeap cc). an_Timestamp old \<le> an_Timestamp y) \<and>
       cc_cached cc' = (cc_cached cc)(an_Addr old := None, a \<mapsto> p))"
proof -
  from store_profile_ok [OF assms(1,3,6)] obtain cc' where
    cc': "store_profile now a p cc = Inr cc'" "profiles_ok answers cc'" "cc_MaxCacheSize cc' = cc_MaxCacheSize cc" by blast
  have look: "LookUpUserProfile service now a cc = (cc', Inr p)" using assms(4,5) cc'(1) by (simp add: LookUpUserProfile_def)
  have ok: "is_heap an_Timestamp (cc_minHeap cc)" "cc_cacheSize cc = int (card (dom (cc_cached cc)))" "a \<notin> dom (cc_cached cc)"
    using assms(1,2,4) by (auto simp: profiles_ok_def profiles_exact_def LookUpCache_def)
  note ex = assms(2) [unfolded profiles_exact_distinct]
  show ?thesis
  proof (cases "cc_cacheSize cc < cc_MaxCacheSize cc")
    case True
    with store_profile_free [OF True] cc'(1) have "cc' = cache_profile now a p cc" by simp
    moreover have "profiles_exact (cache_profile now a p cc)" using cache_profile_exact ok ex by blast
    moreover have "card (dom (cc_cached cc)) < nat (cc_MaxCacheSize cc)" using True ok(2) by simp
    ultimately show ?thesis using look cc' by (simp add: cache_profile_def)
  next
    case False
    with assms(1) have full: "cc_cacheSize cc = cc_MaxCacheSize cc" by (auto simp: profiles_ok_def)
    from store_profile_full [OF assms(1,3) full, of now a p] obtain old h where
      h: "mset (cc_minHeap cc) = add_mset old (mset h)" "\<forall>y\<in>set (cc_minHeap cc). an_Timestamp old \<le> an_Timestamp y"
      "is_heap an_Timestamp h"
      "store_profile now a p cc = Inr (cache_profile now a p (cc\<lparr> cc_minHeap := h,
         cc_cached := (cc_cached cc)(an_Addr old := None), cc_cacheSize := cc_cacheSize cc - 1 \<rparr>))" by blast
    have set_h: "set (cc_minHeap cc) = insert old (set h)" using arg_cong [OF h(1), of set_mset] by simp
    have "mset (map an_Addr (cc_minHeap cc)) = mset (an_Addr old # map an_Addr h)" using h(1) by simp
    then have d: "distinct (map an_Addr h)" "an_Addr old \<notin> an_Addr ` set h"
      using ex by (metis distinct.simps(2) mset_eq_imp_distinct_iff set_map)+
    let ?cc = "cc\<lparr> cc_minHeap := h, cc_cached := (cc_cached cc)(an_Addr old := None), cc_cacheSize := cc_cacheSize cc - 1 \<rparr>"
    have dom: "dom ((cc_cached cc)(an_Addr old := None)) = an_Addr ` set h" using ex d(2) set_h by auto
    have "profiles_exact (cache_profile now a p ?cc)"
    proof (rule cache_profile_exact)
      show "a \<notin> dom (cc_cached ?cc)" using ok(3) by simp
      show "dom (cc_cached ?cc) = an_Addr ` set (cc_minHeap ?cc)" using dom by simp
    qed (simp_all add: h(3) d(1))
    moreover have "cc' = cache_profile now a p ?cc" using cc'(1) h(4) by simp
    ultimately show ?thesis using look cc' full ok(2) h(2) set_h by (auto simp: cache_profile_def)
  qed
qed

lemma lookups_ok:
  assumes "profiles_ok (\<lambda>a p. service a = Inr p) cc" "profiles_exact cc" "1 \<le> cc_MaxCacheSize cc"
  shows "profiles_ok (\<lambda>a p. service a = Inr p) (lookups service xs cc) \<and> profiles_exact (lookups service xs cc) \<and>
    cc_MaxCacheSize (lookups service xs cc) = cc_MaxCacheSize cc"
  using assms
proof (induction xs arbitrary: cc)
  case (Cons x xs)
  obtain now a where x: "x = (now, a)" by (cases x)
  let ?cc = "fst (LookUpUserProfile service now a cc)"
  have "profiles_ok (\<lambda>a p. service a = Inr p) ?cc \<and> profiles_exact ?cc \<and> cc_MaxCacheSize ?cc = cc_MaxCacheSize cc"
  proof (cases "LookUpCache cc a")
    case None
    show ?thesis
    proof (cases "service a")
      case (Inr p)
      from LookUp_sequential [where service = service, OF Cons.prems None Inr Inr, of now] show ?thesis by auto
    qed (use Cons.prems None in \<open>simp add: LookUpUserProfile_def\<close>)
  qed (use Cons.prems in \<open>simp add: LookUpUserProfile_def\<close>)
  with Cons.IH [of ?cc] Cons.prems x show ?case by (simp add: lookups_def)
qed (simp add: lookups_def)

section \<open>Properties\<close>

text \<open>
  C24: However the lookups of several requests interleave, the cache has no more entries than it may have, each of them is an
  answer of the service for its address, and the next answer can be stored.
\<close>

theorem lookup_steps_bounded:
  assumes "1 \<le> m" "(lookup_step answers)\<^sup>*\<^sup>* (NewCachedClient m, {#}) (cc, waiting)" "(a, p) \<in># waiting"
  shows "int (card (dom (cc_cached cc))) \<le> m \<and> int (length (cc_minHeap cc)) \<le> m \<and> (\<forall>b q. LookUpCache cc b = Some q \<longrightarrow> answers b q) \<and>
    (\<exists>cc'. store_profile now a p cc = Inr cc' \<and> LookUpCache cc' a = Some p)"
proof -
  have max: "cc_MaxCacheSize (NewCachedClient m) = m" by (simp add: NewCachedClient_def)
  from lookup_steps_ok [OF assms(2)] profiles_ok_new [of m answers] assms(1)
  have ok: "profiles_ok answers cc" "cc_MaxCacheSize cc = m" "\<forall>(a, p)\<in>#waiting. answers a p" by (auto simp: max)
  from store_profile_ok [OF ok(1), of a p now] ok(2,3) assms(1,3) obtain cc' where "store_profile now a p cc = Inr cc'" by auto
  then have "\<exists>cc'. store_profile now a p cc = Inr cc' \<and> LookUpCache cc' a = Some p"
    by (auto simp: store_profile_def go_bind_Inr_iff cache_profile_def LookUpCache_def)
  moreover have "card (dom (cc_cached cc)) \<le> length (cc_minHeap cc)"
  proof -
    have "card (dom (cc_cached cc)) \<le> card (an_Addr ` set (cc_minHeap cc))" using ok(1) by (intro card_mono) (simp_all add: profiles_ok_def)
    also have "\<dots> \<le> length (cc_minHeap cc)" by (rule le_trans [OF card_image_le card_length]) simp
    finally show ?thesis .
  qed
  ultimately show ?thesis using ok by (auto simp: profiles_ok_def LookUpCache_def)
qed

text \<open>
  When lookups do not overlap, one that misses adds its answer to the entries, and replaces an entry that was looked up
  before all others only when the cache is full.
\<close>

theorem LookUpUserProfile_evicts:
  assumes "1 \<le> m" "cc = lookups service xs (NewCachedClient m)" "LookUpCache cc a = None" "service a = Inr p"
  shows "\<exists>cc'. LookUpUserProfile service now a cc = (cc', Inr p) \<and> distinct (map an_Addr (cc_minHeap cc)) \<and>
    dom (cc_cached cc) = an_Addr ` set (cc_minHeap cc) \<and>
    (if card (dom (cc_cached cc)) < nat m then cc_cached cc' = (cc_cached cc)(a \<mapsto> p)
     else \<exists>old\<in>set (cc_minHeap cc). (\<forall>y\<in>set (cc_minHeap cc). an_Timestamp old \<le> an_Timestamp y) \<and>
       cc_cached cc' = (cc_cached cc)(an_Addr old := None, a \<mapsto> p))"
proof -
  have max: "cc_MaxCacheSize (NewCachedClient m) = m" by (simp add: NewCachedClient_def)
  have new: "profiles_ok (\<lambda>a p. service a = Inr p) (NewCachedClient m)" "profiles_exact (NewCachedClient m)"
    using profiles_ok_new [of m] assms(1) by auto
  from lookups_ok [OF new] assms(1,2) have "profiles_ok (\<lambda>a p. service a = Inr p) cc" "profiles_exact cc" "cc_MaxCacheSize cc = m"
    by (simp_all add: max)
  from LookUp_sequential [where service = service, OF this(1,2) _ assms(3,4,4), of now] this(2,3) assms(1) profiles_exact_distinct [of cc] show ?thesis by auto
qed

text \<open>
  Two requests that miss the same address both store it: the cache counts it twice, and evicts it with the first of its
  two nodes while the second one still takes a place.
\<close>

theorem lookup_steps_double:
  assumes "answers a p" "answers b q" "a \<noteq> b"
  shows "\<exists>cc. (lookup_step answers)\<^sup>*\<^sup>* (NewCachedClient 2, {#}) (cc, {#}) \<and> cc_cacheSize cc = 2 \<and> dom (cc_cached cc) = {b} \<and>
    an_Addr ` set (cc_minHeap cc) = {a, b}"
proof -
  let ?n = "\<lambda>t x. \<lparr> an_Timestamp = t, an_Addr = x \<rparr>"
  let ?C = "\<lambda>m k h. \<lparr> cc_cached = m, cc_MaxCacheSize = 2, cc_cacheSize = k, cc_minHeap = h \<rparr> :: CachedClient"
  have ups: "heap_up AddrHeap_Less AddrHeap_Swap h 0 = h" "heap_down AddrHeap_Less AddrHeap_Swap h 0 (Suc 0) = h"
    "heap_up AddrHeap_Less AddrHeap_Swap h (Suc 0) = (if AddrHeap_Less h (Suc 0) 0 then AddrHeap_Swap h 0 (Suc 0) else h)" for h
    by (subst heap_up.simps heap_down.simps, simp add: Let_def)+
  note S = store_profile_def evict_oldest_def cache_profile_def heap_Push_def heap_Pop_def ups AddrHeap_Less_def
    AddrHeap_Swap_def AddrHeap_Push_def AddrHeap_Pop_def NewCachedClient_def Let_def
  have s1: "store_profile 1 a p (NewCachedClient 2) = Inr (?C [a \<mapsto> p] 1 [?n 1 a])" by (simp add: S)
  have s2: "store_profile 2 a p (?C [a \<mapsto> p] 1 [?n 1 a]) = Inr (?C [a \<mapsto> p] 2 [?n 1 a, ?n 2 a])" by (simp add: S)
  have s3: "store_profile 2 b q (?C [a \<mapsto> p] 2 [?n 1 a, ?n 2 a]) = Inr (?C [b \<mapsto> q] 2 [?n 2 a, ?n 2 b])"
    using assms(3) by (simp add: S)
  let ?new = "NewCachedClient 2"
  have new: "LookUpCache ?new x = None" for x by (simp add: LookUpCache_def NewCachedClient_def)
  have miss: "lookup_step answers (?new, w) (?new, add_mset (x, y) w)" if "answers x y" for x y w
    by (rule lookup_miss [where answers = answers, OF new that])
  let ?w = "add_mset (a, p) (add_mset (a, p) (add_mset (b, q) {#}))"
  have "(lookup_step answers)\<^sup>*\<^sup>* (?new, {#}) (?new, ?w)"
    using miss [OF assms(2), of "{#}"] miss [OF assms(1), of "{#(b, q)#}"] miss [OF assms(1), of "{#(a, p), (b, q)#}"]
    by (meson rtranclp.rtrancl_into_rtrancl rtranclp.rtrancl_refl)
  also have "(lookup_step answers)\<^sup>*\<^sup>* (?new, ?w) (?C [b \<mapsto> q] 2 [?n 2 a, ?n 2 b], {#})"
    using lookup_store [OF s1, of answers "{#(a, p), (b, q)#}"] lookup_store [OF s2, of answers "{#(b, q)#}"]
      lookup_store [OF s3, of answers "{#}"] by (meson converse_rtranclp_into_rtranclp rtranclp.rtrancl_refl)
  finally have "(lookup_step answers)\<^sup>*\<^sup>* (?new, {#}) (?C [b \<mapsto> q] 2 [?n 2 a, ?n 2 b], {#})" .
  then show ?thesis by (intro exI conjI) (assumption, auto)
qed

text \<open>A cache that may have no entries fails at the first profile.\<close>

theorem LookUpUserProfile_no_cache:
  assumes "m \<le> 0" "service a = Inr p"
  shows "LookUpUserProfile service now a (NewCachedClient m) = (NewCachedClient m, Inl (Panic ''index out of range''))"
  using assms by (simp add: LookUpUserProfile_def LookUpCache_def NewCachedClient_def store_profile_def evict_oldest_def heap_Pop_def)

section \<open>Witnesses\<close>

definition sample_profile :: UserProfile where "sample_profile = \<lparr> up_UserName = ''u'', up_ProfileID = 1 \<rparr>"

lemma heap_one: "heap_up AddrHeap_Less AddrHeap_Swap h 0 = h" by (subst heap_up.simps) simp

theorem lookup_steps_bounded_witness:
  "\<exists>cc'. store_profile 7 5 sample_profile (NewCachedClient 1) = Inr cc' \<and> LookUpCache cc' 5 = Some sample_profile"
proof -
  have "lookup_step (\<lambda>a p. True) (NewCachedClient 1, {#}) (NewCachedClient 1, {#(5, sample_profile)#})"
    by (intro lookup_miss) (simp_all add: LookUpCache_def NewCachedClient_def)
  then have "(lookup_step (\<lambda>a p. True))\<^sup>*\<^sup>* (NewCachedClient 1, {#}) (NewCachedClient 1, {#(5, sample_profile)#})" by simp
  from lookup_steps_bounded [OF _ this, of 5 sample_profile 7] show ?thesis by simp
qed

theorem LookUpUserProfile_evicts_witness:
  "\<exists>cc'. LookUpUserProfile (\<lambda>a. Inr sample_profile) 4 6 (lookups (\<lambda>a. Inr sample_profile) [(3, 5)] (NewCachedClient 1)) =
     (cc', Inr sample_profile) \<and> cc_cached cc' = [6 \<mapsto> sample_profile]"
proof -
  have l: "lookups (\<lambda>a. Inr sample_profile) [(3, 5)] (NewCachedClient 1) =
      \<lparr> cc_cached = [5 \<mapsto> sample_profile], cc_MaxCacheSize = 1, cc_cacheSize = 1, cc_minHeap = [\<lparr> an_Timestamp = 3, an_Addr = 5 \<rparr>] \<rparr>"
    by (simp add: lookups_def LookUpUserProfile_def LookUpCache_def NewCachedClient_def store_profile_def evict_oldest_def cache_profile_def
        heap_Push_def AddrHeap_Push_def heap_one)
  have "LookUpCache (lookups (\<lambda>a. Inr sample_profile) [(3, 5)] (NewCachedClient 1)) 6 = None" unfolding l by (simp add: LookUpCache_def)
  from LookUpUserProfile_evicts [OF _ refl this, of sample_profile 4] show ?thesis unfolding l by auto
qed

theorem lookup_steps_double_witness:
  "\<exists>cc. (lookup_step (\<lambda>a p. True))\<^sup>*\<^sup>* (NewCachedClient 2, {#}) (cc, {#}) \<and> cc_cacheSize cc = 2 \<and> dom (cc_cached cc) = {6} \<and>
     an_Addr ` set (cc_minHeap cc) = {5, 6}"
  by (rule lookup_steps_double) simp_all

theorem LookUpUserProfile_no_cache_witness:
  "LookUpUserProfile (\<lambda>a. Inr sample_profile) 1 5 (NewCachedClient 0) = (NewCachedClient 0, Inl (Panic ''index out of range''))"
  by (rule LookUpUserProfile_no_cache) simp_all

end
