(* ===== verification/ReserveNode.thy ===== *)
theory ReserveNode
  imports RateCrawlProps
begin

text \<open>
  What the crawler of reserve rates asks of the node: the tokens of a reserve, \<open>lib/blockchain/reserve_tokens_getter.go\<close>,
  and the rates, \<open>lib/contracts/version_wrapper.go\<close> with its fallback \<open>version_wrapper_fallback.go\<close>. The calls of the
  contracts are parameters; a block that is not given is the latest one. The constructors of the contracts fail only
  if a constant ABI cannot be parsed.
\<close>

section \<open>The contracts\<close>

record reserve_node =
  rn_ConversionRatesContract :: "addr \<Rightarrow> nat \<Rightarrow> addr go"
  rn_GetListedTokens :: "addr \<Rightarrow> nat \<Rightarrow> addr list go"
  rn_GetConversionRate :: "addr \<Rightarrow> nat \<Rightarrow> addr \<Rightarrow> addr \<Rightarrow> int go"
  rn_SanityRatesContract :: "addr \<Rightarrow> nat \<Rightarrow> addr go"
  rn_GetSanityRate :: "addr \<Rightarrow> nat \<Rightarrow> addr \<Rightarrow> addr \<Rightarrow> int go"
  rn_wrapper :: "addr \<Rightarrow> int option \<Rightarrow> addr \<Rightarrow> addr list \<Rightarrow> addr list \<Rightarrow> (int list \<times> int list) go"

section \<open>The tokens of a reserve\<close>

definition supportedTokens :: "reserve_node \<Rightarrow> addr \<Rightarrow> nat \<Rightarrow> addr list go" where
  "supportedTokens N rsvAddr block =
     go_bind (rn_ConversionRatesContract N rsvAddr block) (\<lambda>conversionRatesAddr. rn_GetListedTokens N conversionRatesAddr block)"

definition Tokens :: "reserve_node \<Rightarrow> (addr \<Rightarrow> string go) \<Rightarrow> addr \<Rightarrow> nat \<Rightarrow> (addr \<times> string) list go" where
  "Tokens N symbolResolver reserve block =
     go_bind (supportedTokens N reserve block) (go_map (\<lambda>a. go_bind (symbolResolver a) (\<lambda>symbol. Inr (a, symbol))))"

section \<open>The wrapper contracts\<close>

definition wrapperAddrV1 :: addr where "wrapperAddrV1 = 0x533e6d1ffa2b96cf9c157475c76c38d1b13bc584"
definition wrapperAddrV2 :: addr where "wrapperAddrV2 = 0x6172AFC8c00c46E0D07ce3AF203828198194620a"
definition wrapperAddrV3 :: addr where "wrapperAddrV3 = 0x221CA93C327eDe7d8f9296E2a790905CD7021105"
definition startingBlockV2 :: nat where "startingBlockV2 = 5926056"
definition startingBlockV3 :: nat where "startingBlockV3 = 11274743"

definition wrapper_GetReserveRate :: "reserve_node \<Rightarrow> nat \<Rightarrow> addr \<Rightarrow> addr list \<Rightarrow> addr list \<Rightarrow> (int list \<times> int list) go" where
  "wrapper_GetReserveRate N block rsvAddr srcs dsts =
     (if block = 0 then rn_wrapper N wrapperAddrV3 None rsvAddr srcs dsts
      else if startingBlockV2 \<le> block \<and> block < startingBlockV3 then rn_wrapper N wrapperAddrV2 (Some (i64 (int block))) rsvAddr srcs dsts
      else if startingBlockV3 \<le> block then rn_wrapper N wrapperAddrV3 (Some (i64 (int block))) rsvAddr srcs dsts
      else rn_wrapper N wrapperAddrV1 (Some (i64 (int block))) rsvAddr srcs dsts)"

section \<open>The fallback\<close>

definition revertErrors :: "go_err set" where
  "revertErrors = {Err ''abi: unmarshalling empty output'', Err ''VM execution error.''}"

definition isRevertError :: "go_err \<Rightarrow> bool" where
  "isRevertError e \<longleftrightarrow> e \<in> revertErrors"

text \<open>A call whose exception counts as a rate of zero.\<close>

definition zero_on_revert :: "int go \<Rightarrow> int go" where
  "zero_on_revert r = (case r of Inl e \<Rightarrow> if isRevertError e then Inr 0 else Inl e | Inr x \<Rightarrow> Inr x)"

text \<open>The goroutine of one pair of tokens.\<close>

definition pair_rate :: "reserve_node \<Rightarrow> nat \<Rightarrow> addr \<Rightarrow> addr \<Rightarrow> addr \<Rightarrow> (int \<times> int) go" where
  "pair_rate N block rsvAddr src dst =
     go_bind (zero_on_revert (rn_GetConversionRate N rsvAddr block src dst)) (\<lambda>rate.
     go_bind (rn_SanityRatesContract N rsvAddr block) (\<lambda>sanityRateAddr.
     go_bind (if sanityRateAddr \<noteq> 0 then zero_on_revert (rn_GetSanityRate N sanityRateAddr block src dst) else Inr 0) (\<lambda>sanityRate.
       Inr (rate, sanityRate))))"

text \<open>
  The group of goroutines: they end in the order \<open>order\<close>, each with its result under its index in the maps, and the
  first error is the one of the group. All of them run to the end.
\<close>

fun first_error :: "(nat \<Rightarrow> 'a go) \<Rightarrow> nat list \<Rightarrow> go_err option" where
  "first_error f [] = None"
| "first_error f (i # is') = (case f i of Inl e \<Rightarrow> Some e | Inr x \<Rightarrow> first_error f is')"

fun collect :: "(nat \<Rightarrow> 'a go) \<Rightarrow> nat list \<Rightarrow> (nat \<rightharpoonup> 'a) \<Rightarrow> (nat \<rightharpoonup> 'a)" where
  "collect f [] m = m"
| "collect f (i # is') m = collect f is' (case f i of Inl e \<Rightarrow> m | Inr x \<Rightarrow> m(i \<mapsto> x))"

definition getReserveRateFallback :: "reserve_node \<Rightarrow> (nat \<Rightarrow> nat list) \<Rightarrow> nat \<Rightarrow> addr \<Rightarrow> addr list \<Rightarrow> addr list
    \<Rightarrow> (int option list \<times> int option list) go" where
  "getReserveRateFallback N order block rsvAddr srcs dsts =
     (if length srcs \<noteq> length dsts then Inl (Err ''sources, destinations length are not equal'')
      else
        let call = (\<lambda>i. pair_rate N block rsvAddr (srcs ! i) (dsts ! i)); finished = order (length srcs)
        in (case first_error call finished of
              Some e \<Rightarrow> Inl e
            | None \<Rightarrow>
                let results = collect call finished Map.empty
                in Inr (map (\<lambda>i. map_option fst (results i)) [0..<length srcs], map (\<lambda>i. map_option snd (results i)) [0..<length srcs])))"

definition node_GetReserveRate :: "reserve_node \<Rightarrow> (nat \<Rightarrow> nat list) \<Rightarrow> nat \<Rightarrow> addr \<Rightarrow> addr list \<Rightarrow> addr list
    \<Rightarrow> (int option list \<times> int option list) go" where
  "node_GetReserveRate N order block rsvAddr srcs dsts =
     (case wrapper_GetReserveRate N block rsvAddr srcs dsts of
        Inl e \<Rightarrow> if isRevertError e then getReserveRateFallback N order block rsvAddr srcs dsts else Inl e
      | Inr (rates, sanityRates) \<Rightarrow> Inr (map Some rates, map Some sanityRates))"

text \<open>The crawler that uses them.\<close>

definition node_crawler :: "reserve_node \<Rightarrow> (addr \<Rightarrow> string go) \<Rightarrow> (nat \<Rightarrow> nat list) \<Rightarrow> (addr \<Rightarrow> string) \<Rightarrow> rates_crawler" where
  "node_crawler N symbolResolver order Hex =
     \<lparr> rc_Tokens = Tokens N symbolResolver, rc_GetReserveRate = node_GetReserveRate N order, rc_Hex = Hex \<rparr>"

section \<open>Lemmas\<close>

lemma first_error_None: "first_error f is' = None \<longleftrightarrow> (\<forall>i\<in>set is'. \<exists>x. f i = Inr x)"
  by (induction is') (auto split: sum.splits)

lemma first_error_Some: "first_error f is' = Some e \<Longrightarrow> \<exists>i\<in>set is'. f i = Inl e"
  by (induction is') (auto split: sum.splits)

lemma collect_all:
  "\<forall>i\<in>set is'. f i = Inr (g i) \<Longrightarrow> collect f is' m i = (if i \<in> set is' then Some (g i) else m i)"
  by (induction is' arbitrary: m) auto

text \<open>Each goroutine of the group ends once.\<close>

definition ends_once :: "(nat \<Rightarrow> nat list) \<Rightarrow> bool" where
  "ends_once order \<longleftrightarrow> (\<forall>n. distinct (order n) \<and> set (order n) = {..<n})"

lemma fallback_rates:
  assumes "ends_once order" "length srcs = length dsts"
    and "\<forall>i<length srcs. pair_rate N block rsvAddr (srcs ! i) (dsts ! i) = Inr (rate (srcs ! i) (dsts ! i), sanity (srcs ! i) (dsts ! i))"
  shows "getReserveRateFallback N order block rsvAddr srcs dsts =
    Inr (map2 (\<lambda>s d. Some (rate s d)) srcs dsts, map2 (\<lambda>s d. Some (sanity s d)) srcs dsts)"
proof -
  let ?f = "\<lambda>i. pair_rate N block rsvAddr (srcs ! i) (dsts ! i)"
  let ?g = "\<lambda>i. (rate (srcs ! i) (dsts ! i), sanity (srcs ! i) (dsts ! i))"
  have all: "\<forall>i\<in>set (order (length srcs)). ?f i = Inr (?g i)" using assms(1,3) by (simp add: ends_once_def)
  then have none: "first_error ?f (order (length srcs)) = None" by (auto simp: first_error_None)
  have "collect ?f (order (length srcs)) Map.empty i = Some (?g i)" if "i < length srcs" for i
    using collect_all [OF all, of Map.empty i] assms(1) that by (simp add: ends_once_def)
  then show ?thesis using assms(2) none
    by (auto simp: getReserveRateFallback_def Let_def intro!: nth_equalityI)
qed

text \<open>The rates that the contracts of the reserve give directly, with zero for an exception or without a sanity contract.\<close>

definition direct_rate :: "reserve_node \<Rightarrow> nat \<Rightarrow> addr \<Rightarrow> addr \<Rightarrow> addr \<Rightarrow> int" where
  "direct_rate N block rsvAddr s d = (case rn_GetConversionRate N rsvAddr block s d of Inl e \<Rightarrow> 0 | Inr x \<Rightarrow> x)"

definition direct_sanity :: "reserve_node \<Rightarrow> nat \<Rightarrow> addr \<Rightarrow> addr \<Rightarrow> addr \<Rightarrow> int" where
  "direct_sanity N block sc s d = (if sc = 0 then 0 else case rn_GetSanityRate N sc block s d of Inl e \<Rightarrow> 0 | Inr x \<Rightarrow> x)"

definition only_reverts :: "int go \<Rightarrow> bool" where
  "only_reverts r \<longleftrightarrow> (case r of Inl e \<Rightarrow> isRevertError e | Inr x \<Rightarrow> True)"

lemma pair_rate_direct:
  assumes "rn_SanityRatesContract N rsvAddr block = Inr sc" "only_reverts (rn_GetConversionRate N rsvAddr block s d)"
    "sc = 0 \<or> only_reverts (rn_GetSanityRate N sc block s d)"
  shows "pair_rate N block rsvAddr s d = Inr (direct_rate N block rsvAddr s d, direct_sanity N block sc s d)"
  using assms by (auto simp: pair_rate_def zero_on_revert_def only_reverts_def direct_rate_def direct_sanity_def split: sum.splits)

section \<open>Properties\<close>

text \<open>
  The fallback succeeds exactly if the calls of every pair succeed, and then its lists have the rates of the pairs in
  their order, whatever the order in which the goroutines end; otherwise its error is the one of a pair.
\<close>

theorem getReserveRateFallback_pairs:
  assumes "ends_once order" "length srcs = length dsts"
  shows "(case getReserveRateFallback N order block rsvAddr srcs dsts of
      Inl e \<Rightarrow> \<exists>i<length srcs. pair_rate N block rsvAddr (srcs ! i) (dsts ! i) = Inl e
    | Inr (rates, sanityRates) \<Rightarrow> length rates = length srcs \<and> length sanityRates = length srcs \<and>
        (\<forall>i<length srcs. \<exists>r s. pair_rate N block rsvAddr (srcs ! i) (dsts ! i) = Inr (r, s) \<and> rates ! i = Some r \<and> sanityRates ! i = Some s))"
proof (cases "first_error (\<lambda>i. pair_rate N block rsvAddr (srcs ! i) (dsts ! i)) (order (length srcs))")
  case (Some e)
  with first_error_Some [OF Some] assms show ?thesis by (auto simp: getReserveRateFallback_def ends_once_def)
next
  case None
  let ?f = "\<lambda>i. pair_rate N block rsvAddr (srcs ! i) (dsts ! i)" and ?g = "\<lambda>i. case pair_rate N block rsvAddr (srcs ! i) (dsts ! i) of Inr x \<Rightarrow> x"
  from None have all: "\<forall>i\<in>set (order (length srcs)). ?f i = Inr (?g i)" by (auto simp: first_error_None)
  have c: "collect ?f (order (length srcs)) Map.empty i = Some (?g i)" "?f i = Inr (?g i)" if "i < length srcs" for i
    using collect_all [OF all, of Map.empty i] all assms(1) that by (simp_all add: ends_once_def)
  have "getReserveRateFallback N order block rsvAddr srcs dsts = Inr (map (\<lambda>i. Some (fst (?g i))) [0..<length srcs], map (\<lambda>i. Some (snd (?g i))) [0..<length srcs])"
    using c(1) None assms(2) by (simp add: getReserveRateFallback_def Let_def)
  then show ?thesis using c(2) by (simp add: prod_eq_iff)
qed

text \<open>
  C22: At a block at which the wrapper contract throws an exception, the crawler still has the entry of every listed token of
  the reserve, in both directions, with the rates that the contracts of the reserve give.
\<close>

theorem crawl_with_fallback:
  assumes "ends_once order" "\<forall>srcs dsts. \<exists>e. wrapper_GetReserveRate N block rsv srcs dsts = Inl e \<and> isRevertError e"
    and "Tokens N symbolResolver rsv block = Inr tokens" "distinct (map snd tokens)"
    and "rn_SanityRatesContract N rsv block = Inr sc" "\<forall>s d. only_reverts (rn_GetConversionRate N rsv block s d)"
    and "sc = 0 \<or> (\<forall>s d. only_reverts (rn_GetSanityRate N sc block s d))"
  shows "\<exists>rates. getEachReserveRate (node_crawler N symbolResolver order Hex) block rsv = Inr (Some rates) \<and>
    (\<forall>(a, symbol)\<in>set tokens. map_of rates (''ETH-'' @ symbol) =
       Some \<lparr> BuyReserveRate = fromWeiETH (Some (direct_rate N block rsv ETHAddr a)),
              BuySanityRate = fromWeiETH (Some (direct_sanity N block sc ETHAddr a)),
              SellReserveRate = fromWeiETH (Some (direct_rate N block rsv a ETHAddr)),
              SellSanityRate = fromWeiETH (Some (direct_sanity N block sc a ETHAddr)) \<rparr>)"
proof -
  let ?srcs = "concat (map (\<lambda>(a, s :: string). [a, ETHAddr]) tokens)" and ?dsts = "concat (map (\<lambda>(a, s :: string). [ETHAddr, a]) tokens)"
  let ?rate = "\<lambda>s d. Some (direct_rate N block rsv s d)" and ?sanity = "\<lambda>s d. Some (direct_sanity N block sc s d)"
  have pair: "pair_rate N block rsv s d = Inr (direct_rate N block rsv s d, direct_sanity N block sc s d)" for s d
    using assms(5-7) by (intro pair_rate_direct) auto
  have "length ?srcs = length ?dsts" by (simp add: length_concat comp_def split_beta')
  with fallback_rates [OF assms(1) this, of N block rsv "direct_rate N block rsv" "direct_sanity N block sc"] pair
  have fb: "getReserveRateFallback N order block rsv ?srcs ?dsts = Inr (query_rates ?rate ?srcs ?dsts, query_rates ?sanity ?srcs ?dsts)"
    by (simp add: query_rates_def)
  obtain e where "wrapper_GetReserveRate N block rsv ?srcs ?dsts = Inl e" "isRevertError e" using assms(2) by blast
  with fb have "rc_GetReserveRate (node_crawler N symbolResolver order Hex) block rsv ?srcs ?dsts =
      Inr (query_rates ?rate ?srcs ?dsts, query_rates ?sanity ?srcs ?dsts)"
    by (simp add: node_crawler_def node_GetReserveRate_def)
  moreover have "rc_Tokens (node_crawler N symbolResolver order Hex) rsv block = Inr tokens"
    using assms(3) by (simp add: node_crawler_def)
  ultimately show ?thesis
    using rate_entries_answer [of tokens "[]" tokens ?rate ?sanity "[]"] assms(4)
    by (auto simp: getEachReserveRate_def query_rates_pairs Let_def token_entry_def)
qed

section \<open>Witnesses\<close>

definition sample_reserve_node :: reserve_node where
  "sample_reserve_node = \<lparr> rn_ConversionRatesContract = (\<lambda>a b. Inr 2), rn_GetListedTokens = (\<lambda>a b. Inr [5]),
     rn_GetConversionRate = (\<lambda>a b s d. if s = ETHAddr then Inr 3 else Inl (Err ''VM execution error.'')),
     rn_SanityRatesContract = (\<lambda>a b. Inr 0), rn_GetSanityRate = (\<lambda>a b s d. Inr 1),
     rn_wrapper = (\<lambda>w b a s d. Inl (Err ''abi: unmarshalling empty output'')) \<rparr>"

lemma rev_ends_once: "ends_once (\<lambda>n. rev [0..<n])"
  by (auto simp: ends_once_def)

theorem getReserveRateFallback_pairs_witness:
  "\<exists>rates sanityRates. getReserveRateFallback sample_reserve_node (\<lambda>n. rev [0..<n]) 6000000 1 [5, ETHAddr] [ETHAddr, 5] = Inr (rates, sanityRates) \<and>
     rates ! 0 = Some 0 \<and> rates ! 1 = Some 3"
proof -
  have "5 \<noteq> ETHAddr" by (simp add: ETHAddr_def)
  then have p: "pair_rate sample_reserve_node 6000000 1 5 ETHAddr = Inr (0, 0)" "pair_rate sample_reserve_node 6000000 1 ETHAddr 5 = Inr (3, 0)"
    by (simp_all add: pair_rate_def sample_reserve_node_def zero_on_revert_def isRevertError_def revertErrors_def)
  from getReserveRateFallback_pairs [OF rev_ends_once, of "[5, ETHAddr]" "[ETHAddr, 5]" sample_reserve_node 6000000 1]
  show ?thesis by (auto simp: p less_Suc_eq numeral_2_eq_2 split: sum.splits)
qed

theorem crawl_with_fallback_witness:
  "\<exists>rates. getEachReserveRate (node_crawler sample_reserve_node (\<lambda>a. Inr ''KNC'') (\<lambda>n. rev [0..<n]) (\<lambda>a. ''0x'')) 6000000 1 = Inr (Some rates) \<and>
     map_option BuyReserveRate (map_of rates ''ETH-KNC'') = Some (fromWeiETH (Some 3)) \<and>
     map_option SellReserveRate (map_of rates ''ETH-KNC'') = Some (fromWeiETH (Some 0))"
proof -
  have w: "\<forall>srcs dsts. \<exists>e. wrapper_GetReserveRate sample_reserve_node 6000000 1 srcs dsts = Inl e \<and> isRevertError e"
    by (simp add: wrapper_GetReserveRate_def sample_reserve_node_def isRevertError_def revertErrors_def)
  have t: "Tokens sample_reserve_node (\<lambda>a. Inr ''KNC'') 1 6000000 = Inr [(5, ''KNC'')]"
    by (simp add: Tokens_def supportedTokens_def sample_reserve_node_def)
  have s: "rn_SanityRatesContract sample_reserve_node 1 6000000 = Inr 0" by (simp add: sample_reserve_node_def)
  have r: "\<forall>s d. only_reverts (rn_GetConversionRate sample_reserve_node 1 6000000 s d)"
    by (simp add: only_reverts_def sample_reserve_node_def isRevertError_def revertErrors_def)
  have "5 \<noteq> ETHAddr" by (simp add: ETHAddr_def)
  with crawl_with_fallback [OF rev_ends_once w t _ s r, of "\<lambda>a. ''0x''"] show ?thesis
    by (auto simp: direct_rate_def sample_reserve_node_def)
qed

end
