(* ===== verification/TokenSymbols.thy ===== *)
theory TokenSymbols
  imports TradeLoad CrawlPlanner "HOL-Library.Sublist"
begin

text \<open>
  The symbols, names and decimals of tokens, \<open>lib/blockchain/token_info.go\<close>: from the caches, the storage of tokens or
  the contracts of the tokens; and the crawler of the reserves of each token, \<open>tokeninfo/reserve_crawler.go\<close>. The
  contracts are parameters. \<open>token_storage\<close> is the interface of the storage, which the table of tokens of the theory
  \<open>TradeLoad\<close> provides. A text of an address in the calls of the storage is the address.
\<close>

section \<open>TokenInfoGetter\<close>

record TokenInfoGetter =
  tg_cachedSymbol :: "addr \<rightharpoonup> string"
  tg_cachedName :: "addr \<rightharpoonup> string"
  tg_cachedDecimals :: "addr \<rightharpoonup> nat"

text \<open>The contracts \<open>ERC20\<close> and \<open>ERC20Type2\<close>, whose symbol and name are 32 bytes.\<close>

record info_contracts =
  tc_Symbol :: "addr \<Rightarrow> string go"
  tc_Symbol32 :: "addr \<Rightarrow> byte list go"
  tc_Name :: "addr \<Rightarrow> string go"
  tc_Name32 :: "addr \<Rightarrow> byte list go"
  tc_Decimals :: "addr \<Rightarrow> nat go"

text \<open>The storage of tokens; the first argument of a call is its failure.\<close>

record 's token_ops =
  to_GetTokenSymbol :: "go_err option \<Rightarrow> 's \<Rightarrow> addr \<Rightarrow> string go"
  to_UpdateTokens :: "go_err option \<Rightarrow> 's \<Rightarrow> addr list \<Rightarrow> string list \<Rightarrow> 's \<times> go_err option"

definition cachedSymbols :: "Deployment \<Rightarrow> (addr \<rightharpoonup> string)" where
  "cachedSymbols d =
     (case d of
        Production \<Rightarrow> [ETHAddr \<mapsto> ''ETH'', BQXAddr \<mapsto> ''BQX'', OSTAddr \<mapsto> ''OST'', SAIAddr \<mapsto> ''SAI'']
      | Staging \<Rightarrow> [ETHAddr \<mapsto> ''ETH'', SAIAddr \<mapsto> ''SAI'']
      | Ropsten \<Rightarrow> Map.empty)"

definition cachedName :: "addr \<rightharpoonup> string" where
  "cachedName = [0x86Fa049857E0209aa7D9e616F7eb3b3B78ECfdb0 \<mapsto> ''EOS Token'']"

definition NewTokenSymbol :: "(addr \<rightharpoonup> string) \<Rightarrow> TokenInfoGetter" where
  "NewTokenSymbol symbols = \<lparr> tg_cachedSymbol = symbols, tg_cachedName = cachedName, tg_cachedDecimals = Map.empty \<rparr>"

fun error_text :: "go_err \<Rightarrow> string" where
  "error_text (Err m) = m"
| "error_text (Panic m) = m"

text \<open>The loop over the functions: an error with the text of the decoder of ABIs passes on to the next one.\<close>

fun getNameOrSymbol :: "string go \<Rightarrow> (addr \<Rightarrow> string go) list \<Rightarrow> addr \<Rightarrow> string go" where
  "getNameOrSymbol result [] address = result"
| "getNameOrSymbol result (fn # fns) address =
     (case fn address of
        Inl e \<Rightarrow> if sublist ''abi: cannot marshal'' (error_text e) then getNameOrSymbol (Inl e) fns address else Inl e
      | Inr s \<Rightarrow> Inr s)"

definition bytes32ToString :: "byte list \<Rightarrow> string" where
  "bytes32ToString input = map (\<lambda>b. char_of (unat b)) (takeWhile (\<lambda>b. b \<noteq> 0) input)"

definition getSymbolFns :: "info_contracts \<Rightarrow> (addr \<Rightarrow> string go) list" where
  "getSymbolFns N = [tc_Symbol N, \<lambda>a. go_bind (tc_Symbol32 N a) (\<lambda>symbols. Inr (bytes32ToString symbols))]"

definition getNameFns :: "info_contracts \<Rightarrow> (addr \<Rightarrow> string go) list" where
  "getNameFns N = [tc_Name N, \<lambda>a. go_bind (tc_Name32 N a) (\<lambda>name2. Inr (bytes32ToString name2))]"

definition upper :: "string \<Rightarrow> string" where
  "upper = map (\<lambda>c. let n = of_char c :: nat in if 97 \<le> n \<and> n \<le> 122 then char_of (n - 32) else c)"

definition put_symbol :: "addr \<Rightarrow> string \<Rightarrow> TokenInfoGetter \<Rightarrow> TokenInfoGetter" where
  "put_symbol a s t = t\<lparr> tg_cachedSymbol := (tg_cachedSymbol t)(a \<mapsto> s) \<rparr>"

text \<open>\<open>read\<close> and \<open>write\<close> are the failures of the calls of the storage, whose errors are only logged.\<close>

definition symbol_from_contract :: "'s token_ops option \<Rightarrow> info_contracts \<Rightarrow> go_err option \<Rightarrow> addr \<Rightarrow> TokenInfoGetter \<times> 's
    \<Rightarrow> (TokenInfoGetter \<times> 's) \<times> string go" where
  "symbol_from_contract S N write address = (\<lambda>(t, st).
     (case getNameOrSymbol (Inr '''') (getSymbolFns N) address of
        Inl e \<Rightarrow> ((t, st), Inl e)
      | Inr s \<Rightarrow>
          let symbol = upper s in
          ((put_symbol address symbol t,
            (case S of None \<Rightarrow> st | Some ops \<Rightarrow> fst (to_UpdateTokens ops write st [address] [symbol]))), Inr symbol)))"

definition Symbol :: "'s token_ops option \<Rightarrow> info_contracts \<Rightarrow> go_err option \<Rightarrow> go_err option \<Rightarrow> addr \<Rightarrow> TokenInfoGetter \<times> 's
    \<Rightarrow> (TokenInfoGetter \<times> 's) \<times> string go" where
  "Symbol S N read write address = (\<lambda>(t, st).
     (case tg_cachedSymbol t address of
        Some symbol \<Rightarrow> ((t, st), Inr symbol)
      | None \<Rightarrow>
          (case S of
             None \<Rightarrow> symbol_from_contract S N write address (t, st)
           | Some ops \<Rightarrow>
               (case to_GetTokenSymbol ops read st address of
                  Inl e \<Rightarrow> symbol_from_contract S N write address (t, st)
                | Inr symbol \<Rightarrow>
                    if symbol \<noteq> '''' then ((put_symbol address symbol t, st), Inr symbol)
                    else symbol_from_contract S N write address (t, st)))))"

definition Decimals :: "info_contracts \<Rightarrow> addr \<Rightarrow> TokenInfoGetter \<Rightarrow> TokenInfoGetter \<times> nat go" where
  "Decimals N address t =
     (case tg_cachedDecimals t address of
        Some d \<Rightarrow> (t, Inr d)
      | None \<Rightarrow> (case tc_Decimals N address of
          Inl e \<Rightarrow> (t, Inl e)
        | Inr d \<Rightarrow> (t\<lparr> tg_cachedDecimals := (tg_cachedDecimals t)(address \<mapsto> d) \<rparr>, Inr d)))"

definition Name :: "info_contracts \<Rightarrow> addr \<Rightarrow> TokenInfoGetter \<Rightarrow> TokenInfoGetter \<times> string go" where
  "Name N address t =
     (case tg_cachedName t address of
        Some name \<Rightarrow> (t, Inr name)
      | None \<Rightarrow> (case getNameOrSymbol (Inr '''') (getNameFns N) address of
          Inl e \<Rightarrow> (t, Inl e)
        | Inr name \<Rightarrow> (t\<lparr> tg_cachedName := (tg_cachedName t)(address \<mapsto> name) \<rparr>, Inr name)))"

section \<open>The reserves of the tokens\<close>

record ReserveInfo =
  rsi_Name :: string
  rsi_Address :: addr

definition reserveNames :: "addr \<rightharpoonup> string" where "reserveNames = Map.empty"

definition emptyErrMsg :: string where "emptyErrMsg = ''abi: unmarshalling empty output''"

text \<open>The loop that reads the reserves of a token; \<open>None\<close> is a loop that does not end.\<close>

partial_function (option) token_reserves :: "(nat \<Rightarrow> addr go) \<Rightarrow> nat \<Rightarrow> addr set \<Rightarrow> addr set go option" where
  "token_reserves ReservesPerTokenSrc i reserveAddrs =
     (case ReservesPerTokenSrc i of
        Inl e \<Rightarrow> if error_text e = emptyErrMsg then Some (Inr reserveAddrs) else Some (Inl e)
      | Inr a \<Rightarrow> token_reserves ReservesPerTokenSrc (i + 1) (insert a reserveAddrs))"

text \<open>\<open>order\<close> is the order in which the map of the reserves of a token is read.\<close>

definition reserve_infos :: "(addr set \<Rightarrow> addr list) \<Rightarrow> addr set \<Rightarrow> ReserveInfo list" where
  "reserve_infos order reserveAddrs =
     map (\<lambda>a. \<lparr> rsi_Name = (case reserveNames a of None \<Rightarrow> '''' | Some n \<Rightarrow> n), rsi_Address = a \<rparr>) (order reserveAddrs)"

fun Fetch :: "(addr \<Rightarrow> nat \<Rightarrow> addr go) \<Rightarrow> (addr set \<Rightarrow> addr list) \<Rightarrow> (string \<times> addr) list \<Rightarrow> (string \<rightharpoonup> ReserveInfo list)
    \<Rightarrow> (string \<rightharpoonup> ReserveInfo list) go option" where
  "Fetch ReservesPerTokenSrc order [] result = Some (Inr result)"
| "Fetch ReservesPerTokenSrc order ((name, a) # tokens) result =
     (case token_reserves (ReservesPerTokenSrc a) 0 {} of
        None \<Rightarrow> None
      | Some (Inl e) \<Rightarrow> Some (Inl e)
      | Some (Inr rs) \<Rightarrow> Fetch ReservesPerTokenSrc order tokens (result(name \<mapsto> reserve_infos order rs)))"

section \<open>The storage of tokens\<close>

locale token_storage =
  fixes get :: "go_err option \<Rightarrow> 's \<Rightarrow> addr \<Rightarrow> string go"
    and update :: "go_err option \<Rightarrow> 's \<Rightarrow> addr list \<Rightarrow> string list \<Rightarrow> 's \<times> go_err option"
  assumes get_updated: "update w s [a] [x] = (s', None) \<Longrightarrow> get None s' a = Inr x"
    and get_other: "update w s [a] [x] = (s', e) \<Longrightarrow> b \<noteq> a \<Longrightarrow> get r s' b = get r s b"
    and get_read: "get r s a = Inr x \<Longrightarrow> get None s a = Inr x"
begin

abbreviation ops :: "'s token_ops" where "ops \<equiv> \<lparr> to_GetTokenSymbol = get, to_UpdateTokens = update \<rparr>"

text \<open>A symbol in the storage stays the same whatever symbols the getters ask for.\<close>

lemma Symbol_keeps_stored:
  assumes "Symbol (Some ops) N r w b (t, st) = ((t', st'), res)" "get None st a = Inr s" "s \<noteq> ''''" "b = a \<longrightarrow> r = None"
  shows "get None st' a = Inr s"
proof -
  consider "st' = st" | x where "st' = fst (update w st [b] [x])" "b \<noteq> a"
    using assms by (cases "b = a")
      (auto simp: Symbol_def symbol_from_contract_def Let_def split: option.splits sum.splits if_splits)
  then show ?thesis
  proof cases
    case (2 x)
    from get_other [of w st b x st' "snd (update w st [b] [x])" a None] 2 assms(2) show ?thesis by simp
  qed (simp add: assms(2))
qed

text \<open>A symbol that was found and stored is the one of a new getter, whatever the contracts answer to it.\<close>

lemma Symbol_restart:
  assumes "tg_cachedSymbol t a = None" "Symbol (Some ops) N r w a (t, st) = ((t', st'), Inr s)" "s \<noteq> ''''"
    and "snd (update w st [a] [s]) = None" "tg_cachedSymbol t2 a = None"
  shows "get None st' a = Inr s \<and> snd (Symbol (Some ops) N2 None w2 a (t2, st')) = Inr s"
proof -
  consider "st' = st" "get r st a = Inr s" | "update w st [a] [s] = (st', None)"
    using assms by (cases "update w st [a] [s]")
      (auto simp: Symbol_def symbol_from_contract_def Let_def split: option.splits sum.splits if_splits)
  then have "get None st' a = Inr s"
    by cases (simp add: get_read, rule get_updated)
  with assms(3,5) show ?thesis by (simp add: Symbol_def)
qed

end

text \<open>The table of tokens of the trade logs.\<close>

definition postgres_tokens :: "token_table token_ops" where
  "postgres_tokens = \<lparr> to_GetTokenSymbol = (\<lambda>e rows a. GetTokenSymbol e a rows), to_UpdateTokens = (\<lambda>e rows ts ss. UpdateTokens e ts ss rows) \<rparr>"

interpretation token_db: token_storage "\<lambda>e rows a. GetTokenSymbol e a rows" "\<lambda>e rows ts ss. UpdateTokens e ts ss rows"
proof
  show "GetTokenSymbol None a s' = Inr x" if "UpdateTokens w [a] [x] s = (s', None)" for w s a x s'
    using that by (auto simp: UpdateTokens_def GetTokenSymbol_def map_of_upsert_symbol split: option.splits)
  show "GetTokenSymbol r b s' = GetTokenSymbol r b s" if "UpdateTokens w [a] [x] s = (s', e)" "b \<noteq> a" for w s a x s' e b r
    using that by (auto simp: UpdateTokens_def GetTokenSymbol_def map_of_upsert_symbol split: option.splits)
  show "GetTokenSymbol None a s = Inr x" if "GetTokenSymbol r a s = Inr x" for r a s x
    using that by (auto simp: GetTokenSymbol_def split: option.splits)
qed

section \<open>Lemmas\<close>

lemma Symbol_caches:
  assumes "Symbol S N r w a (t, st) = ((t', st'), Inr s)"
  shows "tg_cachedSymbol t' a = Some s"
  using assms by (auto simp: Symbol_def symbol_from_contract_def put_symbol_def Let_def split: option.splits sum.splits if_splits)

lemma Symbol_keeps_cached:
  assumes "tg_cachedSymbol t a = Some s"
  shows "tg_cachedSymbol (fst (fst (Symbol S N r w b (t, st)))) a = Some s"
  using assms by (auto simp: Symbol_def symbol_from_contract_def put_symbol_def Let_def split: option.splits sum.splits if_splits)

text \<open>A sequence of calls, each with its own answers of the contracts and its own state of the storage.\<close>

definition symbol_calls :: "'s token_ops option \<Rightarrow> (info_contracts \<times> go_err option \<times> go_err option \<times> addr \<times> 's) list \<Rightarrow> TokenInfoGetter \<Rightarrow> TokenInfoGetter" where
  "symbol_calls S cs t = fold (\<lambda>(N, r, w, a, st) t. fst (fst (Symbol S N r w a (t, st)))) cs t"

lemma symbol_calls_cached: "tg_cachedSymbol t a = Some s \<Longrightarrow> tg_cachedSymbol (symbol_calls S cs t) a = Some s"
proof (induction cs arbitrary: t)
  case (Cons c cs)
  obtain N r w b st where c: "c = (N, r, w, b, st)" by (cases c)
  from Cons.IH [OF Symbol_keeps_cached [OF Cons.prems, of S N r w b st]] show ?case by (simp add: symbol_calls_def c)
qed (simp add: symbol_calls_def)

lemma token_reserves_ends:
  assumes "\<forall>k<n. f (i + k) = Inr (rs k)" "f (i + n) = Inl e" "error_text e = emptyErrMsg"
  shows "token_reserves f i acc = Some (Inr (acc \<union> rs ` {..<n}))"
  using assms
proof (induction n arbitrary: i acc rs)
  case 0
  then show ?case by (subst token_reserves.simps) simp
next
  case (Suc n)
  from Suc.prems(1) have "f i = Inr (rs 0)" by force
  moreover have "\<forall>k<n. f (i + 1 + k) = Inr (rs (Suc k))" using Suc.prems(1) by force
  ultimately have "token_reserves f i acc = Some (Inr (insert (rs 0) acc \<union> (\<lambda>k. rs (Suc k)) ` {..<n}))"
    using Suc.IH [of "i + 1" "\<lambda>k. rs (Suc k)" "insert (rs 0) acc"] Suc.prems(2,3) by (subst token_reserves.simps) simp
  moreover have "insert (rs 0) acc \<union> (\<lambda>k. rs (Suc k)) ` {..<n} = acc \<union> rs ` {..<Suc n}"
    by (auto simp: lessThan_Suc_eq_insert_0)
  ultimately show ?case by simp
qed

lemma Fetch_ends:
  assumes "\<forall>(m, b)\<in>set tokens. \<exists>e. (\<forall>k<N b. f b k = Inr (rs b k)) \<and> f b (N b) = Inl e \<and> error_text e = emptyErrMsg"
  shows "Fetch f order tokens result = Some (Inr (result ++ map_of (rev (map (\<lambda>(name, a). (name, reserve_infos order (rs a ` {..<N a}))) tokens))))"
  using assms
proof (induction tokens arbitrary: result)
  case (Cons t tokens)
  obtain name a where t: "t = (name, a)" by (cases t)
  from Cons.prems t obtain e where "\<forall>k<N a. f a k = Inr (rs a k)" "f a (N a) = Inl e" "error_text e = emptyErrMsg" by auto
  with token_reserves_ends [where f = "f a" and i = 0 and n = "N a" and rs = "rs a" and acc = "{}"]
  have "token_reserves (f a) 0 {} = Some (Inr (rs a ` {..<N a}))" by simp
  with Cons show ?case by (simp add: t map_add_upd_left map_add_def fun_eq_iff split: option.split)
qed simp

section \<open>Properties\<close>

text \<open>
  A symbol that was resolved and stored is the one that a new process resolves, whatever the contracts answer to it and
  whatever trades are saved in between.
\<close>

theorem Symbol_survives_restart:
  assumes "tg_cachedSymbol t a = None" "Symbol (Some postgres_tokens) N r None a (t, rows) = ((t', rows'), Inr s)" "s \<noteq> ''''"
    and "tg_cachedSymbol t2 a = None"
  shows "snd (Symbol (Some postgres_tokens) N2 None w2 a (t2, add_tokens us rows')) = Inr s"
proof -
  have "snd (UpdateTokens None [a] [s] rows) = None" by (simp add: UpdateTokens_def)
  with token_db.Symbol_restart [of t a N r None rows t' rows' s t2] assms
  have "GetTokenSymbol None a rows' = Inr s" by (simp add: postgres_tokens_def)
  then have "map_of rows' a = Some (Some s)" using assms(3) by (auto simp: GetTokenSymbol_def split: option.splits)
  from map_of_add_tokens [OF this, of us] have "GetTokenSymbol None a (add_tokens us rows') = Inr s" by (simp add: GetTokenSymbol_def)
  with assms(3,4) show ?thesis by (simp add: Symbol_def postgres_tokens_def)
qed

text \<open>A symbol that was resolved stays the same for the process, whatever is asked and answered later.\<close>

theorem Symbol_remembered:
  assumes "Symbol S N r w a (t, st) = ((t', st'), Inr s)"
  shows "Symbol S N2 r2 w2 a (symbol_calls S cs t', st2) = ((symbol_calls S cs t', st2), Inr s)"
  using symbol_calls_cached [OF Symbol_caches [OF assms], of S cs] by (simp add: Symbol_def)

text \<open>When the read of a stored symbol fails, the symbol is replaced by the one of the contract.\<close>

theorem Symbol_overwrites_stored:
  assumes "tg_cachedSymbol t a = None" "map_of rows a = Some (Some s)" "tc_Symbol N a = Inr x"
  shows "\<exists>t' rows'. Symbol (Some postgres_tokens) N (Some e) None a (t, rows) = ((t', rows'), Inr (upper x)) \<and>
    GetTokenSymbol None a rows' = Inr (upper x)"
proof -
  have "GetTokenSymbol None a (fst (UpdateTokens None [a] [upper x] rows)) = Inr (upper x)"
    by (rule token_db.get_updated [of None]) (simp add: UpdateTokens_def)
  then show ?thesis using assms(1,3)
    by (simp add: Symbol_def symbol_from_contract_def postgres_tokens_def getSymbolFns_def GetTokenSymbol_def Let_def)
qed

text \<open>
  The loop over the reserves of a token ends when the contract has answered for all of them: the result has, for each
  token, its reserves without repetition and without a name.
\<close>

theorem Fetch_reserves:
  assumes "distinct (map fst tokens)" "(name, a) \<in> set tokens"
    and "\<forall>(m, b)\<in>set tokens. \<exists>e. (\<forall>k<N b. f b k = Inr (rs b k)) \<and> f b (N b) = Inl e \<and> error_text e = emptyErrMsg"
    and "\<forall>s. set (order s) = s \<and> distinct (order s)"
  shows "\<exists>result infos. Fetch f order tokens Map.empty = Some (Inr result) \<and> result name = Some infos \<and>
    distinct infos \<and> rsi_Address ` set infos = rs a ` {..<N a} \<and> rsi_Name ` set infos \<subseteq> {''''}"
proof -
  let ?m = "map (\<lambda>(name, a). (name, reserve_infos order (rs a ` {..<N a}))) tokens"
  have "distinct (map fst (rev ?m))" using assms(1) by (simp add: rev_map [symmetric] comp_def split_beta')
  moreover have "(name, reserve_infos order (rs a ` {..<N a})) \<in> set (rev ?m)" using assms(2) by force
  ultimately have "map_of (rev ?m) name = Some (reserve_infos order (rs a ` {..<N a}))" by (rule map_of_is_SomeI)
  moreover have "distinct (reserve_infos order (rs a ` {..<N a}))" "rsi_Address ` set (reserve_infos order (rs a ` {..<N a})) = rs a ` {..<N a}"
    "rsi_Name ` set (reserve_infos order (rs a ` {..<N a})) \<subseteq> {''''}"
    using assms(4) by (auto simp: reserve_infos_def reserveNames_def distinct_map inj_on_def image_image)
  ultimately show ?thesis unfolding Fetch_ends [where f = f and rs = rs and N = N, OF assms(3)] by auto
qed

text \<open>The 32 bytes of a text that is padded with zeros give the text.\<close>

theorem bytes32ToString_padded:
  assumes "\<forall>c\<in>set s. of_char c \<noteq> (0 :: nat)"
  shows "bytes32ToString (map (\<lambda>c. word_of_nat (of_char c)) s @ replicate k 0) = s"
proof -
  have c: "unat (word_of_nat (of_char c) :: byte) = of_char c" for c
  proof -
    have "of_char c < (256 :: nat)" by simp
    then show ?thesis by (simp add: unat_of_nat)
  qed
  have "word_of_nat (of_char c) \<noteq> (0 :: byte)" if "c \<in> set s" for c
    using assms that c [of c] by (metis unat_0)
  then have "takeWhile (\<lambda>b. b \<noteq> 0) (map (\<lambda>c. word_of_nat (of_char c)) s @ replicate k 0) = (map (\<lambda>c. word_of_nat (of_char c)) s :: byte list)"
    by (subst takeWhile_append2) (auto simp: takeWhile_replicate)
  then show ?thesis by (simp add: bytes32ToString_def comp_def c)
qed

section \<open>Witnesses\<close>

definition sample_tokens :: info_contracts where
  "sample_tokens = \<lparr> tc_Symbol = (\<lambda>a. Inr ''knc''), tc_Symbol32 = (\<lambda>a. Inr []), tc_Name = (\<lambda>a. Inr ''Kyber''), tc_Name32 = (\<lambda>a. Inr []),
     tc_Decimals = (\<lambda>a. Inr 18) \<rparr>"

definition other_tokens :: info_contracts where
  "other_tokens = sample_tokens\<lparr> tc_Symbol := (\<lambda>a. Inl (Err ''timeout'')) \<rparr>"

lemma upper_knc: "upper ''knc'' = ''KNC''" by code_simp

lemma sample_symbol:
  "Symbol (Some postgres_tokens) sample_tokens None None 5 (NewTokenSymbol Map.empty, []) =
     ((put_symbol 5 ''KNC'' (NewTokenSymbol Map.empty), [(5, Some ''KNC'')]), Inr ''KNC'')"
  by (simp add: Symbol_def NewTokenSymbol_def postgres_tokens_def GetTokenSymbol_def symbol_from_contract_def getSymbolFns_def sample_tokens_def
      UpdateTokens_def upper_knc Let_def)

theorem Symbol_survives_restart_witness:
  "snd (Symbol (Some postgres_tokens) other_tokens None None 5 (NewTokenSymbol Map.empty, add_tokens [5, 6] [(5, Some ''KNC'')])) = Inr ''KNC''"
  by (rule Symbol_survives_restart [OF _ sample_symbol]) (simp_all add: NewTokenSymbol_def)

theorem Symbol_remembered_witness:
  "snd (Symbol (Some postgres_tokens) other_tokens (Some (Err ''down'')) None 5
     (symbol_calls (Some postgres_tokens) [(other_tokens, None, None, 6, [])] (put_symbol 5 ''KNC'' (NewTokenSymbol Map.empty)), [])) = Inr ''KNC''"
  by (simp add: Symbol_remembered [OF sample_symbol])

theorem Symbol_overwrites_stored_witness:
  "\<exists>t' rows'. Symbol (Some postgres_tokens) sample_tokens (Some (Err ''down'')) None 5 (NewTokenSymbol Map.empty, [(5, Some ''KNC1'')]) =
     ((t', rows'), Inr (upper ''knc'')) \<and> GetTokenSymbol None 5 rows' = Inr (upper ''knc'')"
  by (rule Symbol_overwrites_stored [where s = "''KNC1''"]) (simp_all add: NewTokenSymbol_def sample_tokens_def)

theorem Fetch_reserves_witness:
  "\<exists>result infos. Fetch (\<lambda>a k. if k < 2 then Inr 9 else Inl (Err ''abi: unmarshalling empty output'')) sorted_list_of_set [(''Kyber'', 5)] Map.empty =
     Some (Inr result) \<and> result ''Kyber'' = Some infos \<and> rsi_Address ` set infos = {9}"
proof -
  have "\<forall>(m, b)\<in>set [(''Kyber'', 5 :: addr)]. \<exists>e. (\<forall>k<2. (\<lambda>a k. if k < 2 then Inr 9 else Inl (Err ''abi: unmarshalling empty output'') :: addr go) b k = Inr 9) \<and>
      (\<lambda>a k. if k < 2 then Inr 9 else Inl (Err ''abi: unmarshalling empty output'') :: addr go) b (2 :: nat) = Inl e \<and> error_text e = emptyErrMsg"
    by (simp add: emptyErrMsg_def)
  from Fetch_reserves [where N = "\<lambda>b. 2" and rs = "\<lambda>b k. 9" and order = sorted_list_of_set, OF _ _ this, of "''Kyber''" 5]
  show ?thesis by (auto simp: lessThan_Suc numeral_2_eq_2 simp del: Fetch.simps)
qed

theorem bytes32ToString_padded_witness:
  "bytes32ToString (map (\<lambda>c. word_of_nat (of_char c)) ''MKR'' @ replicate 29 0) = ''MKR''"
  by (rule bytes32ToString_padded) simp

end
