(* ===== verification/TradeHttp.thy ===== *)
theory TradeHttp
  imports TradeReports TradePipeline TradeLoadProps QueryRange UserProfiles TokenSymbols
begin

text \<open>
  The HTTP server of the trade logs, \<open>tradelogs/http\<close>: its handlers over the storage of the theories \<open>TradeLoad\<close>,
  \<open>TradeReports\<close> and \<open>TradePipeline\<close>. A reply is the status of a failure or the body of a success; a handler that panics
  replies 500. The parameters of a request are \<open>None\<close> if gin cannot bind them; the validators of the repository and
  \<open>required\<close> are conditions of the handlers. The integrations, the functions of go-ethereum and the clock are parameters.
\<close>

section \<open>The server\<close>

type_synonym 'a reply = "nat + 'a"

record http_server =
  hs_getAddrToAppName :: "(addr \<rightharpoonup> string) go"
  hs_getUserProfile :: "addr \<Rightarrow> UserProfile go"
  hs_Symbol :: "addr \<Rightarrow> string go"
  hs_now :: gotime
  hs_IsHexAddress :: "string \<Rightarrow> bool"
  hs_HexToAddress :: "string \<Rightarrow> addr"
  hs_HexToHash :: "string \<Rightarrow> hash"
  hs_CountryCode2 :: "string \<Rightarrow> bool"

text \<open>Without an integration of names or profiles the server uses an empty map and an empty profile.\<close>

definition WithApplicationNames :: "(addr \<rightharpoonup> string) go option \<Rightarrow> (addr \<rightharpoonup> string) go" where
  "WithApplicationNames an = (case an of None \<Rightarrow> Inr Map.empty | Some names \<Rightarrow> names)"

definition WithUserProfile :: "(addr \<Rightarrow> UserProfile go) option \<Rightarrow> addr \<Rightarrow> UserProfile go" where
  "WithUserProfile up = (case up of None \<Rightarrow> (\<lambda>a. Inr \<lparr> up_UserName = '''', up_ProfileID = 0 \<rparr>) | Some f \<Rightarrow> f)"

text \<open>The storage: the database, its order and failures, the formatter and the environment of the reports.\<close>

record http_storage =
  ht_db :: trade_db
  ht_err :: "go_err option"
  ht_order :: query_order
  ht_formatter :: formatter
  ht_reports :: report_env
  ht_tokens :: token_table

definition failing :: "nat \<Rightarrow> 'a go \<Rightarrow> 'a reply" where
  "failing status = on_err (\<lambda>e. status)"

definition bind_query :: "'q option \<Rightarrow> ('q \<Rightarrow> bool) \<Rightarrow> ('q \<Rightarrow> 'a reply) \<Rightarrow> 'a reply" where
  "bind_query q valid handle = (case q of None \<Rightarrow> Inl 400 | Some q \<Rightarrow> if valid q then handle q else Inl 400)"

definition maxTimeFrame :: duration where "maxTimeFrame = 24 * Hour * 365 * 3"
definition defaultTimeFrame :: duration where "defaultTimeFrame = 24 * Hour * 3"
definition monthlyMaxTimeFrame :: duration where "monthlyMaxTimeFrame = 24 * Hour * 365 * 10"
definition monthlyTimeFrame :: duration where "monthlyTimeFrame = Hour * 31 * 24"

text \<open>The ranges of the handlers.\<close>

definition short_range :: "http_server \<Rightarrow> nat \<times> nat \<Rightarrow> (gotime \<times> gotime) reply" where
  "short_range H r = failing 400 (range_Validate (hs_now H) [] (bound_range (fst r) (snd r)))"

definition long_range :: "http_server \<Rightarrow> nat \<times> nat \<Rightarrow> (gotime \<times> gotime) reply" where
  "long_range H r = failing 400 (range_Validate (hs_now H)
     [TimeRangeQueryWithMaxTimeFrame maxTimeFrame, TimeRangeQueryWithDefaultTimeFrame defaultTimeFrame] (bound_range (fst r) (snd r)))"

definition freq_range :: "http_server \<Rightarrow> nat \<times> nat \<times> string \<Rightarrow> (gotime \<times> gotime \<times> string) reply" where
  "freq_range H = (\<lambda>(f, t, freq).
     failing 400 (freq_Validate (hs_now H) [] \<lparr> qf_range = bound_range f t, qf_Freq = freq, qf_freqs = None \<rparr>))"

section \<open>Trade logs\<close>

definition getTokenSymbol :: "http_server \<Rightarrow> addr \<Rightarrow> string go" where
  "getTokenSymbol H tokenAddress = hs_Symbol H tokenAddress"

definition resolved_symbol :: "http_server \<Rightarrow> addr \<Rightarrow> string \<Rightarrow> string go" where
  "resolved_symbol H a old = (if IsZeroAddress a then Inr old else getTokenSymbol H a)"

text \<open>The body of the loop over the trade logs.\<close>

definition resolve_trade :: "http_server \<Rightarrow> (addr \<rightharpoonup> string) \<Rightarrow> TradelogV4 \<Rightarrow> TradelogV4 go" where
  "resolve_trade H addrToAppName l =
     go_bind (hs_getUserProfile H (ui_UserAddress (User l))) (\<lambda>up.
       let l1 = l\<lparr> User := (User l)\<lparr> ui_UserName := up_UserName up, ui_ProfileID := up_ProfileID up \<rparr> \<rparr>;
           l2 = (if IntegrationApp l1 \<noteq> KyberSwapAppName
                 then (case addrToAppName (WalletAddress l) of None \<Rightarrow> l1 | Some name \<Rightarrow> l1\<lparr> IntegrationApp := name \<rparr>) else l1)
       in go_bind (resolved_symbol H (ti_SrcAddress (TokenInfo l)) (ti_SrcSymbol (TokenInfo l))) (\<lambda>srcSymbol.
          go_bind (resolved_symbol H (ti_DestAddress (TokenInfo l)) (ti_DestSymbol (TokenInfo l))) (\<lambda>dstSymbol.
            Inr (l2\<lparr> TokenInfo := (TokenInfo l2)\<lparr> ti_SrcSymbol := srcSymbol, ti_DestSymbol := dstSymbol \<rparr> \<rparr>))))"

definition getTradeLogs :: "http_server \<Rightarrow> http_storage \<Rightarrow> (nat \<times> nat) option \<Rightarrow> TradelogV4 list reply" where
  "getTradeLogs H S q = bind_query q (\<lambda>q. True) (\<lambda>q.
     go_bind (short_range H q) (\<lambda>(fromTime, toTime).
     go_bind (failing 500 (LoadTradeLogs (ht_err S) (ht_order S) (ht_formatter S) fromTime toTime (ht_db S))) (\<lambda>tradeLogs.
     go_bind (failing 500 (hs_getAddrToAppName H)) (\<lambda>addrToAppName.
       failing 500 (go_map (resolve_trade H addrToAppName) tradeLogs)))))"

definition getTradeLogsByTx :: "http_server \<Rightarrow> http_storage \<Rightarrow> string option \<Rightarrow> TradelogV4 list reply" where
  "getTradeLogsByTx H S param =
     (case param of
        None \<Rightarrow> Inl 500
      | Some tx \<Rightarrow>
          if tx = '''' then Inl 500 else if \<not> IsValidTxHash tx then Inl 400
          else failing 500 (LoadTradeLogsByTxHash (ht_err S) (ht_order S) (ht_formatter S) (hs_HexToHash H tx) (ht_db S)))"

section \<open>Symbols\<close>

definition getSymbol :: "http_server \<Rightarrow> http_storage \<Rightarrow> string option \<Rightarrow> string reply" where
  "getSymbol H S q = bind_query q (\<lambda>address. address \<noteq> '''') (\<lambda>address.
     failing 500 (GetTokenSymbol (ht_err S) (hs_HexToAddress H address) (ht_tokens S)))"

text \<open>The body is an array of pairs of an address and a symbol; gin validates structs and not the elements of an array.\<close>

definition updateSymbol :: "http_server \<Rightarrow> http_storage \<Rightarrow> (string \<times> string) list option \<Rightarrow> http_storage \<times> unit reply" where
  "updateSymbol H S q =
     (case q of
        None \<Rightarrow> (S, Inl 400)
      | Some tokens \<Rightarrow>
          (case UpdateTokens (ht_err S) (map (\<lambda>t. hs_HexToAddress H (fst t)) tokens) (map (\<lambda>t. upper (snd t)) tokens) (ht_tokens S) of
             (rows, e) \<Rightarrow> (S\<lparr> ht_tokens := rows \<rparr>, if e = None then Inr () else Inl 500)))"

section \<open>Reports\<close>

abbreviation is_address :: "http_server \<Rightarrow> string \<Rightarrow> bool" where
  "is_address H \<equiv> isEthereumAddress (hs_IsHexAddress H)"

definition getBurnFee :: "http_server \<Rightarrow> http_storage \<Rightarrow> ((nat \<times> nat \<times> string) \<times> string list) option \<Rightarrow> (addr \<rightharpoonup> (string \<rightharpoonup> f64)) option reply" where
  "getBurnFee H S q = bind_query q (\<lambda>(r, reserves). \<forall>a\<in>set reserves. is_address H a) (\<lambda>(r, reserves).
     go_bind (freq_range H r) (\<lambda>(fromTime, toTime, freq).
       failing 500 (GetAggregatedBurnFee (ht_reports S) (ht_db S) fromTime toTime freq (map (hs_HexToAddress H) reserves))))"

definition getAssetVolume :: "http_server \<Rightarrow> http_storage \<Rightarrow> ((nat \<times> nat \<times> string) \<times> string) option \<Rightarrow> (nat \<rightharpoonup> VolumeStats) option reply" where
  "getAssetVolume H S q = bind_query q (\<lambda>(r, asset). asset \<noteq> '''' \<and> is_address H asset) (\<lambda>(r, asset).
     go_bind (freq_range H r) (\<lambda>(fromTime, toTime, freq).
       failing 500 (GetAssetVolume (ht_reports S) (ht_db S) (hs_HexToAddress H asset) fromTime toTime freq)))"

definition getReserveVolume :: "http_server \<Rightarrow> http_storage \<Rightarrow> ((nat \<times> nat \<times> string) \<times> string \<times> string) option \<Rightarrow> (nat \<rightharpoonup> VolumeStats) option reply" where
  "getReserveVolume H S q = bind_query q (\<lambda>(r, asset, reserve). asset \<noteq> '''' \<and> is_address H asset \<and> is_address H reserve) (\<lambda>(r, asset, reserve).
     go_bind (freq_range H r) (\<lambda>(fromTime, toTime, freq).
       failing 500 (GetReserveVolume (ht_reports S) (ht_db S) (hs_HexToAddress H reserve) (hs_HexToAddress H asset) fromTime toTime freq)))"

definition getMonthlyVolume :: "http_server \<Rightarrow> http_storage \<Rightarrow> ((nat \<times> nat) \<times> string) option \<Rightarrow> (nat \<rightharpoonup> VolumeStats) option reply" where
  "getMonthlyVolume H S q = bind_query q (\<lambda>(r, reserve). is_address H reserve) (\<lambda>(r, reserve).
     go_bind (failing 400 (range_Validate (hs_now H)
         [TimeRangeQueryWithMaxTimeFrame monthlyMaxTimeFrame, TimeRangeQueryWithDefaultTimeFrame monthlyTimeFrame] (bound_range (fst r) (snd r))))
       (\<lambda>(fromTime, toTime). failing 500 (GetMonthlyVolume (hs_HexToAddress H reserve) fromTime toTime)))"

definition getUserVolume :: "http_server \<Rightarrow> http_storage \<Rightarrow> ((nat \<times> nat \<times> string) \<times> string) option \<Rightarrow> (nat \<rightharpoonup> UserVolume) reply" where
  "getUserVolume H S q = bind_query q (\<lambda>(r, user). user \<noteq> '''' \<and> is_address H user) (\<lambda>(r, user).
     go_bind (freq_range H r) (\<lambda>(fromTime, toTime, freq).
       failing 400 (GetUserVolume (ht_reports S) (ht_db S) (hs_HexToAddress H user) fromTime toTime freq)))"

definition getWalletFee :: "http_server \<Rightarrow> http_storage \<Rightarrow> ((nat \<times> nat \<times> string) \<times> string \<times> string \<times> int) option \<Rightarrow> (nat \<rightharpoonup> f64) option reply" where
  "getWalletFee H S q = bind_query q (\<lambda>(r, reserve, wallet, timezone). reserve \<noteq> '''' \<and> is_address H reserve \<and> wallet \<noteq> '''' \<and> is_address H wallet \<and>
       isSupportedTimezone timezone) (\<lambda>(r, reserve, wallet, timezone).
     go_bind (freq_range H r) (\<lambda>(fromTime, toTime, freq).
       failing 500 (GetAggregatedWalletFee (ht_reports S) (ht_db S) (re_Hex (ht_reports S) (hs_HexToAddress H reserve))
         (re_Hex (ht_reports S) (hs_HexToAddress H wallet)) freq fromTime toTime timezone)))"

text \<open>\<open>sort.Sort\<close> of the reversed order; users with equal volumes may come in any order.\<close>

definition sort_UserList :: "(addr \<times> UserVolume) list \<Rightarrow> (addr \<times> UserVolume) list" where
  "sort_UserList = sort_key (\<lambda>u. - uv_ETHAmount (snd u))"

definition getUserList :: "http_server \<Rightarrow> http_storage \<Rightarrow> (nat \<times> nat) option \<Rightarrow> (addr \<times> UserVolume) list option reply" where
  "getUserList H S q = bind_query q (\<lambda>q. True) (\<lambda>q.
     go_bind (long_range H q) (\<lambda>(fromTime, toTime).
     go_bind (failing 500 (GetUserList (ht_reports S) (ht_db S) fromTime toTime)) (\<lambda>userList. Inr (map_option sort_UserList userList))))"

definition getIntegrationVolume :: "http_server \<Rightarrow> http_storage \<Rightarrow> (nat \<times> nat) option \<Rightarrow> (nat \<rightharpoonup> IntegrationVolume) option reply" where
  "getIntegrationVolume H S q = bind_query q (\<lambda>q. True) (\<lambda>q.
     go_bind (long_range H q) (\<lambda>(fromTime, toTime). failing 500 (GetIntegrationVolume (ht_reports S) (ht_db S) fromTime toTime)))"

definition getTokenHeatMap :: "http_server \<Rightarrow> http_storage \<Rightarrow> ((nat \<times> nat) \<times> string \<times> int) option \<Rightarrow> (string \<rightharpoonup> Heatmap) option reply" where
  "getTokenHeatMap H S q = bind_query q (\<lambda>(r, asset, timezone). asset \<noteq> '''' \<and> is_address H asset \<and> isSupportedTimezone timezone) (\<lambda>(r, asset, timezone).
     go_bind (long_range H r) (\<lambda>(fromTime, toTime).
       failing 500 (GetTokenHeatmap (ht_reports S) (ht_db S) (hs_HexToAddress H asset) fromTime toTime timezone)))"

text \<open>The reports with two queries: \<open>S'\<close> is the storage at the second one.\<close>

definition getTradeSummary :: "http_server \<Rightarrow> http_storage \<Rightarrow> http_storage \<Rightarrow> ((nat \<times> nat) \<times> int) option \<Rightarrow> (nat \<rightharpoonup> day_stats) option reply" where
  "getTradeSummary H S S' q = bind_query q (\<lambda>(r, timezone). isSupportedTimezone timezone) (\<lambda>(r, timezone).
     go_bind (long_range H r) (\<lambda>(fromTime, toTime).
       failing 500 (GetTradeSummary (ht_reports S) (ht_db S) (ht_db S') fromTime toTime timezone)))"

definition getWalletStats :: "http_server \<Rightarrow> http_storage \<Rightarrow> http_storage \<Rightarrow> ((nat \<times> nat) \<times> string \<times> int) option \<Rightarrow> (nat \<rightharpoonup> day_stats) option reply" where
  "getWalletStats H S S' q = bind_query q (\<lambda>(r, wallet, timezone). isSupportedTimezone timezone) (\<lambda>(r, wallet, timezone).
     failing 500 (GetWalletStats (ht_reports S) (ht_db S) (ht_db S') (TimestampMsToTime (fst r)) (TimestampMsToTime (snd r))
       (re_Hex (ht_reports S) (hs_HexToAddress H wallet)) timezone))"

definition getCountryStats :: "http_server \<Rightarrow> http_storage \<Rightarrow> http_storage \<Rightarrow> ((nat \<times> nat) \<times> string \<times> int) option \<Rightarrow> (nat \<rightharpoonup> day_stats) option reply" where
  "getCountryStats H S S' q = bind_query q
       (\<lambda>(r, country, timezone). country \<noteq> '''' \<and> isValidCountryCode (hs_CountryCode2 H) country \<and> isSupportedTimezone timezone)
       (\<lambda>(r, country, timezone).
     go_bind (long_range H r) (\<lambda>(fromTime, toTime).
       let countryCode = (if country = UnknownCountry then '''' else country)
       in failing 500 (GetCountryStats (ht_reports S) (ht_db S) (ht_db S') countryCode fromTime toTime timezone)))"

section \<open>The reports of the bot\<close>

definition getStats :: "http_server \<Rightarrow> http_storage \<Rightarrow> ((nat \<times> nat) \<times> nat) option \<Rightarrow> StatsResponse reply" where
  "getStats H S q = bind_query q (\<lambda>q. True) (\<lambda>(r, limit).
     go_bind (short_range H r) (\<lambda>(f, t). failing 500 (GetStats (ht_reports S) (ht_db S) f t)))"

definition getTopTokens :: "http_server \<Rightarrow> http_storage \<Rightarrow> ((nat \<times> nat) \<times> nat) option \<Rightarrow> (string \<rightharpoonup> f64) reply" where
  "getTopTokens H S q = bind_query q (\<lambda>q. True) (\<lambda>(r, limit).
     go_bind (short_range H r) (\<lambda>(f, t). failing 500 (GetTopTokens (ht_reports S) (ht_db S) (ht_tokens S) f t limit)))"

definition getTopIntegration :: "http_server \<Rightarrow> http_storage \<Rightarrow> ((nat \<times> nat) \<times> nat) option \<Rightarrow> (string \<rightharpoonup> f64) reply" where
  "getTopIntegration H S q = bind_query q (\<lambda>q. True) (\<lambda>(r, limit).
     go_bind (short_range H r) (\<lambda>(f, t). failing 500 (GetTopIntegrations (ht_reports S) (ht_db S) f t limit)))"

definition getTopReserves :: "http_server \<Rightarrow> http_storage \<Rightarrow> ((nat \<times> nat) \<times> nat) option \<Rightarrow> (string \<rightharpoonup> f64) reply" where
  "getTopReserves H S q = bind_query q (\<lambda>q. True) (\<lambda>(r, limit).
     go_bind (short_range H r) (\<lambda>(f, t). failing 500 (GetTopReserves (ht_reports S) (ht_db S) f t limit)))"

text \<open>The bot: an end of zero is the current time. The key of a trade stands for its number.\<close>

definition getBigTrades :: "http_server \<Rightarrow> formatter \<Rightarrow> big_db \<Rightarrow> (nat \<times> nat) option \<Rightarrow> BigTradeLog list reply" where
  "getBigTrades H F db q = bind_query q (\<lambda>q. True) (\<lambda>(f, t).
     let fromTime = TimestampMsToTime f; toTime = (if t = 0 then hs_now H else TimestampMsToTime t)
     in failing 500 (GetNotTwittedTrades F fromTime toTime db))"

definition updateBigTradesTwitted :: "trade_id list option \<Rightarrow> big_db \<Rightarrow> big_db \<times> unit reply" where
  "updateBigTradesTwitted q db =
     (case q of
        None \<Rightarrow> (db, Inl 400)
      | Some ids \<Rightarrow> (case UpdateBigTradesTwitted ids db of (db', e) \<Rightarrow> (db', if e = None then Inr () else Inl 500)))"

section \<open>Lemmas\<close>

lemma failing_Inr [simp]: "failing n r = Inr x \<longleftrightarrow> r = Inr x"
  by (simp add: failing_def)

lemma bind_query_Inr: "bind_query q valid handle = Inr x \<longleftrightarrow> (\<exists>p. q = Some p \<and> valid p \<and> handle p = Inr x)"
  by (auto simp: bind_query_def split: option.splits)

text \<open>What a handler changes in a trade log.\<close>

definition trade_details :: "UserProfile \<Rightarrow> (addr \<rightharpoonup> string) \<Rightarrow> string \<Rightarrow> string \<Rightarrow> TradelogV4 \<Rightarrow> TradelogV4" where
  "trade_details up names srcSymbol dstSymbol l =
     l\<lparr> User := (User l)\<lparr> ui_UserName := up_UserName up, ui_ProfileID := up_ProfileID up \<rparr>,
        IntegrationApp := (if IntegrationApp l = KyberSwapAppName then KyberSwapAppName
          else case names (WalletAddress l) of None \<Rightarrow> IntegrationApp l | Some name \<Rightarrow> name),
        TokenInfo := (TokenInfo l)\<lparr> ti_SrcSymbol := srcSymbol, ti_DestSymbol := dstSymbol \<rparr> \<rparr>"

lemma resolve_trade_Inr:
  "resolve_trade H names l = Inr l' \<longleftrightarrow> (\<exists>up s d. hs_getUserProfile H (ui_UserAddress (User l)) = Inr up \<and>
     resolved_symbol H (ti_SrcAddress (TokenInfo l)) (ti_SrcSymbol (TokenInfo l)) = Inr s \<and>
     resolved_symbol H (ti_DestAddress (TokenInfo l)) (ti_DestSymbol (TokenInfo l)) = Inr d \<and> l' = trade_details up names s d l)"
  by (auto simp: resolve_trade_def go_bind_Inr_iff trade_details_def Let_def split: option.splits)

lemma trade_details_id [simp]: "trade_id_of (trade_details up names s d l) = trade_id_of l"
  by (simp add: trade_details_def trade_id_of_def)

lemma go_map_filter:
  assumes "go_map f xs = Inr ys" "\<And>x y. f x = Inr y \<Longrightarrow> key y = key x"
  shows "go_map f (filter (\<lambda>x. key x = k) xs) = Inr (filter (\<lambda>y. key y = k) ys)"
  using assms(1)
proof (induction xs arbitrary: ys)
  case (Cons x xs)
  then obtain y ys' where y: "f x = Inr y" "go_map f xs = Inr ys'" "ys = y # ys'" by (auto simp: go_bind_Inr_iff)
  from Cons.IH [OF y(2)] assms(2) [OF y(1)] y show ?case by simp
qed simp

text \<open>An answer of the integrations for every trade.\<close>

definition integrations_answer :: "http_server \<Rightarrow> bool" where
  "integrations_answer H \<longleftrightarrow> (\<forall>a. \<exists>up. hs_getUserProfile H a = Inr up) \<and> (\<forall>a. \<exists>s. hs_Symbol H a = Inr s) \<and> (\<exists>names. hs_getAddrToAppName H = Inr names)"

lemma resolve_trade_answers: "integrations_answer H \<Longrightarrow> \<exists>l'. resolve_trade H names l = Inr l'"
proof -
  assume a: "integrations_answer H"
  then obtain up where "hs_getUserProfile H (ui_UserAddress (User l)) = Inr up" by (auto simp: integrations_answer_def)
  moreover have "\<exists>s. resolved_symbol H x old = Inr s" for x old using a by (auto simp: integrations_answer_def resolved_symbol_def getTokenSymbol_def)
  ultimately show ?thesis unfolding resolve_trade_Inr by blast
qed

lemma go_map_answers: "(\<And>x. \<exists>y. f x = Inr y) \<Longrightarrow> \<exists>ys. go_map f xs = Inr ys"
proof (induction xs)
  case (Cons x xs)
  then obtain y ys where "f x = Inr y" "go_map f xs = Inr ys" by blast
  then show ?case by simp
qed simp

text \<open>No trade is stored with an empty country: a country that is not known is NULL.\<close>

definition no_empty_country :: "trade_db \<Rightarrow> bool" where
  "no_empty_country db \<longleftrightarrow> (\<forall>x\<in>set (db_tradelogs db). tl_country x \<noteq> Some '''')"

lemma upsert_tradelog_country:
  "x \<in> set (upsert_tradelog r rows) \<Longrightarrow> x = r \<or> (\<exists>y\<in>set rows. tl_country x = tl_country y)"
  by (induction r rows rule: upsert_tradelog.induct) (auto split: if_splits)

lemma save_record_country:
  assumes "tx_state (save_record S F r n db) = Some db'" "no_empty_country db" "r_Country r \<noteq> Some ''''"
  shows "no_empty_country db'"
proof (cases "save_record S F r n db")
  case (TxOk m d)
  with assms(1) have "db' = d" by (simp add: tx_state_def)
  with save_record_tables(2) [OF TxOk] assms(2,3) show ?thesis
    by (auto simp: no_empty_country_def row_of_record_def dest!: upsert_tradelog_country)
next
  case (TxProgErr e d)
  then have "d = with_user_wallet r db"
    by (auto simp: save_record_def tx_simps insertionUser_def insertionWallet_def with_user_wallet_def split: sum.splits prod.splits)
  then have "db_tradelogs d = db_tradelogs db" by (simp add: with_user_wallet_def)
  with assms TxProgErr show ?thesis by (simp add: tx_state_def no_empty_country_def)
qed (use assms in \<open>simp add: tx_state_def\<close>)

lemma save_records_country:
  "tx_state (save_records S F rs n db) = Some db' \<Longrightarrow> no_empty_country db \<Longrightarrow> \<forall>r\<in>set rs. r_Country r \<noteq> Some '''' \<Longrightarrow> no_empty_country db'"
proof (induction rs arbitrary: n db)
  case (Cons r rs)
  from Cons.prems(1) have "tx_state (tx_then (save_record S F r n db) (save_records S F rs)) = Some db'" by simp
  from tx_state_then [OF this] show ?case
  proof (elim disjE exE conjE)
    fix m d assume "save_record S F r n db = TxOk m d" and rest: "tx_state (save_records S F rs m d) = Some db'"
    then have "tx_state (save_record S F r n db) = Some d" by (simp add: tx_state_def)
    from save_record_country [OF this Cons.prems(2)] Cons.prems(3) have "no_empty_country d" by simp
    with Cons.IH [OF rest] Cons.prems(3) show ?thesis by simp
  next
    fix e assume "save_record S F r n db = TxProgErr e db'"
    then have "tx_state (save_record S F r n db) = Some db'" by (simp add: tx_state_def)
    from save_record_country [OF this Cons.prems(2)] Cons.prems(3) show ?thesis by simp
  qed
qed (simp add: tx_state_def)

lemma save_body_country:
  assumes "tx_state (save_body S F rs db) = Some db'" "no_empty_country db" "\<forall>r\<in>set rs. r_Country r \<noteq> Some ''''"
  shows "no_empty_country db'"
proof -
  from tx_state_then [OF assms(1) [unfolded save_body_def]] obtain n1 db1 where
    1: "(if reserves_of rs = [] then TxOk 0 db else tx_exec (se_stmt S) (saveReserveAddress (reserves_of rs)) 0 db) = TxOk n1 db1"
    "tx_state (tx_then (tx_exec (se_stmt S) (saveTokens (tokens_of rs)) n1 db1) (save_records S F rs)) = Some db'" by (auto split: if_splits)
  from tx_state_then [OF 1(2)] obtain n2 db2 where
    2: "tx_exec (se_stmt S) (saveTokens (tokens_of rs)) n1 db1 = TxOk n2 db2" "tx_state (save_records S F rs n2 db2) = Some db'" by auto
  have "db_tradelogs db2 = db_tradelogs db"
    using 1(1) 2(1) by (auto simp: saveReserveAddress_def saveTokens_def tx_exec_Ok_iff split: if_splits)
  with assms(2) have "no_empty_country db2" by (simp add: no_empty_country_def)
  from save_records_country [OF 2(2) this assms(3)] show ?thesis .
qed

lemma gather_records_country: "gather_records S F db users logs = (Inr rs, logs') \<Longrightarrow> \<forall>r\<in>set rs. r_Country r \<noteq> Some ''''"
proof (induction logs arbitrary: users rs logs')
  case (Cons trd logs)
  obtain x trd' where rec: "recordFromTradeLog F trd = (x, trd')" by (cases "recordFromTradeLog F trd")
  with Cons.prems obtain r where r: "recordFromTradeLog F trd = (Inr r, trd')" by (cases x) auto
  then have "r_Country r \<noteq> Some ''''"
    by (auto simp: recordFromTradeLog_def go_bind_Inr_iff null_string_def split: sum.splits prod.splits if_splits)
  moreover from r Cons.prems obtain first rs1 logs1 where
    "gather_records S F db (insert (ui_UserAddress (User trd)) users) logs = (Inr rs1, logs1)" "rs = r\<lparr> r_IsFirstTrade := first \<rparr> # rs1"
    by (auto simp: Let_def go_bind_Inr_iff split: prod.splits sum.splits)
  ultimately show ?case using Cons.IH by simp
qed simp

lemma SaveTradeLogs_country:
  assumes "no_empty_country db"
  shows "no_empty_country (fst (SaveTradeLogs S F r db))"
proof (cases r)
  case (Some cr)
  obtain db1 e1 where 1: "save_reserves S cr db = (db1, e1)" by fastforce
  from save_reserves_frame [OF this] assms have ok: "no_empty_country db1"
    by (auto simp: trade_part_def no_empty_country_def dest: arg_cong [where f = db_tradelogs])
  show ?thesis
  proof (cases e1)
    case None
    obtain x logs1 where g: "gather_records S F db1 {} (cr_Trades cr) = (x, logs1)" by fastforce
    obtain db' logs' e where t: "save_trade_records S F (cr_Trades cr) db1 = (db', logs', e)" by (metis prod_cases3)
    then have "db' = db1 \<or> (\<exists>rs. x = Inr rs \<and> CommitOrRollback (se_commit S) (save_body S F rs db1) db1 = (db', e))"
      using g by (auto simp: save_trade_records_def split: sum.splits option.splits prod.splits)
    then have "no_empty_country db'"
      using ok save_body_country [OF _ ok] gather_records_country g CommitOrRollback_cases by blast
    with Some 1 None t show ?thesis by (simp add: SaveTradeLogs_def)
  qed (use Some 1 ok in \<open>simp add: SaveTradeLogs_def\<close>)
qed (use assms in \<open>simp add: SaveTradeLogs_def\<close>)

text \<open>A database that the saves of the crawler have filled.\<close>

inductive trades_crawled :: "trade_db \<Rightarrow> bool" where
  trades_crawled_empty: "trades_crawled empty_db"
| trades_crawled_save: "trades_crawled db \<Longrightarrow> trades_crawled (fst (SaveTradeLogs S F r db))"

lemma trades_crawled_country: "trades_crawled db \<Longrightarrow> no_empty_country db"
  by (induction rule: trades_crawled.induct) (simp add: no_empty_country_def empty_db_def, rule SaveTradeLogs_country)

lemma range_Validate_freq: "freq_Validate now [] \<lparr> qf_range = r, qf_Freq = freq, qf_freqs = None \<rparr> = Inr (f, t, freq') \<Longrightarrow> freq' = ''h'' \<or> freq' = ''d''"
  by (auto simp: freq_Validate_def defaultFreqs_def defaultFreq_def go_bind_Inr_iff Let_def split: option.splits if_splits)

lemma freq_range_window:
  assumes "freq_range H r = Inr (f, t, freq)"
  shows "\<exists>w. freq_window freq tz f t = Inr w"
proof -
  obtain a b c where r: "r = (a, b, c)" by (cases r)
  have "freq = ''h'' \<or> freq = ''d''" using assms range_Validate_freq by (simp add: freq_range_def r)
  moreover have "lower ''h'' = ''h''" "lower ''d'' = ''d''" by code_simp+
  ultimately show ?thesis by (auto simp: freq_window_def)
qed

section \<open>Properties\<close>

text \<open>
  C7: A trade that was saved and has a split is served when its time is in the range of the request: once, as it is read
  back, with only its profile, its application and its symbols filled in by the integrations.
\<close>

theorem getTradeLogs_serves_saved:
  assumes "SaveTradeLogs S (formatter_of contract) (Some cr) db = (db', logs', None)" "se_commit S = None" "db_ok db"
    and "distinct (map trade_id_of (cr_Trades cr))" "\<forall>trd\<in>set (cr_Trades cr). distinct (map fee_Index (Fees trd))"
    and "trade_id_of ` set (cr_Trades cr) \<inter> tradelog_ids db = {}"
    and "tokens_known contract dec db'" "order_ok (ht_order T)" "trd \<in> set (cr_Trades cr)"
    and "ht_db T = db'" "ht_err T = None" "ht_formatter T = formatter_of contract" "integrations_answer H" "short_range H q = Inr (f, t)"
  shows "\<exists>served. getTradeLogs H T (Some q) = Inr served \<and>
    (if f \<le> Timestamp trd \<and> Timestamp trd \<le> t \<and> trade_routes trd \<noteq> []
     then \<exists>l up names s d. filter (\<lambda>l. trade_id_of l = trade_id_of trd) served = [trade_details up names s d l] \<and> read_back contract trd l \<and>
       hs_getUserProfile H (ui_UserAddress (User l)) = Inr up \<and> hs_getAddrToAppName H = Inr names \<and>
       resolved_symbol H (ti_SrcAddress (TokenInfo l)) (ti_SrcSymbol (TokenInfo l)) = Inr s \<and>
       resolved_symbol H (ti_DestAddress (TokenInfo l)) (ti_DestSymbol (TokenInfo l)) = Inr d
     else filter (\<lambda>l. trade_id_of l = trade_id_of trd) served = [])"
proof -
  obtain names where names: "hs_getAddrToAppName H = Inr names" using assms(13) by (auto simp: integrations_answer_def)
  from saved_trade_loads [OF assms(1-9), of f t] obtain logs where
    logs: "LoadTradeLogs None (ht_order T) (formatter_of contract) f t db' = Inr logs"
    "if f \<le> Timestamp trd \<and> Timestamp trd \<le> t \<and> trade_routes trd \<noteq> []
     then \<exists>l. filter (\<lambda>l. trade_id_of l = trade_id_of trd) logs = [l] \<and> read_back contract trd l
     else filter (\<lambda>l. trade_id_of l = trade_id_of trd) logs = []" by blast
  obtain served where s: "go_map (resolve_trade H names) logs = Inr served"
    using go_map_answers [of "resolve_trade H names"] resolve_trade_answers [OF assms(13)] by blast
  have one: "go_map (resolve_trade H names) (filter (\<lambda>l. trade_id_of l = trade_id_of trd) logs) = Inr (filter (\<lambda>l. trade_id_of l = trade_id_of trd) served)"
    by (rule go_map_filter [OF s]) (auto simp: resolve_trade_Inr)
  have served: "getTradeLogs H T (Some q) = Inr served"
    using assms(10-12,14) logs(1) names s by (simp add: getTradeLogs_def bind_query_def failing_def)
  show ?thesis
  proof (cases "f \<le> Timestamp trd \<and> Timestamp trd \<le> t \<and> trade_routes trd \<noteq> []")
    case True
    with logs(2) obtain l where l: "filter (\<lambda>l. trade_id_of l = trade_id_of trd) logs = [l]" "read_back contract trd l" by auto
    with one obtain l' where l': "resolve_trade H names l = Inr l'" "filter (\<lambda>l. trade_id_of l = trade_id_of trd) served = [l']"
      by (auto simp: go_bind_Inr_iff)
    from l'(1) [unfolded resolve_trade_Inr] l(2) l'(2) names True served show ?thesis by auto
  next
    case False
    with logs(2) one have "filter (\<lambda>l. trade_id_of l = trade_id_of trd) served = []" by (auto split: if_splits)
    with False served show ?thesis by auto
  qed
qed

text \<open>
  C40: A symbol that was posted is the one of the token afterwards, in upper case, whatever text of its address is asked for,
  and also the one of a resolver that has the table as its storage.
\<close>

theorem getSymbol_after_updateSymbol:
  assumes "updateSymbol H S (Some tokens) = (S', r)" "ht_err S = None" "distinct (map (\<lambda>t. hs_HexToAddress H (fst t)) tokens)"
    and "(a, s) \<in> set tokens" "hs_HexToAddress H b = hs_HexToAddress H a" "b \<noteq> ''''" "s \<noteq> ''''"
    and "tg_cachedSymbol t (hs_HexToAddress H a) = None"
  shows "r = Inr () \<and> getSymbol H S' (Some b) = Inr (upper s) \<and>
    snd (Symbol (Some postgres_tokens) N None w (hs_HexToAddress H a) (t, ht_tokens S')) = Inr (upper s)"
proof -
  let ?ts = "map (\<lambda>t. hs_HexToAddress H (fst t)) tokens" and ?ss = "map (\<lambda>t. upper (snd t)) tokens"
  obtain i where i: "i < length tokens" "tokens ! i = (a, s)" using assms(4) by (auto simp: in_set_conv_nth)
  obtain rows e where u: "UpdateTokens None ?ts ?ss (ht_tokens S) = (rows, e)" by fastforce
  have e: "e = None" using u assms(3) by (auto simp: UpdateTokens_def)
  have S': "S' = S\<lparr> ht_tokens := rows \<rparr>" "r = Inr ()" using assms(1,2) u e by (auto simp: updateSymbol_def)
  from GetTokenSymbol_after_UpdateTokens [OF u [unfolded e], of i "[]"] i
  have g: "GetTokenSymbol None (hs_HexToAddress H a) rows = Inr (upper s)" by (simp add: add_tokens_def)
  have "upper s \<noteq> ''''" using assms(7) by (simp add: upper_def)
  with g S' assms(2,5,6,8) show ?thesis by (simp add: getSymbol_def bind_query_def failing_def Symbol_def postgres_tokens_def)
qed

text \<open>
  The statistics of the unknown country are null whatever trades were saved: the handler asks for an empty country,
  while a trade without a country is stored with NULL.
\<close>

theorem getCountryStats_unknown_null:
  assumes "trades_crawled (ht_db S)" "ht_db S' = ht_db S" "\<forall>n. re_err (ht_reports S) n = None"
    and "long_range H r = Inr w" "isSupportedTimezone timezone"
  shows "getCountryStats H S S' (Some (r, UnknownCountry, timezone)) = Inr None"
proof -
  obtain f t where w: "w = (f, t)" by (cases w)
  obtain field x y where d: "day_window timezone f t = (field, x, y)" by (metis prod_cases3)
  have e: "[r \<leftarrow> trades_between (ht_db S) x y. tl_country r = Some ''''] = []"
    using trades_crawled_country [OF assms(1)] by (auto simp: trades_between_def no_empty_country_def filter_empty_conv)
  then have "GetCountryStats (ht_reports S) (ht_db S) (ht_db S') '''' f t timezone = Inr None"
    using assms(3) by (simp only: GetCountryStats_def d prod.case e) (simp add: fees_joined_def left_join_def day_report_def select_rows_def group_by_def)
  moreover have "isValidCountryCode (hs_CountryCode2 H) UnknownCountry" "UnknownCountry \<noteq> ''''" by (simp_all add: isValidCountryCode_def UnknownCountry_def)
  ultimately show ?thesis using assms(4,5) w by (simp add: getCountryStats_def bind_query_def Let_def failing_def)
qed

text \<open>
  A request for a volume with a valid address and a range that passes is answered unless the database fails: the
  frequencies that pass are those that the storage knows.
\<close>

theorem getVolumes_answer:
  assumes "freq_range H r = Inr w" "address \<noteq> ''''" "hs_IsHexAddress H address" "\<forall>n. re_err (ht_reports S) n = None"
  shows "(\<exists>m. getAssetVolume H S (Some (r, address)) = Inr m) \<and> (\<exists>m. getUserVolume H S (Some (r, address)) = Inr m)"
proof -
  obtain f t freq where w: "w = (f, t, freq)" by (cases w)
  from freq_range_window [OF assms(1) [unfolded w], of 0] obtain field x y where d: "freq_window freq 0 f t = Inr (field, x, y)" by (metis prod_cases3)
  show ?thesis using assms w d
    by (auto simp: getAssetVolume_def getUserVolume_def bind_query_def isEthereumAddress_def GetAssetVolume_def GetUserVolume_def select_rows_def failing_def)
qed

text \<open>Four reports never have a body, and the monthly volume is always null.\<close>

theorem reports_without_body:
  "(\<exists>n. getBurnFee H S q1 = Inl n) \<and> (\<exists>n. getReserveVolume H S q2 = Inl n) \<and> (\<exists>n. getWalletFee H S q3 = Inl n) \<and>
   (\<exists>n. getTopReserves H S q4 = Inl n) \<and> getMonthlyVolume H S q5 \<in> {Inl 400, Inr None}"
proof (intro conjI)
  note defs = bind_query_def failing_def refused_query_def
  show "\<exists>n. getBurnFee H S q1 = Inl n" by (cases "getBurnFee H S q1")
      (auto simp: getBurnFee_def bind_query_Inr go_bind_Inr_iff GetAggregatedBurnFee_def refused_query_def split: prod.splits)
  show "\<exists>n. getReserveVolume H S q2 = Inl n" by (cases "getReserveVolume H S q2")
      (auto simp: getReserveVolume_def bind_query_Inr go_bind_Inr_iff GetReserveVolume_def refused_query_def split: prod.splits)
  show "\<exists>n. getWalletFee H S q3 = Inl n" by (cases "getWalletFee H S q3")
      (auto simp: getWalletFee_def bind_query_Inr go_bind_Inr_iff GetAggregatedWalletFee_def refused_query_def split: prod.splits)
  show "\<exists>n. getTopReserves H S q4 = Inl n" by (cases "getTopReserves H S q4")
      (auto simp: getTopReserves_def bind_query_Inr go_bind_Inr_iff GetTopReserves_def refused_query_def split: prod.splits)
  show "getMonthlyVolume H S q5 \<in> {Inl 400, Inr None}"
  proof (cases q5)
    case (Some q)
    obtain r reserve where q: "q = (r, reserve)" by (cases q)
    show ?thesis
      by (cases "range_Validate (hs_now H) [TimeRangeQueryWithMaxTimeFrame monthlyMaxTimeFrame, TimeRangeQueryWithDefaultTimeFrame monthlyTimeFrame]
          (bound_range (fst r) (snd r))")
        (auto simp: Some q getMonthlyVolume_def defs GetMonthlyVolume_def)
  qed (simp add: getMonthlyVolume_def defs)
qed

text \<open>The users of the list are those of the storage, with falling volumes.\<close>

theorem getUserList_sorted:
  assumes "getUserList H S (Some q) = Inr (Some users)"
  shows "\<exists>f t stored. long_range H q = Inr (f, t) \<and> GetUserList (ht_reports S) (ht_db S) f t = Inr (Some stored) \<and> mset users = mset stored \<and>
    sorted_wrt (\<lambda>u v. uv_ETHAmount (snd v) \<le> uv_ETHAmount (snd u)) users"
proof -
  from assms obtain f t stored where s: "long_range H q = Inr (f, t)" "GetUserList (ht_reports S) (ht_db S) f t = Inr (Some stored)"
    "users = sort_UserList stored" by (auto simp: getUserList_def bind_query_Inr go_bind_Inr_iff split: prod.splits)
  have "sorted (map (\<lambda>u. - uv_ETHAmount (snd u)) (sort_UserList stored))" by (simp add: sort_UserList_def)
  then have "sorted_wrt (\<lambda>u v. uv_ETHAmount (snd v) \<le> uv_ETHAmount (snd u)) users" by (simp add: s(3) sorted_map)
  moreover have "mset users = mset stored" by (simp add: s(3) sort_UserList_def)
  ultimately show ?thesis using s(1,2) by blast
qed

section \<open>Witnesses\<close>

definition sample_http :: http_server where
  "sample_http = \<lparr> hs_getAddrToAppName = WithApplicationNames None, hs_getUserProfile = WithUserProfile None, hs_Symbol = (\<lambda>a. Inr ''T''),
     hs_now = 10 ^ 15, hs_IsHexAddress = (\<lambda>s. True), hs_HexToAddress = (\<lambda>s. of_nat (length s)), hs_HexToHash = (\<lambda>s. 0),
     hs_CountryCode2 = (\<lambda>s. True) \<rparr>"

definition http_trade :: TradelogV4 where "http_trade = (sample_stored_trade 1)\<lparr> Timestamp := 10 ^ 15 \<rparr>"
definition http_result :: CrawlResult where "http_result = \<lparr> cr_Reserves = [], cr_UpdateWallets = [], cr_Trades = [http_trade] \<rparr>"

definition storage_of :: "trade_db \<Rightarrow> http_storage" where
  "storage_of db = \<lparr> ht_db = db, ht_err = None, ht_order = sample_order, ht_formatter = sample_formatter, ht_reports = exact_env, ht_tokens = [] \<rparr>"

lemma http_save: "\<exists>db logs. SaveTradeLogs no_errors sample_formatter (Some http_result) empty_db = (db, logs, None)"
  by (simp add: save_defs http_result_def http_trade_def sample_stored_trade_def empty_db_def zero_values formatter_of_def
      ETHAddr_def Let_def upt_rec)

lemma sample_short_range: "short_range sample_http (1000000000, 1000000001) = Inr (10 ^ 15, 10 ^ 15 + 10 ^ 6)"
  by (simp add: short_range_def failing_def range_Validate_def range_defaults_def check_range_def bound_range_def TimestampMsToTime_def time_Sub_def
      i64_id defaultMaxTimeFrame_def sample_http_def go_defs Let_def)

lemma sample_long_range: "long_range sample_http (1000000000, 1000000001) = Inr (10 ^ 15, 10 ^ 15 + 10 ^ 6)"
  by (simp add: long_range_def failing_def range_Validate_def range_defaults_def check_range_def bound_range_def TimestampMsToTime_def time_Sub_def
      i64_id TimeRangeQueryWithMaxTimeFrame_def TimeRangeQueryWithDefaultTimeFrame_def maxTimeFrame_def defaultTimeFrame_def sample_http_def go_defs Let_def)

theorem getTradeLogs_serves_saved_witness:
  "\<exists>db logs served l. SaveTradeLogs no_errors sample_formatter (Some http_result) empty_db = (db, logs, None) \<and>
     getTradeLogs sample_http (storage_of db) (Some (1000000000, 1000000001)) = Inr served \<and>
     filter (\<lambda>l. trade_id_of l = (900, 1)) served = [l]"
proof -
  from http_save obtain db logs where s: "SaveTradeLogs no_errors sample_formatter (Some http_result) empty_db = (db, logs, None)" by blast
  have t: "http_trade \<in> set (cr_Trades http_result)" "distinct (map trade_id_of (cr_Trades http_result))"
    "\<forall>trd\<in>set (cr_Trades http_result). distinct (map fee_Index (Fees trd))"
    by (simp_all add: http_result_def http_trade_def sample_stored_trade_def zero_values)
  have fresh: "trade_id_of ` set (cr_Trades http_result) \<inter> tradelog_ids empty_db = {}" by (simp add: tradelog_ids_def empty_db_def)
  have known: "tokens_known (\<lambda>a. Inr 18) (\<lambda>a. 18) db" by (simp add: tokens_known_def decimals_of_def)
  have order: "order_ok (ht_order (storage_of db))" by (simp add: order_ok_def storage_of_def sample_order_def)
  have answer: "integrations_answer sample_http" by (simp add: integrations_answer_def sample_http_def WithApplicationNames_def WithUserProfile_def)
  have st: "ht_db (storage_of db) = db" "ht_err (storage_of db) = None" "ht_formatter (storage_of db) = sample_formatter" by (simp_all add: storage_of_def)
  have f: "Timestamp http_trade = 10 ^ 15" "trade_id_of http_trade = (900, 1)" "trade_routes http_trade \<noteq> []"
    by (simp_all add: http_trade_def sample_stored_trade_def trade_id_of_def trade_routes_def zero_values ETHAddr_def)
  have "se_commit no_errors = None" by (simp add: no_errors_def)
  from getTradeLogs_serves_saved [OF s this empty_db_ok t(2,3) fresh known order t(1) st answer sample_short_range] f s show ?thesis by auto
qed

lemma upper_knc_http: "upper ''knc'' = ''KNC''" by code_simp

theorem getSymbol_after_updateSymbol_witness:
  "\<exists>S'. updateSymbol sample_http (storage_of empty_db) (Some [(''0x1'', ''knc'')]) = (S', Inr ()) \<and> getSymbol sample_http S' (Some ''0X1'') = Inr ''KNC''"
proof -
  obtain S' r where u: "updateSymbol sample_http (storage_of empty_db) (Some [(''0x1'', ''knc'')]) = (S', r)" by fastforce
  from getSymbol_after_updateSymbol [OF u, of "''0x1''" "''knc''" "''0X1''" "NewTokenSymbol Map.empty"] u show ?thesis
    by (simp add: storage_of_def sample_http_def NewTokenSymbol_def upper_knc_http)
qed

theorem getCountryStats_unknown_null_witness:
  "getCountryStats sample_http (storage_of (fst (SaveTradeLogs no_errors sample_formatter (Some http_result) empty_db)))
     (storage_of (fst (SaveTradeLogs no_errors sample_formatter (Some http_result) empty_db))) (Some ((1000000000, 1000000001), UnknownCountry, 7)) = Inr None"
proof (rule getCountryStats_unknown_null [OF _ _ _ sample_long_range])
  show "trades_crawled (ht_db (storage_of (fst (SaveTradeLogs no_errors sample_formatter (Some http_result) empty_db))))"
    unfolding storage_of_def by simp (intro trades_crawled_save trades_crawled_empty)
qed (simp_all add: storage_of_def exact_env_def isSupportedTimezone_def)

theorem getVolumes_answer_witness:
  "\<exists>m. getAssetVolume sample_http (storage_of report_db) (Some ((1000000000, 1000000001, ''d''), ''0x1'')) = Inr m"
proof -
  have "\<exists>w. freq_range sample_http (1000000000, 1000000001, ''d'') = Inr w"
    by (simp add: freq_range_def failing_def freq_Validate_def defaultFreqs_def range_Validate_def range_defaults_def check_range_def bound_range_def
        TimestampMsToTime_def time_Sub_def i64_id TimeRangeQueryWithMaxTimeFrame_def go_defs Let_def)
  then obtain w where "freq_range sample_http (1000000000, 1000000001, ''d'') = Inr w" by blast
  from getVolumes_answer [OF this, of "''0x1''" "storage_of report_db"] show ?thesis
    by (simp add: sample_http_def storage_of_def exact_env_def)
qed

theorem getUserList_sorted_witness:
  "\<exists>users. getUserList sample_http (storage_of report_db) (Some (864000000, 950400001)) = Inr (Some users) \<and>
     sorted_wrt (\<lambda>u v. uv_ETHAmount (snd v) \<le> uv_ETHAmount (snd u)) users"
proof -
  have r: "long_range sample_http (864000000, 950400001) = Inr (10 * Day, 11 * Day + 10 ^ 6)"
    by (simp add: long_range_def failing_def range_Validate_def range_defaults_def check_range_def bound_range_def TimestampMsToTime_def time_Sub_def
        i64_id TimeRangeQueryWithMaxTimeFrame_def TimeRangeQueryWithDefaultTimeFrame_def maxTimeFrame_def defaultTimeFrame_def sample_http_def go_defs Let_def)
  have "\<exists>users. getUserList sample_http (storage_of report_db) (Some (864000000, 950400001)) = Inr (Some users)"
    by (simp add: getUserList_def bind_query_def r storage_of_def GetUserList_def select_rows_def exact_env_def group_by_def failing_def
        report_db_def report_trade_def go_defs)
  then obtain users where u: "getUserList sample_http (storage_of report_db) (Some (864000000, 950400001)) = Inr (Some users)" by blast
  from getUserList_sorted [OF u] u show ?thesis by blast
qed

end
